(* ===== verification/Prelude.thy ===== *)
theory Prelude
  imports Main "HOL-Library.Word" "HOL-Library.AList"
begin

text \<open>
  The vocabulary every component of the development shares.

  \<^item> Identifiers are 128-bit words (Go's \<open>uuid.UUID\<close>); the all-zero word is \<open>uuid.Nil\<close>.
    \<open>uuid.New\<close> is never modelled as a function: an operation that mints an identifier takes
    the fresh one as an argument. The clock (\<open>time.Now\<close>) is an argument for the same reason.
  \<^item> Instants are integers (nanoseconds since the epoch).
  \<^item> A Go function returning \<open>(T, error)\<close> returns a value of the sum type \<open>'e + 'a\<close>;
    \<open>Inl e\<close> is the non-nil error. Wrapping with \<open>%w\<close> keeps \<open>errors.Is\<close> true, so a
    wrapped sentinel is the sentinel.
  \<^item> A Go map is an association list with distinct keys (\<open>AList.update\<close>, \<open>map_of\<close>);
    iteration order, which Go leaves unspecified, is the insertion order here and no
    statement depends on it.
\<close>

section \<open>Collections of facts\<close>

text \<open>Hints for the components: preservation of invariants and unfolding of the thin
  service layers that only forward to their store.\<close>

named_theorems inv_intros
named_theorems service_defs

section \<open>Identifiers and time\<close>

type_synonym uuid = "128 word"

abbreviation uuid_nil :: uuid where
  "uuid_nil \<equiv> 0"

type_synonym instant = int

section \<open>Results\<close>

definition rbind :: "'e + 'a \<Rightarrow> ('a \<Rightarrow> 'e + 'b) \<Rightarrow> 'e + 'b" where
  "rbind r f = (case r of Inl e \<Rightarrow> Inl e | Inr x \<Rightarrow> f x)"

lemma rbind_simps [simp]:
  "rbind (Inl e) f = Inl e"
  "rbind (Inr x) f = f x"
  by (simp_all add: rbind_def)

lemma rbind_eq_Inr: "rbind r f = Inr y \<longleftrightarrow> (\<exists>x. r = Inr x \<and> f x = Inr y)"
  by (cases r) simp_all

lemma rbind_eq_Inl:
  "rbind r f = Inl e \<longleftrightarrow> r = Inl e \<or> (\<exists>x. r = Inr x \<and> f x = Inl e)"
  by (cases r) simp_all

lemma rbind_split:
  "P (rbind r f) \<longleftrightarrow> (\<forall>e. r = Inl e \<longrightarrow> P (Inl e)) \<and> (\<forall>x. r = Inr x \<longrightarrow> P (f x))"
  by (cases r) simp_all

lemma rbind_split_asm:
  "P (rbind r f) \<longleftrightarrow>
     \<not> ((\<exists>e. r = Inl e \<and> \<not> P (Inl e)) \<or> (\<exists>x. r = Inr x \<and> \<not> P (f x)))"
  by (cases r) simp_all

lemmas rbind_splits = rbind_split rbind_split_asm

lemma rbind_cong [fundef_cong]:
  assumes "r = r'" and "\<And>x. r' = Inr x \<Longrightarrow> f x = g x"
  shows "rbind r f = rbind r' g"
  using assms by (cases r') simp_all

text \<open>A check that returns only an error: \<open>if err := check(); err != nil { return err }\<close>.\<close>

definition guard_err :: "bool \<Rightarrow> 'e \<Rightarrow> 'e + unit" where
  "guard_err ok e = (if ok then Inr () else Inl e)"

lemma guard_err_simps [simp]:
  "guard_err True e = Inr ()"
  "guard_err False e = Inl e"
  "guard_err b e = Inr u \<longleftrightarrow> b"
  "guard_err b e = Inl e' \<longleftrightarrow> \<not> b \<and> e' = e"
  by (auto simp: guard_err_def)

definition is_ok :: "'e + 'a \<Rightarrow> bool" where
  "is_ok r = (case r of Inl _ \<Rightarrow> False | Inr _ \<Rightarrow> True)"

lemma is_ok_simps [simp]: "\<not> is_ok (Inl e)" "is_ok (Inr x)"
  by (simp_all add: is_ok_def)

lemma is_ok_iff: "is_ok r \<longleftrightarrow> (\<exists>x. r = Inr x)"
  by (cases r) simp_all

section \<open>Statements and transactions\<close>

text \<open>
  A database statement takes the database and either fails, changing nothing, or returns a value
  and the new database. Statements compose with \<open>sbind\<close>; a Go function that runs a list of
  statements inside \<open>pool.Begin\<close> \dots \<open>tx.Commit\<close> with a deferred rollback is \<open>in_tx\<close>: on any
  failure the database is the one the transaction began with.
\<close>

type_synonym ('s, 'e, 'a) stmt = "'s \<Rightarrow> 'e + 'a \<times> 's"

definition sret :: "'a \<Rightarrow> ('s, 'e, 'a) stmt" where
  "sret x s = Inr (x, s)"

definition sfail :: "'e \<Rightarrow> ('s, 'e, 'a) stmt" where
  "sfail e s = Inl e"

definition sbind :: "('s, 'e, 'a) stmt \<Rightarrow> ('a \<Rightarrow> ('s, 'e, 'b) stmt) \<Rightarrow> ('s, 'e, 'b) stmt" where
  "sbind m f s = (case m s of Inl e \<Rightarrow> Inl e | Inr (x, s') \<Rightarrow> f x s')"

definition sseq :: "('s, 'e, 'a) stmt \<Rightarrow> ('s, 'e, 'b) stmt \<Rightarrow> ('s, 'e, 'b) stmt" where
  "sseq m k = sbind m (\<lambda>_. k)"

definition scheck :: "bool \<Rightarrow> 'e \<Rightarrow> ('s, 'e, unit) stmt" where
  "scheck ok e s = (if ok then Inr ((), s) else Inl e)"

definition sread :: "('s \<Rightarrow> 'e + 'a) \<Rightarrow> ('s, 'e, 'a) stmt" where
  "sread q s = (case q s of Inl e \<Rightarrow> Inl e | Inr x \<Rightarrow> Inr (x, s))"

definition smodify :: "('s \<Rightarrow> 's) \<Rightarrow> ('s, 'e, unit) stmt" where
  "smodify f s = Inr ((), f s)"

definition in_tx :: "('s, 'e, 'a) stmt \<Rightarrow> 's \<Rightarrow> ('e + 'a) \<times> 's" where
  "in_tx m s = (case m s of Inl e \<Rightarrow> (Inl e, s) | Inr (x, s') \<Rightarrow> (Inr x, s'))"

named_theorems stmt_defs
declare sret_def [stmt_defs] sfail_def [stmt_defs] sbind_def [stmt_defs] sseq_def [stmt_defs]
  scheck_def [stmt_defs] sread_def [stmt_defs] smodify_def [stmt_defs]

lemma sbind_Inr:
  "sbind m f s = Inr (y, t) \<longleftrightarrow> (\<exists>x u. m s = Inr (x, u) \<and> f x u = Inr (y, t))"
  by (auto simp: sbind_def split: sum.splits)

lemma sbind_Inl:
  "sbind m f s = Inl e \<longleftrightarrow> m s = Inl e \<or> (\<exists>x u. m s = Inr (x, u) \<and> f x u = Inl e)"
  by (auto simp: sbind_def split: sum.splits)

lemma sseq_Inr:
  "sseq m k s = Inr (y, t) \<longleftrightarrow> (\<exists>x u. m s = Inr (x, u) \<and> k u = Inr (y, t))"
  by (simp add: sseq_def sbind_Inr)

lemma sseq_Inl:
  "sseq m k s = Inl e \<longleftrightarrow> m s = Inl e \<or> (\<exists>x u. m s = Inr (x, u) \<and> k u = Inl e)"
  by (simp add: sseq_def sbind_Inl)

lemma stmt_basic_iffs [simp]:
  "sret x s = Inr (y, t) \<longleftrightarrow> y = x \<and> t = s"
  "sret x s \<noteq> Inl e"
  "sfail e s = Inl e' \<longleftrightarrow> e' = e"
  "sfail e s \<noteq> Inr p"
  "scheck b e s = Inr (u, t) \<longleftrightarrow> b \<and> t = s"
  "scheck b e s = Inl e' \<longleftrightarrow> \<not> b \<and> e' = e"
  "sread q s = Inr (x, t) \<longleftrightarrow> q s = Inr x \<and> t = s"
  "sread q s = Inl e' \<longleftrightarrow> q s = Inl e'"
  "smodify f s = Inr (u, t) \<longleftrightarrow> t = f s"
  "smodify f s \<noteq> Inl e"
  by (auto simp: stmt_defs split: sum.splits)

lemmas stmt_run = sbind_Inr sbind_Inl sseq_Inr sseq_Inl

lemma in_tx_Inl: "in_tx m s = (Inl e, t) \<longleftrightarrow> m s = Inl e \<and> t = s"
  by (auto simp: in_tx_def split: sum.splits)

lemma in_tx_Inr: "in_tx m s = (Inr x, t) \<longleftrightarrow> m s = Inr (x, t)"
  by (auto simp: in_tx_def split: sum.splits)

lemma in_tx_failed: "fst (in_tx m s) = Inl e \<Longrightarrow> snd (in_tx m s) = s"
  by (auto simp: in_tx_def split: sum.splits)

text \<open>An invariant every successful run of the body keeps is kept by the transaction,
  committed or rolled back.\<close>

lemma in_tx_invariant:
  assumes "I s" and "\<And>x t. m s = Inr (x, t) \<Longrightarrow> I t"
  shows "I (snd (in_tx m s))"
  using assms by (auto simp: in_tx_def split: sum.splits)

section \<open>Lists\<close>

lemma find_Some_in: "List.find P xs = Some x \<Longrightarrow> x \<in> set xs \<and> P x"
  by (induction xs) (auto split: if_splits)

lemma find_the_unique:
  assumes "x \<in> set xs" and "P x" and "\<And>y. y \<in> set xs \<Longrightarrow> P y \<Longrightarrow> y = x"
  shows "List.find P xs = Some x"
proof (cases "List.find P xs")
  case None
  then have "\<not> P x" using assms(1) by (auto simp: find_None_iff)
  with assms(2) show ?thesis by blast
next
  case (Some y)
  then have "y \<in> set xs" and "P y" by (auto dest: find_Some_in)
  then have "y = x" by (rule assms(3))
  with Some show ?thesis by simp
qed

text \<open>A primary key: two rows that agree on it are the same row.\<close>

lemma distinct_key:
  "distinct (map f xs) \<Longrightarrow> x \<in> set xs \<Longrightarrow> y \<in> set xs \<Longrightarrow> f x = f y \<Longrightarrow> x = y"
  by (induction xs) (auto simp: image_iff)

lemma find_app:
  "List.find P (xs @ ys) = (case List.find P xs of None \<Rightarrow> List.find P ys | Some x \<Rightarrow> Some x)"
  by (induction xs) auto

lemma list_ex_image: "list_ex (\<lambda>x. f x = y) xs \<longleftrightarrow> y \<in> f ` set xs"
  by (auto simp: list_ex_iff)

lemma fold_max_ge_init: "(a::'a::linorder) \<le> fold max xs a"
proof (induction xs arbitrary: a)
  case Nil
  show ?case by simp
next
  case (Cons x xs)
  have "a \<le> max x a" by simp
  also have "\<dots> \<le> fold max xs (max x a)" by (rule Cons.IH)
  finally show ?case by simp
qed

lemma fold_max_ge_mem: "x \<in> set xs \<Longrightarrow> (x::'a::linorder) \<le> fold max xs a"
proof (induction xs arbitrary: a)
  case Nil
  then show ?case by simp
next
  case (Cons y ys)
  have "y \<le> max y a" by simp
  also have "\<dots> \<le> fold max ys (max y a)" by (rule fold_max_ge_init)
  finally have "y \<le> fold max ys (max y a)" .
  with Cons show ?case by auto
qed

lemma fold_max_mem: "fold max xs a = a \<or> fold max xs (a::'a::linorder) \<in> set xs"
proof (induction xs arbitrary: a)
  case Nil
  show ?case by simp
next
  case (Cons y ys)
  show ?case using Cons.IH [of "max y a"] by (auto simp: max_def split: if_splits)
qed

lemma fold_max_le_iff: "fold max xs a \<le> (b::'a::linorder) \<longleftrightarrow> a \<le> b \<and> (\<forall>x \<in> set xs. x \<le> b)"
  by (induction xs arbitrary: a) auto

lemma le_fold_max_iff:
  "(b::'a::linorder) \<le> fold max xs a \<longleftrightarrow> b \<le> a \<or> (\<exists>x \<in> set xs. b \<le> x)"
  by (induction xs arbitrary: a) (auto simp: le_max_iff_disj)

text \<open>Removing one element's neighbours: the position of the first match.\<close>

fun index_of :: "('a \<Rightarrow> bool) \<Rightarrow> 'a list \<Rightarrow> nat option" where
  "index_of P [] = None"
| "index_of P (x # xs) = (if P x then Some 0 else map_option Suc (index_of P xs))"

lemma index_of_Some:
  "index_of P xs = Some i \<Longrightarrow> i < length xs \<and> P (xs ! i) \<and> (\<forall>j < i. \<not> P (xs ! j))"
proof (induction xs arbitrary: i)
  case Nil
  then show ?case by simp
next
  case (Cons x xs)
  show ?case
  proof (cases "P x")
    case True
    with Cons.prems show ?thesis by simp
  next
    case False
    with Cons.prems obtain k where k: "index_of P xs = Some k" "i = Suc k" by auto
    from Cons.IH [OF k(1)] False show ?thesis
      by (auto simp: k(2) less_Suc_eq_0_disj)
  qed
qed

lemma index_of_None: "index_of P xs = None \<longleftrightarrow> (\<forall>x \<in> set xs. \<not> P x)"
  by (induction xs) auto

section \<open>Association lists as Go maps\<close>

definition map_get :: "('k \<times> 'v) list \<Rightarrow> 'k \<Rightarrow> 'v \<Rightarrow> 'v" where
  \<comment> \<open>\<open>m[k]\<close>: the zero value when the key is absent\<close>
  "map_get m k z = (case map_of m k of None \<Rightarrow> z | Some v \<Rightarrow> v)"

lemma map_get_update:
  "map_get (AList.update k v m) k' z = (if k' = k then v else map_get m k' z)"
  by (simp add: map_get_def update_conv')

lemma map_get_Nil [simp]: "map_get [] k z = z"
  by (simp add: map_get_def)

lemma map_of_in_keys: "map_of m k = Some v \<Longrightarrow> k \<in> fst ` set m"
  by (metis domI dom_map_of_conv_image_fst)

end
