(* ===== verification/AccessCapability.thy ===== *)
theory AccessCapability
  imports Prelude
begin

text \<open>
  \<^verbatim>\<open>internal/core/access/capability.go\<close>: the ordered space roles, their wire names, the
  capability vocabulary and the table that says which role holds which capability.

  Go's \<open>Role\<close> is an \<open>int\<close> whose five values are the constants; it is a datatype here,
  ordered by rank (the \<open>iota\<close> value) through the library's \<open>linorder\<close> class. Go's
  \<open>Capability\<close> is a string type and stays one, because a capability no table names is a
  value the code has to refuse.
\<close>

section \<open>Roles\<close>

datatype Role = RoleNone | RoleViewer | RoleContributor | RoleAgent | RoleSpaceAdmin

fun role_rank :: "Role \<Rightarrow> nat" where
  "role_rank RoleNone = 0"
| "role_rank RoleViewer = 1"
| "role_rank RoleContributor = 2"
| "role_rank RoleAgent = 3"
| "role_rank RoleSpaceAdmin = 4"

lemma role_rank_inject: "role_rank a = role_rank b \<Longrightarrow> a = b"
  by (cases a; cases b) simp_all

instantiation Role :: linorder
begin

definition less_eq_Role :: "Role \<Rightarrow> Role \<Rightarrow> bool" where
  "less_eq_Role a b \<longleftrightarrow> role_rank a \<le> role_rank b"

definition less_Role :: "Role \<Rightarrow> Role \<Rightarrow> bool" where
  "less_Role a b \<longleftrightarrow> role_rank a < role_rank b"

instance
  by standard (auto simp: less_eq_Role_def less_Role_def dest: role_rank_inject)

end

lemma RoleNone_least [simp]: "RoleNone \<le> r"
  by (simp add: less_eq_Role_def)

lemma le_RoleNone [simp]: "r \<le> RoleNone \<longleftrightarrow> r = RoleNone"
  by (cases r) (simp_all add: less_eq_Role_def)

lemma RoleNone_less [simp]: "RoleNone < r \<longleftrightarrow> r \<noteq> RoleNone"
  by (cases r) (simp_all add: less_Role_def)

lemma less_RoleViewer: "r < RoleViewer \<longleftrightarrow> r = RoleNone"
  by (cases r) (simp_all add: less_Role_def)

lemma RoleViewer_le: "RoleViewer \<le> r \<longleftrightarrow> r \<noteq> RoleNone"
  by (cases r) (simp_all add: less_eq_Role_def)

lemma max_RoleNone [simp]: "max RoleNone r = r" "max r RoleNone = r"
  by (simp_all add: max_def)

lemmas role_order_defs = less_eq_Role_def less_Role_def max_def

section \<open>Wire names\<close>

definition roleNames :: "(Role \<times> string) list" where
  "roleNames =
     [(RoleNone, ''''), (RoleViewer, ''viewer''), (RoleContributor, ''contributor''),
      (RoleAgent, ''agent''), (RoleSpaceAdmin, ''space_admin'')]"

definition RoleString :: "Role \<Rightarrow> string" where
  "RoleString r = (case map_of roleNames r of None \<Rightarrow> '''' | Some s \<Rightarrow> s)"

datatype role_error = UnknownRole string

text \<open>The loop over \<open>roleNames\<close>: the first entry that is not \<open>RoleNone\<close> and carries the name.\<close>

definition ParseRole :: "string \<Rightarrow> role_error + Role" where
  "ParseRole s =
     (case List.find (\<lambda>(r, name). r \<noteq> RoleNone \<and> name = s) roleNames of
        Some (r, _) \<Rightarrow> Inr r
      | None \<Rightarrow> Inl (UnknownRole s))"

lemma RoleString_simps [simp]:
  "RoleString RoleNone = ''''"
  "RoleString RoleViewer = ''viewer''"
  "RoleString RoleContributor = ''contributor''"
  "RoleString RoleAgent = ''agent''"
  "RoleString RoleSpaceAdmin = ''space_admin''"
  by (simp_all add: RoleString_def roleNames_def)

lemma ParseRole_RoleString [simp]: "r \<noteq> RoleNone \<Longrightarrow> ParseRole (RoleString r) = Inr r"
  by (cases r) (simp_all add: ParseRole_def roleNames_def)

lemma ParseRole_Inr_iff: "ParseRole s = Inr r \<longleftrightarrow> r \<noteq> RoleNone \<and> s = RoleString r"
  by (cases r) (auto simp: ParseRole_def roleNames_def)

lemma ParseRole_empty [simp]: "ParseRole '''' = Inl (UnknownRole '''')"
  by (simp add: ParseRole_def roleNames_def)

lemma ParseRole_viewer [simp]: "ParseRole ''viewer'' = Inr RoleViewer"
  using ParseRole_RoleString [of RoleViewer] by simp

lemma RoleString_inject [simp]: "RoleString a = RoleString b \<longleftrightarrow> a = b"
  by (cases a; cases b) simp_all

section \<open>Capabilities\<close>

type_synonym Capability = string

abbreviation CapReadItems :: Capability where "CapReadItems \<equiv> ''read_items''"
abbreviation CapReadAggregates :: Capability where "CapReadAggregates \<equiv> ''read_aggregates''"
abbreviation CapCreateItems :: Capability where "CapCreateItems \<equiv> ''create_items''"
abbreviation CapEditOwnItems :: Capability where "CapEditOwnItems \<equiv> ''edit_own_items''"
abbreviation CapComment :: Capability where "CapComment \<equiv> ''comment''"
abbreviation CapEditAnyItem :: Capability where "CapEditAnyItem \<equiv> ''edit_any_item''"
abbreviation CapTransitionAnyItem :: Capability where
  "CapTransitionAnyItem \<equiv> ''transition_any_item''"
abbreviation CapManageQueue :: Capability where "CapManageQueue \<equiv> ''manage_queue''"
abbreviation CapManageSpace :: Capability where "CapManageSpace \<equiv> ''manage_space''"
abbreviation CapManageGrants :: Capability where "CapManageGrants \<equiv> ''manage_grants''"
abbreviation CapManageShares :: Capability where "CapManageShares \<equiv> ''manage_shares''"
abbreviation CapManageWorkflow :: Capability where "CapManageWorkflow \<equiv> ''manage_workflow''"
abbreviation CapSetVisibility :: Capability where "CapSetVisibility \<equiv> ''set_visibility''"

definition minRoleFor :: "(Capability \<times> Role) list" where
  "minRoleFor =
     [(CapReadItems, RoleViewer), (CapReadAggregates, RoleViewer),
      (CapCreateItems, RoleContributor), (CapEditOwnItems, RoleContributor),
      (CapComment, RoleContributor), (CapEditAnyItem, RoleAgent),
      (CapTransitionAnyItem, RoleAgent), (CapManageQueue, RoleAgent),
      (CapManageSpace, RoleSpaceAdmin), (CapManageGrants, RoleSpaceAdmin),
      (CapManageShares, RoleSpaceAdmin), (CapManageWorkflow, RoleSpaceAdmin)]"

definition orgLevelCaps :: "Capability list" where
  "orgLevelCaps = [CapSetVisibility]"

definition Grants :: "Role \<Rightarrow> Capability \<Rightarrow> bool" where
  "Grants r c =
     (case map_of minRoleFor c of
        None \<Rightarrow> False
      | Some minimum \<Rightarrow> if r = RoleNone then False else minimum \<le> r)"

text \<open>No capability is held by \<open>RoleNone\<close>: the table never names it as a minimum.\<close>

lemma minRoleFor_not_None: "map_of minRoleFor c = Some m \<Longrightarrow> m \<noteq> RoleNone"
  by (auto simp: minRoleFor_def split: if_splits)

lemma Grants_iff: "Grants r c \<longleftrightarrow> (\<exists>m. map_of minRoleFor c = Some m \<and> m \<le> r)"
  by (auto simp: Grants_def dest: minRoleFor_not_None split: option.splits)

lemma Grants_RoleNone [simp]: "\<not> Grants RoleNone c"
  by (simp add: Grants_def split: option.splits)

lemma Grants_mono: "Grants r c \<Longrightarrow> r \<le> r' \<Longrightarrow> Grants r' c"
  by (auto simp: Grants_iff intro: order_trans)

lemma Grants_read_items [simp]: "Grants r CapReadItems \<longleftrightarrow> r \<noteq> RoleNone"
  by (simp add: Grants_iff minRoleFor_def RoleViewer_le)

lemma SpaceAdmin_grants: "Grants RoleSpaceAdmin c \<longleftrightarrow> c \<in> fst ` set minRoleFor"
  by (auto simp: Grants_iff less_eq_Role_def minRoleFor_def split: if_splits)

text \<open>The two tables partition the vocabulary: no capability is both space-scoped and
  org-level.\<close>

lemma caps_partition: "c \<in> set orgLevelCaps \<Longrightarrow> map_of minRoleFor c = None"
  by (auto simp: orgLevelCaps_def minRoleFor_def)

end
