(* ===== verification/AccessResolver.thy ===== *)
theory AccessResolver
  imports AccessCapability
begin

text \<open>
  \<^verbatim>\<open>internal/core/access/resolver.go\<close> and \<^verbatim>\<open>context.go\<close>: the per-request
  resolution of what a caller may do, and the capability checks that read it.

  The store the resolver is built over is a record of functions, one per method of the Go
  interface \<open>Store\<close>; \<open>'db\<close> is whatever the methods read. The contract a provider owes is
  the locale \<open>access_store\<close>; \<^verbatim>\<open>AccessStore.thy\<close> interprets it on the SQL adapter.

  The request context is an argument: \<open>None\<close> is a context on which no resolution was stored.
\<close>

section \<open>Errors and rows\<close>

datatype access_error =
    ErrNotOrgMember
  | ErrSubjectNotOrgMember
  | ErrSubjectTeamNotFound
  | ErrDuplicateGrant
  | ErrGrantNotFound
  | ErrBulkEmpty
  | ErrBulkTooLarge
  | ErrBulkDuplicateCell
  | ErrBulkUnknownTeam
  | ErrBulkUnknownSpace
  | ErrInvalidShareEntityType
  | ErrSharedEntityNotFound
  | ErrInvalidShareAudience
  | ErrShareAudienceIDRequired
  | ErrShareAudienceIDForbidden
  | ErrShareAudienceTeamNotFound
  | ErrShareCascadeNotPage
  | ErrShareExpiryNotFuture
  | ErrDuplicateShare
  | ErrShareNotFound
  | ErrShareAlreadyRevoked
  | ErrUnknownSubjectType string
  | ErrUnknownRole string
  | ErrStoreNotConfigured
  | ErrDatabase string

record AccessRow =
  row_SpaceID :: uuid
  row_Role :: string

record OrgRole =
  org_Name :: string
  org_Admin :: bool

record 'db AccessStore =
  st_OrgRole :: "'db \<Rightarrow> uuid \<Rightarrow> uuid \<Rightarrow> access_error + OrgRole"
  st_ResolveAccessRows :: "'db \<Rightarrow> uuid \<Rightarrow> uuid \<Rightarrow> access_error + AccessRow list"
  st_ListSpaceIDsByOrg :: "'db \<Rightarrow> uuid \<Rightarrow> access_error + uuid list"

section \<open>Resolution\<close>

record Resolution =
  res_OrgID :: uuid
  res_UserID :: uuid
  res_OrgRoleName :: string
  res_IsOrgAdmin :: bool
  res_roles :: "(uuid \<times> Role) list"
  res_adminSpaces :: "uuid list"
  res_readable :: "uuid list"

text \<open>One turn of the loop over the rows: an unparseable role is dropped, otherwise the
  highest role wins.\<close>

definition resolve_row :: "AccessRow \<Rightarrow> (uuid \<times> Role) list \<Rightarrow> (uuid \<times> Role) list" where
  "resolve_row row roles =
     (case ParseRole (row_Role row) of
        Inl _ \<Rightarrow> roles
      | Inr role \<Rightarrow>
          if map_get roles (row_SpaceID row) RoleNone < role
          then AList.update (row_SpaceID row) role roles
          else roles)"

definition resolve_rows :: "AccessRow list \<Rightarrow> (uuid \<times> Role) list" where
  "resolve_rows rows = fold resolve_row rows []"

definition Resolve :: "'db AccessStore \<Rightarrow> 'db \<Rightarrow> uuid \<Rightarrow> uuid \<Rightarrow> access_error + Resolution" where
  "Resolve st db orgID userID =
     rbind (st_OrgRole st db orgID userID) (\<lambda>orgRole.
       if org_Admin orgRole then
         rbind (st_ListSpaceIDsByOrg st db orgID) (\<lambda>ids.
           Inr \<lparr>res_OrgID = orgID, res_UserID = userID, res_OrgRoleName = org_Name orgRole,
                res_IsOrgAdmin = True, res_roles = [], res_adminSpaces = ids,
                res_readable = ids\<rparr>)
       else
         rbind (st_ResolveAccessRows st db orgID userID) (\<lambda>rows.
           let roles = resolve_rows rows in
           Inr \<lparr>res_OrgID = orgID, res_UserID = userID, res_OrgRoleName = org_Name orgRole,
                res_IsOrgAdmin = False, res_roles = roles, res_adminSpaces = [],
                res_readable = map fst roles\<rparr>))"

section \<open>Checks\<close>

definition CanReadSpace :: "Resolution \<Rightarrow> uuid \<Rightarrow> bool" where
  "CanReadSpace res spaceID =
     (if res_IsOrgAdmin res then List.member (res_adminSpaces res) spaceID
      else map_of (res_roles res) spaceID \<noteq> None)"

definition RoleOn :: "Resolution \<Rightarrow> uuid \<Rightarrow> Role" where
  "RoleOn res spaceID =
     (if res_IsOrgAdmin res then
        if CanReadSpace res spaceID then RoleSpaceAdmin else RoleNone
      else map_get (res_roles res) spaceID RoleNone)"

definition res_Can :: "Resolution \<Rightarrow> Capability \<Rightarrow> uuid \<Rightarrow> bool" where
  "res_Can res c spaceID =
     (if res_IsOrgAdmin res then CanReadSpace res spaceID
      else Grants (RoleOn res spaceID) c)"

definition res_CanOrgWide :: "Resolution \<Rightarrow> Capability \<Rightarrow> bool" where
  "res_CanOrgWide res c = (if List.member orgLevelCaps c then res_IsOrgAdmin res else False)"

definition ReadableSpaceIDs :: "Resolution \<Rightarrow> uuid list" where
  "ReadableSpaceIDs res = res_readable res"

text \<open>The context helpers, failing closed without a resolution.\<close>

definition Can :: "Resolution option \<Rightarrow> Capability \<Rightarrow> uuid \<Rightarrow> bool" where
  "Can ctx c spaceID = (case ctx of None \<Rightarrow> False | Some res \<Rightarrow> res_Can res c spaceID)"

definition CanOrgWide :: "Resolution option \<Rightarrow> Capability \<Rightarrow> bool" where
  "CanOrgWide ctx c = (case ctx of None \<Rightarrow> False | Some res \<Rightarrow> res_CanOrgWide res c)"

definition CanEditEntity :: "Resolution option \<Rightarrow> uuid \<Rightarrow> uuid \<Rightarrow> bool" where
  "CanEditEntity ctx spaceID createdBy =
     (case ctx of
        None \<Rightarrow> False
      | Some res \<Rightarrow>
          if res_Can res CapEditAnyItem spaceID then True
          else createdBy = res_UserID res \<and> res_Can res CapEditOwnItems spaceID)"

section \<open>The loop computes the highest role\<close>

text \<open>The specification: the roles the rows carry for one space, and their maximum.\<close>

definition parsed_roles :: "AccessRow list \<Rightarrow> uuid \<Rightarrow> Role list" where
  "parsed_roles rows s =
     concat (map (\<lambda>row. case ParseRole (row_Role row) of Inl _ \<Rightarrow> [] | Inr r \<Rightarrow> [r])
       (filter (\<lambda>row. row_SpaceID row = s) rows))"

definition highest_role :: "AccessRow list \<Rightarrow> uuid \<Rightarrow> Role" where
  "highest_role rows s = fold max (parsed_roles rows s) RoleNone"

lemma parsed_roles_simps [simp]:
  "parsed_roles [] s = []"
  "parsed_roles (row # rows) s =
     (if row_SpaceID row = s
      then (case ParseRole (row_Role row) of Inl _ \<Rightarrow> [] | Inr r \<Rightarrow> [r]) @ parsed_roles rows s
      else parsed_roles rows s)"
  by (simp_all add: parsed_roles_def)

lemma set_parsed_roles:
  "set (parsed_roles rows s) =
     {r. \<exists>row \<in> set rows. row_SpaceID row = s \<and> ParseRole (row_Role row) = Inr r}"
  by (induction rows) (auto split: sum.splits)

lemma map_get_resolve_row:
  "map_get (resolve_row row roles) s RoleNone =
     (if row_SpaceID row = s
      then fold max (case ParseRole (row_Role row) of Inl _ \<Rightarrow> [] | Inr r \<Rightarrow> [r])
             (map_get roles s RoleNone)
      else map_get roles s RoleNone)"
  by (auto simp: resolve_row_def map_get_update max_def not_less split: sum.splits)

lemma map_get_fold_resolve_row:
  "map_get (fold resolve_row rows roles) s RoleNone =
     fold max (parsed_roles rows s) (map_get roles s RoleNone)"
  by (induction rows arbitrary: roles) (simp_all add: map_get_resolve_row split: sum.splits)

lemma resolve_rows_highest: "map_get (resolve_rows rows) s RoleNone = highest_role rows s"
  by (simp add: resolve_rows_def highest_role_def map_get_fold_resolve_row)

text \<open>A key is present exactly when its role is not \<open>RoleNone\<close>: the loop never stores the
  zero role, so the readable set and the role table agree.\<close>

lemma resolve_row_stores_role:
  "(\<And>s r. map_of roles s = Some r \<Longrightarrow> r \<noteq> RoleNone) \<Longrightarrow>
   map_of (resolve_row row roles) s = Some r \<Longrightarrow> r \<noteq> RoleNone"
  by (auto simp: resolve_row_def update_conv' ParseRole_Inr_iff split: sum.splits if_splits)

lemma resolve_rows_stores_role:
  assumes "map_of (resolve_rows rows) s = Some r"
  shows "r \<noteq> RoleNone"
proof -
  have "map_of (fold resolve_row rows roles) s = Some r \<Longrightarrow>
        (\<And>s r. map_of roles s = Some r \<Longrightarrow> r \<noteq> RoleNone) \<Longrightarrow> r \<noteq> RoleNone" for roles
    by (induction rows arbitrary: roles) (simp, metis fold_simps(2) resolve_row_stores_role)
  from this [of "[]"] assms show ?thesis by (simp add: resolve_rows_def)
qed

lemma resolve_rows_key_iff:
  "map_of (resolve_rows rows) s \<noteq> None \<longleftrightarrow> highest_role rows s \<noteq> RoleNone"
  using resolve_rows_stores_role [of rows s] resolve_rows_highest [of rows s]
  by (auto simp: map_get_def split: option.splits)

lemma distinct_resolve_rows: "distinct (map fst (resolve_rows rows))"
proof -
  have "distinct (map fst roles) \<Longrightarrow> distinct (map fst (fold resolve_row rows roles))" for roles
    by (induction rows arbitrary: roles)
      (auto simp: resolve_row_def distinct_update split: sum.splits)
  then show ?thesis by (simp add: resolve_rows_def)
qed

lemma set_keys_resolve_rows: "s \<in> fst ` set (resolve_rows rows) \<longleftrightarrow> highest_role rows s \<noteq> RoleNone"
  unfolding resolve_rows_key_iff [symmetric] by (metis map_of_eq_None_iff)

lemma highest_role_mem: "highest_role rows s \<noteq> RoleNone \<Longrightarrow> highest_role rows s \<in> set (parsed_roles rows s)"
  using fold_max_mem [of "parsed_roles rows s" RoleNone] by (auto simp: highest_role_def)

lemma le_highest_role_iff:
  "m \<noteq> RoleNone \<Longrightarrow> m \<le> highest_role rows s \<longleftrightarrow> (\<exists>r \<in> set (parsed_roles rows s). m \<le> r)"
  by (simp add: highest_role_def le_fold_max_iff)

section \<open>What a resolution answers\<close>

lemma Resolve_cases:
  assumes "Resolve st db orgID userID = Inr res"
  obtains
    (admin) name ids where
      "st_OrgRole st db orgID userID = Inr \<lparr>org_Name = name, org_Admin = True\<rparr>"
      "st_ListSpaceIDsByOrg st db orgID = Inr ids"
      "res_IsOrgAdmin res" "res_adminSpaces res = ids" "res_readable res = ids"
      "res_UserID res = userID" "res_OrgID res = orgID" "res_OrgRoleName res = name"
  | (member) name rows where
      "st_OrgRole st db orgID userID = Inr \<lparr>org_Name = name, org_Admin = False\<rparr>"
      "st_ResolveAccessRows st db orgID userID = Inr rows"
      "\<not> res_IsOrgAdmin res" "res_roles res = resolve_rows rows"
      "res_readable res = map fst (resolve_rows rows)"
      "res_UserID res = userID" "res_OrgID res = orgID" "res_OrgRoleName res = name"
proof -
  obtain orgRole where o: "st_OrgRole st db orgID userID = Inr orgRole"
    using assms by (auto simp: Resolve_def rbind_eq_Inr)
  show ?thesis
  proof (cases "org_Admin orgRole")
    case True
    with assms o show ?thesis
      by (cases orgRole) (auto simp: Resolve_def rbind_eq_Inr intro: admin)
  next
    case False
    with assms o show ?thesis
      by (cases orgRole) (auto simp: Resolve_def rbind_eq_Inr Let_def intro: member)
  qed
qed

text \<open>The resolution of a member, and what each check answers on it.\<close>

lemma RoleOn_member:
  assumes "\<not> res_IsOrgAdmin res" and "res_roles res = resolve_rows rows"
  shows "RoleOn res s = highest_role rows s"
  using assms by (simp add: RoleOn_def resolve_rows_highest)

lemma CanReadSpace_iff_RoleOn:
  assumes "Resolve st db orgID userID = Inr res"
  shows "CanReadSpace res s \<longleftrightarrow> RoleOn res s \<noteq> RoleNone"
  using assms
proof (cases rule: Resolve_cases)
  case admin
  then show ?thesis by (simp add: RoleOn_def)
next
  case (member name rows)
  then show ?thesis
    using RoleOn_member [OF member(3,4), of s] resolve_rows_key_iff [of rows s]
    by (simp add: CanReadSpace_def)
qed

lemma readable_iff_CanReadSpace:
  assumes "Resolve st db orgID userID = Inr res"
  shows "s \<in> set (ReadableSpaceIDs res) \<longleftrightarrow> CanReadSpace res s"
  using assms
proof (cases rule: Resolve_cases)
  case admin
  then show ?thesis by (simp add: ReadableSpaceIDs_def CanReadSpace_def)
next
  case (member name rows)
  then show ?thesis
    using set_keys_resolve_rows [of s rows] resolve_rows_key_iff [of rows s]
    by (simp add: ReadableSpaceIDs_def CanReadSpace_def)
qed

text \<open>Reading is exactly the \<open>read_items\<close> capability, for admins and members alike.\<close>

lemma CanReadSpace_iff_Can_read:
  assumes "Resolve st db orgID userID = Inr res"
  shows "CanReadSpace res s \<longleftrightarrow> res_Can res CapReadItems s"
  using CanReadSpace_iff_RoleOn [OF assms, of s] by (simp add: res_Can_def)

text \<open>Every capability check needs the space to be readable.\<close>

lemma res_Can_readable:
  assumes "Resolve st db orgID userID = Inr res" and "res_Can res c s"
  shows "CanReadSpace res s"
  using assms CanReadSpace_iff_RoleOn [OF assms(1), of s]
  by (auto simp: res_Can_def split: if_splits)

section \<open>The contract of the store\<close>

text \<open>
  What the resolver relies on, stated over the facts of the database the store reads:
  \<open>member\<close> and \<open>admin\<close> classify the caller, \<open>live\<close> lists the org's live spaces and
  \<open>reaches\<close> says that some grant row of the given role reaches the caller on a space.
\<close>

locale access_store =
  fixes st :: "'db AccessStore"
    and ok :: "'db \<Rightarrow> bool"
    and member :: "'db \<Rightarrow> uuid \<Rightarrow> uuid \<Rightarrow> bool"
    and admin :: "'db \<Rightarrow> uuid \<Rightarrow> uuid \<Rightarrow> bool"
    and live :: "'db \<Rightarrow> uuid \<Rightarrow> uuid \<Rightarrow> bool"
    and reaches :: "'db \<Rightarrow> uuid \<Rightarrow> uuid \<Rightarrow> uuid \<Rightarrow> Role \<Rightarrow> bool"
  assumes org_role_member:
      "ok db \<Longrightarrow> member db org u \<Longrightarrow>
         \<exists>n. st_OrgRole st db org u = Inr \<lparr>org_Name = n, org_Admin = admin db org u\<rparr>"
    and org_role_stranger:
      "ok db \<Longrightarrow> \<not> member db org u \<Longrightarrow> st_OrgRole st db org u = Inl ErrNotOrgMember"
    and org_role_down: "\<not> ok db \<Longrightarrow> \<exists>e. st_OrgRole st db org u = Inl (ErrDatabase e)"
    and space_ids:
      "ok db \<Longrightarrow> \<exists>ids. st_ListSpaceIDsByOrg st db org = Inr ids \<and> (\<forall>s. s \<in> set ids \<longleftrightarrow> live db org s)"
    and access_rows:
      "ok db \<Longrightarrow> \<exists>rows. st_ResolveAccessRows st db org u = Inr rows \<and>
         (\<forall>s r. r \<noteq> RoleNone \<longrightarrow>
           (r \<in> set (parsed_roles rows s) \<longleftrightarrow> reaches db org u s r))"
begin

lemma resolve_stranger: "ok db \<Longrightarrow> \<not> member db org u \<Longrightarrow> Resolve st db org u = Inl ErrNotOrgMember"
  by (simp add: Resolve_def org_role_stranger)

lemma resolve_down: "\<not> ok db \<Longrightarrow> \<exists>e. Resolve st db org u = Inl (ErrDatabase e)"
  using org_role_down [of db org u] by (auto simp: Resolve_def)

lemma resolve_total:
  assumes "ok db" and "member db org u"
  shows "\<exists>res. Resolve st db org u = Inr res \<and> res_IsOrgAdmin res = admin db org u"
  using org_role_member [OF assms] space_ids [OF assms(1), of org] access_rows [OF assms(1), of org u]
  by (cases "admin db org u") (auto simp: Resolve_def Let_def)

lemma resolve_ok:
  assumes "Resolve st db org u = Inr res"
  shows "ok db" and "member db org u"
  using assms resolve_down [of db org u] resolve_stranger [of db org u] by fastforce+

lemma can_admin:
  assumes "Resolve st db org u = Inr res" and "admin db org u"
  shows "res_Can res c s \<longleftrightarrow> live db org s"
proof -
  note ok = resolve_ok [OF assms(1)]
  obtain n where "st_OrgRole st db org u = Inr \<lparr>org_Name = n, org_Admin = True\<rparr>"
    using org_role_member [OF ok] assms(2) by auto
  moreover obtain ids where "st_ListSpaceIDsByOrg st db org = Inr ids"
    and ids: "\<forall>s. s \<in> set ids \<longleftrightarrow> live db org s"
    using space_ids [OF ok(1)] by blast
  ultimately have "res_IsOrgAdmin res" and "res_adminSpaces res = ids"
    using assms(1) by (auto simp: Resolve_def)
  then have "res_Can res c s \<longleftrightarrow> s \<in> set ids"
    by (simp add: res_Can_def CanReadSpace_def)
  with ids show ?thesis by blast
qed

lemma role_member_ge_iff:
  assumes "Resolve st db org u = Inr res" and "\<not> admin db org u" and "m \<noteq> RoleNone"
  shows "m \<le> RoleOn res s \<longleftrightarrow> (\<exists>r. m \<le> r \<and> reaches db org u s r)"
proof -
  note ok = resolve_ok [OF assms(1)]
  obtain n where o: "st_OrgRole st db org u = Inr \<lparr>org_Name = n, org_Admin = False\<rparr>"
    using org_role_member [OF ok] assms(2) by auto
  obtain rows where r: "st_ResolveAccessRows st db org u = Inr rows"
    and rows: "\<And>s r. r \<noteq> RoleNone \<Longrightarrow> r \<in> set (parsed_roles rows s) \<longleftrightarrow> reaches db org u s r"
    using access_rows [OF ok(1)] by blast
  from assms(1) o r have "\<not> res_IsOrgAdmin res" and "res_roles res = resolve_rows rows"
    by (auto simp: Resolve_def Let_def)
  then have "RoleOn res s = highest_role rows s" by (rule RoleOn_member)
  then have "m \<le> RoleOn res s \<longleftrightarrow> (\<exists>r \<in> set (parsed_roles rows s). m \<le> r)"
    using le_highest_role_iff [OF assms(3)] by simp
  also have "\<dots> \<longleftrightarrow> (\<exists>r. m \<le> r \<and> reaches db org u s r)"
    using rows assms(3) by (metis le_RoleNone)
  finally show ?thesis .
qed

lemma can_member:
  assumes "Resolve st db org u = Inr res" and "\<not> admin db org u"
  shows "res_Can res c s \<longleftrightarrow>
    (\<exists>m r. map_of minRoleFor c = Some m \<and> m \<le> r \<and> reaches db org u s r)"
proof -
  have "\<not> res_IsOrgAdmin res"
    using resolve_total [OF resolve_ok [OF assms(1)]] assms by auto
  then have "res_Can res c s \<longleftrightarrow> (\<exists>m. map_of minRoleFor c = Some m \<and> m \<le> RoleOn res s)"
    by (simp add: res_Can_def Grants_iff)
  moreover have "m \<le> RoleOn res s \<longleftrightarrow> (\<exists>r. m \<le> r \<and> reaches db org u s r)"
    if "map_of minRoleFor c = Some m" for m
    using role_member_ge_iff [OF assms minRoleFor_not_None [OF that]] .
  ultimately show ?thesis by blast
qed

end

end
