(* ===== verification/OrgDb.thy ===== *)
theory OrgDb
  imports Prelude
begin

text \<open>
  The tables that say who belongs where, and the queries over them the adapters run:
  \<^verbatim>\<open>internal/db/queries/teams.sql\<close>, \<^verbatim>\<open>spaces.sql\<close>, \<^verbatim>\<open>users.sql\<close> and
  \<^verbatim>\<open>space_grants.sql\<close> over migrations 022 and 023.

  A table is the list of its rows in insertion order, so an \<open>ORDER BY created_at\<close> is the list's
  own order. An \<open>ORDER BY name\<close> depends on the server's collation and only decides how a
  result is displayed; those results keep the table's order and no statement reads it. A
  soft-deleted row stays in its table with the flag set. \<open>db_up\<close> is false when the pool cannot
  reach the server: then every query fails. Columns no modelled code reads (timestamps, avatars,
  provenance of a synchronised team) are left out.
\<close>

record UserRow =
  u_id :: uuid
  u_email :: string
  u_display_name :: string
  u_active :: bool
  u_deleted :: bool

record MembershipRow =
  m_org :: uuid
  m_user :: uuid
  m_role :: string

record TeamRow =
  t_id :: uuid
  t_org :: uuid
  t_parent :: "uuid option"
  t_path :: "uuid list"
  t_slug :: string
  t_name :: string
  t_description :: string
  t_default :: bool
  t_deleted :: bool

record TeamMemberRow =
  tm_team :: uuid
  tm_user :: uuid
  tm_org :: uuid
  tm_role :: string
  tm_primary :: bool

record SpaceRow =
  s_id :: uuid
  s_org :: uuid
  s_name :: string
  s_type :: string
  s_owner_team :: uuid
  s_visibility :: string
  s_workflow :: "uuid option"
  s_deleted :: bool

record GrantRow =
  g_id :: uuid
  g_org :: uuid
  g_space :: uuid
  g_subject_type :: string
  g_subject_id :: uuid
  g_role :: string
  g_created_by :: "uuid option"

text \<open>The JSON payload of an audit event, by key: text, identifiers and nested text lists.\<close>

datatype meta_value = MText string | MUuid uuid | MTexts "string list" | MBool bool

record AuditRow =
  au_id :: uuid
  au_org :: uuid
  au_actor :: "uuid option"
  au_action :: string
  au_entity_kind :: string
  au_entity_id :: uuid
  au_payload :: "(string \<times> meta_value) list"
  au_batch :: "uuid option"
  au_ticket_ref :: "string option"

record org_db =
  db_up :: bool
  users :: "UserRow list"
  memberships :: "MembershipRow list"
  teams :: "TeamRow list"
  team_members :: "TeamMemberRow list"
  spaces :: "SpaceRow list"
  space_grants :: "GrantRow list"
  audit_log :: "AuditRow list"

text \<open>What a statement can fail with: no server, a unique constraint (by name), a foreign key, a
  check constraint, or no row where one was asked for.\<close>

datatype sql_error = SqlDown | SqlUnique string | SqlForeignKey | SqlCheck string | SqlNoRows

section \<open>Queries on membership, teams and spaces\<close>

definition q_GetMembership :: "'x org_db_scheme \<Rightarrow> uuid \<Rightarrow> uuid \<Rightarrow> MembershipRow option" where
  "q_GetMembership db org user =
     List.find (\<lambda>m. m_org m = org \<and> m_user m = user) (memberships db)"

definition live_team :: "TeamRow \<Rightarrow> bool" where
  "live_team t \<longleftrightarrow> \<not> t_deleted t"

definition q_GetTeamByID :: "'x org_db_scheme \<Rightarrow> uuid \<Rightarrow> TeamRow option" where
  "q_GetTeamByID db i = List.find (\<lambda>t. t_id t = i \<and> live_team t) (teams db)"

definition q_ListTeamsByOrg :: "'x org_db_scheme \<Rightarrow> uuid \<Rightarrow> TeamRow list" where
  "q_ListTeamsByOrg db org = filter (\<lambda>t. t_org t = org \<and> live_team t) (teams db)"

definition q_ListSpaceIDsByOrg :: "'x org_db_scheme \<Rightarrow> uuid \<Rightarrow> uuid list" where
  "q_ListSpaceIDsByOrg db org = map s_id (filter (\<lambda>s. s_org s = org \<and> \<not> s_deleted s) (spaces db))"

definition q_GetSpaceByID :: "'x org_db_scheme \<Rightarrow> uuid \<Rightarrow> SpaceRow option" where
  "q_GetSpaceByID db i = List.find (\<lambda>s. s_id s = i \<and> \<not> s_deleted s) (spaces db)"

text \<open>\<open>direct_teams\<close>: the common table expression every resolution query opens with.\<close>

definition direct_teams :: "'x org_db_scheme \<Rightarrow> uuid \<Rightarrow> uuid \<Rightarrow> uuid list" where
  "direct_teams db org user =
     map tm_team (filter (\<lambda>tm. tm_user tm = user \<and> tm_org tm = org \<and>
       q_GetTeamByID db (tm_team tm) \<noteq> None) (team_members db))"

definition path_overlaps :: "uuid list \<Rightarrow> uuid list \<Rightarrow> bool" where
  \<comment> \<open>PostgreSQL's array overlap\<close>
  "path_overlaps p ids \<longleftrightarrow> list_ex (\<lambda>x. List.member ids x) p"

definition effective_team_ids :: "'x org_db_scheme \<Rightarrow> uuid \<Rightarrow> uuid \<Rightarrow> uuid list" where
  "effective_team_ids db org user =
     map t_id (filter (\<lambda>t. t_org t = org \<and> live_team t \<and>
       path_overlaps (t_path t) (direct_teams db org user)) (teams db))"

definition q_ListUserTeams :: "'x org_db_scheme \<Rightarrow> uuid \<Rightarrow> uuid \<Rightarrow> TeamRow list" where
  "q_ListUserTeams db org user =
     concat (map (\<lambda>t. map (\<lambda>_. t)
       (filter (\<lambda>tm. tm_team tm = t_id t \<and> tm_user tm = user \<and> tm_org tm = org) (team_members db)))
       (filter live_team (teams db)))"

definition space_live :: "'x org_db_scheme \<Rightarrow> uuid \<Rightarrow> bool" where
  "space_live db i \<longleftrightarrow> list_ex (\<lambda>s. s_id s = i \<and> \<not> s_deleted s) (spaces db)"

text \<open>\<open>ResolveAccessRows\<close>: grants on live spaces reaching the caller, then a viewer row for
  every live space the whole org sees.\<close>

definition grant_reaches :: "'x org_db_scheme \<Rightarrow> uuid \<Rightarrow> uuid \<Rightarrow> GrantRow \<Rightarrow> bool" where
  "grant_reaches db org user g \<longleftrightarrow>
     (g_subject_type g = ''user'' \<and> g_subject_id g = user) \<or>
     (g_subject_type g = ''team'' \<and> List.member (effective_team_ids db org user) (g_subject_id g))"

definition q_ResolveAccessRows :: "'x org_db_scheme \<Rightarrow> uuid \<Rightarrow> uuid \<Rightarrow> (uuid \<times> string) list" where
  "q_ResolveAccessRows db org user =
     map (\<lambda>g. (g_space g, g_role g))
       (filter (\<lambda>g. space_live db (g_space g) \<and> g_org g = org \<and> grant_reaches db org user g)
         (space_grants db)) @
     map (\<lambda>s. (s_id s, ''viewer''))
       (filter (\<lambda>s. s_org s = org \<and> \<not> s_deleted s \<and> s_visibility s = ''org'') (spaces db))"

text \<open>\<open>ListMatchingGrantsForSpace\<close>: the grants of one space that reach the user, each with the
  live granted team's name and path.\<close>

definition granted_team :: "'x org_db_scheme \<Rightarrow> GrantRow \<Rightarrow> TeamRow option" where
  "granted_team db g =
     (if g_subject_type g = ''team'' then q_GetTeamByID db (g_subject_id g) else None)"

definition grant_matches :: "'x org_db_scheme \<Rightarrow> uuid \<Rightarrow> uuid \<Rightarrow> GrantRow \<Rightarrow> bool" where
  "grant_matches db org user g \<longleftrightarrow>
     (g_subject_type g = ''user'' \<and> g_subject_id g = user) \<or>
     (g_subject_type g = ''team'' \<and>
       (case granted_team db g of None \<Rightarrow> False
        | Some t \<Rightarrow> path_overlaps (t_path t) (direct_teams db org user)))"

definition q_ListMatchingGrants ::
    "'x org_db_scheme \<Rightarrow> uuid \<Rightarrow> uuid \<Rightarrow> uuid \<Rightarrow> (GrantRow \<times> TeamRow option) list" where
  "q_ListMatchingGrants db org space user =
     map (\<lambda>g. (g, granted_team db g))
       (filter (\<lambda>g. g_space g = space \<and> grant_matches db org user g) (space_grants db))"

section \<open>Constraints of the tables\<close>

text \<open>What migrations 022 and 023 enforce and the resolution relies on: primary keys, one
  membership per user and org, grants whose subject and space belong to the grant's org.
  The last is the store layer's obligation (subject ids carry no foreign key).\<close>

definition grant_role_names :: "string list" where
  "grant_role_names = [''viewer'', ''contributor'', ''agent'', ''space_admin'']"

definition org_db_wf :: "'x org_db_scheme \<Rightarrow> bool" where
  "org_db_wf db \<longleftrightarrow>
     distinct (map t_id (teams db)) \<and>
     distinct (map s_id (spaces db)) \<and>
     distinct (map g_id (space_grants db)) \<and>
     distinct (map (\<lambda>g. (g_space g, g_subject_type g, g_subject_id g)) (space_grants db)) \<and>
     (\<forall>g \<in> set (space_grants db). g_subject_type g \<in> {''user'', ''team''}) \<and>
     (\<forall>g \<in> set (space_grants db). g_role g \<in> set grant_role_names) \<and>
     (\<forall>g \<in> set (space_grants db). \<forall>s \<in> set (spaces db). s_id s = g_space g \<longrightarrow> s_org s = g_org g) \<and>
     (\<forall>g \<in> set (space_grants db). \<forall>t \<in> set (teams db).
        g_subject_type g = ''team'' \<and> t_id t = g_subject_id g \<longrightarrow> t_org t = g_org g)"

lemma path_overlaps_iff: "path_overlaps p ids \<longleftrightarrow> (\<exists>x \<in> set p. x \<in> set ids)"
  by (auto simp: path_overlaps_def list_ex_iff)

lemma space_live_iff: "space_live db i \<longleftrightarrow> (\<exists>s \<in> set (spaces db). s_id s = i \<and> \<not> s_deleted s)"
  by (auto simp: space_live_def list_ex_iff)

lemma effective_team_ids_iff:
  "x \<in> set (effective_team_ids db org user) \<longleftrightarrow>
     (\<exists>t \<in> set (teams db). t_id t = x \<and> t_org t = org \<and> live_team t \<and>
        (\<exists>d \<in> set (t_path t). d \<in> set (direct_teams db org user)))"
  by (auto simp: effective_team_ids_def path_overlaps_iff)

lemma direct_teams_iff:
  "d \<in> set (direct_teams db org user) \<longleftrightarrow>
     (\<exists>tm \<in> set (team_members db). tm_team tm = d \<and> tm_user tm = user \<and> tm_org tm = org) \<and>
     (\<exists>t. q_GetTeamByID db d = Some t)"
  by (auto simp: direct_teams_def)

text \<open>By primary key: looking a live team up by id finds exactly the row that carries it.\<close>

lemma q_GetTeamByID_Some:
  assumes "distinct (map t_id (teams db))"
  shows "q_GetTeamByID db i = Some t \<longleftrightarrow> t \<in> set (teams db) \<and> t_id t = i \<and> live_team t"
proof
  assume "q_GetTeamByID db i = Some t"
  then show "t \<in> set (teams db) \<and> t_id t = i \<and> live_team t"
    unfolding q_GetTeamByID_def by (auto dest: find_Some_in)
next
  assume t: "t \<in> set (teams db) \<and> t_id t = i \<and> live_team t"
  show "q_GetTeamByID db i = Some t"
    unfolding q_GetTeamByID_def
    by (rule find_the_unique) (use t assms in \<open>auto dest: distinct_map [THEN iffD1] simp: inj_onD\<close>)
qed

lemma q_GetTeamByID_None:
  "q_GetTeamByID db i = None \<longleftrightarrow> (\<forall>t \<in> set (teams db). t_id t = i \<longrightarrow> \<not> live_team t)"
  by (auto simp: q_GetTeamByID_def find_None_iff)

lemma q_GetSpaceByID_Some:
  assumes "distinct (map s_id (spaces db))"
  shows "q_GetSpaceByID db i = Some s \<longleftrightarrow> s \<in> set (spaces db) \<and> s_id s = i \<and> \<not> s_deleted s"
proof
  assume "q_GetSpaceByID db i = Some s"
  then show "s \<in> set (spaces db) \<and> s_id s = i \<and> \<not> s_deleted s"
    unfolding q_GetSpaceByID_def by (auto dest: find_Some_in)
next
  assume s: "s \<in> set (spaces db) \<and> s_id s = i \<and> \<not> s_deleted s"
  show "q_GetSpaceByID db i = Some s"
    unfolding q_GetSpaceByID_def
    by (rule find_the_unique) (use s assms in \<open>auto dest: distinct_map [THEN iffD1] simp: inj_onD\<close>)
qed

end
