(* ===== verification/AccessStore.thy ===== *)
theory AccessStore
  imports AccessResolver OrgDb
begin

text \<open>
  \<^verbatim>\<open>internal/db/adapters/access.go\<close>, the resolution half: the SQL-backed provider of the
  resolver's store. The theory interprets the contract \<open>access_store\<close> on it, which is what turns
  the resolver's lemmas into statements about the rows of the database.
\<close>

section \<open>The adapter\<close>

text \<open>A query fails when the pool is down, and otherwise answers from the tables.\<close>

definition run_query :: "'x org_db_scheme \<Rightarrow> 'a \<Rightarrow> access_error + 'a" where
  "run_query db x = (if db_up db then Inr x else Inl (ErrDatabase ''query failed''))"

lemma run_query_simps [simp]:
  "db_up db \<Longrightarrow> run_query db x = Inr x"
  "\<not> db_up db \<Longrightarrow> run_query db x = Inl (ErrDatabase ''query failed'')"
  "run_query db x = Inr y \<longleftrightarrow> db_up db \<and> y = x"
  by (auto simp: run_query_def)

text \<open>\<^verbatim>\<open>internal/core/rbac\<close>: the membership roles that carry org-admin authority.\<close>

definition AdminRoleNames :: "string list" where
  "AdminRoleNames = [''owner'', ''admin'']"

definition pg_OrgRole :: "'x org_db_scheme \<Rightarrow> uuid \<Rightarrow> uuid \<Rightarrow> access_error + OrgRole" where
  "pg_OrgRole db orgID userID =
     rbind (run_query db (q_GetMembership db orgID userID)) (\<lambda>m.
       case m of
         None \<Rightarrow> Inl ErrNotOrgMember
       | Some m \<Rightarrow> Inr \<lparr>org_Name = m_role m, org_Admin = List.member AdminRoleNames (m_role m)\<rparr>)"

definition pg_ResolveAccessRows :: "'x org_db_scheme \<Rightarrow> uuid \<Rightarrow> uuid \<Rightarrow> access_error + AccessRow list" where
  "pg_ResolveAccessRows db orgID userID =
     rbind (run_query db (q_ResolveAccessRows db orgID userID)) (\<lambda>rows.
       Inr (map (\<lambda>(s, r). \<lparr>row_SpaceID = s, row_Role = r\<rparr>) rows))"

definition pg_ListSpaceIDsByOrg :: "'x org_db_scheme \<Rightarrow> uuid \<Rightarrow> access_error + uuid list" where
  "pg_ListSpaceIDsByOrg db orgID = run_query db (q_ListSpaceIDsByOrg db orgID)"

definition pg_access_store :: "'x org_db_scheme AccessStore" where
  "pg_access_store =
     \<lparr>st_OrgRole = pg_OrgRole, st_ResolveAccessRows = pg_ResolveAccessRows,
      st_ListSpaceIDsByOrg = pg_ListSpaceIDsByOrg\<rparr>"

lemma pg_access_store_simps [simp]:
  "st_OrgRole pg_access_store = pg_OrgRole"
  "st_ResolveAccessRows pg_access_store = pg_ResolveAccessRows"
  "st_ListSpaceIDsByOrg pg_access_store = pg_ListSpaceIDsByOrg"
  by (simp_all add: pg_access_store_def)

definition pg_IsOrgMember :: "'x org_db_scheme \<Rightarrow> uuid \<Rightarrow> uuid \<Rightarrow> access_error + bool" where
  "pg_IsOrgMember db orgID userID =
     rbind (run_query db (q_GetMembership db orgID userID)) (\<lambda>m. Inr (m \<noteq> None))"

definition pg_TeamExistsInOrg :: "'x org_db_scheme \<Rightarrow> uuid \<Rightarrow> uuid \<Rightarrow> access_error + bool" where
  "pg_TeamExistsInOrg db orgID teamID =
     rbind (run_query db (q_GetTeamByID db teamID)) (\<lambda>t.
       case t of None \<Rightarrow> Inr False | Some t \<Rightarrow> Inr (t_org t = orgID))"

section \<open>What the rows of the database say\<close>

definition org_member :: "'x org_db_scheme \<Rightarrow> uuid \<Rightarrow> uuid \<Rightarrow> bool" where
  "org_member db org u \<longleftrightarrow> q_GetMembership db org u \<noteq> None"

definition org_admin :: "'x org_db_scheme \<Rightarrow> uuid \<Rightarrow> uuid \<Rightarrow> bool" where
  "org_admin db org u \<longleftrightarrow>
     (case q_GetMembership db org u of None \<Rightarrow> False | Some m \<Rightarrow> m_role m \<in> set AdminRoleNames)"

definition live_space_of :: "'x org_db_scheme \<Rightarrow> uuid \<Rightarrow> uuid \<Rightarrow> bool" where
  "live_space_of db org s \<longleftrightarrow> (\<exists>x \<in> set (spaces db). s_id x = s \<and> s_org x = org \<and> \<not> s_deleted x)"

definition org_visible :: "'x org_db_scheme \<Rightarrow> uuid \<Rightarrow> uuid \<Rightarrow> bool" where
  "org_visible db org s \<longleftrightarrow>
     (\<exists>x \<in> set (spaces db). s_id x = s \<and> s_org x = org \<and> \<not> s_deleted x \<and> s_visibility x = ''org'')"

text \<open>A role reaches a user on a space through a grant row on a live space, or as the implicit
  viewer of an org-visible one.\<close>

definition role_reaches :: "'x org_db_scheme \<Rightarrow> uuid \<Rightarrow> uuid \<Rightarrow> uuid \<Rightarrow> Role \<Rightarrow> bool" where
  "role_reaches db org u s r \<longleftrightarrow>
     (\<exists>g \<in> set (space_grants db). g_space g = s \<and> g_org g = org \<and> space_live db s \<and>
        grant_reaches db org u g \<and> g_role g = RoleString r) \<or>
     (r = RoleViewer \<and> org_visible db org s)"

lemma pg_rows_reach:
  assumes "db_up db" and "r \<noteq> RoleNone"
  shows "r \<in> set (parsed_roles (map (\<lambda>(s, r). \<lparr>row_SpaceID = s, row_Role = r\<rparr>)
           (q_ResolveAccessRows db org u)) s) \<longleftrightarrow> role_reaches db org u s r"
proof -
  have v: "''viewer'' = RoleString r \<longleftrightarrow> r = RoleViewer"
    by (cases r) simp_all
  show ?thesis
    using assms(2)
    by (simp add: set_parsed_roles q_ResolveAccessRows_def role_reaches_def org_visible_def
        ParseRole_Inr_iff v bex_Un) (blast dest: sym)
qed

interpretation pg: access_store pg_access_store db_up org_member org_admin live_space_of role_reaches
proof
  fix db :: "'a org_db_scheme" and org u
  show "db_up db \<Longrightarrow> org_member db org u \<Longrightarrow>
      \<exists>n. st_OrgRole pg_access_store db org u = Inr \<lparr>org_Name = n, org_Admin = org_admin db org u\<rparr>"
    by (auto simp: pg_OrgRole_def org_member_def org_admin_def split: option.splits)
  show "db_up db \<Longrightarrow> \<not> org_member db org u \<Longrightarrow>
      st_OrgRole pg_access_store db org u = Inl ErrNotOrgMember"
    by (auto simp: pg_OrgRole_def org_member_def)
  show "\<not> db_up db \<Longrightarrow> \<exists>e. st_OrgRole pg_access_store db org u = Inl (ErrDatabase e)"
    by (auto simp: pg_OrgRole_def)
  show "db_up db \<Longrightarrow> \<exists>ids. st_ListSpaceIDsByOrg pg_access_store db org = Inr ids \<and>
      (\<forall>s. s \<in> set ids \<longleftrightarrow> live_space_of db org s)"
    by (auto simp: pg_ListSpaceIDsByOrg_def q_ListSpaceIDsByOrg_def live_space_of_def)
  show "db_up db \<Longrightarrow> \<exists>rows. st_ResolveAccessRows pg_access_store db org u = Inr rows \<and>
      (\<forall>s r. r \<noteq> RoleNone \<longrightarrow> (r \<in> set (parsed_roles rows s) \<longleftrightarrow> role_reaches db org u s r))"
    by (simp add: pg_ResolveAccessRows_def pg_rows_reach)
qed

section \<open>A database to evaluate on\<close>

text \<open>
  One organisation (1) with a live parent team (21) and its child (22), an owner (10), a member (11)
  of the parent team and a stranger (12). Space 31 is hidden and carries a grant to the child team;
  space 32 is visible to the org; space 33 is soft-deleted.
\<close>

definition demo_db :: org_db where
  "demo_db =
     \<lparr>db_up = True,
      users =
        [\<lparr>u_id = 10, u_email = ''ada@x'', u_display_name = ''Ada'', u_active = True, u_deleted = False\<rparr>,
         \<lparr>u_id = 11, u_email = ''bo@x'', u_display_name = ''Bo'', u_active = True, u_deleted = False\<rparr>],
      memberships =
        [\<lparr>m_org = 1, m_user = 10, m_role = ''owner''\<rparr>,
         \<lparr>m_org = 1, m_user = 11, m_role = ''member''\<rparr>],
      teams =
        [\<lparr>t_id = 20, t_org = 1, t_parent = None, t_path = [20], t_slug = ''default'',
          t_name = ''Default'', t_description = '''', t_default = True, t_deleted = False\<rparr>,
         \<lparr>t_id = 21, t_org = 1, t_parent = None, t_path = [21], t_slug = ''ops'',
          t_name = ''Ops'', t_description = '''', t_default = False, t_deleted = False\<rparr>,
         \<lparr>t_id = 22, t_org = 1, t_parent = Some 21, t_path = [21, 22], t_slug = ''on-call'',
          t_name = ''On call'', t_description = '''', t_default = False, t_deleted = False\<rparr>],
      team_members =
        [\<lparr>tm_team = 20, tm_user = 10, tm_org = 1, tm_role = ''member'', tm_primary = True\<rparr>,
         \<lparr>tm_team = 21, tm_user = 11, tm_org = 1, tm_role = ''lead'', tm_primary = True\<rparr>],
      spaces =
        [\<lparr>s_id = 31, s_org = 1, s_name = ''Ops desk'', s_type = ''beacon'', s_owner_team = 20,
          s_visibility = ''hidden'', s_workflow = None,
          s_deleted = False\<rparr>,
         \<lparr>s_id = 32, s_org = 1, s_name = ''Handbook'', s_type = ''beacon'', s_owner_team = 20,
          s_visibility = ''org'', s_workflow = None,
          s_deleted = False\<rparr>,
         \<lparr>s_id = 33, s_org = 1, s_name = ''Old'', s_type = ''beacon'', s_owner_team = 20,
          s_visibility = ''org'', s_workflow = None,
          s_deleted = True\<rparr>],
      space_grants =
        [\<lparr>g_id = 41, g_org = 1, g_space = 31, g_subject_type = ''team'', g_subject_id = 22,
          g_role = ''agent'', g_created_by = Some 10\<rparr>,
         \<lparr>g_id = 42, g_org = 1, g_space = 31, g_subject_type = ''user'', g_subject_id = 11,
          g_role = ''viewer'', g_created_by = Some 10\<rparr>],
      audit_log = []\<rparr>"

lemmas query_defs =
  q_GetMembership_def q_GetTeamByID_def q_ListTeamsByOrg_def q_ListSpaceIDsByOrg_def
  q_GetSpaceByID_def direct_teams_def path_overlaps_def effective_team_ids_def q_ListUserTeams_def
  space_live_def grant_reaches_def q_ResolveAccessRows_def granted_team_def grant_matches_def
  q_ListMatchingGrants_def live_team_def

lemma demo_db_wf: "org_db_wf demo_db"
  by (simp add: org_db_wf_def demo_db_def grant_role_names_def)

definition demo_member_resolution :: Resolution where
  "demo_member_resolution =
     \<lparr>res_OrgID = 1, res_UserID = 11, res_OrgRoleName = ''member'', res_IsOrgAdmin = False,
      res_roles = [(31, RoleAgent), (32, RoleViewer)], res_adminSpaces = [],
      res_readable = [31, 32]\<rparr>"

lemma demo_member_resolves: "Resolve pg_access_store demo_db 1 11 = Inr demo_member_resolution"
  by (simp add: Resolve_def pg_OrgRole_def pg_ResolveAccessRows_def demo_db_def query_defs
      AdminRoleNames_def resolve_rows_def resolve_row_def ParseRole_def roleNames_def map_get_def
      less_Role_def demo_member_resolution_def)

section \<open>Authorisation decided by the rows\<close>

text \<open>
  C1. The check every route makes is exactly what the tables say. For a caller whose access
  resolves, a capability holds on a space if and only if the caller is an org admin and the space
  is live in the org, or some role at or above the capability's minimum reaches the caller there:
  through a grant row naming the user, a grant row naming a team at or below one of the user's own
  teams, or the implicit viewer row of an org-visible space.
\<close>

theorem Can_iff_reached:
  assumes "Resolve pg_access_store db org u = Inr res"
  shows "Can (Some res) c s \<longleftrightarrow>
    (if org_admin db org u then live_space_of db org s
     else \<exists>m r. map_of minRoleFor c = Some m \<and> m \<le> r \<and> role_reaches db org u s r)"
  using pg.can_admin [OF assms] pg.can_member [OF assms] by (simp add: Can_def)

theorem Can_iff_reached_witness:
  "Can (Some demo_member_resolution) CapManageQueue 31 \<longleftrightarrow>
    (\<exists>m r. map_of minRoleFor CapManageQueue = Some m \<and> m \<le> r \<and> role_reaches demo_db 1 11 31 r)"
proof -
  have "\<not> org_admin demo_db 1 11"
    by (simp add: org_admin_def q_GetMembership_def demo_db_def AdminRoleNames_def)
  then show ?thesis
    using Can_iff_reached [OF demo_member_resolves, of CapManageQueue 31] by simp
qed

text \<open>
  C2. A resolution never crosses the organisation: a space on which any capability is held is a
  live space of the org the request named, for admins and members alike. It needs the grant rows
  to agree with their spaces on the org, which is the store's obligation.
\<close>

theorem Can_only_in_own_org:
  assumes "org_db_wf db" and "Resolve pg_access_store db org u = Inr res" and "Can (Some res) c s"
  shows "live_space_of db org s"
proof (cases "org_admin db org u")
  case True
  with assms(3) show ?thesis
    using pg.can_admin [OF assms(2)] by (simp add: Can_def)
next
  case False
  then obtain r where "role_reaches db org u s r"
    using assms(3) pg.can_member [OF assms(2), of c s] by (auto simp: Can_def)
  with assms(1) show ?thesis
    unfolding role_reaches_def org_visible_def live_space_of_def space_live_iff org_db_wf_def
    by metis
qed

theorem Can_only_in_own_org_witness: "live_space_of demo_db 1 31"
  by (rule Can_only_in_own_org [OF demo_db_wf demo_member_resolves, of CapEditAnyItem])
    (simp add: Can_def res_Can_def demo_member_resolution_def RoleOn_def map_get_def Grants_def
      minRoleFor_def less_eq_Role_def)

text \<open>Resolution is total on a reachable database: a member resolves, a stranger gets the one
  sentinel, and an unreachable database is an error rather than an empty resolution.\<close>

lemma Resolve_pg_cases:
  "(case Resolve pg_access_store db org u of
      Inl e \<Rightarrow> if db_up db then \<not> org_member db org u \<and> e = ErrNotOrgMember
               else \<exists>m. e = ErrDatabase m
    | Inr res \<Rightarrow> db_up db \<and> org_member db org u \<and> res_IsOrgAdmin res = org_admin db org u)"
  using pg.resolve_down [of db org u] pg.resolve_stranger [of db org u]
    pg.resolve_total [of db org u]
  by (cases "db_up db"; cases "org_member db org u") auto

end
