(* ===== verification/AccessExplain.thy ===== *)
theory AccessExplain
  imports AccessStore
begin

text \<open>
  \<^verbatim>\<open>internal/core/access/explain.go\<close>: the effective-access explanation, with the adapter
  methods it reads (\<^verbatim>\<open>internal/db/adapters/access.go\<close>). It answers "why can this person see
  this space" by a second route than the resolver; the main result is that the two never disagree.
\<close>

definition VisibilityOrg :: string where
  "VisibilityOrg = ''org''"

record MatchedGrant =
  mg_GrantID :: uuid
  mg_SubjectType :: string
  mg_SubjectID :: uuid
  mg_Role :: string
  mg_TeamName :: string
  mg_MatchedTeamID :: "uuid option"
  mg_MatchedTeamName :: string
  mg_Depth :: nat

record Explanation =
  ex_UserID :: uuid
  ex_SpaceID :: uuid
  ex_Access :: bool
  ex_Role :: string
  ex_OrgAdmin :: bool
  ex_OrgVisibility :: bool
  ex_Grants :: "MatchedGrant list"

record RawMatch =
  rm_GrantID :: uuid
  rm_SubjectType :: string
  rm_SubjectID :: uuid
  rm_Role :: string
  rm_TeamName :: string
  rm_TeamPath :: "uuid list"

record TeamRef =
  tr_ID :: uuid
  tr_Name :: string

record 'db ExplainStore =
  es_ListMatchingGrants :: "'db \<Rightarrow> uuid \<Rightarrow> uuid \<Rightarrow> uuid \<Rightarrow> access_error + RawMatch list"
  es_ListUserDirectTeams :: "'db \<Rightarrow> uuid \<Rightarrow> uuid \<Rightarrow> access_error + TeamRef list"
  es_SpaceVisibility :: "'db \<Rightarrow> uuid \<Rightarrow> access_error + string"

section \<open>Annotating and collecting the chain\<close>

text \<open>The loop from the end of the path: the index of the deepest team the user belongs to.\<close>

fun deepest_match :: "uuid list \<Rightarrow> (uuid \<times> TeamRef) list \<Rightarrow> nat \<Rightarrow> (nat \<times> TeamRef) option" where
  "deepest_match path directByID 0 = None"
| "deepest_match path directByID (Suc i) =
     (case map_of directByID (path ! i) of
        Some ref \<Rightarrow> Some (i, ref)
      | None \<Rightarrow> deepest_match path directByID i)"

definition annotateMatch :: "RawMatch \<Rightarrow> Role \<Rightarrow> (uuid \<times> TeamRef) list \<Rightarrow> MatchedGrant" where
  "annotateMatch m role directByID =
     (let mg = \<lparr>mg_GrantID = rm_GrantID m, mg_SubjectType = rm_SubjectType m,
                mg_SubjectID = rm_SubjectID m, mg_Role = RoleString role,
                mg_TeamName = rm_TeamName m, mg_MatchedTeamID = None, mg_MatchedTeamName = '''',
                mg_Depth = 0\<rparr>
      in if rm_SubjectType m \<noteq> ''team'' then mg
         else case deepest_match (rm_TeamPath m) directByID (length (rm_TeamPath m)) of
                None \<Rightarrow> mg
              | Some (i, ref) \<Rightarrow>
                  mg\<lparr>mg_MatchedTeamID := Some (tr_ID ref), mg_MatchedTeamName := tr_Name ref,
                     mg_Depth := length (rm_TeamPath m) - 1 - i\<rparr>)"

fun collectChain ::
    "RawMatch list \<Rightarrow> (uuid \<times> TeamRef) list \<Rightarrow> MatchedGrant list \<times> Role \<Rightarrow> MatchedGrant list \<times> Role" where
  "collectChain [] directByID (grants, best) = (grants, best)"
| "collectChain (m # ms) directByID (grants, best) =
     (case ParseRole (rm_Role m) of
        Inl _ \<Rightarrow> collectChain ms directByID (grants, best)
      | Inr role \<Rightarrow>
          collectChain ms directByID
            (grants @ [annotateMatch m role directByID], if best < role then role else best))"

definition direct_by_id :: "TeamRef list \<Rightarrow> (uuid \<times> TeamRef) list" where
  "direct_by_id direct = fold (\<lambda>t. AList.update (tr_ID t) t) direct []"

definition no_access :: "uuid \<Rightarrow> uuid \<Rightarrow> Explanation" where
  "no_access spaceID targetUser =
     \<lparr>ex_UserID = targetUser, ex_SpaceID = spaceID, ex_Access = False, ex_Role = '''',
      ex_OrgAdmin = False, ex_OrgVisibility = False, ex_Grants = []\<rparr>"

definition Explain ::
    "'db ExplainStore \<Rightarrow> 'db AccessStore \<Rightarrow> 'db \<Rightarrow> uuid \<Rightarrow> uuid \<Rightarrow> uuid \<Rightarrow> access_error + Explanation" where
  "Explain es st db orgID spaceID targetUser =
     (let out = no_access spaceID targetUser in
      case st_OrgRole st db orgID targetUser of
        Inl e \<Rightarrow> if e = ErrNotOrgMember then Inr out else Inl e
      | Inr orgRole \<Rightarrow>
          if org_Admin orgRole then
            Inr (out\<lparr>ex_Access := True, ex_OrgAdmin := True,
                     ex_Role := RoleString RoleSpaceAdmin\<rparr>)
          else
            rbind (es_SpaceVisibility es db spaceID) (\<lambda>visibility.
            rbind (es_ListUserDirectTeams es db orgID targetUser) (\<lambda>direct.
            rbind (es_ListMatchingGrants es db orgID spaceID targetUser) (\<lambda>matches.
              let (grants, best) = collectChain matches (direct_by_id direct) ([], RoleNone);
                  implicit = (visibility = VisibilityOrg \<and> best < RoleViewer);
                  best' = (if implicit then RoleViewer else best)
              in Inr (out\<lparr>ex_Grants := grants, ex_OrgVisibility := implicit,
                          ex_Access := RoleNone < best', ex_Role := RoleString best'\<rparr>)))))"

section \<open>The adapter\<close>

definition pg_ListMatchingGrants ::
    "'x org_db_scheme \<Rightarrow> uuid \<Rightarrow> uuid \<Rightarrow> uuid \<Rightarrow> access_error + RawMatch list" where
  "pg_ListMatchingGrants db orgID spaceID userID =
     rbind (run_query db (q_ListMatchingGrants db orgID spaceID userID)) (\<lambda>rows.
       Inr (map (\<lambda>(g, t).
         \<lparr>rm_GrantID = g_id g, rm_SubjectType = g_subject_type g, rm_SubjectID = g_subject_id g,
          rm_Role = g_role g,
          rm_TeamName = (case t of None \<Rightarrow> '''' | Some t \<Rightarrow> t_name t),
          rm_TeamPath = (case t of None \<Rightarrow> [] | Some t \<Rightarrow> t_path t)\<rparr>) rows))"

definition pg_ListUserDirectTeams :: "'x org_db_scheme \<Rightarrow> uuid \<Rightarrow> uuid \<Rightarrow> access_error + TeamRef list" where
  "pg_ListUserDirectTeams db orgID userID =
     rbind (run_query db (q_ListUserTeams db orgID userID)) (\<lambda>rows.
       Inr (map (\<lambda>t. \<lparr>tr_ID = t_id t, tr_Name = t_name t\<rparr>) rows))"

definition pg_SpaceVisibility :: "'x org_db_scheme \<Rightarrow> uuid \<Rightarrow> access_error + string" where
  "pg_SpaceVisibility db spaceID =
     rbind (run_query db (q_GetSpaceByID db spaceID)) (\<lambda>s.
       case s of None \<Rightarrow> Inl (ErrDatabase ''no rows'') | Some s \<Rightarrow> Inr (s_visibility s))"

definition pg_explain_store :: "'x org_db_scheme ExplainStore" where
  "pg_explain_store =
     \<lparr>es_ListMatchingGrants = pg_ListMatchingGrants,
      es_ListUserDirectTeams = pg_ListUserDirectTeams, es_SpaceVisibility = pg_SpaceVisibility\<rparr>"

lemma pg_explain_store_simps [simp]:
  "es_ListMatchingGrants pg_explain_store = pg_ListMatchingGrants"
  "es_ListUserDirectTeams pg_explain_store = pg_ListUserDirectTeams"
  "es_SpaceVisibility pg_explain_store = pg_SpaceVisibility"
  by (simp_all add: pg_explain_store_def)

section \<open>The chain\<close>

definition match_roles :: "RawMatch list \<Rightarrow> Role list" where
  "match_roles ms =
     concat (map (\<lambda>m. case ParseRole (rm_Role m) of Inl _ \<Rightarrow> [] | Inr r \<Rightarrow> [r]) ms)"

lemma collectChain_best:
  "snd (collectChain ms d (gs, best)) = fold max (match_roles ms) best"
  by (induction ms arbitrary: gs best)
    (auto simp: match_roles_def max_def not_less not_le split: sum.splits)

lemma collectChain_grants:
  "fst (collectChain ms d (gs, best)) =
     gs @ concat (map (\<lambda>m. case ParseRole (rm_Role m) of Inl _ \<Rightarrow> []
                           | Inr r \<Rightarrow> [annotateMatch m r d]) ms)"
  by (induction ms arbitrary: gs best) (auto split: sum.splits)

lemma set_match_roles: "set (match_roles ms) = {r. \<exists>m \<in> set ms. ParseRole (rm_Role m) = Inr r}"
  by (induction ms) (auto simp: match_roles_def split: sum.splits)

text \<open>The loop over the path picks the deepest position that is one of the user's teams.\<close>

lemma deepest_match_Some:
  "deepest_match path d n = Some (i, ref) \<Longrightarrow>
     i < n \<and> map_of d (path ! i) = Some ref \<and> (\<forall>j. i < j \<and> j < n \<longrightarrow> map_of d (path ! j) = None)"
proof (induction n)
  case 0
  then show ?case by simp
next
  case (Suc n)
  then show ?case
    by (cases "map_of d (path ! n)") (auto simp: less_Suc_eq)
qed

lemma deepest_match_None:
  "deepest_match path d n = None \<longleftrightarrow> (\<forall>j < n. map_of d (path ! j) = None)"
  by (induction n) (auto simp: less_Suc_eq split: option.splits)

lemma map_of_direct_by_id:
  "map_of (direct_by_id ts) k = None \<longleftrightarrow> k \<notin> tr_ID ` set ts"
  "map_of (direct_by_id ts) k = Some ref \<Longrightarrow> ref \<in> set ts \<and> tr_ID ref = k"
proof -
  have n: "map_of (fold (\<lambda>t. AList.update (tr_ID t) t) ts m) k = None \<longleftrightarrow>
             map_of m k = None \<and> k \<notin> tr_ID ` set ts" for m
    by (induction ts arbitrary: m) (auto simp: update_conv')
  have s: "map_of (fold (\<lambda>t. AList.update (tr_ID t) t) ts m) k = Some ref \<Longrightarrow>
             (ref \<in> set ts \<and> tr_ID ref = k) \<or> map_of m k = Some ref" for m
  proof (induction ts arbitrary: m)
    case Nil
    then show ?case by simp
  next
    case (Cons t ts)
    then show ?case
      using Cons.IH [of "AList.update (tr_ID t) t m"] by (auto simp: update_conv' split: if_splits)
  qed
  show "map_of (direct_by_id ts) k = None \<longleftrightarrow> k \<notin> tr_ID ` set ts"
    using n [of "[]"] by (simp add: direct_by_id_def)
  show "map_of (direct_by_id ts) k = Some ref \<Longrightarrow> ref \<in> set ts \<and> tr_ID ref = k"
    using s [of "[]"] by (auto simp: direct_by_id_def)
qed

section \<open>Explanation and resolution agree\<close>

lemma granted_team_reaches:
  assumes "org_db_wf db" and "g \<in> set (space_grants db)" and "g_org g = org"
  shows "grant_matches db org u g \<longleftrightarrow> grant_reaches db org u g"
proof (cases "g_subject_type g = ''team''")
  case True
  have d: "distinct (map t_id (teams db))" using assms(1) by (simp add: org_db_wf_def)
  have "(case granted_team db g of None \<Rightarrow> False
          | Some t \<Rightarrow> path_overlaps (t_path t) (direct_teams db org u)) \<longleftrightarrow>
        g_subject_id g \<in> set (effective_team_ids db org u)"
  proof (cases "q_GetTeamByID db (g_subject_id g)")
    case None
    then have "g_subject_id g \<notin> set (effective_team_ids db org u)"
      by (auto simp: q_GetTeamByID_None effective_team_ids_iff)
    with None True show ?thesis by (simp add: granted_team_def)
  next
    case (Some t)
    then have t: "t \<in> set (teams db)" "t_id t = g_subject_id g" "live_team t"
      using q_GetTeamByID_Some [OF d] by auto
    have "\<forall>g \<in> set (space_grants db). \<forall>t \<in> set (teams db).
        g_subject_type g = ''team'' \<and> t_id t = g_subject_id g \<longrightarrow> t_org t = g_org g"
      using assms(1) by (simp add: org_db_wf_def)
    with t(1,2) True assms(2,3) have "t_org t = org" by simp
    moreover have "t' = t" if "t' \<in> set (teams db)" "t_id t' = g_subject_id g" for t'
      using distinct_key [OF d that(1) t(1)] that(2) t(2) by simp
    ultimately have "g_subject_id g \<in> set (effective_team_ids db org u) \<longleftrightarrow>
        (\<exists>d \<in> set (t_path t). d \<in> set (direct_teams db org u))"
      unfolding effective_team_ids_iff using t by metis
    moreover have "granted_team db g = Some t" using True Some by (simp add: granted_team_def)
    ultimately show ?thesis by (simp add: path_overlaps_iff)
  qed
  with True show ?thesis by (simp add: grant_matches_def grant_reaches_def)
next
  case False
  then show ?thesis by (simp add: grant_matches_def grant_reaches_def)
qed

lemma matches_roles_reach:
  assumes "org_db_wf db" and "live_space_of db org s" and "r \<noteq> RoleNone"
    and "pg_ListMatchingGrants db org s u = Inr ms"
  shows "r \<in> set (match_roles ms) \<longleftrightarrow>
    (\<exists>g \<in> set (space_grants db). g_space g = s \<and> g_org g = org \<and> space_live db s \<and>
       grant_reaches db org u g \<and> g_role g = RoleString r)"
proof -
  obtain x where x: "x \<in> set (spaces db)" "s_id x = s" "s_org x = org"
    using assms(2) by (auto simp: live_space_of_def)
  have "\<forall>g \<in> set (space_grants db). \<forall>s \<in> set (spaces db). s_id s = g_space g \<longrightarrow> s_org s = g_org g"
    using assms(1) by (simp add: org_db_wf_def)
  then have org: "g_org g = org" if "g \<in> set (space_grants db)" "g_space g = s" for g
    using x that by force
  have live: "space_live db s"
    using assms(2) by (auto simp: space_live_iff live_space_of_def)
  have ms: "set ms = (\<lambda>g. \<lparr>rm_GrantID = g_id g, rm_SubjectType = g_subject_type g,
      rm_SubjectID = g_subject_id g, rm_Role = g_role g,
      rm_TeamName = (case granted_team db g of None \<Rightarrow> '''' | Some t \<Rightarrow> t_name t),
      rm_TeamPath = (case granted_team db g of None \<Rightarrow> [] | Some t \<Rightarrow> t_path t)\<rparr>) `
        {g \<in> set (space_grants db). g_space g = s \<and> grant_matches db org u g}"
    using assms(4) by (auto simp: pg_ListMatchingGrants_def q_ListMatchingGrants_def rbind_eq_Inr)
  have "r \<in> set (match_roles ms) \<longleftrightarrow>
        (\<exists>g \<in> set (space_grants db). g_space g = s \<and> grant_matches db org u g \<and> g_role g = RoleString r)"
    unfolding set_match_roles ms using assms(3) by (simp add: ParseRole_Inr_iff) blast
  also have "\<dots> \<longleftrightarrow> (\<exists>g \<in> set (space_grants db). g_space g = s \<and> g_org g = org \<and> space_live db s \<and>
       grant_reaches db org u g \<and> g_role g = RoleString r)"
    by (rule bex_cong [OF refl]) (use org live granted_team_reaches [OF assms(1)] in blast)
  finally show ?thesis .
qed

lemma org_visible_iff_visibility:
  assumes "org_db_wf db" and "live_space_of db org s" and "pg_SpaceVisibility db s = Inr v"
  shows "org_visible db org s \<longleftrightarrow> v = VisibilityOrg"
proof -
  have d: "distinct (map s_id (spaces db))" using assms(1) by (simp add: org_db_wf_def)
  obtain x where x: "q_GetSpaceByID db s = Some x" "v = s_visibility x"
    using assms(3) by (auto simp: pg_SpaceVisibility_def rbind_eq_Inr split: option.splits)
  then have x': "x \<in> set (spaces db)" "s_id x = s" "\<not> s_deleted x"
    using q_GetSpaceByID_Some [OF d] by auto
  have "y = x" if "y \<in> set (spaces db)" "s_id y = s" for y
    using distinct_key [OF d that(1) x'(1)] that(2) x'(2) by simp
  moreover have "s_org x = org"
    using calculation assms(2) unfolding live_space_of_def by blast
  ultimately have "org_visible db org s \<longleftrightarrow> s_visibility x = ''org''"
    unfolding org_visible_def using x' by blast
  then show ?thesis using x(2) by (simp add: VisibilityOrg_def)
qed

lemma space_visibility_found:
  assumes "org_db_wf db" and "db_up db" and "live_space_of db org s"
  shows "\<exists>v. pg_SpaceVisibility db s = Inr v"
proof -
  have d: "distinct (map s_id (spaces db))" using assms(1) by (simp add: org_db_wf_def)
  obtain x where "x \<in> set (spaces db)" "s_id x = s" "\<not> s_deleted x"
    using assms(3) by (auto simp: live_space_of_def)
  then have "q_GetSpaceByID db s = Some x" using q_GetSpaceByID_Some [OF d] by blast
  then show ?thesis using assms(2) by (simp add: pg_SpaceVisibility_def)
qed

text \<open>The member branch: the role the chain ends in is the resolver's role.\<close>

lemma explain_member_role:
  assumes wf: "org_db_wf db" and live: "live_space_of db org s"
    and res: "Resolve pg_access_store db org u = Inr res" and na: "\<not> org_admin db org u"
    and ms: "pg_ListMatchingGrants db org s u = Inr ms" and v: "pg_SpaceVisibility db s = Inr v"
  shows "(let best = fold max (match_roles ms) RoleNone
          in if v = VisibilityOrg \<and> best < RoleViewer then RoleViewer else best) = RoleOn res s"
    (is "?l = _")
proof -
  have "m \<le> ?l \<longleftrightarrow> m \<le> RoleOn res s" if m: "m \<noteq> RoleNone" for m
  proof -
    have f: "m \<le> fold max (match_roles ms) RoleNone \<longleftrightarrow> (\<exists>r \<in> set (match_roles ms). m \<le> r)"
      using m by (simp add: le_fold_max_iff)
    have "m \<le> ?l \<longleftrightarrow> m \<le> fold max (match_roles ms) RoleNone \<or> (v = VisibilityOrg \<and> m \<le> RoleViewer)"
      using m by (auto simp: Let_def less_RoleViewer RoleViewer_le [symmetric] dest: order_trans)
    also have "\<dots> \<longleftrightarrow> (\<exists>r \<in> set (match_roles ms). m \<le> r) \<or> (v = VisibilityOrg \<and> m \<le> RoleViewer)"
      by (simp only: f)
    also have "\<dots> \<longleftrightarrow> (\<exists>r. m \<le> r \<and> role_reaches db org u s r)"
      using m matches_roles_reach [OF wf live _ ms] org_visible_iff_visibility [OF wf live v]
      unfolding role_reaches_def by (metis le_RoleNone)
    also have "\<dots> \<longleftrightarrow> m \<le> RoleOn res s"
      using pg.role_member_ge_iff [OF res na m] by simp
    finally show ?thesis .
  qed
  then show ?thesis by (metis RoleNone_least antisym order_refl)
qed

text \<open>
  C3. The administrator's explanation never disagrees with the access it explains. For a live
  space of the org and any member, the explanation's role is the wire name of the role the
  resolver gives them, and its access flag is the resolver's readability, admin bypass, direct
  grants, team expansion and org visibility included. Here both sides read the tables by different
  queries: the explanation by the granted team's path, the resolution by the effective-team set.
\<close>

theorem Explain_agrees_with_Resolve:
  assumes "org_db_wf db" and "live_space_of db org s"
    and "Resolve pg_access_store db org u = Inr res"
  shows "\<exists>ex. Explain pg_explain_store pg_access_store db org s u = Inr ex \<and>
           ex_Role ex = RoleString (RoleOn res s) \<and>
           ex_Access ex = CanReadSpace res s \<and>
           ex_OrgAdmin ex = res_IsOrgAdmin res"
proof -
  note ok = pg.resolve_ok [OF assms(3)]
  have adm: "res_IsOrgAdmin res = org_admin db org u"
    using pg.resolve_total [OF ok] assms(3) by auto
  obtain n where o: "pg_OrgRole db org u = Inr \<lparr>org_Name = n, org_Admin = org_admin db org u\<rparr>"
    using pg.org_role_member [OF ok] by auto
  show ?thesis
  proof (cases "org_admin db org u")
    case True
    then have "CanReadSpace res s"
      using pg.can_admin [OF assms(3)] assms(2) CanReadSpace_iff_Can_read [OF assms(3)] by blast
    with o True adm show ?thesis
      by (simp add: Explain_def Let_def no_access_def RoleOn_def)
  next
    case False
    obtain v where v: "pg_SpaceVisibility db s = Inr v"
      using space_visibility_found [OF assms(1) ok(1) assms(2)] by blast
    obtain ts where ts: "pg_ListUserDirectTeams db org u = Inr ts"
      using ok(1) by (simp add: pg_ListUserDirectTeams_def)
    obtain ms where ms: "pg_ListMatchingGrants db org s u = Inr ms"
      using ok(1) by (simp add: pg_ListMatchingGrants_def)
    define p where "p = collectChain ms (direct_by_id ts) ([], RoleNone)"
    have best: "snd p = fold max (match_roles ms) RoleNone"
      by (simp add: p_def collectChain_best)
    have role: "(if v = VisibilityOrg \<and> snd p < RoleViewer then RoleViewer else snd p) = RoleOn res s"
      using explain_member_role [OF assms False ms v] unfolding best by (simp only: Let_def)
    have "CanReadSpace res s \<longleftrightarrow> RoleNone < RoleOn res s"
      using CanReadSpace_iff_RoleOn [OF assms(3)] by simp
    then show ?thesis
      using o False v ts ms adm role
      by (simp add: Explain_def no_access_def Let_def p_def [symmetric] split_beta)
        (cases "v = VisibilityOrg \<and> snd p < RoleViewer"; auto)
  qed
qed

lemma demo_space_live: "live_space_of demo_db 1 31"
  by (simp add: live_space_of_def demo_db_def)

theorem Explain_agrees_with_Resolve_witness:
  "\<exists>ex. Explain pg_explain_store pg_access_store demo_db 1 31 11 = Inr ex \<and>
     ex_Role ex = ''agent'' \<and> ex_Access ex"
  using Explain_agrees_with_Resolve [OF demo_db_wf demo_space_live demo_member_resolves]
  by (auto simp: RoleOn_def CanReadSpace_def demo_member_resolution_def map_get_def)

end
