(* ===== verification/AccessGrants.thy ===== *)
theory AccessGrants
  imports AccessStore
begin

text \<open>
  \<^verbatim>\<open>internal/core/access/grants.go\<close> over the grant half of
  \<^verbatim>\<open>internal/db/adapters/access.go\<close>: validating a grant's subject, and the life of a grant.

  The Go interface \<open>SubjectChecker\<close> is a record of functions and \<open>GrantStore\<close> extends it, as
  the interface does. The contract of each is a locale; the SQL adapter interprets both.
\<close>

section \<open>Grants and their store\<close>

definition SubjectUser :: string where "SubjectUser = ''user''"
definition SubjectTeam :: string where "SubjectTeam = ''team''"

record Grant =
  gr_ID :: uuid
  gr_OrgID :: uuid
  gr_SpaceID :: uuid
  gr_SubjectType :: string
  gr_SubjectID :: uuid
  gr_Role :: Role
  gr_CreatedBy :: "uuid option"
  gr_SubjectName :: string
  gr_SubjectMissing :: bool

record 'db SubjectChecker =
  sc_IsOrgMember :: "'db \<Rightarrow> uuid \<Rightarrow> uuid \<Rightarrow> access_error + bool"
  sc_TeamExistsInOrg :: "'db \<Rightarrow> uuid \<Rightarrow> uuid \<Rightarrow> access_error + bool"

record 'db GrantStore = "'db SubjectChecker" +
  gs_CreateGrant :: "Grant \<Rightarrow> ('db, access_error, Grant) stmt"
  gs_GetGrant :: "'db \<Rightarrow> uuid \<Rightarrow> access_error + Grant"
  gs_UpdateGrantRole :: "uuid \<Rightarrow> Role \<Rightarrow> ('db, access_error, Grant) stmt"
  gs_DeleteGrant :: "uuid \<Rightarrow> ('db, access_error, unit) stmt"
  gs_ListGrantsBySpace :: "'db \<Rightarrow> uuid \<Rightarrow> access_error + Grant list"

definition ValidateSubjectInOrg ::
    "('db, 'm) SubjectChecker_scheme \<Rightarrow> 'db \<Rightarrow> uuid \<Rightarrow> string \<Rightarrow> uuid \<Rightarrow> access_error + unit" where
  "ValidateSubjectInOrg c db orgID subjectType subjectID =
     (if subjectType = SubjectUser then
        rbind (sc_IsOrgMember c db orgID subjectID) (\<lambda>member. guard_err member ErrSubjectNotOrgMember)
      else if subjectType = SubjectTeam then
        rbind (sc_TeamExistsInOrg c db orgID subjectID) (\<lambda>exists. guard_err exists ErrSubjectTeamNotFound)
      else Inl (ErrUnknownSubjectType subjectType))"

text \<open>\<open>GrantService\<close>; \<open>newID\<close> is the value \<open>uuid.New\<close> returns.\<close>

definition GrantCreate ::
    "('db, 'm) GrantStore_scheme \<Rightarrow> uuid \<Rightarrow> uuid \<Rightarrow> uuid \<Rightarrow> string \<Rightarrow> uuid \<Rightarrow> Role \<Rightarrow> uuid \<Rightarrow>
     ('db, access_error, Grant) stmt" where
  "GrantCreate s newID orgID spaceID subjectType subjectID role createdBy =
     sseq (sread (\<lambda>db. ValidateSubjectInOrg s db orgID subjectType subjectID))
       (gs_CreateGrant s
         \<lparr>gr_ID = newID, gr_OrgID = orgID, gr_SpaceID = spaceID, gr_SubjectType = subjectType,
          gr_SubjectID = subjectID, gr_Role = role, gr_CreatedBy = Some createdBy,
          gr_SubjectName = '''', gr_SubjectMissing = False\<rparr>)"

definition GrantGet :: "('db, 'm) GrantStore_scheme \<Rightarrow> 'db \<Rightarrow> uuid \<Rightarrow> access_error + Grant" where
  "GrantGet s db i = gs_GetGrant s db i"

definition GrantUpdateRole ::
    "('db, 'm) GrantStore_scheme \<Rightarrow> uuid \<Rightarrow> Role \<Rightarrow> ('db, access_error, Grant) stmt" where
  "GrantUpdateRole s i role = gs_UpdateGrantRole s i role"

definition GrantRevoke :: "('db, 'm) GrantStore_scheme \<Rightarrow> uuid \<Rightarrow> ('db, access_error, unit) stmt" where
  "GrantRevoke s i = gs_DeleteGrant s i"

definition GrantListBySpace ::
    "('db, 'm) GrantStore_scheme \<Rightarrow> 'db \<Rightarrow> uuid \<Rightarrow> access_error + Grant list" where
  "GrantListBySpace s db spaceID = gs_ListGrantsBySpace s db spaceID"

section \<open>Statements on the grant table\<close>

definition user_exists :: "'x org_db_scheme \<Rightarrow> uuid \<Rightarrow> bool" where
  "user_exists db u = list_ex (\<lambda>x. u_id x = u) (users db)"

definition grant_key :: "GrantRow \<Rightarrow> uuid \<times> string \<times> uuid" where
  "grant_key g = (g_space g, g_subject_type g, g_subject_id g)"

text \<open>\<open>INSERT INTO space_grants\<close> under migration 023: the two checks, the primary key and the
  unique cell, then the foreign keys on the space and the granting user.\<close>

definition q_CreateSpaceGrant :: "GrantRow \<Rightarrow> ('x org_db_scheme, sql_error, GrantRow) stmt" where
  "q_CreateSpaceGrant g db =
     (if \<not> db_up db then Inl SqlDown
      else if g_subject_type g \<notin> {''user'', ''team''} then Inl (SqlCheck ''space_grants_subject_valid'')
      else if \<not> List.member grant_role_names (g_role g) then Inl (SqlCheck ''space_grants_role_valid'')
      else if list_ex (\<lambda>x. g_id x = g_id g) (space_grants db) then Inl (SqlUnique ''space_grants_pkey'')
      else if list_ex (\<lambda>x. grant_key x = grant_key g) (space_grants db)
        then Inl (SqlUnique ''space_grants_space_id_subject_type_subject_id_key'')
      else if \<not> list_ex (\<lambda>s. s_id s = g_space g) (spaces db) then Inl SqlForeignKey
      else if \<not> (case g_created_by g of None \<Rightarrow> True | Some u \<Rightarrow> user_exists db u) then Inl SqlForeignKey
      else Inr (g, db\<lparr>space_grants := space_grants db @ [g]\<rparr>))"

definition q_GetSpaceGrant :: "'x org_db_scheme \<Rightarrow> uuid \<Rightarrow> GrantRow option" where
  "q_GetSpaceGrant db i = List.find (\<lambda>g. g_id g = i) (space_grants db)"

definition set_grant_role :: "uuid \<Rightarrow> string \<Rightarrow> GrantRow \<Rightarrow> GrantRow" where
  "set_grant_role i role g = (if g_id g = i then g\<lparr>g_role := role\<rparr> else g)"

definition q_UpdateSpaceGrantRole :: "uuid \<Rightarrow> string \<Rightarrow> ('x org_db_scheme, sql_error, GrantRow) stmt" where
  "q_UpdateSpaceGrantRole i role db =
     (if \<not> db_up db then Inl SqlDown
      else case q_GetSpaceGrant db i of
        None \<Rightarrow> Inl SqlNoRows
      | Some g \<Rightarrow>
          if \<not> List.member grant_role_names role then Inl (SqlCheck ''space_grants_role_valid'')
          else Inr (g\<lparr>g_role := role\<rparr>,
                    db\<lparr>space_grants := map (set_grant_role i role) (space_grants db)\<rparr>))"

definition q_DeleteSpaceGrant :: "uuid \<Rightarrow> ('x org_db_scheme, sql_error, unit) stmt" where
  "q_DeleteSpaceGrant i db =
     (if \<not> db_up db then Inl SqlDown
      else Inr ((), db\<lparr>space_grants := filter (\<lambda>g. g_id g \<noteq> i) (space_grants db)\<rparr>))"

definition q_ListGrantsBySpace :: "'x org_db_scheme \<Rightarrow> uuid \<Rightarrow> (GrantRow \<times> string \<times> bool) list" where
  "q_ListGrantsBySpace db space =
     map (\<lambda>g.
       let u = (if g_subject_type g = ''user''
                then List.find (\<lambda>u. u_id u = g_subject_id g \<and> \<not> u_deleted u) (users db) else None);
           t = granted_team db g
       in (g,
           (if g_subject_type g = ''user'' then (case u of None \<Rightarrow> '''' | Some u \<Rightarrow> u_display_name u)
            else (case t of None \<Rightarrow> '''' | Some t \<Rightarrow> t_name t)),
           (g_subject_type g = ''team'' \<and> t = None) \<or> (g_subject_type g = ''user'' \<and> u = None)))
       (filter (\<lambda>g. g_space g = space) (space_grants db))"

section \<open>The adapter\<close>

definition uniqueViolation :: "sql_error \<Rightarrow> string option" where
  "uniqueViolation e = (case e of SqlUnique c \<Rightarrow> Some c | _ \<Rightarrow> None)"

definition dbGrantToDomain :: "GrantRow \<Rightarrow> access_error + Grant" where
  "dbGrantToDomain g =
     (case ParseRole (g_role g) of
        Inl _ \<Rightarrow> Inl (ErrUnknownRole (g_role g))
      | Inr role \<Rightarrow>
          Inr \<lparr>gr_ID = g_id g, gr_OrgID = g_org g, gr_SpaceID = g_space g,
               gr_SubjectType = g_subject_type g, gr_SubjectID = g_subject_id g, gr_Role = role,
               gr_CreatedBy = g_created_by g, gr_SubjectName = '''', gr_SubjectMissing = False\<rparr>)"

definition grant_row :: "Grant \<Rightarrow> GrantRow" where
  "grant_row g =
     \<lparr>g_id = gr_ID g, g_org = gr_OrgID g, g_space = gr_SpaceID g,
      g_subject_type = gr_SubjectType g, g_subject_id = gr_SubjectID g,
      g_role = RoleString (gr_Role g), g_created_by = gr_CreatedBy g\<rparr>"

text \<open>The written row is parsed after the statement. The branch in which the row is written and the
  call still errs is dead: the check constraint admits only the names \<open>ParseRole\<close> knows
  (\<open>dbGrantToDomain_ok\<close> below).\<close>

definition pg_CreateGrant :: "Grant \<Rightarrow> ('x org_db_scheme, access_error, Grant) stmt" where
  "pg_CreateGrant g db =
     (case q_CreateSpaceGrant (grant_row g) db of
        Inl e \<Rightarrow> if uniqueViolation e \<noteq> None then Inl ErrDuplicateGrant
                 else Inl (ErrDatabase ''creating grant'')
      | Inr (row, db') \<Rightarrow> rbind (dbGrantToDomain row) (\<lambda>d. Inr (d, db')))"

definition pg_GetGrant :: "'x org_db_scheme \<Rightarrow> uuid \<Rightarrow> access_error + Grant" where
  "pg_GetGrant db i =
     rbind (run_query db (q_GetSpaceGrant db i)) (\<lambda>row.
       case row of None \<Rightarrow> Inl ErrGrantNotFound | Some row \<Rightarrow> dbGrantToDomain row)"

definition pg_UpdateGrantRole :: "uuid \<Rightarrow> Role \<Rightarrow> ('x org_db_scheme, access_error, Grant) stmt" where
  "pg_UpdateGrantRole i role db =
     (case q_UpdateSpaceGrantRole i (RoleString role) db of
        Inl e \<Rightarrow> if e = SqlNoRows then Inl ErrGrantNotFound
                 else Inl (ErrDatabase ''updating grant role'')
      | Inr (row, db') \<Rightarrow> rbind (dbGrantToDomain row) (\<lambda>d. Inr (d, db')))"

definition pg_DeleteGrant :: "uuid \<Rightarrow> ('x org_db_scheme, access_error, unit) stmt" where
  "pg_DeleteGrant i db =
     (case q_DeleteSpaceGrant i db of
        Inl e \<Rightarrow> Inl (ErrDatabase ''deleting grant'')
      | Inr r \<Rightarrow> Inr r)"

fun list_grants :: "(GrantRow \<times> string \<times> bool) list \<Rightarrow> access_error + Grant list" where
  "list_grants [] = Inr []"
| "list_grants ((g, name, missing) # rows) =
     rbind (dbGrantToDomain g) (\<lambda>d.
     rbind (list_grants rows) (\<lambda>ds.
       Inr (d\<lparr>gr_SubjectName := name, gr_SubjectMissing := missing\<rparr> # ds)))"

definition pg_ListGrantsBySpace :: "'x org_db_scheme \<Rightarrow> uuid \<Rightarrow> access_error + Grant list" where
  "pg_ListGrantsBySpace db space =
     rbind (run_query db (q_ListGrantsBySpace db space)) list_grants"

definition pg_grant_store :: "'x org_db_scheme GrantStore" where
  "pg_grant_store =
     \<lparr>sc_IsOrgMember = pg_IsOrgMember, sc_TeamExistsInOrg = pg_TeamExistsInOrg,
      gs_CreateGrant = pg_CreateGrant, gs_GetGrant = pg_GetGrant,
      gs_UpdateGrantRole = pg_UpdateGrantRole, gs_DeleteGrant = pg_DeleteGrant,
      gs_ListGrantsBySpace = pg_ListGrantsBySpace\<rparr>"

lemma pg_grant_store_simps [simp]:
  "sc_IsOrgMember pg_grant_store = pg_IsOrgMember"
  "sc_TeamExistsInOrg pg_grant_store = pg_TeamExistsInOrg"
  "gs_CreateGrant pg_grant_store = pg_CreateGrant"
  "gs_GetGrant pg_grant_store = pg_GetGrant"
  "gs_UpdateGrantRole pg_grant_store = pg_UpdateGrantRole"
  "gs_DeleteGrant pg_grant_store = pg_DeleteGrant"
  "gs_ListGrantsBySpace pg_grant_store = pg_ListGrantsBySpace"
  by (simp_all add: pg_grant_store_def)

section \<open>The contracts\<close>

locale subject_checker =
  fixes c :: "('db, 'm) SubjectChecker_scheme"
    and ok :: "'db \<Rightarrow> bool"
    and member :: "'db \<Rightarrow> uuid \<Rightarrow> uuid \<Rightarrow> bool"
    and team :: "'db \<Rightarrow> uuid \<Rightarrow> uuid \<Rightarrow> bool"
  assumes member_up: "ok db \<Longrightarrow> sc_IsOrgMember c db org u = Inr (member db org u)"
    and team_up: "ok db \<Longrightarrow> sc_TeamExistsInOrg c db org t = Inr (team db org t)"
    and member_down: "\<not> ok db \<Longrightarrow> \<exists>m. sc_IsOrgMember c db org u = Inl (ErrDatabase m)"
    and team_down: "\<not> ok db \<Longrightarrow> \<exists>m. sc_TeamExistsInOrg c db org t = Inl (ErrDatabase m)"
begin

definition subject_valid :: "'db \<Rightarrow> uuid \<Rightarrow> string \<Rightarrow> uuid \<Rightarrow> bool" where
  "subject_valid db org t i \<longleftrightarrow>
     (t = SubjectUser \<and> member db org i) \<or> (t = SubjectTeam \<and> team db org i)"

lemma validate_up:
  "ok db \<Longrightarrow> ValidateSubjectInOrg c db org t i =
     (if subject_valid db org t i then Inr ()
      else if t = SubjectUser then Inl ErrSubjectNotOrgMember
      else if t = SubjectTeam then Inl ErrSubjectTeamNotFound
      else Inl (ErrUnknownSubjectType t))"
  by (simp add: ValidateSubjectInOrg_def member_up team_up subject_valid_def SubjectUser_def
      SubjectTeam_def guard_err_def)

lemma validate_ok_up: "ValidateSubjectInOrg c db org t i = Inr u \<Longrightarrow> ok db"
  using member_down [of db org i] team_down [of db org i]
  by (cases "ok db") (auto simp: ValidateSubjectInOrg_def split: if_splits)

lemma validate_Inr_iff:
  "ValidateSubjectInOrg c db org t i = Inr u \<longleftrightarrow> ok db \<and> subject_valid db org t i"
  using validate_ok_up validate_up by (cases "ok db") auto

end

text \<open>A grant table is a map from cells to roles: creating needs a free cell, updating and
  deleting touch the one cell of the named grant.\<close>

type_synonym cell = "uuid \<times> string \<times> uuid"

definition Grant_cell :: "Grant \<Rightarrow> cell" where
  "Grant_cell g = (gr_SpaceID g, gr_SubjectType g, gr_SubjectID g)"

locale grant_store = subject_checker s ok member team
  for s :: "('db, 'm) GrantStore_scheme"
    and ok :: "'db \<Rightarrow> bool"
    and member :: "'db \<Rightarrow> uuid \<Rightarrow> uuid \<Rightarrow> bool"
    and team :: "'db \<Rightarrow> uuid \<Rightarrow> uuid \<Rightarrow> bool" +
  fixes inv :: "'db \<Rightarrow> bool"
    and space :: "'db \<Rightarrow> uuid \<Rightarrow> uuid \<Rightarrow> bool"
    and cells :: "'db \<Rightarrow> cell \<Rightarrow> Role option"
  assumes create:
      "inv db \<Longrightarrow> space db (gr_OrgID g) (gr_SpaceID g) \<Longrightarrow>
       subject_checker.subject_valid member team db (gr_OrgID g) (gr_SubjectType g) (gr_SubjectID g) \<Longrightarrow>
       gs_CreateGrant s g db = Inr (g', db') \<Longrightarrow>
         inv db' \<and> cells db (Grant_cell g) = None \<and>
         cells db' = (cells db)(Grant_cell g \<mapsto> gr_Role g)"
    and create_taken:
      "inv db \<Longrightarrow> ok db \<Longrightarrow> gr_SubjectType g \<in> {SubjectUser, SubjectTeam} \<Longrightarrow> gr_Role g \<noteq> RoleNone \<Longrightarrow>
       cells db (Grant_cell g) \<noteq> None \<Longrightarrow> gs_CreateGrant s g db = Inl ErrDuplicateGrant"
    and get:
      "inv db \<Longrightarrow> gs_GetGrant s db i = Inr g \<Longrightarrow> cells db (Grant_cell g) = Some (gr_Role g)"
    and update:
      "inv db \<Longrightarrow> gs_UpdateGrantRole s i r db = Inr (g', db') \<Longrightarrow>
         inv db' \<and> (\<exists>g. gs_GetGrant s db i = Inr g \<and> Grant_cell g' = Grant_cell g) \<and>
         cells db' = (cells db)(Grant_cell g' \<mapsto> r)"
    and delete:
      "inv db \<Longrightarrow> gs_DeleteGrant s i db = Inr ((), db') \<Longrightarrow>
         inv db' \<and>
         (case gs_GetGrant s db i of
            Inl _ \<Rightarrow> cells db' = cells db
          | Inr g \<Rightarrow> cells db' = (cells db)(Grant_cell g := None))"
begin

lemma create_service:
  assumes "inv db" and "space db org sp"
    and "GrantCreate s n org sp t i r by db = Inr (g, db')"
  shows "inv db'" and "subject_valid db org t i" and "cells db (sp, t, i) = None"
    and "cells db' = (cells db)((sp, t, i) \<mapsto> r)"
proof -
  from assms(3) show v: "subject_valid db org t i"
    by (auto simp: GrantCreate_def stmt_run validate_Inr_iff)
  from assms(3) obtain g0 where
    "gs_CreateGrant s g0 db = Inr (g, db')" "gr_OrgID g0 = org" "gr_SpaceID g0 = sp"
    "gr_SubjectType g0 = t" "gr_SubjectID g0 = i" "gr_Role g0 = r"
    by (auto simp: GrantCreate_def stmt_run)
  with create [OF assms(1), of g0 g db'] assms(2) v
  show "inv db'" and "cells db (sp, t, i) = None" and "cells db' = (cells db)((sp, t, i) \<mapsto> r)"
    by (auto simp: Grant_cell_def)
qed

text \<open>A second grant for a cell is refused, whatever its role.\<close>

lemma create_service_taken:
  assumes "inv db" and "ok db" and "subject_valid db org t i" and "r \<noteq> RoleNone"
    and "cells db (sp, t, i) \<noteq> None"
  shows "GrantCreate s n org sp t i r by db = Inl ErrDuplicateGrant"
  using assms validate_Inr_iff [of db org t i "()"]
  by (auto simp: GrantCreate_def stmt_run Grant_cell_def subject_valid_def intro!: create_taken)

lemma revoke_service:
  assumes "inv db" and "GrantRevoke s i db = Inr ((), db')"
    and "GrantGet s db i = Inr g"
  shows "inv db'" and "cells db' = (cells db)(Grant_cell g := None)"
  using delete [OF assms(1), of i db'] assms(2,3) by (simp_all add: GrantRevoke_def GrantGet_def)

end

section \<open>The adapter keeps the contracts\<close>

definition org_team :: "'x org_db_scheme \<Rightarrow> uuid \<Rightarrow> uuid \<Rightarrow> bool" where
  "org_team db org i \<longleftrightarrow> (case q_GetTeamByID db i of None \<Rightarrow> False | Some t \<Rightarrow> t_org t = org)"

definition space_of_org :: "'x org_db_scheme \<Rightarrow> uuid \<Rightarrow> uuid \<Rightarrow> bool" where
  "space_of_org db org i \<longleftrightarrow> (\<forall>s \<in> set (spaces db). s_id s = i \<longrightarrow> s_org s = org)"

definition grant_cell :: "'x org_db_scheme \<Rightarrow> cell \<Rightarrow> Role option" where
  "grant_cell db k =
     (case List.find (\<lambda>g. grant_key g = k) (space_grants db) of
        None \<Rightarrow> None
      | Some g \<Rightarrow> (case ParseRole (g_role g) of Inl _ \<Rightarrow> None | Inr r \<Rightarrow> Some r))"

lemma grant_role_names_iff: "x \<in> set grant_role_names \<longleftrightarrow> (\<exists>r. r \<noteq> RoleNone \<and> x = RoleString r)"
proof
  assume "x \<in> set grant_role_names"
  then have "x \<in> RoleString ` {RoleViewer, RoleContributor, RoleAgent, RoleSpaceAdmin}"
    by (auto simp: grant_role_names_def)
  then show "\<exists>r. r \<noteq> RoleNone \<and> x = RoleString r" by auto
next
  assume "\<exists>r. r \<noteq> RoleNone \<and> x = RoleString r"
  then obtain r where "r \<noteq> RoleNone" "x = RoleString r" by blast
  then show "x \<in> set grant_role_names" by (cases r) (simp_all add: grant_role_names_def)
qed

lemma RoleString_names [simp]: "RoleString r \<in> set grant_role_names \<longleftrightarrow> r \<noteq> RoleNone"
  by (auto simp: grant_role_names_iff)

lemma dbGrantToDomain_ok: "g_role g \<in> set grant_role_names \<Longrightarrow> \<exists>d. dbGrantToDomain g = Inr d"
  by (auto simp: grant_role_names_iff dbGrantToDomain_def)

lemma dbGrantToDomain_Inr:
  "dbGrantToDomain g = Inr d \<longleftrightarrow> gr_Role d \<noteq> RoleNone \<and>
     g = grant_row d \<and> gr_SubjectName d = '''' \<and> \<not> gr_SubjectMissing d"
proof (cases "ParseRole (g_role g)")
  case (Inl e)
  then have "g \<noteq> grant_row d" if "gr_Role d \<noteq> RoleNone"
    using ParseRole_RoleString [OF that] by (auto simp: grant_row_def)
  with Inl show ?thesis by (auto simp: dbGrantToDomain_def)
next
  case (Inr r)
  then have "r \<noteq> RoleNone" "g_role g = RoleString r" by (simp_all add: ParseRole_Inr_iff)
  with Inr show ?thesis
    by (cases g; cases d) (auto simp: dbGrantToDomain_def grant_row_def)
qed

text \<open>By the unique cell, finding a cell is membership.\<close>

lemma find_grant_key:
  assumes "distinct (map grant_key gs)" and "g \<in> set gs"
  shows "List.find (\<lambda>x. grant_key x = grant_key g) gs = Some g"
  by (rule find_the_unique [OF assms(2)]) (auto dest: distinct_key [OF assms(1) _ assms(2)])

lemma find_grant_None: "List.find (\<lambda>x. grant_key x = k) gs = None \<longleftrightarrow> k \<notin> grant_key ` set gs"
  by (auto simp: find_None_iff)

lemma wf_grants:
  assumes "org_db_wf db"
  shows "distinct (map g_id (space_grants db))" and "distinct (map grant_key (space_grants db))"
    and "g \<in> set (space_grants db) \<Longrightarrow> g_role g \<in> set grant_role_names"
  using assms by (simp_all add: org_db_wf_def grant_key_def [abs_def])

lemma grant_cell_row:
  assumes "org_db_wf db" and "g \<in> set (space_grants db)" and "g_role g = RoleString r"
  shows "grant_cell db (grant_key g) = Some r"
proof -
  have "r \<noteq> RoleNone" using wf_grants(3) [OF assms(1,2)] assms(3) by simp
  then show ?thesis
    using find_grant_key [OF wf_grants(2) [OF assms(1)] assms(2)] assms(3)
    by (simp add: grant_cell_def)
qed

lemma grant_cell_Some:
  assumes "grant_cell db k = Some r"
  shows "\<exists>g \<in> set (space_grants db). grant_key g = k \<and> g_role g = RoleString r \<and> r \<noteq> RoleNone"
proof -
  obtain g where g: "List.find (\<lambda>g. grant_key g = k) (space_grants db) = Some g"
    and r: "ParseRole (g_role g) = Inr r"
    using assms by (auto simp: grant_cell_def split: option.splits sum.splits)
  from find_Some_in [OF g] r show ?thesis by (auto simp: ParseRole_Inr_iff)
qed

lemma grant_cell_None_iff:
  assumes "org_db_wf db"
  shows "grant_cell db k = None \<longleftrightarrow> k \<notin> grant_key ` set (space_grants db)"
proof
  assume n: "grant_cell db k = None"
  show "k \<notin> grant_key ` set (space_grants db)"
  proof
    assume "k \<in> grant_key ` set (space_grants db)"
    then obtain g where g: "g \<in> set (space_grants db)" "k = grant_key g" by blast
    obtain r where "g_role g = RoleString r"
      using wf_grants(3) [OF assms g(1)] by (auto simp: grant_role_names_iff)
    with n g grant_cell_row [OF assms g(1)] show False by simp
  qed
next
  assume "k \<notin> grant_key ` set (space_grants db)"
  then show "grant_cell db k = None" using grant_cell_Some [of db k] by (cases "grant_cell db k") blast+
qed

interpretation pg_subject: subject_checker pg_grant_store db_up org_member org_team
proof
  fix db :: "'a org_db_scheme" and org u t
  show "db_up db \<Longrightarrow> sc_IsOrgMember pg_grant_store db org u = Inr (org_member db org u)"
    by (simp add: pg_IsOrgMember_def org_member_def)
  show "db_up db \<Longrightarrow> sc_TeamExistsInOrg pg_grant_store db org t = Inr (org_team db org t)"
    by (simp add: pg_TeamExistsInOrg_def org_team_def split: option.split)
  show "\<not> db_up db \<Longrightarrow> \<exists>m. sc_IsOrgMember pg_grant_store db org u = Inl (ErrDatabase m)"
    by (simp add: pg_IsOrgMember_def)
  show "\<not> db_up db \<Longrightarrow> \<exists>m. sc_TeamExistsInOrg pg_grant_store db org t = Inl (ErrDatabase m)"
    by (simp add: pg_TeamExistsInOrg_def)
qed

text \<open>Each statement, as an effect on the table.\<close>

lemma q_CreateSpaceGrant_Inr:
  "q_CreateSpaceGrant g db = Inr (g', db') \<longleftrightarrow>
     db_up db \<and> g' = g \<and> g_subject_type g \<in> {''user'', ''team''} \<and> g_role g \<in> set grant_role_names \<and>
     g_id g \<notin> g_id ` set (space_grants db) \<and> grant_key g \<notin> grant_key ` set (space_grants db) \<and>
     g_space g \<in> s_id ` set (spaces db) \<and>
     (case g_created_by g of None \<Rightarrow> True | Some u \<Rightarrow> user_exists db u) \<and>
     db' = db\<lparr>space_grants := space_grants db @ [g]\<rparr>"
  unfolding q_CreateSpaceGrant_def list_ex_image
  by (cases "db_up db"; cases "g_id g \<in> g_id ` set (space_grants db)";
      cases "grant_key g \<in> grant_key ` set (space_grants db)";
      cases "g_space g \<in> s_id ` set (spaces db)") (auto simp del: image_iff)

lemma pg_CreateGrant_Inr:
  "pg_CreateGrant g db = Inr (g', db') \<longleftrightarrow>
     q_CreateSpaceGrant (grant_row g) db = Inr (grant_row g, db') \<and>
     g' = g\<lparr>gr_SubjectName := '''', gr_SubjectMissing := False\<rparr>"
proof -
  have "dbGrantToDomain (grant_row g) = Inr (g\<lparr>gr_SubjectName := '''', gr_SubjectMissing := False\<rparr>)"
    if "gr_Role g \<noteq> RoleNone"
    using that by (simp add: dbGrantToDomain_Inr) (simp add: grant_row_def)
  moreover have "gr_Role g \<noteq> RoleNone \<and> row = grant_row g"
    if "q_CreateSpaceGrant (grant_row g) db = Inr (row, u)" for row u
    using that by (simp add: q_CreateSpaceGrant_Inr) (simp add: grant_row_def)
  ultimately show ?thesis
  proof (cases "q_CreateSpaceGrant (grant_row g) db")
    case (Inl e)
    then show ?thesis by (simp add: pg_CreateGrant_def)
  next
    case (Inr p)
    with \<open>\<And>row u. q_CreateSpaceGrant (grant_row g) db = Inr (row, u) \<Longrightarrow>
        gr_Role g \<noteq> RoleNone \<and> row = grant_row g\<close> [of "fst p" "snd p"]
    have "gr_Role g \<noteq> RoleNone" "fst p = grant_row g" by simp_all
    with Inr \<open>gr_Role g \<noteq> RoleNone \<Longrightarrow> dbGrantToDomain (grant_row g) =
        Inr (g\<lparr>gr_SubjectName := '''', gr_SubjectMissing := False\<rparr>)\<close>
    show ?thesis by (cases p) (auto simp: pg_CreateGrant_def)
  qed
qed

lemma org_db_wf_insert_grant:
  assumes "org_db_wf db" and "q_CreateSpaceGrant g db = Inr (g', db')"
    and "space_of_org db (g_org g) (g_space g)"
    and "g_subject_type g = ''team'' \<Longrightarrow> \<forall>t \<in> set (teams db). t_id t = g_subject_id g \<longrightarrow> t_org t = g_org g"
  shows "org_db_wf db'"
  using assms unfolding q_CreateSpaceGrant_Inr org_db_wf_def space_of_org_def
  by (simp add: grant_key_def [abs_def])

lemma org_db_wf_filter_grants:
  "org_db_wf db \<Longrightarrow> org_db_wf (db\<lparr>space_grants := filter P (space_grants db)\<rparr>)"
  unfolding org_db_wf_def by (simp add: distinct_map_filter)

lemma org_db_wf_set_role:
  assumes "org_db_wf db" and "r \<in> set grant_role_names"
  shows "org_db_wf (db\<lparr>space_grants := map (set_grant_role i r) (space_grants db)\<rparr>)"
proof -
  have [simp]: "g_id (set_grant_role i r g) = g_id g" "g_space (set_grant_role i r g) = g_space g"
    "g_subject_type (set_grant_role i r g) = g_subject_type g" "g_org (set_grant_role i r g) = g_org g"
    "g_subject_id (set_grant_role i r g) = g_subject_id g" for g
    by (simp_all add: set_grant_role_def)
  have [simp]: "g_role (set_grant_role i r g) \<in> set grant_role_names"
    if "g \<in> set (space_grants db)" for g
    using assms(2) wf_grants(3) [OF assms(1) that] by (simp add: set_grant_role_def)
  from assms(1) show ?thesis unfolding org_db_wf_def by (simp add: comp_def)
qed

lemma team_of_org:
  assumes "org_db_wf db" and "org_team db org i"
  shows "\<forall>t \<in> set (teams db). t_id t = i \<longrightarrow> t_org t = org"
proof -
  have d: "distinct (map t_id (teams db))" using assms(1) by (simp add: org_db_wf_def)
  obtain t where "q_GetTeamByID db i = Some t" and o: "t_org t = org"
    using assms(2) by (auto simp: org_team_def split: option.splits)
  then have "t \<in> set (teams db)" "t_id t = i" using q_GetTeamByID_Some [OF d] by auto
  then show ?thesis using distinct_key [OF d] o by blast
qed

text \<open>Each statement, as an effect on the cells.\<close>

lemma grant_cell_insert:
  assumes "org_db_wf db" and "gr_Role g \<noteq> RoleNone"
    and "q_CreateSpaceGrant (grant_row g) db = Inr (x, db')"
  shows "grant_cell db' = (grant_cell db)(Grant_cell g \<mapsto> gr_Role g)"
proof
  fix k
  have k: "grant_key (grant_row g) = Grant_cell g"
    by (simp add: grant_key_def grant_row_def Grant_cell_def)
  have n: "Grant_cell g \<notin> grant_key ` set (space_grants db)"
    and db': "db' = db\<lparr>space_grants := space_grants db @ [grant_row g]\<rparr>"
    using assms(3) k by (auto simp: q_CreateSpaceGrant_Inr)
  have f: "List.find (\<lambda>x. grant_key x = k) (space_grants db @ [grant_row g]) =
      (case List.find (\<lambda>x. grant_key x = k) (space_grants db) of
         None \<Rightarrow> if Grant_cell g = k then Some (grant_row g) else None | Some y \<Rightarrow> Some y)"
    using k by (simp add: find_app split: option.split)
  show "grant_cell db' k = ((grant_cell db)(Grant_cell g \<mapsto> gr_Role g)) k"
  proof (cases "k = Grant_cell g")
    case True
    then have "List.find (\<lambda>x. grant_key x = k) (space_grants db) = None"
      using n by (simp add: find_grant_None)
    with True f assms(2) show ?thesis by (simp add: grant_cell_def db') (simp add: grant_row_def)
  next
    case False
    with f show ?thesis by (auto simp: grant_cell_def db' split: option.split)
  qed
qed

lemma find_filter_other:
  "(\<And>x. x \<in> set xs \<Longrightarrow> P x \<Longrightarrow> Q x) \<Longrightarrow> List.find P (filter Q xs) = List.find P xs"
  by (induction xs) auto

lemma grant_cell_delete:
  assumes "org_db_wf db" and "g \<in> set (space_grants db)"
  shows "grant_cell (db\<lparr>space_grants := filter (\<lambda>x. g_id x \<noteq> g_id g) (space_grants db)\<rparr>) =
    (grant_cell db)(grant_key g := None)"
proof
  fix k
  let ?gs = "filter (\<lambda>x. g_id x \<noteq> g_id g) (space_grants db)"
  note ids = distinct_key [OF wf_grants(1) [OF assms(1)] _ assms(2)]
  note keys = distinct_key [OF wf_grants(2) [OF assms(1)] _ assms(2)]
  show "grant_cell (db\<lparr>space_grants := ?gs\<rparr>) k = ((grant_cell db)(grant_key g := None)) k"
  proof (cases "k = grant_key g")
    case True
    then have "List.find (\<lambda>x. grant_key x = k) ?gs = None"
      using keys by (auto simp: find_None_iff)
    with True show ?thesis by (simp add: grant_cell_def)
  next
    case False
    then have "List.find (\<lambda>x. grant_key x = k) ?gs = List.find (\<lambda>x. grant_key x = k) (space_grants db)"
      using ids by (intro find_filter_other) auto
    with False show ?thesis by (simp add: grant_cell_def)
  qed
qed

lemma grant_cell_set_role:
  assumes "org_db_wf db" and "g \<in> set (space_grants db)" and "r \<noteq> RoleNone"
  shows "grant_cell (db\<lparr>space_grants := map (set_grant_role (g_id g) (RoleString r)) (space_grants db)\<rparr>) =
    (grant_cell db)(grant_key g \<mapsto> r)"
proof
  fix k
  let ?f = "set_grant_role (g_id g) (RoleString r)"
  let ?db = "db\<lparr>space_grants := map ?f (space_grants db)\<rparr>"
  have key [simp]: "grant_key (?f x) = grant_key x" for x
    by (simp add: set_grant_role_def grant_key_def)
  have other: "?f x = x" if "x \<in> set (space_grants db)" "x \<noteq> g" for x
    using distinct_key [OF wf_grants(1) [OF assms(1)] that(1) assms(2)] that(2)
    by (auto simp: set_grant_role_def)
  have wf: "org_db_wf ?db" by (rule org_db_wf_set_role [OF assms(1)]) (simp add: assms(3))
  show "grant_cell ?db k = ((grant_cell db)(grant_key g \<mapsto> r)) k"
  proof (cases "k \<in> grant_key ` set (space_grants db)")
    case False
    then have "grant_cell db k = None" "grant_cell ?db k = None"
      using grant_cell_None_iff [OF assms(1)] grant_cell_None_iff [OF wf] by (auto simp: image_image)
    with False assms(2) show ?thesis by auto
  next
    case True
    then obtain x where x: "x \<in> set (space_grants db)" "k = grant_key x" by blast
    then obtain q where q: "g_role x = RoleString q"
      using wf_grants(3) [OF assms(1) x(1)] by (auto simp: grant_role_names_iff)
    have m: "?f x \<in> set (space_grants ?db)" using x(1) by simp
    show ?thesis
    proof (cases "x = g")
      case True
      have "g_role (?f g) = RoleString r" by (simp add: set_grant_role_def)
      with grant_cell_row [OF wf m, of r] x(2) True show ?thesis by simp
    next
      case False
      then have "k \<noteq> grant_key g"
        using distinct_key [OF wf_grants(2) [OF assms(1)] x(1) assms(2)] x(2) by auto
      moreover have "grant_cell db k = Some q" using grant_cell_row [OF assms(1) x(1) q] x(2) by simp
      moreover have "grant_cell ?db k = Some q"
        using grant_cell_row [OF wf m, of q] other [OF x(1) False] q x(2) by simp
      ultimately show ?thesis by simp
    qed
  qed
qed

lemma pg_GetGrant_Inr:
  assumes "org_db_wf db"
  shows "pg_GetGrant db i = Inr d \<longleftrightarrow>
    db_up db \<and> grant_row d \<in> set (space_grants db) \<and> gr_ID d = i \<and> gr_Role d \<noteq> RoleNone \<and>
    gr_SubjectName d = '''' \<and> \<not> gr_SubjectMissing d"
proof -
  have "q_GetSpaceGrant db i = Some g \<longleftrightarrow> g \<in> set (space_grants db) \<and> g_id g = i" for g
    using find_Some_in [of "\<lambda>g. g_id g = i"] distinct_key [OF wf_grants(1) [OF assms], of _ g]
    by (auto simp: q_GetSpaceGrant_def intro!: find_the_unique)
  then have q: "(\<exists>g. q_GetSpaceGrant db i = Some g \<and> dbGrantToDomain g = Inr d) \<longleftrightarrow>
      (\<exists>g. g \<in> set (space_grants db) \<and> g_id g = i \<and> dbGrantToDomain g = Inr d)"
    by simp
  have "pg_GetGrant db i = Inr d \<longleftrightarrow>
      db_up db \<and> (\<exists>g. q_GetSpaceGrant db i = Some g \<and> dbGrantToDomain g = Inr d)"
    by (auto simp: pg_GetGrant_def rbind_eq_Inr split: option.splits)
  with q show ?thesis
    by (auto simp: dbGrantToDomain_Inr) (simp_all add: grant_row_def)
qed

interpretation pg_grants:
  grant_store pg_grant_store db_up org_member org_team org_db_wf space_of_org grant_cell
proof
  fix db db' :: "'a org_db_scheme" and g g' :: Grant and i r
  have k: "grant_key (grant_row d) = Grant_cell d" for d
    by (simp add: grant_key_def grant_row_def Grant_cell_def)
  show "org_db_wf db' \<and> grant_cell db (Grant_cell g) = None \<and>
      grant_cell db' = (grant_cell db)(Grant_cell g \<mapsto> gr_Role g)"
    if wf: "org_db_wf db" and sp: "space_of_org db (gr_OrgID g) (gr_SpaceID g)"
      and v: "pg_subject.subject_valid db (gr_OrgID g) (gr_SubjectType g) (gr_SubjectID g)"
      and c: "gs_CreateGrant pg_grant_store g db = Inr (g', db')"
  proof -
    have q: "q_CreateSpaceGrant (grant_row g) db = Inr (grant_row g, db')"
      using c by (simp add: pg_CreateGrant_Inr)
    have r: "gr_Role g \<noteq> RoleNone" and n: "Grant_cell g \<notin> grant_key ` set (space_grants db)"
      using q k [of g] by (simp_all add: q_CreateSpaceGrant_Inr) (simp add: grant_row_def)
    have "org_db_wf db'"
    proof (rule org_db_wf_insert_grant [OF wf q])
      show "space_of_org db (g_org (grant_row g)) (g_space (grant_row g))"
        using sp by (simp add: grant_row_def)
      show "\<forall>t \<in> set (teams db). t_id t = g_subject_id (grant_row g) \<longrightarrow> t_org t = g_org (grant_row g)"
        if "g_subject_type (grant_row g) = ''team''"
        using that v team_of_org [OF wf, of "gr_OrgID g" "gr_SubjectID g"]
        by (simp add: grant_row_def pg_subject.subject_valid_def SubjectUser_def)
    qed
    with n grant_cell_insert [OF wf r q] grant_cell_None_iff [OF wf] show ?thesis by simp
  qed
  show "gs_CreateGrant pg_grant_store g db = Inl ErrDuplicateGrant"
    if wf: "org_db_wf db" and up: "db_up db" and t: "gr_SubjectType g \<in> {SubjectUser, SubjectTeam}"
      and r: "gr_Role g \<noteq> RoleNone" and c: "grant_cell db (Grant_cell g) \<noteq> None"
  proof -
    have n: "grant_key (grant_row g) \<in> grant_key ` set (space_grants db)"
      using c grant_cell_None_iff [OF wf] k by simp
    have "g_subject_type (grant_row g) \<in> {''user'', ''team''}" "g_role (grant_row g) \<in> set grant_role_names"
      using t r by (auto simp: grant_row_def SubjectUser_def SubjectTeam_def)
    with n up show ?thesis
      by (simp add: pg_CreateGrant_def q_CreateSpaceGrant_def list_ex_image uniqueViolation_def)
  qed
  show "grant_cell db (Grant_cell g) = Some (gr_Role g)"
    if "org_db_wf db" and "gs_GetGrant pg_grant_store db i = Inr g"
    using that grant_cell_row [OF that(1), of "grant_row g" "gr_Role g"] k [of g]
    by (auto simp: pg_GetGrant_Inr) (simp add: grant_row_def)
  show "org_db_wf db' \<and> (\<exists>g. gs_GetGrant pg_grant_store db i = Inr g \<and> Grant_cell g' = Grant_cell g) \<and>
      grant_cell db' = (grant_cell db)(Grant_cell g' \<mapsto> r)"
    if wf: "org_db_wf db" and u: "gs_UpdateGrantRole pg_grant_store i r db = Inr (g', db')"
  proof -
    obtain g0 where q: "q_GetSpaceGrant db i = Some g0" and up: "db_up db"
      and r: "r \<noteq> RoleNone"
      and db': "db' = db\<lparr>space_grants := map (set_grant_role i (RoleString r)) (space_grants db)\<rparr>"
      and g': "dbGrantToDomain (g0\<lparr>g_role := RoleString r\<rparr>) = Inr g'"
      using u by (auto simp: pg_UpdateGrantRole_def q_UpdateSpaceGrantRole_def rbind_eq_Inr
          split: sum.splits if_splits option.splits)
    have g0: "g0 \<in> set (space_grants db)" "g_id g0 = i"
      using q by (auto simp: q_GetSpaceGrant_def dest: find_Some_in)
    obtain d where d: "dbGrantToDomain g0 = Inr d"
      using dbGrantToDomain_ok wf_grants(3) [OF wf g0(1)] by blast
    have e: "g0 = grant_row d" using d by (simp add: dbGrantToDomain_Inr)
    have g0': "g0\<lparr>g_role := RoleString r\<rparr> = grant_row g'" using g' by (simp add: dbGrantToDomain_Inr)
    have c: "Grant_cell g' = grant_key g0"
      using arg_cong [OF g0', of grant_key] k [of g'] by (simp add: grant_key_def)
    have "gs_GetGrant pg_grant_store db i = Inr d"
      using q up d by (simp add: pg_GetGrant_def)
    moreover have "Grant_cell g' = Grant_cell d" using c e k [of d] by simp
    moreover have "org_db_wf db'" unfolding db' by (rule org_db_wf_set_role [OF wf]) (simp add: r)
    moreover have "grant_cell db' = (grant_cell db)(Grant_cell g' \<mapsto> r)"
      unfolding db' c using grant_cell_set_role [OF wf g0(1) r] g0(2) by simp
    ultimately show ?thesis by blast
  qed
  show "org_db_wf db' \<and> (case gs_GetGrant pg_grant_store db i of
        Inl _ \<Rightarrow> grant_cell db' = grant_cell db
      | Inr g \<Rightarrow> grant_cell db' = (grant_cell db)(Grant_cell g := None))"
    if wf: "org_db_wf db" and d: "gs_DeleteGrant pg_grant_store i db = Inr ((), db')"
  proof -
    have up: "db_up db" and db': "db' = db\<lparr>space_grants := filter (\<lambda>g. g_id g \<noteq> i) (space_grants db)\<rparr>"
      using d by (auto simp: pg_DeleteGrant_def q_DeleteSpaceGrant_def split: if_splits)
    have "org_db_wf db'" unfolding db' by (rule org_db_wf_filter_grants [OF wf])
    moreover have "case pg_GetGrant db i of
        Inl _ \<Rightarrow> grant_cell db' = grant_cell db
      | Inr g \<Rightarrow> grant_cell db' = (grant_cell db)(Grant_cell g := None)"
    proof (cases "pg_GetGrant db i")
      case (Inl e)
      have "g_id x \<noteq> i" if x: "x \<in> set (space_grants db)" for x
      proof
        assume i: "g_id x = i"
        obtain d where "dbGrantToDomain x = Inr d"
          using dbGrantToDomain_ok wf_grants(3) [OF wf x] by blast
        then have "pg_GetGrant db i = Inr d"
          using pg_GetGrant_Inr [OF wf, of i d] up x i
          by (auto simp: dbGrantToDomain_Inr) (simp add: grant_row_def)
        with Inl show False by simp
      qed
      then have "db' = db" unfolding db' by (simp add: filter_id_conv)
      with Inl show ?thesis by simp
    next
      case (Inr d)
      then have "grant_row d \<in> set (space_grants db)" "g_id (grant_row d) = i"
        by (auto simp: pg_GetGrant_Inr [OF wf]) (simp add: grant_row_def)
      with Inr grant_cell_delete [OF wf, of "grant_row d"] k [of d] show ?thesis by (simp add: db')
    qed
    ultimately show ?thesis by simp
  qed
qed

section \<open>What a grant changes for the people it names\<close>

text \<open>The roles that reach a user, in a database that differs only in its grant rows.\<close>

lemma space_grants_irrelevant [simp]:
  "q_GetMembership (db\<lparr>space_grants := gs\<rparr>) = q_GetMembership db"
  "org_member (db\<lparr>space_grants := gs\<rparr>) = org_member db"
  "org_admin (db\<lparr>space_grants := gs\<rparr>) = org_admin db"
  "live_space_of (db\<lparr>space_grants := gs\<rparr>) = live_space_of db"
  "org_visible (db\<lparr>space_grants := gs\<rparr>) = org_visible db"
  "space_live (db\<lparr>space_grants := gs\<rparr>) = space_live db"
  "grant_reaches (db\<lparr>space_grants := gs\<rparr>) = grant_reaches db"
  by (intro ext; simp add: query_defs org_member_def org_admin_def live_space_of_def org_visible_def)+

lemma role_reaches_append:
  "role_reaches (db\<lparr>space_grants := space_grants db @ [g]\<rparr>) org u s r \<longleftrightarrow>
     role_reaches db org u s r \<or>
     (g_space g = s \<and> g_org g = org \<and> space_live db s \<and> grant_reaches db org u g \<and> g_role g = RoleString r)"
  by (auto simp: role_reaches_def)

text \<open>The role a resolution gives is pinned by the roles at or below it.\<close>

lemma Role_eqI:
  fixes a b :: Role
  assumes "\<And>m. m \<noteq> RoleNone \<Longrightarrow> m \<le> a \<longleftrightarrow> m \<le> b"
  shows "a = b"
  using assms [of a] assms [of b] by (cases "a = RoleNone"; cases "b = RoleNone") auto

lemma Resolve_member_again:
  assumes "Resolve pg_access_store db org u = Inr res"
    and "db_up db' = db_up db" and "org_member db' = org_member db"
  shows "\<exists>res'. Resolve pg_access_store db' org u = Inr res'"
  using pg.resolve_ok [OF assms(1)] pg.resolve_total [of db' org u] assms(2,3) by auto

text \<open>
  C4. Granting is effective on the next request and does nothing else. When \<open>GrantService.Create\<close>
  succeeds for a space of the org, the subject was a member or live team of the org, the cell held
  no grant, the tables stay well formed, and every member's role on the space becomes the maximum
  of what it was and the granted role if the grant reaches them (directly or through their teams),
  unchanged otherwise; no role on any other space moves.
\<close>

theorem GrantCreate_effective:
  assumes wf: "org_db_wf db" and live: "live_space_of db org s"
    and c: "GrantCreate pg_grant_store n org s t i r by db = Inr (g, db')"
    and res: "Resolve pg_access_store db org u = Inr res" and na: "\<not> org_admin db org u"
  shows "org_db_wf db' \<and>
    (t = SubjectUser \<and> org_member db org i \<or> t = SubjectTeam \<and> org_team db org i) \<and>
    grant_cell db (s, t, i) = None \<and>
    (\<exists>res'. Resolve pg_access_store db' org u = Inr res' \<and>
       (\<forall>x. RoleOn res' x =
          (if x = s \<and> (t = SubjectUser \<and> i = u \<or>
                       t = SubjectTeam \<and> i \<in> set (effective_team_ids db org u))
           then max r (RoleOn res x) else RoleOn res x)))"
proof -
  have sp: "space_of_org db org s"
    using wf live distinct_key [of s_id "spaces db"]
    by (fastforce simp: space_of_org_def live_space_of_def org_db_wf_def)
  note cs = pg_grants.create_service [OF wf sp c]
  obtain g0 where q: "q_CreateSpaceGrant g0 db = Inr (g0, db')" and g0: "g_space g0 = s" "g_org g0 = org"
      "g_subject_type g0 = t" "g_subject_id g0 = i" "g_role g0 = RoleString r"
    using c by (auto simp: GrantCreate_def stmt_run pg_CreateGrant_Inr) (simp add: grant_row_def)
  have db': "db' = db\<lparr>space_grants := space_grants db @ [g0]\<rparr>" and r: "r \<noteq> RoleNone"
    using q g0(5) by (simp_all add: q_CreateSpaceGrant_Inr)
  obtain res' where res': "Resolve pg_access_store db' org u = Inr res'"
    using Resolve_member_again [OF res, of db'] by (auto simp: db')
  have na': "\<not> org_admin db' org u" using na by (simp add: db')
  let ?hit = "\<lambda>x. x = s \<and> (t = SubjectUser \<and> i = u \<or> t = SubjectTeam \<and> i \<in> set (effective_team_ids db org u))"
  have sl: "space_live db s" using live by (auto simp: space_live_iff live_space_of_def)
  have reach: "role_reaches db' org u x q \<longleftrightarrow> role_reaches db org u x q \<or> ?hit x \<and> q = r" for x q
    using g0 sl unfolding db' role_reaches_append
    by (auto simp: grant_reaches_def SubjectUser_def SubjectTeam_def)
  have "RoleOn res' x = (if ?hit x then max r (RoleOn res x) else RoleOn res x)" for x
  proof (rule Role_eqI)
    fix m :: Role
    assume m: "m \<noteq> RoleNone"
    show "m \<le> RoleOn res' x \<longleftrightarrow> m \<le> (if ?hit x then max r (RoleOn res x) else RoleOn res x)"
      using pg.role_member_ge_iff [OF res na m, of x] pg.role_member_ge_iff [OF res' na' m, of x]
      unfolding reach by (auto simp: le_max_iff_disj)
  qed
  with cs res' show ?thesis
    unfolding pg_subject.subject_valid_def by blast
qed

theorem GrantCreate_effective_witness:
  "\<exists>g db' res'.
     GrantCreate pg_grant_store 43 1 32 ''user'' 11 RoleContributor 10 demo_db = Inr (g, db') \<and>
     Resolve pg_access_store db' 1 11 = Inr res' \<and> RoleOn res' 32 = RoleContributor"
proof -
  have live: "live_space_of demo_db 1 32" and na: "\<not> org_admin demo_db 1 11"
    by (simp_all add: live_space_of_def org_admin_def q_GetMembership_def demo_db_def AdminRoleNames_def)
  have "is_ok (GrantCreate pg_grant_store 43 1 32 ''user'' 11 RoleContributor 10 demo_db)"
    by (simp add: GrantCreate_def sseq_def sbind_def sread_def ValidateSubjectInOrg_def SubjectUser_def
        pg_IsOrgMember_def pg_CreateGrant_def q_CreateSpaceGrant_def grant_row_def grant_role_names_def
        grant_key_def user_exists_def dbGrantToDomain_def ParseRole_def roleNames_def query_defs demo_db_def)
  then obtain g db' where c:
    "GrantCreate pg_grant_store 43 1 32 ''user'' 11 RoleContributor 10 demo_db = Inr (g, db')"
    by (auto simp: is_ok_iff)
  obtain res' where r: "Resolve pg_access_store db' 1 11 = Inr res'"
    and x: "\<forall>x. RoleOn res' x = (if x = 32 \<and> (''user'' = SubjectUser \<and> (11::uuid) = 11 \<or>
          ''user'' = SubjectTeam \<and> 11 \<in> set (effective_team_ids demo_db 1 11))
        then max RoleContributor (RoleOn demo_member_resolution x)
        else RoleOn demo_member_resolution x)"
    using GrantCreate_effective [OF demo_db_wf live c demo_member_resolves na] by blast
  have "RoleOn res' 32 = RoleContributor"
    using x [rule_format, of 32]
    by (simp add: SubjectUser_def RoleOn_def demo_member_resolution_def map_get_def role_order_defs)
  with c r show ?thesis by blast
qed

text \<open>
  C5. Revoking is immediate and only takes away. After \<open>GrantService.Revoke\<close> the tables are well
  formed, no member's role on any space is higher than before, spaces the revoked grant did not
  name keep every role, and a member whose every route to a space was the revoked grant can no
  longer read it.
\<close>

theorem GrantRevoke_immediate:
  assumes wf: "org_db_wf db" and d: "GrantRevoke pg_grant_store i db = Inr ((), db')"
    and res: "Resolve pg_access_store db org u = Inr res" and na: "\<not> org_admin db org u"
  shows "org_db_wf db' \<and>
    (\<exists>res'. Resolve pg_access_store db' org u = Inr res' \<and>
       (\<forall>x. RoleOn res' x \<le> RoleOn res x) \<and>
       (\<forall>x. (\<forall>g \<in> set (space_grants db). g_id g = i \<longrightarrow> g_space g \<noteq> x) \<longrightarrow> RoleOn res' x = RoleOn res x) \<and>
       (\<forall>x. \<not> org_visible db org x \<and>
            (\<forall>g \<in> set (space_grants db). g_space g = x \<and> grant_reaches db org u g \<longrightarrow> g_id g = i) \<longrightarrow>
          \<not> CanReadSpace res' x))"
proof -
  have db': "db' = db\<lparr>space_grants := filter (\<lambda>g. g_id g \<noteq> i) (space_grants db)\<rparr>"
    using d by (auto simp: GrantRevoke_def pg_DeleteGrant_def q_DeleteSpaceGrant_def split: if_splits)
  obtain res' where res': "Resolve pg_access_store db' org u = Inr res'"
    using Resolve_member_again [OF res, of db'] by (auto simp: db')
  have na': "\<not> org_admin db' org u" using na by (simp add: db')
  have reach: "role_reaches db' org u x q \<longleftrightarrow>
      (\<exists>g \<in> set (space_grants db). g_id g \<noteq> i \<and> g_space g = x \<and> g_org g = org \<and> space_live db x \<and>
         grant_reaches db org u g \<and> g_role g = RoleString q) \<or>
      q = RoleViewer \<and> org_visible db org x" for x q
    by (auto simp: db' role_reaches_def)
  have le: "m \<le> RoleOn res' x \<Longrightarrow> m \<le> RoleOn res x" if "m \<noteq> RoleNone" for m x
    using pg.role_member_ge_iff [OF res na that, of x] pg.role_member_ge_iff [OF res' na' that, of x]
    unfolding reach unfolding role_reaches_def by blast
  have ge: "m \<le> RoleOn res x \<Longrightarrow> m \<le> RoleOn res' x"
    if "m \<noteq> RoleNone" "\<forall>g \<in> set (space_grants db). g_id g = i \<longrightarrow> g_space g \<noteq> x" for m x
    using pg.role_member_ge_iff [OF res na that(1), of x] pg.role_member_ge_iff [OF res' na' that(1), of x]
      that(2)
    unfolding reach unfolding role_reaches_def by blast
  have 1: "RoleOn res' x \<le> RoleOn res x" for x
    using le [of "RoleOn res' x" x] by (cases "RoleOn res' x = RoleNone") auto
  have 2: "RoleOn res' x = RoleOn res x"
    if "\<forall>g \<in> set (space_grants db). g_id g = i \<longrightarrow> g_space g \<noteq> x" for x
    using le ge that by (intro Role_eqI) blast
  have 3: "\<not> CanReadSpace res' x" if "\<not> org_visible db org x"
      "\<forall>g \<in> set (space_grants db). g_space g = x \<and> grant_reaches db org u g \<longrightarrow> g_id g = i" for x
  proof -
    have "\<not> role_reaches db' org u x q" for q unfolding reach using that by blast
    then have "\<not> RoleViewer \<le> RoleOn res' x"
      using pg.role_member_ge_iff [OF res' na', of RoleViewer x] by simp
    then show ?thesis using CanReadSpace_iff_RoleOn [OF res'] by (simp add: RoleViewer_le)
  qed
  have "org_db_wf db'" unfolding db' by (rule org_db_wf_filter_grants [OF wf])
  with res' 1 2 3 show ?thesis by blast
qed

theorem GrantRevoke_immediate_witness:
  "\<exists>db' res'. GrantRevoke pg_grant_store 41 demo_db = Inr ((), db') \<and>
     Resolve pg_access_store db' 1 11 = Inr res' \<and> RoleOn res' 31 \<le> RoleAgent"
proof -
  have na: "\<not> org_admin demo_db 1 11"
    by (simp add: org_admin_def q_GetMembership_def demo_db_def AdminRoleNames_def)
  obtain db' where d: "GrantRevoke pg_grant_store 41 demo_db = Inr ((), db')"
    by (simp add: GrantRevoke_def pg_DeleteGrant_def q_DeleteSpaceGrant_def demo_db_def)
  obtain res' where "Resolve pg_access_store db' 1 11 = Inr res'"
    and x: "\<forall>x. RoleOn res' x \<le> RoleOn demo_member_resolution x"
    using GrantRevoke_immediate [OF demo_db_wf d demo_member_resolves na] by blast
  with d show ?thesis
    using x [rule_format, of 31] by (auto simp: RoleOn_def demo_member_resolution_def map_get_def)
qed

end
