(* ===== verification/AccessBulk.thy ===== *)
theory AccessBulk
  imports AccessGrants
begin

text \<open>
  The access matrix: \<^verbatim>\<open>internal/core/access/bulk.go\<close> and its adapter
  \<^verbatim>\<open>internal/db/adapters/bulk_grants.go\<close>. A bulk change names the wanted state of cells
  (a team on a space); preview and apply classify it with the same function, and apply executes the
  result in one transaction with its audit trail.

  \<open>fresh k\<close> is the pair of identifiers \<open>uuid.New\<close> returns while the \<open>k\<close>-th action runs, the
  grant's (used by a create only) and the audit event's. Row locks are not modelled: the statements
  of a transaction see one database, which is what the locks are for.
\<close>

section \<open>Data\<close>

record BulkChange =
  bc_TeamID :: uuid
  bc_SpaceID :: uuid
  bc_Role :: "Role option"

record BulkAction =
  ba_TeamID :: uuid
  ba_SpaceID :: uuid
  ba_Action :: string
  ba_FromRole :: string
  ba_ToRole :: string

record BulkResult =
  br_BatchID :: uuid
  br_Creates :: nat
  br_Updates :: nat
  br_Revokes :: nat
  br_Noops :: nat
  br_Actions :: "BulkAction list"

record MatrixTeam =
  mt_ID :: uuid
  mt_ParentID :: "uuid option"
  mt_Path :: "uuid list"
  mt_Name :: string
  mt_IsDefault :: bool
  mt_MemberCount :: nat

record MatrixSpace =
  ms_ID :: uuid
  ms_Name :: string
  ms_Type :: string
  ms_Visibility :: string

record MatrixGrant =
  mgr_ID :: uuid
  mgr_TeamID :: uuid
  mgr_SpaceID :: uuid
  mgr_Role :: string

record MatrixData =
  md_Teams :: "MatrixTeam list"
  md_Spaces :: "MatrixSpace list"
  md_Grants :: "MatrixGrant list"

record 'db BulkStore =
  bs_MatrixData :: "'db \<Rightarrow> uuid \<Rightarrow> access_error + MatrixData"
  bs_PreviewBulk :: "'db \<Rightarrow> uuid \<Rightarrow> BulkChange list \<Rightarrow> access_error + BulkResult"
  bs_ApplyBulk :: "uuid \<Rightarrow> uuid \<Rightarrow> BulkChange list \<Rightarrow> string \<Rightarrow> 'db \<Rightarrow> (access_error + BulkResult) \<times> 'db"

section \<open>The service\<close>

definition maxBulkChanges :: nat where
  "maxBulkChanges = 10000"

fun duplicate_cell :: "(uuid \<times> uuid) list \<Rightarrow> BulkChange list \<Rightarrow> bool" where
  "duplicate_cell seen [] = False"
| "duplicate_cell seen (c # cs) =
     (if List.member seen (bc_TeamID c, bc_SpaceID c) then True
      else duplicate_cell ((bc_TeamID c, bc_SpaceID c) # seen) cs)"

definition validateBulkSize :: "BulkChange list \<Rightarrow> access_error + unit" where
  "validateBulkSize changes =
     (if length changes = 0 then Inl ErrBulkEmpty
      else if length changes > maxBulkChanges then Inl ErrBulkTooLarge
      else if duplicate_cell [] changes then Inl ErrBulkDuplicateCell
      else Inr ())"

definition BulkMatrix :: "'db BulkStore \<Rightarrow> 'db \<Rightarrow> uuid \<Rightarrow> access_error + MatrixData" where
  "BulkMatrix st db orgID = bs_MatrixData st db orgID"

definition BulkPreview ::
    "'db BulkStore \<Rightarrow> 'db \<Rightarrow> uuid \<Rightarrow> BulkChange list \<Rightarrow> access_error + BulkResult" where
  "BulkPreview st db orgID changes =
     rbind (validateBulkSize changes) (\<lambda>_. bs_PreviewBulk st db orgID changes)"

definition BulkApply ::
    "'db BulkStore \<Rightarrow> uuid \<Rightarrow> uuid \<Rightarrow> BulkChange list \<Rightarrow> string \<Rightarrow> 'db \<Rightarrow> (access_error + BulkResult) \<times> 'db" where
  "BulkApply st orgID actorID changes ticketRef db =
     (case validateBulkSize changes of
        Inl e \<Rightarrow> (Inl e, db)
      | Inr _ \<Rightarrow> bs_ApplyBulk st orgID actorID changes ticketRef db)"

section \<open>The diff\<close>

text \<open>A matrix cell (team, space) and the grant on it.\<close>

type_synonym grantKey = "uuid \<times> uuid"

record existingGrant =
  ex_id :: uuid
  ex_role :: string

definition zero_existing :: existingGrant where
  "zero_existing = \<lparr>ex_id = uuid_nil, ex_role = ''''\<rparr>"

definition classifyChange :: "BulkChange \<Rightarrow> existingGrant \<Rightarrow> bool \<Rightarrow> BulkAction" where
  "classifyChange c cur exists =
     (let action = \<lparr>ba_TeamID = bc_TeamID c, ba_SpaceID = bc_SpaceID c, ba_Action = '''',
                    ba_FromRole = '''', ba_ToRole = ''''\<rparr>
      in case bc_Role c of
           None \<Rightarrow>
             if \<not> exists then action\<lparr>ba_Action := ''noop''\<rparr>
             else action\<lparr>ba_Action := ''revoke'', ba_FromRole := ex_role cur\<rparr>
         | Some role \<Rightarrow>
             if \<not> exists then action\<lparr>ba_Action := ''create'', ba_ToRole := RoleString role\<rparr>
             else if ex_role cur = RoleString role then
               action\<lparr>ba_Action := ''noop'', ba_FromRole := ex_role cur, ba_ToRole := ex_role cur\<rparr>
             else action\<lparr>ba_Action := ''update'', ba_FromRole := ex_role cur, ba_ToRole := RoleString role\<rparr>)"

definition count_action :: "BulkAction \<Rightarrow> BulkResult \<Rightarrow> BulkResult" where
  "count_action a res =
     (let res' = (if ba_Action a = ''noop'' then res\<lparr>br_Noops := br_Noops res + 1\<rparr>
                  else if ba_Action a = ''revoke'' then res\<lparr>br_Revokes := br_Revokes res + 1\<rparr>
                  else if ba_Action a = ''create'' then res\<lparr>br_Creates := br_Creates res + 1\<rparr>
                  else if ba_Action a = ''update'' then res\<lparr>br_Updates := br_Updates res + 1\<rparr>
                  else res)
      in res'\<lparr>br_Actions := br_Actions res @ [a]\<rparr>)"

definition classify_in :: "(grantKey \<times> existingGrant) list \<Rightarrow> BulkChange \<Rightarrow> BulkAction" where
  "classify_in current c =
     (let k = (bc_TeamID c, bc_SpaceID c)
      in classifyChange c (map_get current k zero_existing) (map_of current k \<noteq> None))"

definition empty_result :: BulkResult where
  "empty_result =
     \<lparr>br_BatchID = uuid_nil, br_Creates = 0, br_Updates = 0, br_Revokes = 0, br_Noops = 0, br_Actions = []\<rparr>"

definition computeBulkDiff :: "BulkChange list \<Rightarrow> (grantKey \<times> existingGrant) list \<Rightarrow> BulkResult" where
  "computeBulkDiff changes current =
     fold (\<lambda>c res. count_action (classify_in current c) res) changes empty_result"

section \<open>The adapter\<close>

definition q_CountTeamMembersByOrg :: "'x org_db_scheme \<Rightarrow> uuid \<Rightarrow> (uuid \<times> nat) list" where
  "q_CountTeamMembersByOrg db org =
     (let ts = map tm_team (filter (\<lambda>tm. tm_org tm = org) (team_members db))
      in map (\<lambda>t. (t, count_list ts t)) (remdups ts))"

definition q_ListSpacesByOrg :: "'x org_db_scheme \<Rightarrow> uuid \<Rightarrow> SpaceRow list" where
  "q_ListSpacesByOrg db org = filter (\<lambda>s. s_org s = org \<and> \<not> s_deleted s) (spaces db)"

definition q_ListTeamGrantsByOrg :: "'x org_db_scheme \<Rightarrow> uuid \<Rightarrow> GrantRow list" where
  "q_ListTeamGrantsByOrg db org =
     filter (\<lambda>g. space_live db (g_space g) \<and> g_org g = org \<and> g_subject_type g = ''team'') (space_grants db)"

definition q_ListTeamGrantsByOrgForUpdate :: "'x org_db_scheme \<Rightarrow> uuid \<Rightarrow> GrantRow list" where
  "q_ListTeamGrantsByOrgForUpdate db org = sort_key g_id (q_ListTeamGrantsByOrg db org)"

definition pg_MatrixData :: "'x org_db_scheme \<Rightarrow> uuid \<Rightarrow> access_error + MatrixData" where
  "pg_MatrixData db orgID =
     rbind (run_query db (q_ListTeamsByOrg db orgID)) (\<lambda>ts.
     rbind (run_query db (q_CountTeamMembersByOrg db orgID)) (\<lambda>counts.
     rbind (run_query db (q_ListSpacesByOrg db orgID)) (\<lambda>ss.
     rbind (run_query db (q_ListTeamGrantsByOrg db orgID)) (\<lambda>gs.
       Inr \<lparr>md_Teams = map (\<lambda>t. \<lparr>mt_ID = t_id t, mt_ParentID = t_parent t, mt_Path = t_path t,
               mt_Name = t_name t, mt_IsDefault = t_default t,
               mt_MemberCount = map_get counts (t_id t) 0\<rparr>) ts,
            md_Spaces = map (\<lambda>s. \<lparr>ms_ID = s_id s, ms_Name = s_name s, ms_Type = s_type s,
               ms_Visibility = s_visibility s\<rparr>) ss,
            md_Grants = map (\<lambda>g. \<lparr>mgr_ID = g_id g, mgr_TeamID = g_subject_id g,
               mgr_SpaceID = g_space g, mgr_Role = g_role g\<rparr>) gs\<rparr>))))"

definition current_cells :: "GrantRow list \<Rightarrow> (grantKey \<times> existingGrant) list" where
  "current_cells rows =
     fold (\<lambda>g. AList.update (g_subject_id g, g_space g) \<lparr>ex_id = g_id g, ex_role = g_role g\<rparr>) rows []"

fun validateBulkTargets :: "BulkChange list \<Rightarrow> uuid list \<Rightarrow> uuid list \<Rightarrow> access_error + unit" where
  "validateBulkTargets [] teamIDs spaceIDs = Inr ()"
| "validateBulkTargets (c # cs) teamIDs spaceIDs =
     (if \<not> List.member teamIDs (bc_TeamID c) then Inl ErrBulkUnknownTeam
      else if \<not> List.member spaceIDs (bc_SpaceID c) then Inl ErrBulkUnknownSpace
      else validateBulkTargets cs teamIDs spaceIDs)"

definition loadTargetSets :: "'x org_db_scheme \<Rightarrow> uuid \<Rightarrow> access_error + uuid list \<times> uuid list" where
  "loadTargetSets db orgID =
     rbind (run_query db (q_ListTeamsByOrg db orgID)) (\<lambda>ts.
     rbind (run_query db (q_ListSpaceIDsByOrg db orgID)) (\<lambda>ss. Inr (map t_id ts, ss)))"

definition pg_PreviewBulk ::
    "'x org_db_scheme \<Rightarrow> uuid \<Rightarrow> BulkChange list \<Rightarrow> access_error + BulkResult" where
  "pg_PreviewBulk db orgID changes =
     rbind (loadTargetSets db orgID) (\<lambda>(teamSet, spaceSet).
     rbind (validateBulkTargets changes teamSet spaceSet) (\<lambda>_.
     rbind (run_query db (q_ListTeamGrantsByOrg db orgID)) (\<lambda>rows.
       Inr (computeBulkDiff changes (current_cells rows)))))"

definition q_CreateAuditEvent :: "AuditRow \<Rightarrow> ('x org_db_scheme, sql_error, AuditRow) stmt" where
  "q_CreateAuditEvent e db =
     (if \<not> db_up db then Inl SqlDown
      else if list_ex (\<lambda>x. au_id x = au_id e) (audit_log db) then Inl (SqlUnique ''audit_log_pkey'')
      else if \<not> (case au_actor e of None \<Rightarrow> True | Some u \<Rightarrow> user_exists db u) then Inl SqlForeignKey
      else Inr (e, db\<lparr>audit_log := audit_log db @ [e]\<rparr>))"

text \<open>A failed statement, wrapped with the operation's name.\<close>

definition wrap_sql :: "string \<Rightarrow> ('s, sql_error, 'a) stmt \<Rightarrow> ('s, access_error, 'a) stmt" where
  "wrap_sql what m db = (case m db of Inl _ \<Rightarrow> Inl (ErrDatabase what) | Inr r \<Rightarrow> Inr r)"

record bulkAuditContext =
  bac_orgID :: uuid
  bac_actorID :: uuid
  bac_batchID :: uuid
  bac_ticketRef :: string

definition EventTypeGrantCreated :: string where "EventTypeGrantCreated = ''grant.created''"
definition EventTypeGrantUpdated :: string where "EventTypeGrantUpdated = ''grant.updated''"
definition EventTypeGrantRevoked :: string where "EventTypeGrantRevoked = ''grant.revoked''"

definition writeBulkAuditEvent ::
    "uuid \<Rightarrow> bulkAuditContext \<Rightarrow> string \<Rightarrow> uuid \<Rightarrow> (string \<times> meta_value) list \<Rightarrow>
     ('x org_db_scheme, access_error, unit) stmt" where
  "writeBulkAuditEvent newID auditCtx eventType grantID payload =
     sseq (wrap_sql ''audit event'' (q_CreateAuditEvent
       \<lparr>au_id = newID, au_org = bac_orgID auditCtx, au_actor = Some (bac_actorID auditCtx),
        au_action = eventType, au_entity_kind = ''grant'', au_entity_id = grantID, au_payload = payload,
        au_batch = Some (bac_batchID auditCtx),
        au_ticket_ref = (if bac_ticketRef auditCtx \<noteq> '''' then Some (bac_ticketRef auditCtx) else None)\<rparr>))
     (sret ())"

text \<open>The switch over the action. \<open>classifyChange\<close> yields no other word; for one, Go would fall
  through to the audit event with the zero grant id and an empty type.\<close>

definition executeBulkAction ::
    "uuid \<times> uuid \<Rightarrow> uuid \<Rightarrow> uuid \<Rightarrow> BulkAction \<Rightarrow> (grantKey \<times> existingGrant) list \<Rightarrow> bulkAuditContext \<Rightarrow>
     ('x org_db_scheme, access_error, unit) stmt" where
  "executeBulkAction newIDs orgID actorID action current auditCtx =
     (let cur = map_get current (ba_TeamID action, ba_SpaceID action) zero_existing;
          meta = [(''space_id'', MUuid (ba_SpaceID action)), (''subject_type'', MText ''team''),
                  (''subject_id'', MUuid (ba_TeamID action))];
          audit = writeBulkAuditEvent (snd newIDs) auditCtx
      in if ba_Action action = ''create'' then
           sbind (wrap_sql ''create'' (q_CreateSpaceGrant
             \<lparr>g_id = fst newIDs, g_org = orgID, g_space = ba_SpaceID action, g_subject_type = ''team'',
              g_subject_id = ba_TeamID action, g_role = ba_ToRole action, g_created_by = Some actorID\<rparr>))
             (\<lambda>row. audit EventTypeGrantCreated (g_id row) (meta @ [(''role'', MText (ba_ToRole action))]))
         else if ba_Action action = ''update'' then
           sseq (wrap_sql ''update'' (q_UpdateSpaceGrantRole (ex_id cur) (ba_ToRole action)))
             (audit EventTypeGrantUpdated (ex_id cur)
                (meta @ [(''role'', MText (ba_ToRole action)), (''previous_role'', MText (ba_FromRole action))]))
         else if ba_Action action = ''revoke'' then
           sseq (wrap_sql ''revoke'' (q_DeleteSpaceGrant (ex_id cur)))
             (audit EventTypeGrantRevoked (ex_id cur) (meta @ [(''role'', MText (ba_FromRole action))]))
         else audit '''' uuid_nil meta)"

fun execute_actions ::
    "(nat \<Rightarrow> uuid \<times> uuid) \<Rightarrow> nat \<Rightarrow> uuid \<Rightarrow> uuid \<Rightarrow> BulkAction list \<Rightarrow>
     (grantKey \<times> existingGrant) list \<Rightarrow> bulkAuditContext \<Rightarrow> ('x org_db_scheme, access_error, unit) stmt" where
  "execute_actions fresh k orgID actorID [] current auditCtx = sret ()"
| "execute_actions fresh k orgID actorID (a # as) current auditCtx =
     (if ba_Action a = ''noop'' then execute_actions fresh (Suc k) orgID actorID as current auditCtx
      else sseq (executeBulkAction (fresh k) orgID actorID a current auditCtx)
             (execute_actions fresh (Suc k) orgID actorID as current auditCtx))"

definition pg_ApplyBulk ::
    "(nat \<Rightarrow> uuid \<times> uuid) \<Rightarrow> uuid \<Rightarrow> uuid \<Rightarrow> uuid \<Rightarrow> BulkChange list \<Rightarrow> string \<Rightarrow>
     'x org_db_scheme \<Rightarrow> (access_error + BulkResult) \<times> 'x org_db_scheme" where
  "pg_ApplyBulk fresh batchID orgID actorID changes ticketRef =
     in_tx
       (sbind (sread (\<lambda>db. loadTargetSets db orgID)) (\<lambda>(teamSet, spaceSet).
        sseq (sread (\<lambda>_. validateBulkTargets changes teamSet spaceSet))
       (sbind (sread (\<lambda>db. run_query db (q_ListTeamGrantsByOrgForUpdate db orgID))) (\<lambda>locked.
          let current = current_cells locked;
              res = (computeBulkDiff changes current)\<lparr>br_BatchID := batchID\<rparr>;
              auditCtx = \<lparr>bac_orgID = orgID, bac_actorID = actorID, bac_batchID = batchID,
                          bac_ticketRef = ticketRef\<rparr>
          in sseq (execute_actions fresh 0 orgID actorID (br_Actions res) current auditCtx) (sret res)))))"

definition pg_bulk_store :: "(nat \<Rightarrow> uuid \<times> uuid) \<Rightarrow> uuid \<Rightarrow> 'x org_db_scheme BulkStore" where
  "pg_bulk_store fresh batchID =
     \<lparr>bs_MatrixData = pg_MatrixData, bs_PreviewBulk = pg_PreviewBulk,
      bs_ApplyBulk = pg_ApplyBulk fresh batchID\<rparr>"

lemma pg_bulk_store_simps [simp]:
  "bs_MatrixData (pg_bulk_store fresh b) = pg_MatrixData"
  "bs_PreviewBulk (pg_bulk_store fresh b) = pg_PreviewBulk"
  "bs_ApplyBulk (pg_bulk_store fresh b) = pg_ApplyBulk fresh b"
  by (simp_all add: pg_bulk_store_def)

section \<open>The diff is a function of the cells\<close>

definition bc_cell :: "BulkChange \<Rightarrow> grantKey" where
  "bc_cell c = (bc_TeamID c, bc_SpaceID c)"

lemma duplicate_cell_iff:
  "\<not> duplicate_cell seen cs \<longleftrightarrow> distinct (map bc_cell cs) \<and> set (map bc_cell cs) \<inter> set seen = {}"
  by (induction cs arbitrary: seen) (auto simp: bc_cell_def)

lemma validateBulkSize_Inr:
  "validateBulkSize cs = Inr u \<longleftrightarrow>
     cs \<noteq> [] \<and> length cs \<le> maxBulkChanges \<and> distinct (map bc_cell cs)"
  using duplicate_cell_iff [of "[]" cs] by (auto simp: validateBulkSize_def not_less)

lemma validateBulkTargets_Inr:
  "validateBulkTargets cs ts ss = Inr u \<longleftrightarrow>
     (\<forall>c \<in> set cs. bc_TeamID c \<in> set ts \<and> bc_SpaceID c \<in> set ss)"
  by (induction cs) auto

lemma loadTargetSets_Inr:
  "loadTargetSets db org = Inr (ts, ss) \<longleftrightarrow>
     db_up db \<and> ts = map t_id (q_ListTeamsByOrg db org) \<and> ss = q_ListSpaceIDsByOrg db org"
  by (auto simp: loadTargetSets_def rbind_eq_Inr)

definition cell_key :: "GrantRow \<Rightarrow> grantKey" where
  "cell_key g = (g_subject_id g, g_space g)"

definition as_existing :: "GrantRow \<Rightarrow> existingGrant" where
  "as_existing g = \<lparr>ex_id = g_id g, ex_role = g_role g\<rparr>"

lemma map_of_current_cells:
  assumes "distinct (map cell_key rows)"
  shows "map_of (current_cells rows) k = Some e \<longleftrightarrow>
    (\<exists>g \<in> set rows. cell_key g = k \<and> e = as_existing g)"
proof -
  have "map_of (fold (\<lambda>g. AList.update (g_subject_id g, g_space g)
          \<lparr>ex_id = g_id g, ex_role = g_role g\<rparr>) rows m) k = Some e \<longleftrightarrow>
        (\<exists>g \<in> set rows. cell_key g = k \<and> e = as_existing g) \<or>
        (k \<notin> cell_key ` set rows \<and> map_of m k = Some e)" for m
    using assms
  proof (induction rows arbitrary: m)
    case Nil
    show ?case by simp
  next
    case (Cons g rows)
    then show ?case
      by (auto simp: update_conv' cell_key_def as_existing_def image_iff)
  qed
  from this [of "[]"] show ?thesis by (simp add: current_cells_def)
qed

lemma current_cells_same:
  assumes "distinct (map cell_key rows)" and "distinct (map cell_key rows')" and "set rows = set rows'"
  shows "map_of (current_cells rows) = map_of (current_cells rows')"
proof
  fix k
  have "map_of (current_cells rows) k = Some e \<longleftrightarrow> map_of (current_cells rows') k = Some e" for e
    unfolding map_of_current_cells [OF assms(1)] map_of_current_cells [OF assms(2)] assms(3) ..
  then show "map_of (current_cells rows) k = map_of (current_cells rows') k"
    by (metis option.exhaust)
qed

lemma classify_in_cong:
  "map_of current = map_of current' \<Longrightarrow> classify_in current = classify_in current'"
  by (rule ext) (simp add: classify_in_def map_get_def)

lemma count_action_fields [simp]:
  "br_Actions (count_action a res) = br_Actions res @ [a]"
  "br_BatchID (count_action a res) = br_BatchID res"
  "br_Noops (count_action a res) = (if ba_Action a = ''noop'' then 1 else 0) + br_Noops res"
  "br_Revokes (count_action a res) = (if ba_Action a = ''revoke'' then 1 else 0) + br_Revokes res"
  "br_Creates (count_action a res) = (if ba_Action a = ''create'' then 1 else 0) + br_Creates res"
  "br_Updates (count_action a res) = (if ba_Action a = ''update'' then 1 else 0) + br_Updates res"
  by (simp_all add: count_action_def Let_def)

lemma fold_count_action:
  fixes res :: BulkResult
  shows
    "br_Actions (fold (\<lambda>c res. count_action (f c) res) cs res) = br_Actions res @ map f cs"
    "br_BatchID (fold (\<lambda>c res. count_action (f c) res) cs res) = br_BatchID res"
    "br_Noops (fold (\<lambda>c res. count_action (f c) res) cs res) =
       br_Noops res + length (filter (\<lambda>c. ba_Action (f c) = ''noop'') cs)"
    "br_Revokes (fold (\<lambda>c res. count_action (f c) res) cs res) =
       br_Revokes res + length (filter (\<lambda>c. ba_Action (f c) = ''revoke'') cs)"
    "br_Creates (fold (\<lambda>c res. count_action (f c) res) cs res) =
       br_Creates res + length (filter (\<lambda>c. ba_Action (f c) = ''create'') cs)"
    "br_Updates (fold (\<lambda>c res. count_action (f c) res) cs res) =
       br_Updates res + length (filter (\<lambda>c. ba_Action (f c) = ''update'') cs)"
  by (induction cs arbitrary: res) simp_all

lemma computeBulkDiff_fields:
  "br_Actions (computeBulkDiff cs current) = map (classify_in current) cs"
  "br_BatchID (computeBulkDiff cs current) = uuid_nil"
  "br_Noops (computeBulkDiff cs current) = length (filter (\<lambda>c. ba_Action (classify_in current c) = ''noop'') cs)"
  "br_Revokes (computeBulkDiff cs current) = length (filter (\<lambda>c. ba_Action (classify_in current c) = ''revoke'') cs)"
  "br_Creates (computeBulkDiff cs current) = length (filter (\<lambda>c. ba_Action (classify_in current c) = ''create'') cs)"
  "br_Updates (computeBulkDiff cs current) = length (filter (\<lambda>c. ba_Action (classify_in current c) = ''update'') cs)"
  by (simp_all add: computeBulkDiff_def fold_count_action empty_result_def)

lemma computeBulkDiff_cong:
  "map_of current = map_of current' \<Longrightarrow> computeBulkDiff cs current = computeBulkDiff cs current'"
  by (simp add: computeBulkDiff_def classify_in_cong [of current current'])

lemma classify_action:
  "ba_Action (classify_in current c) \<in> {''noop'', ''revoke'', ''create'', ''update''}"
  by (simp add: classify_in_def classifyChange_def Let_def split: option.split)

lemma computeBulkDiff_total:
  "br_Creates (computeBulkDiff cs current) + br_Updates (computeBulkDiff cs current) +
   br_Revokes (computeBulkDiff cs current) + br_Noops (computeBulkDiff cs current) = length cs"
  unfolding computeBulkDiff_fields
proof (induction cs)
  case Nil
  show ?case by simp
next
  case (Cons c cs)
  then show ?case using classify_action [of current c] by auto
qed

text \<open>The rows both paths load: one per cell, whatever their order.\<close>

lemma team_grants_keys:
  assumes "org_db_wf db"
  shows "distinct (map cell_key (q_ListTeamGrantsByOrg db org))"
    and "distinct (map cell_key (q_ListTeamGrantsByOrgForUpdate db org))"
proof -
  let ?gs = "q_ListTeamGrantsByOrg db org"
  have "inj_on cell_key (set ?gs)"
  proof (rule inj_onI)
    fix x y assume "x \<in> set ?gs" "y \<in> set ?gs" "cell_key x = cell_key y"
    then show "x = y"
      using distinct_key [OF wf_grants(2) [OF assms], of x y]
      by (auto simp: q_ListTeamGrantsByOrg_def cell_key_def grant_key_def)
  qed
  moreover have "distinct ?gs"
    using wf_grants(1) [OF assms] by (simp add: q_ListTeamGrantsByOrg_def distinct_map)
  ultimately show "distinct (map cell_key ?gs)"
    and "distinct (map cell_key (q_ListTeamGrantsByOrgForUpdate db org))"
    by (simp_all add: distinct_map q_ListTeamGrantsByOrgForUpdate_def)
qed

lemma current_cells_locked:
  assumes "org_db_wf db"
  shows "map_of (current_cells (q_ListTeamGrantsByOrgForUpdate db org)) =
    map_of (current_cells (q_ListTeamGrantsByOrg db org))"
  using current_cells_same [OF team_grants_keys(2) [OF assms] team_grants_keys(1) [OF assms]]
  by (simp add: q_ListTeamGrantsByOrgForUpdate_def)

section \<open>Executing the diff\<close>

definition team_cell :: "grantKey \<Rightarrow> cell" where
  "team_cell k = (snd k, ''team'', fst k)"

lemma q_CreateAuditEvent_Inr:
  "q_CreateAuditEvent e db = Inr (e', db') \<Longrightarrow> e' = e \<and> db' = db\<lparr>audit_log := audit_log db @ [e]\<rparr>"
  by (auto simp: q_CreateAuditEvent_def split: if_splits)

lemma wrap_sql_Inr: "wrap_sql w m db = Inr r \<longleftrightarrow> m db = Inr r"
  by (auto simp: wrap_sql_def split: sum.splits)

lemma writeBulkAuditEvent_Inr:
  assumes "writeBulkAuditEvent i auditCtx ty gid pl db = Inr ((), db')"
  shows "\<exists>ev. au_batch ev = Some (bac_batchID auditCtx) \<and> au_org ev = bac_orgID auditCtx \<and>
       au_actor ev = Some (bac_actorID auditCtx) \<and> au_action ev = ty \<and> au_entity_id ev = gid \<and>
       db' = db\<lparr>audit_log := audit_log db @ [ev]\<rparr>"
proof -
  obtain ev e' where "q_CreateAuditEvent ev db = Inr (e', db')"
    and "au_batch ev = Some (bac_batchID auditCtx)" "au_org ev = bac_orgID auditCtx"
      "au_actor ev = Some (bac_actorID auditCtx)" "au_action ev = ty" "au_entity_id ev = gid"
    using assms by (auto simp: writeBulkAuditEvent_def sseq_Inr wrap_sql_Inr)
  then show ?thesis using q_CreateAuditEvent_Inr by blast
qed

lemma audit_irrelevant [simp]:
  "org_db_wf (db\<lparr>audit_log := l\<rparr>) = org_db_wf db"
  "grant_cell (db\<lparr>audit_log := l\<rparr>) = grant_cell db"
  by (auto simp: org_db_wf_def grant_cell_def [abs_def])

text \<open>What the rows say about the cell of a requested change.\<close>

definition cell_agrees ::
    "'x org_db_scheme \<Rightarrow> (grantKey \<times> existingGrant) list \<Rightarrow> grantKey \<Rightarrow> bool" where
  "cell_agrees db current k \<longleftrightarrow>
     (case map_of current k of
        None \<Rightarrow> \<forall>g \<in> set (space_grants db). grant_key g \<noteq> team_cell k
      | Some e \<Rightarrow> \<exists>g \<in> set (space_grants db). grant_key g = team_cell k \<and> e = as_existing g)"

definition same_frame :: "'x org_db_scheme \<Rightarrow> 'x org_db_scheme \<Rightarrow> bool" where
  "same_frame db db' \<longleftrightarrow> users db' = users db \<and> memberships db' = memberships db \<and>
     teams db' = teams db \<and> team_members db' = team_members db \<and> spaces db' = spaces db \<and>
     db_up db' = db_up db"

lemma same_frame_refl [simp]: "same_frame db db"
  by (simp add: same_frame_def)

lemma same_frame_trans: "same_frame a b \<Longrightarrow> same_frame b c \<Longrightarrow> same_frame a c"
  by (simp add: same_frame_def)

text \<open>One action: the cell it names ends as requested, every other row is untouched and one audit
  event of the batch is appended.\<close>

lemma execute_one:
  assumes wf: "org_db_wf db" and ag: "cell_agrees db current (bc_cell c)"
    and sp: "space_of_org db org (bc_SpaceID c)"
    and tm: "\<forall>t \<in> set (teams db). t_id t = bc_TeamID c \<longrightarrow> t_org t = org"
    and nn: "ba_Action (classify_in current c) \<noteq> ''noop''"
    and ex: "executeBulkAction ids org actor (classify_in current c) current ctx db = Inr ((), db')"
  shows "org_db_wf db' \<and> same_frame db db' \<and>
    grant_cell db' = (grant_cell db)(team_cell (bc_cell c) := bc_Role c) \<and>
    (\<forall>g. grant_key g \<noteq> team_cell (bc_cell c) \<longrightarrow> g \<in> set (space_grants db') \<longleftrightarrow> g \<in> set (space_grants db)) \<and>
    (\<exists>ev. au_batch ev = Some (bac_batchID ctx) \<and> au_org ev = bac_orgID ctx \<and>
       au_actor ev = Some (bac_actorID ctx) \<and> audit_log db' = audit_log db @ [ev])"
proof (cases "map_of current (bc_cell c)")
  case None
  then obtain r where r: "bc_Role c = Some r"
    using nn by (cases "bc_Role c") (auto simp: classify_in_def classifyChange_def Let_def bc_cell_def)
  define g where "g = \<lparr>gr_ID = fst ids, gr_OrgID = org, gr_SpaceID = bc_SpaceID c,
      gr_SubjectType = ''team'', gr_SubjectID = bc_TeamID c, gr_Role = r, gr_CreatedBy = Some actor,
      gr_SubjectName = '''', gr_SubjectMissing = False\<rparr>"
  have cls: "classify_in current c = \<lparr>ba_TeamID = bc_TeamID c, ba_SpaceID = bc_SpaceID c,
      ba_Action = ''create'', ba_FromRole = '''', ba_ToRole = RoleString r\<rparr>"
    using None r by (simp add: classify_in_def classifyChange_def bc_cell_def)
  obtain db1 ty pl where q: "q_CreateSpaceGrant (grant_row g) db = Inr (grant_row g, db1)"
    and w: "writeBulkAuditEvent (snd ids) ctx ty (g_id (grant_row g)) pl db1 = Inr ((), db')"
    using ex unfolding executeBulkAction_def cls
    by (auto simp: stmt_run wrap_sql_Inr g_def grant_row_def q_CreateSpaceGrant_Inr)
  have rn: "gr_Role g \<noteq> RoleNone" using q by (simp add: q_CreateSpaceGrant_Inr) (simp add: grant_row_def)
  have db1: "db1 = db\<lparr>space_grants := space_grants db @ [grant_row g]\<rparr>"
    using q by (simp add: q_CreateSpaceGrant_Inr)
  have wf1: "org_db_wf db1"
    by (rule org_db_wf_insert_grant [OF wf q]) (use sp tm in \<open>simp_all add: g_def grant_row_def\<close>)
  have cell: "grant_cell db1 = (grant_cell db)(team_cell (bc_cell c) \<mapsto> r)"
    using grant_cell_insert [OF wf rn q] by (simp add: g_def Grant_cell_def bc_cell_def team_cell_def)
  have key: "grant_key (grant_row g) = team_cell (bc_cell c)"
    by (simp add: g_def grant_row_def grant_key_def bc_cell_def team_cell_def)
  from writeBulkAuditEvent_Inr [OF w] obtain ev where
    "au_batch ev = Some (bac_batchID ctx)" "au_org ev = bac_orgID ctx"
    "au_actor ev = Some (bac_actorID ctx)" "db' = db1\<lparr>audit_log := audit_log db1 @ [ev]\<rparr>" by blast
  with wf1 cell key r show ?thesis by (auto simp: db1 same_frame_def)
next
  case (Some e)
  then obtain g where g: "g \<in> set (space_grants db)" and key: "grant_key g = team_cell (bc_cell c)"
    and e: "e = as_existing g"
    using ag by (auto simp: cell_agrees_def)
  have cur: "map_get current (ba_TeamID (classify_in current c), ba_SpaceID (classify_in current c)) zero_existing = e"
    using Some by (simp add: classify_in_def classifyChange_def map_get_def bc_cell_def Let_def split: option.split)
  have eid: "ex_id e = g_id g" "ex_role e = g_role g" by (simp_all add: e as_existing_def)
  have uniq: "x = g" if "x \<in> set (space_grants db)" "g_id x = g_id g" for x
    using distinct_key [OF wf_grants(1) [OF wf] that(1) g that(2)] .
  show ?thesis
  proof (cases "bc_Role c")
    case None
    have cls: "ba_Action (classify_in current c) = ''revoke''"
      using None Some by (simp add: classify_in_def classifyChange_def bc_cell_def)
    obtain db1 ty pl where q: "q_DeleteSpaceGrant (g_id g) db = Inr ((), db1)"
      and w: "writeBulkAuditEvent (snd ids) ctx ty (g_id g) pl db1 = Inr ((), db')"
      using ex unfolding executeBulkAction_def Let_def cur cls eid
      by (auto simp: stmt_run wrap_sql_Inr)
    have db1: "db1 = db\<lparr>space_grants := filter (\<lambda>x. g_id x \<noteq> g_id g) (space_grants db)\<rparr>"
      using q by (auto simp: q_DeleteSpaceGrant_def split: if_splits)
    have "org_db_wf db1" unfolding db1 by (rule org_db_wf_filter_grants [OF wf])
    moreover have "grant_cell db1 = (grant_cell db)(team_cell (bc_cell c) := bc_Role c)"
      using grant_cell_delete [OF wf g] key None by (simp add: db1)
    moreover from writeBulkAuditEvent_Inr [OF w] obtain ev where
      "au_batch ev = Some (bac_batchID ctx)" "au_org ev = bac_orgID ctx"
      "au_actor ev = Some (bac_actorID ctx)" "db' = db1\<lparr>audit_log := audit_log db1 @ [ev]\<rparr>" by blast
    ultimately show ?thesis using key uniq by (auto simp: db1 same_frame_def)
  next
    case r: (Some r)
    have "g_role g \<noteq> RoleString r"
      using nn Some r eid(2) by (auto simp: classify_in_def classifyChange_def bc_cell_def map_get_def)
    then have cls: "ba_Action (classify_in current c) = ''update''"
        "ba_ToRole (classify_in current c) = RoleString r"
      using Some r eid(2) by (simp_all add: classify_in_def classifyChange_def bc_cell_def map_get_def)
    obtain db1 x ty pl where q: "q_UpdateSpaceGrantRole (g_id g) (RoleString r) db = Inr (x, db1)"
      and w: "writeBulkAuditEvent (snd ids) ctx ty (g_id g) pl db1 = Inr ((), db')"
      using ex unfolding executeBulkAction_def Let_def cur cls eid
      by (auto simp: stmt_run wrap_sql_Inr)
    have rn: "r \<noteq> RoleNone"
      and db1: "db1 = db\<lparr>space_grants := map (set_grant_role (g_id g) (RoleString r)) (space_grants db)\<rparr>"
      using q by (auto simp: q_UpdateSpaceGrantRole_def split: if_splits option.splits)
    have "org_db_wf db1" unfolding db1 by (rule org_db_wf_set_role [OF wf]) (simp add: rn)
    moreover have "grant_cell db1 = (grant_cell db)(team_cell (bc_cell c) := bc_Role c)"
      using grant_cell_set_role [OF wf g rn] key r by (simp add: db1)
    moreover have "x \<in> set (space_grants db1) \<longleftrightarrow> x \<in> set (space_grants db)"
      if "grant_key x \<noteq> team_cell (bc_cell c)" for x
    proof -
      have k: "grant_key (set_grant_role i q y) = grant_key y" for i q y
        by (simp add: set_grant_role_def grant_key_def)
      have "set_grant_role (g_id g) (RoleString r) y = y" if "y \<in> set (space_grants db)" "y \<noteq> g" for y
        using uniq that by (auto simp: set_grant_role_def)
      then show ?thesis using that key k unfolding db1 by (force simp: image_iff)
    qed
    moreover from writeBulkAuditEvent_Inr [OF w] obtain ev where
      "au_batch ev = Some (bac_batchID ctx)" "au_org ev = bac_orgID ctx"
      "au_actor ev = Some (bac_actorID ctx)" "db' = db1\<lparr>audit_log := audit_log db1 @ [ev]\<rparr>" by blast
    ultimately show ?thesis by (auto simp: db1 same_frame_def)
  qed
qed

lemma execute_noop:
  assumes "org_db_wf db" and "cell_agrees db current (bc_cell c)"
    and "ba_Action (classify_in current c) = ''noop''"
  shows "grant_cell db (team_cell (bc_cell c)) = bc_Role c"
proof (cases "map_of current (bc_cell c)")
  case None
  then have "bc_Role c = None"
    using assms(3) by (cases "bc_Role c") (simp_all add: classify_in_def classifyChange_def bc_cell_def)
  moreover have "team_cell (bc_cell c) \<notin> grant_key ` set (space_grants db)"
    using assms(2) None by (auto simp: cell_agrees_def)
  ultimately show ?thesis using grant_cell_None_iff [OF assms(1)] by metis
next
  case (Some e)
  then obtain g where g: "g \<in> set (space_grants db)" "grant_key g = team_cell (bc_cell c)"
    and e: "e = as_existing g"
    using assms(2) by (auto simp: cell_agrees_def)
  obtain r where r: "bc_Role c = Some r" "ex_role e = RoleString r"
    using assms(3) Some
    by (cases "bc_Role c") (auto simp: classify_in_def classifyChange_def bc_cell_def map_get_def Let_def split: if_splits)
  with grant_cell_row [OF assms(1) g(1), of r] g(2) e show ?thesis by (simp add: as_existing_def)
qed

lemma cell_agrees_other:
  assumes "cell_agrees db current k"
    and "\<And>g. grant_key g = team_cell k \<Longrightarrow> g \<in> set (space_grants db') \<longleftrightarrow> g \<in> set (space_grants db)"
  shows "cell_agrees db' current k"
  using assms by (auto simp: cell_agrees_def split: option.splits)

lemma space_of_org_frame: "same_frame db db' \<Longrightarrow> space_of_org db' = space_of_org db"
  by (simp add: same_frame_def space_of_org_def [abs_def])

lemma team_cell_inject: "team_cell a = team_cell b \<longleftrightarrow> a = b"
  by (cases a; cases b) (auto simp: team_cell_def)

lemma execute_all:
  assumes "org_db_wf db" and "distinct (map bc_cell cs)"
    and "\<forall>c \<in> set cs. cell_agrees db current (bc_cell c)"
    and "\<forall>c \<in> set cs. space_of_org db org (bc_SpaceID c)"
    and "\<forall>c \<in> set cs. \<forall>t \<in> set (teams db). t_id t = bc_TeamID c \<longrightarrow> t_org t = org"
    and "execute_actions fresh k org actor (map (classify_in current) cs) current ctx db = Inr ((), db')"
  shows "org_db_wf db' \<and> same_frame db db' \<and>
    (\<forall>c \<in> set cs. grant_cell db' (team_cell (bc_cell c)) = bc_Role c) \<and>
    (\<forall>x. x \<notin> (\<lambda>c. team_cell (bc_cell c)) ` set cs \<longrightarrow> grant_cell db' x = grant_cell db x) \<and>
    (\<exists>evs. audit_log db' = audit_log db @ evs \<and>
       length evs = length (filter (\<lambda>c. ba_Action (classify_in current c) \<noteq> ''noop'') cs) \<and>
       (\<forall>ev \<in> set evs. au_batch ev = Some (bac_batchID ctx) \<and> au_org ev = bac_orgID ctx \<and>
          au_actor ev = Some (bac_actorID ctx)))"
  using assms
proof (induction cs arbitrary: db k)
  case Nil
  then show ?case by simp
next
  case (Cons c cs)
  have here: "cell_agrees db current (bc_cell c)" "space_of_org db org (bc_SpaceID c)"
      "\<forall>t \<in> set (teams db). t_id t = bc_TeamID c \<longrightarrow> t_org t = org"
    and rest: "distinct (map bc_cell cs)" "\<forall>c \<in> set cs. cell_agrees db current (bc_cell c)"
      "\<forall>c \<in> set cs. space_of_org db org (bc_SpaceID c)"
      "\<forall>c \<in> set cs. \<forall>t \<in> set (teams db). t_id t = bc_TeamID c \<longrightarrow> t_org t = org"
    using Cons.prems(2-5) by simp_all
  have other: "team_cell (bc_cell d) \<noteq> team_cell (bc_cell c)" if "d \<in> set cs" for d
    using that Cons.prems(2) unfolding team_cell_inject by (auto simp: image_iff)
  have away: "team_cell (bc_cell c) \<notin> (\<lambda>c. team_cell (bc_cell c)) ` set cs"
    using Cons.prems(2) by (auto simp: team_cell_inject image_iff)
  show ?case
  proof (cases "ba_Action (classify_in current c) = ''noop''")
    case True
    have n: "grant_cell db (team_cell (bc_cell c)) = bc_Role c"
      by (rule execute_noop [OF Cons.prems(1) here(1) True])
    have e: "execute_actions fresh (Suc k) org actor (map (classify_in current) cs) current ctx db = Inr ((), db')"
      using Cons.prems(6) True by simp
    have ih: "org_db_wf db'" "same_frame db db'"
      "\<forall>c \<in> set cs. grant_cell db' (team_cell (bc_cell c)) = bc_Role c"
      "\<forall>x. x \<notin> (\<lambda>c. team_cell (bc_cell c)) ` set cs \<longrightarrow> grant_cell db' x = grant_cell db x"
      "\<exists>evs. audit_log db' = audit_log db @ evs \<and>
         length evs = length (filter (\<lambda>c. ba_Action (classify_in current c) \<noteq> ''noop'') cs) \<and>
         (\<forall>ev \<in> set evs. au_batch ev = Some (bac_batchID ctx) \<and> au_org ev = bac_orgID ctx \<and>
            au_actor ev = Some (bac_actorID ctx))"
      using Cons.IH [OF Cons.prems(1) rest e] by blast+
    have "grant_cell db' (team_cell (bc_cell c)) = bc_Role c"
      using n ih(4) [rule_format, OF away] by metis
    then have a: "\<forall>d \<in> set (c # cs). grant_cell db' (team_cell (bc_cell d)) = bc_Role d"
      using ih(3) by simp
    have b: "\<forall>x. x \<notin> (\<lambda>c. team_cell (bc_cell c)) ` set (c # cs) \<longrightarrow> grant_cell db' x = grant_cell db x"
      using ih(4) by auto
    have l: "filter (\<lambda>c. ba_Action (classify_in current c) \<noteq> ''noop'') (c # cs) =
        filter (\<lambda>c. ba_Action (classify_in current c) \<noteq> ''noop'') cs"
      using True by simp
    show ?thesis unfolding l by (intro conjI ih(1,2,5) a b)
  next
    case False
    then obtain db1 where e1: "executeBulkAction (fresh k) org actor (classify_in current c) current ctx db = Inr ((), db1)"
      and e2: "execute_actions fresh (Suc k) org actor (map (classify_in current) cs) current ctx db1 = Inr ((), db')"
      using Cons.prems(6) by (auto simp: stmt_run)
    have one: "org_db_wf db1" "same_frame db db1"
      "grant_cell db1 = (grant_cell db)(team_cell (bc_cell c) := bc_Role c)"
      "\<And>g. grant_key g \<noteq> team_cell (bc_cell c) \<Longrightarrow> g \<in> set (space_grants db1) \<longleftrightarrow> g \<in> set (space_grants db)"
      "\<exists>ev. au_batch ev = Some (bac_batchID ctx) \<and> au_org ev = bac_orgID ctx \<and>
         au_actor ev = Some (bac_actorID ctx) \<and> audit_log db1 = audit_log db @ [ev]"
      using execute_one [OF Cons.prems(1) here False e1] by blast+
    have ag: "\<forall>d \<in> set cs. cell_agrees db1 current (bc_cell d)"
    proof (intro ballI, rule cell_agrees_other)
      fix d assume "d \<in> set cs"
      then show "cell_agrees db current (bc_cell d)" using rest(2) by blast
      show "g \<in> set (space_grants db1) \<longleftrightarrow> g \<in> set (space_grants db)"
        if "grant_key g = team_cell (bc_cell d)" for g
        using one(4) [of g] other [OF \<open>d \<in> set cs\<close>] that by simp
    qed
    have fr: "teams db1 = teams db" using one(2) by (simp add: same_frame_def)
    have sp: "\<forall>c \<in> set cs. space_of_org db1 org (bc_SpaceID c)"
      using rest(3) by (simp add: space_of_org_frame [OF one(2)])
    have tm: "\<forall>c \<in> set cs. \<forall>t \<in> set (teams db1). t_id t = bc_TeamID c \<longrightarrow> t_org t = org"
      using rest(4) by (simp add: fr)
    have ih: "org_db_wf db'" "same_frame db1 db'"
      "\<forall>c \<in> set cs. grant_cell db' (team_cell (bc_cell c)) = bc_Role c"
      "\<forall>x. x \<notin> (\<lambda>c. team_cell (bc_cell c)) ` set cs \<longrightarrow> grant_cell db' x = grant_cell db1 x"
      "\<exists>evs. audit_log db' = audit_log db1 @ evs \<and>
         length evs = length (filter (\<lambda>c. ba_Action (classify_in current c) \<noteq> ''noop'') cs) \<and>
         (\<forall>ev \<in> set evs. au_batch ev = Some (bac_batchID ctx) \<and> au_org ev = bac_orgID ctx \<and>
            au_actor ev = Some (bac_actorID ctx))"
      using Cons.IH [OF one(1) rest(1) ag sp tm e2] by blast+
    have "grant_cell db' (team_cell (bc_cell c)) = bc_Role c"
      using ih(4) [rule_format, OF away] one(3) by simp
    moreover have "grant_cell db' x = grant_cell db x"
      if "x \<notin> (\<lambda>c. team_cell (bc_cell c)) ` set (c # cs)" for x
      using ih(4) [rule_format, of x] one(3) that by simp
    moreover obtain ev evs where "audit_log db' = audit_log db @ ev # evs"
      "length (ev # evs) = length (filter (\<lambda>c. ba_Action (classify_in current c) \<noteq> ''noop'') (c # cs))"
      "\<forall>e \<in> set (ev # evs). au_batch e = Some (bac_batchID ctx) \<and> au_org e = bac_orgID ctx \<and>
          au_actor e = Some (bac_actorID ctx)"
      using one(5) ih(5) False by auto
    ultimately show ?thesis
      using ih(1,3) same_frame_trans [OF one(2) ih(2)]
      by (intro conjI exI [of _ "ev # evs"]) simp_all
  qed
qed

text \<open>What the loaded rows say about a targeted cell is what the table says.\<close>

lemma targets_ready:
  assumes wf: "org_db_wf db" and ts: "bc_TeamID c \<in> set (map t_id (q_ListTeamsByOrg db org))"
    and ss: "bc_SpaceID c \<in> set (q_ListSpaceIDsByOrg db org)"
  shows "cell_agrees db (current_cells (q_ListTeamGrantsByOrgForUpdate db org)) (bc_cell c)"
    and "space_of_org db org (bc_SpaceID c)"
    and "\<forall>t \<in> set (teams db). t_id t = bc_TeamID c \<longrightarrow> t_org t = org"
proof -
  let ?rows = "q_ListTeamGrantsByOrgForUpdate db org"
  have d: "distinct (map t_id (teams db))" "distinct (map s_id (spaces db))"
    using wf by (simp_all add: org_db_wf_def)
  obtain s where s: "s \<in> set (spaces db)" "s_id s = bc_SpaceID c" "s_org s = org" "\<not> s_deleted s"
    using ss by (auto simp: q_ListSpaceIDsByOrg_def)
  show sp: "space_of_org db org (bc_SpaceID c)"
    unfolding space_of_org_def using distinct_key [OF d(2) _ s(1)] s(2,3) by metis
  obtain t where "t \<in> set (teams db)" "t_id t = bc_TeamID c" "t_org t = org"
    using ts by (auto simp: q_ListTeamsByOrg_def)
  then show "\<forall>t \<in> set (teams db). t_id t = bc_TeamID c \<longrightarrow> t_org t = org"
    using distinct_key [OF d(1)] by metis
  have live: "space_live db (bc_SpaceID c)" using s by (auto simp: space_live_iff)
  have "\<forall>g \<in> set (space_grants db). \<forall>s \<in> set (spaces db). s_id s = g_space g \<longrightarrow> s_org s = g_org g"
    using wf by (simp add: org_db_wf_def)
  then have org: "g_org g = org" if "g \<in> set (space_grants db)" "g_space g = bc_SpaceID c" for g
    using s(1-3) that by force
  have rows: "g \<in> set ?rows \<and> cell_key g = bc_cell c \<longleftrightarrow>
      g \<in> set (space_grants db) \<and> grant_key g = team_cell (bc_cell c)" for g
    using org [of g] live
    by (auto simp: q_ListTeamGrantsByOrgForUpdate_def q_ListTeamGrantsByOrg_def cell_key_def bc_cell_def
        grant_key_def team_cell_def)
  show "cell_agrees db (current_cells ?rows) (bc_cell c)"
  proof (cases "map_of (current_cells ?rows) (bc_cell c)")
    case None
    have "grant_key g \<noteq> team_cell (bc_cell c)" if "g \<in> set (space_grants db)" for g
    proof
      assume "grant_key g = team_cell (bc_cell c)"
      then have "map_of (current_cells ?rows) (bc_cell c) = Some (as_existing g)"
        using rows [of g] that map_of_current_cells [OF team_grants_keys(2) [OF wf]] by blast
      with None show False by simp
    qed
    with None show ?thesis by (simp add: cell_agrees_def)
  next
    case (Some e)
    then obtain g where "g \<in> set ?rows" "cell_key g = bc_cell c" "e = as_existing g"
      using map_of_current_cells [OF team_grants_keys(2) [OF wf]] by blast
    then show ?thesis using Some rows [of g] by (auto simp: cell_agrees_def)
  qed
qed

lemma ApplyBulk_Inr:
  assumes wf: "org_db_wf db"
    and a: "BulkApply (pg_bulk_store fresh batch) org actor cs ref db = (Inr res, db')"
  shows "BulkPreview (pg_bulk_store fresh batch) db org cs = Inr (res\<lparr>br_BatchID := uuid_nil\<rparr>)"
    and "br_BatchID res = batch" and "org_db_wf db'" and "same_frame db db'"
    and "\<forall>c \<in> set cs. grant_cell db' (team_cell (bc_cell c)) = bc_Role c"
    and "\<forall>x. x \<notin> (\<lambda>c. team_cell (bc_cell c)) ` set cs \<longrightarrow> grant_cell db' x = grant_cell db x"
    and "\<exists>evs. audit_log db' = audit_log db @ evs \<and>
       length evs = br_Creates res + br_Updates res + br_Revokes res \<and>
       (\<forall>ev \<in> set evs. au_batch ev = Some batch \<and> au_org ev = org \<and> au_actor ev = Some actor)"
proof -
  let ?rows = "q_ListTeamGrantsByOrgForUpdate db org"
  let ?cur = "current_cells ?rows"
  let ?ctx = "\<lparr>bac_orgID = org, bac_actorID = actor, bac_batchID = batch, bac_ticketRef = ref\<rparr>"
  have size: "validateBulkSize cs = Inr ()" and up: "db_up db"
    and tg: "\<forall>c \<in> set cs. bc_TeamID c \<in> set (map t_id (q_ListTeamsByOrg db org)) \<and>
               bc_SpaceID c \<in> set (q_ListSpaceIDsByOrg db org)"
    and res: "res = (computeBulkDiff cs ?cur)\<lparr>br_BatchID := batch\<rparr>"
    and ex: "execute_actions fresh 0 org actor (map (classify_in ?cur) cs) ?cur ?ctx db = Inr ((), db')"
    using a
    by (auto simp: BulkApply_def pg_ApplyBulk_def in_tx_Inr stmt_run loadTargetSets_Inr
        validateBulkTargets_Inr computeBulkDiff_fields Let_def split: sum.splits prod.splits)
  have dist: "distinct (map bc_cell cs)" using size by (simp add: validateBulkSize_Inr)
  have same: "computeBulkDiff cs (current_cells (q_ListTeamGrantsByOrg db org)) = computeBulkDiff cs ?cur"
    by (rule computeBulkDiff_cong) (simp add: current_cells_locked [OF wf])
  have "validateBulkTargets cs (map t_id (q_ListTeamsByOrg db org)) (q_ListSpaceIDsByOrg db org) = Inr ()"
    using tg by (simp add: validateBulkTargets_Inr)
  then have "pg_PreviewBulk db org cs = Inr (computeBulkDiff cs ?cur)"
    using up by (simp add: pg_PreviewBulk_def loadTargetSets_def same)
  moreover have "res\<lparr>br_BatchID := uuid_nil\<rparr> = computeBulkDiff cs ?cur"
    using computeBulkDiff_fields(2) [of cs ?cur] by (simp add: res)
  ultimately show "BulkPreview (pg_bulk_store fresh batch) db org cs = Inr (res\<lparr>br_BatchID := uuid_nil\<rparr>)"
    using size by (simp add: BulkPreview_def)
  show "br_BatchID res = batch" by (simp add: res)
  have ag: "\<forall>c \<in> set cs. cell_agrees db ?cur (bc_cell c)"
    and sp: "\<forall>c \<in> set cs. space_of_org db org (bc_SpaceID c)"
    and tm: "\<forall>c \<in> set cs. \<forall>t \<in> set (teams db). t_id t = bc_TeamID c \<longrightarrow> t_org t = org"
    using targets_ready [OF wf] tg by blast+
  note all = execute_all [OF wf dist ag sp tm ex]
  from all show "org_db_wf db'" and "same_frame db db'"
    and "\<forall>c \<in> set cs. grant_cell db' (team_cell (bc_cell c)) = bc_Role c"
    and "\<forall>x. x \<notin> (\<lambda>c. team_cell (bc_cell c)) ` set cs \<longrightarrow> grant_cell db' x = grant_cell db x"
    by blast+
  have "length (filter (\<lambda>c. ba_Action (classify_in ?cur c) \<noteq> ''noop'') cs) + br_Noops (computeBulkDiff cs ?cur) = length cs"
    unfolding computeBulkDiff_fields using sum_length_filter_compl [of "\<lambda>c. ba_Action (classify_in ?cur c) = ''noop''" cs]
    by simp
  then have "length (filter (\<lambda>c. ba_Action (classify_in ?cur c) \<noteq> ''noop'') cs) =
      br_Creates res + br_Updates res + br_Revokes res"
    using computeBulkDiff_total [of cs ?cur] by (simp add: res)
  with all show "\<exists>evs. audit_log db' = audit_log db @ evs \<and>
       length evs = br_Creates res + br_Updates res + br_Revokes res \<and>
       (\<forall>ev \<in> set evs. au_batch ev = Some batch \<and> au_org ev = org \<and> au_actor ev = Some actor)"
    by auto
qed

section \<open>The matrix keeps its promises\<close>

text \<open>
  C6. An applied bulk change is the previewed one and nothing else. When \<open>Apply\<close> succeeds, the
  preview of the same request on the database it started from reports exactly the applied counts
  and actions; afterwards every requested cell holds exactly the requested role (or no grant, for a
  revoke), every other cell, user grants included, is what it was, and the tables stay well formed.
\<close>

theorem BulkApply_as_previewed:
  assumes "org_db_wf db"
    and "BulkApply (pg_bulk_store fresh batch) org actor cs ref db = (Inr res, db')"
  shows "BulkPreview (pg_bulk_store fresh batch) db org cs = Inr (res\<lparr>br_BatchID := uuid_nil\<rparr>) \<and>
    org_db_wf db' \<and>
    (\<forall>c \<in> set cs. grant_cell db' (bc_SpaceID c, ''team'', bc_TeamID c) = bc_Role c) \<and>
    (\<forall>s t i. (\<forall>c \<in> set cs. (s, t, i) \<noteq> (bc_SpaceID c, ''team'', bc_TeamID c)) \<longrightarrow>
       grant_cell db' (s, t, i) = grant_cell db (s, t, i))"
proof -
  have k: "team_cell (bc_cell c) = (bc_SpaceID c, ''team'', bc_TeamID c)" for c
    by (simp add: team_cell_def bc_cell_def)
  note r = ApplyBulk_Inr [OF assms, unfolded k]
  have "grant_cell db' (s, t, i) = grant_cell db (s, t, i)"
    if "\<forall>c \<in> set cs. (s, t, i) \<noteq> (bc_SpaceID c, ''team'', bc_TeamID c)" for s t i
    using r(6) [rule_format, of "(s, t, i)"] that by blast
  with r(1,3,5) show ?thesis by blast
qed

definition demo_changes :: "BulkChange list" where
  "demo_changes =
     [\<lparr>bc_TeamID = 22, bc_SpaceID = 31, bc_Role = None\<rparr>,
      \<lparr>bc_TeamID = 21, bc_SpaceID = 32, bc_Role = Some RoleAgent\<rparr>]"

definition demo_fresh :: "nat \<Rightarrow> uuid \<times> uuid" where
  "demo_fresh k = (of_nat (100 + 2 * k), of_nat (101 + 2 * k))"

lemma demo_apply_ok:
  "is_ok (fst (BulkApply (pg_bulk_store demo_fresh 99) 1 10 demo_changes ''OPS-1'' demo_db))"
  by (simp add: BulkApply_def validateBulkSize_def demo_changes_def maxBulkChanges_def pg_ApplyBulk_def
      in_tx_def stmt_defs loadTargetSets_def q_ListTeamGrantsByOrgForUpdate_def q_ListTeamGrantsByOrg_def
      current_cells_def computeBulkDiff_def classify_in_def classifyChange_def count_action_def
      empty_result_def executeBulkAction_def writeBulkAuditEvent_def wrap_sql_def q_DeleteSpaceGrant_def
      q_CreateSpaceGrant_def q_CreateAuditEvent_def grant_key_def user_exists_def grant_role_names_def
      map_get_def demo_fresh_def query_defs demo_db_def Let_def)

lemma demo_apply:
  "\<exists>res db'. BulkApply (pg_bulk_store demo_fresh 99) 1 10 demo_changes ''OPS-1'' demo_db = (Inr res, db')"
  using demo_apply_ok
  by (cases "BulkApply (pg_bulk_store demo_fresh 99) 1 10 demo_changes ''OPS-1'' demo_db") (auto simp: is_ok_iff)

theorem BulkApply_as_previewed_witness:
  "\<exists>res db'. BulkApply (pg_bulk_store demo_fresh 99) 1 10 demo_changes ''OPS-1'' demo_db = (Inr res, db') \<and>
     grant_cell db' (31, ''team'', 22) = None \<and> grant_cell db' (32, ''team'', 21) = Some RoleAgent"
  using demo_apply BulkApply_as_previewed [OF demo_db_wf]
  by (fastforce simp: demo_changes_def)

text \<open>
  C7. A batch and its audit trail are atomic. If \<open>Apply\<close> fails for any reason the database is
  unchanged, audit log included; if it succeeds, exactly one audit event is appended per created,
  updated or revoked grant, none for a no-op, and every one carries the one batch id of the
  result, the org and the acting user.
\<close>

theorem BulkApply_atomic_audit:
  assumes "org_db_wf db"
  shows "case BulkApply (pg_bulk_store fresh batch) org actor cs ref db of
      (Inl e, db') \<Rightarrow> db' = db
    | (Inr res, db') \<Rightarrow>
        br_BatchID res = batch \<and>
        (\<exists>evs. audit_log db' = audit_log db @ evs \<and>
           length evs = br_Creates res + br_Updates res + br_Revokes res \<and>
           (\<forall>ev \<in> set evs. au_batch ev = Some batch \<and> au_org ev = org \<and> au_actor ev = Some actor))"
proof (cases "BulkApply (pg_bulk_store fresh batch) org actor cs ref db")
  case (Pair r db')
  show ?thesis
  proof (cases r)
    case (Inl e)
    then have "db' = db"
      using Pair by (auto simp: BulkApply_def pg_ApplyBulk_def in_tx_Inl split: sum.splits)
    with Pair Inl show ?thesis by simp
  next
    case (Inr res)
    with Pair ApplyBulk_Inr(2,7) [OF assms, of fresh batch org actor cs ref res db']
    show ?thesis by simp
  qed
qed

theorem BulkApply_atomic_audit_witness:
  "\<exists>res db'. BulkApply (pg_bulk_store demo_fresh 99) 1 10 demo_changes ''OPS-1'' demo_db = (Inr res, db') \<and>
     br_BatchID res = 99 \<and> (\<forall>ev \<in> set (audit_log db'). au_batch ev = Some 99)"
proof -
  obtain res db' where a:
    "BulkApply (pg_bulk_store demo_fresh 99) 1 10 demo_changes ''OPS-1'' demo_db = (Inr res, db')"
    using demo_apply by blast
  moreover have "audit_log demo_db = []" by (simp add: demo_db_def)
  ultimately show ?thesis
    using BulkApply_atomic_audit [OF demo_db_wf, where fresh = demo_fresh and batch = 99 and org = 1
        and actor = 10 and cs = demo_changes and ref = "''OPS-1''"] by auto
qed


lemma classify_noop:
  assumes wf: "org_db_wf db" and ag: "cell_agrees db cur (bc_cell c)" and cell: "grant_cell db (team_cell (bc_cell c)) = bc_Role c"
  shows "ba_Action (classify_in cur c) = ''noop''"
proof (cases "map_of cur (bc_cell c)")
  case None
  then have "team_cell (bc_cell c) \<notin> grant_key ` set (space_grants db)" using ag by (auto simp: cell_agrees_def)
  then have "bc_Role c = None" using cell grant_cell_None_iff [OF wf] by metis
  with None show ?thesis by (simp add: classify_in_def classifyChange_def bc_cell_def)
next
  case (Some e)
  then obtain g where g: "g \<in> set (space_grants db)" "grant_key g = team_cell (bc_cell c)" "e = as_existing g"
    using ag by (auto simp: cell_agrees_def)
  obtain q where q: "g_role g = RoleString q"
    using wf_grants(3) [OF wf g(1)] by (auto simp: grant_role_names_iff)
  then have "bc_Role c = Some q" using grant_cell_row [OF wf g(1) q] g(2) cell by simp
  with Some q g(3) show ?thesis
    by (simp add: classify_in_def classifyChange_def bc_cell_def map_get_def as_existing_def)
qed

text \<open>A batch of no-ops writes nothing: the loop of \<open>ApplyBulk\<close> skips every line.\<close>

lemma execute_noops:
  "\<forall>a \<in> set as. ba_Action a = ''noop'' \<Longrightarrow> execute_actions fresh k org actor as cur ctx db = Inr ((), db)"
  by (induction as arbitrary: k) (simp_all add: stmt_defs)

lemma noop_batch:
  assumes size: "validateBulkSize cs = Inr ()" and up: "db_up db"
    and tg: "\<forall>c \<in> set cs. bc_TeamID c \<in> set (map t_id (q_ListTeamsByOrg db org)) \<and>
      bc_SpaceID c \<in> set (q_ListSpaceIDsByOrg db org)"
    and noop: "\<forall>c \<in> set cs. ba_Action (classify_in (current_cells (q_ListTeamGrantsByOrgForUpdate db org)) c) = ''noop''"
  shows "BulkApply (pg_bulk_store fresh batch) org actor cs ref db =
    (Inr ((computeBulkDiff cs (current_cells (q_ListTeamGrantsByOrgForUpdate db org)))\<lparr>br_BatchID := batch\<rparr>), db)"
proof -
  have tgt: "validateBulkTargets cs (map t_id (q_ListTeamsByOrg db org)) (q_ListSpaceIDsByOrg db org) = Inr ()"
    using tg by (simp add: validateBulkTargets_Inr)
  show ?thesis using size up tgt noop
    by (simp add: BulkApply_def pg_ApplyBulk_def in_tx_def loadTargetSets_def stmt_defs computeBulkDiff_fields
        execute_noops Let_def)
qed

text \<open>
  C8. Applying a change is idempotent. Once a batch has been applied, applying the same changes to
  the result, whoever asks, under whatever batch id and ticket reference, succeeds, reports every
  line as a no-op and leaves the whole database as it is: no grant changes and no audit event is
  appended. The preview of the request on the result says the same. So retrying after a lost
  response is harmless.
\<close>

theorem BulkApply_idempotent:
  assumes wf: "org_db_wf db"
    and a: "BulkApply (pg_bulk_store fresh batch) org actor cs ref db = (Inr res, db')"
  shows "\<exists>again. BulkPreview (pg_bulk_store fresh batch) db' org cs = Inr again \<and>
    br_Noops again = length cs \<and> br_Creates again = 0 \<and> br_Updates again = 0 \<and> br_Revokes again = 0 \<and>
    (\<forall>fresh' batch' actor' ref'. BulkApply (pg_bulk_store fresh' batch') org actor' cs ref' db' =
       (Inr (again\<lparr>br_BatchID := batch'\<rparr>), db'))"
proof -
  note r = ApplyBulk_Inr [OF wf a]
  have size: "validateBulkSize cs = Inr ()"
    using r(1) by (auto simp: BulkPreview_def rbind_eq_Inr)
  have up: "db_up db" and tg: "\<forall>c \<in> set cs. bc_TeamID c \<in> set (map t_id (q_ListTeamsByOrg db org)) \<and>
      bc_SpaceID c \<in> set (q_ListSpaceIDsByOrg db org)"
    using r(1) by (auto simp: BulkPreview_def pg_PreviewBulk_def rbind_eq_Inr loadTargetSets_Inr
        validateBulkTargets_Inr)
  have fr: "teams db' = teams db" "spaces db' = spaces db" "db_up db' = db_up db"
    using r(4) by (simp_all add: same_frame_def)
  have qs: "q_ListTeamsByOrg db' org = q_ListTeamsByOrg db org"
      "q_ListSpaceIDsByOrg db' org = q_ListSpaceIDsByOrg db org"
    by (simp_all add: q_ListTeamsByOrg_def q_ListSpaceIDsByOrg_def fr)
  let ?cur = "current_cells (q_ListTeamGrantsByOrgForUpdate db' org)"
  have noop: "ba_Action (classify_in ?cur c) = ''noop''" if c: "c \<in> set cs" for c
  proof (rule classify_noop [OF r(3)])
    show "cell_agrees db' ?cur (bc_cell c)" using targets_ready(1) [OF r(3), of c org] tg c qs by simp
    show "grant_cell db' (team_cell (bc_cell c)) = bc_Role c" using r(5) c by blast
  qed
  have tgt: "\<forall>c \<in> set cs. bc_TeamID c \<in> set (map t_id (q_ListTeamsByOrg db' org)) \<and>
      bc_SpaceID c \<in> set (q_ListSpaceIDsByOrg db' org)" using tg by (simp add: qs)
  have again: "BulkApply (pg_bulk_store fresh' batch') org actor' cs ref' db' =
      (Inr ((computeBulkDiff cs ?cur)\<lparr>br_BatchID := batch'\<rparr>), db')" for fresh' batch' actor' ref'
    by (rule noop_batch [OF size _ tgt]) (use up fr noop in auto)
  have lock: "computeBulkDiff cs (current_cells (q_ListTeamGrantsByOrg db' org)) = computeBulkDiff cs ?cur"
    by (rule computeBulkDiff_cong) (simp add: current_cells_locked [OF r(3)])
  have "validateBulkTargets cs (map t_id (q_ListTeamsByOrg db org)) (q_ListSpaceIDsByOrg db org) = Inr ()"
    using tg by (simp add: validateBulkTargets_Inr)
  then have "BulkPreview (pg_bulk_store fresh batch) db' org cs = Inr (computeBulkDiff cs ?cur)"
    using size up qs fr by (simp add: BulkPreview_def pg_PreviewBulk_def loadTargetSets_def lock)
  moreover have "filter (\<lambda>c. ba_Action (classify_in ?cur c) = ''noop'') cs = cs"
    using noop by (simp add: filter_id_conv)
  then have "br_Noops (computeBulkDiff cs ?cur) = length cs" by (simp add: computeBulkDiff_fields)
  ultimately show ?thesis using computeBulkDiff_total [of cs ?cur] again by auto
qed

theorem BulkApply_idempotent_witness:
  "\<exists>res db' again. BulkApply (pg_bulk_store demo_fresh 99) 1 10 demo_changes ''OPS-1'' demo_db = (Inr res, db') \<and>
     BulkPreview (pg_bulk_store demo_fresh 99) db' 1 demo_changes = Inr again \<and> br_Noops again = 2 \<and>
     BulkApply (pg_bulk_store demo_fresh 77) 1 11 demo_changes [] db' = (Inr (again\<lparr>br_BatchID := 77\<rparr>), db')"
proof -
  obtain res db' where a:
    "BulkApply (pg_bulk_store demo_fresh 99) 1 10 demo_changes ''OPS-1'' demo_db = (Inr res, db')"
    using demo_apply by blast
  obtain again where "BulkPreview (pg_bulk_store demo_fresh 99) db' 1 demo_changes = Inr again"
      "br_Noops again = 2"
      "BulkApply (pg_bulk_store demo_fresh 77) 1 11 demo_changes [] db' = (Inr (again\<lparr>br_BatchID := 77\<rparr>), db')"
    using BulkApply_idempotent [OF demo_db_wf a] by (auto simp: demo_changes_def)
  with a show ?thesis by blast
qed

end
