(* ===== verification/GoStrings.thy ===== *)
theory GoStrings
  imports Prelude
begin

text \<open>
  The functions of Go's \<^verbatim>\<open>strings\<close> and \<^verbatim>\<open>time\<close> packages the modelled code calls.

  A Go string is its sequence of bytes and is a \<open>string\<close> of characters 0 to 255 here, so a
  non-ASCII letter is its UTF-8 encoding. \<open>TrimSpace\<close> knows the encodings of every Unicode
  White_Space code point, which is what \<open>unicode.IsSpace\<close> answers for.
\<close>

section \<open>Prefixes, cutting and joining\<close>

definition HasPrefix :: "string \<Rightarrow> string \<Rightarrow> bool" where
  "HasPrefix s p \<longleftrightarrow> take (length p) s = p"

definition HasSuffix :: "string \<Rightarrow> string \<Rightarrow> bool" where
  "HasSuffix s p \<longleftrightarrow> HasPrefix (rev s) (rev p)"

definition TrimPrefix :: "string \<Rightarrow> string \<Rightarrow> string" where
  "TrimPrefix s p = (if HasPrefix s p then drop (length p) s else s)"

text \<open>\<open>strings.Split\<close> on a one-byte separator: never empty, one more part than separators.\<close>

fun Split1 :: "char \<Rightarrow> string \<Rightarrow> string list" where
  "Split1 sep [] = [[]]"
| "Split1 sep (c # cs) =
     (if c = sep then [] # Split1 sep cs
      else case Split1 sep cs of [] \<Rightarrow> [[c]] | p # ps \<Rightarrow> (c # p) # ps)"

fun JoinWith :: "string \<Rightarrow> string list \<Rightarrow> string" where
  "JoinWith sep [] = ''''"
| "JoinWith sep [s] = s"
| "JoinWith sep (s # t # ss) = s @ sep @ JoinWith sep (t # ss)"

text \<open>\<open>strings.ReplaceAll\<close> of a one-byte string.\<close>

definition ReplaceAll1 :: "string \<Rightarrow> char \<Rightarrow> string \<Rightarrow> string" where
  "ReplaceAll1 s c r = concat (map (\<lambda>x. if x = c then r else [x]) s)"

text \<open>\<open>strings.Trim\<close> with a one-byte cutset.\<close>

definition TrimByte :: "char \<Rightarrow> string \<Rightarrow> string" where
  "TrimByte c s = rev (dropWhile (\<lambda>x. x = c) (rev (dropWhile (\<lambda>x. x = c) s)))"

lemma Split1_not_Nil [simp]: "Split1 sep s \<noteq> []"
  by (cases s) (auto split: list.split)

lemma Split1_parts: "p \<in> set (Split1 sep s) \<Longrightarrow> sep \<notin> set p"
  by (induction s arbitrary: p) (auto split: list.splits if_splits)

text \<open>Splitting and joining with the separator is the identity.\<close>

lemma JoinWith_Cons: "ps \<noteq> [] \<Longrightarrow> JoinWith sep (p # ps) = p @ sep @ JoinWith sep ps"
  by (cases ps) simp_all

lemma JoinWith_push: "JoinWith sep ((c # p) # ps) = c # JoinWith sep (p # ps)"
  by (cases ps) simp_all

lemma JoinWith_Split1: "JoinWith [sep] (Split1 sep s) = s"
proof (induction s)
  case Nil
  show ?case by simp
next
  case (Cons c cs)
  show ?case
  proof (cases "c = sep")
    case True
    with Cons show ?thesis by (simp add: JoinWith_Cons)
  next
    case False
    obtain p ps where p: "Split1 sep cs = p # ps" by (meson Split1_not_Nil neq_Nil_conv)
    with Cons False show ?thesis by (simp add: JoinWith_push)
  qed
qed

section \<open>White space\<close>

definition space_seqs :: "string list" where
  "space_seqs =
     [[CHR 0x09], [CHR 0x0A], [CHR 0x0B], [CHR 0x0C], [CHR 0x0D], [CHR 0x20],
      [CHR 0xC2, CHR 0x85], [CHR 0xC2, CHR 0xA0], [CHR 0xE1, CHR 0x9A, CHR 0x80],
      [CHR 0xE2, CHR 0x80, CHR 0x80], [CHR 0xE2, CHR 0x80, CHR 0x81], [CHR 0xE2, CHR 0x80, CHR 0x82],
      [CHR 0xE2, CHR 0x80, CHR 0x83], [CHR 0xE2, CHR 0x80, CHR 0x84], [CHR 0xE2, CHR 0x80, CHR 0x85],
      [CHR 0xE2, CHR 0x80, CHR 0x86], [CHR 0xE2, CHR 0x80, CHR 0x87], [CHR 0xE2, CHR 0x80, CHR 0x88],
      [CHR 0xE2, CHR 0x80, CHR 0x89], [CHR 0xE2, CHR 0x80, CHR 0x8A], [CHR 0xE2, CHR 0x80, CHR 0xA8],
      [CHR 0xE2, CHR 0x80, CHR 0xA9], [CHR 0xE2, CHR 0x80, CHR 0xAF], [CHR 0xE2, CHR 0x81, CHR 0x9F],
      [CHR 0xE3, CHR 0x80, CHR 0x80]]"

lemma HasPrefix_shrinks: "HasPrefix s p \<Longrightarrow> p \<noteq> [] \<Longrightarrow> length s - length p < length s"
  by (cases s; cases p) (auto simp: HasPrefix_def)

text \<open>Dropping leading occurrences of the listed non-empty sequences.\<close>

function drop_seqs :: "string list \<Rightarrow> string \<Rightarrow> string" where
  "drop_seqs seqs s =
     (case List.find (\<lambda>p. p \<noteq> [] \<and> HasPrefix s p) seqs of
        None \<Rightarrow> s
      | Some p \<Rightarrow> drop_seqs seqs (drop (length p) s))"
  by pat_completeness auto
termination
  by (relation "measure (\<lambda>(seqs, s). length s)")
    (auto dest!: find_Some_in intro: HasPrefix_shrinks)

declare drop_seqs.simps [simp del]

definition TrimLeftSpace :: "string \<Rightarrow> string" where
  "TrimLeftSpace s = drop_seqs space_seqs s"

definition TrimRightSpace :: "string \<Rightarrow> string" where
  "TrimRightSpace s = rev (drop_seqs (map rev space_seqs) (rev s))"

definition TrimSpace :: "string \<Rightarrow> string" where
  "TrimSpace s = TrimRightSpace (TrimLeftSpace s)"

definition blank :: "string \<Rightarrow> bool" where
  "blank s \<longleftrightarrow> TrimSpace s = ''''"

lemma drop_seqs_Nil [simp]: "drop_seqs seqs [] = []"
proof -
  have "List.find (\<lambda>p. p \<noteq> [] \<and> HasPrefix [] p) seqs = None"
    by (auto simp: find_None_iff HasPrefix_def)
  then show ?thesis by (subst drop_seqs.simps) simp
qed

lemma TrimSpace_Nil [simp]: "TrimSpace [] = []"
  by (simp add: TrimSpace_def TrimLeftSpace_def TrimRightSpace_def)

lemma drop_seqs_stops:
  "List.find (\<lambda>p. p \<noteq> [] \<and> HasPrefix (drop_seqs seqs s) p) seqs = None"
proof (induction seqs s rule: drop_seqs.induct)
  case (1 seqs s)
  show ?case
  proof (cases "List.find (\<lambda>p. p \<noteq> [] \<and> HasPrefix s p) seqs")
    case None
    then show ?thesis by (subst drop_seqs.simps) simp
  next
    case (Some p)
    with 1 [OF Some] show ?thesis by (subst drop_seqs.simps) simp
  qed
qed

lemma drop_seqs_idem: "drop_seqs seqs (drop_seqs seqs s) = drop_seqs seqs s"
  by (subst drop_seqs.simps) (simp add: drop_seqs_stops)

lemma TrimSpace_ends_trimmed: "TrimRightSpace (TrimSpace s) = TrimSpace s"
  by (simp add: TrimSpace_def TrimRightSpace_def drop_seqs_idem)

lemma drop_seqs_suffix: "\<exists>p. s = p @ drop_seqs seqs s"
proof (induction seqs s rule: drop_seqs.induct)
  case (1 seqs s)
  show ?case
  proof (cases "List.find (\<lambda>p. p \<noteq> [] \<and> HasPrefix s p) seqs")
    case None
    then show ?thesis by (subst drop_seqs.simps) simp
  next
    case (Some p)
    with 1 [OF Some] have "\<exists>q. drop (length p) s = q @ drop_seqs seqs (drop (length p) s)" by simp
    then obtain q where "s = (take (length p) s @ q) @ drop_seqs seqs (drop (length p) s)"
      by (metis append.assoc append_take_drop_id)
    then have "\<exists>p'. s = p' @ drop_seqs seqs (drop (length p) s)" ..
    with Some show ?thesis by (subst drop_seqs.simps) simp
  qed
qed

lemma length_TrimSpace: "length (TrimSpace s) \<le> length s"
proof -
  have "length (drop_seqs seqs s) \<le> length s" for seqs s
    by (metis drop_seqs_suffix le_add2 length_append)
  then show ?thesis
    unfolding TrimSpace_def TrimLeftSpace_def TrimRightSpace_def
    by (metis length_rev order_trans)
qed

section \<open>RFC 3339 instants\<close>

text \<open>\<open>time.Parse(time.RFC3339, v)\<close>, as an instant in nanoseconds. The hour may be one digit, a
  fraction after the seconds is allowed though the layout has none (its digits past the ninth are
  dropped), a date must exist in the calendar and nothing may follow the zone; those are the
  parser's rules.\<close>

definition digit_value :: "char \<Rightarrow> int option" where
  "digit_value c =
     (let n = of_char c :: int in if 48 \<le> n \<and> n \<le> 57 then Some (n - 48) else None)"

fun digits_value :: "int \<Rightarrow> string \<Rightarrow> int option" where
  "digits_value acc [] = Some acc"
| "digits_value acc (c # cs) =
     (case digit_value c of None \<Rightarrow> None | Some d \<Rightarrow> digits_value (10 * acc + d) cs)"

definition take_digits :: "nat \<Rightarrow> string \<Rightarrow> (int \<times> string) option" where
  "take_digits n s =
     (if length s < n then None
      else map_option (\<lambda>v. (v, drop n s)) (digits_value 0 (take n s)))"

text \<open>\<open>getnum\<close> without the fixed width: two digits when the second byte is one, else one.\<close>

definition take_hour :: "string \<Rightarrow> (int \<times> string) option" where
  "take_hour s =
     (case s of
        a # b # rest \<Rightarrow> if digit_value b \<noteq> None then take_digits 2 s else take_digits 1 s
      | _ \<Rightarrow> take_digits 1 s)"

definition take_byte :: "char \<Rightarrow> string \<Rightarrow> string option" where
  "take_byte c s = (case s of [] \<Rightarrow> None | x # xs \<Rightarrow> if x = c then Some xs else None)"

definition take_fraction :: "string \<Rightarrow> int \<times> string" where
  "take_fraction s =
     (case s of
        x # xs \<Rightarrow>
          if x \<in> {CHR ''.'', CHR '',''} \<and> xs \<noteq> [] \<and> digit_value (hd xs) \<noteq> None then
            let ds = takeWhile (\<lambda>c. digit_value c \<noteq> None) xs;
                nine = take 9 (ds @ replicate 9 (CHR ''0''))
            in (case digits_value 0 nine of None \<Rightarrow> 0 | Some v \<Rightarrow> v,
                dropWhile (\<lambda>c. digit_value c \<noteq> None) xs)
          else (0, s)
      | [] \<Rightarrow> (0, s))"

text \<open>The zone as seconds east of UTC: \<open>Z\<close>, or a sign, an hour up to 24 and a minute up to 60.\<close>

definition take_zone :: "string \<Rightarrow> (int \<times> string) option" where
  "take_zone s =
     (case s of
        [] \<Rightarrow> None
      | x # xs \<Rightarrow>
          if x = CHR ''Z'' then Some (0, xs)
          else if x \<in> {CHR ''+'', CHR ''-''} then
            Option.bind (take_digits 2 xs) (\<lambda>(h, r1).
            Option.bind (take_byte (CHR '':'') r1) (\<lambda>r2.
            Option.bind (take_digits 2 r2) (\<lambda>(m, r3).
              if h > 24 \<or> m > 60 then None
              else Some ((if x = CHR ''-'' then - 1 else 1) * (h * 3600 + m * 60), r3))))
          else None)"

definition is_leap :: "int \<Rightarrow> bool" where
  "is_leap y \<longleftrightarrow> y mod 4 = 0 \<and> (y mod 100 \<noteq> 0 \<or> y mod 400 = 0)"

definition days_in :: "int \<Rightarrow> int \<Rightarrow> int" where
  "days_in m y =
     (if m = 2 then (if is_leap y then 29 else 28)
      else if m \<in> {4, 6, 9, 11} then 30 else 31)"

text \<open>Days from 1970-01-01 in the proleptic Gregorian calendar.\<close>

definition days_before_year :: "int \<Rightarrow> int" where
  "days_before_year y =
     365 * y + (y + 3) div 4 - (y + 99) div 100 + (y + 399) div 400 - 719528"

definition days_before_month :: "int \<Rightarrow> int \<Rightarrow> int" where
  "days_before_month m y = sum_list (map (\<lambda>k. days_in k y) [1..m - 1])"

definition ParseRFC3339 :: "string \<Rightarrow> instant option" where
  "ParseRFC3339 s =
     Option.bind (take_digits 4 s) (\<lambda>(y, s1).
     Option.bind (take_byte (CHR ''-'') s1) (\<lambda>s2.
     Option.bind (take_digits 2 s2) (\<lambda>(mo, s3).
     Option.bind (take_byte (CHR ''-'') s3) (\<lambda>s4.
     Option.bind (take_digits 2 s4) (\<lambda>(d, s5).
     Option.bind (take_byte (CHR ''T'') s5) (\<lambda>s6.
     Option.bind (take_hour s6) (\<lambda>(h, s7).
     Option.bind (take_byte (CHR '':'') s7) (\<lambda>s8.
     Option.bind (take_digits 2 s8) (\<lambda>(mi, s9).
     Option.bind (take_byte (CHR '':'') s9) (\<lambda>s10.
     Option.bind (take_digits 2 s10) (\<lambda>(se, s11).
       let (frac, s12) = take_fraction s11 in
       Option.bind (take_zone s12) (\<lambda>(off, s13).
         if s13 \<noteq> [] \<or> mo < 1 \<or> 12 < mo \<or> d < 1 \<or> days_in mo y < d \<or> 24 \<le> h \<or> 60 \<le> mi \<or> 60 \<le> se
         then None
         else Some (((days_before_year y + days_before_month mo y + d - 1) * 86400 +
                (h * 3600 + mi * 60 + se) - off) * 1000000000 + frac)))))))))))))"

end
