(* ===== verification/Tags.thy ===== *)
theory Tags
  imports GoStrings
begin

text \<open>
  Tag identity: \<^verbatim>\<open>internal/core/itemtypes/itemtypes.go\<close> (\<open>Slugify\<close>) and the pure half of
  \<^verbatim>\<open>internal/core/tags/tags.go\<close> (normalising labels, deduplicating by slug, the lenient list the
  workflow post-functions use).

  \<open>Slugify\<close> lower-cases first. Of all code points exactly two outside ASCII lower-case into ASCII:
  U+0130 to \<open>i\<close> and U+212A (the Kelvin sign) to \<open>k\<close>; every other byte outside \<open>[A-Za-z0-9]\<close>
  belongs to a rune that becomes an underscore, and runs of those collapse.
\<close>

section \<open>Slugs\<close>

definition ascii_lower :: "char \<Rightarrow> char" where
  "ascii_lower c = (let n = of_char c :: nat in if 65 \<le> n \<and> n \<le> 90 then char_of (n + 32) else c)"

definition slug_char :: "char \<Rightarrow> bool" where
  "slug_char c = (let n = of_char c :: nat in (97 \<le> n \<and> n \<le> 122) \<or> (48 \<le> n \<and> n \<le> 57))"

text \<open>The lower-cased runes, those that are neither letter nor digit marked \<open>None\<close>.\<close>

function slug_runes :: "string \<Rightarrow> char option list" where
  "slug_runes [] = []"
| "slug_runes (c # cs) =
     (if c = CHR 0xC4 \<and> take 1 cs = [CHR 0xB0] then Some (CHR ''i'') # slug_runes (drop 1 cs)
      else if c = CHR 0xE2 \<and> take 2 cs = [CHR 0x84, CHR 0xAA]
        then Some (CHR ''k'') # slug_runes (drop 2 cs)
      else (if slug_char (ascii_lower c) then Some (ascii_lower c) else None) # slug_runes cs)"
  by pat_completeness auto
termination
  by (relation "measure length") auto

text \<open>The loop over the runes: the bytes written so far and \<open>prevUnderscore\<close>.\<close>

fun slug_loop :: "char option list \<Rightarrow> string \<Rightarrow> bool \<Rightarrow> string" where
  "slug_loop [] b prevUnderscore = b"
| "slug_loop (Some r # rs) b prevUnderscore = slug_loop rs (b @ [r]) False"
| "slug_loop (None # rs) b prevUnderscore =
     (if b \<noteq> [] \<and> \<not> prevUnderscore then slug_loop rs (b @ [CHR ''_'']) True
      else slug_loop rs b prevUnderscore)"

definition Slugify :: "string \<Rightarrow> string" where
  "Slugify name = TrimByte (CHR ''_'') (slug_loop (slug_runes name) [] False)"

section \<open>Labels\<close>

definition MaxTagsPerEntity :: nat where "MaxTagsPerEntity = 50"
definition maxLabelLength :: nat where "maxLabelLength = 64"

definition continuation_byte :: "char \<Rightarrow> bool" where
  "continuation_byte c = (let n = of_char c :: nat in 128 \<le> n \<and> n < 192)"

fun rune_cut :: "string \<Rightarrow> nat \<Rightarrow> nat" where
  "rune_cut s 0 = 0"
| "rune_cut s (Suc n) = (if continuation_byte (s ! Suc n) then rune_cut s n else Suc n)"

definition truncateRunes :: "string \<Rightarrow> nat \<Rightarrow> string" where
  "truncateRunes s limit = (if length s \<le> limit then s else take (rune_cut s limit) s)"

definition normaliseLabel :: "string \<Rightarrow> string" where
  "normaliseLabel label =
     (let label = TrimSpace (TrimPrefix (TrimSpace label) ''#'')
      in if maxLabelLength < length label then TrimSpace (truncateRunes label maxLabelLength) else label)"

record SlugLabel =
  sl_Slug :: string
  sl_Label :: string

text \<open>\<open>Inl\<close> is the first label that cannot become a tag.\<close>

fun distinct_tags_from :: "string list \<Rightarrow> string list \<Rightarrow> SlugLabel list \<Rightarrow> string + SlugLabel list" where
  "distinct_tags_from [] seen out = Inr out"
| "distinct_tags_from (raw # labels) seen out =
     (let label = normaliseLabel raw; slug = Slugify label
      in if slug = '''' then Inl label
         else if List.member seen slug then distinct_tags_from labels seen out
         else distinct_tags_from labels (slug # seen) (out @ [\<lparr>sl_Slug = slug, sl_Label = label\<rparr>]))"

definition distinctTags :: "string list \<Rightarrow> string + SlugLabel list" where
  "distinctTags labels = distinct_tags_from labels [] []"

definition LenientLabelSlugs :: "string list \<Rightarrow> SlugLabel list" where
  "LenientLabelSlugs labels =
     (let usable = filter (\<lambda>label. Slugify (normaliseLabel label) \<noteq> '''') labels
      in case distinctTags usable of
           Inl _ \<Rightarrow> []
         | Inr wanted \<Rightarrow> if MaxTagsPerEntity < length wanted then take MaxTagsPerEntity wanted else wanted)"

section \<open>A slug is what the table accepts\<close>

text \<open>The CHECK of migration 040: \<open>^[a-z0-9][a-z0-9_]*$\<close>.\<close>

definition slug_shape :: "string \<Rightarrow> bool" where
  "slug_shape s \<longleftrightarrow>
     (case s of [] \<Rightarrow> False | c # cs \<Rightarrow> slug_char c \<and> list_all (\<lambda>x. slug_char x \<or> x = CHR ''_'') cs)"

lemma slug_runes_chars: "Some c \<in> set (slug_runes s) \<Longrightarrow> slug_char c"
proof (induction s rule: slug_runes.induct)
  case 1
  then show ?case by simp
next
  case (2 c' cs)
  then show ?case
    by (auto simp: slug_char_def split: if_splits)
qed

lemma slug_loop_chars:
  assumes "\<forall>r \<in> set rs. case r of None \<Rightarrow> True | Some c \<Rightarrow> slug_char c"
    and "\<forall>x \<in> set b. slug_char x \<or> x = CHR ''_''"
  shows "\<forall>x \<in> set (slug_loop rs b u). slug_char x \<or> x = CHR ''_''"
  using assms by (induction rs b u rule: slug_loop.induct) auto

lemma set_dropWhile_subset: "x \<in> set (dropWhile P xs) \<Longrightarrow> x \<in> set xs"
  by (meson set_dropWhileD)

lemma Slugify_chars: "x \<in> set (Slugify s) \<Longrightarrow> slug_char x \<or> x = CHR ''_''"
proof -
  assume "x \<in> set (Slugify s)"
  then have "x \<in> set (slug_loop (slug_runes s) [] False)"
    unfolding Slugify_def TrimByte_def by (auto dest!: set_dropWhile_subset)
  moreover have "\<forall>r \<in> set (slug_runes s). case r of None \<Rightarrow> True | Some c \<Rightarrow> slug_char c"
    using slug_runes_chars by (auto split: option.split)
  ultimately show ?thesis using slug_loop_chars [of "slug_runes s" "[]" False] by auto
qed

lemma hd_dropWhile_not: "dropWhile P xs \<noteq> [] \<Longrightarrow> \<not> P (hd (dropWhile P xs))"
  by (rule hd_dropWhile)

lemma hd_TrimByte: "TrimByte c s \<noteq> [] \<Longrightarrow> hd (TrimByte c s) \<noteq> c"
proof -
  assume n: "TrimByte c s \<noteq> []"
  let ?a = "dropWhile (\<lambda>x. x = c) s"
  obtain p where p: "rev ?a = p @ dropWhile (\<lambda>x. x = c) (rev ?a)"
    by (metis takeWhile_dropWhile_id)
  then have "?a = TrimByte c s @ rev p"
    unfolding TrimByte_def by (metis rev_append rev_rev_ident)
  with n have "hd ?a = hd (TrimByte c s)" "?a \<noteq> []" by auto
  with hd_dropWhile_not [of "\<lambda>x. x = c" s] show ?thesis by simp
qed

lemma Slugify_shape: "Slugify s \<noteq> '''' \<Longrightarrow> slug_shape (Slugify s)"
proof -
  assume n: "Slugify s \<noteq> ''''"
  then obtain c cs where c: "Slugify s = c # cs" by (cases "Slugify s") auto
  have "c \<noteq> CHR ''_''"
    using hd_TrimByte [of "CHR ''_''" "slug_loop (slug_runes s) [] False"] c n
    by (simp add: Slugify_def)
  with c Slugify_chars [of _ s] show ?thesis
    by (auto simp: slug_shape_def list_all_iff)
qed

lemma distinct_tags_from_Inr:
  assumes "distinct_tags_from labels seen out = Inr ws"
    and "distinct (map sl_Slug out)" and "set seen = set (map sl_Slug out)"
    and "\<forall>w \<in> set out. slug_shape (sl_Slug w)"
  shows "distinct (map sl_Slug ws) \<and> (\<forall>w \<in> set ws. slug_shape (sl_Slug w)) \<and>
    set (map sl_Slug ws) = set seen \<union> (\<lambda>l. Slugify (normaliseLabel l)) ` set labels"
  using assms
proof (induction labels arbitrary: seen out)
  case Nil
  then show ?case by auto
next
  case (Cons raw labels)
  let ?s = "Slugify (normaliseLabel raw)"
  have ne: "?s \<noteq> ''''" using Cons.prems(1) by (auto simp: Let_def split: if_splits)
  show ?case
  proof (cases "?s \<in> set seen")
    case True
    with Cons.prems ne have "distinct_tags_from labels seen out = Inr ws" by (simp add: Let_def)
    from Cons.IH [OF this Cons.prems(2-4)] True show ?thesis by auto
  next
    case False
    let ?out = "out @ [\<lparr>sl_Slug = ?s, sl_Label = normaliseLabel raw\<rparr>]"
    have e: "distinct_tags_from labels (?s # seen) ?out = Inr ws"
      using Cons.prems(1) ne False by (simp add: Let_def)
    have "distinct (map sl_Slug ?out)" "set (?s # seen) = set (map sl_Slug ?out)"
      "\<forall>w \<in> set ?out. slug_shape (sl_Slug w)"
      using Cons.prems(2-4) False Slugify_shape [OF ne] by auto
    from Cons.IH [OF e this] show ?thesis by auto
  qed
qed

lemma distinct_tags_from_ok:
  "\<forall>l \<in> set labels. Slugify (normaliseLabel l) \<noteq> '''' \<Longrightarrow> \<exists>ws. distinct_tags_from labels seen out = Inr ws"
  by (induction labels arbitrary: seen out) (auto simp: Let_def)

text \<open>The branch the code calls unreachable is: after the filter every label has a slug. The
  lenient list is therefore the usable labels, one per slug, capped.\<close>

lemma LenientLabelSlugs_props:
  "distinct (map sl_Slug (LenientLabelSlugs labels))"
  "length (LenientLabelSlugs labels) \<le> MaxTagsPerEntity"
  "w \<in> set (LenientLabelSlugs labels) \<Longrightarrow> slug_shape (sl_Slug w)"
  "card ((\<lambda>l. Slugify (normaliseLabel l)) ` set labels - {''''}) \<le> MaxTagsPerEntity \<Longrightarrow>
     set (map sl_Slug (LenientLabelSlugs labels)) = (\<lambda>l. Slugify (normaliseLabel l)) ` set labels - {''''}"
proof -
  let ?u = "filter (\<lambda>label. Slugify (normaliseLabel label) \<noteq> '''') labels"
  obtain ws where ws: "distinctTags ?u = Inr ws"
    using distinct_tags_from_ok [of ?u "[]" "[]"] by (auto simp: distinctTags_def)
  have p: "distinct (map sl_Slug ws)" "\<forall>w \<in> set ws. slug_shape (sl_Slug w)"
    "set (map sl_Slug ws) = (\<lambda>l. Slugify (normaliseLabel l)) ` set ?u"
    using distinct_tags_from_Inr [of ?u "[]" "[]" ws] ws by (auto simp: distinctTags_def)
  have L: "LenientLabelSlugs labels = take MaxTagsPerEntity ws"
    using ws by (simp add: LenientLabelSlugs_def)
  show "distinct (map sl_Slug (LenientLabelSlugs labels))"
    using p(1) by (simp add: L take_map [symmetric])
  show "length (LenientLabelSlugs labels) \<le> MaxTagsPerEntity" by (simp add: L)
  show "w \<in> set (LenientLabelSlugs labels) \<Longrightarrow> slug_shape (sl_Slug w)"
    using p(2) by (auto simp: L dest: in_set_takeD)
  assume c: "card ((\<lambda>l. Slugify (normaliseLabel l)) ` set labels - {''''}) \<le> MaxTagsPerEntity"
  have u: "(\<lambda>l. Slugify (normaliseLabel l)) ` set ?u = (\<lambda>l. Slugify (normaliseLabel l)) ` set labels - {''''}"
    by auto
  have "length ws = card (set (map sl_Slug ws))" using distinct_card [OF p(1)] by simp
  then have "length ws \<le> MaxTagsPerEntity" using c u p(3) by simp
  then show "set (map sl_Slug (LenientLabelSlugs labels)) = (\<lambda>l. Slugify (normaliseLabel l)) ` set labels - {''''}"
    using p(3) u by (simp add: L)
qed

end
