(* ===== verification/WorkflowGuard.thy ===== *)
theory WorkflowGuard
  imports AccessCapability GoStrings
begin

text \<open>
  \<^verbatim>\<open>internal/core/workflow/guard.go\<close>: the closed guard vocabulary of a workflow transition, its
  fail-closed evaluation and its write-side validation.

  Classes, kinds and field keys are Go string types and stay strings: a row written by a newer build
  may carry a word this one does not know, and what the evaluator does with such a word is part of
  what is verified. The sentence of a refusal is the datatype \<open>Reason\<close>, one constructor per
  sentence of the source with the values it is formatted with.
\<close>

section \<open>Vocabulary\<close>

abbreviation GuardConditionClass :: string where "GuardConditionClass \<equiv> ''condition''"
abbreviation GuardValidatorClass :: string where "GuardValidatorClass \<equiv> ''validator''"

definition allGuardClasses :: "string list" where
  "allGuardClasses = [GuardConditionClass, GuardValidatorClass]"

abbreviation GuardActorIsAssignee :: string where "GuardActorIsAssignee \<equiv> ''actor_is_assignee''"
abbreviation GuardActorInTeam :: string where "GuardActorInTeam \<equiv> ''actor_in_team''"
abbreviation GuardActorHasCapability :: string where
  "GuardActorHasCapability \<equiv> ''actor_has_capability''"
abbreviation GuardFieldRequired :: string where "GuardFieldRequired \<equiv> ''field_required''"

definition allGuardKinds :: "string list" where
  "allGuardKinds = [GuardActorIsAssignee, GuardActorInTeam, GuardActorHasCapability, GuardFieldRequired]"

abbreviation FieldAssigneeID :: string where "FieldAssigneeID \<equiv> ''assignee_id''"
abbreviation FieldDueAt :: string where "FieldDueAt \<equiv> ''due_at''"
abbreviation FieldDescription :: string where "FieldDescription \<equiv> ''description''"
abbreviation FieldTags :: string where "FieldTags \<equiv> ''tags''"

definition allFieldKeys :: "string list" where
  "allFieldKeys = [FieldAssigneeID, FieldDueAt, FieldDescription, FieldTags]"

definition guardCapabilities :: "Capability list" where
  "guardCapabilities = [CapEditAnyItem, CapTransitionAnyItem, CapManageQueue, CapManageSpace]"

record Guard =
  gd_ID :: uuid
  gd_TransitionID :: uuid
  gd_Class :: string
  gd_Kind :: string
  gd_Position :: int
  gd_Capability :: "Capability option"
  gd_TeamID :: "uuid option"
  gd_FieldKey :: "string option"

record Actor =
  ac_UserID :: uuid
  ac_TeamIDs :: "uuid list"
  ac_Capabilities :: "Capability list"

record EntitySnapshot =
  en_AssigneeID :: "uuid option"
  en_DueAt :: "instant option"
  en_Description :: string
  en_Tags :: "string list"

datatype Reason =
    ReasonUnknownGuard
  | ReasonOnlyAssignee
  | ReasonTeamGone
  | ReasonTeamMembersOnly
  | ReasonCapabilityMissing
  | ReasonRequiresCapability Capability
  | ReasonFieldMissing
  | ReasonFieldMustBeSet string
  | ReasonNoStartingState
  | ReasonNotAStatus string
  | ReasonNoMove string string

abbreviation CheckGuard :: string where "CheckGuard \<equiv> ''guard''"

record Refusal =
  rf_Check :: string
  rf_GuardID :: uuid
  rf_Class :: string
  rf_Kind :: string
  rf_Reason :: Reason

section \<open>Evaluation\<close>

definition guard_refuse :: "Guard \<Rightarrow> Reason \<Rightarrow> Refusal option" where
  "guard_refuse g reason =
     Some \<lparr>rf_Check = CheckGuard, rf_GuardID = gd_ID g, rf_Class = gd_Class g, rf_Kind = gd_Kind g,
           rf_Reason = reason\<rparr>"

definition fieldPresent :: "string \<Rightarrow> EntitySnapshot \<Rightarrow> bool" where
  "fieldPresent f e =
     (if f = FieldAssigneeID then en_AssigneeID e \<noteq> None
      else if f = FieldDueAt then en_DueAt e \<noteq> None
      else if f = FieldDescription then TrimSpace (en_Description e) \<noteq> ''''
      else if f = FieldTags then 0 < length (en_Tags e)
      else False)"

definition fieldLabel :: "string \<Rightarrow> string" where
  "fieldLabel f =
     (if f = FieldAssigneeID then ''An assignee''
      else if f = FieldDueAt then ''A due date''
      else if f = FieldDescription then ''A description''
      else if f = FieldTags then ''At least one tag''
      else ''A required field'')"

definition evalActorIsAssignee :: "Guard \<Rightarrow> Actor \<Rightarrow> EntitySnapshot \<Rightarrow> Refusal option" where
  "evalActorIsAssignee g actor entity =
     (if en_AssigneeID entity = Some (ac_UserID actor) then None else guard_refuse g ReasonOnlyAssignee)"

definition evalActorInTeam :: "Guard \<Rightarrow> Actor \<Rightarrow> Refusal option" where
  "evalActorInTeam g actor =
     (case gd_TeamID g of
        None \<Rightarrow> guard_refuse g ReasonTeamGone
      | Some t \<Rightarrow> if List.member (ac_TeamIDs actor) t then None else guard_refuse g ReasonTeamMembersOnly)"

definition evalActorHasCapability :: "Guard \<Rightarrow> Actor \<Rightarrow> Refusal option" where
  "evalActorHasCapability g actor =
     (case gd_Capability g of
        None \<Rightarrow> guard_refuse g ReasonCapabilityMissing
      | Some c \<Rightarrow>
          if List.member (ac_Capabilities actor) c then None
          else guard_refuse g (ReasonRequiresCapability c))"

definition evalFieldRequired :: "Guard \<Rightarrow> EntitySnapshot \<Rightarrow> Refusal option" where
  "evalFieldRequired g entity =
     (case gd_FieldKey g of
        None \<Rightarrow> guard_refuse g ReasonFieldMissing
      | Some f \<Rightarrow>
          if fieldPresent f entity then None else guard_refuse g (ReasonFieldMustBeSet (fieldLabel f)))"

definition evaluateOne :: "Guard \<Rightarrow> Actor \<Rightarrow> EntitySnapshot \<Rightarrow> Refusal option" where
  "evaluateOne g actor entity =
     (if gd_Kind g = GuardActorIsAssignee then evalActorIsAssignee g actor entity
      else if gd_Kind g = GuardActorInTeam then evalActorInTeam g actor
      else if gd_Kind g = GuardActorHasCapability then evalActorHasCapability g actor
      else if gd_Kind g = GuardFieldRequired then evalFieldRequired g entity
      else guard_refuse g ReasonUnknownGuard)"

fun Evaluate :: "Guard list \<Rightarrow> string \<Rightarrow> Actor \<Rightarrow> EntitySnapshot \<Rightarrow> Refusal option" where
  "Evaluate [] cls actor entity = None"
| "Evaluate (g # gs) cls actor entity =
     (if gd_Class g \<noteq> cls then Evaluate gs cls actor entity
      else case evaluateOne g actor entity of
        Some r \<Rightarrow> Some r
      | None \<Rightarrow> Evaluate gs cls actor entity)"

section \<open>Write-side validation\<close>

datatype guard_error =
    UnknownGuardClass string
  | UnknownGuardKind string
  | GuardTakesNoParameters string
  | GuardRequiresTeam string
  | GuardTakesOnlyTeam string
  | GuardRequiresCapability string
  | CapabilityCannotGuard Capability
  | GuardTakesOnlyCapability string
  | GuardRequiresField string
  | UnknownGuardField string
  | GuardTakesOnlyField string
  | GuardNoShapeRule string

definition knownClass :: "string \<Rightarrow> bool" where "knownClass c = List.member allGuardClasses c"
definition knownKind :: "string \<Rightarrow> bool" where "knownKind k = List.member allGuardKinds k"
definition knownFieldKey :: "string \<Rightarrow> bool" where "knownFieldKey f = List.member allFieldKeys f"
definition knownGuardCapability :: "Capability \<Rightarrow> bool" where
  "knownGuardCapability c = List.member guardCapabilities c"

definition requireNoParams :: "Guard \<Rightarrow> guard_error + unit" where
  "requireNoParams g =
     (if gd_Capability g \<noteq> None \<or> gd_TeamID g \<noteq> None \<or> gd_FieldKey g \<noteq> None
      then Inl (GuardTakesNoParameters (gd_Kind g)) else Inr ())"

definition validateTeamGuard :: "Guard \<Rightarrow> guard_error + unit" where
  "validateTeamGuard g =
     (if gd_TeamID g = None then Inl (GuardRequiresTeam (gd_Kind g))
      else if gd_Capability g \<noteq> None \<or> gd_FieldKey g \<noteq> None then Inl (GuardTakesOnlyTeam (gd_Kind g))
      else Inr ())"

definition validateCapabilityGuard :: "Guard \<Rightarrow> guard_error + unit" where
  "validateCapabilityGuard g =
     (case gd_Capability g of
        None \<Rightarrow> Inl (GuardRequiresCapability (gd_Kind g))
      | Some c \<Rightarrow>
          if \<not> knownGuardCapability c then Inl (CapabilityCannotGuard c)
          else if gd_TeamID g \<noteq> None \<or> gd_FieldKey g \<noteq> None
            then Inl (GuardTakesOnlyCapability (gd_Kind g))
          else Inr ())"

definition validateFieldGuard :: "Guard \<Rightarrow> guard_error + unit" where
  "validateFieldGuard g =
     (case gd_FieldKey g of
        None \<Rightarrow> Inl (GuardRequiresField (gd_Kind g))
      | Some f \<Rightarrow>
          if \<not> knownFieldKey f then Inl (UnknownGuardField f)
          else if gd_TeamID g \<noteq> None \<or> gd_Capability g \<noteq> None then Inl (GuardTakesOnlyField (gd_Kind g))
          else Inr ())"

definition ValidateGuard :: "Guard \<Rightarrow> guard_error + unit" where
  "ValidateGuard g =
     (if \<not> knownClass (gd_Class g) then Inl (UnknownGuardClass (gd_Class g))
      else if \<not> knownKind (gd_Kind g) then Inl (UnknownGuardKind (gd_Kind g))
      else if gd_Kind g = GuardActorIsAssignee then requireNoParams g
      else if gd_Kind g = GuardActorInTeam then validateTeamGuard g
      else if gd_Kind g = GuardActorHasCapability then validateCapabilityGuard g
      else if gd_Kind g = GuardFieldRequired then validateFieldGuard g
      else Inl (GuardNoShapeRule (gd_Kind g)))"

definition GuardCapabilities :: "Capability list" where
  "GuardCapabilities = guardCapabilities"

section \<open>What a guard asks\<close>

text \<open>The specification: when a configured guard holds for an actor and an entity. A kind that is
  not one of the four never holds, nor does one whose parameter is missing.\<close>

definition guard_holds :: "Guard \<Rightarrow> Actor \<Rightarrow> EntitySnapshot \<Rightarrow> bool" where
  "guard_holds g actor entity \<longleftrightarrow>
     (gd_Kind g = GuardActorIsAssignee \<and> en_AssigneeID entity = Some (ac_UserID actor)) \<or>
     (gd_Kind g = GuardActorInTeam \<and> (\<exists>t \<in> set (ac_TeamIDs actor). gd_TeamID g = Some t)) \<or>
     (gd_Kind g = GuardActorHasCapability \<and> (\<exists>c \<in> set (ac_Capabilities actor). gd_Capability g = Some c)) \<or>
     (gd_Kind g = GuardFieldRequired \<and> (\<exists>f \<in> set allFieldKeys. gd_FieldKey g = Some f \<and> fieldPresent f entity))"

lemma fieldPresent_known: "fieldPresent f e \<Longrightarrow> f \<in> set allFieldKeys"
  by (simp add: fieldPresent_def allFieldKeys_def split: if_splits)

lemma evaluateOne_None_iff: "evaluateOne g a e = None \<longleftrightarrow> guard_holds g a e"
  using fieldPresent_known
  by (auto simp: evaluateOne_def guard_holds_def evalActorIsAssignee_def evalActorInTeam_def
      evalActorHasCapability_def evalFieldRequired_def guard_refuse_def split: option.splits)

lemma evaluateOne_Some:
  "evaluateOne g a e = Some r \<Longrightarrow>
     rf_Check r = CheckGuard \<and> rf_GuardID r = gd_ID g \<and> rf_Class r = gd_Class g \<and> rf_Kind r = gd_Kind g"
  by (auto simp: evaluateOne_def evalActorIsAssignee_def evalActorInTeam_def
      evalActorHasCapability_def evalFieldRequired_def guard_refuse_def split: option.splits if_splits)

lemma Evaluate_None_iff:
  "Evaluate gs cls a e = None \<longleftrightarrow> (\<forall>g \<in> set gs. gd_Class g = cls \<longrightarrow> guard_holds g a e)"
  by (induction gs) (auto simp: evaluateOne_None_iff [symmetric] split: option.splits)

lemma unknown_kind_denied: "gd_Kind g \<notin> set allGuardKinds \<Longrightarrow> \<not> guard_holds g a e"
  by (auto simp: guard_holds_def allGuardKinds_def)

text \<open>A refusal names the first guard of the class, in order, that does not hold.\<close>

lemma Evaluate_Some_iff:
  "Evaluate gs cls a e = Some r \<longleftrightarrow>
     (\<exists>before g after. gs = before @ g # after \<and> gd_Class g = cls \<and> evaluateOne g a e = Some r \<and>
        (\<forall>x \<in> set before. gd_Class x = cls \<longrightarrow> guard_holds x a e))"
proof (induction gs)
  case Nil
  show ?case by simp
next
  case (Cons x gs)
  show ?case
  proof (cases "gd_Class x = cls \<and> \<not> guard_holds x a e")
    case True
    then have n: "evaluateOne x a e \<noteq> None" by (simp add: evaluateOne_None_iff)
    then have "Evaluate (x # gs) cls a e = evaluateOne x a e" using True by auto
    moreover have "x # gs = before @ g # after \<and> (\<forall>y \<in> set before. gd_Class y = cls \<longrightarrow> guard_holds y a e) \<Longrightarrow>
        before = []" for before g after
      using True by (cases before) auto
    ultimately show ?thesis using True by (metis append_Nil list.inject empty_iff empty_set)
  next
    case False
    then have "Evaluate (x # gs) cls a e = Evaluate gs cls a e"
      by (auto simp: evaluateOne_None_iff [symmetric])
    moreover have "(\<exists>before g after. x # gs = before @ g # after \<and> gd_Class g = cls \<and> evaluateOne g a e = Some r \<and>
          (\<forall>y \<in> set before. gd_Class y = cls \<longrightarrow> guard_holds y a e)) \<longleftrightarrow>
        (\<exists>before g after. gs = before @ g # after \<and> gd_Class g = cls \<and> evaluateOne g a e = Some r \<and>
          (\<forall>y \<in> set before. gd_Class y = cls \<longrightarrow> guard_holds y a e))" (is "?L \<longleftrightarrow> ?R")
    proof
      assume ?L
      then obtain before g after where b: "x # gs = before @ g # after" "gd_Class g = cls"
        "evaluateOne g a e = Some r" "\<forall>y \<in> set before. gd_Class y = cls \<longrightarrow> guard_holds y a e" by blast
      moreover have "before \<noteq> []" using b(1-3) False evaluateOne_None_iff [of g a e] by auto
      ultimately show ?R by (cases before) auto
    next
      assume ?R
      then obtain before g after where "gs = before @ g # after" "gd_Class g = cls"
        "evaluateOne g a e = Some r" "\<forall>y \<in> set before. gd_Class y = cls \<longrightarrow> guard_holds y a e" by blast
      with False show ?L by (intro exI [of _ "x # before"]) auto
    qed
    ultimately show ?thesis using Cons.IH by simp
  qed
qed

section \<open>Validation and the table agree\<close>

text \<open>The CHECK constraints of migration 046, with the field vocabulary migration 055 left.\<close>

definition guard_row_check :: "Guard \<Rightarrow> bool" where
  "guard_row_check g \<longleftrightarrow>
     gd_Class g \<in> {''condition'', ''validator''} \<and>
     gd_Kind g \<in> {''actor_is_assignee'', ''actor_in_team'', ''actor_has_capability'', ''field_required''} \<and>
     (case gd_FieldKey g of None \<Rightarrow> True | Some f \<Rightarrow> f \<in> {''assignee_id'', ''due_at'', ''description'', ''tags''}) \<and>
     ((gd_Kind g = ''actor_is_assignee'' \<and> gd_Capability g = None \<and> gd_TeamID g = None \<and> gd_FieldKey g = None) \<or>
      (gd_Kind g = ''actor_in_team'' \<and> gd_Capability g = None \<and> gd_FieldKey g = None) \<or>
      (gd_Kind g = ''actor_has_capability'' \<and> gd_Capability g \<noteq> None \<and> gd_TeamID g = None \<and> gd_FieldKey g = None) \<or>
      (gd_Kind g = ''field_required'' \<and> gd_FieldKey g \<noteq> None \<and> gd_Capability g = None \<and> gd_TeamID g = None))"

lemma ValidateGuard_iff:
  "ValidateGuard g = Inr () \<longleftrightarrow>
     guard_row_check g \<and> (gd_Kind g = GuardActorInTeam \<longrightarrow> gd_TeamID g \<noteq> None) \<and>
     (case gd_Capability g of None \<Rightarrow> True | Some c \<Rightarrow> c \<in> set guardCapabilities)"
proof (cases "gd_Kind g \<in> set allGuardKinds")
  case True
  then show ?thesis
    unfolding allGuardKinds_def
    by (elim set_ConsD [elim_format] disjE)
      (auto simp: ValidateGuard_def guard_row_check_def knownClass_def knownKind_def knownFieldKey_def
        allGuardClasses_def allGuardKinds_def allFieldKeys_def knownGuardCapability_def requireNoParams_def
        validateTeamGuard_def validateCapabilityGuard_def validateFieldGuard_def split: option.splits)
next
  case False
  then show ?thesis
    by (auto simp: ValidateGuard_def guard_row_check_def knownKind_def allGuardKinds_def)
qed

end
