(* ===== verification/WorkflowPostFunction.thy ===== *)
theory WorkflowPostFunction
  imports Tags WorkflowGuard
begin

text \<open>
  \<^verbatim>\<open>internal/core/workflow/postfunction.go\<close>: planning the fixed actions a transition performs,
  and validating them when they are configured; with \<open>foldEffects\<close> and \<open>describeEffects\<close> of
  \<^verbatim>\<open>internal/db/adapters/workflow_transition_tx.go\<close>, which collapse a plan into one write per
  field.

  Go's \<open>Effect\<close> is a struct of which exactly one pointer is set; it is the datatype with one
  constructor per pointer. An inner \<open>None\<close> is the inner nil pointer: unassign, clear the date.
\<close>

section \<open>Vocabulary\<close>

abbreviation PostAssignTo :: string where "PostAssignTo \<equiv> ''assign_to''"
abbreviation PostSetField :: string where "PostSetField \<equiv> ''set_field''"

definition allPostFunctionKinds :: "string list" where
  "allPostFunctionKinds = [PostAssignTo, PostSetField]"

abbreviation PostFieldDueAt :: string where "PostFieldDueAt \<equiv> ''due_at''"
abbreviation PostFieldTags :: string where "PostFieldTags \<equiv> ''tags''"

definition allPostFieldKeys :: "string list" where
  "allPostFieldKeys = [PostFieldDueAt, PostFieldTags]"

record PostFunction =
  pf_ID :: uuid
  pf_TransitionID :: uuid
  pf_Kind :: string
  pf_Position :: int
  pf_AssigneeUserID :: "uuid option"
  pf_FieldKey :: "string option"
  pf_FieldValue :: "string option"

datatype Effect =
    SetAssignee "uuid option"
  | SetDueAt "instant option"
  | SetTags "string list"

datatype post_error =
    ErrPostFunctionUnknown
  | ErrPostFunctionMalformed
  | UnknownPostFunctionKind string
  | PostTakesOnlyAssignee
  | PostTakesOnlyField
  | PostRequiresField
  | PostFieldNotSettable string
  | PostNoShapeRule string

section \<open>Planning\<close>

definition parseTags :: "string option \<Rightarrow> string list" where
  "parseTags raw =
     (case raw of
        None \<Rightarrow> []
      | Some s \<Rightarrow> filter (\<lambda>v. v \<noteq> '''') (map TrimSpace (Split1 (CHR '','') s)))"

definition planSetField :: "string \<Rightarrow> string option \<Rightarrow> post_error + Effect" where
  "planSetField key raw =
     (if key = PostFieldDueAt then
        (case raw of
           None \<Rightarrow> Inr (SetDueAt None)
         | Some v \<Rightarrow>
             if TrimSpace v = '''' then Inr (SetDueAt None)
             else case ParseRFC3339 (TrimSpace v) of
                    None \<Rightarrow> Inl ErrPostFunctionMalformed
                  | Some t \<Rightarrow> Inr (SetDueAt (Some t)))
      else if key = PostFieldTags then Inr (SetTags (parseTags raw))
      else Inl ErrPostFunctionUnknown)"

definition planOne :: "PostFunction \<Rightarrow> post_error + Effect" where
  "planOne p =
     (if pf_Kind p = PostAssignTo then Inr (SetAssignee (pf_AssigneeUserID p))
      else if pf_Kind p = PostSetField then
        (case pf_FieldKey p of
           None \<Rightarrow> Inl ErrPostFunctionMalformed
         | Some key \<Rightarrow> planSetField key (pf_FieldValue p))
      else Inl ErrPostFunctionUnknown)"

fun PlanPostFunctions :: "PostFunction list \<Rightarrow> post_error + Effect list" where
  "PlanPostFunctions [] = Inr []"
| "PlanPostFunctions (p # ps) =
     rbind (planOne p) (\<lambda>e. rbind (PlanPostFunctions ps) (\<lambda>es. Inr (e # es)))"

section \<open>Write-side validation\<close>

definition knownPostFunctionKind :: "string \<Rightarrow> bool" where
  "knownPostFunctionKind k = List.member allPostFunctionKinds k"

definition knownPostFieldKey :: "string \<Rightarrow> bool" where
  "knownPostFieldKey f = List.member allPostFieldKeys f"

definition validateSetField :: "PostFunction \<Rightarrow> post_error + unit" where
  "validateSetField p =
     (if pf_AssigneeUserID p \<noteq> None then Inl PostTakesOnlyField
      else case pf_FieldKey p of
        None \<Rightarrow> Inl PostRequiresField
      | Some key \<Rightarrow>
          if \<not> knownPostFieldKey key then Inl (PostFieldNotSettable key)
          else rbind (planSetField key (pf_FieldValue p)) (\<lambda>_.
            if key = PostFieldTags \<and> list_ex (\<lambda>label. Slugify label = '''') (parseTags (pf_FieldValue p))
            then Inl ErrPostFunctionMalformed else Inr ()))"

definition ValidatePostFunction :: "PostFunction \<Rightarrow> post_error + unit" where
  "ValidatePostFunction p =
     (if \<not> knownPostFunctionKind (pf_Kind p) then Inl (UnknownPostFunctionKind (pf_Kind p))
      else if pf_Kind p = PostAssignTo then
        if pf_FieldKey p \<noteq> None \<or> pf_FieldValue p \<noteq> None then Inl PostTakesOnlyAssignee else Inr ()
      else if pf_Kind p = PostSetField then validateSetField p
      else Inl (PostNoShapeRule (pf_Kind p)))"

section \<open>Collapsing a plan into one write per field\<close>

record effectFold =
  fo_setAssignee :: bool
  fo_assignee :: "uuid option"
  fo_setDueAt :: bool
  fo_dueAt :: "instant option"
  fo_setTags :: bool
  fo_tags :: "string list"

definition no_effects :: effectFold where
  "no_effects =
     \<lparr>fo_setAssignee = False, fo_assignee = None, fo_setDueAt = False, fo_dueAt = None,
      fo_setTags = False, fo_tags = []\<rparr>"

fun fold_effect :: "Effect \<Rightarrow> effectFold \<Rightarrow> effectFold" where
  "fold_effect (SetAssignee a) f = f\<lparr>fo_setAssignee := True, fo_assignee := a\<rparr>"
| "fold_effect (SetDueAt d) f = f\<lparr>fo_setDueAt := True, fo_dueAt := d\<rparr>"
| "fold_effect (SetTags ts) f = f\<lparr>fo_setTags := True, fo_tags := ts\<rparr>"

definition foldEffects :: "Effect list \<Rightarrow> effectFold" where
  "foldEffects effects = fold fold_effect effects no_effects"

fun effect_name :: "Effect \<Rightarrow> string" where
  "effect_name (SetAssignee a) = ''assign_to''"
| "effect_name (SetDueAt d) = ''set_field:due_at''"
| "effect_name (SetTags ts) = ''set_field:tags''"

definition describeEffects :: "Effect list \<Rightarrow> string" where
  "describeEffects effects = JoinWith '','' (map effect_name effects)"

section \<open>Plans are all or nothing\<close>

lemma PlanPostFunctions_Inr:
  "PlanPostFunctions ps = Inr es \<longleftrightarrow> map planOne ps = map Inr es"
proof (induction ps arbitrary: es)
  case Nil
  show ?case by auto
next
  case (Cons p ps)
  show ?case by (cases es) (auto simp: rbind_eq_Inr Cons.IH)
qed

lemma PlanPostFunctions_unknown:
  assumes "p \<in> set ps" and "pf_Kind p \<notin> set allPostFunctionKinds"
  shows "\<exists>e. PlanPostFunctions ps = Inl e"
proof (cases "PlanPostFunctions ps")
  case (Inr es)
  then have "planOne p \<in> Inr ` set es"
    using assms(1) by (metis PlanPostFunctions_Inr image_eqI image_set)
  then show ?thesis using assms(2) by (auto simp: planOne_def allPostFunctionKinds_def)
qed simp

text \<open>What validation accepts can be planned: a configured post-function never aborts the
  transitions through its edge.\<close>

lemma ValidatePostFunction_plans: "ValidatePostFunction p = Inr () \<Longrightarrow> \<exists>e. planOne p = Inr e"
  by (auto simp: ValidatePostFunction_def validateSetField_def planOne_def rbind_eq_Inr
      split: if_splits option.splits)

lemma parseTags_nonblank: "t \<in> set (parseTags raw) \<Longrightarrow> t \<noteq> '''' \<and> (\<exists>p. t = TrimSpace p \<and> CHR '','' \<notin> set p)"
  by (auto simp: parseTags_def dest: Split1_parts split: option.splits)

text \<open>Last write wins: the assignee written is the last assignment in the plan, and a field no
  effect names is not written at all.\<close>

definition assignments :: "Effect list \<Rightarrow> uuid option list" where
  "assignments es = concat (map (\<lambda>e. case e of SetAssignee a \<Rightarrow> [a] | _ \<Rightarrow> []) es)"

definition due_dates :: "Effect list \<Rightarrow> instant option list" where
  "due_dates es = concat (map (\<lambda>e. case e of SetDueAt d \<Rightarrow> [d] | _ \<Rightarrow> []) es)"

definition tag_lists :: "Effect list \<Rightarrow> string list list" where
  "tag_lists es = concat (map (\<lambda>e. case e of SetTags t \<Rightarrow> [t] | _ \<Rightarrow> []) es)"

lemma assignments_simps [simp]:
  "assignments [] = []" "assignments (SetAssignee a # es) = a # assignments es"
  "assignments (SetDueAt d # es) = assignments es" "assignments (SetTags t # es) = assignments es"
  "due_dates [] = []" "due_dates (SetAssignee a # es) = due_dates es"
  "due_dates (SetDueAt d # es) = d # due_dates es" "due_dates (SetTags t # es) = due_dates es"
  "tag_lists [] = []" "tag_lists (SetAssignee a # es) = tag_lists es"
  "tag_lists (SetDueAt d # es) = tag_lists es" "tag_lists (SetTags t # es) = t # tag_lists es"
  by (simp_all add: assignments_def due_dates_def tag_lists_def)

lemma fold_fold_effect:
  "fo_setAssignee (fold fold_effect es f) = (fo_setAssignee f \<or> assignments es \<noteq> [])"
  "fo_assignee (fold fold_effect es f) = (if assignments es = [] then fo_assignee f else last (assignments es))"
  "fo_setDueAt (fold fold_effect es f) = (fo_setDueAt f \<or> due_dates es \<noteq> [])"
  "fo_dueAt (fold fold_effect es f) = (if due_dates es = [] then fo_dueAt f else last (due_dates es))"
  "fo_setTags (fold fold_effect es f) = (fo_setTags f \<or> tag_lists es \<noteq> [])"
  "fo_tags (fold fold_effect es f) = (if tag_lists es = [] then fo_tags f else last (tag_lists es))"
proof (induction es arbitrary: f)
  case Nil
  { case 1 show ?case by simp next case 2 show ?case by simp next case 3 show ?case by simp
    next case 4 show ?case by simp next case 5 show ?case by simp next case 6 show ?case by simp }
next
  case (Cons e es)
  { case 1 show ?case by (cases e) (simp_all add: Cons.IH)
    next case 2 show ?case by (cases e) (simp_all add: Cons.IH)
    next case 3 show ?case by (cases e) (simp_all add: Cons.IH)
    next case 4 show ?case by (cases e) (simp_all add: Cons.IH)
    next case 5 show ?case by (cases e) (simp_all add: Cons.IH)
    next case 6 show ?case by (cases e) (simp_all add: Cons.IH) }
qed

lemma foldEffects_fields:
  "fo_setAssignee (foldEffects es) \<longleftrightarrow> assignments es \<noteq> []"
  "fo_assignee (foldEffects es) = (if assignments es = [] then None else last (assignments es))"
  "fo_setDueAt (foldEffects es) \<longleftrightarrow> due_dates es \<noteq> []"
  "fo_dueAt (foldEffects es) = (if due_dates es = [] then None else last (due_dates es))"
  "fo_setTags (foldEffects es) \<longleftrightarrow> tag_lists es \<noteq> []"
  "fo_tags (foldEffects es) = (if tag_lists es = [] then [] else last (tag_lists es))"
  by (simp_all add: foldEffects_def fold_fold_effect no_effects_def)

end
