(* ===== verification/WorkflowTier.thy ===== *)
theory WorkflowTier
  imports WorkflowPostFunction
begin

text \<open>
  The transition chokepoint: \<^verbatim>\<open>internal/core/workflow/approval.go\<close>, \<^verbatim>\<open>transition.go\<close>,
  \<^verbatim>\<open>apply.go\<close>, \<^verbatim>\<open>tier_store.go\<close> and \<^verbatim>\<open>tier_service.go\<close>. \<open>Gate\<close> decides a status
  change for every route that makes one, \<open>OfferedTransitions\<close> is its read half, \<open>Decide\<close> records an
  approver's verdict.

  \<open>TierStore\<close> and \<open>ApprovalApplier\<close> are records of functions. \<open>CreateApproval\<close> takes the id and the
  instant the database's column defaults supply. \<open>uuid_nil\<close> as the workflow id is a space without
  one, as in the code.
\<close>

section \<open>Errors and data\<close>

datatype tier_error =
    ErrNotFound
  | ErrInvalidTransition
  | ErrNoWorkflow
  | ErrWorkflowInUse
  | ErrStateNotInWorkflow
  | ErrTransitionNotInWorkflow
  | ErrPostFunction post_error
  | ErrApprovalRequired
  | ErrApprovalPending
  | ErrApprovalAlreadyDecided
  | ErrTransitionRaced
  | ErrNotAnApprover
  | ErrApproverExists
  | ErrDeclineReasonRequired
  | ErrNoApplier
  | ErrUnknownEntityType string
  | ErrUnknownDecision string
  | ErrApproverSubjectType string
  | ErrApproverSubjectRequired
  | ErrTierDatabase string

record State =
  ws_ID :: uuid
  ws_WorkflowID :: uuid
  ws_Name :: string
  ws_Category :: string
  ws_Color :: string
  ws_Position :: int
  ws_IsInitial :: bool

record Transition =
  wt_ID :: uuid
  wt_WorkflowID :: uuid
  wt_FromStateID :: uuid
  wt_ToStateID :: uuid
  wt_Name :: string

abbreviation ApproverUser :: string where "ApproverUser \<equiv> ''user''"
abbreviation ApproverTeam :: string where "ApproverTeam \<equiv> ''team''"

definition allApproverSubjectTypes :: "string list" where
  "allApproverSubjectTypes = [ApproverUser, ApproverTeam]"

record Approver =
  ap_ID :: uuid
  ap_TransitionID :: uuid
  ap_SubjectType :: string
  ap_SubjectID :: uuid
  ap_SubjectName :: string
  ap_SubjectMissing :: bool

abbreviation DecisionApproved :: string where "DecisionApproved \<equiv> ''approved''"
abbreviation DecisionDeclined :: string where "DecisionDeclined \<equiv> ''declined''"

definition allDecisions :: "string list" where
  "allDecisions = [DecisionApproved, DecisionDeclined]"

abbreviation ApprovalEntityTicket :: string where "ApprovalEntityTicket \<equiv> ''ticket''"
abbreviation ApprovalEntityItem :: string where "ApprovalEntityItem \<equiv> ''item''"

definition allApprovalEntityTypes :: "string list" where
  "allApprovalEntityTypes = [ApprovalEntityTicket, ApprovalEntityItem]"

record Approval =
  al_ID :: uuid
  al_TransitionID :: "uuid option"
  al_EntityType :: string
  al_EntityID :: uuid
  al_SpaceID :: uuid
  al_FromStateID :: "uuid option"
  al_ToStateID :: "uuid option"
  al_FromStatus :: string
  al_ToStatus :: string
  al_RequestedBy :: uuid
  al_RequestedAt :: instant
  al_DecidedBy :: "uuid option"
  al_DecidedAt :: "instant option"
  al_Decision :: "string option"
  al_Reason :: "string option"
  al_RequestedByName :: string
  al_DecidedByName :: string
  al_CanDecide :: bool

definition IsPending :: "Approval \<Rightarrow> bool" where
  "IsPending a = (al_DecidedAt a = None)"

section \<open>Who may decide\<close>

fun CanDecide :: "Approver list \<Rightarrow> Actor \<Rightarrow> bool" where
  "CanDecide [] actor = False"
| "CanDecide (ap # aps) actor =
     (if ap_SubjectType ap = ApproverUser then
        if ap_SubjectID ap = ac_UserID actor then True else CanDecide aps actor
      else if ap_SubjectType ap = ApproverTeam then
        if List.member (ac_TeamIDs actor) (ap_SubjectID ap) then True else CanDecide aps actor
      else CanDecide aps actor)"

definition RequiresApproval :: "Approver list \<Rightarrow> bool" where
  "RequiresApproval approvers = (0 < length approvers)"

definition knownApproverSubjectType :: "string \<Rightarrow> bool" where
  "knownApproverSubjectType t = List.member allApproverSubjectTypes t"

definition ValidateApprover :: "Approver \<Rightarrow> tier_error + unit" where
  "ValidateApprover a =
     (if \<not> knownApproverSubjectType (ap_SubjectType a) then Inl (ErrApproverSubjectType (ap_SubjectType a))
      else if ap_SubjectID a = uuid_nil then Inl ErrApproverSubjectRequired
      else Inr ())"

definition ParseDecision :: "string \<Rightarrow> tier_error + string" where
  "ParseDecision s =
     (case List.find (\<lambda>d. d = s) allDecisions of Some d \<Rightarrow> Inr d | None \<Rightarrow> Inl (ErrUnknownDecision s))"

definition ParseApprovalEntityType :: "string \<Rightarrow> tier_error + string" where
  "ParseApprovalEntityType s =
     (case List.find (\<lambda>d. d = s) allApprovalEntityTypes of
        Some d \<Rightarrow> Inr d | None \<Rightarrow> Inl (ErrUnknownEntityType s))"

section \<open>The store\<close>

record 'db TierStore =
  ts_GuardsForTransition :: "'db \<Rightarrow> uuid \<Rightarrow> tier_error + Guard list"
  ts_PostFunctionsForTransition :: "'db \<Rightarrow> uuid \<Rightarrow> tier_error + PostFunction list"
  ts_ApproversForTransition :: "'db \<Rightarrow> uuid \<Rightarrow> tier_error + Approver list"
  ts_CreateApproval :: "uuid \<Rightarrow> instant \<Rightarrow> Approval \<Rightarrow> ('db, tier_error, Approval) stmt"
  ts_PendingApprovalForEntity :: "'db \<Rightarrow> string \<Rightarrow> uuid \<Rightarrow> tier_error + Approval"
  ts_GetApprovalInSpace :: "'db \<Rightarrow> uuid \<Rightarrow> uuid \<Rightarrow> tier_error + Approval"
  ts_StateByName :: "'db \<Rightarrow> uuid \<Rightarrow> string \<Rightarrow> tier_error + State"
  ts_StateByID :: "'db \<Rightarrow> uuid \<Rightarrow> uuid \<Rightarrow> tier_error + State"
  ts_InitialState :: "'db \<Rightarrow> uuid \<Rightarrow> tier_error + State"
  ts_TransitionBetween :: "'db \<Rightarrow> uuid \<Rightarrow> uuid \<Rightarrow> uuid \<Rightarrow> tier_error + Transition"
  ts_TransitionsFrom :: "'db \<Rightarrow> uuid \<Rightarrow> uuid \<Rightarrow> tier_error + Transition list"
  ts_EffectiveTeamIDs :: "'db \<Rightarrow> uuid \<Rightarrow> uuid \<Rightarrow> tier_error + uuid list"
  ts_EffectiveTeamMemberIDs :: "'db \<Rightarrow> uuid \<Rightarrow> uuid \<Rightarrow> tier_error + uuid list"

text \<open>\<open>if err != nil && !errors.Is(err, ErrNotFound)\<close>: a miss is a nil result.\<close>

definition found :: "tier_error + 'a \<Rightarrow> tier_error + 'a option" where
  "found r =
     (case r of Inr x \<Rightarrow> Inr (Some x) | Inl e \<Rightarrow> if e = ErrNotFound then Inr None else Inl e)"

section \<open>Requests and answers\<close>

abbreviation CheckUnknownTargetState :: string where "CheckUnknownTargetState \<equiv> ''unknown_target_state''"
abbreviation CheckNoSuchTransition :: string where "CheckNoSuchTransition \<equiv> ''no_such_transition''"
abbreviation CheckNoCurrentState :: string where "CheckNoCurrentState \<equiv> ''no_current_state''"

record GateRequest =
  gq_OrgID :: uuid
  gq_SpaceID :: uuid
  gq_WorkflowID :: uuid
  gq_EntityType :: string
  gq_EntityID :: uuid
  gq_CurrentStatus :: string
  gq_TargetStatus :: string
  gq_CurrentStateID :: "uuid option"
  gq_ActorID :: uuid
  gq_ActorCapabilities :: "Capability list"
  gq_Entity :: EntitySnapshot

record TransitionDecision =
  td_NoWorkflow :: bool
  td_FromStateID :: "uuid option"
  td_FromStatus :: string
  td_TransitionID :: "uuid option"
  td_ToStateID :: "uuid option"
  td_NoOp :: bool
  td_Refused :: "Refusal option"
  td_Pending :: "Approval option"
  td_PendingIsNew :: bool
  td_Effects :: "Effect list"

definition zero_decision :: TransitionDecision where
  "zero_decision =
     \<lparr>td_NoWorkflow = False, td_FromStateID = None, td_FromStatus = '''', td_TransitionID = None,
      td_ToStateID = None, td_NoOp = False, td_Refused = None, td_Pending = None,
      td_PendingIsNew = False, td_Effects = []\<rparr>"

record Offer =
  of_TransitionID :: uuid
  of_Name :: string
  of_ToStateID :: uuid
  of_ToStatus :: string
  of_RequiresApproval :: bool

record Offering =
  og_NoWorkflow :: bool
  og_CurrentStatus :: string
  og_EntityStatus :: string
  og_Transitions :: "Offer list"

definition refuse :: "string \<Rightarrow> Reason \<Rightarrow> Refusal" where
  "refuse check reason =
     \<lparr>rf_Check = check, rf_GuardID = uuid_nil, rf_Class = '''', rf_Kind = '''', rf_Reason = reason\<rparr>"

section \<open>Gate\<close>

definition ResolveFromState ::
    "'db TierStore \<Rightarrow> 'db \<Rightarrow> uuid \<Rightarrow> string \<Rightarrow> uuid option \<Rightarrow> tier_error + State option" where
  "ResolveFromState st db workflowID status stateID =
     rbind (found (ts_StateByName st db workflowID status)) (\<lambda>byName.
       if byName \<noteq> None then Inr byName
       else rbind (case stateID of None \<Rightarrow> Inr None | Some i \<Rightarrow> found (ts_StateByID st db workflowID i)) (\<lambda>byID.
         if byID \<noteq> None then Inr byID
         else found (ts_InitialState st db workflowID)))"

definition TierInitialState :: "'db TierStore \<Rightarrow> 'db \<Rightarrow> uuid \<Rightarrow> tier_error + State option" where
  "TierInitialState st db workflowID = found (ts_InitialState st db workflowID)"

definition resolveActor ::
    "'db TierStore \<Rightarrow> 'db \<Rightarrow> uuid \<Rightarrow> uuid \<Rightarrow> Capability list \<Rightarrow> tier_error + Actor" where
  "resolveActor st db orgID actorID caps =
     rbind (ts_EffectiveTeamIDs st db orgID actorID) (\<lambda>teamIDs.
       Inr \<lparr>ac_UserID = actorID, ac_TeamIDs = teamIDs, ac_Capabilities = caps\<rparr>)"

definition resolveMove ::
    "'db TierStore \<Rightarrow> 'db \<Rightarrow> GateRequest \<Rightarrow> tier_error + TransitionDecision \<times> Transition option" where
  "resolveMove st db req =
     rbind (ResolveFromState st db (gq_WorkflowID req) (gq_CurrentStatus req) (gq_CurrentStateID req)) (\<lambda>from.
       case from of
         None \<Rightarrow>
           Inr (zero_decision\<lparr>td_Refused := Some (refuse CheckNoCurrentState ReasonNoStartingState)\<rparr>, None)
       | Some from \<Rightarrow>
           let d = zero_decision\<lparr>td_FromStateID := Some (ws_ID from), td_FromStatus := ws_Name from\<rparr> in
           rbind (found (ts_StateByName st db (gq_WorkflowID req) (gq_TargetStatus req))) (\<lambda>to.
             case to of
               None \<Rightarrow>
                 Inr (d\<lparr>td_Refused := Some (refuse CheckUnknownTargetState
                          (ReasonNotAStatus (gq_TargetStatus req)))\<rparr>, None)
             | Some to \<Rightarrow>
                 let d = d\<lparr>td_ToStateID := Some (ws_ID to)\<rparr> in
                 if ws_ID to = ws_ID from then Inr (d\<lparr>td_NoOp := True\<rparr>, None)
                 else
                   rbind (found (ts_TransitionBetween st db (gq_WorkflowID req) (ws_ID from) (ws_ID to)))
                     (\<lambda>transition.
                       case transition of
                         None \<Rightarrow>
                           Inr (d\<lparr>td_Refused := Some (refuse CheckNoSuchTransition
                                    (ReasonNoMove (ws_Name from) (ws_Name to)))\<rparr>, None)
                       | Some t \<Rightarrow> Inr (d\<lparr>td_TransitionID := Some (wt_ID t)\<rparr>, Some t))))"

definition requestApproval ::
    "'db TierStore \<Rightarrow> uuid \<Rightarrow> instant \<Rightarrow> GateRequest \<Rightarrow> Transition \<Rightarrow> ('db, tier_error, Approval \<times> bool) stmt" where
  "requestApproval st newID now req t db =
     (case ts_CreateApproval st newID now
         \<lparr>al_ID = uuid_nil, al_TransitionID = Some (wt_ID t), al_EntityType = gq_EntityType req,
          al_EntityID = gq_EntityID req, al_SpaceID = gq_SpaceID req,
          al_FromStateID = Some (wt_FromStateID t), al_ToStateID = Some (wt_ToStateID t),
          al_FromStatus = gq_CurrentStatus req, al_ToStatus = gq_TargetStatus req,
          al_RequestedBy = gq_ActorID req, al_RequestedAt = 0, al_DecidedBy = None,
          al_DecidedAt = None, al_Decision = None, al_Reason = None, al_RequestedByName = '''',
          al_DecidedByName = '''', al_CanDecide = False\<rparr> db of
        Inr (created, db') \<Rightarrow> Inr ((created, True), db')
      | Inl e \<Rightarrow>
          if e \<noteq> ErrApprovalPending then Inl e
          else rbind (ts_PendingApprovalForEntity st db (gq_EntityType req) (gq_EntityID req)) (\<lambda>existing.
                 Inr ((existing, False), db)))"

definition planEffects :: "'db TierStore \<Rightarrow> 'db \<Rightarrow> uuid \<Rightarrow> tier_error + Effect list" where
  "planEffects st db transitionID =
     rbind (ts_PostFunctionsForTransition st db transitionID) (\<lambda>postFns.
       case PlanPostFunctions postFns of Inl e \<Rightarrow> Inl (ErrPostFunction e) | Inr effects \<Rightarrow> Inr effects)"

text \<open>The loop over the two guard classes, conditions first.\<close>

definition evaluate_classes :: "Guard list \<Rightarrow> Actor \<Rightarrow> EntitySnapshot \<Rightarrow> Refusal option" where
  "evaluate_classes guards actor entity =
     (case Evaluate guards GuardConditionClass actor entity of
        Some r \<Rightarrow> Some r
      | None \<Rightarrow> Evaluate guards GuardValidatorClass actor entity)"

definition evaluateTiers ::
    "'db TierStore \<Rightarrow> uuid \<Rightarrow> instant \<Rightarrow> GateRequest \<Rightarrow> TransitionDecision \<Rightarrow> Transition \<Rightarrow>
     ('db, tier_error, TransitionDecision) stmt" where
  "evaluateTiers st newID now req d transition =
     sbind (sread (\<lambda>db. resolveActor st db (gq_OrgID req) (gq_ActorID req) (gq_ActorCapabilities req))) (\<lambda>actor.
     sbind (sread (\<lambda>db. ts_GuardsForTransition st db (wt_ID transition))) (\<lambda>guards.
       case evaluate_classes guards actor (gq_Entity req) of
         Some refusal \<Rightarrow> sret (d\<lparr>td_Refused := Some refusal\<rparr>)
       | None \<Rightarrow>
           sbind (sread (\<lambda>db. ts_ApproversForTransition st db (wt_ID transition))) (\<lambda>approvers.
             if RequiresApproval approvers then
               sbind (requestApproval st newID now req transition) (\<lambda>(pending, isNew).
                 sret (d\<lparr>td_Pending := Some pending, td_PendingIsNew := isNew\<rparr>))
             else
               sbind (sread (\<lambda>db. planEffects st db (wt_ID transition))) (\<lambda>effects.
                 sret (d\<lparr>td_Effects := effects\<rparr>)))))"

definition Gate ::
    "'db TierStore \<Rightarrow> uuid \<Rightarrow> instant \<Rightarrow> GateRequest \<Rightarrow> ('db, tier_error, TransitionDecision) stmt" where
  "Gate st newID now req =
     (if gq_WorkflowID req = uuid_nil then sret (zero_decision\<lparr>td_NoWorkflow := True\<rparr>)
      else sbind (sread (\<lambda>db. resolveMove st db req)) (\<lambda>(d, transition).
        if td_Refused d \<noteq> None \<or> td_NoOp d then sret d
        else case transition of
          None \<Rightarrow> sret d
        | Some t \<Rightarrow> evaluateTiers st newID now req d t))"

section \<open>Offering\<close>

definition offerFor ::
    "'db TierStore \<Rightarrow> 'db \<Rightarrow> GateRequest \<Rightarrow> Actor \<Rightarrow> Transition \<Rightarrow> tier_error + Offer option" where
  "offerFor st db req actor t =
     rbind (ts_GuardsForTransition st db (wt_ID t)) (\<lambda>guards.
       if Evaluate guards GuardConditionClass actor (gq_Entity req) \<noteq> None then Inr None
       else rbind (found (ts_StateByID st db (gq_WorkflowID req) (wt_ToStateID t))) (\<lambda>to.
         case to of
           None \<Rightarrow> Inr None
         | Some to \<Rightarrow>
             rbind (ts_ApproversForTransition st db (wt_ID t)) (\<lambda>approvers.
               Inr (Some \<lparr>of_TransitionID = wt_ID t, of_Name = wt_Name t, of_ToStateID = ws_ID to,
                          of_ToStatus = ws_Name to, of_RequiresApproval = RequiresApproval approvers\<rparr>))))"

fun offer_all ::
    "'db TierStore \<Rightarrow> 'db \<Rightarrow> GateRequest \<Rightarrow> Actor \<Rightarrow> Transition list \<Rightarrow> tier_error + Offer list" where
  "offer_all st db req actor [] = Inr []"
| "offer_all st db req actor (t # ts) =
     rbind (offerFor st db req actor t) (\<lambda>offer.
     rbind (offer_all st db req actor ts) (\<lambda>offers.
       Inr (case offer of None \<Rightarrow> offers | Some o1 \<Rightarrow> o1 # offers)))"

definition OfferedTransitions :: "'db TierStore \<Rightarrow> 'db \<Rightarrow> GateRequest \<Rightarrow> tier_error + Offering" where
  "OfferedTransitions st db req =
     (let out = \<lparr>og_NoWorkflow = False, og_CurrentStatus = '''', og_EntityStatus = gq_CurrentStatus req,
                 og_Transitions = []\<rparr>
      in if gq_WorkflowID req = uuid_nil then Inr (out\<lparr>og_NoWorkflow := True\<rparr>)
         else rbind (ResolveFromState st db (gq_WorkflowID req) (gq_CurrentStatus req) (gq_CurrentStateID req))
           (\<lambda>from. case from of
              None \<Rightarrow> Inr out
            | Some from \<Rightarrow>
                let out = out\<lparr>og_CurrentStatus := ws_Name from\<rparr> in
                rbind (ts_TransitionsFrom st db (gq_WorkflowID req) (ws_ID from)) (\<lambda>candidates.
                  if length candidates = 0 then Inr out
                  else rbind (resolveActor st db (gq_OrgID req) (gq_ActorID req) (gq_ActorCapabilities req))
                    (\<lambda>actor. rbind (offer_all st db req actor candidates) (\<lambda>offers.
                      Inr (out\<lparr>og_Transitions := offers\<rparr>))))))"

section \<open>Deciding\<close>

record ApplyInput =
  ai_EntityType :: string
  ai_EntityID :: uuid
  ai_OrgID :: uuid
  ai_SpaceID :: uuid
  ai_ActorID :: uuid
  ai_ToStatus :: string
  ai_ToStateID :: "uuid option"
  ai_ExpectFromStatus :: string
  ai_TransitionID :: "uuid option"
  ai_Effects :: "Effect list"
  ai_ApprovalID :: "uuid option"

record DecideAndApplyInput =
  di_SpaceID :: uuid
  di_ApprovalID :: uuid
  di_ActorID :: uuid
  di_Decision :: string
  di_Reason :: "string option"
  di_Apply :: "ApplyInput option"

text \<open>\<open>ApprovalApplier\<close>: the one method, and a database of its own result: it runs a transaction,
  so it returns the database it leaves with the error or the value.\<close>

type_synonym 'db ApprovalApplier = "DecideAndApplyInput \<Rightarrow> 'db \<Rightarrow> (tier_error + Approval) \<times> 'db"

record DecideRequest =
  dr_OrgID :: uuid
  dr_SpaceID :: uuid
  dr_ApprovalID :: uuid
  dr_ActorID :: uuid
  dr_Decision :: string
  dr_Reason :: string

definition decisionReason :: "string \<Rightarrow> string \<Rightarrow> tier_error + string option" where
  "decisionReason d raw =
     (let reason = TrimSpace raw
      in if d = DecisionDeclined \<and> reason = '''' then Inl ErrDeclineReasonRequired
         else if reason = '''' then Inr None
         else Inr (Some reason))"

definition checkDecideAuthority :: "'db TierStore \<Rightarrow> 'db \<Rightarrow> DecideRequest \<Rightarrow> uuid \<Rightarrow> tier_error + unit" where
  "checkDecideAuthority st db req transitionID =
     rbind (ts_ApproversForTransition st db transitionID) (\<lambda>approvers.
     rbind (resolveActor st db (dr_OrgID req) (dr_ActorID req) []) (\<lambda>actor.
       guard_err (CanDecide approvers actor) ErrNotAnApprover))"

text \<open>Everything \<open>Decide\<close> does before it calls the applier: the input of that call.\<close>

definition decide_input :: "'db TierStore \<Rightarrow> 'db \<Rightarrow> DecideRequest \<Rightarrow> string option \<Rightarrow> tier_error + DecideAndApplyInput" where
  "decide_input st db req storedReason =
     rbind (ts_GetApprovalInSpace st db (dr_SpaceID req) (dr_ApprovalID req)) (\<lambda>approval.
       if \<not> IsPending approval then Inl ErrApprovalAlreadyDecided
       else case al_TransitionID approval of
         None \<Rightarrow> Inl ErrInvalidTransition
       | Some tid \<Rightarrow>
           rbind (checkDecideAuthority st db req tid) (\<lambda>_.
             let input = \<lparr>di_SpaceID = dr_SpaceID req, di_ApprovalID = dr_ApprovalID req,
                          di_ActorID = dr_ActorID req, di_Decision = dr_Decision req,
                          di_Reason = storedReason, di_Apply = None\<rparr>
             in if dr_Decision req = DecisionApproved then
                  rbind (planEffects st db tid) (\<lambda>effects.
                    Inr (input\<lparr>di_Apply := Some
                      \<lparr>ai_EntityType = al_EntityType approval, ai_EntityID = al_EntityID approval,
                       ai_OrgID = dr_OrgID req, ai_SpaceID = dr_SpaceID req, ai_ActorID = dr_ActorID req,
                       ai_ToStatus = al_ToStatus approval, ai_ToStateID = al_ToStateID approval,
                       ai_ExpectFromStatus = al_FromStatus approval,
                       ai_TransitionID = al_TransitionID approval, ai_Effects = effects,
                       ai_ApprovalID = Some (al_ID approval)\<rparr>\<rparr>))
                else Inr input))"

definition Decide ::
    "'db TierStore \<Rightarrow> 'db ApprovalApplier option \<Rightarrow> DecideRequest \<Rightarrow> 'db \<Rightarrow> (tier_error + Approval) \<times> 'db" where
  "Decide st applier req db =
     (case decisionReason (dr_Decision req) (dr_Reason req) of
        Inl e \<Rightarrow> (Inl e, db)
      | Inr storedReason \<Rightarrow>
          (case applier of
             None \<Rightarrow> (Inl ErrNoApplier, db)
           | Some DecideAndApply \<Rightarrow>
               (case decide_input st db req storedReason of
                  Inl e \<Rightarrow> (Inl e, db)
                | Inr input \<Rightarrow> DecideAndApply input db)))"

section \<open>Who is told, and who sees the button\<close>

definition add_recipient :: "uuid \<Rightarrow> uuid list \<Rightarrow> uuid list" where
  "add_recipient i out = (if List.member out i then out else out @ [i])"

fun collect_recipients ::
    "'db TierStore \<Rightarrow> 'db \<Rightarrow> uuid \<Rightarrow> Approver list \<Rightarrow> uuid list \<Rightarrow> tier_error + uuid list" where
  "collect_recipients st db orgID [] out = Inr out"
| "collect_recipients st db orgID (ap # aps) out =
     (if ap_SubjectType ap = ApproverUser then
        collect_recipients st db orgID aps (add_recipient (ap_SubjectID ap) out)
      else if ap_SubjectType ap = ApproverTeam then
        rbind (ts_EffectiveTeamMemberIDs st db orgID (ap_SubjectID ap)) (\<lambda>members.
          collect_recipients st db orgID aps (fold add_recipient members out))
      else collect_recipients st db orgID aps out)"

definition ApproverRecipients :: "'db TierStore \<Rightarrow> 'db \<Rightarrow> uuid \<Rightarrow> uuid \<Rightarrow> tier_error + uuid list" where
  "ApproverRecipients st db orgID transitionID =
     rbind (ts_ApproversForTransition st db transitionID) (\<lambda>approvers.
       collect_recipients st db orgID approvers [])"

text \<open>The loop of \<open>MarkDecidable\<close>, with the per-transition cache it keeps.\<close>

fun mark_decidable ::
    "'db TierStore \<Rightarrow> 'db \<Rightarrow> Actor \<Rightarrow> (uuid \<times> bool) list \<Rightarrow> Approval list \<Rightarrow> tier_error + Approval list" where
  "mark_decidable st db actor byTransition [] = Inr []"
| "mark_decidable st db actor byTransition (a # as) =
     (case al_TransitionID a of
        None \<Rightarrow> rbind (mark_decidable st db actor byTransition as) (\<lambda>rest. Inr (a # rest))
      | Some tid \<Rightarrow>
          (case map_of byTransition tid of
             Some decidable \<Rightarrow>
               rbind (mark_decidable st db actor byTransition as) (\<lambda>rest.
                 Inr (a\<lparr>al_CanDecide := decidable\<rparr> # rest))
           | None \<Rightarrow>
               rbind (ts_ApproversForTransition st db tid) (\<lambda>approvers.
                 let decidable = CanDecide approvers actor in
                 rbind (mark_decidable st db actor ((tid, decidable) # byTransition) as) (\<lambda>rest.
                   Inr (a\<lparr>al_CanDecide := decidable\<rparr> # rest)))))"

definition MarkDecidable ::
    "'db TierStore \<Rightarrow> 'db \<Rightarrow> uuid \<Rightarrow> uuid \<Rightarrow> Approval list \<Rightarrow> tier_error + Approval list" where
  "MarkDecidable st db orgID actorID approvals =
     (if length approvals = 0 then Inr approvals
      else rbind (resolveActor st db orgID actorID []) (\<lambda>actor.
             mark_decidable st db actor [] approvals))"

end
