(* ===== verification/WorkDb.thy ===== *)
theory WorkDb
  imports WorkflowTier AccessBulk "HOL-Library.Product_Lexorder"
begin

text \<open>
  The tables the workflow engine and the things that move through it live in, and the statements of
  \<^verbatim>\<open>internal/db/queries/workflow_tiers.sql\<close>, \<^verbatim>\<open>workflows.sql\<close>,
  \<^verbatim>\<open>tickets.sql\<close>, \<^verbatim>\<open>project_items.sql\<close> and \<^verbatim>\<open>tags.sql\<close> the adapters run
  (migrations 014, 016, 040, 046, 047, 050, 055).

  A state, transition, guard, post-function, approver or approval row has the columns of its domain
  type, and the adapter's \<open>rowToX\<close> copies them field for field; those rows are the domain records.
  The joined columns of an approver (\<open>ap_SubjectName\<close>, \<open>ap_SubjectMissing\<close>) and of an approval (the
  two names) are blank in the table and filled by the queries that join.
\<close>

record WorkflowRow =
  wf_id :: uuid
  wf_org :: uuid
  wf_name :: string
  wf_description :: "string option"
  wf_default :: bool
  wf_applies_to :: string
  wf_created :: instant
  wf_updated :: instant

record TicketRow =
  tk_id :: uuid
  tk_space :: uuid
  tk_number :: int
  tk_title :: string
  tk_description :: string
  tk_status :: string
  tk_priority :: string
  tk_reporter :: "uuid option"
  tk_assignee :: "uuid option"
  tk_due :: "instant option"
  tk_resolved :: "instant option"
  tk_state :: "uuid option"
  tk_requester :: "uuid option"
  tk_deleted :: bool
  tk_rank :: string
  tk_created :: instant
  tk_updated :: instant

record ProjectItemRow =
  pi_id :: uuid
  pi_space :: uuid
  pi_parent :: "uuid option"
  pi_number :: int
  pi_kind :: string
  pi_title :: string
  pi_description :: string
  pi_status :: string
  pi_priority :: string
  pi_reporter :: uuid
  pi_assignee :: "uuid option"
  pi_sprint :: "uuid option"
  pi_due :: "instant option"
  pi_resolved :: "instant option"
  pi_rank :: string
  pi_state :: "uuid option"
  pi_org :: uuid
  pi_key :: string
  pi_deleted :: bool
  pi_created :: instant
  pi_updated :: instant

text \<open>\<open>pg_doc\<close> is the stored document of a page edited as one; \<open>pg_version\<close> is a 32-bit column.\<close>

record PageRow =
  pg_id :: uuid
  pg_space :: uuid
  pg_parent :: "uuid option"
  pg_title :: string
  pg_content :: string
  pg_version :: "32 word"
  pg_author :: uuid
  pg_position :: int
  pg_path :: string
  pg_doc :: "string option"
  pg_deleted :: bool

record PageRevisionRow =
  pr_id :: uuid
  pr_page :: uuid
  pr_version :: "32 word"
  pr_title :: string
  pr_content :: string
  pr_doc :: "string option"
  pr_author :: uuid

record EntityShareRow =
  sh_id :: uuid
  sh_org :: uuid
  sh_space :: uuid
  sh_entity_type :: string
  sh_entity :: uuid
  sh_audience :: string
  sh_audience_id :: "uuid option"
  sh_cascade :: bool
  sh_expires :: "instant option"
  sh_created_by :: uuid
  sh_created :: instant
  sh_revoked :: "instant option"

record TagRow =
  tg_id :: uuid
  tg_org :: uuid
  tg_slug :: string
  tg_name :: string

record EntityTagRow =
  et_type :: string
  et_id :: uuid
  et_tag :: uuid

record work_db = org_db +
  workflows :: "WorkflowRow list"
  workflow_states :: "State list"
  workflow_transitions :: "Transition list"
  transition_guards :: "Guard list"
  transition_post_functions :: "PostFunction list"
  transition_approvers :: "Approver list"
  workflow_approvals :: "Approval list"
  tickets :: "TicketRow list"
  project_items :: "ProjectItemRow list"
  pages :: "PageRow list"
  page_revisions :: "PageRevisionRow list"
  entity_shares :: "EntityShareRow list"
  tags :: "TagRow list"
  entity_tags :: "EntityTagRow list"

section \<open>Workflow graph\<close>

definition q_GetWorkflowStateByName :: "'x work_db_scheme \<Rightarrow> uuid \<Rightarrow> string \<Rightarrow> State option" where
  "q_GetWorkflowStateByName db w n =
     List.find (\<lambda>s. ws_WorkflowID s = w \<and> ws_Name s = n) (workflow_states db)"

definition q_GetWorkflowState :: "'x work_db_scheme \<Rightarrow> uuid \<Rightarrow> State option" where
  "q_GetWorkflowState db i = List.find (\<lambda>s. ws_ID s = i) (workflow_states db)"

definition q_GetInitialWorkflowState :: "'x work_db_scheme \<Rightarrow> uuid \<Rightarrow> State option" where
  "q_GetInitialWorkflowState db w =
     List.find (\<lambda>s. ws_WorkflowID s = w \<and> ws_IsInitial s) (workflow_states db)"

definition q_GetTransitionByStates :: "'x work_db_scheme \<Rightarrow> uuid \<Rightarrow> uuid \<Rightarrow> uuid \<Rightarrow> Transition option" where
  "q_GetTransitionByStates db w a b =
     List.find (\<lambda>t. wt_WorkflowID t = w \<and> wt_FromStateID t = a \<and> wt_ToStateID t = b)
       (workflow_transitions db)"

definition q_ListAvailableTransitions :: "'x work_db_scheme \<Rightarrow> uuid \<Rightarrow> uuid \<Rightarrow> Transition list" where
  "q_ListAvailableTransitions db w a =
     filter (\<lambda>t. wt_WorkflowID t = w \<and> wt_FromStateID t = a) (workflow_transitions db)"

definition q_GetTransition :: "'x work_db_scheme \<Rightarrow> uuid \<Rightarrow> Transition option" where
  "q_GetTransition db i = List.find (\<lambda>t. wt_ID t = i) (workflow_transitions db)"

definition q_GetWorkflow :: "'x work_db_scheme \<Rightarrow> uuid \<Rightarrow> WorkflowRow option" where
  "q_GetWorkflow db i = List.find (\<lambda>w. wf_id w = i) (workflows db)"

text \<open>No \<open>deleted_at\<close> predicate on the space: a deleted space still names its workflow.\<close>

definition q_GetSpaceWorkflow :: "'x work_db_scheme \<Rightarrow> uuid \<Rightarrow> WorkflowRow option" where
  "q_GetSpaceWorkflow db sp =
     (case List.find (\<lambda>s. s_id s = sp) (spaces db) of
        None \<Rightarrow> None
      | Some s \<Rightarrow> (case s_workflow s of None \<Rightarrow> None | Some w \<Rightarrow> q_GetWorkflow db w))"

section \<open>The three tiers\<close>

definition q_ListTransitionGuards :: "'x work_db_scheme \<Rightarrow> uuid \<Rightarrow> Guard list" where
  "q_ListTransitionGuards db i =
     sort_key (\<lambda>g. (gd_Position g, gd_ID g)) (filter (\<lambda>g. gd_TransitionID g = i) (transition_guards db))"

definition q_ListTransitionPostFunctions :: "'x work_db_scheme \<Rightarrow> uuid \<Rightarrow> PostFunction list" where
  "q_ListTransitionPostFunctions db i =
     sort_key (\<lambda>p. (pf_Position p, pf_ID p))
       (filter (\<lambda>p. pf_TransitionID p = i) (transition_post_functions db))"

text \<open>The joined subject: a live user with a membership in the workflow's organisation, a live team
  of it.\<close>

definition approver_subject :: "'x work_db_scheme \<Rightarrow> uuid \<Rightarrow> Approver \<Rightarrow> string option" where
  "approver_subject db org a =
     (if ap_SubjectType a = ''user''
      then map_option u_display_name (List.find (\<lambda>u. u_id u = ap_SubjectID a \<and> \<not> u_deleted u \<and>
             list_ex (\<lambda>m. m_user m = u_id u \<and> m_org m = org) (memberships db)) (users db))
      else if ap_SubjectType a = ''team''
      then map_option t_name (List.find (\<lambda>t. t_id t = ap_SubjectID a \<and> live_team t \<and> t_org t = org) (teams db))
      else None)"

definition q_ListTransitionApprovers :: "'x work_db_scheme \<Rightarrow> uuid \<Rightarrow> Approver list" where
  "q_ListTransitionApprovers db i =
     (case q_GetTransition db i of
        None \<Rightarrow> []
      | Some t \<Rightarrow>
          (case q_GetWorkflow db (wt_WorkflowID t) of
             None \<Rightarrow> []
           | Some w \<Rightarrow>
               map (\<lambda>a. a\<lparr>ap_SubjectName := (case approver_subject db (wf_org w) a of None \<Rightarrow> '''' | Some n \<Rightarrow> n),
                          ap_SubjectMissing := (approver_subject db (wf_org w) a = None)\<rparr>)
                 (filter (\<lambda>a. ap_TransitionID a = i) (transition_approvers db))))"

text \<open>\<open>SELECT DISTINCT tm.user_id\<close> over the live accounts among the organisation's team members.\<close>

definition q_ListEffectiveTeamMemberIDs :: "'x work_db_scheme \<Rightarrow> uuid \<Rightarrow> uuid \<Rightarrow> uuid list" where
  "q_ListEffectiveTeamMemberIDs db org team =
     remdups (map tm_user (filter (\<lambda>tm. tm_org tm = org \<and>
       list_ex (\<lambda>u. u_id u = tm_user tm \<and> \<not> u_deleted u) (users db) \<and>
       List.member (effective_team_ids db org (tm_user tm)) team) (team_members db)))"

section \<open>Approvals\<close>

definition pending_for :: "string \<Rightarrow> uuid \<Rightarrow> Approval \<Rightarrow> bool" where
  "pending_for ty e a \<longleftrightarrow> al_EntityType a = ty \<and> al_EntityID a = e \<and> al_DecidedAt a = None"

definition q_GetPendingApprovalForEntity :: "'x work_db_scheme \<Rightarrow> string \<Rightarrow> uuid \<Rightarrow> Approval option" where
  "q_GetPendingApprovalForEntity db ty e = List.find (pending_for ty e) (workflow_approvals db)"

definition opt_exists :: "('a \<Rightarrow> bool) \<Rightarrow> 'a option \<Rightarrow> bool" where
  "opt_exists P x \<longleftrightarrow> (case x of None \<Rightarrow> True | Some i \<Rightarrow> P i)"

definition transition_exists :: "'x work_db_scheme \<Rightarrow> uuid \<Rightarrow> bool" where
  "transition_exists db i \<longleftrightarrow> list_ex (\<lambda>t. wt_ID t = i) (workflow_transitions db)"

definition state_exists :: "'x work_db_scheme \<Rightarrow> uuid \<Rightarrow> bool" where
  "state_exists db i \<longleftrightarrow> list_ex (\<lambda>s. ws_ID s = i) (workflow_states db)"

text \<open>The partial unique index \<open>workflow_approvals_one_pending_per_entity\<close> is what refuses a second
  request.\<close>

definition q_CreateApproval :: "Approval \<Rightarrow> ('x work_db_scheme, sql_error, Approval) stmt" where
  "q_CreateApproval a db =
     (if \<not> db_up db then Inl SqlDown
      else if al_EntityType a \<notin> {''ticket'', ''item''} then Inl (SqlCheck ''workflow_approvals_entity_type_valid'')
      else if list_ex (\<lambda>x. al_ID x = al_ID a) (workflow_approvals db) then Inl (SqlUnique ''workflow_approvals_pkey'')
      else if list_ex (pending_for (al_EntityType a) (al_EntityID a)) (workflow_approvals db)
        then Inl (SqlUnique ''workflow_approvals_one_pending_per_entity'')
      else if \<not> (opt_exists (transition_exists db) (al_TransitionID a) \<and> opt_exists (state_exists db) (al_FromStateID a) \<and>
                opt_exists (state_exists db) (al_ToStateID a) \<and> list_ex (\<lambda>s. s_id s = al_SpaceID a) (spaces db) \<and>
                user_exists db (al_RequestedBy a)) then Inl SqlForeignKey
      else Inr (a, db\<lparr>workflow_approvals := workflow_approvals db @ [a]\<rparr>))"

definition display_name_of :: "'x work_db_scheme \<Rightarrow> uuid option \<Rightarrow> string" where
  "display_name_of db i =
     (case i of None \<Rightarrow> ''''
      | Some i \<Rightarrow> (case List.find (\<lambda>u. u_id u = i) (users db) of None \<Rightarrow> '''' | Some u \<Rightarrow> u_display_name u))"

definition with_names :: "'x work_db_scheme \<Rightarrow> Approval \<Rightarrow> Approval" where
  "with_names db a =
     a\<lparr>al_RequestedByName := display_name_of db (Some (al_RequestedBy a)),
       al_DecidedByName := display_name_of db (al_DecidedBy a)\<rparr>"

definition q_GetApprovalInSpace :: "'x work_db_scheme \<Rightarrow> uuid \<Rightarrow> uuid \<Rightarrow> Approval option" where
  "q_GetApprovalInSpace db i sp =
     map_option (with_names db)
       (List.find (\<lambda>a. al_ID a = i \<and> al_SpaceID a = sp) (workflow_approvals db))"

text \<open>One pending row of the named space, decided in one statement: who, when, what and why.\<close>

definition decides :: "uuid \<Rightarrow> uuid \<Rightarrow> Approval \<Rightarrow> bool" where
  "decides i sp a \<longleftrightarrow> al_ID a = i \<and> al_SpaceID a = sp \<and> al_DecidedAt a = None"

definition set_decision :: "instant \<Rightarrow> uuid \<Rightarrow> string \<Rightarrow> string option \<Rightarrow> Approval \<Rightarrow> Approval" where
  "set_decision now u d reason a =
     a\<lparr>al_DecidedBy := Some u, al_DecidedAt := Some now, al_Decision := Some d, al_Reason := reason\<rparr>"

definition q_DecideApproval ::
    "instant \<Rightarrow> uuid \<Rightarrow> uuid \<Rightarrow> uuid \<Rightarrow> string \<Rightarrow> string option \<Rightarrow> ('x work_db_scheme, sql_error, Approval) stmt" where
  "q_DecideApproval now i sp u d reason db =
     (if \<not> db_up db then Inl SqlDown
      else case List.find (decides i sp) (workflow_approvals db) of
        None \<Rightarrow> Inl SqlNoRows
      | Some a \<Rightarrow>
          if d \<notin> {''approved'', ''declined''} then Inl (SqlCheck ''workflow_approvals_decision_valid'')
          else if \<not> user_exists db u then Inl SqlForeignKey
          else Inr (set_decision now u d reason a,
                    db\<lparr>workflow_approvals :=
                         map (\<lambda>x. if decides i sp x then set_decision now u d reason x else x)
                           (workflow_approvals db)\<rparr>))"

definition q_ListApprovalsForEntity :: "'x work_db_scheme \<Rightarrow> string \<Rightarrow> uuid \<Rightarrow> uuid \<Rightarrow> Approval list" where
  \<comment> \<open>newest first: the table's order is insertion order\<close>
  "q_ListApprovalsForEntity db ty e sp =
     map (with_names db) (rev (filter (\<lambda>a. al_EntityType a = ty \<and> al_EntityID a = e \<and> al_SpaceID a = sp)
       (workflow_approvals db)))"

definition q_ListPendingApprovalsForSpace :: "'x work_db_scheme \<Rightarrow> uuid \<Rightarrow> Approval list" where
  "q_ListPendingApprovalsForSpace db sp =
     map (\<lambda>a. a\<lparr>al_RequestedByName := display_name_of db (Some (al_RequestedBy a))\<rparr>)
       (rev (filter (\<lambda>a. al_SpaceID a = sp \<and> al_DecidedAt a = None) (workflow_approvals db)))"

definition q_CountPendingApprovalsForTransition :: "'x work_db_scheme \<Rightarrow> uuid \<Rightarrow> nat" where
  "q_CountPendingApprovalsForTransition db i =
     length (filter (\<lambda>a. al_TransitionID a = Some i \<and> al_DecidedAt a = None) (workflow_approvals db))"


section \<open>Moving an entity\<close>

text \<open>\<open>resolved_at\<close> follows the category of the state being written.\<close>

definition resolve_stamp :: "'x work_db_scheme \<Rightarrow> instant \<Rightarrow> uuid option \<Rightarrow> instant option \<Rightarrow> instant option" where
  "resolve_stamp db now stateID old =
     (case stateID of
        None \<Rightarrow> None
      | Some i \<Rightarrow>
          (case q_GetWorkflowState db i of
             None \<Rightarrow> None
           | Some s \<Rightarrow> if ws_Category s = ''done'' then Some (case old of None \<Rightarrow> now | Some t \<Rightarrow> t) else None))"

definition ticket_hit :: "uuid \<Rightarrow> uuid \<Rightarrow> TicketRow \<Rightarrow> bool" where
  "ticket_hit i sp t \<longleftrightarrow> tk_id t = i \<and> tk_space t = sp \<and> \<not> tk_deleted t"

definition item_hit :: "uuid \<Rightarrow> uuid \<Rightarrow> ProjectItemRow \<Rightarrow> bool" where
  "item_hit i sp t \<longleftrightarrow> pi_id t = i \<and> pi_space t = sp \<and> \<not> pi_deleted t"

definition move_ticket :: "'x work_db_scheme \<Rightarrow> instant \<Rightarrow> string \<Rightarrow> uuid option \<Rightarrow> TicketRow \<Rightarrow> TicketRow" where
  "move_ticket db now status stateID t =
     t\<lparr>tk_status := status, tk_state := stateID, tk_resolved := resolve_stamp db now stateID (tk_resolved t),
       tk_updated := now\<rparr>"

definition move_item :: "'x work_db_scheme \<Rightarrow> instant \<Rightarrow> string \<Rightarrow> uuid option \<Rightarrow> ProjectItemRow \<Rightarrow> ProjectItemRow" where
  "move_item db now status stateID t =
     t\<lparr>pi_status := status, pi_state := stateID, pi_resolved := resolve_stamp db now stateID (pi_resolved t),
       pi_updated := now\<rparr>"

definition q_UpdateTicketWorkflowState ::
    "instant \<Rightarrow> uuid \<Rightarrow> uuid \<Rightarrow> string \<Rightarrow> uuid option \<Rightarrow> string \<Rightarrow> ('x work_db_scheme, sql_error, TicketRow) stmt" where
  "q_UpdateTicketWorkflowState now i sp status stateID expect db =
     (let hit = (\<lambda>t. ticket_hit i sp t \<and> tk_status t = expect)
      in if \<not> db_up db then Inl SqlDown
         else case List.find hit (tickets db) of
           None \<Rightarrow> Inl SqlNoRows
         | Some t \<Rightarrow>
             if \<not> opt_exists (state_exists db) stateID then Inl SqlForeignKey
             else Inr (move_ticket db now status stateID t,
                       db\<lparr>tickets := map (\<lambda>t. if hit t then move_ticket db now status stateID t else t) (tickets db)\<rparr>))"

definition q_UpdateProjectItemWorkflowState ::
    "instant \<Rightarrow> uuid \<Rightarrow> uuid \<Rightarrow> string \<Rightarrow> uuid option \<Rightarrow> string \<Rightarrow> ('x work_db_scheme, sql_error, ProjectItemRow) stmt" where
  "q_UpdateProjectItemWorkflowState now i sp status stateID expect db =
     (let hit = (\<lambda>t. item_hit i sp t \<and> pi_status t = expect)
      in if \<not> db_up db then Inl SqlDown
         else case List.find hit (project_items db) of
           None \<Rightarrow> Inl SqlNoRows
         | Some t \<Rightarrow>
             if \<not> opt_exists (state_exists db) stateID then Inl SqlForeignKey
             else Inr (move_item db now status stateID t,
                       db\<lparr>project_items :=
                            map (\<lambda>t. if hit t then move_item db now status stateID t else t) (project_items db)\<rparr>))"

text \<open>One UPDATE for every planned column effect; a flag that is not set leaves the column.\<close>

definition q_ApplyTicketEffects ::
    "instant \<Rightarrow> bool \<Rightarrow> uuid option \<Rightarrow> bool \<Rightarrow> instant option \<Rightarrow> uuid \<Rightarrow> uuid \<Rightarrow> ('x work_db_scheme, sql_error, unit) stmt" where
  "q_ApplyTicketEffects now setAssignee assignee setDueAt dueAt i sp db =
     (if \<not> db_up db then Inl SqlDown
      else if setAssignee \<and> \<not> opt_exists (user_exists db) assignee \<and> list_ex (ticket_hit i sp) (tickets db)
        then Inl SqlForeignKey
      else Inr ((), db\<lparr>tickets := map (\<lambda>t. if ticket_hit i sp t
             then t\<lparr>tk_assignee := (if setAssignee then assignee else tk_assignee t),
                    tk_due := (if setDueAt then dueAt else tk_due t), tk_updated := now\<rparr> else t) (tickets db)\<rparr>))"

definition q_ApplyProjectItemEffects ::
    "instant \<Rightarrow> bool \<Rightarrow> uuid option \<Rightarrow> bool \<Rightarrow> instant option \<Rightarrow> uuid \<Rightarrow> uuid \<Rightarrow> ('x work_db_scheme, sql_error, unit) stmt" where
  "q_ApplyProjectItemEffects now setAssignee assignee setDueAt dueAt i sp db =
     (if \<not> db_up db then Inl SqlDown
      else if setAssignee \<and> \<not> opt_exists (user_exists db) assignee \<and> list_ex (item_hit i sp) (project_items db)
        then Inl SqlForeignKey
      else Inr ((), db\<lparr>project_items := map (\<lambda>t. if item_hit i sp t
             then t\<lparr>pi_assignee := (if setAssignee then assignee else pi_assignee t),
                    pi_due := (if setDueAt then dueAt else pi_due t), pi_updated := now\<rparr> else t) (project_items db)\<rparr>))"

section \<open>Tags\<close>

text \<open>Create-on-use, the first spelling of a slug kept.\<close>

definition q_UpsertTag :: "uuid \<Rightarrow> uuid \<Rightarrow> string \<Rightarrow> string \<Rightarrow> ('x work_db_scheme, sql_error, TagRow) stmt" where
  "q_UpsertTag newID org slug name db =
     (if \<not> db_up db then Inl SqlDown
      else if \<not> slug_shape slug then Inl (SqlCheck ''tags_slug_format'')
      else case List.find (\<lambda>t. tg_org t = org \<and> tg_slug t = slug) (tags db) of
        Some t \<Rightarrow> Inr (t, db)
      | None \<Rightarrow>
          if list_ex (\<lambda>t. tg_id t = newID) (tags db) then Inl (SqlUnique ''tags_pkey'')
          else let t = \<lparr>tg_id = newID, tg_org = org, tg_slug = slug, tg_name = name\<rparr>
               in Inr (t, db\<lparr>tags := tags db @ [t]\<rparr>))"

definition entity_in_space :: "'x work_db_scheme \<Rightarrow> string \<Rightarrow> uuid \<Rightarrow> uuid \<Rightarrow> bool" where
  "entity_in_space db ty i sp \<longleftrightarrow>
     ty = ''ticket'' \<and> list_ex (ticket_hit i sp) (tickets db) \<or>
     ty = ''project_item'' \<and> list_ex (item_hit i sp) (project_items db) \<or>
     ty = ''page'' \<and> list_ex (\<lambda>p. pg_id p = i \<and> pg_space p = sp \<and> \<not> pg_deleted p) (pages db)"

definition q_DeleteEntityTagsExcept ::
    "string \<Rightarrow> uuid \<Rightarrow> uuid \<Rightarrow> uuid list \<Rightarrow> ('x work_db_scheme, sql_error, unit) stmt" where
  "q_DeleteEntityTagsExcept ty i sp keep db =
     (if \<not> db_up db then Inl SqlDown
      else Inr ((), db\<lparr>entity_tags := filter (\<lambda>r. \<not> (et_type r = ty \<and> et_id r = i \<and>
             \<not> List.member keep (et_tag r) \<and> entity_in_space db ty i sp)) (entity_tags db)\<rparr>))"

definition q_AddEntityTag :: "string \<Rightarrow> uuid \<Rightarrow> uuid \<Rightarrow> uuid \<Rightarrow> ('x work_db_scheme, sql_error, unit) stmt" where
  "q_AddEntityTag ty i sp tag db =
     (let r = \<lparr>et_type = ty, et_id = i, et_tag = tag\<rparr>
      in if \<not> db_up db then Inl SqlDown
         else if \<not> entity_in_space db ty i sp then Inr ((), db)
         else if \<not> list_ex (\<lambda>t. tg_id t = tag) (tags db) then Inl SqlForeignKey
         else if List.member (entity_tags db) r then Inr ((), db)
         else Inr ((), db\<lparr>entity_tags := entity_tags db @ [r]\<rparr>))"

end
