(* ===== verification/WorkflowGate.thy ===== *)
theory WorkflowGate
  imports WorkflowTier
begin

text \<open>
  The contract of the tier store, and what the chokepoint of \<^verbatim>\<open>tier_service.go\<close> does over any
  store that keeps it: what \<open>Gate\<close> lets through, what the picker offers, who may decide and who is
  told. \<^verbatim>\<open>WorkflowDb.thy\<close> interprets the contract on the SQL adapter.
\<close>

section \<open>Facts about the pure parts\<close>

lemma CanDecide_iff:
  "CanDecide aps actor \<longleftrightarrow>
     (\<exists>ap \<in> set aps. (ap_SubjectType ap = ApproverUser \<and> ap_SubjectID ap = ac_UserID actor) \<or>
        (ap_SubjectType ap = ApproverTeam \<and> ap_SubjectID ap \<in> set (ac_TeamIDs actor)))"
  by (induction aps) auto

lemma evaluate_classes_None:
  "evaluate_classes gs a e = None \<longleftrightarrow>
     (\<forall>g \<in> set gs. gd_Class g \<in> {GuardConditionClass, GuardValidatorClass} \<longrightarrow> guard_holds g a e)"
proof -
  have "evaluate_classes gs a e = None \<longleftrightarrow>
      Evaluate gs GuardConditionClass a e = None \<and> Evaluate gs GuardValidatorClass a e = None"
    by (cases "Evaluate gs GuardConditionClass a e") (simp_all add: evaluate_classes_def)
  then show ?thesis by (simp only: Evaluate_None_iff) blast
qed

lemma evaluate_classes_Some:
  "evaluate_classes gs a e = Some r \<Longrightarrow>
     rf_Check r = CheckGuard \<and>
     (rf_Class r = GuardConditionClass \<and> Evaluate gs GuardConditionClass a e = Some r \<or>
      rf_Class r = GuardValidatorClass \<and> Evaluate gs GuardConditionClass a e = None)"
  by (auto simp: evaluate_classes_def Evaluate_Some_iff dest: evaluateOne_Some split: option.splits)

lemma found_Some: "found r = Inr (Some x) \<longleftrightarrow> r = Inr x"
  by (auto simp: found_def split: sum.splits if_splits)

lemma found_None: "found r = Inr None \<longleftrightarrow> r = Inl ErrNotFound"
  by (auto simp: found_def split: sum.splits if_splits)

lemma set_add_recipient [simp]: "set (add_recipient i out) = insert i (set out)"
  by (auto simp: add_recipient_def)

lemma distinct_add_recipient: "distinct out \<Longrightarrow> distinct (add_recipient i out)"
  by (simp add: add_recipient_def)

lemma set_fold_add: "set (fold add_recipient ms out) = set ms \<union> set out"
  by (induction ms arbitrary: out) auto

lemma distinct_fold_add: "distinct out \<Longrightarrow> distinct (fold add_recipient ms out)"
  by (induction ms arbitrary: out) (simp_all add: distinct_add_recipient)

text \<open>A decision the caller may write: nothing refused it, nothing holds it.\<close>

definition cleared :: "TransitionDecision \<Rightarrow> bool" where
  "cleared d \<longleftrightarrow> \<not> td_NoWorkflow d \<and> \<not> td_NoOp d \<and> td_Refused d = None \<and> td_Pending d = None"

section \<open>The contract\<close>

locale tier_store =
  fixes st :: "'db TierStore"
    and ok :: "'db \<Rightarrow> bool"
    and state :: "'db \<Rightarrow> uuid \<Rightarrow> State \<Rightarrow> bool"
    and edge :: "'db \<Rightarrow> uuid \<Rightarrow> Transition \<Rightarrow> bool"
    and guards :: "'db \<Rightarrow> uuid \<Rightarrow> Guard list"
    and postfns :: "'db \<Rightarrow> uuid \<Rightarrow> PostFunction list"
    and approvers :: "'db \<Rightarrow> uuid \<Rightarrow> Approver list"
    and teams_of :: "'db \<Rightarrow> uuid \<Rightarrow> uuid \<Rightarrow> uuid list"
    and account :: "'db \<Rightarrow> uuid \<Rightarrow> bool"
    and pending :: "'db \<Rightarrow> string \<Rightarrow> uuid \<Rightarrow> Approval option"
  assumes by_name: "ok db \<Longrightarrow> ts_StateByName st db w n = Inr s \<longleftrightarrow> state db w s \<and> ws_Name s = n"
    and by_name_miss: "ok db \<Longrightarrow> ts_StateByName st db w n = Inl e \<Longrightarrow> e = ErrNotFound"
    and by_id: "ok db \<Longrightarrow> ts_StateByID st db w i = Inr s \<longleftrightarrow> state db w s \<and> ws_ID s = i"
    and by_id_miss: "ok db \<Longrightarrow> ts_StateByID st db w i = Inl e \<Longrightarrow> e = ErrNotFound"
    and initial: "ok db \<Longrightarrow> ts_InitialState st db w = Inr s \<Longrightarrow> state db w s \<and> ws_IsInitial s"
    and initial_miss: "ok db \<Longrightarrow> ts_InitialState st db w = Inl e \<Longrightarrow> e = ErrNotFound"
    and between: "ok db \<Longrightarrow> ts_TransitionBetween st db w x y = Inr t \<longleftrightarrow>
        edge db w t \<and> wt_FromStateID t = x \<and> wt_ToStateID t = y"
    and between_miss: "ok db \<Longrightarrow> ts_TransitionBetween st db w x y = Inl e \<Longrightarrow> e = ErrNotFound"
    and edges_from: "ok db \<Longrightarrow> \<exists>es. ts_TransitionsFrom st db w x = Inr es \<and>
        (\<forall>t. t \<in> set es \<longleftrightarrow> edge db w t \<and> wt_FromStateID t = x)"
    and guards_of: "ok db \<Longrightarrow> ts_GuardsForTransition st db i = Inr (guards db i)"
    and postfns_of: "ok db \<Longrightarrow> ts_PostFunctionsForTransition st db i = Inr (postfns db i)"
    and approvers_of: "ok db \<Longrightarrow> ts_ApproversForTransition st db i = Inr (approvers db i)"
    and teams_up: "ok db \<Longrightarrow> ts_EffectiveTeamIDs st db org u = Inr (teams_of db org u)"
    and members_up: "ok db \<Longrightarrow> \<exists>ms. ts_EffectiveTeamMemberIDs st db org i = Inr ms \<and>
        (\<forall>u. u \<in> set ms \<longleftrightarrow> account db u \<and> i \<in> set (teams_of db org u))"
    and request_free: "ok db \<Longrightarrow> pending db (al_EntityType a) (al_EntityID a) = None \<Longrightarrow>
        ts_CreateApproval st i now a db = Inr (c, db') \<Longrightarrow>
          pending db' (al_EntityType a) (al_EntityID a) = Some c \<and> IsPending c \<and>
          al_FromStatus c = al_FromStatus a \<and> al_ToStatus c = al_ToStatus a \<and>
          al_TransitionID c = al_TransitionID a \<and> al_RequestedBy c = al_RequestedBy a \<and>
          al_SpaceID c = al_SpaceID a"
    and request_taken: "ok db \<Longrightarrow> pending db (al_EntityType a) (al_EntityID a) = Some p \<Longrightarrow>
        ts_CreateApproval st i now a db = Inr (c, db') \<longleftrightarrow> False"
    and pending_up: "ok db \<Longrightarrow> ts_PendingApprovalForEntity st db ty x = Inr p \<Longrightarrow> pending db ty x = Some p"
begin

definition actor_of :: "'db \<Rightarrow> GateRequest \<Rightarrow> Actor" where
  "actor_of db req =
     \<lparr>ac_UserID = gq_ActorID req, ac_TeamIDs = teams_of db (gq_OrgID req) (gq_ActorID req),
      ac_Capabilities = gq_ActorCapabilities req\<rparr>"

lemma resolveActor_up:
  "ok db \<Longrightarrow> resolveActor st db org u caps =
     Inr \<lparr>ac_UserID = u, ac_TeamIDs = teams_of db org u, ac_Capabilities = caps\<rparr>"
  by (simp add: resolveActor_def teams_up)

lemma found_name: "ok db \<Longrightarrow> \<exists>r. found (ts_StateByName st db w n) = Inr r"
  using by_name_miss by (cases "ts_StateByName st db w n") (auto simp: found_def)

lemma found_id: "ok db \<Longrightarrow> \<exists>r. found (ts_StateByID st db w n) = Inr r"
  using by_id_miss by (cases "ts_StateByID st db w n") (auto simp: found_def)

lemma found_initial: "ok db \<Longrightarrow> \<exists>r. found (ts_InitialState st db w) = Inr r"
  using initial_miss by (cases "ts_InitialState st db w") (auto simp: found_def)

lemma found_between: "ok db \<Longrightarrow> \<exists>r. found (ts_TransitionBetween st db w a b) = Inr r"
  using between_miss by (cases "ts_TransitionBetween st db w a b") (auto simp: found_def)

text \<open>Placing an entity never fails on a reachable store, and a placed entity is at a state of the
  workflow: by its status text when that names one, else by its recorded state, else at the start.\<close>

lemma resolve_total: "ok db \<Longrightarrow> \<exists>r. ResolveFromState st db w status sid = Inr r"
proof -
  assume ok: "ok db"
  obtain n where n: "found (ts_StateByName st db w status) = Inr n" using found_name [OF ok] by blast
  have "\<exists>r. (case sid of None \<Rightarrow> Inr None | Some i \<Rightarrow> found (ts_StateByID st db w i)) = Inr r"
    using found_id [OF ok] by (cases sid) auto
  then obtain b where "(case sid of None \<Rightarrow> Inr None | Some i \<Rightarrow> found (ts_StateByID st db w i)) = Inr b" ..
  with n found_initial [OF ok, of w] show ?thesis by (auto simp: ResolveFromState_def)
qed

lemma resolve_state:
  assumes "ok db" and "ResolveFromState st db w status sid = Inr (Some s)"
  shows "state db w s"
  using assms(2)
  by (auto simp: ResolveFromState_def rbind_eq_Inr found_Some by_name [OF assms(1)] by_id [OF assms(1)]
      dest: initial [OF assms(1)] split: if_splits option.splits)

lemma resolve_by_name:
  assumes "ok db" and "state db w s"
  shows "ResolveFromState st db w (ws_Name s) sid = Inr (Some s)"
  using assms by_name [OF assms(1), of w "ws_Name s" s]
  by (simp add: ResolveFromState_def found_def)

text \<open>The structural half, decided by the graph alone.\<close>

lemma resolveMove_up:
  assumes "ok db"
  shows "\<exists>d t. resolveMove st db req = Inr (d, t)"
proof -
  obtain r where r: "ResolveFromState st db (gq_WorkflowID req) (gq_CurrentStatus req) (gq_CurrentStateID req) = Inr r"
    using resolve_total [OF assms] by blast
  obtain n where n: "found (ts_StateByName st db (gq_WorkflowID req) (gq_TargetStatus req)) = Inr n"
    using found_name [OF assms] by blast
  show ?thesis
  proof (cases r)
    case None
    with r show ?thesis by (simp add: resolveMove_def)
  next
    case s: (Some s)
    show ?thesis
    proof (cases n)
      case None
      with r n s show ?thesis by (simp add: resolveMove_def Let_def)
    next
      case (Some to)
      obtain b where "found (ts_TransitionBetween st db (gq_WorkflowID req) (ws_ID s) (ws_ID to)) = Inr b"
        using found_between [OF assms] by blast
      with r n s Some show ?thesis
        by (cases b) (auto simp: resolveMove_def Let_def)
    qed
  qed
qed

lemma resolveMove_edge:
  assumes ok: "ok db" and m: "resolveMove st db req = Inr (d, Some t)"
  shows "\<exists>from to. ResolveFromState st db (gq_WorkflowID req) (gq_CurrentStatus req) (gq_CurrentStateID req) =
      Inr (Some from) \<and> state db (gq_WorkflowID req) to \<and> ws_Name to = gq_TargetStatus req \<and>
    ws_ID to \<noteq> ws_ID from \<and> edge db (gq_WorkflowID req) t \<and> wt_FromStateID t = ws_ID from \<and>
    wt_ToStateID t = ws_ID to \<and>
    d = zero_decision\<lparr>td_FromStateID := Some (ws_ID from), td_FromStatus := ws_Name from,
          td_ToStateID := Some (ws_ID to), td_TransitionID := Some (wt_ID t)\<rparr>"
  using m
  by (auto simp: resolveMove_def rbind_eq_Inr Let_def found_Some by_name [OF ok] between [OF ok]
      split: option.splits if_splits)

lemma resolveMove_along:
  assumes ok: "ok db"
    and f: "ResolveFromState st db (gq_WorkflowID req) (gq_CurrentStatus req) (gq_CurrentStateID req) = Inr (Some fr)"
    and t: "state db (gq_WorkflowID req) to" "ws_Name to = gq_TargetStatus req" "ws_ID to \<noteq> ws_ID fr"
    and e: "edge db (gq_WorkflowID req) t" "wt_FromStateID t = ws_ID fr" "wt_ToStateID t = ws_ID to"
  shows "resolveMove st db req = Inr
      (zero_decision\<lparr>td_FromStateID := Some (ws_ID fr), td_FromStatus := ws_Name fr,
         td_ToStateID := Some (ws_ID to), td_TransitionID := Some (wt_ID t)\<rparr>, Some t)"
proof -
  have "found (ts_StateByName st db (gq_WorkflowID req) (gq_TargetStatus req)) = Inr (Some to)"
    using t by (simp add: found_Some by_name [OF ok])
  moreover have "found (ts_TransitionBetween st db (gq_WorkflowID req) (ws_ID fr) (ws_ID to)) = Inr (Some t)"
    using e by (simp add: found_Some between [OF ok])
  ultimately show ?thesis using f t(3) by (simp add: resolveMove_def Let_def)
qed

lemma resolveMove_from:
  assumes "resolveMove st db req = Inr (d, x)"
    and "ResolveFromState st db (gq_WorkflowID req) (gq_CurrentStatus req) (gq_CurrentStateID req) = Inr (Some fr)"
  shows "td_FromStateID d = Some (ws_ID fr)"
  using assms by (auto simp: resolveMove_def Let_def split: rbind_split_asm option.split_asm if_split_asm)

lemma resolveMove_stop:
  assumes "resolveMove st db req = Inr (d, None)"
  shows "td_NoWorkflow d = False \<and> td_Pending d = None \<and> td_TransitionID d = None \<and> td_Effects d = [] \<and>
    (td_NoOp d \<and> td_Refused d = None \<or>
     \<not> td_NoOp d \<and> (\<exists>r. td_Refused d = Some r \<and>
        rf_Class r = [] \<and>
        rf_Check r \<in> {CheckNoCurrentState, CheckUnknownTargetState, CheckNoSuchTransition}))"
  using assms
  by (auto simp: resolveMove_def Let_def zero_decision_def refuse_def
      split: rbind_split_asm option.split_asm if_split_asm)

text \<open>The request a held move records is the entity's one pending request, whoever made it first.\<close>

lemma requestApproval_once:
  assumes ok: "ok db" and r: "requestApproval st i now req t db = Inr ((p, isNew), db')"
  shows "pending db' (gq_EntityType req) (gq_EntityID req) = Some p \<and>
    (if isNew
     then pending db (gq_EntityType req) (gq_EntityID req) = None \<and> IsPending p \<and>
       al_FromStatus p = gq_CurrentStatus req \<and> al_ToStatus p = gq_TargetStatus req \<and>
       al_RequestedBy p = gq_ActorID req \<and> al_SpaceID p = gq_SpaceID req \<and> al_TransitionID p = Some (wt_ID t)
     else db' = db)"
proof -
  let ?a = "\<lparr>al_ID = uuid_nil, al_TransitionID = Some (wt_ID t), al_EntityType = gq_EntityType req,
          al_EntityID = gq_EntityID req, al_SpaceID = gq_SpaceID req,
          al_FromStateID = Some (wt_FromStateID t), al_ToStateID = Some (wt_ToStateID t),
          al_FromStatus = gq_CurrentStatus req, al_ToStatus = gq_TargetStatus req,
          al_RequestedBy = gq_ActorID req, al_RequestedAt = 0, al_DecidedBy = None,
          al_DecidedAt = None, al_Decision = None, al_Reason = None, al_RequestedByName = [],
          al_DecidedByName = [], al_CanDecide = False\<rparr> :: Approval"
  show ?thesis
  proof (cases "ts_CreateApproval st i now ?a db")
    case (Inl e)
    with r have "rbind (ts_PendingApprovalForEntity st db (gq_EntityType req) (gq_EntityID req))
        (\<lambda>existing. Inr ((existing, False), db)) = Inr ((p, isNew), db')"
      by (simp add: requestApproval_def split: if_splits)
    then show ?thesis using pending_up [OF ok] by (auto simp: rbind_eq_Inr)
  next
    case (Inr y)
    obtain c s where y: "y = (c, s)" by (cases y)
    have eq: "p = c" "isNew" "db' = s" using r Inr by (simp_all add: requestApproval_def y)
    have none: "pending db (gq_EntityType req) (gq_EntityID req) = None"
      using request_taken [OF ok, of ?a _ i now c s] Inr y by (cases "pending db (gq_EntityType req) (gq_EntityID req)") auto
    have up: "ts_CreateApproval st i now ?a db = Inr (c, s)" using Inr y by simp
    have k: "al_EntityType ?a = gq_EntityType req" "al_EntityID ?a = gq_EntityID req" by simp_all
    note rf = request_free [OF ok, of ?a i now c s, unfolded k, OF none up]
    show ?thesis unfolding eq(1) eq(3) using rf none eq(2) by simp
  qed
qed

text \<open>Along a matched edge \<open>Gate\<close> is this case distinction.\<close>

lemma gate_edge:
  assumes ok: "ok db" and w: "gq_WorkflowID req \<noteq> uuid_nil" and m: "resolveMove st db req = Inr (d, Some t)"
  shows "Gate st i now req db =
    (case evaluate_classes (guards db (wt_ID t)) (actor_of db req) (gq_Entity req) of
       Some r \<Rightarrow> Inr (d\<lparr>td_Refused := Some r\<rparr>, db)
     | None \<Rightarrow>
         if approvers db (wt_ID t) = [] then
           (case PlanPostFunctions (postfns db (wt_ID t)) of
              Inl e \<Rightarrow> Inl (ErrPostFunction e)
            | Inr es \<Rightarrow> Inr (d\<lparr>td_Effects := es\<rparr>, db))
         else
           (case requestApproval st i now req t db of
              Inl e \<Rightarrow> Inl e
            | Inr ((p, isNew), db') \<Rightarrow> Inr (d\<lparr>td_Pending := Some p, td_PendingIsNew := isNew\<rparr>, db')))"
proof -
  have "td_Refused d = None" "\<not> td_NoOp d"
    using resolveMove_edge [OF ok m] by (auto simp: zero_decision_def)
  with w m show ?thesis
    by (simp add: Gate_def evaluateTiers_def stmt_defs resolveActor_up [OF ok] guards_of [OF ok]
        approvers_of [OF ok] planEffects_def postfns_of [OF ok] actor_of_def RequiresApproval_def
        split: option.split sum.split)
qed

lemma gate_stop:
  assumes "ok db" and "gq_WorkflowID req \<noteq> uuid_nil" and m: "resolveMove st db req = Inr (d, None)"
  shows "Gate st i now req db = Inr (d, db)"
  using assms by (simp add: Gate_def stmt_defs)

lemma gate_cases:
  assumes ok: "ok db" and w: "gq_WorkflowID req \<noteq> uuid_nil" and g: "Gate st i now req db = Inr (d, db')"
  obtains (stop) "resolveMove st db req = Inr (d, None)" "db' = db"
  | (refused) d0 t r where "resolveMove st db req = Inr (d0, Some t)" "db' = db"
      "evaluate_classes (guards db (wt_ID t)) (actor_of db req) (gq_Entity req) = Some r"
      "d = d0\<lparr>td_Refused := Some r\<rparr>"
  | (clear) d0 t es where "resolveMove st db req = Inr (d0, Some t)" "db' = db"
      "evaluate_classes (guards db (wt_ID t)) (actor_of db req) (gq_Entity req) = None"
      "approvers db (wt_ID t) = []" "PlanPostFunctions (postfns db (wt_ID t)) = Inr es"
      "d = d0\<lparr>td_Effects := es\<rparr>"
  | (held) d0 t p isNew where "resolveMove st db req = Inr (d0, Some t)"
      "evaluate_classes (guards db (wt_ID t)) (actor_of db req) (gq_Entity req) = None"
      "approvers db (wt_ID t) \<noteq> []" "requestApproval st i now req t db = Inr ((p, isNew), db')"
      "d = d0\<lparr>td_Pending := Some p, td_PendingIsNew := isNew\<rparr>"
proof -
  obtain d0 x where m: "resolveMove st db req = Inr (d0, x)" using resolveMove_up [OF ok] by blast
  show thesis
  proof (cases x)
    case None
    with m have m': "resolveMove st db req = Inr (d0, None)" by simp
    have "d0 = d" "db' = db" using g gate_stop [OF ok w m'] by simp_all
    with m' show thesis by (auto intro: stop)
  next
    case (Some t)
    note gate_edge [OF ok w m [unfolded Some]]
    note e = g [unfolded this]
    show thesis
    proof (cases "evaluate_classes (guards db (wt_ID t)) (actor_of db req) (gq_Entity req)")
      case r: (Some r)
      have d: "d = d0\<lparr>td_Refused := Some r\<rparr>" "db' = db" using e r by simp_all
      show thesis by (rule refused [OF m [unfolded Some] d(2) r d(1)])
    next
      case c: None
      show thesis
      proof (cases "approvers db (wt_ID t) = []")
        case True
        with e c obtain es where es: "PlanPostFunctions (postfns db (wt_ID t)) = Inr es"
          "d = d0\<lparr>td_Effects := es\<rparr>" "db' = db"
          by (cases "PlanPostFunctions (postfns db (wt_ID t))") simp_all
        show thesis by (rule clear [OF m [unfolded Some] es(3) c True es(1,2)])
      next
        case False
        with e c obtain p n where p: "requestApproval st i now req t db = Inr ((p, n), db')"
          "d = d0\<lparr>td_Pending := Some p, td_PendingIsNew := n\<rparr>"
          by (cases "requestApproval st i now req t db") (auto split: prod.splits)
        show thesis by (rule held [OF m [unfolded Some] c False p])
      qed
    qed
  qed
qed

text \<open>What a cleared decision promises, and that it is the only way to be cleared.\<close>

lemma gate_cleared:
  assumes ok: "ok db" and w: "gq_WorkflowID req \<noteq> uuid_nil"
  shows "Gate st i now req db = Inr (d, db') \<and> cleared d \<longleftrightarrow>
    (\<exists>from to t. db' = db \<and>
       ResolveFromState st db (gq_WorkflowID req) (gq_CurrentStatus req) (gq_CurrentStateID req) = Inr (Some from) \<and>
       state db (gq_WorkflowID req) to \<and> ws_Name to = gq_TargetStatus req \<and> ws_ID to \<noteq> ws_ID from \<and>
       edge db (gq_WorkflowID req) t \<and> wt_FromStateID t = ws_ID from \<and> wt_ToStateID t = ws_ID to \<and>
       (\<forall>g \<in> set (guards db (wt_ID t)). gd_Class g \<in> {GuardConditionClass, GuardValidatorClass} \<longrightarrow>
          guard_holds g (actor_of db req) (gq_Entity req)) \<and>
       approvers db (wt_ID t) = [] \<and>
       (\<exists>es. PlanPostFunctions (postfns db (wt_ID t)) = Inr es \<and>
         d = zero_decision\<lparr>td_FromStateID := Some (ws_ID from), td_FromStatus := ws_Name from,
               td_ToStateID := Some (ws_ID to), td_TransitionID := Some (wt_ID t), td_Effects := es\<rparr>))"
    (is "?l \<longleftrightarrow> ?r")
proof
  assume l: ?l
  then have g: "Gate st i now req db = Inr (d, db')" and c: "cleared d" by auto
  from ok w g show ?r
  proof (cases rule: gate_cases)
    case stop
    with c resolveMove_stop [OF stop(1)] show ?thesis by (auto simp: cleared_def)
  next
    case (refused d0 t r)
    with c show ?thesis by (auto simp: cleared_def)
  next
    case (clear d0 t es)
    from resolveMove_edge [OF ok clear(1)] obtain fr to where
      m: "ResolveFromState st db (gq_WorkflowID req) (gq_CurrentStatus req) (gq_CurrentStateID req) = Inr (Some fr)"
        "state db (gq_WorkflowID req) to" "ws_Name to = gq_TargetStatus req" "ws_ID to \<noteq> ws_ID fr"
        "edge db (gq_WorkflowID req) t" "wt_FromStateID t = ws_ID fr" "wt_ToStateID t = ws_ID to"
      and d0: "d0 = zero_decision\<lparr>td_FromStateID := Some (ws_ID fr), td_FromStatus := ws_Name fr,
          td_ToStateID := Some (ws_ID to), td_TransitionID := Some (wt_ID t)\<rparr>" by blast
    have "d = zero_decision\<lparr>td_FromStateID := Some (ws_ID fr), td_FromStatus := ws_Name fr,
               td_ToStateID := Some (ws_ID to), td_TransitionID := Some (wt_ID t), td_Effects := es\<rparr>"
      using d0 clear(6) by simp
    with m clear(2,4,5) clear(3) [unfolded evaluate_classes_None] show ?thesis by blast
  next
    case (held d0 t p isNew)
    with c show ?thesis by (auto simp: cleared_def)
  qed
next
  assume ?r
  then obtain fr to t es where db: "db' = db"
    and f: "ResolveFromState st db (gq_WorkflowID req) (gq_CurrentStatus req) (gq_CurrentStateID req) = Inr (Some fr)"
    and t: "state db (gq_WorkflowID req) to" "ws_Name to = gq_TargetStatus req" "ws_ID to \<noteq> ws_ID fr"
    and e: "edge db (gq_WorkflowID req) t" "wt_FromStateID t = ws_ID fr" "wt_ToStateID t = ws_ID to"
    and gh: "evaluate_classes (guards db (wt_ID t)) (actor_of db req) (gq_Entity req) = None"
    and a: "approvers db (wt_ID t) = []" and es: "PlanPostFunctions (postfns db (wt_ID t)) = Inr es"
    and d: "d = zero_decision\<lparr>td_FromStateID := Some (ws_ID fr), td_FromStatus := ws_Name fr,
               td_ToStateID := Some (ws_ID to), td_TransitionID := Some (wt_ID t), td_Effects := es\<rparr>"
    unfolding evaluate_classes_None by blast
  note resolveMove_along [OF ok f t e]
  from gate_edge [OF ok w this] gh a es d db show ?l by (simp add: cleared_def zero_decision_def)
qed

text \<open>A held decision: the edge exists, every guard held, and the request that is recorded is the
  entity's one pending request.\<close>

lemma gate_held:
  assumes ok: "ok db" and w: "gq_WorkflowID req \<noteq> uuid_nil"
    and g: "Gate st i now req db = Inr (d, db')" and p: "td_Pending d = Some p"
  shows "pending db' (gq_EntityType req) (gq_EntityID req) = Some p \<and> td_Effects d = [] \<and>
    (if td_PendingIsNew d
     then pending db (gq_EntityType req) (gq_EntityID req) = None \<and> IsPending p \<and>
       al_FromStatus p = gq_CurrentStatus req \<and> al_ToStatus p = gq_TargetStatus req \<and>
       al_RequestedBy p = gq_ActorID req \<and> al_SpaceID p = gq_SpaceID req \<and> al_TransitionID p = td_TransitionID d
     else db' = db) \<and>
    (\<exists>t. edge db (gq_WorkflowID req) t \<and> td_TransitionID d = Some (wt_ID t) \<and> approvers db (wt_ID t) \<noteq> [] \<and>
      (\<forall>g \<in> set (guards db (wt_ID t)). gd_Class g \<in> {GuardConditionClass, GuardValidatorClass} \<longrightarrow>
          guard_holds g (actor_of db req) (gq_Entity req)))"
  using ok w g
proof (cases rule: gate_cases)
  case stop
  with p resolveMove_stop [OF stop(1)] show ?thesis by auto
next
  case (refused d0 t r)
  with p resolveMove_edge [OF ok refused(1)] show ?thesis by (auto simp: zero_decision_def)
next
  case (clear d0 t es)
  with p resolveMove_edge [OF ok clear(1)] show ?thesis by (auto simp: zero_decision_def)
next
  case (held d0 t q isNew)
  note e = resolveMove_edge [OF ok held(1)]
  have q: "q = p" using p held(5) by simp
  have tid: "td_TransitionID d = Some (wt_ID t)" "td_Effects d = []" "td_PendingIsNew d = isNew"
    using e held(5) by (auto simp: zero_decision_def)
  have gh: "\<forall>g \<in> set (guards db (wt_ID t)). gd_Class g \<in> {GuardConditionClass, GuardValidatorClass} \<longrightarrow>
          guard_holds g (actor_of db req) (gq_Entity req)"
    using held(2) by (simp only: evaluate_classes_None)
  have "pending db' (gq_EntityType req) (gq_EntityID req) = Some p \<and>
    (if isNew
     then pending db (gq_EntityType req) (gq_EntityID req) = None \<and> IsPending p \<and>
       al_FromStatus p = gq_CurrentStatus req \<and> al_ToStatus p = gq_TargetStatus req \<and>
       al_RequestedBy p = gq_ActorID req \<and> al_SpaceID p = gq_SpaceID req \<and> al_TransitionID p = Some (wt_ID t)
     else db' = db)"
    using requestApproval_once [OF ok held(4) [unfolded q]] .
  with tid gh held(3) e show ?thesis by auto
qed

text \<open>The picker: an edge is offered exactly when its conditions hold and its target is a state.\<close>

definition offers_edge :: "'db \<Rightarrow> GateRequest \<Rightarrow> Actor \<Rightarrow> Transition \<Rightarrow> Offer \<Rightarrow> bool" where
  "offers_edge db req actor t off \<longleftrightarrow>
     Evaluate (guards db (wt_ID t)) GuardConditionClass actor (gq_Entity req) = None \<and>
     (\<exists>to. state db (gq_WorkflowID req) to \<and> ws_ID to = wt_ToStateID t \<and>
        off = \<lparr>of_TransitionID = wt_ID t, of_Name = wt_Name t, of_ToStateID = ws_ID to,
               of_ToStatus = ws_Name to, of_RequiresApproval = (approvers db (wt_ID t) \<noteq> [])\<rparr>)"

lemma offerFor_up:
  assumes ok: "ok db"
  shows "\<exists>r. offerFor st db req actor t = Inr r \<and> (\<forall>off. r = Some off \<longleftrightarrow> offers_edge db req actor t off)"
proof (cases "Evaluate (guards db (wt_ID t)) GuardConditionClass actor (gq_Entity req)")
  case (Some r)
  then show ?thesis by (simp add: offerFor_def guards_of [OF ok] offers_edge_def)
next
  case None
  obtain x where x: "found (ts_StateByID st db (gq_WorkflowID req) (wt_ToStateID t)) = Inr x"
    using found_id [OF ok] by blast
  have s: "x = Some to \<longleftrightarrow> state db (gq_WorkflowID req) to \<and> ws_ID to = wt_ToStateID t" for to
    using x found_Some [of "ts_StateByID st db (gq_WorkflowID req) (wt_ToStateID t)" to] by_id [OF ok] by auto
  show ?thesis
  proof (cases x)
    case n: None
    have "\<not> offers_edge db req actor t off" for off using s n by (auto simp: offers_edge_def)
    with n None x show ?thesis by (simp add: offerFor_def guards_of [OF ok])
  next
    case y: (Some to)
    have u: "state db (gq_WorkflowID req) to' \<and> ws_ID to' = wt_ToStateID t \<longleftrightarrow> to' = to" for to'
      using s [of to'] y by auto
    have "offers_edge db req actor t off \<longleftrightarrow> off = \<lparr>of_TransitionID = wt_ID t, of_Name = wt_Name t,
        of_ToStateID = ws_ID to, of_ToStatus = ws_Name to, of_RequiresApproval = (approvers db (wt_ID t) \<noteq> [])\<rparr>" for off
      using None by (simp only: offers_edge_def conj_assoc [symmetric] u) auto
    with y None x show ?thesis
      by (auto simp: offerFor_def guards_of [OF ok] approvers_of [OF ok] RequiresApproval_def)
  qed
qed

lemma offer_all_up:
  assumes ok: "ok db"
  shows "\<exists>os. offer_all st db req actor ts = Inr os \<and>
    (\<forall>off. off \<in> set os \<longleftrightarrow> (\<exists>t \<in> set ts. offers_edge db req actor t off))"
proof (induction ts)
  case Nil
  show ?case by simp
next
  case (Cons t ts)
  then obtain os where os: "offer_all st db req actor ts = Inr os"
    "\<And>off. off \<in> set os \<longleftrightarrow> (\<exists>t \<in> set ts. offers_edge db req actor t off)" by blast
  obtain r where r: "offerFor st db req actor t = Inr r" "\<And>off. r = Some off \<longleftrightarrow> offers_edge db req actor t off"
    using offerFor_up [OF ok] by blast
  show ?case
  proof (cases r)
    case None
    with r os show ?thesis by auto
  next
    case (Some x)
    have "offers_edge db req actor t off \<longleftrightarrow> off = x" for off using r(2) [of off] Some by auto
    with r(1) os Some show ?thesis by auto
  qed
qed

lemma offered:
  assumes ok: "ok db" and w: "gq_WorkflowID req \<noteq> uuid_nil"
  shows "\<exists>og. OfferedTransitions st db req = Inr og \<and> \<not> og_NoWorkflow og \<and>
    (\<forall>off. off \<in> set (og_Transitions og) \<longleftrightarrow>
      (\<exists>fr t. ResolveFromState st db (gq_WorkflowID req) (gq_CurrentStatus req) (gq_CurrentStateID req) = Inr (Some fr) \<and>
         edge db (gq_WorkflowID req) t \<and> wt_FromStateID t = ws_ID fr \<and>
         offers_edge db req (actor_of db req) t off))"
proof -
  obtain r where r: "ResolveFromState st db (gq_WorkflowID req) (gq_CurrentStatus req) (gq_CurrentStateID req) = Inr r"
    using resolve_total [OF ok] by blast
  show ?thesis
  proof (cases r)
    case None
    with r w show ?thesis by (simp add: OfferedTransitions_def)
  next
    case (Some fr)
    obtain es where es: "ts_TransitionsFrom st db (gq_WorkflowID req) (ws_ID fr) = Inr es"
      "\<And>t. t \<in> set es \<longleftrightarrow> edge db (gq_WorkflowID req) t \<and> wt_FromStateID t = ws_ID fr"
      using edges_from [OF ok, of "gq_WorkflowID req" "ws_ID fr"] by auto
    obtain os where os: "offer_all st db req (actor_of db req) es = Inr os"
      "\<And>off. off \<in> set os \<longleftrightarrow> (\<exists>t \<in> set es. offers_edge db req (actor_of db req) t off)"
      using offer_all_up [OF ok] by blast
    have a: "resolveActor st db (gq_OrgID req) (gq_ActorID req) (gq_ActorCapabilities req) = Inr (actor_of db req)"
      by (simp add: resolveActor_up [OF ok] actor_of_def)
    show ?thesis
    proof (cases "es = []")
      case True
      with es(2) r Some w es(1) show ?thesis by (auto simp: OfferedTransitions_def Let_def)
    next
      case False
      have "OfferedTransitions st db req = Inr \<lparr>og_NoWorkflow = False, og_CurrentStatus = ws_Name fr,
          og_EntityStatus = gq_CurrentStatus req, og_Transitions = os\<rparr>"
        using False r Some w es(1) os(1) a by (simp add: OfferedTransitions_def Let_def)
      with os(2) es(2) r Some show ?thesis by auto
    qed
  qed
qed

lemma gate_from:
  assumes ok: "ok db" and w: "gq_WorkflowID req \<noteq> uuid_nil" and g: "Gate st i now req db = Inr (d, db')"
    and f: "ResolveFromState st db (gq_WorkflowID req) (gq_CurrentStatus req) (gq_CurrentStateID req) = Inr (Some fr)"
  shows "td_FromStateID d = Some (ws_ID fr)"
  using ok w g by (cases rule: gate_cases) (auto dest: resolveMove_from [OF _ f])

lemma gate_offered:
  assumes ok: "ok db" and w: "gq_WorkflowID req \<noteq> uuid_nil" and g: "Gate st i now req db = Inr (d, db')"
    and og: "OfferedTransitions st db req = Inr og"
  shows "(\<exists>off \<in> set (og_Transitions og).
        of_ToStatus off = gq_TargetStatus req \<and> Some (of_ToStateID off) \<noteq> td_FromStateID d) \<longleftrightarrow>
    \<not> td_NoOp d \<and> (\<forall>r. td_Refused d = Some r \<longrightarrow> rf_Class r = GuardValidatorClass)"
    (is "?l \<longleftrightarrow> ?r")
proof
  assume ?l
  then obtain off where o: "off \<in> set (og_Transitions og)" "of_ToStatus off = gq_TargetStatus req"
    "Some (of_ToStateID off) \<noteq> td_FromStateID d" by blast
  with offered [OF ok w] og obtain fr t where
    f: "ResolveFromState st db (gq_WorkflowID req) (gq_CurrentStatus req) (gq_CurrentStateID req) = Inr (Some fr)"
    and e: "edge db (gq_WorkflowID req) t" "wt_FromStateID t = ws_ID fr"
    and oe: "offers_edge db req (actor_of db req) t off" by auto
  from oe obtain to where c: "Evaluate (guards db (wt_ID t)) GuardConditionClass (actor_of db req) (gq_Entity req) = None"
    and t: "state db (gq_WorkflowID req) to" "ws_ID to = wt_ToStateID t" "of_ToStateID off = ws_ID to"
      "of_ToStatus off = ws_Name to"
    by (auto simp: offers_edge_def)
  have "ws_ID to \<noteq> ws_ID fr" using gate_from [OF ok w g f] o(3) t(3) by auto
  then have m: "resolveMove st db req = Inr
      (zero_decision\<lparr>td_FromStateID := Some (ws_ID fr), td_FromStatus := ws_Name fr,
         td_ToStateID := Some (ws_ID to), td_TransitionID := Some (wt_ID t)\<rparr>, Some t)"
    using resolveMove_along [OF ok f t(1)] t(2,4) o(2) e by simp
  show ?r using ok w g
  proof (cases rule: gate_cases)
    case (refused d0 t' r)
    with m c evaluate_classes_Some [OF refused(3)] show ?thesis by (auto simp: zero_decision_def)
  qed (use m in \<open>auto simp: zero_decision_def\<close>)
next
  assume r: ?r
  have "\<exists>d0 t. resolveMove st db req = Inr (d0, Some t) \<and>
      Evaluate (guards db (wt_ID t)) GuardConditionClass (actor_of db req) (gq_Entity req) = None"
    using ok w g
  proof (cases rule: gate_cases)
    case stop
    with r resolveMove_stop [OF stop(1)] show ?thesis by auto
  next
    case (refused d0 t rr)
    with r evaluate_classes_Some [OF refused(3)] show ?thesis by auto
  next
    case (clear d0 t es)
    then show ?thesis by (auto simp: evaluate_classes_def split: option.splits)
  next
    case (held d0 t p n)
    then show ?thesis by (auto simp: evaluate_classes_def split: option.splits)
  qed
  then obtain d0 t where m: "resolveMove st db req = Inr (d0, Some t)"
    and c: "Evaluate (guards db (wt_ID t)) GuardConditionClass (actor_of db req) (gq_Entity req) = None" by blast
  from resolveMove_edge [OF ok m] obtain fr to where
    f: "ResolveFromState st db (gq_WorkflowID req) (gq_CurrentStatus req) (gq_CurrentStateID req) = Inr (Some fr)"
    and t: "state db (gq_WorkflowID req) to" "ws_Name to = gq_TargetStatus req" "ws_ID to \<noteq> ws_ID fr"
    and e: "edge db (gq_WorkflowID req) t" "wt_FromStateID t = ws_ID fr" "wt_ToStateID t = ws_ID to" by blast
  let ?o = "\<lparr>of_TransitionID = wt_ID t, of_Name = wt_Name t, of_ToStateID = ws_ID to,
               of_ToStatus = ws_Name to, of_RequiresApproval = (approvers db (wt_ID t) \<noteq> [])\<rparr>"
  have "offers_edge db req (actor_of db req) t ?o" using c t(1) e(3) by (auto simp: offers_edge_def)
  with offered [OF ok w] og f e have "?o \<in> set (og_Transitions og)" by auto
  moreover have "td_FromStateID d = Some (ws_ID fr)" by (rule gate_from [OF ok w g f])
  ultimately show ?l using t by (intro bexI [of _ ?o]) auto
qed

text \<open>Who is told about a request: the named users, and the live members of the named teams.\<close>

lemma collect_up:
  assumes ok: "ok db"
  shows "\<exists>us. collect_recipients st db org aps out = Inr us \<and> (distinct out \<longrightarrow> distinct us) \<and>
    (\<forall>u. u \<in> set us \<longleftrightarrow> u \<in> set out \<or>
       (\<exists>ap \<in> set aps. ap_SubjectType ap = ApproverUser \<and> ap_SubjectID ap = u \<or>
          ap_SubjectType ap = ApproverTeam \<and> account db u \<and> ap_SubjectID ap \<in> set (teams_of db org u)))"
proof (induction aps arbitrary: out)
  case Nil
  show ?case by simp
next
  case (Cons ap aps)
  show ?case
  proof (cases "ap_SubjectType ap = ApproverUser")
    case True
    with Cons.IH [of "add_recipient (ap_SubjectID ap) out"] show ?thesis
      by (auto simp: distinct_add_recipient)
  next
    case nu: False
    show ?thesis
    proof (cases "ap_SubjectType ap = ApproverTeam")
      case True
      obtain ms where ms: "ts_EffectiveTeamMemberIDs st db org (ap_SubjectID ap) = Inr ms"
        "\<And>u. u \<in> set ms \<longleftrightarrow> account db u \<and> ap_SubjectID ap \<in> set (teams_of db org u)"
        using members_up [OF ok] by blast
      from Cons.IH [of "fold add_recipient ms out"] True ms show ?thesis
        by (auto simp: set_fold_add distinct_fold_add)
    next
      case False
      with nu Cons.IH [of out] show ?thesis by auto
    qed
  qed
qed

text \<open>A live account is told exactly when it may decide.\<close>

lemma recipients_decide:
  assumes ok: "ok db"
  shows "\<exists>us. ApproverRecipients st db org i = Inr us \<and> distinct us \<and>
    (\<forall>u. account db u \<longrightarrow> (u \<in> set us \<longleftrightarrow>
       CanDecide (approvers db i) \<lparr>ac_UserID = u, ac_TeamIDs = teams_of db org u, ac_Capabilities = caps\<rparr>))"
  using collect_up [OF ok, of org "approvers db i" "[]"]
  by (auto simp: ApproverRecipients_def approvers_of [OF ok] CanDecide_iff)

definition decidable :: "'db \<Rightarrow> Actor \<Rightarrow> Approval \<Rightarrow> Approval" where
  "decidable db actor a =
     (case al_TransitionID a of None \<Rightarrow> a | Some i \<Rightarrow> a\<lparr>al_CanDecide := CanDecide (approvers db i) actor\<rparr>)"

lemma mark_up:
  assumes ok: "ok db" and "\<forall>(i, b) \<in> set cache. b = CanDecide (approvers db i) actor"
  shows "mark_decidable st db actor cache as = Inr (map (decidable db actor) as)"
  using assms(2)
proof (induction as arbitrary: cache)
  case Nil
  show ?case by simp
next
  case (Cons a as)
  show ?case
  proof (cases "al_TransitionID a")
    case None
    with Cons show ?thesis by (simp add: decidable_def)
  next
    case (Some i)
    show ?thesis
    proof (cases "map_of cache i")
      case None
      with Some Cons show ?thesis
        by (simp add: approvers_of [OF ok] Let_def decidable_def)
    next
      case b: (Some b)
      then have "b = CanDecide (approvers db i) actor" using Cons.prems by (auto dest: map_of_SomeD)
      with Some b Cons show ?thesis by (simp add: decidable_def)
    qed
  qed
qed

text \<open>The button agrees with the check behind it.\<close>

lemma marked_decides:
  assumes ok: "ok db"
  shows "\<exists>bs. MarkDecidable st db org u as = Inr bs \<and> length bs = length as \<and>
    (\<forall>k < length as. \<forall>i. al_TransitionID (as ! k) = Some i \<longrightarrow> bs ! k = (as ! k)\<lparr>al_CanDecide :=
       (checkDecideAuthority st db
         \<lparr>dr_OrgID = org, dr_SpaceID = sp, dr_ApprovalID = al_ID (as ! k), dr_ActorID = u, dr_Decision = dc, dr_Reason = rs\<rparr>
         i = Inr ())\<rparr>)"
proof -
  let ?actor = "\<lparr>ac_UserID = u, ac_TeamIDs = teams_of db org u, ac_Capabilities = []\<rparr>"
  have "MarkDecidable st db org u as = Inr (map (decidable db ?actor) as)"
    by (simp add: MarkDecidable_def resolveActor_up [OF ok] mark_up [OF ok])
  moreover have "checkDecideAuthority st db
         \<lparr>dr_OrgID = org, dr_SpaceID = sp, dr_ApprovalID = al_ID a, dr_ActorID = u, dr_Decision = dc, dr_Reason = rs\<rparr>
         i = Inr () \<longleftrightarrow> CanDecide (approvers db i) ?actor" for a :: Approval and i
    by (simp add: checkDecideAuthority_def approvers_of [OF ok] resolveActor_up [OF ok])
  ultimately show ?thesis by (simp add: decidable_def)
qed

end

end
