(* ===== verification/WorkflowStore.thy ===== *)
theory WorkflowStore
  imports WorkDb WorkflowGate
begin

text \<open>
  \<^verbatim>\<open>internal/db/adapters/workflow_tiers.go\<close>: the tier store over the tables of
  \<^verbatim>\<open>WorkDb.thy\<close>, and the interpretation of its contract, which carries the
  chokepoint's promises over to the database.
\<close>

section \<open>Writing tier configuration\<close>

text \<open>The CHECK constraints of the two other tier tables.\<close>

definition post_function_row_check :: "PostFunction \<Rightarrow> bool" where
  "post_function_row_check p \<longleftrightarrow>
     pf_Kind p \<in> {''assign_to'', ''set_field''} \<and>
     (case pf_FieldKey p of None \<Rightarrow> True | Some f \<Rightarrow> f \<in> {''due_at'', ''tags''}) \<and>
     ((pf_Kind p = ''assign_to'' \<and> pf_FieldKey p = None \<and> pf_FieldValue p = None) \<or>
      (pf_Kind p = ''set_field'' \<and> pf_FieldKey p \<noteq> None \<and> pf_AssigneeUserID p = None))"

definition team_exists :: "'x org_db_scheme \<Rightarrow> uuid \<Rightarrow> bool" where
  "team_exists db i \<longleftrightarrow> list_ex (\<lambda>t. t_id t = i) (teams db)"

definition q_CreateTransitionGuard :: "Guard \<Rightarrow> ('x work_db_scheme, sql_error, Guard) stmt" where
  "q_CreateTransitionGuard g db =
     (if \<not> db_up db then Inl SqlDown
      else if \<not> guard_row_check g then Inl (SqlCheck ''workflow_transition_guards_shape_valid'')
      else if list_ex (\<lambda>x. gd_ID x = gd_ID g) (transition_guards db)
        then Inl (SqlUnique ''workflow_transition_guards_pkey'')
      else if \<not> (transition_exists db (gd_TransitionID g) \<and> opt_exists (team_exists db) (gd_TeamID g))
        then Inl SqlForeignKey
      else Inr (g, db\<lparr>transition_guards := transition_guards db @ [g]\<rparr>))"

definition q_CreateTransitionPostFunction :: "PostFunction \<Rightarrow> ('x work_db_scheme, sql_error, PostFunction) stmt" where
  "q_CreateTransitionPostFunction p db =
     (if \<not> db_up db then Inl SqlDown
      else if \<not> post_function_row_check p then Inl (SqlCheck ''workflow_transition_post_functions_shape_valid'')
      else if list_ex (\<lambda>x. pf_ID x = pf_ID p) (transition_post_functions db)
        then Inl (SqlUnique ''workflow_transition_post_functions_pkey'')
      else if \<not> (transition_exists db (pf_TransitionID p) \<and> opt_exists (user_exists db) (pf_AssigneeUserID p))
        then Inl SqlForeignKey
      else Inr (p, db\<lparr>transition_post_functions := transition_post_functions db @ [p]\<rparr>))"

definition approver_key :: "Approver \<Rightarrow> uuid \<times> string \<times> uuid" where
  "approver_key a = (ap_TransitionID a, ap_SubjectType a, ap_SubjectID a)"

definition q_CreateTransitionApprover :: "Approver \<Rightarrow> ('x work_db_scheme, sql_error, Approver) stmt" where
  "q_CreateTransitionApprover a db =
     (if \<not> db_up db then Inl SqlDown
      else if ap_SubjectType a \<notin> {''user'', ''team''}
        then Inl (SqlCheck ''workflow_transition_approvers_subject_valid'')
      else if list_ex (\<lambda>x. ap_ID x = ap_ID a) (transition_approvers db)
        then Inl (SqlUnique ''workflow_transition_approvers_pkey'')
      else if list_ex (\<lambda>x. approver_key x = approver_key a) (transition_approvers db)
        then Inl (SqlUnique ''workflow_transition_approvers_transition_id_subject_type_subj_key'')
      else if \<not> transition_exists db (ap_TransitionID a) then Inl SqlForeignKey
      else Inr (a, db\<lparr>transition_approvers := transition_approvers db @ [a]\<rparr>))"

text \<open>The three deletes are scoped to the transition; the result is the number of rows.\<close>

definition delete_where :: "('a \<Rightarrow> bool) \<Rightarrow> 'a list \<Rightarrow> nat \<times> 'a list" where
  "delete_where P xs = (length (filter P xs), filter (\<lambda>x. \<not> P x) xs)"

definition q_DeleteTransitionGuard :: "uuid \<Rightarrow> uuid \<Rightarrow> ('x work_db_scheme, sql_error, nat) stmt" where
  "q_DeleteTransitionGuard i t db =
     (if \<not> db_up db then Inl SqlDown
      else let (n, rows) = delete_where (\<lambda>g. gd_ID g = i \<and> gd_TransitionID g = t) (transition_guards db)
           in Inr (n, db\<lparr>transition_guards := rows\<rparr>))"

definition q_DeleteTransitionPostFunction :: "uuid \<Rightarrow> uuid \<Rightarrow> ('x work_db_scheme, sql_error, nat) stmt" where
  "q_DeleteTransitionPostFunction i t db =
     (if \<not> db_up db then Inl SqlDown
      else let (n, rows) = delete_where (\<lambda>p. pf_ID p = i \<and> pf_TransitionID p = t) (transition_post_functions db)
           in Inr (n, db\<lparr>transition_post_functions := rows\<rparr>))"

definition q_DeleteTransitionApprover :: "uuid \<Rightarrow> uuid \<Rightarrow> ('x work_db_scheme, sql_error, nat) stmt" where
  "q_DeleteTransitionApprover i t db =
     (if \<not> db_up db then Inl SqlDown
      else let (n, rows) = delete_where (\<lambda>a. ap_ID a = i \<and> ap_TransitionID a = t) (transition_approvers db)
           in Inr (n, db\<lparr>transition_approvers := rows\<rparr>))"

definition pg_CreateGuard :: "uuid \<Rightarrow> Guard \<Rightarrow> ('x work_db_scheme, tier_error, Guard) stmt" where
  "pg_CreateGuard newID g db =
     (case q_CreateTransitionGuard (g\<lparr>gd_ID := newID\<rparr>) db of
        Inl e \<Rightarrow> if e = SqlForeignKey then Inl ErrNotFound else Inl (ErrTierDatabase ''create guard'')
      | Inr r \<Rightarrow> Inr r)"

definition pg_DeleteGuard :: "uuid \<Rightarrow> uuid \<Rightarrow> ('x work_db_scheme, tier_error, unit) stmt" where
  "pg_DeleteGuard transitionID i db =
     (case q_DeleteTransitionGuard i transitionID db of
        Inl e \<Rightarrow> Inl (ErrTierDatabase ''delete guard'')
      | Inr (n, db') \<Rightarrow> if n = 0 then Inl ErrNotFound else Inr ((), db'))"

definition pg_CreatePostFunction :: "uuid \<Rightarrow> PostFunction \<Rightarrow> ('x work_db_scheme, tier_error, PostFunction) stmt" where
  "pg_CreatePostFunction newID p db =
     (case q_CreateTransitionPostFunction (p\<lparr>pf_ID := newID\<rparr>) db of
        Inl e \<Rightarrow> if e = SqlForeignKey then Inl ErrNotFound else Inl (ErrTierDatabase ''create post-function'')
      | Inr r \<Rightarrow> Inr r)"

definition pg_DeletePostFunction :: "uuid \<Rightarrow> uuid \<Rightarrow> ('x work_db_scheme, tier_error, unit) stmt" where
  "pg_DeletePostFunction transitionID i db =
     (case q_DeleteTransitionPostFunction i transitionID db of
        Inl e \<Rightarrow> Inl (ErrTierDatabase ''delete post-function'')
      | Inr (n, db') \<Rightarrow> if n = 0 then Inl ErrNotFound else Inr ((), db'))"

definition pg_CreateApprover :: "uuid \<Rightarrow> Approver \<Rightarrow> ('x work_db_scheme, tier_error, Approver) stmt" where
  "pg_CreateApprover newID a db =
     (case q_CreateTransitionApprover
         \<lparr>ap_ID = newID, ap_TransitionID = ap_TransitionID a, ap_SubjectType = ap_SubjectType a,
          ap_SubjectID = ap_SubjectID a, ap_SubjectName = '''', ap_SubjectMissing = False\<rparr> db of
        Inl e \<Rightarrow> if uniqueViolation e \<noteq> None then Inl ErrApproverExists
                 else if e = SqlForeignKey then Inl ErrNotFound
                 else Inl (ErrTierDatabase ''create approver'')
      | Inr r \<Rightarrow> Inr r)"

definition pg_DeleteApprover :: "uuid \<Rightarrow> uuid \<Rightarrow> ('x work_db_scheme, tier_error, unit) stmt" where
  "pg_DeleteApprover transitionID i db =
     (case q_DeleteTransitionApprover i transitionID db of
        Inl e \<Rightarrow> Inl (ErrTierDatabase ''delete approver'')
      | Inr (n, db') \<Rightarrow> if n = 0 then Inl ErrNotFound else Inr ((), db'))"

section \<open>Reads\<close>

definition tier_query :: "'x work_db_scheme \<Rightarrow> string \<Rightarrow> 'a \<Rightarrow> tier_error + 'a" where
  "tier_query db what x = (if db_up db then Inr x else Inl (ErrTierDatabase what))"

definition tier_row :: "'x work_db_scheme \<Rightarrow> string \<Rightarrow> 'a option \<Rightarrow> tier_error + 'a" where
  \<comment> \<open>a \<open>:one\<close> query: no row is \<open>pgx.ErrNoRows\<close>, mapped to \<open>ErrNotFound\<close>\<close>
  "tier_row db what r =
     rbind (tier_query db what r) (\<lambda>r. case r of None \<Rightarrow> Inl ErrNotFound | Some x \<Rightarrow> Inr x)"

definition pg_GuardsForTransition :: "'x work_db_scheme \<Rightarrow> uuid \<Rightarrow> tier_error + Guard list" where
  "pg_GuardsForTransition db i = tier_query db ''list transition guards'' (q_ListTransitionGuards db i)"

definition pg_PostFunctionsForTransition :: "'x work_db_scheme \<Rightarrow> uuid \<Rightarrow> tier_error + PostFunction list" where
  "pg_PostFunctionsForTransition db i =
     tier_query db ''list transition post-functions'' (q_ListTransitionPostFunctions db i)"

definition pg_ApproversForTransition :: "'x work_db_scheme \<Rightarrow> uuid \<Rightarrow> tier_error + Approver list" where
  "pg_ApproversForTransition db i =
     tier_query db ''list transition approvers'' (q_ListTransitionApprovers db i)"

definition pg_CreateApproval :: "uuid \<Rightarrow> instant \<Rightarrow> Approval \<Rightarrow> ('x work_db_scheme, tier_error, Approval) stmt" where
  "pg_CreateApproval newID now a db =
     (case q_CreateApproval
         \<lparr>al_ID = newID, al_TransitionID = al_TransitionID a, al_EntityType = al_EntityType a,
          al_EntityID = al_EntityID a, al_SpaceID = al_SpaceID a, al_FromStateID = al_FromStateID a,
          al_ToStateID = al_ToStateID a, al_FromStatus = al_FromStatus a, al_ToStatus = al_ToStatus a,
          al_RequestedBy = al_RequestedBy a, al_RequestedAt = now, al_DecidedBy = None,
          al_DecidedAt = None, al_Decision = None, al_Reason = None, al_RequestedByName = '''',
          al_DecidedByName = '''', al_CanDecide = False\<rparr> db of
        Inl e \<Rightarrow> if uniqueViolation e \<noteq> None then Inl ErrApprovalPending
                 else Inl (ErrTierDatabase ''create approval'')
      | Inr r \<Rightarrow> Inr r)"

definition pg_PendingApprovalForEntity :: "'x work_db_scheme \<Rightarrow> string \<Rightarrow> uuid \<Rightarrow> tier_error + Approval" where
  "pg_PendingApprovalForEntity db ty e =
     tier_row db ''get pending approval'' (q_GetPendingApprovalForEntity db ty e)"

definition pg_GetApprovalInSpace :: "'x work_db_scheme \<Rightarrow> uuid \<Rightarrow> uuid \<Rightarrow> tier_error + Approval" where
  "pg_GetApprovalInSpace db sp i = tier_row db ''get approval'' (q_GetApprovalInSpace db i sp)"

definition pg_DecideApproval ::
    "instant \<Rightarrow> uuid \<Rightarrow> uuid \<Rightarrow> uuid \<Rightarrow> string \<Rightarrow> string option \<Rightarrow> ('x work_db_scheme, tier_error, Approval) stmt" where
  "pg_DecideApproval now sp i u d reason db =
     (case q_DecideApproval now i sp u d reason db of
        Inr r \<Rightarrow> Inr r
      | Inl e \<Rightarrow>
          if e = SqlNoRows then
            (case pg_GetApprovalInSpace db sp i of
               Inl g \<Rightarrow> if g = ErrNotFound then Inl ErrNotFound else Inl (ErrTierDatabase ''decide approval'')
             | Inr _ \<Rightarrow> Inl ErrApprovalAlreadyDecided)
          else Inl (ErrTierDatabase ''decide approval''))"

definition pg_ApprovalsForEntity :: "'x work_db_scheme \<Rightarrow> uuid \<Rightarrow> string \<Rightarrow> uuid \<Rightarrow> tier_error + Approval list" where
  "pg_ApprovalsForEntity db sp ty e =
     tier_query db ''list approvals for entity'' (q_ListApprovalsForEntity db ty e sp)"

definition pg_PendingApprovalsForSpace :: "'x work_db_scheme \<Rightarrow> uuid \<Rightarrow> tier_error + Approval list" where
  "pg_PendingApprovalsForSpace db sp =
     tier_query db ''list pending approvals'' (q_ListPendingApprovalsForSpace db sp)"

definition pg_PendingApprovalCountForTransition :: "'x work_db_scheme \<Rightarrow> uuid \<Rightarrow> tier_error + nat" where
  "pg_PendingApprovalCountForTransition db i =
     tier_query db ''count pending approvals'' (q_CountPendingApprovalsForTransition db i)"

definition pg_StateByName :: "'x work_db_scheme \<Rightarrow> uuid \<Rightarrow> string \<Rightarrow> tier_error + State" where
  "pg_StateByName db w n = tier_row db ''state by name'' (q_GetWorkflowStateByName db w n)"

definition pg_StateByID :: "'x work_db_scheme \<Rightarrow> uuid \<Rightarrow> uuid \<Rightarrow> tier_error + State" where
  "pg_StateByID db w i =
     rbind (tier_row db ''state by id'' (q_GetWorkflowState db i)) (\<lambda>row.
       if ws_WorkflowID row \<noteq> w then Inl ErrNotFound else Inr row)"

definition pg_InitialState :: "'x work_db_scheme \<Rightarrow> uuid \<Rightarrow> tier_error + State" where
  "pg_InitialState db w = tier_row db ''initial state'' (q_GetInitialWorkflowState db w)"

definition pg_TransitionsFrom :: "'x work_db_scheme \<Rightarrow> uuid \<Rightarrow> uuid \<Rightarrow> tier_error + Transition list" where
  "pg_TransitionsFrom db w a = tier_query db ''transitions from'' (q_ListAvailableTransitions db w a)"

definition pg_TransitionBetween :: "'x work_db_scheme \<Rightarrow> uuid \<Rightarrow> uuid \<Rightarrow> uuid \<Rightarrow> tier_error + Transition" where
  "pg_TransitionBetween db w a b = tier_row db ''transition between'' (q_GetTransitionByStates db w a b)"

definition pg_EffectiveTeamIDs :: "'x work_db_scheme \<Rightarrow> uuid \<Rightarrow> uuid \<Rightarrow> tier_error + uuid list" where
  "pg_EffectiveTeamIDs db org u = tier_query db ''effective team ids'' (effective_team_ids db org u)"

definition pg_EffectiveTeamMemberIDs :: "'x work_db_scheme \<Rightarrow> uuid \<Rightarrow> uuid \<Rightarrow> tier_error + uuid list" where
  "pg_EffectiveTeamMemberIDs db org t =
     tier_query db ''effective team member ids'' (q_ListEffectiveTeamMemberIDs db org t)"

definition pg_WorkflowIDForSpace :: "'x work_db_scheme \<Rightarrow> uuid \<Rightarrow> tier_error + uuid" where
  "pg_WorkflowIDForSpace db sp =
     rbind (tier_row db ''workflow for space'' (q_GetSpaceWorkflow db sp)) (\<lambda>row. Inr (wf_id row))"

definition pg_tier_store :: "'x work_db_scheme TierStore" where
  "pg_tier_store =
     \<lparr>ts_GuardsForTransition = pg_GuardsForTransition,
      ts_PostFunctionsForTransition = pg_PostFunctionsForTransition,
      ts_ApproversForTransition = pg_ApproversForTransition, ts_CreateApproval = pg_CreateApproval,
      ts_PendingApprovalForEntity = pg_PendingApprovalForEntity,
      ts_GetApprovalInSpace = pg_GetApprovalInSpace, ts_StateByName = pg_StateByName,
      ts_StateByID = pg_StateByID, ts_InitialState = pg_InitialState,
      ts_TransitionBetween = pg_TransitionBetween, ts_TransitionsFrom = pg_TransitionsFrom,
      ts_EffectiveTeamIDs = pg_EffectiveTeamIDs, ts_EffectiveTeamMemberIDs = pg_EffectiveTeamMemberIDs\<rparr>"

lemma pg_tier_store_simps [simp]:
  "ts_GuardsForTransition pg_tier_store = pg_GuardsForTransition"
  "ts_PostFunctionsForTransition pg_tier_store = pg_PostFunctionsForTransition"
  "ts_ApproversForTransition pg_tier_store = pg_ApproversForTransition"
  "ts_CreateApproval pg_tier_store = pg_CreateApproval"
  "ts_PendingApprovalForEntity pg_tier_store = pg_PendingApprovalForEntity"
  "ts_GetApprovalInSpace pg_tier_store = pg_GetApprovalInSpace"
  "ts_StateByName pg_tier_store = pg_StateByName"
  "ts_StateByID pg_tier_store = pg_StateByID"
  "ts_InitialState pg_tier_store = pg_InitialState"
  "ts_TransitionBetween pg_tier_store = pg_TransitionBetween"
  "ts_TransitionsFrom pg_tier_store = pg_TransitionsFrom"
  "ts_EffectiveTeamIDs pg_tier_store = pg_EffectiveTeamIDs"
  "ts_EffectiveTeamMemberIDs pg_tier_store = pg_EffectiveTeamMemberIDs"
  by (simp_all add: pg_tier_store_def)

lemma tier_query_up: "db_up db \<Longrightarrow> tier_query db w x = Inr x"
  by (simp add: tier_query_def)

lemma tier_row_up:
  "db_up db \<Longrightarrow> tier_row db w r = Inr x \<longleftrightarrow> r = Some x"
  "db_up db \<Longrightarrow> tier_row db w r = Inl e \<longleftrightarrow> r = None \<and> e = ErrNotFound"
  by (auto simp: tier_row_def tier_query_def split: option.splits)

section \<open>What the schema guarantees\<close>

text \<open>The unique constraints of migrations 016 and 047 and the ones they reference.\<close>

definition graph_wf :: "'x work_db_scheme \<Rightarrow> bool" where
  "graph_wf db \<longleftrightarrow>
     distinct (map ws_ID (workflow_states db)) \<and>
     distinct (map (\<lambda>s. (ws_WorkflowID s, ws_Name s)) (workflow_states db)) \<and>
     distinct (map wt_ID (workflow_transitions db)) \<and>
     distinct (map (\<lambda>t. (wt_WorkflowID t, wt_FromStateID t, wt_ToStateID t)) (workflow_transitions db))"

definition approvals_wf :: "'x work_db_scheme \<Rightarrow> bool" where
  "approvals_wf db \<longleftrightarrow>
     distinct (map al_ID (workflow_approvals db)) \<and>
     distinct (map (\<lambda>a. (al_EntityType a, al_EntityID a)) (filter IsPending (workflow_approvals db))) \<and>
     (\<forall>a \<in> set (workflow_approvals db).
        (al_DecidedAt a = None) = (al_Decision a = None) \<and> (al_DecidedAt a = None) = (al_DecidedBy a = None) \<and>
        (al_Reason a = None \<or> al_Decision a \<noteq> None) \<and> al_EntityType a \<in> {''ticket'', ''item''})"

definition tier_ok :: "'x work_db_scheme \<Rightarrow> bool" where
  "tier_ok db \<longleftrightarrow> db_up db \<and> graph_wf db \<and> approvals_wf db"

lemma tier_okD: "tier_ok db \<Longrightarrow> db_up db" "tier_ok db \<Longrightarrow> graph_wf db" "tier_ok db \<Longrightarrow> approvals_wf db"
  by (simp_all add: tier_ok_def)

text \<open>A lookup by a unique key finds exactly the row that carries it.\<close>

lemma find_key:
  assumes "distinct (map f xs)"
  shows "List.find (\<lambda>x. f x = k) xs = Some x \<longleftrightarrow> x \<in> set xs \<and> f x = k"
proof
  assume "List.find (\<lambda>x. f x = k) xs = Some x"
  then show "x \<in> set xs \<and> f x = k" by (auto dest: find_Some_in)
next
  assume x: "x \<in> set xs \<and> f x = k"
  show "List.find (\<lambda>x. f x = k) xs = Some x"
    by (rule find_the_unique) (use x distinct_key [OF assms] in auto)
qed

lemma q_GetWorkflowStateByName_Some:
  "graph_wf db \<Longrightarrow> q_GetWorkflowStateByName db w n = Some s \<longleftrightarrow>
     s \<in> set (workflow_states db) \<and> ws_WorkflowID s = w \<and> ws_Name s = n"
  using find_key [of "\<lambda>s. (ws_WorkflowID s, ws_Name s)" "workflow_states db" "(w, n)" s]
  by (auto simp: q_GetWorkflowStateByName_def graph_wf_def)

lemma q_GetWorkflowState_Some:
  "graph_wf db \<Longrightarrow> q_GetWorkflowState db i = Some s \<longleftrightarrow> s \<in> set (workflow_states db) \<and> ws_ID s = i"
  using find_key [of ws_ID "workflow_states db" i s] by (auto simp: q_GetWorkflowState_def graph_wf_def)

lemma q_GetTransitionByStates_Some:
  "graph_wf db \<Longrightarrow> q_GetTransitionByStates db w a b = Some t \<longleftrightarrow>
     t \<in> set (workflow_transitions db) \<and> wt_WorkflowID t = w \<and> wt_FromStateID t = a \<and> wt_ToStateID t = b"
  using find_key [of "\<lambda>t. (wt_WorkflowID t, wt_FromStateID t, wt_ToStateID t)" "workflow_transitions db" "(w, a, b)" t]
  by (auto simp: q_GetTransitionByStates_def graph_wf_def)

text \<open>The inverse team read agrees with the one authorisation uses, over the accounts that exist.\<close>

definition account_live :: "'x org_db_scheme \<Rightarrow> uuid \<Rightarrow> bool" where
  "account_live db u \<longleftrightarrow> list_ex (\<lambda>x. u_id x = u \<and> \<not> u_deleted x) (users db)"

lemma effective_needs_row:
  "i \<in> set (effective_team_ids db org u) \<Longrightarrow> \<exists>tm \<in> set (team_members db). tm_user tm = u \<and> tm_org tm = org"
  by (auto simp: effective_team_ids_iff direct_teams_iff)

lemma q_ListEffectiveTeamMemberIDs_iff:
  "u \<in> set (q_ListEffectiveTeamMemberIDs db org i) \<longleftrightarrow>
     account_live db u \<and> i \<in> set (effective_team_ids db org u)"
  by (auto simp: q_ListEffectiveTeamMemberIDs_def account_live_def dest: effective_needs_row)

lemma pg_CreateApproval_Inr:
  "pg_CreateApproval newID now a db = Inr (c, db') \<Longrightarrow>
     db_up db \<and> \<not> list_ex (pending_for (al_EntityType a) (al_EntityID a)) (workflow_approvals db) \<and>
     newID \<notin> al_ID ` set (workflow_approvals db) \<and> al_EntityType a \<in> {''ticket'', ''item''} \<and>
     c = \<lparr>al_ID = newID, al_TransitionID = al_TransitionID a, al_EntityType = al_EntityType a,
          al_EntityID = al_EntityID a, al_SpaceID = al_SpaceID a, al_FromStateID = al_FromStateID a,
          al_ToStateID = al_ToStateID a, al_FromStatus = al_FromStatus a, al_ToStatus = al_ToStatus a,
          al_RequestedBy = al_RequestedBy a, al_RequestedAt = now, al_DecidedBy = None,
          al_DecidedAt = None, al_Decision = None, al_Reason = None, al_RequestedByName = '''',
          al_DecidedByName = '''', al_CanDecide = False\<rparr> \<and>
     db' = db\<lparr>workflow_approvals := workflow_approvals db @ [c]\<rparr>"
  by (simp add: pg_CreateApproval_def q_CreateApproval_def list_ex_image split: sum.splits if_splits) blast

lemma no_pending: "\<not> list_ex P xs \<Longrightarrow> List.find P xs = None"
  by (auto simp: find_None_iff list_ex_iff)

interpretation pg: tier_store pg_tier_store tier_ok
  "\<lambda>db w s. s \<in> set (workflow_states db) \<and> ws_WorkflowID s = w"
  "\<lambda>db w t. t \<in> set (workflow_transitions db) \<and> wt_WorkflowID t = w"
  q_ListTransitionGuards q_ListTransitionPostFunctions q_ListTransitionApprovers effective_team_ids
  account_live q_GetPendingApprovalForEntity
proof
  fix db :: "'x work_db_scheme"
  assume ok: "tier_ok db"
  note up = tier_okD(1) [OF ok] and wf = tier_okD(2) [OF ok]
  show "ts_StateByName pg_tier_store db w n = Inr s \<longleftrightarrow>
      (s \<in> set (workflow_states db) \<and> ws_WorkflowID s = w) \<and> ws_Name s = n" for w n s
    by (simp add: pg_StateByName_def tier_row_up [OF up] q_GetWorkflowStateByName_Some [OF wf])
  show "ts_StateByName pg_tier_store db w n = Inl e \<Longrightarrow> e = ErrNotFound" for w n e
    by (simp add: pg_StateByName_def tier_row_up [OF up])
  show "ts_StateByID pg_tier_store db w i = Inr s \<longleftrightarrow>
      (s \<in> set (workflow_states db) \<and> ws_WorkflowID s = w) \<and> ws_ID s = i" for w i s
    by (auto simp: pg_StateByID_def rbind_eq_Inr tier_row_up [OF up] q_GetWorkflowState_Some [OF wf] split: if_splits)
  show "ts_StateByID pg_tier_store db w i = Inl e \<Longrightarrow> e = ErrNotFound" for w i e
    by (auto simp: pg_StateByID_def rbind_eq_Inl tier_row_up [OF up] split: if_splits)
  show "ts_InitialState pg_tier_store db w = Inr s \<Longrightarrow>
      (s \<in> set (workflow_states db) \<and> ws_WorkflowID s = w) \<and> ws_IsInitial s" for w s
    by (auto simp: pg_InitialState_def tier_row_up [OF up] q_GetInitialWorkflowState_def dest: find_Some_in)
  show "ts_InitialState pg_tier_store db w = Inl e \<Longrightarrow> e = ErrNotFound" for w e
    by (simp add: pg_InitialState_def tier_row_up [OF up])
  show "ts_TransitionBetween pg_tier_store db w x y = Inr t \<longleftrightarrow>
      (t \<in> set (workflow_transitions db) \<and> wt_WorkflowID t = w) \<and> wt_FromStateID t = x \<and> wt_ToStateID t = y" for w x y t
    by (simp add: pg_TransitionBetween_def tier_row_up [OF up] q_GetTransitionByStates_Some [OF wf])
  show "ts_TransitionBetween pg_tier_store db w x y = Inl e \<Longrightarrow> e = ErrNotFound" for w x y e
    by (simp add: pg_TransitionBetween_def tier_row_up [OF up])
  show "\<exists>es. ts_TransitionsFrom pg_tier_store db w x = Inr es \<and>
      (\<forall>t. t \<in> set es \<longleftrightarrow> (t \<in> set (workflow_transitions db) \<and> wt_WorkflowID t = w) \<and> wt_FromStateID t = x)" for w x
    by (auto simp: pg_TransitionsFrom_def tier_query_up [OF up] q_ListAvailableTransitions_def)
  show "ts_GuardsForTransition pg_tier_store db i = Inr (q_ListTransitionGuards db i)" for i
    by (simp add: pg_GuardsForTransition_def tier_query_up [OF up])
  show "ts_PostFunctionsForTransition pg_tier_store db i = Inr (q_ListTransitionPostFunctions db i)" for i
    by (simp add: pg_PostFunctionsForTransition_def tier_query_up [OF up])
  show "ts_ApproversForTransition pg_tier_store db i = Inr (q_ListTransitionApprovers db i)" for i
    by (simp add: pg_ApproversForTransition_def tier_query_up [OF up])
  show "ts_EffectiveTeamIDs pg_tier_store db org u = Inr (effective_team_ids db org u)" for org u
    by (simp add: pg_EffectiveTeamIDs_def tier_query_up [OF up])
  show "\<exists>ms. ts_EffectiveTeamMemberIDs pg_tier_store db org i = Inr ms \<and>
      (\<forall>u. u \<in> set ms \<longleftrightarrow> account_live db u \<and> i \<in> set (effective_team_ids db org u))" for org i
    by (simp add: pg_EffectiveTeamMemberIDs_def tier_query_up [OF up] q_ListEffectiveTeamMemberIDs_iff)
  show "q_GetPendingApprovalForEntity db (al_EntityType a) (al_EntityID a) = None \<Longrightarrow>
      ts_CreateApproval pg_tier_store i now a db = Inr (c, db') \<Longrightarrow>
        q_GetPendingApprovalForEntity db' (al_EntityType a) (al_EntityID a) = Some c \<and> IsPending c \<and>
        al_FromStatus c = al_FromStatus a \<and> al_ToStatus c = al_ToStatus a \<and>
        al_TransitionID c = al_TransitionID a \<and> al_RequestedBy c = al_RequestedBy a \<and>
        al_SpaceID c = al_SpaceID a" for i now a c and db' :: "'x work_db_scheme"
    by (auto dest!: pg_CreateApproval_Inr no_pending
        simp: q_GetPendingApprovalForEntity_def find_app IsPending_def pending_for_def)
  show "q_GetPendingApprovalForEntity db (al_EntityType a) (al_EntityID a) = Some p \<Longrightarrow>
      ts_CreateApproval pg_tier_store i now a db = Inr (c, db') \<longleftrightarrow> False" for i now a p c and db' :: "'x work_db_scheme"
    by (auto dest!: pg_CreateApproval_Inr no_pending simp: q_GetPendingApprovalForEntity_def)
  show "ts_PendingApprovalForEntity pg_tier_store db ty x = Inr p \<Longrightarrow>
      q_GetPendingApprovalForEntity db ty x = Some p" for ty x p
    by (simp add: pg_PendingApprovalForEntity_def tier_row_up [OF up])
qed

end
