(* ===== verification/WorkflowApply.thy ===== *)
theory WorkflowApply
  imports WorkflowStore
begin

text \<open>
  \<^verbatim>\<open>internal/db/adapters/workflow_transition_tx.go\<close>: the status change, its post-function effects
  and the audit event in one transaction, and the approver's verdict with the move it releases in
  one transaction; and, over it, what \<open>Decide\<close> of \<^verbatim>\<open>tier_service.go\<close> does to the database.

  The identifiers the database or \<open>uuid.New\<close> mints (the audit row's, one per new tag) are
  \<open>fresh\<close>: \<open>fresh 0\<close> is the audit row's, \<open>fresh (Suc k)\<close> the \<open>k\<close>-th tag's.
\<close>

section \<open>The statements of one transition\<close>

definition wrap_tier :: "string \<Rightarrow> ('s, sql_error, 'a) stmt \<Rightarrow> ('s, tier_error, 'a) stmt" where
  "wrap_tier what m db = (case m db of Inl _ \<Rightarrow> Inl (ErrTierDatabase what) | Inr r \<Rightarrow> Inr r)"

definition cas_write :: "('s, sql_error, 'a) stmt \<Rightarrow> ('s, tier_error, unit) stmt" where
  \<comment> \<open>\<open>pgx.ErrNoRows\<close> is the compare-and-swap miss\<close>
  "cas_write m db =
     (case m db of
        Inl e \<Rightarrow> if e = SqlNoRows then Inl ErrTransitionRaced else Inl (ErrTierDatabase ''writing status'')
      | Inr (_, db') \<Rightarrow> Inr ((), db'))"

definition writeStatus :: "instant \<Rightarrow> ApplyInput \<Rightarrow> ('x work_db_scheme, tier_error, unit) stmt" where
  "writeStatus now inp =
     (if ai_EntityType inp = ApprovalEntityTicket then
        cas_write (q_UpdateTicketWorkflowState now (ai_EntityID inp) (ai_SpaceID inp) (ai_ToStatus inp)
          (ai_ToStateID inp) (ai_ExpectFromStatus inp))
      else if ai_EntityType inp = ApprovalEntityItem then
        cas_write (q_UpdateProjectItemWorkflowState now (ai_EntityID inp) (ai_SpaceID inp) (ai_ToStatus inp)
          (ai_ToStateID inp) (ai_ExpectFromStatus inp))
      else sfail (ErrUnknownEntityType (ai_EntityType inp)))"

fun upsert_tags ::
    "(nat \<Rightarrow> uuid) \<Rightarrow> nat \<Rightarrow> uuid \<Rightarrow> SlugLabel list \<Rightarrow> ('x work_db_scheme, tier_error, uuid list) stmt" where
  "upsert_tags fresh k org [] = sret []"
| "upsert_tags fresh k org (sl # sls) =
     sbind (wrap_tier ''resolving tag'' (q_UpsertTag (fresh k) org (sl_Slug sl) (sl_Label sl))) (\<lambda>row.
     sbind (upsert_tags fresh (Suc k) org sls) (\<lambda>keep. sret (tg_id row # keep)))"

fun add_tags :: "string \<Rightarrow> uuid \<Rightarrow> uuid \<Rightarrow> uuid list \<Rightarrow> ('x work_db_scheme, tier_error, unit) stmt" where
  "add_tags ty i sp [] = sret ()"
| "add_tags ty i sp (t # ts) = sseq (wrap_tier ''tagging'' (q_AddEntityTag ty i sp t)) (add_tags ty i sp ts)"

definition tag_entity_type :: "string \<Rightarrow> string" where
  "tag_entity_type ty = (if ty = ApprovalEntityItem then ''project_item'' else ''ticket'')"

definition replaceEntityTagsTx ::
    "(nat \<Rightarrow> uuid) \<Rightarrow> ApplyInput \<Rightarrow> string list \<Rightarrow> ('x work_db_scheme, tier_error, unit) stmt" where
  "replaceEntityTagsTx fresh inp labels =
     (let entityType = tag_entity_type (ai_EntityType inp)
      in sbind (upsert_tags fresh 1 (ai_OrgID inp) (LenientLabelSlugs labels)) (\<lambda>keep.
         sseq (wrap_tier ''clearing entity tags''
                 (q_DeleteEntityTagsExcept entityType (ai_EntityID inp) (ai_SpaceID inp) keep))
              (add_tags entityType (ai_EntityID inp) (ai_SpaceID inp) keep)))"

definition writeEffects :: "instant \<Rightarrow> (nat \<Rightarrow> uuid) \<Rightarrow> ApplyInput \<Rightarrow> ('x work_db_scheme, tier_error, unit) stmt" where
  "writeEffects now fresh inp =
     (if length (ai_Effects inp) = 0 then sret ()
      else
        let f = foldEffects (ai_Effects inp) in
        sseq
          (if ai_EntityType inp = ApprovalEntityTicket then
             wrap_tier ''applying ticket post-functions''
               (q_ApplyTicketEffects now (fo_setAssignee f) (fo_assignee f) (fo_setDueAt f) (fo_dueAt f)
                  (ai_EntityID inp) (ai_SpaceID inp))
           else if ai_EntityType inp = ApprovalEntityItem then
             wrap_tier ''applying item post-functions''
               (q_ApplyProjectItemEffects now (fo_setAssignee f) (fo_assignee f) (fo_setDueAt f) (fo_dueAt f)
                  (ai_EntityID inp) (ai_SpaceID inp))
           else sfail (ErrUnknownEntityType (ai_EntityType inp)))
          (if fo_setTags f then replaceEntityTagsTx fresh inp (fo_tags f) else sret ()))"

definition EventTypeTicketStatusChange :: string where "EventTypeTicketStatusChange = ''ticket.status_changed''"
definition EventTypeItemStatusChange :: string where "EventTypeItemStatusChange = ''item.status_changed''"

definition transition_audit_row :: "uuid \<Rightarrow> ApplyInput \<Rightarrow> AuditRow" where
  "transition_audit_row newID inp =
     \<lparr>au_id = newID, au_org = ai_OrgID inp, au_actor = Some (ai_ActorID inp),
      au_action = (if ai_EntityType inp = ApprovalEntityItem then EventTypeItemStatusChange
                   else EventTypeTicketStatusChange),
      au_entity_kind = (if ai_EntityType inp = ApprovalEntityItem then ''item'' else ''ticket''),
      au_entity_id = ai_EntityID inp,
      au_payload =
        [(''from'', MText (ai_ExpectFromStatus inp)), (''to'', MText (ai_ToStatus inp))] @
        (case ai_TransitionID inp of None \<Rightarrow> [] | Some t \<Rightarrow> [(''workflow_transition_id'', MUuid t)]) @
        (case ai_ApprovalID inp of None \<Rightarrow> [] | Some a \<Rightarrow> [(''approval_id'', MUuid a)]) @
        (if describeEffects (ai_Effects inp) \<noteq> '''' then [(''post_functions'', MText (describeEffects (ai_Effects inp)))]
         else []),
      au_batch = None, au_ticket_ref = None\<rparr>"

definition writeTransitionAuditTx :: "uuid \<Rightarrow> ApplyInput \<Rightarrow> ('x work_db_scheme, tier_error, unit) stmt" where
  "writeTransitionAuditTx newID inp =
     sseq (wrap_tier ''writing status-change audit event'' (q_CreateAuditEvent (transition_audit_row newID inp)))
       (sret ())"

definition apply_input :: "(nat \<Rightarrow> uuid) \<Rightarrow> instant \<Rightarrow> ApplyInput \<Rightarrow> ('x work_db_scheme, tier_error, unit) stmt" where
  "apply_input fresh now inp =
     sseq (writeStatus now inp) (sseq (writeEffects now fresh inp) (writeTransitionAuditTx (fresh 0) inp))"

text \<open>\<open>Begin\<close> and \<open>Commit\<close> fail when the server is away; a statement between them fails then too.\<close>

definition ApplyTransition ::
    "(nat \<Rightarrow> uuid) \<Rightarrow> instant \<Rightarrow> ApplyInput \<Rightarrow> 'x work_db_scheme \<Rightarrow> (tier_error + unit) \<times> 'x work_db_scheme" where
  "ApplyTransition fresh now inp =
     in_tx (sseq (\<lambda>db. scheck (db_up db) (ErrTierDatabase ''begin'') db) (apply_input fresh now inp))"

definition record_decision ::
    "instant \<Rightarrow> DecideAndApplyInput \<Rightarrow> ('x work_db_scheme, tier_error, Approval) stmt" where
  "record_decision now inp db =
     (case q_DecideApproval now (di_ApprovalID inp) (di_SpaceID inp) (di_ActorID inp) (di_Decision inp)
         (di_Reason inp) db of
        Inl e \<Rightarrow> if e = SqlNoRows then Inl ErrApprovalAlreadyDecided
                 else Inl (ErrTierDatabase ''recording the decision'')
      | Inr r \<Rightarrow> Inr r)"

definition DecideAndApply ::
    "(nat \<Rightarrow> uuid) \<Rightarrow> instant \<Rightarrow> DecideAndApplyInput \<Rightarrow> 'x work_db_scheme \<Rightarrow>
     (tier_error + Approval) \<times> 'x work_db_scheme" where
  "DecideAndApply fresh now inp =
     in_tx (sseq (\<lambda>db. scheck (db_up db) (ErrTierDatabase ''begin'') db)
       (sbind (record_decision now inp) (\<lambda>row.
        sseq (case di_Apply inp of None \<Rightarrow> sret () | Some a \<Rightarrow> apply_input fresh now a)
          (sret row))))"


section \<open>Where an entity stands\<close>

text \<open>The status an entity of a space shows, by the approval vocabulary's two kinds.\<close>

definition entity_status :: "'x work_db_scheme \<Rightarrow> string \<Rightarrow> uuid \<Rightarrow> uuid \<Rightarrow> string option" where
  "entity_status db ty i sp =
     (if ty = ApprovalEntityTicket then map_option tk_status (List.find (ticket_hit i sp) (tickets db))
      else if ty = ApprovalEntityItem then map_option pi_status (List.find (item_hit i sp) (project_items db))
      else None)"

definition entities_wf :: "'x work_db_scheme \<Rightarrow> bool" where
  "entities_wf db \<longleftrightarrow> distinct (map tk_id (tickets db)) \<and> distinct (map pi_id (project_items db))"

lemma find_map_same:
  "(\<And>x. P (f x) = P x) \<Longrightarrow> List.find P (map f xs) = map_option f (List.find P xs)"
  by (induction xs) auto

lemma find_hit_and:
  assumes "distinct (map k xs)" and "\<And>x. P x \<Longrightarrow> k x = i" and "List.find (\<lambda>x. P x \<and> Q x) xs = Some t"
  shows "List.find P xs = Some t" and "Q t"
proof -
  from assms(3) have t: "t \<in> set xs" "P t" "Q t" by (auto dest: find_Some_in)
  show "List.find P xs = Some t"
    by (rule find_the_unique) (use t assms(2) distinct_key [OF assms(1)] in auto)
  show "Q t" by fact
qed

lemma find_map_hit:
  assumes "distinct (map k xs)" and "\<And>x. P x \<Longrightarrow> k x = i" and "List.find P xs = Some t"
    and "\<And>x. P (f x) = P x"
  shows "List.find P (map (\<lambda>x. if P x \<and> Q x then f x else x) xs) = Some (if Q t then f t else t)"
proof -
  have "P (if P x \<and> Q x then f x else x) = P x" for x using assms(4) by simp
  from find_map_same [of P "\<lambda>x. if P x \<and> Q x then f x else x" xs, OF this] assms(3)
  show ?thesis by (auto dest: find_Some_in)
qed

lemma find_map_other:
  assumes "\<And>x. P' x \<Longrightarrow> \<not> P x" and "\<And>x. P' (f x) = P' x"
  shows "List.find P' (map (\<lambda>x. if P x \<and> Q x then f x else x) xs) = List.find P' xs"
  using assms by (induction xs) (auto simp: assms(2))

text \<open>Everything a transition leaves alone.\<close>

definition tier_frame :: "'x work_db_scheme \<Rightarrow> 'x work_db_scheme \<Rightarrow> bool" where
  "tier_frame db db' \<longleftrightarrow>
     workflow_approvals db' = workflow_approvals db \<and> workflow_states db' = workflow_states db \<and>
     workflow_transitions db' = workflow_transitions db \<and> transition_guards db' = transition_guards db \<and>
     transition_post_functions db' = transition_post_functions db \<and>
     transition_approvers db' = transition_approvers db \<and> users db' = users db \<and> spaces db' = spaces db \<and>
     map tk_id (tickets db') = map tk_id (tickets db) \<and> map pi_id (project_items db') = map pi_id (project_items db) \<and>
     db_up db' = db_up db"

lemma tier_frame_refl [simp]: "tier_frame db db"
  by (simp add: tier_frame_def)

lemma tier_frame_trans: "tier_frame a b \<Longrightarrow> tier_frame b c \<Longrightarrow> tier_frame a c"
  by (simp add: tier_frame_def)

text \<open>The compare-and-swap: it succeeds only on the expected status, and moves that entity alone.\<close>

definition moved :: "'x work_db_scheme \<Rightarrow> ApplyInput \<Rightarrow> 'x work_db_scheme \<Rightarrow> bool" where
  "moved db inp db' \<longleftrightarrow>
     entity_status db (ai_EntityType inp) (ai_EntityID inp) (ai_SpaceID inp) = Some (ai_ExpectFromStatus inp) \<and>
     entity_status db' (ai_EntityType inp) (ai_EntityID inp) (ai_SpaceID inp) = Some (ai_ToStatus inp) \<and>
     (\<forall>ty i sp. (ty, i, sp) \<noteq> (ai_EntityType inp, ai_EntityID inp, ai_SpaceID inp) \<longrightarrow>
        entity_status db' ty i sp = entity_status db ty i sp)"

lemma ticket_hit_move [simp]: "ticket_hit i sp (move_ticket db now st sid t) = ticket_hit i sp t"
  by (simp add: ticket_hit_def move_ticket_def)

lemma item_hit_move [simp]: "item_hit i sp (move_item db now st sid t) = item_hit i sp t"
  by (simp add: item_hit_def move_item_def)

lemma move_status [simp]:
  "tk_status (move_ticket db now st sid t) = st" "pi_status (move_item db now st sid p) = st"
  "tk_id (move_ticket db now st sid t) = tk_id t" "pi_id (move_item db now st sid p) = pi_id p"
  "tk_space (move_ticket db now st sid t) = tk_space t" "pi_space (move_item db now st sid p) = pi_space p"
  "tk_deleted (move_ticket db now st sid t) = tk_deleted t"
  "pi_deleted (move_item db now st sid p) = pi_deleted p"
  by (simp_all add: move_ticket_def move_item_def)

lemma writeStatus_moves:
  assumes wf: "entities_wf db" and w: "writeStatus now inp db = Inr (u, db')"
  shows "moved db inp db' \<and> tier_frame db db' \<and> audit_log db' = audit_log db"
proof (cases "ai_EntityType inp = ApprovalEntityTicket")
  case True
  let ?i = "ai_EntityID inp" and ?sp = "ai_SpaceID inp" and ?f = "move_ticket db now (ai_ToStatus inp) (ai_ToStateID inp)"
  let ?Q = "\<lambda>t. tk_status t = ai_ExpectFromStatus inp"
  from w True obtain t where t: "List.find (\<lambda>t. ticket_hit ?i ?sp t \<and> ?Q t) (tickets db) = Some t"
    and db': "db' = db\<lparr>tickets := map (\<lambda>t. if ticket_hit ?i ?sp t \<and> ?Q t then ?f t else t) (tickets db)\<rparr>"
    by (auto simp: writeStatus_def cas_write_def q_UpdateTicketWorkflowState_def Let_def
        split: sum.splits option.splits if_splits)
  have d: "distinct (map tk_id (tickets db))" using wf by (simp add: entities_wf_def)
  have k: "\<And>x. ticket_hit ?i ?sp x \<Longrightarrow> tk_id x = ?i" by (simp add: ticket_hit_def)
  note h = find_hit_and [OF d k t]
  have hit: "List.find (ticket_hit ?i ?sp) (tickets db') = Some (?f t)"
    using find_map_hit [OF d k h(1), of ?f ?Q] h(2) by (simp add: db')
  have other: "List.find (ticket_hit j sp) (tickets db') = List.find (ticket_hit j sp) (tickets db)"
    if "(j, sp) \<noteq> (?i, ?sp)" for j sp
    unfolding db' by (simp, rule find_map_other) (use that in \<open>auto simp: ticket_hit_def\<close>)
  have "entity_status db' ty j sp = entity_status db ty j sp"
    if "(ty, j, sp) \<noteq> (ai_EntityType inp, ?i, ?sp)" for ty j sp
  proof (cases "ty = ApprovalEntityTicket")
    case t: True
    with that True have "(j, sp) \<noteq> (?i, ?sp)" by simp
    from other [OF this] show ?thesis by (simp add: entity_status_def t)
  next
    case False
    then show ?thesis by (simp add: entity_status_def db')
  qed
  moreover have "entity_status db (ai_EntityType inp) ?i ?sp = Some (ai_ExpectFromStatus inp)"
    using h by (simp add: entity_status_def True)
  moreover have "entity_status db' (ai_EntityType inp) ?i ?sp = Some (ai_ToStatus inp)"
    using hit by (simp add: entity_status_def True)
  moreover have "map tk_id (tickets db') = map tk_id (tickets db)" by (simp add: db')
  ultimately show ?thesis by (simp add: moved_def tier_frame_def) (simp add: db')
next
  case nt: False
  show ?thesis
  proof (cases "ai_EntityType inp = ApprovalEntityItem")
    case True
    let ?i = "ai_EntityID inp" and ?sp = "ai_SpaceID inp" and ?f = "move_item db now (ai_ToStatus inp) (ai_ToStateID inp)"
    let ?Q = "\<lambda>t. pi_status t = ai_ExpectFromStatus inp"
    from w nt True obtain t where t: "List.find (\<lambda>t. item_hit ?i ?sp t \<and> ?Q t) (project_items db) = Some t"
      and db': "db' = db\<lparr>project_items := map (\<lambda>t. if item_hit ?i ?sp t \<and> ?Q t then ?f t else t) (project_items db)\<rparr>"
      by (auto simp: writeStatus_def cas_write_def q_UpdateProjectItemWorkflowState_def Let_def
          split: sum.splits option.splits if_splits)
    have d: "distinct (map pi_id (project_items db))" using wf by (simp add: entities_wf_def)
    have k: "\<And>x. item_hit ?i ?sp x \<Longrightarrow> pi_id x = ?i" by (simp add: item_hit_def)
    note h = find_hit_and [OF d k t]
    have hit: "List.find (item_hit ?i ?sp) (project_items db') = Some (?f t)"
      using find_map_hit [OF d k h(1), of ?f ?Q] h(2) by (simp add: db')
    have other: "List.find (item_hit j sp) (project_items db') = List.find (item_hit j sp) (project_items db)"
      if "(j, sp) \<noteq> (?i, ?sp)" for j sp
      unfolding db' by (simp, rule find_map_other) (use that in \<open>auto simp: item_hit_def\<close>)
    have "entity_status db' ty j sp = entity_status db ty j sp"
      if "(ty, j, sp) \<noteq> (ai_EntityType inp, ?i, ?sp)" for ty j sp
    proof (cases "ty = ApprovalEntityItem")
      case t: True
      with that True have "(j, sp) \<noteq> (?i, ?sp)" by simp
      from other [OF this] show ?thesis by (simp add: entity_status_def t)
    next
      case False
      then show ?thesis by (simp add: entity_status_def db')
    qed
    moreover have "entity_status db (ai_EntityType inp) ?i ?sp = Some (ai_ExpectFromStatus inp)"
      using h by (simp add: entity_status_def True)
    moreover have "entity_status db' (ai_EntityType inp) ?i ?sp = Some (ai_ToStatus inp)"
      using hit by (simp add: entity_status_def True)
    moreover have "map pi_id (project_items db') = map pi_id (project_items db)" by (simp add: db')
    ultimately show ?thesis by (simp add: moved_def tier_frame_def) (simp add: db')
  next
    case False
    with nt w show ?thesis by (simp add: writeStatus_def)
  qed
qed


lemma entity_status_other [simp]:
  "entity_status (db\<lparr>audit_log := l\<rparr>) ty i sp = entity_status db ty i sp"
  "entity_status (db\<lparr>workflow_approvals := as\<rparr>) ty i sp = entity_status db ty i sp"
  by (simp_all add: entity_status_def)

text \<open>Effects change no status: they touch the assignee, the due date and the tags.\<close>

definition same_status :: "'x work_db_scheme \<Rightarrow> 'x work_db_scheme \<Rightarrow> bool" where
  "same_status db db' \<longleftrightarrow>
     tier_frame db db' \<and> audit_log db' = audit_log db \<and> (\<forall>ty i sp. entity_status db' ty i sp = entity_status db ty i sp)"

lemma same_status_refl [simp]: "same_status db db"
  by (simp add: same_status_def)

lemma same_status_trans: "same_status a b \<Longrightarrow> same_status b c \<Longrightarrow> same_status a c"
  by (auto simp: same_status_def intro: tier_frame_trans)

lemma same_status_tables:
  "tickets db' = tickets db \<Longrightarrow> project_items db' = project_items db \<Longrightarrow> tier_frame db db' \<Longrightarrow>
   audit_log db' = audit_log db \<Longrightarrow> same_status db db'"
  by (simp add: same_status_def entity_status_def)

lemma wrap_tier_Inr: "wrap_tier w m db = Inr r \<longleftrightarrow> m db = Inr r"
  by (auto simp: wrap_tier_def split: sum.splits)

lemma find_map_view:
  assumes "\<And>x. P (f x) = P x" and "\<And>x. g (f x) = g x"
  shows "map_option g (List.find P (map f xs)) = map_option g (List.find P xs)"
  using assms by (induction xs) auto

lemma ApplyTicketEffects_status:
  assumes "q_ApplyTicketEffects now sa a sd d i sp db = Inr (u, db')"
  shows "same_status db db'"
proof -
  let ?f = "\<lambda>t. if ticket_hit i sp t then t\<lparr>tk_assignee := (if sa then a else tk_assignee t),
                    tk_due := (if sd then d else tk_due t), tk_updated := now\<rparr> else t"
  have db': "db' = db\<lparr>tickets := map ?f (tickets db)\<rparr>"
    using assms by (simp add: q_ApplyTicketEffects_def split: if_splits)
  have "ticket_hit j s (?f t) = ticket_hit j s t" "tk_status (?f t) = tk_status t" "tk_id (?f t) = tk_id t" for j s t
    by (simp_all add: ticket_hit_def)
  note view = find_map_view [of "ticket_hit j s" ?f tk_status for j s, OF this(1,2)] and k = this(3)
  have "map tk_id (map ?f (tickets db)) = map tk_id (tickets db)" using k by simp
  then have "tier_frame db db'" by (simp add: tier_frame_def db')
  moreover have "entity_status db' ty j s = entity_status db ty j s" for ty j s
    using view by (simp add: entity_status_def db')
  ultimately show ?thesis by (simp add: same_status_def db')
qed

lemma ApplyProjectItemEffects_status:
  assumes "q_ApplyProjectItemEffects now sa a sd d i sp db = Inr (u, db')"
  shows "same_status db db'"
proof -
  let ?f = "\<lambda>t. if item_hit i sp t then t\<lparr>pi_assignee := (if sa then a else pi_assignee t),
                    pi_due := (if sd then d else pi_due t), pi_updated := now\<rparr> else t"
  have db': "db' = db\<lparr>project_items := map ?f (project_items db)\<rparr>"
    using assms by (simp add: q_ApplyProjectItemEffects_def split: if_splits)
  have "item_hit j s (?f t) = item_hit j s t" "pi_status (?f t) = pi_status t" "pi_id (?f t) = pi_id t" for j s t
    by (simp_all add: item_hit_def)
  note view = find_map_view [of "item_hit j s" ?f pi_status for j s, OF this(1,2)] and k = this(3)
  have "map pi_id (map ?f (project_items db)) = map pi_id (project_items db)" using k by simp
  then have "tier_frame db db'" by (simp add: tier_frame_def db')
  moreover have "entity_status db' ty j s = entity_status db ty j s" for ty j s
    using view by (simp add: entity_status_def db')
  ultimately show ?thesis by (simp add: same_status_def db')
qed

lemma UpsertTag_status: "q_UpsertTag n org slug name db = Inr (r, db') \<Longrightarrow> same_status db db'"
  by (auto simp: q_UpsertTag_def Let_def tier_frame_def intro!: same_status_tables split: if_splits option.splits)

lemma upsert_tags_status: "upsert_tags fresh k org sls db = Inr (keep, db') \<Longrightarrow> same_status db db'"
proof (induction sls arbitrary: k db keep)
  case Nil
  then show ?case by simp
next
  case (Cons sl sls)
  then obtain r u keep' where 1: "q_UpsertTag (fresh k) org (sl_Slug sl) (sl_Label sl) db = Inr (r, u)"
    and 2: "upsert_tags fresh (Suc k) org sls u = Inr (keep', db')"
    by (auto simp: stmt_run wrap_tier_Inr)
  from UpsertTag_status [OF 1] Cons.IH [OF 2] show ?case by (rule same_status_trans)
qed

lemma AddEntityTag_status: "q_AddEntityTag ty i sp t db = Inr (r, db') \<Longrightarrow> same_status db db'"
  by (auto simp: q_AddEntityTag_def Let_def tier_frame_def intro!: same_status_tables split: if_splits)

lemma add_tags_status: "add_tags ty i sp ts db = Inr (r, db') \<Longrightarrow> same_status db db'"
proof (induction ts arbitrary: db)
  case Nil
  then show ?case by simp
next
  case (Cons t ts)
  then obtain r' u where 1: "q_AddEntityTag ty i sp t db = Inr (r', u)" and 2: "add_tags ty i sp ts u = Inr (r, db')"
    by (auto simp: stmt_run wrap_tier_Inr)
  from AddEntityTag_status [OF 1] Cons.IH [OF 2] show ?case by (rule same_status_trans)
qed

lemma replaceEntityTagsTx_status: "replaceEntityTagsTx fresh inp ls db = Inr (r, db') \<Longrightarrow> same_status db db'"
proof -
  assume "replaceEntityTagsTx fresh inp ls db = Inr (r, db')"
  then obtain keep u v w where 1: "upsert_tags fresh 1 (ai_OrgID inp) (LenientLabelSlugs ls) db = Inr (keep, u)"
    and 2: "q_DeleteEntityTagsExcept (tag_entity_type (ai_EntityType inp)) (ai_EntityID inp) (ai_SpaceID inp) keep u = Inr (w, v)"
    and 3: "add_tags (tag_entity_type (ai_EntityType inp)) (ai_EntityID inp) (ai_SpaceID inp) keep v = Inr (r, db')"
    by (auto simp: replaceEntityTagsTx_def Let_def stmt_run wrap_tier_Inr)
  have "same_status u v"
    using 2 by (auto simp: q_DeleteEntityTagsExcept_def tier_frame_def intro!: same_status_tables split: if_splits)
  with upsert_tags_status [OF 1] add_tags_status [OF 3] show ?thesis by (blast intro: same_status_trans)
qed

lemma writeEffects_status:
  assumes "writeEffects now fresh inp db = Inr (r, db')"
  shows "same_status db db'"
proof (cases "ai_Effects inp = []")
  case True
  with assms show ?thesis by (simp add: writeEffects_def)
next
  case False
  let ?f = "foldEffects (ai_Effects inp)"
  from assms False obtain u x where
    1: "ai_EntityType inp = ApprovalEntityTicket \<and>
          q_ApplyTicketEffects now (fo_setAssignee ?f) (fo_assignee ?f) (fo_setDueAt ?f) (fo_dueAt ?f)
            (ai_EntityID inp) (ai_SpaceID inp) db = Inr (x, u) \<or>
        ai_EntityType inp = ApprovalEntityItem \<and>
          q_ApplyProjectItemEffects now (fo_setAssignee ?f) (fo_assignee ?f) (fo_setDueAt ?f) (fo_dueAt ?f)
            (ai_EntityID inp) (ai_SpaceID inp) db = Inr (x, u)"
    and 2: "fo_setTags ?f \<and> replaceEntityTagsTx fresh inp (fo_tags ?f) u = Inr (r, db') \<or> db' = u"
    by (auto simp: writeEffects_def Let_def stmt_run wrap_tier_Inr split: if_splits)
  have "same_status db u" using 1 ApplyTicketEffects_status ApplyProjectItemEffects_status by blast
  moreover have "same_status u db'" using 2 replaceEntityTagsTx_status by auto
  ultimately show ?thesis by (rule same_status_trans)
qed

lemma writeTransitionAuditTx_Inr:
  "writeTransitionAuditTx n inp db = Inr (r, db') \<Longrightarrow>
     db' = db\<lparr>audit_log := audit_log db @ [transition_audit_row n inp]\<rparr>"
  by (auto simp: writeTransitionAuditTx_def stmt_run wrap_tier_Inr dest: q_CreateAuditEvent_Inr)

text \<open>The three writes together.\<close>

lemma apply_input_Inr:
  assumes wf: "entities_wf db" and a: "apply_input fresh now inp db = Inr (r, db')"
  shows "moved db inp db' \<and> tier_frame db db' \<and>
    audit_log db' = audit_log db @ [transition_audit_row (fresh 0) inp]"
proof -
  from a obtain u v x y where 1: "writeStatus now inp db = Inr (x, u)" and 2: "writeEffects now fresh inp u = Inr (y, v)"
    and 3: "writeTransitionAuditTx (fresh 0) inp v = Inr (r, db')"
    by (auto simp: apply_input_def stmt_run)
  note w = writeStatus_moves [OF wf 1] and e = writeEffects_status [OF 2] and au = writeTransitionAuditTx_Inr [OF 3]
  have "entity_status db' ty i sp = entity_status u ty i sp" for ty i sp
    using e by (simp add: au same_status_def)
  then have "moved db inp db'" using w by (simp add: moved_def)
  moreover have "tier_frame db db'" using w e by (auto simp: au same_status_def tier_frame_def)
  moreover have "audit_log db' = audit_log db @ [transition_audit_row (fresh 0) inp]"
    using w e by (simp add: au same_status_def)
  ultimately show ?thesis by blast
qed


section \<open>The verdict\<close>

lemma tier_frame_audit [simp]: "tier_frame db (db\<lparr>audit_log := l\<rparr>)"
  by (simp add: tier_frame_def)

lemma q_DecideApproval_Inr:
  assumes "q_DecideApproval now i sp u d rs db = Inr (row, db')"
  shows "\<exists>p. List.find (decides i sp) (workflow_approvals db) = Some p \<and> row = set_decision now u d rs p \<and>
    d \<in> {''approved'', ''declined''} \<and> db_up db \<and>
    db' = db\<lparr>workflow_approvals := map (\<lambda>x. if decides i sp x then set_decision now u d rs x else x)
                (workflow_approvals db)\<rparr>"
  using assms by (auto simp: q_DecideApproval_def split: option.splits if_splits)

lemma DecideAndApply_Inr:
  assumes wf: "entities_wf db" and r: "DecideAndApply fresh now inp db = (Inr row, db')"
  obtains p u where "List.find (decides (di_ApprovalID inp) (di_SpaceID inp)) (workflow_approvals db) = Some p"
    and "row = set_decision now (di_ActorID inp) (di_Decision inp) (di_Reason inp) p"
    and "u = db\<lparr>workflow_approvals := map (\<lambda>x. if decides (di_ApprovalID inp) (di_SpaceID inp) x
              then set_decision now (di_ActorID inp) (di_Decision inp) (di_Reason inp) x else x) (workflow_approvals db)\<rparr>"
    and "case di_Apply inp of None \<Rightarrow> db' = u
         | Some a \<Rightarrow> moved u a db' \<and> tier_frame u db' \<and>
             audit_log db' = audit_log u @ [transition_audit_row (fresh 0) a]"
proof -
  from r obtain u where d: "q_DecideApproval now (di_ApprovalID inp) (di_SpaceID inp) (di_ActorID inp)
        (di_Decision inp) (di_Reason inp) db = Inr (row, u)"
    and a: "case di_Apply inp of None \<Rightarrow> db' = u | Some a \<Rightarrow> \<exists>x. apply_input fresh now a u = Inr (x, db')"
    by (auto simp: DecideAndApply_def in_tx_Inr stmt_run record_decision_def split: sum.splits if_splits option.splits)
  from q_DecideApproval_Inr [OF d] obtain p where p: "List.find (decides (di_ApprovalID inp) (di_SpaceID inp)) (workflow_approvals db) = Some p"
    "row = set_decision now (di_ActorID inp) (di_Decision inp) (di_Reason inp) p"
    and u: "u = db\<lparr>workflow_approvals := map (\<lambda>x. if decides (di_ApprovalID inp) (di_SpaceID inp) x
              then set_decision now (di_ActorID inp) (di_Decision inp) (di_Reason inp) x else x) (workflow_approvals db)\<rparr>"
    by blast
  have "entities_wf u" using wf by (simp add: u entities_wf_def)
  then have "case di_Apply inp of None \<Rightarrow> db' = u
         | Some a \<Rightarrow> moved u a db' \<and> tier_frame u db' \<and>
             audit_log db' = audit_log u @ [transition_audit_row (fresh 0) a]"
  proof (cases "di_Apply inp")
    case None
    with a show ?thesis by simp
  next
    case (Some x)
    with a obtain y where "apply_input fresh now x u = Inr (y, db')" by auto
    from apply_input_Inr [OF \<open>entities_wf u\<close> this] Some show ?thesis by simp
  qed
  from that [OF p u this] show thesis .
qed

text \<open>What \<open>Decide\<close> checked before it called the applier.\<close>

lemma decide_input_Inr:
  assumes up: "tier_ok db" and d: "decide_input pg_tier_store db req reason = Inr inp"
  obtains p tid where
    "List.find (\<lambda>a. al_ID a = dr_ApprovalID req \<and> al_SpaceID a = dr_SpaceID req) (workflow_approvals db) = Some p"
    "IsPending p" "al_TransitionID p = Some tid"
    "CanDecide (q_ListTransitionApprovers db tid)
       \<lparr>ac_UserID = dr_ActorID req, ac_TeamIDs = effective_team_ids db (dr_OrgID req) (dr_ActorID req), ac_Capabilities = []\<rparr>"
    "di_SpaceID inp = dr_SpaceID req" "di_ApprovalID inp = dr_ApprovalID req" "di_ActorID inp = dr_ActorID req"
    "di_Decision inp = dr_Decision req" "di_Reason inp = reason"
    "dr_Decision req \<noteq> DecisionApproved \<Longrightarrow> di_Apply inp = None"
    "dr_Decision req = DecisionApproved \<Longrightarrow>
       \<exists>es. PlanPostFunctions (q_ListTransitionPostFunctions db tid) = Inr es \<and>
         di_Apply inp = Some \<lparr>ai_EntityType = al_EntityType p, ai_EntityID = al_EntityID p, ai_OrgID = dr_OrgID req,
           ai_SpaceID = dr_SpaceID req, ai_ActorID = dr_ActorID req, ai_ToStatus = al_ToStatus p,
           ai_ToStateID = al_ToStateID p, ai_ExpectFromStatus = al_FromStatus p, ai_TransitionID = Some tid,
           ai_Effects = es, ai_ApprovalID = Some (al_ID p)\<rparr>"
proof -
  note u = tier_okD(1) [OF up]
  from d obtain ap where g: "pg_GetApprovalInSpace db (dr_SpaceID req) (dr_ApprovalID req) = Inr ap"
    by (auto simp: decide_input_def rbind_eq_Inr)
  then obtain p where p: "List.find (\<lambda>a. al_ID a = dr_ApprovalID req \<and> al_SpaceID a = dr_SpaceID req) (workflow_approvals db) = Some p"
    and ap: "ap = with_names db p"
    by (auto simp: pg_GetApprovalInSpace_def tier_row_up [OF u] q_GetApprovalInSpace_def)
  have f: "al_TransitionID ap = al_TransitionID p" "al_DecidedAt ap = al_DecidedAt p" "al_ID ap = al_ID p"
      "al_EntityType ap = al_EntityType p" "al_EntityID ap = al_EntityID p" "al_ToStatus ap = al_ToStatus p"
      "al_FromStatus ap = al_FromStatus p" "al_ToStateID ap = al_ToStateID p"
    by (simp_all add: ap with_names_def)
  from d g obtain tid where pen: "IsPending p" and tid: "al_TransitionID p = Some tid"
    and au: "checkDecideAuthority pg_tier_store db req tid = Inr ()"
    by (auto simp: decide_input_def IsPending_def f rbind_eq_Inr split: if_splits option.splits)
  have auth: "CanDecide (q_ListTransitionApprovers db tid)
       \<lparr>ac_UserID = dr_ActorID req, ac_TeamIDs = effective_team_ids db (dr_OrgID req) (dr_ActorID req), ac_Capabilities = []\<rparr>"
    using au by (simp add: checkDecideAuthority_def pg_ApproversForTransition_def tier_query_up [OF u]
        resolveActor_def pg_EffectiveTeamIDs_def)
  have rest: "(if dr_Decision req = DecisionApproved then
        (\<exists>es. PlanPostFunctions (q_ListTransitionPostFunctions db tid) = Inr es \<and>
         inp = \<lparr>di_SpaceID = dr_SpaceID req, di_ApprovalID = dr_ApprovalID req, di_ActorID = dr_ActorID req,
            di_Decision = dr_Decision req, di_Reason = reason,
            di_Apply = Some \<lparr>ai_EntityType = al_EntityType p, ai_EntityID = al_EntityID p, ai_OrgID = dr_OrgID req,
           ai_SpaceID = dr_SpaceID req, ai_ActorID = dr_ActorID req, ai_ToStatus = al_ToStatus p,
           ai_ToStateID = al_ToStateID p, ai_ExpectFromStatus = al_FromStatus p, ai_TransitionID = Some tid,
           ai_Effects = es, ai_ApprovalID = Some (al_ID p)\<rparr>\<rparr>)
      else inp = \<lparr>di_SpaceID = dr_SpaceID req, di_ApprovalID = dr_ApprovalID req, di_ActorID = dr_ActorID req,
            di_Decision = dr_Decision req, di_Reason = reason, di_Apply = None\<rparr>)"
    using d g pen tid au
    by (auto simp: decide_input_def IsPending_def f Let_def planEffects_def pg_PostFunctionsForTransition_def
        tier_query_up [OF u] rbind_eq_Inr split: sum.splits)
  show thesis
    by (rule that [OF p pen tid auth]) (use rest in \<open>auto split: if_splits\<close>)
qed

end
