(* ===== verification/WorkflowGraph.thy ===== *)
theory WorkflowGraph
  imports WorkflowStore
begin

text \<open>
  The workflow graph and its editing: \<^verbatim>\<open>internal/db/adapters/workflows.go\<close> over
  \<^verbatim>\<open>internal/db/queries/workflows.sql\<close>, and the engine of
  \<^verbatim>\<open>internal/core/workflow/engine.go\<close>. The point of care is what a deletion takes with it
  (migrations 016, 046 and 047): transitions go with their states, guards, post-functions and
  approvers go with their transition, a request stays and only forgets the edge or the state that is
  gone, and a state some ticket or item is in, deleted or not, cannot go at all. The organisations
  table is not modelled, nor its foreign key. \<open>CreatedAt\<close> of a state and of a transition is left out,
  as in \<open>WorkflowTier\<close>.
\<close>

section \<open>Statements\<close>

definition workflow_exists :: "'x work_db_scheme \<Rightarrow> uuid \<Rightarrow> bool" where
  "workflow_exists db i \<longleftrightarrow> list_ex (\<lambda>w. wf_id w = i) (workflows db)"

definition applies_to_valid :: "string \<Rightarrow> bool" where
  "applies_to_valid s \<longleftrightarrow> s \<in> {''tickets'', ''project_items'', ''both''}"

definition category_valid :: "string \<Rightarrow> bool" where
  "category_valid s \<longleftrightarrow> s \<in> {''todo'', ''in_progress'', ''done''}"

definition q_CreateWorkflow :: "WorkflowRow \<Rightarrow> ('x work_db_scheme, sql_error, WorkflowRow) stmt" where
  "q_CreateWorkflow w db =
     (if \<not> db_up db then Inl SqlDown
      else if \<not> applies_to_valid (wf_applies_to w) then Inl (SqlCheck ''workflows_applies_to_check'')
      else if workflow_exists db (wf_id w) then Inl (SqlUnique ''workflows_pkey'')
      else if list_ex (\<lambda>x. wf_org x = wf_org w \<and> wf_name x = wf_name w) (workflows db)
        then Inl (SqlUnique ''workflows_org_id_name_key'')
      else Inr (w, db\<lparr>workflows := workflows db @ [w]\<rparr>))"

definition q_ListWorkflows :: "'x work_db_scheme \<Rightarrow> uuid \<Rightarrow> WorkflowRow list" where
  \<comment> \<open>the collation of \<open>ORDER BY name\<close> is the server's\<close>
  "q_ListWorkflows db org = filter (\<lambda>w. wf_org w = org) (workflows db)"

definition q_UpdateWorkflow ::
    "instant \<Rightarrow> uuid \<Rightarrow> string \<Rightarrow> string option \<Rightarrow> bool \<Rightarrow> string \<Rightarrow> ('x work_db_scheme, sql_error, WorkflowRow) stmt" where
  "q_UpdateWorkflow now i name desc dflt applies db =
     (let upd = (\<lambda>w. w\<lparr>wf_name := name, wf_description := desc, wf_default := dflt, wf_applies_to := applies,
                        wf_updated := now\<rparr>)
      in if \<not> db_up db then Inl SqlDown
         else case q_GetWorkflow db i of
           None \<Rightarrow> Inl SqlNoRows
         | Some w \<Rightarrow>
             if \<not> applies_to_valid applies then Inl (SqlCheck ''workflows_applies_to_check'')
             else if list_ex (\<lambda>x. wf_id x \<noteq> i \<and> wf_org x = wf_org w \<and> wf_name x = name) (workflows db)
               then Inl (SqlUnique ''workflows_org_id_name_key'')
             else Inr (upd w, db\<lparr>workflows := map (\<lambda>x. if wf_id x = i then upd x else x) (workflows db)\<rparr>))"

text \<open>The three unique constraints of a state, against the other rows of its workflow.\<close>

definition state_conflict :: "State \<Rightarrow> State list \<Rightarrow> string option" where
  "state_conflict s others =
     (if list_ex (\<lambda>x. ws_WorkflowID x = ws_WorkflowID s \<and> ws_Name x = ws_Name s) others
        then Some ''workflow_states_workflow_id_name_key''
      else if list_ex (\<lambda>x. ws_WorkflowID x = ws_WorkflowID s \<and> ws_Position x = ws_Position s) others
        then Some ''workflow_states_workflow_id_position_key''
      else if ws_IsInitial s \<and> list_ex (\<lambda>x. ws_WorkflowID x = ws_WorkflowID s \<and> ws_IsInitial x) others
        then Some ''idx_workflow_initial''
      else None)"

definition q_CreateWorkflowState :: "State \<Rightarrow> ('x work_db_scheme, sql_error, State) stmt" where
  "q_CreateWorkflowState s db =
     (if \<not> db_up db then Inl SqlDown
      else if \<not> category_valid (ws_Category s) then Inl (SqlCheck ''workflow_states_category_check'')
      else if state_exists db (ws_ID s) then Inl (SqlUnique ''workflow_states_pkey'')
      else case state_conflict s (workflow_states db) of
        Some c \<Rightarrow> Inl (SqlUnique c)
      | None \<Rightarrow>
          if \<not> workflow_exists db (ws_WorkflowID s) then Inl SqlForeignKey
          else Inr (s, db\<lparr>workflow_states := workflow_states db @ [s]\<rparr>))"

definition q_ListWorkflowStates :: "'x work_db_scheme \<Rightarrow> uuid \<Rightarrow> State list" where
  "q_ListWorkflowStates db w = sort_key ws_Position (filter (\<lambda>s. ws_WorkflowID s = w) (workflow_states db))"

text \<open>The workflow of a state is not among the columns an update sets.\<close>

definition q_UpdateWorkflowState :: "State \<Rightarrow> ('x work_db_scheme, sql_error, State) stmt" where
  "q_UpdateWorkflowState s db =
     (if \<not> db_up db then Inl SqlDown
      else case q_GetWorkflowState db (ws_ID s) of
        None \<Rightarrow> Inl SqlNoRows
      | Some old \<Rightarrow>
          (let new = s\<lparr>ws_WorkflowID := ws_WorkflowID old\<rparr>
           in if \<not> category_valid (ws_Category s) then Inl (SqlCheck ''workflow_states_category_check'')
              else case state_conflict new (filter (\<lambda>x. ws_ID x \<noteq> ws_ID s) (workflow_states db)) of
                Some c \<Rightarrow> Inl (SqlUnique c)
              | None \<Rightarrow>
                  Inr (new, db\<lparr>workflow_states := map (\<lambda>x. if ws_ID x = ws_ID s then new else x) (workflow_states db)\<rparr>)))"

definition q_ListWorkflowTransitions :: "'x work_db_scheme \<Rightarrow> uuid \<Rightarrow> Transition list" where
  "q_ListWorkflowTransitions db w = filter (\<lambda>t. wt_WorkflowID t = w) (workflow_transitions db)"

definition transition_key :: "Transition \<Rightarrow> uuid \<times> uuid \<times> uuid" where
  "transition_key t = (wt_WorkflowID t, wt_FromStateID t, wt_ToStateID t)"

definition insert_transition :: "Transition \<Rightarrow> ('x work_db_scheme, sql_error, Transition) stmt" where
  "insert_transition t db =
     (if \<not> db_up db then Inl SqlDown
      else if transition_exists db (wt_ID t) then Inl (SqlUnique ''workflow_transitions_pkey'')
      else if list_ex (\<lambda>x. transition_key x = transition_key t) (workflow_transitions db)
        then Inl (SqlUnique ''workflow_transitions_workflow_id_from_state_id_to_state_id_key'')
      else if \<not> (workflow_exists db (wt_WorkflowID t) \<and> state_exists db (wt_FromStateID t) \<and>
                state_exists db (wt_ToStateID t)) then Inl SqlForeignKey
      else Inr (t, db\<lparr>workflow_transitions := workflow_transitions db @ [t]\<rparr>))"

text \<open>Both ends must be states of the workflow: otherwise the statement inserts no row.\<close>

definition state_of_workflow :: "'x work_db_scheme \<Rightarrow> uuid \<Rightarrow> uuid \<Rightarrow> bool" where
  "state_of_workflow db w i \<longleftrightarrow> list_ex (\<lambda>s. ws_ID s = i \<and> ws_WorkflowID s = w) (workflow_states db)"

definition q_CreateWorkflowTransition :: "Transition \<Rightarrow> ('x work_db_scheme, sql_error, Transition) stmt" where
  "q_CreateWorkflowTransition t db =
     (if \<not> db_up db then Inl SqlDown
      else if \<not> (state_of_workflow db (wt_WorkflowID t) (wt_FromStateID t) \<and>
                state_of_workflow db (wt_WorkflowID t) (wt_ToStateID t)) then Inl SqlNoRows
      else insert_transition t db)"

text \<open>The two bulk inserts of the seeding carry no such predicate; each is one statement.\<close>

fun insert_rows :: "('a \<Rightarrow> ('s, 'e, 'b) stmt) \<Rightarrow> 'a list \<Rightarrow> ('s, 'e, unit) stmt" where
  "insert_rows f [] = sret ()"
| "insert_rows f (x # xs) = sseq (f x) (insert_rows f xs)"

definition q_BulkCreateWorkflowStates :: "State list \<Rightarrow> ('x work_db_scheme, sql_error, unit) stmt" where
  "q_BulkCreateWorkflowStates = insert_rows q_CreateWorkflowState"

definition q_BulkCreateWorkflowTransitions :: "Transition list \<Rightarrow> ('x work_db_scheme, sql_error, unit) stmt" where
  "q_BulkCreateWorkflowTransitions = insert_rows insert_transition"

section \<open>Deletions and what they take along\<close>

definition set_null :: "uuid list \<Rightarrow> uuid option \<Rightarrow> uuid option" where
  "set_null gone r = (case r of None \<Rightarrow> None | Some i \<Rightarrow> if List.member gone i then None else Some i)"

definition forget_refs :: "uuid list \<Rightarrow> uuid list \<Rightarrow> Approval \<Rightarrow> Approval" where
  "forget_refs edges states a =
     a\<lparr>al_TransitionID := set_null edges (al_TransitionID a), al_FromStateID := set_null states (al_FromStateID a),
       al_ToStateID := set_null states (al_ToStateID a)\<rparr>"

definition delete_transitions :: "(Transition \<Rightarrow> bool) \<Rightarrow> 'x work_db_scheme \<Rightarrow> 'x work_db_scheme" where
  "delete_transitions P db =
     (let gone = map wt_ID (filter P (workflow_transitions db))
      in db\<lparr>workflow_transitions := filter (\<lambda>t. \<not> P t) (workflow_transitions db),
            transition_guards := filter (\<lambda>g. \<not> List.member gone (gd_TransitionID g)) (transition_guards db),
            transition_post_functions :=
              filter (\<lambda>p. \<not> List.member gone (pf_TransitionID p)) (transition_post_functions db),
            transition_approvers := filter (\<lambda>a. \<not> List.member gone (ap_TransitionID a)) (transition_approvers db),
            workflow_approvals := map (forget_refs gone []) (workflow_approvals db)\<rparr>)"

definition delete_states :: "(State \<Rightarrow> bool) \<Rightarrow> 'x work_db_scheme \<Rightarrow> 'x work_db_scheme" where
  "delete_states P db =
     (let gone = map ws_ID (filter P (workflow_states db));
          db1 = delete_transitions (\<lambda>t. List.member gone (wt_FromStateID t) \<or> List.member gone (wt_ToStateID t)) db
      in db1\<lparr>workflow_states := filter (\<lambda>s. \<not> P s) (workflow_states db1),
             workflow_approvals := map (forget_refs [] gone) (workflow_approvals db1)\<rparr>)"

text \<open>\<open>workflow_state_id\<close> of the two entity tables is \<open>NO ACTION\<close>: a row in one of the states refuses
  the deletion, whether it is itself deleted or not.\<close>

definition states_occupied :: "(State \<Rightarrow> bool) \<Rightarrow> 'x work_db_scheme \<Rightarrow> bool" where
  "states_occupied P db \<longleftrightarrow>
     (let gone = map ws_ID (filter P (workflow_states db))
      in list_ex (\<lambda>t. case tk_state t of None \<Rightarrow> False | Some i \<Rightarrow> List.member gone i) (tickets db) \<or>
         list_ex (\<lambda>t. case pi_state t of None \<Rightarrow> False | Some i \<Rightarrow> List.member gone i) (project_items db))"

definition q_DeleteWorkflowState :: "uuid \<Rightarrow> ('x work_db_scheme, sql_error, unit) stmt" where
  "q_DeleteWorkflowState i db =
     (if \<not> db_up db then Inl SqlDown
      else if states_occupied (\<lambda>s. ws_ID s = i) db then Inl SqlForeignKey
      else Inr ((), delete_states (\<lambda>s. ws_ID s = i) db))"

definition q_DeleteWorkflowTransition :: "uuid \<Rightarrow> uuid \<Rightarrow> ('x work_db_scheme, sql_error, nat) stmt" where
  "q_DeleteWorkflowTransition i w db =
     (if \<not> db_up db then Inl SqlDown
      else let P = (\<lambda>t. wt_ID t = i \<and> wt_WorkflowID t = w)
           in Inr (length (filter P (workflow_transitions db)), delete_transitions P db))"

definition q_DeleteWorkflow :: "uuid \<Rightarrow> ('x work_db_scheme, sql_error, unit) stmt" where
  "q_DeleteWorkflow i db =
     (let P = (\<lambda>s. ws_WorkflowID s = i)
      in if \<not> db_up db then Inl SqlDown
         else if \<not> workflow_exists db i then Inr ((), db)
         else if states_occupied P db then Inl SqlForeignKey
         else (let db1 = delete_states P (delete_transitions (\<lambda>t. wt_WorkflowID t = i) db)
               in Inr ((), db1\<lparr>workflows := filter (\<lambda>w. wf_id w \<noteq> i) (workflows db1),
                               spaces := map (\<lambda>s. s\<lparr>s_workflow := set_null [i] (s_workflow s)\<rparr>) (spaces db1)\<rparr>)))"

definition q_CountSpacesUsingWorkflow :: "'x work_db_scheme \<Rightarrow> uuid \<Rightarrow> nat" where
  "q_CountSpacesUsingWorkflow db i =
     length (filter (\<lambda>s. s_workflow s = Some i \<and> \<not> s_deleted s) (spaces db))"

definition q_GetWorkflowInOrg :: "'x work_db_scheme \<Rightarrow> uuid \<Rightarrow> uuid \<Rightarrow> WorkflowRow option" where
  "q_GetWorkflowInOrg db i org = List.find (\<lambda>w. wf_id w = i \<and> wf_org w = org) (workflows db)"

section \<open>The adapter\<close>

definition pg_GetWorkflow :: "'x work_db_scheme \<Rightarrow> uuid \<Rightarrow> tier_error + WorkflowRow" where
  "pg_GetWorkflow db i = tier_row db ''get'' (q_GetWorkflow db i)"

definition pg_ListWorkflows :: "'x work_db_scheme \<Rightarrow> uuid \<Rightarrow> tier_error + WorkflowRow list" where
  "pg_ListWorkflows db org = tier_query db ''list'' (q_ListWorkflows db org)"

text \<open>A failed statement, with the operation's name.\<close>

definition tier_stmt :: "string \<Rightarrow> ('s, sql_error, 'a) stmt \<Rightarrow> ('s, tier_error, 'a) stmt" where
  "tier_stmt what m db = (case m db of Inl _ \<Rightarrow> Inl (ErrTierDatabase what) | Inr r \<Rightarrow> Inr r)"

definition pg_CreateWorkflow :: "uuid \<Rightarrow> instant \<Rightarrow> WorkflowRow \<Rightarrow> ('x work_db_scheme, tier_error, WorkflowRow) stmt" where
  "pg_CreateWorkflow newID now w =
     tier_stmt ''create'' (q_CreateWorkflow (w\<lparr>wf_id := newID, wf_created := now, wf_updated := now\<rparr>))"

definition pg_UpdateWorkflow :: "instant \<Rightarrow> WorkflowRow \<Rightarrow> ('x work_db_scheme, tier_error, WorkflowRow) stmt" where
  "pg_UpdateWorkflow now w =
     tier_stmt ''update'' (q_UpdateWorkflow now (wf_id w) (wf_name w) (wf_description w) (wf_default w) (wf_applies_to w))"

definition pg_DeleteWorkflow :: "uuid \<Rightarrow> ('x work_db_scheme, tier_error, unit) stmt" where
  "pg_DeleteWorkflow i db =
     (case q_DeleteWorkflow i db of
        Inl e \<Rightarrow> if e = SqlForeignKey then Inl ErrWorkflowInUse else Inl (ErrTierDatabase ''delete'')
      | Inr r \<Rightarrow> Inr r)"

definition pg_ListStates :: "'x work_db_scheme \<Rightarrow> uuid \<Rightarrow> tier_error + State list" where
  "pg_ListStates db w = tier_query db ''list states'' (q_ListWorkflowStates db w)"

definition pg_GetState :: "'x work_db_scheme \<Rightarrow> uuid \<Rightarrow> tier_error + State" where
  "pg_GetState db i = tier_row db ''get state'' (q_GetWorkflowState db i)"

definition pg_GetInitialState :: "'x work_db_scheme \<Rightarrow> uuid \<Rightarrow> tier_error + State" where
  "pg_GetInitialState db w = tier_row db ''get initial state'' (q_GetInitialWorkflowState db w)"

definition pg_CreateState :: "uuid \<Rightarrow> State \<Rightarrow> ('x work_db_scheme, tier_error, State) stmt" where
  "pg_CreateState newID s = tier_stmt ''create state'' (q_CreateWorkflowState (s\<lparr>ws_ID := newID\<rparr>))"

definition pg_UpdateState :: "State \<Rightarrow> ('x work_db_scheme, tier_error, State) stmt" where
  "pg_UpdateState s = tier_stmt ''update state'' (q_UpdateWorkflowState s)"

definition pg_DeleteState :: "uuid \<Rightarrow> ('x work_db_scheme, tier_error, unit) stmt" where
  "pg_DeleteState i = tier_stmt ''delete state'' (q_DeleteWorkflowState i)"

definition pg_ListTransitions :: "'x work_db_scheme \<Rightarrow> uuid \<Rightarrow> tier_error + Transition list" where
  "pg_ListTransitions db w = tier_query db ''list transitions'' (q_ListWorkflowTransitions db w)"

definition pg_ListAvailableTransitions :: "'x work_db_scheme \<Rightarrow> uuid \<Rightarrow> uuid \<Rightarrow> tier_error + Transition list" where
  "pg_ListAvailableTransitions db w a =
     tier_query db ''list available transitions'' (q_ListAvailableTransitions db w a)"

definition pg_CreateTransition :: "uuid \<Rightarrow> Transition \<Rightarrow> ('x work_db_scheme, tier_error, Transition) stmt" where
  "pg_CreateTransition newID t db =
     (case q_CreateWorkflowTransition (t\<lparr>wt_ID := newID\<rparr>) db of
        Inl e \<Rightarrow> if e = SqlNoRows then Inl ErrStateNotInWorkflow else Inl (ErrTierDatabase ''create transition'')
      | Inr r \<Rightarrow> Inr r)"

definition pg_DeleteTransition :: "uuid \<Rightarrow> uuid \<Rightarrow> ('x work_db_scheme, tier_error, unit) stmt" where
  "pg_DeleteTransition w i db =
     (case q_DeleteWorkflowTransition i w db of
        Inl e \<Rightarrow> Inl (ErrTierDatabase ''delete transition'')
      | Inr (n, db') \<Rightarrow> if n = 0 then Inl ErrTransitionNotInWorkflow else Inr ((), db'))"

section \<open>The default workflows of a new organisation\<close>

text \<open>
  Three statements per workflow, each on its own: a failure leaves what came before it in place
  unless the caller runs the seeding in a transaction. \<open>fresh\<close> gives the identifiers: 0 the workflow,
  then the states, then the edges. A state is a name, a category and a colour, in position order, the
  first one initial; an edge names its ends by position.
\<close>

definition seed_states :: "(nat \<Rightarrow> uuid) \<Rightarrow> (string \<times> string \<times> string) list \<Rightarrow> State list" where
  "seed_states fresh ss =
     map (\<lambda>(k, n, cat, col). \<lparr>ws_ID = fresh (Suc k), ws_WorkflowID = fresh 0, ws_Name = n, ws_Category = cat,
            ws_Color = col, ws_Position = int k, ws_IsInitial = (k = 0)\<rparr>) (List.enumerate 0 ss)"

definition seed_edges :: "(nat \<Rightarrow> uuid) \<Rightarrow> nat \<Rightarrow> (nat \<times> nat \<times> string) list \<Rightarrow> Transition list" where
  "seed_edges fresh n es =
     map (\<lambda>(k, a, b, name). \<lparr>wt_ID = fresh (Suc (n + k)), wt_WorkflowID = fresh 0, wt_FromStateID = fresh (Suc a),
            wt_ToStateID = fresh (Suc b), wt_Name = name\<rparr>) (List.enumerate 0 es)"

definition seed_workflow ::
    "(nat \<Rightarrow> uuid) \<Rightarrow> instant \<Rightarrow> uuid \<Rightarrow> string \<Rightarrow> string \<Rightarrow> string \<Rightarrow> (string \<times> string \<times> string) list \<Rightarrow>
     (nat \<times> nat \<times> string) list \<Rightarrow> 'x work_db_scheme \<Rightarrow> (tier_error + unit) \<times> 'x work_db_scheme" where
  "seed_workflow fresh now orgID name desc applies ss es db =
     (case q_CreateWorkflow \<lparr>wf_id = fresh 0, wf_org = orgID, wf_name = name, wf_description = Some desc,
             wf_default = True, wf_applies_to = applies, wf_created = now, wf_updated = now\<rparr> db of
        Inl _ \<Rightarrow> (Inl (ErrTierDatabase ''seed workflow''), db)
      | Inr (_, db1) \<Rightarrow>
          (case q_BulkCreateWorkflowStates (seed_states fresh ss) db1 of
             Inl _ \<Rightarrow> (Inl (ErrTierDatabase ''seed workflow states''), db1)
           | Inr (_, db2) \<Rightarrow>
               (case q_BulkCreateWorkflowTransitions (seed_edges fresh (length ss) es) db2 of
                  Inl _ \<Rightarrow> (Inl (ErrTierDatabase ''seed workflow transitions''), db2)
                | Inr (_, db3) \<Rightarrow> (Inr (), db3))))"

definition seedTicketWorkflow ::
    "(nat \<Rightarrow> uuid) \<Rightarrow> instant \<Rightarrow> uuid \<Rightarrow> 'x work_db_scheme \<Rightarrow> (tier_error + unit) \<times> 'x work_db_scheme" where
  "seedTicketWorkflow fresh now orgID =
     seed_workflow fresh now orgID ''Default Service Desk'' ''Default workflow for service desk tickets'' ''tickets''
       [(''open'', ''todo'', ''#3b82f6''), (''in_progress'', ''in_progress'', ''#f59e0b''),
        (''resolved'', ''done'', ''#10b981''), (''closed'', ''done'', ''#6b7280'')]
       [(0, 1, ''Start Progress''), (0, 3, ''Close''), (1, 2, ''Resolve''), (1, 0, ''Reopen''), (1, 3, ''Close''),
        (2, 3, ''Close''), (2, 0, ''Reopen''), (3, 0, ''Reopen''), (2, 1, ''Resume Progress''), (3, 2, ''Reopen''),
        (3, 1, ''Resume Progress'')]"

definition seedProjectWorkflow ::
    "(nat \<Rightarrow> uuid) \<Rightarrow> instant \<Rightarrow> uuid \<Rightarrow> 'x work_db_scheme \<Rightarrow> (tier_error + unit) \<times> 'x work_db_scheme" where
  "seedProjectWorkflow fresh now orgID =
     seed_workflow fresh now orgID ''Default Project'' ''Default workflow for project items'' ''project_items''
       [(''backlog'', ''todo'', ''#9ca3af''), (''todo'', ''todo'', ''#3b82f6''),
        (''in_progress'', ''in_progress'', ''#f59e0b''), (''in_review'', ''in_progress'', ''#8b5cf6''),
        (''done'', ''done'', ''#10b981'')]
       [(0, 1, ''Start''), (0, 2, ''Start Progress''), (1, 2, ''Start Progress''), (1, 0, ''Move to Backlog''),
        (2, 3, ''Submit for Review''), (2, 1, ''Move to Todo''), (2, 0, ''Move to Backlog''), (3, 4, ''Approve''),
        (3, 2, ''Request Changes''), (4, 2, ''Reopen'')]"

definition SeedDefaultWorkflows ::
    "(nat \<Rightarrow> uuid) \<Rightarrow> (nat \<Rightarrow> uuid) \<Rightarrow> instant \<Rightarrow> uuid \<Rightarrow> 'x work_db_scheme \<Rightarrow> (tier_error + unit) \<times> 'x work_db_scheme" where
  "SeedDefaultWorkflows fresh fresh' now orgID db =
     (case seedTicketWorkflow fresh now orgID db of
        (Inl e, db1) \<Rightarrow> (Inl e, db1)
      | (Inr _, db1) \<Rightarrow> seedProjectWorkflow fresh' now orgID db1)"

section \<open>The engine\<close>

definition AvailableTransitions :: "'x work_db_scheme \<Rightarrow> uuid \<Rightarrow> uuid \<Rightarrow> tier_error + Transition list" where
  "AvailableTransitions db w a = pg_ListAvailableTransitions db w a"

definition ValidateTransition :: "'x work_db_scheme \<Rightarrow> uuid \<Rightarrow> uuid \<Rightarrow> uuid \<Rightarrow> tier_error + unit" where
  "ValidateTransition db w a b =
     rbind (pg_ListAvailableTransitions db w a) (\<lambda>ts.
       if list_ex (\<lambda>t. wt_ToStateID t = b) ts then Inr () else Inl ErrInvalidTransition)"

definition ResolveStateName :: "'x work_db_scheme \<Rightarrow> uuid \<Rightarrow> string \<Rightarrow> tier_error + State" where
  "ResolveStateName db w name =
     rbind (pg_ListStates db w) (\<lambda>ss. case List.find (\<lambda>s. ws_Name s = name) ss of
       None \<Rightarrow> Inl ErrNotFound | Some s \<Rightarrow> Inr s)"

section \<open>The administrators' routes\<close>

text \<open>
  \<^verbatim>\<open>internal/core/api/workflows/handler.go\<close>, from parsed requests and behind the organisation-admin
  guard of the router; a response is an HTTP status with what it carries. Any failure of the scoping
  read is the same 404.
\<close>

definition workflowInOrg :: "'x work_db_scheme \<Rightarrow> uuid \<Rightarrow> uuid \<Rightarrow> nat + uuid" where
  "workflowInOrg db orgID i =
     (if \<not> db_up db then Inl 404
      else case q_GetWorkflowInOrg db i orgID of None \<Rightarrow> Inl 404 | Some _ \<Rightarrow> Inr i)"

definition h_CreateWorkflow ::
    "uuid \<Rightarrow> instant \<Rightarrow> WorkflowRow \<Rightarrow> 'x work_db_scheme \<Rightarrow> (nat + WorkflowRow) \<times> 'x work_db_scheme" where
  "h_CreateWorkflow newID now w db =
     (if wf_name w = '''' \<or> wf_applies_to w = '''' then (Inl 400, db)
      else case pg_CreateWorkflow newID now w db of Inl _ \<Rightarrow> (Inl 500, db) | Inr (row, db') \<Rightarrow> (Inr row, db'))"

definition h_UpdateWorkflow ::
    "instant \<Rightarrow> uuid \<Rightarrow> WorkflowRow \<Rightarrow> 'x work_db_scheme \<Rightarrow> (nat + WorkflowRow) \<times> 'x work_db_scheme" where
  "h_UpdateWorkflow now orgID w db =
     (case workflowInOrg db orgID (wf_id w) of
        Inl st \<Rightarrow> (Inl st, db)
      | Inr _ \<Rightarrow> (case pg_UpdateWorkflow now w db of Inl _ \<Rightarrow> (Inl 500, db) | Inr (row, db') \<Rightarrow> (Inr row, db')))"

definition h_DeleteWorkflow :: "uuid \<Rightarrow> uuid \<Rightarrow> 'x work_db_scheme \<Rightarrow> (nat + unit) \<times> 'x work_db_scheme" where
  "h_DeleteWorkflow orgID i db =
     (case workflowInOrg db orgID i of
        Inl st \<Rightarrow> (Inl st, db)
      | Inr _ \<Rightarrow>
          if \<not> db_up db then (Inl 500, db)
          else if q_CountSpacesUsingWorkflow db i > 0 then (Inl 409, db)
          else (case pg_DeleteWorkflow i db of
                  Inl e \<Rightarrow> (Inl (if e = ErrWorkflowInUse then 409 else 500), db)
                | Inr (_, db') \<Rightarrow> (Inr (), db')))"

definition default_state_color :: string where
  "default_state_color = ''#6b7280''"

definition h_CreateState ::
    "uuid \<Rightarrow> uuid \<Rightarrow> State \<Rightarrow> 'x work_db_scheme \<Rightarrow> (nat + State) \<times> 'x work_db_scheme" where
  "h_CreateState newID orgID s db =
     (case workflowInOrg db orgID (ws_WorkflowID s) of
        Inl st \<Rightarrow> (Inl st, db)
      | Inr _ \<Rightarrow>
          if ws_Name s = '''' \<or> ws_Category s = '''' then (Inl 400, db)
          else (case pg_CreateState newID (if ws_Color s = '''' then s\<lparr>ws_Color := default_state_color\<rparr> else s) db of
                  Inl _ \<Rightarrow> (Inl 500, db) | Inr (row, db') \<Rightarrow> (Inr row, db')))"

definition h_DeleteState :: "uuid \<Rightarrow> uuid \<Rightarrow> uuid \<Rightarrow> 'x work_db_scheme \<Rightarrow> (nat + unit) \<times> 'x work_db_scheme" where
  "h_DeleteState orgID w i db =
     (case workflowInOrg db orgID w of
        Inl st \<Rightarrow> (Inl st, db)
      | Inr _ \<Rightarrow>
          (case pg_GetState db i of
             Inl _ \<Rightarrow> (Inl 404, db)
           | Inr s \<Rightarrow>
               if ws_WorkflowID s \<noteq> w then (Inl 404, db)
               else (case pg_DeleteState i db of Inl _ \<Rightarrow> (Inl 500, db) | Inr (_, db') \<Rightarrow> (Inr (), db'))))"

definition h_CreateTransition ::
    "uuid \<Rightarrow> uuid \<Rightarrow> Transition \<Rightarrow> 'x work_db_scheme \<Rightarrow> (nat + Transition) \<times> 'x work_db_scheme" where
  "h_CreateTransition newID orgID t db =
     (case workflowInOrg db orgID (wt_WorkflowID t) of
        Inl st \<Rightarrow> (Inl st, db)
      | Inr _ \<Rightarrow>
          if wt_Name t = '''' then (Inl 400, db)
          else (case pg_CreateTransition newID t db of
                  Inl e \<Rightarrow> (Inl (if e = ErrStateNotInWorkflow then 404 else 500), db)
                | Inr (row, db') \<Rightarrow> (Inr row, db')))"

definition h_DeleteTransition :: "uuid \<Rightarrow> uuid \<Rightarrow> uuid \<Rightarrow> 'x work_db_scheme \<Rightarrow> (nat + unit) \<times> 'x work_db_scheme" where
  "h_DeleteTransition orgID w i db =
     (case workflowInOrg db orgID w of
        Inl st \<Rightarrow> (Inl st, db)
      | Inr _ \<Rightarrow>
          (case pg_DeleteTransition w i db of
             Inl e \<Rightarrow> (Inl (if e = ErrTransitionNotInWorkflow then 404 else 500), db)
           | Inr (_, db') \<Rightarrow> (Inr (), db')))"

section \<open>What an edit keeps\<close>

text \<open>A request after an edit: itself, or with a reference cleared whose edge or state is gone.\<close>

definition ref_forgotten :: "(uuid \<Rightarrow> bool) \<Rightarrow> uuid option \<Rightarrow> uuid option \<Rightarrow> bool" where
  "ref_forgotten exists old new \<longleftrightarrow> new = old \<or> new = None \<and> \<not> opt_exists exists old"

definition forgets :: "'x work_db_scheme \<Rightarrow> Approval \<Rightarrow> Approval \<Rightarrow> bool" where
  "forgets db a b \<longleftrightarrow>
     b = a\<lparr>al_TransitionID := al_TransitionID b, al_FromStateID := al_FromStateID b, al_ToStateID := al_ToStateID b\<rparr> \<and>
     ref_forgotten (transition_exists db) (al_TransitionID a) (al_TransitionID b) \<and>
     ref_forgotten (state_exists db) (al_FromStateID a) (al_FromStateID b) \<and>
     ref_forgotten (state_exists db) (al_ToStateID a) (al_ToStateID b)"

lemma forgets_refl [simp]: "forgets db a a"
  by (simp add: forgets_def ref_forgotten_def)

lemma set_null_None [simp]: "set_null gone None = None"
  by (simp add: set_null_def)

lemma set_null_Nil [simp]: "set_null [] r = r"
  by (simp add: set_null_def split: option.splits)

lemma set_null_forgotten: "(\<And>i. i \<in> set gone \<Longrightarrow> \<not> ex i) \<Longrightarrow> ref_forgotten ex r (set_null gone r)"
  by (auto simp: ref_forgotten_def set_null_def opt_exists_def split: option.splits)

lemma set_null_append: "set_null b (set_null a r) = set_null (a @ b) r"
  by (auto simp: set_null_def split: option.splits)

lemma forget_refs_twice: "forget_refs e2 s2 (forget_refs e1 s1 a) = forget_refs (e1 @ e2) (s1 @ s2) a"
  by (simp add: forget_refs_def set_null_append)

lemma forget_refs_forgets:
  assumes "\<And>i. i \<in> set edges \<Longrightarrow> \<not> transition_exists db i" and "\<And>i. i \<in> set states \<Longrightarrow> \<not> state_exists db i"
  shows "forgets db a (forget_refs edges states a)"
  using assms by (simp add: forgets_def forget_refs_def set_null_forgotten)

lemma forget_refs_fields [simp]:
  "al_ID (forget_refs e s a) = al_ID a" "al_EntityType (forget_refs e s a) = al_EntityType a"
  "al_EntityID (forget_refs e s a) = al_EntityID a" "al_DecidedAt (forget_refs e s a) = al_DecidedAt a"
  "al_Decision (forget_refs e s a) = al_Decision a" "al_DecidedBy (forget_refs e s a) = al_DecidedBy a"
  "al_Reason (forget_refs e s a) = al_Reason a" "IsPending (forget_refs e s a) = IsPending a"
  by (simp_all add: forget_refs_def IsPending_def)

text \<open>Deleting edges and states: which ones, and what the requests then say.\<close>

definition graph_cut :: "'x work_db_scheme \<Rightarrow> uuid list \<Rightarrow> uuid list \<Rightarrow> 'x work_db_scheme \<Rightarrow> bool" where
  "graph_cut db edges states db' \<longleftrightarrow>
     (\<exists>P Q. set edges = wt_ID ` {t \<in> set (workflow_transitions db). P t} \<and>
        set states = ws_ID ` {s \<in> set (workflow_states db). Q s} \<and>
        workflow_states db' = filter (\<lambda>s. \<not> Q s) (workflow_states db) \<and>
        workflow_transitions db' = filter (\<lambda>t. \<not> P t) (workflow_transitions db) \<and>
        workflow_approvals db' = map (forget_refs edges states) (workflow_approvals db) \<and>
        db_up db' = db_up db \<and> tickets db' = tickets db \<and> project_items db' = project_items db)"

lemma delete_transitions_cut:
  "graph_cut db (map wt_ID (filter P (workflow_transitions db))) [] (delete_transitions P db)"
  unfolding graph_cut_def delete_transitions_def Let_def
  by (rule exI [of _ P], rule exI [of _ "\<lambda>_. False"]) simp

lemma delete_states_cut: "\<exists>edges. graph_cut db edges (map ws_ID (filter Q (workflow_states db))) (delete_states Q db)"
proof -
  let ?gone = "map ws_ID (filter Q (workflow_states db))"
  let ?P = "\<lambda>t. List.member ?gone (wt_FromStateID t) \<or> List.member ?gone (wt_ToStateID t)"
  show ?thesis
    unfolding graph_cut_def delete_states_def delete_transitions_def Let_def
    by (intro exI [of _ "map wt_ID (filter ?P (workflow_transitions db))"] exI [of _ ?P] exI [of _ Q])
      (simp add: forget_refs_twice comp_def)
qed

lemma cut_compose:
  assumes "graph_cut db e1 s1 db1" and "graph_cut db1 e2 s2 db2"
  shows "graph_cut db (e1 @ e2) (s1 @ s2) db2"
proof -
  obtain P1 Q1 where c1: "set e1 = wt_ID ` {t \<in> set (workflow_transitions db). P1 t}"
      "set s1 = ws_ID ` {s \<in> set (workflow_states db). Q1 s}"
      "workflow_states db1 = filter (\<lambda>s. \<not> Q1 s) (workflow_states db)"
      "workflow_transitions db1 = filter (\<lambda>t. \<not> P1 t) (workflow_transitions db)"
      "workflow_approvals db1 = map (forget_refs e1 s1) (workflow_approvals db)"
      "db_up db1 = db_up db" "tickets db1 = tickets db" "project_items db1 = project_items db"
    using assms(1) unfolding graph_cut_def by blast
  obtain P2 Q2 where c2: "set e2 = wt_ID ` {t \<in> set (workflow_transitions db1). P2 t}"
      "set s2 = ws_ID ` {s \<in> set (workflow_states db1). Q2 s}"
      "workflow_states db2 = filter (\<lambda>s. \<not> Q2 s) (workflow_states db1)"
      "workflow_transitions db2 = filter (\<lambda>t. \<not> P2 t) (workflow_transitions db1)"
      "workflow_approvals db2 = map (forget_refs e2 s2) (workflow_approvals db1)"
      "db_up db2 = db_up db1" "tickets db2 = tickets db1" "project_items db2 = project_items db1"
    using assms(2) unfolding graph_cut_def by blast
  have "set (e1 @ e2) = wt_ID ` {t \<in> set (workflow_transitions db). P1 t \<or> P2 t}"
    "set (s1 @ s2) = ws_ID ` {s \<in> set (workflow_states db). Q1 s \<or> Q2 s}"
    unfolding set_append c1(1,2) c2(1,2) c1(3,4) by auto
  moreover have "workflow_states db2 = filter (\<lambda>s. \<not> (Q1 s \<or> Q2 s)) (workflow_states db)"
    "workflow_transitions db2 = filter (\<lambda>t. \<not> (P1 t \<or> P2 t)) (workflow_transitions db)"
    by (simp_all add: c1(3,4) c2(3,4) conj_commute)
  moreover have "workflow_approvals db2 = map (forget_refs (e1 @ e2) (s1 @ s2)) (workflow_approvals db)"
    "db_up db2 = db_up db" "tickets db2 = tickets db" "project_items db2 = project_items db"
    by (simp_all add: c1(5-8) c2(5-8) forget_refs_twice comp_def)
  ultimately show ?thesis unfolding graph_cut_def
    by (intro exI [of _ "\<lambda>t. P1 t \<or> P2 t"] exI [of _ "\<lambda>s. Q1 s \<or> Q2 s"] conjI)
qed

lemma gone_by_key:
  assumes "distinct (map f xs)" and "i \<in> f ` {x \<in> set xs. P x}"
  shows "\<not> list_ex (\<lambda>x. f x = i) (filter (\<lambda>x. \<not> P x) xs)"
  using assms(2) distinct_key [OF assms(1)] by (fastforce simp: list_ex_iff)

lemma cut_gone:
  assumes wf: "graph_wf db" and cut: "graph_cut db edges states db'"
  shows "i \<in> set edges \<Longrightarrow> \<not> transition_exists db' i" and "i \<in> set states \<Longrightarrow> \<not> state_exists db' i"
proof -
  obtain P Q where c: "set edges = wt_ID ` {t \<in> set (workflow_transitions db). P t}"
      "set states = ws_ID ` {s \<in> set (workflow_states db). Q s}"
      "workflow_states db' = filter (\<lambda>s. \<not> Q s) (workflow_states db)"
      "workflow_transitions db' = filter (\<lambda>t. \<not> P t) (workflow_transitions db)"
    using cut unfolding graph_cut_def by blast
  have d: "distinct (map wt_ID (workflow_transitions db))" "distinct (map ws_ID (workflow_states db))"
    using wf by (simp_all add: graph_wf_def)
  show "i \<in> set edges \<Longrightarrow> \<not> transition_exists db' i"
    using gone_by_key [OF d(1)] unfolding c transition_exists_def by blast
  show "i \<in> set states \<Longrightarrow> \<not> state_exists db' i"
    using gone_by_key [OF d(2)] unfolding c state_exists_def by blast
qed

lemma distinct_map_filterI: "distinct (map f xs) \<Longrightarrow> distinct (map f (filter P xs))"
  by (simp add: distinct_map_filter)

lemma approvals_wf_forget:
  assumes "approvals_wf db" and "workflow_approvals db' = map (forget_refs edges states) (workflow_approvals db)"
  shows "approvals_wf db'"
  unfolding approvals_wf_def assms(2)
proof (intro conjI)
  note w = assms(1) [unfolded approvals_wf_def]
  show "distinct (map al_ID (map (forget_refs edges states) (workflow_approvals db)))"
    using w [THEN conjunct1] by (simp add: comp_def)
  show "distinct (map (\<lambda>a. (al_EntityType a, al_EntityID a)) (filter IsPending (map (forget_refs edges states) (workflow_approvals db))))"
    using w [THEN conjunct2, THEN conjunct1] by (simp add: comp_def filter_map)
  show "\<forall>a \<in> set (map (forget_refs edges states) (workflow_approvals db)).
        (al_DecidedAt a = None) = (al_Decision a = None) \<and> (al_DecidedAt a = None) = (al_DecidedBy a = None) \<and>
        (al_Reason a = None \<or> al_Decision a \<noteq> None) \<and> al_EntityType a \<in> {''ticket'', ''item''}"
    using w [THEN conjunct2, THEN conjunct2] unfolding list.set_map ball_simps forget_refs_fields .
qed

lemma cut_keeps:
  assumes ok: "tier_ok db" and cut: "graph_cut db edges states db'"
  shows "tier_ok db'" and "\<forall>a. forgets db' a (forget_refs edges states a)"
    and "workflow_approvals db' = map (forget_refs edges states) (workflow_approvals db)"
proof -
  have g: "graph_wf db" and a: "approvals_wf db" and up: "db_up db" using ok by (simp_all add: tier_ok_def)
  show ap: "workflow_approvals db' = map (forget_refs edges states) (workflow_approvals db)"
    using cut unfolding graph_cut_def by blast
  show "\<forall>a. forgets db' a (forget_refs edges states a)"
    using cut_gone [OF g cut] by (blast intro: forget_refs_forgets)
  have "graph_wf db'" using g cut unfolding graph_cut_def graph_wf_def
    by (elim exE conjE) (simp only: distinct_map_filterI simp_thms)
  moreover have "approvals_wf db'" by (rule approvals_wf_forget [OF a ap])
  moreover have "db_up db'" using up cut unfolding graph_cut_def by blast
  ultimately show "tier_ok db'" by (simp add: tier_ok_def)
qed

text \<open>What one edit of the graph does to the rest: the constraints stay, the entities stay, and each
  request stays up to references to what is gone.\<close>

definition graph_edit :: "'x work_db_scheme \<Rightarrow> 'x work_db_scheme \<Rightarrow> bool" where
  "graph_edit db db' \<longleftrightarrow>
     tier_ok db' \<and> tickets db' = tickets db \<and> project_items db' = project_items db \<and>
     (\<exists>f. workflow_approvals db' = map f (workflow_approvals db) \<and> (\<forall>a. forgets db' a (f a)))"

lemma cut_edit: "tier_ok db \<Longrightarrow> graph_cut db edges states db' \<Longrightarrow> graph_edit db db'"
  using cut_keeps [of db edges states db'] unfolding graph_edit_def graph_cut_def by blast

text \<open>An addition to the graph changes no request at all.\<close>

definition graph_addition :: "'x work_db_scheme \<Rightarrow> 'x work_db_scheme \<Rightarrow> bool" where
  "graph_addition db db' \<longleftrightarrow>
     tier_ok db' \<and> workflow_approvals db' = workflow_approvals db \<and> tickets db' = tickets db \<and>
     project_items db' = project_items db"

lemma addition_edit: "graph_addition db db' \<Longrightarrow> graph_edit db db'"
  unfolding graph_addition_def graph_edit_def
  by (elim conjE, intro conjI exI [of _ "\<lambda>a. a"]) simp_all

lemma addition_trans: "graph_addition a b \<Longrightarrow> graph_addition b c \<Longrightarrow> graph_addition a c"
  by (simp add: graph_addition_def)

lemma addition_ok: "graph_addition db db' \<Longrightarrow> tier_ok db'"
  by (simp add: graph_addition_def)

lemma addition_if:
  assumes "tier_ok db" and "graph_wf db'" and "workflow_approvals db' = workflow_approvals db"
    and "tickets db' = tickets db" and "project_items db' = project_items db" and "db_up db' = db_up db"
  shows "graph_addition db db'"
proof -
  have "approvals_wf db' = approvals_wf db" by (simp only: approvals_wf_def assms(3))
  then show ?thesis using assms by (simp add: tier_ok_def graph_addition_def)
qed

text \<open>Replacing the row of one key by a row no other one clashes with.\<close>

lemma distinct_replace:
  assumes "distinct (map g xs)" and "distinct (map k xs)" and "\<And>x. x \<in> set xs \<Longrightarrow> k x \<noteq> i \<Longrightarrow> g x \<noteq> g y"
  shows "distinct (map g (map (\<lambda>x. if k x = i then y else x) xs))"
  using assms
proof (induction xs)
  case Nil
  show ?case by simp
next
  case (Cons a xs)
  show ?case
  proof (cases "k a = i")
    case True
    have n: "k x \<noteq> i" if "x \<in> set xs" for x
    proof
      assume "k x = i"
      then have "k a \<in> k ` set xs" using True that by (metis imageI)
      with Cons.prems(2) show False by simp
    qed
    then have "map (\<lambda>x. if k x = i then y else x) xs = xs" by (intro map_idI) simp
    moreover have "g y \<notin> g ` set xs"
    proof
      assume "g y \<in> g ` set xs"
      then obtain x where "x \<in> set xs" "g x = g y" by auto
      with n Cons.prems(3) [of x] show False by simp
    qed
    ultimately show ?thesis using True Cons.prems(1) by simp
  next
    case False
    have "distinct (map g (map (\<lambda>x. if k x = i then y else x) xs))" using Cons by simp
    moreover have "g a \<noteq> g y" using Cons.prems(3) [of a] False by simp
    moreover have "g a \<noteq> g (if k x = i then y else x)" if "x \<in> set xs" for x
      using calculation(2) Cons.prems(1) that by (cases "k x = i") auto
    then have "g a \<notin> set (map g (map (\<lambda>x. if k x = i then y else x) xs))" by auto
    ultimately show ?thesis using False by (simp del: map_map list.map_comp)
  qed
qed

lemma state_conflict_None:
  "state_conflict s others = None \<Longrightarrow> x \<in> set others \<Longrightarrow> (ws_WorkflowID x, ws_Name x) \<noteq> (ws_WorkflowID s, ws_Name s)"
  by (auto simp: state_conflict_def list_ex_iff split: if_splits)

lemma update_state_graph:
  assumes wf: "graph_wf db" and c: "state_conflict s (filter (\<lambda>x. ws_ID x \<noteq> ws_ID s) (workflow_states db)) = None"
  shows "graph_wf (db\<lparr>workflow_states := map (\<lambda>x. if ws_ID x = ws_ID s then s else x) (workflow_states db)\<rparr>)"
proof -
  have d: "distinct (map ws_ID (workflow_states db))"
    "distinct (map (\<lambda>s. (ws_WorkflowID s, ws_Name s)) (workflow_states db))"
    using wf by (simp_all add: graph_wf_def)
  have "distinct (map ws_ID (map (\<lambda>x. if ws_ID x = ws_ID s then s else x) (workflow_states db)))"
    by (rule distinct_replace [OF d(1,1)])
  moreover have "distinct (map (\<lambda>s. (ws_WorkflowID s, ws_Name s))
      (map (\<lambda>x. if ws_ID x = ws_ID s then s else x) (workflow_states db)))"
    by (rule distinct_replace [OF d(2,1)]) (rule state_conflict_None [OF c], simp)
  ultimately show ?thesis using wf by (simp add: graph_wf_def del: map_map list.map_comp)
qed

lemma create_state_adds:
  assumes ok: "tier_ok db" and c: "q_CreateWorkflowState s db = Inr (r, db')"
  shows "graph_addition db db'"
proof -
  have db': "db' = db\<lparr>workflow_states := workflow_states db @ [s]\<rparr>"
    and n: "\<not> state_exists db (ws_ID s)" "state_conflict s (workflow_states db) = None"
    using c by (auto simp: q_CreateWorkflowState_def split: if_splits option.splits)
  have "(ws_WorkflowID s, ws_Name s) \<notin> (\<lambda>s. (ws_WorkflowID s, ws_Name s)) ` set (workflow_states db)"
    using state_conflict_None [OF n(2)] by force
  then have "graph_wf db'" using tier_okD(2) [OF ok] n(1) by (auto simp: graph_wf_def db' state_exists_def list_ex_iff)
  then show ?thesis by (rule addition_if [OF ok]) (simp_all add: db')
qed

lemma update_state_adds:
  assumes ok: "tier_ok db" and c: "q_UpdateWorkflowState s db = Inr (r, db')"
  shows "graph_addition db db'"
proof -
  obtain old where old: "q_GetWorkflowState db (ws_ID s) = Some old"
    using c by (auto simp: q_UpdateWorkflowState_def split: if_splits option.splits)
  let ?new = "s\<lparr>ws_WorkflowID := ws_WorkflowID old\<rparr>"
  have db': "db' = db\<lparr>workflow_states := map (\<lambda>x. if ws_ID x = ws_ID s then ?new else x) (workflow_states db)\<rparr>"
    and n: "state_conflict ?new (filter (\<lambda>x. ws_ID x \<noteq> ws_ID s) (workflow_states db)) = None"
    using c by (simp_all add: q_UpdateWorkflowState_def old Let_def split: if_splits option.splits)
  have "graph_wf db'"
    using update_state_graph [OF tier_okD(2) [OF ok], of "s\<lparr>ws_WorkflowID := ws_WorkflowID old\<rparr>"] n by (simp add: db')
  then show ?thesis by (rule addition_if [OF ok]) (simp_all add: db')
qed

lemma insert_transition_adds:
  assumes ok: "tier_ok db" and c: "insert_transition t db = Inr (r, db')"
  shows "graph_addition db db'"
proof -
  have db': "db' = db\<lparr>workflow_transitions := workflow_transitions db @ [t]\<rparr>"
    and n: "\<not> transition_exists db (wt_ID t)" "\<not> list_ex (\<lambda>x. transition_key x = transition_key t) (workflow_transitions db)"
    using c by (auto simp: insert_transition_def split: if_splits)
  have "graph_wf db'" using tier_okD(2) [OF ok] n
    by (auto simp: graph_wf_def db' transition_exists_def list_ex_iff transition_key_def)
  then show ?thesis by (rule addition_if [OF ok]) (simp_all add: db')
qed

lemma delete_state_edit:
  assumes ok: "tier_ok db" and c: "q_DeleteWorkflowState i db = Inr (r, db')"
  shows "graph_edit db db'"
  using c delete_states_cut [of db "\<lambda>s. ws_ID s = i"] cut_edit [OF ok]
  by (auto simp: q_DeleteWorkflowState_def split: if_splits)

lemma delete_transition_edit:
  assumes ok: "tier_ok db" and c: "q_DeleteWorkflowTransition i w db = Inr (n, db')"
  shows "graph_edit db db'"
  using c delete_transitions_cut [of db] cut_edit [OF ok]
  by (auto simp: q_DeleteWorkflowTransition_def Let_def split: if_splits)

lemma workflow_row_edit:
  assumes "graph_edit db db'" and "workflow_states db'' = workflow_states db'" and "workflow_transitions db'' = workflow_transitions db'"
    and "workflow_approvals db'' = workflow_approvals db'" and "tickets db'' = tickets db'" and "project_items db'' = project_items db'"
    and "db_up db'' = db_up db'"
  shows "graph_edit db db''"
proof -
  have "graph_wf db'' = graph_wf db'" "approvals_wf db'' = approvals_wf db'"
    by (simp_all only: graph_wf_def approvals_wf_def assms)
  moreover have "forgets db'' = forgets db'"
    by (intro ext) (simp only: forgets_def transition_exists_def [abs_def] state_exists_def [abs_def] assms)
  ultimately show ?thesis using assms unfolding graph_edit_def tier_ok_def by simp
qed

lemma delete_workflow_edit:
  assumes ok: "tier_ok db" and c: "q_DeleteWorkflow i db = Inr (r, db')"
  shows "graph_edit db db'"
proof (cases "workflow_exists db i")
  case False
  with c have "db' = db" by (auto simp: q_DeleteWorkflow_def Let_def split: if_splits)
  with ok show ?thesis by (intro addition_edit) (simp add: graph_addition_def)
next
  case True
  let ?db1 = "delete_transitions (\<lambda>t. wt_WorkflowID t = i) db"
  let ?db2 = "delete_states (\<lambda>s. ws_WorkflowID s = i) ?db1"
  have db': "db' = ?db2\<lparr>workflows := filter (\<lambda>w. wf_id w \<noteq> i) (workflows ?db2),
      spaces := map (\<lambda>s. s\<lparr>s_workflow := set_null [i] (s_workflow s)\<rparr>) (spaces ?db2)\<rparr>"
    using c True by (auto simp: q_DeleteWorkflow_def Let_def split: if_splits)
  obtain edges where "graph_cut ?db1 edges (map ws_ID (filter (\<lambda>s. ws_WorkflowID s = i) (workflow_states ?db1))) ?db2"
    using delete_states_cut by blast
  from cut_edit [OF ok cut_compose [OF delete_transitions_cut this]] have "graph_edit db ?db2" .
  then show ?thesis by (rule workflow_row_edit) (simp_all add: db')
qed

lemma workflow_rows_add:
  assumes "tier_ok db" and "db' = db\<lparr>workflows := ws\<rparr>"
  shows "graph_addition db db'"
  by (rule addition_if [OF assms(1)]) (use tier_okD(2) [OF assms(1)] in \<open>simp_all add: assms(2) graph_wf_def\<close>)

lemma create_workflow_adds: "tier_ok db \<Longrightarrow> q_CreateWorkflow w db = Inr (r, db') \<Longrightarrow> graph_addition db db'"
  by (auto simp: q_CreateWorkflow_def intro: workflow_rows_add split: if_splits)

lemma update_workflow_adds: "tier_ok db \<Longrightarrow> q_UpdateWorkflow now i n d f ap db = Inr (r, db') \<Longrightarrow> graph_addition db db'"
  by (auto simp: q_UpdateWorkflow_def Let_def intro: workflow_rows_add split: if_splits option.splits)

lemma insert_rows_add:
  assumes "\<And>x db r db'. tier_ok db \<Longrightarrow> f x db = Inr (r, db') \<Longrightarrow> graph_addition db db'"
  shows "tier_ok db \<Longrightarrow> insert_rows f xs db = Inr (u, db') \<Longrightarrow> graph_addition db db'"
proof (induction xs arbitrary: db)
  case Nil
  then show ?case by (simp add: sret_def graph_addition_def)
next
  case (Cons x xs)
  then obtain r db1 where x: "f x db = Inr (r, db1)" and xs: "insert_rows f xs db1 = Inr (u, db')"
    by (auto simp: sseq_Inr)
  have "graph_addition db db1" by (rule assms [OF Cons.prems(1) x])
  with Cons.IH [OF addition_ok xs] addition_trans show ?case by blast
qed

lemma seed_workflow_adds:
  assumes ok: "tier_ok db" and s: "seed_workflow fresh now org n d ap ss es db = (r, db')"
  shows "graph_addition db db'"
proof (cases "q_CreateWorkflow \<lparr>wf_id = fresh 0, wf_org = org, wf_name = n, wf_description = Some d,
             wf_default = True, wf_applies_to = ap, wf_created = now, wf_updated = now\<rparr> db")
  case (Inl e)
  with s ok show ?thesis by (simp add: seed_workflow_def graph_addition_def)
next
  case (Inr x)
  then obtain w db1 where w: "x = (w, db1)" by (cases x)
  have a1: "graph_addition db db1" by (rule create_workflow_adds [OF ok Inr [unfolded w]])
  show ?thesis
  proof (cases "q_BulkCreateWorkflowStates (seed_states fresh ss) db1")
    case (Inl e)
    with s Inr w a1 show ?thesis by (simp add: seed_workflow_def)
  next
    case (Inr y)
    note y = this
    then obtain u db2 where u: "y = (u, db2)" by (cases y)
    have "graph_addition db1 db2"
      using insert_rows_add [OF create_state_adds addition_ok [OF a1]] y u by (simp add: q_BulkCreateWorkflowStates_def)
    then have a2: "graph_addition db db2" by (rule addition_trans [OF a1])
    show ?thesis
    proof (cases "q_BulkCreateWorkflowTransitions (seed_edges fresh (length ss) es) db2")
      case (Inl e)
      with s y u \<open>q_CreateWorkflow _ db = Inr x\<close> w a2 show ?thesis by (simp add: seed_workflow_def)
    next
      case (Inr z)
      then obtain v where v: "z = (v, db')"
        using s y u \<open>q_CreateWorkflow _ db = Inr x\<close> w by (cases z) (simp add: seed_workflow_def)
      have "graph_addition db2 db'"
        using insert_rows_add [OF insert_transition_adds addition_ok [OF a2]] Inr v
        by (simp add: q_BulkCreateWorkflowTransitions_def)
      then show ?thesis by (rule addition_trans [OF a2])
    qed
  qed
qed

lemma seed_adds:
  assumes ok: "tier_ok db" and s: "SeedDefaultWorkflows fresh fresh' now org db = (r, db')"
  shows "graph_addition db db'"
proof (cases "seedTicketWorkflow fresh now org db")
  case (Pair r1 db1)
  have a: "graph_addition db db1" using seed_workflow_adds [OF ok] Pair unfolding seedTicketWorkflow_def .
  show ?thesis
  proof (cases r1)
    case (Inl e)
    with s Pair a show ?thesis by (simp add: SeedDefaultWorkflows_def)
  next
    case (Inr u)
    with s Pair have "seedProjectWorkflow fresh' now org db1 = (r, db')" by (simp add: SeedDefaultWorkflows_def)
    then have "graph_addition db1 db'"
      using seed_workflow_adds [OF addition_ok [OF a]] unfolding seedProjectWorkflow_def by blast
    with a show ?thesis by (rule addition_trans)
  qed
qed

lemma tier_stmt_Inr: "tier_stmt w m db = Inr r \<longleftrightarrow> m db = Inr r"
  by (simp add: tier_stmt_def split: sum.splits)

end
