(* ===== verification/WorkflowReach.thy ===== *)
theory WorkflowReach
  imports WorkflowApply WorkflowGraph
begin

text \<open>
  The tier tables as a state machine: one step is one run of the gate, of a transition write, of a
  verdict, of a configuration write or of an edit of the workflow graph, in any order and by anybody.
  The schema's constraints hold along every run, no request is lost and a decided one is never
  rewritten, except that it forgets an edge or a state that is deleted.
\<close>

section \<open>What each operation does to the requests\<close>

definition tier_inv :: "'x work_db_scheme \<Rightarrow> bool" where
  "tier_inv db \<longleftrightarrow> tier_ok db \<and> entities_wf db"

lemma pending_absent:
  "\<not> list_ex (pending_for ty e) as \<longleftrightarrow> (ty, e) \<notin> (\<lambda>a. (al_EntityType a, al_EntityID a)) ` set (filter IsPending as)"
  by (auto simp: list_ex_iff pending_for_def IsPending_def)

lemma pg_CreateApproval_wf:
  assumes ok: "tier_ok db" and c: "pg_CreateApproval i now a db = Inr (x, db')"
  shows "tier_ok db'"
proof -
  note r = pg_CreateApproval_Inr [OF c]
  have n: "(al_EntityType a, al_EntityID a) \<notin>
      (\<lambda>a. (al_EntityType a, al_EntityID a)) ` set (filter IsPending (workflow_approvals db))"
    using r pending_absent by blast
  have db': "db' = db\<lparr>workflow_approvals := workflow_approvals db @ [x]\<rparr>" using r by blast
  have x: "al_ID x = i" "al_EntityType x = al_EntityType a" "al_EntityID x = al_EntityID a"
      "al_DecidedAt x = None" "al_Decision x = None" "al_DecidedBy x = None" "al_Reason x = None"
      "al_EntityType a \<in> {''ticket'', ''item''}" "i \<notin> al_ID ` set (workflow_approvals db)"
    using r by auto
  have "approvals_wf db'"
    using tier_okD(3) [OF ok] x n by (auto simp: approvals_wf_def db' IsPending_def)
  then show ?thesis using ok by (simp add: tier_ok_def graph_wf_def db')
qed

lemma gate_writes:
  assumes ok: "tier_ok db" and g: "Gate pg_tier_store i now req db = Inr (d, db')"
  shows "db' = db \<or> (\<exists>a c. pg_CreateApproval i now a db = Inr (c, db'))"
proof (cases "gq_WorkflowID req = uuid_nil")
  case True
  with g show ?thesis by (simp add: Gate_def)
next
  case False
  from ok False g show ?thesis
  proof (cases rule: pg.gate_cases)
    case (held d0 t p isNew)
    then show ?thesis
      by (auto simp: requestApproval_def rbind_eq_Inr split: sum.splits if_splits)
  qed auto
qed

lemma decides_unique:
  assumes wf: "approvals_wf db" and p: "List.find (decides i sp) (workflow_approvals db) = Some p"
  shows "x \<in> set (workflow_approvals db) \<Longrightarrow> decides i sp x \<longleftrightarrow> x = p"
    and "x \<in> set (workflow_approvals db) \<Longrightarrow> al_ID x = al_ID p \<longleftrightarrow> x = p"
proof -
  have d: "distinct (map al_ID (workflow_approvals db))" using wf by (simp add: approvals_wf_def)
  have m: "p \<in> set (workflow_approvals db)" "decides i sp p" using p by (auto dest: find_Some_in)
  show "x \<in> set (workflow_approvals db) \<Longrightarrow> decides i sp x \<longleftrightarrow> x = p"
    using distinct_key [OF d _ m(1)] m(2) by (auto simp: decides_def)
  show "x \<in> set (workflow_approvals db) \<Longrightarrow> al_ID x = al_ID p \<longleftrightarrow> x = p"
    using distinct_key [OF d _ m(1)] by auto
qed

lemma distinct_filter_shrink:
  assumes "distinct (map k (filter P xs))" and "\<And>x. k (f x) = k x" and "\<And>x. P (f x) \<Longrightarrow> P x"
  shows "distinct (map k (filter P (map f xs)))"
  using assms(1)
proof (induction xs)
  case Nil
  show ?case by simp
next
  case (Cons x xs)
  have sub: "k ` set (filter P (map f xs)) \<subseteq> k ` set (filter P xs)"
    using assms(2,3) by (force simp: image_iff)
  with Cons assms(2) [of x] assms(3) [of x] show ?case by (auto split: if_splits)
qed

text \<open>Writing a verdict into the one row that matches keeps every constraint.\<close>

lemma decided_wf:
  assumes wf: "approvals_wf db" and d: "d \<in> {''approved'', ''declined''}"
    and db': "workflow_approvals db' = map (\<lambda>x. if decides i sp x then set_decision now u d rs x else x) (workflow_approvals db)"
  shows "approvals_wf db'"
proof -
  let ?f = "\<lambda>x. if decides i sp x then set_decision now u d rs x else x"
  have id: "al_ID (?f x) = al_ID x" "(al_EntityType (?f x), al_EntityID (?f x)) = (al_EntityType x, al_EntityID x)"
    "IsPending (?f x) \<Longrightarrow> IsPending x" for x
    by (auto simp: set_decision_def decides_def IsPending_def split: if_splits)
  have "map al_ID (workflow_approvals db') = map al_ID (workflow_approvals db)" using id(1) by (simp add: db')
  then have "distinct (map al_ID (workflow_approvals db'))" using wf by (simp add: approvals_wf_def)
  moreover have "distinct (map (\<lambda>a. (al_EntityType a, al_EntityID a)) (filter IsPending (workflow_approvals db')))"
  proof -
    have d: "distinct (map (\<lambda>a. (al_EntityType a, al_EntityID a)) (filter IsPending (workflow_approvals db)))"
      using wf by (simp add: approvals_wf_def)
    show ?thesis unfolding db' by (rule distinct_filter_shrink [OF d]) (rule id(2), rule id(3))
  qed
  moreover have "\<forall>a \<in> set (workflow_approvals db').
        (al_DecidedAt a = None) = (al_Decision a = None) \<and> (al_DecidedAt a = None) = (al_DecidedBy a = None) \<and>
        (al_Reason a = None \<or> al_Decision a \<noteq> None) \<and> al_EntityType a \<in> {''ticket'', ''item''}"
    using wf by (auto simp: db' approvals_wf_def set_decision_def)
  ultimately show ?thesis unfolding approvals_wf_def by (intro conjI)
qed

lemma tier_frame_inv:
  "tier_inv db \<Longrightarrow> tier_frame db db' \<Longrightarrow> tier_inv db'"
  unfolding tier_inv_def tier_ok_def graph_wf_def approvals_wf_def tier_frame_def entities_wf_def
  by (elim conjE) (simp only: simp_thms, blast?)

lemma ApplyTransition_frame:
  assumes "tier_inv db" and "ApplyTransition fresh now inp db = (r, db')"
  shows "tier_frame db db'"
proof (cases r)
  case (Inl e)
  with assms(2) have "db' = db" by (simp add: ApplyTransition_def in_tx_Inl)
  then show ?thesis by simp
next
  case (Inr u)
  with assms(2) have "apply_input fresh now inp db = Inr (u, db')"
    by (auto simp: ApplyTransition_def in_tx_Inr stmt_run)
  from apply_input_Inr [OF _ this] assms(1) show ?thesis by (simp add: tier_inv_def)
qed

text \<open>A verdict: every other request untouched, the decided one rewritten in its decision columns.\<close>

definition verdict_on :: "'x work_db_scheme \<Rightarrow> Approval \<Rightarrow> Approval \<Rightarrow> 'x work_db_scheme \<Rightarrow> bool" where
  "verdict_on db p q db' \<longleftrightarrow>
     p \<in> set (workflow_approvals db) \<and> IsPending p \<and>
     workflow_approvals db' = map (\<lambda>x. if al_ID x = al_ID p then q else x) (workflow_approvals db)"

lemma DecideAndApply_inv:
  assumes inv: "tier_inv db" and r: "DecideAndApply fresh now inp db = (Inr row, db')"
  shows "tier_inv db' \<and> (\<exists>p. verdict_on db p row db' \<and> al_ID p = di_ApprovalID inp \<and> al_SpaceID p = di_SpaceID inp \<and>
    row = set_decision now (di_ActorID inp) (di_Decision inp) (di_Reason inp) p)"
proof -
  have ewf: "entities_wf db" and awf: "approvals_wf db" using inv by (simp_all add: tier_inv_def tier_ok_def)
  from DecideAndApply_Inr [OF ewf r] obtain p u where
    p: "List.find (decides (di_ApprovalID inp) (di_SpaceID inp)) (workflow_approvals db) = Some p"
    and row: "row = set_decision now (di_ActorID inp) (di_Decision inp) (di_Reason inp) p"
    and u: "u = db\<lparr>workflow_approvals := map (\<lambda>x. if decides (di_ApprovalID inp) (di_SpaceID inp) x
              then set_decision now (di_ActorID inp) (di_Decision inp) (di_Reason inp) x else x) (workflow_approvals db)\<rparr>"
    and a: "case di_Apply inp of None \<Rightarrow> db' = u
         | Some a \<Rightarrow> moved u a db' \<and> tier_frame u db' \<and> audit_log db' = audit_log u @ [transition_audit_row (fresh 0) a]"
    by blast
  have dec: "di_Decision inp \<in> {''approved'', ''declined''}"
    using r by (auto simp: DecideAndApply_def in_tx_Inr stmt_run record_decision_def
        split: sum.splits if_splits dest: q_DecideApproval_Inr)
  have "approvals_wf u"
    by (rule decided_wf [OF awf dec, of _ "di_ApprovalID inp" "di_SpaceID inp" now "di_ActorID inp" "di_Reason inp"])
       (simp add: u)
  then have uinv: "tier_inv u" using inv by (simp add: tier_inv_def tier_ok_def graph_wf_def entities_wf_def u)
  have fr: "tier_frame u db'" using a by (auto split: option.splits)
  have mem: "p \<in> set (workflow_approvals db)" "decides (di_ApprovalID inp) (di_SpaceID inp) p"
    using p by (auto dest: find_Some_in)
  have "workflow_approvals db' = map (\<lambda>x. if al_ID x = al_ID p then row else x) (workflow_approvals db)"
    using fr decides_unique [OF awf p] by (auto simp: tier_frame_def u row)
  with mem have "verdict_on db p row db'" by (simp add: verdict_on_def decides_def IsPending_def)
  with mem row tier_frame_inv [OF uinv fr] show ?thesis by (auto simp: decides_def)
qed

lemma Decide_Inr:
  assumes "Decide st (Some app) req db = (Inr a, db')"
  obtains rs inp where "decisionReason (dr_Decision req) (dr_Reason req) = Inr rs"
    "decide_input st db req rs = Inr inp" "app inp db = (Inr a, db')"
  using assms by (auto simp: Decide_def split: sum.splits)

lemma Decide_failed:
  assumes "Decide st (Some (DecideAndApply fresh now)) req db = (Inl e, db')"
  shows "db' = db"
  using assms by (auto simp: Decide_def DecideAndApply_def in_tx_Inl split: sum.splits)


section \<open>Runs\<close>

inductive tier_step :: "'x work_db_scheme \<Rightarrow> 'x work_db_scheme \<Rightarrow> bool" where
  step_gate: "Gate pg_tier_store i now req db = Inr (d, db') \<Longrightarrow> tier_step db db'"
| step_apply: "ApplyTransition fresh now inp db = (r, db') \<Longrightarrow> tier_step db db'"
| step_decide: "Decide pg_tier_store (Some (DecideAndApply fresh now)) req db = (v, db') \<Longrightarrow> tier_step db db'"
| step_guard: "pg_CreateGuard i g db = Inr (g', db') \<Longrightarrow> tier_step db db'"
| step_unguard: "pg_DeleteGuard t i db = Inr (u, db') \<Longrightarrow> tier_step db db'"
| step_post: "pg_CreatePostFunction i p db = Inr (p', db') \<Longrightarrow> tier_step db db'"
| step_unpost: "pg_DeletePostFunction t i db = Inr (u, db') \<Longrightarrow> tier_step db db'"
| step_approver: "pg_CreateApprover i ap db = Inr (ap', db') \<Longrightarrow> tier_step db db'"
| step_unapprover: "pg_DeleteApprover t i db = Inr (u, db') \<Longrightarrow> tier_step db db'"
| step_workflow: "pg_CreateWorkflow i now w db = Inr (w', db') \<Longrightarrow> tier_step db db'"
| step_reworkflow: "pg_UpdateWorkflow now w db = Inr (w', db') \<Longrightarrow> tier_step db db'"
| step_unworkflow: "pg_DeleteWorkflow i db = Inr (u, db') \<Longrightarrow> tier_step db db'"
| step_state: "pg_CreateState i s db = Inr (s', db') \<Longrightarrow> tier_step db db'"
| step_restate: "pg_UpdateState s db = Inr (s', db') \<Longrightarrow> tier_step db db'"
| step_unstate: "pg_DeleteState i db = Inr (u, db') \<Longrightarrow> tier_step db db'"
| step_edge: "pg_CreateTransition i e db = Inr (e', db') \<Longrightarrow> tier_step db db'"
| step_unedge: "pg_DeleteTransition w i db = Inr (u, db') \<Longrightarrow> tier_step db db'"
| step_seed: "SeedDefaultWorkflows fresh fresh' now org db = (r, db') \<Longrightarrow> tier_step db db'"

inductive_cases tier_stepE: "tier_step db db'"

text \<open>What a later state remembers of an earlier one. Every step but an edit of the graph keeps a decided
  request word for word and a pending one up to its verdict.\<close>

definition request_word :: "Approval \<Rightarrow> Approval \<Rightarrow> bool" where
  "request_word a b \<longleftrightarrow>
     al_ID b = al_ID a \<and> al_EntityType b = al_EntityType a \<and> al_EntityID b = al_EntityID a \<and>
     al_SpaceID b = al_SpaceID a \<and> al_FromStatus b = al_FromStatus a \<and> al_ToStatus b = al_ToStatus a \<and>
     al_RequestedBy b = al_RequestedBy a \<and> al_RequestedAt b = al_RequestedAt a \<and>
     al_TransitionID b = al_TransitionID a \<and> al_FromStateID b = al_FromStateID a \<and>
     al_ToStateID b = al_ToStateID a \<and> (\<not> IsPending a \<longrightarrow> b = a)"

definition remembers :: "'x work_db_scheme \<Rightarrow> 'x work_db_scheme \<Rightarrow> bool" where
  "remembers db db' \<longleftrightarrow>
     (\<forall>a \<in> set (workflow_approvals db). \<exists>b \<in> set (workflow_approvals db'). request_word a b)"

lemma remembers_refl: "workflow_approvals db' = workflow_approvals db \<Longrightarrow> remembers db db'"
  by (auto simp: remembers_def request_word_def)

text \<open>Over a whole run the references to the graph are kept or cleared.\<close>

definition ref_cleared :: "uuid option \<Rightarrow> uuid option \<Rightarrow> bool" where
  "ref_cleared old new \<longleftrightarrow> new = old \<or> new = None"

definition same_but_refs :: "Approval \<Rightarrow> Approval \<Rightarrow> bool" where
  "same_but_refs a b \<longleftrightarrow>
     b = a\<lparr>al_TransitionID := al_TransitionID b, al_FromStateID := al_FromStateID b, al_ToStateID := al_ToStateID b\<rparr>"

definition same_request :: "Approval \<Rightarrow> Approval \<Rightarrow> bool" where
  "same_request a b \<longleftrightarrow>
     al_ID b = al_ID a \<and> al_EntityType b = al_EntityType a \<and> al_EntityID b = al_EntityID a \<and>
     al_SpaceID b = al_SpaceID a \<and> al_FromStatus b = al_FromStatus a \<and> al_ToStatus b = al_ToStatus a \<and>
     al_RequestedBy b = al_RequestedBy a \<and> al_RequestedAt b = al_RequestedAt a \<and>
     ref_cleared (al_TransitionID a) (al_TransitionID b) \<and> ref_cleared (al_FromStateID a) (al_FromStateID b) \<and>
     ref_cleared (al_ToStateID a) (al_ToStateID b) \<and>
     (\<not> IsPending a \<longrightarrow> same_but_refs a b)"

definition recalls :: "'x work_db_scheme \<Rightarrow> 'x work_db_scheme \<Rightarrow> bool" where
  "recalls db db' \<longleftrightarrow>
     (\<forall>a \<in> set (workflow_approvals db). \<exists>b \<in> set (workflow_approvals db'). same_request a b)"

text \<open>Everything a request refers to is still there.\<close>

definition refs_live :: "Approval \<Rightarrow> 'x work_db_scheme \<Rightarrow> bool" where
  "refs_live a db \<longleftrightarrow> opt_exists (transition_exists db) (al_TransitionID a) \<and>
     opt_exists (state_exists db) (al_FromStateID a) \<and> opt_exists (state_exists db) (al_ToStateID a)"

lemma same_but_refs_refl [simp]: "same_but_refs a a"
  by (simp add: same_but_refs_def)

lemma same_but_refs_fields:
  assumes "same_but_refs a b"
  shows "al_ID b = al_ID a" "al_EntityType b = al_EntityType a" "al_EntityID b = al_EntityID a"
    "al_SpaceID b = al_SpaceID a" "al_FromStatus b = al_FromStatus a" "al_ToStatus b = al_ToStatus a"
    "al_RequestedBy b = al_RequestedBy a" "al_RequestedAt b = al_RequestedAt a" "IsPending b = IsPending a"
proof -
  note b = assms [unfolded same_but_refs_def]
  show "al_ID b = al_ID a" "al_EntityType b = al_EntityType a" "al_EntityID b = al_EntityID a"
    "al_SpaceID b = al_SpaceID a" "al_FromStatus b = al_FromStatus a" "al_ToStatus b = al_ToStatus a"
    "al_RequestedBy b = al_RequestedBy a" "al_RequestedAt b = al_RequestedAt a" "IsPending b = IsPending a"
    by (subst b, simp add: IsPending_def)+
qed

lemma same_but_refs_trans: "same_but_refs a b \<Longrightarrow> same_but_refs b c \<Longrightarrow> same_but_refs a c"
  by (cases a; cases b; cases c) (simp add: same_but_refs_def)

lemma word_same: "request_word a b \<Longrightarrow> same_request a b"
  by (auto simp: request_word_def same_request_def ref_cleared_def)

lemma ref_cleared_trans: "ref_cleared x y \<Longrightarrow> ref_cleared y z \<Longrightarrow> ref_cleared x z"
  by (auto simp: ref_cleared_def)

lemma same_request_trans: "same_request a b \<Longrightarrow> same_request b c \<Longrightarrow> same_request a c"
  unfolding same_request_def using same_but_refs_fields(9) [of a b]
  by (elim conjE, intro conjI) (simp_all, (erule (1) ref_cleared_trans)+, blast intro: same_but_refs_trans)

lemma recalls_refl: "recalls db db"
  by (auto simp: recalls_def same_request_def ref_cleared_def)

lemma recalls_trans: "recalls a b \<Longrightarrow> recalls b c \<Longrightarrow> recalls a c"
  unfolding recalls_def by (meson same_request_trans)

lemma remembers_recalls: "remembers db db' \<Longrightarrow> recalls db db'"
  unfolding remembers_def recalls_def using word_same by blast

lemma forgets_same:
  assumes "forgets db a b"
  shows "same_request a b"
proof -
  note f = assms [unfolded forgets_def ref_forgotten_def, folded same_but_refs_def]
  have "ref_cleared (al_TransitionID a) (al_TransitionID b)" "ref_cleared (al_FromStateID a) (al_FromStateID b)"
    "ref_cleared (al_ToStateID a) (al_ToStateID b)"
    using f by (auto simp: ref_cleared_def)
  moreover have "same_but_refs a b" using f by blast
  ultimately show ?thesis by (simp add: same_request_def same_but_refs_fields)
qed

lemma forgets_live:
  assumes "forgets db a b" and "refs_live a db"
  shows "b = a"
proof -
  note f = assms(1) [unfolded forgets_def ref_forgotten_def, folded same_but_refs_def]
  have "al_TransitionID b = al_TransitionID a" "al_FromStateID b = al_FromStateID a" "al_ToStateID b = al_ToStateID a"
    using f assms(2) by (auto simp: refs_live_def)
  moreover have "same_but_refs a b" using f by blast
  ultimately show ?thesis by (cases a; cases b) (simp add: same_but_refs_def)
qed

text \<open>One step, seen from the requests: the constraints stay, every request is recalled, and a decided
  one whose references are live afterwards is untouched.\<close>

definition step_good :: "'x work_db_scheme \<Rightarrow> 'x work_db_scheme \<Rightarrow> bool" where
  "step_good db db' \<longleftrightarrow> tier_inv db' \<and> recalls db db' \<and>
     (\<forall>a \<in> set (workflow_approvals db). \<not> IsPending a \<and> refs_live a db' \<longrightarrow> a \<in> set (workflow_approvals db'))"

lemma remembers_good: "tier_inv db' \<and> remembers db db' \<Longrightarrow> step_good db db'"
  using remembers_recalls [of db db'] by (auto simp: step_good_def remembers_def request_word_def)

lemma edit_good:
  assumes inv: "tier_inv db" and e: "graph_edit db db'"
  shows "step_good db db'"
proof -
  obtain f where f: "workflow_approvals db' = map f (workflow_approvals db)" "\<And>a. forgets db' a (f a)"
    using e unfolding graph_edit_def by blast
  have "tier_inv db'" using inv e by (simp add: tier_inv_def graph_edit_def entities_wf_def)
  moreover have "recalls db db'" using forgets_same [OF f(2)] by (auto simp: recalls_def f(1))
  moreover have "a \<in> set (workflow_approvals db')" if "a \<in> set (workflow_approvals db)" "refs_live a db'" for a
    using forgets_live [OF f(2) that(2)] that(1) by (metis f(1) image_eqI list.set_map)
  ultimately show ?thesis by (simp add: step_good_def)
qed

lemma config_writes:
  "pg_CreateGuard i g db = Inr (g', db') \<Longrightarrow> \<exists>x. db' = db\<lparr>transition_guards := x\<rparr>"
  "pg_DeleteGuard t i db = Inr (u, db') \<Longrightarrow> \<exists>x. db' = db\<lparr>transition_guards := x\<rparr>"
  "pg_CreatePostFunction i p db = Inr (p', db') \<Longrightarrow> \<exists>x. db' = db\<lparr>transition_post_functions := x\<rparr>"
  "pg_DeletePostFunction t i db = Inr (u, db') \<Longrightarrow> \<exists>x. db' = db\<lparr>transition_post_functions := x\<rparr>"
  "pg_CreateApprover i ap db = Inr (ap', db') \<Longrightarrow> \<exists>x. db' = db\<lparr>transition_approvers := x\<rparr>"
  "pg_DeleteApprover t i db = Inr (u, db') \<Longrightarrow> \<exists>x. db' = db\<lparr>transition_approvers := x\<rparr>"
  by (auto simp: pg_CreateGuard_def q_CreateTransitionGuard_def pg_DeleteGuard_def q_DeleteTransitionGuard_def
      pg_CreatePostFunction_def q_CreateTransitionPostFunction_def pg_DeletePostFunction_def
      q_DeleteTransitionPostFunction_def pg_CreateApprover_def q_CreateTransitionApprover_def
      pg_DeleteApprover_def q_DeleteTransitionApprover_def Let_def split: sum.splits if_splits prod.splits)

lemma config_keeps:
  assumes "tier_inv db" and "(\<exists>x. db' = db\<lparr>transition_guards := x\<rparr>) \<or>
      (\<exists>x. db' = db\<lparr>transition_post_functions := x\<rparr>) \<or> (\<exists>x. db' = db\<lparr>transition_approvers := x\<rparr>)"
  shows "tier_inv db' \<and> remembers db db'"
  using assms
  by (auto simp: tier_inv_def tier_ok_def graph_wf_def approvals_wf_def entities_wf_def intro!: remembers_refl)

lemma gate_keeps:
  assumes inv: "tier_inv db" and g: "Gate pg_tier_store i now req db = Inr (d, db')"
  shows "tier_inv db' \<and> remembers db db'"
proof -
  have ok: "tier_ok db" using inv by (simp add: tier_inv_def)
  from gate_writes [OF ok g] show ?thesis
  proof
    assume "db' = db"
    with inv show ?thesis by (simp add: remembers_refl)
  next
    assume "\<exists>a c. pg_CreateApproval i now a db = Inr (c, db')"
    then obtain a c where c: "pg_CreateApproval i now a db = Inr (c, db')" by blast
    have db': "db' = db\<lparr>workflow_approvals := workflow_approvals db @ [c]\<rparr>"
      using pg_CreateApproval_Inr [OF c] by blast
    have "remembers db db'" by (auto simp: remembers_def request_word_def db')
    moreover have "entities_wf db'" using inv by (simp add: tier_inv_def entities_wf_def db')
    ultimately show ?thesis using pg_CreateApproval_wf [OF ok c] by (simp add: tier_inv_def)
  qed
qed

lemma verdict_remembers:
  assumes v: "verdict_on db p (set_decision now u dc rs p) db'" and d: "distinct (map al_ID (workflow_approvals db))"
  shows "remembers db db'"
  unfolding remembers_def
proof
  fix a
  assume a: "a \<in> set (workflow_approvals db)"
  let ?b = "if al_ID a = al_ID p then set_decision now u dc rs p else a"
  have "?b \<in> set (workflow_approvals db')" using v a by (auto simp: verdict_on_def)
  moreover have "request_word a ?b"
  proof (cases "al_ID a = al_ID p")
    case True
    then have "a = p" using distinct_key [OF d a] v by (auto simp: verdict_on_def)
    then show ?thesis using v by (simp add: request_word_def set_decision_def verdict_on_def)
  next
    case False
    then show ?thesis by (simp add: request_word_def)
  qed
  ultimately show "\<exists>b \<in> set (workflow_approvals db'). request_word a b" ..
qed

lemma decide_keeps:
  assumes inv: "tier_inv db" and d: "Decide pg_tier_store (Some (DecideAndApply fresh now)) req db = (v, db')"
  shows "tier_inv db' \<and> remembers db db'"
proof (cases v)
  case (Inl e)
  with d Decide_failed have "db' = db" by blast
  with inv show ?thesis by (simp add: remembers_refl)
next
  case (Inr a)
  with d obtain inp where "DecideAndApply fresh now inp db = (Inr a, db')" by (blast elim: Decide_Inr)
  from DecideAndApply_inv [OF inv this] verdict_remembers inv show ?thesis
    by (fastforce simp: tier_inv_def tier_ok_def approvals_wf_def)
qed

lemma tier_invD: "tier_inv db \<Longrightarrow> tier_ok db"
  by (simp add: tier_inv_def)

lemma graph_step_edit:
  assumes ok: "tier_ok db"
  shows "pg_CreateWorkflow i now w db = Inr (w', db') \<Longrightarrow> graph_edit db db'"
    and "pg_UpdateWorkflow now w db = Inr (w', db') \<Longrightarrow> graph_edit db db'"
    and "pg_DeleteWorkflow i db = Inr (u, db') \<Longrightarrow> graph_edit db db'"
    and "pg_CreateState i s db = Inr (s', db') \<Longrightarrow> graph_edit db db'"
    and "pg_UpdateState s db = Inr (s', db') \<Longrightarrow> graph_edit db db'"
    and "pg_DeleteState i db = Inr (u, db') \<Longrightarrow> graph_edit db db'"
    and "pg_CreateTransition i e db = Inr (e', db') \<Longrightarrow> graph_edit db db'"
    and "pg_DeleteTransition v i db = Inr (u, db') \<Longrightarrow> graph_edit db db'"
    and "SeedDefaultWorkflows fresh fresh' now org db = (r, db') \<Longrightarrow> graph_edit db db'"
proof -
  note adds = addition_edit [OF create_workflow_adds [OF ok]] addition_edit [OF update_workflow_adds [OF ok]]
    addition_edit [OF create_state_adds [OF ok]] addition_edit [OF update_state_adds [OF ok]]
    addition_edit [OF insert_transition_adds [OF ok]] addition_edit [OF seed_adds [OF ok]]
  show "pg_CreateWorkflow i now w db = Inr (w', db') \<Longrightarrow> graph_edit db db'"
    by (auto simp: pg_CreateWorkflow_def tier_stmt_Inr dest: adds(1))
  show "pg_UpdateWorkflow now w db = Inr (w', db') \<Longrightarrow> graph_edit db db'"
    by (auto simp: pg_UpdateWorkflow_def tier_stmt_Inr dest: adds(2))
  show "pg_DeleteWorkflow i db = Inr (u, db') \<Longrightarrow> graph_edit db db'"
    by (auto simp: pg_DeleteWorkflow_def dest: delete_workflow_edit [OF ok] split: sum.splits if_splits)
  show "pg_CreateState i s db = Inr (s', db') \<Longrightarrow> graph_edit db db'"
    by (auto simp: pg_CreateState_def tier_stmt_Inr dest: adds(3))
  show "pg_UpdateState s db = Inr (s', db') \<Longrightarrow> graph_edit db db'"
    by (auto simp: pg_UpdateState_def tier_stmt_Inr dest: adds(4))
  show "pg_DeleteState i db = Inr (u, db') \<Longrightarrow> graph_edit db db'"
    by (auto simp: pg_DeleteState_def tier_stmt_Inr dest: delete_state_edit [OF ok])
  show "pg_CreateTransition i e db = Inr (e', db') \<Longrightarrow> graph_edit db db'"
    by (auto simp: pg_CreateTransition_def q_CreateWorkflowTransition_def dest: adds(5) split: sum.splits if_splits)
  show "pg_DeleteTransition v i db = Inr (u, db') \<Longrightarrow> graph_edit db db'"
    by (auto simp: pg_DeleteTransition_def dest: delete_transition_edit [OF ok] split: sum.splits if_splits)
  show "SeedDefaultWorkflows fresh fresh' now org db = (r, db') \<Longrightarrow> graph_edit db db'"
    by (rule adds(6))
qed

lemma config_good:
  assumes inv: "tier_inv db"
  shows "pg_CreateGuard i g db = Inr (g', db') \<Longrightarrow> step_good db db'"
    and "pg_DeleteGuard t i db = Inr (u, db') \<Longrightarrow> step_good db db'"
    and "pg_CreatePostFunction i p db = Inr (p', db') \<Longrightarrow> step_good db db'"
    and "pg_DeletePostFunction t i db = Inr (u, db') \<Longrightarrow> step_good db db'"
    and "pg_CreateApprover i ap db = Inr (ap', db') \<Longrightarrow> step_good db db'"
    and "pg_DeleteApprover t i db = Inr (u, db') \<Longrightarrow> step_good db db'"
  by (rule remembers_good, rule config_keeps [OF inv], drule config_writes, simp)+

lemma step_good:
  assumes "tier_step db db'" and inv: "tier_inv db"
  shows "step_good db db'"
  using assms(1)
proof (cases rule: tier_step.cases)
  case (step_apply fresh now inp r)
  with ApplyTransition_frame [OF inv] have "tier_frame db db'" by blast
  then have "tier_inv db' \<and> remembers db db'"
    using tier_frame_inv [OF inv] remembers_refl [of db' db] by (simp add: tier_frame_def)
  then show ?thesis by (rule remembers_good)
next
  case (step_gate i now req d)
  from gate_keeps [OF inv this] show ?thesis by (rule remembers_good)
next
  case (step_decide fresh now req v)
  from decide_keeps [OF inv this] show ?thesis by (rule remembers_good)
next
  case step_guard
  then show ?thesis by (rule config_good(1) [OF inv])
next
  case step_unguard
  then show ?thesis by (rule config_good(2) [OF inv])
next
  case step_post
  then show ?thesis by (rule config_good(3) [OF inv])
next
  case step_unpost
  then show ?thesis by (rule config_good(4) [OF inv])
next
  case step_approver
  then show ?thesis by (rule config_good(5) [OF inv])
next
  case step_unapprover
  then show ?thesis by (rule config_good(6) [OF inv])
next
  case step_workflow
  then show ?thesis by (rule edit_good [OF inv graph_step_edit(1) [OF tier_invD [OF inv]]])
next
  case step_reworkflow
  then show ?thesis by (rule edit_good [OF inv graph_step_edit(2) [OF tier_invD [OF inv]]])
next
  case step_unworkflow
  then show ?thesis by (rule edit_good [OF inv graph_step_edit(3) [OF tier_invD [OF inv]]])
next
  case step_state
  then show ?thesis by (rule edit_good [OF inv graph_step_edit(4) [OF tier_invD [OF inv]]])
next
  case step_restate
  then show ?thesis by (rule edit_good [OF inv graph_step_edit(5) [OF tier_invD [OF inv]]])
next
  case step_unstate
  then show ?thesis by (rule edit_good [OF inv graph_step_edit(6) [OF tier_invD [OF inv]]])
next
  case step_edge
  then show ?thesis by (rule edit_good [OF inv graph_step_edit(7) [OF tier_invD [OF inv]]])
next
  case step_unedge
  then show ?thesis by (rule edit_good [OF inv graph_step_edit(8) [OF tier_invD [OF inv]]])
next
  case step_seed
  then show ?thesis by (rule edit_good [OF inv graph_step_edit(9) [OF tier_invD [OF inv]]])
qed

lemma run_keeps: "tier_step\<^sup>*\<^sup>* db db' \<Longrightarrow> tier_inv db \<Longrightarrow> tier_inv db' \<and> recalls db db'"
proof (induction rule: rtranclp_induct)
  case base
  then show ?case by (simp add: recalls_refl)
next
  case (step db1 db2)
  then have "step_good db1 db2" by (blast intro: step_good)
  with step show ?case unfolding step_good_def by (blast intro: recalls_trans)
qed

lemma run_decided:
  assumes "(\<lambda>x y. tier_step x y \<and> refs_live a y)\<^sup>*\<^sup>* db db'" and "tier_inv db"
    and "a \<in> set (workflow_approvals db)" and "\<not> IsPending a"
  shows "tier_inv db' \<and> a \<in> set (workflow_approvals db')"
  using assms(1)
proof (induction rule: rtranclp_induct)
  case base
  with assms show ?case by blast
next
  case (step db1 db2)
  then have "step_good db1 db2" by (blast intro: step_good)
  with step assms(4) show ?case unfolding step_good_def by blast
qed

section \<open>A small service desk\<close>

text \<open>One workflow: \<open>open\<close> leads to \<open>done\<close>, for the assignee of a described ticket, and unassigns it;
  \<open>open\<close> leads to \<open>review\<close> with the consent of a team. Ticket 71 is free, ticket 72 waits for review.\<close>

definition demo_approval :: Approval where
  "demo_approval =
     \<lparr>al_ID = 81, al_TransitionID = Some 62, al_EntityType = ''ticket'', al_EntityID = 72, al_SpaceID = 31,
      al_FromStateID = Some 51, al_ToStateID = Some 53, al_FromStatus = ''open'', al_ToStatus = ''review'',
      al_RequestedBy = 11, al_RequestedAt = 3, al_DecidedBy = None, al_DecidedAt = None, al_Decision = None,
      al_Reason = None, al_RequestedByName = '''', al_DecidedByName = '''', al_CanDecide = False\<rparr>"

definition demo_work :: work_db where
  "demo_work =
     \<lparr>db_up = True, users = users demo_db, memberships = memberships demo_db, teams = teams demo_db,
      team_members = team_members demo_db,
      spaces = map (\<lambda>s. s\<lparr>s_workflow := Some 50\<rparr>) (spaces demo_db), space_grants = space_grants demo_db,
      audit_log = [],
      workflows = [\<lparr>wf_id = 50, wf_org = 1, wf_name = ''Desk'', wf_description = None, wf_default = True,
          wf_applies_to = ''tickets'', wf_created = 0, wf_updated = 0\<rparr>],
      workflow_states =
        [\<lparr>ws_ID = 51, ws_WorkflowID = 50, ws_Name = ''open'', ws_Category = ''todo'', ws_Color = '''', ws_Position = 0, ws_IsInitial = True\<rparr>,
         \<lparr>ws_ID = 52, ws_WorkflowID = 50, ws_Name = ''done'', ws_Category = ''done'', ws_Color = '''', ws_Position = 1, ws_IsInitial = False\<rparr>,
         \<lparr>ws_ID = 53, ws_WorkflowID = 50, ws_Name = ''review'', ws_Category = ''in_progress'', ws_Color = '''', ws_Position = 2, ws_IsInitial = False\<rparr>],
      workflow_transitions =
        [\<lparr>wt_ID = 61, wt_WorkflowID = 50, wt_FromStateID = 51, wt_ToStateID = 52, wt_Name = ''Finish''\<rparr>,
         \<lparr>wt_ID = 62, wt_WorkflowID = 50, wt_FromStateID = 51, wt_ToStateID = 53, wt_Name = ''Ask''\<rparr>],
      transition_guards =
        [\<lparr>gd_ID = 63, gd_TransitionID = 61, gd_Class = ''condition'', gd_Kind = ''actor_is_assignee'', gd_Position = 0,
          gd_Capability = None, gd_TeamID = None, gd_FieldKey = None\<rparr>,
         \<lparr>gd_ID = 64, gd_TransitionID = 61, gd_Class = ''validator'', gd_Kind = ''field_required'', gd_Position = 1,
          gd_Capability = None, gd_TeamID = None, gd_FieldKey = Some ''description''\<rparr>],
      transition_post_functions =
        [\<lparr>pf_ID = 65, pf_TransitionID = 61, pf_Kind = ''assign_to'', pf_Position = 0, pf_AssigneeUserID = None,
          pf_FieldKey = None, pf_FieldValue = None\<rparr>],
      transition_approvers =
        [\<lparr>ap_ID = 66, ap_TransitionID = 62, ap_SubjectType = ''team'', ap_SubjectID = 21, ap_SubjectName = '''',
          ap_SubjectMissing = False\<rparr>],
      workflow_approvals = [demo_approval],
      tickets =
        [\<lparr>tk_id = 71, tk_space = 31, tk_number = 1, tk_title = ''Printer'', tk_description = ''Out of ink'',
          tk_status = ''open'', tk_priority = ''low'', tk_reporter = Some 10, tk_assignee = Some 11, tk_due = None,
          tk_resolved = None, tk_state = Some 51, tk_requester = None, tk_deleted = False,
          tk_rank = [], tk_created = 0, tk_updated = 0\<rparr>,
         \<lparr>tk_id = 72, tk_space = 31, tk_number = 2, tk_title = ''Door'', tk_description = '''', tk_status = ''open'',
          tk_priority = ''low'', tk_reporter = Some 10, tk_assignee = None, tk_due = None, tk_resolved = None,
          tk_state = Some 51, tk_requester = None, tk_deleted = False,
          tk_rank = [], tk_created = 0, tk_updated = 0\<rparr>],
      project_items = [], pages = [], page_revisions = [], entity_shares = [], tags = [], entity_tags = []\<rparr>"

definition demo_request :: "uuid \<Rightarrow> string \<Rightarrow> GateRequest" where
  "demo_request ticket target =
     \<lparr>gq_OrgID = 1, gq_SpaceID = 31, gq_WorkflowID = 50, gq_EntityType = ''ticket'', gq_EntityID = ticket,
      gq_CurrentStatus = ''open'', gq_TargetStatus = target, gq_CurrentStateID = Some 51, gq_ActorID = 11,
      gq_ActorCapabilities = [],
      gq_Entity = \<lparr>en_AssigneeID = Some 11, en_DueAt = None, en_Description = ''Out of ink'', en_Tags = []\<rparr>\<rparr>"

lemma demo_work_inv: "tier_inv demo_work"
  by (simp add: tier_inv_def tier_ok_def graph_wf_def approvals_wf_def entities_wf_def demo_work_def
      demo_approval_def IsPending_def)

lemma demo_work_ok: "tier_ok demo_work"
  using demo_work_inv by (simp add: tier_inv_def)


definition gate_actor :: "'x org_db_scheme \<Rightarrow> GateRequest \<Rightarrow> Actor" where
  "gate_actor db req =
     \<lparr>ac_UserID = gq_ActorID req, ac_TeamIDs = effective_team_ids db (gq_OrgID req) (gq_ActorID req),
      ac_Capabilities = gq_ActorCapabilities req\<rparr>"

lemma pg_actor_of: "pg.actor_of db req = gate_actor db req"
  by (simp add: pg.actor_of_def gate_actor_def)

definition guards_hold :: "'x work_db_scheme \<Rightarrow> GateRequest \<Rightarrow> Transition \<Rightarrow> bool" where
  "guards_hold db req t \<longleftrightarrow>
     (\<forall>g \<in> set (q_ListTransitionGuards db (wt_ID t)). gd_Class g \<in> {GuardConditionClass, GuardValidatorClass} \<longrightarrow>
        guard_holds g (gate_actor db req) (gq_Entity req))"

text \<open>The edge a request asks to take: from where the entity stands to the state its target names.\<close>

definition edge_asked :: "'x work_db_scheme \<Rightarrow> GateRequest \<Rightarrow> State \<Rightarrow> State \<Rightarrow> Transition \<Rightarrow> bool" where
  "edge_asked db req fr to t \<longleftrightarrow>
     ResolveFromState pg_tier_store db (gq_WorkflowID req) (gq_CurrentStatus req) (gq_CurrentStateID req) = Inr (Some fr) \<and>
     to \<in> set (workflow_states db) \<and> ws_WorkflowID to = gq_WorkflowID req \<and> ws_Name to = gq_TargetStatus req \<and>
     ws_ID to \<noteq> ws_ID fr \<and>
     t \<in> set (workflow_transitions db) \<and> wt_WorkflowID t = gq_WorkflowID req \<and>
     wt_FromStateID t = ws_ID fr \<and> wt_ToStateID t = ws_ID to"

section \<open>Properties\<close>

text \<open>
  C9. The chokepoint lets a status change through exactly when it should. For a space with a
  workflow, \<open>Gate\<close> answers with a decision the caller may write if and only if the workflow has an
  edge from the state the entity is in to a different state the target names, every condition and
  validator on that edge holds for the actor (with the teams the tables give them) and the entity,
  nobody's approval is configured on it, and its post-functions plan; the decision then names that
  edge and carries that plan, and nothing was written.
\<close>

theorem Gate_clears_exactly:
  assumes ok: "tier_ok db" and w: "gq_WorkflowID req \<noteq> uuid_nil"
  shows "Gate pg_tier_store i now req db = Inr (d, db') \<and> cleared d \<longleftrightarrow>
    db' = db \<and>
    (\<exists>fr to t es. edge_asked db req fr to t \<and> guards_hold db req t \<and>
       q_ListTransitionApprovers db (wt_ID t) = [] \<and>
       PlanPostFunctions (q_ListTransitionPostFunctions db (wt_ID t)) = Inr es \<and>
       d = zero_decision\<lparr>td_FromStateID := Some (ws_ID fr), td_FromStatus := ws_Name fr,
             td_ToStateID := Some (ws_ID to), td_TransitionID := Some (wt_ID t), td_Effects := es\<rparr>)"
  unfolding pg.gate_cleared [OF ok w] pg_actor_of edge_asked_def guards_hold_def
  by (intro iffI; elim exE conjE; intro exI conjI; assumption)

theorem Gate_clears_exactly_witness:
  "\<exists>d. Gate pg_tier_store 90 5 (demo_request 71 ''done'') demo_work = Inr (d, demo_work) \<and> cleared d \<and>
     td_Effects d = [SetAssignee None]"
proof -
  let ?d = "zero_decision\<lparr>td_FromStateID := Some 51, td_FromStatus := ''open'', td_ToStateID := Some 52,
    td_TransitionID := Some 61, td_Effects := [SetAssignee None]\<rparr>"
  have w: "gq_WorkflowID (demo_request 71 ''done'') \<noteq> uuid_nil" by (simp add: demo_request_def)
  let ?fr = "workflow_states demo_work ! 0" and ?to = "workflow_states demo_work ! 1"
    and ?t = "workflow_transitions demo_work ! 0"
  have "edge_asked demo_work (demo_request 71 ''done'') ?fr ?to ?t" unfolding edge_asked_def by code_simp
  moreover have "guards_hold demo_work (demo_request 71 ''done'') ?t" unfolding guards_hold_def by code_simp
  moreover have "q_ListTransitionApprovers demo_work (wt_ID ?t) = []" by code_simp
  moreover have "PlanPostFunctions (q_ListTransitionPostFunctions demo_work (wt_ID ?t)) = Inr [SetAssignee None]"
    by code_simp
  moreover have "?d = zero_decision\<lparr>td_FromStateID := Some (ws_ID ?fr), td_FromStatus := ws_Name ?fr,
             td_ToStateID := Some (ws_ID ?to), td_TransitionID := Some (wt_ID ?t), td_Effects := [SetAssignee None]\<rparr>"
    by (simp add: demo_work_def)
  ultimately have "Gate pg_tier_store 90 5 (demo_request 71 ''done'') demo_work = Inr (?d, demo_work) \<and> cleared ?d"
    using Gate_clears_exactly [OF demo_work_ok w, of 90 5 ?d demo_work] by blast
  then show ?thesis by (auto simp: zero_decision_def)
qed


text \<open>
  C10. A move that needs consent writes the request and nothing else. When \<open>Gate\<close> answers pending,
  the edge exists and its guards held, approvers are configured on it, no effect is planned, and the
  request in the answer is the one pending request of that entity. If there was none before, it is
  freshly made with the entity's status, the target, the space and the requester, and the database
  is the one before with that row appended to the requests: no entity, no other request and no other
  table is touched. Otherwise it is the one that was already there, and the database is untouched.
\<close>

theorem Gate_holds_one_request:
  assumes ok: "tier_ok db" and w: "gq_WorkflowID req \<noteq> uuid_nil"
    and g: "Gate pg_tier_store i now req db = Inr (d, db')" and p: "td_Pending d = Some p"
  shows "{a \<in> set (workflow_approvals db'). pending_for (gq_EntityType req) (gq_EntityID req) a} = {p} \<and>
    td_Effects d = [] \<and>
    (if td_PendingIsNew d
     then (\<forall>a \<in> set (workflow_approvals db). \<not> pending_for (gq_EntityType req) (gq_EntityID req) a) \<and>
       al_FromStatus p = gq_CurrentStatus req \<and> al_ToStatus p = gq_TargetStatus req \<and>
       al_RequestedBy p = gq_ActorID req \<and> al_SpaceID p = gq_SpaceID req \<and> al_TransitionID p = td_TransitionID d \<and>
       db' = db\<lparr>workflow_approvals := workflow_approvals db @ [p]\<rparr>
     else db' = db) \<and>
    (\<exists>t \<in> set (workflow_transitions db). wt_WorkflowID t = gq_WorkflowID req \<and>
      td_TransitionID d = Some (wt_ID t) \<and> q_ListTransitionApprovers db (wt_ID t) \<noteq> [] \<and> guards_hold db req t)"
proof -
  note h = pg.gate_held [OF ok w g p, unfolded pg_actor_of]
  have ok': "tier_ok db'"
    using gate_writes [OF ok g] ok pg_CreateApproval_wf [OF ok] by auto
  have f: "q_GetPendingApprovalForEntity db' (gq_EntityType req) (gq_EntityID req) = Some p" using h by blast
  have d: "distinct (map (\<lambda>a. (al_EntityType a, al_EntityID a)) (filter IsPending (workflow_approvals db')))"
    using ok' by (simp add: tier_ok_def approvals_wf_def)
  have in_p: "p \<in> set (workflow_approvals db')" "pending_for (gq_EntityType req) (gq_EntityID req) p"
    using f by (auto simp: q_GetPendingApprovalForEntity_def dest: find_Some_in)
  have "a = p" if "a \<in> set (workflow_approvals db')" "pending_for (gq_EntityType req) (gq_EntityID req) a" for a
    by (rule distinct_key [OF d]) (use that in_p in \<open>auto simp: pending_for_def IsPending_def\<close>)
  with in_p have "{a \<in> set (workflow_approvals db'). pending_for (gq_EntityType req) (gq_EntityID req) a} = {p}" by blast
  moreover have n: "q_GetPendingApprovalForEntity db (gq_EntityType req) (gq_EntityID req) = None \<longleftrightarrow>
      (\<forall>a \<in> set (workflow_approvals db). \<not> pending_for (gq_EntityType req) (gq_EntityID req) a)"
    by (auto simp: q_GetPendingApprovalForEntity_def find_None_iff)
  moreover have "\<exists>t \<in> set (workflow_transitions db). wt_WorkflowID t = gq_WorkflowID req \<and>
      td_TransitionID d = Some (wt_ID t) \<and> q_ListTransitionApprovers db (wt_ID t) \<noteq> [] \<and> guards_hold db req t"
    using h unfolding guards_hold_def by blast
  moreover have "td_Effects d = []" using h by blast
  moreover have "if td_PendingIsNew d
     then (\<forall>a \<in> set (workflow_approvals db). \<not> pending_for (gq_EntityType req) (gq_EntityID req) a) \<and>
       al_FromStatus p = gq_CurrentStatus req \<and> al_ToStatus p = gq_TargetStatus req \<and>
       al_RequestedBy p = gq_ActorID req \<and> al_SpaceID p = gq_SpaceID req \<and> al_TransitionID p = td_TransitionID d \<and>
       db' = db\<lparr>workflow_approvals := workflow_approvals db @ [p]\<rparr>
     else db' = db"
  proof (cases "td_PendingIsNew d")
    case True
    with h have none: "q_GetPendingApprovalForEntity db (gq_EntityType req) (gq_EntityID req) = None" by simp
    with f have "db' \<noteq> db" by auto
    then obtain a c where c: "pg_CreateApproval i now a db = Inr (c, db')" using gate_writes [OF ok g] by blast
    from pg_CreateApproval_Inr [OF c] have db': "db' = db\<lparr>workflow_approvals := workflow_approvals db @ [c]\<rparr>" by blast
    have "p \<in> set (workflow_approvals db) \<or> p = c" using in_p(1) by (simp add: db') blast
    then have "p = c" using none in_p(2) n by blast
    with True h none db' show ?thesis unfolding n [symmetric] by simp
  next
    case False
    with h show ?thesis by simp
  qed
  ultimately show ?thesis by (intro conjI)
qed

theorem Gate_holds_one_request_witness:
  "\<exists>d db' p. Gate pg_tier_store 90 5 (demo_request 71 ''review'') demo_work = Inr (d, db') \<and> td_PendingIsNew d \<and>
     {a \<in> set (workflow_approvals db'). pending_for ''ticket'' 71 a} = {p} \<and>
     db' = demo_work\<lparr>workflow_approvals := [demo_approval, p]\<rparr>"
proof -
  have "case Gate pg_tier_store 90 5 (demo_request 71 ''review'') demo_work of
      Inl _ \<Rightarrow> False | Inr (d, db') \<Rightarrow> td_Pending d \<noteq> None \<and> td_PendingIsNew d" by code_simp
  then obtain d db' p where g: "Gate pg_tier_store 90 5 (demo_request 71 ''review'') demo_work = Inr (d, db')"
    and p: "td_Pending d = Some p" and n: "td_PendingIsNew d" by (auto split: sum.splits)
  have w: "gq_WorkflowID (demo_request 71 ''review'') \<noteq> uuid_nil" by (simp add: demo_request_def)
  have a: "workflow_approvals demo_work = [demo_approval]" by (simp add: demo_work_def)
  note t = Gate_holds_one_request [OF demo_work_ok w g p]
  have "{a \<in> set (workflow_approvals db'). pending_for ''ticket'' 71 a} = {p}"
    using t [THEN conjunct1] by (simp only: demo_request_def GateRequest.select_convs)
  moreover have "db' = demo_work\<lparr>workflow_approvals := [demo_approval, p]\<rparr>"
    using t n by (simp add: a)
  ultimately show ?thesis using g n by blast
qed

text \<open>
  C11. The picker offers what the chokepoint would take. For the same request and database, a
  transition to the target status (other than staying put) is among \<open>OfferedTransitions\<close> if and only
  if \<open>Gate\<close> for that target neither answers that the entity is already there nor refuses it, except
  by a validator: nothing the picker shows is refused for want of an edge or by a condition, and
  nothing it hides could have been taken.
\<close>

theorem Offered_iff_Gate:
  assumes ok: "tier_ok db" and w: "gq_WorkflowID req \<noteq> uuid_nil"
    and g: "Gate pg_tier_store i now req db = Inr (d, db')"
    and og: "OfferedTransitions pg_tier_store db req = Inr og"
  shows "(\<exists>off \<in> set (og_Transitions og).
        of_ToStatus off = gq_TargetStatus req \<and> Some (of_ToStateID off) \<noteq> td_FromStateID d) \<longleftrightarrow>
    \<not> td_NoOp d \<and> (\<forall>r. td_Refused d = Some r \<longrightarrow> rf_Class r = GuardValidatorClass)"
  by (rule pg.gate_offered [OF ok w g og])

theorem Offered_iff_Gate_witness:
  "\<exists>og. OfferedTransitions pg_tier_store demo_work (demo_request 71 ''done'') = Inr og \<and>
     (\<exists>off \<in> set (og_Transitions og). of_ToStatus off = ''done'')"
proof -
  have "case Gate pg_tier_store 90 5 (demo_request 71 ''done'') demo_work of
      Inl _ \<Rightarrow> False | Inr (d, db') \<Rightarrow> \<not> td_NoOp d \<and> td_Refused d = None" by code_simp
  then obtain d db' where g: "Gate pg_tier_store 90 5 (demo_request 71 ''done'') demo_work = Inr (d, db')"
    and d: "\<not> td_NoOp d" "td_Refused d = None" by (auto split: sum.splits)
  have w: "gq_WorkflowID (demo_request 71 ''done'') \<noteq> uuid_nil" by (simp add: demo_request_def)
  obtain og where og: "OfferedTransitions pg_tier_store demo_work (demo_request 71 ''done'') = Inr og"
    using pg.offered [OF demo_work_ok w] by blast
  with Offered_iff_Gate [OF demo_work_ok w g og] d show ?thesis by (auto simp: demo_request_def)
qed

text \<open>
  C12. Whoever may decide is told, and nobody else. On a reachable database the recipients of an
  approval request are computed without error and without repetition, and a live account is among
  them exactly when \<open>CanDecide\<close> accepts it as an approver of the transition, its teams expanded as
  authorisation expands them.
\<close>

theorem Told_iff_may_decide:
  assumes ok: "tier_ok db"
  shows "\<exists>us. ApproverRecipients pg_tier_store db org i = Inr us \<and> distinct us \<and>
    (\<forall>u. account_live db u \<longrightarrow> (u \<in> set us \<longleftrightarrow>
       CanDecide (q_ListTransitionApprovers db i)
         \<lparr>ac_UserID = u, ac_TeamIDs = effective_team_ids db org u, ac_Capabilities = caps\<rparr>))"
  by (rule pg.recipients_decide [OF ok])

theorem Told_iff_may_decide_witness:
  "\<exists>us. ApproverRecipients pg_tier_store demo_work 1 62 = Inr us \<and> 11 \<in> set us \<and> 10 \<notin> set us"
proof -
  have "account_live demo_work 10" "account_live demo_work 11" by code_simp+
  moreover have "CanDecide (q_ListTransitionApprovers demo_work 62)
      \<lparr>ac_UserID = 11, ac_TeamIDs = effective_team_ids demo_work 1 11, ac_Capabilities = []\<rparr>" by code_simp
  moreover have "\<not> CanDecide (q_ListTransitionApprovers demo_work 62)
      \<lparr>ac_UserID = 10, ac_TeamIDs = effective_team_ids demo_work 1 10, ac_Capabilities = []\<rparr>" by code_simp
  ultimately show ?thesis
    using Told_iff_may_decide [OF demo_work_ok, of 1 62 "[]"] by metis
qed


lemma decided_moves:
  assumes ewf: "entities_wf db" and da: "DecideAndApply fresh now inp db = (Inr a, db')" and sp: "al_SpaceID p = dr_SpaceID req"
    and dec: "dr_Decision req \<noteq> DecisionApproved \<Longrightarrow> di_Apply inp = None"
    and app: "dr_Decision req = DecisionApproved \<Longrightarrow>
       \<exists>es. PlanPostFunctions (q_ListTransitionPostFunctions db t) = Inr es \<and>
         di_Apply inp = Some \<lparr>ai_EntityType = al_EntityType p, ai_EntityID = al_EntityID p, ai_OrgID = dr_OrgID req,
           ai_SpaceID = dr_SpaceID req, ai_ActorID = dr_ActorID req, ai_ToStatus = al_ToStatus p,
           ai_ToStateID = al_ToStateID p, ai_ExpectFromStatus = al_FromStatus p, ai_TransitionID = Some t,
           ai_Effects = es, ai_ApprovalID = Some (al_ID p)\<rparr>"
  shows "if dr_Decision req = DecisionApproved
            then entity_status db (al_EntityType p) (al_EntityID p) (al_SpaceID p) = Some (al_FromStatus p) \<and>
              entity_status db' (al_EntityType p) (al_EntityID p) (al_SpaceID p) = Some (al_ToStatus p) \<and>
              (\<forall>ty i sp. (ty, i, sp) \<noteq> (al_EntityType p, al_EntityID p, al_SpaceID p) \<longrightarrow>
                 entity_status db' ty i sp = entity_status db ty i sp) \<and>
              (\<exists>ev. audit_log db' = audit_log db @ [ev] \<and> au_actor ev = Some (dr_ActorID req) \<and>
                 au_entity_id ev = al_EntityID p \<and> map_of (au_payload ev) ''from'' = Some (MText (al_FromStatus p)) \<and>
                 map_of (au_payload ev) ''to'' = Some (MText (al_ToStatus p)) \<and>
                 map_of (au_payload ev) ''approval_id'' = Some (MUuid (al_ID p)))
            else db' = db\<lparr>workflow_approvals := workflow_approvals db'\<rparr>"
proof (cases "dr_Decision req = DecisionApproved")
  case True
  let ?in = "\<lambda>es. \<lparr>ai_EntityType = al_EntityType p, ai_EntityID = al_EntityID p, ai_OrgID = dr_OrgID req,
       ai_SpaceID = dr_SpaceID req, ai_ActorID = dr_ActorID req, ai_ToStatus = al_ToStatus p,
       ai_ToStateID = al_ToStateID p, ai_ExpectFromStatus = al_FromStatus p, ai_TransitionID = Some t,
       ai_Effects = es, ai_ApprovalID = Some (al_ID p)\<rparr>"
  from app [OF True] obtain es where ap: "di_Apply inp = Some (?in es)" by blast
  from DecideAndApply_Inr [OF ewf da] obtain x where m: "moved (db\<lparr>workflow_approvals := x\<rparr>) (?in es) db'"
    and au: "audit_log db' = audit_log db @ [transition_audit_row (fresh 0) (?in es)]"
    unfolding ap by auto
  have "\<exists>ev. audit_log db' = audit_log db @ [ev] \<and> au_actor ev = Some (dr_ActorID req) \<and>
             au_entity_id ev = al_EntityID p \<and> map_of (au_payload ev) ''from'' = Some (MText (al_FromStatus p)) \<and>
             map_of (au_payload ev) ''to'' = Some (MText (al_ToStatus p)) \<and>
             map_of (au_payload ev) ''approval_id'' = Some (MUuid (al_ID p))"
    by (rule exI, rule conjI, rule au) (simp add: transition_audit_row_def)
  with True m sp show ?thesis by (simp add: moved_def)
next
  case False
  from DecideAndApply_Inr [OF ewf da] obtain x where "db' = db\<lparr>workflow_approvals := x\<rparr>"
    unfolding dec [OF False] by auto
  with False show ?thesis by simp
qed

text \<open>
  C13. A verdict lands whole or not at all. If \<open>Decide\<close> fails, for any reason, the database is what
  it was. If it succeeds, exactly one request was decided: pending, of the named space, by an actor
  its transition's approvers accept, with a reason when it is a decline; and on approval the entity
  moved from precisely the status the request had captured to the one it asked for, no other
  entity's status changed, and one audit event records the move; on decline nothing else changed.
\<close>

theorem Decide_all_or_nothing:
  assumes inv: "tier_inv db"
  shows "case Decide pg_tier_store (Some (DecideAndApply fresh now)) req db of
      (Inl e, db') \<Rightarrow> db' = db
    | (Inr a, db') \<Rightarrow>
        (\<exists>p t. verdict_on db p a db' \<and> al_ID p = dr_ApprovalID req \<and> al_SpaceID p = dr_SpaceID req \<and>
           al_TransitionID p = Some t \<and>
           CanDecide (q_ListTransitionApprovers db t)
             \<lparr>ac_UserID = dr_ActorID req, ac_TeamIDs = effective_team_ids db (dr_OrgID req) (dr_ActorID req), ac_Capabilities = []\<rparr> \<and>
           al_Decision a = Some (dr_Decision req) \<and> al_DecidedBy a = Some (dr_ActorID req) \<and>
           (dr_Decision req = DecisionDeclined \<longrightarrow> al_Reason a \<noteq> None) \<and>
           (if dr_Decision req = DecisionApproved
            then entity_status db (al_EntityType p) (al_EntityID p) (al_SpaceID p) = Some (al_FromStatus p) \<and>
              entity_status db' (al_EntityType p) (al_EntityID p) (al_SpaceID p) = Some (al_ToStatus p) \<and>
              (\<forall>ty i sp. (ty, i, sp) \<noteq> (al_EntityType p, al_EntityID p, al_SpaceID p) \<longrightarrow>
                 entity_status db' ty i sp = entity_status db ty i sp) \<and>
              (\<exists>ev. audit_log db' = audit_log db @ [ev] \<and> au_actor ev = Some (dr_ActorID req) \<and>
                 au_entity_id ev = al_EntityID p \<and> map_of (au_payload ev) ''from'' = Some (MText (al_FromStatus p)) \<and>
                 map_of (au_payload ev) ''to'' = Some (MText (al_ToStatus p)) \<and>
                 map_of (au_payload ev) ''approval_id'' = Some (MUuid (al_ID p)))
            else db' = db\<lparr>workflow_approvals := workflow_approvals db'\<rparr>))"
proof (cases "Decide pg_tier_store (Some (DecideAndApply fresh now)) req db")
  case (Pair v db')
  show ?thesis
  proof (cases v)
    case (Inl e)
    with Pair Decide_failed [of pg_tier_store fresh now req db e db'] show ?thesis by simp
  next
    case (Inr a)
    have ok: "tier_ok db" and ewf: "entities_wf db" using inv by (simp_all add: tier_inv_def)
    from Pair Inr obtain rs inp where rs: "decisionReason (dr_Decision req) (dr_Reason req) = Inr rs"
      and di: "decide_input pg_tier_store db req rs = Inr inp" and da: "DecideAndApply fresh now inp db = (Inr a, db')"
      by (auto elim: Decide_Inr)
    from decide_input_Inr [OF ok di] obtain p t where
      p: "List.find (\<lambda>a. al_ID a = dr_ApprovalID req \<and> al_SpaceID a = dr_SpaceID req) (workflow_approvals db) = Some p"
      and pt: "IsPending p" "al_TransitionID p = Some t"
      and cd: "CanDecide (q_ListTransitionApprovers db t)
       \<lparr>ac_UserID = dr_ActorID req, ac_TeamIDs = effective_team_ids db (dr_OrgID req) (dr_ActorID req), ac_Capabilities = []\<rparr>"
      and inp: "di_SpaceID inp = dr_SpaceID req" "di_ApprovalID inp = dr_ApprovalID req" "di_ActorID inp = dr_ActorID req"
        "di_Decision inp = dr_Decision req" "di_Reason inp = rs"
      and dec: "dr_Decision req \<noteq> DecisionApproved \<Longrightarrow> di_Apply inp = None"
      and app: "dr_Decision req = DecisionApproved \<Longrightarrow>
       \<exists>es. PlanPostFunctions (q_ListTransitionPostFunctions db t) = Inr es \<and>
         di_Apply inp = Some \<lparr>ai_EntityType = al_EntityType p, ai_EntityID = al_EntityID p, ai_OrgID = dr_OrgID req,
           ai_SpaceID = dr_SpaceID req, ai_ActorID = dr_ActorID req, ai_ToStatus = al_ToStatus p,
           ai_ToStateID = al_ToStateID p, ai_ExpectFromStatus = al_FromStatus p, ai_TransitionID = Some t,
           ai_Effects = es, ai_ApprovalID = Some (al_ID p)\<rparr>"
      by blast
    from DecideAndApply_inv [OF inv da] obtain q where q: "verdict_on db q a db'" "al_ID q = dr_ApprovalID req"
      "a = set_decision now (dr_ActorID req) (dr_Decision req) rs q" by (auto simp: inp)
    have pm: "p \<in> set (workflow_approvals db)" "al_ID p = dr_ApprovalID req" "al_SpaceID p = dr_SpaceID req"
      using p by (auto dest: find_Some_in)
    have "distinct (map al_ID (workflow_approvals db))" using tier_okD(3) [OF ok] by (simp add: approvals_wf_def)
    from distinct_key [OF this _ pm(1), of q] q pm have qp: "q = p" by (simp add: verdict_on_def)
    have rsn: "dr_Decision req = DecisionDeclined \<longrightarrow> al_Reason a \<noteq> None"
      using rs q(3) by (auto simp: decisionReason_def set_decision_def Let_def split: if_splits)
    note rest = decided_moves [OF ewf da pm(3)]
    have v: "verdict_on db p a db'" using q(1) qp by simp
    have d: "al_Decision a = Some (dr_Decision req)" "al_DecidedBy a = Some (dr_ActorID req)"
      using q(3) by (simp_all add: set_decision_def)
    show ?thesis unfolding Pair Inr prod.case sum.case
      by (rule exI [of _ p], rule exI [of _ t], intro conjI) (fact v pm(2) pm(3) pt(2) cd d rsn | rule rest, erule dec, erule app)+
  qed
qed


definition demo_decide :: "string \<Rightarrow> string \<Rightarrow> DecideRequest" where
  "demo_decide decision reason =
     \<lparr>dr_OrgID = 1, dr_SpaceID = 31, dr_ApprovalID = 81, dr_ActorID = 11, dr_Decision = decision, dr_Reason = reason\<rparr>"

theorem Decide_all_or_nothing_witness:
  "\<exists>a db'. Decide pg_tier_store (Some (DecideAndApply (\<lambda>k. 90 + of_nat k) 7)) (demo_decide ''approved'' '''') demo_work =
       (Inr a, db') \<and>
     entity_status db' ''ticket'' 72 31 = Some ''review'' \<and> entity_status db' ''ticket'' 71 31 = Some ''open''"
proof -
  let ?r = "Decide pg_tier_store (Some (DecideAndApply (\<lambda>k. 90 + of_nat k) 7)) (demo_decide ''approved'' '''') demo_work"
  have "is_ok (fst ?r)" by code_simp
  then obtain a db' where r: "?r = (Inr a, db')" by (cases ?r) (auto simp: is_ok_iff)
  from Decide_all_or_nothing [OF demo_work_inv, where fresh = "\<lambda>k. 90 + of_nat k" and now = 7 and req = "demo_decide ''approved'' ''''"]
  obtain p where v: "verdict_on demo_work p a db'"
    and s: "entity_status db' (al_EntityType p) (al_EntityID p) (al_SpaceID p) = Some (al_ToStatus p)"
    and o: "\<forall>ty i sp. (ty, i, sp) \<noteq> (al_EntityType p, al_EntityID p, al_SpaceID p) \<longrightarrow>
        entity_status db' ty i sp = entity_status demo_work ty i sp"
    unfolding r by (auto simp: demo_decide_def)
  from v have p: "p = demo_approval" by (simp add: verdict_on_def demo_work_def)
  have "entity_status demo_work ''ticket'' 71 31 = Some ''open''" by code_simp
  with s o r show ?thesis by (auto simp: p demo_approval_def)
qed

text \<open>
  C14. Requests are an append-only record. Along any run of gate decisions, transition writes,
  verdicts, configuration changes and edits of the workflow graph, deletions included, by anybody and
  in any order, the tables keep their constraints, so an entity never has two pending requests. No
  request disappears or changes what it asks for, and one that has been decided stays exactly as it
  was decided but for its references to the graph, each of which is kept or cleared to NULL. They are
  cleared only by the deletion of what they name: a decided request whose edge and states are still
  there after every step of the run stays word for word.
\<close>

theorem Requests_append_only:
  assumes "tier_step\<^sup>*\<^sup>* db db'" and "tier_inv db"
  shows "tier_inv db' \<and>
    (\<forall>a \<in> set (workflow_approvals db'). \<forall>b \<in> set (workflow_approvals db').
       IsPending a \<and> IsPending b \<and> al_EntityType a = al_EntityType b \<and> al_EntityID a = al_EntityID b \<longrightarrow> a = b) \<and>
    (\<forall>a \<in> set (workflow_approvals db). \<exists>b \<in> set (workflow_approvals db'). same_request a b) \<and>
    (\<forall>a \<in> set (workflow_approvals db). \<not> IsPending a \<and> (\<lambda>x y. tier_step x y \<and> refs_live a y)\<^sup>*\<^sup>* db db' \<longrightarrow>
       a \<in> set (workflow_approvals db'))"
proof -
  have k: "tier_inv db'" "recalls db db'" using run_keeps [OF assms] by blast+
  have d: "distinct (map (\<lambda>a. (al_EntityType a, al_EntityID a)) (filter IsPending (workflow_approvals db')))"
    using k(1) by (simp add: tier_inv_def tier_ok_def approvals_wf_def)
  have one: "a = b" if "a \<in> set (workflow_approvals db')" "b \<in> set (workflow_approvals db')"
    "IsPending a" "IsPending b" "al_EntityType a = al_EntityType b" "al_EntityID a = al_EntityID b" for a b
    by (rule distinct_key [OF d]) (use that in auto)
  show ?thesis
  proof (intro conjI ballI impI)
    show "tier_inv db'" by (fact k(1))
  next
    fix a b
    assume "a \<in> set (workflow_approvals db')" "b \<in> set (workflow_approvals db')"
      "IsPending a \<and> IsPending b \<and> al_EntityType a = al_EntityType b \<and> al_EntityID a = al_EntityID b"
    then show "a = b" by (intro one) auto
  next
    fix a
    assume "a \<in> set (workflow_approvals db)"
    then show "\<exists>b \<in> set (workflow_approvals db'). same_request a b" using k(2) unfolding recalls_def by (rule bspec [rotated])
  next
    fix a
    assume "a \<in> set (workflow_approvals db)" "\<not> IsPending a \<and> (\<lambda>x y. tier_step x y \<and> refs_live a y)\<^sup>*\<^sup>* db db'"
    then show "a \<in> set (workflow_approvals db')" using run_decided [OF _ assms(2)] by blast
  qed
qed

theorem Requests_append_only_witness:
  "\<exists>db1 db2. tier_step\<^sup>*\<^sup>* demo_work db1 \<and> tier_step db1 db2 \<and> \<not> transition_exists db2 62 \<and>
     (\<exists>b \<in> set (workflow_approvals db1). al_TransitionID b = Some 62 \<and> al_Decision b = Some ''declined'') \<and>
     (\<exists>b \<in> set (workflow_approvals db2). same_request demo_approval b)"
proof -
  let ?r = "Decide pg_tier_store (Some (DecideAndApply (\<lambda>k. 90 + of_nat k) 7)) (demo_decide ''declined'' ''no'') demo_work"
  let ?e = "pg_DeleteTransition 50 62 (snd ?r)"
  have h: "list_ex (\<lambda>b. al_TransitionID b = Some 62 \<and> al_Decision b = Some ''declined'') (workflow_approvals (snd ?r))" by code_simp
  have g: "case ?e of Inl _ \<Rightarrow> False | Inr (u, db2) \<Rightarrow> \<not> transition_exists db2 62" by code_simp
  then obtain db2 where e: "?e = Inr ((), db2)" and n: "\<not> transition_exists db2 62" by (cases ?e) auto
  have "tier_step demo_work (snd ?r)" by (rule step_decide [where v = "fst ?r"]) simp
  then have run: "tier_step\<^sup>*\<^sup>* demo_work (snd ?r)" by blast
  have cut: "tier_step (snd ?r) db2" by (rule step_unedge [OF e])
  from run cut have whole: "tier_step\<^sup>*\<^sup>* demo_work db2" by (rule rtranclp.rtrancl_into_rtrancl)
  note kept = Requests_append_only [OF whole demo_work_inv,
      THEN conjunct2, THEN conjunct2, THEN conjunct1]
  have "demo_approval \<in> set (workflow_approvals demo_work)" by (simp add: demo_work_def)
  then have b: "\<exists>b \<in> set (workflow_approvals db2). same_request demo_approval b" by (rule kept [THEN bspec])
  have d: "\<exists>b \<in> set (workflow_approvals (snd ?r)). al_TransitionID b = Some 62 \<and> al_Decision b = Some ''declined''"
    using h unfolding list_ex_iff .
  show ?thesis by (rule exI [of _ "snd ?r"], rule exI [of _ db2], intro conjI) (fact run cut n d b)+
qed

text \<open>
  C15. Of two writers who both saw the same status, one wins. Once a transition has moved an entity
  away from the status a second writer expects, the second writer's transaction answers
  \<open>ErrTransitionRaced\<close> and leaves the database, its audit log included, exactly as it found it.
\<close>

theorem Second_writer_loses:
  assumes inv: "tier_inv db"
    and first: "ApplyTransition fresh now in1 db = (Inr (), db1)"
    and same: "ai_EntityType in2 = ai_EntityType in1" "ai_EntityID in2 = ai_EntityID in1" "ai_SpaceID in2 = ai_SpaceID in1"
    and expect: "ai_ExpectFromStatus in2 \<noteq> ai_ToStatus in1"
  shows "ApplyTransition fresh' now' in2 db1 = (Inl ErrTransitionRaced, db1)"
proof -
  have up: "db_up db1" using ApplyTransition_frame [OF inv first] inv
    by (simp add: tier_frame_def tier_inv_def tier_ok_def)
  have "apply_input fresh now in1 db = Inr ((), db1)"
    using first by (auto simp: ApplyTransition_def in_tx_Inr stmt_run)
  from apply_input_Inr [OF _ this] inv have m: "moved db in1 db1" by (simp add: tier_inv_def)
  then have st: "entity_status db1 (ai_EntityType in2) (ai_EntityID in2) (ai_SpaceID in2) = Some (ai_ToStatus in1)"
    by (simp add: moved_def same)
  have "distinct (map tk_id (tickets db1))" "distinct (map pi_id (project_items db1))"
    using ApplyTransition_frame [OF inv first] tier_frame_inv [OF inv] by (auto simp: tier_inv_def entities_wf_def)
  note ids = this
  have "writeStatus now' in2 db1 = Inl ErrTransitionRaced"
  proof (cases "List.find (\<lambda>t. ticket_hit (ai_EntityID in2) (ai_SpaceID in2) t \<and> tk_status t = ai_ExpectFromStatus in2) (tickets db1) = None \<and>
      List.find (\<lambda>t. item_hit (ai_EntityID in2) (ai_SpaceID in2) t \<and> pi_status t = ai_ExpectFromStatus in2) (project_items db1) = None \<or>
      ai_EntityType in2 = ApprovalEntityTicket \<and> List.find (\<lambda>t. ticket_hit (ai_EntityID in2) (ai_SpaceID in2) t \<and> tk_status t = ai_ExpectFromStatus in2) (tickets db1) = None \<or>
      ai_EntityType in2 = ApprovalEntityItem \<and> List.find (\<lambda>t. item_hit (ai_EntityID in2) (ai_SpaceID in2) t \<and> pi_status t = ai_ExpectFromStatus in2) (project_items db1) = None")
    case True
    with up st show ?thesis
      by (auto simp: writeStatus_def cas_write_def q_UpdateTicketWorkflowState_def q_UpdateProjectItemWorkflowState_def
          Let_def entity_status_def split: if_splits)
  next
    case False
    have t: "ai_EntityType in2 = ApprovalEntityTicket \<or> ai_EntityType in2 = ApprovalEntityItem"
      using st by (auto simp: entity_status_def split: if_splits)
    have "ai_EntityType in2 = ApprovalEntityTicket \<Longrightarrow> False"
      using False find_hit_and [OF ids(1), of "ticket_hit (ai_EntityID in2) (ai_SpaceID in2)" "ai_EntityID in2"
          "\<lambda>t. tk_status t = ai_ExpectFromStatus in2"] st expect
      by (auto simp: entity_status_def ticket_hit_def)
    moreover have "ai_EntityType in2 = ApprovalEntityItem \<Longrightarrow> False"
      using False find_hit_and [OF ids(2), of "item_hit (ai_EntityID in2) (ai_SpaceID in2)" "ai_EntityID in2"
          "\<lambda>t. pi_status t = ai_ExpectFromStatus in2"] st expect
      by (auto simp: entity_status_def item_hit_def)
    ultimately show ?thesis using t by blast
  qed
  then have "sseq (\<lambda>db. scheck (db_up db) (ErrTierDatabase ''begin'') db) (apply_input fresh' now' in2) db1 = Inl ErrTransitionRaced"
    using up by (auto simp: apply_input_def stmt_run)
  then show ?thesis by (simp add: ApplyTransition_def in_tx_Inl)
qed


definition demo_apply :: "string \<Rightarrow> uuid \<Rightarrow> ApplyInput" where
  "demo_apply to stateID =
     \<lparr>ai_EntityType = ''ticket'', ai_EntityID = 71, ai_OrgID = 1, ai_SpaceID = 31, ai_ActorID = 11,
      ai_ToStatus = to, ai_ToStateID = Some stateID, ai_ExpectFromStatus = ''open'', ai_TransitionID = Some 61,
      ai_Effects = [SetAssignee None], ai_ApprovalID = None\<rparr>"

theorem Second_writer_loses_witness:
  "\<exists>db1. ApplyTransition (\<lambda>k. 90 + of_nat k) 7 (demo_apply ''done'' 52) demo_work = (Inr (), db1) \<and>
     ApplyTransition (\<lambda>k. 95 + of_nat k) 8 (demo_apply ''review'' 53) db1 = (Inl ErrTransitionRaced, db1)"
proof -
  let ?r = "ApplyTransition (\<lambda>k. 90 + of_nat k) 7 (demo_apply ''done'' 52) demo_work"
  have "is_ok (fst ?r)" by code_simp
  then obtain db1 where r: "?r = (Inr (), db1)" by (cases ?r) (auto simp: is_ok_iff)
  have "ApplyTransition (\<lambda>k. 95 + of_nat k) 8 (demo_apply ''review'' 53) db1 = (Inl ErrTransitionRaced, db1)"
    by (rule Second_writer_loses [OF demo_work_inv r]) (simp_all add: demo_apply_def)
  with r show ?thesis by (intro exI conjI)
qed

text \<open>
  C16. A request of another space does not exist. When no request with the given id was made in the
  space the caller named, \<open>Decide\<close> gives an answer that depends on the caller's own input alone (the
  missing reason of a decline, else \<open>ErrNotFound\<close>), whether or not a request with that id exists
  elsewhere and whatever its state, and writes nothing.
\<close>

theorem Foreign_request_is_missing:
  assumes "db_up db"
    and "\<forall>a \<in> set (workflow_approvals db). al_ID a = dr_ApprovalID req \<longrightarrow> al_SpaceID a \<noteq> dr_SpaceID req"
  shows "Decide pg_tier_store (Some app) req db =
    (Inl (case decisionReason (dr_Decision req) (dr_Reason req) of Inl e \<Rightarrow> e | Inr _ \<Rightarrow> ErrNotFound), db)"
proof -
  have "q_GetApprovalInSpace db (dr_ApprovalID req) (dr_SpaceID req) = None"
    using assms(2) by (auto simp: q_GetApprovalInSpace_def find_None_iff)
  then have "pg_GetApprovalInSpace db (dr_SpaceID req) (dr_ApprovalID req) = Inl ErrNotFound"
    by (simp add: pg_GetApprovalInSpace_def tier_row_def tier_query_def assms(1))
  then show ?thesis by (simp add: Decide_def decide_input_def split: sum.splits)
qed

theorem Foreign_request_is_missing_witness:
  "Decide pg_tier_store (Some (DecideAndApply (\<lambda>k. 90 + of_nat k) 7))
     ((demo_decide ''approved'' '''')\<lparr>dr_SpaceID := 32\<rparr>) demo_work = (Inl ErrNotFound, demo_work)"
proof -
  let ?req = "(demo_decide ''approved'' '''')\<lparr>dr_SpaceID := 32\<rparr>"
  have "db_up demo_work" "\<forall>a \<in> set (workflow_approvals demo_work). al_ID a = dr_ApprovalID ?req \<longrightarrow> al_SpaceID a \<noteq> dr_SpaceID ?req"
    by (simp_all add: demo_work_def demo_approval_def demo_decide_def)
  moreover have "decisionReason (dr_Decision ?req) (dr_Reason ?req) = Inr None" by code_simp
  ultimately show ?thesis
    using Foreign_request_is_missing [of demo_work ?req "DecideAndApply (\<lambda>k. 90 + of_nat k) 7"] by simp
qed

end
