(* ===== verification/SharePaths.thy ===== *)
theory SharePaths
  imports GoStrings
begin

text \<open>
  The materialised paths of \<^verbatim>\<open>internal/core/access/shares.go\<close>: the segment-wise subtree test
  the handlers use, the LIKE pattern the queries use for the same subtree, and SQL's \<open>LIKE\<close> itself.
  The lemmas show that the two tests are one relation, whatever bytes a path holds.
\<close>

section \<open>SQL LIKE\<close>

text \<open>\<open>s LIKE p\<close> with PostgreSQL's default escape character. A pattern ending in a lone backslash is
  an error there and matches nothing here; no pattern built by \<open>EscapeLike\<close> ends so.\<close>

function like_match :: "string \<Rightarrow> string \<Rightarrow> bool" where
  "like_match p s =
     (case p of
        [] \<Rightarrow> s = []
      | c # q \<Rightarrow>
          if c = CHR ''%'' then like_match q s \<or> (case s of [] \<Rightarrow> False | _ # t \<Rightarrow> like_match p t)
          else if c = CHR ''_'' then (case s of [] \<Rightarrow> False | _ # t \<Rightarrow> like_match q t)
          else if c = CHR 0x5C then
            (case q of [] \<Rightarrow> False
             | d # r \<Rightarrow> (case s of [] \<Rightarrow> False | x # t \<Rightarrow> x = d \<and> like_match r t))
          else (case s of [] \<Rightarrow> False | x # t \<Rightarrow> x = c \<and> like_match q t))"
  by pat_completeness auto
termination by (relation "measure (\<lambda>(p, s). length p + length s)") auto

declare like_match.simps [simp del]

definition like_plain :: "char \<Rightarrow> bool" where
  "like_plain c \<longleftrightarrow> c \<noteq> CHR ''%'' \<and> c \<noteq> CHR ''_'' \<and> c \<noteq> CHR 0x5C"

lemma like_match_Nil [simp]: "like_match [] s \<longleftrightarrow> s = []"
  by (subst like_match.simps) simp

lemma like_match_plain:
  "like_plain c \<Longrightarrow> like_match (c # q) s \<longleftrightarrow> (\<exists>t. s = c # t \<and> like_match q t)"
  by (subst like_match.simps) (auto simp: like_plain_def split: list.split)

lemma like_match_escape:
  "like_match (CHR 0x5C # d # r) s \<longleftrightarrow> (\<exists>t. s = d # t \<and> like_match r t)"
  by (subst like_match.simps) (auto split: list.split)

lemma like_match_percent_end: "like_match [CHR ''%''] s"
  by (induction s; subst like_match.simps) auto

section \<open>Escaping\<close>

definition EscapeLike :: "string \<Rightarrow> string" where
  "EscapeLike s =
     ReplaceAll1 (ReplaceAll1 (ReplaceAll1 s (CHR 0x5C) [CHR 0x5C, CHR 0x5C])
       (CHR ''%'') [CHR 0x5C, CHR ''%'']) (CHR ''_'') [CHR 0x5C, CHR ''_'']"

definition SubtreeLikePattern :: "string \<Rightarrow> string" where
  "SubtreeLikePattern root = EscapeLike root @ ''.%''"

definition PathWithinSubtree :: "string \<Rightarrow> string \<Rightarrow> bool" where
  "PathWithinSubtree path root = (if path = root then True else HasPrefix path (root @ ''.''))"

text \<open>The three replacements act on disjoint characters, so together they escape each
  metacharacter once: backslash going first is what keeps the later two from being escaped again.\<close>

lemma ReplaceAll1_append: "ReplaceAll1 (s @ t) c r = ReplaceAll1 s c r @ ReplaceAll1 t c r"
  by (simp add: ReplaceAll1_def)

lemma EscapeLike_Nil [simp]: "EscapeLike [] = []"
  by (simp add: EscapeLike_def ReplaceAll1_def)

lemma EscapeLike_Cons:
  "EscapeLike (c # s) = (if like_plain c then [c] else [CHR 0x5C, c]) @ EscapeLike s"
proof -
  have "EscapeLike (c # s) = EscapeLike [c] @ EscapeLike s"
    using ReplaceAll1_append [of "[c]" s] by (simp add: EscapeLike_def ReplaceAll1_append)
  moreover have "EscapeLike [c] = (if like_plain c then [c] else [CHR 0x5C, c])"
    by (auto simp: EscapeLike_def ReplaceAll1_def like_plain_def)
  ultimately show ?thesis by simp
qed

lemma like_match_literal:
  "like_match (EscapeLike s @ p) x \<longleftrightarrow> (\<exists>t. x = s @ t \<and> like_match p t)"
proof (induction s arbitrary: x)
  case Nil
  show ?case by simp
next
  case (Cons c s)
  show ?case
  proof (cases "like_plain c")
    case True
    then have "like_match (EscapeLike (c # s) @ p) x \<longleftrightarrow> (\<exists>t. x = c # t \<and> like_match (EscapeLike s @ p) t)"
      by (simp add: EscapeLike_Cons like_match_plain)
    then show ?thesis by (auto simp: Cons)
  next
    case False
    then have "like_match (EscapeLike (c # s) @ p) x \<longleftrightarrow> (\<exists>t. x = c # t \<and> like_match (EscapeLike s @ p) t)"
      by (simp add: EscapeLike_Cons like_match_escape)
    then show ?thesis by (auto simp: Cons)
  qed
qed

lemma HasPrefix_iff: "HasPrefix s p \<longleftrightarrow> (\<exists>t. s = p @ t)"
  by (auto simp: HasPrefix_def) (metis append_take_drop_id)

lemma subtree_pattern_iff:
  "like_match (SubtreeLikePattern root) path \<longleftrightarrow> HasPrefix path (root @ ''.'')"
proof -
  have "like_match (SubtreeLikePattern root) path \<longleftrightarrow> (\<exists>t. path = root @ t \<and> like_match ''.%'' t)"
    unfolding SubtreeLikePattern_def by (rule like_match_literal)
  also have "\<dots> \<longleftrightarrow> (\<exists>u. path = root @ ''.'' @ u)"
    by (auto simp: like_match_plain like_plain_def like_match_percent_end)
  finally show ?thesis by (auto simp: HasPrefix_iff)
qed

section \<open>The two subtree tests are one\<close>

lemma within_iff: "PathWithinSubtree path root \<longleftrightarrow> path = root \<or> HasPrefix path (root @ ''.'')"
  by (simp add: PathWithinSubtree_def)

lemma within_pattern:
  "PathWithinSubtree path root \<longleftrightarrow> path = root \<or> like_match (SubtreeLikePattern root) path"
  by (simp add: within_iff subtree_pattern_iff)

lemma within_refl [simp]: "PathWithinSubtree p p"
  by (simp add: PathWithinSubtree_def)

lemma within_trans: "PathWithinSubtree a b \<Longrightarrow> PathWithinSubtree b c \<Longrightarrow> PathWithinSubtree a c"
  by (auto simp: within_iff HasPrefix_iff)

lemma within_length: "PathWithinSubtree a b \<Longrightarrow> a \<noteq> b \<Longrightarrow> length b < length a"
  by (auto simp: within_iff HasPrefix_iff)

lemma within_antisym: "PathWithinSubtree a b \<Longrightarrow> PathWithinSubtree b a \<Longrightarrow> a = b"
  using within_length [of a b] within_length [of b a] by (cases "a = b") auto

text \<open>
  C17. The LIKE pattern built for a subtree matches exactly the strict descendants of its root: the
  paths that extend the root by whole segments, whatever metacharacters the root's path holds. So
  the queries (which test the pattern) and the handlers (which test \<open>PathWithinSubtree\<close>) agree on
  every path but the root itself, and the sibling that merely shares a prefix is never matched.
\<close>

theorem SubtreeLikePattern_exact:
  "like_match (SubtreeLikePattern root) path \<longleftrightarrow> PathWithinSubtree path root \<and> path \<noteq> root"
  by (auto simp: within_iff subtree_pattern_iff HasPrefix_iff)

end
