(* ===== verification/Shares.thy ===== *)
theory Shares
  imports SharePaths AccessResolver
begin

text \<open>
  \<^verbatim>\<open>internal/core/access/shares.go\<close> and \<^verbatim>\<open>shares_service.go\<close>: what a caller's shares cover in
  one request, and the life of a share. The store is the record \<open>ShareStore\<close>; its contract is the
  locale \<open>share_store\<close>, in which the service's lemmas are proved once.

  The coverage the middleware caches on the request context is an argument (\<open>None\<close> when it resolved
  none). A Go set \<open>map[uuid]struct{}\<close> is the list of its members. \<open>now\<close> is \<open>time.Now()\<close> of the
  service, \<open>dbnow\<close> the server's \<open>now()\<close>.
\<close>

section \<open>Shareable entities\<close>

abbreviation ShareEntityPage :: string where "ShareEntityPage \<equiv> ''page''"
abbreviation ShareEntityTicket :: string where "ShareEntityTicket \<equiv> ''ticket''"
abbreviation ShareEntityProjectItem :: string where "ShareEntityProjectItem \<equiv> ''project_item''"

definition ValidShareEntityType :: "string \<Rightarrow> bool" where
  "ValidShareEntityType s \<longleftrightarrow>
     s = ShareEntityPage \<or> s = ShareEntityTicket \<or> s = ShareEntityProjectItem"

abbreviation AudienceOrg :: string where "AudienceOrg \<equiv> ''org''"
abbreviation AudienceTeam :: string where "AudienceTeam \<equiv> ''team''"

section \<open>Coverage\<close>

record ShareRow =
  sr_EntityType :: string
  sr_EntityID :: uuid
  sr_Cascade :: bool
  sr_RootPath :: "string option"
  sr_RootSpaceID :: "uuid option"

record cascadeRoot =
  cr_pageID :: uuid
  cr_spaceID :: uuid
  cr_path :: string

record SharedEntities =
  se_direct :: "(string \<times> uuid list) list"
  se_cascadeRoots :: "cascadeRoot list"

definition add_member :: "'a \<Rightarrow> 'a list \<Rightarrow> 'a list" where
  "add_member x xs = (if List.member xs x then xs else xs @ [x])"

definition share_root :: "ShareRow \<Rightarrow> cascadeRoot list" where
  "share_root row =
     (case (sr_RootPath row, sr_RootSpaceID row) of
        (Some p, Some sp) \<Rightarrow>
          if sr_Cascade row \<and> sr_EntityType row = ShareEntityPage
          then [\<lparr>cr_pageID = sr_EntityID row, cr_spaceID = sp, cr_path = p\<rparr>] else []
      | _ \<Rightarrow> [])"

definition add_share_row :: "SharedEntities \<Rightarrow> ShareRow \<Rightarrow> SharedEntities" where
  "add_share_row se row =
     (let byID = map_get (se_direct se) (sr_EntityType row) []
      in \<lparr>se_direct = AList.update (sr_EntityType row) (add_member (sr_EntityID row) byID) (se_direct se),
          se_cascadeRoots = se_cascadeRoots se @ share_root row\<rparr>)"

definition NewSharedEntities :: "ShareRow list \<Rightarrow> SharedEntities" where
  "NewSharedEntities rows = foldl add_share_row \<lparr>se_direct = [], se_cascadeRoots = []\<rparr> rows"

definition shares_Empty :: "SharedEntities \<Rightarrow> bool" where
  "shares_Empty se \<longleftrightarrow> length (se_direct se) = 0 \<and> length (se_cascadeRoots se) = 0"

definition CoversEntity :: "SharedEntities \<Rightarrow> string \<Rightarrow> uuid \<Rightarrow> bool" where
  "CoversEntity se entityType i = List.member (map_get (se_direct se) entityType []) i"

fun covers_roots :: "cascadeRoot list \<Rightarrow> uuid \<Rightarrow> string \<Rightarrow> bool" where
  "covers_roots [] spaceID path = False"
| "covers_roots (root # roots) spaceID path =
     (if cr_spaceID root \<noteq> spaceID then covers_roots roots spaceID path
      else if PathWithinSubtree path (cr_path root) then True
      else covers_roots roots spaceID path)"

definition CoversPage :: "SharedEntities \<Rightarrow> uuid \<Rightarrow> uuid \<Rightarrow> string \<Rightarrow> bool" where
  "CoversPage se i spaceID path =
     (if CoversEntity se ShareEntityPage i then True
      else covers_roots (se_cascadeRoots se) spaceID path)"

definition DirectIDs :: "SharedEntities \<Rightarrow> string \<Rightarrow> uuid list" where
  "DirectIDs se entityType = map_get (se_direct se) entityType []"

definition CascadeRootPaths :: "SharedEntities \<Rightarrow> string list" where
  "CascadeRootPaths se = map cr_path (se_cascadeRoots se)"

record CascadeRoot =
  cro_SpaceID :: uuid
  cro_Path :: string

definition CascadeRoots :: "SharedEntities \<Rightarrow> CascadeRoot list" where
  "CascadeRoots se = map (\<lambda>r. \<lparr>cro_SpaceID = cr_spaceID r, cro_Path = cr_path r\<rparr>) (se_cascadeRoots se)"

definition CascadeSubtreeArrays :: "SharedEntities \<Rightarrow> uuid list \<times> string list" where
  "CascadeSubtreeArrays se =
     (map cr_spaceID (se_cascadeRoots se), map (\<lambda>r. SubtreeLikePattern (cr_path r)) (se_cascadeRoots se))"

lemma add_member_set [simp]: "set (add_member x xs) = insert x (set xs)"
  by (auto simp: add_member_def)

lemma NewSharedEntities_direct:
  "i \<in> set (map_get (se_direct (foldl add_share_row se rows)) ty []) \<longleftrightarrow>
     i \<in> set (map_get (se_direct se) ty []) \<or>
     (\<exists>row \<in> set rows. sr_EntityType row = ty \<and> sr_EntityID row = i)"
  by (induction rows arbitrary: se) (auto simp: add_share_row_def Let_def map_get_update)

lemma NewSharedEntities_roots:
  "set (se_cascadeRoots (foldl add_share_row se rows)) =
     set (se_cascadeRoots se) \<union> (\<Union>row \<in> set rows. set (share_root row))"
  by (induction rows arbitrary: se) (auto simp: add_share_row_def Let_def)

lemma covers_roots_iff:
  "covers_roots roots sp path \<longleftrightarrow>
     (\<exists>r \<in> set roots. cr_spaceID r = sp \<and> PathWithinSubtree path (cr_path r))"
  by (induction roots) auto

lemma CoversEntity_iff:
  "CoversEntity (NewSharedEntities rows) ty i \<longleftrightarrow>
     (\<exists>row \<in> set rows. sr_EntityType row = ty \<and> sr_EntityID row = i)"
  by (simp add: CoversEntity_def NewSharedEntities_def NewSharedEntities_direct)

text \<open>A row covers a page directly, or as a cascading root of the page's own space above it.\<close>

definition row_covers_page :: "ShareRow \<Rightarrow> uuid \<Rightarrow> uuid \<Rightarrow> string \<Rightarrow> bool" where
  "row_covers_page row i sp path \<longleftrightarrow>
     sr_EntityType row = ShareEntityPage \<and>
     (sr_EntityID row = i \<or>
      sr_Cascade row \<and> sr_RootSpaceID row = Some sp \<and>
      (\<exists>p. sr_RootPath row = Some p \<and> PathWithinSubtree path p))"

lemma share_root_iff:
  "r \<in> set (share_root row) \<longleftrightarrow>
     sr_Cascade row \<and> sr_EntityType row = ShareEntityPage \<and> sr_RootPath row = Some (cr_path r) \<and>
     sr_RootSpaceID row = Some (cr_spaceID r) \<and> cr_pageID r = sr_EntityID row"
  by (auto simp: share_root_def split: option.splits)

lemma CoversPage_iff:
  "CoversPage (NewSharedEntities rows) i sp path \<longleftrightarrow> (\<exists>row \<in> set rows. row_covers_page row i sp path)"
proof -
  have 1: "set (se_cascadeRoots (NewSharedEntities rows)) = (\<Union>row \<in> set rows. set (share_root row))"
    by (simp add: NewSharedEntities_def NewSharedEntities_roots)
  have 2: "(\<exists>r \<in> set (share_root row). cr_spaceID r = sp \<and> PathWithinSubtree path (cr_path r)) \<longleftrightarrow>
      sr_Cascade row \<and> sr_EntityType row = ShareEntityPage \<and> sr_RootSpaceID row = Some sp \<and>
      (\<exists>p. sr_RootPath row = Some p \<and> PathWithinSubtree path p)" for row
    by (cases "sr_RootPath row"; cases "sr_RootSpaceID row") (auto simp: share_root_def)
  have "covers_roots (se_cascadeRoots (NewSharedEntities rows)) sp path \<longleftrightarrow>
      (\<exists>row \<in> set rows. \<exists>r \<in> set (share_root row). cr_spaceID r = sp \<and> PathWithinSubtree path (cr_path r))"
    by (auto simp: covers_roots_iff 1)
  then show ?thesis
    by (auto simp: CoversPage_def CoversEntity_iff row_covers_page_def 2)
qed

text \<open>The paired arrays a cross-space query binds: some index matches both the space and the
  pattern exactly when a cascading root of that space lies strictly above the path.\<close>

definition paired_match :: "uuid list \<times> string list \<Rightarrow> uuid \<Rightarrow> string \<Rightarrow> bool" where
  "paired_match arrs sp path \<longleftrightarrow>
     list_ex (\<lambda>(s, pat). s = sp \<and> like_match pat path) (zip (fst arrs) (snd arrs))"

lemma CascadeSubtreeArrays_aligned:
  "paired_match (CascadeSubtreeArrays se) sp path \<longleftrightarrow>
     (\<exists>r \<in> set (se_cascadeRoots se). cr_spaceID r = sp \<and>
        PathWithinSubtree path (cr_path r) \<and> path \<noteq> cr_path r)"
proof -
  have z: "zip (map cr_spaceID rs) (map (\<lambda>r. SubtreeLikePattern (cr_path r)) rs) =
      map (\<lambda>r. (cr_spaceID r, SubtreeLikePattern (cr_path r))) rs" for rs
    by (induction rs) simp_all
  have "paired_match (CascadeSubtreeArrays se) sp path \<longleftrightarrow>
      (\<exists>r \<in> set (se_cascadeRoots se). cr_spaceID r = sp \<and> like_match (SubtreeLikePattern (cr_path r)) path)"
    by (simp add: paired_match_def CascadeSubtreeArrays_def list_ex_iff z)
  then show ?thesis
    by (auto simp: subtree_pattern_iff within_iff HasPrefix_iff)
qed


section \<open>The share and its store\<close>

record Share =
  share_ID :: uuid
  share_OrgID :: uuid
  share_SpaceID :: uuid
  share_EntityType :: string
  share_EntityID :: uuid
  share_Audience :: string
  share_AudienceID :: "uuid option"
  share_Cascade :: bool
  share_ExpiresAt :: "instant option"
  share_CreatedBy :: uuid
  share_CreatedAt :: instant
  share_RevokedAt :: "instant option"

definition Expired :: "instant \<Rightarrow> Share \<Rightarrow> bool" where
  "Expired now s \<longleftrightarrow> (case share_ExpiresAt s of None \<Rightarrow> False | Some t \<Rightarrow> \<not> t > now)"

record SpacePageShare =
  sps_EntityID :: uuid
  sps_Cascade :: bool
  sps_RootPath :: string

record SharedEntityRef =
  ref_OrgID :: uuid
  ref_SpaceID :: uuid
  ref_PagePath :: string

record 'db ShareStore =
  ss_LookupSharedEntity :: "'db \<Rightarrow> string \<Rightarrow> uuid \<Rightarrow> access_error + SharedEntityRef"
  ss_TeamExistsInOrg :: "'db \<Rightarrow> uuid \<Rightarrow> uuid \<Rightarrow> access_error + bool"
  ss_CreateShare :: "instant \<Rightarrow> Share \<Rightarrow> ('db, access_error, Share) stmt"
  ss_GetShare :: "'db \<Rightarrow> uuid \<Rightarrow> access_error + Share"
  ss_RevokeShare :: "instant \<Rightarrow> uuid \<Rightarrow> ('db, access_error, Share) stmt"
  ss_ListSharesByEntity :: "'db \<Rightarrow> uuid \<Rightarrow> string \<Rightarrow> uuid \<Rightarrow> access_error + Share list"
  ss_CountPageSubtree :: "'db \<Rightarrow> uuid \<Rightarrow> uuid \<Rightarrow> string \<Rightarrow> access_error + nat"
  ss_CountActiveSharesForPageSubtree :: "instant \<Rightarrow> 'db \<Rightarrow> uuid \<Rightarrow> uuid \<Rightarrow> string \<Rightarrow> access_error + nat"

record CreateShareInput =
  csi_OrgID :: uuid
  csi_EntityType :: string
  csi_EntityID :: uuid
  csi_Audience :: string
  csi_AudienceID :: "uuid option"
  csi_Cascade :: bool
  csi_ExpiresAt :: "instant option"
  csi_CreatedBy :: uuid

section \<open>The service\<close>

definition LookupEntity ::
    "('db, 'm) ShareStore_scheme \<Rightarrow> 'db \<Rightarrow> uuid \<Rightarrow> string \<Rightarrow> uuid \<Rightarrow> access_error + SharedEntityRef" where
  "LookupEntity s db orgID entityType entityID =
     (if \<not> ValidShareEntityType entityType then Inl ErrInvalidShareEntityType
      else rbind (ss_LookupSharedEntity s db entityType entityID) (\<lambda>ref.
        if ref_OrgID ref \<noteq> orgID then Inl ErrSharedEntityNotFound else Inr ref))"

definition validateAudience ::
    "('db, 'm) ShareStore_scheme \<Rightarrow> 'db \<Rightarrow> CreateShareInput \<Rightarrow> access_error + unit" where
  "validateAudience s db inp =
     (if csi_Audience inp = AudienceOrg then
        (if csi_AudienceID inp \<noteq> None then Inl ErrShareAudienceIDForbidden else Inr ())
      else if csi_Audience inp = AudienceTeam then
        (case csi_AudienceID inp of
           None \<Rightarrow> Inl ErrShareAudienceIDRequired
         | Some t \<Rightarrow>
             rbind (ss_TeamExistsInOrg s db (csi_OrgID inp) t) (\<lambda>ok.
               if \<not> ok then Inl ErrShareAudienceTeamNotFound else Inr ()))
      else Inl ErrInvalidShareAudience)"

definition new_share :: "uuid \<Rightarrow> SharedEntityRef \<Rightarrow> CreateShareInput \<Rightarrow> Share" where
  "new_share newID ref inp =
     \<lparr>share_ID = newID, share_OrgID = csi_OrgID inp, share_SpaceID = ref_SpaceID ref,
      share_EntityType = csi_EntityType inp, share_EntityID = csi_EntityID inp,
      share_Audience = csi_Audience inp, share_AudienceID = csi_AudienceID inp,
      share_Cascade = csi_Cascade inp, share_ExpiresAt = csi_ExpiresAt inp,
      share_CreatedBy = csi_CreatedBy inp, share_CreatedAt = 0, share_RevokedAt = None\<rparr>"

definition ShareCreate ::
    "('db, 'm) ShareStore_scheme \<Rightarrow> instant \<Rightarrow> instant \<Rightarrow> uuid \<Rightarrow> SharedEntityRef \<Rightarrow> CreateShareInput \<Rightarrow>
     ('db, access_error, Share) stmt" where
  "ShareCreate s now dbnow newID ref inp =
     sbind (sread (\<lambda>db. validateAudience s db inp)) (\<lambda>_.
     sseq (scheck (\<not> (csi_Cascade inp \<and> csi_EntityType inp \<noteq> ShareEntityPage)) ErrShareCascadeNotPage)
     (sseq (scheck (case csi_ExpiresAt inp of None \<Rightarrow> True | Some t \<Rightarrow> t > now) ErrShareExpiryNotFuture)
       (ss_CreateShare s dbnow (new_share newID ref inp))))"

definition ShareGet :: "('db, 'm) ShareStore_scheme \<Rightarrow> 'db \<Rightarrow> uuid \<Rightarrow> uuid \<Rightarrow> access_error + Share" where
  "ShareGet s db orgID i =
     rbind (ss_GetShare s db i) (\<lambda>share.
       if share_OrgID share \<noteq> orgID then Inl ErrShareNotFound else Inr share)"

definition ShareRevoke :: "('db, 'm) ShareStore_scheme \<Rightarrow> instant \<Rightarrow> uuid \<Rightarrow> ('db, access_error, Share) stmt" where
  "ShareRevoke s dbnow i = ss_RevokeShare s dbnow i"

definition ShareListByEntity ::
    "('db, 'm) ShareStore_scheme \<Rightarrow> 'db \<Rightarrow> uuid \<Rightarrow> string \<Rightarrow> uuid \<Rightarrow> access_error + Share list" where
  "ShareListByEntity s db orgID entityType entityID = ss_ListSharesByEntity s db orgID entityType entityID"

definition CoversForCaller ::
    "('db, 'm) ShareStore_scheme \<Rightarrow> 'db \<Rightarrow> SharedEntities option \<Rightarrow> string \<Rightarrow> uuid \<Rightarrow> bool" where
  "CoversForCaller s db ctx entityType i =
     (case ctx of
        None \<Rightarrow> False
      | Some se \<Rightarrow>
          if \<not> ValidShareEntityType entityType then False
          else if entityType \<noteq> ShareEntityPage then CoversEntity se entityType i
          else if CoversEntity se ShareEntityPage i then True
          else (case ss_LookupSharedEntity s db ShareEntityPage i of
                  Inl _ \<Rightarrow> False
                | Inr ref \<Rightarrow> CoversPage se i (ref_SpaceID ref) (ref_PagePath ref)))"

definition CascadePreview ::
    "('db, 'm) ShareStore_scheme \<Rightarrow> 'db \<Rightarrow> SharedEntityRef \<Rightarrow> uuid \<Rightarrow> access_error + nat" where
  "CascadePreview s db ref pageID = ss_CountPageSubtree s db (ref_SpaceID ref) pageID (ref_PagePath ref)"

text \<open>\<open>Resolver.ResolveShares\<close>: the store is optional wiring, and its absence is an error.\<close>

definition ResolveShares ::
    "(instant \<Rightarrow> 'db \<Rightarrow> uuid \<Rightarrow> uuid \<Rightarrow> access_error + ShareRow list) option \<Rightarrow> instant \<Rightarrow> 'db \<Rightarrow> uuid \<Rightarrow> uuid \<Rightarrow>
     access_error + SharedEntities" where
  "ResolveShares shareStore dbnow db orgID userID =
     (case shareStore of
        None \<Rightarrow> Inl ErrStoreNotConfigured
      | Some resolve \<Rightarrow> rbind (resolve dbnow db orgID userID) (\<lambda>rows. Inr (NewSharedEntities rows)))"

section \<open>The contract of the share store\<close>

text \<open>What the service relies on, over an abstract view of the store: \<open>shares\<close> finds a share by id
  (revoked ones included), \<open>refs\<close> a live entity's organisation, space and path, \<open>team_in\<close> the live
  teams of an organisation. A cell is an entity with an audience.\<close>

definition share_cell :: "Share \<Rightarrow> string \<times> uuid \<times> string \<times> uuid option" where
  "share_cell s = (share_EntityType s, share_EntityID s, share_Audience s, share_AudienceID s)"

definition share_shape :: "Share \<Rightarrow> bool" where
  "share_shape s \<longleftrightarrow>
     ValidShareEntityType (share_EntityType s) \<and>
     share_Audience s \<in> {AudienceOrg, AudienceTeam} \<and>
     (share_Audience s = AudienceTeam \<longleftrightarrow> share_AudienceID s \<noteq> None) \<and>
     (share_Cascade s \<longrightarrow> share_EntityType s = ShareEntityPage)"

definition expires_after :: "instant \<Rightarrow> Share \<Rightarrow> bool" where
  "expires_after t s \<longleftrightarrow> (case share_ExpiresAt s of None \<Rightarrow> True | Some e \<Rightarrow> t < e)"

locale share_store =
  fixes st :: "'db ShareStore"
    and up :: "'db \<Rightarrow> bool"
    and inv :: "'db \<Rightarrow> bool"
    and shares :: "'db \<Rightarrow> uuid \<Rightarrow> Share option"
    and refs :: "'db \<Rightarrow> string \<Rightarrow> uuid \<Rightarrow> SharedEntityRef option"
    and team_in :: "'db \<Rightarrow> uuid \<Rightarrow> uuid \<Rightarrow> bool"
  assumes lookup_law: "up db \<Longrightarrow> ValidShareEntityType ty \<Longrightarrow>
      ss_LookupSharedEntity st db ty i =
        (case refs db ty i of None \<Rightarrow> Inl ErrSharedEntityNotFound | Some r \<Rightarrow> Inr r)"
    and lookup_down: "\<not> up db \<Longrightarrow> \<exists>e. ss_LookupSharedEntity st db ty i = Inl e"
    and team_law: "up db \<Longrightarrow> ss_TeamExistsInOrg st db org tm = Inr (team_in db org tm)"
    and get_law: "up db \<Longrightarrow>
      ss_GetShare st db i = (case shares db i of None \<Rightarrow> Inl ErrShareNotFound | Some s \<Rightarrow> Inr s)"
    and create_law: "inv db \<Longrightarrow> ss_CreateShare st now s db = Inr (s', db') \<Longrightarrow>
      s' = s\<lparr>share_CreatedAt := now, share_RevokedAt := None\<rparr> \<and> up db' \<and> inv db' \<and>
      shares db (share_ID s) = None \<and> shares db' = (shares db)(share_ID s \<mapsto> s') \<and>
      (\<forall>j t. shares db j = Some t \<and> share_RevokedAt t = None \<longrightarrow> share_cell t \<noteq> share_cell s)"
    and create_taken: "up db \<Longrightarrow> share_shape s \<Longrightarrow> expires_after now s \<Longrightarrow> shares db j = Some t \<Longrightarrow>
      share_RevokedAt t = None \<Longrightarrow> share_cell t = share_cell s \<Longrightarrow>
      ss_CreateShare st now s db = Inl ErrDuplicateShare"
    and revoke_law: "inv db \<Longrightarrow> ss_RevokeShare st now i db = Inr (s', db') \<Longrightarrow>
      \<exists>s. shares db i = Some s \<and> share_RevokedAt s = None \<and> s' = s\<lparr>share_RevokedAt := Some now\<rparr> \<and>
        up db' \<and> inv db' \<and> shares db' = (shares db)(i \<mapsto> s')"
    and revoke_none: "up db \<Longrightarrow> shares db i = None \<Longrightarrow> ss_RevokeShare st now i db = Inl ErrShareNotFound"
    and revoke_again: "up db \<Longrightarrow> inv db \<Longrightarrow> shares db i = Some s \<Longrightarrow> share_RevokedAt s \<noteq> None \<Longrightarrow>
      ss_RevokeShare st now i db = Inl ErrShareAlreadyRevoked"
    and revoke_some: "up db \<Longrightarrow> shares db i = Some s \<Longrightarrow> share_RevokedAt s = None \<Longrightarrow>
      \<exists>r. ss_RevokeShare st now i db = Inr r"
begin

lemma lookup_entity_iff:
  assumes "up db"
  shows "LookupEntity st db org ty i = Inr r \<longleftrightarrow>
    ValidShareEntityType ty \<and> refs db ty i = Some r \<and> ref_OrgID r = org"
  using assms by (auto simp: LookupEntity_def lookup_law split: option.splits)

lemma validate_audience_iff:
  assumes "up db"
  shows "validateAudience st db inp = Inr u \<longleftrightarrow>
    csi_Audience inp = AudienceOrg \<and> csi_AudienceID inp = None \<or>
    csi_Audience inp = AudienceTeam \<and> (\<exists>t. csi_AudienceID inp = Some t \<and> team_in db (csi_OrgID inp) t)"
  using assms by (auto simp: validateAudience_def team_law split: option.splits)

lemma get_iff:
  assumes "up db"
  shows "ShareGet st db org i = Inr s \<longleftrightarrow> shares db i = Some s \<and> share_OrgID s = org"
  using assms by (auto simp: ShareGet_def get_law split: option.splits)

lemma get_foreign:
  assumes "up db" and "\<And>s. shares db i = Some s \<Longrightarrow> share_OrgID s \<noteq> org"
  shows "ShareGet st db org i = Inl ErrShareNotFound"
  using assms by (auto simp: ShareGet_def get_law split: option.splits)

lemma create_steps:
  assumes "ShareCreate st now dbnow n ref inp db = Inr (s, db')"
  shows "is_ok (validateAudience st db inp)"
    and "csi_Cascade inp \<longrightarrow> csi_EntityType inp = ShareEntityPage"
    and "csi_ExpiresAt inp \<noteq> None \<longrightarrow> now < the (csi_ExpiresAt inp)"
    and "ss_CreateShare st dbnow (new_share n ref inp) db = Inr (s, db')"
  using assms by (auto simp: ShareCreate_def stmt_run split: option.splits)

lemma create_then_get:
  assumes "inv db" and "ShareCreate st now dbnow n ref inp db = Inr (s, db')"
  shows "ShareGet st db' (csi_OrgID inp) n = Inr s"
proof -
  have "up db'" and "shares db' n = Some s" and "share_OrgID s = csi_OrgID inp"
    using create_law [OF assms(1) create_steps(4) [OF assms(2)]] by (auto simp: new_share_def)
  then show ?thesis by (simp add: get_iff)
qed

lemma create_refused_while_unrevoked:
  assumes "up db" and "is_ok (validateAudience st db inp)"
    and "ValidShareEntityType (csi_EntityType inp)"
    and "csi_Cascade inp \<Longrightarrow> csi_EntityType inp = ShareEntityPage"
    and "\<And>e. csi_ExpiresAt inp = Some e \<Longrightarrow> now < e \<and> dbnow < e"
    and "shares db j = Some t" and "share_RevokedAt t = None"
    and "share_cell t = (csi_EntityType inp, csi_EntityID inp, csi_Audience inp, csi_AudienceID inp)"
  shows "ShareCreate st now dbnow n ref inp db = Inl ErrDuplicateShare"
proof -
  let ?s = "new_share n ref inp"
  obtain u where v: "validateAudience st db inp = Inr u" using assms(2) by (auto simp: is_ok_iff)
  have "share_shape ?s"
    using v assms(3,4) by (auto simp: share_shape_def new_share_def validate_audience_iff [OF assms(1)])
  moreover have "expires_after dbnow ?s"
    using assms(5) by (auto simp: expires_after_def new_share_def split: option.split)
  moreover have "share_cell t = share_cell ?s" using assms(8) by (simp add: share_cell_def new_share_def)
  ultimately have "ss_CreateShare st dbnow ?s db = Inl ErrDuplicateShare"
    using create_taken assms(1,6,7) by blast
  with v assms(4,5) show ?thesis
    by (auto simp: ShareCreate_def stmt_run split: option.splits)
qed

lemma revoke_then_revoke:
  assumes "inv db" and "ShareRevoke st now i db = Inr (s, db')"
  shows "ShareRevoke st now' i db' = Inl ErrShareAlreadyRevoked"
  using revoke_law [of db now i s db'] assms unfolding ShareRevoke_def
  by (auto intro!: revoke_again)

lemma revoke_cases:
  assumes "up db" and inv: "inv db"
  shows "(case ShareRevoke st now i db of
     Inl e \<Rightarrow> e = (if shares db i = None then ErrShareNotFound else ErrShareAlreadyRevoked)
   | Inr (s, db') \<Rightarrow> \<exists>o'. shares db i = Some o' \<and> share_RevokedAt o' = None \<and>
       s = o'\<lparr>share_RevokedAt := Some now\<rparr>)"
proof (cases "shares db i")
  case None
  then show ?thesis using assms by (simp add: ShareRevoke_def revoke_none)
next
  case (Some s)
  show ?thesis
  proof (cases "share_RevokedAt s")
    case None
    then obtain r d where r: "ss_RevokeShare st now i db = Inr (r, d)"
      using revoke_some [OF assms(1) Some None, of now] by (metis surj_pair)
    from revoke_law [OF inv r] Some r show ?thesis by (auto simp: ShareRevoke_def)
  next
    case (Some t)
    then show ?thesis using assms \<open>shares db i = _\<close> by (simp add: ShareRevoke_def revoke_again)
  qed
qed

lemma covers_none [simp]: "CoversForCaller st db None ty i = False"
  by (simp add: CoversForCaller_def)

lemma covers_iff:
  "CoversForCaller st db (Some (NewSharedEntities rows)) ty i \<longleftrightarrow>
     ValidShareEntityType ty \<and>
     ((\<exists>row \<in> set rows. sr_EntityType row = ty \<and> sr_EntityID row = i) \<or>
      ty = ShareEntityPage \<and> up db \<and>
      (\<exists>ref. refs db ty i = Some ref \<and>
         (\<exists>row \<in> set rows. row_covers_page row i (ref_SpaceID ref) (ref_PagePath ref))))"
proof (cases "up db")
  case True
  then show ?thesis
    by (auto simp: CoversForCaller_def CoversEntity_iff CoversPage_iff lookup_law ValidShareEntityType_def
        row_covers_page_def split: option.splits)
next
  case False
  then obtain e where "ss_LookupSharedEntity st db ShareEntityPage i = Inl e" using lookup_down by blast
  with False show ?thesis
    by (auto simp: CoversForCaller_def CoversEntity_iff ValidShareEntityType_def)
qed

end

end
