(* ===== verification/ShareStorePg.thy ===== *)
theory ShareStorePg
  imports Shares WorkDb
begin

text \<open>
  \<^verbatim>\<open>internal/db/adapters/shares.go\<close> over \<^verbatim>\<open>internal/db/queries/entity_shares.sql\<close>
  (migration 026): the SQL-backed share store, its interpretation as a \<open>share_store\<close>, and what the
  rows say about who a share reaches. The organisations table is not modelled; every share takes its
  organisation from a space of it, so that foreign key holds.
\<close>

section \<open>Statements on entity_shares\<close>

definition share_active :: "instant \<Rightarrow> EntityShareRow \<Rightarrow> bool" where
  "share_active now s \<longleftrightarrow>
     sh_revoked s = None \<and> (case sh_expires s of None \<Rightarrow> True | Some t \<Rightarrow> t > now)"

definition subtree_hit :: "uuid \<Rightarrow> uuid \<Rightarrow> string \<Rightarrow> PageRow \<Rightarrow> bool" where
  "subtree_hit space page pat p \<longleftrightarrow>
     pg_space p = space \<and> \<not> pg_deleted p \<and> (pg_id p = page \<or> like_match pat (pg_path p))"

definition in_subtree :: "'x work_db_scheme \<Rightarrow> uuid \<Rightarrow> uuid \<Rightarrow> string \<Rightarrow> uuid \<Rightarrow> bool" where
  "in_subtree db space page pat i \<longleftrightarrow> list_ex (\<lambda>p. pg_id p = i \<and> subtree_hit space page pat p) (pages db)"

definition q_CountActiveSharesForPageSubtree ::
    "instant \<Rightarrow> 'x work_db_scheme \<Rightarrow> uuid \<Rightarrow> uuid \<Rightarrow> string \<Rightarrow> nat" where
  "q_CountActiveSharesForPageSubtree now db space page pat =
     length (filter (\<lambda>s. sh_entity_type s = ''page'' \<and> share_active now s \<and>
       in_subtree db space page pat (sh_entity s)) (entity_shares db))"

definition q_CountPageSubtree :: "'x work_db_scheme \<Rightarrow> uuid \<Rightarrow> uuid \<Rightarrow> string \<Rightarrow> nat" where
  "q_CountPageSubtree db space page pat = length (filter (subtree_hit space page pat) (pages db))"

text \<open>The partial unique index ranges over unrevoked rows, with the nil uuid for an absent audience
  id; whether a row has expired does not matter to it.\<close>

definition share_index :: "EntityShareRow \<Rightarrow> string \<times> uuid \<times> string \<times> uuid" where
  "share_index s =
     (sh_entity_type s, sh_entity s, sh_audience s,
      case sh_audience_id s of None \<Rightarrow> uuid_nil | Some t \<Rightarrow> t)"

text \<open>The first check constraint a row violates, in the order the server evaluates them (by name).\<close>

definition share_check :: "EntityShareRow \<Rightarrow> string option" where
  "share_check s =
     (if (sh_audience s = ''team'') \<noteq> (sh_audience_id s \<noteq> None)
        then Some ''entity_shares_audience_id_present''
      else if sh_audience s \<notin> {''org'', ''team''} then Some ''entity_shares_audience_valid''
      else if sh_cascade s \<and> sh_entity_type s \<noteq> ''page'' then Some ''entity_shares_cascade_pages_only''
      else if \<not> (case sh_expires s of None \<Rightarrow> True | Some t \<Rightarrow> t > sh_created s)
        then Some ''entity_shares_expiry_future''
      else if sh_entity_type s \<notin> {''page'', ''ticket'', ''project_item''}
        then Some ''entity_shares_type_valid''
      else None)"

definition q_CreateEntityShare :: "instant \<Rightarrow> EntityShareRow \<Rightarrow> ('x work_db_scheme, sql_error, EntityShareRow) stmt" where
  "q_CreateEntityShare now r db =
     (let s = r\<lparr>sh_created := now, sh_revoked := None\<rparr>
      in if \<not> db_up db then Inl SqlDown
         else case share_check s of
           Some c \<Rightarrow> Inl (SqlCheck c)
         | None \<Rightarrow>
             if list_ex (\<lambda>x. sh_id x = sh_id s) (entity_shares db) then Inl (SqlUnique ''entity_shares_pkey'')
             else if list_ex (\<lambda>x. sh_revoked x = None \<and> share_index x = share_index s) (entity_shares db)
               then Inl (SqlUnique ''entity_shares_unique_active'')
             else if \<not> (list_ex (\<lambda>x. s_id x = sh_space s) (spaces db) \<and>
                       opt_exists (\<lambda>t. list_ex (\<lambda>x. t_id x = t) (teams db)) (sh_audience_id s) \<and>
                       user_exists db (sh_created_by s)) then Inl SqlForeignKey
             else Inr (s, db\<lparr>entity_shares := entity_shares db @ [s]\<rparr>))"

definition q_GetEntityShare :: "'x work_db_scheme \<Rightarrow> uuid \<Rightarrow> EntityShareRow option" where
  "q_GetEntityShare db i = List.find (\<lambda>s. sh_id s = i) (entity_shares db)"

definition q_HasActiveShareForEntity :: "instant \<Rightarrow> 'x work_db_scheme \<Rightarrow> string \<Rightarrow> uuid \<Rightarrow> bool" where
  "q_HasActiveShareForEntity now db ty i =
     list_ex (\<lambda>s. sh_entity_type s = ty \<and> sh_entity s = i \<and> share_active now s) (entity_shares db)"

definition q_ListActiveSharesForSpacePages :: "instant \<Rightarrow> 'x work_db_scheme \<Rightarrow> uuid \<Rightarrow> (uuid \<times> bool \<times> string) list" where
  "q_ListActiveSharesForSpacePages now db space =
     concat (map (\<lambda>s. map (\<lambda>p. (sh_entity s, sh_cascade s, pg_path p))
         (filter (\<lambda>p. pg_id p = sh_entity s \<and> \<not> pg_deleted p \<and> pg_space p = space) (pages db)))
       (filter (\<lambda>s. sh_entity_type s = ''page'' \<and> share_active now s) (entity_shares db)))"

definition q_ListSharesByEntity :: "'x work_db_scheme \<Rightarrow> uuid \<Rightarrow> string \<Rightarrow> uuid \<Rightarrow> EntityShareRow list" where
  "q_ListSharesByEntity db org ty i =
     sort_key sh_created (filter (\<lambda>s. sh_org s = org \<and> sh_entity_type s = ty \<and> sh_entity s = i \<and>
       sh_revoked s = None) (entity_shares db))"

definition q_LookupSharedPage :: "'x work_db_scheme \<Rightarrow> uuid \<Rightarrow> (uuid \<times> uuid \<times> string) option" where
  "q_LookupSharedPage db i =
     (case List.find (\<lambda>p. pg_id p = i \<and> \<not> pg_deleted p) (pages db) of
        None \<Rightarrow> None
      | Some p \<Rightarrow> map_option (\<lambda>s. (s_org s, pg_space p, pg_path p)) (q_GetSpaceByID db (pg_space p)))"

definition q_LookupSharedProjectItem :: "'x work_db_scheme \<Rightarrow> uuid \<Rightarrow> (uuid \<times> uuid) option" where
  "q_LookupSharedProjectItem db i =
     (case List.find (\<lambda>p. pi_id p = i \<and> \<not> pi_deleted p) (project_items db) of
        None \<Rightarrow> None
      | Some p \<Rightarrow> map_option (\<lambda>s. (s_org s, pi_space p)) (q_GetSpaceByID db (pi_space p)))"

definition q_LookupSharedTicket :: "'x work_db_scheme \<Rightarrow> uuid \<Rightarrow> (uuid \<times> uuid) option" where
  "q_LookupSharedTicket db i =
     (case List.find (\<lambda>p. tk_id p = i \<and> \<not> tk_deleted p) (tickets db) of
        None \<Rightarrow> None
      | Some p \<Rightarrow> map_option (\<lambda>s. (s_org s, tk_space p)) (q_GetSpaceByID db (tk_space p)))"

text \<open>\<open>ResolveShareRows\<close>: the audience test and the joined root of a page share.\<close>

definition audience_reaches :: "'x work_db_scheme \<Rightarrow> uuid \<Rightarrow> uuid \<Rightarrow> EntityShareRow \<Rightarrow> bool" where
  "audience_reaches db org user s \<longleftrightarrow>
     sh_audience s = ''org'' \<or>
     (sh_audience s = ''team'' \<and>
        (case sh_audience_id s of None \<Rightarrow> False | Some t \<Rightarrow> List.member (effective_team_ids db org user) t))"

definition share_root_page :: "'x work_db_scheme \<Rightarrow> EntityShareRow \<Rightarrow> PageRow option" where
  "share_root_page db s =
     (if sh_entity_type s = ''page''
      then List.find (\<lambda>p. pg_id p = sh_entity s \<and> \<not> pg_deleted p) (pages db) else None)"

definition share_reaches :: "instant \<Rightarrow> 'x work_db_scheme \<Rightarrow> uuid \<Rightarrow> uuid \<Rightarrow> EntityShareRow \<Rightarrow> bool" where
  "share_reaches now db org user s \<longleftrightarrow>
     sh_org s = org \<and> share_active now s \<and> audience_reaches db org user s"

definition q_ResolveShareRows ::
    "instant \<Rightarrow> 'x work_db_scheme \<Rightarrow> uuid \<Rightarrow> uuid \<Rightarrow> (EntityShareRow \<times> PageRow option) list" where
  "q_ResolveShareRows now db org user =
     map (\<lambda>s. (s, share_root_page db s)) (filter (share_reaches now db org user) (entity_shares db))"

definition revoke_at :: "instant \<Rightarrow> EntityShareRow \<Rightarrow> EntityShareRow" where
  "revoke_at now s = s\<lparr>sh_revoked := Some now\<rparr>"

definition q_RevokeEntityShare :: "instant \<Rightarrow> uuid \<Rightarrow> ('x work_db_scheme, sql_error, EntityShareRow) stmt" where
  "q_RevokeEntityShare now i db =
     (if \<not> db_up db then Inl SqlDown
      else case List.find (\<lambda>s. sh_id s = i \<and> sh_revoked s = None) (entity_shares db) of
        None \<Rightarrow> Inl SqlNoRows
      | Some s \<Rightarrow> Inr (revoke_at now s,
          db\<lparr>entity_shares := map (\<lambda>s. if sh_id s = i \<and> sh_revoked s = None then revoke_at now s else s)
               (entity_shares db)\<rparr>))"

text \<open>An \<open>UPDATE \<dots> RETURNING\<close> of every unrevoked row a predicate selects.\<close>

definition revoke_where ::
    "instant \<Rightarrow> (EntityShareRow \<Rightarrow> bool) \<Rightarrow> ('x work_db_scheme, sql_error, EntityShareRow list) stmt" where
  "revoke_where now P db =
     (let hit = (\<lambda>s. sh_revoked s = None \<and> P s)
      in if \<not> db_up db then Inl SqlDown
         else Inr (map (revoke_at now) (filter hit (entity_shares db)),
                   db\<lparr>entity_shares := map (\<lambda>s. if hit s then revoke_at now s else s) (entity_shares db)\<rparr>))"

definition q_RevokeSharesByEntity ::
    "instant \<Rightarrow> string \<Rightarrow> uuid \<Rightarrow> ('x work_db_scheme, sql_error, EntityShareRow list) stmt" where
  "q_RevokeSharesByEntity now ty i = revoke_where now (\<lambda>s. sh_entity_type s = ty \<and> sh_entity s = i)"

definition q_RevokeSharesByPageSubtree ::
    "instant \<Rightarrow> uuid \<Rightarrow> uuid \<Rightarrow> string \<Rightarrow> ('x work_db_scheme, sql_error, EntityShareRow list) stmt" where
  "q_RevokeSharesByPageSubtree now space page pat db =
     revoke_where now (\<lambda>s. sh_entity_type s = ''page'' \<and> in_subtree db space page pat (sh_entity s)) db"

section \<open>The adapter\<close>

definition isForeignKeyViolation :: "sql_error \<Rightarrow> bool" where
  "isForeignKeyViolation e \<longleftrightarrow> e = SqlForeignKey"

definition dbShareToDomain :: "EntityShareRow \<Rightarrow> Share" where
  "dbShareToDomain s =
     \<lparr>share_ID = sh_id s, share_OrgID = sh_org s, share_SpaceID = sh_space s,
      share_EntityType = sh_entity_type s, share_EntityID = sh_entity s, share_Audience = sh_audience s,
      share_AudienceID = sh_audience_id s, share_Cascade = sh_cascade s, share_ExpiresAt = sh_expires s,
      share_CreatedBy = sh_created_by s, share_CreatedAt = sh_created s, share_RevokedAt = sh_revoked s\<rparr>"

definition share_params :: "Share \<Rightarrow> EntityShareRow" where
  "share_params s =
     \<lparr>sh_id = share_ID s, sh_org = share_OrgID s, sh_space = share_SpaceID s,
      sh_entity_type = share_EntityType s, sh_entity = share_EntityID s, sh_audience = share_Audience s,
      sh_audience_id = share_AudienceID s, sh_cascade = share_Cascade s, sh_expires = share_ExpiresAt s,
      sh_created_by = share_CreatedBy s, sh_created = 0, sh_revoked = None\<rparr>"

definition pg_ResolveShareRows ::
    "instant \<Rightarrow> 'x work_db_scheme \<Rightarrow> uuid \<Rightarrow> uuid \<Rightarrow> access_error + ShareRow list" where
  "pg_ResolveShareRows now db orgID userID =
     rbind (run_query db (q_ResolveShareRows now db orgID userID)) (\<lambda>rows.
       Inr (map (\<lambda>(s, p). \<lparr>sr_EntityType = sh_entity_type s, sr_EntityID = sh_entity s,
              sr_Cascade = sh_cascade s, sr_RootPath = map_option pg_path p,
              sr_RootSpaceID = map_option pg_space p\<rparr>) rows))"

definition lookupRef :: "'x work_db_scheme \<Rightarrow> SharedEntityRef option \<Rightarrow> access_error + SharedEntityRef" where
  "lookupRef db r =
     rbind (run_query db r) (\<lambda>r. case r of None \<Rightarrow> Inl ErrSharedEntityNotFound | Some r \<Rightarrow> Inr r)"

definition shared_ref :: "'x work_db_scheme \<Rightarrow> string \<Rightarrow> uuid \<Rightarrow> SharedEntityRef option" where
  "shared_ref db ty i =
     (if ty = ShareEntityPage then
        map_option (\<lambda>(org, sp, path). \<lparr>ref_OrgID = org, ref_SpaceID = sp, ref_PagePath = path\<rparr>) (q_LookupSharedPage db i)
      else if ty = ShareEntityTicket then
        map_option (\<lambda>(org, sp). \<lparr>ref_OrgID = org, ref_SpaceID = sp, ref_PagePath = ''''\<rparr>) (q_LookupSharedTicket db i)
      else
        map_option (\<lambda>(org, sp). \<lparr>ref_OrgID = org, ref_SpaceID = sp, ref_PagePath = ''''\<rparr>) (q_LookupSharedProjectItem db i))"

definition pg_LookupSharedEntity :: "'x work_db_scheme \<Rightarrow> string \<Rightarrow> uuid \<Rightarrow> access_error + SharedEntityRef" where
  "pg_LookupSharedEntity db ty i =
     (if ValidShareEntityType ty then lookupRef db (shared_ref db ty i) else Inl ErrInvalidShareEntityType)"

definition pg_ShareTeamExistsInOrg :: "'x work_db_scheme \<Rightarrow> uuid \<Rightarrow> uuid \<Rightarrow> access_error + bool" where
  "pg_ShareTeamExistsInOrg db orgID teamID =
     rbind (run_query db (q_GetTeamByID db teamID)) (\<lambda>t.
       case t of None \<Rightarrow> Inr False | Some t \<Rightarrow> Inr (t_org t = orgID \<and> \<not> t_deleted t))"

definition pg_CreateShare :: "instant \<Rightarrow> Share \<Rightarrow> ('x work_db_scheme, access_error, Share) stmt" where
  "pg_CreateShare now s db =
     (case q_CreateEntityShare now (share_params s) db of
        Inl e \<Rightarrow>
          if uniqueViolation e \<noteq> None then Inl ErrDuplicateShare
          else if isForeignKeyViolation e then Inl ErrShareAudienceTeamNotFound
          else Inl (ErrDatabase ''creating share'')
      | Inr (row, db') \<Rightarrow> Inr (dbShareToDomain row, db'))"

definition pg_GetShare :: "'x work_db_scheme \<Rightarrow> uuid \<Rightarrow> access_error + Share" where
  "pg_GetShare db i =
     rbind (run_query db (q_GetEntityShare db i)) (\<lambda>r.
       case r of None \<Rightarrow> Inl ErrShareNotFound | Some row \<Rightarrow> Inr (dbShareToDomain row))"

definition pg_RevokeShare :: "instant \<Rightarrow> uuid \<Rightarrow> ('x work_db_scheme, access_error, Share) stmt" where
  "pg_RevokeShare now i db =
     (case q_RevokeEntityShare now i db of
        Inl e \<Rightarrow>
          if e = SqlNoRows then
            (case run_query db (q_GetEntityShare db i) of
               Inr (Some _) \<Rightarrow> Inl ErrShareAlreadyRevoked
             | _ \<Rightarrow> Inl ErrShareNotFound)
          else Inl (ErrDatabase ''revoking share'')
      | Inr (row, db') \<Rightarrow> Inr (dbShareToDomain row, db'))"

definition pg_ListSharesByEntity :: "'x work_db_scheme \<Rightarrow> uuid \<Rightarrow> string \<Rightarrow> uuid \<Rightarrow> access_error + Share list" where
  "pg_ListSharesByEntity db orgID ty i =
     rbind (run_query db (q_ListSharesByEntity db orgID ty i)) (\<lambda>rows. Inr (map dbShareToDomain rows))"

definition pg_CountPageSubtree :: "'x work_db_scheme \<Rightarrow> uuid \<Rightarrow> uuid \<Rightarrow> string \<Rightarrow> access_error + nat" where
  "pg_CountPageSubtree db spaceID pageID path =
     run_query db (q_CountPageSubtree db spaceID pageID (SubtreeLikePattern path))"

definition pg_ListActiveSharesForSpacePages ::
    "instant \<Rightarrow> 'x work_db_scheme \<Rightarrow> uuid \<Rightarrow> access_error + SpacePageShare list" where
  "pg_ListActiveSharesForSpacePages now db spaceID =
     rbind (run_query db (q_ListActiveSharesForSpacePages now db spaceID)) (\<lambda>rows.
       Inr (map (\<lambda>(i, c, p). \<lparr>sps_EntityID = i, sps_Cascade = c, sps_RootPath = p\<rparr>) rows))"

definition pg_CountActiveSharesForPageSubtree ::
    "instant \<Rightarrow> 'x work_db_scheme \<Rightarrow> uuid \<Rightarrow> uuid \<Rightarrow> string \<Rightarrow> access_error + nat" where
  "pg_CountActiveSharesForPageSubtree now db spaceID pageID path =
     run_query db (q_CountActiveSharesForPageSubtree now db spaceID pageID (SubtreeLikePattern path))"

definition pg_share_store :: "'x work_db_scheme ShareStore" where
  "pg_share_store =
     \<lparr>ss_LookupSharedEntity = pg_LookupSharedEntity, ss_TeamExistsInOrg = pg_ShareTeamExistsInOrg,
      ss_CreateShare = pg_CreateShare, ss_GetShare = pg_GetShare, ss_RevokeShare = pg_RevokeShare,
      ss_ListSharesByEntity = pg_ListSharesByEntity, ss_CountPageSubtree = pg_CountPageSubtree,
      ss_CountActiveSharesForPageSubtree = pg_CountActiveSharesForPageSubtree\<rparr>"

lemma pg_share_store_simps [simp]:
  "ss_LookupSharedEntity pg_share_store = pg_LookupSharedEntity"
  "ss_TeamExistsInOrg pg_share_store = pg_ShareTeamExistsInOrg"
  "ss_CreateShare pg_share_store = pg_CreateShare"
  "ss_GetShare pg_share_store = pg_GetShare"
  "ss_RevokeShare pg_share_store = pg_RevokeShare"
  "ss_ListSharesByEntity pg_share_store = pg_ListSharesByEntity"
  "ss_CountPageSubtree pg_share_store = pg_CountPageSubtree"
  "ss_CountActiveSharesForPageSubtree pg_share_store = pg_CountActiveSharesForPageSubtree"
  by (simp_all add: pg_share_store_def)

section \<open>The table's constraints\<close>

definition share_row_ok :: "EntityShareRow \<Rightarrow> bool" where
  "share_row_ok s \<longleftrightarrow>
     sh_entity_type s \<in> {''page'', ''ticket'', ''project_item''} \<and> sh_audience s \<in> {''org'', ''team''} \<and>
     (sh_audience s = ''team'') = (sh_audience_id s \<noteq> None) \<and>
     (sh_cascade s \<longrightarrow> sh_entity_type s = ''page'') \<and>
     (case sh_expires s of None \<Rightarrow> True | Some t \<Rightarrow> t > sh_created s)"

lemma share_check_None: "share_check s = None \<longleftrightarrow> share_row_ok s"
  unfolding share_check_def share_row_ok_def by (simp split: option.split)

definition shares_wf :: "'x work_db_scheme \<Rightarrow> bool" where
  "shares_wf db \<longleftrightarrow>
     distinct (map sh_id (entity_shares db)) \<and>
     distinct (map share_index (filter (\<lambda>s. sh_revoked s = None) (entity_shares db))) \<and>
     (\<forall>s \<in> set (entity_shares db). share_row_ok s)"

definition share_of :: "'x work_db_scheme \<Rightarrow> uuid \<Rightarrow> Share option" where
  "share_of db i = map_option dbShareToDomain (q_GetEntityShare db i)"

definition live_team_of :: "'x work_db_scheme \<Rightarrow> uuid \<Rightarrow> uuid \<Rightarrow> bool" where
  "live_team_of db org t \<longleftrightarrow> (case q_GetTeamByID db t of None \<Rightarrow> False | Some x \<Rightarrow> t_org x = org)"

lemma q_GetTeamByID_live: "q_GetTeamByID db t = Some x \<Longrightarrow> \<not> t_deleted x"
  by (auto simp: q_GetTeamByID_def live_team_def dest: find_Some_in)

lemma share_index_cell:
  "share_cell (dbShareToDomain s) = share_cell (dbShareToDomain t) \<Longrightarrow> share_index s = share_index t"
  by (simp add: share_cell_def dbShareToDomain_def share_index_def)

lemma q_GetEntityShare_Some:
  assumes "shares_wf db"
  shows "q_GetEntityShare db i = Some s \<longleftrightarrow> s \<in> set (entity_shares db) \<and> sh_id s = i"
proof
  assume "q_GetEntityShare db i = Some s"
  then show "s \<in> set (entity_shares db) \<and> sh_id s = i"
    unfolding q_GetEntityShare_def by (auto dest: find_Some_in)
next
  assume s: "s \<in> set (entity_shares db) \<and> sh_id s = i"
  have "distinct (map sh_id (entity_shares db))" using assms by (simp add: shares_wf_def)
  then show "q_GetEntityShare db i = Some s"
    unfolding q_GetEntityShare_def
    by (intro find_the_unique) (use s in \<open>auto dest: distinct_key\<close>)
qed

lemma q_GetEntityShare_None: "q_GetEntityShare db i = None \<longleftrightarrow> (\<forall>s \<in> set (entity_shares db). sh_id s \<noteq> i)"
  by (auto simp: q_GetEntityShare_def find_None_iff)

text \<open>What an accepted insert and an accepted revocation did.\<close>

lemma q_CreateEntityShare_Inr:
  assumes "q_CreateEntityShare now r db = Inr (s, db')"
  shows "s = r\<lparr>sh_created := now, sh_revoked := None\<rparr>" and "db_up db" and "share_row_ok s"
    and "sh_id s \<notin> sh_id ` set (entity_shares db)"
    and "\<forall>x \<in> set (entity_shares db). sh_revoked x = None \<longrightarrow> share_index x \<noteq> share_index s"
    and "db' = db\<lparr>entity_shares := entity_shares db @ [s]\<rparr>"
  using assms
  by (auto simp: q_CreateEntityShare_def Let_def share_check_None [symmetric] list_ex_iff
      split: if_splits option.splits)

lemma create_keeps_shares_wf:
  assumes "shares_wf db" and "q_CreateEntityShare now r db = Inr (s, db')"
  shows "shares_wf db'"
  using assms(1) q_CreateEntityShare_Inr [OF assms(2)]
  by (auto simp: shares_wf_def)

lemma revoke_at_simps [simp]:
  "sh_id (revoke_at now s) = sh_id s" "share_index (revoke_at now s) = share_index s"
  "share_row_ok (revoke_at now s) = share_row_ok s" "sh_revoked (revoke_at now s) = Some now"
  "sh_org (revoke_at now s) = sh_org s" "sh_entity_type (revoke_at now s) = sh_entity_type s"
  "sh_entity (revoke_at now s) = sh_entity s" "sh_space (revoke_at now s) = sh_space s"
  by (simp_all add: revoke_at_def share_index_def share_row_ok_def split: option.split)

text \<open>Revoking any selection of rows keeps the constraints.\<close>

definition revoke_rows :: "instant \<Rightarrow> (EntityShareRow \<Rightarrow> bool) \<Rightarrow> EntityShareRow list \<Rightarrow> EntityShareRow list" where
  "revoke_rows now P ss = map (\<lambda>s. if sh_revoked s = None \<and> P s then revoke_at now s else s) ss"

lemma revoke_rows_id: "map sh_id (revoke_rows now P ss) = map sh_id ss"
  by (induction ss) (auto simp: revoke_rows_def)

lemma revoke_rows_filter:
  "filter (\<lambda>s. sh_revoked s = None) (revoke_rows now P ss) =
     filter (\<lambda>s. sh_revoked s = None \<and> \<not> P s) ss"
  by (induction ss) (auto simp: revoke_rows_def)

lemma distinct_map_filter_filter: "distinct (map f (filter P xs)) \<Longrightarrow> distinct (map f (filter (\<lambda>x. P x \<and> Q x) xs))"
  by (induction xs) (auto split: if_splits)

lemma revoke_rows_wf:
  assumes "shares_wf db"
  shows "shares_wf (db\<lparr>entity_shares := revoke_rows now P (entity_shares db)\<rparr>)"
  using assms distinct_map_filter_filter [of share_index "\<lambda>s. sh_revoked s = None" "entity_shares db" "\<lambda>s. \<not> P s"]
  by (auto simp: shares_wf_def revoke_rows_id revoke_rows_filter) (auto simp: revoke_rows_def)

lemma q_RevokeEntityShare_Inr:
  assumes "shares_wf db" and "q_RevokeEntityShare now i db = Inr (r, db')"
  shows "\<exists>s. q_GetEntityShare db i = Some s \<and> sh_revoked s = None \<and> r = revoke_at now s \<and> db_up db \<and>
    db' = db\<lparr>entity_shares := revoke_rows now (\<lambda>s. sh_id s = i) (entity_shares db)\<rparr>"
proof -
  from assms(2) obtain s where s: "List.find (\<lambda>s. sh_id s = i \<and> sh_revoked s = None) (entity_shares db) = Some s"
    and r: "r = revoke_at now s" "db_up db"
    and d: "db' = db\<lparr>entity_shares := map (\<lambda>s. if sh_id s = i \<and> sh_revoked s = None then revoke_at now s else s) (entity_shares db)\<rparr>"
    by (auto simp: q_RevokeEntityShare_def split: if_splits option.splits)
  have "db' = db\<lparr>entity_shares := revoke_rows now (\<lambda>s. sh_id s = i) (entity_shares db)\<rparr>"
    unfolding d revoke_rows_def by (simp add: conj_commute)
  moreover have "q_GetEntityShare db i = Some s \<and> sh_revoked s = None"
    using find_Some_in [OF s] by (simp add: q_GetEntityShare_Some [OF assms(1)])
  ultimately show ?thesis using r by blast
qed

lemma find_revoke_rows:
  "List.find (\<lambda>s. sh_id s = j) (revoke_rows now (\<lambda>s. sh_id s = i) ss) =
     map_option (\<lambda>s. if sh_revoked s = None \<and> sh_id s = i then revoke_at now s else s)
       (List.find (\<lambda>s. sh_id s = j) ss)"
  by (induction ss) (auto simp: revoke_rows_def)

section \<open>The adapter is a share store\<close>

lemma share_of_create:
  assumes "shares_wf db" and "pg_CreateShare now s db = Inr (s', db')"
  shows "s' = s\<lparr>share_CreatedAt := now, share_RevokedAt := None\<rparr> \<and> db_up db' \<and> shares_wf db' \<and>
    share_of db (share_ID s) = None \<and> share_of db' = (share_of db)(share_ID s \<mapsto> s') \<and>
    (\<forall>j t. share_of db j = Some t \<and> share_RevokedAt t = None \<longrightarrow> share_cell t \<noteq> share_cell s)"
proof -
  from assms(2) obtain row where q: "q_CreateEntityShare now (share_params s) db = Inr (row, db')"
    and s': "s' = dbShareToDomain row"
    by (auto simp: pg_CreateShare_def split: sum.splits if_splits)
  note c = q_CreateEntityShare_Inr [OF q]
  have dom: "s' = s\<lparr>share_CreatedAt := now, share_RevokedAt := None\<rparr>"
    by (simp add: s' c(1) dbShareToDomain_def share_params_def)
  have n: "q_GetEntityShare db (share_ID s) = None"
    using c(4) unfolding q_GetEntityShare_None c(1) by (simp add: share_params_def) (metis imageI)
  have id: "sh_id row = share_ID s" by (simp add: c(1) share_params_def)
  have "share_of db' j = ((share_of db)(share_ID s \<mapsto> s')) j" for j
    using n by (cases "j = share_ID s")
      (auto simp: share_of_def c(6) q_GetEntityShare_def find_app id s' split: option.split)
  then have upd: "share_of db' = (share_of db)(share_ID s \<mapsto> s')" by blast
  have cell: "share_cell t \<noteq> share_cell s" if t: "share_of db j = Some t" "share_RevokedAt t = None" for j t
  proof
    assume eq: "share_cell t = share_cell s"
    from t(1) obtain x where x: "x \<in> set (entity_shares db)" "t = dbShareToDomain x"
      by (auto simp: share_of_def q_GetEntityShare_Some [OF assms(1)])
    have "share_cell (dbShareToDomain row) = share_cell s"
      by (simp add: c(1) share_cell_def dbShareToDomain_def share_params_def)
    then have "share_cell (dbShareToDomain x) = share_cell (dbShareToDomain row)"
      using eq x(2) by simp
    then have "share_index x = share_index row" by (rule share_index_cell)
    moreover have "sh_revoked x = None" using t(2) x(2) by (simp add: dbShareToDomain_def)
    ultimately show False using c(5) x(1) by blast
  qed
  have up': "db_up db'" by (simp add: c(6) c(2))
  have no: "share_of db (share_ID s) = None" by (simp add: share_of_def n)
  show ?thesis using dom up' create_keeps_shares_wf [OF assms(1) q] no upd cell by blast
qed

lemma share_of_create_taken:
  assumes "db_up db" and "share_shape s" and "expires_after now s" and "share_of db j = Some t"
    and "share_RevokedAt t = None" and "share_cell t = share_cell s"
  shows "pg_CreateShare now s db = Inl ErrDuplicateShare"
proof -
  let ?r = "(share_params s)\<lparr>sh_created := now, sh_revoked := None\<rparr>"
  from assms(4) obtain x where x: "x \<in> set (entity_shares db)" "t = dbShareToDomain x"
    by (auto simp: share_of_def q_GetEntityShare_def dest: find_Some_in)
  have "share_cell (dbShareToDomain x) = share_cell (dbShareToDomain ?r)"
    using assms(6) x(2) by (simp add: share_cell_def dbShareToDomain_def share_params_def)
  then have "share_index x = share_index ?r" by (rule share_index_cell)
  moreover have "sh_revoked x = None" using assms(5) x(2) by (simp add: dbShareToDomain_def)
  ultimately have "list_ex (\<lambda>x. sh_revoked x = None \<and> share_index x = share_index ?r) (entity_shares db)"
    using x(1) by (auto simp: list_ex_iff)
  moreover have "share_row_ok ?r"
    using assms(2,3)
    by (simp add: share_row_ok_def share_shape_def ValidShareEntityType_def expires_after_def share_params_def
        split: option.split_asm)
  then have "share_check ?r = None" by (simp add: share_check_None)
  ultimately have "\<exists>c. q_CreateEntityShare now (share_params s) db = Inl (SqlUnique c)"
    using assms(1) by (simp add: q_CreateEntityShare_def Let_def)
  then show ?thesis by (auto simp: pg_CreateShare_def uniqueViolation_def)
qed

lemma share_of_revoke:
  assumes "shares_wf db" and "pg_RevokeShare now i db = Inr (s', db')"
  shows "\<exists>s. share_of db i = Some s \<and> share_RevokedAt s = None \<and> s' = s\<lparr>share_RevokedAt := Some now\<rparr> \<and>
    db_up db' \<and> shares_wf db' \<and> share_of db' = (share_of db)(i \<mapsto> s')"
proof -
  from assms(2) obtain row where q: "q_RevokeEntityShare now i db = Inr (row, db')" and s': "s' = dbShareToDomain row"
    by (auto simp: pg_RevokeShare_def split: sum.splits if_splits option.splits)
  from q_RevokeEntityShare_Inr [OF assms(1) q] obtain s where
    s: "q_GetEntityShare db i = Some s" "sh_revoked s = None" "row = revoke_at now s" "db_up db"
    and d: "db' = db\<lparr>entity_shares := revoke_rows now (\<lambda>s. sh_id s = i) (entity_shares db)\<rparr>" by blast
  have g: "q_GetEntityShare db' j = map_option (\<lambda>s. if sh_revoked s = None \<and> sh_id s = i then revoke_at now s else s)
      (q_GetEntityShare db j)" for j
    by (simp add: q_GetEntityShare_def d find_revoke_rows)
  have idj: "sh_id x = j" if "q_GetEntityShare db j = Some x" for j x
    using that by (simp add: q_GetEntityShare_Some [OF assms(1)])
  have "share_of db' j = ((share_of db)(i \<mapsto> s')) j" for j
  proof (cases "j = i")
    case True
    with s idj [OF s(1)] show ?thesis by (simp add: share_of_def g s')
  next
    case False
    then show ?thesis using idj by (cases "q_GetEntityShare db j") (auto simp: share_of_def g)
  qed
  then have "share_of db' = (share_of db)(i \<mapsto> s')" by blast
  moreover have "shares_wf db'" unfolding d by (rule revoke_rows_wf [OF assms(1)])
  moreover have "s' = (dbShareToDomain s)\<lparr>share_RevokedAt := Some now\<rparr>"
    by (simp add: s' s(3) dbShareToDomain_def revoke_at_def)
  ultimately show ?thesis using s by (auto simp: share_of_def d dbShareToDomain_def)
qed

interpretation pg_shares: share_store pg_share_store db_up shares_wf share_of shared_ref live_team_of
proof
  fix db db' :: "'a work_db_scheme" and i j org tm :: uuid and ty and s s' t :: Share and now
  show "db_up db \<Longrightarrow> ValidShareEntityType ty \<Longrightarrow> ss_LookupSharedEntity pg_share_store db ty i =
      (case shared_ref db ty i of None \<Rightarrow> Inl ErrSharedEntityNotFound | Some r \<Rightarrow> Inr r)"
    by (simp add: pg_LookupSharedEntity_def lookupRef_def)
  show "\<not> db_up db \<Longrightarrow> \<exists>e. ss_LookupSharedEntity pg_share_store db ty i = Inl e"
    by (simp add: pg_LookupSharedEntity_def lookupRef_def)
  show "db_up db \<Longrightarrow> ss_TeamExistsInOrg pg_share_store db org tm = Inr (live_team_of db org tm)"
    by (auto simp: pg_ShareTeamExistsInOrg_def live_team_of_def dest: q_GetTeamByID_live split: option.split)
  show "db_up db \<Longrightarrow> ss_GetShare pg_share_store db i =
      (case share_of db i of None \<Rightarrow> Inl ErrShareNotFound | Some s \<Rightarrow> Inr s)"
    by (simp add: pg_GetShare_def share_of_def split: option.split)
  show "shares_wf db \<Longrightarrow> ss_CreateShare pg_share_store now s db = Inr (s', db') \<Longrightarrow>
      s' = s\<lparr>share_CreatedAt := now, share_RevokedAt := None\<rparr> \<and> db_up db' \<and> shares_wf db' \<and>
      share_of db (share_ID s) = None \<and> share_of db' = (share_of db)(share_ID s \<mapsto> s') \<and>
      (\<forall>j t. share_of db j = Some t \<and> share_RevokedAt t = None \<longrightarrow> share_cell t \<noteq> share_cell s)"
    unfolding pg_share_store_simps by (rule share_of_create)
  show "db_up db \<Longrightarrow> share_shape s \<Longrightarrow> expires_after now s \<Longrightarrow> share_of db j = Some t \<Longrightarrow>
      share_RevokedAt t = None \<Longrightarrow> share_cell t = share_cell s \<Longrightarrow>
      ss_CreateShare pg_share_store now s db = Inl ErrDuplicateShare"
    unfolding pg_share_store_simps by (rule share_of_create_taken)
  show "shares_wf db \<Longrightarrow> ss_RevokeShare pg_share_store now i db = Inr (s', db') \<Longrightarrow>
      \<exists>s. share_of db i = Some s \<and> share_RevokedAt s = None \<and> s' = s\<lparr>share_RevokedAt := Some now\<rparr> \<and>
        db_up db' \<and> shares_wf db' \<and> share_of db' = (share_of db)(i \<mapsto> s')"
    unfolding pg_share_store_simps by (rule share_of_revoke)
  show "db_up db \<Longrightarrow> share_of db i = None \<Longrightarrow> ss_RevokeShare pg_share_store now i db = Inl ErrShareNotFound"
    by (auto simp: pg_RevokeShare_def q_RevokeEntityShare_def share_of_def q_GetEntityShare_def find_None_iff
        dest: find_Some_in split: option.split)
  show "db_up db \<Longrightarrow> shares_wf db \<Longrightarrow> share_of db i = Some s \<Longrightarrow> share_RevokedAt s \<noteq> None \<Longrightarrow>
      ss_RevokeShare pg_share_store now i db = Inl ErrShareAlreadyRevoked"
  proof -
    assume up: "db_up db" and wf: "shares_wf db" and s: "share_of db i = Some s" "share_RevokedAt s \<noteq> None"
    from s obtain x where x: "q_GetEntityShare db i = Some x" "sh_revoked x \<noteq> None"
      by (auto simp: share_of_def dbShareToDomain_def)
    have "List.find (\<lambda>s. sh_id s = i \<and> sh_revoked s = None) (entity_shares db) = None"
    proof (rule ccontr)
      assume "List.find (\<lambda>s. sh_id s = i \<and> sh_revoked s = None) (entity_shares db) \<noteq> None"
      then obtain y where "List.find (\<lambda>s. sh_id s = i \<and> sh_revoked s = None) (entity_shares db) = Some y" by blast
      from find_Some_in [OF this] have "q_GetEntityShare db i = Some y" "sh_revoked y = None"
        by (simp_all add: q_GetEntityShare_Some [OF wf])
      with x show False by simp
    qed
    then show ?thesis using up x(1) by (simp add: pg_RevokeShare_def q_RevokeEntityShare_def)
  qed
  show "db_up db \<Longrightarrow> share_of db i = Some s \<Longrightarrow> share_RevokedAt s = None \<Longrightarrow>
      \<exists>r. ss_RevokeShare pg_share_store now i db = Inr r"
    by (auto simp: pg_RevokeShare_def q_RevokeEntityShare_def share_of_def q_GetEntityShare_def dbShareToDomain_def
        find_None_iff dest: find_Some_in split: option.split)
qed

end
