(* ===== verification/ShareReach.thy ===== *)
theory ShareReach
  imports ShareStorePg
begin

text \<open>
  The share component end to end: the service and the resolution run on the SQL-backed store. The
  properties say who a share reaches in terms of the rows of the database, and what creating and
  revoking one changes.
\<close>

section \<open>What the rows say\<close>

definition pages_wf :: "'x work_db_scheme \<Rightarrow> bool" where
  "pages_wf db \<longleftrightarrow> distinct (map pg_id (pages db)) \<and> distinct (map s_id (spaces db))"

text \<open>Page \<open>i\<close> as it is in \<open>db'\<close> lies at or below page \<open>r\<close> as it is in \<open>db\<close>: both live, in one space,
  the paths related by whole segments.\<close>

definition page_below :: "'x work_db_scheme \<Rightarrow> uuid \<Rightarrow> 'x work_db_scheme \<Rightarrow> uuid \<Rightarrow> bool" where
  "page_below db r db' i \<longleftrightarrow>
     (\<exists>root \<in> set (pages db). \<exists>p \<in> set (pages db').
        pg_id root = r \<and> \<not> pg_deleted root \<and> pg_id p = i \<and> \<not> pg_deleted p \<and>
        space_live db' (pg_space p) \<and> pg_space p = pg_space root \<and>
        PathWithinSubtree (pg_path p) (pg_path root))"

definition row_covers :: "'x work_db_scheme \<Rightarrow> EntityShareRow \<Rightarrow> 'x work_db_scheme \<Rightarrow> string \<Rightarrow> uuid \<Rightarrow> bool" where
  "row_covers db s db' ty i \<longleftrightarrow>
     sh_entity_type s = ty \<and>
     (sh_entity s = i \<or> ty = ShareEntityPage \<and> sh_cascade s \<and> page_below db (sh_entity s) db' i)"

definition covered :: "instant \<Rightarrow> 'x work_db_scheme \<Rightarrow> uuid \<Rightarrow> uuid \<Rightarrow> string \<Rightarrow> uuid \<Rightarrow> bool" where
  "covered now db org u ty i \<longleftrightarrow>
     (\<exists>s \<in> set (entity_shares db). share_reaches now db org u s \<and> row_covers db s db ty i)"

lemma live_page_Some:
  assumes "pages_wf db"
  shows "List.find (\<lambda>p. pg_id p = i \<and> \<not> pg_deleted p) (pages db) = Some p \<longleftrightarrow>
    p \<in> set (pages db) \<and> pg_id p = i \<and> \<not> pg_deleted p"
proof
  assume "List.find (\<lambda>p. pg_id p = i \<and> \<not> pg_deleted p) (pages db) = Some p"
  then show "p \<in> set (pages db) \<and> pg_id p = i \<and> \<not> pg_deleted p" by (auto dest: find_Some_in)
next
  assume p: "p \<in> set (pages db) \<and> pg_id p = i \<and> \<not> pg_deleted p"
  have "distinct (map pg_id (pages db))" using assms by (simp add: pages_wf_def)
  then show "List.find (\<lambda>p. pg_id p = i \<and> \<not> pg_deleted p) (pages db) = Some p"
    by (intro find_the_unique) (use p in \<open>auto dest: distinct_key\<close>)
qed

lemma shared_ref_page:
  assumes "pages_wf db"
  shows "shared_ref db ShareEntityPage i = Some ref \<longleftrightarrow>
    (\<exists>p \<in> set (pages db). \<exists>s. pg_id p = i \<and> \<not> pg_deleted p \<and> q_GetSpaceByID db (pg_space p) = Some s \<and>
       ref = \<lparr>ref_OrgID = s_org s, ref_SpaceID = pg_space p, ref_PagePath = pg_path p\<rparr>)"
proof -
  let ?f = "List.find (\<lambda>p. pg_id p = i \<and> \<not> pg_deleted p) (pages db)"
  have "shared_ref db ShareEntityPage i = Some ref \<longleftrightarrow>
      (\<exists>p s. ?f = Some p \<and> q_GetSpaceByID db (pg_space p) = Some s \<and>
         ref = \<lparr>ref_OrgID = s_org s, ref_SpaceID = pg_space p, ref_PagePath = pg_path p\<rparr>)"
    by (auto simp: shared_ref_def q_LookupSharedPage_def split: option.split)
  then show ?thesis unfolding live_page_Some [OF assms] by blast
qed

lemma q_GetSpaceByID_live: "(\<exists>s. q_GetSpaceByID db i = Some s) \<longleftrightarrow> space_live db i"
  unfolding q_GetSpaceByID_def space_live_iff using find_None_iff [of _ "spaces db"]
  by (metis (mono_tags, lifting) find_Some_in not_None_eq)

lemma row_page_below:
  assumes "pages_wf db" and "pages_wf db'" and "sh_entity_type s = ShareEntityPage"
  shows "(\<exists>ref. shared_ref db' ShareEntityPage i = Some ref \<and>
      (\<exists>r. share_root_page db s = Some r \<and> pg_space r = ref_SpaceID ref \<and>
        PathWithinSubtree (ref_PagePath ref) (pg_path r))) \<longleftrightarrow> page_below db (sh_entity s) db' i"
  by (auto simp: shared_ref_page [OF assms(2)] share_root_page_def assms(3) live_page_Some [OF assms(1)]
      page_below_def q_GetSpaceByID_live [symmetric])
    (metis SharedEntityRef.select_convs(2) SharedEntityRef.select_convs(3))+

text \<open>The rows the resolution returns.\<close>

definition to_share_row :: "'x work_db_scheme \<Rightarrow> EntityShareRow \<Rightarrow> ShareRow" where
  "to_share_row db s =
     \<lparr>sr_EntityType = sh_entity_type s, sr_EntityID = sh_entity s, sr_Cascade = sh_cascade s,
      sr_RootPath = map_option pg_path (share_root_page db s),
      sr_RootSpaceID = map_option pg_space (share_root_page db s)\<rparr>"

lemma pg_ResolveShareRows_Inr:
  "pg_ResolveShareRows now db org u = Inr rows \<longleftrightarrow>
     db_up db \<and> rows = map (to_share_row db) (filter (share_reaches now db org u) (entity_shares db))"
  by (auto simp: pg_ResolveShareRows_def q_ResolveShareRows_def rbind_eq_Inr to_share_row_def)

lemma to_share_row_covers:
  "row_covers_page (to_share_row db s) i sp path \<longleftrightarrow>
     sh_entity_type s = ShareEntityPage \<and>
     (sh_entity s = i \<or> sh_cascade s \<and> (\<exists>r. share_root_page db s = Some r \<and> pg_space r = sp \<and>
        PathWithinSubtree path (pg_path r)))"
  by (auto simp: row_covers_page_def to_share_row_def)

lemma covers_rows:
  assumes r: "ResolveShares (Some pg_ResolveShareRows) now db org u = Inr se"
    and w: "pages_wf db" "pages_wf db'" and up: "db_up db'"
  shows "CoversForCaller pg_share_store db' (Some se) ty i \<longleftrightarrow>
    ValidShareEntityType ty \<and>
    (\<exists>s \<in> set (entity_shares db). share_reaches now db org u s \<and> row_covers db s db' ty i)"
proof -
  let ?S = "filter (share_reaches now db org u) (entity_shares db)"
  have se: "se = NewSharedEntities (map (to_share_row db) ?S)"
    using r by (auto simp: ResolveShares_def rbind_eq_Inr pg_ResolveShareRows_Inr)
  have direct: "(\<exists>row \<in> set (map (to_share_row db) ?S). sr_EntityType row = ty \<and> sr_EntityID row = i) \<longleftrightarrow>
      (\<exists>s \<in> set ?S. sh_entity_type s = ty \<and> sh_entity s = i)"
    by (simp add: to_share_row_def)
  have below: "(\<exists>ref. shared_ref db' ShareEntityPage i = Some ref \<and>
        (\<exists>row \<in> set (map (to_share_row db) ?S). row_covers_page row i (ref_SpaceID ref) (ref_PagePath ref))) \<longleftrightarrow>
      (\<exists>ref. shared_ref db' ShareEntityPage i = Some ref \<and>
        (\<exists>s \<in> set ?S. sh_entity_type s = ShareEntityPage \<and> sh_entity s = i)) \<or>
      (\<exists>s \<in> set ?S. sh_entity_type s = ShareEntityPage \<and> sh_cascade s \<and> page_below db (sh_entity s) db' i)"
    using row_page_below [OF w] by (simp only: set_map bex_simps(7) to_share_row_covers) blast
  show ?thesis
    unfolding se pg_shares.covers_iff direct
    using below up by (auto simp: row_covers_def)
qed

text \<open>
  C18. The one authorisation gate of every share-read route is exactly what the tables say. With
  the coverage resolved at the start of the request and the entity looked up later (possibly in a
  changed database), the gate opens if and only if some unrevoked, unexpired share of the org whose
  audience includes the caller names the entity itself, or is a cascading page share whose root page
  lies at or above the page in the page's own current space.
\<close>

theorem CoversForCaller_exactly:
  assumes "ResolveShares (Some pg_ResolveShareRows) now db org u = Inr se"
    and "pages_wf db" and "pages_wf db'" and "db_up db'"
  shows "CoversForCaller pg_share_store db' (Some se) ty i \<longleftrightarrow>
    ValidShareEntityType ty \<and>
    (\<exists>s \<in> set (entity_shares db). share_reaches now db org u s \<and> row_covers db s db' ty i)"
  by (rule covers_rows [OF assms])

section \<open>A database with shares to evaluate on\<close>

text \<open>Over the organisation of \<open>demo_db\<close>: in the hidden space 31 page 101 (path \<open>a\<close>) with its child 102
  (\<open>a.b\<close>), the sibling 103 (\<open>ab\<close>) and a ticket 111. Page 101 is shared with the org, cascading;
  the ticket's share with team 21 expired at instant 50.\<close>

definition demo_page :: "uuid \<Rightarrow> uuid option \<Rightarrow> string \<Rightarrow> PageRow" where
  "demo_page i par path =
     \<lparr>pg_id = i, pg_space = 31, pg_parent = par, pg_title = ''Page'', pg_content = '''', pg_version = 1,
      pg_author = 10, pg_position = 0, pg_path = path, pg_doc = None, pg_deleted = False\<rparr>"

definition demo_shared :: work_db where
  "demo_shared = org_db.extend demo_db
     \<lparr>workflows = [], workflow_states = [], workflow_transitions = [], transition_guards = [],
      transition_post_functions = [], transition_approvers = [], workflow_approvals = [],
      tickets =
        [\<lparr>tk_id = 111, tk_space = 31, tk_number = 1, tk_title = ''T'', tk_description = '''', tk_status = ''open'',
          tk_priority = ''low'', tk_reporter = Some 10, tk_assignee = None, tk_due = None, tk_resolved = None,
          tk_state = None, tk_requester = None, tk_deleted = False,
          tk_rank = [], tk_created = 0, tk_updated = 0\<rparr>],
      project_items = [],
      pages = [demo_page 101 None ''a'', demo_page 102 (Some 101) ''a.b'', demo_page 103 None ''ab''],
      page_revisions = [],
      entity_shares =
        [\<lparr>sh_id = 201, sh_org = 1, sh_space = 31, sh_entity_type = ''page'', sh_entity = 101, sh_audience = ''org'',
          sh_audience_id = None, sh_cascade = True, sh_expires = None, sh_created_by = 10, sh_created = 5,
          sh_revoked = None\<rparr>,
         \<lparr>sh_id = 202, sh_org = 1, sh_space = 31, sh_entity_type = ''ticket'', sh_entity = 111, sh_audience = ''team'',
          sh_audience_id = Some 21, sh_cascade = False, sh_expires = Some 50, sh_created_by = 10, sh_created = 5,
          sh_revoked = None\<rparr>],
      tags = [], entity_tags = []\<rparr>"

lemma demo_shared_wf: "shares_wf demo_shared" "pages_wf demo_shared" "db_up demo_shared"
  by (code_simp, code_simp, code_simp)

definition demo_coverage :: SharedEntities where
  "demo_coverage =
     \<lparr>se_direct = [(''page'', [101])], se_cascadeRoots = [\<lparr>cr_pageID = 101, cr_spaceID = 31, cr_path = ''a''\<rparr>]\<rparr>"

lemma demo_coverage_resolves: "ResolveShares (Some pg_ResolveShareRows) 60 demo_shared 1 11 = Inr demo_coverage"
  by code_simp

theorem CoversForCaller_exactly_witness:
  "(\<exists>s \<in> set (entity_shares demo_shared). share_reaches 60 demo_shared 1 11 s \<and>
      row_covers demo_shared s demo_shared ''page'' 102) \<and>
   \<not> (\<exists>s \<in> set (entity_shares demo_shared). share_reaches 60 demo_shared 1 11 s \<and>
      row_covers demo_shared s demo_shared ''page'' 103)"
proof -
  note exact = CoversForCaller_exactly [OF demo_coverage_resolves demo_shared_wf(2,2,3), of "''page''"]
  have "CoversForCaller pg_share_store demo_shared (Some demo_coverage) ''page'' 102"
    and "\<not> CoversForCaller pg_share_store demo_shared (Some demo_coverage) ''page'' 103"
    by code_simp+
  then show ?thesis unfolding exact by (simp add: ValidShareEntityType_def)
qed

section \<open>Creating and revoking\<close>

text \<open>The row a creation inserts.\<close>

lemma pg_CreateShare_row:
  assumes "pg_CreateShare now s db = Inr (s', db')"
  shows "db' = db\<lparr>entity_shares := entity_shares db @ [(share_params s)\<lparr>sh_created := now, sh_revoked := None\<rparr>]\<rparr>"
proof -
  from assms obtain row where "q_CreateEntityShare now (share_params s) db = Inr (row, db')"
    by (auto simp: pg_CreateShare_def split: sum.splits if_splits)
  from q_CreateEntityShare_Inr(1,6) [OF this] show ?thesis by blast
qed

text \<open>Coverage reads the shares, and otherwise only the tables a share statement leaves alone.\<close>

lemma coverage_frame [simp]:
  "share_reaches t (db\<lparr>entity_shares := l\<rparr>) = share_reaches t db"
  "row_covers (db\<lparr>entity_shares := l\<rparr>) s (db\<lparr>entity_shares := l\<rparr>) = row_covers db s db"
  by (simp_all add: fun_eq_iff share_reaches_def audience_reaches_def effective_team_ids_def direct_teams_def
      q_GetTeamByID_def row_covers_def page_below_def space_live_def split: option.split)

text \<open>Whom the requested share is for, and what it is on, in the terms of the request.\<close>

definition input_reaches :: "instant \<Rightarrow> 'x work_db_scheme \<Rightarrow> CreateShareInput \<Rightarrow> uuid \<Rightarrow> uuid \<Rightarrow> bool" where
  "input_reaches t db inp org u \<longleftrightarrow>
     csi_OrgID inp = org \<and> (case csi_ExpiresAt inp of None \<Rightarrow> True | Some e \<Rightarrow> e > t) \<and>
     (csi_Audience inp = AudienceOrg \<or>
      csi_Audience inp = AudienceTeam \<and> (\<exists>tm. csi_AudienceID inp = Some tm \<and> tm \<in> set (effective_team_ids db org u)))"

definition input_covers :: "'x work_db_scheme \<Rightarrow> CreateShareInput \<Rightarrow> string \<Rightarrow> uuid \<Rightarrow> bool" where
  "input_covers db inp ty i \<longleftrightarrow>
     csi_EntityType inp = ty \<and>
     (csi_EntityID inp = i \<or> ty = ShareEntityPage \<and> csi_Cascade inp \<and> page_below db (csi_EntityID inp) db i)"

lemma new_row_reaches:
  "share_reaches t db org u ((share_params (new_share n ref inp))\<lparr>sh_created := now, sh_revoked := None\<rparr>)
     = input_reaches t db inp org u"
  by (auto simp: share_reaches_def share_active_def audience_reaches_def input_reaches_def share_params_def
      new_share_def split: option.split)

lemma new_row_covers:
  "row_covers db ((share_params (new_share n ref inp))\<lparr>sh_created := now, sh_revoked := None\<rparr>) db ty i
     = input_covers db inp ty i"
  by (simp add: row_covers_def input_covers_def share_params_def new_share_def)

text \<open>
  C19. Sharing widens access by exactly what was asked. A creation that succeeds keeps the table's
  constraints (one unrevoked share per entity and audience), the new share is found by its id under
  the org, and from then on, at any time \<open>t\<close> and for any user, an entity is covered if it was before
  or the request's audience and expiry include the user and the request's entity (with its subtree,
  when it cascades) includes it. Nothing else becomes visible and nothing stops being visible.
\<close>

theorem ShareCreate_effective:
  assumes wf: "shares_wf db"
    and c: "ShareCreate pg_share_store now dbnow n ref inp db = Inr (s, db')"
  shows "shares_wf db' \<and> ShareGet pg_share_store db' (csi_OrgID inp) n = Inr s \<and>
    (\<forall>t org u ty i. covered t db' org u ty i \<longleftrightarrow>
       covered t db org u ty i \<or> input_reaches t db inp org u \<and> input_covers db inp ty i)"
proof -
  have q: "pg_CreateShare dbnow (new_share n ref inp) db = Inr (s, db')"
    using pg_shares.create_steps(4) [OF c] by simp
  have "covered t db' org u ty i \<longleftrightarrow>
      covered t db org u ty i \<or> input_reaches t db inp org u \<and> input_covers db inp ty i" for t org u ty i
    unfolding covered_def pg_CreateShare_row [OF q] coverage_frame
    by (simp add: bex_Un new_row_reaches new_row_covers) blast
  moreover have "shares_wf db'" using share_of_create [OF wf q] by blast
  ultimately show ?thesis using pg_shares.create_then_get [OF wf c] by blast
qed

definition demo_share_input :: "string \<Rightarrow> uuid option \<Rightarrow> CreateShareInput" where
  "demo_share_input aud tm =
     \<lparr>csi_OrgID = 1, csi_EntityType = ''ticket'', csi_EntityID = 111, csi_Audience = aud, csi_AudienceID = tm,
      csi_Cascade = False, csi_ExpiresAt = Some 99, csi_CreatedBy = 10\<rparr>"

definition demo_ref :: SharedEntityRef where
  "demo_ref = \<lparr>ref_OrgID = 1, ref_SpaceID = 31, ref_PagePath = ''''\<rparr>"

definition demo_created :: Share where
  "demo_created = (new_share 203 demo_ref (demo_share_input ''org'' None))\<lparr>share_CreatedAt := 60\<rparr>"

definition demo_share_db :: work_db where
  "demo_share_db = demo_shared\<lparr>entity_shares := entity_shares demo_shared @
     [(share_params demo_created)\<lparr>sh_created := 60\<rparr>]\<rparr>"

lemma demo_share_created:
  "ShareCreate pg_share_store 60 60 203 demo_ref (demo_share_input ''org'' None) demo_shared = Inr (demo_created, demo_share_db)"
  by code_simp

theorem ShareCreate_effective_witness:
  "covered 60 demo_share_db 1 11 ''ticket'' 111 \<and> \<not> covered 60 demo_shared 1 11 ''ticket'' 111"
proof -
  have "input_reaches 60 demo_shared (demo_share_input ''org'' None) 1 11"
    by (simp add: input_reaches_def demo_share_input_def)
  moreover have "input_covers demo_shared (demo_share_input ''org'' None) ''ticket'' 111"
    by (simp add: input_covers_def demo_share_input_def)
  moreover have "\<not> covered 60 demo_shared 1 11 ''ticket'' 111"
    by (simp add: covered_def demo_shared_def org_db.defs demo_db_def share_reaches_def share_active_def row_covers_def)
  ultimately show ?thesis using ShareCreate_effective [OF demo_shared_wf(1) demo_share_created] by blast
qed

text \<open>
  C20. Revocation is immediate and final. Once a revocation has succeeded, coverage at any instant
  is exactly what the other shares give: the revoked one reaches nobody on the very next
  resolution, no other share is disturbed, the row itself stays in the table, and a second
  revocation answers \<open>ErrShareAlreadyRevoked\<close>.
\<close>

theorem ShareRevoke_immediate:
  assumes wf: "shares_wf db" and r: "ShareRevoke pg_share_store now i db = Inr (s, db')"
  shows "(\<forall>t org u ty j. covered t db' org u ty j \<longleftrightarrow>
      (\<exists>x \<in> set (entity_shares db). sh_id x \<noteq> i \<and> share_reaches t db org u x \<and> row_covers db x db ty j)) \<and>
    shares_wf db' \<and> map sh_id (entity_shares db') = map sh_id (entity_shares db) \<and>
    ShareRevoke pg_share_store now' i db' = Inl ErrShareAlreadyRevoked"
proof -
  from r obtain row where q: "q_RevokeEntityShare now i db = Inr (row, db')"
    by (auto simp: ShareRevoke_def pg_RevokeShare_def split: sum.splits if_splits option.splits)
  from q_RevokeEntityShare_Inr [OF wf q]
  have d: "db' = db\<lparr>entity_shares := revoke_rows now (\<lambda>s. sh_id s = i) (entity_shares db)\<rparr>" 
    and u: "\<exists>s. q_GetEntityShare db i = Some s \<and> sh_revoked s = None" by blast+
  have dead: "\<not> share_reaches t db org u x" if "sh_revoked x \<noteq> None" for t org u x
    using that by (simp add: share_reaches_def share_active_def)
  have one: "sh_revoked x = None" if "x \<in> set (entity_shares db)" "sh_id x = i" for x
    using u that by (auto simp: q_GetEntityShare_Some [OF wf]) (use wf in \<open>auto simp: shares_wf_def dest: distinct_key\<close>)
  have "(\<exists>x \<in> set (revoke_rows now (\<lambda>s. sh_id s = i) (entity_shares db)). share_reaches t db org u x \<and> row_covers db x db ty j)
      \<longleftrightarrow> (\<exists>x \<in> set (entity_shares db). sh_id x \<noteq> i \<and> share_reaches t db org u x \<and> row_covers db x db ty j)"
    for t org u ty j
  proof -
    have "row_covers db (revoke_at now x) db ty j = row_covers db x db ty j" for x
      by (simp add: row_covers_def revoke_at_def)
    then have "share_reaches t db org u (if sh_revoked x = None \<and> sh_id x = i then revoke_at now x else x) \<and>
          row_covers db (if sh_revoked x = None \<and> sh_id x = i then revoke_at now x else x) db ty j \<longleftrightarrow>
        sh_id x \<noteq> i \<and> share_reaches t db org u x \<and> row_covers db x db ty j" if "x \<in> set (entity_shares db)" for x
      using one [OF that] dead [of "revoke_at now x" t org u] by auto
    then show ?thesis unfolding revoke_rows_def set_map bex_simps(7) by (rule bex_cong [OF refl])
  qed
  then have "covered t db' org u ty j \<longleftrightarrow>
      (\<exists>x \<in> set (entity_shares db). sh_id x \<noteq> i \<and> share_reaches t db org u x \<and> row_covers db x db ty j)"
    for t org u ty j
    unfolding covered_def d coverage_frame by simp
  moreover have "shares_wf db'" unfolding d by (rule revoke_rows_wf [OF wf])
  moreover have "map sh_id (entity_shares db') = map sh_id (entity_shares db)" by (simp add: d revoke_rows_id)
  ultimately show ?thesis using pg_shares.revoke_then_revoke [OF wf r] by blast
qed

definition demo_revoked_db :: work_db where
  "demo_revoked_db = demo_shared\<lparr>entity_shares := map (\<lambda>s. if sh_id s = 201 then revoke_at 60 s else s) (entity_shares demo_shared)\<rparr>"

theorem ShareRevoke_immediate_witness: "\<not> covered 60 demo_revoked_db 1 11 ''page'' 102 \<and>
   ShareRevoke pg_share_store 70 201 demo_revoked_db = Inl ErrShareAlreadyRevoked"
proof -
  have "\<exists>s. ShareRevoke pg_share_store 60 201 demo_shared = Inr (s, demo_revoked_db)"
  proof
    show "ShareRevoke pg_share_store 60 201 demo_shared =
      Inr (dbShareToDomain (revoke_at 60 (entity_shares demo_shared ! 0)), demo_revoked_db)" by code_simp
  qed
  then obtain s where r: "ShareRevoke pg_share_store 60 201 demo_shared = Inr (s, demo_revoked_db)" ..
  have "\<not> (\<exists>x \<in> set (entity_shares demo_shared). sh_id x \<noteq> 201 \<and> share_reaches 60 demo_shared 1 11 x \<and>
      row_covers demo_shared x demo_shared ''page'' 102)"
    by (simp add: demo_shared_def org_db.defs demo_db_def row_covers_def)
  then show ?thesis using ShareRevoke_immediate [OF demo_shared_wf(1) r] by blast
qed

text \<open>
  C21. One unrevoked share per entity and audience, whatever its expiry: a well-formed request for a
  cell that already carries an unrevoked share is refused with \<open>ErrDuplicateShare\<close>, also when that
  share expired long ago and reaches nobody. The expired share has to be revoked first.
\<close>

theorem ShareCreate_blocked_by_unrevoked:
  assumes "db_up db" and "is_ok (validateAudience pg_share_store db inp)"
    and "ValidShareEntityType (csi_EntityType inp)"
    and "csi_Cascade inp \<Longrightarrow> csi_EntityType inp = ShareEntityPage"
    and "\<And>e. csi_ExpiresAt inp = Some e \<Longrightarrow> now < e \<and> dbnow < e"
    and "ShareGet pg_share_store db (share_OrgID t) j = Inr t" and "share_RevokedAt t = None"
    and "share_cell t = (csi_EntityType inp, csi_EntityID inp, csi_Audience inp, csi_AudienceID inp)"
  shows "ShareCreate pg_share_store now dbnow n ref inp db = Inl ErrDuplicateShare"
proof -
  have "share_of db j = Some t" using assms(6) pg_shares.get_iff [OF assms(1)] by blast
  then show ?thesis using pg_shares.create_refused_while_unrevoked [OF assms(1-5)] assms(7,8) by blast
qed

theorem ShareCreate_blocked_by_unrevoked_witness:
  "Expired 60 (dbShareToDomain (entity_shares demo_shared ! 1)) \<and>
   ShareCreate pg_share_store 60 60 203 demo_ref (demo_share_input ''team'' (Some 21)) demo_shared = Inl ErrDuplicateShare"
proof (intro conjI)
  let ?t = "dbShareToDomain (entity_shares demo_shared ! 1)"
  show "Expired 60 ?t" by code_simp
  have v: "is_ok (validateAudience pg_share_store demo_shared (demo_share_input ''team'' (Some 21)))" by code_simp
  have g: "ShareGet pg_share_store demo_shared (share_OrgID ?t) 202 = Inr ?t" by code_simp
  have r: "share_RevokedAt ?t = None" by code_simp
  have c: "share_cell ?t = (''ticket'', 111, ''team'', Some 21)" by code_simp
  show "ShareCreate pg_share_store 60 60 203 demo_ref (demo_share_input ''team'' (Some 21)) demo_shared = Inl ErrDuplicateShare"
    by (rule ShareCreate_blocked_by_unrevoked [OF demo_shared_wf(3) v _ _ _ g r])
      (use c in \<open>simp_all add: demo_share_input_def ValidShareEntityType_def\<close>)
qed

end
