(* ===== verification/WikiPages.thy ===== *)
theory WikiPages
  imports WorkDb GoStrings "HOL-Library.List_Lexorder" "HOL-Library.Char_ord"
begin

text \<open>
  \<^verbatim>\<open>internal/core/wiki\<close>: the page service (\<^verbatim>\<open>page.go\<close>), its conflict report
  (\<^verbatim>\<open>conflict.go\<close>), the revision reads (\<^verbatim>\<open>revision.go\<close>, without the text diff, which is
  a third-party library's) and the page tree (\<^verbatim>\<open>tree.go\<close>).

  The service sees its database through two interfaces: \<open>PageStore\<close>, whose only implementation is
  the generated queries (so its errors are SQL errors), and \<open>ContentTxStore\<close>, the transactional
  seam. \<open>us\<close> is \<open>uuid.UUID.String\<close>, a function of the third-party package: the model takes it as a
  parameter, and what the code relies on is \<open>uuid_text\<close>.
\<close>

definition uuid_text :: "(uuid \<Rightarrow> string) \<Rightarrow> bool" where
  "uuid_text us \<longleftrightarrow> inj us \<and> (\<forall>i. us i \<noteq> '''' \<and> CHR ''.'' \<notin> set (us i))"

datatype wiki_error =
    ErrPageNotFound
  | ErrVersionConflict
  | ErrEmptyTitle
  | ErrInvalidSpaceID
  | ErrInvalidAuthorID
  | ErrTargetSpaceNotFound
  | ErrParentPageNotFound
  | ErrParentNotInTargetSpace
  | ErrPageMoveCycle
  | ErrPageIsDocumentBacked
  | ErrRevisionNotFound
  | ErrWikiDatabase string

section \<open>Interfaces\<close>

record CreatePageParams =
  cpp_ID :: uuid
  cpp_SpaceID :: uuid
  cpp_ParentID :: "uuid option"
  cpp_Title :: string
  cpp_Content :: string
  cpp_AuthorID :: uuid
  cpp_Position :: int
  cpp_Path :: string

record 'db PageStore =
  ps_CreatePage :: "CreatePageParams \<Rightarrow> ('db, sql_error, PageRow) stmt"
  ps_GetPageByID :: "'db \<Rightarrow> uuid \<Rightarrow> sql_error + PageRow"
  ps_GetPageInSpace :: "'db \<Rightarrow> uuid \<Rightarrow> uuid \<Rightarrow> sql_error + PageRow"
  ps_ListPagesBySpace :: "'db \<Rightarrow> uuid \<Rightarrow> sql_error + PageRow list"
  ps_ListRootPagesBySpace :: "'db \<Rightarrow> uuid \<Rightarrow> sql_error + PageRow list"
  ps_ListChildPages :: "'db \<Rightarrow> uuid \<Rightarrow> sql_error + PageRow list"
  ps_CreatePageRevision :: "PageRevisionRow \<Rightarrow> ('db, sql_error, PageRevisionRow) stmt"
  ps_GetPageRevision :: "'db \<Rightarrow> uuid \<Rightarrow> 32 word \<Rightarrow> sql_error + PageRevisionRow"
  ps_ListPageRevisions :: "'db \<Rightarrow> uuid \<Rightarrow> uuid \<Rightarrow> sql_error + (PageRevisionRow \<times> string option) list"

record MovePageInput =
  mpi_OrgID :: uuid
  mpi_TargetSpaceID :: uuid
  mpi_PageID :: uuid
  mpi_ParentID :: "uuid option"
  mpi_Position :: int
  mpi_ActorID :: uuid

record MovePageTxResult =
  mpr_CrossSpace :: bool
  mpr_RevokedShares :: nat

record UpdatePageInput =
  upi_PageID :: uuid
  upi_SpaceID :: uuid
  upi_ExpectedVersion :: "32 word"
  upi_Title :: string
  upi_Content :: string
  upi_AuthorID :: uuid

text \<open>The transactional seam mints identifiers and reads the clock: \<open>fresh\<close> and \<open>now\<close>.\<close>

record 'db ContentTxStore =
  ct_MovePageTx :: "(nat \<Rightarrow> uuid) \<Rightarrow> instant \<Rightarrow> MovePageInput \<Rightarrow> 'db \<Rightarrow> (wiki_error + MovePageTxResult) \<times> 'db"
  ct_DeletePageAndRevokeShares ::
    "(nat \<Rightarrow> uuid) \<Rightarrow> instant \<Rightarrow> uuid \<Rightarrow> uuid \<Rightarrow> uuid \<Rightarrow> 'db \<Rightarrow> (wiki_error + nat) \<times> 'db"
  ct_UpdatePageContentTx :: "uuid \<Rightarrow> UpdatePageInput \<Rightarrow> 'db \<Rightarrow> (wiki_error + PageRow) \<times> 'db"

section \<open>The page service\<close>

record CreatePageInput =
  cpi_SpaceID :: uuid
  cpi_ParentID :: "uuid option"
  cpi_Title :: string
  cpi_Content :: string
  cpi_AuthorID :: uuid
  cpi_Position :: int

definition validateCreateInput :: "CreatePageInput \<Rightarrow> wiki_error + unit" where
  "validateCreateInput inp =
     (if TrimSpace (cpi_Title inp) = '''' then Inl ErrEmptyTitle
      else if cpi_SpaceID inp = uuid_nil then Inl ErrInvalidSpaceID
      else if cpi_AuthorID inp = uuid_nil then Inl ErrInvalidAuthorID
      else Inr ())"

definition parent_path :: "('db, 'm) PageStore_scheme \<Rightarrow> (uuid \<Rightarrow> string) \<Rightarrow> 'db \<Rightarrow> CreatePageInput \<Rightarrow> uuid \<Rightarrow> wiki_error + string" where
  \<comment> \<open>\<open>path\<close> of \<open>CreatePage\<close>\<close>
  "parent_path s us db inp pageID =
     (case cpi_ParentID inp of
        None \<Rightarrow> Inr (us pageID)
      | Some par \<Rightarrow>
          (case ps_GetPageInSpace s db par (cpi_SpaceID inp) of
             Inl e \<Rightarrow> if e = SqlNoRows then Inl ErrParentPageNotFound
                      else Inl (ErrWikiDatabase ''fetching parent page'')
           | Inr parent \<Rightarrow> Inr (pg_path parent @ ''.'' @ us pageID)))"

text \<open>Two statements and no transaction: a page whose revision could not be written stays.\<close>

definition CreatePage ::
    "('db, 'm) PageStore_scheme \<Rightarrow> (uuid \<Rightarrow> string) \<Rightarrow> uuid \<Rightarrow> uuid \<Rightarrow> CreatePageInput \<Rightarrow> 'db \<Rightarrow> (wiki_error + PageRow) \<times> 'db" where
  "CreatePage s us pageID revID inp db =
     (case validateCreateInput inp of
        Inl e \<Rightarrow> (Inl e, db)
      | Inr _ \<Rightarrow>
        (case parent_path s us db inp pageID of
           Inl e \<Rightarrow> (Inl e, db)
         | Inr path \<Rightarrow>
           (case ps_CreatePage s \<lparr>cpp_ID = pageID, cpp_SpaceID = cpi_SpaceID inp, cpp_ParentID = cpi_ParentID inp,
                cpp_Title = cpi_Title inp, cpp_Content = cpi_Content inp, cpp_AuthorID = cpi_AuthorID inp,
                cpp_Position = cpi_Position inp, cpp_Path = path\<rparr> db of
              Inl _ \<Rightarrow> (Inl (ErrWikiDatabase ''creating page''), db)
            | Inr (page, db1) \<Rightarrow>
              (case ps_CreatePageRevision s \<lparr>pr_id = revID, pr_page = pg_id page, pr_version = pg_version page,
                   pr_title = pg_title page, pr_content = pg_content page, pr_doc = None,
                   pr_author = pg_author page\<rparr> db1 of
                 Inl _ \<Rightarrow> (Inl (ErrWikiDatabase ''creating initial revision''), db1)
               | Inr (_, db2) \<Rightarrow> (Inr page, db2)))))"

definition page_or_missing :: "sql_error + PageRow \<Rightarrow> wiki_error + PageRow" where
  "page_or_missing r =
     (case r of
        Inl e \<Rightarrow> if e = SqlNoRows then Inl ErrPageNotFound else Inl (ErrWikiDatabase ''getting page'')
      | Inr p \<Rightarrow> Inr p)"

definition GetPage :: "('db, 'm) PageStore_scheme \<Rightarrow> 'db \<Rightarrow> uuid \<Rightarrow> wiki_error + PageRow" where
  "GetPage s db i = page_or_missing (ps_GetPageByID s db i)"

definition GetPageInSpace :: "('db, 'm) PageStore_scheme \<Rightarrow> 'db \<Rightarrow> uuid \<Rightarrow> uuid \<Rightarrow> wiki_error + PageRow" where
  "GetPageInSpace s db spaceID i = page_or_missing (ps_GetPageInSpace s db i spaceID)"

definition UpdatePage ::
    "('db, 'm) ContentTxStore_scheme \<Rightarrow> uuid \<Rightarrow> UpdatePageInput \<Rightarrow> 'db \<Rightarrow> (wiki_error + PageRow) \<times> 'db" where
  "UpdatePage tx revID inp db =
     (if TrimSpace (upi_Title inp) = '''' then (Inl ErrEmptyTitle, db) else ct_UpdatePageContentTx tx revID inp db)"

definition MovePage ::
    "('db, 'm) ContentTxStore_scheme \<Rightarrow> (nat \<Rightarrow> uuid) \<Rightarrow> instant \<Rightarrow> MovePageInput \<Rightarrow> 'db \<Rightarrow> (wiki_error + MovePageTxResult) \<times> 'db" where
  "MovePage tx fresh now inp db = ct_MovePageTx tx fresh now inp db"

definition DeletePage ::
    "('db, 'm) ContentTxStore_scheme \<Rightarrow> (nat \<Rightarrow> uuid) \<Rightarrow> instant \<Rightarrow> uuid \<Rightarrow> uuid \<Rightarrow> uuid \<Rightarrow> 'db \<Rightarrow> (wiki_error + unit) \<times> 'db" where
  "DeletePage tx fresh now i spaceID actorID db =
     (case ct_DeletePageAndRevokeShares tx fresh now i spaceID actorID db of
        (Inl e, db') \<Rightarrow> (Inl e, db') | (Inr _, db') \<Rightarrow> (Inr (), db'))"

section \<open>Conflicts and revisions\<close>

record ConflictDetail =
  cd_PageID :: uuid
  cd_ExpectedVersion :: "32 word"
  cd_CurrentPage :: PageRow

text \<open>The result of \<open>UpdatePageOrConflict\<close>: the page, or an error with the detail when it is a conflict.\<close>

definition UpdatePageOrConflict ::
    "('db, 'm) PageStore_scheme \<Rightarrow> ('db, 'n) ContentTxStore_scheme \<Rightarrow> uuid \<Rightarrow> UpdatePageInput \<Rightarrow> 'db \<Rightarrow>
     ((wiki_error \<times> ConflictDetail option) + PageRow) \<times> 'db" where
  "UpdatePageOrConflict s tx revID inp db =
     (case UpdatePage tx revID inp db of
        (Inr page, db') \<Rightarrow> (Inr page, db')
      | (Inl e, db') \<Rightarrow>
          if e \<noteq> ErrVersionConflict then (Inl (e, None), db')
          else (case GetPageInSpace s db' (upi_SpaceID inp) (upi_PageID inp) of
                  Inl g \<Rightarrow> (Inl (g, None), db')
                | Inr current \<Rightarrow>
                    (Inl (ErrVersionConflict, Some \<lparr>cd_PageID = upi_PageID inp,
                       cd_ExpectedVersion = upi_ExpectedVersion inp, cd_CurrentPage = current\<rparr>), db')))"

definition ListRevisions ::
    "('db, 'm) PageStore_scheme \<Rightarrow> 'db \<Rightarrow> uuid \<Rightarrow> uuid \<Rightarrow> wiki_error + (PageRevisionRow \<times> string option) list" where
  "ListRevisions s db pageID spaceID =
     (case ps_ListPageRevisions s db pageID spaceID of
        Inl _ \<Rightarrow> Inl (ErrWikiDatabase ''listing revisions'') | Inr rs \<Rightarrow> Inr rs)"

definition GetRevision :: "('db, 'm) PageStore_scheme \<Rightarrow> 'db \<Rightarrow> uuid \<Rightarrow> 32 word \<Rightarrow> wiki_error + PageRevisionRow" where
  "GetRevision s db pageID version =
     (case ps_GetPageRevision s db pageID version of
        Inl e \<Rightarrow> if e = SqlNoRows then Inl ErrRevisionNotFound else Inl (ErrWikiDatabase ''getting revision'')
      | Inr r \<Rightarrow> Inr r)"

definition GetRevisionInSpace ::
    "('db, 'm) PageStore_scheme \<Rightarrow> 'db \<Rightarrow> uuid \<Rightarrow> uuid \<Rightarrow> 32 word \<Rightarrow> wiki_error + PageRevisionRow" where
  "GetRevisionInSpace s db spaceID pageID version =
     rbind (GetPageInSpace s db spaceID pageID) (\<lambda>_. GetRevision s db pageID version)"

section \<open>The page tree\<close>

text \<open>\<open>nodeByID\<close> with its pointers as identifiers: a node's children are the ids of the nodes it
  points to. \<open>BuildTree\<close> returns the root pointers and the nodes they lead to.\<close>

record TreeNode =
  tn_ID :: uuid
  tn_SpaceID :: uuid
  tn_ParentID :: "uuid option"
  tn_Title :: string
  tn_Version :: "32 word"
  tn_AuthorID :: uuid
  tn_Position :: int
  tn_Children :: "uuid list"

definition node_of :: "PageRow \<Rightarrow> TreeNode" where
  "node_of p =
     \<lparr>tn_ID = pg_id p, tn_SpaceID = pg_space p, tn_ParentID = pg_parent p, tn_Title = pg_title p, tn_Version = pg_version p,
      tn_AuthorID = pg_author p, tn_Position = pg_position p, tn_Children = []\<rparr>"

type_synonym node_heap = "(uuid \<times> TreeNode) list"

definition add_child :: "uuid \<Rightarrow> TreeNode \<Rightarrow> TreeNode" where
  "add_child c n = n\<lparr>tn_Children := tn_Children n @ [c]\<rparr>"

definition attach :: "uuid list \<times> node_heap \<Rightarrow> uuid \<Rightarrow> uuid list \<times> node_heap" where
  \<comment> \<open>one turn of the assembly loop\<close>
  "attach st i =
     (case map_of (snd st) i of
        None \<Rightarrow> st
      | Some node \<Rightarrow>
          (case tn_ParentID node of
             None \<Rightarrow> (fst st @ [i], snd st)
           | Some par \<Rightarrow>
               (case map_of (snd st) par of
                  None \<Rightarrow> (fst st @ [i], snd st)
                | Some parent \<Rightarrow> (fst st, AList.update par (add_child i parent) (snd st)))))"

text \<open>The comparison of the insertion sort; titles compare byte by byte.\<close>

definition after :: "TreeNode \<Rightarrow> TreeNode \<Rightarrow> bool" where
  "after a key \<longleftrightarrow>
     tn_Position a > tn_Position key \<or> (tn_Position a = tn_Position key \<and> tn_Title a > tn_Title key)"

text \<open>The inner loop walks the sorted prefix from its right end; here the prefix is kept reversed.\<close>

fun shift_in :: "('a \<Rightarrow> 'a \<Rightarrow> bool) \<Rightarrow> 'a \<Rightarrow> 'a list \<Rightarrow> 'a list" where
  "shift_in gt key [] = [key]"
| "shift_in gt key (x # xs) = (if gt x key then x # shift_in gt key xs else key # x # xs)"

definition insertion_sort :: "('a \<Rightarrow> 'a \<Rightarrow> bool) \<Rightarrow> 'a list \<Rightarrow> 'a list" where
  "insertion_sort gt xs = rev (fold (shift_in gt) xs [])"

definition after_in :: "node_heap \<Rightarrow> uuid \<Rightarrow> uuid \<Rightarrow> bool" where
  "after_in h a key \<longleftrightarrow>
     (case (map_of h a, map_of h key) of (Some x, Some y) \<Rightarrow> after x y | _ \<Rightarrow> False)"

definition sortTreeNodes :: "node_heap \<Rightarrow> uuid list \<Rightarrow> uuid list" where
  "sortTreeNodes h nodes = insertion_sort (after_in h) nodes"

definition build_nodes :: "PageRow list \<Rightarrow> node_heap" where
  "build_nodes ps = fold (\<lambda>p h. AList.update (pg_id p) (node_of p) h) ps []"

definition assemble :: "PageRow list \<Rightarrow> uuid list \<times> node_heap" where
  "assemble ps =
     (let h = build_nodes ps;
          (roots, h1) = foldl attach ([], h) (map fst h)
      in (sortTreeNodes h1 roots, map (\<lambda>(i, n). (i, n\<lparr>tn_Children := sortTreeNodes h1 (tn_Children n)\<rparr>)) h1))"

definition BuildTree :: "('db, 'm) PageStore_scheme \<Rightarrow> 'db \<Rightarrow> uuid \<Rightarrow> wiki_error + (uuid list \<times> node_heap)" where
  "BuildTree s db spaceID =
     (case ps_ListPagesBySpace s db spaceID of
        Inl _ \<Rightarrow> Inl (ErrWikiDatabase ''building tree'') | Inr ps \<Rightarrow> Inr (assemble ps))"

definition ListPagesBySpace :: "('db, 'm) PageStore_scheme \<Rightarrow> 'db \<Rightarrow> uuid \<Rightarrow> wiki_error + PageRow list" where
  "ListPagesBySpace s db spaceID =
     (case ps_ListPagesBySpace s db spaceID of
        Inl _ \<Rightarrow> Inl (ErrWikiDatabase ''listing pages by space'') | Inr ps \<Rightarrow> Inr ps)"

definition ListRootPages :: "('db, 'm) PageStore_scheme \<Rightarrow> 'db \<Rightarrow> uuid \<Rightarrow> wiki_error + PageRow list" where
  "ListRootPages s db spaceID =
     (case ps_ListRootPagesBySpace s db spaceID of
        Inl _ \<Rightarrow> Inl (ErrWikiDatabase ''listing root pages'') | Inr ps \<Rightarrow> Inr ps)"

definition ListChildPages :: "('db, 'm) PageStore_scheme \<Rightarrow> 'db \<Rightarrow> uuid \<Rightarrow> wiki_error + PageRow list" where
  "ListChildPages s db par =
     (case ps_ListChildPages s db par of
        Inl _ \<Rightarrow> Inl (ErrWikiDatabase ''listing child pages'') | Inr ps \<Rightarrow> Inr ps)"

end
