(* ===== verification/PageStorePg.thy ===== *)
theory PageStorePg
  imports WikiPages ShareReach
begin

text \<open>
  \<^verbatim>\<open>internal/db/queries/pages.sql\<close> and \<^verbatim>\<open>internal/db/adapters/content_tx.go\<close>: the statements
  on pages and revisions, and the transactions that carry share invariants (a delete revokes the
  entity's shares, a move across spaces those of the whole subtree), with their audit rows.
\<close>

section \<open>Statements on pages\<close>

definition page_live :: "uuid \<Rightarrow> PageRow \<Rightarrow> bool" where
  "page_live i p \<longleftrightarrow> pg_id p = i \<and> \<not> pg_deleted p"

definition page_exists :: "'x work_db_scheme \<Rightarrow> uuid \<Rightarrow> bool" where
  "page_exists db i \<longleftrightarrow> list_ex (\<lambda>p. pg_id p = i) (pages db)"

definition sql_row :: "'x org_db_scheme \<Rightarrow> 'a option \<Rightarrow> sql_error + 'a" where
  "sql_row db r = (if \<not> db_up db then Inl SqlDown else case r of None \<Rightarrow> Inl SqlNoRows | Some x \<Rightarrow> Inr x)"

definition sql_rows :: "'x org_db_scheme \<Rightarrow> 'a list \<Rightarrow> sql_error + 'a list" where
  "sql_rows db r = (if \<not> db_up db then Inl SqlDown else Inr r)"

definition q_CreatePage :: "CreatePageParams \<Rightarrow> ('x work_db_scheme, sql_error, PageRow) stmt" where
  "q_CreatePage a db =
     (let p = \<lparr>pg_id = cpp_ID a, pg_space = cpp_SpaceID a, pg_parent = cpp_ParentID a, pg_title = cpp_Title a,
               pg_content = cpp_Content a, pg_version = 1, pg_author = cpp_AuthorID a, pg_position = cpp_Position a,
               pg_path = cpp_Path a, pg_doc = None, pg_deleted = False\<rparr>
      in if \<not> db_up db then Inl SqlDown
         else if page_exists db (cpp_ID a) then Inl (SqlUnique ''pages_pkey'')
         else if \<not> (list_ex (\<lambda>s. s_id s = cpp_SpaceID a) (spaces db) \<and> opt_exists (page_exists db) (cpp_ParentID a) \<and>
                   user_exists db (cpp_AuthorID a)) then Inl SqlForeignKey
         else Inr (p, db\<lparr>pages := pages db @ [p]\<rparr>))"

definition q_GetPageInSpace :: "'x work_db_scheme \<Rightarrow> uuid \<Rightarrow> uuid \<Rightarrow> sql_error + PageRow" where
  "q_GetPageInSpace db i sp = sql_row db (List.find (\<lambda>p. pg_id p = i \<and> pg_space p = sp \<and> \<not> pg_deleted p) (pages db))"

definition q_GetPageByID :: "'x work_db_scheme \<Rightarrow> uuid \<Rightarrow> sql_error + PageRow" where
  "q_GetPageByID db i = sql_row db (List.find (page_live i) (pages db))"

definition q_GetPageForUpdate :: "'x work_db_scheme \<Rightarrow> uuid \<Rightarrow> sql_error + PageRow" where
  "q_GetPageForUpdate db i = sql_row db (List.find (page_live i) (pages db))"

text \<open>The listings are ordered by path; byte order stands for the server's collation, and no statement
  depends on it.\<close>

definition q_ListPagesBySpace :: "'x work_db_scheme \<Rightarrow> uuid \<Rightarrow> sql_error + PageRow list" where
  "q_ListPagesBySpace db sp = sql_rows db (sort_key pg_path (filter (\<lambda>p. pg_space p = sp \<and> \<not> pg_deleted p) (pages db)))"

definition q_ListRootPagesBySpace :: "'x work_db_scheme \<Rightarrow> uuid \<Rightarrow> sql_error + PageRow list" where
  "q_ListRootPagesBySpace db sp =
     sql_rows db (sort_key pg_path (filter (\<lambda>p. pg_space p = sp \<and> pg_parent p = None \<and> \<not> pg_deleted p) (pages db)))"

definition q_ListChildPages :: "'x work_db_scheme \<Rightarrow> uuid \<Rightarrow> sql_error + PageRow list" where
  "q_ListChildPages db par = sql_rows db (sort_key pg_path (filter (\<lambda>p. pg_parent p = Some par \<and> \<not> pg_deleted p) (pages db)))"

text \<open>\<open>version + 1\<close> on a 32-bit column: past the largest value the server refuses the statement.\<close>

definition int4_max :: "32 word" where "int4_max = 0x7FFFFFFF"

definition q_UpdatePageContent ::
    "uuid \<Rightarrow> 32 word \<Rightarrow> string \<Rightarrow> string \<Rightarrow> ('x work_db_scheme, sql_error, PageRow) stmt" where
  "q_UpdatePageContent i version title content db =
     (let hit = (\<lambda>p. page_live i p \<and> pg_version p = version);
          upd = (\<lambda>p. p\<lparr>pg_title := title, pg_content := content, pg_version := pg_version p + 1\<rparr>)
      in if \<not> db_up db then Inl SqlDown
         else case List.find hit (pages db) of
           None \<Rightarrow> Inl SqlNoRows
         | Some p \<Rightarrow>
             if pg_version p = int4_max then Inl (SqlCheck ''integer out of range'')
             else Inr (upd p, db\<lparr>pages := map (\<lambda>p. if hit p then upd p else p) (pages db)\<rparr>))"

definition q_MovePageToSpace ::
    "uuid \<Rightarrow> uuid \<Rightarrow> uuid option \<Rightarrow> int \<Rightarrow> string \<Rightarrow> ('x work_db_scheme, sql_error, unit) stmt" where
  "q_MovePageToSpace i sp par pos path db =
     (if \<not> db_up db then Inl SqlDown
      else if list_ex (page_live i) (pages db) \<and>
              \<not> (list_ex (\<lambda>s. s_id s = sp) (spaces db) \<and> opt_exists (page_exists db) par) then Inl SqlForeignKey
      else Inr ((), db\<lparr>pages := map (\<lambda>p. if page_live i p
             then p\<lparr>pg_space := sp, pg_parent := par, pg_position := pos, pg_path := path\<rparr> else p) (pages db)\<rparr>))"

definition q_MovePageDescendantsToSpace ::
    "uuid \<Rightarrow> string \<Rightarrow> string \<Rightarrow> uuid \<Rightarrow> string \<Rightarrow> ('x work_db_scheme, sql_error, unit) stmt" where
  "q_MovePageDescendantsToSpace newSpace newPrefix oldPrefix oldSpace pat db =
     (let hit = (\<lambda>p. pg_space p = oldSpace \<and> like_match pat (pg_path p) \<and> \<not> pg_deleted p)
      in if \<not> db_up db then Inl SqlDown
         else if list_ex hit (pages db) \<and> \<not> list_ex (\<lambda>s. s_id s = newSpace) (spaces db) then Inl SqlForeignKey
         else Inr ((), db\<lparr>pages := map (\<lambda>p. if hit p
                then p\<lparr>pg_space := newSpace, pg_path := newPrefix @ drop (length oldPrefix) (pg_path p)\<rparr> else p)
              (pages db)\<rparr>))"

definition q_SoftDeletePageInSpace :: "uuid \<Rightarrow> uuid \<Rightarrow> ('x work_db_scheme, sql_error, unit) stmt" where
  "q_SoftDeletePageInSpace i sp db =
     (if \<not> db_up db then Inl SqlDown
      else Inr ((), db\<lparr>pages := map (\<lambda>p. if page_live i p \<and> pg_space p = sp then p\<lparr>pg_deleted := True\<rparr> else p)
             (pages db)\<rparr>))"

definition q_SoftDeleteTicketInSpace :: "uuid \<Rightarrow> uuid \<Rightarrow> ('x work_db_scheme, sql_error, unit) stmt" where
  "q_SoftDeleteTicketInSpace i sp db =
     (if \<not> db_up db then Inl SqlDown
      else Inr ((), db\<lparr>tickets := map (\<lambda>t. if ticket_hit i sp t then t\<lparr>tk_deleted := True\<rparr> else t) (tickets db)\<rparr>))"

definition q_SoftDeleteProjectItemInSpace :: "uuid \<Rightarrow> uuid \<Rightarrow> ('x work_db_scheme, sql_error, unit) stmt" where
  "q_SoftDeleteProjectItemInSpace i sp db =
     (if \<not> db_up db then Inl SqlDown
      else Inr ((), db\<lparr>project_items :=
             map (\<lambda>t. if item_hit i sp t then t\<lparr>pi_deleted := True\<rparr> else t) (project_items db)\<rparr>))"

section \<open>Statements on revisions\<close>

definition q_CreatePageRevision :: "PageRevisionRow \<Rightarrow> ('x work_db_scheme, sql_error, PageRevisionRow) stmt" where
  "q_CreatePageRevision r db =
     (if \<not> db_up db then Inl SqlDown
      else if list_ex (\<lambda>x. pr_id x = pr_id r) (page_revisions db) then Inl (SqlUnique ''page_revisions_pkey'')
      else if list_ex (\<lambda>x. pr_page x = pr_page r \<and> pr_version x = pr_version r) (page_revisions db)
        then Inl (SqlUnique ''page_revisions_page_id_version_key'')
      else if \<not> (page_exists db (pr_page r) \<and> user_exists db (pr_author r)) then Inl SqlForeignKey
      else Inr (r, db\<lparr>page_revisions := page_revisions db @ [r]\<rparr>))"

definition q_GetPageRevision :: "'x work_db_scheme \<Rightarrow> uuid \<Rightarrow> 32 word \<Rightarrow> sql_error + PageRevisionRow" where
  "q_GetPageRevision db i v = sql_row db (List.find (\<lambda>r. pr_page r = i \<and> pr_version r = v) (page_revisions db))"

text \<open>\<open>ORDER BY version DESC\<close>; versions are signed.\<close>

definition q_ListPageRevisions :: "'x work_db_scheme \<Rightarrow> uuid \<Rightarrow> uuid \<Rightarrow> sql_error + (PageRevisionRow \<times> string option) list" where
  "q_ListPageRevisions db i sp =
     sql_rows db
       (if list_ex (\<lambda>p. pg_id p = i \<and> pg_space p = sp \<and> \<not> pg_deleted p) (pages db)
        then map (\<lambda>r. (r, map_option u_display_name (List.find (\<lambda>u. u_id u = pr_author r) (users db))))
               (sort_key (\<lambda>r. - sint (pr_version r)) (filter (\<lambda>r. pr_page r = i) (page_revisions db)))
        else [])"

definition pg_page_store :: "'x work_db_scheme PageStore" where
  "pg_page_store =
     \<lparr>ps_CreatePage = q_CreatePage, ps_GetPageByID = q_GetPageByID, ps_GetPageInSpace = q_GetPageInSpace,
      ps_ListPagesBySpace = q_ListPagesBySpace, ps_ListRootPagesBySpace = q_ListRootPagesBySpace,
      ps_ListChildPages = q_ListChildPages, ps_CreatePageRevision = q_CreatePageRevision,
      ps_GetPageRevision = q_GetPageRevision, ps_ListPageRevisions = q_ListPageRevisions\<rparr>"

section \<open>Revoking inside another mutation\<close>

definition wrap_wiki :: "string \<Rightarrow> ('s, sql_error, 'a) stmt \<Rightarrow> ('s, wiki_error, 'a) stmt" where
  "wrap_wiki what m db = (case m db of Inl _ \<Rightarrow> Inl (ErrWikiDatabase what) | Inr r \<Rightarrow> Inr r)"

definition share_meta :: "EntityShareRow \<Rightarrow> string \<Rightarrow> (string \<times> meta_value) list" where
  "share_meta share reason =
     [(''entity_type'', MText (sh_entity_type share)), (''entity_id'', MUuid (sh_entity share)),
      (''space_id'', MUuid (sh_space share)), (''audience'', MText (sh_audience share)),
      (''cascade'', MText (if sh_cascade share then ''true'' else ''false'')), (''reason'', MText reason)] @
     (case sh_audience_id share of None \<Rightarrow> [] | Some t \<Rightarrow> [(''audience_id'', MUuid t)])"

definition share_revoked_event :: "uuid \<Rightarrow> uuid \<Rightarrow> string \<Rightarrow> EntityShareRow \<Rightarrow> AuditRow" where
  "share_revoked_event newID actorID reason share =
     \<lparr>au_id = newID, au_org = sh_org share, au_actor = Some actorID, au_action = ''share.revoked'',
      au_entity_kind = ''share'', au_entity_id = sh_id share, au_payload = share_meta share reason,
      au_batch = None, au_ticket_ref = None\<rparr>"

definition writeShareRevokedTx ::
    "uuid \<Rightarrow> uuid \<Rightarrow> EntityShareRow \<Rightarrow> string \<Rightarrow> ('x work_db_scheme, wiki_error, unit) stmt" where
  "writeShareRevokedTx newID actorID share reason =
     sseq (wrap_wiki ''writing share.revoked audit event'' (q_CreateAuditEvent (share_revoked_event newID actorID reason share)))
       (sret ())"

fun write_revoked_events ::
    "(nat \<Rightarrow> uuid) \<Rightarrow> nat \<Rightarrow> uuid \<Rightarrow> string \<Rightarrow> EntityShareRow list \<Rightarrow> ('x work_db_scheme, wiki_error, unit) stmt" where
  "write_revoked_events fresh k actorID reason [] = sret ()"
| "write_revoked_events fresh k actorID reason (share # rest) =
     sseq (writeShareRevokedTx (fresh k) actorID share reason)
       (write_revoked_events fresh (Suc k) actorID reason rest)"

definition revokeSubtreeSharesTx ::
    "(nat \<Rightarrow> uuid) \<Rightarrow> instant \<Rightarrow> uuid \<Rightarrow> uuid \<Rightarrow> uuid \<Rightarrow> string \<Rightarrow> ('x work_db_scheme, wiki_error, nat) stmt" where
  "revokeSubtreeSharesTx fresh now actorID spaceID pageID pathPattern =
     sbind (wrap_wiki ''revoking subtree shares'' (q_RevokeSharesByPageSubtree now spaceID pageID pathPattern)) (\<lambda>revoked.
     sseq (write_revoked_events fresh 0 actorID ''entity_moved'' revoked) (sret (length revoked)))"

definition deleteEntityAndRevokeShares ::
    "(nat \<Rightarrow> uuid) \<Rightarrow> instant \<Rightarrow> string \<Rightarrow> uuid \<Rightarrow> uuid \<Rightarrow> ('x work_db_scheme, sql_error, unit) stmt \<Rightarrow>
     'x work_db_scheme \<Rightarrow> (wiki_error + nat) \<times> 'x work_db_scheme" where
  "deleteEntityAndRevokeShares fresh now entityType entityID actorID del =
     in_tx
       (sseq (wrap_wiki ''delete'' del)
       (sbind (wrap_wiki ''revoking shares'' (q_RevokeSharesByEntity now entityType entityID)) (\<lambda>revoked.
        sseq (write_revoked_events fresh 0 actorID ''entity_deleted'' revoked) (sret (length revoked)))))"

definition DeletePageAndRevokeShares ::
    "(nat \<Rightarrow> uuid) \<Rightarrow> instant \<Rightarrow> uuid \<Rightarrow> uuid \<Rightarrow> uuid \<Rightarrow> 'x work_db_scheme \<Rightarrow> (wiki_error + nat) \<times> 'x work_db_scheme" where
  "DeletePageAndRevokeShares fresh now pageID spaceID actorID =
     deleteEntityAndRevokeShares fresh now ShareEntityPage pageID actorID (q_SoftDeletePageInSpace pageID spaceID)"

definition DeleteTicketAndRevokeShares ::
    "(nat \<Rightarrow> uuid) \<Rightarrow> instant \<Rightarrow> uuid \<Rightarrow> uuid \<Rightarrow> uuid \<Rightarrow> 'x work_db_scheme \<Rightarrow> (wiki_error + nat) \<times> 'x work_db_scheme" where
  "DeleteTicketAndRevokeShares fresh now ticketID spaceID actorID =
     deleteEntityAndRevokeShares fresh now ShareEntityTicket ticketID actorID (q_SoftDeleteTicketInSpace ticketID spaceID)"

definition DeleteItemAndRevokeShares ::
    "(nat \<Rightarrow> uuid) \<Rightarrow> instant \<Rightarrow> uuid \<Rightarrow> uuid \<Rightarrow> uuid \<Rightarrow> 'x work_db_scheme \<Rightarrow> (wiki_error + nat) \<times> 'x work_db_scheme" where
  "DeleteItemAndRevokeShares fresh now itemID spaceID actorID =
     deleteEntityAndRevokeShares fresh now ShareEntityProjectItem itemID actorID (q_SoftDeleteProjectItemInSpace itemID spaceID)"

section \<open>Moving\<close>

definition validateMoveSpaces :: "MovePageInput \<Rightarrow> uuid \<Rightarrow> 'x work_db_scheme \<Rightarrow> wiki_error + unit" where
  "validateMoveSpaces inp sourceSpaceID db =
     (case sql_row db (q_GetSpaceByID db sourceSpaceID) of
        Inl _ \<Rightarrow> Inl ErrPageNotFound
      | Inr sourceSpace \<Rightarrow>
          if s_org sourceSpace \<noteq> mpi_OrgID inp then Inl ErrPageNotFound
          else (case sql_row db (q_GetSpaceByID db (mpi_TargetSpaceID inp)) of
                  Inl e \<Rightarrow> if e = SqlNoRows then Inl ErrTargetSpaceNotFound
                           else Inl (ErrWikiDatabase ''loading target space'')
                | Inr targetSpace \<Rightarrow>
                    if s_org targetSpace \<noteq> mpi_OrgID inp \<or> s_deleted targetSpace then Inl ErrTargetSpaceNotFound
                    else Inr ()))"

definition resolveMoveParent ::
    "(uuid \<Rightarrow> string) \<Rightarrow> MovePageInput \<Rightarrow> PageRow \<Rightarrow> 'x work_db_scheme \<Rightarrow> wiki_error + uuid option \<times> string" where
  "resolveMoveParent us inp page db =
     (case mpi_ParentID inp of
        None \<Rightarrow> Inr (None, us (mpi_PageID inp))
      | Some par \<Rightarrow>
          (case q_GetPageByID db par of
             Inl e \<Rightarrow> if e = SqlNoRows then Inl ErrParentPageNotFound else Inl (ErrWikiDatabase ''loading parent'')
           | Inr parent \<Rightarrow>
               if pg_space parent \<noteq> mpi_TargetSpaceID inp then Inl ErrParentNotInTargetSpace
               else if pg_space parent = pg_space page \<and> PathWithinSubtree (pg_path parent) (pg_path page)
                 then Inl ErrPageMoveCycle
               else Inr (Some par, pg_path parent @ ''.'' @ us (mpi_PageID inp))))"

definition applyPageMove ::
    "MovePageInput \<Rightarrow> PageRow \<Rightarrow> uuid option \<Rightarrow> string \<Rightarrow> string \<Rightarrow> ('x work_db_scheme, wiki_error, unit) stmt" where
  "applyPageMove inp page parentID newPath pathPattern =
     sseq (wrap_wiki ''updating root''
             (q_MovePageToSpace (pg_id page) (mpi_TargetSpaceID inp) parentID (mpi_Position inp) newPath))
          (wrap_wiki ''updating descendants''
             (q_MovePageDescendantsToSpace (mpi_TargetSpaceID inp) newPath (pg_path page) (pg_space page) pathPattern))"

definition lock_page :: "'x work_db_scheme \<Rightarrow> uuid \<Rightarrow> wiki_error + PageRow" where
  \<comment> \<open>\<open>GetPageForUpdate\<close> with its errors mapped\<close>
  "lock_page db i =
     (case q_GetPageForUpdate db i of
        Inl e \<Rightarrow> if e = SqlNoRows then Inl ErrPageNotFound else Inl (ErrWikiDatabase ''locking page'')
      | Inr p \<Rightarrow> Inr p)"

definition MovePageTx ::
    "(uuid \<Rightarrow> string) \<Rightarrow> (nat \<Rightarrow> uuid) \<Rightarrow> instant \<Rightarrow> MovePageInput \<Rightarrow> 'x work_db_scheme \<Rightarrow>
     (wiki_error + MovePageTxResult) \<times> 'x work_db_scheme" where
  "MovePageTx us fresh now inp =
     in_tx
       (sbind (sread (\<lambda>db. lock_page db (mpi_PageID inp))) (\<lambda>page.
        sbind (sread (validateMoveSpaces inp (pg_space page))) (\<lambda>_.
        sbind (sread (resolveMoveParent us inp page)) (\<lambda>(parentID, newPath).
          let cross = (pg_space page \<noteq> mpi_TargetSpaceID inp);
              pathPattern = SubtreeLikePattern (pg_path page)
          in sbind (if cross then revokeSubtreeSharesTx fresh now (mpi_ActorID inp) (pg_space page) (pg_id page) pathPattern
                    else sret 0) (\<lambda>revoked.
             sseq (applyPageMove inp page parentID newPath pathPattern)
               (sret \<lparr>mpr_CrossSpace = cross, mpr_RevokedShares = revoked\<rparr>))))))"

section \<open>Saving\<close>

definition UpdatePageContentTx ::
    "uuid \<Rightarrow> UpdatePageInput \<Rightarrow> 'x work_db_scheme \<Rightarrow> (wiki_error + PageRow) \<times> 'x work_db_scheme" where
  "UpdatePageContentTx revID inp =
     in_tx
       (sbind (sread (\<lambda>db. lock_page db (upi_PageID inp))) (\<lambda>current.
        sseq (scheck (pg_doc current = None) ErrPageIsDocumentBacked)
        (sseq (scheck (pg_version current = upi_ExpectedVersion inp) ErrVersionConflict)
        (sbind (\<lambda>db. case q_UpdatePageContent (upi_PageID inp) (upi_ExpectedVersion inp) (upi_Title inp)
                         (upi_Content inp) db of
                  Inl e \<Rightarrow> if e = SqlNoRows then Inl ErrVersionConflict else Inl (ErrWikiDatabase ''update page content'')
                | Inr r \<Rightarrow> Inr r) (\<lambda>page.
         sseq (wrap_wiki ''recording revision'' (q_CreatePageRevision
                 \<lparr>pr_id = revID, pr_page = pg_id page, pr_version = pg_version page, pr_title = pg_title page,
                  pr_content = pg_content page, pr_doc = None, pr_author = upi_AuthorID inp\<rparr>))
           (sret page))))))"

definition pg_content_tx :: "(uuid \<Rightarrow> string) \<Rightarrow> 'x work_db_scheme ContentTxStore" where
  "pg_content_tx us =
     \<lparr>ct_MovePageTx = MovePageTx us, ct_DeletePageAndRevokeShares = DeletePageAndRevokeShares,
      ct_UpdatePageContentTx = UpdatePageContentTx\<rparr>"

lemma pg_page_store_simps [simp]:
  "ps_CreatePage pg_page_store = q_CreatePage" "ps_GetPageByID pg_page_store = q_GetPageByID"
  "ps_GetPageInSpace pg_page_store = q_GetPageInSpace" "ps_ListPagesBySpace pg_page_store = q_ListPagesBySpace"
  "ps_CreatePageRevision pg_page_store = q_CreatePageRevision" "ps_GetPageRevision pg_page_store = q_GetPageRevision"
  "ps_ListPageRevisions pg_page_store = q_ListPageRevisions"
  by (simp_all add: pg_page_store_def)

lemma pg_content_tx_simps [simp]:
  "ct_MovePageTx (pg_content_tx us) = MovePageTx us"
  "ct_DeletePageAndRevokeShares (pg_content_tx us) = DeletePageAndRevokeShares"
  "ct_UpdatePageContentTx (pg_content_tx us) = UpdatePageContentTx"
  by (simp_all add: pg_content_tx_def)

end
