(* ===== verification/PageTree.thy ===== *)
theory PageTree
  imports PageStorePg
begin

text \<open>
  The page tree as the database holds it: what the materialised paths mean, that every operation
  keeps it, and what a move does to the subtree it moves. The whole argument rests on paths being
  cut at the dots, so on \<open>uuid_text\<close>: the text of a uuid is not empty and holds no dot.
\<close>

section \<open>Paths and their last segment\<close>

definition dotted :: "string \<Rightarrow> bool" where
  "dotted s \<longleftrightarrow> CHR ''.'' \<in> set s"

lemma append_dot_eq:
  assumes "a @ ''.'' @ u = b @ ''.'' @ v" and "\<not> dotted u" and "\<not> dotted v"
  shows "a = b \<and> u = v"
proof -
  let ?P = "\<lambda>c. c \<noteq> CHR ''.''"
  have last: "takeWhile ?P (rev (x @ ''.'' @ w)) = rev w \<and> dropWhile ?P (rev (x @ ''.'' @ w)) = CHR ''.'' # rev x"
    if "\<not> dotted w" for x w
    using that by (auto simp: takeWhile_append dropWhile_append dotted_def)
  have "rev u = rev v" using last [OF assms(2), of a] last [OF assms(3), of b] assms(1) by metis
  moreover have "CHR ''.'' # rev a = CHR ''.'' # rev b"
    using last [OF assms(2), of a] last [OF assms(3), of b] assms(1) by metis
  ultimately show ?thesis by simp
qed

lemma dotted_append [simp]: "dotted (a @ b) \<longleftrightarrow> dotted a \<or> dotted b"
  by (auto simp: dotted_def)

lemma dotted_dot [simp]: "dotted (CHR ''.'' # a)"
  by (simp add: dotted_def)

text \<open>A path strictly inside a subtree whose last segment is cut off stays inside, or is its root.\<close>

lemma prefix_cut:
  assumes "HasPrefix (a @ ''.'' @ u) (m @ ''.'')" and "\<not> dotted u"
  shows "a = m \<or> HasPrefix a (m @ ''.'')"
proof -
  from assms(1) obtain t where t: "a @ ''.'' @ u = m @ ''.'' @ t" by (auto simp: HasPrefix_iff)
  show ?thesis
  proof (cases "dotted t")
    case False
    then show ?thesis using append_dot_eq [OF t assms(2)] by blast
  next
    case True
    then obtain x y where xy: "t = x @ CHR ''.'' # y" and y: "CHR ''.'' \<notin> set y"
      unfolding dotted_def using split_list_last [of "CHR ''.''" t] by blast
    have "a @ ''.'' @ u = (m @ ''.'' @ x) @ ''.'' @ y" using t xy by simp
    from append_dot_eq [OF this assms(2)] y have "a = m @ ''.'' @ x" by (simp add: dotted_def)
    then show ?thesis by (auto simp: HasPrefix_iff)
  qed
qed

section \<open>The tree invariant\<close>

definition live_pages :: "'x work_db_scheme \<Rightarrow> PageRow list" where
  "live_pages db = filter (\<lambda>p. \<not> pg_deleted p) (pages db)"

definition path_ends :: "(uuid \<Rightarrow> string) \<Rightarrow> PageRow \<Rightarrow> bool" where
  "path_ends us p \<longleftrightarrow>
     (case pg_parent p of None \<Rightarrow> pg_path p = us (pg_id p)
      | Some _ \<Rightarrow> (\<exists>pre. pg_path p = pre @ ''.'' @ us (pg_id p)))"

definition under :: "(uuid \<Rightarrow> string) \<Rightarrow> PageRow \<Rightarrow> PageRow \<Rightarrow> bool" where
  "under us p r \<longleftrightarrow> pg_space p = pg_space r \<and> pg_path p = pg_path r @ ''.'' @ us (pg_id p)"

text \<open>Ids are unique and parents exist; a live root's path is its own segment; a live page under a
  live parent is in the parent's space and its path is the parent's, one segment longer. (A page
  whose parent was deleted keeps the path it had.)\<close>

definition page_tree :: "(uuid \<Rightarrow> string) \<Rightarrow> 'x work_db_scheme \<Rightarrow> bool" where
  "page_tree us db \<longleftrightarrow>
     distinct (map pg_id (pages db)) \<and>
     (\<forall>p \<in> set (pages db). \<forall>q. pg_parent p = Some q \<longrightarrow> q \<in> pg_id ` set (pages db)) \<and>
     (\<forall>p \<in> set (live_pages db). path_ends us p) \<and>
     (\<forall>p \<in> set (live_pages db). \<forall>r \<in> set (live_pages db). pg_parent p = Some (pg_id r) \<longrightarrow> under us p r)"

definition live_parent :: "'x work_db_scheme \<Rightarrow> (uuid \<times> uuid) set" where
  "live_parent db = {(pg_id r, pg_id p) |p r. p \<in> set (live_pages db) \<and> r \<in> set (live_pages db) \<and>
     pg_parent p = Some (pg_id r)}"

lemma page_tree_same:
  assumes "pages db' = pages db" shows "page_tree us db' = page_tree us db"
  using assms by (simp add: page_tree_def live_pages_def)

lemma live_pages_iff: "p \<in> set (live_pages db) \<longleftrightarrow> p \<in> set (pages db) \<and> \<not> pg_deleted p"
  by (auto simp: live_pages_def)


lemma same_path_same_id:
  assumes "uuid_text us" and "path_ends us p" and "path_ends us r" and "pg_path p = pg_path r"
  shows "pg_id p = pg_id r"
proof -
  have nd: "\<not> dotted (us i)" for i using assms(1) by (simp add: uuid_text_def dotted_def)
  have inj: "us i = us j \<Longrightarrow> i = j" for i j using assms(1) by (simp add: uuid_text_def inj_eq)
  have tail: "pg_path x = us (pg_id x) \<or> (\<exists>pre. pg_path x = pre @ ''.'' @ us (pg_id x))" if "path_ends us x" for x
    using that by (auto simp: path_ends_def split: option.splits)
  have "us (pg_id p) = us (pg_id r)"
    using tail [OF assms(2)] tail [OF assms(3)]
  proof (elim disjE exE)
    fix pre pre' assume "pg_path p = pre @ ''.'' @ us (pg_id p)" and "pg_path r = pre' @ ''.'' @ us (pg_id r)"
    with assms(4) have "pre @ ''.'' @ us (pg_id p) = pre' @ ''.'' @ us (pg_id r)" by (simp only:)
    from append_dot_eq [OF this nd nd] show ?thesis ..
  next
    fix pre assume "pg_path p = us (pg_id p)" and "pg_path r = pre @ ''.'' @ us (pg_id r)"
    with assms(4) have "us (pg_id p) = pre @ ''.'' @ us (pg_id r)" by (simp only:)
    then have "dotted (us (pg_id p))" by (simp del: append.simps add: dotted_def)
    with nd show ?thesis by blast
  next
    fix pre assume "pg_path p = pre @ ''.'' @ us (pg_id p)" and "pg_path r = us (pg_id r)"
    with assms(4) have "us (pg_id r) = pre @ ''.'' @ us (pg_id p)" by (simp only:)
    then have "dotted (us (pg_id r))" by (simp del: append.simps add: dotted_def)
    with nd show ?thesis by blast
  next
    assume "pg_path p = us (pg_id p)" and "pg_path r = us (pg_id r)"
    with assms(4) show ?thesis by (simp only:)
  qed
  then show ?thesis by (rule inj)
qed

text \<open>Following live parents shortens the path, so it ends.\<close>

lemma page_tree_acyclic:
  assumes "page_tree us db"
  shows "acyclic (live_parent db)"
proof -
  let ?len = "\<lambda>i. length (pg_path (the (List.find (\<lambda>p. pg_id p = i) (pages db))))"
  have find: "List.find (\<lambda>x. pg_id x = pg_id p) (pages db) = Some p" if "p \<in> set (pages db)" for p
    by (rule find_the_unique) (use that assms in \<open>auto simp: page_tree_def dest: distinct_key\<close>)
  have "live_parent db \<subseteq> measure ?len"
  proof
    fix e assume "e \<in> live_parent db"
    then obtain p r where e: "e = (pg_id r, pg_id p)" and pr: "p \<in> set (live_pages db)" "r \<in> set (live_pages db)"
      "pg_parent p = Some (pg_id r)"
      by (auto simp: live_parent_def)
    then have "under us p r" using assms by (simp add: page_tree_def)
    then show "e \<in> measure ?len"
      using pr find [of p] find [of r] by (auto simp: e under_def live_pages_iff)
  qed
  then show ?thesis using wf_measure wf_subset wf_acyclic by blast
qed

section \<open>Creating and deleting\<close>

lemma pages_wf_of_tree: "page_tree us db \<Longrightarrow> distinct (map pg_id (pages db))"
  by (simp add: page_tree_def)

lemma q_GetPageInSpace_Inr:
  "q_GetPageInSpace db i sp = Inr p \<Longrightarrow> p \<in> set (live_pages db) \<and> pg_id p = i \<and> pg_space p = sp"
  by (auto simp: q_GetPageInSpace_def sql_row_def live_pages_iff split: if_splits option.splits dest: find_Some_in)

lemma q_CreatePage_Inr:
  assumes "q_CreatePage a db = Inr (p, db')"
  shows "p = \<lparr>pg_id = cpp_ID a, pg_space = cpp_SpaceID a, pg_parent = cpp_ParentID a, pg_title = cpp_Title a,
      pg_content = cpp_Content a, pg_version = 1, pg_author = cpp_AuthorID a, pg_position = cpp_Position a,
      pg_path = cpp_Path a, pg_doc = None, pg_deleted = False\<rparr>"
    and "db' = db\<lparr>pages := pages db @ [p]\<rparr>" and "cpp_ID a \<notin> pg_id ` set (pages db)"
    and "\<And>q. cpp_ParentID a = Some q \<Longrightarrow> q \<in> pg_id ` set (pages db)"
  using assms
  by (auto simp: q_CreatePage_def Let_def page_exists_def list_ex_iff opt_exists_def split: if_splits)

lemma insert_keeps_tree:
  assumes t: "page_tree us db"
    and p: "\<not> pg_deleted p" "pg_id p \<notin> pg_id ` set (pages db)" "path_ends us p"
    and par: "\<And>q. pg_parent p = Some q \<Longrightarrow> \<exists>r \<in> set (live_pages db). pg_id r = q \<and> under us p r"
  shows "page_tree us (db\<lparr>pages := pages db @ [p]\<rparr>)"
proof -
  have lp: "live_pages (db\<lparr>pages := pages db @ [p]\<rparr>) = live_pages db @ [p]"
    using p(1) by (simp add: live_pages_def)
  have no_child: "pg_parent x \<noteq> Some (pg_id p)" if "x \<in> set (pages db)" for x
    using t that p(2) by (auto simp: page_tree_def)
  have ex: "\<exists>r \<in> set (live_pages db). pg_id r = q" if "pg_parent p = Some q" for q using par [OF that] by blast
  have self: "pg_parent p \<noteq> Some (pg_id p)"
    using ex [of "pg_id p"] p(2) by (metis imageI live_pages_iff)
  have pr: "under us p r" if r: "r \<in> set (live_pages db)" and q: "pg_parent p = Some (pg_id r)" for r
  proof -
    obtain r' where r': "r' \<in> set (live_pages db)" "pg_id r' = pg_id r" "under us p r'"
      using par [OF q] by blast
    moreover have "r' = r"
      using pages_wf_of_tree [OF t] r r' by (auto simp: live_pages_iff dest: distinct_key)
    ultimately show ?thesis by simp
  qed
  have fk: "q \<in> pg_id ` set (pages db)" if "pg_parent p = Some q" for q
    using ex [OF that] by (auto simp: live_pages_iff)
  show ?thesis
    unfolding page_tree_def lp
    using t p self no_child pr fk by (auto simp: page_tree_def live_pages_iff)
qed

lemma CreatePage_keeps_tree:
  assumes t: "page_tree us db"
  shows "page_tree us (snd (CreatePage pg_page_store us i revID inp db))"
proof -
  have same: "pages db2 = pages db1" if "q_CreatePageRevision x db1 = Inr (y, db2)" for x y and db1 db2 :: "'a work_db_scheme"
    using that by (auto simp: q_CreatePageRevision_def split: if_splits)
  show ?thesis
  proof (cases "parent_path pg_page_store us db inp i")
    case (Inl e)
    then show ?thesis using t by (simp add: CreatePage_def split: sum.split)
  next
    case (Inr path)
    let ?a = "\<lparr>cpp_ID = i, cpp_SpaceID = cpi_SpaceID inp, cpp_ParentID = cpi_ParentID inp,
                cpp_Title = cpi_Title inp, cpp_Content = cpi_Content inp, cpp_AuthorID = cpi_AuthorID inp,
                cpp_Position = cpi_Position inp, cpp_Path = path\<rparr>"
    have ins: "page_tree us db1" if c: "q_CreatePage ?a db = Inr (p, db1)" for p db1
    proof -
      note cp = q_CreatePage_Inr [OF c]
      have pf: "pg_id p = i" "\<not> pg_deleted p" "pg_path p = path" "pg_parent p = cpi_ParentID inp" "pg_space p = cpi_SpaceID inp"
        by (simp_all add: cp(1))
      have up: "\<exists>r \<in> set (live_pages db). pg_id r = q \<and> under us p r" if "pg_parent p = Some q" for q
        using Inr that
        by (auto simp: parent_path_def under_def pf split: sum.splits if_splits dest!: q_GetPageInSpace_Inr)
      have "path_ends us p"
      proof (cases "pg_parent p")
        case None
        then show ?thesis using Inr by (simp add: path_ends_def parent_path_def pf)
      next
        case (Some q)
        from up [OF this] Some show ?thesis by (auto simp: path_ends_def under_def)
      qed
      then show ?thesis
        unfolding cp(2) using cp(3) up by (intro insert_keeps_tree [OF t]) (auto simp: pf)
    qed
    show ?thesis
      using t ins same [THEN page_tree_same, of _ _ _ _ us] by (auto simp: CreatePage_def Inr split: sum.split)
  qed
qed

text \<open>Marking pages deleted only forgets obligations; rewriting text and versions touches none.\<close>

lemma map_keeps_tree:
  assumes t: "page_tree us db"
    and f: "\<And>p. pg_id (f p) = pg_id p \<and> pg_parent (f p) = pg_parent p \<and> pg_path (f p) = pg_path p \<and>
      pg_space (f p) = pg_space p \<and> (pg_deleted p \<longrightarrow> pg_deleted (f p))"
    and db': "pages db' = map f (pages db)"
  shows "page_tree us db'"
proof -
  have ids: "map pg_id (pages db') = map pg_id (pages db)" using f by (simp add: db')
  have lp: "\<exists>p. p \<in> set (live_pages db) \<and> x = f p" if "x \<in> set (live_pages db')" for x
    using that f by (auto simp: live_pages_iff db')
  have pe: "path_ends us (f p) = path_ends us p" for p
    using f [of p] by (cases "pg_parent p") (simp_all add: path_ends_def)
  have un: "under us (f p) (f r) = under us p r" for p r using f [of p] f [of r] by (simp add: under_def)
  have fk: "\<forall>p \<in> set (pages db'). \<forall>q. pg_parent p = Some q \<longrightarrow> q \<in> pg_id ` set (pages db')"
  proof -
    have "pg_id ` set (pages db') = pg_id ` set (pages db)" using ids by (metis list.set_map)
    then show ?thesis using t f by (auto simp: page_tree_def db')
  qed
  have "path_ends us x" if "x \<in> set (live_pages db')" for x
    using lp [OF that] t pe by (auto simp: page_tree_def)
  moreover have "under us x y" if "x \<in> set (live_pages db')" "y \<in> set (live_pages db')" "pg_parent x = Some (pg_id y)" for x y
    using lp [OF that(1)] lp [OF that(2)] that(3) t f un by (auto simp: page_tree_def)
  ultimately show ?thesis unfolding page_tree_def ids using t fk by (simp add: page_tree_def)
qed

section \<open>Moving a subtree\<close>

lemma wrap_wiki_Inr: "wrap_wiki w m db = Inr r \<longleftrightarrow> m db = Inr r"
  by (auto simp: wrap_wiki_def split: sum.splits)

definition revoked_events :: "(nat \<Rightarrow> uuid) \<Rightarrow> nat \<Rightarrow> uuid \<Rightarrow> string \<Rightarrow> EntityShareRow list \<Rightarrow> AuditRow list" where
  "revoked_events fresh k actor reason ss =
     map (\<lambda>(j, s). share_revoked_event (fresh j) actor reason s) (List.enumerate k ss)"

lemma write_revoked_events_Inr:
  "write_revoked_events fresh k actor reason ss db = Inr (u, db') \<Longrightarrow>
     db' = db\<lparr>audit_log := audit_log db @ revoked_events fresh k actor reason ss\<rparr>"
proof (induction ss arbitrary: k db)
  case Nil
  then show ?case by (simp add: revoked_events_def)
next
  case (Cons s ss)
  then obtain d where 1: "writeShareRevokedTx (fresh k) actor s reason db = Inr ((), d)"
    and 2: "write_revoked_events fresh (Suc k) actor reason ss d = Inr (u, db')"
    by (auto simp: stmt_run)
  from 1 have "d = db\<lparr>audit_log := audit_log db @ [share_revoked_event (fresh k) actor reason s]\<rparr>"
    by (auto simp: writeShareRevokedTx_def stmt_run wrap_wiki_Inr dest: q_CreateAuditEvent_Inr)
  with Cons.IH [OF 2] show ?case by (simp add: revoked_events_def)
qed

text \<open>The rows a subtree revocation hits.\<close>

definition subtree_share :: "'x work_db_scheme \<Rightarrow> uuid \<Rightarrow> uuid \<Rightarrow> string \<Rightarrow> EntityShareRow \<Rightarrow> bool" where
  "subtree_share db space page path s \<longleftrightarrow>
     sh_entity_type s = ''page'' \<and> in_subtree db space page (SubtreeLikePattern path) (sh_entity s)"

definition unrevoked :: "(EntityShareRow \<Rightarrow> bool) \<Rightarrow> EntityShareRow list \<Rightarrow> EntityShareRow list" where
  "unrevoked P ss = filter (\<lambda>s. sh_revoked s = None \<and> P s) ss"

lemma revoke_where_Inr:
  "revoke_where now P db = Inr (r, db') \<Longrightarrow>
     r = map (revoke_at now) (unrevoked P (entity_shares db)) \<and>
     db' = db\<lparr>entity_shares := revoke_rows now P (entity_shares db)\<rparr>"
  by (auto simp: revoke_where_def unrevoked_def revoke_rows_def Let_def split: if_splits)

lemma revokeSubtreeSharesTx_Inr:
  assumes "revokeSubtreeSharesTx fresh now actor sp i (SubtreeLikePattern path) db = Inr (n, db')"
  shows "n = length (unrevoked (subtree_share db sp i path) (entity_shares db)) \<and>
    db' = db\<lparr>entity_shares := revoke_rows now (subtree_share db sp i path) (entity_shares db),
             audit_log := audit_log db @ revoked_events fresh 0 actor ''entity_moved''
               (map (revoke_at now) (unrevoked (subtree_share db sp i path) (entity_shares db)))\<rparr>"
proof -
  have P: "(\<lambda>s. sh_entity_type s = ''page'' \<and> in_subtree db sp i (SubtreeLikePattern path) (sh_entity s)) =
      subtree_share db sp i path"
    by (simp add: fun_eq_iff subtree_share_def)
  from assms obtain ss d where 1: "revoke_where now (subtree_share db sp i path) db = Inr (ss, d)"
    and 2: "write_revoked_events fresh 0 actor ''entity_moved'' ss d = Inr ((), db')" and n: "n = length ss"
    by (auto simp: revokeSubtreeSharesTx_def stmt_run wrap_wiki_Inr q_RevokeSharesByPageSubtree_def P)
  show ?thesis using revoke_where_Inr [OF 1] write_revoked_events_Inr [OF 2] by (auto simp: n)
qed

text \<open>What the two updates of a move do to one row.\<close>

definition moved_row :: "MovePageInput \<Rightarrow> PageRow \<Rightarrow> uuid option \<Rightarrow> string \<Rightarrow> PageRow \<Rightarrow> PageRow" where
  "moved_row inp page par newPath x =
     (if page_live (pg_id page) x
      then x\<lparr>pg_space := mpi_TargetSpaceID inp, pg_parent := par, pg_position := mpi_Position inp, pg_path := newPath\<rparr>
      else if pg_space x = pg_space page \<and> HasPrefix (pg_path x) (pg_path page @ ''.'') \<and> \<not> pg_deleted x
      then x\<lparr>pg_space := mpi_TargetSpaceID inp, pg_path := newPath @ drop (length (pg_path page)) (pg_path x)\<rparr>
      else x)"

lemma applyPageMove_Inr:
  assumes a: "applyPageMove inp page par newPath (SubtreeLikePattern (pg_path page)) db = Inr (u, db')"
    and root: "mpi_TargetSpaceID inp = pg_space page \<Longrightarrow> \<not> HasPrefix newPath (pg_path page @ ''.'')"
  shows "db' = db\<lparr>pages := map (moved_row inp page par newPath) (pages db)\<rparr>"
    and "list_ex (page_live (pg_id page)) (pages db) \<Longrightarrow> par = Some q \<Longrightarrow> page_exists db q"
proof -
  let ?f = "\<lambda>p. if page_live (pg_id page) p
       then p\<lparr>pg_space := mpi_TargetSpaceID inp, pg_parent := par, pg_position := mpi_Position inp, pg_path := newPath\<rparr> else p"
  let ?hit = "\<lambda>p. pg_space p = pg_space page \<and> like_match (SubtreeLikePattern (pg_path page)) (pg_path p) \<and> \<not> pg_deleted p"
  let ?g = "\<lambda>p. if ?hit p then p\<lparr>pg_space := mpi_TargetSpaceID inp,
       pg_path := newPath @ drop (length (pg_path page)) (pg_path p)\<rparr> else p"
  from a obtain d where 1: "q_MovePageToSpace (pg_id page) (mpi_TargetSpaceID inp) par (mpi_Position inp) newPath db = Inr ((), d)"
    and 2: "q_MovePageDescendantsToSpace (mpi_TargetSpaceID inp) newPath (pg_path page) (pg_space page)
      (SubtreeLikePattern (pg_path page)) d = Inr (u, db')"
    by (auto simp: applyPageMove_def stmt_run wrap_wiki_Inr)
  from 1 have d: "d = db\<lparr>pages := map ?f (pages db)\<rparr>"
    and fk: "list_ex (page_live (pg_id page)) (pages db) \<Longrightarrow> opt_exists (page_exists db) par"
    by (auto simp: q_MovePageToSpace_def split: if_splits)
  from 2 have db': "db' = d\<lparr>pages := map ?g (pages d)\<rparr>"
    by (auto simp: q_MovePageDescendantsToSpace_def Let_def split: if_splits)
  have "?g (?f x) = moved_row inp page par newPath x" for x
  proof (cases "page_live (pg_id page) x")
    case True
    then show ?thesis using root
      by (cases "mpi_TargetSpaceID inp = pg_space page") (simp_all add: moved_row_def subtree_pattern_iff)
  next
    case False
    then show ?thesis by (simp add: moved_row_def subtree_pattern_iff)
  qed
  then show "db' = db\<lparr>pages := map (moved_row inp page par newPath) (pages db)\<rparr>"
    unfolding db' d by simp
  show "page_exists db q" if "list_ex (page_live (pg_id page)) (pages db)" and "par = Some q"
    using fk that by (simp add: opt_exists_def)
qed

lemma lock_page_Inr: "lock_page db i = Inr p \<Longrightarrow> p \<in> set (live_pages db) \<and> pg_id p = i"
  by (auto simp: lock_page_def q_GetPageForUpdate_def sql_row_def page_live_def live_pages_iff
      split: sum.splits if_splits option.splits dest: find_Some_in)

text \<open>The parent a move resolved: none, or a live page of the target space outside the moved subtree.\<close>

lemma resolveMoveParent_Inr:
  assumes "resolveMoveParent us inp page db = Inr (par, newPath)"
  shows "par = None \<and> newPath = us (mpi_PageID inp) \<or>
    (\<exists>r \<in> set (live_pages db). par = Some (pg_id r) \<and> newPath = pg_path r @ ''.'' @ us (mpi_PageID inp) \<and>
       pg_space r = mpi_TargetSpaceID inp \<and>
       (pg_space r = pg_space page \<longrightarrow> \<not> PathWithinSubtree (pg_path r) (pg_path page)))"
  using assms
  by (auto simp: resolveMoveParent_def q_GetPageByID_def sql_row_def page_live_def live_pages_iff
      split: option.splits sum.splits if_splits dest!: find_Some_in)

lemma new_path_outside:
  assumes us: "uuid_text us" and r: "resolveMoveParent us inp page db = Inr (par, newPath)"
    and "mpi_TargetSpaceID inp = pg_space page"
  shows "\<not> HasPrefix newPath (pg_path page @ ''.'')"
proof
  assume h: "HasPrefix newPath (pg_path page @ ''.'')"
  have nd: "\<not> dotted (us i)" for i using us by (simp add: uuid_text_def dotted_def)
  from resolveMoveParent_Inr [OF r] show False
  proof
    assume "par = None \<and> newPath = us (mpi_PageID inp)"
    with h have "dotted (us (mpi_PageID inp))" by (auto simp: HasPrefix_iff dotted_def)
    with nd show False by blast
  next
    assume "\<exists>r \<in> set (live_pages db). par = Some (pg_id r) \<and> newPath = pg_path r @ ''.'' @ us (mpi_PageID inp) \<and>
       pg_space r = mpi_TargetSpaceID inp \<and>
       (pg_space r = pg_space page \<longrightarrow> \<not> PathWithinSubtree (pg_path r) (pg_path page))"
    then obtain x :: PageRow where x: "newPath = pg_path x @ ''.'' @ us (mpi_PageID inp)" "pg_space x = mpi_TargetSpaceID inp"
      "pg_space x = pg_space page \<longrightarrow> \<not> PathWithinSubtree (pg_path x) (pg_path page)"
      by (elim bexE conjE) assumption
    have "\<not> PathWithinSubtree (pg_path x) (pg_path page)" using x(2,3) assms(3) by simp
    moreover have "pg_path x = pg_path page \<or> HasPrefix (pg_path x) (pg_path page @ ''.'')"
      using h unfolding x(1) by (rule prefix_cut) (rule nd)
    ultimately show False by (simp add: within_iff)
  qed
qed

text \<open>A successful move, in one equation.\<close>

lemma MovePageTx_Inr:
  assumes us: "uuid_text us" and m: "MovePageTx us fresh now inp db = (Inr res, db')"
  obtains page par newPath where "page \<in> set (live_pages db)" and "pg_id page = mpi_PageID inp"
    and "resolveMoveParent us inp page db = Inr (par, newPath)" and "\<forall>q. par = Some q \<longrightarrow> page_exists db q"
    and "mpr_CrossSpace res = (pg_space page \<noteq> mpi_TargetSpaceID inp)"
    and "mpr_RevokedShares res = (if mpr_CrossSpace res
           then length (unrevoked (subtree_share db (pg_space page) (pg_id page) (pg_path page)) (entity_shares db)) else 0)"
    and "pages db' = map (moved_row inp page par newPath) (pages db)" and "page_revisions db' = page_revisions db"
    and "db' = db\<lparr>pages := map (moved_row inp page par newPath) (pages db),
       entity_shares := (if mpr_CrossSpace res
         then revoke_rows now (subtree_share db (pg_space page) (pg_id page) (pg_path page)) (entity_shares db)
         else entity_shares db),
       audit_log := audit_log db @ (if mpr_CrossSpace res
         then revoked_events fresh 0 (mpi_ActorID inp) ''entity_moved''
           (map (revoke_at now) (unrevoked (subtree_share db (pg_space page) (pg_id page) (pg_path page)) (entity_shares db)))
         else [])\<rparr>"
proof -
  from m obtain page par newPath d n where p: "lock_page db (mpi_PageID inp) = Inr page"
    and r: "resolveMoveParent us inp page db = Inr (par, newPath)"
    and n: "(if pg_space page \<noteq> mpi_TargetSpaceID inp
        then revokeSubtreeSharesTx fresh now (mpi_ActorID inp) (pg_space page) (pg_id page) (SubtreeLikePattern (pg_path page))
        else sret 0) db = Inr (n, d)"
    and a: "applyPageMove inp page par newPath (SubtreeLikePattern (pg_path page)) d = Inr ((), db')"
    and res: "res = \<lparr>mpr_CrossSpace = (pg_space page \<noteq> mpi_TargetSpaceID inp), mpr_RevokedShares = n\<rparr>"
    by (auto simp: MovePageTx_def in_tx_Inr stmt_run Let_def split: prod.splits)
  note out = new_path_outside [OF us r]
  have db': "db' = d\<lparr>pages := map (moved_row inp page par newPath) (pages d)\<rparr>"
    by (rule applyPageMove_Inr(1) [OF a]) (rule out)
  note live = lock_page_Inr [OF p]
  let ?sub = "subtree_share db (pg_space page) (pg_id page) (pg_path page)"
  let ?x = "pg_space page \<noteq> mpi_TargetSpaceID inp"
  have ex: "page_exists db q" if "par = Some q" for q
    using resolveMoveParent_Inr [OF r] that by (auto simp: page_exists_def list_ex_iff live_pages_iff)
  have "n = (if ?x then length (unrevoked ?sub (entity_shares db)) else 0) \<and>
    d = db\<lparr>entity_shares := (if ?x then revoke_rows now ?sub (entity_shares db) else entity_shares db),
           audit_log := audit_log db @ (if ?x then revoked_events fresh 0 (mpi_ActorID inp) ''entity_moved''
             (map (revoke_at now) (unrevoked ?sub (entity_shares db))) else [])\<rparr>"
  proof (cases ?x)
    case True
    then have "revokeSubtreeSharesTx fresh now (mpi_ActorID inp) (pg_space page) (pg_id page)
        (SubtreeLikePattern (pg_path page)) db = Inr (n, d)" using n by (simp only: if_True not_False_eq_True)
    from revokeSubtreeSharesTx_Inr [OF this] True show ?thesis by (simp only: if_True not_False_eq_True simp_thms)
  next
    case False
    with n have "n = 0" and "d = db" by simp_all
    with False show ?thesis by simp
  qed
  note d = this [THEN conjunct1] this [THEN conjunct2]
  have pgs: "pages d = pages db" by (simp add: d(2))
  show thesis
  proof (rule that [of page par newPath])
    show "page \<in> set (live_pages db)" "pg_id page = mpi_PageID inp" using live by blast+
    show "resolveMoveParent us inp page db = Inr (par, newPath)" by (rule r)
    show "\<forall>q. par = Some q \<longrightarrow> page_exists db q" using ex by blast
    show x: "mpr_CrossSpace res = ?x" by (simp add: res)
    show "mpr_RevokedShares res = (if mpr_CrossSpace res then length (unrevoked ?sub (entity_shares db)) else 0)"
      unfolding x by (simp add: res d(1))
    show "pages db' = map (moved_row inp page par newPath) (pages db)" by (simp add: db' pgs)
    show "page_revisions db' = page_revisions db" unfolding db' by (simp add: d(2))
    show "db' = db\<lparr>pages := map (moved_row inp page par newPath) (pages db),
       entity_shares := (if mpr_CrossSpace res then revoke_rows now ?sub (entity_shares db) else entity_shares db),
       audit_log := audit_log db @ (if mpr_CrossSpace res then revoked_events fresh 0 (mpi_ActorID inp) ''entity_moved''
             (map (revoke_at now) (unrevoked ?sub (entity_shares db))) else [])\<rparr>"
      unfolding x db' pgs by (simp only: d(2)) simp
  qed
qed

lemma moved_row_fields:
  "pg_id (moved_row inp page par np x) = pg_id x" "pg_deleted (moved_row inp page par np x) = pg_deleted x"
  "pg_version (moved_row inp page par np x) = pg_version x" "pg_title (moved_row inp page par np x) = pg_title x"
  "pg_content (moved_row inp page par np x) = pg_content x" "pg_doc (moved_row inp page par np x) = pg_doc x"
  "\<not> page_live (pg_id page) x \<Longrightarrow> pg_parent (moved_row inp page par np x) = pg_parent x"
  by (simp_all add: moved_row_def)

definition in_moved :: "PageRow \<Rightarrow> PageRow \<Rightarrow> bool" where
  "in_moved page x \<longleftrightarrow> pg_space x = pg_space page \<and> HasPrefix (pg_path x) (pg_path page @ ''.'') \<and> \<not> pg_deleted x"

lemma moved_row_cases:
  "page_live (pg_id page) x \<Longrightarrow> pg_space (moved_row inp page par np x) = mpi_TargetSpaceID inp \<and>
     pg_parent (moved_row inp page par np x) = par \<and> pg_path (moved_row inp page par np x) = np"
  "\<not> page_live (pg_id page) x \<Longrightarrow> in_moved page x \<Longrightarrow>
     pg_space (moved_row inp page par np x) = mpi_TargetSpaceID inp \<and>
     pg_path (moved_row inp page par np x) = np @ drop (length (pg_path page)) (pg_path x)"
  "\<not> page_live (pg_id page) x \<Longrightarrow> \<not> in_moved page x \<Longrightarrow> moved_row inp page par np x = x"
  by (auto simp: moved_row_def in_moved_def)

text \<open>Below the moved root every path keeps its tail, so its last segment.\<close>

lemma moved_tail:
  assumes "HasPrefix (a @ ''.'' @ u) (m @ ''.'')" and "\<not> dotted u"
  shows "np @ drop (length m) (a @ ''.'' @ u) = (np @ drop (length m) a) @ ''.'' @ u"
  using prefix_cut [OF assms] by (auto simp: HasPrefix_iff)

text \<open>The situation after the checks of a move and before its two updates.\<close>

definition move_ok ::
    "(uuid \<Rightarrow> string) \<Rightarrow> 'x work_db_scheme \<Rightarrow> MovePageInput \<Rightarrow> PageRow \<Rightarrow> uuid option \<Rightarrow> string \<Rightarrow> bool" where
  "move_ok us db inp page par np \<longleftrightarrow>
     uuid_text us \<and> page_tree us db \<and> page \<in> set (live_pages db) \<and> pg_id page = mpi_PageID inp \<and>
     resolveMoveParent us inp page db = Inr (par, np) \<and> (\<forall>q. par = Some q \<longrightarrow> page_exists db q)"

lemma no_dot: "uuid_text us \<Longrightarrow> \<not> dotted (us i)"
  by (simp add: uuid_text_def dotted_def)

lemma move_root:
  assumes "move_ok us db inp page par np" and "x \<in> set (live_pages db)"
  shows "page_live (pg_id page) x \<longleftrightarrow> x = page"
proof -
  have "distinct (map pg_id (pages db))" and "page \<in> set (live_pages db)"
    using assms(1) by (auto simp: move_ok_def page_tree_def)
  then show ?thesis using assms(2) by (auto simp: page_live_def live_pages_iff dest: distinct_key)
qed

lemma move_same_page:
  assumes "move_ok us db inp page par np" and "x \<in> set (live_pages db)" and "y \<in> set (live_pages db)"
    and "pg_id x = pg_id y"
  shows "x = y"
  using assms by (auto simp: move_ok_def page_tree_def live_pages_iff dest: distinct_key)

lemma move_ends_of:
  assumes "move_ok us db inp page par np" and "x \<in> set (live_pages db)"
  shows "path_ends us x"
  using assms by (simp add: move_ok_def page_tree_def)

text \<open>A page inside the moved subtree is no root page.\<close>

lemma moved_has_parent:
  assumes ok: "move_ok us db inp page par np" and p: "p \<in> set (live_pages db)" and inside: "in_moved page p"
  obtains a where "pg_path p = a @ ''.'' @ us (pg_id p)" "pg_parent p \<noteq> None"
proof (cases "pg_parent p")
  case None
  then have "pg_path p = us (pg_id p)" using move_ends_of [OF ok p] by (simp add: path_ends_def)
  then have "dotted (us (pg_id p))" using inside by (auto simp: in_moved_def HasPrefix_iff dotted_def)
  then show thesis using no_dot [of us "pg_id p"] ok by (simp add: move_ok_def)
next
  case (Some q)
  then show thesis using that move_ends_of [OF ok p] by (auto simp: path_ends_def)
qed

text \<open>The new parent lies outside the moved subtree, so it does not move.\<close>

lemma move_parent:
  assumes "move_ok us db inp page par np"
  shows "np = us (pg_id page) \<and> par = None \<or>
     (\<exists>y \<in> set (live_pages db). par = Some (pg_id y) \<and> np = pg_path y @ ''.'' @ us (pg_id page) \<and>
        pg_space y = mpi_TargetSpaceID inp \<and> y \<noteq> page \<and> \<not> in_moved page y)"
proof -
  have r: "resolveMoveParent us inp page db = Inr (par, np)" and i: "pg_id page = mpi_PageID inp"
    using assms by (simp_all add: move_ok_def)
  show ?thesis
    using resolveMoveParent_Inr [OF r] unfolding i [symmetric]
  proof (elim disjE)
    assume "\<exists>y \<in> set (live_pages db). par = Some (pg_id y) \<and> np = pg_path y @ ''.'' @ us (pg_id page) \<and>
       pg_space y = mpi_TargetSpaceID inp \<and>
       (pg_space y = pg_space page \<longrightarrow> \<not> PathWithinSubtree (pg_path y) (pg_path page))"
    then show ?thesis by (auto simp: in_moved_def within_iff)
  qed blast
qed

lemma move_keeps_ends:
  assumes ok: "move_ok us db inp page par np" and p: "p \<in> set (live_pages db)"
  shows "path_ends us (moved_row inp page par np p)"
proof (cases "p = page")
  case True
  then have "page_live (pg_id page) p" using move_root [OF ok p] by simp
  from moved_row_cases(1) [OF this, of inp par np] move_parent [OF ok] True show ?thesis
    by (auto simp: path_ends_def moved_row_fields)
next
  case False
  then have nl: "\<not> page_live (pg_id page) p" using move_root [OF ok p] by simp
  show ?thesis
  proof (cases "in_moved page p")
    case True
    from moved_has_parent [OF ok p True] obtain a
      where a: "pg_path p = a @ ''.'' @ us (pg_id p)" "pg_parent p \<noteq> None" .
    have "\<not> dotted (us (pg_id p))" using ok by (simp add: move_ok_def no_dot)
    then have "pg_path (moved_row inp page par np p) = (np @ drop (length (pg_path page)) a) @ ''.'' @ us (pg_id p)"
      using moved_row_cases(2) [OF nl True, of inp par np] moved_tail True a(1) by (simp add: in_moved_def)
    then show ?thesis using a(2) nl by (auto simp: path_ends_def moved_row_fields)
  next
    case False
    then show ?thesis using moved_row_cases(3) [OF nl False] move_ends_of [OF ok p] by simp
  qed
qed

text \<open>A page moves exactly when its parent does, unless the parent is the moved root.\<close>

lemma move_in_iff:
  assumes ok: "move_ok us db inp page par np" and p: "p \<in> set (live_pages db)" and y: "y \<in> set (live_pages db)"
    and u: "under us p y" and ne: "y \<noteq> page"
  shows "in_moved page p \<longleftrightarrow> in_moved page y"
proof
  have us: "uuid_text us" and page: "page \<in> set (live_pages db)" using ok by (simp_all add: move_ok_def)
  have lives: "\<not> pg_deleted y" "\<not> pg_deleted p" using p y by (simp_all add: live_pages_iff)
  {
    assume "in_moved page p"
    then have 1: "HasPrefix (pg_path y @ ''.'' @ us (pg_id p)) (pg_path page @ ''.'')" and sp: "pg_space y = pg_space page"
      using u by (simp_all add: in_moved_def under_def)
    have "pg_path y \<noteq> pg_path page"
      using same_path_same_id [OF us move_ends_of [OF ok y] move_ends_of [OF ok page]] ne
        move_same_page [OF ok y page] by blast
    then show "in_moved page y" using prefix_cut [OF 1 no_dot [OF us]] sp lives by (simp add: in_moved_def)
  next
    assume "in_moved page y"
    then show "in_moved page p" using u lives by (auto simp: in_moved_def under_def HasPrefix_iff)
  }
qed

lemma move_keeps_under:
  assumes ok: "move_ok us db inp page par np" and p: "p \<in> set (live_pages db)" and y: "y \<in> set (live_pages db)"
    and py: "pg_parent (moved_row inp page par np p) = Some (pg_id y)"
  shows "under us (moved_row inp page par np p) (moved_row inp page par np y)"
proof (cases "p = page")
  case True
  then have lv: "page_live (pg_id page) p" using move_root [OF ok p] by simp
  note g = moved_row_cases(1) [OF lv, of inp par np]
  from g py have "par = Some (pg_id y)" by simp
  with move_parent [OF ok] obtain z where z: "z \<in> set (live_pages db)" "pg_id z = pg_id y"
    "np = pg_path z @ ''.'' @ us (pg_id page)" "pg_space z = mpi_TargetSpaceID inp" "z \<noteq> page" "\<not> in_moved page z" by auto
  have zy: "z = y" by (rule move_same_page [OF ok z(1) y z(2)])
  then have "moved_row inp page par np y = y" using moved_row_cases(3) z(5,6) move_root [OF ok y] by simp
  then show ?thesis using g z zy True by (simp add: under_def moved_row_fields)
next
  case False
  then have nl: "\<not> page_live (pg_id page) p" using move_root [OF ok p] by simp
  then have "pg_parent p = Some (pg_id y)" using py by (simp add: moved_row_fields)
  then have u: "under us p y" using ok p y by (simp add: move_ok_def page_tree_def)
  show ?thesis
  proof (cases "y = page")
    case True
    have "in_moved page p" using u p True by (auto simp: in_moved_def HasPrefix_iff under_def live_pages_iff)
    moreover have "page_live (pg_id page) y" using move_root [OF ok y] True by simp
    ultimately show ?thesis
      using moved_row_cases(2) [OF nl, of inp par np] moved_row_cases(1) [of page y inp par np] u True
      by (simp add: under_def moved_row_fields)
  next
    case False
    then have nly: "\<not> page_live (pg_id page) y" using move_root [OF ok y] by simp
    note iff = move_in_iff [OF ok p y u False]
    show ?thesis
    proof (cases "in_moved page p")
      case True
      then have "HasPrefix (pg_path y @ ''.'' @ us (pg_id p)) (pg_path page @ ''.'')"
        using u by (simp add: in_moved_def under_def)
      then have "np @ drop (length (pg_path page)) (pg_path p) =
          (np @ drop (length (pg_path page)) (pg_path y)) @ ''.'' @ us (pg_id p)"
        using moved_tail [of "pg_path y" "us (pg_id p)" "pg_path page" np] ok u
        by (simp add: no_dot move_ok_def under_def)
      then show ?thesis
        using moved_row_cases(2) [OF nl True, of inp par np] moved_row_cases(2) [OF nly, of inp par np] iff True
        by (simp add: under_def moved_row_fields)
    next
      case False
      then show ?thesis using moved_row_cases(3) [OF nl False] moved_row_cases(3) [OF nly] iff u by simp
    qed
  qed
qed

lemma move_keeps_fk:
  assumes ok: "move_ok us db inp page par np" and p: "p \<in> set (pages db)"
    and q: "pg_parent (moved_row inp page par np p) = Some q"
  shows "q \<in> pg_id ` set (pages db)"
proof (cases "page_live (pg_id page) p")
  case True
  then have "par = Some q" using moved_row_cases(1) [OF True, of inp par np] q by simp
  then have "page_exists db q" using ok by (simp add: move_ok_def)
  then show ?thesis by (auto simp: page_exists_def list_ex_iff)
next
  case False
  then show ?thesis using p q ok by (auto simp: moved_row_fields page_tree_def move_ok_def)
qed

lemma move_keeps_tree:
  assumes ok: "move_ok us db inp page par np"
    and db': "pages db' = map (moved_row inp page par np) (pages db)"
  shows "page_tree us db'"
proof -
  let ?g = "moved_row inp page par np"
  have ids: "map pg_id (pages db') = map pg_id (pages db)" by (simp add: db' moved_row_fields)
  have idset: "pg_id ` set (pages db') = pg_id ` set (pages db)" using ids by (metis list.set_map)
  have lp: "\<exists>p. p \<in> set (live_pages db) \<and> x = ?g p" if "x \<in> set (live_pages db')" for x
    using that by (auto simp: live_pages_iff db' moved_row_fields)
  have "distinct (map pg_id (pages db))" using ok by (simp add: move_ok_def page_tree_def)
  moreover have "path_ends us x" if "x \<in> set (live_pages db')" for x
    using lp [OF that] move_keeps_ends [OF ok] by blast
  moreover have "under us x z" if "x \<in> set (live_pages db')" "z \<in> set (live_pages db')" "pg_parent x = Some (pg_id z)" for x z
    using lp [OF that(1)] lp [OF that(2)] that(3) move_keeps_under [OF ok] by (auto simp: moved_row_fields)
  ultimately show ?thesis
    unfolding page_tree_def ids idset using move_keeps_fk [OF ok] by (auto simp: db')
qed

lemma MovePageTx_keeps_tree:
  assumes us: "uuid_text us" and t: "page_tree us db"
  shows "page_tree us (snd (MovePageTx us fresh now inp db))"
proof (cases "fst (MovePageTx us fresh now inp db)")
  case (Inl e)
  then have "snd (MovePageTx us fresh now inp db) = db" unfolding MovePageTx_def by (rule in_tx_failed)
  with t show ?thesis by simp
next
  case (Inr res)
  then have m: "MovePageTx us fresh now inp db = (Inr res, snd (MovePageTx us fresh now inp db))"
    by (metis prod.collapse)
  show ?thesis
  proof (rule MovePageTx_Inr [OF us m])
    fix page par np
    assume "page \<in> set (live_pages db)" "pg_id page = mpi_PageID inp"
      "resolveMoveParent us inp page db = Inr (par, np)" "\<forall>q. par = Some q \<longrightarrow> page_exists db q"
    then have ok: "move_ok us db inp page par np" using us t by (simp add: move_ok_def)
    assume "pages (snd (MovePageTx us fresh now inp db)) = map (moved_row inp page par np) (pages db)"
    then show ?thesis by (rule move_keeps_tree [OF ok])
  qed
qed

end
