(* ===== verification/UuidText.thy ===== *)
theory UuidText
  imports WikiPages
begin

text \<open>
  The canonical text of a uuid (RFC 9562: 32 lower-case hexadecimal digits in groups of 8, 4, 4, 4
  and 12), as the instance the witnesses run on. It shows that \<open>uuid_text\<close> can hold; no definition
  of the model uses it.
\<close>

definition hex_digit :: "nat \<Rightarrow> char" where
  "hex_digit n = ''0123456789abcdef'' ! n"

definition nibble :: "uuid \<Rightarrow> nat \<Rightarrow> nat" where
  "nibble w k = take_bit 4 (drop_bit (4 * k) (unat w))"

definition hex_digits :: "uuid \<Rightarrow> string" where
  "hex_digits w = map (\<lambda>k. hex_digit (nibble w k)) (rev [0..<32])"

definition canonical_text :: "uuid \<Rightarrow> string" where
  "canonical_text w =
     (let d = hex_digits w
      in take 8 d @ ''-'' @ take 4 (drop 8 d) @ ''-'' @ take 4 (drop 12 d) @ ''-'' @
         take 4 (drop 16 d) @ ''-'' @ drop 20 d)"

lemma nibble_bound: "nibble w k < 16"
  using take_bit_nat_less_exp [of 4 "drop_bit (4 * k) (unat w)"] by (simp add: nibble_def)

lemma hex_digit_inj: "n < 16 \<Longrightarrow> m < 16 \<Longrightarrow> hex_digit n = hex_digit m \<Longrightarrow> n = m"
proof -
  have "distinct ''0123456789abcdef''" by simp
  then show "n < 16 \<Longrightarrow> m < 16 \<Longrightarrow> hex_digit n = hex_digit m \<Longrightarrow> n = m"
    by (simp add: hex_digit_def nth_eq_iff_index_eq)
qed

lemma hex_digit_no_dot: "n < 16 \<Longrightarrow> hex_digit n \<noteq> CHR ''.''"
proof -
  assume "n < 16"
  then have "hex_digit n \<in> set ''0123456789abcdef''" unfolding hex_digit_def by (intro nth_mem) simp
  then show ?thesis by auto
qed

lemma nibbles_determine:
  assumes "\<And>k. k < 32 \<Longrightarrow> nibble w k = nibble v k" shows "w = v"
proof (rule bit_word_eqI)
  fix n assume "n < LENGTH(128)"
  then have k: "n div 4 < 32" by simp
  have n: "n = 4 * (n div 4) + n mod 4" by simp
  have "bit (take_bit 4 (drop_bit (4 * (n div 4)) (unat w))) (n mod 4) =
      bit (take_bit 4 (drop_bit (4 * (n div 4)) (unat v))) (n mod 4)"
    using assms [OF k] by (simp add: nibble_def)
  then have "bit (unat w) n = bit (unat v) n" by (simp add: bit_take_bit_iff bit_drop_bit_eq n [symmetric])
  then show "bit w n = bit v n" by (simp add: bit_unsigned_iff possible_bit_def)
qed

lemma hex_digits_inj: "hex_digits w = hex_digits v \<Longrightarrow> w = v"
proof (rule nibbles_determine)
  fix k :: nat assume eq: "hex_digits w = hex_digits v" and k: "k < 32"
  then have "k \<in> set (rev [0..<32])" by simp
  with eq have "hex_digit (nibble w k) = hex_digit (nibble v k)"
    unfolding hex_digits_def map_eq_conv by blast
  then show "nibble w k = nibble v k" by (rule hex_digit_inj [OF nibble_bound nibble_bound])
qed

lemma canonical_digits:
  assumes "canonical_text w = canonical_text v" shows "hex_digits w = hex_digits v"
proof -
  have l: "length (hex_digits x) = 32" for x by (simp add: hex_digits_def)
  let ?d = "\<lambda>x. [take 8 (hex_digits x), take 4 (drop 8 (hex_digits x)), take 4 (drop 12 (hex_digits x)),
     take 4 (drop 16 (hex_digits x)), drop 20 (hex_digits x)]"
  have step: "take 4 (drop n d) @ drop (n + 4) d = drop n d" for n and d :: string
    by (metis append_take_drop_id drop_drop add.commute)
  have "concat (?d x) = hex_digits x" for x
    using step [of 8 "hex_digits x"] step [of 12 "hex_digits x"] step [of 16 "hex_digits x"] by simp
  moreover have "?d w = ?d v" using assms l by (simp add: canonical_text_def Let_def)
  ultimately show ?thesis by metis
qed

lemma canonical_text_ok: "uuid_text canonical_text"
proof -
  have "inj canonical_text" by (rule injI) (rule hex_digits_inj [OF canonical_digits])
  moreover have "canonical_text i \<noteq> ''''" for i by (simp add: canonical_text_def Let_def)
  moreover have "CHR ''.'' \<notin> set (canonical_text i)" for i
  proof -
    have "CHR ''.'' \<notin> set (hex_digits i)" using hex_digit_no_dot [OF nibble_bound] unfolding hex_digits_def by fastforce
    then show ?thesis by (auto simp: canonical_text_def Let_def dest: in_set_takeD in_set_dropD)
  qed
  ultimately show ?thesis by (simp add: uuid_text_def)
qed

end
