(* ===== verification/PageReach.thy ===== *)
theory PageReach
  imports PageTree UuidText
begin

text \<open>
  The page operations as transitions of the database, the invariant of every run of them, and what
  a move and a delete do to the shares of what they touch.
\<close>

section \<open>Deleting\<close>

lemma q_RevokeSharesByEntity_Inr:
  "q_RevokeSharesByEntity now ty i db = Inr (r, db') \<Longrightarrow>
     r = map (revoke_at now) (unrevoked (\<lambda>s. sh_entity_type s = ty \<and> sh_entity s = i) (entity_shares db)) \<and>
     db' = db\<lparr>entity_shares := revoke_rows now (\<lambda>s. sh_entity_type s = ty \<and> sh_entity s = i) (entity_shares db)\<rparr>"
  unfolding q_RevokeSharesByEntity_def by (rule revoke_where_Inr)

lemma deleteEntity_Inr:
  assumes "deleteEntityAndRevokeShares fresh now ty i actor del db = (Inr n, db')"
  obtains d where "del db = Inr ((), d)"
    and "n = length (unrevoked (\<lambda>s. sh_entity_type s = ty \<and> sh_entity s = i) (entity_shares d))"
    and "db' = d\<lparr>entity_shares := revoke_rows now (\<lambda>s. sh_entity_type s = ty \<and> sh_entity s = i) (entity_shares d),
        audit_log := audit_log d @ revoked_events fresh 0 actor ''entity_deleted''
          (map (revoke_at now) (unrevoked (\<lambda>s. sh_entity_type s = ty \<and> sh_entity s = i) (entity_shares d)))\<rparr>"
proof -
  from assms obtain d e ss where 1: "del db = Inr ((), d)" and 2: "q_RevokeSharesByEntity now ty i d = Inr (ss, e)"
    and 3: "write_revoked_events fresh 0 actor ''entity_deleted'' ss e = Inr ((), db')" and n: "n = length ss"
    by (auto simp: deleteEntityAndRevokeShares_def in_tx_Inr stmt_run wrap_wiki_Inr)
  show thesis using that [OF 1] q_RevokeSharesByEntity_Inr [OF 2] write_revoked_events_Inr [OF 3] by (auto simp: n)
qed

lemma deleteEntity_pages:
  assumes "\<And>d. del db = Inr ((), d) \<Longrightarrow> page_tree us d" and "page_tree us db"
  shows "page_tree us (snd (deleteEntityAndRevokeShares fresh now ty i actor del db))"
proof (cases "fst (deleteEntityAndRevokeShares fresh now ty i actor del db)")
  case (Inl e)
  then have "snd (deleteEntityAndRevokeShares fresh now ty i actor del db) = db"
    unfolding deleteEntityAndRevokeShares_def by (rule in_tx_failed)
  with assms(2) show ?thesis by simp
next
  case (Inr n)
  then have "deleteEntityAndRevokeShares fresh now ty i actor del db =
      (Inr n, snd (deleteEntityAndRevokeShares fresh now ty i actor del db))" by (metis prod.collapse)
  then obtain d where "del db = Inr ((), d)"
    and "pages (snd (deleteEntityAndRevokeShares fresh now ty i actor del db)) = pages d"
    by (rule deleteEntity_Inr) simp
  with assms(1) page_tree_same show ?thesis by blast
qed

lemma DeletePage_snd: "snd (DeletePage (pg_content_tx us) fresh now i sp actor db) =
    snd (DeletePageAndRevokeShares fresh now i sp actor db)"
  by (simp add: DeletePage_def split: prod.split sum.split)

lemma DeletePage_keeps_tree:
  assumes "page_tree us db"
  shows "page_tree us (snd (DeletePage (pg_content_tx us') fresh now i sp actor db))"
  unfolding DeletePage_snd DeletePageAndRevokeShares_def
proof (rule deleteEntity_pages [OF _ assms])
  fix d assume "q_SoftDeletePageInSpace i sp db = Inr ((), d)"
  then have "pages d = map (\<lambda>p. if page_live i p \<and> pg_space p = sp then p\<lparr>pg_deleted := True\<rparr> else p) (pages db)"
    by (auto simp: q_SoftDeletePageInSpace_def split: if_splits)
  then show "page_tree us d" by (rule map_keeps_tree [OF assms, rotated]) simp
qed

section \<open>Saving\<close>

lemma q_UpdatePageContent_Inr:
  assumes "q_UpdatePageContent i v title content db = Inr (page, d)"
  shows "\<exists>c. List.find (\<lambda>p. page_live i p \<and> pg_version p = v) (pages db) = Some c \<and> pg_version c \<noteq> int4_max \<and>
    page = c\<lparr>pg_title := title, pg_content := content, pg_version := pg_version c + 1\<rparr> \<and>
    d = db\<lparr>pages := map (\<lambda>p. if page_live i p \<and> pg_version p = v
           then p\<lparr>pg_title := title, pg_content := content, pg_version := pg_version p + 1\<rparr> else p) (pages db)\<rparr>"
  using assms by (auto simp: q_UpdatePageContent_def Let_def split: if_splits option.splits)

lemma find_and: "List.find P xs = Some y \<Longrightarrow> Q y \<Longrightarrow> List.find (\<lambda>p. P p \<and> Q p) xs = Some y"
  by (induction xs) (auto split: if_splits)

lemma UpdatePageContentTx_Inr:
  assumes "UpdatePageContentTx revID inp db = (Inr page, db')"
  obtains c where "c \<in> set (live_pages db)" and "pg_id c = upi_PageID inp" and "pg_doc c = None"
    and "pg_version c = upi_ExpectedVersion inp" and "pg_version c \<noteq> int4_max"
    and "page = c\<lparr>pg_title := upi_Title inp, pg_content := upi_Content inp, pg_version := pg_version c + 1\<rparr>"
    and "db' = db\<lparr>pages := map (\<lambda>p. if page_live (upi_PageID inp) p \<and> pg_version p = upi_ExpectedVersion inp
           then p\<lparr>pg_title := upi_Title inp, pg_content := upi_Content inp, pg_version := pg_version p + 1\<rparr> else p) (pages db),
         page_revisions := page_revisions db @
           [\<lparr>pr_id = revID, pr_page = pg_id page, pr_version = pg_version page, pr_title = pg_title page,
             pr_content = pg_content page, pr_doc = None, pr_author = upi_AuthorID inp\<rparr>]\<rparr>"
    and "\<forall>r \<in> set (page_revisions db). \<not> (pr_page r = pg_id page \<and> pr_version r = pg_version page)"
proof -
  let ?hit = "\<lambda>p. page_live (upi_PageID inp) p \<and> pg_version p = upi_ExpectedVersion inp"
  let ?rev = "\<lparr>pr_id = revID, pr_page = pg_id page, pr_version = pg_version page, pr_title = pg_title page,
             pr_content = pg_content page, pr_doc = None, pr_author = upi_AuthorID inp\<rparr>"
  from assms obtain l d where l: "lock_page db (upi_PageID inp) = Inr l" "pg_doc l = None"
      "pg_version l = upi_ExpectedVersion inp"
    and q: "q_UpdatePageContent (upi_PageID inp) (upi_ExpectedVersion inp) (upi_Title inp) (upi_Content inp) db = Inr (page, d)"
    and rv: "\<exists>x. q_CreatePageRevision ?rev d = Inr (x, db')"
    by (auto simp: UpdatePageContentTx_def in_tx_Inr stmt_run wrap_wiki_Inr split: sum.splits if_splits)
  have lf: "List.find (page_live (upi_PageID inp)) (pages db) = Some l"
    using l(1) by (auto simp: lock_page_def q_GetPageForUpdate_def sql_row_def split: sum.splits if_splits option.splits)
  have same: "List.find ?hit (pages db) = Some l" using lf l(3) by (rule find_and)
  from q_UpdatePageContent_Inr [OF q] obtain c where c: "List.find ?hit (pages db) = Some c"
    and ov': "pg_version c \<noteq> int4_max"
    and page': "page = c\<lparr>pg_title := upi_Title inp, pg_content := upi_Content inp, pg_version := pg_version c + 1\<rparr>"
    and d: "d = db\<lparr>pages := map (\<lambda>p. if ?hit p
           then p\<lparr>pg_title := upi_Title inp, pg_content := upi_Content inp, pg_version := pg_version p + 1\<rparr> else p) (pages db)\<rparr>"
    by blast
  have cl: "c = l" using c same by (simp only: option.inject)
  note ov = ov' [unfolded cl] and page = page' [unfolded cl]
  from rv have e: "db' = d\<lparr>page_revisions := page_revisions d @ [?rev]\<rparr>"
    and u: "\<forall>r \<in> set (page_revisions d). \<not> (pr_page r = pg_id page \<and> pr_version r = pg_version page)"
    by (auto simp: q_CreatePageRevision_def list_ex_iff split: if_splits)
  have revs: "page_revisions d = page_revisions db" by (simp add: d)
  show thesis
  proof (rule that [of l])
    show "l \<in> set (live_pages db)" "pg_id l = upi_PageID inp" using lock_page_Inr [OF l(1)] by blast+
    show "\<forall>r \<in> set (page_revisions db). \<not> (pr_page r = pg_id page \<and> pr_version r = pg_version page)"
      using u by (simp only: revs)
    show "db' = db\<lparr>pages := map (\<lambda>p. if ?hit p
           then p\<lparr>pg_title := upi_Title inp, pg_content := upi_Content inp, pg_version := pg_version p + 1\<rparr> else p) (pages db),
         page_revisions := page_revisions db @ [?rev]\<rparr>"
      unfolding e revs by (simp add: d)
  qed (fact l(2,3) ov page)+
qed

lemma UpdatePageContentTx_keeps_tree:
  assumes "page_tree us db"
  shows "page_tree us (snd (UpdatePageContentTx revID inp db))"
proof (cases "fst (UpdatePageContentTx revID inp db)")
  case (Inl e)
  then have "snd (UpdatePageContentTx revID inp db) = db" unfolding UpdatePageContentTx_def by (rule in_tx_failed)
  with assms show ?thesis by simp
next
  case (Inr page)
  then have "UpdatePageContentTx revID inp db = (Inr page, snd (UpdatePageContentTx revID inp db))" by (metis prod.collapse)
  then show ?thesis
  proof (rule UpdatePageContentTx_Inr)
    assume "snd (UpdatePageContentTx revID inp db) = db\<lparr>pages := map (\<lambda>p. if page_live (upi_PageID inp) p \<and> pg_version p = upi_ExpectedVersion inp
           then p\<lparr>pg_title := upi_Title inp, pg_content := upi_Content inp, pg_version := pg_version p + 1\<rparr> else p) (pages db),
         page_revisions := page_revisions db @
           [\<lparr>pr_id = revID, pr_page = pg_id page, pr_version = pg_version page, pr_title = pg_title page,
             pr_content = pg_content page, pr_doc = None, pr_author = upi_AuthorID inp\<rparr>]\<rparr>"
    then have "pages (snd (UpdatePageContentTx revID inp db)) = map (\<lambda>p. if page_live (upi_PageID inp) p \<and> pg_version p = upi_ExpectedVersion inp
           then p\<lparr>pg_title := upi_Title inp, pg_content := upi_Content inp, pg_version := pg_version p + 1\<rparr> else p) (pages db)"
      by simp
    then show ?thesis by (rule map_keeps_tree [OF assms, rotated]) simp
  qed
qed

section \<open>Runs of the page operations\<close>

text \<open>One call of the service or of the adapter's deleters, whatever its outcome.\<close>

inductive page_step :: "(uuid \<Rightarrow> string) \<Rightarrow> 'x work_db_scheme \<Rightarrow> 'x work_db_scheme \<Rightarrow> bool" for us where
  create: "page_step us db (snd (CreatePage pg_page_store us i revID cinp db))"
| update: "page_step us db (snd (UpdatePage (pg_content_tx us) revID uinp db))"
| move: "page_step us db (snd (MovePage (pg_content_tx us) fresh now minp db))"
| delete: "page_step us db (snd (DeletePage (pg_content_tx us) fresh now i sp actor db))"
| delete_ticket: "page_step us db (snd (DeleteTicketAndRevokeShares fresh now i sp actor db))"
| delete_item: "page_step us db (snd (DeleteItemAndRevokeShares fresh now i sp actor db))"

lemma page_step_keeps_tree:
  assumes us: "uuid_text us" and st: "page_step us db db'" and t: "page_tree us db"
  shows "page_tree us db'"
  using st t
proof cases
  case (create i revID cinp)
  then show ?thesis using CreatePage_keeps_tree [OF t] by simp
next
  case (update revID uinp)
  then show ?thesis using UpdatePageContentTx_keeps_tree [OF t] t by (simp add: UpdatePage_def)
next
  case (move fresh now minp)
  then show ?thesis using MovePageTx_keeps_tree [OF us t] by (simp add: MovePage_def)
next
  case (delete fresh now i sp actor)
  then show ?thesis using DeletePage_keeps_tree [OF t] by simp
next
  case (delete_ticket fresh now i sp actor)
  show ?thesis
    unfolding delete_ticket DeleteTicketAndRevokeShares_def
    by (rule deleteEntity_pages [OF _ t])
      (auto intro!: page_tree_same [THEN iffD2, OF _ t] simp: q_SoftDeleteTicketInSpace_def split: if_splits)
next
  case (delete_item fresh now i sp actor)
  show ?thesis
    unfolding delete_item DeleteItemAndRevokeShares_def
    by (rule deleteEntity_pages [OF _ t])
      (auto intro!: page_tree_same [THEN iffD2, OF _ t] simp: q_SoftDeleteProjectItemInSpace_def split: if_splits)
qed

text \<open>
  C22. Along every run of page operations (creations, saves, moves within and across spaces, deletes,
  successful or not) the page tree stays a tree: ids stay unique, a live page under a live parent is
  in its parent's space with its parent's path one segment longer, and following live parents never
  leads back to where it started. So a page's path always says where the page is, which is what
  subtree sharing, subtree moves and the cascade tests rely on.
\<close>

theorem page_tree_always:
  assumes "uuid_text us" and "page_tree us db" and "(page_step us)\<^sup>*\<^sup>* db db'"
  shows "page_tree us db' \<and> acyclic (live_parent db')"
proof -
  from assms(3,2) have "page_tree us db'"
    by (induction rule: rtranclp_induct) (auto intro: page_step_keeps_tree [OF assms(1)])
  then show ?thesis using page_tree_acyclic by blast
qed

section \<open>A page tree to evaluate on\<close>

text \<open>In space 31 page 101 with its child 102 and grandchild 103, in space 32 the root page 104; page
  102 is shared with the org, and so is the ticket.\<close>

definition demo_tree_page :: "uuid \<Rightarrow> uuid \<Rightarrow> uuid option \<Rightarrow> string \<Rightarrow> PageRow" where
  "demo_tree_page i sp par path =
     \<lparr>pg_id = i, pg_space = sp, pg_parent = par, pg_title = ''Page'', pg_content = '''', pg_version = 1,
      pg_author = 10, pg_position = 0, pg_path = path, pg_doc = None, pg_deleted = False\<rparr>"

definition demo_rev :: "uuid \<Rightarrow> uuid \<Rightarrow> PageRevisionRow" where
  "demo_rev i p = \<lparr>pr_id = i, pr_page = p, pr_version = 1, pr_title = ''Page'', pr_content = '''', pr_doc = None, pr_author = 10\<rparr>"

abbreviation "seg \<equiv> canonical_text"

definition demo_wiki :: work_db where
  "demo_wiki = demo_shared\<lparr>
     pages :=
       [demo_tree_page 101 31 None (seg 101),
        demo_tree_page 102 31 (Some 101) (seg 101 @ ''.'' @ seg 102),
        demo_tree_page 103 31 (Some 102) ((seg 101 @ ''.'' @ seg 102) @ ''.'' @ seg 103),
        demo_tree_page 104 32 None (seg 104)],
     page_revisions := [demo_rev 301 101, demo_rev 302 102, demo_rev 303 103, demo_rev 304 104],
     entity_shares :=
        [\<lparr>sh_id = 201, sh_org = 1, sh_space = 31, sh_entity_type = ''page'', sh_entity = 102, sh_audience = ''org'',
          sh_audience_id = None, sh_cascade = True, sh_expires = None, sh_created_by = 10, sh_created = 5,
          sh_revoked = None\<rparr>,
         \<lparr>sh_id = 202, sh_org = 1, sh_space = 31, sh_entity_type = ''ticket'', sh_entity = 111, sh_audience = ''org'',
          sh_audience_id = None, sh_cascade = False, sh_expires = None, sh_created_by = 10, sh_created = 5,
          sh_revoked = None\<rparr>]\<rparr>"

lemma demo_wiki_tree: "page_tree seg demo_wiki"
  by (simp add: page_tree_def live_pages_def demo_wiki_def demo_tree_page_def path_ends_def under_def)

definition demo_move :: MovePageInput where
  "demo_move = \<lparr>mpi_OrgID = 1, mpi_TargetSpaceID = 32, mpi_PageID = 102, mpi_ParentID = Some 104, mpi_Position = 0,
     mpi_ActorID = 10\<rparr>"

definition demo_after :: work_db where
  "demo_after = snd (MovePage (pg_content_tx seg) (\<lambda>k. 500 + of_nat k) 60 demo_move demo_wiki)"

theorem page_tree_always_witness: "page_tree seg demo_after \<and> acyclic (live_parent demo_after)"
  by (rule page_tree_always [OF canonical_text_ok demo_wiki_tree])
    (simp add: demo_after_def page_step.move r_into_rtranclp)

lemmas seg_simps = canonical_text_def hex_digits_def nibble_def hex_digit_def upt_rec take_bit_eq_mod
  drop_bit_eq_div Let_def

lemma demo_seg:
  "seg 101 = ''00000000-0000-0000-0000-000000000065''" "seg 102 = ''00000000-0000-0000-0000-000000000066''"
  "seg 103 = ''00000000-0000-0000-0000-000000000067''" "seg 104 = ''00000000-0000-0000-0000-000000000068''"
  by (simp_all add: seg_simps)

lemmas demo_wiki_simps = demo_wiki_def demo_shared_def demo_db_def org_db.defs demo_tree_page_def demo_rev_def demo_seg

lemmas content_tx_simps = in_tx_def stmt_defs lock_page_def q_GetPageForUpdate_def sql_row_def page_live_def
  validateMoveSpaces_def q_GetSpaceByID_def resolveMoveParent_def q_GetPageByID_def within_iff HasPrefix_def
  revokeSubtreeSharesTx_def wrap_wiki_def q_RevokeSharesByPageSubtree_def q_RevokeSharesByEntity_def revoke_where_def
  in_subtree_def subtree_hit_def subtree_pattern_iff writeShareRevokedTx_def q_CreateAuditEvent_def
  share_revoked_event_def user_exists_def revoke_at_def applyPageMove_def q_MovePageToSpace_def
  q_MovePageDescendantsToSpace_def page_exists_def opt_exists_def Let_def

lemma demo_move_result:
  "MovePage (pg_content_tx seg) (\<lambda>k. 500 + of_nat k) 60 demo_move demo_wiki =
     (Inr \<lparr>mpr_CrossSpace = True, mpr_RevokedShares = 1\<rparr>, demo_after)"
proof -
  have "fst (MovePage (pg_content_tx seg) (\<lambda>k. 500 + of_nat k) 60 demo_move demo_wiki) =
     Inr \<lparr>mpr_CrossSpace = True, mpr_RevokedShares = 1\<rparr>"
    by (simp add: MovePage_def MovePageTx_def content_tx_simps demo_wiki_simps demo_move_def)
  then show ?thesis by (simp add: demo_after_def prod_eq_iff)
qed

section \<open>Moving across spaces\<close>

text \<open>What moves with a page: itself and the live pages whose path lies strictly below its own, in its
  space; and the shares on them.\<close>

definition moves_with :: "PageRow \<Rightarrow> PageRow \<Rightarrow> bool" where
  "moves_with page x \<longleftrightarrow> x = page \<or> in_moved page x"

definition share_of_moved :: "'x work_db_scheme \<Rightarrow> PageRow \<Rightarrow> EntityShareRow \<Rightarrow> bool" where
  "share_of_moved db page s \<longleftrightarrow>
     sh_entity_type s = ''page'' \<and> (\<exists>x \<in> set (live_pages db). moves_with page x \<and> pg_id x = sh_entity s)"

lemma share_of_moved_iff:
  assumes ok: "move_ok us db inp page par np"
  shows "subtree_share db (pg_space page) (pg_id page) (pg_path page) = share_of_moved db page"
proof
  fix s
  let ?hit = "subtree_hit (pg_space page) (pg_id page) (SubtreeLikePattern (pg_path page))"
  have 1: "?hit x \<longleftrightarrow> moves_with page x" if "x \<in> set (live_pages db)" for x
    using move_root [OF ok that] that page_live_def [of "pg_id page" x]
    by (auto simp: subtree_hit_def moves_with_def in_moved_def subtree_pattern_iff live_pages_iff)
  have 2: "x \<in> set (live_pages db)" if "?hit x" "x \<in> set (pages db)" for x
    using that by (simp add: subtree_hit_def live_pages_iff)
  have 3: "x \<in> set (pages db)" if "x \<in> set (live_pages db)" for x
    using that by (simp add: live_pages_iff)
  show "subtree_share db (pg_space page) (pg_id page) (pg_path page) s = share_of_moved db page s"
    unfolding subtree_share_def in_subtree_def list_ex_iff share_of_moved_def using 1 2 3 by metis
qed

lemma moves_with_row:
  assumes ok: "move_ok us db inp page par np" and x: "x \<in> set (live_pages db)"
  shows "moves_with page x \<Longrightarrow> pg_space (moved_row inp page par np x) = mpi_TargetSpaceID inp"
    and "\<not> moves_with page x \<Longrightarrow> moved_row inp page par np x = x"
proof -
  note root = move_root [OF ok x]
  show "moves_with page x \<Longrightarrow> pg_space (moved_row inp page par np x) = mpi_TargetSpaceID inp"
    using moved_row_cases(1) [of page x inp par np] moved_row_cases(2) [of page x inp par np] root
    by (auto simp: moves_with_def)
  show "\<not> moves_with page x \<Longrightarrow> moved_row inp page par np x = x"
    using moved_row_cases(3) root by (auto simp: moves_with_def)
qed

lemma revoked_events_cover:
  assumes "s \<in> set ss"
  shows "\<exists>e \<in> set (revoked_events fresh k actor reason (map (revoke_at now) ss)). au_action e = ''share.revoked'' \<and>
    au_entity_id e = sh_id s \<and> au_actor e = Some actor \<and> au_org e = sh_org s"
  using assms
proof (induction ss arbitrary: k)
  case (Cons x xs)
  have h: "revoked_events fresh k actor reason (map (revoke_at now) (x # xs)) =
      share_revoked_event (fresh k) actor reason (revoke_at now x) #
      revoked_events fresh (Suc k) actor reason (map (revoke_at now) xs)"
    by (simp add: revoked_events_def)
  show ?case
  proof (cases "s = x")
    case True
    then show ?thesis unfolding h by (simp add: share_revoked_event_def)
  next
    case False
    with Cons.prems Cons.IH [of "Suc k"] show ?thesis unfolding h by auto
  qed
qed simp

lemma move_takes_or_keeps:
  assumes ok: "move_ok us db inp page par np" and pgs: "pages db' = map (moved_row inp page par np) (pages db)"
    and x: "x \<in> set (live_pages db)"
  shows "if moves_with page x
     then \<exists>x' \<in> set (live_pages db'). pg_id x' = pg_id x \<and> pg_space x' = mpi_TargetSpaceID inp
     else x \<in> set (live_pages db')"
proof -
  have lives: "moved_row inp page par np x \<in> set (live_pages db')"
    using x by (auto simp: live_pages_iff pgs moved_row_fields)
  show ?thesis
  proof (cases "moves_with page x")
    case True
    then show ?thesis using lives moves_with_row(1) [OF ok x True] moved_row_fields(1) by metis
  next
    case False
    then show ?thesis using lives moves_with_row(2) [OF ok x False] by simp
  qed
qed

lemma move_relocates:
  assumes us: "uuid_text us" and t: "page_tree us db"
    and m: "MovePage (pg_content_tx us) fresh now inp db = (Inr res, db')"
  shows "\<exists>page \<in> set (live_pages db). pg_id page = mpi_PageID inp \<and>
    mpr_CrossSpace res = (pg_space page \<noteq> mpi_TargetSpaceID inp) \<and>
    (\<forall>x \<in> set (live_pages db). if moves_with page x
       then \<exists>x' \<in> set (live_pages db'). pg_id x' = pg_id x \<and> pg_space x' = mpi_TargetSpaceID inp
       else x \<in> set (live_pages db')) \<and>
    (if mpr_CrossSpace res
     then entity_shares db' = revoke_rows now (share_of_moved db page) (entity_shares db) \<and>
       mpr_RevokedShares res = length (unrevoked (share_of_moved db page) (entity_shares db)) \<and>
       (\<forall>s \<in> set (unrevoked (share_of_moved db page) (entity_shares db)).
          \<exists>e \<in> set (audit_log db'). au_action e = ''share.revoked'' \<and> au_entity_id e = sh_id s \<and>
            au_actor e = Some (mpi_ActorID inp) \<and> au_org e = sh_org s)
     else entity_shares db' = entity_shares db \<and> audit_log db' = audit_log db)"
proof -
  from m have "MovePageTx us fresh now inp db = (Inr res, db')" by (simp add: MovePage_def)
  then show ?thesis
  proof (rule MovePageTx_Inr [OF us])
    fix page par np
    assume page: "page \<in> set (live_pages db)" "pg_id page = mpi_PageID inp"
      and "resolveMoveParent us inp page db = Inr (par, np)" "\<forall>q. par = Some q \<longrightarrow> page_exists db q"
      and cross: "mpr_CrossSpace res = (pg_space page \<noteq> mpi_TargetSpaceID inp)"
    then have ok: "move_ok us db inp page par np" using us t by (simp add: move_ok_def)
    note sh = share_of_moved_iff [OF ok]
    assume "mpr_RevokedShares res = (if mpr_CrossSpace res
           then length (unrevoked (subtree_share db (pg_space page) (pg_id page) (pg_path page)) (entity_shares db)) else 0)"
    then have n: "mpr_CrossSpace res \<Longrightarrow> mpr_RevokedShares res = length (unrevoked (share_of_moved db page) (entity_shares db))"
      by (simp add: sh)
    assume "db' = db\<lparr>pages := map (moved_row inp page par np) (pages db),
       entity_shares := (if mpr_CrossSpace res
         then revoke_rows now (subtree_share db (pg_space page) (pg_id page) (pg_path page)) (entity_shares db)
         else entity_shares db),
       audit_log := audit_log db @ (if mpr_CrossSpace res
         then revoked_events fresh 0 (mpi_ActorID inp) ''entity_moved''
           (map (revoke_at now) (unrevoked (subtree_share db (pg_space page) (pg_id page) (pg_path page)) (entity_shares db)))
         else [])\<rparr>"
    then have pgs: "pages db' = map (moved_row inp page par np) (pages db)"
      and es: "entity_shares db' = (if mpr_CrossSpace res then revoke_rows now (share_of_moved db page) (entity_shares db)
         else entity_shares db)"
      and au: "audit_log db' = audit_log db @ (if mpr_CrossSpace res then revoked_events fresh 0 (mpi_ActorID inp)
         ''entity_moved'' (map (revoke_at now) (unrevoked (share_of_moved db page) (entity_shares db))) else [])"
      unfolding sh by simp_all
    note rows = move_takes_or_keeps [OF ok pgs]
    show ?thesis
    proof (intro bexI [OF _ page(1)] conjI)
      show "if mpr_CrossSpace res
       then entity_shares db' = revoke_rows now (share_of_moved db page) (entity_shares db) \<and>
         mpr_RevokedShares res = length (unrevoked (share_of_moved db page) (entity_shares db)) \<and>
         (\<forall>s \<in> set (unrevoked (share_of_moved db page) (entity_shares db)).
          \<exists>e \<in> set (audit_log db'). au_action e = ''share.revoked'' \<and> au_entity_id e = sh_id s \<and>
            au_actor e = Some (mpi_ActorID inp) \<and> au_org e = sh_org s)
       else entity_shares db' = entity_shares db \<and> audit_log db' = audit_log db"
        using es au n revoked_events_cover [of _ _ fresh 0 "mpi_ActorID inp" "''entity_moved''" now] by auto
    qed (use page(2) cross rows in blast)+
  qed
qed

text \<open>
  C23. A move relocates whole subtrees and carries no share across a space boundary, in one
  transaction. A move that does not succeed, at whatever statement, leaves the database as it was:
  nothing moved, no share revoked, no event written. When it succeeds, exactly the page and the live
  pages below it land in the target space; no other live page changes. A move within the space
  touches no share. A move across spaces revokes every unrevoked share on any page that moved (the
  result counts them), leaves every other share as it was, and writes one audit event per revoked
  share, attributed to the actor.
\<close>

theorem cross_space_move_revokes:
  assumes us: "uuid_text us" and t: "page_tree us db"
  shows "case MovePage (pg_content_tx us) fresh now inp db of
    (Inl e, db') \<Rightarrow> db' = db
  | (Inr res, db') \<Rightarrow>
      \<exists>page \<in> set (live_pages db). pg_id page = mpi_PageID inp \<and>
      mpr_CrossSpace res = (pg_space page \<noteq> mpi_TargetSpaceID inp) \<and>
      (\<forall>x \<in> set (live_pages db). if moves_with page x
         then \<exists>x' \<in> set (live_pages db'). pg_id x' = pg_id x \<and> pg_space x' = mpi_TargetSpaceID inp
         else x \<in> set (live_pages db')) \<and>
      (if mpr_CrossSpace res
       then entity_shares db' = revoke_rows now (share_of_moved db page) (entity_shares db) \<and>
         mpr_RevokedShares res = length (unrevoked (share_of_moved db page) (entity_shares db)) \<and>
         (\<forall>s \<in> set (unrevoked (share_of_moved db page) (entity_shares db)).
            \<exists>e \<in> set (audit_log db'). au_action e = ''share.revoked'' \<and> au_entity_id e = sh_id s \<and>
              au_actor e = Some (mpi_ActorID inp) \<and> au_org e = sh_org s)
       else entity_shares db' = entity_shares db \<and> audit_log db' = audit_log db)"
proof (cases "MovePage (pg_content_tx us) fresh now inp db")
  case (Pair r db')
  show ?thesis
  proof (cases r)
    case (Inl e)
    with Pair have "db' = db" by (simp add: MovePage_def MovePageTx_def in_tx_Inl)
    with Pair Inl show ?thesis by simp
  next
    case (Inr res)
    show ?thesis unfolding Pair Inr prod.case sum.case by (rule move_relocates [OF us t Pair [unfolded Inr]])
  qed
qed

theorem cross_space_move_revokes_witness:
  "\<exists>page \<in> set (live_pages demo_wiki). pg_id page = 102 \<and>
     entity_shares demo_after = revoke_rows 60 (share_of_moved demo_wiki page) (entity_shares demo_wiki)"
proof -
  note all = cross_space_move_revokes [OF canonical_text_ok demo_wiki_tree, where fresh = "\<lambda>k. 500 + of_nat k"
      and now = 60 and inp = demo_move, unfolded demo_move_result prod.case sum.case]
  then show ?thesis by (auto simp: demo_move_def)
qed

section \<open>Deleting through a space\<close>

lemma revoke_rows_revoked:
  assumes "s \<in> set (revoke_rows now P ss)" and "P s" and "\<And>x. P (revoke_at now x) = P x"
  shows "sh_revoked s \<noteq> None"
  using assms(1,2) unfolding revoke_rows_def by (auto split: if_splits)

lemma q_SoftDeletePageInSpace_Inr:
  assumes "q_SoftDeletePageInSpace i sp db = Inr ((), d)"
  shows "d = db\<lparr>pages := map (\<lambda>p. if pg_id p = i \<and> pg_space p = sp then p\<lparr>pg_deleted := True\<rparr> else p) (pages db)\<rparr>"
proof -
  have "(\<lambda>p. if page_live i p \<and> pg_space p = sp then p\<lparr>pg_deleted := True\<rparr> else p) =
      (\<lambda>p. if pg_id p = i \<and> pg_space p = sp then p\<lparr>pg_deleted := True\<rparr> else p)"
  proof (rule ext)
    show "(if page_live i p \<and> pg_space p = sp then p\<lparr>pg_deleted := True\<rparr> else p) =
        (if pg_id p = i \<and> pg_space p = sp then p\<lparr>pg_deleted := True\<rparr> else p)" for p :: PageRow
      by (cases p) (auto simp: page_live_def)
  qed
  moreover have "d = db\<lparr>pages := map (\<lambda>p. if page_live i p \<and> pg_space p = sp then p\<lparr>pg_deleted := True\<rparr> else p) (pages db)\<rparr>"
    using assms by (auto simp: q_SoftDeletePageInSpace_def split: if_splits)
  ultimately show ?thesis by simp
qed

text \<open>
  C24. What deleting a page does, exactly. A delete that reports success marks the page deleted if it
  lives in the named space and otherwise marks nothing; either way it revokes every unrevoked share
  of that page id, no other share, and writes an audit event for each. So a page the space does not
  hold survives the delete but loses its shares: the statement that deletes is scoped to the space,
  the statement that revokes is not.
\<close>

theorem DeletePage_exact:
  assumes d: "DeletePage (pg_content_tx us) fresh now i sp actor db = (Inr (), db')"
  shows "pages db' = map (\<lambda>p. if pg_id p = i \<and> pg_space p = sp then p\<lparr>pg_deleted := True\<rparr> else p) (pages db) \<and>
    entity_shares db' = revoke_rows now (\<lambda>s. sh_entity_type s = ''page'' \<and> sh_entity s = i) (entity_shares db) \<and>
    (\<forall>s \<in> set (entity_shares db'). sh_entity_type s = ''page'' \<and> sh_entity s = i \<longrightarrow> sh_revoked s \<noteq> None) \<and>
    (\<forall>s \<in> set (unrevoked (\<lambda>s. sh_entity_type s = ''page'' \<and> sh_entity s = i) (entity_shares db)).
       \<exists>e \<in> set (audit_log db'). au_action e = ''share.revoked'' \<and> au_entity_id e = sh_id s \<and>
         au_actor e = Some actor \<and> au_org e = sh_org s)"
proof -
  from d obtain n where n: "deleteEntityAndRevokeShares fresh now ShareEntityPage i actor (q_SoftDeletePageInSpace i sp) db = (Inr n, db')"
    by (auto simp: DeletePage_def DeletePageAndRevokeShares_def split: prod.splits sum.splits)
  show ?thesis
  proof (rule deleteEntity_Inr [OF n])
    let ?P = "\<lambda>s. sh_entity_type s = ''page'' \<and> sh_entity s = i"
    fix d assume q: "q_SoftDeletePageInSpace i sp db = Inr ((), d)"
      and e: "db' = d\<lparr>entity_shares := revoke_rows now ?P (entity_shares d),
        audit_log := audit_log d @ revoked_events fresh 0 actor ''entity_deleted''
          (map (revoke_at now) (unrevoked ?P (entity_shares d)))\<rparr>"
    from q_SoftDeletePageInSpace_Inr [OF q] have d: "d = db\<lparr>pages := map (\<lambda>p. if pg_id p = i \<and> pg_space p = sp then p\<lparr>pg_deleted := True\<rparr> else p) (pages db)\<rparr>" .
    have es: "entity_shares d = entity_shares db" by (simp add: d)
    show ?thesis
    proof (intro conjI)
      show "\<forall>s \<in> set (entity_shares db'). ?P s \<longrightarrow> sh_revoked s \<noteq> None"
      proof (intro ballI impI)
        fix s assume "s \<in> set (entity_shares db')" and P: "?P s"
        then have "s \<in> set (revoke_rows now ?P (entity_shares d))" unfolding e by simp
        then show "sh_revoked s \<noteq> None" using P by (rule revoke_rows_revoked [where P = ?P]) simp
      qed
      show "\<forall>s \<in> set (unrevoked ?P (entity_shares db)). \<exists>e \<in> set (audit_log db'). au_action e = ''share.revoked'' \<and>
          au_entity_id e = sh_id s \<and> au_actor e = Some actor \<and> au_org e = sh_org s"
      proof
        fix s assume "s \<in> set (unrevoked ?P (entity_shares db))"
        then have "\<exists>x \<in> set (revoked_events fresh 0 actor ''entity_deleted'' (map (revoke_at now) (unrevoked ?P (entity_shares d)))).
            au_action x = ''share.revoked'' \<and> au_entity_id x = sh_id s \<and> au_actor x = Some actor \<and> au_org x = sh_org s"
          unfolding es by (rule revoked_events_cover)
        then show "\<exists>e \<in> set (audit_log db'). au_action e = ''share.revoked'' \<and>
            au_entity_id e = sh_id s \<and> au_actor e = Some actor \<and> au_org e = sh_org s"
          unfolding e by auto
      qed
      show "pages db' = map (\<lambda>p. if pg_id p = i \<and> pg_space p = sp then p\<lparr>pg_deleted := True\<rparr> else p) (pages db)"
        unfolding e d by simp
      show "entity_shares db' = revoke_rows now ?P (entity_shares db)" unfolding es [symmetric] e by simp
    qed
  qed
qed

definition demo_foreign_delete :: work_db where
  "demo_foreign_delete = snd (DeletePage (pg_content_tx seg) (\<lambda>k. 500 + of_nat k) 60 102 32 10 demo_wiki)"

theorem DeletePage_exact_witness:
  "pages demo_foreign_delete = pages demo_wiki \<and>
   None \<notin> sh_revoked ` set (filter (\<lambda>s. sh_entity_type s = ''page'' \<and> sh_entity s = 102) (entity_shares demo_foreign_delete))"
proof -
  have "fst (DeletePage (pg_content_tx seg) (\<lambda>k. 500 + of_nat k) 60 102 32 10 demo_wiki) = Inr ()"
    by (simp add: DeletePage_def DeletePageAndRevokeShares_def deleteEntityAndRevokeShares_def content_tx_simps
        q_SoftDeletePageInSpace_def demo_wiki_simps)
  then have d: "DeletePage (pg_content_tx seg) (\<lambda>k. 500 + of_nat k) 60 102 32 10 demo_wiki = (Inr (), demo_foreign_delete)"
    by (simp add: demo_foreign_delete_def prod_eq_iff)
  have "map (\<lambda>p. if pg_id p = 102 \<and> pg_space p = 32 then p\<lparr>pg_deleted := True\<rparr> else p) (pages demo_wiki) = pages demo_wiki"
    by (simp add: demo_wiki_simps)
  then show ?thesis using DeletePage_exact [OF d] by (auto simp: image_iff)
qed

end
