(* ===== verification/PageSaves.thy ===== *)
theory PageSaves
  imports PageReach
begin

text \<open>
  Saving and its history. The contract of the two page interfaces is the locale \<open>page_store\<close>, over
  the partial map from ids to live pages; in it the service's answers to readers and to competing
  writers are proved once. Below, the generated queries and the transactional adapter are shown to
  meet it, and the revision history of a page is followed through every operation of the page service;
  \<open>PageHistory\<close> adds the document service.
\<close>

section \<open>The contract of the page stores\<close>

definition saved :: "UpdatePageInput \<Rightarrow> PageRow \<Rightarrow> PageRow" where
  "saved inp p = p\<lparr>pg_title := upi_Title inp, pg_content := upi_Content inp, pg_version := pg_version p + 1\<rparr>"

locale page_store =
  fixes st :: "'db PageStore"
    and tx :: "'db ContentTxStore"
    and up :: "'db \<Rightarrow> bool"
    and live :: "'db \<Rightarrow> uuid \<Rightarrow> PageRow option"
  assumes get_law: "up db \<Longrightarrow>
      ps_GetPageByID st db i = (case live db i of None \<Rightarrow> Inl SqlNoRows | Some p \<Rightarrow> Inr p)"
    and get_in_law: "up db \<Longrightarrow>
      ps_GetPageInSpace st db i sp =
        (case live db i of None \<Rightarrow> Inl SqlNoRows | Some p \<Rightarrow> if pg_space p = sp then Inr p else Inl SqlNoRows)"
    and save_done: "up db \<Longrightarrow> ct_UpdatePageContentTx tx rv inp db = (Inr p, db') \<Longrightarrow>
      \<exists>c. live db (upi_PageID inp) = Some c \<and> pg_doc c = None \<and> pg_version c = upi_ExpectedVersion inp \<and>
        pg_version c \<noteq> int4_max \<and> p = saved inp c \<and> up db' \<and> live db' = (live db)(upi_PageID inp \<mapsto> p)"
    and save_failed: "up db \<Longrightarrow> ct_UpdatePageContentTx tx rv inp db = (Inl e, db') \<Longrightarrow>
      db' = db \<and>
      (e = ErrPageNotFound \<longleftrightarrow> live db (upi_PageID inp) = None) \<and>
      (e = ErrPageIsDocumentBacked \<longleftrightarrow> (\<exists>c. live db (upi_PageID inp) = Some c \<and> pg_doc c \<noteq> None)) \<and>
      (e = ErrVersionConflict \<longleftrightarrow>
         (\<exists>c. live db (upi_PageID inp) = Some c \<and> pg_doc c = None \<and> pg_version c \<noteq> upi_ExpectedVersion inp))"
begin

lemma get_in_space_iff:
  assumes "up db"
  shows "GetPageInSpace st db sp i = Inr p \<longleftrightarrow> live db i = Some p \<and> pg_space p = sp"
  using assms by (auto simp: GetPageInSpace_def page_or_missing_def get_in_law split: option.splits)

text \<open>A page of another space answers exactly as a page that does not exist.\<close>

lemma foreign_page_missing:
  assumes "up db" and "\<And>p. live db i = Some p \<Longrightarrow> pg_space p \<noteq> sp"
  shows "GetPageInSpace st db sp i = Inl ErrPageNotFound"
  using assms by (auto simp: GetPageInSpace_def page_or_missing_def get_in_law split: option.splits)

lemma save_iff:
  assumes "up db" and "UpdatePage tx rv inp db = (Inr p, db')"
  shows "TrimSpace (upi_Title inp) \<noteq> '''' \<and>
    (\<exists>c. live db (upi_PageID inp) = Some c \<and> pg_doc c = None \<and> pg_version c = upi_ExpectedVersion inp \<and>
      pg_version c \<noteq> int4_max \<and> p = saved inp c \<and> up db' \<and> live db' = (live db)(upi_PageID inp \<mapsto> p))"
  using save_done [OF assms(1)] assms(2) by (auto simp: UpdatePage_def split: if_splits)

lemma save_unchanged:
  assumes "up db" and "UpdatePage tx rv inp db = (Inl e, db')"
  shows "db' = db"
  using save_failed [OF assms(1)] assms(2) by (auto simp: UpdatePage_def split: if_splits)

lemma version_moves: "(v::32 word) + 1 \<noteq> v"
  by simp

text \<open>Of two saves that started from the same version the second is refused and changes nothing.\<close>

lemma second_save_conflicts:
  assumes up: "up db" and w: "UpdatePage tx rv inp db = (Inr p, db1)"
    and same: "upi_PageID inp' = upi_PageID inp" "upi_ExpectedVersion inp' = upi_ExpectedVersion inp"
    and title: "TrimSpace (upi_Title inp') \<noteq> ''''"
  shows "UpdatePage tx rv' inp' db1 = (Inl ErrVersionConflict, db1)"
proof -
  from save_iff [OF up w] obtain c where c: "pg_doc c = None" "pg_version c = upi_ExpectedVersion inp"
    and p: "p = saved inp c" and up1: "up db1" and l: "live db1 = (live db)(upi_PageID inp \<mapsto> p)" by blast
  have now: "live db1 (upi_PageID inp') = Some p" by (simp add: l same)
  have moved: "pg_version p \<noteq> upi_ExpectedVersion inp'" "pg_doc p = None"
    using c version_moves [of "pg_version c"] by (simp_all add: p saved_def same)
  obtain r d where r: "ct_UpdatePageContentTx tx rv' inp' db1 = (r, d)" by (rule prod.exhaust)
  show ?thesis
  proof (cases r)
    case (Inr q)
    with save_done [OF up1 r [unfolded Inr]] now moved show ?thesis by auto
  next
    case (Inl e)
    from save_failed [OF up1 r [unfolded Inl]] have d: "d = db1"
      and e: "e = ErrVersionConflict \<longleftrightarrow> (\<exists>c. live db1 (upi_PageID inp') = Some c \<and> pg_doc c = None \<and>
         pg_version c \<noteq> upi_ExpectedVersion inp')" by blast+
    have "e = ErrVersionConflict" using e now moved by blast
    then show ?thesis using r Inl d title by (simp add: UpdatePage_def)
  qed
qed

text \<open>The conflict report shows the page as it is, only through its own space.\<close>

lemma conflict_report:
  assumes up: "up db" and w: "UpdatePageOrConflict st tx rv inp db = (Inl (ErrVersionConflict, Some d), db')"
  shows "db' = db \<and> cd_PageID d = upi_PageID inp \<and> cd_ExpectedVersion d = upi_ExpectedVersion inp \<and>
    live db (upi_PageID inp) = Some (cd_CurrentPage d) \<and> pg_space (cd_CurrentPage d) = upi_SpaceID inp \<and>
    pg_version (cd_CurrentPage d) \<noteq> upi_ExpectedVersion inp"
proof -
  obtain r d1 where r: "UpdatePage tx rv inp db = (r, d1)" by (rule prod.exhaust)
  with w have e: "r = Inl ErrVersionConflict"
    by (auto simp: UpdatePageOrConflict_def split: sum.splits if_splits)
  have d1: "d1 = db" by (rule save_unchanged [OF up r [unfolded e]])
  from w r e obtain c where g: "GetPageInSpace st d1 (upi_SpaceID inp) (upi_PageID inp) = Inr c"
    and d: "d = \<lparr>cd_PageID = upi_PageID inp, cd_ExpectedVersion = upi_ExpectedVersion inp, cd_CurrentPage = c\<rparr>"
    and db': "db' = d1"
    by (auto simp: UpdatePageOrConflict_def split: sum.splits)
  have c: "live db (upi_PageID inp) = Some c" "pg_space c = upi_SpaceID inp"
    using g get_in_space_iff [OF up] by (simp_all add: d1)
  have "ct_UpdatePageContentTx tx rv inp db = (Inl ErrVersionConflict, db)"
    using r e d1 by (auto simp: UpdatePage_def split: if_splits)
  from save_failed [OF up this] c have "pg_version c \<noteq> upi_ExpectedVersion inp" by auto
  with c show ?thesis by (simp add: d db' d1)
qed

end

section \<open>The adapters meet the contract\<close>

definition live_page :: "'x work_db_scheme \<Rightarrow> uuid \<Rightarrow> PageRow option" where
  "live_page db i = List.find (page_live i) (pages db)"

definition store_up :: "'x work_db_scheme \<Rightarrow> bool" where
  "store_up db \<longleftrightarrow> db_up db \<and> distinct (map pg_id (pages db))"

lemma live_page_in:
  assumes "distinct (map pg_id (pages db))"
  shows "live_page db i = Some p \<longleftrightarrow> p \<in> set (live_pages db) \<and> pg_id p = i"
proof
  assume "live_page db i = Some p"
  then show "p \<in> set (live_pages db) \<and> pg_id p = i"
    by (auto simp: live_page_def page_live_def live_pages_iff dest: find_Some_in)
next
  assume "p \<in> set (live_pages db) \<and> pg_id p = i"
  then show "live_page db i = Some p"
    unfolding live_page_def using assms
    by (intro find_the_unique) (auto simp: page_live_def live_pages_iff dest: distinct_key)
qed

lemma get_in_space_row:
  assumes "store_up db"
  shows "q_GetPageInSpace db i sp =
    (case live_page db i of None \<Rightarrow> Inl SqlNoRows | Some p \<Rightarrow> if pg_space p = sp then Inr p else Inl SqlNoRows)"
proof -
  have up: "db_up db" and dis: "distinct (map pg_id (pages db))" using assms by (simp_all add: store_up_def)
  let ?f = "List.find (\<lambda>p. pg_id p = i \<and> pg_space p = sp \<and> \<not> pg_deleted p) (pages db)"
  have "?f = Some p \<longleftrightarrow> live_page db i = Some p \<and> pg_space p = sp" for p
  proof
    assume "?f = Some p"
    then show "live_page db i = Some p \<and> pg_space p = sp"
      unfolding live_page_in [OF dis] by (auto simp: live_pages_iff dest: find_Some_in)
  next
    assume "live_page db i = Some p \<and> pg_space p = sp"
    then have "p \<in> set (pages db)" "\<not> pg_deleted p" "pg_id p = i" "pg_space p = sp"
      unfolding live_page_in [OF dis] by (auto simp: live_pages_iff)
    then show "?f = Some p" using dis by (intro find_the_unique) (auto dest: distinct_key)
  qed
  note iff = this
  show ?thesis
  proof (cases ?f)
    case None
    then have "\<not> (live_page db i = Some p \<and> pg_space p = sp)" for p using iff [of p] by simp
    then show ?thesis using up None by (simp add: q_GetPageInSpace_def sql_row_def split: option.split)
  next
    case (Some p)
    then show ?thesis using up iff [of p] by (simp add: q_GetPageInSpace_def sql_row_def)
  qed
qed

lemma live_page_saved:
  assumes dis: "distinct (map pg_id (pages db))" and c: "live_page db (upi_PageID inp) = Some c"
    and v: "pg_version c = upi_ExpectedVersion inp"
    and db': "pages db' = map (\<lambda>p. if page_live (upi_PageID inp) p \<and> pg_version p = upi_ExpectedVersion inp
       then saved inp p else p) (pages db)"
  shows "live_page db' = (live_page db)(upi_PageID inp \<mapsto> saved inp c)"
    and "distinct (map pg_id (pages db'))"
proof -
  let ?f = "\<lambda>p. if page_live (upi_PageID inp) p \<and> pg_version p = upi_ExpectedVersion inp then saved inp p else p"
  have keep: "pg_id (?f p) = pg_id p" "pg_deleted (?f p) = pg_deleted p" for p by (simp_all add: saved_def)
  have "map pg_id (pages db') = map pg_id (pages db)" unfolding db' map_map comp_def keep ..
  then show dis': "distinct (map pg_id (pages db'))" using dis by simp
  have lv: "page_live i (?f p) = page_live i p" for i p by (auto simp: page_live_def saved_def)
  have find: "List.find (page_live i) (map ?f ps) = map_option ?f (List.find (page_live i) ps)" for i ps
    by (induction ps) (simp_all only: list.map find.simps lv option.map if_True if_False split: if_split, simp_all)
  show "live_page db' = (live_page db)(upi_PageID inp \<mapsto> saved inp c)"
  proof
    fix j
    have p: "live_page db' j = map_option ?f (live_page db j)" unfolding live_page_def db' by (rule find)
    show "live_page db' j = ((live_page db)(upi_PageID inp \<mapsto> saved inp c)) j"
    proof (cases "j = upi_PageID inp")
      case True
      then show ?thesis using p c v live_page_in [OF dis, of j c] by (simp add: page_live_def live_pages_iff)
    next
      case False
      have "?f x = x" if "live_page db j = Some x" for x
        using live_page_in [OF dis, of j x] that False by (simp add: page_live_def)
      then show ?thesis using p False by (cases "live_page db j") simp_all
    qed
  qed
qed

lemma live_page_lock: "db_up db \<Longrightarrow> lock_page db i = (case live_page db i of None \<Rightarrow> Inl ErrPageNotFound | Some p \<Rightarrow> Inr p)"
  by (simp add: lock_page_def q_GetPageForUpdate_def sql_row_def live_page_def split: option.split)

lemma wrap_wiki_Inl: "wrap_wiki w m db = Inl e \<longleftrightarrow> e = ErrWikiDatabase w \<and> (\<exists>x. m db = Inl x)"
  by (cases "m db") (auto simp: wrap_wiki_def)

lemma UpdatePageContentTx_Inl:
  assumes up: "store_up db" and u: "UpdatePageContentTx rv inp db = (Inl e, db')"
  shows "db' = db \<and>
      (e = ErrPageNotFound \<longleftrightarrow> live_page db (upi_PageID inp) = None) \<and>
      (e = ErrPageIsDocumentBacked \<longleftrightarrow> (\<exists>c. live_page db (upi_PageID inp) = Some c \<and> pg_doc c \<noteq> None)) \<and>
      (e = ErrVersionConflict \<longleftrightarrow>
         (\<exists>c. live_page db (upi_PageID inp) = Some c \<and> pg_doc c = None \<and> pg_version c \<noteq> upi_ExpectedVersion inp))"
proof (cases "live_page db (upi_PageID inp)")
  case None
  then show ?thesis using u up
    by (auto simp: UpdatePageContentTx_def in_tx_Inl stmt_run live_page_lock store_up_def)
next
  case (Some c)
  have lk: "lock_page db (upi_PageID inp) = Inr c" using Some up by (simp add: live_page_lock store_up_def)
  show ?thesis
  proof (cases "pg_doc c = None \<and> pg_version c = upi_ExpectedVersion inp")
    case False
    then show ?thesis using u Some by (auto simp: UpdatePageContentTx_def in_tx_Inl stmt_run lk)
  next
    case True
    have lf: "List.find (page_live (upi_PageID inp)) (pages db) = Some c" using Some by (simp add: live_page_def)
    have "List.find (\<lambda>p. page_live (upi_PageID inp) p \<and> pg_version p = upi_ExpectedVersion inp) (pages db) = Some c"
      using lf conjunct2 [OF True] by (rule find_and)
    then have q: "q_UpdatePageContent (upi_PageID inp) (upi_ExpectedVersion inp) (upi_Title inp) (upi_Content inp) db \<noteq> Inl SqlNoRows"
      using up by (auto simp: q_UpdatePageContent_def Let_def store_up_def)
    have "\<exists>w. e = ErrWikiDatabase w"
      using u q True by (auto simp: UpdatePageContentTx_def in_tx_Inl stmt_run lk wrap_wiki_Inl split: sum.splits if_splits)
    then show ?thesis using u True Some by (auto simp: UpdatePageContentTx_def in_tx_Inl)
  qed
qed

interpretation pg_pages: page_store pg_page_store "pg_content_tx us" store_up live_page
proof
  fix db db' :: "'a work_db_scheme" and i sp rv inp p e
  show "store_up db \<Longrightarrow> ps_GetPageByID pg_page_store db i =
      (case live_page db i of None \<Rightarrow> Inl SqlNoRows | Some p \<Rightarrow> Inr p)"
    by (simp add: q_GetPageByID_def sql_row_def store_up_def live_page_def)
  show "store_up db \<Longrightarrow> ps_GetPageInSpace pg_page_store db i sp =
      (case live_page db i of None \<Rightarrow> Inl SqlNoRows | Some p \<Rightarrow> if pg_space p = sp then Inr p else Inl SqlNoRows)"
    unfolding pg_page_store_simps by (rule get_in_space_row)
  show "\<exists>c. live_page db (upi_PageID inp) = Some c \<and> pg_doc c = None \<and> pg_version c = upi_ExpectedVersion inp \<and>
        pg_version c \<noteq> int4_max \<and> p = saved inp c \<and> store_up db' \<and> live_page db' = (live_page db)(upi_PageID inp \<mapsto> p)"
    if up: "store_up db" and u: "ct_UpdatePageContentTx (pg_content_tx us) rv inp db = (Inr p, db')"
  proof (rule UpdatePageContentTx_Inr [OF u [unfolded pg_content_tx_simps]])
    fix c assume c: "c \<in> set (live_pages db)" "pg_id c = upi_PageID inp" "pg_doc c = None"
      "pg_version c = upi_ExpectedVersion inp" "pg_version c \<noteq> int4_max"
      and p: "p = c\<lparr>pg_title := upi_Title inp, pg_content := upi_Content inp, pg_version := pg_version c + 1\<rparr>"
    assume d: "db' = db\<lparr>pages := map (\<lambda>p. if page_live (upi_PageID inp) p \<and> pg_version p = upi_ExpectedVersion inp
           then p\<lparr>pg_title := upi_Title inp, pg_content := upi_Content inp, pg_version := pg_version p + 1\<rparr> else p) (pages db),
         page_revisions := page_revisions db @
           [\<lparr>pr_id = rv, pr_page = pg_id p, pr_version = pg_version p, pr_title = pg_title p,
             pr_content = pg_content p, pr_doc = None, pr_author = upi_AuthorID inp\<rparr>]\<rparr>"
    have dis: "distinct (map pg_id (pages db))" using up by (simp add: store_up_def)
    have l: "live_page db (upi_PageID inp) = Some c" using c by (simp add: live_page_in [OF dis])
    have pgs: "pages db' = map (\<lambda>p. if page_live (upi_PageID inp) p \<and> pg_version p = upi_ExpectedVersion inp
       then saved inp p else p) (pages db)" by (simp add: d saved_def)
    note s = live_page_saved [OF dis l c(4) pgs]
    have "db_up db'" using up by (simp add: d store_up_def)
    then show ?thesis using c l s by (auto simp: p saved_def store_up_def)
  qed
  show "db' = db \<and>
      (e = ErrPageNotFound \<longleftrightarrow> live_page db (upi_PageID inp) = None) \<and>
      (e = ErrPageIsDocumentBacked \<longleftrightarrow> (\<exists>c. live_page db (upi_PageID inp) = Some c \<and> pg_doc c \<noteq> None)) \<and>
      (e = ErrVersionConflict \<longleftrightarrow>
         (\<exists>c. live_page db (upi_PageID inp) = Some c \<and> pg_doc c = None \<and> pg_version c \<noteq> upi_ExpectedVersion inp))"
    if "store_up db" and "ct_UpdatePageContentTx (pg_content_tx us) rv inp db = (Inl e, db')"
    using that unfolding pg_content_tx_simps by (rule UpdatePageContentTx_Inl)
qed

text \<open>
  C25. No save is lost to another that started from the same version. Once a save has succeeded, any
  later save carrying the same expected version is refused without changing anything, and the caller
  who may see the page is handed the page the first save wrote, next to the version they thought was
  current; a caller who names another space learns only that the page does not exist there.
\<close>

theorem second_save_is_told:
  assumes up: "store_up db"
    and w: "UpdatePage (pg_content_tx us) rv inp db = (Inr p, db1)"
    and same: "upi_PageID inp' = upi_PageID inp" "upi_ExpectedVersion inp' = upi_ExpectedVersion inp"
    and title: "TrimSpace (upi_Title inp') \<noteq> ''''"
  shows "UpdatePageOrConflict pg_page_store (pg_content_tx us) rv' inp' db1 =
     (if pg_space p = upi_SpaceID inp'
      then (Inl (ErrVersionConflict, Some \<lparr>cd_PageID = upi_PageID inp, cd_ExpectedVersion = upi_ExpectedVersion inp,
             cd_CurrentPage = p\<rparr>), db1)
      else (Inl (ErrPageNotFound, None), db1)) \<and>
    pg_title p = upi_Title inp \<and> pg_content p = upi_Content inp"
proof -
  from pg_pages.save_iff [OF up w] obtain c where p: "p = saved inp c" and up1: "store_up db1"
    and l: "live_page db1 = (live_page db)(upi_PageID inp \<mapsto> p)" by blast
  have now: "live_page db1 (upi_PageID inp) = Some p" by (simp add: l)
  have g: "GetPageInSpace pg_page_store db1 (upi_SpaceID inp') (upi_PageID inp) =
      (if pg_space p = upi_SpaceID inp' then Inr p else Inl ErrPageNotFound)"
  proof (cases "pg_space p = upi_SpaceID inp'")
    case True
    then show ?thesis using pg_pages.get_in_space_iff [OF up1] now by simp
  next
    case False
    have "GetPageInSpace pg_page_store db1 (upi_SpaceID inp') (upi_PageID inp) = Inl ErrPageNotFound"
      by (rule pg_pages.foreign_page_missing [OF up1]) (use now False in simp)
    with False show ?thesis by simp
  qed
  show ?thesis
    using pg_pages.second_save_conflicts [OF up w same title]
    by (simp add: UpdatePageOrConflict_def g same p saved_def)
qed

definition demo_save :: "string \<Rightarrow> uuid \<Rightarrow> UpdatePageInput" where
  "demo_save text sp = \<lparr>upi_PageID = 101, upi_SpaceID = sp, upi_ExpectedVersion = 1, upi_Title = ''T'',
     upi_Content = text, upi_AuthorID = 10\<rparr>"

definition demo_saved :: work_db where
  "demo_saved = snd (UpdatePage (pg_content_tx seg) 310 (demo_save ''one'' 31) demo_wiki)"

lemma demo_title: "TrimSpace ''T'' = ''T''"
  by (simp add: TrimSpace_def TrimLeftSpace_def TrimRightSpace_def drop_seqs.simps space_seqs_def HasPrefix_def)

lemma demo_wiki_up: "store_up demo_wiki"
  by (simp add: store_up_def demo_wiki_simps)

lemma demo_save_result:
  "\<exists>p. UpdatePage (pg_content_tx seg) 310 (demo_save ''one'' 31) demo_wiki = (Inr p, demo_saved) \<and> pg_space p = 31"
proof -
  have "\<exists>p. fst (UpdatePage (pg_content_tx seg) 310 (demo_save ''one'' 31) demo_wiki) = Inr p \<and> pg_space p = 31"
    by (simp add: UpdatePage_def demo_save_def demo_title UpdatePageContentTx_def content_tx_simps
        q_UpdatePageContent_def int4_max_def q_CreatePageRevision_def demo_wiki_simps)
  then show ?thesis by (metis demo_saved_def prod.collapse)
qed

theorem second_save_is_told_witness:
  "\<exists>p. UpdatePageOrConflict pg_page_store (pg_content_tx seg) 311 (demo_save ''two'' 31) demo_saved =
     (Inl (ErrVersionConflict, Some \<lparr>cd_PageID = 101, cd_ExpectedVersion = 1, cd_CurrentPage = p\<rparr>), demo_saved) \<and>
   pg_content p = ''one''"
proof -
  obtain p where w: "UpdatePage (pg_content_tx seg) 310 (demo_save ''one'' 31) demo_wiki = (Inr p, demo_saved)" "pg_space p = 31"
    using demo_save_result by blast
  have "UpdatePageOrConflict pg_page_store (pg_content_tx seg) 311 (demo_save ''two'' 31) demo_saved =
     (if pg_space p = upi_SpaceID (demo_save ''two'' 31)
      then (Inl (ErrVersionConflict, Some \<lparr>cd_PageID = upi_PageID (demo_save ''one'' 31),
             cd_ExpectedVersion = upi_ExpectedVersion (demo_save ''one'' 31), cd_CurrentPage = p\<rparr>), demo_saved)
      else (Inl (ErrPageNotFound, None), demo_saved)) \<and>
    pg_title p = upi_Title (demo_save ''one'' 31) \<and> pg_content p = upi_Content (demo_save ''one'' 31)"
    by (rule second_save_is_told [OF demo_wiki_up w(1)]) (simp_all add: demo_save_def demo_title)
  then show ?thesis using w(2) by (simp add: demo_save_def)
qed

section \<open>The history of a page\<close>

definition page_history :: "'x work_db_scheme \<Rightarrow> uuid \<Rightarrow> PageRevisionRow list" where
  "page_history db i = filter (\<lambda>r. pr_page r = i) (page_revisions db)"

text \<open>Versions 1 up to the page's own, in order, none missing and none twice; the last one holds what
  the page holds. The version stays a positive 32-bit integer.\<close>

definition history_complete :: "'x work_db_scheme \<Rightarrow> PageRow \<Rightarrow> bool" where
  "history_complete db p \<longleftrightarrow>
     1 \<le> unat (pg_version p) \<and> unat (pg_version p) < 2 ^ 31 \<and>
     map pr_version (page_history db (pg_id p)) = map word_of_nat [1 ..< Suc (unat (pg_version p))] \<and>
     pr_title (last (page_history db (pg_id p))) = pg_title p \<and>
     pr_content (last (page_history db (pg_id p))) = pg_content p"

definition has_history :: "'x work_db_scheme \<Rightarrow> uuid \<Rightarrow> bool" where
  "has_history db i \<longleftrightarrow> (\<exists>p \<in> set (pages db). pg_id p = i \<and> history_complete db p)"

lemma history_same:
  assumes h: "has_history db i" and f: "\<And>p. pg_id (f p) = pg_id p \<and> pg_version (f p) = pg_version p \<and>
      pg_title (f p) = pg_title p \<and> pg_content (f p) = pg_content p"
    and db': "pages db' = map f (pages db)" "page_history db' i = page_history db i"
  shows "has_history db' i"
proof -
  from h obtain p where p: "p \<in> set (pages db)" "pg_id p = i" "history_complete db p" by (auto simp: has_history_def)
  then have "history_complete db' (f p)" using f [of p] db'(2) by (simp add: history_complete_def)
  then show ?thesis using p f [of p] db'(1) by (auto simp: has_history_def)
qed

lemma unat_next:
  assumes "unat (v::32 word) < 2 ^ 31" and "v \<noteq> int4_max"
  shows "unat (v + 1) = Suc (unat v) \<and> unat (v + 1) < 2 ^ 31"
proof -
  have "unat v \<noteq> 2 ^ 31 - 1"
  proof
    assume "unat v = 2 ^ 31 - 1"
    moreover have "word_of_nat (unat v) = v" by simp
    ultimately have "v = word_of_nat (2 ^ 31 - 1)" by simp
    with assms(2) show False by (simp add: int4_max_def)
  qed
  then have lt: "unat v < 2 ^ 31 - 1" using assms(1) by simp
  have "unat (v + 1) = Suc (unat v)"
    using unat_add_lem [of v 1] lt by simp
  then show ?thesis using lt by simp
qed

text \<open>A write that gives one row its next version and appends the matching revision keeps every history.\<close>

lemma versioned_write_keeps_history:
  assumes dis: "distinct (map pg_id (pages db))" and h: "has_history db i"
    and c: "c \<in> set (pages db)" "hit c" "pg_version c \<noteq> int4_max"
    and one: "\<And>p. hit p \<Longrightarrow> pg_id p = pg_id c"
    and f: "pg_id (f c) = pg_id c" "pg_version (f c) = pg_version c + 1"
    and r: "pr_page r = pg_id c" "pr_version r = pg_version (f c)" "pr_title r = pg_title (f c)" "pr_content r = pg_content (f c)"
    and d: "pages db' = map (\<lambda>p. if hit p then f p else p) (pages db)" "page_revisions db' = page_revisions db @ [r]"
  shows "has_history db' i"
proof -
  let ?f = "\<lambda>p. if hit p then f p else p"
  from h obtain p where p: "p \<in> set (pages db)" "pg_id p = i" "history_complete db p" by (auto simp: has_history_def)
  have in': "?f p \<in> set (pages db')" using p(1) by (simp add: d)
  have hist: "page_history db' i = page_history db i @ (if pg_id c = i then [r] else [])"
    by (simp add: page_history_def d r)
  show ?thesis
  proof (cases "pg_id c = i")
    case False
    then have "?f p = p" using one [of p] p(2) by auto
    then have "history_complete db' (?f p)" using p False hist by (simp add: history_complete_def)
    then show ?thesis using in' p(2) \<open>?f p = p\<close> by (auto simp: has_history_def)
  next
    case True
    have "p = c" by (rule distinct_key [OF dis p(1) c(1)]) (simp add: True p(2))
    then have fp: "?f p = f c" using c by simp
    have hc: "1 \<le> unat (pg_version c)" "unat (pg_version c) < 2 ^ 31"
      "map pr_version (page_history db i) = map word_of_nat [1 ..< Suc (unat (pg_version c))]"
      using p(3) True \<open>p = c\<close> by (simp_all add: history_complete_def)
    have v: "unat (pg_version (f c)) = Suc (unat (pg_version c))" "unat (pg_version (f c)) < 2 ^ 31"
      using unat_next [OF hc(2) c(3)] by (simp_all add: f)
    have "word_of_nat (unat (pg_version (f c))) = pg_version (f c)" by simp
    then have pv: "pr_version r = word_of_nat (Suc (unat (pg_version c)))" unfolding r(2) by (simp only: v(1))
    have e: "[1 ..< Suc (Suc n)] = [1 ..< Suc n] @ [Suc n]" for n by simp
    have hi: "page_history db' i = page_history db i @ [r]" using True by (simp add: hist)
    have "map pr_version (page_history db' i) = map word_of_nat [1 ..< Suc (unat (pg_version (f c)))]"
      unfolding v(1) e map_append hi hc(3) list.map by (simp only: pv)
    moreover have "pg_id (f c) = i" using True f(1) by simp
    ultimately have "history_complete db' (f c)" using v by (simp add: history_complete_def hi r(3,4))
    then show ?thesis using in' fp \<open>pg_id (f c) = i\<close> by (auto simp: has_history_def)
  qed
qed

lemma update_keeps_history:
  assumes t: "page_tree us db" and h: "has_history db i" and u: "UpdatePageContentTx rv inp db = (Inr page, db')"
  shows "has_history db' i"
proof (rule UpdatePageContentTx_Inr [OF u])
  fix c assume c: "c \<in> set (live_pages db)" "pg_id c = upi_PageID inp" "pg_version c = upi_ExpectedVersion inp"
    "pg_version c \<noteq> int4_max"
    and page: "page = c\<lparr>pg_title := upi_Title inp, pg_content := upi_Content inp, pg_version := pg_version c + 1\<rparr>"
  let ?hit = "\<lambda>p. page_live (upi_PageID inp) p \<and> pg_version p = upi_ExpectedVersion inp"
  let ?f = "\<lambda>p. p\<lparr>pg_title := upi_Title inp, pg_content := upi_Content inp, pg_version := pg_version p + 1\<rparr>"
  let ?r = "\<lparr>pr_id = rv, pr_page = pg_id page, pr_version = pg_version page, pr_title = pg_title page,
             pr_content = pg_content page, pr_doc = None, pr_author = upi_AuthorID inp\<rparr>"
  assume d: "db' = db\<lparr>pages := map (\<lambda>p. if ?hit p then ?f p else p) (pages db), page_revisions := page_revisions db @ [?r]\<rparr>"
  have dis: "distinct (map pg_id (pages db))" using t by (simp add: page_tree_def)
  show ?thesis
    by (rule versioned_write_keeps_history [OF dis h, of c ?hit ?f ?r])
      (use c in \<open>simp_all add: live_pages_iff page_live_def page d\<close>)
qed

lemma revision_pages: "q_CreatePageRevision x db = Inr (y, db') \<Longrightarrow>
    db' = db\<lparr>page_revisions := page_revisions db @ [x]\<rparr>"
  by (auto simp: q_CreatePageRevision_def split: if_splits)

lemma history_append_other:
  assumes h: "has_history db i" and "pg_id p \<noteq> i"
    and db': "pages db' = pages db @ [p]" "page_history db' i = page_history db i"
  shows "has_history db' i"
  using h db' by (auto simp: has_history_def history_complete_def)

lemma CreatePage_keeps_history:
  assumes h: "has_history db i"
  shows "has_history (snd (CreatePage pg_page_store us n rv inp db)) i"
proof -
  have key: "has_history db1 i \<and> n \<noteq> i" if "q_CreatePage a db = Inr (p, db1)" "cpp_ID a = n" for a p db1
  proof -
    note c = q_CreatePage_Inr [OF that(1)]
    have n: "n \<noteq> i" using c(3) h that(2) by (auto simp: has_history_def)
    moreover have "pg_id p = n" by (simp add: c(1) that(2))
    ultimately have "has_history db1 i"
      by (intro history_append_other [OF h, of p]) (simp_all add: c(2) page_history_def)
    with n show ?thesis by blast
  qed
  have rev: "has_history db2 i" if "q_CreatePageRevision x db1 = Inr (y, db2)" "pr_page x \<noteq> i" "has_history db1 i"
    for x y and db1 db2 :: "'a work_db_scheme"
    using that(3) by (rule history_same [where f = id]) (use revision_pages [OF that(1)] that(2) in \<open>simp_all add: page_history_def\<close>)
  have pid: "pg_id p = cpp_ID a" if "q_CreatePage a db = Inr (p, db1)" for a p and db1 :: "'a work_db_scheme"
    using q_CreatePage_Inr(1) [OF that] by simp
  show ?thesis
    unfolding CreatePage_def using h key rev pid
    by (simp split: sum.split prod.split)
qed

lemma content_tx_keeps_history:
  assumes h: "has_history db i" and "page_revisions d = page_revisions db"
    and "pages d = map f (pages db)" and "\<And>p. pg_id (f p) = pg_id p \<and> pg_version (f p) = pg_version p \<and>
      pg_title (f p) = pg_title p \<and> pg_content (f p) = pg_content p"
  shows "has_history d i"
  by (rule history_same [OF h, of f]) (use assms in \<open>simp_all add: page_history_def\<close>)

lemma deleteEntity_keeps_history:
  assumes h: "has_history db i"
    and "\<And>d. del db = Inr ((), d) \<Longrightarrow> page_revisions d = page_revisions db \<and>
      (\<exists>f. pages d = map f (pages db) \<and> (\<forall>p. pg_id (f p) = pg_id p \<and> pg_version (f p) = pg_version p \<and>
        pg_title (f p) = pg_title p \<and> pg_content (f p) = pg_content p))"
  shows "has_history (snd (deleteEntityAndRevokeShares fresh now ty e actor del db)) i"
proof (cases "fst (deleteEntityAndRevokeShares fresh now ty e actor del db)")
  case (Inl x)
  then have "snd (deleteEntityAndRevokeShares fresh now ty e actor del db) = db"
    unfolding deleteEntityAndRevokeShares_def by (rule in_tx_failed)
  with h show ?thesis by simp
next
  case (Inr n)
  let ?d = "snd (deleteEntityAndRevokeShares fresh now ty e actor del db)"
  from Inr have "deleteEntityAndRevokeShares fresh now ty e actor del db = (Inr n, ?d)" by (metis prod.collapse)
  then obtain d where d: "del db = Inr ((), d)" and p: "pages ?d = pages d" "page_revisions ?d = page_revisions d"
    by (rule deleteEntity_Inr) simp
  from assms(2) [OF d] obtain f where "page_revisions d = page_revisions db" "pages d = map f (pages db)"
    "\<forall>p. pg_id (f p) = pg_id p \<and> pg_version (f p) = pg_version p \<and> pg_title (f p) = pg_title p \<and>
       pg_content (f p) = pg_content p" by blast
  with p show ?thesis by (intro content_tx_keeps_history [OF h, of ?d f]) simp_all
qed

lemma move_keeps_history:
  assumes us: "uuid_text us" and h: "has_history db i"
  shows "has_history (snd (MovePageTx us fresh now inp db)) i"
proof (cases "fst (MovePageTx us fresh now inp db)")
  case (Inl x)
  then have "snd (MovePageTx us fresh now inp db) = db" unfolding MovePageTx_def by (rule in_tx_failed)
  with h show ?thesis by simp
next
  case (Inr res)
  let ?d = "snd (MovePageTx us fresh now inp db)"
  from Inr have "MovePageTx us fresh now inp db = (Inr res, ?d)" by (metis prod.collapse)
  then obtain page par np where p: "pages ?d = map (moved_row inp page par np) (pages db)" "page_revisions ?d = page_revisions db"
    by (rule MovePageTx_Inr [OF us]) (rule that; assumption)
  show ?thesis by (rule content_tx_keeps_history [OF h p(2,1)]) (simp add: moved_row_fields)
qed

lemma page_step_keeps_history:
  assumes us: "uuid_text us" and t: "page_tree us db" and st: "page_step us db db'" and h: "has_history db i"
  shows "has_history db' i"
  using st
proof cases
  case (create n rv cinp)
  then show ?thesis using CreatePage_keeps_history [OF h] by simp
next
  case (update rv uinp)
  obtain r d where r: "UpdatePageContentTx rv uinp db = (r, d)" by (rule prod.exhaust)
  have "has_history d i"
  proof (cases r)
    case (Inl e)
    then have "d = db" using r by (auto simp: UpdatePageContentTx_def in_tx_Inl)
    with h show ?thesis by simp
  next
    case (Inr p)
    then show ?thesis using update_keeps_history [OF t h] r by blast
  qed
  then show ?thesis using h r by (simp add: update UpdatePage_def)
next
  case (move fresh now minp)
  then show ?thesis using move_keeps_history [OF us h] by (simp add: MovePage_def)
next
  case (delete fresh now j sp actor)
  show ?thesis
    unfolding delete DeletePage_snd DeletePageAndRevokeShares_def
    by (rule deleteEntity_keeps_history [OF h])
      (auto simp: q_SoftDeletePageInSpace_def split: if_splits
        intro!: exI [of _ "\<lambda>p. if page_live j p \<and> pg_space p = sp then p\<lparr>pg_deleted := True\<rparr> else p"])
next
  case (delete_ticket fresh now j sp actor)
  show ?thesis
    unfolding delete_ticket DeleteTicketAndRevokeShares_def
    by (rule deleteEntity_keeps_history [OF h])
      (auto simp: q_SoftDeleteTicketInSpace_def split: if_splits intro!: exI [of _ id])
next
  case (delete_item fresh now j sp actor)
  show ?thesis
    unfolding delete_item DeleteItemAndRevokeShares_def
    by (rule deleteEntity_keeps_history [OF h])
      (auto simp: q_SoftDeleteProjectItemInSpace_def split: if_splits intro!: exI [of _ id])
qed

text \<open>The start of a history: a creation that reports success.\<close>

lemma created_has_history:
  assumes "CreatePage pg_page_store us n rv inp db = (Inr page, db1)"
    and fk: "\<forall>r \<in> set (page_revisions db). pr_page r \<in> pg_id ` set (pages db)"
  shows "pg_id page = n \<and> has_history db1 n"
proof -
  from assms(1) obtain a d where a: "q_CreatePage a db = Inr (page, d)" "cpp_ID a = n"
    and r: "\<exists>y. q_CreatePageRevision \<lparr>pr_id = rv, pr_page = pg_id page, pr_version = pg_version page,
                   pr_title = pg_title page, pr_content = pg_content page, pr_doc = None, pr_author = pg_author page\<rparr> d = Inr (y, db1)"
    by (auto simp: CreatePage_def split: sum.splits prod.splits)
  note c = q_CreatePage_Inr [OF a(1)]
  have id: "pg_id page = n" "pg_version page = 1" by (simp_all add: c(1) a(2))
  have no: "page_history db n = []"
    using fk c(3) a(2) unfolding page_history_def filter_empty_conv by metis
  from r revision_pages have d1: "db1 = d\<lparr>page_revisions := page_revisions d @ [\<lparr>pr_id = rv, pr_page = pg_id page, pr_version = pg_version page,
                   pr_title = pg_title page, pr_content = pg_content page, pr_doc = None, pr_author = pg_author page\<rparr>]\<rparr>" by blast
  have revs: "page_revisions d = page_revisions db" by (simp add: c(2))
  have hist: "page_history db1 n = [\<lparr>pr_id = rv, pr_page = pg_id page, pr_version = pg_version page,
                   pr_title = pg_title page, pr_content = pg_content page, pr_doc = None, pr_author = pg_author page\<rparr>]"
    using no unfolding page_history_def d1 revs by (simp add: id)
  have "page \<in> set (pages db1)" by (simp add: d1 c(2))
  moreover have "history_complete db1 page" by (simp add: history_complete_def hist id)
  ultimately show ?thesis using id by (auto simp: has_history_def)
qed

end
