(* ===== verification/PageTreeView.thy ===== *)
theory PageTreeView
  imports PageSaves "HOL-Library.Multiset"
begin

text \<open>
  The tree a reader is shown (\<^verbatim>\<open>internal/core/wiki/tree.go\<close>): the assembly loop and its insertion
  sort, against the pages of the space. The loops run over a Go map, whose order the language leaves
  open; here it is the order of the listing, and the sort makes the result depend on it only where
  position and title agree.
\<close>

section \<open>The insertion sort\<close>

lemma mset_shift_in: "mset (shift_in gt key xs) = add_mset key (mset xs)"
  by (induction xs) auto

lemma shift_in_sorted:
  assumes "\<And>x. x \<in> set xs \<Longrightarrow> gt x key \<longleftrightarrow> (k key :: 'k::linorder) < k x"
    and "sorted_wrt (\<lambda>x y. k y \<le> k x) xs"
  shows "sorted_wrt (\<lambda>x y. k y \<le> k x) (shift_in gt key xs)"
  using assms
proof (induction xs)
  case Nil
  then show ?case by simp
next
  case (Cons x xs)
  have ks: "set (shift_in gt key xs) = insert key (set xs)"
    using mset_shift_in [of gt key xs] by (metis set_mset_add_mset_insert set_mset_mset)
  show ?case
  proof (cases "gt x key")
    case True
    then show ?thesis using Cons by (simp add: ks)
  next
    case False
    then show ?thesis using Cons.prems by force
  qed
qed

lemma insertion_sort_sorts:
  assumes "\<And>x y. x \<in> set xs \<Longrightarrow> y \<in> set xs \<Longrightarrow> gt x y \<longleftrightarrow> (k y :: 'k::linorder) < k x"
  shows "mset (insertion_sort gt xs) = mset xs \<and> sorted (map k (insertion_sort gt xs))"
proof -
  have "mset (fold (shift_in gt) ys acc) = mset ys + mset acc \<and>
      (sorted_wrt (\<lambda>x y. k y \<le> k x) acc \<longrightarrow> sorted_wrt (\<lambda>x y. k y \<le> k x) (fold (shift_in gt) ys acc))"
    if "set ys \<subseteq> set xs" "set acc \<subseteq> set xs" for ys acc
    using that
  proof (induction ys arbitrary: acc)
    case Nil
    then show ?case by simp
  next
    case (Cons y ys)
    have s: "set (shift_in gt y acc) = insert y (set acc)"
      using mset_shift_in [of gt y acc] by (metis set_mset_add_mset_insert set_mset_mset)
    have "sorted_wrt (\<lambda>x y. k y \<le> k x) (shift_in gt y acc)" if "sorted_wrt (\<lambda>x y. k y \<le> k x) acc"
      using that Cons.prems assms by (intro shift_in_sorted) auto
    with Cons.IH [of "shift_in gt y acc"] Cons.prems s show ?case by (simp add: mset_shift_in)
  qed
  from this [of xs "[]"] show ?thesis
    by (simp add: insertion_sort_def sorted_wrt_map sorted_wrt_rev)
qed

section \<open>The assembly loop\<close>

text \<open>The heap of the listed pages with given children.\<close>

definition heap_of :: "PageRow list \<Rightarrow> (uuid \<Rightarrow> uuid list) \<Rightarrow> node_heap" where
  "heap_of ps f = map (\<lambda>p. (pg_id p, (node_of p)\<lparr>tn_Children := f (pg_id p)\<rparr>)) ps"

definition tree_root :: "PageRow list \<Rightarrow> PageRow \<Rightarrow> bool" where
  "tree_root ps p \<longleftrightarrow> (case pg_parent p of None \<Rightarrow> True | Some q \<Rightarrow> q \<notin> pg_id ` set ps)"

definition children_in :: "PageRow list \<Rightarrow> uuid \<Rightarrow> uuid list" where
  "children_in ps i = map pg_id (filter (\<lambda>c. pg_parent c = Some i) ps)"

lemma map_of_heap:
  assumes "distinct (map pg_id ps)"
  shows "p \<in> set ps \<Longrightarrow> map_of (heap_of ps f) (pg_id p) = Some ((node_of p)\<lparr>tn_Children := f (pg_id p)\<rparr>)"
    and "i \<notin> pg_id ` set ps \<Longrightarrow> map_of (heap_of ps f) i = None"
proof -
  have d: "distinct (map fst (heap_of ps f))" using assms by (simp add: heap_of_def comp_def)
  show "p \<in> set ps \<Longrightarrow> map_of (heap_of ps f) (pg_id p) = Some ((node_of p)\<lparr>tn_Children := f (pg_id p)\<rparr>)"
    by (rule map_of_is_SomeI [OF d]) (simp add: heap_of_def)
  show "i \<notin> pg_id ` set ps \<Longrightarrow> map_of (heap_of ps f) i = None"
    by (simp add: map_of_eq_None_iff heap_of_def image_image)
qed

lemma update_heap:
  assumes "distinct (map pg_id ps)" and "q \<in> set ps"
  shows "AList.update (pg_id q) ((node_of q)\<lparr>tn_Children := c\<rparr>) (heap_of ps f) = heap_of ps (f(pg_id q := c))"
  using assms
proof (induction ps)
  case Nil
  then show ?case by simp
next
  case (Cons p ps)
  show ?case
  proof (cases "q = p")
    case True
    have other: "pg_id x \<noteq> pg_id p" if "x \<in> set ps" for x
      using Cons.prems(1) that by (metis distinct.simps(2) imageI list.set_map list.simps(9))
    have "heap_of ps (f(pg_id p := c)) = heap_of ps f"
      unfolding heap_of_def by (rule map_cong) (simp_all add: other)
    then show ?thesis using True by (simp add: heap_of_def)
  next
    case False
    then have "q \<in> set ps" using Cons.prems(2) by simp
    then have "pg_id q \<noteq> pg_id p"
      using Cons.prems(1) by (metis distinct.simps(2) imageI list.set_map list.simps(9))
    then show ?thesis using Cons \<open>q \<in> set ps\<close> by (simp add: heap_of_def)
  qed
qed

lemma build_nodes_heap:
  assumes "distinct (map pg_id ps)"
  shows "build_nodes ps = heap_of ps (\<lambda>_. [])"
proof -
  have "fold (\<lambda>p h. AList.update (pg_id p) (node_of p) h) ys (heap_of xs (\<lambda>_. [])) = heap_of (xs @ ys) (\<lambda>_. [])"
    if "distinct (map pg_id (xs @ ys))" for xs ys
    using that
  proof (induction ys arbitrary: xs)
    case Nil
    then show ?case by simp
  next
    case (Cons y ys)
    have new: "AList.update k v h = h @ [(k, v)]" if "k \<notin> fst ` set h" for k v and h :: node_heap
      using that by (induction h) auto
    have "pg_id y \<notin> fst ` set (heap_of xs (\<lambda>_. []))" using Cons.prems by (auto simp: heap_of_def)
    from new [OF this] have "AList.update (pg_id y) (node_of y) (heap_of xs (\<lambda>_. [])) = heap_of (xs @ [y]) (\<lambda>_. [])"
      by (simp add: heap_of_def node_of_def)
    then show ?case using Cons.IH [of "xs @ [y]"] Cons.prems by simp
  qed
  from this [of "[]" ps] assms show ?thesis by (simp add: build_nodes_def heap_of_def)
qed

lemma attach_step:
  assumes d: "distinct (map pg_id ps)" and p: "p \<in> set ps"
  shows "attach (rs, heap_of ps f) (pg_id p) =
    (if tree_root ps p then (rs @ [pg_id p], heap_of ps f)
     else (rs, heap_of ps (f(the (pg_parent p) := f (the (pg_parent p)) @ [pg_id p]))))"
proof (cases "pg_parent p")
  case None
  then show ?thesis by (simp add: attach_def map_of_heap [OF d] p tree_root_def node_of_def)
next
  case (Some q)
  show ?thesis
  proof (cases "q \<in> pg_id ` set ps")
    case False
    then show ?thesis using Some by (simp add: attach_def map_of_heap [OF d] p tree_root_def node_of_def)
  next
    case True
    then obtain r where r: "r \<in> set ps" "q = pg_id r" by auto
    have "attach (rs, heap_of ps f) (pg_id p) =
        (rs, AList.update q ((node_of r)\<lparr>tn_Children := f q @ [pg_id p]\<rparr>) (heap_of ps f))"
      using Some by (simp add: attach_def map_of_heap [OF d] p r node_of_def add_child_def)
    then show ?thesis using Some True r update_heap [OF d r(1)] by (simp add: tree_root_def)
  qed
qed

lemma attach_loop:
  assumes d: "distinct (map pg_id ps)" and "set qs \<subseteq> set ps"
  shows "foldl attach (rs, heap_of ps f) (map pg_id qs) =
    (rs @ map pg_id (filter (tree_root ps) qs),
     heap_of ps (\<lambda>i. f i @ map pg_id (filter (\<lambda>c. pg_parent c = Some i \<and> \<not> tree_root ps c) qs)))"
  using assms(2)
proof (induction qs arbitrary: rs f)
  case Nil
  then show ?case by simp
next
  case (Cons p qs)
  have p: "p \<in> set ps" and qs: "set qs \<subseteq> set ps" using Cons.prems by auto
  show ?case
  proof (cases "tree_root ps p")
    case True
    then show ?thesis using Cons.IH [OF qs] by (simp add: attach_step [OF d p])
  next
    case False
    then obtain q where q: "pg_parent p = Some q" by (auto simp: tree_root_def split: option.splits)
    have "(\<lambda>i. (f(q := f q @ [pg_id p])) i @ map pg_id (filter (\<lambda>c. pg_parent c = Some i \<and> \<not> tree_root ps c) qs)) =
       (\<lambda>i. f i @ map pg_id (filter (\<lambda>c. pg_parent c = Some i \<and> \<not> tree_root ps c) (p # qs)))"
      using q False by (intro ext) auto
    note fun_eq = this
    have "attach (rs, heap_of ps f) (pg_id p) = (rs, heap_of ps (f(q := f q @ [pg_id p])))"
      using attach_step [OF d p, of rs f] q False by simp
    then have "foldl attach (rs, heap_of ps f) (map pg_id (p # qs)) =
        foldl attach (rs, heap_of ps (f(q := f q @ [pg_id p]))) (map pg_id qs)"
      by (simp only: list.map foldl.simps)
    also note Cons.IH [OF qs, of rs "f(q := f q @ [pg_id p])"]
    also note fun_eq
    finally show ?thesis using False by simp
  qed
qed

text \<open>The order siblings are shown in.\<close>

definition tree_key :: "PageRow list \<Rightarrow> uuid \<Rightarrow> int \<times> string" where
  "tree_key ps i = (case List.find (\<lambda>p. pg_id p = i) ps of None \<Rightarrow> (0, '''') | Some p \<Rightarrow> (pg_position p, pg_title p))"

lemma after_key:
  assumes d: "distinct (map pg_id ps)" and "x \<in> pg_id ` set ps" and "y \<in> pg_id ` set ps"
  shows "after_in (heap_of ps f) x y \<longleftrightarrow> tree_key ps y < tree_key ps x"
proof -
  obtain p q where pq: "p \<in> set ps" "x = pg_id p" "q \<in> set ps" "y = pg_id q" using assms(2,3) by auto
  have find: "List.find (\<lambda>r. pg_id r = pg_id z) ps = Some z" if "z \<in> set ps" for z
    by (rule find_the_unique) (use that d in \<open>auto dest: distinct_key\<close>)
  show ?thesis
    by (auto simp: after_in_def map_of_heap [OF d] pq after_def node_of_def tree_key_def find less_prod_def)
qed

text \<open>Everything \<open>assemble\<close> returns.\<close>

lemma assemble_result:
  assumes d: "distinct (map pg_id ps)"
  shows "assemble ps =
    (sortTreeNodes (heap_of ps (children_in ps)) (map pg_id (filter (tree_root ps) ps)),
     heap_of ps (\<lambda>i. sortTreeNodes (heap_of ps (children_in ps)) (children_in ps i)))"
proof -
  have ids: "map fst (heap_of ps f) = map pg_id ps" for f by (simp add: heap_of_def)
  have "filter (\<lambda>c. pg_parent c = Some i \<and> \<not> tree_root ps c) ps = filter (\<lambda>c. pg_parent c = Some i) ps"
    if "i \<in> pg_id ` set ps" for i
    using that by (intro filter_cong) (auto simp: tree_root_def)
  then have "heap_of ps (\<lambda>i. [] @ map pg_id (filter (\<lambda>c. pg_parent c = Some i \<and> \<not> tree_root ps c) ps)) =
      heap_of ps (children_in ps)"
    unfolding heap_of_def children_in_def by (intro map_cong) auto
  with attach_loop [OF d subset_refl, of "[]" "\<lambda>_. []"]
  have l: "foldl attach ([], build_nodes ps) (map fst (build_nodes ps)) =
      (map pg_id (filter (tree_root ps) ps), heap_of ps (children_in ps))"
    by (simp add: build_nodes_heap [OF d] ids)
  have "map (\<lambda>(i, n). (i, n\<lparr>tn_Children := g (tn_Children n)\<rparr>)) (heap_of ps f) = heap_of ps (\<lambda>i. g (f i))" for g f
    by (simp add: heap_of_def)
  then show ?thesis by (simp add: assemble_def l)
qed

lemma siblings_sorted:
  assumes d: "distinct (map pg_id ps)" and "set xs \<subseteq> pg_id ` set ps"
  shows "mset (sortTreeNodes (heap_of ps f) xs) = mset xs \<and> sorted (map (tree_key ps) (sortTreeNodes (heap_of ps f) xs))"
  unfolding sortTreeNodes_def
  by (rule insertion_sort_sorts) (use assms(2) after_key [OF d] in blast)


section \<open>The whole tree\<close>

definition listed :: "'x work_db_scheme \<Rightarrow> uuid \<Rightarrow> PageRow list" where
  "listed db sp = sort_key pg_path (filter (\<lambda>p. pg_space p = sp \<and> \<not> pg_deleted p) (pages db))"

lemma listed_iff: "p \<in> set (listed db sp) \<longleftrightarrow> p \<in> set (live_pages db) \<and> pg_space p = sp"
  by (auto simp: listed_def live_pages_iff)

lemma listed_distinct:
  assumes "page_tree us db"
  shows "distinct (map pg_id (listed db sp))"
proof -
  have "distinct (map pg_id (filter (\<lambda>p. pg_space p = sp \<and> \<not> pg_deleted p) (pages db)))"
    using assms by (simp add: page_tree_def distinct_map_filter)
  then show ?thesis
    unfolding listed_def by (simp add: distinct_map inj_on_def distinct_sort)
qed

text \<open>The edges a client walks: from a node to the nodes in its \<open>children\<close>.\<close>

definition shown_under :: "node_heap \<Rightarrow> (uuid \<times> uuid) set" where
  "shown_under h = {(i, c). \<exists>n. map_of h i = Some n \<and> c \<in> set (tn_Children n)}"

lemma shown_from_root:
  assumes "page_tree us db" and "p \<in> set (listed db sp)"
    and root: "\<And>q. q \<in> set (listed db sp) \<Longrightarrow> tree_root (listed db sp) q \<Longrightarrow> pg_id q \<in> R"
    and edge: "\<And>q r. q \<in> set (listed db sp) \<Longrightarrow> r \<in> set (listed db sp) \<Longrightarrow> pg_parent q = Some (pg_id r) \<Longrightarrow>
      (pg_id r, pg_id q) \<in> E"
  shows "\<exists>r \<in> R. (r, pg_id p) \<in> E\<^sup>*"
  using assms(2)
proof (induction "length (pg_path p)" arbitrary: p rule: less_induct)
  case less
  show ?case
  proof (cases "tree_root (listed db sp) p")
    case True
    then show ?thesis using root [OF less.prems] by blast
  next
    case False
    then obtain r where r: "r \<in> set (listed db sp)" "pg_parent p = Some (pg_id r)"
      by (auto simp: tree_root_def split: option.splits)
    then have "under us p r" using assms(1) less.prems by (simp add: page_tree_def listed_iff)
    then have "length (pg_path r) < length (pg_path p)" by (auto simp: under_def)
    from less.hyps [OF this r(1)] obtain r0 where "r0 \<in> R" "(r0, pg_id r) \<in> E\<^sup>*" by blast
    with edge [OF less.prems r] show ?thesis by (meson rtrancl.rtrancl_into_rtrancl)
  qed
qed

text \<open>C27. On a well-formed tree the reader is shown exactly the live pages of the space: each in one
  node with its own fields, a root when its parent is not among them and otherwise in its parent's
  children, siblings in the order of position and title, and every page reachable from a root.\<close>

theorem BuildTree_shows_every_page:
  assumes t: "page_tree us db" and up: "db_up db"
  shows "\<exists>roots h. BuildTree pg_page_store db sp = Inr (roots, h) \<and>
    mset roots = mset (map pg_id (filter (tree_root (listed db sp)) (listed db sp))) \<and>
    sorted (map (tree_key (listed db sp)) roots) \<and>
    dom (map_of h) = pg_id ` set (listed db sp) \<and>
    (\<forall>p \<in> set (listed db sp). \<exists>cs. map_of h (pg_id p) = Some ((node_of p)\<lparr>tn_Children := cs\<rparr>) \<and>
       mset cs = mset (children_in (listed db sp) (pg_id p)) \<and> sorted (map (tree_key (listed db sp)) cs)) \<and>
    (\<forall>p \<in> set (listed db sp). \<exists>r \<in> set roots. (r, pg_id p) \<in> (shown_under h)\<^sup>*)"
proof -
  let ?ps = "listed db sp"
  let ?srt = "sortTreeNodes (heap_of ?ps (children_in ?ps))"
  let ?roots = "?srt (map pg_id (filter (tree_root ?ps) ?ps))"
  let ?h = "heap_of ?ps (\<lambda>i. ?srt (children_in ?ps i))"
  note d = listed_distinct [OF t, of sp]
  have result: "BuildTree pg_page_store db sp = Inr (?roots, ?h)"
    using up assemble_result [OF d] by (simp add: BuildTree_def q_ListPagesBySpace_def sql_rows_def listed_def)
  have roots: "mset ?roots = mset (map pg_id (filter (tree_root ?ps) ?ps)) \<and> sorted (map (tree_key ?ps) ?roots)"
    by (rule siblings_sorted [OF d]) auto
  have kids: "mset (?srt (children_in ?ps i)) = mset (children_in ?ps i) \<and>
      sorted (map (tree_key ?ps) (?srt (children_in ?ps i)))" for i
    by (rule siblings_sorted [OF d]) (auto simp: children_in_def)
  have keys: "dom (map_of ?h) = pg_id ` set ?ps" by (simp add: dom_map_of_conv_image_fst heap_of_def image_image)
  have node: "map_of ?h (pg_id p) = Some ((node_of p)\<lparr>tn_Children := ?srt (children_in ?ps (pg_id p))\<rparr>)"
    if "p \<in> set ?ps" for p
    using map_of_heap(1) [OF d that] .
  have edge: "(pg_id r, pg_id q) \<in> shown_under ?h"
    if "q \<in> set ?ps" "r \<in> set ?ps" "pg_parent q = Some (pg_id r)" for q r
  proof -
    have "pg_id q \<in># mset (children_in ?ps (pg_id r))" using that by (auto simp: children_in_def)
    then have "pg_id q \<in> set (?srt (children_in ?ps (pg_id r)))" using kids by (metis set_mset_mset)
    then show ?thesis using node [OF that(2)] by (simp add: shown_under_def)
  qed
  have "\<exists>r \<in> set ?roots. (r, pg_id p) \<in> (shown_under ?h)\<^sup>*" if "p \<in> set ?ps" for p
    by (rule shown_from_root [OF t that _ edge])
      (use roots in \<open>metis (mono_tags, lifting) set_mset_mset image_eqI list.set_map mem_Collect_eq set_filter\<close>)
  with result roots kids keys node show ?thesis by blast
qed

theorem BuildTree_shows_every_page_witness:
  "\<exists>roots h. BuildTree pg_page_store demo_wiki 31 = Inr (roots, h) \<and>
     pg_id ` set (listed demo_wiki 31) \<subseteq> (shown_under h)\<^sup>* `` set roots"
proof -
  have "db_up demo_wiki" using demo_wiki_up by (simp add: store_up_def)
  from BuildTree_shows_every_page [OF demo_wiki_tree this, of 31] obtain roots h where
    "BuildTree pg_page_store demo_wiki 31 = Inr (roots, h)"
    "\<forall>p \<in> set (listed demo_wiki 31). \<exists>r \<in> set roots. (r, pg_id p) \<in> (shown_under h)\<^sup>*"
    by blast
  then show ?thesis by (intro exI conjI) (assumption, auto)
qed

end
