(* ===== verification/AuditLog.thy ===== *)
theory AuditLog
  imports AccessBulk GoStrings
begin

text \<open>
  The audit log as handlers write it (\<^verbatim>\<open>internal/core/audit/logger.go\<close>,
  \<^verbatim>\<open>db_logger.go\<close>) and the ticket reference administrative changes carry
  (\<^verbatim>\<open>internal/core/api/ticketref/ticketref.go\<close>).

  An identifier of an event travels as text and is parsed by the logger; here it is the outcome of
  that parse.
\<close>

record AuditEvent =
  ev_Type :: string
  ev_ActorID :: "uuid option"
  ev_OrgID :: "uuid option"
  ev_ResourceType :: string
  ev_ResourceID :: "uuid option"
  ev_Metadata :: "(string \<times> meta_value) list"
  ev_BatchID :: "uuid option"
  ev_TicketRef :: string

definition audit_row :: "uuid \<Rightarrow> uuid \<Rightarrow> AuditEvent \<Rightarrow> AuditRow" where
  "audit_row newID orgID event =
     \<lparr>au_id = newID, au_org = orgID, au_actor = ev_ActorID event, au_action = ev_Type event,
      au_entity_kind = ev_ResourceType event,
      au_entity_id = (case ev_ResourceID event of None \<Rightarrow> uuid_nil | Some i \<Rightarrow> i),
      au_payload = ev_Metadata event, au_batch = ev_BatchID event,
      au_ticket_ref = (if ev_TicketRef event \<noteq> '''' then Some (ev_TicketRef event) else None)\<rparr>"

text \<open>\<open>dbLogger.Log\<close>: an event without an organisation is dropped and a failed insert is swallowed.\<close>

definition audit_log_event :: "uuid \<Rightarrow> AuditEvent \<Rightarrow> 'x org_db_scheme \<Rightarrow> 'x org_db_scheme" where
  "audit_log_event newID event db =
     (case ev_OrgID event of
        None \<Rightarrow> db
      | Some orgID \<Rightarrow>
          (case q_CreateAuditEvent (audit_row newID orgID event) db of Inl _ \<Rightarrow> db | Inr (_, db') \<Rightarrow> db'))"

lemma audit_log_event_only:
  "audit_log_event i e db = db\<lparr>audit_log := audit_log (audit_log_event i e db)\<rparr>"
  by (auto simp: audit_log_event_def q_CreateAuditEvent_def split: option.split)

text \<open>With a fresh id, a live server and an actor that exists, the row is written.\<close>

lemma audit_log_event_written:
  assumes "db_up db" and "ev_OrgID e = Some org" and "i \<notin> au_id ` set (audit_log db)"
    and "\<And>u. ev_ActorID e = Some u \<Longrightarrow> user_exists db u"
  shows "audit_log_event i e db = db\<lparr>audit_log := audit_log db @ [audit_row i org e]\<rparr>"
  using assms
  by (auto simp: audit_log_event_def q_CreateAuditEvent_def list_ex_iff audit_row_def split: option.split)

section \<open>Well-formed UTF-8\<close>

text \<open>\<open>utf8.ValidString\<close>, by the length of the rune at the front: 0 for a malformed one.\<close>

definition byte_in :: "nat \<Rightarrow> nat \<Rightarrow> char \<Rightarrow> bool" where
  "byte_in lo hi c \<longleftrightarrow> lo \<le> (of_char c :: nat) \<and> (of_char c :: nat) \<le> hi"

fun rune_len :: "string \<Rightarrow> nat" where
  "rune_len [] = 0"
| "rune_len (a # s) =
     (let n = of_char a :: nat in
      if n < 0x80 then 1
      else if n < 0xC2 then 0
      else if n < 0xE0 then (case s of b # _ \<Rightarrow> if byte_in 0x80 0xBF b then 2 else 0 | _ \<Rightarrow> 0)
      else if n < 0xF0 then
        (case s of
           b # c # _ \<Rightarrow>
             if byte_in (if n = 0xE0 then 0xA0 else 0x80) (if n = 0xED then 0x9F else 0xBF) b \<and> byte_in 0x80 0xBF c
             then 3 else 0
         | _ \<Rightarrow> 0)
      else if n < 0xF5 then
        (case s of
           b # c # d # _ \<Rightarrow>
             if byte_in (if n = 0xF0 then 0x90 else 0x80) (if n = 0xF4 then 0x8F else 0xBF) b \<and>
                byte_in 0x80 0xBF c \<and> byte_in 0x80 0xBF d
             then 4 else 0
         | _ \<Rightarrow> 0)
      else 0)"

function ValidString :: "string \<Rightarrow> bool" where
  "ValidString s = (if s = [] then True else if rune_len s = 0 then False else ValidString (drop (rune_len s) s))"
  by auto
termination
  by (relation "measure length") auto

declare ValidString.simps [simp del]

section \<open>The ticket reference\<close>

definition MaxLen :: nat where "MaxLen = 200"

record TicketPolicy =
  policy_Required :: bool

text \<open>\<open>Policy.Check\<close>: false when the 400 response has been written.\<close>

definition PolicyCheck :: "TicketPolicy \<Rightarrow> string \<Rightarrow> bool" where
  "PolicyCheck p ref =
     (if length ref > MaxLen then False
      else if \<not> ValidString ref \<or> List.member ref (CHR 0x00) then False
      else if policy_Required p \<and> ref = '''' then False
      else True)"

text \<open>\<open>FromRequest\<close> and \<open>Policy.Resolve\<close> on the query parameter's value.\<close>

definition PolicyResolve :: "TicketPolicy \<Rightarrow> string \<Rightarrow> string option" where
  "PolicyResolve p param =
     (let ref = TrimSpace param in if PolicyCheck p ref then Some ref else None)"

lemma PolicyResolve_Some:
  "PolicyResolve p param = Some ref \<longleftrightarrow>
     ref = TrimSpace param \<and> length ref \<le> 200 \<and> ValidString ref \<and> CHR 0x00 \<notin> set ref \<and>
     (policy_Required p \<longrightarrow> ref \<noteq> '''')"
  by (auto simp: PolicyResolve_def PolicyCheck_def MaxLen_def Let_def)

end
