(* ===== verification/Teams.thy ===== *)
theory Teams
  imports AuditLog
begin

text \<open>
  The team service, \<^verbatim>\<open>internal/core/teams/service.go\<close>, over its store interface. The
  transactional operations of the store return their result and the database they leave. Timestamps
  and the provenance column are left out.
\<close>

definition MaxDepth :: nat where "MaxDepth = 5"

datatype team_error =
    ErrTeamNotFound
  | ErrNameRequired
  | ErrInvalidSlug
  | ErrSlugTaken
  | ErrCycle
  | ErrDepthExceeded
  | ErrHasChildren
  | ErrOwnsSpaces
  | ErrDefaultTeam
  | ErrInvalidMemberRole
  | ErrUserNotOrgMember
  | ErrMemberNotFound
  | ErrParentNotFound
  | ErrTeamDatabase string

record Team =
  team_ID :: uuid
  team_OrgID :: uuid
  team_ParentID :: "uuid option"
  team_Path :: "uuid list"
  team_Slug :: string
  team_Name :: string
  team_Description :: string
  team_IsDefault :: bool

record Member =
  mb_TeamID :: uuid
  mb_UserID :: uuid
  mb_OrgID :: uuid
  mb_Role :: string
  mb_IsPrimary :: bool
  mb_Email :: string
  mb_DisplayName :: string

abbreviation MemberRoleMember :: string where "MemberRoleMember \<equiv> ''member''"
abbreviation MemberRoleLead :: string where "MemberRoleLead \<equiv> ''lead''"

definition MemberRoles :: "string list" where
  "MemberRoles = [MemberRoleMember, MemberRoleLead]"

definition IsLead :: "Member \<Rightarrow> bool" where
  "IsLead m \<longleftrightarrow> mb_Role m = MemberRoleLead"

text \<open>\<open>^[a-z0-9](?:[a-z0-9-]{0,62}[a-z0-9])?$\<close>\<close>

definition slug_alnum :: "char \<Rightarrow> bool" where
  "slug_alnum c \<longleftrightarrow> byte_in 0x61 0x7A c \<or> byte_in 0x30 0x39 c"

definition validSlug :: "string \<Rightarrow> bool" where
  "validSlug s \<longleftrightarrow>
     s \<noteq> [] \<and> length s \<le> 64 \<and> slug_alnum (hd s) \<and> slug_alnum (last s) \<and>
     list_all (\<lambda>c. slug_alnum c \<or> c = CHR ''-'') s"

record 'db TeamStore =
  ts_Create :: "Team \<Rightarrow> 'db \<Rightarrow> (team_error + Team) \<times> 'db"
  ts_Get :: "'db \<Rightarrow> uuid \<Rightarrow> team_error + Team"
  ts_GetDefault :: "'db \<Rightarrow> uuid \<Rightarrow> team_error + Team"
  ts_ListByOrg :: "'db \<Rightarrow> uuid \<Rightarrow> team_error + Team list"
  ts_Update :: "uuid \<Rightarrow> string \<Rightarrow> string \<Rightarrow> 'db \<Rightarrow> (team_error + Team) \<times> 'db"
  ts_Reparent :: "uuid \<Rightarrow> uuid \<Rightarrow> uuid option \<Rightarrow> 'db \<Rightarrow> (team_error + Team) \<times> 'db"
  ts_Delete :: "uuid \<Rightarrow> uuid \<Rightarrow> 'db \<Rightarrow> (team_error + unit) \<times> 'db"
  ts_AddMember :: "uuid \<Rightarrow> uuid \<Rightarrow> uuid \<Rightarrow> string \<Rightarrow> 'db \<Rightarrow> (team_error + Member) \<times> 'db"
  ts_RemoveMember :: "uuid \<Rightarrow> uuid \<Rightarrow> uuid \<Rightarrow> 'db \<Rightarrow> (team_error + unit) \<times> 'db"
  ts_ListMembers :: "'db \<Rightarrow> uuid \<Rightarrow> team_error + Member list"
  ts_GetMember :: "'db \<Rightarrow> uuid \<Rightarrow> uuid \<Rightarrow> team_error + Member"
  ts_SetPrimary :: "uuid \<Rightarrow> uuid \<Rightarrow> uuid \<Rightarrow> 'db \<Rightarrow> (team_error + unit) \<times> 'db"
  ts_EnsureDefaultMembership :: "uuid \<Rightarrow> uuid \<Rightarrow> 'db \<Rightarrow> (team_error + unit) \<times> 'db"
  ts_IsOrgMember :: "'db \<Rightarrow> uuid \<Rightarrow> uuid \<Rightarrow> team_error + bool"

section \<open>The service\<close>

text \<open>Where the source wraps an error (\<open>%w\<close>) the sentinel it carries is kept.\<close>

definition TeamCreate ::
    "('db, 'm) TeamStore_scheme \<Rightarrow> uuid \<Rightarrow> uuid \<Rightarrow> uuid option \<Rightarrow> string \<Rightarrow> string \<Rightarrow> string \<Rightarrow> 'db \<Rightarrow>
     (team_error + Team) \<times> 'db" where
  "TeamCreate s newID orgID parentID slug name description db =
     (if name = '''' then (Inl ErrNameRequired, db)
      else if \<not> validSlug slug then (Inl ErrInvalidSlug, db)
      else ts_Create s
        \<lparr>team_ID = newID, team_OrgID = orgID, team_ParentID = parentID, team_Path = [], team_Slug = slug,
         team_Name = name, team_Description = description, team_IsDefault = False\<rparr> db)"

definition TeamGet :: "('db, 'm) TeamStore_scheme \<Rightarrow> 'db \<Rightarrow> uuid \<Rightarrow> team_error + Team" where
  "TeamGet s db i = ts_Get s db i"

definition TeamGetDefault :: "('db, 'm) TeamStore_scheme \<Rightarrow> 'db \<Rightarrow> uuid \<Rightarrow> team_error + Team" where
  "TeamGetDefault s db orgID = ts_GetDefault s db orgID"

definition TeamList :: "('db, 'm) TeamStore_scheme \<Rightarrow> 'db \<Rightarrow> uuid \<Rightarrow> team_error + Team list" where
  "TeamList s db orgID = ts_ListByOrg s db orgID"

definition TeamRename ::
    "('db, 'm) TeamStore_scheme \<Rightarrow> uuid \<Rightarrow> string \<Rightarrow> string \<Rightarrow> 'db \<Rightarrow> (team_error + Team) \<times> 'db" where
  "TeamRename s i name description db =
     (if name = '''' then (Inl ErrNameRequired, db) else ts_Update s i name description db)"

definition TeamReparent ::
    "('db, 'm) TeamStore_scheme \<Rightarrow> uuid \<Rightarrow> uuid \<Rightarrow> uuid option \<Rightarrow> 'db \<Rightarrow> (team_error + Team) \<times> 'db" where
  "TeamReparent s orgID teamID newParent db =
     (if newParent = Some teamID then (Inl ErrCycle, db) else ts_Reparent s orgID teamID newParent db)"

definition TeamDelete :: "('db, 'm) TeamStore_scheme \<Rightarrow> uuid \<Rightarrow> uuid \<Rightarrow> 'db \<Rightarrow> (team_error + unit) \<times> 'db" where
  "TeamDelete s orgID teamID db = ts_Delete s orgID teamID db"

definition TeamAddMember ::
    "('db, 'm) TeamStore_scheme \<Rightarrow> uuid \<Rightarrow> uuid \<Rightarrow> uuid \<Rightarrow> string \<Rightarrow> 'db \<Rightarrow> (team_error + Member) \<times> 'db" where
  "TeamAddMember s teamID userID orgID role db =
     (let role = (if role = '''' then ''member'' else role)
      in if \<not> List.member MemberRoles role then (Inl ErrInvalidMemberRole, db)
         else case ts_IsOrgMember s db orgID userID of
           Inl e \<Rightarrow> (Inl e, db)
         | Inr member \<Rightarrow>
             if \<not> member then (Inl ErrUserNotOrgMember, db) else ts_AddMember s teamID userID orgID role db)"

definition TeamRemoveMember ::
    "('db, 'm) TeamStore_scheme \<Rightarrow> uuid \<Rightarrow> uuid \<Rightarrow> uuid \<Rightarrow> 'db \<Rightarrow> (team_error + unit) \<times> 'db" where
  "TeamRemoveMember s teamID userID orgID db = ts_RemoveMember s teamID userID orgID db"

definition TeamListMembers :: "('db, 'm) TeamStore_scheme \<Rightarrow> 'db \<Rightarrow> uuid \<Rightarrow> team_error + Member list" where
  "TeamListMembers s db teamID = ts_ListMembers s db teamID"

definition TeamGetMember :: "('db, 'm) TeamStore_scheme \<Rightarrow> 'db \<Rightarrow> uuid \<Rightarrow> uuid \<Rightarrow> team_error + Member" where
  "TeamGetMember s db teamID userID = ts_GetMember s db teamID userID"

definition TeamSetPrimary ::
    "('db, 'm) TeamStore_scheme \<Rightarrow> uuid \<Rightarrow> uuid \<Rightarrow> uuid \<Rightarrow> 'db \<Rightarrow> (team_error + unit) \<times> 'db" where
  "TeamSetPrimary s teamID userID orgID db = ts_SetPrimary s teamID userID orgID db"

end
