(* ===== verification/TeamStorePg.thy ===== *)
theory TeamStorePg
  imports Teams
begin

text \<open>
  The team store over the database: \<^verbatim>\<open>internal/db/adapters/teams.go\<close> with the statements of
  \<^verbatim>\<open>internal/db/queries/teams.sql\<close> under the constraints of migration 022. The organisations
  table is not modelled, so its foreign key is not either. Row locks are not modelled: a transaction
  runs alone.
\<close>

section \<open>Statements on teams\<close>

definition team_path_ok :: "TeamRow \<Rightarrow> bool" where
  \<comment> \<open>\<open>teams_depth_max\<close> and \<open>teams_path_ends_self\<close>\<close>
  "team_path_ok t \<longleftrightarrow> t_path t \<noteq> [] \<and> length (t_path t) \<le> 5 \<and> last (t_path t) = t_id t"

definition team_exists :: "'x org_db_scheme \<Rightarrow> uuid \<Rightarrow> bool" where
  "team_exists db i \<longleftrightarrow> list_ex (\<lambda>t. t_id t = i) (teams db)"

definition parent_exists :: "'x org_db_scheme \<Rightarrow> uuid option \<Rightarrow> bool" where
  "parent_exists db p \<longleftrightarrow> (case p of None \<Rightarrow> True | Some i \<Rightarrow> team_exists db i)"

definition inserted_path :: "'x org_db_scheme \<Rightarrow> Team \<Rightarrow> uuid list" where
  "inserted_path db t =
     (case team_ParentID t of
        None \<Rightarrow> []
      | Some p \<Rightarrow>
          (case List.find (\<lambda>r. t_id r = p \<and> t_org r = team_OrgID t \<and> live_team r) (teams db) of
             None \<Rightarrow> [] | Some r \<Rightarrow> t_path r)) @ [team_ID t]"

definition q_CreateTeam :: "Team \<Rightarrow> ('x org_db_scheme, sql_error, TeamRow) stmt" where
  "q_CreateTeam t db =
     (let row = \<lparr>t_id = team_ID t, t_org = team_OrgID t, t_parent = team_ParentID t, t_path = inserted_path db t,
                 t_slug = team_Slug t, t_name = team_Name t, t_description = team_Description t,
                 t_default = team_IsDefault t, t_deleted = False\<rparr>
      in if \<not> db_up db then Inl SqlDown
         else if \<not> team_path_ok row then Inl (SqlCheck ''teams_depth_max'')
         else if team_exists db (t_id row) then Inl (SqlUnique ''teams_pkey'')
         else if list_ex (\<lambda>r. t_org r = t_org row \<and> t_slug r = t_slug row) (teams db)
           then Inl (SqlUnique ''teams_org_id_slug_key'')
         else if t_default row \<and> list_ex (\<lambda>r. t_org r = t_org row \<and> t_default r \<and> live_team r) (teams db)
           then Inl (SqlUnique ''teams_one_default'')
         else if \<not> parent_exists db (t_parent row) then Inl SqlForeignKey
         else Inr (row, db\<lparr>teams := teams db @ [row]\<rparr>))"

definition q_GetDefaultTeam :: "'x org_db_scheme \<Rightarrow> uuid \<Rightarrow> TeamRow option" where
  "q_GetDefaultTeam db org = List.find (\<lambda>t. t_org t = org \<and> t_default t \<and> live_team t) (teams db)"

definition q_GetTeamForUpdate :: "'x org_db_scheme \<Rightarrow> uuid \<Rightarrow> TeamRow option" where
  "q_GetTeamForUpdate db i = List.find (\<lambda>t. t_id t = i \<and> live_team t) (teams db)"

definition q_UpdateTeam :: "uuid \<Rightarrow> string \<Rightarrow> string \<Rightarrow> ('x org_db_scheme, sql_error, TeamRow) stmt" where
  "q_UpdateTeam i name description db =
     (if \<not> db_up db then Inl SqlDown
      else case q_GetTeamByID db i of
        None \<Rightarrow> Inl SqlNoRows
      | Some t \<Rightarrow> Inr (t\<lparr>t_name := name, t_description := description\<rparr>,
          db\<lparr>teams := map (\<lambda>r. if t_id r = i \<and> live_team r then r\<lparr>t_name := name, t_description := description\<rparr> else r)
                        (teams db)\<rparr>))"

definition in_team_subtree :: "uuid \<Rightarrow> uuid \<Rightarrow> TeamRow \<Rightarrow> bool" where
  "in_team_subtree org team t \<longleftrightarrow> t_org t = org \<and> List.member (t_path t) team \<and> live_team t"

definition q_ListSubtreeForUpdate :: "'x org_db_scheme \<Rightarrow> uuid \<Rightarrow> uuid \<Rightarrow> TeamRow list" where
  "q_ListSubtreeForUpdate db org team =
     sort_key (\<lambda>t. length (t_path t)) (filter (in_team_subtree org team) (teams db))"

text \<open>\<open>path[array_position(path, team):]\<close> is what is left from the team on.\<close>

definition reparented :: "uuid list \<Rightarrow> uuid \<Rightarrow> uuid option \<Rightarrow> TeamRow \<Rightarrow> TeamRow" where
  "reparented newPath team newParent t =
     t\<lparr>t_path := newPath @ dropWhile (\<lambda>x. x \<noteq> team) (t_path t),
       t_parent := if t_id t = team then newParent else t_parent t\<rparr>"

definition q_ReparentSubtree ::
    "uuid list \<Rightarrow> uuid \<Rightarrow> uuid option \<Rightarrow> uuid \<Rightarrow> ('x org_db_scheme, sql_error, unit) stmt" where
  "q_ReparentSubtree newPath team newParent org db =
     (let rows = map (\<lambda>t. if in_team_subtree org team t then reparented newPath team newParent t else t) (teams db)
      in if \<not> db_up db then Inl SqlDown
         else if \<not> list_all team_path_ok (map (reparented newPath team newParent) (filter (in_team_subtree org team) (teams db)))
           then Inl (SqlCheck ''teams_depth_max'')
         else if \<not> parent_exists db newParent then Inl SqlForeignKey
         else Inr ((), db\<lparr>teams := rows\<rparr>))"

definition q_CountTeamOwnedSpaces :: "'x org_db_scheme \<Rightarrow> uuid \<Rightarrow> nat" where
  "q_CountTeamOwnedSpaces db team = length (filter (\<lambda>s. s_owner_team s = team \<and> \<not> s_deleted s) (spaces db))"

definition q_DeleteGrantsBySubjectTeam :: "uuid \<Rightarrow> ('x org_db_scheme, sql_error, unit) stmt" where
  "q_DeleteGrantsBySubjectTeam team db =
     (if \<not> db_up db then Inl SqlDown
      else Inr ((), db\<lparr>space_grants :=
        filter (\<lambda>g. \<not> (g_subject_type g = ''team'' \<and> g_subject_id g = team)) (space_grants db)\<rparr>))"

definition q_SoftDeleteTeam :: "uuid \<Rightarrow> ('x org_db_scheme, sql_error, unit) stmt" where
  "q_SoftDeleteTeam i db =
     (if \<not> db_up db then Inl SqlDown
      else Inr ((), db\<lparr>teams := map (\<lambda>t. if t_id t = i \<and> live_team t then t\<lparr>t_deleted := True\<rparr> else t) (teams db)\<rparr>))"

definition q_InsertDefaultTeamIfAbsent :: "uuid \<Rightarrow> uuid \<Rightarrow> string \<Rightarrow> ('x org_db_scheme, sql_error, unit) stmt" where
  "q_InsertDefaultTeamIfAbsent i org description db =
     (if \<not> db_up db then Inl SqlDown
      else if team_exists db i \<or>
              list_ex (\<lambda>r. t_org r = org \<and> t_slug r = ''default'') (teams db) \<or>
              list_ex (\<lambda>r. t_org r = org \<and> t_default r \<and> live_team r) (teams db)
        then Inr ((), db)
      else Inr ((), db\<lparr>teams := teams db @
        [\<lparr>t_id = i, t_org = org, t_parent = None, t_path = [i], t_slug = ''default'', t_name = ''Default'',
          t_description = description, t_default = True, t_deleted = False\<rparr>]\<rparr>))"

section \<open>Statements on memberships\<close>

text \<open>The index \<open>team_members_one_primary\<close>.\<close>

definition one_primary :: "TeamMemberRow list \<Rightarrow> bool" where
  "one_primary tms \<longleftrightarrow> distinct (map (\<lambda>m. (tm_user m, tm_org m)) (filter tm_primary tms))"

definition set_members ::
    "TeamMemberRow list \<Rightarrow> ('x org_db_scheme, sql_error, unit) stmt" where
  "set_members tms db =
     (if \<not> db_up db then Inl SqlDown
      else if \<not> one_primary tms then Inl (SqlUnique ''team_members_one_primary'')
      else Inr ((), db\<lparr>team_members := tms\<rparr>))"

definition q_GetTeamMember :: "'x org_db_scheme \<Rightarrow> uuid \<Rightarrow> uuid \<Rightarrow> TeamMemberRow option" where
  "q_GetTeamMember db team user = List.find (\<lambda>m. tm_team m = team \<and> tm_user m = user) (team_members db)"

definition q_GetPrimaryTeamMember :: "'x org_db_scheme \<Rightarrow> uuid \<Rightarrow> uuid \<Rightarrow> TeamMemberRow option" where
  "q_GetPrimaryTeamMember db user org =
     List.find (\<lambda>m. tm_user m = user \<and> tm_org m = org \<and> tm_primary m) (team_members db)"

definition q_AddTeamMember :: "TeamMemberRow \<Rightarrow> ('x org_db_scheme, sql_error, TeamMemberRow) stmt" where
  "q_AddTeamMember row db =
     (if \<not> db_up db then Inl SqlDown
      else if \<not> List.member [''member'', ''lead''] (tm_role row) then Inl (SqlCheck ''team_members_role_valid'')
      else case q_GetTeamMember db (tm_team row) (tm_user row) of
        Some m \<Rightarrow> Inr (m\<lparr>tm_role := tm_role row\<rparr>,
          db\<lparr>team_members := map (\<lambda>x. if tm_team x = tm_team row \<and> tm_user x = tm_user row
                                     then x\<lparr>tm_role := tm_role row\<rparr> else x) (team_members db)\<rparr>)
      | None \<Rightarrow>
          if \<not> team_exists db (tm_team row) \<or> \<not> user_exists db (tm_user row) then Inl SqlForeignKey
          else sseq (set_members (team_members db @ [row])) (sret row) db)"

definition q_RemoveTeamMember :: "uuid \<Rightarrow> uuid \<Rightarrow> ('x org_db_scheme, sql_error, unit) stmt" where
  "q_RemoveTeamMember team user db =
     (if \<not> db_up db then Inl SqlDown
      else Inr ((), db\<lparr>team_members := filter (\<lambda>m. \<not> (tm_team m = team \<and> tm_user m = user)) (team_members db)\<rparr>))"

definition q_DeleteTeamMembers :: "uuid \<Rightarrow> ('x org_db_scheme, sql_error, unit) stmt" where
  "q_DeleteTeamMembers team db =
     (if \<not> db_up db then Inl SqlDown
      else Inr ((), db\<lparr>team_members := filter (\<lambda>m. tm_team m \<noteq> team) (team_members db)\<rparr>))"

definition q_BulkEnrollInTeam :: "uuid \<Rightarrow> uuid \<Rightarrow> ('x org_db_scheme, sql_error, unit) stmt" where
  "q_BulkEnrollInTeam dest src db =
     (if \<not> db_up db then Inl SqlDown
      else if \<not> team_exists db dest then Inl SqlForeignKey
      else Inr ((), db\<lparr>team_members := team_members db @
        map (\<lambda>m. \<lparr>tm_team = dest, tm_user = tm_user m, tm_org = tm_org m, tm_role = ''member'', tm_primary = False\<rparr>)
          (filter (\<lambda>m. tm_team m = src \<and> q_GetTeamMember db dest (tm_user m) = None) (team_members db))\<rparr>))"

definition q_ListPrimaryUserIDsOfTeam :: "'x org_db_scheme \<Rightarrow> uuid \<Rightarrow> uuid list" where
  "q_ListPrimaryUserIDsOfTeam db team = map tm_user (filter (\<lambda>m. tm_team m = team \<and> tm_primary m) (team_members db))"

definition q_SetPrimaryForUsers :: "uuid \<Rightarrow> uuid list \<Rightarrow> ('x org_db_scheme, sql_error, unit) stmt" where
  "q_SetPrimaryForUsers team us db =
     set_members (map (\<lambda>m. if tm_team m = team \<and> List.member us (tm_user m) then m\<lparr>tm_primary := True\<rparr> else m)
       (team_members db)) db"

definition q_SetPrimaryFlag :: "uuid \<Rightarrow> uuid \<Rightarrow> ('x org_db_scheme, sql_error, unit) stmt" where
  "q_SetPrimaryFlag team user db =
     set_members (map (\<lambda>m. if tm_team m = team \<and> tm_user m = user then m\<lparr>tm_primary := True\<rparr> else m)
       (team_members db)) db"

definition q_ClearPrimaryTeam :: "uuid \<Rightarrow> uuid \<Rightarrow> ('x org_db_scheme, sql_error, unit) stmt" where
  "q_ClearPrimaryTeam user org db =
     set_members (map (\<lambda>m. if tm_user m = user \<and> tm_org m = org \<and> tm_primary m then m\<lparr>tm_primary := False\<rparr> else m)
       (team_members db)) db"

definition in_live_team :: "'x org_db_scheme \<Rightarrow> TeamMemberRow \<Rightarrow> bool" where
  "in_live_team db m \<longleftrightarrow> q_GetTeamByID db (tm_team m) \<noteq> None"

definition q_CountUserTeamsInOrg :: "'x org_db_scheme \<Rightarrow> uuid \<Rightarrow> uuid \<Rightarrow> nat" where
  "q_CountUserTeamsInOrg db user org =
     length (filter (\<lambda>m. tm_user m = user \<and> tm_org m = org \<and> in_live_team db m) (team_members db))"

definition q_GetFallbackPrimaryTeam :: "'x org_db_scheme \<Rightarrow> uuid \<Rightarrow> uuid \<Rightarrow> uuid option" where
  "q_GetFallbackPrimaryTeam db user org =
     (let ms = filter (\<lambda>m. tm_user m = user \<and> tm_org m = org \<and> in_live_team db m) (team_members db)
      in case List.find (\<lambda>m. t_default (the (q_GetTeamByID db (tm_team m)))) ms of
           Some m \<Rightarrow> Some (tm_team m)
         | None \<Rightarrow> (case ms of [] \<Rightarrow> None | m # _ \<Rightarrow> Some (tm_team m)))"

definition q_ListTeamMembers :: "'x org_db_scheme \<Rightarrow> uuid \<Rightarrow> (TeamMemberRow \<times> UserRow) list" where
  "q_ListTeamMembers db team =
     concat (map (\<lambda>m. case List.find (\<lambda>u. u_id u = tm_user m \<and> \<not> u_deleted u) (users db) of
                        None \<Rightarrow> [] | Some u \<Rightarrow> [(m, u)])
       (filter (\<lambda>m. tm_team m = team) (team_members db)))"


section \<open>The adapter\<close>

definition dbTeamToDomain :: "TeamRow \<Rightarrow> Team" where
  "dbTeamToDomain t =
     \<lparr>team_ID = t_id t, team_OrgID = t_org t, team_ParentID = t_parent t, team_Path = t_path t,
      team_Slug = t_slug t, team_Name = t_name t, team_Description = t_description t, team_IsDefault = t_default t\<rparr>"

definition dbMemberToDomain :: "TeamMemberRow \<Rightarrow> Member" where
  "dbMemberToDomain m =
     \<lparr>mb_TeamID = tm_team m, mb_UserID = tm_user m, mb_OrgID = tm_org m, mb_Role = tm_role m,
      mb_IsPrimary = tm_primary m, mb_Email = '''', mb_DisplayName = ''''\<rparr>"

text \<open>A read that fails with \<open>what\<close> and answers \<open>e\<close> when there is no row; a statement whose every
  failure is wrapped.\<close>

definition team_read :: "string \<Rightarrow> ('x org_db_scheme \<Rightarrow> 'a) \<Rightarrow> 'x org_db_scheme \<Rightarrow> team_error + 'a" where
  "team_read what q db = (if db_up db then Inr (q db) else Inl (ErrTeamDatabase what))"

definition team_row ::
    "team_error \<Rightarrow> string \<Rightarrow> ('x org_db_scheme \<Rightarrow> 'a option) \<Rightarrow> 'x org_db_scheme \<Rightarrow> team_error + 'a" where
  "team_row e what q db =
     (if \<not> db_up db then Inl (ErrTeamDatabase what)
      else case q db of None \<Rightarrow> Inl e | Some x \<Rightarrow> Inr x)"

definition wrap_team :: "string \<Rightarrow> ('s, sql_error, 'a) stmt \<Rightarrow> ('s, team_error, 'a) stmt" where
  "wrap_team what m db = (case m db of Inl _ \<Rightarrow> Inl (ErrTeamDatabase what) | Inr r \<Rightarrow> Inr r)"

definition lock_parent :: "Team \<Rightarrow> ('x org_db_scheme, team_error, unit) stmt" where
  "lock_parent t =
     (case team_ParentID t of
        None \<Rightarrow> sret ()
      | Some p \<Rightarrow>
          sbind (sread (team_row ErrParentNotFound ''locking parent team'' (\<lambda>db. q_GetTeamForUpdate db p))) (\<lambda>parent.
          sseq (scheck (t_org parent = team_OrgID t) ErrParentNotFound)
               (scheck (length (t_path parent) + 1 \<le> MaxDepth) ErrDepthExceeded)))"

definition insert_team :: "Team \<Rightarrow> ('x org_db_scheme, team_error, TeamRow) stmt" where
  "insert_team t db =
     (case q_CreateTeam t db of
        Inl e \<Rightarrow> Inl (if uniqueViolation e = Some ''teams_org_id_slug_key'' then ErrSlugTaken
                       else ErrTeamDatabase ''creating team'')
      | Inr r \<Rightarrow> Inr r)"

definition pg_TeamCreate :: "Team \<Rightarrow> 'x org_db_scheme \<Rightarrow> (team_error + Team) \<times> 'x org_db_scheme" where
  "pg_TeamCreate t =
     in_tx (sseq (lock_parent t)
       (sbind (insert_team t) (\<lambda>row. sret (dbTeamToDomain row))))"

definition pg_TeamGet :: "'x org_db_scheme \<Rightarrow> uuid \<Rightarrow> team_error + Team" where
  "pg_TeamGet db i = map_sum id dbTeamToDomain (team_row ErrTeamNotFound ''getting team'' (\<lambda>db. q_GetTeamByID db i) db)"

definition pg_TeamGetDefault :: "'x org_db_scheme \<Rightarrow> uuid \<Rightarrow> team_error + Team" where
  "pg_TeamGetDefault db org =
     map_sum id dbTeamToDomain (team_row ErrTeamNotFound ''getting default team'' (\<lambda>db. q_GetDefaultTeam db org) db)"

definition pg_TeamListByOrg :: "'x org_db_scheme \<Rightarrow> uuid \<Rightarrow> team_error + Team list" where
  "pg_TeamListByOrg db org =
     map_sum id (map dbTeamToDomain) (team_read ''listing teams'' (\<lambda>db. q_ListTeamsByOrg db org) db)"

definition pg_TeamUpdate ::
    "uuid \<Rightarrow> string \<Rightarrow> string \<Rightarrow> 'x org_db_scheme \<Rightarrow> (team_error + Team) \<times> 'x org_db_scheme" where
  "pg_TeamUpdate i name description db =
     (case q_UpdateTeam i name description db of
        Inl e \<Rightarrow> (Inl (if e = SqlNoRows then ErrTeamNotFound else ErrTeamDatabase ''updating team''), db)
      | Inr (row, db') \<Rightarrow> (Inr (dbTeamToDomain row), db'))"

definition lockReparentTarget ::
    "uuid \<Rightarrow> uuid \<Rightarrow> uuid option \<Rightarrow> 'x org_db_scheme \<Rightarrow> team_error + uuid list" where
  "lockReparentTarget orgID teamID newParent db =
     (case newParent of
        None \<Rightarrow> Inr []
      | Some p \<Rightarrow>
          rbind (team_row ErrParentNotFound ''locking new parent'' (\<lambda>db. q_GetTeamForUpdate db p) db) (\<lambda>parent.
            if t_org parent \<noteq> orgID then Inl ErrParentNotFound
            else if List.member (t_path parent) teamID then Inl ErrCycle
            else Inr (t_path parent)))"

definition subtreeHeight :: "TeamRow list \<Rightarrow> nat" where
  "subtreeHeight subtree =
     fold (\<lambda>node height. max (length (t_path node) + 1 - length (t_path (hd subtree))) height) subtree 0"

text \<open>The subtree of a mutation: empty or led by another team, it answers not found.\<close>

definition lock_subtree :: "string \<Rightarrow> uuid \<Rightarrow> uuid \<Rightarrow> ('x org_db_scheme, team_error, TeamRow list) stmt" where
  "lock_subtree what orgID teamID =
     sbind (sread (team_read what (\<lambda>db. q_ListSubtreeForUpdate db orgID teamID))) (\<lambda>subtree.
     sseq (scheck (subtree \<noteq> [] \<and> t_id (hd subtree) = teamID) ErrTeamNotFound)
     (sseq (scheck (\<not> t_default (hd subtree)) ErrDefaultTeam) (sret subtree)))"

definition pg_TeamReparent ::
    "uuid \<Rightarrow> uuid \<Rightarrow> uuid option \<Rightarrow> 'x org_db_scheme \<Rightarrow> (team_error + Team) \<times> 'x org_db_scheme" where
  "pg_TeamReparent orgID teamID newParent =
     in_tx (sbind (lock_subtree ''locking subtree'' orgID teamID) (\<lambda>subtree.
       sbind (sread (lockReparentTarget orgID teamID newParent)) (\<lambda>newParentPath.
       sseq (scheck (length newParentPath + subtreeHeight subtree \<le> MaxDepth) ErrDepthExceeded)
       (sseq (wrap_team ''rewriting subtree paths'' (q_ReparentSubtree newParentPath teamID newParent orgID))
       (sbind (sread (team_row (ErrTeamDatabase ''reloading moved team'') ''reloading moved team''
                 (\<lambda>db. q_GetTeamByID db teamID))) (\<lambda>refreshed.
         sret (dbTeamToDomain refreshed)))))))"

definition lockTeamForDeletion :: "uuid \<Rightarrow> uuid \<Rightarrow> ('x org_db_scheme, team_error, unit) stmt" where
  "lockTeamForDeletion orgID teamID =
     sbind (lock_subtree ''locking team'' orgID teamID) (\<lambda>subtree.
     sseq (scheck (length subtree \<le> 1) ErrHasChildren)
     (sbind (sread (team_read ''counting owned spaces'' (\<lambda>db. q_CountTeamOwnedSpaces db teamID))) (\<lambda>owned.
       scheck (owned = 0) ErrOwnsSpaces)))"

definition default_team :: "uuid \<Rightarrow> ('x org_db_scheme, team_error, TeamRow) stmt" where
  "default_team orgID =
     sread (team_row (ErrTeamDatabase ''resolving default team'') ''resolving default team'' (\<lambda>db. q_GetDefaultTeam db orgID))"

definition migrateMembersToDefault :: "uuid \<Rightarrow> uuid \<Rightarrow> ('x org_db_scheme, team_error, unit) stmt" where
  "migrateMembersToDefault orgID teamID =
     sbind (default_team orgID) (\<lambda>d.
     sbind (sread (team_read ''listing primary members'' (\<lambda>db. q_ListPrimaryUserIDsOfTeam db teamID))) (\<lambda>primaries.
     sseq (wrap_team ''moving members to default team'' (q_BulkEnrollInTeam (t_id d) teamID))
     (sseq (wrap_team ''removing old memberships'' (q_DeleteTeamMembers teamID))
       (if length primaries > 0
        then wrap_team ''reassigning primary team'' (q_SetPrimaryForUsers (t_id d) primaries)
        else sret ()))))"

definition pg_TeamDelete :: "uuid \<Rightarrow> uuid \<Rightarrow> 'x org_db_scheme \<Rightarrow> (team_error + unit) \<times> 'x org_db_scheme" where
  "pg_TeamDelete orgID teamID =
     in_tx (sseq (lockTeamForDeletion orgID teamID)
       (sseq (migrateMembersToDefault orgID teamID)
       (sseq (wrap_team ''removing team grants'' (q_DeleteGrantsBySubjectTeam teamID))
             (wrap_team ''deleting team'' (q_SoftDeleteTeam teamID)))))"


definition member_params :: "uuid \<Rightarrow> uuid \<Rightarrow> uuid \<Rightarrow> string \<Rightarrow> bool \<Rightarrow> TeamMemberRow" where
  "member_params team user org role primary =
     \<lparr>tm_team = team, tm_user = user, tm_org = org, tm_role = role, tm_primary = primary\<rparr>"

text \<open>\<open>AddMember\<close> reads and writes outside a transaction; only the second statement writes.\<close>

definition pg_AddMember ::
    "uuid \<Rightarrow> uuid \<Rightarrow> uuid \<Rightarrow> string \<Rightarrow> 'x org_db_scheme \<Rightarrow> (team_error + Member) \<times> 'x org_db_scheme" where
  "pg_AddMember teamID userID orgID role db =
     (case pg_TeamGet db teamID of
        Inl e \<Rightarrow> (Inl e, db)
      | Inr team \<Rightarrow>
          if team_OrgID team \<noteq> orgID then (Inl ErrTeamNotFound, db)
          else case q_AddTeamMember (member_params teamID userID orgID role False) db of
            Inl _ \<Rightarrow> (Inl (ErrTeamDatabase ''adding team member''), db)
          | Inr (row, db') \<Rightarrow> (Inr (dbMemberToDomain row), db'))"

definition restoreMembershipInvariants :: "uuid \<Rightarrow> uuid \<Rightarrow> bool \<Rightarrow> ('x org_db_scheme, team_error, unit) stmt" where
  "restoreMembershipInvariants orgID userID wasPrimary =
     sbind (sread (team_read ''counting remaining teams'' (\<lambda>db. q_CountUserTeamsInOrg db userID orgID))) (\<lambda>remaining.
       if remaining = 0 then
         sbind (default_team orgID) (\<lambda>d.
         sseq (wrap_team ''re-adding to default team''
                (q_AddTeamMember (member_params (t_id d) userID orgID ''member'' True)))
              (sret ()))
       else if wasPrimary then
         sbind (sread (team_row (ErrTeamDatabase ''resolving fallback primary'') ''resolving fallback primary''
                  (\<lambda>db. q_GetFallbackPrimaryTeam db userID orgID))) (\<lambda>fallback.
           wrap_team ''reassigning primary'' (q_SetPrimaryFlag fallback userID))
       else sret ())"

definition pg_RemoveMember ::
    "uuid \<Rightarrow> uuid \<Rightarrow> uuid \<Rightarrow> 'x org_db_scheme \<Rightarrow> (team_error + unit) \<times> 'x org_db_scheme" where
  "pg_RemoveMember teamID userID orgID =
     in_tx (sbind (sread (team_row ErrMemberNotFound ''loading membership'' (\<lambda>db. q_GetTeamMember db teamID userID))) (\<lambda>existing.
       sseq (wrap_team ''removing membership'' (q_RemoveTeamMember teamID userID))
            (restoreMembershipInvariants orgID userID (tm_primary existing))))"

definition pg_ListMembers :: "'x org_db_scheme \<Rightarrow> uuid \<Rightarrow> team_error + Member list" where
  "pg_ListMembers db teamID =
     map_sum id (map (\<lambda>(m, u). (dbMemberToDomain m)\<lparr>mb_Email := u_email u, mb_DisplayName := u_display_name u\<rparr>))
       (team_read ''listing team members'' (\<lambda>db. q_ListTeamMembers db teamID) db)"

definition pg_GetMember :: "'x org_db_scheme \<Rightarrow> uuid \<Rightarrow> uuid \<Rightarrow> team_error + Member" where
  "pg_GetMember db teamID userID =
     map_sum id dbMemberToDomain
       (team_row ErrMemberNotFound ''getting team member'' (\<lambda>db. q_GetTeamMember db teamID userID) db)"

definition pg_SetPrimary ::
    "uuid \<Rightarrow> uuid \<Rightarrow> uuid \<Rightarrow> 'x org_db_scheme \<Rightarrow> (team_error + unit) \<times> 'x org_db_scheme" where
  "pg_SetPrimary teamID userID orgID =
     in_tx (sbind (sread (team_row ErrMemberNotFound ''loading membership'' (\<lambda>db. q_GetTeamMember db teamID userID))) (\<lambda>_.
       sseq (wrap_team ''clearing primary'' (q_ClearPrimaryTeam userID orgID))
            (wrap_team ''setting primary'' (q_SetPrimaryFlag teamID userID))))"

definition pg_EnsureDefaultMembership ::
    "uuid \<Rightarrow> uuid \<Rightarrow> 'x org_db_scheme \<Rightarrow> (team_error + unit) \<times> 'x org_db_scheme" where
  "pg_EnsureDefaultMembership orgID userID =
     in_tx (sbind (default_team orgID) (\<lambda>d.
       sbind (sread (team_read ''checking primary membership'' (\<lambda>db. q_GetPrimaryTeamMember db userID orgID \<noteq> None)))
         (\<lambda>hasPrimary.
       sseq (wrap_team ''enrolling in default team''
              (q_AddTeamMember (member_params (t_id d) userID orgID ''member'' False)))
         (if \<not> hasPrimary then wrap_team ''marking default primary'' (q_SetPrimaryFlag (t_id d) userID)
          else sret ()))))"

definition pg_TeamIsOrgMember :: "'x org_db_scheme \<Rightarrow> uuid \<Rightarrow> uuid \<Rightarrow> team_error + bool" where
  "pg_TeamIsOrgMember db orgID userID =
     team_read ''checking org membership'' (\<lambda>db. q_GetMembership db orgID userID \<noteq> None) db"

definition SeedDefaultTeam :: "uuid \<Rightarrow> uuid \<Rightarrow> 'x org_db_scheme \<Rightarrow> (team_error + unit) \<times> 'x org_db_scheme" where
  "SeedDefaultTeam newID orgID db =
     (if \<not> db_up db then (Inl (ErrTeamDatabase ''checking default team''), db)
      else case q_GetDefaultTeam db orgID of
        Some _ \<Rightarrow> (Inr (), db)
      | None \<Rightarrow>
          (case q_InsertDefaultTeamIfAbsent newID orgID
                  ''Org default team. Every member belongs here until assigned elsewhere.'' db of
             Inl _ \<Rightarrow> (Inl (ErrTeamDatabase ''seeding default team''), db)
           | Inr (_, db') \<Rightarrow> (Inr (), db')))"

definition pg_team_store :: "'x org_db_scheme TeamStore" where
  "pg_team_store =
     \<lparr>ts_Create = pg_TeamCreate, ts_Get = pg_TeamGet, ts_GetDefault = pg_TeamGetDefault,
      ts_ListByOrg = pg_TeamListByOrg, ts_Update = pg_TeamUpdate, ts_Reparent = pg_TeamReparent,
      ts_Delete = pg_TeamDelete, ts_AddMember = pg_AddMember, ts_RemoveMember = pg_RemoveMember,
      ts_ListMembers = pg_ListMembers, ts_GetMember = pg_GetMember, ts_SetPrimary = pg_SetPrimary,
      ts_EnsureDefaultMembership = pg_EnsureDefaultMembership, ts_IsOrgMember = pg_TeamIsOrgMember\<rparr>"

lemma pg_team_store_simps [simp]:
  "ts_Create pg_team_store = pg_TeamCreate" "ts_Get pg_team_store = pg_TeamGet"
  "ts_GetDefault pg_team_store = pg_TeamGetDefault" "ts_ListByOrg pg_team_store = pg_TeamListByOrg"
  "ts_Update pg_team_store = pg_TeamUpdate" "ts_Reparent pg_team_store = pg_TeamReparent"
  "ts_Delete pg_team_store = pg_TeamDelete" "ts_AddMember pg_team_store = pg_AddMember"
  "ts_RemoveMember pg_team_store = pg_RemoveMember" "ts_ListMembers pg_team_store = pg_ListMembers"
  "ts_GetMember pg_team_store = pg_GetMember" "ts_SetPrimary pg_team_store = pg_SetPrimary"
  "ts_EnsureDefaultMembership pg_team_store = pg_EnsureDefaultMembership"
  "ts_IsOrgMember pg_team_store = pg_TeamIsOrgMember"
  by (simp_all add: pg_team_store_def)

end
