(* ===== verification/TeamForest.thy ===== *)
theory TeamForest
  imports TeamStorePg
begin

text \<open>
  The team hierarchy behind the materialised paths: the parent relation of the live teams, the
  invariant that ties every path to it, and what creating, moving and deleting a team do to both.
\<close>

section \<open>The forest\<close>

definition live_teams :: "'x org_db_scheme \<Rightarrow> TeamRow list" where
  "live_teams db = filter live_team (teams db)"

definition chained :: "'x org_db_scheme \<Rightarrow> TeamRow \<Rightarrow> bool" where
  "chained db t \<longleftrightarrow>
     (case t_parent t of
        None \<Rightarrow> t_path t = [t_id t]
      | Some q \<Rightarrow> \<exists>p \<in> set (live_teams db). t_id p = q \<and> t_org p = t_org t \<and> t_path t = t_path p @ [t_id t])"

definition team_forest :: "'x org_db_scheme \<Rightarrow> bool" where
  "team_forest db \<longleftrightarrow>
     distinct (map t_id (teams db)) \<and>
     (\<forall>t \<in> set (live_teams db). chained db t) \<and>
     (\<forall>t \<in> set (live_teams db). length (t_path t) \<le> MaxDepth)"

definition child_of :: "'x org_db_scheme \<Rightarrow> (uuid \<times> uuid) set" where
  "child_of db = {(t_id p, t_id t) |p t. p \<in> set (live_teams db) \<and> t \<in> set (live_teams db) \<and>
     t_parent t = Some (t_id p)}"

lemma live_teams_iff: "t \<in> set (live_teams db) \<longleftrightarrow> t \<in> set (teams db) \<and> live_team t"
  by (auto simp: live_teams_def)

lemma live_team_unique:
  assumes "team_forest db" and "t \<in> set (live_teams db)" and "t' \<in> set (live_teams db)" and "t_id t = t_id t'"
  shows "t = t'"
  using assms by (auto simp: team_forest_def live_teams_iff dest: distinct_key)

lemma forest_chain:
  assumes "team_forest db" and "t \<in> set (live_teams db)"
  shows "case t_parent t of
     None \<Rightarrow> t_path t = [t_id t]
   | Some q \<Rightarrow> \<exists>p \<in> set (live_teams db). t_id p = q \<and> t_org p = t_org t \<and> t_path t = t_path p @ [t_id t]"
  using assms by (simp add: team_forest_def chained_def)

lemma forest_parent:
  assumes "team_forest db" and "t \<in> set (live_teams db)" and "t_parent t = Some q"
  obtains p where "p \<in> set (live_teams db)" and "t_id p = q" and "t_org p = t_org t" and "t_path t = t_path p @ [t_id t]"
  using forest_chain [OF assms(1,2)] assms(3) by auto

lemma forest_child:
  assumes f: "team_forest db" and t: "t \<in> set (live_teams db)" and p: "p \<in> set (live_teams db)"
    and q: "t_parent t = Some (t_id p)"
  shows "t_org p = t_org t \<and> t_path t = t_path p @ [t_id t]"
proof -
  from forest_parent [OF f t q] obtain p' where
    "p' \<in> set (live_teams db)" "t_id p' = t_id p" "t_org p' = t_org t" "t_path t = t_path p' @ [t_id t]" .
  with live_team_unique [OF f _ p] show ?thesis by blast
qed

lemma last_path: "team_forest db \<Longrightarrow> t \<in> set (live_teams db) \<Longrightarrow> t_path t \<noteq> [] \<and> last (t_path t) = t_id t"
  by (drule forest_chain, assumption) (auto split: option.splits)

text \<open>Every entry of a path is a live team of the same organisation whose own path ends there.\<close>

lemma path_prefix:
  assumes f: "team_forest db" and "t \<in> set (live_teams db)" and "x \<in> set (t_path t)"
  shows "\<exists>a \<in> set (live_teams db). t_id a = x \<and> t_org a = t_org t \<and> (\<exists>rest. t_path t = t_path a @ rest) \<and>
    (x, t_id t) \<in> (child_of db)\<^sup>*"
  using assms(2,3)
proof (induction "length (t_path t)" arbitrary: t rule: less_induct)
  case less
  show ?case
  proof (cases "x = t_id t")
    case True
    then show ?thesis using less.prems(1) by (intro bexI [of _ t]) auto
  next
    case False
    show ?thesis
    proof (cases "t_parent t")
      case None
      then show ?thesis using forest_chain [OF f less.prems(1)] less.prems(2) False by auto
    next
      case (Some q)
      from forest_parent [OF f less.prems(1) Some] obtain p where
        p: "p \<in> set (live_teams db)" "t_id p = q" "t_org p = t_org t" "t_path t = t_path p @ [t_id t]" .
      have "x \<in> set (t_path p)" and "length (t_path p) < length (t_path t)"
        using less.prems(2) False p(4) by auto
      from less.hyps [OF this(2) p(1) this(1)] obtain a rest where a: "a \<in> set (live_teams db)" "t_id a = x"
        "t_org a = t_org p" "t_path p = t_path a @ rest" "(x, t_id p) \<in> (child_of db)\<^sup>*" by blast
      have "(t_id p, t_id t) \<in> child_of db"
        using p less.prems(1) Some by (auto simp: child_of_def)
      with a p show ?thesis by (auto intro: rtrancl_into_rtrancl)
    qed
  qed
qed

lemma child_of_live: "(a, b) \<in> child_of db \<Longrightarrow> (\<exists>t \<in> set (live_teams db). t_id t = a) \<and> (\<exists>t \<in> set (live_teams db). t_id t = b)"
  by (auto simp: child_of_def)

text \<open>The path of a live team lists its ancestors and itself.\<close>

lemma path_is_ancestors:
  assumes f: "team_forest db" and t: "t \<in> set (live_teams db)"
  shows "x \<in> set (t_path t) \<longleftrightarrow> (x, t_id t) \<in> (child_of db)\<^sup>*"
proof
  assume "x \<in> set (t_path t)"
  from path_prefix [OF f t this] show "(x, t_id t) \<in> (child_of db)\<^sup>*" by blast
next
  assume "(x, t_id t) \<in> (child_of db)\<^sup>*"
  moreover have "t_id t \<in> set (t_path t)" using last_path [OF f t] last_in_set by fastforce
  ultimately show "x \<in> set (t_path t)"
    using t
  proof (induction "t_id t" arbitrary: t rule: rtrancl_induct)
    case base
    then show ?case by simp
  next
    case (step y)
    obtain p t' where e: "p \<in> set (live_teams db)" "t' \<in> set (live_teams db)" "t_id p = y" "t_id t' = t_id t"
      "t_parent t' = Some (t_id p)"
      using step.hyps(2) by (auto simp: child_of_def)
    have [simp]: "t' = t" using live_team_unique [OF f e(2) step.prems(2) e(4)] .
    have "t_path t = t_path p @ [t_id t]" using forest_child [OF f e(2,1,5)] by simp
    moreover have "t_id p \<in> set (t_path p)" using last_path [OF f e(1)] last_in_set by fastforce
    ultimately show ?case using step.hyps(3) [OF e(3) [symmetric] _ e(1)] e(3) by simp
  qed
qed

lemma forest_acyclic:
  assumes f: "team_forest db"
  shows "acyclic (child_of db)"
proof -
  let ?len = "\<lambda>i. length (t_path (the (List.find (\<lambda>t. t_id t = i \<and> live_team t) (teams db))))"
  have find: "List.find (\<lambda>r. t_id r = t_id t \<and> live_team r) (teams db) = Some t" if "t \<in> set (live_teams db)" for t
    by (rule find_the_unique) (use that f in \<open>auto simp: live_teams_iff team_forest_def dest: distinct_key\<close>)
  have "child_of db \<subseteq> measure ?len"
  proof
    fix e assume "e \<in> child_of db"
    then obtain p t where e: "e = (t_id p, t_id t)" "p \<in> set (live_teams db)" "t \<in> set (live_teams db)"
      "t_parent t = Some (t_id p)" by (auto simp: child_of_def)
    then show "e \<in> measure ?len" using forest_child [OF f e(3,2,4)] find by auto
  qed
  then show ?thesis using wf_measure wf_subset wf_acyclic by blast
qed

text \<open>A team occurs once in its own path.\<close>

lemma path_once:
  assumes f: "team_forest db" and t: "t \<in> set (live_teams db)"
  obtains pre where "t_path t = pre @ [t_id t]" and "t_id t \<notin> set pre"
proof -
  obtain pre where pre: "t_path t = pre @ [t_id t]" using last_path [OF f t] by (metis append_butlast_last_id)
  have "t_id t \<notin> set pre"
  proof
    assume i: "t_id t \<in> set pre"
    show False
    proof (cases "t_parent t")
      case None
      then show False using forest_chain [OF f t] pre i by auto
    next
      case (Some q)
      from forest_parent [OF f t Some] obtain p where
        p: "p \<in> set (live_teams db)" "t_id p = q" "t_path t = t_path p @ [t_id t]" by metis
      then have "t_id t \<in> set (t_path p)" using i pre by simp
      from path_prefix [OF f p(1) this] obtain a rest where
        a: "a \<in> set (live_teams db)" "t_id a = t_id t" "t_path p = t_path a @ rest" by blast
      then have "a = t" using live_team_unique [OF f _ t] by blast
      then show False using a(3) p(3) by simp
    qed
  qed
  with pre that show ?thesis by blast
qed

end
