(* ===== verification/TeamApi.thy ===== *)
theory TeamApi
  imports TeamForest
begin

text \<open>
  The team routes, \<^verbatim>\<open>internal/core/api/teams/handler.go\<close>, from parsed requests: identifiers of the
  path and body are the outcome of their parse, a response is an HTTP status with what it carries.
  Every mutation resolves the ticket reference before it writes and logs its event after.
\<close>

record team_ctx =
  tc_OrgID :: uuid
  tc_Actor :: "uuid option"
  tc_Policy :: TicketPolicy
  tc_TicketParam :: string

type_synonym 'db audit_log_fn = "nat \<Rightarrow> AuditEvent \<Rightarrow> 'db \<Rightarrow> 'db"

definition mapTeamError :: "team_error \<Rightarrow> nat" where
  "mapTeamError e =
     (case e of
        ErrTeamNotFound \<Rightarrow> 404 | ErrMemberNotFound \<Rightarrow> 404
      | ErrSlugTaken \<Rightarrow> 409 | ErrHasChildren \<Rightarrow> 409 | ErrOwnsSpaces \<Rightarrow> 409
      | ErrNameRequired \<Rightarrow> 400 | ErrInvalidSlug \<Rightarrow> 400 | ErrCycle \<Rightarrow> 400 | ErrDepthExceeded \<Rightarrow> 400
      | ErrDefaultTeam \<Rightarrow> 400 | ErrInvalidMemberRole \<Rightarrow> 400 | ErrUserNotOrgMember \<Rightarrow> 400 | ErrParentNotFound \<Rightarrow> 400
      | ErrTeamDatabase _ \<Rightarrow> 500)"

definition teamInOrg :: "('db, 'm) TeamStore_scheme \<Rightarrow> 'db \<Rightarrow> uuid \<Rightarrow> uuid \<Rightarrow> Team option" where
  "teamInOrg s db orgID teamID =
     (case TeamGet s db teamID of
        Inl _ \<Rightarrow> None
      | Inr team \<Rightarrow> if team_OrgID team \<noteq> orgID then None else Some team)"

definition team_event :: "team_ctx \<Rightarrow> string \<Rightarrow> string \<Rightarrow> uuid \<Rightarrow> string \<Rightarrow> (string \<times> meta_value) list \<Rightarrow> AuditEvent" where
  "team_event c ty kind entityID ref meta =
     \<lparr>ev_Type = ty, ev_ActorID = tc_Actor c, ev_OrgID = Some (tc_OrgID c), ev_ResourceType = kind,
      ev_ResourceID = Some entityID, ev_Metadata = meta, ev_BatchID = None, ev_TicketRef = ref\<rparr>"

definition resolve_ref :: "team_ctx \<Rightarrow> string option" where
  "resolve_ref c = PolicyResolve (tc_Policy c) (tc_TicketParam c)"

definition h_List :: "('db, 'm) TeamStore_scheme \<Rightarrow> uuid \<Rightarrow> uuid option \<Rightarrow> 'db \<Rightarrow> nat + Team list" where
  "h_List s orgID parentFilter db =
     (case TeamList s db orgID of
        Inl e \<Rightarrow> Inl (mapTeamError e)
      | Inr list \<Rightarrow>
          (case parentFilter of None \<Rightarrow> Inr list | Some p \<Rightarrow> Inr (filter (\<lambda>t. team_ParentID t = Some p) list)))"

definition h_Create ::
    "('db, 'm) TeamStore_scheme \<Rightarrow> 'db audit_log_fn \<Rightarrow> uuid \<Rightarrow> team_ctx \<Rightarrow> uuid option \<Rightarrow> string \<Rightarrow> string \<Rightarrow> string \<Rightarrow>
     'db \<Rightarrow> (nat + Team) \<times> 'db" where
  "h_Create s lg newID c parentID slug name description db =
     (case resolve_ref c of
        None \<Rightarrow> (Inl 400, db)
      | Some ref \<Rightarrow>
          (case TeamCreate s newID (tc_OrgID c) parentID slug name description db of
             (Inl e, db') \<Rightarrow> (Inl (mapTeamError e), db')
           | (Inr team, db') \<Rightarrow>
               (Inr team, lg 0 (team_event c ''team.created'' ''team'' (team_ID team) ref
                  [(''slug'', MText (team_Slug team)), (''name'', MText (team_Name team))]) db')))"

definition h_Get :: "('db, 'm) TeamStore_scheme \<Rightarrow> uuid \<Rightarrow> uuid \<Rightarrow> 'db \<Rightarrow> nat + Team" where
  "h_Get s orgID teamID db = (case teamInOrg s db orgID teamID of None \<Rightarrow> Inl 404 | Some t \<Rightarrow> Inr t)"

text \<open>\<open>parent_id\<close> of a PATCH: absent, unreadable, null (the root) or a team.\<close>

datatype parent_patch = ParentAbsent | ParentInvalid | ParentTo "uuid option"

record patchTeamRequest =
  ptr_Name :: "string option"
  ptr_Description :: "string option"
  ptr_ParentID :: parent_patch

definition applyRename ::
    "('db, 'm) TeamStore_scheme \<Rightarrow> 'db audit_log_fn \<Rightarrow> team_ctx \<Rightarrow> Team \<Rightarrow> patchTeamRequest \<Rightarrow> string \<Rightarrow>
     'db \<Rightarrow> (nat + Team) \<times> 'db" where
  "applyRename s lg c current req ref db =
     (if ptr_Name req = None \<and> ptr_Description req = None then (Inr current, db)
      else
        let name = (case ptr_Name req of None \<Rightarrow> team_Name current | Some n \<Rightarrow> n);
            description = (case ptr_Description req of None \<Rightarrow> team_Description current | Some d \<Rightarrow> d)
        in case TeamRename s (team_ID current) name description db of
             (Inl e, db') \<Rightarrow> (Inl (mapTeamError e), db')
           | (Inr updated, db') \<Rightarrow>
               (Inr updated, lg 0 (team_event c ''team.updated'' ''team'' (team_ID updated) ref [(''name'', MText name)]) db'))"

definition h_Update ::
    "('db, 'm) TeamStore_scheme \<Rightarrow> 'db audit_log_fn \<Rightarrow> team_ctx \<Rightarrow> uuid \<Rightarrow> patchTeamRequest \<Rightarrow>
     'db \<Rightarrow> (nat + Team) \<times> 'db" where
  "h_Update s lg c teamID req db =
     (case teamInOrg s db (tc_OrgID c) teamID of
        None \<Rightarrow> (Inl 404, db)
      | Some team \<Rightarrow>
     (case resolve_ref c of
        None \<Rightarrow> (Inl 400, db)
      | Some ref \<Rightarrow>
     (case applyRename s lg c team req ref db of
        (Inl st, db1) \<Rightarrow> (Inl st, db1)
      | (Inr current, db1) \<Rightarrow>
     (case ptr_ParentID req of
        ParentAbsent \<Rightarrow> (Inr current, db1)
      | ParentInvalid \<Rightarrow> (Inl 400, db1)
      | ParentTo newParent \<Rightarrow>
          (case TeamReparent s (team_OrgID current) (team_ID current) newParent db1 of
             (Inl e, db2) \<Rightarrow> (Inl (mapTeamError e), db2)
           | (Inr moved, db2) \<Rightarrow>
               (Inr moved, lg 1 (team_event c ''team.reparented'' ''team'' (team_ID moved) ref
                  [(''new_parent_id'', case newParent of None \<Rightarrow> MText '''' | Some p \<Rightarrow> MUuid p)]) db2))))))"

definition h_Delete ::
    "('db, 'm) TeamStore_scheme \<Rightarrow> 'db audit_log_fn \<Rightarrow> team_ctx \<Rightarrow> uuid \<Rightarrow> 'db \<Rightarrow> (nat + unit) \<times> 'db" where
  "h_Delete s lg c teamID db =
     (case teamInOrg s db (tc_OrgID c) teamID of
        None \<Rightarrow> (Inl 404, db)
      | Some team \<Rightarrow>
     (case resolve_ref c of
        None \<Rightarrow> (Inl 400, db)
      | Some ref \<Rightarrow>
     (case TeamDelete s (team_OrgID team) (team_ID team) db of
        (Inl e, db') \<Rightarrow> (Inl (mapTeamError e), db')
      | (Inr _, db') \<Rightarrow>
          (Inr (), lg 0 (team_event c ''team.deleted'' ''team'' (team_ID team) ref [(''slug'', MText (team_Slug team))]) db'))))"

definition h_ListMembers :: "('db, 'm) TeamStore_scheme \<Rightarrow> uuid \<Rightarrow> uuid \<Rightarrow> 'db \<Rightarrow> nat + Member list" where
  "h_ListMembers s orgID teamID db =
     (case teamInOrg s db orgID teamID of
        None \<Rightarrow> Inl 404
      | Some team \<Rightarrow> (case TeamListMembers s db (team_ID team) of Inl e \<Rightarrow> Inl (mapTeamError e) | Inr ms \<Rightarrow> Inr ms))"

definition h_PutMember ::
    "('db, 'm) TeamStore_scheme \<Rightarrow> 'db audit_log_fn \<Rightarrow> team_ctx \<Rightarrow> uuid \<Rightarrow> uuid \<Rightarrow> string \<Rightarrow> bool \<Rightarrow>
     'db \<Rightarrow> (nat + Member) \<times> 'db" where
  "h_PutMember s lg c teamID userID role is_primary db =
     (case teamInOrg s db (tc_OrgID c) teamID of
        None \<Rightarrow> (Inl 404, db)
      | Some team \<Rightarrow>
     (case resolve_ref c of
        None \<Rightarrow> (Inl 400, db)
      | Some ref \<Rightarrow>
     (case TeamAddMember s (team_ID team) userID (team_OrgID team) role db of
        (Inl e, db1) \<Rightarrow> (Inl (mapTeamError e), db1)
      | (Inr member, db1) \<Rightarrow>
          (let done = (\<lambda>m db'. (Inr m, lg 0 (team_event c ''team.member_added'' ''team_member'' (team_ID team) ref
                 [(''user_id'', MUuid userID), (''role'', MText (mb_Role m))]) db'))
           in if \<not> is_primary then done member db1
              else case TeamSetPrimary s (team_ID team) userID (team_OrgID team) db1 of
                (Inl e, db2) \<Rightarrow> (Inl (mapTeamError e), db2)
              | (Inr _, db2) \<Rightarrow> done (member\<lparr>mb_IsPrimary := True\<rparr>) db2))))"

definition h_RemoveMember ::
    "('db, 'm) TeamStore_scheme \<Rightarrow> 'db audit_log_fn \<Rightarrow> team_ctx \<Rightarrow> uuid \<Rightarrow> uuid \<Rightarrow> 'db \<Rightarrow> (nat + unit) \<times> 'db" where
  "h_RemoveMember s lg c teamID userID db =
     (case teamInOrg s db (tc_OrgID c) teamID of
        None \<Rightarrow> (Inl 404, db)
      | Some team \<Rightarrow>
     (case resolve_ref c of
        None \<Rightarrow> (Inl 400, db)
      | Some ref \<Rightarrow>
     (case TeamRemoveMember s (team_ID team) userID (team_OrgID team) db of
        (Inl e, db') \<Rightarrow> (Inl (mapTeamError e), db')
      | (Inr _, db') \<Rightarrow>
          (Inr (), lg 0 (team_event c ''team.member_removed'' ''team_member'' (team_ID team) ref
             [(''user_id'', MUuid userID)]) db'))))"

section \<open>Requests as steps\<close>

inductive team_step :: "'db TeamStore \<Rightarrow> 'db audit_log_fn \<Rightarrow> 'db \<Rightarrow> 'db \<Rightarrow> bool"
  for s :: "'db TeamStore" and lg :: "'db audit_log_fn" where
  create: "team_step s lg db (snd (h_Create s lg i c par slug name description db))"
| update: "team_step s lg db (snd (h_Update s lg c team req db))"
| delete: "team_step s lg db (snd (h_Delete s lg c team db))"
| put_member: "team_step s lg db (snd (h_PutMember s lg c team user role prim db))"
| remove_member: "team_step s lg db (snd (h_RemoveMember s lg c team user db))"
| enrol: "team_step s lg db (snd (ts_EnsureDefaultMembership s org user db))"

text \<open>What every operation of the store and the log must keep for every request to keep it. The two
  operations that trust their caller about the team's organisation are asked only what the handler
  grants them.\<close>

locale team_store =
  fixes s :: "'db TeamStore" and lg :: "'db audit_log_fn" and inv :: "'db \<Rightarrow> bool"
  assumes log_keeps: "inv db \<Longrightarrow> inv (lg k e db)"
    and create_keeps: "inv db \<Longrightarrow> \<not> team_IsDefault t \<Longrightarrow> inv (snd (ts_Create s t db))"
    and update_keeps: "inv db \<Longrightarrow> inv (snd (ts_Update s i n d db))"
    and reparent_keeps: "inv db \<Longrightarrow> inv (snd (ts_Reparent s org i p db))"
    and delete_keeps: "inv db \<Longrightarrow> inv (snd (ts_Delete s org i db))"
    and add_keeps: "inv db \<Longrightarrow> inv (snd (ts_AddMember s i u org r db))"
    and add_team: "ts_Get s db i = Inr t \<Longrightarrow> ts_Get s (snd (ts_AddMember s i u org r db)) i = Inr t"
    and remove_keeps: "inv db \<Longrightarrow> ts_Get s db i = Inr t \<Longrightarrow> inv (snd (ts_RemoveMember s i u (team_OrgID t) db))"
    and primary_keeps: "inv db \<Longrightarrow> ts_Get s db i = Inr t \<Longrightarrow> inv (snd (ts_SetPrimary s i u (team_OrgID t) db))"
    and enrol_keeps: "inv db \<Longrightarrow> inv (snd (ts_EnsureDefaultMembership s org u db))"
    and get_id: "ts_Get s db i = Inr t \<Longrightarrow> team_ID t = i"
begin

lemma in_org: "teamInOrg s db org i = Some t \<Longrightarrow> ts_Get s db i = Inr t \<and> team_OrgID t = org \<and> team_ID t = i"
  by (auto simp: teamInOrg_def TeamGet_def get_id split: sum.splits if_splits)

lemma create_request_keeps: "inv db \<Longrightarrow> inv (snd (h_Create s lg i c par slug name d db))"
  using create_keeps [of db "\<lparr>team_ID = i, team_OrgID = tc_OrgID c, team_ParentID = par, team_Path = [],
      team_Slug = slug, team_Name = name, team_Description = d, team_IsDefault = False\<rparr>"]
  by (auto simp: h_Create_def TeamCreate_def log_keeps split: option.splits prod.splits sum.splits)

lemma rename_keeps: "inv db \<Longrightarrow> inv (snd (applyRename s lg c t req ref db))"
  using update_keeps
  by (auto simp: applyRename_def TeamRename_def Let_def log_keeps split: option.splits prod.splits sum.splits)
    (metis log_keeps snd_conv)+

lemma reparent_request_keeps: "inv db \<Longrightarrow> inv (snd (TeamReparent s org i p db))"
  by (simp add: TeamReparent_def reparent_keeps)

lemma update_request_keeps:
  assumes "inv db" shows "inv (snd (h_Update s lg c i req db))"
proof -
  have r: "inv db1" if "applyRename s lg c t req ref db = (x, db1)" for t ref x db1
    using rename_keeps [OF assms, of c t req ref] that by simp
  have m: "inv db2" if "TeamReparent s org j p db1 = (x, db2)" "inv db1" for org j p x db1 db2
    using reparent_request_keeps [OF that(2), of org j p] that(1) by simp
  show ?thesis
    using assms
    by (auto simp: h_Update_def split: option.splits prod.splits sum.splits parent_patch.splits
        intro: r m log_keeps dest: r m)
qed

lemma delete_request_keeps:
  assumes "inv db" shows "inv (snd (h_Delete s lg c i db))"
proof -
  have d: "inv db1" if "ts_Delete s org j db = (x, db1)" for org j x db1
    using delete_keeps [OF assms, of org j] that by simp
  show ?thesis using assms
    by (auto simp: h_Delete_def TeamDelete_def split: option.splits prod.splits sum.splits intro: d log_keeps)
qed

lemma add_request:
  assumes "inv db" and "TeamAddMember s i u org r db = (x, db1)"
  shows "inv db1" and "ts_Get s db i = Inr t \<Longrightarrow> ts_Get s db1 i = Inr t"
proof -
  have a: "inv db2" if "ts_AddMember s i u org r' db = (y, db2)" for r' y db2
    using add_keeps [OF assms(1), of i u org r'] that by simp
  have g: "ts_Get s db2 i = Inr t" if "ts_AddMember s i u org r' db = (y, db2)" "ts_Get s db i = Inr t" for r' y db2
    using add_team [OF that(2), of u org r'] that by simp
  show "inv db1" using assms
    by (auto simp: TeamAddMember_def Let_def split: if_splits sum.splits intro: a)
  show "ts_Get s db i = Inr t \<Longrightarrow> ts_Get s db1 i = Inr t" using assms
    by (auto simp: TeamAddMember_def Let_def split: if_splits sum.splits intro: g)
qed

lemma put_request_keeps:
  assumes "inv db" shows "inv (snd (h_PutMember s lg c i u r prim db))"
proof (cases "teamInOrg s db (tc_OrgID c) i")
  case None
  then show ?thesis using assms by (simp add: h_PutMember_def)
next
  case (Some t)
  note t = in_org [OF Some]
  obtain x db1 where a: "TeamAddMember s i u (tc_OrgID c) r db = (x, db1)" by fastforce
  note ad = add_request [OF assms a]
  obtain y db2 where p: "TeamSetPrimary s i u (tc_OrgID c) db1 = (y, db2)" by fastforce
  have "inv db2"
    using primary_keeps [OF ad(1) ad(2), of t u] t p by (simp add: TeamSetPrimary_def)
  then show ?thesis using assms ad(1) Some t a p
    by (auto simp: h_PutMember_def Let_def log_keeps split: option.splits sum.splits)
qed

lemma remove_request_keeps:
  assumes "inv db" shows "inv (snd (h_RemoveMember s lg c i u db))"
proof (cases "teamInOrg s db (tc_OrgID c) i")
  case None
  then show ?thesis using assms by (simp add: h_RemoveMember_def)
next
  case (Some t)
  note t = in_org [OF Some]
  obtain y db2 where p: "TeamRemoveMember s i u (tc_OrgID c) db = (y, db2)" by fastforce
  have "inv db2"
    using remove_keeps [OF assms, of i t u] t p by (simp add: TeamRemoveMember_def)
  then show ?thesis using assms Some t p
    by (auto simp: h_RemoveMember_def log_keeps split: option.splits sum.splits)
qed

lemma request_keeps: "team_step s lg db db' \<Longrightarrow> inv db \<Longrightarrow> inv db'"
  by (induction rule: team_step.induct)
    (blast intro: create_request_keeps update_request_keeps delete_request_keeps put_request_keeps
      remove_request_keeps enrol_keeps)+

lemma requests_keep: "(team_step s lg)\<^sup>*\<^sup>* db db' \<Longrightarrow> inv db \<Longrightarrow> inv db'"
  by (induction rule: rtranclp_induct) (auto dest: request_keeps)

end

end
