(* ===== verification/TeamMoves.thy ===== *)
theory TeamMoves
  imports TeamApi
begin

text \<open>
  The team mutations against the forest: what each leaves in the table, and that none breaks it.
\<close>

lemma forest_frame:
  assumes "teams db' = teams db" shows "team_forest db' = team_forest db"
proof -
  have "live_teams db' = live_teams db" using assms by (simp add: live_teams_def)
  then have "chained db' = chained db" by (intro ext) (simp add: chained_def split: option.split)
  with \<open>live_teams db' = live_teams db\<close> show ?thesis using assms by (simp add: team_forest_def)
qed

lemma child_of_frame: "teams db' = teams db \<Longrightarrow> child_of db' = child_of db"
  by (simp add: child_of_def live_teams_def)

lemma team_read_Inr: "team_read w q db = Inr x \<longleftrightarrow> db_up db \<and> x = q db"
  by (auto simp: team_read_def)

lemma team_row_Inr: "team_row e w q db = Inr x \<longleftrightarrow> db_up db \<and> q db = Some x"
  by (auto simp: team_row_def split: option.splits)

lemma wrap_team_Inr: "wrap_team w m db = Inr r \<longleftrightarrow> m db = Inr r"
  by (auto simp: wrap_team_def split: sum.splits)

lemma find_live:
  assumes "distinct (map t_id (teams db))"
  shows "List.find (\<lambda>t. t_id t = i \<and> live_team t) (teams db) = Some t \<longleftrightarrow> t \<in> set (live_teams db) \<and> t_id t = i"
proof
  assume "List.find (\<lambda>t. t_id t = i \<and> live_team t) (teams db) = Some t"
  then show "t \<in> set (live_teams db) \<and> t_id t = i" by (auto simp: live_teams_iff dest: find_Some_in)
next
  assume "t \<in> set (live_teams db) \<and> t_id t = i"
  then show "List.find (\<lambda>t. t_id t = i \<and> live_team t) (teams db) = Some t"
    by (intro find_the_unique) (use assms in \<open>auto simp: live_teams_iff dest: distinct_key\<close>)
qed

lemma forest_distinct: "team_forest db \<Longrightarrow> distinct (map t_id (teams db))"
  by (simp add: team_forest_def)

section \<open>Creating\<close>

lemma insert_team_Inr: "insert_team t db = Inr r \<longleftrightarrow> q_CreateTeam t db = Inr r"
  by (auto simp: insert_team_def split: sum.splits)

lemma lock_parent_Inr:
  assumes "lock_parent t db = Inr (u, db')" and "team_forest db"
  shows "db' = db \<and> (\<forall>q. team_ParentID t = Some q \<longrightarrow>
    (\<exists>p \<in> set (live_teams db). t_id p = q \<and> t_org p = team_OrgID t \<and> length (t_path p) + 1 \<le> MaxDepth))"
proof (cases "team_ParentID t")
  case None
  then show ?thesis using assms by (simp add: lock_parent_def)
next
  case (Some q)
  then obtain p where p: "q_GetTeamForUpdate db q = Some p" "t_org p = team_OrgID t"
    "length (t_path p) + 1 \<le> MaxDepth" "db' = db"
    using assms(1) by (auto simp: lock_parent_def stmt_run team_row_Inr)
  then have "p \<in> set (live_teams db) \<and> t_id p = q"
    using find_live [OF forest_distinct [OF assms(2)]] by (auto simp: q_GetTeamForUpdate_def)
  with p Some show ?thesis by auto
qed

lemma q_CreateTeam_Inr:
  assumes "q_CreateTeam t db = Inr (row, db')"
  shows "row = \<lparr>t_id = team_ID t, t_org = team_OrgID t, t_parent = team_ParentID t, t_path = inserted_path db t,
                 t_slug = team_Slug t, t_name = team_Name t, t_description = team_Description t,
                 t_default = team_IsDefault t, t_deleted = False\<rparr>"
    and "db' = db\<lparr>teams := teams db @ [row]\<rparr>" and "team_ID t \<notin> t_id ` set (teams db)" and "db_up db"
    and "length (t_path row) \<le> MaxDepth"
  using assms
  by (auto simp: q_CreateTeam_def Let_def team_exists_def list_ex_iff team_path_ok_def MaxDepth_def split: if_splits)

lemma insert_forest:
  assumes f: "team_forest db" and new: "t_id row \<notin> t_id ` set (teams db)" and len: "length (t_path row) \<le> MaxDepth"
    and ch: "case t_parent row of None \<Rightarrow> t_path row = [t_id row]
      | Some q \<Rightarrow> \<exists>p \<in> set (live_teams db). t_id p = q \<and> t_org p = t_org row \<and> t_path row = t_path p @ [t_id row]"
    and l: "live_team row"
  shows "team_forest (db\<lparr>teams := teams db @ [row]\<rparr>)"
proof -
  have lt: "live_teams (db\<lparr>teams := teams db @ [row]\<rparr>) = live_teams db @ [row]"
    using l by (simp add: live_teams_def)
  have "chained (db\<lparr>teams := teams db @ [row]\<rparr>) t" if "t \<in> set (live_teams db)" for t
    using forest_chain [OF f that] by (auto simp: chained_def lt split: option.splits)
  moreover have "chained (db\<lparr>teams := teams db @ [row]\<rparr>) row"
    using ch by (auto simp: chained_def lt split: option.splits)
  ultimately show ?thesis using f new len by (auto simp: team_forest_def lt)
qed

lemma TeamCreate_forest:
  assumes f: "team_forest db"
  shows "team_forest (snd (pg_TeamCreate t db))"
  unfolding pg_TeamCreate_def
proof (rule in_tx_invariant [where I = team_forest], fact f)
  fix x db2
  assume "sseq (lock_parent t) (sbind (insert_team t) (\<lambda>row. sret (dbTeamToDomain row))) db = Inr (x, db2)"
  then obtain u db1 row where l: "lock_parent t db = Inr (u, db1)" and c: "q_CreateTeam t db1 = Inr (row, db2)"
    by (auto simp: stmt_run insert_team_Inr)
  note l = lock_parent_Inr [OF l f]
  have c: "q_CreateTeam t db = Inr (row, db2)" using c l by simp
  note r = q_CreateTeam_Inr [OF c]
  have "team_forest (db\<lparr>teams := teams db @ [row]\<rparr>)"
  proof (rule insert_forest [OF f _ r(5)])
    show "t_id row \<notin> t_id ` set (teams db)" and "live_team row" using r(1,3) by (simp_all add: live_team_def)
    show "case t_parent row of None \<Rightarrow> t_path row = [t_id row]
      | Some q \<Rightarrow> \<exists>p \<in> set (live_teams db). t_id p = q \<and> t_org p = t_org row \<and> t_path row = t_path p @ [t_id row]"
    proof (cases "team_ParentID t")
      case None
      then show ?thesis by (simp add: r(1) inserted_path_def)
    next
      case (Some q)
      then obtain p where p: "p \<in> set (live_teams db)" "t_id p = q" "t_org p = team_OrgID t" using l by blast
      have "List.find (\<lambda>r. t_id r = q \<and> t_org r = team_OrgID t \<and> live_team r) (teams db) = Some p"
        by (rule find_the_unique) (use p forest_distinct [OF f] in \<open>auto simp: live_teams_iff dest: distinct_key\<close>)
      then show ?thesis using p Some by (auto simp: r(1) inserted_path_def)
    qed
  qed
  with r(2) show "team_forest db2" by simp
qed

section \<open>Renaming and deleting\<close>

text \<open>A rewrite that keeps every identity, parent, path and organisation.\<close>

lemma map_forest:
  assumes f: "team_forest db"
    and same: "\<And>t. t_id (g t) = t_id t \<and> t_org (g t) = t_org t \<and> t_parent (g t) = t_parent t \<and> t_path (g t) = t_path t"
    and live: "\<And>t. live_team (g t) \<Longrightarrow> live_team t"
    and keep: "\<And>t p. t \<in> set (live_teams db) \<Longrightarrow> live_team (g t) \<Longrightarrow> p \<in> set (live_teams db) \<Longrightarrow>
      t_parent t = Some (t_id p) \<Longrightarrow> live_team (g p)"
  shows "team_forest (db\<lparr>teams := map g (teams db)\<rparr>)"
proof -
  let ?db' = "db\<lparr>teams := map g (teams db)\<rparr>"
  have lt: "t' \<in> set (live_teams ?db') \<longleftrightarrow> (\<exists>t \<in> set (live_teams db). t' = g t \<and> live_team (g t))" for t'
    using live by (auto simp: live_teams_iff)
  have "chained ?db' (g t)" if t: "t \<in> set (live_teams db)" "live_team (g t)" for t
  proof (cases "t_parent t")
    case None
    then show ?thesis using forest_chain [OF f t(1)] same [of t] by (simp add: chained_def)
  next
    case (Some q)
    from forest_parent [OF f t(1) Some] obtain p where
      p: "p \<in> set (live_teams db)" "t_id p = q" "t_org p = t_org t" "t_path t = t_path p @ [t_id t]" .
    then have "g p \<in> set (live_teams ?db')" using keep [OF t p(1)] Some by (auto simp: lt)
    then show ?thesis using Some same [of t] same [of p] p by (auto simp: chained_def)
  qed
  moreover have "distinct (map t_id (map g (teams db)))" using f same by (simp add: team_forest_def comp_def)
  ultimately show ?thesis using f same by (auto simp: team_forest_def lt simp del: map_map)
qed

lemma TeamUpdate_forest: "team_forest db \<Longrightarrow> team_forest (snd (pg_TeamUpdate i n d db))"
  by (auto simp: pg_TeamUpdate_def q_UpdateTeam_def live_team_def live_teams_iff split: option.splits if_splits
      intro!: map_forest)

lemma in_subtree_iff:
  assumes f: "team_forest db" and t: "t \<in> set (live_teams db)"
  shows "in_team_subtree org i t \<longleftrightarrow> t_org t = org \<and> (i, t_id t) \<in> (child_of db)\<^sup>*"
  using t path_is_ancestors [OF f t] by (auto simp: in_team_subtree_def live_teams_iff)

lemma subtree_set:
  "set (q_ListSubtreeForUpdate db org i) = {t \<in> set (live_teams db). in_team_subtree org i t}"
  by (auto simp: q_ListSubtreeForUpdate_def live_teams_iff in_team_subtree_def)

lemma lock_subtree_Inr:
  assumes f: "team_forest db" and "lock_subtree w org i db = Inr (sub, db')"
  shows "db' = db \<and> sub = q_ListSubtreeForUpdate db org i \<and> db_up db \<and>
    (\<exists>t \<in> set (live_teams db). t_id t = i \<and> t_org t = org \<and> \<not> t_default t \<and> hd sub = t \<and> sub \<noteq> [])"
proof -
  have s: "db' = db" "sub = q_ListSubtreeForUpdate db org i" "db_up db" "sub \<noteq> []" "t_id (hd sub) = i"
    "\<not> t_default (hd sub)"
    using assms(2) by (auto simp: lock_subtree_def stmt_run team_read_Inr)
  have "hd sub \<in> set sub" using s(4) by simp
  then have "hd sub \<in> set (live_teams db)" "t_org (hd sub) = org"
    unfolding s(2) subtree_set by (auto simp: in_team_subtree_def)
  with s show ?thesis by blast
qed

text \<open>Every live child of a team is in its subtree.\<close>

lemma child_in_subtree:
  assumes f: "team_forest db" and t: "t \<in> set (live_teams db)" and c: "c \<in> set (live_teams db)"
    and p: "t_parent c = Some (t_id t)"
  shows "in_team_subtree (t_org t) (t_id t) c"
proof -
  have "(t_id t, t_id c) \<in> child_of db" using t c p by (auto simp: child_of_def)
  then show ?thesis using in_subtree_iff [OF f c] forest_child [OF f c t p] by auto
qed

lemma migrate_frame: "migrateMembersToDefault org i db = Inr (u, db') \<Longrightarrow> teams db' = teams db"
  by (auto simp: migrateMembersToDefault_def stmt_run default_team_def wrap_team_Inr q_BulkEnrollInTeam_def
      q_DeleteTeamMembers_def q_SetPrimaryForUsers_def set_members_def split: if_splits)

lemma TeamDelete_Inr:
  assumes f: "team_forest db" and d: "pg_TeamDelete org i db = (Inr u, db')"
  shows "\<exists>t \<in> set (live_teams db). t_id t = i \<and> t_org t = org \<and> \<not> t_default t \<and>
    (\<forall>c \<in> set (live_teams db). t_parent c \<noteq> Some i) \<and>
    teams db' = map (\<lambda>t. if t_id t = i \<and> live_team t then t\<lparr>t_deleted := True\<rparr> else t) (teams db)"
proof -
  from d obtain db1 db2 db3 where l: "lockTeamForDeletion org i db = Inr ((), db1)"
    and m: "migrateMembersToDefault org i db1 = Inr ((), db2)" and g: "q_DeleteGrantsBySubjectTeam i db2 = Inr ((), db3)"
    and s: "q_SoftDeleteTeam i db3 = Inr ((), db')"
    by (auto simp: pg_TeamDelete_def in_tx_Inr stmt_run wrap_team_Inr)
  from l obtain sub where sub: "lock_subtree ''locking team'' org i db = Inr (sub, db)" "length sub \<le> 1" "db1 = db"
    using lock_subtree_Inr [OF f] by (auto simp: lockTeamForDeletion_def stmt_run)
  from lock_subtree_Inr [OF f sub(1)] obtain t where
    t: "t \<in> set (live_teams db)" "t_id t = i" "t_org t = org" "\<not> t_default t" "hd sub = t"
    and subeq: "sub = q_ListSubtreeForUpdate db org i" "sub \<noteq> []" by blast
  have one: "sub = [t]" using sub(2) subeq(2) t(5) by (cases sub) auto
  have "t_parent c \<noteq> Some i" if c: "c \<in> set (live_teams db)" for c
  proof
    assume p: "t_parent c = Some i"
    then have "c \<in> set sub" using child_in_subtree [OF f t(1) c] c t by (simp add: subeq(1) subtree_set)
    then have "c = t" using one by simp
    then have "(t_id t, t_id t) \<in> child_of db" using t p by (auto simp: child_of_def)
    then show False using forest_acyclic [OF f] by (auto simp: acyclic_def)
  qed
  moreover have "teams db' = map (\<lambda>t. if t_id t = i \<and> live_team t then t\<lparr>t_deleted := True\<rparr> else t) (teams db)"
    using migrate_frame [OF m] g s sub(3)
    by (auto simp: q_DeleteGrantsBySubjectTeam_def q_SoftDeleteTeam_def split: if_splits)
  ultimately show ?thesis using t by blast
qed

lemma TeamDelete_forest:
  assumes f: "team_forest db"
  shows "team_forest (snd (pg_TeamDelete org i db))"
proof (cases "pg_TeamDelete org i db")
  case (Pair r db')
  show ?thesis
  proof (cases r)
    case (Inl e)
    then have "db' = db" using Pair by (simp add: pg_TeamDelete_def in_tx_Inl)
    then show ?thesis using f Pair by simp
  next
    case (Inr u)
    let ?g = "\<lambda>t. if t_id t = i \<and> live_team t then t\<lparr>t_deleted := True\<rparr> else t"
    from TeamDelete_Inr [OF f Pair [unfolded Inr]] have
      nc: "\<forall>c \<in> set (live_teams db). t_parent c \<noteq> Some i" and eq: "teams db' = map ?g (teams db)" by blast+
    have "team_forest (db\<lparr>teams := map ?g (teams db)\<rparr>)"
      by (rule map_forest [OF f]) (use nc in \<open>auto simp: live_team_def live_teams_iff split: if_splits\<close>)
    then show ?thesis using Pair eq by (simp add: forest_frame [of db' "db\<lparr>teams := map ?g (teams db)\<rparr>"])
  qed
qed

end
