(* ===== verification/TeamReparents.thy ===== *)
theory TeamReparents
  imports TeamMoves
begin

text \<open>
  Moving a team: the rewritten paths are again the ancestor chains, the parent relation changes in one
  edge, and the checks made on paths are the checks one would make on the tree.
\<close>

section \<open>Depths\<close>

definition team_depth :: "'x org_db_scheme \<Rightarrow> uuid \<Rightarrow> nat" where
  "team_depth db x = card {a. (a, x) \<in> (child_of db)\<^sup>*}"

lemma path_distinct:
  assumes f: "team_forest db" and "t \<in> set (live_teams db)"
  shows "distinct (t_path t)"
  using assms(2)
proof (induction "length (t_path t)" arbitrary: t rule: less_induct)
  case less
  obtain pre where pre: "t_path t = pre @ [t_id t]" "t_id t \<notin> set pre" using path_once [OF f less.prems] .
  show ?case
  proof (cases "t_parent t")
    case None
    then show ?thesis using forest_chain [OF f less.prems] by simp
  next
    case (Some q)
    from forest_parent [OF f less.prems Some] obtain p where
      p: "p \<in> set (live_teams db)" "t_path t = t_path p @ [t_id t]" by metis
    with less.hyps [OF _ p(1)] pre show ?thesis by simp
  qed
qed

lemma depth_is_length:
  assumes "team_forest db" and "t \<in> set (live_teams db)"
  shows "team_depth db (t_id t) = length (t_path t)"
proof -
  have "{a. (a, t_id t) \<in> (child_of db)\<^sup>*} = set (t_path t)" using path_is_ancestors [OF assms] by blast
  then show ?thesis using path_distinct [OF assms] by (simp add: team_depth_def distinct_card)
qed

text \<open>The path of a team below another is that one's path and what lies between.\<close>

lemma below_path:
  assumes f: "team_forest db" and r: "r \<in> set (live_teams db)" and t: "t \<in> set (live_teams db)"
    and i: "t_id r \<in> set (t_path t)"
  obtains rest where "t_path t = t_path r @ rest"
    and "dropWhile (\<lambda>x. x \<noteq> t_id r) (t_path t) = t_id r # rest" and "t_org r = t_org t"
proof -
  from path_prefix [OF f t i] obtain a rest where
    a: "a \<in> set (live_teams db)" "t_id a = t_id r" "t_org a = t_org t" "t_path t = t_path a @ rest" by blast
  have [simp]: "a = r" by (rule live_team_unique [OF f a(1) r a(2)])
  obtain pre where pre: "t_path r = pre @ [t_id r]" "t_id r \<notin> set pre" using path_once [OF f r] .
  have "dropWhile (\<lambda>x. x \<noteq> t_id r) (t_path t) = t_id r # rest"
    using pre(2) by (simp add: a(4) pre(1) dropWhile_append3 dropWhile_append2)
      (metis dropWhile.simps(2) dropWhile_append2)
  with a that show ?thesis by simp
qed

section \<open>The rewritten table\<close>

definition move_row :: "uuid \<Rightarrow> uuid list \<Rightarrow> uuid \<Rightarrow> uuid option \<Rightarrow> TeamRow \<Rightarrow> TeamRow" where
  "move_row org newPath i np t = (if in_team_subtree org i t then reparented newPath i np t else t)"

definition moved_teams :: "'x org_db_scheme \<Rightarrow> uuid \<Rightarrow> uuid list \<Rightarrow> uuid \<Rightarrow> uuid option \<Rightarrow> 'x org_db_scheme" where
  "moved_teams db org newPath i np = db\<lparr>teams := map (move_row org newPath i np) (teams db)\<rparr>"

text \<open>What the checks have established before the paths are rewritten.\<close>

definition move_fits :: "'x org_db_scheme \<Rightarrow> TeamRow \<Rightarrow> uuid list \<Rightarrow> uuid option \<Rightarrow> bool" where
  "move_fits db r newPath np \<longleftrightarrow>
     (case np of
        None \<Rightarrow> newPath = []
      | Some q \<Rightarrow> \<exists>p \<in> set (live_teams db). t_id p = q \<and> t_org p = t_org r \<and> t_path p = newPath \<and> t_id r \<notin> set newPath) \<and>
     (\<forall>t \<in> set (live_teams db). in_team_subtree (t_org r) (t_id r) t \<longrightarrow>
        length newPath + (length (t_path t) + 1 - length (t_path r)) \<le> MaxDepth)"

lemma move_row_fields [simp]:
  "t_id (move_row org np i q t) = t_id t" "t_org (move_row org np i q t) = t_org t"
  "live_team (move_row org np i q t) = live_team t" "t_default (move_row org np i q t) = t_default t"
  by (simp_all add: move_row_def reparented_def live_team_def)

lemma live_moved: "live_teams (moved_teams db org newPath i np) = map (move_row org newPath i np) (live_teams db)"
  by (simp add: live_teams_def moved_teams_def filter_map comp_def)

lemma root_in_subtree:
  assumes "team_forest db" and "r \<in> set (live_teams db)"
  shows "in_team_subtree (t_org r) (t_id r) r"
  using in_subtree_iff [OF assms] by simp

lemma moved_parent:
  assumes f: "team_forest db" and r: "r \<in> set (live_teams db)" and t: "t \<in> set (live_teams db)"
  shows "t_parent (move_row (t_org r) newPath (t_id r) np t) = (if t_id t = t_id r then np else t_parent t)"
proof (cases "t_id t = t_id r")
  case True
  then have "t = r" using live_team_unique [OF f t r] by blast
  then show ?thesis using root_in_subtree [OF f r] by (simp add: move_row_def reparented_def)
qed (simp add: move_row_def reparented_def)

lemma moved_path:
  assumes f: "team_forest db" and r: "r \<in> set (live_teams db)" and t: "t \<in> set (live_teams db)"
    and m: "in_team_subtree (t_org r) (t_id r) t"
  obtains rest where "t_path t = t_path r @ rest"
    and "t_path (move_row (t_org r) newPath (t_id r) np t) = newPath @ t_id r # rest"
proof -
  have i: "t_id r \<in> set (t_path t)" using m by (simp add: in_team_subtree_def)
  obtain rest where rest: "t_path t = t_path r @ rest" "dropWhile (\<lambda>x. x \<noteq> t_id r) (t_path t) = t_id r # rest"
    using below_path [OF f r t i] by blast
  have "t_path (move_row (t_org r) newPath (t_id r) np t) = newPath @ t_id r # rest"
    using m rest(2) by (simp add: move_row_def reparented_def)
  with rest(1) that show ?thesis by blast
qed

lemma moved_chained:
  assumes f: "team_forest db" and r: "r \<in> set (live_teams db)" and t: "t \<in> set (live_teams db)"
    and fits: "move_fits db r newPath np"
  shows "chained (moved_teams db (t_org r) newPath (t_id r) np) (move_row (t_org r) newPath (t_id r) np t)"
proof -
  let ?g = "move_row (t_org r) newPath (t_id r) np"
  let ?db' = "moved_teams db (t_org r) newPath (t_id r) np"
  note par = moved_parent [OF f r t, of newPath np]
  have lt: "?g p \<in> set (live_teams ?db')" if "p \<in> set (live_teams db)" for p using that by (simp add: live_moved)
  show ?thesis
  proof (cases "t_id t = t_id r")
    case True
    then have tr: "t = r" using live_team_unique [OF f t r] by blast
    obtain rest where "t_path r = t_path r @ rest" "t_path (?g r) = newPath @ t_id r # rest"
      by (rule moved_path [OF f r r root_in_subtree [OF f r]])
    then have path: "t_path (?g t) = newPath @ [t_id r]" by (simp add: tr)
    show ?thesis
    proof (cases np)
      case None
      then show ?thesis using fits par path True by (simp add: chained_def move_fits_def)
    next
      case (Some q)
      then obtain p where p: "p \<in> set (live_teams db)" "t_id p = q" "t_org p = t_org r" "t_path p = newPath"
        "t_id r \<notin> set newPath" using fits by (auto simp: move_fits_def)
      then have "?g p = p" by (simp add: move_row_def in_team_subtree_def)
      then show ?thesis using lt [OF p(1)] p Some par path True tr by (auto simp: chained_def)
    qed
  next
    case False
    show ?thesis
    proof (cases "t_parent t")
      case None
      then have "\<not> in_team_subtree (t_org r) (t_id r) t"
        using forest_chain [OF f t] False by (simp add: in_team_subtree_def)
      then show ?thesis using None forest_chain [OF f t] by (simp add: chained_def move_row_def)
    next
      case (Some q)
      from forest_parent [OF f t Some] obtain p where
        p: "p \<in> set (live_teams db)" "t_id p = q" "t_org p = t_org t" "t_path t = t_path p @ [t_id t]" .
      have same: "in_team_subtree (t_org r) (t_id r) t \<longleftrightarrow> in_team_subtree (t_org r) (t_id r) p"
        using p False t by (auto simp: in_team_subtree_def live_teams_iff)
      have "t_path (?g t) = t_path (?g p) @ [t_id t]"
      proof (cases "in_team_subtree (t_org r) (t_id r) p")
        case True
        then have "t_id r \<in> set (t_path p)" by (simp add: in_team_subtree_def)
        then show ?thesis using True same p(4) by (simp add: move_row_def reparented_def dropWhile_append1)
      next
        case False
        then show ?thesis using same p(4) by (simp add: move_row_def)
      qed
      with lt [OF p(1)] p(2,3) show ?thesis
        using Some par False unfolding chained_def by (auto intro!: bexI [of _ "?g p"])
    qed
  qed
qed

lemma moved_forest:
  assumes f: "team_forest db" and r: "r \<in> set (live_teams db)" and fits: "move_fits db r newPath np"
  shows "team_forest (moved_teams db (t_org r) newPath (t_id r) np)"
proof -
  let ?g = "move_row (t_org r) newPath (t_id r) np"
  have "length (t_path (?g t)) \<le> MaxDepth" if t: "t \<in> set (live_teams db)" for t
  proof (cases "in_team_subtree (t_org r) (t_id r) t")
    case True
    obtain rest where "t_path t = t_path r @ rest" "t_path (?g t) = newPath @ t_id r # rest"
      by (rule moved_path [OF f r t True])
    moreover have "length newPath + (length (t_path t) + 1 - length (t_path r)) \<le> MaxDepth"
      using fits t True by (simp add: move_fits_def)
    ultimately show ?thesis by simp
  next
    case False
    then show ?thesis using f t by (simp add: team_forest_def move_row_def)
  qed
  moreover have "map t_id (teams (moved_teams db (t_org r) newPath (t_id r) np)) = map t_id (teams db)"
    by (simp add: moved_teams_def)
  ultimately show ?thesis
    using f moved_chained [OF f r _ fits] by (auto simp: team_forest_def live_moved)
qed

lemma moved_child_of:
  assumes f: "team_forest db" and r: "r \<in> set (live_teams db)" and fits: "move_fits db r newPath np"
  shows "child_of (moved_teams db (t_org r) newPath (t_id r) np) =
    {(a, b) \<in> child_of db. b \<noteq> t_id r} \<union> {(q, t_id r) |q. np = Some q}"
proof -
  let ?g = "move_row (t_org r) newPath (t_id r) np"
  have "(a, b) \<in> child_of (moved_teams db (t_org r) newPath (t_id r) np) \<longleftrightarrow>
      (\<exists>p \<in> set (live_teams db). \<exists>t \<in> set (live_teams db). a = t_id p \<and> b = t_id t \<and> t_parent (?g t) = Some (t_id p))" for a b
  proof
    assume "(a, b) \<in> child_of (moved_teams db (t_org r) newPath (t_id r) np)"
    then obtain p t where e: "a = t_id p" "b = t_id t" "p \<in> ?g ` set (live_teams db)" "t \<in> ?g ` set (live_teams db)"
      "t_parent t = Some (t_id p)" unfolding child_of_def live_moved set_map by blast
    then obtain p0 t0 where "p0 \<in> set (live_teams db)" "p = ?g p0" "t0 \<in> set (live_teams db)" "t = ?g t0" by blast
    with e show "\<exists>p \<in> set (live_teams db). \<exists>t \<in> set (live_teams db). a = t_id p \<and> b = t_id t \<and> t_parent (?g t) = Some (t_id p)"
      by (metis move_row_fields(1))
  next
    assume "\<exists>p \<in> set (live_teams db). \<exists>t \<in> set (live_teams db). a = t_id p \<and> b = t_id t \<and> t_parent (?g t) = Some (t_id p)"
    then obtain p t where e: "p \<in> set (live_teams db)" "t \<in> set (live_teams db)" "a = t_id (?g p)" "b = t_id (?g t)"
      "t_parent (?g t) = Some (t_id (?g p))" by (metis move_row_fields(1))
    then show "(a, b) \<in> child_of (moved_teams db (t_org r) newPath (t_id r) np)"
      unfolding child_of_def live_moved set_map by blast
  qed
  also have "\<dots> a b \<longleftrightarrow> (\<exists>p \<in> set (live_teams db). \<exists>t \<in> set (live_teams db). a = t_id p \<and> b = t_id t \<and>
        (if t_id t = t_id r then np else t_parent t) = Some (t_id p))" for a b
    by (intro bex_cong refl) (simp add: moved_parent [OF f r])
  finally have edges: "(a, b) \<in> child_of (moved_teams db (t_org r) newPath (t_id r) np) \<longleftrightarrow>
      (\<exists>p \<in> set (live_teams db). \<exists>t \<in> set (live_teams db). a = t_id p \<and> b = t_id t \<and>
        (if t_id t = t_id r then np else t_parent t) = Some (t_id p))" for a b .
  have np: "\<exists>p \<in> set (live_teams db). t_id p = q" if "np = Some q" for q
    using fits that by (auto simp: move_fits_def)
  have "(a, b) \<in> child_of (moved_teams db (t_org r) newPath (t_id r) np) \<longleftrightarrow>
      (a, b) \<in> {(a, b) \<in> child_of db. b \<noteq> t_id r} \<union> {(q, t_id r) |q. np = Some q}" for a b
  proof (cases "b = t_id r")
    case True
    have "(\<exists>p \<in> set (live_teams db). \<exists>t \<in> set (live_teams db). a = t_id p \<and> b = t_id t \<and>
        (if t_id t = t_id r then np else t_parent t) = Some (t_id p)) \<longleftrightarrow> np = Some a" (is "?l = ?r")
    proof
      assume ?l then show ?r using True by auto
    next
      assume ?r
      then obtain p where "p \<in> set (live_teams db)" "t_id p = a" using np by blast
      with \<open>?r\<close> True r show ?l by (intro bexI [of _ p] bexI [of _ r]) auto
    qed
    then show ?thesis using True unfolding edges by simp
  next
    case False
    have old: "(a, b) \<in> child_of db \<longleftrightarrow>
        (\<exists>p \<in> set (live_teams db). \<exists>t \<in> set (live_teams db). a = t_id p \<and> b = t_id t \<and> t_parent t = Some (t_id p))"
      unfolding child_of_def by blast
    have "(\<exists>p \<in> set (live_teams db). \<exists>t \<in> set (live_teams db). a = t_id p \<and> b = t_id t \<and>
          (if t_id t = t_id r then np else t_parent t) = Some (t_id p)) \<longleftrightarrow>
        (\<exists>p \<in> set (live_teams db). \<exists>t \<in> set (live_teams db). a = t_id p \<and> b = t_id t \<and> t_parent t = Some (t_id p))"
      using False by (intro bex_cong refl) auto
    with old False show ?thesis unfolding edges by simp
  qed
  then show ?thesis by auto
qed

end
