(* ===== verification/TeamReach.thy ===== *)
theory TeamReach
  imports TeamReparents
begin

text \<open>
  What the team hierarchy promises: moving a team is an edit of the tree, the path queries are the
  tree's ancestor relation, and both hold along every run of requests.
\<close>

section \<open>Moving a team\<close>

lemma subtree_none:
  assumes f: "team_forest db" and "\<And>t. t \<in> set (live_teams db) \<Longrightarrow> t_id t = i \<Longrightarrow> t_org t \<noteq> org"
  shows "q_ListSubtreeForUpdate db org i = []"
proof -
  have "\<not> in_team_subtree org i t" if t: "t \<in> set (live_teams db)" for t
  proof
    assume m: "in_team_subtree org i t"
    then have "i \<in> set (t_path t)" by (simp add: in_team_subtree_def)
    from path_prefix [OF f t this] obtain a where "a \<in> set (live_teams db)" "t_id a = i" "t_org a = t_org t" by blast
    with assms(2) m show False by (auto simp: in_team_subtree_def)
  qed
  then have "set (q_ListSubtreeForUpdate db org i) = {}" unfolding subtree_set by blast
  then show ?thesis by simp
qed

lemma subtree_head:
  assumes f: "team_forest db" and r: "r \<in> set (live_teams db)"
  shows "q_ListSubtreeForUpdate db (t_org r) (t_id r) \<noteq> [] \<and> hd (q_ListSubtreeForUpdate db (t_org r) (t_id r)) = r"
proof -
  let ?sub = "q_ListSubtreeForUpdate db (t_org r) (t_id r)"
  have rin: "r \<in> set ?sub" using r root_in_subtree [OF f r] by (simp add: subtree_set)
  then have ne: "?sub \<noteq> []" by (metis empty_iff list.set(1))
  have srt: "sorted (map (\<lambda>t. length (t_path t)) ?sub)" by (simp add: q_ListSubtreeForUpdate_def)
  have h: "hd ?sub \<in> set ?sub" using ne by simp
  then have hl: "hd ?sub \<in> set (live_teams db)" "t_id r \<in> set (t_path (hd ?sub))"
    unfolding subtree_set by (auto simp: in_team_subtree_def)
  have "length (t_path (hd ?sub)) \<le> length (t_path r)"
    using srt rin ne by (cases ?sub) auto
  moreover obtain rest where "t_path (hd ?sub) = t_path r @ rest" using below_path [OF f r hl] by metis
  ultimately have "t_path (hd ?sub) = t_path r" by simp
  then have "t_id (hd ?sub) = t_id r" using last_path [OF f r] last_path [OF f hl(1)] by metis
  then have "hd ?sub = r" by (rule live_team_unique [OF f hl(1) r])
  with ne show ?thesis ..
qed

lemma height_fits:
  assumes f: "team_forest db" and r: "r \<in> set (live_teams db)"
  shows "n + subtreeHeight (q_ListSubtreeForUpdate db (t_org r) (t_id r)) \<le> MaxDepth \<longleftrightarrow>
    (\<forall>t \<in> set (live_teams db). in_team_subtree (t_org r) (t_id r) t \<longrightarrow>
      n + (length (t_path t) + 1 - length (t_path r)) \<le> MaxDepth)"
proof -
  let ?sub = "q_ListSubtreeForUpdate db (t_org r) (t_id r)"
  have "subtreeHeight ?sub = fold max (map (\<lambda>t. length (t_path t) + 1 - length (t_path r)) ?sub) 0"
    using subtree_head [OF f r] by (simp add: subtreeHeight_def fold_map comp_def)
  moreover have "n + m \<le> k \<longleftrightarrow> n \<le> k \<and> m \<le> k - n" for m k :: nat by auto
  ultimately have "n + subtreeHeight ?sub \<le> MaxDepth \<longleftrightarrow>
      n \<le> MaxDepth \<and> (\<forall>t \<in> set ?sub. length (t_path t) + 1 - length (t_path r) \<le> MaxDepth - n)"
    by (simp add: fold_max_le_iff)
  also have "\<dots> \<longleftrightarrow> (\<forall>t \<in> set ?sub. n + (length (t_path t) + 1 - length (t_path r)) \<le> MaxDepth)"
  proof -
    have "r \<in> set ?sub" using r root_in_subtree [OF f r] by (simp add: subtree_set)
    then show ?thesis by fastforce
  qed
  finally show ?thesis by (auto simp: subtree_set)
qed

text \<open>The verdict one would give looking at the tree alone.\<close>

definition new_depth :: "'x org_db_scheme \<Rightarrow> uuid option \<Rightarrow> nat" where
  "new_depth db np = (case np of None \<Rightarrow> 0 | Some q \<Rightarrow> team_depth db q)"

definition move_verdict :: "'x org_db_scheme \<Rightarrow> uuid \<Rightarrow> uuid \<Rightarrow> uuid option \<Rightarrow> team_error option" where
  "move_verdict db org i np =
     (if np = Some i then Some ErrCycle
      else case List.find (\<lambda>t. t_id t = i \<and> t_org t = org) (live_teams db) of
        None \<Rightarrow> Some ErrTeamNotFound
      | Some t \<Rightarrow>
          if t_default t then Some ErrDefaultTeam
          else if \<exists>q. np = Some q \<and> (\<forall>p \<in> set (live_teams db). t_id p = q \<longrightarrow> t_org p \<noteq> org) then Some ErrParentNotFound
          else if \<exists>q. np = Some q \<and> (i, q) \<in> (child_of db)\<^sup>* then Some ErrCycle
          else if \<exists>d. (i, d) \<in> (child_of db)\<^sup>* \<and> new_depth db np + (team_depth db d + 1 - team_depth db i) > MaxDepth
            then Some ErrDepthExceeded
          else None)"

lemma find_live_in:
  assumes f: "team_forest db"
  shows "List.find (\<lambda>t. t_id t = i \<and> t_org t = org) (live_teams db) = Some t \<longleftrightarrow>
    t \<in> set (live_teams db) \<and> t_id t = i \<and> t_org t = org"
proof
  assume "List.find (\<lambda>t. t_id t = i \<and> t_org t = org) (live_teams db) = Some t"
  then show "t \<in> set (live_teams db) \<and> t_id t = i \<and> t_org t = org" by (auto dest: find_Some_in)
next
  assume "t \<in> set (live_teams db) \<and> t_id t = i \<and> t_org t = org"
  then show "List.find (\<lambda>t. t_id t = i \<and> t_org t = org) (live_teams db) = Some t"
    by (intro find_the_unique) (auto intro: live_team_unique [OF f])
qed

text \<open>The target's outcome: the errors in their order, or its path.\<close>

lemma reparent_target:
  assumes f: "team_forest db" and up: "db_up db" and r: "r \<in> set (live_teams db)"
  shows "lockReparentTarget (t_org r) (t_id r) np db =
    (if \<exists>q. np = Some q \<and> (\<forall>p \<in> set (live_teams db). t_id p = q \<longrightarrow> t_org p \<noteq> t_org r) then Inl ErrParentNotFound
     else if \<exists>q. np = Some q \<and> (t_id r, q) \<in> (child_of db)\<^sup>* then Inl ErrCycle
     else Inr (case np of None \<Rightarrow> [] | Some q \<Rightarrow> t_path (the (q_GetTeamForUpdate db q))))"
proof (cases np)
  case None
  then show ?thesis by (simp add: lockReparentTarget_def)
next
  case (Some q)
  note look = find_live [OF forest_distinct [OF f], of q]
  show ?thesis
  proof (cases "q_GetTeamForUpdate db q")
    case None
    then have "\<forall>p \<in> set (live_teams db). t_id p \<noteq> q" using look by (auto simp: q_GetTeamForUpdate_def)
    then show ?thesis using None Some up by (simp add: lockReparentTarget_def team_row_def)
  next
    case (Some p)
    then have p: "p \<in> set (live_teams db)" "t_id p = q" using look by (auto simp: q_GetTeamForUpdate_def)
    have only: "(\<forall>p' \<in> set (live_teams db). t_id p' = q \<longrightarrow> t_org p' \<noteq> t_org r) \<longleftrightarrow> t_org p \<noteq> t_org r"
    proof
      assume "\<forall>p' \<in> set (live_teams db). t_id p' = q \<longrightarrow> t_org p' \<noteq> t_org r"
      with p show "t_org p \<noteq> t_org r" by simp
    next
      assume ne: "t_org p \<noteq> t_org r"
      show "\<forall>p' \<in> set (live_teams db). t_id p' = q \<longrightarrow> t_org p' \<noteq> t_org r"
      proof (intro ballI impI)
        fix p' assume "p' \<in> set (live_teams db)" and "t_id p' = q"
        then have "p' = p" using live_team_unique [OF f _ p(1)] p(2) by simp
        with ne show "t_org p' \<noteq> t_org r" by simp
      qed
    qed
    have anc: "t_id r \<in> set (t_path p) \<longleftrightarrow> (t_id r, q) \<in> (child_of db)\<^sup>*"
      unfolding path_is_ancestors [OF f p(1)] p(2) ..
    have "lockReparentTarget (t_org r) (t_id r) np db =
        (if t_org p \<noteq> t_org r then Inl ErrParentNotFound
         else if t_id r \<in> set (t_path p) then Inl ErrCycle else Inr (t_path p))"
      using Some \<open>np = Some q\<close> up by (simp add: lockReparentTarget_def team_row_def)
    then show ?thesis unfolding anc \<open>np = Some q\<close> using only Some by simp
  qed
qed

lemma target_fits:
  assumes f: "team_forest db" and r: "r \<in> set (live_teams db)"
    and nf: "\<not> (\<exists>q. np = Some q \<and> (\<forall>p \<in> set (live_teams db). t_id p = q \<longrightarrow> t_org p \<noteq> t_org r))"
    and nc: "\<not> (\<exists>q. np = Some q \<and> (t_id r, q) \<in> (child_of db)\<^sup>*)"
  defines "newPath \<equiv> (case np of None \<Rightarrow> [] | Some q \<Rightarrow> t_path (the (q_GetTeamForUpdate db q)))"
  shows "length newPath = new_depth db np"
    and "move_fits db r newPath np \<longleftrightarrow>
      length newPath + subtreeHeight (q_ListSubtreeForUpdate db (t_org r) (t_id r)) \<le> MaxDepth"
    and "length newPath + subtreeHeight (q_ListSubtreeForUpdate db (t_org r) (t_id r)) \<le> MaxDepth \<longleftrightarrow>
      \<not> (\<exists>d. (t_id r, d) \<in> (child_of db)\<^sup>* \<and> new_depth db np + (team_depth db d + 1 - team_depth db (t_id r)) > MaxDepth)"
proof -
  have tgt: "length newPath = new_depth db np \<and> (case np of
        None \<Rightarrow> newPath = []
      | Some q \<Rightarrow> \<exists>p \<in> set (live_teams db). t_id p = q \<and> t_org p = t_org r \<and> t_path p = newPath \<and> t_id r \<notin> set newPath)"
  proof (cases np)
    case None
    then show ?thesis by (simp add: newPath_def new_depth_def)
  next
    case (Some q)
    then obtain p where p: "p \<in> set (live_teams db)" "t_id p = q" "t_org p = t_org r" using nf by blast
    then have "q_GetTeamForUpdate db q = Some p"
      using find_live [OF forest_distinct [OF f]] by (auto simp: q_GetTeamForUpdate_def)
    then show ?thesis using Some p nc depth_is_length [OF f p(1)] path_is_ancestors [OF f p(1)]
      by (auto simp: newPath_def new_depth_def)
  qed
  then show len: "length newPath = new_depth db np" ..
  show "move_fits db r newPath np \<longleftrightarrow>
      length newPath + subtreeHeight (q_ListSubtreeForUpdate db (t_org r) (t_id r)) \<le> MaxDepth"
    using tgt height_fits [OF f r] by (simp add: move_fits_def)
  have below: "(\<exists>d. (t_id r, d) \<in> (child_of db)\<^sup>* \<and> P d) \<longleftrightarrow>
      (\<exists>t \<in> set (live_teams db). in_team_subtree (t_org r) (t_id r) t \<and> P (t_id t))" for P
  proof
    assume "\<exists>d. (t_id r, d) \<in> (child_of db)\<^sup>* \<and> P d"
    then obtain d where d: "(t_id r, d) \<in> (child_of db)\<^sup>*" "P d" by blast
    have "\<exists>t \<in> set (live_teams db). t_id t = d"
      using d(1) r by (cases rule: rtranclE) (auto dest: child_of_live)
    then obtain t where t: "t \<in> set (live_teams db)" "t_id t = d" by blast
    then have "t_id r \<in> set (t_path t)" using path_is_ancestors [OF f t(1)] d(1) by simp
    moreover have "t_org r = t_org t" using below_path [OF f r t(1) calculation] .
    ultimately have "in_team_subtree (t_org r) (t_id r) t"
      using t(1) by (simp add: in_team_subtree_def live_teams_iff)
    with t d(2) show "\<exists>t \<in> set (live_teams db). in_team_subtree (t_org r) (t_id r) t \<and> P (t_id t)" by blast
  next
    assume "\<exists>t \<in> set (live_teams db). in_team_subtree (t_org r) (t_id r) t \<and> P (t_id t)"
    then show "\<exists>d. (t_id r, d) \<in> (child_of db)\<^sup>* \<and> P d" using in_subtree_iff [OF f] by blast
  qed
  show "length newPath + subtreeHeight (q_ListSubtreeForUpdate db (t_org r) (t_id r)) \<le> MaxDepth \<longleftrightarrow>
      \<not> (\<exists>d. (t_id r, d) \<in> (child_of db)\<^sup>* \<and> new_depth db np + (team_depth db d + 1 - team_depth db (t_id r)) > MaxDepth)"
    unfolding height_fits [OF f r] below len
    using depth_is_length [OF f r] depth_is_length [OF f] by (auto simp: not_less)
qed


lemma lock_subtree_run:
  assumes f: "team_forest db" and up: "db_up db"
  shows "lock_subtree w org i db =
    (case List.find (\<lambda>t. t_id t = i \<and> t_org t = org) (live_teams db) of
       None \<Rightarrow> Inl ErrTeamNotFound
     | Some t \<Rightarrow> if t_default t then Inl ErrDefaultTeam else Inr (q_ListSubtreeForUpdate db org i, db))"
proof (cases "List.find (\<lambda>t. t_id t = i \<and> t_org t = org) (live_teams db)")
  case None
  then have "q_ListSubtreeForUpdate db org i = []" by (intro subtree_none [OF f]) (auto simp: find_None_iff)
  then show ?thesis using None up by (simp add: lock_subtree_def stmt_defs team_read_def)
next
  case (Some t)
  then have t: "t \<in> set (live_teams db)" "t_id t = i" "t_org t = org" using find_live_in [OF f] by simp_all
  with subtree_head [OF f t(1)] have "q_ListSubtreeForUpdate db org i \<noteq> []" "hd (q_ListSubtreeForUpdate db org i) = t"
    by simp_all
  then show ?thesis using Some t up by (simp add: lock_subtree_def stmt_defs team_read_def)
qed

lemma ReparentSubtree_run:
  assumes f: "team_forest db" and up: "db_up db" and r: "r \<in> set (live_teams db)" and fits: "move_fits db r newPath np"
  shows "q_ReparentSubtree newPath (t_id r) np (t_org r) db = Inr ((), moved_teams db (t_org r) newPath (t_id r) np)"
proof -
  have "team_path_ok (reparented newPath (t_id r) np t)"
    if t: "t \<in> set (teams db)" "in_team_subtree (t_org r) (t_id r) t" for t
  proof -
    have l: "t \<in> set (live_teams db)" using t by (simp add: live_teams_iff in_team_subtree_def)
    let ?t' = "move_row (t_org r) newPath (t_id r) np t"
    have "?t' \<in> set (live_teams (moved_teams db (t_org r) newPath (t_id r) np))" using l by (simp add: live_moved)
    then have "team_path_ok ?t'"
      using last_path [OF moved_forest [OF f r fits]] moved_forest [OF f r fits]
      by (auto simp: team_path_ok_def team_forest_def MaxDepth_def)
    then show ?thesis using t(2) by (simp add: move_row_def)
  qed
  moreover have "parent_exists db np"
    using fits by (auto simp: parent_exists_def team_exists_def list_ex_iff move_fits_def live_teams_iff split: option.splits)
  ultimately show ?thesis
    using up by (simp add: q_ReparentSubtree_def Let_def list_all_iff moved_teams_def move_row_def)
qed

lemma Reparent_run:
  assumes f: "team_forest db" and up: "db_up db"
  shows "case move_verdict db org i np of
      Some e \<Rightarrow> TeamReparent pg_team_store org i np db = (Inl e, db)
    | None \<Rightarrow> \<exists>r newPath. r \<in> set (live_teams db) \<and> t_id r = i \<and> t_org r = org \<and> move_fits db r newPath np \<and>
        TeamReparent pg_team_store org i np db =
          (Inr (dbTeamToDomain (move_row org newPath i np r)), moved_teams db org newPath i np)"
proof (cases "np = Some i \<or> (case List.find (\<lambda>t. t_id t = i \<and> t_org t = org) (live_teams db) of None \<Rightarrow> True | Some t \<Rightarrow> t_default t)")
  case True
  then show ?thesis
    using lock_subtree_run [OF f up, of "''locking subtree''" org i]
    by (auto simp: move_verdict_def TeamReparent_def pg_TeamReparent_def in_tx_def sbind_def split: option.splits)
next
  case False
  then obtain r where find: "List.find (\<lambda>t. t_id t = i \<and> t_org t = org) (live_teams db) = Some r" "\<not> t_default r"
    and ni: "np \<noteq> Some i" by (auto split: option.splits)
  then have r: "r \<in> set (live_teams db)" and ids: "t_id r = i" "t_org r = org" using find_live_in [OF f] by simp_all
  let ?sub = "q_ListSubtreeForUpdate db org i"
  have lock: "lock_subtree ''locking subtree'' org i db = Inr (?sub, db)"
    using lock_subtree_run [OF f up] find by simp
  note target = reparent_target [OF f up r, of np, unfolded ids]
  show ?thesis
  proof (cases "(\<exists>q. np = Some q \<and> (\<forall>p \<in> set (live_teams db). t_id p = q \<longrightarrow> t_org p \<noteq> org)) \<or>
      (\<exists>q. np = Some q \<and> (i, q) \<in> (child_of db)\<^sup>*)")
    case True
    then show ?thesis using ni find lock target
      by (auto simp: move_verdict_def TeamReparent_def pg_TeamReparent_def in_tx_def sbind_def sread_def)
  next
    case ok: False
    define newPath where "newPath = (case np of None \<Rightarrow> [] | Some q \<Rightarrow> t_path (the (q_GetTeamForUpdate db q)))"
    have tgt: "lockReparentTarget org i np db = Inr newPath" using target ok by (auto simp: newPath_def)
    have nfc: "\<not> (\<exists>q. np = Some q \<and> (\<forall>p \<in> set (live_teams db). t_id p = q \<longrightarrow> t_org p \<noteq> t_org r))"
      "\<not> (\<exists>q. np = Some q \<and> (t_id r, q) \<in> (child_of db)\<^sup>*)" using ok ids by auto
    note fit = target_fits [OF f r nfc, folded newPath_def, unfolded ids]
    show ?thesis
    proof (cases "length newPath + subtreeHeight ?sub \<le> MaxDepth")
      case False
      then have v: "move_verdict db org i np = Some ErrDepthExceeded"
        using ni find ok fit(3) by (auto simp: move_verdict_def)
      have "TeamReparent pg_team_store org i np db = (Inl ErrDepthExceeded, db)"
        using ni lock tgt False by (simp add: TeamReparent_def pg_TeamReparent_def in_tx_def stmt_defs)
      then show ?thesis by (simp add: v)
    next
      case True
      have v: "move_verdict db org i np = None" using ni find ok fit(3) True by (auto simp: move_verdict_def)
      have fits: "move_fits db r newPath np" using fit(2) True by simp
      have run: "q_ReparentSubtree newPath i np org db = Inr ((), moved_teams db org newPath i np)"
        using ReparentSubtree_run [OF f up r fits] ids by simp
      have "move_row org newPath i np r \<in> set (live_teams (moved_teams db org newPath i np))"
        using r by (simp add: live_moved)
      then have "q_GetTeamByID (moved_teams db org newPath i np) i = Some (move_row org newPath i np r)"
        using forest_distinct [OF moved_forest [OF f r fits]] ids
        by (simp add: q_GetTeamByID_Some live_teams_iff)
      moreover have "db_up (moved_teams db org newPath i np)" using up by (simp add: moved_teams_def)
      ultimately have "TeamReparent pg_team_store org i np db =
          (Inr (dbTeamToDomain (move_row org newPath i np r)), moved_teams db org newPath i np)"
        using ni lock tgt True run
        by (simp add: TeamReparent_def pg_TeamReparent_def in_tx_def stmt_defs wrap_team_def team_row_def)
      with r ids fits show ?thesis by (simp only: v option.case) blast
    qed
  qed
qed

lemma pg_Reparent_cases:
  assumes f: "team_forest db"
  shows "snd (pg_TeamReparent org i np db) = db \<or>
    (\<exists>r newPath. r \<in> set (live_teams db) \<and> t_id r = i \<and> t_org r = org \<and> move_fits db r newPath np \<and>
       snd (pg_TeamReparent org i np db) = moved_teams db org newPath i np)"
proof (cases "db_up db \<and> np \<noteq> Some i")
  case True
  then have eq: "pg_TeamReparent org i np db = TeamReparent pg_team_store org i np db" by (simp add: TeamReparent_def)
  show ?thesis
  proof (cases "move_verdict db org i np")
    case None
    with Reparent_run [OF f, where org = org and i = i and np = np] True obtain r newPath where
      "r \<in> set (live_teams db)" "t_id r = i" "t_org r = org" "move_fits db r newPath np"
      "snd (pg_TeamReparent org i np db) = moved_teams db org newPath i np"
      unfolding eq by auto
    then show ?thesis by blast
  next
    case (Some e)
    with Reparent_run [OF f, where org = org and i = i and np = np] True show ?thesis unfolding eq by simp
  qed
next
  case False
  then show ?thesis
  proof (cases "db_up db")
    case False
    then have "lock_subtree ''locking subtree'' org i db = Inl (ErrTeamDatabase ''locking subtree'')"
      by (simp add: lock_subtree_def stmt_defs team_read_def)
    then show ?thesis by (simp add: pg_TeamReparent_def in_tx_def sbind_def)
  next
    case up: True
    with False have np: "np = Some i" by simp
    show ?thesis
    proof (cases "List.find (\<lambda>t. t_id t = i \<and> t_org t = org) (live_teams db)")
      case None
      then show ?thesis using lock_subtree_run [OF f up]
        by (simp add: pg_TeamReparent_def in_tx_def sbind_def)
    next
      case (Some r)
      then have r: "r \<in> set (live_teams db)" "t_id r = i" "t_org r = org" using find_live_in [OF f] by simp_all
      have "lockReparentTarget org i np db \<noteq> Inr newPath" for newPath
        using reparent_target [OF f up r(1), of np] r np by auto
      then show ?thesis using lock_subtree_run [OF f up, of _ org i] Some
        by (auto simp: pg_TeamReparent_def in_tx_def sbind_def sread_def split: sum.split)
    qed
  qed
qed

lemma TeamReparent_forest:
  assumes f: "team_forest db"
  shows "team_forest (snd (pg_TeamReparent org i np db))"
  using pg_Reparent_cases [OF f, of org i np] f moved_forest [OF f] by auto

text \<open>
  C28. Moving a team is decided and done as on a tree. On a well-formed forest the request fails
  exactly with the error the tree calls for, in this order and changing nothing: under itself, an
  unknown or foreign team, the default team, an unknown or foreign parent, a parent at or below the
  moved team, or some team of the moved subtree ending up deeper than five. Otherwise it succeeds: the
  parent relation loses the old edge of the moved team and gains the new one, no team appears,
  disappears or changes otherwise than in its path, and the forest stays well formed.
\<close>

theorem Reparent_is_tree_move:
  assumes "team_forest db" and "db_up db"
  shows "case move_verdict db org i np of
      Some e \<Rightarrow> TeamReparent pg_team_store org i np db = (Inl e, db)
    | None \<Rightarrow> \<exists>t db'. TeamReparent pg_team_store org i np db = (Inr t, db') \<and> team_ID t = i \<and> team_forest db' \<and>
        child_of db' = {(a, b) \<in> child_of db. b \<noteq> i} \<union> {(q, i) |q. np = Some q} \<and>
        map t_id (live_teams db') = map t_id (live_teams db) \<and> db' = db\<lparr>teams := teams db'\<rparr>"
proof (cases "move_verdict db org i np")
  case None
  from Reparent_run [OF assms, where org = org and i = i and np = np] None obtain r newPath where
    r: "r \<in> set (live_teams db)" and ids: "t_id r = i" "t_org r = org" and fits: "move_fits db r newPath np"
    and run: "TeamReparent pg_team_store org i np db =
      (Inr (dbTeamToDomain (move_row org newPath i np r)), moved_teams db org newPath i np)" by auto
  have "child_of (moved_teams db org newPath i np) = {(a, b) \<in> child_of db. b \<noteq> i} \<union> {(q, i) |q. np = Some q}"
    using moved_child_of [OF assms(1) r fits] ids by simp
  moreover have "team_forest (moved_teams db org newPath i np)" using moved_forest [OF assms(1) r fits] ids by simp
  moreover have "team_ID (dbTeamToDomain (move_row org newPath i np r)) = i" using ids by (simp add: dbTeamToDomain_def)
  moreover have "map t_id (live_teams (moved_teams db org newPath i np)) = map t_id (live_teams db)"
    by (simp add: live_moved)
  moreover have "moved_teams db org newPath i np = db\<lparr>teams := teams (moved_teams db org newPath i np)\<rparr>"
    by (simp add: moved_teams_def)
  ultimately show ?thesis using run None by auto
next
  case (Some e)
  with Reparent_run [OF assms, where org = org and i = i and np = np] show ?thesis by simp
qed

text \<open>In the demonstration organisation: \<open>ops\<close> cannot move below its own \<open>on-call\<close>, which can move
  below the default team.\<close>

lemma demo_forest: "team_forest demo_db"
  by (simp add: team_forest_def chained_def live_teams_def demo_db_def live_team_def MaxDepth_def)

definition demo_default_team :: TeamRow where
  "demo_default_team = \<lparr>t_id = 20, t_org = 1, t_parent = None, t_path = [20], t_slug = ''default'',
     t_name = ''Default'', t_description = '''', t_default = True, t_deleted = False\<rparr>"

definition demo_ops_team :: TeamRow where
  "demo_ops_team = \<lparr>t_id = 21, t_org = 1, t_parent = None, t_path = [21], t_slug = ''ops'',
     t_name = ''Ops'', t_description = '''', t_default = False, t_deleted = False\<rparr>"

definition demo_on_call_team :: TeamRow where
  "demo_on_call_team = \<lparr>t_id = 22, t_org = 1, t_parent = Some 21, t_path = [21, 22], t_slug = ''on-call'',
     t_name = ''On call'', t_description = '''', t_default = False, t_deleted = False\<rparr>"

lemma demo_team_fields [simp]:
  "t_id demo_default_team = 20" "t_org demo_default_team = 1" "t_parent demo_default_team = None"
  "t_path demo_default_team = [20]"
  "t_id demo_ops_team = 21" "t_org demo_ops_team = 1" "t_parent demo_ops_team = None"
  "t_path demo_ops_team = [21]"
  "t_id demo_on_call_team = 22" "t_org demo_on_call_team = 1" "t_parent demo_on_call_team = Some 21"
  "t_path demo_on_call_team = [21, 22]" "\<not> t_default demo_on_call_team"
  by (simp_all add: demo_default_team_def demo_ops_team_def demo_on_call_team_def)

lemma demo_live: "live_teams demo_db = [demo_default_team, demo_ops_team, demo_on_call_team]"
  by (simp add: live_teams_def demo_db_def live_team_def demo_default_team_def demo_ops_team_def demo_on_call_team_def)

lemma demo_child_of: "child_of demo_db = {(21, 22)}"
proof -
  have "(a, b) \<in> child_of demo_db \<longleftrightarrow> (\<exists>p \<in> set (live_teams demo_db). \<exists>t \<in> set (live_teams demo_db).
      a = t_id p \<and> b = t_id t \<and> t_parent t = Some (t_id p))" for a b
    unfolding child_of_def by blast
  then show ?thesis by (auto simp: demo_live)
qed

lemma demo_verdict: "move_verdict demo_db 1 22 (Some 20) = None"
proof -
  have below: "d = 22" if "(22, d) \<in> (child_of demo_db)\<^sup>*" for d
    using that by (cases rule: converse_rtranclE) (auto simp: demo_child_of)
  have "team_depth demo_db (t_id demo_on_call_team) = 2" "team_depth demo_db (t_id demo_default_team) = 1"
    using depth_is_length [OF demo_forest, of demo_on_call_team] depth_is_length [OF demo_forest, of demo_default_team]
    by (simp_all add: demo_live)
  then have shallow: "\<not> (\<exists>d. (22, d) \<in> (child_of demo_db)\<^sup>* \<and>
      new_depth demo_db (Some 20) + (team_depth demo_db d + 1 - team_depth demo_db 22) > MaxDepth)"
    by (auto simp: new_depth_def MaxDepth_def dest!: below)
  have far: "(22, 20) \<notin> (child_of demo_db)\<^sup>*" using below [of 20] by auto
  have "List.find (\<lambda>t. t_id t = 22 \<and> t_org t = 1) (live_teams demo_db) = Some demo_on_call_team"
    by (simp add: demo_live)
  then show ?thesis using far shallow by (simp add: move_verdict_def demo_live)
qed

theorem Reparent_is_tree_move_witness:
  "\<exists>t db'. TeamReparent pg_team_store 1 22 (Some 20) demo_db = (Inr t, db') \<and> team_ID t = 22 \<and>
     child_of db' = {(20, 22)}"
proof -
  have up: "db_up demo_db" by (simp add: demo_db_def)
  obtain t db' where r: "TeamReparent pg_team_store 1 22 (Some 20) demo_db = (Inr t, db')" "team_ID t = 22"
    "child_of db' = {(a, b) \<in> child_of demo_db. b \<noteq> 22} \<union> {(q, 22) |q. Some 20 = Some q}"
    using Reparent_is_tree_move [OF demo_forest up, where org = 1 and i = 22 and np = "Some 20"]
    by (simp only: demo_verdict option.case) blast
  have "child_of db' = {(20, 22)}" unfolding r(3) demo_child_of by auto
  with r(1,2) show ?thesis by blast
qed

text \<open>
  C29. Effective teams are the teams below. The teams that count for a user are selected by one array
  overlap between each team's materialised path and the user's direct teams, without recursion. On a
  well-formed forest they are exactly the live teams of the organisation that are a team the user
  directly belongs to or one of its descendants in the parent relation.
\<close>

theorem effective_teams_are_descendants:
  assumes f: "team_forest db"
  shows "x \<in> set (effective_team_ids db org user) \<longleftrightarrow>
    (\<exists>t \<in> set (live_teams db). t_id t = x \<and> t_org t = org) \<and>
    (\<exists>d \<in> set (direct_teams db org user). (d, x) \<in> (child_of db)\<^sup>*)"
proof
  assume "x \<in> set (effective_team_ids db org user)"
  then obtain t d where t: "t \<in> set (teams db)" "t_id t = x" "t_org t = org" "live_team t"
    and d: "d \<in> set (t_path t)" "d \<in> set (direct_teams db org user)" unfolding effective_team_ids_iff by blast
  then have l: "t \<in> set (live_teams db)" by (simp add: live_teams_iff)
  have "(d, x) \<in> (child_of db)\<^sup>*" using path_is_ancestors [OF f l] d(1) t(2) by simp
  with l t d(2) show "(\<exists>t \<in> set (live_teams db). t_id t = x \<and> t_org t = org) \<and>
    (\<exists>d \<in> set (direct_teams db org user). (d, x) \<in> (child_of db)\<^sup>*)" by blast
next
  assume "(\<exists>t \<in> set (live_teams db). t_id t = x \<and> t_org t = org) \<and>
    (\<exists>d \<in> set (direct_teams db org user). (d, x) \<in> (child_of db)\<^sup>*)"
  then obtain t d where l: "t \<in> set (live_teams db)" and t: "t_id t = x" "t_org t = org"
    and d: "d \<in> set (direct_teams db org user)" "(d, x) \<in> (child_of db)\<^sup>*" by blast
  then have "d \<in> set (t_path t)" using path_is_ancestors [OF f l] by simp
  with l t d(1) show "x \<in> set (effective_team_ids db org user)"
    unfolding effective_team_ids_iff live_teams_iff by blast
qed

theorem effective_teams_are_descendants_witness:
  "(21, 22) \<in> (child_of demo_db)\<^sup>*"
proof -
  have "22 \<in> set (effective_team_ids demo_db 1 11)"
    by (simp add: demo_db_def query_defs)
  then have "\<exists>d \<in> set (direct_teams demo_db 1 11). (d, 22) \<in> (child_of demo_db)\<^sup>*"
    using effective_teams_are_descendants [OF demo_forest] by blast
  moreover have "direct_teams demo_db 1 11 = [21]" by (simp add: demo_db_def query_defs)
  ultimately show ?thesis by simp
qed


section \<open>Every run of requests\<close>

definition pg_log :: "(nat \<Rightarrow> uuid) \<Rightarrow> 'x org_db_scheme audit_log_fn" where
  "pg_log fresh k e = audit_log_event (fresh k) e"

lemma pg_log_frame [simp]:
  "teams (pg_log fresh k e db) = teams db" "team_members (pg_log fresh k e db) = team_members db"
  "db_up (pg_log fresh k e db) = db_up db"
  using audit_log_event_only [of "fresh k" e db]
  by (metis org_db.select_convs org_db.surjective org_db.update_convs(8) pg_log_def)+

lemma set_members_frame: "set_members tms db = Inr (u, db') \<Longrightarrow> db' = db\<lparr>team_members := tms\<rparr>"
  by (auto simp: set_members_def split: if_splits)

lemma add_member_frame: "q_AddTeamMember row db = Inr (m, db') \<Longrightarrow> db' = db\<lparr>team_members := team_members db'\<rparr>"
  by (auto simp: q_AddTeamMember_def stmt_run set_members_def split: if_splits option.splits)

lemma member_frames:
  "teams (snd (pg_AddMember i u org r db)) = teams db \<and> db_up (snd (pg_AddMember i u org r db)) = db_up db"
  "teams (snd (pg_RemoveMember i u org db)) = teams db"
  "teams (snd (pg_SetPrimary i u org db)) = teams db"
  "teams (snd (pg_EnsureDefaultMembership org u db)) = teams db"
proof -
  have a: "teams db' = teams db \<and> db_up db' = db_up db" if "q_AddTeamMember row db = Inr (m, db')"
    for row m and db db' :: "'a org_db_scheme"
    using arg_cong [OF add_member_frame [OF that], of teams] arg_cong [OF add_member_frame [OF that], of db_up] by simp
  have m: "teams db' = teams db" if "set_members tms db = Inr (v, db')" for tms v and db db' :: "'a org_db_scheme"
    using that by (auto simp: set_members_def split: if_splits)
  have a': "teams db' = teams db" if "q_AddTeamMember row db = Inr (m, db')" for row m and db db' :: "'a org_db_scheme"
    using a [OF that] ..
  show "teams (snd (pg_AddMember i u org r db)) = teams db \<and> db_up (snd (pg_AddMember i u org r db)) = db_up db"
    by (auto simp: pg_AddMember_def split: sum.splits dest: a)
  show "teams (snd (pg_RemoveMember i u org db)) = teams db"
    unfolding pg_RemoveMember_def
    by (rule in_tx_invariant [where I = "\<lambda>s. teams s = teams db"])
      (auto simp: stmt_run wrap_team_Inr restoreMembershipInvariants_def default_team_def q_RemoveTeamMember_def
        q_SetPrimaryFlag_def dest!: m a' split: if_splits)
  show "teams (snd (pg_SetPrimary i u org db)) = teams db"
    unfolding pg_SetPrimary_def
    by (rule in_tx_invariant [where I = "\<lambda>s. teams s = teams db"])
      (auto simp: stmt_run wrap_team_Inr q_SetPrimaryFlag_def q_ClearPrimaryTeam_def dest!: m)
  show "teams (snd (pg_EnsureDefaultMembership org u db)) = teams db"
    unfolding pg_EnsureDefaultMembership_def
    by (rule in_tx_invariant [where I = "\<lambda>s. teams s = teams db"])
      (auto simp: stmt_run wrap_team_Inr default_team_def q_SetPrimaryFlag_def dest!: m a' split: if_splits)
qed

lemma pg_get_frame: "teams db' = teams db \<Longrightarrow> db_up db' = db_up db \<Longrightarrow> pg_TeamGet db' i = pg_TeamGet db i"
  by (simp add: pg_TeamGet_def team_row_def q_GetTeamByID_def)

lemma pg_get_Inr: "pg_TeamGet db i = Inr t \<longleftrightarrow> db_up db \<and> (\<exists>r. q_GetTeamByID db i = Some r \<and> t = dbTeamToDomain r)"
  by (auto simp: pg_TeamGet_def team_row_def split: option.splits)

lemma pg_get_id: "pg_TeamGet db i = Inr t \<Longrightarrow> team_ID t = i"
  by (auto simp: pg_get_Inr q_GetTeamByID_def dbTeamToDomain_def dest: find_Some_in)

interpretation forest: team_store pg_team_store "pg_log fresh" team_forest for fresh
proof
  fix db :: "'a org_db_scheme" and t t' :: Team and e k i n d org p u r
  show "team_forest db \<Longrightarrow> team_forest (pg_log fresh k e db)"
    by (simp add: forest_frame [OF pg_log_frame(1)])
  show "team_forest db \<Longrightarrow> team_forest (snd (ts_Create pg_team_store t db))" by (simp add: TeamCreate_forest)
  show "team_forest db \<Longrightarrow> team_forest (snd (ts_Update pg_team_store i n d db))" by (simp add: TeamUpdate_forest)
  show "team_forest db \<Longrightarrow> team_forest (snd (ts_Reparent pg_team_store org i p db))" by (simp add: TeamReparent_forest)
  show "team_forest db \<Longrightarrow> team_forest (snd (ts_Delete pg_team_store org i db))" by (simp add: TeamDelete_forest)
  show "team_forest db \<Longrightarrow> team_forest (snd (ts_AddMember pg_team_store i u org r db))"
    by (simp add: forest_frame [OF conjunct1 [OF member_frames(1)]])
  show "ts_Get pg_team_store db i = Inr t \<Longrightarrow> ts_Get pg_team_store (snd (ts_AddMember pg_team_store i u org r db)) i = Inr t"
    by (simp add: pg_get_frame [OF conjunct1 [OF member_frames(1)] conjunct2 [OF member_frames(1)]])
  show "team_forest db \<Longrightarrow> team_forest (snd (ts_RemoveMember pg_team_store i u (team_OrgID t) db))"
    by (simp add: forest_frame [OF member_frames(2)])
  show "team_forest db \<Longrightarrow> team_forest (snd (ts_SetPrimary pg_team_store i u (team_OrgID t) db))"
    by (simp add: forest_frame [OF member_frames(3)])
  show "team_forest db \<Longrightarrow> team_forest (snd (ts_EnsureDefaultMembership pg_team_store org u db))"
    by (simp add: forest_frame [OF member_frames(4)])
  show "ts_Get pg_team_store db i = Inr t \<Longrightarrow> team_ID t = i" by (simp add: pg_get_id)
qed

text \<open>
  C30. The team hierarchy is a forest at most five deep, always. From a well-formed table, along every
  run of requests (create, rename, move, delete, membership changes, enrolments), every live team's
  path is its parent's path followed by itself, its parent is a live team of the same organisation, no
  team is its own ancestor, and no team has more than five teams on its way from the root.
\<close>

theorem team_forest_always:
  assumes "team_forest db" and "(team_step pg_team_store (pg_log fresh))\<^sup>*\<^sup>* db db'"
  shows "team_forest db' \<and> acyclic (child_of db') \<and>
    (\<forall>t \<in> set (live_teams db'). team_depth db' (t_id t) \<le> 5)"
proof -
  have f: "team_forest db'" using forest.requests_keep assms by blast
  moreover have "team_depth db' (t_id t) \<le> 5" if "t \<in> set (live_teams db')" for t
    using depth_is_length [OF f that] f that by (simp add: team_forest_def MaxDepth_def)
  ultimately show ?thesis using forest_acyclic by blast
qed

definition demo_team_ctx :: team_ctx where
  "demo_team_ctx = \<lparr>tc_OrgID = 1, tc_Actor = Some 10, tc_Policy = \<lparr>policy_Required = True\<rparr>, tc_TicketParam = ''OPS-7''\<rparr>"

definition demo_after_delete :: org_db where
  "demo_after_delete = snd (h_Delete pg_team_store (pg_log (\<lambda>k. 900 + of_nat k)) demo_team_ctx 22 demo_db)"

theorem team_forest_always_witness: "team_forest demo_after_delete \<and> acyclic (child_of demo_after_delete)"
proof -
  have "(team_step pg_team_store (pg_log (\<lambda>k. 900 + of_nat k)))\<^sup>*\<^sup>* demo_db demo_after_delete"
    unfolding demo_after_delete_def by (rule r_into_rtranclp, rule team_step.delete)
  from team_forest_always [OF demo_forest this] show ?thesis by blast
qed

end
