(* ===== verification/TeamMembers.thy ===== *)
theory TeamMembers
  imports TeamReach
begin

text \<open>
  Memberships: one primary team per user and organisation, never a user without a team once enrolled.
\<close>

section \<open>The constraints of the table\<close>

text \<open>The live teams as memberships see them: identity, organisation, whether it is the default.\<close>

definition live_keys :: "'x org_db_scheme \<Rightarrow> (uuid \<times> uuid \<times> bool) set" where
  "live_keys db = (\<lambda>t. (t_id t, t_org t, t_default t)) ` set (live_teams db)"

definition keys_ok :: "(uuid \<times> uuid \<times> bool) set \<Rightarrow> bool" where
  "keys_ok K \<longleftrightarrow>
     (\<forall>i o1 o2 b1 b2. (i, o1, b1) \<in> K \<and> (i, o2, b2) \<in> K \<longrightarrow> o1 = o2 \<and> b1 = b2) \<and>
     (\<forall>i j org. (i, org, True) \<in> K \<and> (j, org, True) \<in> K \<longrightarrow> i = j)"

definition members_in :: "(uuid \<times> uuid \<times> bool) set \<Rightarrow> TeamMemberRow list \<Rightarrow> bool" where
  "members_in K tms \<longleftrightarrow>
     distinct (map (\<lambda>m. (tm_team m, tm_user m)) tms) \<and> one_primary tms \<and>
     (\<forall>m \<in> set tms. \<exists>b. (tm_team m, tm_org m, b) \<in> K)"

definition members_ok :: "'x org_db_scheme \<Rightarrow> bool" where
  "members_ok db \<longleftrightarrow> keys_ok (live_keys db) \<and> members_in (live_keys db) (team_members db)"

definition has_primary :: "uuid \<Rightarrow> uuid \<Rightarrow> TeamMemberRow list \<Rightarrow> bool" where
  "has_primary org u tms \<longleftrightarrow> (\<exists>m \<in> set tms. tm_user m = u \<and> tm_org m = org \<and> tm_primary m)"

lemma members_frame: "teams db' = teams db \<Longrightarrow> live_keys db' = live_keys db"
  by (simp add: live_keys_def live_teams_def)

lemma forest_keys:
  assumes "team_forest db" and "(i, o1, b1) \<in> live_keys db" and "(i, o2, b2) \<in> live_keys db"
  shows "o1 = o2 \<and> b1 = b2"
  using assms live_team_unique [OF assms(1)] by (auto simp: live_keys_def)

lemma live_key_team:
  assumes "team_forest db"
  shows "q_GetTeamByID db i = Some t \<Longrightarrow> (i, t_org t, t_default t) \<in> live_keys db"
  using q_GetTeamByID_Some [OF forest_distinct [OF assms]] by (auto simp: live_keys_def live_teams_iff)

lemma default_key: "q_GetDefaultTeam db org = Some d \<Longrightarrow> (t_id d, org, True) \<in> live_keys db"
  by (force simp: q_GetDefaultTeam_def live_keys_def live_teams_iff dest: find_Some_in)

lemma live_key_found:
  assumes "team_forest db" and "(i, org, b) \<in> live_keys db"
  shows "\<exists>t. q_GetTeamByID db i = Some t"
proof -
  from assms(2) obtain t where "t \<in> set (live_teams db)" "t_id t = i" by (auto simp: live_keys_def)
  then have "q_GetTeamByID db i = Some t"
    using q_GetTeamByID_Some [OF forest_distinct [OF assms(1)]] by (simp add: live_teams_iff)
  then show ?thesis ..
qed

section \<open>Statements\<close>

lemma one_primary_iff:
  assumes "distinct (map (\<lambda>m. (tm_team m, tm_user m)) tms)"
  shows "one_primary tms \<longleftrightarrow> (\<forall>m \<in> set tms. \<forall>m' \<in> set tms. tm_primary m \<and> tm_primary m' \<and>
    tm_user m = tm_user m' \<and> tm_org m = tm_org m' \<longrightarrow> m = m')"
proof -
  have "distinct tms" using assms by (simp add: distinct_map)
  then show ?thesis by (auto simp: one_primary_def distinct_map inj_on_def)
qed

text \<open>Rewriting rows in place without touching team, user or organisation.\<close>

lemma map_members:
  assumes "members_in K tms" and "one_primary (map g tms)"
    and "\<And>m. tm_team (g m) = tm_team m \<and> tm_user (g m) = tm_user m \<and> tm_org (g m) = tm_org m"
  shows "members_in K (map g tms)"
  using assms by (auto simp: members_in_def comp_def)

lemma map_primary:
  assumes "\<And>m. tm_user (g m) = tm_user m \<and> tm_org (g m) = tm_org m"
    and "\<And>m. m \<in> set tms \<Longrightarrow> tm_user m = u \<Longrightarrow> tm_org m = org \<Longrightarrow> tm_primary m \<Longrightarrow> tm_primary (g m)"
  shows "has_primary org u tms \<Longrightarrow> has_primary org u (map g tms)"
  using assms by (fastforce simp: has_primary_def)

lemma set_members_Inr: "set_members tms db = Inr (u, db') \<longleftrightarrow> db_up db \<and> one_primary tms \<and> db' = db\<lparr>team_members := tms\<rparr>"
  by (auto simp: set_members_def)

lemma get_member_Some:
  "q_GetTeamMember db i u = Some m \<Longrightarrow> m \<in> set (team_members db) \<and> tm_team m = i \<and> tm_user m = u"
  by (auto simp: q_GetTeamMember_def dest: find_Some_in)

lemma get_member_None:
  "q_GetTeamMember db i u = None \<longleftrightarrow> (i, u) \<notin> (\<lambda>m. (tm_team m, tm_user m)) ` set (team_members db)"
  by (auto simp: q_GetTeamMember_def find_None_iff)

text \<open>Adding a member, by upsert, for a team of the row's organisation.\<close>

lemma AddTeamMember_ok:
  assumes a: "q_AddTeamMember row db = Inr (m, db')" and M: "members_in K (team_members db)"
    and k: "(tm_team row, tm_org row, b) \<in> K"
  shows "members_in K (team_members db')" and "has_primary org u (team_members db) \<Longrightarrow> has_primary org u (team_members db')"
    and "\<exists>m \<in> set (team_members db'). tm_team m = tm_team row \<and> tm_user m = tm_user row"
    and "q_GetTeamMember db (tm_team row) (tm_user row) = None \<Longrightarrow> team_members db' = team_members db @ [row]"
proof -
  let ?g = "\<lambda>x. if tm_team x = tm_team row \<and> tm_user x = tm_user row then x\<lparr>tm_role := tm_role row\<rparr> else x"
  have "(q_GetTeamMember db (tm_team row) (tm_user row) = None \<longrightarrow> team_members db' = team_members db @ [row] \<and>
        one_primary (team_members db')) \<and>
      (q_GetTeamMember db (tm_team row) (tm_user row) \<noteq> None \<longrightarrow> team_members db' = map ?g (team_members db))"
    using a by (auto simp: q_AddTeamMember_def stmt_run set_members_Inr split: if_splits option.splits)
  note r = this
  have "members_in K (team_members db') \<and>
      (has_primary org u (team_members db) \<longrightarrow> has_primary org u (team_members db')) \<and>
      (\<exists>m \<in> set (team_members db'). tm_team m = tm_team row \<and> tm_user m = tm_user row)"
  proof (cases "q_GetTeamMember db (tm_team row) (tm_user row)")
    case None
    with r M k show ?thesis by (auto simp: get_member_None members_in_def has_primary_def)
  next
    case (Some x)
    then have eq: "team_members db' = map ?g (team_members db)" using r by simp
    have "one_primary (map ?g (team_members db))"
    proof -
      have "map (\<lambda>m. (tm_user m, tm_org m)) (filter tm_primary (map ?g (team_members db))) =
          map (\<lambda>m. (tm_user m, tm_org m)) (filter tm_primary (team_members db))"
        by (simp add: filter_map comp_def if_distrib cong: if_cong)
      then show ?thesis using M by (simp add: one_primary_def members_in_def)
    qed
    then have "members_in K (map ?g (team_members db))" by (intro map_members [OF M]) auto
    moreover have "has_primary org u (team_members db) \<longrightarrow> has_primary org u (map ?g (team_members db))"
      by (intro impI map_primary [of ?g]) auto
    moreover have "?g x \<in> set (map ?g (team_members db))" using get_member_Some [OF Some] by auto
    ultimately show ?thesis using get_member_Some [OF Some] unfolding eq by (auto intro!: bexI [of _ "?g x"])
  qed
  then show "members_in K (team_members db')" and "has_primary org u (team_members db) \<Longrightarrow> has_primary org u (team_members db')"
    and "\<exists>m \<in> set (team_members db'). tm_team m = tm_team row \<and> tm_user m = tm_user row" by blast+
  show "q_GetTeamMember db (tm_team row) (tm_user row) = None \<Longrightarrow> team_members db' = team_members db @ [row]"
    using r by blast
qed

text \<open>Setting the flag on a row that exists makes its user primary there.\<close>

lemma SetPrimaryFlag_ok:
  assumes s: "q_SetPrimaryFlag i u db = Inr (v, db')" and M: "members_in K (team_members db)"
    and m: "m \<in> set (team_members db)" "tm_team m = i" "tm_user m = u"
  shows "members_in K (team_members db') \<and> has_primary (tm_org m) u (team_members db') \<and>
    (has_primary org w (team_members db) \<longrightarrow> has_primary org w (team_members db')) \<and> teams db' = teams db"
proof -
  let ?g = "\<lambda>m. if tm_team m = i \<and> tm_user m = u then m\<lparr>tm_primary := True\<rparr> else m"
  have r: "one_primary (map ?g (team_members db))" "team_members db' = map ?g (team_members db)" "teams db' = teams db"
    using s by (auto simp: q_SetPrimaryFlag_def set_members_Inr)
  have "members_in K (map ?g (team_members db))" by (rule map_members [OF M r(1)]) auto
  moreover have "has_primary (tm_org m) u (map ?g (team_members db))"
    using m unfolding has_primary_def by (intro bexI [of _ "m\<lparr>tm_primary := True\<rparr>"]) (auto simp: image_iff)
  moreover have "has_primary org w (team_members db) \<longrightarrow> has_primary org w (map ?g (team_members db))"
    by (intro impI map_primary [of ?g]) auto
  ultimately show ?thesis using r by simp
qed


section \<open>Operations\<close>

definition team_inv :: "'x org_db_scheme \<Rightarrow> bool" where
  "team_inv db \<longleftrightarrow> team_forest db \<and> members_ok db"

definition keeps_primaries :: "'x org_db_scheme \<Rightarrow> 'x org_db_scheme \<Rightarrow> bool" where
  "keeps_primaries db db' \<longleftrightarrow>
     team_inv db' \<and> (\<forall>org u. has_primary org u (team_members db) \<longrightarrow> has_primary org u (team_members db'))"

lemma keeps_refl: "team_inv db \<Longrightarrow> keeps_primaries db db"
  by (simp add: keeps_primaries_def)

lemma in_tx_keeps:
  assumes "team_inv db" and "\<And>x db'. m db = Inr (x, db') \<Longrightarrow> keeps_primaries db db'"
  shows "keeps_primaries db (snd (in_tx m db))"
  by (rule in_tx_invariant [where I = "keeps_primaries db"]) (simp_all add: assms keeps_refl)

lemma inv_members: "team_inv db \<Longrightarrow> members_in (live_keys db) (team_members db)"
  by (simp add: team_inv_def members_ok_def)

lemma inv_defaults: "team_inv db \<Longrightarrow> (i, org, True) \<in> live_keys db \<Longrightarrow> (j, org, True) \<in> live_keys db \<Longrightarrow> i = j"
  unfolding team_inv_def members_ok_def keys_ok_def by blast

lemma inv_keys: "team_inv db \<Longrightarrow> (i, o1, b1) \<in> live_keys db \<Longrightarrow> (i, o2, b2) \<in> live_keys db \<Longrightarrow> o1 = o2 \<and> b1 = b2"
  unfolding team_inv_def by (blast dest: forest_keys)

text \<open>Changes to the teams alone.\<close>

lemma team_change_keeps:
  assumes "team_inv db" and f: "team_forest db'" and m: "team_members db' = team_members db"
    and k: "live_keys db \<subseteq> live_keys db'"
    and d: "\<And>i org. (i, org, True) \<in> live_keys db' \<Longrightarrow> (i, org, True) \<in> live_keys db"
  shows "keeps_primaries db db'"
proof -
  have "keys_ok (live_keys db')"
    unfolding keys_ok_def using forest_keys [OF f] inv_defaults [OF assms(1)] d by blast
  moreover have "members_in (live_keys db') (team_members db')"
    using inv_members [OF assms(1)] k m by (fastforce simp: members_in_def)
  ultimately show ?thesis using f m by (simp add: keeps_primaries_def team_inv_def members_ok_def)
qed

lemma create_keeps_primaries:
  assumes I: "team_inv db" and nd: "\<not> team_IsDefault t"
  shows "keeps_primaries db (snd (pg_TeamCreate t db))"
proof (cases "pg_TeamCreate t db")
  case (Pair r db')
  have f: "team_forest db'" using TeamCreate_forest [of db t] I Pair by (simp add: team_inv_def)
  show ?thesis
  proof (cases r)
    case (Inl e)
    then have "db' = db" using Pair by (simp add: pg_TeamCreate_def in_tx_Inl)
    then show ?thesis using I Pair by (simp add: keeps_refl)
  next
    case (Inr x)
    with Pair obtain u db1 row where l: "lock_parent t db = Inr (u, db1)" and c: "q_CreateTeam t db1 = Inr (row, db')"
      by (auto simp: pg_TeamCreate_def in_tx_Inr stmt_run insert_team_Inr)
    have "db1 = db" using lock_parent_Inr [OF l] I by (simp add: team_inv_def)
    note r = q_CreateTeam_Inr [OF c [unfolded this]]
    have "live_keys db' = insert (t_id row, t_org row, False) (live_keys db)"
      using nd r(1) unfolding r(2) by (auto simp: live_keys_def live_teams_def live_team_def)
    then show ?thesis using Pair f r(2) by (auto intro!: team_change_keeps [OF I])
  qed
qed

lemma update_keeps_primaries:
  assumes I: "team_inv db" shows "keeps_primaries db (snd (pg_TeamUpdate i n d db))"
proof -
  let ?g = "\<lambda>r. if t_id r = i \<and> live_team r then r\<lparr>t_name := n, t_description := d\<rparr> else r"
  have f: "team_forest (snd (pg_TeamUpdate i n d db))" by (rule TeamUpdate_forest) (use I in \<open>simp add: team_inv_def\<close>)
  have k: "live_keys (db\<lparr>teams := map ?g (teams db)\<rparr>) = live_keys db"
  proof -
    have same: "live_team (?g t) = live_team t" "(t_id (?g t), t_org (?g t), t_default (?g t)) = (t_id t, t_org t, t_default t)" for t
      by (auto simp: live_team_def)
    then have "live_teams (db\<lparr>teams := map ?g (teams db)\<rparr>) = map ?g (live_teams db)"
      by (simp add: live_teams_def filter_map comp_def)
    then show ?thesis using same(2) by (simp only: live_keys_def set_map image_image)
  qed
  have "snd (pg_TeamUpdate i n d db) = db \<or> snd (pg_TeamUpdate i n d db) = db\<lparr>teams := map ?g (teams db)\<rparr>"
    by (auto simp: pg_TeamUpdate_def q_UpdateTeam_def split: option.splits if_splits)
  then show ?thesis
  proof
    assume "snd (pg_TeamUpdate i n d db) = db"
    then show ?thesis using keeps_refl [OF I] by simp
  next
    assume eq: "snd (pg_TeamUpdate i n d db) = db\<lparr>teams := map ?g (teams db)\<rparr>"
    show ?thesis by (rule team_change_keeps [OF I f]) (simp_all add: eq k)
  qed
qed

lemma reparent_keeps_primaries:
  assumes I: "team_inv db" shows "keeps_primaries db (snd (pg_TeamReparent org i np db))"
proof -
  have f: "team_forest db" using I by (simp add: team_inv_def)
  have k: "live_keys (moved_teams db org p i np) = live_keys db" for p
    by (simp add: live_keys_def live_moved image_image)
  show ?thesis
    using pg_Reparent_cases [OF f, of org i np] TeamReparent_forest [OF f, of org i np] k
    by (auto intro!: team_change_keeps [OF I] keeps_refl [OF I] simp: moved_teams_def)
qed

lemma log_keeps_primaries: "team_inv db \<Longrightarrow> keeps_primaries db (pg_log fresh k e db)"
  by (intro team_change_keeps) (simp_all add: team_inv_def forest_frame [OF pg_log_frame(1)] members_frame [OF pg_log_frame(1)])

text \<open>Changes to the memberships alone.\<close>

lemma member_change_keeps:
  assumes "team_inv db" and "teams db' = teams db" and "members_in (live_keys db) (team_members db')"
    and "\<And>org u. has_primary org u (team_members db) \<Longrightarrow> has_primary org u (team_members db')"
  shows "keeps_primaries db db'"
  using assms
  by (simp add: keeps_primaries_def team_inv_def members_ok_def forest_frame [OF assms(2)] members_frame [OF assms(2)])

lemma add_keeps_primaries:
  assumes I: "team_inv db" shows "keeps_primaries db (snd (pg_AddMember i u org r db))"
proof -
  have f: "team_forest db" using I by (simp add: team_inv_def)
  have "keeps_primaries db db'"
    if g: "q_GetTeamByID db i = Some t" "t_org t = org" and a: "q_AddTeamMember (member_params i u org r False) db = Inr (m, db')"
    for t m db'
  proof -
    have k: "(tm_team (member_params i u org r False), tm_org (member_params i u org r False), t_default t) \<in> live_keys db"
      using live_key_team [OF f g(1)] g(2) by (simp add: member_params_def)
    have t: "teams db' = teams db" using arg_cong [OF add_member_frame [OF a], of teams] by simp
    show ?thesis
      by (rule member_change_keeps [OF I t]) (use AddTeamMember_ok [OF a inv_members [OF I] k] in auto)
  qed
  then show ?thesis
    by (auto simp: pg_AddMember_def pg_get_Inr dbTeamToDomain_def keeps_refl [OF I] split: sum.splits)
qed

lemma primary_row_org:
  assumes I: "team_inv db" and m: "m \<in> set (team_members db)" and k: "(tm_team m, org, b) \<in> live_keys db"
  shows "tm_org m = org"
  using inv_members [OF I] m k inv_keys [OF I] unfolding members_in_def by blast

text \<open>Making another team of the organisation the primary one: the old flag is cleared, the new one set.\<close>

lemma clear_set_keeps:
  assumes I: "team_inv db" and m: "m \<in> set (team_members db)" "tm_team m = i" "tm_user m = u" "tm_org m = org"
    and c: "q_ClearPrimaryTeam u org db = Inr ((), db1)" and s: "q_SetPrimaryFlag i u db1 = Inr ((), db2)"
  shows "keeps_primaries db db2 \<and> has_primary org u (team_members db2)"
proof -
  let ?g = "\<lambda>m. if tm_user m = u \<and> tm_org m = org \<and> tm_primary m then m\<lparr>tm_primary := False\<rparr> else m"
  have r: "one_primary (map ?g (team_members db))" "team_members db1 = map ?g (team_members db)" "teams db1 = teams db"
    using c by (auto simp: q_ClearPrimaryTeam_def set_members_Inr)
  have M1: "members_in (live_keys db) (team_members db1)" unfolding r(2) by (rule map_members [OF inv_members [OF I] r(1)]) auto
  have m1: "?g m \<in> set (team_members db1)" "tm_team (?g m) = i" "tm_user (?g m) = u" "tm_org (?g m) = org"
    using m r(2) by auto
  note fl = SetPrimaryFlag_ok [OF s M1 m1(1-3)]
  have "keeps_primaries db db2"
  proof (rule member_change_keeps [OF I])
    show "teams db2 = teams db" using fl r(3) by simp
    show "members_in (live_keys db) (team_members db2)" using fl by simp
    fix o' w assume p: "has_primary o' w (team_members db)"
    show "has_primary o' w (team_members db2)"
    proof (cases "o' = org \<and> w = u")
      case True
      then show ?thesis using fl m1(4) by simp
    next
      case False
      then have "has_primary o' w (team_members db1)" unfolding r(2) by (intro map_primary [OF _ _ p]) auto
      then show ?thesis using fl by blast
    qed
  qed
  then show ?thesis using fl m1(4) by simp
qed

lemma set_primary_keeps_primaries:
  assumes I: "team_inv db" and k: "(i, org, b) \<in> live_keys db"
  shows "keeps_primaries db (snd (pg_SetPrimary i u org db))"
  unfolding pg_SetPrimary_def
proof (rule in_tx_keeps [OF I])
  fix x db2
  assume "sbind (sread (team_row ErrMemberNotFound ''loading membership'' (\<lambda>db. q_GetTeamMember db i u))) (\<lambda>_.
       sseq (wrap_team ''clearing primary'' (q_ClearPrimaryTeam u org))
            (wrap_team ''setting primary'' (q_SetPrimaryFlag i u))) db = Inr (x, db2)"
  then obtain m db1 where m: "q_GetTeamMember db i u = Some m" and c: "q_ClearPrimaryTeam u org db = Inr ((), db1)"
    and s: "q_SetPrimaryFlag i u db1 = Inr ((), db2)"
    by (auto simp: stmt_run wrap_team_Inr team_row_Inr)
  note m = get_member_Some [OF m]
  have "tm_org m = org" using primary_row_org [OF I] m k by blast
  then show "keeps_primaries db db2" using clear_set_keeps [OF I _ _ _ _ c s] m by blast
qed


text \<open>Leaving a team: whoever is left with none, or without a primary, gets one.\<close>

lemma filter_members:
  assumes "members_in K tms" shows "members_in K (filter P tms)"
proof -
  have d: "distinct (map (\<lambda>m. (tm_team m, tm_user m)) tms)" using assms by (simp add: members_in_def)
  then have d': "distinct (map (\<lambda>m. (tm_team m, tm_user m)) (filter P tms))" by (rule distinct_map_filter)
  show ?thesis
    using assms unfolding members_in_def one_primary_iff [OF d] one_primary_iff [OF d'] by (auto simp: d')
qed

lemma all_in_live_teams:
  assumes I: "team_inv db" and M: "members_in (live_keys db) tms" and m: "m \<in> set tms"
  shows "q_GetTeamByID db (tm_team m) \<noteq> None"
  using M m live_key_found [of db] I unfolding members_in_def team_inv_def by blast

lemma fallback_Some:
  assumes "q_GetFallbackPrimaryTeam db u org = Some i"
  shows "\<exists>m \<in> set (team_members db). tm_team m = i \<and> tm_user m = u \<and> tm_org m = org"
  using assms
  by (auto simp: q_GetFallbackPrimaryTeam_def Let_def split: option.splits list.splits dest!: find_Some_in
      filter_eq_ConsD)

lemma count_zero:
  assumes "q_CountUserTeamsInOrg db u org = 0" and "\<And>m. m \<in> set (team_members db) \<Longrightarrow> q_GetTeamByID db (tm_team m) \<noteq> None"
    and "m \<in> set (team_members db)"
  shows "\<not> (tm_user m = u \<and> tm_org m = org)"
  using assms by (auto simp: q_CountUserTeamsInOrg_def in_live_team_def filter_empty_conv)

lemma default_team_Inr: "default_team org db = Inr (d, db') \<longleftrightarrow> db_up db \<and> q_GetDefaultTeam db org = Some d \<and> db' = db"
  by (auto simp: default_team_def team_row_Inr)

text \<open>Whatever the removal left, restoring gives the user of that organisation a primary team and takes
  none away.\<close>

lemma restore_ok:
  assumes I: "team_inv db" and t: "teams db1 = teams db" and M: "members_in (live_keys db) (team_members db1)"
    and R: "restoreMembershipInvariants org u p db1 = Inr (x, db2)"
  shows "teams db2 = teams db \<and> members_in (live_keys db) (team_members db2) \<and>
    (has_primary o' w (team_members db1) \<longrightarrow> has_primary o' w (team_members db2)) \<and>
    (p \<or> q_CountUserTeamsInOrg db1 u org = 0 \<longrightarrow> has_primary org u (team_members db2))"
proof (cases "q_CountUserTeamsInOrg db1 u org = 0")
  case True
  from R True obtain d m where d: "q_GetDefaultTeam db1 org = Some d"
    and a: "q_AddTeamMember (member_params (t_id d) u org ''member'' True) db1 = Inr (m, db2)"
    by (auto simp: restoreMembershipInvariants_def stmt_run team_read_Inr default_team_Inr wrap_team_Inr)
  have k: "(t_id d, org, True) \<in> live_keys db"
    using default_key [OF d] by (simp add: members_frame [OF t])
  have live: "q_GetTeamByID db1 (tm_team m) \<noteq> None" if "m \<in> set (team_members db1)" for m
    using all_in_live_teams [OF I M that] t by (simp add: q_GetTeamByID_def)
  have none: "q_GetTeamMember db1 (t_id d) u = None"
  proof (rule ccontr)
    assume "q_GetTeamMember db1 (t_id d) u \<noteq> None"
    then obtain y where y: "y \<in> set (team_members db1)" "tm_team y = t_id d" "tm_user y = u" using get_member_Some by blast
    then obtain b where "(t_id d, tm_org y, b) \<in> live_keys db" using M unfolding members_in_def by metis
    then have "tm_org y = org" using inv_keys [OF I k] by blast
    with count_zero [OF True live y(1)] y(3) show False by blast
  qed
  have "tm_team (member_params (t_id d) u org ''member'' True) = t_id d" "tm_user (member_params (t_id d) u org ''member'' True) = u"
    "(tm_team (member_params (t_id d) u org ''member'' True), tm_org (member_params (t_id d) u org ''member'' True), True) \<in> live_keys db"
    using k by (simp_all add: member_params_def)
  note ok = AddTeamMember_ok [OF a M this(3), unfolded this(1,2)]
  have "has_primary org u (team_members db2)" using ok(4) [OF none] by (auto simp: has_primary_def member_params_def)
  then show ?thesis using ok(1,2) arg_cong [OF add_member_frame [OF a], of teams] t by simp
next
  case False
  show ?thesis
  proof (cases p)
    case True
    with R False obtain i where i: "q_GetFallbackPrimaryTeam db1 u org = Some i" and s: "q_SetPrimaryFlag i u db1 = Inr ((), db2)"
      by (auto simp: restoreMembershipInvariants_def stmt_run team_read_Inr team_row_Inr wrap_team_Inr)
    from fallback_Some [OF i] obtain m where m: "m \<in> set (team_members db1)" "tm_team m = i" "tm_user m = u" "tm_org m = org" by blast
    from SetPrimaryFlag_ok [OF s M m(1-3), where org = o' and w = w] m(4) t show ?thesis by auto
  next
    case False
    with R \<open>q_CountUserTeamsInOrg db1 u org \<noteq> 0\<close> have "db2 = db1"
      by (auto simp: restoreMembershipInvariants_def stmt_run team_read_Inr)
    then show ?thesis using t M False \<open>q_CountUserTeamsInOrg db1 u org \<noteq> 0\<close> by simp
  qed
qed

lemma remove_keeps_primaries:
  assumes I: "team_inv db" and k: "(i, org, b) \<in> live_keys db"
  shows "keeps_primaries db (snd (pg_RemoveMember i u org db))"
  unfolding pg_RemoveMember_def
proof (rule in_tx_keeps [OF I])
  fix x db2
  assume "sbind (sread (team_row ErrMemberNotFound ''loading membership'' (\<lambda>db. q_GetTeamMember db i u))) (\<lambda>existing.
       sseq (wrap_team ''removing membership'' (q_RemoveTeamMember i u))
            (restoreMembershipInvariants org u (tm_primary existing))) db = Inr (x, db2)"
  then obtain m db1 where g: "q_GetTeamMember db i u = Some m"
    and d: "db1 = db\<lparr>team_members := filter (\<lambda>m. \<not> (tm_team m = i \<and> tm_user m = u)) (team_members db)\<rparr>"
    and R: "restoreMembershipInvariants org u (tm_primary m) db1 = Inr (x, db2)"
    by (auto simp: stmt_run wrap_team_Inr team_row_Inr q_RemoveTeamMember_def split: if_splits)
  note m = get_member_Some [OF g]
  have org: "tm_org m = org" using primary_row_org [OF I] m k by blast
  have M: "members_in (live_keys db) (team_members db1)" using filter_members [OF inv_members [OF I]] d by simp
  have t: "teams db1 = teams db" using d by simp
  show "keeps_primaries db db2"
  proof (rule member_change_keeps [OF I])
    show "teams db2 = teams db" and "members_in (live_keys db) (team_members db2)"
      using restore_ok [OF I t M R] by blast+
    fix o' w assume "has_primary o' w (team_members db)"
    then obtain y where y: "y \<in> set (team_members db)" "tm_user y = w" "tm_org y = o'" "tm_primary y"
      by (auto simp: has_primary_def)
    show "has_primary o' w (team_members db2)"
    proof (cases "tm_team y = i \<and> tm_user y = u")
      case True
      have "distinct (map (\<lambda>m. (tm_team m, tm_user m)) (team_members db))"
        using inv_members [OF I] by (simp add: members_in_def)
      then have "y = m" by (rule distinct_key) (use y m True in auto)
      then show ?thesis using restore_ok [OF I t M R] y org m by auto
    next
      case False
      then have "has_primary o' w (team_members db1)" using y d by (auto simp: has_primary_def)
      then show ?thesis using restore_ok [OF I t M R] by blast
    qed
  qed
qed


text \<open>Enrolling in a live team of the organisation, and making it primary when there is none.\<close>

lemma enrol_in_ok:
  assumes I: "team_inv db" and k: "(i, org, b) \<in> live_keys db"
    and a: "q_AddTeamMember (member_params i u org ''member'' False) db = Inr (m, db1)"
    and s: "if p then q_SetPrimaryFlag i u db1 = Inr ((), db2) else db2 = db1"
    and p: "\<not> p \<longrightarrow> has_primary org u (team_members db)"
  shows "keeps_primaries db db2 \<and> has_primary org u (team_members db2)"
proof -
  have "tm_team (member_params i u org ''member'' False) = i" "tm_user (member_params i u org ''member'' False) = u"
    "(tm_team (member_params i u org ''member'' False), tm_org (member_params i u org ''member'' False), b) \<in> live_keys db"
    using k by (simp_all add: member_params_def)
  note ok = AddTeamMember_ok [OF a inv_members [OF I] this(3), unfolded this(1,2)]
  have t: "teams db1 = teams db" using arg_cong [OF add_member_frame [OF a], of teams] by simp
  show ?thesis
  proof (cases p)
    case True
    with s have s: "q_SetPrimaryFlag i u db1 = Inr ((), db2)" by simp
    from ok(3) obtain y where y: "y \<in> set (team_members db1)" "tm_team y = i" "tm_user y = u" by blast
    then obtain b' where "(i, tm_org y, b') \<in> live_keys db" using ok(1) unfolding members_in_def by metis
    then have org: "tm_org y = org" using inv_keys [OF I k] by blast
    note fl = SetPrimaryFlag_ok [OF s ok(1) y]
    have "keeps_primaries db db2"
      by (rule member_change_keeps [OF I]) (use fl t ok(2) in auto)
    then show ?thesis using fl org by simp
  next
    case False
    moreover have "keeps_primaries db db1" by (rule member_change_keeps [OF I t ok(1)]) (rule ok(2))
    ultimately show ?thesis using p s by (simp add: keeps_primaries_def)
  qed
qed

lemma primary_found:
  "q_GetPrimaryTeamMember db u org = None \<longleftrightarrow> \<not> has_primary org u (team_members db)"
  by (auto simp: q_GetPrimaryTeamMember_def has_primary_def find_None_iff)

lemma enrol_ok:
  assumes I: "team_inv db" and e: "pg_EnsureDefaultMembership org u db = (Inr x, db2)"
  shows "keeps_primaries db db2 \<and> has_primary org u (team_members db2)"
proof -
  from e obtain d m db1 where d: "q_GetDefaultTeam db org = Some d"
    and a: "q_AddTeamMember (member_params (t_id d) u org ''member'' False) db = Inr (m, db1)"
    and s: "if q_GetPrimaryTeamMember db u org = None then q_SetPrimaryFlag (t_id d) u db1 = Inr ((), db2) else db2 = db1"
    by (auto simp: pg_EnsureDefaultMembership_def in_tx_Inr stmt_run default_team_Inr team_read_Inr wrap_team_Inr
        split: if_splits)
  show ?thesis by (rule enrol_in_ok [OF I default_key [OF d] a s]) (simp add: primary_found)
qed

text \<open>Deleting a team moves its members to the default team.\<close>

lemma migrate_ok:
  assumes I: "team_inv db" and ki: "(i, org, False) \<in> live_keys db" and g: "migrateMembersToDefault org i db = Inr (x, db2)"
  shows "teams db2 = teams db \<and> members_in (live_keys db) (team_members db2) \<and>
    (\<forall>m \<in> set (team_members db2). tm_team m \<noteq> i) \<and>
    (\<forall>o' w. has_primary o' w (team_members db) \<longrightarrow> has_primary o' w (team_members db2))"
proof -
  let ?src = "filter (\<lambda>m. tm_team m = i) (team_members db)"
  from g obtain d db1 where d: "q_GetDefaultTeam db org = Some d"
    and b: "db1 = db\<lparr>team_members := team_members db @
        map (\<lambda>m. \<lparr>tm_team = t_id d, tm_user = tm_user m, tm_org = tm_org m, tm_role = ''member'', tm_primary = False\<rparr>)
          (filter (\<lambda>m. tm_team m = i \<and> q_GetTeamMember db (t_id d) (tm_user m) = None) (team_members db))\<rparr>"
    and e: "let tms = filter (\<lambda>m. tm_team m \<noteq> i) (team_members db1);
                us = q_ListPrimaryUserIDsOfTeam db i
            in if us \<noteq> [] then q_SetPrimaryForUsers (t_id d) us (db1\<lparr>team_members := tms\<rparr>) = Inr ((), db2)
               else db2 = db1\<lparr>team_members := tms\<rparr>"
    by (auto simp: migrateMembersToDefault_def stmt_run default_team_Inr team_read_Inr wrap_team_Inr Let_def
        q_BulkEnrollInTeam_def q_DeleteTeamMembers_def split: if_splits)
  have kd: "(t_id d, org, True) \<in> live_keys db" by (rule default_key [OF d])
  have di: "t_id d \<noteq> i" using inv_keys [OF I kd] ki by blast
  have src_org: "tm_org m = org" if "m \<in> set (team_members db)" "tm_team m = i" for m
    using primary_row_org [OF I that(1)] ki that(2) by blast
  let ?new = "\<lambda>m. \<lparr>tm_team = t_id d, tm_user = tm_user m, tm_org = tm_org m, tm_role = ''member'', tm_primary = False\<rparr>"
  let ?add = "map ?new (filter (\<lambda>m. tm_team m = i \<and> q_GetTeamMember db (t_id d) (tm_user m) = None) (team_members db))"
  let ?tms = "filter (\<lambda>m. tm_team m \<noteq> i) (team_members db) @ ?add"
  have tms: "filter (\<lambda>m. tm_team m \<noteq> i) (team_members db1) = ?tms" using di by (simp add: b filter_map comp_def)
  have dk: "distinct (map (\<lambda>m. (tm_team m, tm_user m)) (team_members db))"
    using inv_members [OF I] by (simp add: members_in_def)
  have "inj_on (\<lambda>m. (tm_team m, tm_user m)) (set (team_members db))" using dk by (simp add: distinct_map)
  then have "inj_on tm_user (set (filter (\<lambda>m. tm_team m = i \<and> q_GetTeamMember db (t_id d) (tm_user m) = None) (team_members db)))"
    by (auto simp: inj_on_def)
  then have "distinct (map (\<lambda>m. (tm_team m, tm_user m)) ?add)"
    using dk by (auto simp: distinct_map inj_on_def comp_def)
  moreover have "(tm_team y, tm_user y) \<noteq> (tm_team z, tm_user z)"
    if "y \<in> set (team_members db)" "z \<in> set ?add" for y z
  proof -
    from that(2) obtain m :: TeamMemberRow where m: "z = ?new m" "q_GetTeamMember db (t_id d) (tm_user m) = None"
      unfolding set_map set_filter by blast
    have "(tm_team y, tm_user y) \<in> (\<lambda>m. (tm_team m, tm_user m)) ` set (team_members db)" using that(1) by (rule imageI)
    with m(2) show ?thesis unfolding get_member_None by (auto simp: m(1))
  qed
  moreover have "distinct (map (\<lambda>m. (tm_team m, tm_user m)) (filter (\<lambda>m. tm_team m \<noteq> i) (team_members db)))"
    by (rule distinct_map_filter [OF dk])
  ultimately have D: "distinct (map (\<lambda>m. (tm_team m, tm_user m)) ?tms)"
    unfolding map_append distinct_append set_map [of "\<lambda>m. (tm_team m, tm_user m)"] by fastforce
  have "filter tm_primary ?tms = filter tm_primary (filter (\<lambda>m. tm_team m \<noteq> i) (team_members db))"
    by (simp add: filter_map comp_def)
  then have "one_primary ?tms"
    using filter_members [OF inv_members [OF I], of "\<lambda>m. tm_team m \<noteq> i"] by (simp add: members_in_def one_primary_def)
  moreover have "\<exists>b. (tm_team m, tm_org m, b) \<in> live_keys db" if "m \<in> set ?tms" for m
    using that inv_members [OF I] kd src_org unfolding members_in_def by auto
  ultimately have M: "members_in (live_keys db) ?tms" using D by (simp add: members_in_def)
  have left: "tm_team m \<noteq> i" if "m \<in> set ?tms" for m using that di by auto
  define us where "us = q_ListPrimaryUserIDsOfTeam db i"
  let ?g = "\<lambda>m. if tm_team m = t_id d \<and> List.member us (tm_user m) then m\<lparr>tm_primary := True\<rparr> else m"
  have res: "teams db2 = teams db \<and> team_members db2 = map ?g ?tms \<and> one_primary (map ?g ?tms)"
  proof (cases "us = []")
    case True
    then have "db2 = db1\<lparr>team_members := ?tms\<rparr>" using e by (simp add: us_def tms)
    then have "teams db2 = teams db" "team_members db2 = ?tms" by (simp_all add: b)
    moreover have "map ?g ?tms = ?tms" using True by (simp add: map_idI)
    ultimately show ?thesis using \<open>one_primary ?tms\<close> by (simp only:)
  next
    case False
    then have "q_SetPrimaryForUsers (t_id d) us (db1\<lparr>team_members := ?tms\<rparr>) = Inr ((), db2)" using e by (simp add: us_def tms)
    then show ?thesis using b by (auto simp: q_SetPrimaryForUsers_def set_members_Inr)
  qed
  have M2: "members_in (live_keys db) (map ?g ?tms)" by (rule map_members [OF M]) (use res in auto)
  have "has_primary o' w (map ?g ?tms)" if p: "has_primary o' w (team_members db)" for o' w
  proof -
    from p obtain m where m: "m \<in> set (team_members db)" "tm_user m = w" "tm_org m = o'" "tm_primary m"
      by (auto simp: has_primary_def)
    show ?thesis
    proof (cases "tm_team m = i")
      case False
      then have "?g m \<in> set (map ?g ?tms)" using m(1) by auto
      moreover have "tm_user (?g m) = w \<and> tm_org (?g m) = o' \<and> tm_primary (?g m)" using m by auto
      ultimately show ?thesis unfolding has_primary_def by blast
    next
      case True
      then have w: "w \<in> set us" using m by (auto simp: us_def q_ListPrimaryUserIDsOfTeam_def)
      have "\<exists>y \<in> set ?tms. tm_team y = t_id d \<and> tm_user y = w \<and> tm_org y = o'"
      proof (cases "q_GetTeamMember db (t_id d) w")
        case None
        then have "?new m \<in> set ?add" using m True by auto
        then show ?thesis using m by (intro bexI [of _ "?new m"]) auto
      next
        case (Some y)
        note y = get_member_Some [OF Some]
        then have "tm_org y = org" using primary_row_org [OF I, of y org True] kd by simp
        moreover have "o' = org" using src_org [OF m(1) True] m(3) by simp
        ultimately show ?thesis using y di by (intro bexI [of _ y]) auto
      qed
      then obtain y where y: "y \<in> set ?tms" "tm_team y = t_id d" "tm_user y = w" "tm_org y = o'" by blast
      from y(1) have "?g y \<in> set (map ?g ?tms)" unfolding set_map [of ?g] by (rule imageI)
      moreover have "tm_user (?g y) = w \<and> tm_org (?g y) = o' \<and> tm_primary (?g y)" using y w by auto
      ultimately show ?thesis unfolding has_primary_def by blast
    qed
  qed
  moreover have "tm_team m \<noteq> i" if "m \<in> set (map ?g ?tms)" for m
  proof -
    from that obtain y where y: "m = ?g y" "y \<in> set ?tms" unfolding set_map [of ?g] by (rule imageE)
    show ?thesis using left [OF y(2)] di by (simp add: y(1))
  qed
  ultimately show ?thesis using M2 unfolding conjunct1 [OF res] conjunct1 [OF conjunct2 [OF res]]
    by (intro conjI ballI allI impI refl)
qed


lemma delete_keeps_primaries:
  assumes I: "team_inv db" shows "keeps_primaries db (snd (pg_TeamDelete org i db))"
proof (cases "pg_TeamDelete org i db")
  case (Pair r db')
  have f: "team_forest db" using I by (simp add: team_inv_def)
  show ?thesis
  proof (cases r)
    case (Inl e)
    then have "db' = db" using Pair by (simp add: pg_TeamDelete_def in_tx_Inl)
    then show ?thesis using I Pair by (simp add: keeps_refl)
  next
    case (Inr u)
    note dl = Pair [unfolded Inr]
    from TeamDelete_Inr [OF f dl] obtain t where t: "t \<in> set (live_teams db)" "t_id t = i" "t_org t = org" "\<not> t_default t"
      and eq: "teams db' = map (\<lambda>t. if t_id t = i \<and> live_team t then t\<lparr>t_deleted := True\<rparr> else t) (teams db)" by blast
    have ki: "(i, org, False) \<in> live_keys db" using t by (force simp: live_keys_def)
    from dl obtain db1 db2 where l: "lockTeamForDeletion org i db = Inr ((), db1)"
      and m: "migrateMembersToDefault org i db1 = Inr ((), db2)" and tm: "team_members db' = team_members db2"
      by (auto simp: pg_TeamDelete_def in_tx_Inr stmt_run wrap_team_Inr q_DeleteGrantsBySubjectTeam_def
          q_SoftDeleteTeam_def split: if_splits)
    have "db1 = db" using l lock_subtree_Inr [OF f] by (auto simp: lockTeamForDeletion_def stmt_run)
    note ok = migrate_ok [OF I ki m [unfolded this]]
    have keys: "live_keys db' = {k \<in> live_keys db. fst k \<noteq> i}"
    proof -
      have "set (live_teams db') = {t \<in> set (live_teams db). t_id t \<noteq> i}"
        unfolding live_teams_def eq set_filter set_map by (auto simp: live_team_def)
      then have "live_keys db' = (\<lambda>t. (t_id t, t_org t, t_default t)) ` {t \<in> set (live_teams db). t_id t \<noteq> i}"
        by (simp only: live_keys_def)
      also have "\<dots> = {k \<in> live_keys db. fst k \<noteq> i}"
        unfolding live_keys_def image_def by fastforce
      finally show ?thesis .
    qed
    have "\<exists>b. (tm_team m, tm_org m, b) \<in> live_keys db'" if "m \<in> set (team_members db')" for m
      using ok that unfolding keys tm members_in_def by fastforce
    then have "members_in (live_keys db') (team_members db')"
      using ok unfolding tm members_in_def by blast
    moreover have "keys_ok (live_keys db')"
      using I unfolding keys team_inv_def members_ok_def keys_ok_def by blast
    moreover have "team_forest db'" using TeamDelete_forest [OF f, of org i] Pair by simp
    ultimately show ?thesis using Pair ok tm by (simp add: keeps_primaries_def team_inv_def members_ok_def)
  qed
qed


lemma enrol_keeps_primaries:
  assumes I: "team_inv db" shows "keeps_primaries db (snd (pg_EnsureDefaultMembership org u db))"
proof (cases "pg_EnsureDefaultMembership org u db")
  case (Pair r db')
  show ?thesis
  proof (cases r)
    case (Inl e)
    then have "db' = db" using Pair by (simp add: pg_EnsureDefaultMembership_def in_tx_Inl)
    then show ?thesis using I Pair by (simp add: keeps_refl)
  next
    case (Inr x)
    then show ?thesis using enrol_ok [OF I] Pair by simp
  qed
qed

section \<open>The primary teams of settled users\<close>

definition settled_in :: "(uuid \<times> uuid) set \<Rightarrow> 'x org_db_scheme \<Rightarrow> bool" where
  "settled_in S db \<longleftrightarrow> (\<forall>(org, u) \<in> S. has_primary org u (team_members db))"

interpretation settled: team_store pg_team_store "pg_log fresh"
  "\<lambda>db. team_inv db \<and> settled_in S db" for fresh S
proof
  have k: "team_inv db \<and> settled_in S db \<Longrightarrow> keeps_primaries db db' \<Longrightarrow>
      team_inv db' \<and> settled_in S db'" for db db' :: "'a org_db_scheme"
    by (auto simp: keeps_primaries_def settled_in_def)
  fix db :: "'a org_db_scheme" and t t' :: Team and e kd i n d org' p u' r
  let ?I = "team_inv db \<and> settled_in S db"
  have key: "\<exists>b. (i, team_OrgID t, b) \<in> live_keys db" if "team_inv db" "ts_Get pg_team_store db i = Inr t"
    using that live_key_team by (fastforce simp: pg_get_Inr team_inv_def dbTeamToDomain_def)
  show "?I \<Longrightarrow> team_inv (pg_log fresh kd e db) \<and> settled_in S (pg_log fresh kd e db)"
    by (rule k) (auto intro: log_keeps_primaries)
  show "?I \<Longrightarrow> \<not> team_IsDefault t \<Longrightarrow> team_inv (snd (ts_Create pg_team_store t db)) \<and>
      settled_in S (snd (ts_Create pg_team_store t db))"
    by (rule k) (auto intro: create_keeps_primaries)
  show "?I \<Longrightarrow> team_inv (snd (ts_Update pg_team_store i n d db)) \<and>
      settled_in S (snd (ts_Update pg_team_store i n d db))"
    by (rule k) (auto intro: update_keeps_primaries)
  show "?I \<Longrightarrow> team_inv (snd (ts_Reparent pg_team_store org' i p db)) \<and>
      settled_in S (snd (ts_Reparent pg_team_store org' i p db))"
    by (rule k) (auto intro: reparent_keeps_primaries)
  show "?I \<Longrightarrow> team_inv (snd (ts_Delete pg_team_store org' i db)) \<and>
      settled_in S (snd (ts_Delete pg_team_store org' i db))"
    by (rule k) (auto intro: delete_keeps_primaries)
  show "?I \<Longrightarrow> team_inv (snd (ts_AddMember pg_team_store i u' org' r db)) \<and>
      settled_in S (snd (ts_AddMember pg_team_store i u' org' r db))"
    by (rule k) (auto intro: add_keeps_primaries)
  show "ts_Get pg_team_store db i = Inr t \<Longrightarrow> ts_Get pg_team_store (snd (ts_AddMember pg_team_store i u' org' r db)) i = Inr t"
    by (rule forest.add_team)
  show "?I \<Longrightarrow> ts_Get pg_team_store db i = Inr t \<Longrightarrow> team_inv (snd (ts_RemoveMember pg_team_store i u' (team_OrgID t) db)) \<and>
      settled_in S (snd (ts_RemoveMember pg_team_store i u' (team_OrgID t) db))"
    by (rule k) (use key remove_keeps_primaries in auto)
  show "?I \<Longrightarrow> ts_Get pg_team_store db i = Inr t \<Longrightarrow> team_inv (snd (ts_SetPrimary pg_team_store i u' (team_OrgID t) db)) \<and>
      settled_in S (snd (ts_SetPrimary pg_team_store i u' (team_OrgID t) db))"
    by (rule k) (use key set_primary_keeps_primaries in auto)
  show "?I \<Longrightarrow> team_inv (snd (ts_EnsureDefaultMembership pg_team_store org' u' db)) \<and>
      settled_in S (snd (ts_EnsureDefaultMembership pg_team_store org' u' db))"
    by (rule k) (auto intro: enrol_keeps_primaries)
  show "ts_Get pg_team_store db i = Inr t \<Longrightarrow> team_ID t = i" by (rule forest.get_id)
qed


section \<open>Enrolling always succeeds\<close>

lemma set_flag_keys:
  assumes "\<forall>m \<in> set tms. tm_team m = i \<and> tm_user m = u \<longrightarrow> tm_org m = org"
  shows "(\<lambda>m. (tm_user m, tm_org m)) ` set (filter tm_primary
      (map (\<lambda>m. if tm_team m = i \<and> tm_user m = u then m\<lparr>tm_primary := True\<rparr> else m) tms)) \<subseteq>
    insert (u, org) ((\<lambda>m. (tm_user m, tm_org m)) ` set (filter tm_primary tms))"
  using assms by (induction tms) auto

lemma set_flag_one_primary:
  assumes "distinct (map (\<lambda>m. (tm_team m, tm_user m)) tms)" and "one_primary tms"
    and "\<forall>m \<in> set tms. tm_team m = i \<and> tm_user m = u \<longrightarrow> tm_org m = org"
    and "\<not> has_primary org u tms"
  shows "one_primary (map (\<lambda>m. if tm_team m = i \<and> tm_user m = u then m\<lparr>tm_primary := True\<rparr> else m) tms)"
  using assms
proof (induction tms)
  case (Cons a tms)
  let ?g = "\<lambda>m. if tm_team m = i \<and> tm_user m = u then m\<lparr>tm_primary := True\<rparr> else m"
  let ?k = "\<lambda>m. (tm_user m, tm_org m)"
  have tl: "one_primary tms" using Cons.prems(2) by (cases "tm_primary a") (simp_all add: one_primary_def)
  have IH: "one_primary (map ?g tms)"
  proof (rule Cons.IH)
    show "one_primary tms" by (rule tl)
    show "\<not> has_primary org u tms" using Cons.prems(4) unfolding has_primary_def by force
  qed (use Cons.prems(1,3) in auto)
  have free: "(u, org) \<notin> ?k ` set (filter tm_primary tms)" using Cons.prems(4) by (auto simp: has_primary_def)
  show ?case
  proof (cases "tm_team a = i \<and> tm_user a = u")
    case True
    then have "?g m = m" if "m \<in> set tms" for m using Cons.prems(1) that by (auto simp: image_iff)
    then have "map ?g tms = tms" by (simp add: map_idI)
    moreover have "?k a = (u, org)" using True Cons.prems(3) by simp
    ultimately show ?thesis using True free tl by (simp add: one_primary_def)
  next
    case False
    then have ga: "?g a = a" by auto
    have "?k a \<notin> ?k ` set (filter tm_primary (map ?g tms))" if p: "tm_primary a"
    proof
      assume "?k a \<in> ?k ` set (filter tm_primary (map ?g tms))"
      then have "?k a \<in> insert (u, org) (?k ` set (filter tm_primary tms))"
        using set_flag_keys [of tms i u org] Cons.prems(3) by (meson list.set_intros(2) subsetD)
      moreover have "?k a \<noteq> (u, org)" using Cons.prems(4) p by (auto simp: has_primary_def)
      moreover have "?k a \<notin> ?k ` set (filter tm_primary tms)" using Cons.prems(2) p by (simp add: one_primary_def)
      ultimately show False by blast
    qed
    then show ?thesis using IH unfolding list.map(2) ga one_primary_def by simp
  qed
qed (simp add: one_primary_def)

lemma add_no_primary:
  assumes a: "q_AddTeamMember row db = Inr (m, db')" and "\<not> tm_primary row" and "\<not> has_primary org u (team_members db)"
  shows "\<not> has_primary org u (team_members db')"
  using assms
  by (auto simp: q_AddTeamMember_def stmt_run set_members_Inr has_primary_def split: if_splits option.splits)

lemma enrol_runs:
  assumes up: "db_up db" and I: "team_inv db" and d: "q_GetDefaultTeam db org = Some d" and u: "user_exists db u"
  shows "\<exists>db'. pg_EnsureDefaultMembership org u db = (Inr (), db')"
proof -
  let ?row = "member_params (t_id d) u org ''member'' False"
  have k: "(t_id d, org, True) \<in> live_keys db" by (rule default_key [OF d])
  have te: "team_exists db (t_id d)" using d by (auto simp: q_GetDefaultTeam_def team_exists_def list_ex_iff dest: find_Some_in)
  have "one_primary (team_members db @ [?row])"
    using inv_members [OF I] by (simp add: members_in_def one_primary_def member_params_def)
  then have "\<exists>m db1. q_AddTeamMember ?row db = Inr (m, db1)"
    using up te u by (cases "q_GetTeamMember db (t_id d) u")
      (simp_all add: q_AddTeamMember_def set_members_def stmt_defs member_params_def)
  then obtain m db1 where a: "q_AddTeamMember ?row db = Inr (m, db1)" by blast
  have ok: "members_in (live_keys db) (team_members db1)"
    using AddTeamMember_ok [OF a inv_members [OF I]] k by (simp add: member_params_def)
  have up1: "db_up db1" using arg_cong [OF add_member_frame [OF a], of db_up] up by simp
  have "\<exists>db2. q_SetPrimaryFlag (t_id d) u db1 = Inr ((), db2)" if none: "q_GetPrimaryTeamMember db u org = None"
  proof -
    have "\<not> has_primary org u (team_members db1)"
      using add_no_primary [OF a, of org u] none primary_found [of db u org] by (simp add: member_params_def)
    moreover have "\<forall>m \<in> set (team_members db1). tm_team m = t_id d \<and> tm_user m = u \<longrightarrow> tm_org m = org"
    proof (intro ballI impI)
      fix x assume x: "x \<in> set (team_members db1)" "tm_team x = t_id d \<and> tm_user x = u"
      then obtain b where "(tm_team x, tm_org x, b) \<in> live_keys db" using ok unfolding members_in_def by blast
      then show "tm_org x = org" using inv_keys [OF I k, of "tm_org x" b] x(2) by simp
    qed
    ultimately show ?thesis using set_flag_one_primary [of "team_members db1" "t_id d" u org] ok up1
      by (simp add: members_in_def q_SetPrimaryFlag_def set_members_def)
  qed
  then have "\<exists>db2. (if q_GetPrimaryTeamMember db u org = None then wrap_team w (q_SetPrimaryFlag (t_id d) u) else sret ()) db1
      = Inr ((), db2)" for w by (cases "q_GetPrimaryTeamMember db u org") (auto simp: wrap_team_Inr sret_def)
  then obtain db2 where s: "(if q_GetPrimaryTeamMember db u org = None
      then wrap_team ''marking default primary'' (q_SetPrimaryFlag (t_id d) u) else sret ()) db1 = Inr ((), db2)" by blast
  have "default_team org db = Inr (d, db)" using up d by (simp add: default_team_Inr)
  then have "pg_EnsureDefaultMembership org u db = (Inr (), db2)"
    using up a s by (simp add: pg_EnsureDefaultMembership_def in_tx_Inr stmt_run team_read_Inr wrap_team_Inr)
  then show ?thesis by blast
qed


lemma enrol_member:
  assumes e: "pg_EnsureDefaultMembership org u db = (Inr x, db2)" and I: "team_inv db"
    and d: "q_GetDefaultTeam db org = Some d"
  shows "\<exists>m \<in> set (team_members db2). tm_team m = t_id d \<and> tm_user m = u"
proof -
  let ?row = "member_params (t_id d) u org ''member'' False"
  from e d obtain m db1 where a: "q_AddTeamMember ?row db = Inr (m, db1)"
    and s: "if q_GetPrimaryTeamMember db u org = None then q_SetPrimaryFlag (t_id d) u db1 = Inr ((), db2) else db2 = db1"
    by (auto simp: pg_EnsureDefaultMembership_def in_tx_Inr stmt_run default_team_Inr team_read_Inr wrap_team_Inr
        split: if_splits)
  have "tm_team ?row = t_id d" "tm_user ?row = u" "(tm_team ?row, tm_org ?row, True) \<in> live_keys db"
    using default_key [OF d] by (simp_all add: member_params_def)
  from AddTeamMember_ok(3) [OF a inv_members [OF I] this(3)] this(1,2)
  obtain y where y: "y \<in> set (team_members db1)" "tm_team y = t_id d" "tm_user y = u" by auto
  show ?thesis
  proof (cases "q_GetPrimaryTeamMember db u org")
    case None
    let ?g = "\<lambda>m. if tm_team m = t_id d \<and> tm_user m = u then m\<lparr>tm_primary := True\<rparr> else m"
    have m2: "team_members db2 = map ?g (team_members db1)"
      using s None by (auto simp: q_SetPrimaryFlag_def set_members_Inr)
    have "?g y \<in> set (team_members db2)" unfolding m2 set_map using y(1) by (rule imageI)
    moreover have "tm_team (?g y) = t_id d \<and> tm_user (?g y) = u" using y(2,3) by simp
    ultimately show ?thesis by blast
  next
    case Some
    with s y show ?thesis by auto
  qed
qed

lemma distinct_replicate_le: "distinct (replicate n x) \<Longrightarrow> n \<le> 1"
  by (cases n; cases "n - 1") simp_all

lemma primary_row:
  assumes I: "team_inv db" and p: "has_primary org u (team_members db)"
  shows "\<exists>m. filter (\<lambda>m. tm_user m = u \<and> tm_org m = org \<and> tm_primary m) (team_members db) = [m] \<and>
    (\<exists>t \<in> set (live_teams db). t_id t = tm_team m \<and> t_org t = org)"
proof -
  let ?P = "\<lambda>m. tm_user m = u \<and> tm_org m = org \<and> tm_primary m"
  let ?F = "filter ?P (team_members db)"
  from p obtain m where m: "m \<in> set ?F" by (auto simp: has_primary_def)
  have "?F = filter (\<lambda>m. tm_user m = u \<and> tm_org m = org) (filter tm_primary (team_members db))"
    by (simp add: conj_commute conj_left_commute)
  moreover have "distinct (map (\<lambda>m. (tm_user m, tm_org m)) (filter tm_primary (team_members db)))"
    using inv_members [OF I] by (simp add: members_in_def one_primary_def)
  ultimately have "distinct (map (\<lambda>m. (tm_user m, tm_org m)) ?F)"
    by (simp only: distinct_map_filter)
  moreover have "map (\<lambda>m. (tm_user m, tm_org m)) ?F = replicate (length ?F) (u, org)"
    by (rule replicate_eqI) auto
  ultimately have "distinct (replicate (length ?F) (u, org))" by (simp only:)
  then have "length ?F \<le> 1" by (rule distinct_replicate_le)
  with m have F: "?F = [m]" by (cases "?F") (auto simp del: filter_eq_Cons_iff)
  from m obtain b where "(tm_team m, org, b) \<in> live_keys db"
    using inv_members [OF I] unfolding members_in_def by auto
  then have "\<exists>t \<in> set (live_teams db). t_id t = tm_team m \<and> t_org t = org"
    by (auto simp: live_keys_def)
  with F show ?thesis by blast
qed

lemma demo_inv: "team_inv demo_db"
proof -
  have k: "live_keys demo_db = {(20, 1, True), (21, 1, t_default demo_ops_team), (22, 1, False)}"
    by (simp add: live_keys_def demo_live demo_default_team_def demo_on_call_team_def)
  have "keys_ok (live_keys demo_db)" unfolding k keys_ok_def by (auto simp: demo_ops_team_def)
  moreover have "members_in (live_keys demo_db) (team_members demo_db)"
    unfolding k by (auto simp: members_in_def one_primary_def demo_db_def)
  ultimately show ?thesis by (simp add: team_inv_def members_ok_def demo_forest)
qed

text \<open>
  C32. Enrolment always completes. When the database answers, an organisation has its default team
  and the user exists, enrolling the user commits: they are then a member of the default team, they
  have a primary team in the organisation, and no constraint of the tables can refuse it.
\<close>

theorem enrolment_completes:
  assumes "db_up db" and "team_inv db" and "q_GetDefaultTeam db org = Some d" and "user_exists db u"
  shows "\<exists>db'. pg_EnsureDefaultMembership org u db = (Inr (), db') \<and> team_inv db' \<and>
    has_primary org u (team_members db') \<and>
    (\<exists>m \<in> set (team_members db'). tm_team m = t_id d \<and> tm_user m = u)"
proof -
  from enrol_runs [OF assms] obtain db' where e: "pg_EnsureDefaultMembership org u db = (Inr (), db')" by blast
  show ?thesis
    using e enrol_ok [OF assms(2) e] enrol_member [OF e assms(2,3)] by (auto simp: keeps_primaries_def)
qed

theorem enrolment_completes_witness:
  "has_primary 1 11 (team_members (snd (pg_EnsureDefaultMembership 1 11 demo_db)))"
proof -
  have "q_GetDefaultTeam demo_db 1 = Some demo_default_team"
    by (simp add: q_GetDefaultTeam_def demo_db_def live_team_def demo_default_team_def)
  moreover have "db_up demo_db" "user_exists demo_db 11" by (simp_all add: demo_db_def user_exists_def)
  ultimately show ?thesis using enrolment_completes [OF _ demo_inv, of 1 demo_default_team 11] by fastforce
qed

end
