(* ===== verification/People.thy ===== *)
theory People
  imports TeamMembers
begin

text \<open>
  People of an organisation: \<^verbatim>\<open>internal/core/people/service.go\<close>, its SQL adapter
  \<^verbatim>\<open>internal/db/adapters/people.go\<close>, the admin routes of \<^verbatim>\<open>internal/core/api/admin/handler.go\<close>
  and the two transactions that enrol a new account in a team (\<^verbatim>\<open>internal/db/adapters/invites.go\<close>,
  \<^verbatim>\<open>credential_links.go\<close>). The operations that turn on sessions (deactivation, reactivation, forced
  logout) are not modelled: they write neither memberships nor teams.
\<close>

section \<open>The service\<close>

datatype people_error =
    ErrNotMember | ErrLastAdmin | ErrNotActive | ErrAlreadyActive | ErrInvalidOrgRole | ErrCannotChangeOwner
  | ErrPeopleTeamNotFound | ErrInvalidDisplayName | ErrPeopleDatabase string

record 'db PeopleStore =
  ps_RemoveFromOrg :: "uuid \<Rightarrow> uuid \<Rightarrow> 'db \<Rightarrow> (people_error + unit) \<times> 'db"
  ps_ChangeOrgRole :: "uuid \<Rightarrow> uuid \<Rightarrow> string \<Rightarrow> 'db \<Rightarrow> (people_error + unit) \<times> 'db"
  ps_ChangePrimaryTeam :: "uuid \<Rightarrow> uuid \<Rightarrow> uuid \<Rightarrow> 'db \<Rightarrow> (people_error + unit) \<times> 'db"
  ps_UpdateProfile :: "uuid \<Rightarrow> uuid \<Rightarrow> string \<Rightarrow> 'db \<Rightarrow> (people_error + unit) \<times> 'db"

definition maxDisplayNameLen :: nat where "maxDisplayNameLen = 255"

definition PeopleRemoveFromOrg ::
    "('db, 'm) PeopleStore_scheme \<Rightarrow> uuid \<Rightarrow> uuid \<Rightarrow> 'db \<Rightarrow> (people_error + unit) \<times> 'db" where
  "PeopleRemoveFromOrg s orgID userID = ps_RemoveFromOrg s orgID userID"

definition PeopleChangeOrgRole ::
    "('db, 'm) PeopleStore_scheme \<Rightarrow> uuid \<Rightarrow> uuid \<Rightarrow> string \<Rightarrow> 'db \<Rightarrow> (people_error + unit) \<times> 'db" where
  "PeopleChangeOrgRole s orgID userID role db =
     (if role \<noteq> ''member'' \<and> role \<noteq> ''admin'' then (Inl ErrInvalidOrgRole, db)
      else ps_ChangeOrgRole s orgID userID role db)"

definition PeopleChangePrimaryTeam ::
    "('db, 'm) PeopleStore_scheme \<Rightarrow> uuid \<Rightarrow> uuid \<Rightarrow> uuid \<Rightarrow> 'db \<Rightarrow> (people_error + unit) \<times> 'db" where
  "PeopleChangePrimaryTeam s orgID userID teamID = ps_ChangePrimaryTeam s orgID userID teamID"

definition PeopleUpdateProfile ::
    "('db, 'm) PeopleStore_scheme \<Rightarrow> uuid \<Rightarrow> uuid \<Rightarrow> string \<Rightarrow> 'db \<Rightarrow> (people_error + unit) \<times> 'db" where
  "PeopleUpdateProfile s orgID userID name db =
     (let displayName = TrimSpace name
      in if displayName = '''' then (Inl ErrInvalidDisplayName, db)
         else if length displayName > maxDisplayNameLen then (Inl ErrInvalidDisplayName, db)
         else ps_UpdateProfile s orgID userID displayName db)"

section \<open>Statements\<close>

definition q_DeleteMembership :: "uuid \<Rightarrow> uuid \<Rightarrow> ('x org_db_scheme, sql_error, unit) stmt" where
  "q_DeleteMembership org user db =
     (if \<not> db_up db then Inl SqlDown
      else Inr ((), db\<lparr>memberships := filter (\<lambda>m. \<not> (m_org m = org \<and> m_user m = user)) (memberships db)\<rparr>))"

definition q_DeleteTeamMembershipsInOrg :: "uuid \<Rightarrow> uuid \<Rightarrow> ('x org_db_scheme, sql_error, unit) stmt" where
  "q_DeleteTeamMembershipsInOrg user org db =
     (if \<not> db_up db then Inl SqlDown
      else Inr ((), db\<lparr>team_members := filter (\<lambda>m. \<not> (tm_user m = user \<and> tm_org m = org)) (team_members db)\<rparr>))"

definition q_DeleteGrantsBySubjectUserInOrg :: "uuid \<Rightarrow> uuid \<Rightarrow> ('x org_db_scheme, sql_error, unit) stmt" where
  "q_DeleteGrantsBySubjectUserInOrg user org db =
     (if \<not> db_up db then Inl SqlDown
      else Inr ((), db\<lparr>space_grants :=
        filter (\<lambda>g. \<not> (g_subject_type g = ''user'' \<and> g_subject_id g = user \<and> g_org g = org)) (space_grants db)\<rparr>))"

definition q_UpdateMembershipRole :: "uuid \<Rightarrow> uuid \<Rightarrow> string \<Rightarrow> ('x org_db_scheme, sql_error, unit) stmt" where
  "q_UpdateMembershipRole org user role db =
     (if \<not> db_up db then Inl SqlDown
      else Inr ((), db\<lparr>memberships :=
        map (\<lambda>m. if m_org m = org \<and> m_user m = user then m\<lparr>m_role := role\<rparr> else m) (memberships db)\<rparr>))"

definition q_UpdateUserDisplayName :: "uuid \<Rightarrow> string \<Rightarrow> ('x org_db_scheme, sql_error, unit) stmt" where
  "q_UpdateUserDisplayName user name db =
     (if \<not> db_up db then Inl SqlDown
      else Inr ((), db\<lparr>users :=
        map (\<lambda>u. if u_id u = user \<and> \<not> u_deleted u then u\<lparr>u_display_name := name\<rparr> else u) (users db)\<rparr>))"

definition q_LockAdminMembershipsInOrg :: "'x org_db_scheme \<Rightarrow> uuid \<Rightarrow> string list \<Rightarrow> uuid list" where
  "q_LockAdminMembershipsInOrg db org roles =
     sort (map m_user (filter (\<lambda>m. m_org m = org \<and> List.member roles (m_role m)) (memberships db)))"

definition q_CountOtherActiveOrgAdmins :: "'x org_db_scheme \<Rightarrow> uuid \<Rightarrow> uuid \<Rightarrow> string list \<Rightarrow> nat" where
  "q_CountOtherActiveOrgAdmins db org user roles =
     length (concat (map (\<lambda>m. filter (\<lambda>u. u_id u = m_user m \<and> \<not> u_deleted u \<and> u_active u) (users db))
       (filter (\<lambda>m. m_org m = org \<and> m_user m \<noteq> user \<and> List.member roles (m_role m)) (memberships db))))"

section \<open>The adapter\<close>

definition people_read :: "string \<Rightarrow> ('x org_db_scheme \<Rightarrow> 'a) \<Rightarrow> ('x org_db_scheme, people_error, 'a) stmt" where
  "people_read what q = sread (\<lambda>db. if db_up db then Inr (q db) else Inl (ErrPeopleDatabase what))"

definition people_row ::
    "people_error \<Rightarrow> string \<Rightarrow> ('x org_db_scheme \<Rightarrow> 'a option) \<Rightarrow> ('x org_db_scheme, people_error, 'a) stmt" where
  "people_row e what q =
     sbind (people_read what q) (\<lambda>r. case r of None \<Rightarrow> sfail e | Some x \<Rightarrow> sret x)"

definition wrap_people :: "string \<Rightarrow> ('s, sql_error, 'a) stmt \<Rightarrow> ('s, people_error, 'a) stmt" where
  "wrap_people what m db = (case m db of Inl _ \<Rightarrow> Inl (ErrPeopleDatabase what) | Inr r \<Rightarrow> Inr r)"

definition requireMembership :: "uuid \<Rightarrow> uuid \<Rightarrow> ('x org_db_scheme, people_error, MembershipRow) stmt" where
  "requireMembership orgID userID =
     people_row ErrNotMember ''loading membership'' (\<lambda>db. q_GetMembership db orgID userID)"

definition isAdminClass :: "string \<Rightarrow> bool" where
  "isAdminClass role \<longleftrightarrow> list_ex (\<lambda>r. role = r) AdminRoleNames"

definition lockAndRequireOtherAdmins :: "uuid \<Rightarrow> uuid \<Rightarrow> ('x org_db_scheme, people_error, unit) stmt" where
  "lockAndRequireOtherAdmins orgID userID =
     sbind (people_read ''locking admin memberships''
             (\<lambda>db. q_LockAdminMembershipsInOrg db orgID AdminRoleNames)) (\<lambda>_.
     sbind (people_read ''counting other admins''
             (\<lambda>db. q_CountOtherActiveOrgAdmins db orgID userID AdminRoleNames)) (\<lambda>n.
       scheck (n \<noteq> 0) ErrLastAdmin))"

definition pg_RemoveFromOrg :: "uuid \<Rightarrow> uuid \<Rightarrow> 'x org_db_scheme \<Rightarrow> (people_error + unit) \<times> 'x org_db_scheme" where
  "pg_RemoveFromOrg orgID userID =
     in_tx (sbind (requireMembership orgID userID) (\<lambda>m.
       sseq (if isAdminClass (m_role m) then lockAndRequireOtherAdmins orgID userID else sret ())
       (sseq (wrap_people ''deleting membership'' (q_DeleteMembership orgID userID))
       (sseq (wrap_people ''deleting team memberships'' (q_DeleteTeamMembershipsInOrg userID orgID))
             (wrap_people ''deleting grants'' (q_DeleteGrantsBySubjectUserInOrg userID orgID))))))"

definition pg_ChangeOrgRole ::
    "uuid \<Rightarrow> uuid \<Rightarrow> string \<Rightarrow> 'x org_db_scheme \<Rightarrow> (people_error + unit) \<times> 'x org_db_scheme" where
  "pg_ChangeOrgRole orgID userID role =
     in_tx (sbind (requireMembership orgID userID) (\<lambda>m.
       if m_role m = ''owner'' then sfail ErrCannotChangeOwner
       else if m_role m = role then sret ()
       else sseq (if isAdminClass (m_role m) \<and> \<not> isAdminClass role then lockAndRequireOtherAdmins orgID userID
                  else sret ())
                 (wrap_people ''updating membership role'' (q_UpdateMembershipRole orgID userID role))))"

definition pg_ChangePrimaryTeam ::
    "uuid \<Rightarrow> uuid \<Rightarrow> uuid \<Rightarrow> 'x org_db_scheme \<Rightarrow> (people_error + unit) \<times> 'x org_db_scheme" where
  "pg_ChangePrimaryTeam orgID userID teamID =
     in_tx (sbind (requireMembership orgID userID) (\<lambda>_.
       sbind (people_row ErrPeopleTeamNotFound ''loading team'' (\<lambda>db. q_GetTeamByID db teamID)) (\<lambda>team.
       sseq (scheck (\<not> (t_org team \<noteq> orgID \<or> t_deleted team)) ErrPeopleTeamNotFound)
       (sseq (wrap_people ''enrolling in team''
               (q_AddTeamMember (member_params teamID userID orgID ''member'' False)))
       (sseq (wrap_people ''clearing primary'' (q_ClearPrimaryTeam userID orgID))
             (wrap_people ''setting primary'' (q_SetPrimaryFlag teamID userID)))))))"

definition pg_UpdateProfile ::
    "uuid \<Rightarrow> uuid \<Rightarrow> string \<Rightarrow> 'x org_db_scheme \<Rightarrow> (people_error + unit) \<times> 'x org_db_scheme" where
  "pg_UpdateProfile orgID userID displayName =
     in_tx (sseq (requireMembership orgID userID)
       (wrap_people ''updating display name'' (q_UpdateUserDisplayName userID displayName)))"

definition pg_people_store :: "'x org_db_scheme PeopleStore" where
  "pg_people_store =
     \<lparr>ps_RemoveFromOrg = pg_RemoveFromOrg, ps_ChangeOrgRole = pg_ChangeOrgRole,
      ps_ChangePrimaryTeam = pg_ChangePrimaryTeam, ps_UpdateProfile = pg_UpdateProfile\<rparr>"

lemma pg_people_store_simps [simp]:
  "ps_RemoveFromOrg pg_people_store = pg_RemoveFromOrg" "ps_ChangeOrgRole pg_people_store = pg_ChangeOrgRole"
  "ps_ChangePrimaryTeam pg_people_store = pg_ChangePrimaryTeam" "ps_UpdateProfile pg_people_store = pg_UpdateProfile"
  by (simp_all add: pg_people_store_def)

section \<open>The admin routes\<close>

definition mapPeopleError :: "people_error \<Rightarrow> nat" where
  "mapPeopleError e =
     (case e of
        ErrNotMember \<Rightarrow> 404
      | ErrLastAdmin \<Rightarrow> 409 | ErrNotActive \<Rightarrow> 409 | ErrAlreadyActive \<Rightarrow> 409
      | ErrInvalidOrgRole \<Rightarrow> 400
      | ErrCannotChangeOwner \<Rightarrow> 409
      | ErrPeopleTeamNotFound \<Rightarrow> 400 | ErrInvalidDisplayName \<Rightarrow> 400
      | ErrPeopleDatabase _ \<Rightarrow> 500)"

record updatePersonRequest =
  up_OrgRole :: "string option"
  up_PrimaryTeamID :: "uuid option"
  up_DisplayName :: "string option"

definition person_event :: "team_ctx \<Rightarrow> string \<Rightarrow> uuid \<Rightarrow> string \<Rightarrow> (string \<times> meta_value) list \<Rightarrow> AuditEvent" where
  "person_event c ty subjectID ref meta =
     \<lparr>ev_Type = ty, ev_ActorID = tc_Actor c, ev_OrgID = Some (tc_OrgID c), ev_ResourceType = ''user'',
      ev_ResourceID = Some subjectID, ev_Metadata = meta, ev_BatchID = None, ev_TicketRef = ref\<rparr>"

text \<open>Each provided field in turn; the first failure answers, and what was done before stays done.\<close>

definition apply_field ::
    "'f option \<Rightarrow> ('f \<Rightarrow> 'db \<Rightarrow> (people_error + unit) \<times> 'db) \<Rightarrow> ('f \<Rightarrow> 'db \<Rightarrow> 'db) \<Rightarrow> 'db \<Rightarrow> (nat + unit) \<times> 'db" where
  "apply_field field op log db =
     (case field of
        None \<Rightarrow> (Inr (), db)
      | Some v \<Rightarrow>
          (case op v db of
             (Inl e, db') \<Rightarrow> (Inl (mapPeopleError e), db')
           | (Inr _, db') \<Rightarrow> (Inr (), log v db')))"

definition applyPersonUpdates ::
    "('db, 'm) PeopleStore_scheme \<Rightarrow> 'db audit_log_fn \<Rightarrow> team_ctx \<Rightarrow> uuid \<Rightarrow> updatePersonRequest \<Rightarrow> string \<Rightarrow>
     'db \<Rightarrow> (nat + unit) \<times> 'db" where
  "applyPersonUpdates s lg c userID req ref db =
     (case apply_field (up_OrgRole req) (PeopleChangeOrgRole s (tc_OrgID c) userID)
             (\<lambda>v. lg 0 (person_event c ''user.org_role_changed'' userID ref [(''org_role'', MText v)])) db of
        (Inl e, db1) \<Rightarrow> (Inl e, db1)
      | (Inr _, db1) \<Rightarrow>
     (case apply_field (up_DisplayName req) (PeopleUpdateProfile s (tc_OrgID c) userID)
             (\<lambda>v. lg 1 (person_event c ''user.profile_changed'' userID ref [(''display_name'', MText (TrimSpace v))])) db1 of
        (Inl e, db2) \<Rightarrow> (Inl e, db2)
      | (Inr _, db2) \<Rightarrow>
      apply_field (up_PrimaryTeamID req) (PeopleChangePrimaryTeam s (tc_OrgID c) userID)
             (\<lambda>v. lg 2 (person_event c ''user.primary_team_changed'' userID ref [(''primary_team_id'', MUuid v)])) db2))"

definition h_UpdatePerson ::
    "('db, 'm) PeopleStore_scheme \<Rightarrow> 'db audit_log_fn \<Rightarrow> team_ctx \<Rightarrow> uuid \<Rightarrow> updatePersonRequest option \<Rightarrow>
     'db \<Rightarrow> (nat + unit) \<times> 'db" where
  "h_UpdatePerson s lg c userID body db =
     (case resolve_ref c of
        None \<Rightarrow> (Inl 400, db)
      | Some ref \<Rightarrow>
     (case body of
        None \<Rightarrow> (Inl 400, db)
      | Some req \<Rightarrow>
          if up_OrgRole req = None \<and> up_PrimaryTeamID req = None \<and> up_DisplayName req = None then (Inl 400, db)
          else applyPersonUpdates s lg c userID req ref db))"

definition lifecycleAction ::
    "'db audit_log_fn \<Rightarrow> team_ctx \<Rightarrow> uuid \<Rightarrow> (uuid \<Rightarrow> uuid \<Rightarrow> 'db \<Rightarrow> (people_error + unit) \<times> 'db) \<Rightarrow> string \<Rightarrow>
     (string \<times> meta_value) list \<Rightarrow> 'db \<Rightarrow> (nat + unit) \<times> 'db" where
  "lifecycleAction lg c userID fn event meta db =
     (case resolve_ref c of
        None \<Rightarrow> (Inl 400, db)
      | Some ref \<Rightarrow>
          (case fn (tc_OrgID c) userID db of
             (Inl e, db') \<Rightarrow> (Inl (mapPeopleError e), db')
           | (Inr _, db') \<Rightarrow> (Inr (), lg 0 (person_event c event userID ref meta) db')))"

definition h_RemovePerson ::
    "('db, 'm) PeopleStore_scheme \<Rightarrow> 'db audit_log_fn \<Rightarrow> team_ctx \<Rightarrow> uuid \<Rightarrow> 'db \<Rightarrow> (nat + unit) \<times> 'db" where
  "h_RemovePerson s lg c userID =
     lifecycleAction lg c userID (PeopleRemoveFromOrg s) ''user.removed_from_org'' []"

section \<open>New accounts\<close>

text \<open>The team an accepted invitation enrols in, and the enrolment, inside the accepting transaction;
  \<open>orgID\<close> and \<open>team\<close> are the invitation's. A provisioned account goes to the default team.\<close>

definition resolveInviteTeam :: "uuid \<Rightarrow> uuid option \<Rightarrow> ('x org_db_scheme, team_error, uuid) stmt" where
  "resolveInviteTeam orgID team =
     sbind (case team of
              None \<Rightarrow> sret None
            | Some i \<Rightarrow> sbind (sread (team_read ''loading invite team'' (\<lambda>db. q_GetTeamByID db i))) (\<lambda>t.
                sret (case t of
                        Some t \<Rightarrow> if t_org t = orgID \<and> \<not> t_deleted t then Some (t_id t) else None
                      | None \<Rightarrow> None))) (\<lambda>found.
       case found of Some i \<Rightarrow> sret i | None \<Rightarrow> sbind (default_team orgID) (\<lambda>d. sret (t_id d)))"

definition enrol_in :: "uuid \<Rightarrow> uuid \<Rightarrow> uuid \<Rightarrow> ('x org_db_scheme, team_error, unit) stmt" where
  "enrol_in teamID orgID userID =
     sseq (wrap_team ''enrolling in team'' (q_AddTeamMember (member_params teamID userID orgID ''member'' False)))
     (sbind (sread (team_read ''checking primary'' (\<lambda>db. q_GetPrimaryTeamMember db userID orgID))) (\<lambda>p.
        if p = None then wrap_team ''marking primary'' (q_SetPrimaryFlag teamID userID) else sret ()))"

definition enrolAcceptTeam :: "uuid \<Rightarrow> uuid option \<Rightarrow> uuid \<Rightarrow> ('x org_db_scheme, team_error, unit) stmt" where
  "enrolAcceptTeam orgID team userID =
     sbind (resolveInviteTeam orgID team) (\<lambda>teamID. enrol_in teamID orgID userID)"

definition enrolDefaultTeam :: "uuid \<Rightarrow> uuid \<Rightarrow> ('x org_db_scheme, team_error, unit) stmt" where
  "enrolDefaultTeam orgID userID =
     sbind (default_team orgID) (\<lambda>d. enrol_in (t_id d) orgID userID)"

end
