(* ===== verification/PeopleReach.thy ===== *)
theory PeopleReach
  imports People
begin

text \<open>
  Primary teams along runs of everything that writes teams and memberships: the team and people
  routes, the enrolment of new accounts and the seeding of default teams. Only a removal from the
  organisation takes a primary team away.
\<close>

section \<open>What an update of a person keeps\<close>

locale people_store =
  fixes s :: "'db PeopleStore" and lg :: "'db audit_log_fn" and inv :: "'db \<Rightarrow> bool"
  assumes log_keeps: "inv db \<Longrightarrow> inv (lg k e db)"
    and role_keeps: "inv db \<Longrightarrow> inv (snd (ps_ChangeOrgRole s org u r db))"
    and profile_keeps: "inv db \<Longrightarrow> inv (snd (ps_UpdateProfile s org u n db))"
    and primary_keeps: "inv db \<Longrightarrow> inv (snd (ps_ChangePrimaryTeam s org u i db))"
begin

lemma field_keeps:
  assumes "inv db" and "\<And>v db. inv db \<Longrightarrow> inv (snd (op v db))" and "\<And>v db. inv db \<Longrightarrow> inv (log v db)"
  shows "inv (snd (apply_field f op log db))"
  using assms by (cases f) (auto simp: apply_field_def split: prod.splits sum.splits, (metis snd_conv)+)

lemma role_service_keeps: "inv db \<Longrightarrow> inv (snd (PeopleChangeOrgRole s org u r db))"
  by (simp add: PeopleChangeOrgRole_def role_keeps)

lemma profile_service_keeps: "inv db \<Longrightarrow> inv (snd (PeopleUpdateProfile s org u n db))"
  by (simp add: PeopleUpdateProfile_def Let_def profile_keeps)

lemma updates_keep:
  assumes "inv db" shows "inv (snd (applyPersonUpdates s lg c u req ref db))"
proof -
  have 1: "inv db1" if f: "apply_field (up_OrgRole req) (PeopleChangeOrgRole s (tc_OrgID c) u)
             (\<lambda>v. lg 0 (person_event c ''user.org_role_changed'' u ref [(''org_role'', MText v)])) db = (x, db1)" for x db1
  proof -
    have "inv (snd (apply_field (up_OrgRole req) (PeopleChangeOrgRole s (tc_OrgID c) u)
             (\<lambda>v. lg 0 (person_event c ''user.org_role_changed'' u ref [(''org_role'', MText v)])) db))"
      by (rule field_keeps [OF assms]) (simp_all add: role_service_keeps log_keeps)
    then show ?thesis by (simp only: f snd_conv)
  qed
  have 2: "inv db2" if f: "apply_field (up_DisplayName req) (PeopleUpdateProfile s (tc_OrgID c) u)
             (\<lambda>v. lg 1 (person_event c ''user.profile_changed'' u ref [(''display_name'', MText (TrimSpace v))])) db1 = (x, db2)"
      and i: "inv db1" for x db1 db2
  proof -
    have "inv (snd (apply_field (up_DisplayName req) (PeopleUpdateProfile s (tc_OrgID c) u)
             (\<lambda>v. lg 1 (person_event c ''user.profile_changed'' u ref [(''display_name'', MText (TrimSpace v))])) db1))"
      by (rule field_keeps [OF i]) (simp_all add: profile_service_keeps log_keeps)
    then show ?thesis by (simp only: f snd_conv)
  qed
  have 3: "inv (snd (apply_field (up_PrimaryTeamID req) (PeopleChangePrimaryTeam s (tc_OrgID c) u)
             (\<lambda>v. lg 2 (person_event c ''user.primary_team_changed'' u ref [(''primary_team_id'', MUuid v)])) db2))"
      if "inv db2" for db2
    by (rule field_keeps [OF that]) (simp_all add: PeopleChangePrimaryTeam_def primary_keeps log_keeps)
  show ?thesis
  proof (cases "apply_field (up_OrgRole req) (PeopleChangeOrgRole s (tc_OrgID c) u)
             (\<lambda>v. lg 0 (person_event c ''user.org_role_changed'' u ref [(''org_role'', MText v)])) db")
    case f1: (Pair r1 db1)
    show ?thesis
    proof (cases "apply_field (up_DisplayName req) (PeopleUpdateProfile s (tc_OrgID c) u)
             (\<lambda>v. lg 1 (person_event c ''user.profile_changed'' u ref [(''display_name'', MText (TrimSpace v))])) db1")
      case f2: (Pair r2 db2)
      show ?thesis
        using 1 [OF f1] 2 [OF f2 1 [OF f1]] 3 [OF 2 [OF f2 1 [OF f1]]]
        by (simp add: applyPersonUpdates_def f1 f2 del: One_nat_def split: sum.split)
    qed
  qed
qed

lemma update_person_keeps: "inv db \<Longrightarrow> inv (snd (h_UpdatePerson s lg c u body db))"
  by (auto simp: h_UpdatePerson_def updates_keep split: option.split)

end

section \<open>The people operations on the tables\<close>

lemma people_row_Inr: "people_row e what q db = Inr (x, db') \<longleftrightarrow> db_up db \<and> q db = Some x \<and> db' = db"
  by (auto simp: people_row_def people_read_def stmt_run split: option.splits if_splits)

lemma wrap_people_Inr: "wrap_people what m db = Inr r \<longleftrightarrow> m db = Inr r"
  by (simp add: wrap_people_def split: sum.splits)

lemma requireMembership_Inr:
  "requireMembership org u db = Inr (m, db') \<longleftrightarrow> db_up db \<and> q_GetMembership db org u = Some m \<and> db' = db"
  by (simp add: requireMembership_def people_row_Inr)

lemma lockAndRequireOtherAdmins_Inr:
  "lockAndRequireOtherAdmins org u db = Inr (x, db') \<longleftrightarrow>
     db_up db \<and> q_CountOtherActiveOrgAdmins db org u AdminRoleNames \<noteq> 0 \<and> db' = db"
  by (auto simp: lockAndRequireOtherAdmins_def people_read_def stmt_run)

lemmas people_run = stmt_run in_tx_Inr in_tx_Inl wrap_people_Inr requireMembership_Inr lockAndRequireOtherAdmins_Inr

text \<open>A removal takes the membership, the team rows and the user grants of that organisation, nothing
  else, and never the last active admin's.\<close>

lemma RemoveFromOrg_Inr:
  assumes "pg_RemoveFromOrg org u db = (Inr x, db')"
  shows "db' = db\<lparr>memberships := filter (\<lambda>m. \<not> (m_org m = org \<and> m_user m = u)) (memberships db),
      team_members := filter (\<lambda>m. \<not> (tm_user m = u \<and> tm_org m = org)) (team_members db),
      space_grants := filter (\<lambda>g. \<not> (g_subject_type g = ''user'' \<and> g_subject_id g = u \<and> g_org g = org)) (space_grants db)\<rparr>"
    and "\<exists>m. q_GetMembership db org u = Some m \<and>
      (isAdminClass (m_role m) \<longrightarrow> q_CountOtherActiveOrgAdmins db org u AdminRoleNames \<noteq> 0)"
  using assms
  by (auto simp: pg_RemoveFromOrg_def people_run q_DeleteMembership_def q_DeleteTeamMembershipsInOrg_def
      q_DeleteGrantsBySubjectUserInOrg_def split: if_splits)

lemma RemoveFromOrg_Inl: "pg_RemoveFromOrg org u db = (Inl e, db') \<Longrightarrow> db' = db"
  by (simp add: pg_RemoveFromOrg_def in_tx_Inl)

lemma other_tables_keep:
  assumes "team_inv db" and "teams db' = teams db" and "team_members db' = team_members db"
  shows "keeps_primaries db db'"
  by (rule member_change_keeps [OF assms(1,2)]) (simp_all add: assms(3) inv_members [OF assms(1)])

lemma ChangeOrgRole_frame:
  "teams (snd (pg_ChangeOrgRole org u r db)) = teams db \<and> team_members (snd (pg_ChangeOrgRole org u r db)) = team_members db"
proof -
  have "teams db' = teams db \<and> team_members db' = team_members db" if "pg_ChangeOrgRole org u r db = (x, db')" for x db'
    using that
    by (cases x) (auto simp: pg_ChangeOrgRole_def people_run q_UpdateMembershipRole_def split: if_splits)
  then show ?thesis by (metis prod.collapse)
qed

lemma UpdateProfile_frame:
  "teams (snd (pg_UpdateProfile org u n db)) = teams db \<and> team_members (snd (pg_UpdateProfile org u n db)) = team_members db"
proof -
  have "teams db' = teams db \<and> team_members db' = team_members db" if "pg_UpdateProfile org u n db = (x, db')" for x db'
    using that by (cases x) (auto simp: pg_UpdateProfile_def people_run q_UpdateUserDisplayName_def split: if_splits)
  then show ?thesis by (metis prod.collapse)
qed

lemma change_primary_keeps:
  assumes I: "team_inv db" shows "keeps_primaries db (snd (pg_ChangePrimaryTeam org u i db))"
proof (cases "pg_ChangePrimaryTeam org u i db")
  case (Pair r db')
  show ?thesis
  proof (cases r)
    case (Inl e)
    then have "db' = db" using Pair unfolding pg_ChangePrimaryTeam_def by (simp only: in_tx_Inl)
    then show ?thesis using Pair keeps_refl [OF I] by simp
  next
    case (Inr x)
    with Pair obtain t m db1 db2 where t: "q_GetTeamByID db i = Some t" "t_org t = org"
      and a: "q_AddTeamMember (member_params i u org ''member'' False) db = Inr (m, db1)"
      and c: "q_ClearPrimaryTeam u org db1 = Inr ((), db2)" and s: "q_SetPrimaryFlag i u db2 = Inr ((), db')"
      by (auto simp: pg_ChangePrimaryTeam_def people_run people_row_Inr)
    have k: "(i, org, t_default t) \<in> live_keys db"
      using live_key_team [OF _ t(1)] I t(2) by (simp add: team_inv_def)
    have row: "tm_team (member_params i u org ''member'' False) = i" "tm_user (member_params i u org ''member'' False) = u"
      "(tm_team (member_params i u org ''member'' False), tm_org (member_params i u org ''member'' False), t_default t) \<in> live_keys db"
      using k by (simp_all add: member_params_def)
    note ok = AddTeamMember_ok [OF a inv_members [OF I] row(3), unfolded row(1,2)]
    have t1: "teams db1 = teams db" using arg_cong [OF add_member_frame [OF a], of teams] by simp
    have K1: "keeps_primaries db db1" by (rule member_change_keeps [OF I t1 ok(1)]) (rule ok(2))
    then have I1: "team_inv db1" by (simp add: keeps_primaries_def)
    from ok(3) obtain y where y: "y \<in> set (team_members db1)" "tm_team y = i" "tm_user y = u" by blast
    have "tm_org y = org"
      by (rule primary_row_org [OF I1 y(1)]) (use k y(2) members_frame [OF t1] in simp)
    then have "keeps_primaries db1 db'" using clear_set_keeps [OF I1 y _ c s] by blast
    then show ?thesis using K1 Pair by (simp add: keeps_primaries_def)
  qed
qed

interpretation people: people_store pg_people_store "pg_log fresh" "\<lambda>db. team_inv db \<and> settled_in S db" for fresh S
proof
  have k: "team_inv db \<and> settled_in S db \<Longrightarrow> keeps_primaries db db' \<Longrightarrow>
      team_inv db' \<and> settled_in S db'" for db db' :: "'a org_db_scheme"
    by (auto simp: keeps_primaries_def settled_in_def)
  fix db :: "'a org_db_scheme" and kd e org u r n i
  let ?I = "team_inv db \<and> settled_in S db"
  show "?I \<Longrightarrow> team_inv (pg_log fresh kd e db) \<and> settled_in S (pg_log fresh kd e db)"
    by (rule k) (auto intro: log_keeps_primaries)
  show "?I \<Longrightarrow> team_inv (snd (ps_ChangeOrgRole pg_people_store org u r db)) \<and>
      settled_in S (snd (ps_ChangeOrgRole pg_people_store org u r db))"
    by (rule k) (auto intro: other_tables_keep simp: ChangeOrgRole_frame)
  show "?I \<Longrightarrow> team_inv (snd (ps_UpdateProfile pg_people_store org u n db)) \<and>
      settled_in S (snd (ps_UpdateProfile pg_people_store org u n db))"
    by (rule k) (auto intro: other_tables_keep simp: UpdateProfile_frame)
  show "?I \<Longrightarrow> team_inv (snd (ps_ChangePrimaryTeam pg_people_store org u i db)) \<and>
      settled_in S (snd (ps_ChangePrimaryTeam pg_people_store org u i db))"
    by (rule k) (auto intro: change_primary_keeps)
qed

text \<open>Enrolling a new account.\<close>

lemma enrol_in_keeps:
  assumes I: "team_inv db" and k: "(i, org, b) \<in> live_keys db" and e: "enrol_in i org u db = Inr (x, db')"
  shows "keeps_primaries db db' \<and> has_primary org u (team_members db')"
proof -
  from e obtain m db1 where a: "q_AddTeamMember (member_params i u org ''member'' False) db = Inr (m, db1)"
    and s: "if q_GetPrimaryTeamMember db1 u org = None then q_SetPrimaryFlag i u db1 = Inr ((), db') else db' = db1"
    by (auto simp: enrol_in_def stmt_run wrap_team_Inr team_read_Inr split: if_splits)
  show ?thesis
    by (rule enrol_in_ok [OF I k a s])
       (use add_no_primary [OF a, of org u] in \<open>auto simp: primary_found member_params_def\<close>)
qed

lemma invite_team_key:
  assumes I: "team_inv db" and r: "resolveInviteTeam org team db = Inr (i, db')"
  shows "db' = db \<and> (\<exists>b. (i, org, b) \<in> live_keys db)"
proof -
  have found: "(i, org, t_default t) \<in> live_keys db" if "q_GetTeamByID db j = Some t" "t_org t = org" "t_id t = i" for j t
  proof -
    have "t_id t = j" using that(1) by (auto simp: q_GetTeamByID_def dest: find_Some_in)
    then show ?thesis using live_key_team [OF _ that(1)] I that(2,3) by (simp add: team_inv_def)
  qed
  show ?thesis
    using r found default_key [of db org]
    by (auto simp: resolveInviteTeam_def stmt_run team_read_Inr default_team_Inr
        split: option.splits if_splits)
qed

lemma accept_keeps:
  assumes "team_inv db" and "enrolAcceptTeam org team u db = Inr (x, db')"
  shows "keeps_primaries db db' \<and> has_primary org u (team_members db')"
  using assms invite_team_key [OF assms(1)] enrol_in_keeps [OF assms(1)]
  by (fastforce simp: enrolAcceptTeam_def stmt_run)

lemma enrol_default_keeps:
  assumes "team_inv db" and "enrolDefaultTeam org u db = Inr (x, db')"
  shows "keeps_primaries db db' \<and> has_primary org u (team_members db')"
  using assms default_key [of db org] enrol_in_keeps [OF assms(1)]
  by (fastforce simp: enrolDefaultTeam_def stmt_run default_team_Inr)

text \<open>Seeding an organisation's default team.\<close>

lemma root_team_forest:
  assumes f: "team_forest db" and n: "t_id t \<notin> t_id ` set (teams db)" and p: "t_parent t = None" "t_path t = [t_id t]"
  shows "team_forest (db\<lparr>teams := teams db @ [t]\<rparr>)"
proof -
  have "chained (db\<lparr>teams := teams db @ [t]\<rparr>) t" using p by (simp add: chained_def)
  moreover have "chained (db\<lparr>teams := teams db @ [t]\<rparr>) r" if "chained db r" for r
    using that by (auto simp: chained_def live_teams_def split: option.splits)
  ultimately show ?thesis
    using f n p by (auto simp: team_forest_def live_teams_iff MaxDepth_def)
qed

lemma seed_keeps:
  assumes I: "team_inv db" shows "keeps_primaries db (snd (SeedDefaultTeam i org db))"
proof (cases "snd (SeedDefaultTeam i org db) = db")
  case True
  then show ?thesis using keeps_refl [OF I] by simp
next
  case False
  let ?t = "\<lparr>t_id = i, t_org = org, t_parent = None, t_path = [i], t_slug = ''default'', t_name = ''Default'',
    t_description = ''Org default team. Every member belongs here until assigned elsewhere.'',
    t_default = True, t_deleted = False\<rparr>"
  have eq: "snd (SeedDefaultTeam i org db) = db\<lparr>teams := teams db @ [?t]\<rparr>" and n: "\<not> team_exists db i"
    and d: "\<not> list_ex (\<lambda>r. t_org r = org \<and> t_default r \<and> live_team r) (teams db)"
    using False by (auto simp: SeedDefaultTeam_def q_InsertDefaultTeamIfAbsent_def split: option.splits if_splits)
  have new: "i \<notin> t_id ` set (teams db)" using n by (auto simp: team_exists_def list_ex_iff)
  have f: "team_forest (db\<lparr>teams := teams db @ [?t]\<rparr>)"
    by (rule root_team_forest) (use I new in \<open>auto simp: team_inv_def\<close>)
  have keys: "live_keys (db\<lparr>teams := teams db @ [?t]\<rparr>) = insert (i, org, True) (live_keys db)"
    by (auto simp: live_keys_def live_teams_def live_team_def)
  have none: "(j, org, True) \<notin> live_keys db" for j using d by (auto simp: live_keys_def live_teams_iff list_ex_iff)
  have "keys_ok (live_keys (db\<lparr>teams := teams db @ [?t]\<rparr>))"
    unfolding keys_ok_def
  proof (intro conjI allI impI; elim conjE)
    fix j o1 o2 b1 b2
    assume "(j, o1, b1) \<in> live_keys (db\<lparr>teams := teams db @ [?t]\<rparr>)" "(j, o2, b2) \<in> live_keys (db\<lparr>teams := teams db @ [?t]\<rparr>)"
    from forest_keys [OF f this] show "o1 = o2" and "b1 = b2" by blast+
  next
    fix j k o'
    assume "(j, o', True) \<in> live_keys (db\<lparr>teams := teams db @ [?t]\<rparr>)" "(k, o', True) \<in> live_keys (db\<lparr>teams := teams db @ [?t]\<rparr>)"
    then show "j = k" using none inv_defaults [OF I, of j o' k] by (cases "o' = org") (simp_all add: keys)
  qed
  moreover have "members_in (live_keys (db\<lparr>teams := teams db @ [?t]\<rparr>)) (team_members db)"
    using inv_members [OF I] unfolding keys by (auto simp: members_in_def)
  ultimately show ?thesis using f by (simp add: eq keeps_primaries_def team_inv_def members_ok_def)
qed

section \<open>Runs\<close>

datatype org_label = Removed uuid uuid | Other

inductive org_step :: "(nat \<Rightarrow> uuid) \<Rightarrow> org_label \<Rightarrow> 'x org_db_scheme \<Rightarrow> 'x org_db_scheme \<Rightarrow> bool"
  for fresh :: "nat \<Rightarrow> uuid" where
  team: "team_step pg_team_store (pg_log fresh) db db' \<Longrightarrow> org_step fresh Other db db'"
| update_person: "org_step fresh Other db (snd (h_UpdatePerson pg_people_store (pg_log fresh) c u body db))"
| removed: "h_RemovePerson pg_people_store (pg_log fresh) c u db = (Inr (), db') \<Longrightarrow>
    org_step fresh (Removed (tc_OrgID c) u) db db'"
| kept: "h_RemovePerson pg_people_store (pg_log fresh) c u db = (Inl e, db') \<Longrightarrow> org_step fresh Other db db'"
| accepted: "enrolAcceptTeam org team u db = Inr ((), db') \<Longrightarrow> org_step fresh Other db db'"
| provisioned: "enrolDefaultTeam org u db = Inr ((), db') \<Longrightarrow> org_step fresh Other db db'"
| seeded: "org_step fresh Other db (snd (SeedDefaultTeam i org db))"
| elsewhere: "teams db' = teams db \<Longrightarrow> team_members db' = team_members db \<Longrightarrow> org_step fresh Other db db'"

inductive org_run :: "(nat \<Rightarrow> uuid) \<Rightarrow> 'x org_db_scheme \<Rightarrow> org_label list \<Rightarrow> 'x org_db_scheme \<Rightarrow> bool"
  for fresh :: "nat \<Rightarrow> uuid" where
  start: "org_run fresh db [] db"
| snoc: "org_run fresh db ls db1 \<Longrightarrow> org_step fresh l db1 db2 \<Longrightarrow> org_run fresh db (ls @ [l]) db2"

lemma team_step_keeps:
  assumes "team_step pg_team_store (pg_log fresh) db db'" and "team_inv db"
  shows "keeps_primaries db db'"
proof -
  have "(team_step pg_team_store (pg_log fresh))\<^sup>*\<^sup>* db db'" using assms(1) by (rule r_into_rtranclp)
  then have "team_inv db' \<and> settled_in {(org, u). has_primary org u (team_members db)} db'"
    by (rule settled.requests_keep) (simp add: assms(2) settled_in_def)
  then show ?thesis by (auto simp: keeps_primaries_def settled_in_def)
qed

lemma update_person_keeps_primaries:
  assumes "team_inv db"
  shows "keeps_primaries db (snd (h_UpdatePerson pg_people_store (pg_log fresh) c u body db))"
proof -
  have "team_inv (snd (h_UpdatePerson pg_people_store (pg_log fresh) c u body db)) \<and>
      settled_in {(org, u). has_primary org u (team_members db)} (snd (h_UpdatePerson pg_people_store (pg_log fresh) c u body db))"
    by (rule people.update_person_keeps) (simp add: assms settled_in_def)
  then show ?thesis by (auto simp: keeps_primaries_def settled_in_def)
qed

text \<open>A removal takes the primary team of the removed user in that organisation, and no other.\<close>

lemma removal_keeps:
  assumes I: "team_inv db" and r: "h_RemovePerson pg_people_store (pg_log fresh) c u db = (Inr (), db')"
  shows "team_inv db' \<and>
    team_members db' = filter (\<lambda>m. \<not> (tm_user m = u \<and> tm_org m = tc_OrgID c)) (team_members db)"
proof -
  from r obtain db1 e where d: "pg_RemoveFromOrg (tc_OrgID c) u db = (Inr (), db1)" and l: "db' = pg_log fresh 0 e db1"
    by (auto simp: h_RemovePerson_def lifecycleAction_def PeopleRemoveFromOrg_def split: option.splits prod.splits sum.splits)
  have t: "teams db1 = teams db"
    and m: "team_members db1 = filter (\<lambda>m. \<not> (tm_user m = u \<and> tm_org m = tc_OrgID c)) (team_members db)"
    using RemoveFromOrg_Inr(1) [OF d] by simp_all
  have "team_inv db1"
    using I filter_members [OF inv_members [OF I]]
    by (simp add: team_inv_def members_ok_def forest_frame [OF t] members_frame [OF t] m)
  then have "team_inv db'" unfolding l using log_keeps_primaries by (auto simp: keeps_primaries_def)
  then show ?thesis by (simp add: l m)
qed

lemma refused_removal:
  assumes "h_RemovePerson pg_people_store (pg_log fresh) c u db = (Inl e, db')" shows "db' = db"
  using assms RemoveFromOrg_Inl
  by (auto simp: h_RemovePerson_def lifecycleAction_def PeopleRemoveFromOrg_def split: option.splits prod.splits sum.splits)

lemma org_step_keeps:
  assumes "org_step fresh l db db'" and I: "team_inv db"
  shows "team_inv db'" and "l \<noteq> Removed org u \<Longrightarrow> has_primary org u (team_members db) \<Longrightarrow> has_primary org u (team_members db')"
    and "l = Removed org u \<Longrightarrow> m \<in> set (team_members db') \<Longrightarrow> \<not> (tm_user m = u \<and> tm_org m = org)"
proof -
  have K: "team_inv db' \<and> (l \<noteq> Removed org u \<longrightarrow> has_primary org u (team_members db) \<longrightarrow> has_primary org u (team_members db'))"
    if "keeps_primaries db db'" using that by (simp add: keeps_primaries_def)
  have "team_inv db' \<and> (l \<noteq> Removed org u \<longrightarrow> has_primary org u (team_members db) \<longrightarrow> has_primary org u (team_members db')) \<and>
    (l = Removed org u \<longrightarrow> (\<forall>m \<in> set (team_members db'). \<not> (tm_user m = u \<and> tm_org m = org)))"
    using assms(1)
  proof cases
    case team then show ?thesis using K team_step_keeps [OF _ I] by simp
  next
    case update_person then show ?thesis using K update_person_keeps_primaries [OF I] by simp
  next
    case (removed c v)
    then show ?thesis using removal_keeps [OF I removed(2)] by (auto simp: has_primary_def)
  next
    case kept then show ?thesis using refused_removal I by blast
  next
    case accepted then show ?thesis using K accept_keeps [OF I] by simp
  next
    case provisioned then show ?thesis using K enrol_default_keeps [OF I] by simp
  next
    case seeded then show ?thesis using K seed_keeps [OF I] by simp
  next
    case elsewhere then show ?thesis using K other_tables_keep [OF I] by simp
  qed
  then show "team_inv db'" and "l \<noteq> Removed org u \<Longrightarrow> has_primary org u (team_members db) \<Longrightarrow> has_primary org u (team_members db')"
    and "l = Removed org u \<Longrightarrow> m \<in> set (team_members db') \<Longrightarrow> \<not> (tm_user m = u \<and> tm_org m = org)" by blast+
qed

lemma org_run_keeps:
  assumes "org_run fresh db ls db'" and "team_inv db"
  shows "team_inv db' \<and> (Removed org u \<notin> set ls \<longrightarrow> has_primary org u (team_members db) \<longrightarrow> has_primary org u (team_members db'))"
  using assms
proof (induction)
  case (snoc db ls db1 l db2)
  then show ?case using org_step_keeps(1) [OF snoc.hyps(2)] org_step_keeps(2) [OF snoc.hyps(2), of org u] by auto
qed simp

lemma removal_last:
  assumes "org_run fresh db ls db'" and "team_inv db" and "ls = ls0 @ [Removed org u]"
  shows "filter (\<lambda>m. tm_user m = u \<and> tm_org m = org) (team_members db') = []"
  using assms(1)
proof cases
  case (snoc ls1 db1 l)
  then have "l = Removed org u" using assms(3) by simp
  moreover have "team_inv db1" using org_run_keeps [OF snoc(2) assms(2)] by blast
  ultimately show ?thesis using org_step_keeps(3) [OF snoc(3)] unfolding filter_empty_conv by blast
qed (use assms(3) in simp)

text \<open>A run of team requests alone is such a run, without a removal.\<close>

lemma team_requests_run:
  assumes "(team_step pg_team_store (pg_log fresh))\<^sup>*\<^sup>* db db'"
  shows "\<exists>ls. org_run fresh db ls db' \<and> set ls \<subseteq> {Other}"
  using assms
proof (induction)
  case base
  then show ?case using org_run.start by (intro exI [of _ "[]"]) simp
next
  case (step y z)
  then obtain ls where "org_run fresh db ls y" "set ls \<subseteq> {Other}" by blast
  then show ?case using org_run.snoc [OF _ org_step.team [OF step.hyps(2)]] by (intro exI [of _ "ls @ [Other]"]) simp
qed

text \<open>What can be primary at all: at most one row, in a live team of the organisation.\<close>

lemma primary_rows_cases:
  assumes I: "team_inv db"
  shows "filter (\<lambda>m. tm_user m = u \<and> tm_org m = org \<and> tm_primary m) (team_members db) = [] \<and>
      \<not> has_primary org u (team_members db) \<or>
    (\<exists>m. filter (\<lambda>m. tm_user m = u \<and> tm_org m = org \<and> tm_primary m) (team_members db) = [m] \<and>
      (\<exists>t \<in> set (live_teams db). t_id t = tm_team m \<and> t_org t = org))"
proof (cases "has_primary org u (team_members db)")
  case True
  then show ?thesis using primary_row [OF I True] by (intro disjI2)
next
  case False
  then show ?thesis by (intro disjI1) (auto simp: has_primary_def filter_empty_conv)
qed

section \<open>One primary team\<close>

text \<open>
  C31. A settled user always has one primary team. Take a state in which the teams form a forest and
  the memberships are well formed, a user with a primary team in an organisation, and any run of the
  team and people requests, of enrolments of new accounts, of default-team seedings and of whatever
  writes neither teams nor memberships. Unless the run removes that user from that organisation, they
  end with exactly one primary membership there, and it is in a live team of that organisation,
  whatever team they were taken out of and whichever team was deleted. After runs that do remove them
  they still have at most one, in a live team of the organisation; right after the removal they
  have no team there at all.
\<close>

theorem one_primary_always:
  assumes "team_inv db" and "has_primary org u (team_members db)" and "org_run fresh db ls db'"
  shows "((\<exists>m. filter (\<lambda>m. tm_user m = u \<and> tm_org m = org \<and> tm_primary m) (team_members db') = [m] \<and>
        (\<exists>t \<in> set (live_teams db'). t_id t = tm_team m \<and> t_org t = org)) \<or>
      Removed org u \<in> set ls \<and> filter (\<lambda>m. tm_user m = u \<and> tm_org m = org \<and> tm_primary m) (team_members db') = []) \<and>
    (\<forall>ls0. ls = ls0 @ [Removed org u] \<longrightarrow> filter (\<lambda>m. tm_user m = u \<and> tm_org m = org) (team_members db') = [])"
proof (intro conjI allI impI)
  show "(\<exists>m. filter (\<lambda>m. tm_user m = u \<and> tm_org m = org \<and> tm_primary m) (team_members db') = [m] \<and>
      (\<exists>t \<in> set (live_teams db'). t_id t = tm_team m \<and> t_org t = org)) \<or>
    Removed org u \<in> set ls \<and> filter (\<lambda>m. tm_user m = u \<and> tm_org m = org \<and> tm_primary m) (team_members db') = []"
    using primary_rows_cases [of db' u org] org_run_keeps [OF assms(3,1), of org u] assms(2) by blast
  fix ls0 assume l: "ls = ls0 @ [Removed org u]"
  show "filter (\<lambda>m. tm_user m = u \<and> tm_org m = org) (team_members db') = []"
    by (rule removal_last [OF assms(3,1) l])
qed

text \<open>Bo's primary team becomes the default team; then Bo is removed from the organisation.\<close>

definition demo_person_updated :: org_db where
  "demo_person_updated =
     snd (h_UpdatePerson pg_people_store (pg_log (\<lambda>k. 910 + of_nat k)) demo_team_ctx 11
       (Some \<lparr>up_OrgRole = None, up_PrimaryTeamID = Some 20, up_DisplayName = None\<rparr>) demo_db)"

definition demo_person_removed :: org_db where
  "demo_person_removed =
     snd (h_RemovePerson pg_people_store (pg_log (\<lambda>k. 910 + of_nat k)) demo_team_ctx 11 demo_person_updated)"

lemma demo_removal:
  "h_RemovePerson pg_people_store (pg_log (\<lambda>k. 910 + of_nat k)) demo_team_ctx 11 demo_person_updated =
     (Inr (), demo_person_removed)"
  unfolding demo_person_removed_def demo_person_updated_def by code_simp

theorem one_primary_always_witness:
  "length (filter (\<lambda>m. tm_user m = 11 \<and> tm_org m = 1 \<and> tm_primary m) (team_members demo_person_updated)) = 1 \<and>
   filter (\<lambda>m. tm_user m = 11 \<and> tm_org m = 1) (team_members demo_person_removed) = []"
proof -
  let ?fresh = "\<lambda>k. 910 + of_nat k :: uuid"
  have 1: "org_run ?fresh demo_db ([] @ [Other]) demo_person_updated"
    unfolding demo_person_updated_def by (rule org_run.snoc [OF org_run.start]) (rule org_step.update_person)
  have "org_step ?fresh (Removed (tc_OrgID demo_team_ctx) 11) demo_person_updated demo_person_removed"
    by (rule org_step.removed [OF demo_removal])
  then have "org_step ?fresh (Removed 1 11) demo_person_updated demo_person_removed" by (simp add: demo_team_ctx_def)
  note 2 = org_run.snoc [OF 1 this]
  have p: "has_primary 1 11 (team_members demo_db)" by (simp add: has_primary_def demo_db_def)
  from one_primary_always [OF demo_inv p 1] one_primary_always [OF demo_inv p 2] show ?thesis by auto
qed

end
