(* ===== verification/DocJson.thy ===== *)
theory DocJson
  imports GoStrings
begin

text \<open>
  JSON as \<^verbatim>\<open>encoding/json\<close> reads it for the document package
  \<^verbatim>\<open>internal/core/wiki/doc\<close>.

  A \<^verbatim>\<open>json.RawMessage\<close> is the concrete syntax tree of its bytes: every string body and number as
  written, every run of white space kept. \<open>render\<close> gives the bytes back, \<open>json_parse\<close> is the
  decoder's syntax check with its limit of 10000 nested values, and \<open>parse_render\<close> shows that
  a well-formed tree is what its bytes decode to, so two trees are equal exactly when their bytes are.
\<close>

datatype json =
    JLit string
  | JNum string
  | JStr string
  | JArr string "(string \<times> json \<times> string) list"
  | JObj string "(string \<times> string \<times> string \<times> string \<times> json \<times> string) list"

fun render :: "json \<Rightarrow> string"
  and render_elems :: "(string \<times> json \<times> string) list \<Rightarrow> string"
  and render_members :: "(string \<times> string \<times> string \<times> string \<times> json \<times> string) list \<Rightarrow> string" where
  "render (JLit s) = s"
| "render (JNum s) = s"
| "render (JStr b) = CHR 0x22 # b @ [CHR 0x22]"
| "render (JArr w xs) = CHR ''['' # w @ render_elems xs @ [CHR '']'']"
| "render (JObj w ms) = CHR ''{'' # w @ render_members ms @ [CHR ''}'']"
| "render_elems [] = []"
| "render_elems [(a, v, b)] = a @ render v @ b"
| "render_elems ((a, v, b) # x # xs) = a @ render v @ b @ CHR '','' # render_elems (x # xs)"
| "render_members [] = []"
| "render_members [(a, k, b, c, v, d)] = a @ CHR 0x22 # k @ CHR 0x22 # b @ CHR '':'' # c @ render v @ d"
| "render_members ((a, k, b, c, v, d) # m # ms) =
     a @ CHR 0x22 # k @ CHR 0x22 # b @ CHR '':'' # c @ render v @ d @ CHR '','' # render_members (m # ms)"

fun nest :: "json \<Rightarrow> nat"
  and nest_elems :: "(string \<times> json \<times> string) list \<Rightarrow> nat"
  and nest_members :: "(string \<times> string \<times> string \<times> string \<times> json \<times> string) list \<Rightarrow> nat" where
  "nest (JLit s) = 0"
| "nest (JNum s) = 0"
| "nest (JStr b) = 0"
| "nest (JArr w xs) = Suc (nest_elems xs)"
| "nest (JObj w ms) = Suc (nest_members ms)"
| "nest_elems [] = 0"
| "nest_elems ((a, v, b) # xs) = max (nest v) (nest_elems xs)"
| "nest_members [] = 0"
| "nest_members ((a, k, b, c, v, d) # ms) = max (nest v) (nest_members ms)"

section \<open>Tokens\<close>

definition is_ws :: "char \<Rightarrow> bool" where
  "is_ws c \<longleftrightarrow> c = CHR '' '' \<or> c = CHR 0x09 \<or> c = CHR 0x0A \<or> c = CHR 0x0D"

definition is_digit :: "char \<Rightarrow> bool" where
  "is_digit c \<longleftrightarrow> 48 \<le> (of_char c :: nat) \<and> (of_char c :: nat) \<le> 57"

definition is_hex :: "char \<Rightarrow> bool" where
  "is_hex c \<longleftrightarrow> is_digit c \<or> 97 \<le> (of_char c :: nat) \<and> (of_char c :: nat) \<le> 102 \<or>
     65 \<le> (of_char c :: nat) \<and> (of_char c :: nat) \<le> 70"

definition is_escape :: "char \<Rightarrow> bool" where
  "is_escape e \<longleftrightarrow>
     List.member [CHR 0x22, CHR 0x5C, CHR ''/'', CHR ''b'', CHR ''f'', CHR ''n'', CHR ''r'', CHR ''t''] e"

text \<open>The body of a string up to its closing quote; what follows an opening quote.\<close>

fun p_str :: "string \<Rightarrow> (string \<times> string) option" where
  "p_str [] = None"
| "p_str (c # s) =
     (if c = CHR 0x22 then Some ([], s)
      else if c = CHR 0x5C then
        (case s of
           e # r \<Rightarrow>
             if is_escape e
             then map_option (\<lambda>(b, q). (c # e # b, q)) (p_str r)
             else if e = CHR ''u'' \<and> 4 \<le> length r \<and> list_all is_hex (take 4 r)
             then map_option (\<lambda>(b, q). (c # e # take 4 r @ b, q)) (p_str (drop 4 r))
             else None
         | [] \<Rightarrow> None)
      else if (of_char c :: nat) < 0x20 then None
      else map_option (\<lambda>(b, q). (c # b, q)) (p_str s))"

definition p_digits :: "string \<Rightarrow> (string \<times> string) option" where
  "p_digits s = (if takeWhile is_digit s = [] then None else Some (takeWhile is_digit s, dropWhile is_digit s))"

definition p_int :: "string \<Rightarrow> (string \<times> string) option" where
  "p_int s =
     (case s of
        [] \<Rightarrow> None
      | c # r \<Rightarrow> if c = CHR ''0'' then Some ([c], r) else p_digits s)"

definition p_frac :: "string \<Rightarrow> (string \<times> string) option" where
  "p_frac s =
     (case s of
        [] \<Rightarrow> Some ([], [])
      | c # r \<Rightarrow> if c = CHR ''.'' then map_option (\<lambda>(d, q). (c # d, q)) (p_digits r) else Some ([], s))"

definition p_exp :: "string \<Rightarrow> (string \<times> string) option" where
  "p_exp s =
     (case s of
        [] \<Rightarrow> Some ([], [])
      | c # r \<Rightarrow>
          if c = CHR ''e'' \<or> c = CHR ''E'' then
            (case r of
               g # r' \<Rightarrow>
                 if g = CHR ''+'' \<or> g = CHR ''-'' then map_option (\<lambda>(d, q). (c # g # d, q)) (p_digits r')
                 else map_option (\<lambda>(d, q). (c # d, q)) (p_digits r)
             | [] \<Rightarrow> None)
          else Some ([], s))"

definition p_num :: "string \<Rightarrow> (string \<times> string) option" where
  "p_num s =
     (let (sg, s0) = (case s of c # r \<Rightarrow> if c = CHR ''-'' then ([c], r) else ([], s) | [] \<Rightarrow> ([], s)) in
      case p_int s0 of
        None \<Rightarrow> None
      | Some (i, s1) \<Rightarrow>
          (case p_frac s1 of
             None \<Rightarrow> None
           | Some (f, s2) \<Rightarrow>
               (case p_exp s2 of None \<Rightarrow> None | Some (x, s3) \<Rightarrow> Some (sg @ i @ f @ x, s3))))"

definition literals :: "string list" where
  "literals = [''null'', ''true'', ''false'']"

section \<open>Values\<close>

fun p_val :: "nat \<Rightarrow> string \<Rightarrow> (json \<times> string) option"
  and p_elems :: "nat \<Rightarrow> string \<Rightarrow> ((string \<times> json \<times> string) list \<times> string) option"
  and p_members ::
    "nat \<Rightarrow> string \<Rightarrow> ((string \<times> string \<times> string \<times> string \<times> json \<times> string) list \<times> string) option" where
  "p_val 0 s = None"
| "p_val (Suc n) s =
     (case s of
        [] \<Rightarrow> None
      | c # r \<Rightarrow>
          if c = CHR 0x22 then map_option (\<lambda>(b, q). (JStr b, q)) (p_str r)
          else if c = CHR ''['' then
            (case dropWhile is_ws r of
               [] \<Rightarrow> None
             | e # q \<Rightarrow>
                 if e = CHR '']'' then Some (JArr (takeWhile is_ws r) [], q)
                 else map_option (\<lambda>(xs, q'). (JArr [] xs, q')) (p_elems n r))
          else if c = CHR ''{'' then
            (case dropWhile is_ws r of
               [] \<Rightarrow> None
             | e # q \<Rightarrow>
                 if e = CHR ''}'' then Some (JObj (takeWhile is_ws r) [], q)
                 else map_option (\<lambda>(ms, q'). (JObj [] ms, q')) (p_members n r))
          else
            (case List.find (HasPrefix s) literals of
               Some l \<Rightarrow> Some (JLit l, drop (length l) s)
             | None \<Rightarrow> map_option (\<lambda>(d, q). (JNum d, q)) (p_num s)))"
| "p_elems 0 s = None"
| "p_elems (Suc n) s =
     (case p_val n (dropWhile is_ws s) of
        None \<Rightarrow> None
      | Some (v, s1) \<Rightarrow>
          (case dropWhile is_ws s1 of
             [] \<Rightarrow> None
           | c # s2 \<Rightarrow>
               if c = CHR '','' then
                 map_option (\<lambda>(xs, q). ((takeWhile is_ws s, v, takeWhile is_ws s1) # xs, q)) (p_elems n s2)
               else if c = CHR '']'' then Some ([(takeWhile is_ws s, v, takeWhile is_ws s1)], s2)
               else None))"
| "p_members 0 s = None"
| "p_members (Suc n) s =
     (case dropWhile is_ws s of
        [] \<Rightarrow> None
      | c # s0 \<Rightarrow>
          if c \<noteq> CHR 0x22 then None
          else
            (case p_str s0 of
               None \<Rightarrow> None
             | Some (k, s1) \<Rightarrow>
                 (case dropWhile is_ws s1 of
                    [] \<Rightarrow> None
                  | e # s2 \<Rightarrow>
                      if e \<noteq> CHR '':'' then None
                      else
                        (case p_val n (dropWhile is_ws s2) of
                           None \<Rightarrow> None
                         | Some (v, s3) \<Rightarrow>
                             (case dropWhile is_ws s3 of
                                [] \<Rightarrow> None
                              | f # s4 \<Rightarrow>
                                  let m = (takeWhile is_ws s, k, takeWhile is_ws s1, takeWhile is_ws s2, v, takeWhile is_ws s3)
                                  in if f = CHR '','' then map_option (\<lambda>(ms, q). (m # ms, q)) (p_members n s4)
                                     else if f = CHR ''}'' then Some ([m], s4)
                                     else None)))))"

definition maxNestingDepth :: nat where "maxNestingDepth = 10000"

definition json_parse :: "string \<Rightarrow> json option" where
  "json_parse s =
     (case p_val (2 * length s + 2) (dropWhile is_ws s) of
        None \<Rightarrow> None
      | Some (v, r) \<Rightarrow> if list_all is_ws r \<and> nest v \<le> maxNestingDepth then Some v else None)"


section \<open>Rendering is undone by parsing\<close>

fun wf_json :: "json \<Rightarrow> bool"
  and wf_elems :: "(string \<times> json \<times> string) list \<Rightarrow> bool"
  and wf_members :: "(string \<times> string \<times> string \<times> string \<times> json \<times> string) list \<Rightarrow> bool" where
  "wf_json (JLit s) \<longleftrightarrow> s \<in> set literals"
| "wf_json (JNum s) \<longleftrightarrow> p_num s = Some (s, [])"
| "wf_json (JStr b) \<longleftrightarrow> p_str (b @ [CHR 0x22]) = Some (b, [])"
| "wf_json (JArr w xs) \<longleftrightarrow> list_all is_ws w \<and> (xs = [] \<or> w = []) \<and> wf_elems xs"
| "wf_json (JObj w ms) \<longleftrightarrow> list_all is_ws w \<and> (ms = [] \<or> w = []) \<and> wf_members ms"
| "wf_elems [] \<longleftrightarrow> True"
| "wf_elems ((a, v, b) # xs) \<longleftrightarrow> list_all is_ws a \<and> wf_json v \<and> list_all is_ws b \<and> wf_elems xs"
| "wf_members [] \<longleftrightarrow> True"
| "wf_members ((a, k, b, c, v, d) # ms) \<longleftrightarrow>
     list_all is_ws a \<and> p_str (k @ [CHR 0x22]) = Some (k, []) \<and> list_all is_ws b \<and> list_all is_ws c \<and>
     wf_json v \<and> list_all is_ws d \<and> wf_members ms"

lemma p_str_append: "p_str s = Some (b, r) \<Longrightarrow> p_str (s @ t) = Some (b, r @ t)"
proof (induction s arbitrary: b r rule: p_str.induct)
  case (2 c s)
  then show ?case by (auto split: if_splits list.splits)
qed simp

lemma p_str_body: "p_str (b @ [CHR 0x22]) = Some (b, []) \<Longrightarrow> p_str (b @ CHR 0x22 # rest) = Some (b, rest)"
  using p_str_append [of "b @ [CHR 0x22]" b "[]" rest] by simp

definition num_end :: "string \<Rightarrow> bool" where
  "num_end t \<longleftrightarrow>
     (case t of [] \<Rightarrow> True | c # _ \<Rightarrow> \<not> is_digit c \<and> c \<noteq> CHR ''.'' \<and> c \<noteq> CHR ''e'' \<and> c \<noteq> CHR ''E'')"

lemma num_end_simps [simp]:
  "num_end []" "num_end (c # t) \<longleftrightarrow> \<not> is_digit c \<and> c \<noteq> CHR ''.'' \<and> c \<noteq> CHR ''e'' \<and> c \<noteq> CHR ''E''"
  by (simp_all add: num_end_def)

lemma p_digits_append:
  assumes "p_digits s = Some (d, r)" and "r \<noteq> [] \<or> num_end t"
  shows "p_digits (s @ t) = Some (d, r @ t)"
proof -
  have s: "takeWhile is_digit s = d" "dropWhile is_digit s = r" "d \<noteq> []"
    using assms(1) by (auto simp: p_digits_def split: if_splits)
  have "takeWhile is_digit (s @ t) = d \<and> dropWhile is_digit (s @ t) = r @ t"
  proof (cases "\<forall>x \<in> set s. is_digit x")
    case True
    then have "r = []" "d = s" using s by auto
    moreover have "takeWhile is_digit t = []" "dropWhile is_digit t = t"
      using assms(2) \<open>r = []\<close> by (cases t; simp)+
    ultimately show ?thesis using True by (simp add: takeWhile_append2 dropWhile_append2)
  next
    case False
    then show ?thesis using s by (metis takeWhile_append1 dropWhile_append1)
  qed
  then show ?thesis using s(3) by (simp add: p_digits_def)
qed

lemma p_int_append: "p_int s = Some (d, r) \<Longrightarrow> r \<noteq> [] \<or> num_end t \<Longrightarrow> p_int (s @ t) = Some (d, r @ t)"
  using p_digits_append [of s d r t] by (auto simp: p_int_def split: list.splits if_splits)

lemma p_frac_append: "p_frac s = Some (d, r) \<Longrightarrow> r \<noteq> [] \<or> num_end t \<Longrightarrow> p_frac (s @ t) = Some (d, r @ t)"
  by (cases s; cases t) (auto simp: p_frac_def p_digits_append split: list.splits if_splits)

lemma p_exp_append: "p_exp s = Some (d, r) \<Longrightarrow> r \<noteq> [] \<or> num_end t \<Longrightarrow> p_exp (s @ t) = Some (d, r @ t)"
proof (cases s)
  case Nil
  moreover assume "p_exp s = Some (d, r)" "r \<noteq> [] \<or> num_end t"
  ultimately show ?thesis by (auto simp: p_exp_def split: list.splits)
next
  case (Cons c s')
  moreover assume "p_exp s = Some (d, r)" "r \<noteq> [] \<or> num_end t"
  ultimately show ?thesis
    using p_digits_append by (auto simp: p_exp_def split: list.splits if_splits) (metis append_Cons)+
qed

lemma p_num_append:
  assumes "p_num n = Some (n, [])" and "num_end t" shows "p_num (n @ t) = Some (n, t)"
proof -
  let ?sp = "\<lambda>s. case s of c # r \<Rightarrow> if c = CHR ''-'' then ([c], r) else ([], s) | [] \<Rightarrow> ([], s)"
  obtain sg s0 where sp: "?sp n = (sg, s0)" by (cases "?sp n")
  from assms(1) obtain i s1 f s2 x s3 where
    p: "p_int s0 = Some (i, s1)" "p_frac s1 = Some (f, s2)" "p_exp s2 = Some (x, [])" "n = sg @ i @ f @ x"
    unfolding p_num_def sp by (auto split: option.splits)
  have "s0 \<noteq> []" using p(1) by (auto simp: p_int_def)
  then have sp': "?sp (n @ t) = (sg, s0 @ t)" using sp by (cases n) (auto split: if_splits)
  have e: "p_exp (s2 @ t) = Some (x, t)" using p_exp_append [OF p(3)] assms(2) by simp
  have "s2 \<noteq> [] \<or> num_end t" "s1 \<noteq> [] \<or> num_end t" using assms(2) by simp_all
  then have "p_frac (s1 @ t) = Some (f, s2 @ t)" "p_int (s0 @ t) = Some (i, s1 @ t)"
    using p_frac_append [OF p(2)] p_int_append [OF p(1)] by simp_all
  then show ?thesis unfolding p_num_def sp' using e p(4) by simp
qed

lemma p_num_hd: "p_num (c # s) = Some r \<Longrightarrow> is_digit c \<or> c = CHR ''-''"
  by (auto simp: p_num_def p_int_def p_digits_def is_digit_def split: option.splits if_splits)

definition value_start :: "char \<Rightarrow> bool" where
  "value_start c \<longleftrightarrow> \<not> is_ws c \<and> c \<noteq> CHR '']'' \<and> c \<noteq> CHR ''}''"

lemma value_start_digit: "is_digit c \<or> c = CHR ''-'' \<Longrightarrow> value_start c"
  by (auto simp: value_start_def is_ws_def is_digit_def)

lemma render_hd: "wf_json v \<Longrightarrow> \<exists>c s. render v = c # s \<and> value_start c"
proof (cases v)
  case (JNum s)
  moreover assume "wf_json v"
  ultimately show ?thesis using p_num_hd value_start_digit
    by (cases s) (auto simp: p_num_def p_int_def)
next
  case (JLit s)
  moreover assume "wf_json v"
  ultimately show ?thesis by (auto simp: literals_def value_start_def is_ws_def)
qed (auto simp: value_start_def is_ws_def)

lemma ws_split:
  assumes "list_all is_ws w" and "\<not> is_ws c"
  shows "takeWhile is_ws (w @ c # s) = w" and "dropWhile is_ws (w @ c # s) = c # s"
  using assms by (induction w) auto

lemma ws_split_value:
  assumes "list_all is_ws w" and "wf_json v"
  shows "takeWhile is_ws (w @ render v @ s) = w" and "dropWhile is_ws (w @ render v @ s) = render v @ s"
  using render_hd [OF assms(2)] ws_split [OF assms(1)] by (auto simp: value_start_def)

lemma num_end_ws: "list_all is_ws w \<Longrightarrow> \<not> is_digit c \<Longrightarrow> c \<notin> {CHR ''.'', CHR ''e'', CHR ''E''} \<Longrightarrow> num_end (w @ c # s)"
  by (cases w) (auto simp: is_ws_def is_digit_def)


lemma p_val_token:
  "p_val (Suc n) (CHR 0x22 # r) = map_option (\<lambda>(b, q). (JStr b, q)) (p_str r)"
  by simp

lemma p_val_literal: "l \<in> set literals \<Longrightarrow> p_val (Suc n) (l @ rest) = Some (JLit l, rest)"
  by (auto simp: literals_def HasPrefix_def)

lemma p_val_number:
  assumes "p_num s = Some (s, [])" and "num_end rest"
  shows "p_val (Suc n) (s @ rest) = Some (JNum s, rest)"
proof -
  obtain c s' where s: "s = c # s'" using assms(1) by (cases s) (auto simp: p_num_def p_int_def)
  then have c: "is_digit c \<or> c = CHR ''-''" using assms(1) p_num_hd by blast
  then have "List.find (HasPrefix (s @ rest)) literals = None"
    by (auto simp: s literals_def HasPrefix_def is_digit_def)
  then show ?thesis
    using c p_num_append [OF assms] by (auto simp: s is_digit_def)
qed

lemma render_pos: "wf_json v \<Longrightarrow> 1 \<le> length (render v)"
  using render_hd [of v] by auto

lemma parse_render_aux:
  "wf_json v \<Longrightarrow> num_end rest \<Longrightarrow> 2 * length (render v) \<le> n \<Longrightarrow> p_val n (render v @ rest) = Some (v, rest)"
  "wf_elems xs \<Longrightarrow> xs \<noteq> [] \<Longrightarrow> 2 * length (render_elems xs) + 1 \<le> n \<Longrightarrow>
     p_elems n (render_elems xs @ CHR '']'' # rest) = Some (xs, rest)"
  "wf_members ms \<Longrightarrow> ms \<noteq> [] \<Longrightarrow> 2 * length (render_members ms) + 1 \<le> n \<Longrightarrow>
     p_members n (render_members ms @ CHR ''}'' # rest) = Some (ms, rest)"
proof (induction v and xs and ms arbitrary: n rest and n rest and n rest rule: render_render_elems_render_members.induct)
  case (1 s)
  then obtain m where "n = Suc m" by (cases n) (auto simp: literals_def)
  with 1 show ?case by (simp only: render.simps p_val_literal wf_json.simps)
next
  case (2 s)
  then obtain m where "n = Suc m" using render_pos [of "JNum s"] by (cases n) auto
  with 2 show ?case by (simp only: render.simps p_val_number wf_json.simps)
next
  case (3 b)
  then obtain m where "n = Suc m" by (cases n) auto
  with 3 show ?case using p_str_body [of b rest] by simp
next
  case (4 w xs)
  then obtain m where n: "n = Suc m" by (cases n) auto
  show ?case
  proof (cases xs)
    case Nil
    then show ?thesis using 4 ws_split [of w "CHR '']''" rest] by (simp add: n is_ws_def)
  next
    case (Cons y ys)
    obtain a v b where y: "y = (a, v, b)" by (cases y)
    have w: "w = []" using 4(2) Cons by simp
    have a: "list_all is_ws a" "wf_json v" using 4(2) by (simp_all add: Cons y)
    from 4 w n have "p_elems m (render_elems xs @ CHR '']'' # rest) = Some (xs, rest)"
      by (intro 4(1)) (auto simp: Cons)
    moreover obtain c s where "dropWhile is_ws (render_elems xs @ CHR '']'' # rest) = c # s" "c \<noteq> CHR '']''"
    proof -
      obtain s where "render_elems xs = a @ render v @ s" by (cases ys) (auto simp: Cons y)
      then have "dropWhile is_ws (render_elems xs @ CHR '']'' # rest) = render v @ s @ CHR '']'' # rest"
        using ws_split_value(2) [OF a, of "s @ CHR '']'' # rest"] by simp
      then show thesis using that render_hd [OF a(2)] by (auto simp: value_start_def)
    qed
    ultimately show ?thesis by (simp add: n w)
  qed
next
  case (5 w ms)
  then obtain m where n: "n = Suc m" by (cases n) auto
  show ?case
  proof (cases ms)
    case Nil
    then show ?thesis using 5 ws_split [of w "CHR ''}''" rest] by (simp add: n is_ws_def)
  next
    case (Cons y ys)
    obtain a k b c v d where y: "y = (a, k, b, c, v, d)" by (cases y)
    have w: "w = []" using 5(2) Cons by simp
    have a: "list_all is_ws a" using 5(2) by (simp add: Cons y)
    from 5 w n have "p_members m (render_members ms @ CHR ''}'' # rest) = Some (ms, rest)"
      by (intro 5(1)) (auto simp: Cons)
    moreover obtain s where "dropWhile is_ws (render_members ms @ CHR ''}'' # rest) = CHR 0x22 # s"
    proof -
      obtain s where "render_members ms = a @ CHR 0x22 # s" by (cases ys) (auto simp: Cons y)
      then have "dropWhile is_ws (render_members ms @ CHR ''}'' # rest) = CHR 0x22 # s @ CHR ''}'' # rest"
        using ws_split(2) [OF a, of "CHR 0x22" "s @ CHR ''}'' # rest"] by (simp add: is_ws_def)
      then show thesis by (rule that)
    qed
    ultimately show ?thesis by (simp add: n w)
  qed
next
  case 6
  then show ?case by simp
next
  case (7 a v b)
  then obtain m where n: "n = Suc m" by (cases n) auto
  have "p_val m (render v @ b @ CHR '']'' # rest) = Some (v, b @ CHR '']'' # rest)"
    using 7 n by (intro 7(1)) (auto intro!: num_end_ws simp: is_digit_def)
  moreover have "list_all is_ws a" "wf_json v" "list_all is_ws b" using 7 by simp_all
  ultimately show ?case
    using ws_split_value [of a v "b @ CHR '']'' # rest"] ws_split [of b "CHR '']''" rest]
    by (simp add: n is_ws_def)
next
  case (8 a v b x xs)
  then obtain m where n: "n = Suc m" by (cases n) auto
  have "p_val m (render v @ b @ CHR '','' # render_elems (x # xs) @ CHR '']'' # rest)
      = Some (v, b @ CHR '','' # render_elems (x # xs) @ CHR '']'' # rest)"
    using 8(3-5) n by (intro 8(1)) (auto intro!: num_end_ws simp: is_digit_def)
  moreover have "p_elems m (render_elems (x # xs) @ CHR '']'' # rest) = Some (x # xs, rest)"
    using 8(3-5) n by (intro 8(2)) auto
  moreover have "list_all is_ws a" "wf_json v" "list_all is_ws b" using 8 by simp_all
  ultimately show ?case
    using ws_split_value [of a v "b @ CHR '','' # render_elems (x # xs) @ CHR '']'' # rest"]
      ws_split [of b "CHR '',''" "render_elems (x # xs) @ CHR '']'' # rest"]
    by (simp add: n is_ws_def)
next
  case 9
  then show ?case by simp
next
  case (10 a k b c v d)
  then obtain m where n: "n = Suc m" by (cases n) auto
  let ?t = "CHR ''}'' # rest"
  have "p_val m (render v @ d @ ?t) = Some (v, d @ ?t)"
    using 10 n by (intro 10(1)) (auto intro!: num_end_ws simp: is_digit_def)
  moreover have w: "list_all is_ws a" "list_all is_ws b" "list_all is_ws c" "wf_json v" "list_all is_ws d"
    and k: "p_str (k @ [CHR 0x22]) = Some (k, [])" using 10 by simp_all
  ultimately show ?case
    using ws_split [OF w(1), of "CHR 0x22" "k @ CHR 0x22 # b @ CHR '':'' # c @ render v @ d @ ?t"]
      p_str_body [OF k, of "b @ CHR '':'' # c @ render v @ d @ ?t"]
      ws_split [OF w(2), of "CHR '':''" "c @ render v @ d @ ?t"]
      ws_split_value [OF w(3,4), of "d @ ?t"] ws_split [OF w(5), of "CHR ''}''" rest]
    by (simp add: n is_ws_def)
next
  case (11 a k b c v d x xs)
  then obtain m where n: "n = Suc m" by (cases n) auto
  let ?t = "CHR '','' # render_members (x # xs) @ CHR ''}'' # rest"
  have "p_val m (render v @ d @ ?t) = Some (v, d @ ?t)"
    using 11(3-5) n by (intro 11(1)) (auto intro!: num_end_ws simp: is_digit_def)
  moreover have "p_members m (render_members (x # xs) @ CHR ''}'' # rest) = Some (x # xs, rest)"
    using 11(3-5) n by (intro 11(2)) auto
  moreover have w: "list_all is_ws a" "list_all is_ws b" "list_all is_ws c" "wf_json v" "list_all is_ws d"
    and k: "p_str (k @ [CHR 0x22]) = Some (k, [])" using 11(3) by simp_all
  ultimately show ?case
    using ws_split [OF w(1), of "CHR 0x22" "k @ CHR 0x22 # b @ CHR '':'' # c @ render v @ d @ ?t"]
      p_str_body [OF k, of "b @ CHR '':'' # c @ render v @ d @ ?t"]
      ws_split [OF w(2), of "CHR '':''" "c @ render v @ d @ ?t"]
      ws_split_value [OF w(3,4), of "d @ ?t"] ws_split [OF w(5), of "CHR '',''" "render_members (x # xs) @ CHR ''}'' # rest"]
    by (simp add: n is_ws_def)
qed

text \<open>A well-formed tree within the nesting limit is what its bytes decode to.\<close>

lemma parse_render:
  assumes "wf_json v" and "nest v \<le> maxNestingDepth" shows "json_parse (render v) = Some v"
proof -
  have "dropWhile is_ws (render v) = render v"
    using ws_split_value(2) [of "[]" v "[]"] assms(1) by simp
  moreover have "p_val (2 * length (render v) + 2) (render v) = Some (v, [])"
    using parse_render_aux(1) [OF assms(1), of "[]" "2 * length (render v) + 2"] by simp
  ultimately show ?thesis using assms(2) by (simp add: json_parse_def)
qed

lemma render_inject:
  assumes "wf_json v" "wf_json w" shows "render v = render w \<longleftrightarrow> v = w"
proof
  assume e: "render v = render w"
  let ?n = "2 * length (render v)"
  have "p_val ?n (render v @ []) = Some (v, [])" "p_val ?n (render w @ []) = Some (w, [])"
    using parse_render_aux(1) [OF assms(1), of "[]" ?n] parse_render_aux(1) [OF assms(2), of "[]" ?n] e by simp_all
  then show "v = w" using e by simp
qed simp


section \<open>Parsing yields well-formed trees of the input\<close>

lemma p_str_sound: "p_str s = Some (b, r) \<Longrightarrow> s = b @ CHR 0x22 # r \<and> p_str (b @ [CHR 0x22]) = Some (b, [])"
proof (induction s arbitrary: b r rule: p_str.induct)
  case (2 c s)
  show ?case
  proof (cases "c = CHR 0x5C")
    case False
    then show ?thesis using 2 by (auto split: if_splits)
  next
    case esc: True
    then obtain e q where s: "s = e # q" using 2(4) by (cases s) auto
    show ?thesis
    proof (cases "is_escape e")
      case True
      then obtain b' where "p_str q = Some (b', r)" "b = c # e # b'" using 2(4) esc s by auto
      then show ?thesis using 2(1) [OF _ esc s True] esc s True by auto
    next
      case False
      then have u: "e = CHR ''u'' \<and> 4 \<le> length q \<and> list_all is_hex (take 4 q)"
        using 2(4) esc s by (auto split: if_splits)
      then obtain b' where b: "p_str (drop 4 q) = Some (b', r)" "b = c # e # take 4 q @ b'" using 2(4) esc s False by auto
      have i: "drop 4 q = b' @ CHR 0x22 # r \<and> p_str (b' @ [CHR 0x22]) = Some (b', [])"
        using 2(2) [OF _ esc s False u b(1)] esc by simp
      then have "q = take 4 q @ b' @ CHR 0x22 # r" by (metis append_take_drop_id)
      moreover have "length (take 4 q) = 4" using u by simp
      ultimately show ?thesis using esc s False u b(2) i by simp
    qed
  qed
qed simp

lemma p_digits_sound:
  assumes "p_digits s = Some (d, r)" shows "s = d @ r \<and> p_digits d = Some (d, []) \<and> (r = [] \<or> \<not> is_digit (hd r))"
proof -
  have s: "d = takeWhile is_digit s" "r = dropWhile is_digit s" "d \<noteq> []"
    using assms by (auto simp: p_digits_def split: if_splits)
  then have "takeWhile is_digit d = d" "dropWhile is_digit d = []"
    by (auto dest: set_takeWhileD)
  then show ?thesis using s hd_dropWhile [of is_digit s] by (auto simp: p_digits_def)
qed

lemma p_digits_then:
  assumes "p_digits d = Some (d, [])" and "t = [] \<or> \<not> is_digit (hd t)"
  shows "p_digits (d @ t) = Some (d, t)"
proof -
  have "takeWhile is_digit d = d" "d \<noteq> []" using assms(1) by (auto simp: p_digits_def split: if_splits)
  then have "\<forall>x \<in> set d. is_digit x" by (metis set_takeWhileD)
  moreover have "takeWhile is_digit t = [] \<and> dropWhile is_digit t = t" using assms(2) by (cases t) auto
  ultimately show ?thesis using \<open>d \<noteq> []\<close> by (simp add: p_digits_def takeWhile_append2 dropWhile_append2)
qed

lemma p_digits_hd: "p_digits s = Some (d, r) \<Longrightarrow> d \<noteq> [] \<and> is_digit (hd d) \<and> hd d = hd s"
  by (cases s) (auto simp: p_digits_def split: if_splits)

lemma p_int_sound: "p_int s = Some (i, r) \<Longrightarrow> s = i @ r \<and> p_int i = Some (i, []) \<and> i \<noteq> []"
proof (cases s)
  case (Cons c t)
  moreover assume "p_int s = Some (i, r)"
  ultimately show ?thesis
  proof (cases "c = CHR ''0''")
    case False
    then have d: "p_digits s = Some (i, r)" using Cons \<open>p_int s = Some (i, r)\<close> by (simp add: p_int_def)
    note p_digits_sound [OF d] p_digits_hd [OF d]
    then show ?thesis using False Cons by (cases i) (auto simp: p_int_def)
  qed (auto simp: p_int_def)
qed (simp add: p_int_def)

lemma p_frac_sound:
  "p_frac s = Some (f, r) \<Longrightarrow> s = f @ r \<and> p_frac f = Some (f, []) \<and> (f = [] \<or> hd f = CHR ''.'')"
proof (cases s)
  case (Cons c t)
  moreover assume "p_frac s = Some (f, r)"
  ultimately show ?thesis
  proof (cases "c = CHR ''.''")
    case True
    then obtain d where d: "p_digits t = Some (d, r)" "f = c # d" using Cons \<open>p_frac s = Some (f, r)\<close> by (auto simp: p_frac_def)
    note p_digits_sound [OF d(1)]
    then show ?thesis using True Cons d(2) by (simp add: p_frac_def)
  qed (auto simp: p_frac_def)
qed (simp add: p_frac_def)

lemma p_exp_sound:
  assumes "p_exp s = Some (x, r)"
  shows "s = x @ r \<and> p_exp x = Some (x, []) \<and> (x = [] \<or> hd x = CHR ''e'' \<or> hd x = CHR ''E'')"
proof (cases s)
  case (Cons c t)
  show ?thesis
  proof (cases "c = CHR ''e'' \<or> c = CHR ''E''")
    case True
    then obtain g t' where t: "t = g # t'" using assms Cons by (cases t) (auto simp: p_exp_def)
    show ?thesis
    proof (cases "g = CHR ''+'' \<or> g = CHR ''-''")
      case True
      then obtain d where d: "p_digits t' = Some (d, r)" "x = c # g # d"
        using assms Cons t \<open>c = _ \<or> _\<close> by (auto simp: p_exp_def)
      then show ?thesis using p_digits_sound [OF d(1)] Cons t True \<open>c = _ \<or> _\<close> by (auto simp: p_exp_def)
    next
      case False
      then obtain d where d: "p_digits t = Some (d, r)" "x = c # d"
        using assms Cons t \<open>c = _ \<or> _\<close> by (auto simp: p_exp_def)
      moreover obtain g' d' where "d = g' # d'" "is_digit g'" using p_digits_hd [OF d(1)] by (cases d) auto
      ultimately show ?thesis using p_digits_sound [OF d(1)] Cons \<open>c = _ \<or> _\<close>
        by (auto simp: p_exp_def is_digit_def)
    qed
  qed (use assms Cons in \<open>auto simp: p_exp_def\<close>)
qed (use assms in \<open>auto simp: p_exp_def\<close>)

lemma p_num_sound:
  assumes "p_num s = Some (n, r)" shows "s = n @ r \<and> p_num n = Some (n, [])"
proof -
  let ?sp = "\<lambda>s. case s of c # r \<Rightarrow> if c = CHR ''-'' then ([c], r) else ([], s) | [] \<Rightarrow> ([], s)"
  obtain sg s0 where sp: "?sp s = (sg, s0)" by (cases "?sp s")
  from assms obtain i s1 f s2 x where
    p: "p_int s0 = Some (i, s1)" "p_frac s1 = Some (f, s2)" "p_exp s2 = Some (x, r)" "n = sg @ i @ f @ x"
    unfolding p_num_def sp by (auto split: option.splits)
  have i: "s0 = i @ s1 \<and> p_int i = Some (i, []) \<and> i \<noteq> []"
    by (rule p_int_sound [OF p(1)])
  have f: "s1 = f @ s2 \<and> p_frac f = Some (f, []) \<and> (f = [] \<or> hd f = CHR ''.'')"
    by (rule p_frac_sound [OF p(2)])
  have x: "s2 = x @ r \<and> p_exp x = Some (x, []) \<and> (x = [] \<or> hd x = CHR ''e'' \<or> hd x = CHR ''E'')"
    by (rule p_exp_sound [OF p(3)])
  have xe: "x = [] \<or> \<not> is_digit (hd x)" using x by (auto simp: is_digit_def)
  have fxe: "f @ x = [] \<or> \<not> is_digit (hd (f @ x))" using f xe by (cases f) (auto simp: is_digit_def)
  have "s = sg @ s0" using sp by (cases s) (auto split: if_splits)
  then have s: "s = n @ r" using p(4) i f x by simp
  have "?sp n = (sg, i @ f @ x)"
    using sp i p(4) by (cases s; cases i) (auto split: if_splits)
  moreover have "p_int (i @ f @ x) = Some (i, f @ x)"
    using i p_digits_then [OF _ fxe, of i] by (cases i) (auto simp: p_int_def split: if_splits)
  moreover have "p_frac (f @ x) = Some (f, x)"
  proof (cases f)
    case Nil
    then show ?thesis using x by (cases x) (auto simp: p_frac_def)
  next
    case (Cons c d)
    then have "c = CHR ''.'' \<and> p_digits d = Some (d, [])" using f by (auto simp: p_frac_def split: if_splits)
    then show ?thesis using p_digits_then [OF _ xe, of d] Cons by (simp add: p_frac_def)
  qed
  ultimately have "p_num n = Some (n, [])" unfolding p_num_def using x p(4) by simp
  with s show ?thesis by simp
qed

lemma ws_takeWhile: "list_all is_ws (takeWhile is_ws s)"
  by (auto simp: list_all_iff dest: set_takeWhileD)

lemma ws_parts: "dropWhile is_ws s = t \<Longrightarrow> s = takeWhile is_ws s @ t"
  by (metis takeWhile_dropWhile_id)

lemma parse_sound:
  "p_val n s = Some (v, r) \<Longrightarrow> wf_json v \<and> s = render v @ r"
  "p_elems n s = Some (xs, r) \<Longrightarrow> wf_elems xs \<and> xs \<noteq> [] \<and> s = render_elems xs @ CHR '']'' # r"
  "p_members n s = Some (ms, r) \<Longrightarrow> wf_members ms \<and> ms \<noteq> [] \<and> s = render_members ms @ CHR ''}'' # r"
proof (induction n s and n s and n s arbitrary: v r and xs r and ms r rule: p_val_p_elems_p_members.induct)
  case (2 n s)
  then obtain c t where s: "s = c # t" by (cases s) auto
  note P = 2(3) [unfolded s]
  consider (str) "c = CHR 0x22" | (arr) "c = CHR ''[''" | (obj) "c = CHR ''{''"
    | (other) "c \<noteq> CHR 0x22" "c \<noteq> CHR ''[''" "c \<noteq> CHR ''{''" by blast
  then show ?case
  proof cases
    case str
    then show ?thesis using P s p_str_sound by auto
  next
    case arr
    with P obtain e q where e: "dropWhile is_ws t = e # q" by (auto split: list.splits)
    show ?thesis
    proof (cases "e = CHR '']''")
      case True
      then show ?thesis using P arr e s ws_takeWhile ws_parts [OF e] by auto
    next
      case False
      then obtain xs where x: "p_elems n t = Some (xs, r)" "v = JArr [] xs" using P arr e by auto
      then show ?thesis using 2(1) [OF s _ _ e False x(1)] arr s by simp
    qed
  next
    case obj
    with P obtain e q where e: "dropWhile is_ws t = e # q" by (auto split: list.splits)
    show ?thesis
    proof (cases "e = CHR ''}''")
      case True
      then show ?thesis using P obj e s ws_takeWhile ws_parts [OF e] by auto
    next
      case False
      then obtain xs where x: "p_members n t = Some (xs, r)" "v = JObj [] xs" using P obj e by auto
      then show ?thesis using 2(2) [OF s _ _ _ e False x(1)] obj s by simp
    qed
  next
    case other
    show ?thesis
    proof (cases "List.find (HasPrefix (c # t)) literals")
      case None
      then obtain d where "p_num (c # t) = Some (d, r)" "v = JNum d" using P other by auto
      then show ?thesis using p_num_sound s by auto
    next
      case (Some l)
      then have "l \<in> set literals \<and> HasPrefix (c # t) l" by (rule find_Some_in)
      moreover have "v = JLit l \<and> r = drop (length l) (c # t)" using P other Some by simp
      ultimately show ?thesis using s by (simp add: HasPrefix_def) (metis append_take_drop_id)
    qed
  qed
next
  case (4 n s)
  then obtain v s1 where v: "p_val n (dropWhile is_ws s) = Some (v, s1)" by (auto split: option.splits)
  with 4(3) obtain c s2 where c: "dropWhile is_ws s1 = c # s2" by (auto split: list.splits)
  have i: "wf_json v \<and> dropWhile is_ws s = render v @ s1" using 4(1) [OF v] .
  have s: "s = takeWhile is_ws s @ render v @ takeWhile is_ws s1 @ c # s2"
    using i ws_parts [OF c] ws_parts [of s "render v @ s1"] by simp
  let ?e = "(takeWhile is_ws s, v, takeWhile is_ws s1)"
  show ?case
  proof (cases "c = CHR '',''")
    case True
    then obtain ys where y: "p_elems n s2 = Some (ys, r)" "xs = ?e # ys" using 4(3) v c by auto
    have "wf_elems ys \<and> ys \<noteq> [] \<and> s2 = render_elems ys @ CHR '']'' # r" by (rule 4(2) [OF v _ c True y(1)]) simp
    then show ?thesis using s i True y(2) ws_takeWhile by (cases ys) auto
  next
    case False
    then have "c = CHR '']'' \<and> xs = [?e] \<and> r = s2" using 4(3) v c by (auto split: if_splits)
    then show ?thesis using s i ws_takeWhile by auto
  qed
next
  case (6 n s)
  then obtain s0 where a: "dropWhile is_ws s = CHR 0x22 # s0" by (auto split: list.splits if_splits)
  with 6(3) obtain k s1 where k: "p_str s0 = Some (k, s1)" by (auto split: option.splits)
  with a 6(3) obtain s2 where b: "dropWhile is_ws s1 = CHR '':'' # s2" by (auto split: list.splits if_splits)
  with a k 6(3) obtain v s3 where v: "p_val n (dropWhile is_ws s2) = Some (v, s3)" by (auto split: option.splits)
  with a b k 6(3) obtain f s4 where f: "dropWhile is_ws s3 = f # s4" by (auto split: list.splits)
  let ?m = "(takeWhile is_ws s, k, takeWhile is_ws s1, takeWhile is_ws s2, v, takeWhile is_ws s3)"
  have i: "wf_json v \<and> dropWhile is_ws s2 = render v @ s3" using 6(1) [OF a _ k _ b _ v] by simp
  note ks = p_str_sound [OF k]
  have s: "s = takeWhile is_ws s @ CHR 0x22 # k @ CHR 0x22 # takeWhile is_ws s1 @ CHR '':'' #
      takeWhile is_ws s2 @ render v @ takeWhile is_ws s3 @ f # s4"
    using i ks ws_parts [OF a] ws_parts [OF b] ws_parts [OF f] ws_parts [of s2 "render v @ s3"] by simp
  show ?case
  proof (cases "f = CHR '',''")
    case True
    then obtain ys where y: "p_members n s4 = Some (ys, r)" "ms = ?m # ys" using 6(3) a b k v f by (auto simp: Let_def)
    have "wf_members ys \<and> ys \<noteq> [] \<and> s4 = render_members ys @ CHR ''}'' # r"
      by (rule 6(2) [OF a _ k _ b _ v _ f _ True y(1)]) simp_all
    then show ?thesis using s i ks True y(2) ws_takeWhile by (cases ys) auto
  next
    case False
    then have "f = CHR ''}'' \<and> ms = [?m] \<and> r = s4" using 6(3) a b k v f by (auto simp: Let_def split: if_splits)
    then show ?thesis using s i ks ws_takeWhile by auto
  qed
qed simp_all

lemma json_parse_sound:
  assumes "json_parse s = Some v"
  shows "wf_json v \<and> nest v \<le> maxNestingDepth \<and>
    (\<exists>a b. list_all is_ws a \<and> list_all is_ws b \<and> s = a @ render v @ b)"
proof -
  from assms obtain r where p: "p_val (2 * length s + 2) (dropWhile is_ws s) = Some (v, r)"
    and w: "list_all is_ws r" "nest v \<le> maxNestingDepth"
    by (auto simp: json_parse_def split: option.splits if_splits)
  from parse_sound(1) [OF p] ws_parts [of s "render v @ r"]
  have "wf_json v" "s = takeWhile is_ws s @ render v @ r" by auto
  then show ?thesis using w ws_takeWhile by blast
qed

end
