(* ===== verification/DocStrings.thy ===== *)
theory DocStrings
  imports DocJson AuditLog
begin

text \<open>
  String literals as \<^verbatim>\<open>encoding/json\<close> reads and writes them, and the decimal text
  of a counter. \<open>unquote\<close> decodes the body of a literal (escapes, surrogate pairs, malformed UTF-8
  coerced), \<open>quote\<close> encodes a string without HTML escaping, which is what \<open>marshalPlain\<close> asks for.
\<close>

section \<open>Decoding\<close>

definition hex_digit :: "char \<Rightarrow> nat" where
  "hex_digit c =
     (let n = of_char c :: nat in if n \<le> 57 then n - 48 else if n \<le> 70 then n - 55 else n - 87)"

definition encode_rune :: "nat \<Rightarrow> string" where
  "encode_rune n =
     map char_of
       (if n < 0x80 then [n]
        else if n < 0x800 then [0xC0 + n div 64, 0x80 + n mod 64]
        else if n < 0x10000 then [0xE0 + n div 4096, 0x80 + n div 64 mod 64, 0x80 + n mod 64]
        else [0xF0 + n div 262144, 0x80 + n div 4096 mod 64, 0x80 + n div 64 mod 64, 0x80 + n mod 64])"

definition replacement :: string where "replacement = [CHR 0xEF, CHR 0xBF, CHR 0xBD]"

text \<open>The four digits of an escape \<^verbatim>\<open>\uXXXX\<close> at the front.\<close>

definition getu4 :: "string \<Rightarrow> nat option" where
  "getu4 s =
     (if 6 \<le> length s \<and> s ! 0 = CHR 0x5C \<and> s ! 1 = CHR ''u'' \<and> list_all is_hex (take 4 (drop 2 s))
      then Some (foldl (\<lambda>n c. 16 * n + hex_digit c) 0 (take 4 (drop 2 s))) else None)"

definition is_surrogate :: "nat \<Rightarrow> bool" where
  "is_surrogate n \<longleftrightarrow> 0xD800 \<le> n \<and> n < 0xE000"

definition utf16_pair :: "nat \<Rightarrow> nat option \<Rightarrow> nat option" where
  "utf16_pair hi lo =
     (case lo of
        Some l \<Rightarrow>
          if 0xD800 \<le> hi \<and> hi < 0xDC00 \<and> 0xDC00 \<le> l \<and> l < 0xE000
          then Some ((hi - 0xD800) * 1024 + (l - 0xDC00) + 0x10000) else None
      | None \<Rightarrow> None)"

definition simple_escape :: "char \<Rightarrow> char option" where
  "simple_escape e =
     map_of [(CHR 0x22, CHR 0x22), (CHR 0x5C, CHR 0x5C), (CHR ''/'', CHR ''/''), (CHR 0x27, CHR 0x27),
       (CHR ''b'', CHR 0x08), (CHR ''f'', CHR 0x0C), (CHR ''n'', CHR 0x0A), (CHR ''r'', CHR 0x0D), (CHR ''t'', CHR 0x09)] e"

function unquote :: "string \<Rightarrow> string option" where
  "unquote [] = Some []"
| "unquote (c # s) =
     (if c = CHR 0x5C then
        (case s of
           [] \<Rightarrow> None
         | e # r \<Rightarrow>
             (case simple_escape e of
                Some x \<Rightarrow> map_option ((#) x) (unquote r)
              | None \<Rightarrow>
                  (case getu4 (c # s) of
                     None \<Rightarrow> None
                   | Some rr \<Rightarrow>
                       if is_surrogate rr then
                         (case utf16_pair rr (getu4 (drop 5 s)) of
                            Some n \<Rightarrow> map_option ((@) (encode_rune n)) (unquote (drop 11 s))
                          | None \<Rightarrow> map_option ((@) replacement) (unquote (drop 5 s)))
                       else map_option ((@) (encode_rune rr)) (unquote (drop 5 s)))))
      else if c = CHR 0x22 \<or> (of_char c :: nat) < 0x20 then None
      else if (of_char c :: nat) < 0x80 then map_option ((#) c) (unquote s)
      else if rune_len (c # s) = 0 then map_option ((@) replacement) (unquote s)
      else map_option ((@) (take (rune_len (c # s)) (c # s))) (unquote (drop (rune_len (c # s)) (c # s))))"
  by pat_completeness auto
termination
  by (relation "measure length") auto

declare unquote.simps(2) [simp del]

section \<open>Encoding\<close>

definition hex_char :: "nat \<Rightarrow> char" where
  "hex_char n = char_of (if n < 10 then 48 + n else 87 + n)"

definition quote_ascii :: "char \<Rightarrow> string" where
  "quote_ascii c =
     (if c = CHR 0x22 \<or> c = CHR 0x5C then [CHR 0x5C, c]
      else if 0x20 \<le> (of_char c :: nat) then [c]
      else case map_of [(CHR 0x08, CHR ''b''), (CHR 0x0C, CHR ''f''), (CHR 0x0A, CHR ''n''), (CHR 0x0D, CHR ''r''), (CHR 0x09, CHR ''t'')] c of
        Some e \<Rightarrow> [CHR 0x5C, e]
      | None \<Rightarrow> CHR 0x5C # ''u00'' @ [hex_char (of_char c div 16), hex_char (of_char c mod 16)])"

definition line_separators :: "string list" where
  "line_separators = [[CHR 0xE2, CHR 0x80, CHR 0xA8], [CHR 0xE2, CHR 0x80, CHR 0xA9]]"

function quote :: "string \<Rightarrow> string" where
  "quote [] = []"
| "quote (c # s) =
     (if (of_char c :: nat) < 0x80 then quote_ascii c @ quote s
      else if rune_len (c # s) = 0 then CHR 0x5C # ''ufffd'' @ quote s
      else if List.member line_separators (take (rune_len (c # s)) (c # s))
      then CHR 0x5C # ''u202'' @ [hex_char (of_char ((c # s) ! 2) mod 16)] @ quote (drop (rune_len (c # s)) (c # s))
      else take (rune_len (c # s)) (c # s) @ quote (drop (rune_len (c # s)) (c # s)))"
  by pat_completeness auto
termination
  by (relation "measure length") auto

declare quote.simps(2) [simp del]

section \<open>Counters\<close>

fun decimal :: "nat \<Rightarrow> string" where
  "decimal n = (if n < 10 then [char_of (48 + n)] else decimal (n div 10) @ [char_of (48 + n mod 10)])"

declare decimal.simps [simp del]


section \<open>Runes\<close>

definition two_bytes :: "char \<Rightarrow> char \<Rightarrow> bool" where
  "two_bytes a b \<longleftrightarrow> byte_in 0xC2 0xDF a \<and> byte_in 0x80 0xBF b"

definition three_bytes :: "char \<Rightarrow> char \<Rightarrow> char \<Rightarrow> bool" where
  "three_bytes a b c \<longleftrightarrow> byte_in 0xE0 0xEF a \<and>
     byte_in (if (of_char a :: nat) = 0xE0 then 0xA0 else 0x80) (if (of_char a :: nat) = 0xED then 0x9F else 0xBF) b \<and>
     byte_in 0x80 0xBF c"

definition four_bytes :: "char \<Rightarrow> char \<Rightarrow> char \<Rightarrow> char \<Rightarrow> bool" where
  "four_bytes a b c d \<longleftrightarrow> byte_in 0xF0 0xF4 a \<and>
     byte_in (if (of_char a :: nat) = 0xF0 then 0x90 else 0x80) (if (of_char a :: nat) = 0xF4 then 0x8F else 0xBF) b \<and>
     byte_in 0x80 0xBF c \<and> byte_in 0x80 0xBF d"

lemma rune_len_alt:
  "rune_len (a # s) =
     (if (of_char a :: nat) < 0x80 then 1
      else if 1 \<le> length s \<and> two_bytes a (s ! 0) then 2
      else if 2 \<le> length s \<and> three_bytes a (s ! 0) (s ! 1) then 3
      else if 3 \<le> length s \<and> four_bytes a (s ! 0) (s ! 1) (s ! 2) then 4
      else 0)"
proof -
  define n where "n = (of_char a :: nat)"
  consider "n < 0x80" | "0x80 \<le> n" "n < 0xC2" | "0xC2 \<le> n" "n < 0xE0" | "0xE0 \<le> n" "n < 0xF0"
    | "0xF0 \<le> n" "n < 0xF5" | "0xF5 \<le> n" by linarith
  then show ?thesis
    by cases (auto simp: two_bytes_def three_bytes_def four_bytes_def byte_in_def [of _ _ a] Let_def
        n_def [symmetric] split: list.split)
qed

declare rune_len.simps(2) [simp del]

lemma rune_len_bound: "rune_len s \<le> length s"
  by (cases s) (auto simp: rune_len_alt)

lemma rune_len_prefix:
  assumes "0 < rune_len s" shows "rune_len (take (rune_len s) s @ t) = rune_len s"
proof -
  obtain a s1 where s: "s = a # s1" using assms by (cases s) auto
  show ?thesis
    using assms unfolding s by (auto simp: rune_len_alt nth_append numeral_2_eq_2 numeral_3_eq_3 split: if_splits)
qed

lemma rune_bytes_high:
  assumes "0x80 \<le> (of_char c :: nat)" and "x \<in> set (take (rune_len (c # s)) (c # s))"
  shows "0x80 \<le> (of_char x :: nat)"
proof -
  from assms(2) obtain k where k: "k < rune_len (c # s)" "x = (c # s) ! k"
    unfolding in_set_conv_nth by auto
  have "rune_len (c # s) = 0 \<or> rune_len (c # s) = 2 \<and> two_bytes c (s ! 0) \<or>
      rune_len (c # s) = 3 \<and> three_bytes c (s ! 0) (s ! 1) \<or> rune_len (c # s) = 4 \<and> four_bytes c (s ! 0) (s ! 1) (s ! 2)"
    using assms(1) by (simp add: rune_len_alt)
  then show ?thesis
  proof (elim disjE conjE)
    assume "rune_len (c # s) = 2" "two_bytes c (s ! 0)"
    then show ?thesis using k assms(1) by (cases k) (auto simp: two_bytes_def byte_in_def)
  next
    assume "rune_len (c # s) = 3" "three_bytes c (s ! 0) (s ! 1)"
    moreover from this k have "k = 0 \<or> k = 1 \<or> k = 2" by auto
    ultimately show ?thesis using k assms(1)
      by (auto simp: three_bytes_def byte_in_def numeral_2_eq_2 split: if_splits)
  next
    assume "rune_len (c # s) = 4" "four_bytes c (s ! 0) (s ! 1) (s ! 2)"
    moreover from this k have "k = 0 \<or> k = 1 \<or> k = 2 \<or> k = 3" by auto
    ultimately show ?thesis using k assms(1)
      by (auto simp: four_bytes_def byte_in_def numeral_2_eq_2 numeral_3_eq_3 split: if_splits)
  qed (use k in simp)
qed

lemma ValidString_step: "s \<noteq> [] \<Longrightarrow> ValidString s \<longleftrightarrow> 0 < rune_len s \<and> ValidString (drop (rune_len s) s)"
  by (subst ValidString.simps) simp

lemma ValidString_Nil [simp]: "ValidString []"
  by (subst ValidString.simps) simp

lemma ValidString_rune:
  assumes "rune_len u = length u" and "u \<noteq> []" shows "ValidString (u @ t) \<longleftrightarrow> ValidString t"
  using rune_len_prefix [of u t] assms ValidString_step [of "u @ t"] by simp

section \<open>Quoted strings are well-formed and decode to what was quoted\<close>

lemma hex_chars:
  assumes "k < 16" shows "is_hex (hex_char k)" and "hex_digit (hex_char k) = k"
  using assms by (auto simp: hex_char_def is_hex_def is_digit_def hex_digit_def Let_def)

lemma p_str_plain:
  assumes "\<forall>x \<in> set u. 0x80 \<le> (of_char x :: nat)"
  shows "p_str (u @ t) = map_option (\<lambda>(b, q). (u @ b, q)) (p_str t)"
  using assms
proof (induction u)
  case Nil
  then show ?case by (cases "p_str t") auto
next
  case (Cons x u)
  then have "x \<noteq> CHR 0x22" "x \<noteq> CHR 0x5C" by auto
  then show ?case using Cons by (cases "p_str t") auto
qed

lemma p_str_u:
  assumes "length h = 4" and "list_all is_hex h"
  shows "p_str (CHR 0x5C # CHR ''u'' # h @ t) = map_option (\<lambda>(b, q). (CHR 0x5C # CHR ''u'' # h @ b, q)) (p_str t)"
  using assms by (simp add: is_escape_def)

lemma p_str_quote_ascii:
  assumes "(of_char c :: nat) < 0x80"
  shows "p_str (quote_ascii c @ t) = map_option (\<lambda>(b, q). (quote_ascii c @ b, q)) (p_str t)"
proof -
  have k: "(of_char c :: nat) div 16 < 16" "(of_char c :: nat) mod 16 < 16" using assms by auto
  have h: "is_hex CHR ''0''" by (simp add: is_hex_def is_digit_def)
  show ?thesis
    using p_str_u [of "''00'' @ [hex_char (of_char c div 16), hex_char (of_char c mod 16)]" t] hex_chars k h
    by (auto simp: quote_ascii_def is_escape_def)
qed

lemma p_str_quote: "p_str (quote s @ CHR 0x22 # t) = Some (quote s, t)"
proof (induction s rule: quote.induct)
  case (2 c s)
  let ?n = "rune_len (c # s)"
  consider (ascii) "(of_char c :: nat) < 0x80"
    | (bad) "\<not> (of_char c :: nat) < 0x80" "?n = 0"
    | (sep) "\<not> (of_char c :: nat) < 0x80" "?n \<noteq> 0" "List.member line_separators (take ?n (c # s))"
    | (rune) "\<not> (of_char c :: nat) < 0x80" "?n \<noteq> 0" "\<not> List.member line_separators (take ?n (c # s))" by blast
  then show ?case
  proof cases
    case ascii
    then show ?thesis using 2(1) p_str_quote_ascii [OF ascii] by (simp add: quote.simps(2))
  next
    case bad
    have "list_all is_hex ''fffd''" by (simp add: is_hex_def is_digit_def)
    then show ?thesis using 2(2) [OF bad] bad p_str_u [of "''fffd''"] by (simp add: quote.simps(2))
  next
    case sep
    have "list_all is_hex (''202'' @ [hex_char (of_char ((c # s) ! 2) mod 16)])"
      using hex_chars by (simp add: is_hex_def is_digit_def)
    then show ?thesis
      using 2(3) [OF sep] sep p_str_u [of "''202'' @ [hex_char (of_char ((c # s) ! 2) mod 16)]"]
      by (simp add: quote.simps(2))
  next
    case rune
    have "\<forall>x \<in> set (take ?n (c # s)). 0x80 \<le> (of_char x :: nat)"
      using rune(1) rune_bytes_high [of c] by (simp add: not_less del: rune_len.simps)
    from p_str_plain [OF this] 2(4) [OF rune] rune show ?thesis by (simp add: quote.simps(2) del: rune_len.simps)
  qed
qed simp

lemma unquote_ascii:
  assumes "(of_char c :: nat) < 0x80" shows "unquote (quote_ascii c @ t) = map_option ((#) c) (unquote t)"
proof -
  have k: "(of_char c :: nat) div 16 < 16" "(of_char c :: nat) mod 16 < 16" using assms by auto
  let ?h = "[hex_char (of_char c div 16), hex_char (of_char c mod 16)]"
  have g: "getu4 (CHR 0x5C # CHR ''u'' # CHR ''0'' # CHR ''0'' # ?h @ t) = Some (of_char c)"
    using hex_chars [OF k(1)] hex_chars [OF k(2)] by (simp add: getu4_def is_hex_def is_digit_def hex_digit_def Let_def)
  have e: "encode_rune (of_char c) = [c]" using assms by (simp add: encode_rune_def)
  have "\<not> is_surrogate (of_char c)" using assms by (simp add: is_surrogate_def)
  then show ?thesis
    using assms g e by (auto simp: quote_ascii_def unquote.simps(2) simple_escape_def fun_eq_iff intro!: option.map_cong)
qed

lemma separator_facts:
  "encode_rune 0x2028 = [CHR 0xE2, CHR 0x80, CHR 0xA8]" "encode_rune 0x2029 = [CHR 0xE2, CHR 0x80, CHR 0xA9]"
  "hex_char 8 = CHR ''8''" "hex_char 9 = CHR ''9''"
  by (simp_all add: encode_rune_def hex_char_def char_of_def bit_0)

lemma unquote_u:
  assumes "getu4 (CHR 0x5C # CHR ''u'' # t) = Some n" and "\<not> is_surrogate n"
  shows "unquote (CHR 0x5C # CHR ''u'' # t) = map_option ((@) (encode_rune n)) (unquote (drop 4 t))"
  using assms by (simp add: unquote.simps(2) simple_escape_def)

lemma unquote_separators:
  "unquote (CHR 0x5C # ''u202'' @ hex_char (of_char (CHR 0xA8) mod 16) # t) = map_option ((@) [CHR 0xE2, CHR 0x80, CHR 0xA8]) (unquote t)"
  "unquote (CHR 0x5C # ''u202'' @ hex_char (of_char (CHR 0xA9) mod 16) # t) = map_option ((@) [CHR 0xE2, CHR 0x80, CHR 0xA9]) (unquote t)"
proof -
  have "getu4 (CHR 0x5C # CHR ''u'' # CHR ''2'' # CHR ''0'' # CHR ''2'' # CHR ''8'' # t) = Some 0x2028"
    "getu4 (CHR 0x5C # CHR ''u'' # CHR ''2'' # CHR ''0'' # CHR ''2'' # CHR ''9'' # t) = Some 0x2029"
    by (simp_all add: getu4_def is_hex_def is_digit_def hex_digit_def Let_def)
  from unquote_u [OF this(1)] unquote_u [OF this(2)]
  show "unquote (CHR 0x5C # ''u202'' @ hex_char (of_char (CHR 0xA8) mod 16) # t) = map_option ((@) [CHR 0xE2, CHR 0x80, CHR 0xA8]) (unquote t)"
    "unquote (CHR 0x5C # ''u202'' @ hex_char (of_char (CHR 0xA9) mod 16) # t) = map_option ((@) [CHR 0xE2, CHR 0x80, CHR 0xA9]) (unquote t)"
    by (simp_all add: separator_facts is_surrogate_def)
qed

lemma unquote_quote: "ValidString s \<Longrightarrow> unquote (quote s) = Some s"
proof (induction s rule: quote.induct)
  case (2 c s)
  let ?n = "rune_len (c # s)"
  have v: "0 < ?n" "ValidString (drop ?n (c # s))" using 2(5) ValidString_step by blast+
  consider (ascii) "(of_char c :: nat) < 0x80"
    | (sep) "\<not> (of_char c :: nat) < 0x80" "List.member line_separators (take ?n (c # s))"
    | (rune) "\<not> (of_char c :: nat) < 0x80" "\<not> List.member line_separators (take ?n (c # s))" by blast
  then show ?case
  proof cases
    case ascii
    then have "?n = 1" by (simp add: rune_len_alt)
    then show ?thesis using 2(1) [OF ascii] v(2) ascii by (simp add: quote.simps(2) unquote_ascii del: rune_len.simps)
  next
    case sep
    let ?x = "(c # s) ! 2"
    have "take ?n (c # s) \<in> set line_separators" using sep(2) by simp
    then have t: "take ?n (c # s) = [CHR 0xE2, CHR 0x80, CHR 0xA8] \<or> take ?n (c # s) = [CHR 0xE2, CHR 0x80, CHR 0xA9]"
      by (simp add: line_separators_def)
    then have n: "3 \<le> ?n" and x: "?x = take ?n (c # s) ! 2"
      using rune_len_bound [of "c # s"] by (auto dest: arg_cong [of _ _ length] simp del: rune_len.simps)
    have "unquote (CHR 0x5C # ''u202'' @ [hex_char (of_char ?x mod 16)] @ t') = map_option ((@) (take ?n (c # s))) (unquote t')" for t'
      using t unquote_separators unfolding x by (elim disjE) (simp_all add: numeral_2_eq_2)
    then show ?thesis using 2(3) v sep by (simp add: quote.simps(2) del: rune_len.simps)
  next
    case rune
    have "unquote (take ?n (c # s) @ t') = map_option ((@) (take ?n (c # s))) (unquote t')" for t'
    proof -
      obtain u where u: "take ?n (c # s) = c # u" using v(1) by (cases ?n) auto
      have l: "rune_len (c # u @ t') = ?n" using rune_len_prefix [OF v(1), of t'] u by simp
      have "length (c # u) = ?n" using u rune_len_bound [of "c # s"] by (metis length_take min.absorb2)
      then have "take ?n (c # u @ t') = c # u" "drop ?n (c # u @ t') = t'" by (metis append_Cons append_eq_conv_conj)+
      moreover have "c \<noteq> CHR 0x5C" "c \<noteq> CHR 0x22" "\<not> (of_char c :: nat) < 0x20" using rune(1) by auto
      ultimately show ?thesis using rune(1) v(1) l u by (simp add: unquote.simps(2) del: rune_len.simps)
    qed
    then show ?thesis using 2(4) v rune by (simp add: quote.simps(2) del: rune_len.simps)
  qed
qed simp


section \<open>Decoded strings are well-formed UTF-8\<close>

lemma of_char_of [simp]: "n < 256 \<Longrightarrow> (of_char (char_of n) :: nat) = n" for n :: nat
  by simp

lemma div_64:
  fixes n :: nat shows "n div 64 = 64 * (n div 4096) + n div 64 mod 64" and "n div 4096 = 64 * (n div 262144) + n div 4096 mod 64"
proof -
  have "n div 64 div 64 = n div 4096" "n div 4096 div 64 = n div 262144" by (simp_all add: div_mult2_eq [symmetric])
  then show "n div 64 = 64 * (n div 4096) + n div 64 mod 64" "n div 4096 = 64 * (n div 262144) + n div 4096 mod 64"
    by (metis mult_div_mod_eq)+
qed

lemma encode_rune_valid:
  assumes "n < 0x110000" and "\<not> is_surrogate n"
  shows "rune_len (encode_rune n) = length (encode_rune n)" and "encode_rune n \<noteq> []"
proof -
  show "encode_rune n \<noteq> []" by (simp add: encode_rune_def)
  consider "n < 0x80" | "0x80 \<le> n" "n < 0x800" | "0x800 \<le> n" "n < 0x10000" | "0x10000 \<le> n" "n < 0x110000"
    using assms(1) by linarith
  then show "rune_len (encode_rune n) = length (encode_rune n)"
  proof cases
    case 1
    then show ?thesis by (simp add: encode_rune_def rune_len_alt)
  next
    case 2
    then have "0xC2 \<le> 0xC0 + n div 64" "0xC0 + n div 64 < 0xE0" by linarith+
    then show ?thesis using 2 by (simp add: encode_rune_def rune_len_alt two_bytes_def byte_in_def)
  next
    case 3
    define a b c where "a = 0xE0 + n div 4096" "b = 0x80 + n div 64 mod 64" "c = 0x80 + n mod 64"
    have r: "0xE0 \<le> a" "a < 0xF0" "0x80 \<le> b" "b \<le> 0xBF" "0x80 \<le> c" "c \<le> 0xBF"
      using 3 unfolding a_b_c_def by linarith+
    moreover have "0x20 \<le> n div 64" using 3 by linarith
    then have "a = 0xE0 \<Longrightarrow> 0xA0 \<le> b" using div_64(1) [of n] unfolding a_b_c_def by simp
    moreover have "n div 64 < 0x360 \<or> 0x380 \<le> n div 64" using assms(2) unfolding is_surrogate_def by linarith
    then have "a = 0xED \<Longrightarrow> b \<le> 0x9F" using div_64(1) [of n] r unfolding a_b_c_def by linarith
    ultimately show ?thesis using 3
      by (simp add: encode_rune_def a_b_c_def [symmetric] rune_len_alt two_bytes_def three_bytes_def byte_in_def)
  next
    case 4
    define a b c d where "a = 0xF0 + n div 262144" "b = 0x80 + n div 4096 mod 64" "c = 0x80 + n div 64 mod 64" "d = 0x80 + n mod 64"
    have r: "0xF0 \<le> a" "a \<le> 0xF4" "0x80 \<le> b" "b \<le> 0xBF" "0x80 \<le> c" "c \<le> 0xBF" "0x80 \<le> d" "d \<le> 0xBF"
      using 4 unfolding a_b_c_d_def by linarith+
    moreover have "0x10 \<le> n div 4096" "n div 4096 < 0x110" using 4 by linarith+
    then have "a = 0xF0 \<Longrightarrow> 0x90 \<le> b" "a = 0xF4 \<Longrightarrow> b \<le> 0x8F" using div_64(2) [of n] unfolding a_b_c_d_def by simp_all
    ultimately show ?thesis using 4
      by (simp add: encode_rune_def a_b_c_d_def [symmetric] rune_len_alt two_bytes_def three_bytes_def four_bytes_def byte_in_def)
  qed
qed

lemma hex_digit_less: "is_hex c \<Longrightarrow> hex_digit c < 16"
  by (auto simp: is_hex_def is_digit_def hex_digit_def Let_def)

lemma getu4_less:
  assumes "getu4 s = Some n" shows "n < 0x10000"
proof -
  have h: "list_all is_hex (take 4 (drop 2 s))" "6 \<le> length s"
    and n: "n = foldl (\<lambda>n c. 16 * n + hex_digit c) 0 (take 4 (drop 2 s))"
    using assms by (auto simp: getu4_def split: if_splits)
  have four: "\<exists>a b c d. xs = [a, b, c, d]" if "length xs = 4" for xs :: string
    using that by (auto simp: length_Suc_conv numeral_eq_Suc)
  have "length (take 4 (drop 2 s)) = 4" using h(2) by simp
  from four [OF this] obtain a b c d where t: "take 4 (drop 2 s) = [a, b, c, d]" by blast
  with h(1) have "hex_digit a < 16" "hex_digit b < 16" "hex_digit c < 16" "hex_digit d < 16"
    by (simp_all add: hex_digit_less)
  then show ?thesis unfolding n t by simp
qed

lemma utf16_pair_range: "utf16_pair hi lo = Some n \<Longrightarrow> n < 0x110000 \<and> \<not> is_surrogate n"
  by (auto simp: utf16_pair_def is_surrogate_def split: option.splits if_splits)

lemma unquote_valid: "unquote b = Some s \<Longrightarrow> ValidString s"
proof (induction b arbitrary: s rule: unquote.induct)
  case (2 c b)
  have rep: "ValidString (replacement @ t) \<longleftrightarrow> ValidString t" for t
    by (rule ValidString_rune) (simp_all add: replacement_def rune_len_alt two_bytes_def three_bytes_def byte_in_def)
  have one: "ValidString (x # t) \<longleftrightarrow> ValidString t" if "(of_char x :: nat) < 0x80" for x t
    using ValidString_rune [of "[x]" t] that by (simp add: rune_len_alt)
  show ?case
  proof (cases "c = CHR 0x5C")
    case esc: True
    then obtain e r where b: "b = e # r" using 2(8) by (cases b) (auto simp: unquote.simps(2))
    show ?thesis
    proof (cases "simple_escape e")
      case (Some x)
      then obtain t where t: "unquote r = Some t" "s = x # t" using 2(8) esc b by (auto simp: unquote.simps(2))
      have "(of_char x :: nat) < 0x80" using Some by (auto simp: simple_escape_def split: if_splits)
      then show ?thesis using 2(4) [OF esc b Some t(1)] t(2) one by simp
    next
      case None
      then obtain rr where g: "getu4 (c # b) = Some rr" using 2(8) esc b by (auto simp: unquote.simps(2) split: option.splits)
      show ?thesis
      proof (cases "is_surrogate rr")
        case sur: True
        show ?thesis
        proof (cases "utf16_pair rr (getu4 (drop 5 b))")
          case p: None
          then obtain t where t: "unquote (drop 5 b) = Some t" "s = replacement @ t"
            using 2(8) esc b None g sur by (auto simp: unquote.simps(2))
          show ?thesis using 2(1) [OF esc b None g sur p t(1)] t(2) rep by simp
        next
          case p: (Some n)
          then obtain t where t: "unquote (drop 11 b) = Some t" "s = encode_rune n @ t"
            using 2(8) esc b None g sur by (auto simp: unquote.simps(2))
          show ?thesis using 2(2) [OF esc b None g sur p t(1)] t(2) ValidString_rune [OF encode_rune_valid] utf16_pair_range [OF p] by simp
        qed
      next
        case False
        then obtain t where t: "unquote (drop 5 b) = Some t" "s = encode_rune rr @ t"
          using 2(8) esc b None g by (auto simp: unquote.simps(2))
        show ?thesis using 2(3) [OF esc b None g False t(1)] t(2) ValidString_rune [OF encode_rune_valid, of rr t] False getu4_less [OF g] by simp
      qed
    qed
  next
    case pl: False
    then have q: "\<not> (c = CHR 0x22 \<or> (of_char c :: nat) < 0x20)" using 2(8) by (auto simp: unquote.simps(2))
    show ?thesis
    proof (cases "(of_char c :: nat) < 0x80")
      case True
      then obtain t where "unquote b = Some t" "s = c # t" using 2(8) pl q by (auto simp: unquote.simps(2))
      then show ?thesis using 2(5) [OF pl q True] one [OF True] by simp
    next
      case hi: False
      show ?thesis
      proof (cases "rune_len (c # b) = 0")
        case True
        then obtain t where "unquote b = Some t" "s = replacement @ t" using 2(8) pl q hi by (auto simp: unquote.simps(2))
        then show ?thesis using 2(6) [OF pl q hi True] rep by simp
      next
        case False
        let ?u = "take (rune_len (c # b)) (c # b)"
        obtain t where t: "unquote (drop (rune_len (c # b)) (c # b)) = Some t" "s = ?u @ t"
          using 2(8) pl q hi False by (auto simp: unquote.simps(2))
        have "rune_len ?u = length ?u"
          using rune_len_prefix [of "c # b" "[]"] False rune_len_bound [of "c # b"] by simp
        then show ?thesis using 2(7) [OF pl q hi False t(1)] t(2) ValidString_rune [of ?u t] False by (cases ?u) auto
      qed
    qed
  qed
qed simp

text \<open>A decoded key, quoted again, decodes to itself.\<close>

lemma unquote_again: "unquote b = Some s \<Longrightarrow> unquote (quote s) = Some s"
  by (simp add: unquote_quote unquote_valid)

section \<open>The decimal text determines the number\<close>

lemma decimal_inject: "decimal m = decimal n \<longleftrightarrow> m = n"
proof
  show "decimal m = decimal n \<Longrightarrow> m = n"
  proof (induction m arbitrary: n rule: decimal.induct)
    case (1 m)
    have ne: "decimal k \<noteq> []" for k by (subst decimal.simps) simp
    have d: "char_of (48 + x) = (char_of (48 + y) :: char) \<longleftrightarrow> x = y" if "x < 10" "y < 10" for x y :: nat
      using arg_cong [of "char_of (48 + x)" "char_of (48 + y)" "of_char :: char \<Rightarrow> nat"] that by auto
    show ?case
    proof (cases "m < 10")
      case True
      then show ?thesis using 1(2) d [of m n] ne [of "n div 10"]
        by (cases "n < 10") (simp_all add: decimal.simps [of m] decimal.simps [of n])
    next
      case False
      then have n: "\<not> n < 10" using 1(2) ne [of "m div 10"] by (auto simp: decimal.simps [of m] decimal.simps [of n])
      then have "decimal (m div 10) = decimal (n div 10)" "m mod 10 = n mod 10"
        using 1(2) False d [of "m mod 10" "n mod 10"] by (simp_all add: decimal.simps [of m] decimal.simps [of n])
      then show ?thesis using 1(1) [OF False] by (metis div_mult_mod_eq)
    qed
  qed
qed simp

end
