(* ===== verification/DocModel.thy ===== *)
theory DocModel
  imports DocStrings "HOL-Library.List_Lexorder" "HOL-Library.Char_ord"
begin

text \<open>
  The document model, \<^verbatim>\<open>internal/core/wiki/doc\<close>: objects, the schema,
  validation (\<^verbatim>\<open>doc.go\<close>), plain text (\<^verbatim>\<open>text.go\<close>), the inline
  tags and image references a publish reads (\<^verbatim>\<open>tags.go\<close>, \<^verbatim>\<open>images.go\<close>).

  An object is the association list of its members sorted by key, so that equal Go maps are equal.
\<close>

datatype doc_error =
    ErrTooDeep
  | ErrNotAnObject
  | ErrNoType
  | ErrNotADoc string
  | ErrPlaceholderNoID
  | ErrNotAnArray string

definition maxDepth :: nat where "maxDepth = 200"

section \<open>Objects\<close>

type_synonym object = "(string \<times> json) list"

fun obj_set :: "string \<Rightarrow> json \<Rightarrow> object \<Rightarrow> object" where
  "obj_set k v [] = [(k, v)]"
| "obj_set k v ((k', v') # m) =
     (if k < k' then (k, v) # (k', v') # m else if k = k' then (k, v) # m else (k', v') # obj_set k v m)"

text \<open>A map of raw members: a key that comes twice keeps its last value.\<close>

definition raw_members :: "(string \<times> string \<times> string \<times> string \<times> json \<times> string) list \<Rightarrow> object" where
  "raw_members ms =
     fold (\<lambda>(a, k, b, c, v, d) m. case unquote k of None \<Rightarrow> m | Some k' \<Rightarrow> obj_set k' v m) ms []"

definition decodeObject :: "json \<Rightarrow> doc_error + object" where
  "decodeObject raw = (case raw of JObj w ms \<Rightarrow> Inr (raw_members ms) | _ \<Rightarrow> Inl ErrNotAnObject)"

definition typeOf :: "object \<Rightarrow> doc_error + string" where
  "typeOf obj =
     (case map_of obj ''type'' of
        Some (JStr b) \<Rightarrow>
          (case unquote b of
             Some t \<Rightarrow> if t = '''' then Inl ErrNoType else Inr t
           | None \<Rightarrow> Inl ErrNoType)
      | _ \<Rightarrow> Inl ErrNoType)"

definition elem_value :: "string \<times> json \<times> string \<Rightarrow> json" where
  "elem_value e = fst (snd e)"

text \<open>\<open>object.array\<close>: absent or null is \<^term>\<open>None\<close>.\<close>

definition obj_array :: "object \<Rightarrow> string \<Rightarrow> doc_error + json list option" where
  "obj_array obj member =
     (case map_of obj member of
        None \<Rightarrow> Inr None
      | Some raw \<Rightarrow>
          if raw = JLit ''null'' then Inr None
          else (case raw of JArr w xs \<Rightarrow> Inr (Some (map elem_value xs)) | _ \<Rightarrow> Inl (ErrNotAnArray member)))"

definition array_items :: "object \<Rightarrow> string \<Rightarrow> doc_error + json list" where
  "array_items obj member =
     (case obj_array obj member of Inl e \<Rightarrow> Inl e | Inr None \<Rightarrow> Inr [] | Inr (Some items) \<Rightarrow> Inr items)"

definition attrString :: "object \<Rightarrow> string \<Rightarrow> string option" where
  "attrString obj name =
     (case map_of obj ''attrs'' of
        Some (JObj w ms) \<Rightarrow>
          (case map_of (raw_members ms) name of
             Some (JStr b) \<Rightarrow> unquote b
           | Some (JLit l) \<Rightarrow> if l = ''null'' then Some '''' else None
           | _ \<Rightarrow> None)
      | _ \<Rightarrow> None)"

definition memberOrder :: "string list" where
  "memberOrder = [''type'', ''attrs'', ''content'', ''marks'', ''text'']"

definition ordered_members :: "object \<Rightarrow> object" where
  "ordered_members obj =
     List.map_filter (\<lambda>k. map_option (Pair k) (map_of obj k)) memberOrder @
     filter (\<lambda>(k, v). \<not> List.member memberOrder k) obj"

definition encode_object :: "object \<Rightarrow> json" where
  "encode_object obj = JObj [] (map (\<lambda>(k, v). ([], quote k, [], [], v, [])) (ordered_members obj))"

definition encodeArray :: "json list \<Rightarrow> json" where
  "encodeArray items = JArr [] (map (\<lambda>v. ([], v, [])) items)"

section \<open>The schema\<close>

definition schema_nodes :: "string list" where
  "schema_nodes =
     [''doc'', ''paragraph'', ''text'', ''hardBreak'', ''heading'', ''bulletList'', ''orderedList'',
      ''listItem'', ''taskList'', ''taskItem'', ''blockquote'', ''codeBlock'', ''horizontalRule'', ''table'',
      ''tableRow'', ''tableHeader'', ''tableCell'', ''image'', ''panel'', ''expand'', ''statusLozenge'',
      ''tableOfContents'', ''layout'', ''layoutColumn'', ''childrenDisplay'', ''pageInclude'', ''inlineTag'',
      ''unknownContent'', ''unknownInline'']"

definition schema_marks :: "string list" where
  "schema_marks = [''bold'', ''italic'', ''strike'', ''code'', ''link'', ''unknownMark'']"

definition schema_inline_nodes :: "string list" where
  "schema_inline_nodes = [''text'', ''hardBreak'', ''statusLozenge'', ''inlineTag'', ''unknownInline'']"

definition schema_inline_content :: "string list" where
  "schema_inline_content = [''paragraph'', ''heading'', ''codeBlock'']"

abbreviation NodeUnknownContent :: string where "NodeUnknownContent \<equiv> ''unknownContent''"
abbreviation NodeUnknownInline :: string where "NodeUnknownInline \<equiv> ''unknownInline''"
abbreviation MarkUnknownMark :: string where "MarkUnknownMark \<equiv> ''unknownMark''"

definition KnownNode :: "string \<Rightarrow> bool" where "KnownNode t \<longleftrightarrow> List.member schema_nodes t"
definition KnownMark :: "string \<Rightarrow> bool" where "KnownMark t \<longleftrightarrow> List.member schema_marks t"
definition isInlineNode :: "string \<Rightarrow> bool" where "isInlineNode t \<longleftrightarrow> List.member schema_inline_nodes t"
definition hasInlineContent :: "string \<Rightarrow> bool" where "hasInlineContent t \<longleftrightarrow> List.member schema_inline_content t"


section \<open>Validation\<close>

lemma obj_set_values: "(k', v') \<in> set (obj_set k v m) \<Longrightarrow> (k' = k \<and> v' = v) \<or> (k', v') \<in> set m"
  by (induction k v m rule: obj_set.induct) (auto split: if_splits)

lemma fold_members_values:
  "(k, v) \<in> set (fold (\<lambda>(a, k, b, c, v, d) m. case unquote k of None \<Rightarrow> m | Some k' \<Rightarrow> obj_set k' v m) ms m0) \<Longrightarrow>
     (k, v) \<in> set m0 \<or> (\<exists>a k' b c d. (a, k', b, c, v, d) \<in> set ms \<and> unquote k' = Some k)"
proof (induction ms arbitrary: m0)
  case (Cons m ms)
  obtain a k' b c v' d where m: "m = (a, k', b, c, v', d)" by (cases m)
  from Cons.prems show ?case
    by (auto simp: m dest!: Cons.IH obj_set_values split: option.splits) blast+
qed simp

lemma raw_members_values:
  "(k, v) \<in> set (raw_members ms) \<Longrightarrow> \<exists>a k' b c d. (a, k', b, c, v, d) \<in> set ms \<and> unquote k' = Some k"
  using fold_members_values unfolding raw_members_def by fastforce

lemma member_size: "(a, k', b, c, v, d) \<in> set ms \<Longrightarrow> size v < size (JObj w ms)"
  by (induction ms) auto

lemma object_member_size: "decodeObject raw = Inr obj \<Longrightarrow> map_of obj k = Some v \<Longrightarrow> size v < size raw"
  using raw_members_values member_size
  by (cases raw) (force simp: decodeObject_def dest!: map_of_SomeD)+

lemma elems_size: "size_list size (map elem_value xs) < size (JArr w xs)"
  by (induction xs) (auto simp: elem_value_def)

lemma array_items_size:
  assumes "decodeObject raw = Inr obj" and "array_items obj k = Inr items"
  shows "size_list size items < size raw"
proof -
  have "items = [] \<or> (\<exists>w xs. map_of obj k = Some (JArr w xs) \<and> items = map elem_value xs)"
    using assms(2) by (auto simp: array_items_def obj_array_def split: option.splits if_splits json.splits)
  moreover have "0 < size raw" using assms(1) by (cases raw) (auto simp: decodeObject_def)
  ultimately show ?thesis
    using object_member_size [OF assms(1), of k] elems_size by (elim disjE exE conjE) (auto simp del: json.size, metis less_trans)
qed

function walkTypes :: "json \<Rightarrow> doc_error + unit" and walkTypes_all :: "json list \<Rightarrow> doc_error + unit" where
  "walkTypes raw =
     (case decodeObject raw of
        Inl e \<Rightarrow> Inl e
      | Inr obj \<Rightarrow>
          (case typeOf obj of
             Inl e \<Rightarrow> Inl e
           | Inr _ \<Rightarrow>
               (case array_items obj ''content'' of
                  Inl e \<Rightarrow> Inl e
                | Inr content \<Rightarrow>
                    (case walkTypes_all content of
                       Inl e \<Rightarrow> Inl e
                     | Inr _ \<Rightarrow>
                         (case array_items obj ''marks'' of Inl e \<Rightarrow> Inl e | Inr marks \<Rightarrow> walkTypes_all marks)))))"
| "walkTypes_all [] = Inr ()"
| "walkTypes_all (item # items) =
     (case walkTypes item of Inl e \<Rightarrow> Inl e | Inr _ \<Rightarrow> walkTypes_all items)"
  by pat_completeness auto
termination
  by (relation "measure (case_sum size (size_list size))") (auto dest: array_items_size)

declare walkTypes.simps [simp del]

definition Validate :: "string \<Rightarrow> doc_error + json" where
  "Validate raw =
     (case json_parse raw of
        None \<Rightarrow> Inl ErrNotAnObject
      | Some root \<Rightarrow>
          (case decodeObject root of
             Inl e \<Rightarrow> Inl e
           | Inr obj \<Rightarrow>
               (case typeOf obj of
                  Inl e \<Rightarrow> Inl e
                | Inr t \<Rightarrow>
                    if t \<noteq> ''doc'' then Inl (ErrNotADoc t)
                    else (case walkTypes root of Inl e \<Rightarrow> Inl e | Inr _ \<Rightarrow> Inr root))))"

section \<open>Plain text\<close>

definition maxPlainTextBytes :: nat where "maxPlainTextBytes = 2000"

text \<open>A number \<^verbatim>\<open>strconv.ParseFloat\<close> refuses: its value rounds to an infinity.\<close>

definition digits_nat :: "string \<Rightarrow> nat" where
  "digits_nat ds = foldl (\<lambda>n c. 10 * n + (of_char c - 48)) 0 ds"

definition float_overflows :: "string \<Rightarrow> bool" where
  "float_overflows n =
     (let s = (case n of c # r \<Rightarrow> if c = CHR ''-'' then r else n | [] \<Rightarrow> n);
          int = takeWhile is_digit s;
          s1 = dropWhile is_digit s;
          frac = (case s1 of c # r \<Rightarrow> if c = CHR ''.'' then takeWhile is_digit r else [] | [] \<Rightarrow> []);
          s2 = (case s1 of c # r \<Rightarrow> if c = CHR ''.'' then dropWhile is_digit r else s1 | [] \<Rightarrow> []);
          neg = (case s2 of c # g # r \<Rightarrow> g = CHR ''-'' | _ \<Rightarrow> False);
          e = digits_nat (filter is_digit s2);
          m = digits_nat (int @ frac);
          limit = 2 ^ 1024 - 2 ^ 970
      in if neg then limit * 10 ^ (e + length frac) \<le> m else limit * 10 ^ length frac \<le> m * 10 ^ e)"

fun floats_ok :: "json \<Rightarrow> bool"
  and floats_ok_elems :: "(string \<times> json \<times> string) list \<Rightarrow> bool"
  and floats_ok_members :: "(string \<times> string \<times> string \<times> string \<times> json \<times> string) list \<Rightarrow> bool" where
  "floats_ok (JLit s) \<longleftrightarrow> True"
| "floats_ok (JNum s) \<longleftrightarrow> \<not> float_overflows s"
| "floats_ok (JStr b) \<longleftrightarrow> True"
| "floats_ok (JArr w xs) \<longleftrightarrow> floats_ok_elems xs"
| "floats_ok (JObj w ms) \<longleftrightarrow> floats_ok_members ms"
| "floats_ok_elems [] \<longleftrightarrow> True"
| "floats_ok_elems ((a, v, b) # xs) \<longleftrightarrow> floats_ok v \<and> floats_ok_elems xs"
| "floats_ok_members [] \<longleftrightarrow> True"
| "floats_ok_members ((a, k, b, c, v, d) # ms) \<longleftrightarrow> floats_ok v \<and> floats_ok_members ms"

definition isProseMember :: "string \<Rightarrow> bool" where
  "isProseMember key \<longleftrightarrow> key \<noteq> ''type'' \<and> \<not> HasPrefix key ''az_''"

function collectStringLeavesValue :: "nat \<Rightarrow> json \<Rightarrow> string list"
  and collectStringLeaves_all :: "nat \<Rightarrow> json list \<Rightarrow> string list" where
  "collectStringLeavesValue depth v =
     (if maxDepth < depth then []
      else case v of
        JStr b \<Rightarrow>
          (case unquote b of
             None \<Rightarrow> []
           | Some s \<Rightarrow> if TrimSpace s = '''' then [] else [TrimSpace s])
      | JArr w xs \<Rightarrow> collectStringLeaves_all (depth + 1) (map elem_value xs)
      | JObj w ms \<Rightarrow>
          collectStringLeaves_all (depth + 1) (map snd (filter (\<lambda>(k, v). isProseMember k) (raw_members ms)))
      | _ \<Rightarrow> [])"
| "collectStringLeaves_all depth [] = []"
| "collectStringLeaves_all depth (v # vs) = collectStringLeavesValue depth v @ collectStringLeaves_all depth vs"
  by pat_completeness auto
termination
  by (relation "case_sum (\<lambda>(d, v). 202 - d) (\<lambda>(d, vs). 202 - d) <*mlex*>
        measure (case_sum (\<lambda>(d, v). 0) (\<lambda>(d, vs). length vs))")
    (auto simp: mlex_prod_def maxDepth_def)

declare collectStringLeavesValue.simps [simp del]

definition collectStringLeaves :: "json \<Rightarrow> string list" where
  "collectStringLeaves raw = (if floats_ok raw then collectStringLeavesValue 0 raw else [])"

function collectTextMembers :: "nat \<Rightarrow> json \<Rightarrow> string list"
  and collectTextMembers_all :: "nat \<Rightarrow> json list \<Rightarrow> string list" where
  "collectTextMembers depth raw =
     (if maxDepth < depth then []
      else case decodeObject raw of
        Inl _ \<Rightarrow> []
      | Inr obj \<Rightarrow>
          (case map_of obj ''text'' of
             Some (JStr b) \<Rightarrow> (case unquote b of Some s \<Rightarrow> if s \<noteq> '''' then [s] else [] | None \<Rightarrow> [])
           | _ \<Rightarrow> []) @
          (case array_items obj ''content'' of
             Inl _ \<Rightarrow> [] | Inr items \<Rightarrow> collectTextMembers_all (depth + 1) items) @
          (case array_items obj ''marks'' of
             Inl _ \<Rightarrow> [] | Inr items \<Rightarrow> collectTextMembers_all (depth + 1) items))"
| "collectTextMembers_all depth [] = []"
| "collectTextMembers_all depth (v # vs) = collectTextMembers depth v @ collectTextMembers_all depth vs"
  by pat_completeness auto
termination
  by (relation "case_sum (\<lambda>(d, v). 202 - d) (\<lambda>(d, vs). 202 - d) <*mlex*>
        measure (case_sum (\<lambda>(d, v). 0) (\<lambda>(d, vs). length vs))")
    (auto simp: mlex_prod_def maxDepth_def)

declare collectTextMembers.simps [simp del]

definition utf8Start :: "char \<Rightarrow> bool" where
  "utf8Start b \<longleftrightarrow> (of_char b :: nat) div 64 \<noteq> 2"

fun text_cut :: "string \<Rightarrow> nat \<Rightarrow> nat" where
  "text_cut s 0 = 0"
| "text_cut s (Suc n) = (if utf8Start (s ! Suc n) then Suc n else text_cut s n)"

definition truncate_text :: "string \<Rightarrow> nat \<Rightarrow> string" where
  "truncate_text s limit = (if length s \<le> limit then s else take (text_cut s limit) s)"

definition PlainText :: "json \<Rightarrow> string" where
  "PlainText raw =
     (let texts = collectTextMembers 0 raw;
          leaves = (if texts = [] then collectStringLeaves raw else texts)
      in truncate_text (TrimSpace (JoinWith '' '' leaves)) maxPlainTextBytes)"

definition PreservedName :: "json \<Rightarrow> string" where
  "PreservedName original =
     (case decodeObject original of
        Inl _ \<Rightarrow> ''''
      | Inr obj \<Rightarrow> (case typeOf obj of Inl _ \<Rightarrow> '''' | Inr t \<Rightarrow> t))"


section \<open>Inline tags and images\<close>

definition maxInlineTagsPerDocument :: nat where "maxInlineTagsPerDocument = 50"

text \<open>The labels found so far stand for the ones seen: a label is seen when its lower-cased form is
  that of one of them. The lower-casing (\<^verbatim>\<open>strings.ToLower\<close>, by the Unicode tables) is
  an argument.\<close>

definition recordTagLabel :: "(string \<Rightarrow> string) \<Rightarrow> object \<Rightarrow> string list \<Rightarrow> string list" where
  "recordTagLabel lower obj out =
     (if maxInlineTagsPerDocument \<le> length out then out
      else case attrString obj ''label'' of
        None \<Rightarrow> out
      | Some label \<Rightarrow>
          let label = TrimSpace label in
          if label = '''' \<or> List.member (map lower out) (lower label) then out else out @ [label])"

definition recordImageID :: "object \<Rightarrow> string list \<Rightarrow> string list" where
  "recordImageID obj out =
     (case attrString obj ''attachment_id'' of
        None \<Rightarrow> out
      | Some i \<Rightarrow> if i = '''' \<or> List.member out i then out else out @ [i])"

text \<open>Both walks have one shape: \<open>collectTagLabels\<close> and \<open>collectImageIDs\<close> differ in the node type
  they read and in what they record.\<close>

function collect_nodes :: "string \<Rightarrow> (object \<Rightarrow> string list \<Rightarrow> string list) \<Rightarrow> nat \<Rightarrow> json \<Rightarrow> string list \<Rightarrow> doc_error + string list"
  and collect_all :: "string \<Rightarrow> (object \<Rightarrow> string list \<Rightarrow> string list) \<Rightarrow> nat \<Rightarrow> json list \<Rightarrow> string list \<Rightarrow> doc_error + string list" where
  "collect_nodes ty record depth raw out =
     (if maxDepth < depth then Inl ErrTooDeep
      else case decodeObject raw of
        Inl e \<Rightarrow> Inl e
      | Inr obj \<Rightarrow>
          (case typeOf obj of
             Inl e \<Rightarrow> Inl e
           | Inr t \<Rightarrow>
               (let out = (if t = ty then record obj out else out) in
                if t = NodeUnknownContent \<or> t = NodeUnknownInline then Inr out
                else case array_items obj ''content'' of
                  Inl e \<Rightarrow> Inl e
                | Inr items \<Rightarrow>
                    (case collect_all ty record (depth + 1) items out of
                       Inl e \<Rightarrow> Inl e
                     | Inr out \<Rightarrow>
                         (case array_items obj ''marks'' of
                            Inl e \<Rightarrow> Inl e
                          | Inr marks \<Rightarrow> collect_all ty record (depth + 1) marks out)))))"
| "collect_all ty record depth [] out = Inr out"
| "collect_all ty record depth (v # vs) out =
     (case collect_nodes ty record depth v out of Inl e \<Rightarrow> Inl e | Inr out \<Rightarrow> collect_all ty record depth vs out)"
  by pat_completeness auto
termination
  by (relation "case_sum (\<lambda>(ty, f, d, v, out). 202 - d) (\<lambda>(ty, f, d, vs, out). 202 - d) <*mlex*>
        measure (case_sum (\<lambda>(ty, f, d, v, out). 0) (\<lambda>(ty, f, d, vs, out). length vs))")
    (auto simp: mlex_prod_def maxDepth_def)

declare collect_nodes.simps [simp del]

definition collectTagLabels :: "(string \<Rightarrow> string) \<Rightarrow> json \<Rightarrow> doc_error + string list" where
  "collectTagLabels lower root = collect_nodes ''inlineTag'' (recordTagLabel lower) 0 root []"

definition collectImageIDs :: "json \<Rightarrow> doc_error + string list" where
  "collectImageIDs root = collect_nodes ''image'' recordImageID 0 root []"

definition InlineTagLabels :: "(string \<Rightarrow> string) \<Rightarrow> string \<Rightarrow> doc_error + string list" where
  "InlineTagLabels lower document =
     (case Validate document of Inl e \<Rightarrow> Inl e | Inr root \<Rightarrow> collectTagLabels lower root)"

definition ImageAttachmentIDs :: "string \<Rightarrow> doc_error + string list" where
  "ImageAttachmentIDs document =
     (case Validate document of Inl e \<Rightarrow> Inl e | Inr root \<Rightarrow> collectImageIDs root)"

definition SupportedImageType :: "(string \<Rightarrow> string) \<Rightarrow> string \<Rightarrow> bool" where
  "SupportedImageType lower contentType =
     List.member [''image/png'', ''image/jpeg'', ''image/webp'', ''image/gif'']
       (lower (TrimSpace (takeWhile (\<lambda>c. c \<noteq> CHR '';'') contentType)))"

end
