(* ===== verification/DocShield.thy ===== *)
theory DocShield
  imports DocModel
begin

text \<open>
  Preservation, \<^verbatim>\<open>internal/core/wiki/doc/shield.go\<close>: \<open>Shield\<close> replaces every node and
  mark outside the schema by a placeholder and keeps the originals, \<open>Restore\<close> puts them back.
\<close>

section \<open>Placeholders\<close>

definition json_string :: "string \<Rightarrow> json" where
  "json_string s = JStr (quote s)"

definition plain_object :: "(string \<times> json) list \<Rightarrow> json" where
  "plain_object ms = JObj [] (map (\<lambda>(k, v). ([], k, [], [], v, [])) ms)"

definition placeholder :: "string \<Rightarrow> string \<Rightarrow> string \<Rightarrow> json \<Rightarrow> json" where
  "placeholder placeholderType i name original =
     plain_object
       [(''type'', json_string placeholderType),
        (''attrs'', plain_object
          [(''az_id'', json_string i), (''az_name'', json_string name), (''az_source'', json_string ''document''),
           (''az_raw'', json_string (render original)), (''az_text'', json_string (PlainText original))])]"

section \<open>Shield\<close>

record shielder =
  sh_n :: nat
  sh_captured :: "(string \<times> json) list"
  sh_order :: "string list"

definition placeholder_id :: "nat \<Rightarrow> string" where
  "placeholder_id n = CHR ''u'' # decimal n"

definition capture :: "string \<Rightarrow> json \<Rightarrow> string \<Rightarrow> shielder \<Rightarrow> json \<times> shielder" where
  "capture placeholderType raw originalType s =
     (let n = sh_n s + 1; i = placeholder_id n in
      (placeholder placeholderType i originalType raw,
       \<lparr>sh_n = n, sh_captured = AList.update i raw (sh_captured s), sh_order = sh_order s @ [i]\<rparr>))"

fun childrenAreInline_from :: "json list \<Rightarrow> doc_error + bool" where
  "childrenAreInline_from [] = Inr False"
| "childrenAreInline_from (child # children) =
     (case decodeObject child of
        Inl e \<Rightarrow> Inl e
      | Inr obj \<Rightarrow>
          (case typeOf obj of
             Inl e \<Rightarrow> Inl e
           | Inr childType \<Rightarrow> if isInlineNode childType then Inr True else childrenAreInline_from children))"

definition childrenAreInline :: "string \<Rightarrow> json list \<Rightarrow> doc_error + bool" where
  "childrenAreInline parentType children =
     (if hasInlineContent parentType then Inr True else childrenAreInline_from children)"

definition inlinePositionOf :: "object \<Rightarrow> string \<Rightarrow> doc_error + bool" where
  "inlinePositionOf obj nodeType =
     (case obj_array obj ''content'' of
        Inl e \<Rightarrow> Inl e
      | Inr None \<Rightarrow> Inr False
      | Inr (Some content) \<Rightarrow> childrenAreInline nodeType content)"

definition shield_mark :: "json \<Rightarrow> shielder \<Rightarrow> doc_error + json \<times> shielder" where
  "shield_mark raw s =
     (case decodeObject raw of
        Inl e \<Rightarrow> Inl e
      | Inr obj \<Rightarrow>
          (case typeOf obj of
             Inl e \<Rightarrow> Inl e
           | Inr markType \<Rightarrow> if KnownMark markType then Inr (raw, s) else Inr (capture MarkUnknownMark raw markType s)))"

fun shield_marks :: "json list \<Rightarrow> shielder \<Rightarrow> doc_error + json list \<times> shielder" where
  "shield_marks [] s = Inr ([], s)"
| "shield_marks (m # ms) s =
     (case shield_mark m s of
        Inl e \<Rightarrow> Inl e
      | Inr (m', s) \<Rightarrow> (case shield_marks ms s of Inl e \<Rightarrow> Inl e | Inr (ms', s) \<Rightarrow> Inr (m' # ms', s)))"

text \<open>\<open>walkMember\<close> after its transforms: the member is rewritten only when an element changed.\<close>

definition put_member :: "string \<Rightarrow> json list \<Rightarrow> json list \<Rightarrow> object \<Rightarrow> object" where
  "put_member member items out obj = (if out \<noteq> items then obj_set member (encodeArray out) obj else obj)"

function shield_node :: "bool \<Rightarrow> nat \<Rightarrow> json \<Rightarrow> shielder \<Rightarrow> doc_error + json \<times> shielder"
  and shield_nodes :: "bool \<Rightarrow> nat \<Rightarrow> json list \<Rightarrow> shielder \<Rightarrow> doc_error + json list \<times> shielder" where
  "shield_node inl depth raw s =
     (if maxDepth < depth then Inl ErrTooDeep
      else case decodeObject raw of
        Inl e \<Rightarrow> Inl e
      | Inr obj \<Rightarrow>
          (case typeOf obj of
             Inl e \<Rightarrow> Inl e
           | Inr nodeType \<Rightarrow>
               if \<not> KnownNode nodeType
               then Inr (capture (if inl then NodeUnknownInline else NodeUnknownContent) raw nodeType s)
               else
                 (case array_items obj ''marks'' of
                    Inl e \<Rightarrow> Inl e
                  | Inr marks \<Rightarrow>
                 (case shield_marks marks s of
                    Inl e \<Rightarrow> Inl e
                  | Inr (marks', s1) \<Rightarrow>
                 (case inlinePositionOf obj nodeType of
                    Inl e \<Rightarrow> Inl e
                  | Inr childrenInline \<Rightarrow>
                 (case array_items obj ''content'' of
                    Inl e \<Rightarrow> Inl e
                  | Inr content \<Rightarrow>
                 (case shield_nodes childrenInline (depth + 1) content s1 of
                    Inl e \<Rightarrow> Inl e
                  | Inr (content', s2) \<Rightarrow>
                      if marks' = marks \<and> content' = content then Inr (raw, s2)
                      else Inr (encode_object
                        (put_member ''content'' content content' (put_member ''marks'' marks marks' obj)), s2))))))))"
| "shield_nodes inl depth [] s = Inr ([], s)"
| "shield_nodes inl depth (v # vs) s =
     (case shield_node inl depth v s of
        Inl e \<Rightarrow> Inl e
      | Inr (v', s) \<Rightarrow>
          (case shield_nodes inl depth vs s of Inl e \<Rightarrow> Inl e | Inr (vs', s) \<Rightarrow> Inr (v' # vs', s)))"
  by pat_completeness auto
termination
  by (relation "case_sum (\<lambda>(i, d, v, s). 202 - d) (\<lambda>(i, d, vs, s). 202 - d) <*mlex*>
        measure (case_sum (\<lambda>(i, d, v, s). 0) (\<lambda>(i, d, vs, s). length vs))")
    (auto simp: mlex_prod_def maxDepth_def)

declare shield_node.simps [simp del]

record Shielded =
  shd_Document :: string
  shd_Captured :: "(string \<times> json) list"
  shd_Order :: "string list"

definition Shield :: "string \<Rightarrow> doc_error + Shielded" where
  "Shield document =
     (case Validate document of
        Inl e \<Rightarrow> Inl e
      | Inr root \<Rightarrow>
          (case shield_node False 0 root \<lparr>sh_n = 0, sh_captured = [], sh_order = []\<rparr> of
             Inl e \<Rightarrow> Inl e
           | Inr (out, s) \<Rightarrow>
               Inr \<lparr>shd_Document = (if out = root then document else render out),
                    shd_Captured = sh_captured s, shd_Order = sh_order s\<rparr>))"

definition Any :: "Shielded \<Rightarrow> bool" where
  "Any s \<longleftrightarrow> shd_Captured s \<noteq> []"

section \<open>Restore\<close>

record restorer =
  rs_seen :: "string list"
  rs_unresolved :: "string list"

definition restore_placeholder :: "(string \<times> json) list \<Rightarrow> json \<Rightarrow> object \<Rightarrow> restorer \<Rightarrow> doc_error + json \<times> restorer" where
  "restore_placeholder captured raw obj r =
     (case attrString obj ''az_id'' of
        None \<Rightarrow> Inl ErrPlaceholderNoID
      | Some i \<Rightarrow>
          if i = '''' then Inl ErrPlaceholderNoID
          else (case map_of captured i of
                  None \<Rightarrow> Inr (raw, r\<lparr>rs_unresolved := rs_unresolved r @ [i]\<rparr>)
                | Some original \<Rightarrow> Inr (original, r\<lparr>rs_seen := rs_seen r @ [i]\<rparr>)))"

definition restore_mark :: "(string \<times> json) list \<Rightarrow> json \<Rightarrow> restorer \<Rightarrow> doc_error + json \<times> restorer" where
  "restore_mark captured raw r =
     (case decodeObject raw of
        Inl e \<Rightarrow> Inl e
      | Inr obj \<Rightarrow>
          (case typeOf obj of
             Inl e \<Rightarrow> Inl e
           | Inr markType \<Rightarrow>
               if markType \<noteq> MarkUnknownMark then Inr (raw, r) else restore_placeholder captured raw obj r))"

fun restore_marks :: "(string \<times> json) list \<Rightarrow> json list \<Rightarrow> restorer \<Rightarrow> doc_error + json list \<times> restorer" where
  "restore_marks captured [] r = Inr ([], r)"
| "restore_marks captured (m # ms) r =
     (case restore_mark captured m r of
        Inl e \<Rightarrow> Inl e
      | Inr (m', r) \<Rightarrow> (case restore_marks captured ms r of Inl e \<Rightarrow> Inl e | Inr (ms', r) \<Rightarrow> Inr (m' # ms', r)))"

function restore_node :: "(string \<times> json) list \<Rightarrow> nat \<Rightarrow> json \<Rightarrow> restorer \<Rightarrow> doc_error + json \<times> restorer"
  and restore_nodes :: "(string \<times> json) list \<Rightarrow> nat \<Rightarrow> json list \<Rightarrow> restorer \<Rightarrow> doc_error + json list \<times> restorer" where
  "restore_node captured depth raw r =
     (if maxDepth < depth then Inl ErrTooDeep
      else case decodeObject raw of
        Inl e \<Rightarrow> Inl e
      | Inr obj \<Rightarrow>
          (case typeOf obj of
             Inl e \<Rightarrow> Inl e
           | Inr nodeType \<Rightarrow>
               if nodeType = NodeUnknownContent \<or> nodeType = NodeUnknownInline
               then restore_placeholder captured raw obj r
               else
                 (case array_items obj ''marks'' of
                    Inl e \<Rightarrow> Inl e
                  | Inr marks \<Rightarrow>
                 (case restore_marks captured marks r of
                    Inl e \<Rightarrow> Inl e
                  | Inr (marks', r1) \<Rightarrow>
                 (case array_items obj ''content'' of
                    Inl e \<Rightarrow> Inl e
                  | Inr content \<Rightarrow>
                 (case restore_nodes captured (depth + 1) content r1 of
                    Inl e \<Rightarrow> Inl e
                  | Inr (content', r2) \<Rightarrow>
                      if marks' = marks \<and> content' = content then Inr (raw, r2)
                      else Inr (encode_object
                        (put_member ''content'' content content' (put_member ''marks'' marks marks' obj)), r2)))))))"
| "restore_nodes captured depth [] r = Inr ([], r)"
| "restore_nodes captured depth (v # vs) r =
     (case restore_node captured depth v r of
        Inl e \<Rightarrow> Inl e
      | Inr (v', r) \<Rightarrow>
          (case restore_nodes captured depth vs r of Inl e \<Rightarrow> Inl e | Inr (vs', r) \<Rightarrow> Inr (v' # vs', r)))"
  by pat_completeness auto
termination
  by (relation "case_sum (\<lambda>(c, d, v, r). 202 - d) (\<lambda>(c, d, vs, r). 202 - d) <*mlex*>
        measure (case_sum (\<lambda>(c, d, v, r). 0) (\<lambda>(c, d, vs, r). length vs))")
    (auto simp: mlex_prod_def maxDepth_def)

declare restore_node.simps [simp del]

record Restored =
  rsd_Document :: string
  rsd_Dropped :: "string list"
  rsd_Unresolved :: "string list"

definition Restore :: "string \<Rightarrow> Shielded \<Rightarrow> doc_error + Restored" where
  "Restore document base =
     (case Validate document of
        Inl e \<Rightarrow> Inl e
      | Inr root \<Rightarrow>
          (case restore_node (shd_Captured base) 0 root \<lparr>rs_seen = [], rs_unresolved = []\<rparr> of
             Inl e \<Rightarrow> Inl e
           | Inr (out, r) \<Rightarrow>
               Inr \<lparr>rsd_Document = (if out = root then document else render out),
                    rsd_Dropped = filter (\<lambda>i. \<not> List.member (rs_seen r) i) (shd_Order base),
                    rsd_Unresolved = rs_unresolved r\<rparr>))"

end
