(* ===== verification/DocObjects.thy ===== *)
theory DocObjects
  imports DocShield
begin

text \<open>
  What the document walks do to an object: setting a member, encoding it again, and the shape of a
  placeholder.
\<close>

section \<open>Sorted members\<close>

definition obj_ok :: "object \<Rightarrow> bool" where
  "obj_ok m \<longleftrightarrow> sorted_wrt (<) (map fst m) \<and> (\<forall>k \<in> set (map fst m). ValidString k)"

lemma map_of_obj_set: "map_of (obj_set k v m) = (map_of m)(k \<mapsto> v)"
  by (induction k v m rule: obj_set.induct) (auto simp: fun_eq_iff)

lemma keys_obj_set: "fst ` set (obj_set k v m) = insert k (fst ` set m)"
  by (induction k v m rule: obj_set.induct) auto

lemma obj_set_sorted: "sorted_wrt (<) (map fst m) \<Longrightarrow> sorted_wrt (<) (map fst (obj_set k v m))"
  by (induction k v m rule: obj_set.induct) (use keys_obj_set in \<open>fastforce+\<close>)

lemma obj_set_ok: "obj_ok m \<Longrightarrow> ValidString k \<Longrightarrow> obj_ok (obj_set k v m)"
  using obj_set_sorted keys_obj_set by (auto simp: obj_ok_def)

lemma sorted_keys_distinct: "sorted_wrt (<) ks \<Longrightarrow> distinct (ks :: string list)"
  using strict_sorted_iff by blast

lemma obj_ok_distinct: "obj_ok m \<Longrightarrow> distinct (map fst m)"
  by (simp add: obj_ok_def sorted_keys_distinct)

text \<open>Objects with the same keys and values are the same list.\<close>

lemma obj_eqI:
  assumes "obj_ok m" "obj_ok n" "map_of m = map_of n" shows "m = n"
proof -
  have d: "distinct (map fst m)" "distinct (map fst n)" using assms obj_ok_distinct by blast+
  have "set m = set n"
    using map_of_eq_Some_iff [OF d(1)] map_of_eq_Some_iff [OF d(2)] assms(3) by (metis subrelI subset_antisym)
  then have k: "map fst m = map fst n"
    using assms(1,2) by (intro sorted_distinct_set_unique)
      (auto simp: obj_ok_def strict_sorted_iff)
  show ?thesis
  proof (rule nth_equalityI)
    show l: "length m = length n" using k by (metis length_map)
    show "m ! i = n ! i" if "i < length m" for i
    proof (rule prod_eqI)
      show f: "fst (m ! i) = fst (n ! i)" using k that l by (metis nth_map)
      have "map_of m (fst (m ! i)) = Some (snd (m ! i))" "map_of n (fst (n ! i)) = Some (snd (n ! i))"
        using d that l by (simp_all add: map_of_eq_Some_iff)
      then show "snd (m ! i) = snd (n ! i)" using f assms(3) by simp
    qed
  qed
qed

text \<open>Decoding gives a sorted object whose keys are well-formed text.\<close>

lemma raw_members_ok: "obj_ok (raw_members ms)"
proof -
  have "obj_ok (fold (\<lambda>(a, k, b, c, v, d) m. case unquote k of None \<Rightarrow> m | Some k' \<Rightarrow> obj_set k' v m) ms m0)"
    if "obj_ok m0" for m0
    using that
  proof (induction ms arbitrary: m0)
    case (Cons x ms)
    obtain a k b c v d where x: "x = (a, k, b, c, v, d)" by (cases x)
    show ?case
      using Cons obj_set_ok [OF Cons.prems unquote_valid] by (cases "unquote k") (simp_all add: x)
  qed simp
  moreover have "obj_ok []" by (simp add: obj_ok_def)
  ultimately show ?thesis unfolding raw_members_def by blast
qed

lemma decodeObject_ok: "decodeObject t = Inr m \<Longrightarrow> obj_ok m"
  by (cases t) (auto simp: decodeObject_def raw_members_ok)

section \<open>Encoding an object and decoding it\<close>

lemma map_of_fold_members:
  assumes "distinct (map fst xs)" and "\<forall>(k, v) \<in> set xs. unquote (q k) = Some k"
  shows "map_of (fold (\<lambda>(a, k, b, c, v, d) m. case unquote k of None \<Rightarrow> m | Some k' \<Rightarrow> obj_set k' v m)
      (map (\<lambda>(k, v). ([], q k, [], [], v, [])) xs) m0) = map_of m0 ++ map_of xs"
  using assms
proof (induction xs arbitrary: m0)
  case (Cons x xs)
  obtain k v where x: "x = (k, v)" by (cases x)
  have "map_of xs k = None" using Cons.prems(1) by (simp add: x map_of_eq_None_iff)
  then have "map_of (obj_set k v m0) ++ map_of xs = map_of m0 ++ map_of (x # xs)"
    by (auto simp: x map_of_obj_set map_add_def fun_eq_iff split: option.split)
  then show ?case using Cons by (simp add: x del: map_of.simps)
qed simp

lemma decode_members:
  assumes "distinct (map fst xs)" and "\<forall>(k, v) \<in> set xs. unquote (q k) = Some k" and "obj_ok m" and "map_of m = map_of xs"
  shows "decodeObject (JObj [] (map (\<lambda>(k, v). ([], q k, [], [], v, [])) xs)) = Inr m"
  using map_of_fold_members [OF assms(1,2), of "[]"] obj_eqI [OF raw_members_ok assms(3)] assms(4)
  by (simp add: decodeObject_def raw_members_def)

lemma map_filter_order:
  assumes "distinct ks"
  shows "map_of (List.map_filter (\<lambda>k. map_option (Pair k) (m k)) ks) k = (if k \<in> set ks then m k else None)"
    and "fst ` set (List.map_filter (\<lambda>k. map_option (Pair k) (m k)) ks) = {k \<in> set ks. m k \<noteq> None}"
    and "distinct (map fst (List.map_filter (\<lambda>k. map_option (Pair k) (m k)) ks))"
proof -
  show s: "fst ` set (List.map_filter (\<lambda>k. map_option (Pair k) (m k)) ks) = {k \<in> set ks. m k \<noteq> None}" for ks
    by (induction ks) (auto simp: List.map_filter_simps split: option.splits)
  show "map_of (List.map_filter (\<lambda>k. map_option (Pair k) (m k)) ks) k = (if k \<in> set ks then m k else None)"
    by (induction ks) (auto simp: List.map_filter_simps split: option.splits)
  show "distinct (map fst (List.map_filter (\<lambda>k. map_option (Pair k) (m k)) ks))"
    using assms by (induction ks) (auto simp: List.map_filter_simps s [unfolded image_def] image_def split: option.splits)
qed

lemma ordered_members_same:
  assumes "obj_ok m"
  shows "map_of (ordered_members m) = map_of m" and "distinct (map fst (ordered_members m))"
    and "set (ordered_members m) \<subseteq> set m"
proof -
  have d: "distinct memberOrder" by (simp add: memberOrder_def)
  have dm: "distinct (map fst m)" using assms by (rule obj_ok_distinct)
  let ?rest = "filter (\<lambda>(k, v). \<not> List.member memberOrder k) m"
  have r: "map_of (filter (\<lambda>(k, v). k \<notin> set memberOrder) m) k = (if k \<in> set memberOrder then None else map_of m k)" for k
  proof (induction m)
    case (Cons x m)
    then show ?case by (cases x) auto
  qed simp
  show o: "map_of (ordered_members m) = map_of m"
    unfolding ordered_members_def
    by (rule ext) (auto simp: map_add_def map_filter_order [OF d] r split: option.split)
  have "distinct (map fst ?rest)" using dm by (simp add: distinct_map_filter)
  moreover have "fst ` set ?rest \<inter> set memberOrder = {}" by auto
  ultimately show dd: "distinct (map fst (ordered_members m))"
    unfolding ordered_members_def map_append distinct_append set_map map_filter_order(2) [OF d]
    using map_filter_order(3) [OF d] by blast
  show "set (ordered_members m) \<subseteq> set m"
  proof
    fix x assume "x \<in> set (ordered_members m)"
    then have "map_of (ordered_members m) (fst x) = Some (snd x)"
      using map_of_eq_Some_iff [OF dd] by simp
    then show "x \<in> set m" using o map_of_eq_Some_iff [OF dm] by simp
  qed
qed

lemma decode_encode: "obj_ok m \<Longrightarrow> decodeObject (encode_object m) = Inr m"
  unfolding encode_object_def
proof (rule decode_members)
  assume m: "obj_ok m"
  show "distinct (map fst (ordered_members m))" "map_of m = map_of (ordered_members m)" "obj_ok m"
    using ordered_members_same [OF m] m by simp_all
  show "\<forall>(k, v) \<in> set (ordered_members m). unquote (quote k) = Some k"
    using ordered_members_same(3) [OF m] m by (force simp: obj_ok_def unquote_quote)
qed


section \<open>Well-formedness and nesting\<close>

lemma wf_members_in: "wf_members ms \<Longrightarrow> (a, k, b, c, v, d) \<in> set ms \<Longrightarrow> wf_json v"
  by (induction ms) auto

lemma nest_members_in: "(a, k, b, c, v, d) \<in> set ms \<Longrightarrow> nest v \<le> nest_members ms"
  by (induction ms) auto

lemma decode_values:
  assumes "decodeObject t = Inr m" and "(k, v) \<in> set m"
  shows "wf_json t \<Longrightarrow> wf_json v" and "Suc (nest v) \<le> nest t"
proof -
  obtain w ms where t: "t = JObj w ms" and m: "m = raw_members ms"
    using assms(1) by (cases t) (auto simp: decodeObject_def)
  from raw_members_values assms(2) obtain a k' b c d where "(a, k', b, c, v, d) \<in> set ms" unfolding m by blast
  then show "wf_json t \<Longrightarrow> wf_json v" "Suc (nest v) \<le> nest t"
    using wf_members_in nest_members_in by (auto simp: t)
qed

lemma elems_in:
  "x \<in> set (map elem_value xs) \<Longrightarrow> wf_elems xs \<Longrightarrow> wf_json x" "x \<in> set (map elem_value xs) \<Longrightarrow> nest x \<le> nest_elems xs"
proof (induction xs)
  case (Cons e xs)
  case 1
  then show ?case using Cons(1) by (cases e) (auto simp: elem_value_def)
next
  case (Cons e xs)
  case 2
  then show ?case using Cons(2) by (cases e) (force simp: elem_value_def le_max_iff_disj)
qed simp_all

lemma array_items_cases:
  assumes "array_items m k = Inr items"
  obtains (none) "items = []" | (some) w xs where "map_of m k = Some (JArr w xs)" "items = map elem_value xs"
  using assms by (auto simp: array_items_def obj_array_def split: option.splits if_splits json.splits)

lemma array_values:
  assumes "decodeObject t = Inr m" and "array_items m k = Inr items" and "x \<in> set items"
  shows "wf_json t \<Longrightarrow> wf_json x" and "Suc (Suc (nest x)) \<le> nest t"
proof -
  obtain w xs where v: "map_of m k = Some (JArr w xs)" "items = map elem_value xs"
    using assms(2,3) by (cases rule: array_items_cases) auto
  note d = decode_values [OF assms(1) map_of_SomeD [OF v(1)]]
  show "wf_json t \<Longrightarrow> wf_json x" "Suc (Suc (nest x)) \<le> nest t"
    using d elems_in [of x xs] assms(3) v(2) by auto
qed

lemma encode_wf:
  assumes "obj_ok m" and "\<forall>(k, v) \<in> set m. wf_json v" shows "wf_json (encode_object m)"
proof -
  have "wf_members (map (\<lambda>(k, v). ([], quote k, [], [], v, [])) xs)" if "set xs \<subseteq> set m" for xs
    using that assms(2) p_str_quote [of _ "[]"] by (induction xs) auto
  then show ?thesis using ordered_members_same(3) [OF assms(1)] by (simp add: encode_object_def)
qed

lemma encode_nest:
  assumes "obj_ok m" and "\<forall>(k, v) \<in> set m. nest v \<le> n" shows "nest (encode_object m) \<le> Suc n"
proof -
  have "nest_members (map (\<lambda>(k, v). ([], quote k, [], [], v, [])) xs) \<le> n" if "set xs \<subseteq> set m" for xs
    using that assms(2) by (induction xs) auto
  then show ?thesis using ordered_members_same(3) [OF assms(1)] by (simp add: encode_object_def)
qed

lemma encodeArray_wf: "\<forall>x \<in> set xs. wf_json x \<Longrightarrow> wf_json (encodeArray xs)"
  by (simp add: encodeArray_def) (induction xs; simp)

lemma encodeArray_nest: "\<forall>x \<in> set xs. nest x \<le> n \<Longrightarrow> nest (encodeArray xs) \<le> Suc n"
  by (simp add: encodeArray_def) (induction xs; simp)

lemma encodeArray_values: "map elem_value (map (\<lambda>v. ([], v, [])) xs) = xs"
  by (simp add: comp_def elem_value_def)

section \<open>Setting an array member\<close>

lemma put_member_map_of:
  "map_of (put_member k items out m) k' =
     (if k' = k \<and> out \<noteq> items then Some (encodeArray out) else map_of m k')"
  by (simp add: put_member_def map_of_obj_set)

lemma put_member_ok: "obj_ok m \<Longrightarrow> ValidString k \<Longrightarrow> obj_ok (put_member k items out m)"
  by (simp add: put_member_def obj_set_ok)

lemma put_member_items:
  assumes "array_items m k = Inr items" shows "array_items (put_member k items out m) k = Inr out"
  using assms
  by (auto simp: array_items_def obj_array_def put_member_map_of encodeArray_def encodeArray_values [unfolded map_map])

lemma put_member_other:
  assumes "k' \<noteq> k"
  shows "array_items (put_member k items out m) k' = array_items m k'"
    and "obj_array (put_member k items out m) k' = obj_array m k'"
    and "map_of (put_member k items out m) k' = map_of m k'"
  using assms by (simp_all add: array_items_def obj_array_def put_member_map_of)

lemma typeOf_put: "k \<noteq> ''type'' \<Longrightarrow> typeOf (put_member k items out m) = typeOf m"
  by (simp add: typeOf_def put_member_map_of)

lemma put_member_values:
  assumes "(k', v) \<in> set (put_member k items out m)"
  shows "(k', v) \<in> set m \<or> (v = encodeArray out \<and> out \<noteq> items)"
  using assms by (auto simp: put_member_def dest: obj_set_values split: if_splits)

lemma obj_set_keys_same: "k \<in> fst ` set m \<Longrightarrow> sorted_wrt (<) (map fst m) \<Longrightarrow> map fst (obj_set k v m) = map fst m"
  by (induction k v m rule: obj_set.induct) auto

lemma put_member_keys:
  assumes "obj_ok m" and "array_items m k = Inr items" and "length out = length items"
  shows "map fst (put_member k items out m) = map fst m"
proof (cases "out = items")
  case False
  then have "items \<noteq> []" using assms(3) by auto
  with assms(2) obtain w xs where "map_of m k = Some (JArr w xs)" by (cases rule: array_items_cases) auto
  then have "k \<in> fst ` set m" by (force dest: map_of_SomeD)
  then show ?thesis using assms(1) obj_set_keys_same False by (simp add: put_member_def obj_ok_def)
qed (simp add: put_member_def)

section \<open>Placeholders\<close>

definition ascii :: "string \<Rightarrow> bool" where
  "ascii s \<longleftrightarrow> list_all (\<lambda>c. (of_char c :: nat) < 0x80) s"

lemma ascii_valid: "ascii s \<Longrightarrow> ValidString s"
proof (induction s)
  case (Cons c s)
  then have "rune_len [c] = length [c]" by (simp add: ascii_def rune_len_alt)
  then show ?case using ValidString_rune [of "[c]" s] Cons by (simp add: ascii_def)
qed simp

definition plain :: "char \<Rightarrow> bool" where
  "plain c \<longleftrightarrow> 0x20 \<le> (of_char c :: nat) \<and> (of_char c :: nat) < 0x80 \<and> c \<noteq> CHR 0x22 \<and> c \<noteq> CHR 0x5C"

lemma unquote_plain: "list_all plain s \<Longrightarrow> unquote s = Some s"
  by (induction s) (auto simp: plain_def unquote.simps(2))

lemma p_str_plain_body: "list_all plain s \<Longrightarrow> p_str (s @ [CHR 0x22]) = Some (s, [])"
  by (induction s) (auto simp: plain_def)

lemma unquote_json_string: "ascii s \<Longrightarrow> unquote (quote s) = Some s"
  by (simp add: ascii_valid unquote_quote)

lemma decode_plain_object:
  assumes "distinct (map fst xs)" and "\<forall>(k, v) \<in> set xs. list_all plain k" and "obj_ok m" and "map_of m = map_of xs"
  shows "decodeObject (plain_object xs) = Inr m"
  using decode_members [of xs "\<lambda>k. k" m] assms unquote_plain unfolding plain_object_def by auto

lemma plain_object_wf:
  assumes "\<forall>(k, v) \<in> set xs. list_all plain k \<and> wf_json v" shows "wf_json (plain_object xs)"
proof -
  have "wf_members (map (\<lambda>(k, v). ([], k, [], [], v, [])) xs)"
    using assms by (induction xs) (auto simp: p_str_plain_body)
  then show ?thesis by (simp add: plain_object_def)
qed

lemma json_string_wf: "wf_json (json_string s)"
  using p_str_quote [of s "[]"] by (simp add: json_string_def)

definition placeholder_attrs :: "string \<Rightarrow> string \<Rightarrow> json \<Rightarrow> (string \<times> json) list" where
  "placeholder_attrs i name original =
     [(''az_id'', json_string i), (''az_name'', json_string name), (''az_source'', json_string ''document''),
      (''az_raw'', json_string (render original)), (''az_text'', json_string (PlainText original))]"

lemma placeholder_alt:
  "placeholder p i name original =
     plain_object [(''type'', json_string p), (''attrs'', plain_object (placeholder_attrs i name original))]"
  by (simp add: placeholder_def placeholder_attrs_def)

lemma placeholder_decode:
  "decodeObject (placeholder p i name original) =
     Inr [(''attrs'', plain_object (placeholder_attrs i name original)), (''type'', json_string p)]"
  unfolding placeholder_alt
  by (rule decode_plain_object) (auto simp: plain_def obj_ok_def ascii_valid ascii_def fun_eq_iff)

lemma attrs_decode:
  "decodeObject (plain_object (placeholder_attrs i name original)) =
     Inr [(''az_id'', json_string i), (''az_name'', json_string name), (''az_raw'', json_string (render original)),
       (''az_source'', json_string ''document''), (''az_text'', json_string (PlainText original))]"
  unfolding placeholder_attrs_def
  by (rule decode_plain_object) (auto simp: plain_def obj_ok_def ascii_valid ascii_def fun_eq_iff)

lemma placeholder_members:
  fixes i name p :: string and original :: json
  defines "m \<equiv> [(''attrs'', plain_object (placeholder_attrs i name original)), (''type'', json_string p)]"
  shows "ascii p \<Longrightarrow> p \<noteq> '''' \<Longrightarrow> typeOf m = Inr p"
    and "ascii i \<Longrightarrow> attrString m ''az_id'' = Some i"
    and "array_items m ''content'' = Inr []" and "array_items m ''marks'' = Inr []"
proof -
  show "ascii p \<Longrightarrow> p \<noteq> '''' \<Longrightarrow> typeOf m = Inr p"
    by (simp add: m_def typeOf_def json_string_def unquote_json_string)
  obtain w ms where a: "plain_object (placeholder_attrs i name original) = JObj w ms" by (simp add: plain_object_def)
  have "map_of (raw_members ms) ''az_id'' = Some (json_string i)"
    using attrs_decode [of i name original] unfolding a by (simp add: decodeObject_def)
  then show "ascii i \<Longrightarrow> attrString m ''az_id'' = Some i"
    by (simp add: m_def attrString_def a json_string_def unquote_json_string)
  show "array_items m ''content'' = Inr []" "array_items m ''marks'' = Inr []"
    by (simp_all add: m_def array_items_def obj_array_def)
qed

lemma placeholder_wf: "wf_json (placeholder p i name original)"
  unfolding placeholder_alt placeholder_attrs_def
  by (intro plain_object_wf) (auto simp: plain_def json_string_wf intro!: plain_object_wf)

lemma placeholder_nest: "nest (placeholder p i name original) = 2"
  by (simp add: placeholder_def plain_object_def json_string_def)

lemma placeholder_types: "ascii p \<Longrightarrow> p \<noteq> '''' \<Longrightarrow> walkTypes (placeholder p i name original) = Inr ()"
  by (simp add: walkTypes.simps placeholder_decode placeholder_members)

lemma placeholder_id_ascii: "ascii (placeholder_id n)" "placeholder_id n \<noteq> ''''"
proof -
  have "list_all (\<lambda>c. (of_char c :: nat) < 0x80) (decimal n)"
    by (induction n rule: decimal.induct) (subst decimal.simps, auto)
  then show "ascii (placeholder_id n)" "placeholder_id n \<noteq> ''''" by (simp_all add: placeholder_id_def ascii_def)
qed

lemma placeholder_id_inject [simp]: "placeholder_id m = placeholder_id n \<longleftrightarrow> m = n"
  by (simp add: placeholder_id_def decimal_inject)

end
