(* ===== verification/DocRoundTrip.thy ===== *)
theory DocRoundTrip
  imports DocObjects
begin

text \<open>
  \<open>Restore\<close> is \<open>Shield\<close>'s inverse, and what \<open>Shield\<close> shows the editor is within its schema.
\<close>

section \<open>Documents without placeholders\<close>

definition mark_type :: "json \<Rightarrow> doc_error + string" where
  "mark_type m = (case decodeObject m of Inl e \<Rightarrow> Inl e | Inr obj \<Rightarrow> typeOf obj)"

text \<open>No placeholder stands where the walks look: not at a node, not at a mark of a known node.\<close>

function clean :: "json \<Rightarrow> bool" and clean_all :: "json list \<Rightarrow> bool" where
  "clean raw =
     (case decodeObject raw of
        Inl _ \<Rightarrow> True
      | Inr obj \<Rightarrow>
          (case typeOf obj of
             Inl _ \<Rightarrow> True
           | Inr t \<Rightarrow>
               t \<noteq> NodeUnknownContent \<and> t \<noteq> NodeUnknownInline \<and>
               (KnownNode t \<longrightarrow>
                  (case array_items obj ''marks'' of
                     Inl _ \<Rightarrow> True | Inr ms \<Rightarrow> list_all (\<lambda>m. mark_type m \<noteq> Inr MarkUnknownMark) ms) \<and>
                  (case array_items obj ''content'' of Inl _ \<Rightarrow> True | Inr cs \<Rightarrow> clean_all cs))))"
| "clean_all [] = True"
| "clean_all (x # xs) \<longleftrightarrow> clean x \<and> clean_all xs"
  by pat_completeness auto
termination
  by (relation "measure (case_sum size (size_list size))") (auto dest: array_items_size)

declare clean.simps [simp del]

text \<open>
  The same content: the same bytes, or a known node whose marks are the same bytes, whose other
  members but the children are the same bytes, and whose children have the same content.
\<close>

inductive same_node :: "json \<Rightarrow> json \<Rightarrow> bool" where
  same: "same_node t t"
| framed: "decodeObject t = Inr m \<Longrightarrow> decodeObject t' = Inr m' \<Longrightarrow> typeOf m = Inr ty \<Longrightarrow> KnownNode ty \<Longrightarrow>
     map fst m' = map fst m \<Longrightarrow>
     (\<And>k. k \<noteq> ''content'' \<Longrightarrow> k \<noteq> ''marks'' \<Longrightarrow> map_of m' k = map_of m k) \<Longrightarrow>
     array_items m ''marks'' = Inr ms \<Longrightarrow> array_items m' ''marks'' = Inr ms \<Longrightarrow>
     array_items m ''content'' = Inr cs \<Longrightarrow> array_items m' ''content'' = Inr cs' \<Longrightarrow>
     list_all2 same_node cs cs' \<Longrightarrow> same_node t t'"

section \<open>What Shield captures\<close>

definition ids_between :: "nat \<Rightarrow> nat \<Rightarrow> string list" where
  "ids_between a b = map placeholder_id [Suc a ..< Suc b]"

definition advances :: "shielder \<Rightarrow> shielder \<Rightarrow> bool" where
  "advances s s' \<longleftrightarrow> sh_n s \<le> sh_n s' \<and> sh_order s' = sh_order s @ ids_between (sh_n s) (sh_n s') \<and>
     (\<forall>k \<le> sh_n s. map_of (sh_captured s') (placeholder_id k) = map_of (sh_captured s) (placeholder_id k)) \<and>
     (\<forall>k. sh_n s < k \<and> k \<le> sh_n s' \<longrightarrow> map_of (sh_captured s') (placeholder_id k) \<noteq> None)"

lemma ids_between_append: "a \<le> b \<Longrightarrow> b \<le> c \<Longrightarrow> ids_between a b @ ids_between b c = ids_between a c"
  unfolding ids_between_def map_append [symmetric]
  by (metis Suc_le_mono le_add_diff_inverse upt_add_eq_append)

lemma ids_between_same [simp]: "ids_between a a = []"
  by (simp add: ids_between_def)

lemma advances_refl: "advances s s"
  by (auto simp: advances_def)

lemma advances_trans:
  assumes "advances s t" "advances t u" shows "advances s u"
proof -
  have n: "sh_n s \<le> sh_n t" "sh_n t \<le> sh_n u" using assms by (simp_all add: advances_def)
  have "map_of (sh_captured u) (placeholder_id k) \<noteq> None" if "sh_n s < k" "k \<le> sh_n u" for k
    using assms that by (cases "k \<le> sh_n t") (auto simp: advances_def)
  then show ?thesis using assms n ids_between_append [OF n] by (auto simp: advances_def)
qed

lemma capture_advances: "advances s (snd (capture p raw ty s))"
  by (auto simp: capture_def Let_def advances_def ids_between_def update_conv' le_Suc_eq)

lemma capture_found: "map_of (sh_captured (snd (capture p raw ty s))) (placeholder_id (Suc (sh_n s))) = Some raw"
  by (simp add: capture_def Let_def update_conv')

lemma shield_mark_advances: "shield_mark m s = Inr (m', s') \<Longrightarrow> advances s s'"
  using capture_advances [of s]
  by (auto simp: shield_mark_def advances_refl split: sum.splits if_splits) (metis snd_conv)

lemma shield_marks_advances: "shield_marks ms s = Inr (ms', s') \<Longrightarrow> advances s s' \<and> length ms' = length ms"
proof (induction ms arbitrary: s ms')
  case (Cons m ms)
  then show ?case
    by (auto split: sum.splits prod.splits dest: shield_mark_advances intro: advances_trans)
qed (simp add: advances_refl)

text \<open>One step of the walk, taken apart.\<close>

lemma shield_node_cases:
  assumes "shield_node inl d t s = Inr (t', s')"
  obtains (unknown) m ty where "decodeObject t = Inr m" "typeOf m = Inr ty" "\<not> KnownNode ty"
      "(t', s') = capture (if inl then NodeUnknownInline else NodeUnknownContent) t ty s" "d \<le> maxDepth"
  | (known) m ty ms ms' s1 ci cs cs' where "decodeObject t = Inr m" "typeOf m = Inr ty" "KnownNode ty"
      "array_items m ''marks'' = Inr ms" "shield_marks ms s = Inr (ms', s1)"
      "array_items m ''content'' = Inr cs" "shield_nodes ci (d + 1) cs s1 = Inr (cs', s')" "d \<le> maxDepth"
      "inlinePositionOf m ty = Inr ci"
      "t' = (if ms' = ms \<and> cs' = cs then t
        else encode_object (put_member ''content'' cs cs' (put_member ''marks'' ms ms' m)))"
  using assms
  by (subst (asm) shield_node.simps) (auto split: if_splits sum.splits prod.splits)

lemma shield_nodes_Cons:
  assumes "shield_nodes inl d (v # vs) s = Inr (ys, s')"
  obtains v' s1 vs' where "shield_node inl d v s = Inr (v', s1)" "shield_nodes inl d vs s1 = Inr (vs', s')" "ys = v' # vs'"
  using assms by (auto split: sum.splits prod.splits)

text \<open>Induction along a successful walk.\<close>

lemma shield_induct [consumes 0, case_names unknown known Nil Cons]:
  assumes unknown: "\<And>inl d t s m ty t' s'. decodeObject t = Inr m \<Longrightarrow> typeOf m = Inr ty \<Longrightarrow> \<not> KnownNode ty \<Longrightarrow> d \<le> maxDepth \<Longrightarrow>
      (t', s') = capture (if inl then NodeUnknownInline else NodeUnknownContent) t ty s \<Longrightarrow> P d t s t' s'"
    and known: "\<And>d t s m ty ms ms' s1 ci cs cs' s'. decodeObject t = Inr m \<Longrightarrow> typeOf m = Inr ty \<Longrightarrow> KnownNode ty \<Longrightarrow> d \<le> maxDepth \<Longrightarrow>
      array_items m ''marks'' = Inr ms \<Longrightarrow> shield_marks ms s = Inr (ms', s1) \<Longrightarrow> array_items m ''content'' = Inr cs \<Longrightarrow>
      shield_nodes ci (d + 1) cs s1 = Inr (cs', s') \<Longrightarrow> Q (d + 1) cs s1 cs' s' \<Longrightarrow>
      P d t s (if ms' = ms \<and> cs' = cs then t
        else encode_object (put_member ''content'' cs cs' (put_member ''marks'' ms ms' m))) s'"
    and Nil: "\<And>d s. Q d [] s [] s"
    and Cons: "\<And>inl d v vs s v' s1 vs' s'. shield_node inl d v s = Inr (v', s1) \<Longrightarrow> P d v s v' s1 \<Longrightarrow>
      shield_nodes inl d vs s1 = Inr (vs', s') \<Longrightarrow> Q d vs s1 vs' s' \<Longrightarrow> Q d (v # vs) s (v' # vs') s'"
  shows "(shield_node inl d t s = Inr (t', s') \<longrightarrow> P d t s t' s') \<and>
    (shield_nodes inl d ts s = Inr (ts', s') \<longrightarrow> Q d ts s ts' s')"
proof -
  have "shield_node inl d t s = Inr (t', s') \<Longrightarrow> P d t s t' s'"
    "shield_nodes inl d ts s = Inr (ts', s') \<Longrightarrow> Q d ts s ts' s'" for inl d t s t' s' ts ts'
proof (induction inl d t s and inl d ts s arbitrary: t' s' and ts' s' rule: shield_node_shield_nodes.induct)
  case (1 inl d t s)
  from 1(2) show ?case
  proof (cases rule: shield_node_cases)
    case (unknown m ty)
    then show ?thesis by (intro assms(1))
  next
    case (known m ty ms ms' s1 ci cs cs')
    have "Q (d + 1) cs s1 cs' s'"
      using 1(1) [OF _ known(1,2) _ known(4,5) refl known(9,6,7)] known(3,8) by simp
    then show ?thesis unfolding known(10) by (rule assms(2) [OF known(1-3,8,4-7)])
  qed
next
  case (2 inl d s)
  then show ?case using Nil by simp
next
  case (3 inl d v vs s)
  from 3(3) show ?case
  proof (cases rule: shield_nodes_Cons)
    case (1 v' s1 vs')
    then show ?thesis using 3(1) [OF 1(1)] 3(2) [OF 1(1) refl 1(2)] Cons by blast
  qed
qed
  then show ?thesis by blast
qed

lemma shield_advances:
  "(shield_node inl d t s = Inr (t', s') \<longrightarrow> advances s s') \<and>
   (shield_nodes inl d ts s = Inr (ts', s') \<longrightarrow> advances s s' \<and> length ts' = length ts)"
proof (induction rule: shield_induct)
  case (unknown inl d t s m ty t' s')
  then show ?case using capture_advances [of s] by (metis snd_conv)
next
  case (known d t s m ty ms ms' s1 ci cs cs' s')
  then show ?case using shield_marks_advances advances_trans by blast
qed (auto intro: advances_refl advances_trans)


section \<open>The shielded document\<close>

lemma member_names [simp]: "ValidString ''content''" "ValidString ''marks''"
  by (simp_all add: ascii_valid ascii_def)

text \<open>The object a known node decodes to after the walk, whether or not it was encoded again.\<close>

lemma shielded_object:
  assumes "decodeObject t = Inr m"
  shows "decodeObject (if ms' = ms \<and> cs' = cs then t
        else encode_object (put_member ''content'' cs cs' (put_member ''marks'' ms ms' m))) =
    Inr (put_member ''content'' cs cs' (put_member ''marks'' ms ms' m))"
proof (cases "ms' = ms \<and> cs' = cs")
  case False
  have "obj_ok (put_member ''content'' cs cs' (put_member ''marks'' ms ms' m))"
    using decodeObject_ok [OF assms] by (simp add: put_member_ok)
  then show ?thesis using decode_encode unfolding if_not_P [OF False] by blast
qed (simp add: assms put_member_def)

lemma framed_items:
  assumes "array_items m ''marks'' = Inr ms" "array_items m ''content'' = Inr cs"
  shows "array_items (put_member ''content'' cs cs' (put_member ''marks'' ms ms' m)) ''marks'' = Inr ms'"
    and "array_items (put_member ''content'' cs cs' (put_member ''marks'' ms ms' m)) ''content'' = Inr cs'"
    and "typeOf (put_member ''content'' cs cs' (put_member ''marks'' ms ms' m)) = typeOf m"
  using assms by (simp_all add: put_member_items put_member_other typeOf_put)

lemma shield_marks_elems:
  "shield_marks ms s = Inr (ms', s') \<Longrightarrow> x \<in> set ms' \<Longrightarrow> x \<in> set ms \<or> (\<exists>i n v. x = placeholder MarkUnknownMark i n v)"
proof (induction ms arbitrary: s ms')
  case (Cons m ms)
  from Cons.prems(1) obtain y s1 ys where y: "shield_mark m s = Inr (y, s1)" "shield_marks ms s1 = Inr (ys, s')" "ms' = y # ys"
    by (auto split: sum.splits prod.splits)
  have "y = m \<or> (\<exists>i n v. y = placeholder MarkUnknownMark i n v)"
    using y(1) by (auto simp: shield_mark_def capture_def Let_def split: sum.splits if_splits)
  then show ?case using Cons.IH [OF y(2)] Cons.prems(2) y(3) by auto
qed simp

lemma capture_value: "(t', s') = capture p raw ty s \<Longrightarrow> t' = placeholder p (placeholder_id (sh_n s + 1)) ty raw"
  by (simp add: capture_def Let_def)

lemma framed_wf:
  assumes "decodeObject t = Inr m" "wf_json t" and "\<forall>x \<in> set cs'. wf_json x" and "\<forall>x \<in> set ms'. wf_json x"
  shows "wf_json (encode_object (put_member ''content'' cs cs' (put_member ''marks'' ms ms' m)))"
proof (rule encode_wf)
  show "obj_ok (put_member ''content'' cs cs' (put_member ''marks'' ms ms' m))"
    using decodeObject_ok [OF assms(1)] by (simp add: put_member_ok)
  show "\<forall>(k, v) \<in> set (put_member ''content'' cs cs' (put_member ''marks'' ms ms' m)). wf_json v"
    using decode_values(1) [OF assms(1)] assms(2-4) encodeArray_wf by (auto dest!: put_member_values)
qed

lemma framed_nest:
  assumes "decodeObject t = Inr m" "nest t \<le> M"
    and "\<forall>x \<in> set cs'. Suc (Suc (nest x)) \<le> M" and "\<forall>x \<in> set ms'. Suc (Suc (nest x)) \<le> M" and "2 \<le> M"
  shows "nest (encode_object (put_member ''content'' cs cs' (put_member ''marks'' ms ms' m))) \<le> M"
proof -
  obtain n where n: "M = Suc n" "1 \<le> n" using assms(5) by (cases M) auto
  note assms = assms [unfolded n(1)] n(2)
  have "nest (encode_object (put_member ''content'' cs cs' (put_member ''marks'' ms ms' m))) \<le> Suc n"
proof (rule encode_nest)
  show "obj_ok (put_member ''content'' cs cs' (put_member ''marks'' ms ms' m))"
    using decodeObject_ok [OF assms(1)] by (simp add: put_member_ok)
  have "nest (encodeArray cs') \<le> n" "nest (encodeArray ms') \<le> n"
    using assms(3,4,6) encodeArray_nest [of _ "n - 1"] by force+
  moreover have "nest v \<le> n" if "(k, v) \<in> set m" for k v using decode_values(2) [OF assms(1) that] assms(2) by simp
  ultimately show "\<forall>(k, v) \<in> set (put_member ''content'' cs cs' (put_member ''marks'' ms ms' m)). nest v \<le> n"
    by (auto dest!: put_member_values)
qed
  then show ?thesis by (simp add: n(1))
qed

lemma shield_wf:
  "(shield_node inl d t s = Inr (t', s') \<longrightarrow> wf_json t \<longrightarrow> wf_json t') \<and>
   (shield_nodes inl d ts s = Inr (ts', s') \<longrightarrow> (\<forall>x \<in> set ts. wf_json x) \<longrightarrow> (\<forall>x \<in> set ts'. wf_json x))"
proof (induction rule: shield_induct)
  case (unknown inl d t s m ty t' s')
  then show ?case using placeholder_wf by (auto dest!: capture_value)
next
  case (known d t s m ty ms ms' s1 ci cs cs' s')
  have "\<forall>x \<in> set ms'. wf_json x" if "wf_json t"
    using shield_marks_elems [OF known(6)] array_values(1) [OF known(1,5) _ that] placeholder_wf by blast
  moreover have "\<forall>x \<in> set cs. wf_json x" if "wf_json t"
    using array_values(1) [OF known(1,7)] that by blast
  ultimately have "wf_json t \<longrightarrow> wf_json (encode_object (put_member ''content'' cs cs' (put_member ''marks'' ms ms' m)))"
    using known(9) framed_wf [OF known(1)] by blast
  then show ?case by (cases "ms' = ms \<and> cs' = cs") (simp_all only: if_True if_False simp_thms)
qed auto

lemma shield_nest:
  "(shield_node inl d t s = Inr (t', s') \<longrightarrow> nest t' \<le> max (nest t) (2 * (202 - d))) \<and>
   (shield_nodes inl d ts s = Inr (ts', s') \<longrightarrow> (\<forall>n. (\<forall>x \<in> set ts. nest x \<le> n) \<longrightarrow> (\<forall>x \<in> set ts'. nest x \<le> max n (2 * (202 - d)))))"
proof (induction rule: shield_induct)
  case (unknown inl d t s m ty t' s')
  have "nest t' = 2" using capture_value [OF unknown(5)] placeholder_nest by simp
  moreover have "2 \<le> 2 * (202 - d)" using unknown(4) by (simp add: maxDepth_def)
  ultimately show ?case by linarith
next
  case (known d t s m ty ms ms' s1 ci cs cs' s')
  let ?M = "max (nest t) (2 * (202 - d))"
  have d: "4 \<le> 2 * (202 - d)" "2 * (202 - (d + 1)) + 2 \<le> 2 * (202 - d)" using known(4) by (simp_all add: maxDepth_def)
  have "Suc (Suc (nest x)) \<le> ?M" if "x \<in> set ms'" for x
    using shield_marks_elems [OF known(6) that] array_values(2) [OF known(1,5), of x] placeholder_nest d(1) by fastforce
  moreover have "Suc (Suc (nest x)) \<le> ?M" if x: "x \<in> set cs'" for x
  proof -
    have "\<forall>y \<in> set cs. nest y \<le> nest t - 2" using array_values(2) [OF known(1,7)] by fastforce
    then have "nest x \<le> max (nest t - 2) (2 * (202 - (d + 1)))" using known(9) x by blast
    then show ?thesis using d by (auto simp: le_max_iff_disj)
  qed
  ultimately have "nest (encode_object (put_member ''content'' cs cs' (put_member ''marks'' ms ms' m))) \<le> ?M"
    using framed_nest [OF known(1), of ?M cs' ms' cs ms] d(1) by (simp add: le_max_iff_disj)
  then show ?case by (cases "ms' = ms \<and> cs' = cs") (simp_all only: if_True if_False simp_thms max.cobounded1)
next
  case (Cons inl d v vs s v' s1 vs' s')
  then show ?case by (fastforce simp: le_max_iff_disj)
qed simp


lemma walkTypes_Inr:
  "walkTypes t = Inr () \<longleftrightarrow>
     (\<exists>m ty cs ms. decodeObject t = Inr m \<and> typeOf m = Inr ty \<and> array_items m ''content'' = Inr cs \<and>
        walkTypes_all cs = Inr () \<and> array_items m ''marks'' = Inr ms \<and> walkTypes_all ms = Inr ())"
  by (subst walkTypes.simps) (auto split: sum.splits)

lemma walkTypes_all_Inr: "walkTypes_all xs = Inr () \<longleftrightarrow> (\<forall>x \<in> set xs. walkTypes x = Inr ())"
  by (induction xs) (auto simp: walkTypes_all.simps split: sum.splits)

lemma shield_types:
  "(shield_node inl d t s = Inr (t', s') \<longrightarrow> walkTypes t = Inr () \<longrightarrow> walkTypes t' = Inr ()) \<and>
   (shield_nodes inl d ts s = Inr (ts', s') \<longrightarrow> (\<forall>x \<in> set ts. walkTypes x = Inr ()) \<longrightarrow> (\<forall>x \<in> set ts'. walkTypes x = Inr ()))"
proof (induction rule: shield_induct)
  case (unknown inl d t s m ty t' s')
  have "walkTypes t' = Inr ()" unfolding capture_value [OF unknown(5)]
    by (rule placeholder_types) (simp_all add: ascii_def)
  then show ?case by blast
next
  case (known d t s m ty ms ms' s1 ci cs cs' s')
  note obj = shielded_object [OF known(1), of ms' ms cs' cs]
  note items = framed_items [OF known(5,7), of cs' ms']
  show ?case
  proof
    assume w: "walkTypes t = Inr ()"
    then have "walkTypes_all cs = Inr ()" "walkTypes_all ms = Inr ()"
      using iffD1 [OF walkTypes_Inr w] known(1,5,7) by auto
    then have w: "\<forall>x \<in> set cs. walkTypes x = Inr ()" "\<forall>x \<in> set ms. walkTypes x = Inr ()"
      by (simp_all add: walkTypes_all_Inr)
    have p: "walkTypes (placeholder MarkUnknownMark i n v) = Inr ()" for i n v
      by (rule placeholder_types) (simp_all add: ascii_def)
    have "walkTypes x = Inr ()" if "x \<in> set ms'" for x
      using shield_marks_elems [OF known(6) that] w(2) p by blast
    moreover have "\<forall>x \<in> set cs'. walkTypes x = Inr ()" using known(9) w(1) by blast
    ultimately show "walkTypes (if ms' = ms \<and> cs' = cs then t
        else encode_object (put_member ''content'' cs cs' (put_member ''marks'' ms ms' m))) = Inr ()"
      by (intro iffD2 [OF walkTypes_Inr] exI conjI)
        (rule obj, simp only: items known(2), rule items, simp only: walkTypes_all_Inr, rule items,
          simp only: walkTypes_all_Inr, blast)
  qed
qed auto

section \<open>Restoring\<close>

definition agree :: "(string \<times> json) list \<Rightarrow> shielder \<Rightarrow> shielder \<Rightarrow> bool" where
  "agree C s s' \<longleftrightarrow>
     (\<forall>k. sh_n s < k \<and> k \<le> sh_n s' \<longrightarrow> map_of C (placeholder_id k) = map_of (sh_captured s') (placeholder_id k))"

definition saw :: "restorer \<Rightarrow> string list \<Rightarrow> restorer" where
  "saw r ids = r\<lparr>rs_seen := rs_seen r @ ids\<rparr>"

lemma saw_simps [simp]: "saw r [] = r" "saw (saw r a) b = saw r (a @ b)"
  by (simp_all add: saw_def)

lemma agree_split:
  assumes "advances s s1" "advances s1 s'" "agree C s s'" shows "agree C s s1" and "agree C s1 s'"
  using assms by (auto simp: agree_def advances_def)

lemma restore_captured:
  assumes c: "(t', s') = capture p raw ty s" and a: "agree C s s'" and p: "ascii p" "p \<noteq> ''''"
  obtains m where "decodeObject t' = Inr m" "typeOf m = Inr p"
    "\<And>r. restore_placeholder C t' m r = Inr (raw, saw r (ids_between (sh_n s) (sh_n s')))"
proof -
  have t': "t' = placeholder p (placeholder_id (sh_n s + 1)) ty raw" by (rule capture_value [OF c])
  have n: "sh_n s' = sh_n s + 1" using c by (simp add: capture_def Let_def)
  have "map_of (sh_captured s') (placeholder_id (Suc (sh_n s))) = Some raw" using capture_found [where s = s and p = p and raw = raw and ty = ty] c by (metis snd_conv)
  then have found: "map_of C (placeholder_id (sh_n s + 1)) = Some raw" using a n by (auto simp: agree_def)
  show thesis
  proof (rule that)
    show "decodeObject t' = Inr [(''attrs'', plain_object (placeholder_attrs (placeholder_id (sh_n s + 1)) ty raw)), (''type'', json_string p)]"
      by (simp add: t' placeholder_decode)
    show "typeOf [(''attrs'', plain_object (placeholder_attrs (placeholder_id (sh_n s + 1)) ty raw)), (''type'', json_string p)] = Inr p"
      using p by (rule placeholder_members(1))
    show "restore_placeholder C t' [(''attrs'', plain_object (placeholder_attrs (placeholder_id (sh_n s + 1)) ty raw)), (''type'', json_string p)] r =
        Inr (raw, saw r (ids_between (sh_n s) (sh_n s')))" for r
      unfolding restore_placeholder_def placeholder_members(2) [OF placeholder_id_ascii(1)]
      using found placeholder_id_ascii(2) by (simp add: saw_def ids_between_def n)
  qed
qed

lemma restore_shielded_marks:
  assumes "shield_marks ms s = Inr (ms', s')" and "\<forall>m \<in> set ms. mark_type m \<noteq> Inr MarkUnknownMark" and "agree C s s'"
  shows "restore_marks C ms' r = Inr (ms, saw r (ids_between (sh_n s) (sh_n s')))"
  using assms
proof (induction ms arbitrary: s ms' r)
  case (Cons m ms)
  from Cons.prems(1) obtain m' s1 ys where y: "shield_mark m s = Inr (m', s1)" "shield_marks ms s1 = Inr (ys, s')" "ms' = m' # ys"
    by (auto split: sum.splits prod.splits)
  have adv: "advances s s1" "advances s1 s'" using shield_mark_advances [OF y(1)] shield_marks_advances [OF y(2)] by auto
  note ag = agree_split [OF adv Cons.prems(3)]
  from y(1) obtain obj ty where o: "decodeObject m = Inr obj" "typeOf obj = Inr ty" by (auto simp: shield_mark_def split: sum.splits)
  have "restore_mark C m' r = Inr (m, saw r (ids_between (sh_n s) (sh_n s1)))"
  proof (cases "KnownMark ty")
    case True
    then have "m' = m" "s1 = s" using y(1) o by (auto simp: shield_mark_def)
    moreover have "ty \<noteq> MarkUnknownMark" using Cons.prems(2) o by (auto simp: mark_type_def)
    ultimately show ?thesis using o by (simp add: restore_mark_def)
  next
    case False
    then have c: "(m', s1) = capture MarkUnknownMark m ty s" using y(1) o by (auto simp: shield_mark_def)
    have a: "ascii MarkUnknownMark" "MarkUnknownMark \<noteq> ''''" by (simp_all add: ascii_def)
    obtain k where "decodeObject m' = Inr k" "typeOf k = Inr MarkUnknownMark"
      "restore_placeholder C m' k r = Inr (m, saw r (ids_between (sh_n s) (sh_n s1)))"
      by (rule restore_captured [OF c ag(1) a]) blast
    then show ?thesis by (simp add: restore_mark_def)
  qed
  then show ?case
    using Cons.IH [OF y(2) _ ag(2)] Cons.prems(2) adv ids_between_append by (auto simp: y(3) advances_def)
qed simp


text \<open>The object a node decodes to when it has been shielded and restored.\<close>

definition framed_twice :: "object \<Rightarrow> json list \<Rightarrow> json list \<Rightarrow> json list \<Rightarrow> json list \<Rightarrow> json list \<Rightarrow> object" where
  "framed_twice m ms ms' cs cs' us =
     put_member ''content'' cs' us (put_member ''marks'' ms' ms
       (put_member ''content'' cs cs' (put_member ''marks'' ms ms' m)))"

lemma framed_twice_values:
  assumes "obj_ok m" and "(k, v) \<in> set (framed_twice m ms ms' cs cs' us)"
  shows "(k, v) \<in> set m \<or> v = encodeArray us \<or> v = encodeArray ms"
proof -
  have ok: "obj_ok (framed_twice m ms ms' cs cs' us)" using assms(1) by (simp add: framed_twice_def put_member_ok)
  have "map_of (framed_twice m ms ms' cs cs' us) k = Some v"
    using assms(2) map_of_eq_Some_iff [OF obj_ok_distinct [OF ok]] by simp
  then have "map_of m k = Some v \<or> v = encodeArray us \<or> v = encodeArray ms"
    by (auto simp: framed_twice_def put_member_map_of split: if_splits)
  then show ?thesis using map_of_SomeD by fast
qed

lemma framed_twice_nest:
  assumes "decodeObject t = Inr m" and "array_items m ''marks'' = Inr ms" and "array_items m ''content'' = Inr cs"
    and "list_all2 (\<lambda>c u. nest u \<le> nest c) cs us" and n: "\<And>k v. (k, v) \<in> set mm \<Longrightarrow> (k, v) \<in> set m \<or> v = encodeArray us \<or> v = encodeArray ms"
    and mm: "obj_ok mm" and pos: "ms \<noteq> [] \<or> cs \<noteq> []"
  shows "nest (encode_object mm) \<le> nest t"
proof -
  have two: "2 \<le> nest t" using pos array_values(2) [OF assms(1,2)] array_values(2) [OF assms(1,3)]
    by (metis Suc_leI add_leD1 add_2_eq_Suc hd_in_set le_add1 le_trans)
  have u: "Suc (Suc (nest u)) \<le> nest t" if "u \<in> set us" for u
  proof -
    from that obtain c where "c \<in> set cs" "nest u \<le> nest c"
      using assms(4) by (metis in_set_conv_nth list_all2_conv_all_nth)
    then show ?thesis using array_values(2) [OF assms(1,3)] by fastforce
  qed
  have "nest (encodeArray us) \<le> nest t - 1" "nest (encodeArray ms) \<le> nest t - 1"
    using u array_values(2) [OF assms(1,2)] encodeArray_nest [of _ "nest t - 2"] two by force+
  moreover have "nest v \<le> nest t - 1" if "(k, v) \<in> set m" for k v using decode_values(2) [OF assms(1) that] by simp
  ultimately have "\<forall>(k, v) \<in> set mm. nest v \<le> nest t - 1" using n by fast
  from encode_nest [OF mm this] two show ?thesis by simp
qed

lemma restore_node_known:
  assumes "decodeObject t = Inr m" "typeOf m = Inr ty" "ty \<noteq> NodeUnknownContent" "ty \<noteq> NodeUnknownInline" "d \<le> maxDepth"
    and "array_items m ''marks'' = Inr ms" "restore_marks C ms r = Inr (ms', r1)"
    and "array_items m ''content'' = Inr cs" "restore_nodes C (d + 1) cs r1 = Inr (cs', r2)"
  shows "restore_node C d t r = Inr (if ms' = ms \<and> cs' = cs then t
      else encode_object (put_member ''content'' cs cs' (put_member ''marks'' ms ms' m)), r2)"
  using assms by (subst restore_node.simps) auto

definition undone :: "nat \<Rightarrow> json \<Rightarrow> shielder \<Rightarrow> json \<Rightarrow> shielder \<Rightarrow> json \<Rightarrow> bool" where
  "undone d t s t' s' u \<longleftrightarrow> same_node t u \<and> wf_json u \<and> nest u \<le> nest t \<and> (sh_n s' = sh_n s \<longrightarrow> t' = t \<and> u = t) \<and>
     (\<forall>C r. agree C s s' \<longrightarrow> restore_node C d t' r = Inr (u, saw r (ids_between (sh_n s) (sh_n s'))))"

definition undone_all :: "nat \<Rightarrow> json list \<Rightarrow> shielder \<Rightarrow> json list \<Rightarrow> shielder \<Rightarrow> json list \<Rightarrow> bool" where
  "undone_all d ts s ts' s' us \<longleftrightarrow> list_all2 same_node ts us \<and> (\<forall>u \<in> set us. wf_json u) \<and>
     list_all2 (\<lambda>t u. nest u \<le> nest t) ts us \<and> (sh_n s' = sh_n s \<longrightarrow> ts' = ts \<and> us = ts) \<and>
     (\<forall>C r. agree C s s' \<longrightarrow> restore_nodes C d ts' r = Inr (us, saw r (ids_between (sh_n s) (sh_n s'))))"

lemma clean_known:
  assumes "clean t" "decodeObject t = Inr m" "typeOf m = Inr ty"
  shows "ty \<noteq> NodeUnknownContent" "ty \<noteq> NodeUnknownInline"
    and "KnownNode ty \<Longrightarrow> array_items m ''marks'' = Inr ms \<Longrightarrow> \<forall>x \<in> set ms. mark_type x \<noteq> Inr MarkUnknownMark"
    and "KnownNode ty \<Longrightarrow> array_items m ''content'' = Inr cs \<Longrightarrow> clean_all cs"
  using assms by (subst (asm) clean.simps; auto simp: list_all_iff)+

lemma shield_marks_none:
  "shield_marks ms s = Inr (ms', s') \<Longrightarrow> sh_n s' = sh_n s \<Longrightarrow> ms' = ms"
proof (induction ms arbitrary: s ms')
  case (Cons m ms)
  from Cons.prems(1) obtain m' s1 ys where y: "shield_mark m s = Inr (m', s1)" "shield_marks ms s1 = Inr (ys, s')" "ms' = m' # ys"
    by (auto split: sum.splits prod.splits)
  have adv: "advances s s1" "advances s1 s'" using shield_mark_advances [OF y(1)] shield_marks_advances [OF y(2)] by auto
  then have n: "sh_n s1 = sh_n s" "sh_n s' = sh_n s1" using Cons.prems(2) by (auto simp: advances_def)
  then have "m' = m" using y(1) by (auto simp: shield_mark_def capture_def Let_def split: sum.splits if_splits)
  then show ?case using Cons.IH [OF y(2) n(2)] y(3) by simp
qed simp


lemma shield_node_advances: "shield_node inl d t s = Inr (t', s') \<Longrightarrow> advances s s'"
  using shield_advances by blast

lemma shield_nodes_advances: "shield_nodes inl d ts s = Inr (ts', s') \<Longrightarrow> advances s s' \<and> length ts' = length ts"
  using shield_advances by blast

lemma framed_keys:
  assumes "obj_ok m" "array_items m ''marks'' = Inr ms" "array_items m ''content'' = Inr cs"
    and "length ms' = length ms" "length cs' = length cs"
  shows "map fst (put_member ''content'' cs cs' (put_member ''marks'' ms ms' m)) = map fst m"
proof -
  have "obj_ok (put_member ''marks'' ms ms' m)" using assms(1) by (simp add: put_member_ok)
  moreover have "array_items (put_member ''marks'' ms ms' m) ''content'' = Inr cs" using assms(3) by (simp add: put_member_other)
  ultimately show ?thesis using put_member_keys assms by metis
qed

text \<open>The heart of the round trip: a known node whose children are undone is undone.\<close>

lemma undone_known:
  fixes d :: nat
  assumes d: "decodeObject t = Inr m" "typeOf m = Inr ty" "KnownNode ty" "d \<le> maxDepth"
    and ms: "array_items m ''marks'' = Inr ms" "shield_marks ms s = Inr (ms', s1)"
    and cs: "array_items m ''content'' = Inr cs" "shield_nodes ci (d + 1) cs s1 = Inr (cs', s')"
    and IH: "undone_all (d + 1) cs s1 cs' s' us" and wf: "wf_json t" and cl: "clean t"
  defines "t' \<equiv> (if ms' = ms \<and> cs' = cs then t
      else encode_object (put_member ''content'' cs cs' (put_member ''marks'' ms ms' m)))"
  shows "\<exists>u. undone d t s t' s' u"
proof -
  define m' where "m' = put_member ''content'' cs cs' (put_member ''marks'' ms ms' m)"
  define m2 where "m2 = framed_twice m ms ms' cs cs' us"
  define u where "u = (if ms = ms' \<and> us = cs' then t' else encode_object m2)"
  have ok: "obj_ok m" "obj_ok m'" "obj_ok m2"
    using decodeObject_ok [OF d(1)] by (simp_all add: m'_def m2_def framed_twice_def put_member_ok)
  have dt': "decodeObject t' = Inr m'" unfolding t'_def m'_def by (rule shielded_object [OF d(1)])
  note items = framed_items [OF ms(1) cs(1), of cs' ms', folded m'_def]
  note clean = clean_known [OF cl d(1,2)]
  have len: "length ms' = length ms" "length cs' = length cs" "length us = length cs"
    using shield_marks_advances [OF ms(2)] shield_advances cs(2) IH by (auto simp: undone_all_def dest: list_all2_lengthD)
  have adv: "advances s s1" "advances s1 s'" using shield_marks_advances [OF ms(2)] shield_advances cs(2) by blast+
  have du: "decodeObject u = Inr m2"
    unfolding u_def m2_def framed_twice_def m'_def [symmetric] by (rule shielded_object [OF dt'])
  have wc: "\<forall>x \<in> set cs'. wf_json x"
    using shield_wf cs(2) array_values(1) [OF d(1) cs(1) _ wf] by blast
  have wm: "\<forall>x \<in> set ms. wf_json x" using array_values(1) [OF d(1) ms(1) _ wf] by blast
  have wm': "\<forall>x \<in> set ms'. wf_json x" using shield_marks_elems [OF ms(2)] wm placeholder_wf by blast
  have wu: "\<forall>x \<in> set us. wf_json x" using IH by (simp add: undone_all_def)
  have wf': "wf_json t'" using framed_wf [OF d(1) wf wc wm'] wf unfolding t'_def by (rule_tac if_split [THEN iffD2]) blast
  have "wf_json (encode_object m2)"
    unfolding m2_def framed_twice_def m'_def [symmetric] by (rule framed_wf [OF dt' wf' wu wm])
  then have wfu: "wf_json u" using wf' unfolding u_def by (rule_tac if_split [THEN iffD2]) blast
  have le: "list_all2 (\<lambda>c u. nest u \<le> nest c) cs us" using IH by (simp add: undone_all_def)
  have pos: "ms \<noteq> [] \<or> cs \<noteq> []" if "ms' \<noteq> ms \<or> cs' \<noteq> cs \<or> us \<noteq> cs'" using that len by auto
  have "nest (encode_object m2) \<le> nest t" if "ms' \<noteq> ms \<or> us \<noteq> cs'"
    using framed_twice_nest [OF d(1) ms(1) cs(1) le framed_twice_values [OF ok(1), of _ _ ms ms' cs cs' us]] ok(3) pos that
    unfolding m2_def by blast
  moreover have "nest t' \<le> nest t" if same: "ms = ms'" "us = cs'"
  proof (cases "cs' = cs")
    case True
    then show ?thesis using same unfolding t'_def by simp
  next
    case False
    have "(k, v) \<in> set m \<or> v = encodeArray us \<or> v = encodeArray ms" if "(k, v) \<in> set m'" for k v
      using that same unfolding m'_def by (auto dest!: put_member_values)
    from framed_twice_nest [OF d(1) ms(1) cs(1) le this ok(2)] pos False
    show ?thesis unfolding t'_def m'_def using False by simp
  qed
  ultimately have nu: "nest u \<le> nest t" unfolding u_def by (cases "ms = ms' \<and> us = cs'") auto
  have keys: "map fst m2 = map fst m"
    unfolding m2_def framed_twice_def m'_def [symmetric]
    using framed_keys [OF ok(2) items(1,2), of ms us] framed_keys [OF ok(1) ms(1) cs(1) len(1,2), folded m'_def] len by simp
  have "same_node t u"
  proof (rule framed)
    show "decodeObject t = Inr m" "decodeObject u = Inr m2" "typeOf m = Inr ty" "KnownNode ty" "map fst m2 = map fst m"
      using d du keys by simp_all
    show "map_of m2 k = map_of m k" if "k \<noteq> ''content''" "k \<noteq> ''marks''" for k
      using that by (simp add: m2_def framed_twice_def put_member_map_of)
    show "array_items m ''marks'' = Inr ms" "array_items m ''content'' = Inr cs" using ms cs by simp_all
    show "array_items m2 ''marks'' = Inr ms" "array_items m2 ''content'' = Inr us"
      unfolding m2_def framed_twice_def m'_def [symmetric] using framed_items [OF items(1,2)] by simp_all
    show "list_all2 same_node cs us" using IH by (simp add: undone_all_def)
  qed
  moreover have "t' = t \<and> u = t" if "sh_n s' = sh_n s"
  proof -
    have "sh_n s1 = sh_n s" "sh_n s' = sh_n s1" using adv that by (auto simp: advances_def)
    then have "ms' = ms" "cs' = cs" "us = cs" using shield_marks_none [OF ms(2)] IH by (auto simp: undone_all_def)
    then show ?thesis by (simp add: u_def t'_def)
  qed
  moreover have "restore_node C d t' r = Inr (u, saw r (ids_between (sh_n s) (sh_n s')))" if a: "agree C s s'" for C r
  proof -
    note ag = agree_split [OF adv a]
    have "restore_marks C ms' r = Inr (ms, saw r (ids_between (sh_n s) (sh_n s1)))"
      by (rule restore_shielded_marks [OF ms(2) clean(3) [OF d(3) ms(1)] ag(1)])
    moreover have "restore_nodes C (d + 1) cs' (saw r (ids_between (sh_n s) (sh_n s1))) =
        Inr (us, saw (saw r (ids_between (sh_n s) (sh_n s1))) (ids_between (sh_n s1) (sh_n s')))"
      using IH ag(2) by (simp add: undone_all_def)
    moreover have "ids_between (sh_n s) (sh_n s1) @ ids_between (sh_n s1) (sh_n s') = ids_between (sh_n s) (sh_n s')"
      using adv by (auto simp: advances_def ids_between_append)
    ultimately show ?thesis
      using restore_node_known [OF dt' _ clean(1,2) d(4) items(1) _ items(2), of C r ms _ us] items(3) d(2)
      by (simp add: u_def m2_def framed_twice_def m'_def [symmetric] saw_def)
  qed
  ultimately show ?thesis using wfu nu unfolding undone_def by blast
qed

lemma undone_unknown:
  assumes "decodeObject t = Inr m" "typeOf m = Inr ty" "\<not> KnownNode ty" "d \<le> maxDepth" "wf_json t"
    and c: "(t', s') = capture (if inl then NodeUnknownInline else NodeUnknownContent) t ty s"
  shows "undone d t s t' s' t"
proof -
  let ?p = "if inl then NodeUnknownInline else NodeUnknownContent"
  have p: "ascii ?p" "?p \<noteq> ''''" by (simp_all add: ascii_def)
  have n: "sh_n s' = Suc (sh_n s)" using c by (simp add: capture_def Let_def)
  have "restore_node C d t' r = Inr (t, saw r (ids_between (sh_n s) (sh_n s')))" if ag: "agree C s s'" for C r
  proof -
    obtain k where "decodeObject t' = Inr k" "typeOf k = Inr ?p"
      "restore_placeholder C t' k r = Inr (t, saw r (ids_between (sh_n s) (sh_n s')))"
      using restore_captured [OF c ag p] by blast
    then show ?thesis using assms(4) by (subst restore_node.simps) auto
  qed
  then show ?thesis using assms(5) n by (simp add: undone_def same)
qed

lemma shield_undone:
  "(shield_node inl d t s = Inr (t', s') \<longrightarrow> wf_json t \<and> clean t \<longrightarrow> (\<exists>u. undone d t s t' s' u)) \<and>
   (shield_nodes inl d ts s = Inr (ts', s') \<longrightarrow> (\<forall>x \<in> set ts. wf_json x) \<and> clean_all ts \<longrightarrow> (\<exists>us. undone_all d ts s ts' s' us))"
proof (induction rule: shield_induct)
  case (unknown inl d t s m ty t' s')
  then show ?case using undone_unknown by blast
next
  case (known d t s m ty ms ms' s1 ci cs cs' s')
  show ?case
  proof (intro impI, elim conjE)
    assume w: "wf_json t" and c: "clean t"
    then obtain us where "undone_all (d + 1) cs s1 cs' s' us"
      using known(9) array_values(1) [OF known(1,7)] clean_known(4) [OF c known(1,2,3,7)] by blast
    from undone_known [OF known(1-4) known(5-8) this w c]
    show "\<exists>u. undone d t s (if ms' = ms \<and> cs' = cs then t
        else encode_object (put_member ''content'' cs cs' (put_member ''marks'' ms ms' m))) s' u" .
  qed
next
  case (Nil d s)
  then show ?case by (auto simp: undone_all_def)
next
  case (Cons inl d v vs s v' s1 vs' s')
  show ?case
  proof (intro impI, elim conjE)
    assume "\<forall>x \<in> set (v # vs). wf_json x" and "clean_all (v # vs)"
    then obtain u us where u: "undone d v s v' s1 u" "undone_all d vs s1 vs' s' us" using Cons by auto
    have adv: "advances s s1" "advances s1 s'"
      using shield_node_advances [OF Cons(1)] shield_nodes_advances [OF Cons(2)] by simp_all
    then have n: "sh_n s \<le> sh_n s1" "sh_n s1 \<le> sh_n s'" by (simp_all add: advances_def)
    have "restore_nodes C d (v' # vs') r = Inr (u # us, saw r (ids_between (sh_n s) (sh_n s')))" if "agree C s s'" for C r
      using u agree_split [OF adv that] ids_between_append [OF n] by (simp add: undone_def undone_all_def)
    then have "undone_all d (v # vs) s (v' # vs') s' (u # us)"
      using u n by (auto simp: undone_def undone_all_def)
    then show "\<exists>us. undone_all d (v # vs) s (v' # vs') s' us" by blast
  qed
qed

section \<open>The round trip on bytes\<close>

text \<open>Documents as bytes: the text decodes, and to the same content.\<close>

definition no_placeholders :: "string \<Rightarrow> bool" where
  "no_placeholders document = (case json_parse document of None \<Rightarrow> True | Some t \<Rightarrow> clean t)"

definition same_content :: "string \<Rightarrow> string \<Rightarrow> bool" where
  "same_content a b \<longleftrightarrow> (\<exists>t u. json_parse a = Some t \<and> json_parse b = Some u \<and> same_node t u)"

abbreviation fresh_shielder :: shielder where
  "fresh_shielder \<equiv> \<lparr>sh_n = 0, sh_captured = [], sh_order = []\<rparr>"

lemma root_is_doc:
  assumes "Validate document = Inr root"
  obtains m where "decodeObject root = Inr m" "typeOf m = Inr ''doc''" "json_parse document = Some root" "walkTypes root = Inr ()"
  using assms by (auto simp: Validate_def split: sum.splits option.splits if_splits)

lemma Shield_Inr:
  assumes "Shield document = Inr s"
  obtains root out st where "Validate document = Inr root"
    "shield_node False 0 root fresh_shielder = Inr (out, st)"
    "s = \<lparr>shd_Document = (if out = root then document else render out), shd_Captured = sh_captured st, shd_Order = sh_order st\<rparr>"
proof -
  from assms obtain root where r: "Validate document = Inr root" by (auto simp: Shield_def split: sum.splits)
  with assms obtain out st where "shield_node False 0 root fresh_shielder = Inr (out, st)"
    "s = \<lparr>shd_Document = (if out = root then document else render out), shd_Captured = sh_captured st, shd_Order = sh_order st\<rparr>"
    by (auto simp: Shield_def split: sum.splits)
  with r show thesis by (rule that)
qed

lemma Validate_parse:
  assumes "json_parse document = Some root" "decodeObject root = Inr m" "typeOf m = Inr ''doc''" "walkTypes root = Inr ()"
  shows "Validate document = Inr root"
  using assms by (simp add: Validate_def)

lemma shielded_root:
  assumes v: "Validate document = Inr root" and sh: "shield_node False 0 root fresh_shielder = Inr (out, st)"
  shows "Validate (if out = root then document else render out) = Inr out"
proof -
  obtain m where m: "decodeObject root = Inr m" "typeOf m = Inr ''doc''" "json_parse document = Some root" "walkTypes root = Inr ()"
    using root_is_doc [OF v] .
  have wf: "wf_json root" "nest root \<le> maxNestingDepth" using json_parse_sound [OF m(3)] by simp_all
  have "wf_json out" "walkTypes out = Inr ()" using shield_wf sh wf(1) shield_types m(4) by blast+
  moreover have "nest out \<le> max (nest root) (2 * (202 - 0))" using shield_nest sh by blast
  then have "nest out \<le> maxNestingDepth" using wf(2) by (simp add: maxNestingDepth_def)
  ultimately have p: "json_parse (if out = root then document else render out) = Some out"
    using parse_render m(3) by simp
  obtain m' where m': "decodeObject out = Inr m'" "typeOf m' = Inr ''doc''"
  proof -
    from sh show thesis
    proof (cases rule: shield_node_cases)
      case (unknown k ty)
      then have False using m by (simp add: KnownNode_def schema_nodes_def)
      then show thesis ..
    next
      case (known k ty ms ms' s1 ci cs cs')
      have "typeOf k = Inr ''doc''" using known m by simp
      then show thesis using that shielded_object [OF known(1), of ms' ms cs' cs] framed_items [OF known(4,6)] known(10) by simp
    qed
  qed
  show ?thesis by (rule Validate_parse [OF p m' \<open>walkTypes out = Inr ()\<close>])
qed

text \<open>
  C33. Restoring what was shielded gives the document back. For a document that decodes and holds no
  placeholder of its own, putting the captured originals back into the shielded document drops
  nothing, leaves nothing unresolved, and yields a document with the same content: every unknown node
  and mark the bytes it was captured as, every other member of every node its own bytes, only the
  framing of the nodes above a captured one written anew. When nothing was captured the document is
  returned byte for byte.
\<close>

theorem Restore_undoes_Shield:
  assumes "Shield document = Inr s" and "no_placeholders document"
  shows "\<exists>r. Restore (shd_Document s) s = Inr r \<and> rsd_Dropped r = [] \<and> rsd_Unresolved r = [] \<and>
    same_content document (rsd_Document r) \<and> (Any s \<or> rsd_Document r = document)"
proof -
  obtain root out st where v: "Validate document = Inr root" and sh: "shield_node False 0 root fresh_shielder = Inr (out, st)"
    and s: "s = \<lparr>shd_Document = (if out = root then document else render out), shd_Captured = sh_captured st, shd_Order = sh_order st\<rparr>"
    by (rule Shield_Inr [OF assms(1)])
  obtain m where p: "json_parse document = Some root" using root_is_doc [OF v] .
  have wf: "wf_json root" "nest root \<le> maxNestingDepth" using json_parse_sound [OF p] by simp_all
  have cl: "clean root" using assms(2) p by (simp add: no_placeholders_def)
  obtain u where u: "undone 0 root fresh_shielder out st u" using shield_undone sh wf(1) cl by blast
  have adv: "advances fresh_shielder st" by (rule shield_node_advances [OF sh])
  have order: "sh_order st = ids_between 0 (sh_n st)" using adv by (simp add: advances_def)
  have rn: "restore_node (sh_captured st) 0 out \<lparr>rs_seen = [], rs_unresolved = []\<rparr> =
      Inr (u, \<lparr>rs_seen = ids_between 0 (sh_n st), rs_unresolved = []\<rparr>)"
    using u by (simp add: undone_def agree_def saw_def)
  let ?D = "if u = out then (if out = root then document else render out) else render u"
  have R: "Restore (shd_Document s) s = Inr \<lparr>rsd_Document = ?D, rsd_Dropped = [], rsd_Unresolved = []\<rparr>"
    unfolding Restore_def s using shielded_root [OF v sh] rn order by simp
  have ue: "same_node root u" "wf_json u" "nest u \<le> maxNestingDepth" using u wf(2) by (auto simp: undone_def)
  have "json_parse ?D = Some u" using parse_render [OF ue(2,3)] p by auto
  then have "same_content document ?D" using p ue(1) by (auto simp: same_content_def)
  moreover have "Any s \<or> ?D = document"
  proof (cases "sh_n st = 0")
    case True
    then have "out = root \<and> u = root" using u by (simp add: undone_def)
    then show ?thesis by simp
  next
    case False
    then have "map_of (sh_captured st) (placeholder_id (sh_n st)) \<noteq> None" using adv by (simp add: advances_def)
    then show ?thesis by (auto simp: Any_def s)
  qed
  ultimately show ?thesis using R by (intro exI conjI) auto
qed

section \<open>What the editor is shown\<close>

function in_schema :: "json \<Rightarrow> bool" and in_schema_all :: "json list \<Rightarrow> bool" where
  "in_schema raw =
     (case decodeObject raw of
        Inl _ \<Rightarrow> False
      | Inr obj \<Rightarrow>
          (case typeOf obj of
             Inl _ \<Rightarrow> False
           | Inr t \<Rightarrow>
               KnownNode t \<and>
               (case array_items obj ''marks'' of
                  Inl _ \<Rightarrow> False
                | Inr ms \<Rightarrow> list_all (\<lambda>m. case mark_type m of Inl _ \<Rightarrow> False | Inr mt \<Rightarrow> KnownMark mt) ms) \<and>
               (case array_items obj ''content'' of Inl _ \<Rightarrow> False | Inr cs \<Rightarrow> in_schema_all cs)))"
| "in_schema_all [] = True"
| "in_schema_all (x # xs) \<longleftrightarrow> in_schema x \<and> in_schema_all xs"
  by pat_completeness auto
termination
  by (relation "measure (case_sum size (size_list size))") (auto dest: array_items_size)

declare in_schema.simps [simp del]

lemma in_schemaI:
  assumes "decodeObject t = Inr m" "typeOf m = Inr ty" "KnownNode ty" "array_items m ''marks'' = Inr ms"
    and "\<forall>x \<in> set ms. \<exists>mt. mark_type x = Inr mt \<and> KnownMark mt" and "array_items m ''content'' = Inr cs" and "in_schema_all cs"
  shows "in_schema t"
  using assms by (subst in_schema.simps) (auto simp: list_all_iff split: sum.split)

lemma known_mark_case:
  "(case mark_type m of Inl _ \<Rightarrow> False | Inr mt \<Rightarrow> KnownMark mt) \<longleftrightarrow> (\<exists>mt. mark_type m = Inr mt \<and> KnownMark mt)"
  by (cases "mark_type m") simp_all

lemma in_schemaD:
  assumes "in_schema t" "decodeObject t = Inr m" "array_items m ''marks'' = Inr ms" "array_items m ''content'' = Inr cs"
  shows "\<forall>x \<in> set ms. \<exists>mt. mark_type x = Inr mt \<and> KnownMark mt" and "in_schema_all cs"
    and "typeOf m = Inr ty \<Longrightarrow> KnownNode ty"
proof -
  have *: "\<exists>ty. typeOf m = Inr ty \<and> KnownNode ty \<and>
      (\<forall>x \<in> set ms. \<exists>mt. mark_type x = Inr mt \<and> KnownMark mt) \<and> in_schema_all cs"
    using assms(1) unfolding in_schema.simps [of t] assms(2-4) sum.case list_all_iff known_mark_case
    by (cases "typeOf m") simp_all
  then show "\<forall>x \<in> set ms. \<exists>mt. mark_type x = Inr mt \<and> KnownMark mt" "in_schema_all cs" by blast+
  show "typeOf m = Inr ty \<Longrightarrow> KnownNode ty" using * by auto
qed

lemma placeholder_mark: "mark_type (placeholder MarkUnknownMark i n v) = Inr MarkUnknownMark"
proof -
  have "ascii MarkUnknownMark" by (simp add: ascii_def)
  then show ?thesis by (simp add: mark_type_def placeholder_decode placeholder_members(1))
qed

lemma placeholder_in_schema:
  assumes "p = NodeUnknownInline \<or> p = NodeUnknownContent" shows "in_schema (placeholder p i n v)"
proof -
  have "ascii p" "p \<noteq> ''''" "KnownNode p" using assms by (auto simp: ascii_def KnownNode_def schema_nodes_def)
  then show ?thesis
    by (intro in_schemaI [OF placeholder_decode placeholder_members(1) _ placeholder_members(4) _ placeholder_members(3)]) simp_all
qed

lemma shield_marks_known:
  assumes "shield_marks ms s = Inr (ms', s')" shows "\<forall>x \<in> set ms'. \<exists>mt. mark_type x = Inr mt \<and> KnownMark mt"
  using assms
proof (induction ms arbitrary: s ms')
  case (Cons m ms)
  from Cons.prems obtain m' s1 ys where y: "shield_mark m s = Inr (m', s1)" "shield_marks ms s1 = Inr (ys, s')" "ms' = m' # ys"
    by (auto split: sum.splits prod.splits)
  have k: "KnownMark MarkUnknownMark" by (simp add: KnownMark_def schema_marks_def)
  obtain obj t where o: "decodeObject m = Inr obj" "typeOf obj = Inr t"
    using y(1) by (auto simp: shield_mark_def split: sum.splits)
  have "\<exists>mt. mark_type m' = Inr mt \<and> KnownMark mt"
  proof (cases "KnownMark t")
    case True
    then have "m' = m" using y(1) o by (simp add: shield_mark_def)
    then show ?thesis using o True by (simp add: mark_type_def)
  next
    case False
    then have "m' = placeholder MarkUnknownMark (placeholder_id (Suc (sh_n s))) t m"
      using y(1) o by (auto simp: shield_mark_def capture_def Let_def)
    then show ?thesis using k placeholder_mark by simp
  qed
  then show ?case using Cons.IH [OF y(2)] y(3) by simp
qed simp

lemma shield_in_schema:
  "(shield_node inl d t s = Inr (t', s') \<longrightarrow> in_schema t') \<and>
   (shield_nodes inl d ts s = Inr (ts', s') \<longrightarrow> in_schema_all ts')"
proof (induction rule: shield_induct)
  case (unknown inl d t s m ty t' s')
  show ?case unfolding capture_value [OF unknown(5)] by (rule placeholder_in_schema) simp
next
  case (known d t s m ty ms ms' s1 ci cs cs' s')
  note items = framed_items [OF known(5,7), of cs' ms']
  show ?case
    by (rule in_schemaI [OF shielded_object [OF known(1)] _ known(3) items(1) shield_marks_known [OF known(6)] items(2) known(9)])
      (simp add: items(3) known(2))
qed (simp_all add: in_schema_all.simps)

lemma shield_marks_kept:
  "shield_marks ms s = Inr (ms', s') \<Longrightarrow> \<forall>x \<in> set ms. \<exists>mt. mark_type x = Inr mt \<and> KnownMark mt \<Longrightarrow> s' = s"
proof (induction ms arbitrary: s ms')
  case (Cons m ms)
  from Cons.prems(1) obtain m' s1 ys where y: "shield_mark m s = Inr (m', s1)" "shield_marks ms s1 = Inr (ys, s')" "ms' = m' # ys"
    by (auto split: sum.splits prod.splits)
  have "s1 = s" using y(1) Cons.prems(2) by (auto simp: shield_mark_def mark_type_def split: sum.splits if_splits)
  then show ?case using Cons.IH y(2) Cons.prems(2) by simp
qed simp

lemma shield_kept:
  "(shield_node inl d t s = Inr (t', s') \<longrightarrow> in_schema t \<longrightarrow> t' = t \<and> s' = s) \<and>
   (shield_nodes inl d ts s = Inr (ts', s') \<longrightarrow> in_schema_all ts \<longrightarrow> ts' = ts \<and> s' = s)"
proof (induction rule: shield_induct)
  case (unknown inl d t s m ty t' s')
  have "\<not> in_schema t" using unknown(1-3) by (subst in_schema.simps) simp
  then show ?case by blast
next
  case (known d t s m ty ms ms' s1 ci cs cs' s')
  show ?case
  proof
    assume i: "in_schema t"
    note k = in_schemaD [OF i known(1,5,7)]
    have "s1 = s" "ms' = ms" using shield_marks_kept [OF known(6) k(1)] shield_marks_none [OF known(6)] by auto
    moreover have "cs' = cs \<and> s' = s1" using known(9) k(2) by blast
    ultimately show "(if ms' = ms \<and> cs' = cs then t
        else encode_object (put_member ''content'' cs cs' (put_member ''marks'' ms ms' m))) = t \<and> s' = s" by simp
  qed
qed (simp_all add: in_schema_all.simps)

definition document_in_schema :: "string \<Rightarrow> bool" where
  "document_in_schema document = (case json_parse document of None \<Rightarrow> False | Some t \<Rightarrow> in_schema t)"

text \<open>
  C34. The editor is never handed a type outside its schema. Whatever unknown nodes and marks a
  document holds, every node and mark the walk of the shielded document reaches has a type of the
  schema; and a document already within the schema is handed over byte for byte with nothing captured.
\<close>

theorem Shield_is_in_schema:
  assumes "Shield document = Inr s"
  shows "document_in_schema (shd_Document s) \<and>
    (\<not> document_in_schema document \<or> shd_Document s = document \<and> \<not> Any s)"
proof -
  obtain root out st where v: "Validate document = Inr root" and sh: "shield_node False 0 root fresh_shielder = Inr (out, st)"
    and s: "s = \<lparr>shd_Document = (if out = root then document else render out), shd_Captured = sh_captured st, shd_Order = sh_order st\<rparr>"
    by (rule Shield_Inr [OF assms])
  have p: "json_parse document = Some root" using root_is_doc [OF v] by blast
  have "json_parse (if out = root then document else render out) = Some out"
    using shielded_root [OF v sh] by (rule root_is_doc)
  then have "json_parse (shd_Document s) = Some out" by (simp add: s)
  moreover have "in_schema out" using shield_in_schema sh by blast
  moreover have "out = root \<and> sh_captured st = []" if "in_schema root"
  proof -
    have "out = root \<and> st = fresh_shielder" using shield_kept sh that by blast
    then show ?thesis by simp
  qed
  ultimately show ?thesis using p by (auto simp: document_in_schema_def s Any_def)
qed


section \<open>A document with a macro\<close>

text \<open>A page holding one node the schema does not know, as bytes.\<close>

definition macro_document :: string where
  "macro_document = render (plain_object
     [(''type'', json_string ''doc''), (''content'', JArr [] [([], plain_object [(''type'', json_string ''macro'')], [])])])"

lemma macro_document_shields: "case Shield macro_document of Inl _ \<Rightarrow> False | Inr s \<Rightarrow> Any s"
  by code_simp

lemma macro_document_clean: "no_placeholders macro_document"
  by code_simp

lemma Restore_undoes_Shield_witness:
  "\<exists>s r. Shield macro_document = Inr s \<and> Any s \<and> Restore (shd_Document s) s = Inr r \<and>
     same_content macro_document (rsd_Document r)"
proof -
  obtain s where s: "Shield macro_document = Inr s" "Any s"
    using macro_document_shields by (cases "Shield macro_document") auto
  then show ?thesis using Restore_undoes_Shield [OF s(1) macro_document_clean] by blast
qed

lemma Shield_is_in_schema_witness:
  "\<exists>s. Shield macro_document = Inr s \<and> Any s \<and> document_in_schema (shd_Document s)"
proof -
  obtain s where s: "Shield macro_document = Inr s" "Any s"
    using macro_document_shields by (cases "Shield macro_document") auto
  then show ?thesis using Shield_is_in_schema [OF s(1)] by blast
qed

end
