(* ===== verification/DocMarkdown.thy ===== *)
theory DocMarkdown
  imports DocRoundTrip
begin

text \<open>
  The markdown projection, \<^verbatim>\<open>internal/core/wiki/doc/text.go\<close>: \<open>ToMarkdown\<close> and its writers.
  A writer's output is a value here, appended by its caller; a failure discards it, as \<open>ToMarkdown\<close>
  discards its builder. \<open>upper\<close> and \<open>eqfold\<close> are \<open>strings.ToUpper\<close> and \<open>strings.EqualFold\<close>, whose Unicode
  tables are parameters.
\<close>

section \<open>Strings\<close>

definition TrimRightByte :: "char \<Rightarrow> string \<Rightarrow> string" where
  "TrimRightByte c s = rev (dropWhile (\<lambda>x. x = c) (rev s))"

definition newline :: char where "newline = CHR 0x0A"

text \<open>\<open>strings.Fields\<close>: the word being read, reversed.\<close>

function fields_from :: "string \<Rightarrow> string \<Rightarrow> string list" where
  "fields_from word [] = (if word = '''' then [] else [rev word])"
| "fields_from word (c # cs) =
     (case List.find (\<lambda>p. p \<noteq> [] \<and> HasPrefix (c # cs) p) space_seqs of
        None \<Rightarrow> fields_from (c # word) cs
      | Some p \<Rightarrow> (if word = '''' then [] else [rev word]) @ fields_from '''' (drop (length p) (c # cs)))"
  by pat_completeness auto
termination
proof (relation "measure (\<lambda>(word, s). length s)")
  show "((''''  , drop (length p) (c # cs)), word, c # cs) \<in> measure (\<lambda>(word, s). length s)"
    if "List.find (\<lambda>p. p \<noteq> [] \<and> HasPrefix (c # cs) p) space_seqs = Some p" for word c cs p
    using find_Some_in [OF that] by (cases p) auto
qed auto

definition Fields :: "string \<Rightarrow> string list" where
  "Fields s = fields_from '''' s"

definition itoa :: "int \<Rightarrow> string" where
  "itoa n = (if n < 0 then CHR ''-'' # decimal (nat (- n)) else decimal (nat n))"

section \<open>Attributes\<close>

text \<open>\<open>json.Unmarshal\<close> of a number into an \<open>int\<close>: an integer literal within 64 bits.\<close>

definition int_literal :: "string \<Rightarrow> int option" where
  "int_literal s =
     (let (neg, ds) = (case s of [] \<Rightarrow> (False, []) | c # cs \<Rightarrow> if c = CHR ''-'' then (True, cs) else (False, s));
          n = (if neg then - int (digits_nat ds) else int (digits_nat ds))
      in if ds = [] \<or> \<not> list_all is_digit ds \<or> n < - (2 ^ 63) \<or> 2 ^ 63 \<le> n then None else Some n)"

definition attr_raw :: "object \<Rightarrow> string \<Rightarrow> json option" where
  \<comment> \<open>the attribute's raw value; attributes that are absent, null or not an object have none\<close>
  "attr_raw obj name =
     (case map_of obj ''attrs'' of Some (JObj w ms) \<Rightarrow> map_of (raw_members ms) name | _ \<Rightarrow> None)"

definition intAttr :: "object \<Rightarrow> string \<Rightarrow> int \<Rightarrow> int" where
  "intAttr obj name fallback =
     (case attr_raw obj name of
        Some (JNum s) \<Rightarrow> (case int_literal s of None \<Rightarrow> fallback | Some n \<Rightarrow> n)
      | Some (JLit l) \<Rightarrow> if l = ''null'' then 0 else fallback
      | _ \<Rightarrow> fallback)"

definition boolAttr :: "object \<Rightarrow> string \<Rightarrow> bool" where
  "boolAttr obj name = (case attr_raw obj name of Some (JLit l) \<Rightarrow> l = ''true'' | _ \<Rightarrow> False)"

definition attr_or_empty :: "object \<Rightarrow> string \<Rightarrow> string" where
  \<comment> \<open>\<open>value, _ := obj.attrString(name)\<close>\<close>
  "attr_or_empty obj name = (case attrString obj name of None \<Rightarrow> '''' | Some s \<Rightarrow> s)"

section \<open>Marks and inline content\<close>

definition linkTarget :: "object \<Rightarrow> string option" where
  "linkTarget link =
     (if attr_or_empty link ''href'' \<noteq> '''' then Some (attr_or_empty link ''href'')
      else if attr_or_empty link ''page_id'' \<noteq> '''' then Some (''page:'' @ attr_or_empty link ''page_id'')
      else None)"

definition unresolvedLinkSuffix :: "(string \<Rightarrow> string \<Rightarrow> bool) \<Rightarrow> object \<Rightarrow> string \<Rightarrow> string" where
  "unresolvedLinkSuffix eqfold link txt =
     (case attrString link ''target_title'' of
        None \<Rightarrow> ''''
      | Some target \<Rightarrow>
          (let target = TrimSpace target
           in if target = '''' \<or> eqfold target (TrimSpace txt) then '''' else '' [New page: '' @ target @ '']''))"

fun mark_set_from :: "json list \<Rightarrow> (string \<times> object) list \<Rightarrow> doc_error + (string \<times> object) list" where
  "mark_set_from [] present = Inr present"
| "mark_set_from (m # ms) present =
     (case decodeObject m of
        Inl e \<Rightarrow> Inl e
      | Inr markObj \<Rightarrow>
          (case typeOf markObj of
             Inl e \<Rightarrow> Inl e
           | Inr markType \<Rightarrow> mark_set_from ms (AList.update markType markObj present)))"

definition markSet :: "object \<Rightarrow> doc_error + (string \<times> object) list" where
  "markSet obj = (case array_items obj ''marks'' of Inl e \<Rightarrow> Inl e | Inr marks \<Rightarrow> mark_set_from marks [])"

definition emphasisWrappers :: "(string \<times> string) list" where
  "emphasisWrappers = [(''code'', ''`''), (''bold'', ''**''), (''italic'', ''*''), (''strike'', ''~~'')]"

definition applyMarks :: "(string \<Rightarrow> string \<Rightarrow> bool) \<Rightarrow> object \<Rightarrow> string \<Rightarrow> doc_error + string" where
  "applyMarks eqfold obj txt =
     (case markSet obj of
        Inl e \<Rightarrow> Inl e
      | Inr present \<Rightarrow>
          (let txt = fold (\<lambda>(mark, delimiter) t. if map_of present mark = None then t else delimiter @ t @ delimiter)
                 emphasisWrappers txt
           in Inr (case map_of present ''link'' of
                     None \<Rightarrow> txt
                   | Some link \<Rightarrow>
                       (case linkTarget link of
                          Some target \<Rightarrow> ''['' @ txt @ '']('' @ target @ '')''
                        | None \<Rightarrow> txt @ unresolvedLinkSuffix eqfold link txt))))"

definition writeImageMarkdown :: "object \<Rightarrow> string" where
  "writeImageMarkdown obj =
     (let alt = attr_or_empty obj ''alt''; i = attr_or_empty obj ''attachment_id''
      in if i \<noteq> '''' then ''!['' @ alt @ ''](attachment:'' @ i @ '')''
         else ''!['' @ alt @ '']('' @ attr_or_empty obj ''src'' @ '')'')"

definition inlineAtomMarkdown :: "string \<Rightarrow> object \<Rightarrow> string" where
  "inlineAtomMarkdown childType obj =
     (if childType = ''hardBreak'' then ''  '' @ [newline]
      else if childType = ''statusLozenge'' then ''`'' @ attr_or_empty obj ''text'' @ ''`''
      else if childType = ''inlineTag''
        then (if attr_or_empty obj ''label'' = '''' then '''' else ''#'' @ attr_or_empty obj ''label'')
      else if childType = ''image'' then writeImageMarkdown obj
      else '''')"

definition text_member :: "object \<Rightarrow> string" where
  "text_member obj = (case map_of obj ''text'' of Some (JStr b) \<Rightarrow> (case unquote b of None \<Rightarrow> '''' | Some t \<Rightarrow> t) | _ \<Rightarrow> '''')"

definition inlineChildMarkdown :: "(string \<Rightarrow> string \<Rightarrow> bool) \<Rightarrow> json \<Rightarrow> doc_error + string" where
  "inlineChildMarkdown eqfold child =
     (case decodeObject child of
        Inl e \<Rightarrow> Inl e
      | Inr obj \<Rightarrow>
          (case typeOf obj of
             Inl e \<Rightarrow> Inl e
           | Inr childType \<Rightarrow>
               if childType = ''text'' then applyMarks eqfold obj (text_member obj)
               else if List.member [''hardBreak'', ''statusLozenge'', ''inlineTag'', ''image''] childType
               then Inr (inlineAtomMarkdown childType obj)
               else Inr (PlainText child)))"

fun inline_children :: "(string \<Rightarrow> string \<Rightarrow> bool) \<Rightarrow> json list \<Rightarrow> doc_error + string" where
  "inline_children eqfold [] = Inr ''''"
| "inline_children eqfold (c # cs) =
     (case inlineChildMarkdown eqfold c of
        Inl e \<Rightarrow> Inl e
      | Inr rendered \<Rightarrow> (case inline_children eqfold cs of Inl e \<Rightarrow> Inl e | Inr out \<Rightarrow> Inr (rendered @ out)))"

definition inlineMarkdown :: "(string \<Rightarrow> string \<Rightarrow> bool) \<Rightarrow> object \<Rightarrow> nat \<Rightarrow> doc_error + string" where
  "inlineMarkdown eqfold obj depth =
     (if maxDepth < depth then Inl ErrTooDeep
      else case array_items obj ''content'' of Inl e \<Rightarrow> Inl e | Inr children \<Rightarrow> inline_children eqfold children)"

section \<open>Blocks\<close>

definition blockGap :: string where "blockGap = [newline, newline]"

definition writePrefixed :: "string \<Rightarrow> string \<Rightarrow> string" where
  "writePrefixed body prefix =
     concat (map (\<lambda>line. prefix @ line @ [newline]) (Split1 newline (TrimRightByte newline body)))"

definition writeListItem :: "string \<Rightarrow> string \<Rightarrow> string" where
  "writeListItem body marker =
     (case Split1 newline body of
        [] \<Rightarrow> ''''
      | line # lines \<Rightarrow>
          marker @ line @ [newline] @
          concat (map (\<lambda>l. (if l = '''' then '''' else replicate (length marker) (CHR '' '')) @ l @ [newline]) lines))"

definition collapse :: "string \<Rightarrow> string" where
  "collapse s = JoinWith '' '' (Fields s)"

text \<open>The marker of item \<open>i\<close> (from 0); \<open>i+1+start-1\<close> is 64-bit arithmetic.\<close>

definition list_marker :: "string \<Rightarrow> object \<Rightarrow> object \<Rightarrow> nat \<Rightarrow> string" where
  "list_marker listType obj itemObj i =
     (if listType = ''orderedList''
      then itoa (sint (of_nat i + 1 + of_int (intAttr obj ''start'' 1) - 1 :: 64 word)) @ ''. ''
      else if listType = ''taskList'' then (if boolAttr itemObj ''checked'' then ''- [x] '' else ''- [ ] '')
      else ''- '')"

definition table_row :: "bool \<Rightarrow> string list \<Rightarrow> string" where
  "table_row header texts =
     ''| '' @ JoinWith '' | '' texts @ '' |'' @ [newline] @
     (if header then ''|'' @ concat (map (\<lambda>_. '' --- |'') texts) @ [newline] else '''')"

definition okay :: "(string \<Rightarrow> string) \<Rightarrow> doc_error + string \<Rightarrow> doc_error + string" where
  "okay f r = (case r of Inl e \<Rightarrow> Inl e | Inr s \<Rightarrow> Inr (f s))"


text \<open>A loop that collects results, or stops at the first failure.\<close>

fun all_results :: "('e + 'a) list \<Rightarrow> 'e + 'a list" where
  "all_results [] = Inr []"
| "all_results (r # rs) =
     (case r of Inl e \<Rightarrow> Inl e | Inr x \<Rightarrow> (case all_results rs of Inl e \<Rightarrow> Inl e | Inr xs \<Rightarrow> Inr (x # xs)))"

lemma size_member: "x \<in> set xs \<Longrightarrow> size x < Suc (size_list size (xs :: json list))"
  by (induction xs) auto

lemma size_item:
  "decodeObject raw = Inr obj \<Longrightarrow> array_items obj k = Inr items \<Longrightarrow> x \<in> set items \<Longrightarrow> size x < size raw"
  using array_items_size size_member by (metis Suc_leI le_less_trans less_Suc_eq_le order.strict_trans2)

lemma enumerate_member: "p \<in> set (enumerate n xs) \<Longrightarrow> snd p \<in> set xs"
  by (induction xs arbitrary: n) auto

text \<open>The writers, one branch per entry of \<open>blockWriters\<close>, call back into \<open>writeBlocks\<close>.\<close>

function writeBlocks :: "(string \<Rightarrow> string) \<Rightarrow> (string \<Rightarrow> string \<Rightarrow> bool) \<Rightarrow> nat \<Rightarrow> json \<Rightarrow> doc_error + string"
  and writeBlock :: "(string \<Rightarrow> string) \<Rightarrow> (string \<Rightarrow> string \<Rightarrow> bool) \<Rightarrow> nat \<Rightarrow> json \<Rightarrow> doc_error + string" where
  "writeBlocks upper eqfold depth raw =
     (if maxDepth < depth then Inl ErrTooDeep
      else case decodeObject raw of
        Inl e \<Rightarrow> Inl e
      | Inr obj \<Rightarrow>
          (case array_items obj ''content'' of
             Inl e \<Rightarrow> Inl e
           | Inr children \<Rightarrow>
               (case all_results (map (\<lambda>child. writeBlock upper eqfold (depth + 1) child) children) of
                  Inl e \<Rightarrow> Inl e | Inr parts \<Rightarrow> Inr (concat parts))))"
| "writeBlock upper eqfold depth raw =
     (if maxDepth < depth then Inl ErrTooDeep
      else case decodeObject raw of
        Inl e \<Rightarrow> Inl e
      | Inr obj \<Rightarrow>
          (case typeOf obj of
             Inl e \<Rightarrow> Inl e
           | Inr t \<Rightarrow>
               if t = ''paragraph'' then okay (\<lambda>s. s @ blockGap) (inlineMarkdown eqfold obj depth)
               else if t = ''heading''
               then okay (\<lambda>s. replicate (nat (min (max (intAttr obj ''level'' 1) 1) 6)) (CHR ''#'') @ '' '' @ s @ blockGap)
                      (inlineMarkdown eqfold obj depth)
               else if t = ''codeBlock''
               then okay (\<lambda>s. ''```'' @ attr_or_empty obj ''language'' @ [newline] @ s @ [newline] @ ''```'' @ blockGap)
                      (inlineMarkdown eqfold obj depth)
               else if t = ''horizontalRule'' then Inr (''---'' @ blockGap)
               else if t = ''bulletList'' \<or> t = ''orderedList'' \<or> t = ''taskList''
               then (case array_items obj ''content'' of
                       Inl e \<Rightarrow> Inl e
                     | Inr items \<Rightarrow>
                         (case all_results (map (\<lambda>p.
                             case decodeObject (snd p) of
                               Inl e \<Rightarrow> Inl e
                             | Inr itemObj \<Rightarrow>
                                 okay (\<lambda>inner. writeListItem (TrimRightByte newline inner) (list_marker t obj itemObj (fst p)))
                                   (writeBlocks upper eqfold (depth + 1) (snd p))) (enumerate 0 items)) of
                            Inl e \<Rightarrow> Inl e | Inr parts \<Rightarrow> Inr (concat parts @ [newline])))
               else if t = ''blockquote''
               then okay (\<lambda>inner. writePrefixed inner ''> '' @ [newline]) (writeBlocks upper eqfold depth raw)
               else if t = ''table''
               then (case array_items obj ''content'' of
                       Inl e \<Rightarrow> Inl e
                     | Inr rows \<Rightarrow>
                         (case all_results (map (\<lambda>p.
                             case decodeObject (snd p) of
                               Inl e \<Rightarrow> Inl e
                             | Inr rowObj \<Rightarrow>
                                 (case array_items rowObj ''content'' of
                                    Inl e \<Rightarrow> Inl e
                                  | Inr cells \<Rightarrow>
                                      (case all_results (map (\<lambda>cell. okay collapse (writeBlocks upper eqfold (depth + 1) cell)) cells) of
                                         Inl e \<Rightarrow> Inl e
                                       | Inr texts \<Rightarrow> Inr (table_row (fst p = 0) texts)))) (enumerate 0 rows)) of
                            Inl e \<Rightarrow> Inl e | Inr parts \<Rightarrow> Inr (concat parts @ [newline])))
               else if t = ''image'' then Inr (writeImageMarkdown obj @ blockGap)
               else if t = ''panel''
               then okay (\<lambda>inner. ''> **'' @ upper (case attrString obj ''kind'' of None \<Rightarrow> ''info'' | Some k \<Rightarrow> k) @ ''**'' @ [newline] @
                      writePrefixed inner ''> '' @ [newline]) (writeBlocks upper eqfold depth raw)
               else if t = ''expand''
               then okay (\<lambda>inner. ''**'' @ attr_or_empty obj ''title'' @ ''**'' @ blockGap @ inner) (writeBlocks upper eqfold depth raw)
               else if t = ''layout'' \<or> t = ''layoutColumn'' then writeBlocks upper eqfold depth raw
               else if t = ''tableOfContents'' then Inr (''[Table of contents]'' @ blockGap)
               else if t = ''childrenDisplay'' then Inr (''[Child pages]'' @ blockGap)
               else if t = ''pageInclude'' then Inr (''[Included page: '' @ attr_or_empty obj ''page_id'' @ '']'' @ blockGap)
               else Inr (if PlainText raw = '''' then '''' else PlainText raw @ blockGap)))"
  by pat_completeness auto
termination
proof (relation "measure (case_sum (\<lambda>(u, f, d, raw). 2 * size raw) (\<lambda>(u, f, d, raw). Suc (2 * size raw)))",
    simp_all only: in_measure sum.case prod.case wf_measure, goal_cases)
  case (1 upper eqfold depth raw obj items x)
  from size_item [OF 1(2,3,4)] show ?case by simp
next
  case (2 upper eqfold depth raw obj t items p itemObj)
  from size_item [OF 2(2,9) enumerate_member [OF 2(10)]] show ?case by simp
next
  case (3 upper eqfold depth raw obj t rows p rowObj cells c)
  from size_item [OF 3(2,11) enumerate_member [OF 3(12)]] size_item [OF 3(13-15)] show ?case by simp
qed

declare writeBlocks.simps [simp del] writeBlock.simps [simp del]

definition ToMarkdown :: "(string \<Rightarrow> string) \<Rightarrow> (string \<Rightarrow> string \<Rightarrow> bool) \<Rightarrow> string \<Rightarrow> doc_error + string" where
  "ToMarkdown upper eqfold document =
     (case Validate document of
        Inl e \<Rightarrow> Inl e
      | Inr root \<Rightarrow> okay (TrimRightByte newline) (writeBlocks upper eqfold 0 root))"


section \<open>A projection fails only on depth\<close>

text \<open>How deep a document's content nests.\<close>

function doc_depth :: "json \<Rightarrow> nat" where
  "doc_depth raw =
     (case decodeObject raw of
        Inl _ \<Rightarrow> 0
      | Inr obj \<Rightarrow>
          (case array_items obj ''content'' of
             Inl _ \<Rightarrow> 0
           | Inr children \<Rightarrow> foldr max (map (\<lambda>c. Suc (doc_depth c)) children) 0))"
  by pat_completeness auto
termination
  by (relation "measure size") (auto dest: size_item)

declare doc_depth.simps [simp del]

lemma doc_depth_item:
  assumes "decodeObject raw = Inr obj" "array_items obj ''content'' = Inr items" "x \<in> set items"
  shows "doc_depth x < doc_depth raw"
proof -
  have "x \<in> set items \<Longrightarrow> Suc (doc_depth x) \<le> foldr max (map (\<lambda>c. Suc (doc_depth c)) items) 0" for items
    by (induction items) auto
  then show ?thesis using assms by (subst (2) doc_depth.simps) fastforce
qed

text \<open>A result that is a failure only for depth, and only when \<open>B\<close>.\<close>

definition fits :: "bool \<Rightarrow> doc_error + 'a \<Rightarrow> bool" where
  "fits B r \<longleftrightarrow> (case r of Inl e \<Rightarrow> e = ErrTooDeep \<and> B | Inr _ \<Rightarrow> True)"

lemma fits_simps [simp]: "fits B (Inr x)" "fits B (Inl e) \<longleftrightarrow> e = ErrTooDeep \<and> B" "fits B (okay f r) = fits B r"
  by (auto simp: fits_def okay_def split: sum.split)

lemma fits_mono: "fits A r \<Longrightarrow> (A \<Longrightarrow> B) \<Longrightarrow> fits B r"
  by (auto simp: fits_def split: sum.splits)

lemma fits_case: "fits B r \<Longrightarrow> (\<And>x. r = Inr x \<Longrightarrow> fits B (g x)) \<Longrightarrow> fits B (case r of Inl e \<Rightarrow> Inl e | Inr x \<Rightarrow> g x)"
  by (cases r) simp_all

lemma fits_all: "\<forall>r \<in> set rs. fits B r \<Longrightarrow> fits B (all_results rs)"
  by (induction rs) (auto intro!: fits_case split: sum.split simp: fits_def)

lemma fits_map: "(\<And>x. x \<in> set xs \<Longrightarrow> fits B (g x)) \<Longrightarrow> fits B (all_results (map g xs))"
  by (rule fits_all) simp

lemma mark_set_fits: "\<forall>m \<in> set ms. walkTypes m = Inr () \<Longrightarrow> \<exists>p. mark_set_from ms present = Inr p"
proof (induction ms arbitrary: present)
  case (Cons m ms)
  then obtain obj t where "decodeObject m = Inr obj" "typeOf obj = Inr t" using iffD1 [OF walkTypes_Inr, of m] by auto
  then show ?case using Cons by simp
qed simp

lemma inline_fits:
  assumes "\<forall>c \<in> set cs. walkTypes c = Inr ()" shows "\<exists>s. inline_children eqfold cs = Inr s"
  using assms
proof (induction cs)
  case (Cons c cs)
  obtain obj t ms where c: "decodeObject c = Inr obj" "typeOf obj = Inr t" "array_items obj ''marks'' = Inr ms"
    "\<forall>m \<in> set ms. walkTypes m = Inr ()"
    using iffD1 [OF walkTypes_Inr, of c] Cons.prems by (auto simp: walkTypes_all_Inr)
  obtain p where "markSet obj = Inr p" using mark_set_fits [OF c(4), of "[]"] c(3) by (auto simp: markSet_def)
  then have "\<exists>s. applyMarks eqfold obj body = Inr s" for body unfolding applyMarks_def by (simp add: Let_def)
  then have "\<exists>s. inlineChildMarkdown eqfold c = Inr s" unfolding inlineChildMarkdown_def c(1,2) sum.case by simp
  moreover have "\<exists>s. inline_children eqfold cs = Inr s" using Cons.IH Cons.prems by simp
  ultimately show ?case by auto
qed simp

lemma blocks_fit:
  assumes "walkTypes raw = Inr ()"
  shows "fits (maxDepth < depth + doc_depth raw) (writeBlocks upper eqfold depth raw) \<and>
    fits (maxDepth < depth + doc_depth raw) (writeBlock upper eqfold depth raw)"
  using assms
proof (induction raw arbitrary: depth rule: measure_induct_rule [where f = size])
  case (less raw)
  let ?B = "maxDepth < depth + doc_depth raw"
  obtain obj t cs ms where o: "decodeObject raw = Inr obj" "typeOf obj = Inr t" "array_items obj ''content'' = Inr cs"
    "\<forall>c \<in> set cs. walkTypes c = Inr ()"
    using iffD1 [OF walkTypes_Inr less.prems] by (auto simp: walkTypes_all_Inr)
  have child: "fits ?B (writeBlocks upper eqfold (depth + 1) c)" "fits ?B (writeBlock upper eqfold (depth + 1) c)"
    "\<exists>m. decodeObject c = Inr m" if "c \<in> set cs" for c
  proof -
    have d: "doc_depth c < doc_depth raw" by (rule doc_depth_item [OF o(1,3) that])
    have w: "walkTypes c = Inr ()" using o(4) that by blast
    note ih = less.IH [OF size_item [OF o(1,3) that] w, of "depth + 1"]
    show "fits ?B (writeBlocks upper eqfold (depth + 1) c)" "fits ?B (writeBlock upper eqfold (depth + 1) c)"
      using ih d by (auto elim!: fits_mono)
    show "\<exists>m. decodeObject c = Inr m" using iffD1 [OF walkTypes_Inr w] by blast
  qed
  have blocks: "fits ?B (writeBlocks upper eqfold depth raw)"
    unfolding writeBlocks.simps [of _ _ depth raw] o sum.case
    using child(2) by (auto intro!: fits_case fits_map)
  have inl: "fits ?B (inlineMarkdown eqfold obj depth)"
    using inline_fits [OF o(4), of eqfold] by (auto simp: inlineMarkdown_def o(3))
  have item: "fits ?B (case decodeObject (snd p) of Inl e \<Rightarrow> Inl e | Inr itemObj \<Rightarrow>
      okay (h itemObj p) (writeBlocks upper eqfold (depth + 1) (snd p)))" if "p \<in> set (enumerate 0 cs)" for p h
    using child(1,3) [OF enumerate_member [OF that]] by auto
  have row: "fits ?B (case decodeObject (snd p) of Inl e \<Rightarrow> Inl e | Inr rowObj \<Rightarrow>
      (case array_items rowObj ''content'' of Inl e \<Rightarrow> Inl e | Inr cells \<Rightarrow>
        (case all_results (map (\<lambda>cell. okay collapse (writeBlocks upper eqfold (depth + 1) cell)) cells) of
           Inl e \<Rightarrow> Inl e | Inr texts \<Rightarrow> Inr (table_row (fst p = 0) texts))))" if p: "p \<in> set (enumerate 0 cs)" for p
  proof -
    have w: "walkTypes (snd p) = Inr ()" using o(4) enumerate_member [OF p] by blast
    then obtain rowObj cells where r: "decodeObject (snd p) = Inr rowObj" "array_items rowObj ''content'' = Inr cells"
      "\<forall>c \<in> set cells. walkTypes c = Inr ()"
      using iffD1 [OF walkTypes_Inr w] by (auto simp: walkTypes_all_Inr)
    have "fits ?B (writeBlocks upper eqfold (depth + 1) c)" if c: "c \<in> set cells" for c
    proof -
      have "doc_depth c < doc_depth (snd p)" "doc_depth (snd p) < doc_depth raw" "size c < size raw"
        using doc_depth_item [OF r(1,2) c] doc_depth_item [OF o(1,3) enumerate_member [OF p]]
          size_item [OF r(1,2) c] size_item [OF o(1,3) enumerate_member [OF p]] by simp_all
      then show ?thesis using less.IH [of c "depth + 1"] r(3) c by (auto elim!: fits_mono)
    qed
    then show ?thesis using r by (auto intro!: fits_case fits_map)
  qed
  have "fits ?B (writeBlock upper eqfold depth raw)"
    unfolding writeBlock.simps [of _ _ depth raw] o sum.case
    by (simp add: inl blocks) (intro conjI impI fits_case fits_map item row; simp)
  with blocks show ?case by blast
qed

text \<open>
  C36. A document that is well formed always has its markdown projection, unless it nests more than two
  hundred levels deep. The writers decode everything again as they go; nothing they can meet in a
  document that \<open>Validate\<close> accepts makes them fail but depth, so a publish is never refused because the
  search text could not be derived. A malformed document is refused with \<open>Validate\<close>'s own error, and the
  projection never ends in a newline.
\<close>

theorem ToMarkdown_fails_only_on_depth:
  "case Validate document of
     Inl e \<Rightarrow> ToMarkdown upper eqfold document = Inl e
   | Inr root \<Rightarrow>
       (\<exists>s. ToMarkdown upper eqfold document = Inr s \<and> TrimRightByte newline s = s) \<or>
       ToMarkdown upper eqfold document = Inl ErrTooDeep \<and> maxDepth < doc_depth root"
proof (cases "Validate document")
  case (Inl e)
  then show ?thesis by (simp add: ToMarkdown_def)
next
  case (Inr root)
  then have "walkTypes root = Inr ()" by (rule root_is_doc)
  from blocks_fit [OF this, of 0 upper eqfold] have f: "fits (maxDepth < doc_depth root) (writeBlocks upper eqfold 0 root)" by simp
  have trim: "TrimRightByte newline (TrimRightByte newline s) = TrimRightByte newline s" for s
    by (simp add: TrimRightByte_def)
  show ?thesis
    using f trim Inr by (cases "writeBlocks upper eqfold 0 root") (auto simp: ToMarkdown_def okay_def)
qed

end
