(* ===== verification/TagService.thy ===== *)
theory TagService
  imports WorkDb "HOL-Library.List_Lexorder" "HOL-Library.Char_ord"
begin

text \<open>
  \<^verbatim>\<open>internal/core/tags/tags.go\<close>: the tag service over its repository, and the repository's SQL
  adapter \<^verbatim>\<open>internal/db/adapters/tags.go\<close> with \<^verbatim>\<open>internal/db/queries/tags.sql\<close>.

  A tag row is created by its first use; outside a transaction every statement commits on its own, so
  the service's loops pass the database along and a failure keeps what was written before it.
  \<open>fresh\<close> supplies the identifiers the column default mints.
\<close>

datatype tag_error =
    ErrTagNotFound
  | ErrEntityNotFound
  | ErrInvalidName string
  | ErrTooManyTags nat
  | ErrTagDatabase string

definition EntityPage :: string where "EntityPage = ''page''"
definition EntityTicket :: string where "EntityTicket = ''ticket''"
definition EntityProjectItem :: string where "EntityProjectItem = ''project_item''"

definition EntityTypeValid :: "string \<Rightarrow> bool" where
  "EntityTypeValid e \<longleftrightarrow> e = EntityPage \<or> e = EntityTicket \<or> e = EntityProjectItem"

record EntityRef =
  er_Type :: string
  er_ID :: uuid
  er_SpaceID :: uuid

record TaggedEntity =
  te_EntityType :: string
  te_EntityID :: uuid
  te_SpaceID :: uuid
  te_SpaceName :: string
  te_SpaceKey :: string
  te_Title :: string
  te_Ref :: string
  te_UpdatedAt :: instant

record TagEntities =
  tes_Tag :: TagRow
  tes_Entities :: "TaggedEntity list"
  tes_Truncated :: bool

definition MaxTaggedEntities :: nat where "MaxTaggedEntities = 200"

record 'db TagRepository =
  tr_ListByOrg :: "'db \<Rightarrow> uuid \<Rightarrow> tag_error + TagRow list"
  tr_GetByOrgSlug :: "'db \<Rightarrow> uuid \<Rightarrow> string \<Rightarrow> tag_error + TagRow"
  tr_Upsert :: "uuid \<Rightarrow> uuid \<Rightarrow> string \<Rightarrow> string \<Rightarrow> 'db \<Rightarrow> (tag_error + TagRow) \<times> 'db"
  tr_ForEntity :: "'db \<Rightarrow> EntityRef \<Rightarrow> tag_error + TagRow list"
  tr_EntityInSpace :: "'db \<Rightarrow> EntityRef \<Rightarrow> tag_error + bool"
  tr_ReplaceEntityTags :: "EntityRef \<Rightarrow> uuid list \<Rightarrow> 'db \<Rightarrow> (tag_error + unit) \<times> 'db"
  tr_AddEntityTags :: "EntityRef \<Rightarrow> uuid list \<Rightarrow> 'db \<Rightarrow> (tag_error + unit) \<times> 'db"
  tr_EntitiesWithTag :: "'db \<Rightarrow> uuid \<Rightarrow> uuid list \<Rightarrow> tag_error + TaggedEntity list"

section \<open>The service\<close>

definition TagList :: "('db, 'm) TagRepository_scheme \<Rightarrow> 'db \<Rightarrow> uuid \<Rightarrow> tag_error + TagRow list" where
  "TagList r db orgID = tr_ListByOrg r db orgID"

definition ForEntity :: "('db, 'm) TagRepository_scheme \<Rightarrow> 'db \<Rightarrow> EntityRef \<Rightarrow> tag_error + TagRow list" where
  "ForEntity r db ref = (if \<not> EntityTypeValid (er_Type ref) then Inl ErrEntityNotFound else tr_ForEntity r db ref)"

fun upsertAll ::
    "('db, 'm) TagRepository_scheme \<Rightarrow> (nat \<Rightarrow> uuid) \<Rightarrow> nat \<Rightarrow> uuid \<Rightarrow> SlugLabel list \<Rightarrow> 'db \<Rightarrow>
     (tag_error + TagRow list) \<times> 'db" where
  "upsertAll r fresh k orgID [] db = (Inr [], db)"
| "upsertAll r fresh k orgID (w # ws) db =
     (case tr_Upsert r (fresh k) orgID (sl_Slug w) (sl_Label w) db of
        (Inl e, db1) \<Rightarrow> (Inl e, db1)
      | (Inr tag, db1) \<Rightarrow>
          (case upsertAll r fresh (Suc k) orgID ws db1 of
             (Inl e, db2) \<Rightarrow> (Inl e, db2) | (Inr ts, db2) \<Rightarrow> (Inr (tag # ts), db2)))"

definition TagResolve ::
    "('db, 'm) TagRepository_scheme \<Rightarrow> (nat \<Rightarrow> uuid) \<Rightarrow> uuid \<Rightarrow> string list \<Rightarrow> 'db \<Rightarrow> (tag_error + TagRow list) \<times> 'db" where
  "TagResolve r fresh orgID labels db =
     (case distinctTags labels of
        Inl invalid \<Rightarrow> (Inl (ErrInvalidName invalid), db)
      | Inr wanted \<Rightarrow>
          if MaxTagsPerEntity < length wanted then (Inl (ErrTooManyTags (length wanted)), db)
          else upsertAll r fresh 0 orgID wanted db)"

definition requireEntity :: "('db, 'm) TagRepository_scheme \<Rightarrow> 'db \<Rightarrow> EntityRef \<Rightarrow> tag_error + unit" where
  "requireEntity r db ref =
     (if \<not> EntityTypeValid (er_Type ref) then Inl ErrEntityNotFound
      else case tr_EntityInSpace r db ref of
             Inl e \<Rightarrow> Inl e | Inr ok \<Rightarrow> if ok then Inr () else Inl ErrEntityNotFound)"

definition SetEntityTags ::
    "('db, 'm) TagRepository_scheme \<Rightarrow> (nat \<Rightarrow> uuid) \<Rightarrow> uuid \<Rightarrow> EntityRef \<Rightarrow> string list \<Rightarrow> 'db \<Rightarrow>
     (tag_error + TagRow list) \<times> 'db" where
  "SetEntityTags r fresh orgID ref labels db =
     (case requireEntity r db ref of
        Inl e \<Rightarrow> (Inl e, db)
      | Inr _ \<Rightarrow>
          (case TagResolve r fresh orgID labels db of
             (Inl e, db1) \<Rightarrow> (Inl e, db1)
           | (Inr resolved, db1) \<Rightarrow>
               (case tr_ReplaceEntityTags r ref (map tg_id resolved) db1 of
                  (Inl e, db2) \<Rightarrow> (Inl e, db2) | (Inr _, db2) \<Rightarrow> (Inr resolved, db2))))"

definition EnsureOnEntity ::
    "('db, 'm) TagRepository_scheme \<Rightarrow> (nat \<Rightarrow> uuid) \<Rightarrow> uuid \<Rightarrow> EntityRef \<Rightarrow> string list \<Rightarrow> 'db \<Rightarrow>
     (tag_error + TagRow list) \<times> 'db" where
  "EnsureOnEntity r fresh orgID ref labels db =
     (if labels = [] then (Inr [], db)
      else case requireEntity r db ref of
        Inl e \<Rightarrow> (Inl e, db)
      | Inr _ \<Rightarrow>
          (case TagResolve r fresh orgID labels db of
             (Inl e, db1) \<Rightarrow> (Inl e, db1)
           | (Inr resolved, db1) \<Rightarrow>
               if resolved = [] then (Inr resolved, db1)
               else (case tr_AddEntityTags r ref (map tg_id resolved) db1 of
                       (Inl e, db2) \<Rightarrow> (Inl e, db2) | (Inr _, db2) \<Rightarrow> (Inr resolved, db2))))"

definition EntitiesWithSlug ::
    "('db, 'm) TagRepository_scheme \<Rightarrow> 'db \<Rightarrow> uuid \<Rightarrow> string \<Rightarrow> uuid list \<Rightarrow> tag_error + TagEntities" where
  "EntitiesWithSlug r db orgID slug readableSpaceIDs =
     rbind (tr_GetByOrgSlug r db orgID slug) (\<lambda>tag.
     rbind (tr_EntitiesWithTag r db (tg_id tag) readableSpaceIDs) (\<lambda>entities.
       let truncated = MaxTaggedEntities < length entities in
       Inr \<lparr>tes_Tag = tag, tes_Entities = (if truncated then take MaxTaggedEntities entities else entities),
            tes_Truncated = truncated\<rparr>))"

definition ResolveForPublish ::
    "('db, 'm) TagRepository_scheme \<Rightarrow> (nat \<Rightarrow> uuid) \<Rightarrow> uuid \<Rightarrow> string list \<Rightarrow> 'db \<Rightarrow> (tag_error + uuid list) \<times> 'db" where
  "ResolveForPublish r fresh orgID labels db =
     (case upsertAll r fresh 0 orgID (LenientLabelSlugs labels) db of
        (Inl e, db1) \<Rightarrow> (Inl e, db1) | (Inr resolved, db1) \<Rightarrow> (Inr (map tg_id resolved), db1))"

definition SlugsOf :: "TagRow list \<Rightarrow> string list" where
  "SlugsOf ts = map tg_slug ts"

section \<open>The adapter\<close>

definition q_ListTagsByOrg :: "'x work_db_scheme \<Rightarrow> uuid \<Rightarrow> sql_error + TagRow list" where
  "q_ListTagsByOrg db org =
     (if \<not> db_up db then Inl SqlDown else Inr (sort_key tg_name (filter (\<lambda>t. tg_org t = org) (tags db))))"

definition q_GetTagByOrgSlug :: "'x work_db_scheme \<Rightarrow> uuid \<Rightarrow> string \<Rightarrow> sql_error + TagRow" where
  "q_GetTagByOrgSlug db org slug =
     (if \<not> db_up db then Inl SqlDown
      else case List.find (\<lambda>t. tg_org t = org \<and> tg_slug t = slug) (tags db) of None \<Rightarrow> Inl SqlNoRows | Some t \<Rightarrow> Inr t)"

definition tags_on :: "'x work_db_scheme \<Rightarrow> string \<Rightarrow> uuid \<Rightarrow> uuid list" where
  "tags_on db ty i = map et_tag (filter (\<lambda>r. et_type r = ty \<and> et_id r = i) (entity_tags db))"

definition q_ListTagsForEntity :: "'x work_db_scheme \<Rightarrow> string \<Rightarrow> uuid \<Rightarrow> uuid \<Rightarrow> sql_error + TagRow list" where
  "q_ListTagsForEntity db ty i sp =
     (if \<not> db_up db then Inl SqlDown
      else Inr (if entity_in_space db ty i sp
        then sort_key tg_name (concat (map (\<lambda>k. filter (\<lambda>t. tg_id t = k) (tags db)) (tags_on db ty i)))
        else []))"

definition q_EntityTagTargetInSpace :: "'x work_db_scheme \<Rightarrow> string \<Rightarrow> uuid \<Rightarrow> uuid \<Rightarrow> sql_error + bool" where
  "q_EntityTagTargetInSpace db ty i sp = (if \<not> db_up db then Inl SqlDown else Inr (entity_in_space db ty i sp))"

definition wrap_tag :: "string \<Rightarrow> ('s, sql_error, 'a) stmt \<Rightarrow> ('s, tag_error, 'a) stmt" where
  "wrap_tag what m db = (case m db of Inl _ \<Rightarrow> Inl (ErrTagDatabase what) | Inr r \<Rightarrow> Inr r)"

text \<open>\<open>addEntityTags\<close> runs on a transaction or on the pool; on the pool each statement commits alone.\<close>

fun addEntityTags :: "EntityRef \<Rightarrow> uuid list \<Rightarrow> ('x work_db_scheme, tag_error, unit) stmt" where
  "addEntityTags ref [] = sret ()"
| "addEntityTags ref (t # ts) =
     sseq (wrap_tag ''tag adapter add entity tag'' (q_AddEntityTag (er_Type ref) (er_ID ref) (er_SpaceID ref) t))
       (addEntityTags ref ts)"

fun pg_AddEntityTags :: "EntityRef \<Rightarrow> uuid list \<Rightarrow> 'x work_db_scheme \<Rightarrow> (tag_error + unit) \<times> 'x work_db_scheme" where
  "pg_AddEntityTags ref [] db = (Inr (), db)"
| "pg_AddEntityTags ref (t # ts) db =
     (case in_tx (wrap_tag ''tag adapter add entity tag'' (q_AddEntityTag (er_Type ref) (er_ID ref) (er_SpaceID ref) t)) db of
        (Inl e, db1) \<Rightarrow> (Inl e, db1) | (Inr _, db1) \<Rightarrow> pg_AddEntityTags ref ts db1)"

definition pg_ReplaceEntityTags ::
    "EntityRef \<Rightarrow> uuid list \<Rightarrow> 'x work_db_scheme \<Rightarrow> (tag_error + unit) \<times> 'x work_db_scheme" where
  "pg_ReplaceEntityTags ref tagIDs =
     in_tx
       (sseq (wrap_tag ''tag adapter replace entity tags: delete''
               (q_DeleteEntityTagsExcept (er_Type ref) (er_ID ref) (er_SpaceID ref) tagIDs))
         (addEntityTags ref tagIDs))"

text \<open>
  The browse selects columns the shared row records do not hold; they are functions of the row's id
  here: \<open>bc_updated\<close> is \<open>updated_at\<close>, \<open>bc_key\<close> a space's key. \<open>itoa\<close> is \<open>strconv.FormatInt\<close>.
\<close>

record browse_columns =
  bc_updated :: "uuid \<Rightarrow> instant"
  bc_key :: "uuid \<Rightarrow> string"
  bc_itoa :: "int \<Rightarrow> string"

definition ComposeRef :: "browse_columns \<Rightarrow> string \<Rightarrow> int \<Rightarrow> string" where
  "ComposeRef c spaceKey number = spaceKey @ ''-'' @ bc_itoa c number"

definition browse_row ::
    "browse_columns \<Rightarrow> SpaceRow \<Rightarrow> string \<Rightarrow> uuid \<Rightarrow> string \<Rightarrow> string \<Rightarrow> TaggedEntity" where
  "browse_row c sp ty i title ref =
     \<lparr>te_EntityType = ty, te_EntityID = i, te_SpaceID = s_id sp, te_SpaceName = s_name sp, te_SpaceKey = bc_key c (s_id sp),
      te_Title = title, te_Ref = ref, te_UpdatedAt = bc_updated c i\<rparr>"

definition tagged_rows ::
    "browse_columns \<Rightarrow> 'x work_db_scheme \<Rightarrow> uuid \<Rightarrow> uuid list \<Rightarrow> TaggedEntity list" where
  \<comment> \<open>the union of the three arms, before the order and the limit\<close>
  "tagged_rows c db tagID readable =
     (let carriers = (\<lambda>ty. map et_id (filter (\<lambda>r. et_tag r = tagID \<and> et_type r = ty) (entity_tags db)));
          live = (\<lambda>i. filter (\<lambda>s. s_id s = i \<and> \<not> s_deleted s \<and> List.member readable i) (spaces db));
          pgs = concat (map (\<lambda>i. concat (map (\<lambda>p. map (\<lambda>s. browse_row c s EntityPage (pg_id p) (pg_title p) (pg_path p))
                  (live (pg_space p))) (filter (\<lambda>p. pg_id p = i \<and> \<not> pg_deleted p) (pages db)))) (carriers EntityPage));
          tks = concat (map (\<lambda>i. concat (map (\<lambda>t. map (\<lambda>s. browse_row c s EntityTicket (tk_id t) (tk_title t)
                    (ComposeRef c (bc_key c (s_id s)) (tk_number t)))
                  (live (tk_space t))) (filter (\<lambda>t. tk_id t = i \<and> \<not> tk_deleted t) (tickets db)))) (carriers EntityTicket));
          pis = concat (map (\<lambda>i. concat (map (\<lambda>t. map (\<lambda>s. browse_row c s EntityProjectItem (pi_id t) (pi_title t) (pi_key t))
                  (live (pi_space t))) (filter (\<lambda>t. pi_id t = i \<and> \<not> pi_deleted t) (project_items db)))) (carriers EntityProjectItem))
      in pgs @ tks @ pis)"

definition q_ListEntitiesWithTag ::
    "browse_columns \<Rightarrow> 'x work_db_scheme \<Rightarrow> uuid \<Rightarrow> uuid list \<Rightarrow> sql_error + TaggedEntity list" where
  "q_ListEntitiesWithTag c db tagID readable =
     (if \<not> db_up db then Inl SqlDown
      else Inr (take 201 (rev (sort_key (\<lambda>e. (te_UpdatedAt e, te_EntityID e)) (tagged_rows c db tagID readable)))))"

definition or_tag_error :: "string \<Rightarrow> sql_error + 'a \<Rightarrow> tag_error + 'a" where
  "or_tag_error what x = (case x of Inl _ \<Rightarrow> Inl (ErrTagDatabase what) | Inr y \<Rightarrow> Inr y)"

definition pg_GetByOrgSlug :: "'x work_db_scheme \<Rightarrow> uuid \<Rightarrow> string \<Rightarrow> tag_error + TagRow" where
  "pg_GetByOrgSlug db org slug =
     (case q_GetTagByOrgSlug db org slug of
        Inl e \<Rightarrow> if e = SqlNoRows then Inl ErrTagNotFound else Inl (ErrTagDatabase ''tag adapter get by slug'')
      | Inr t \<Rightarrow> Inr t)"

definition pg_tag_repository :: "browse_columns \<Rightarrow> 'x work_db_scheme TagRepository" where
  "pg_tag_repository c =
     \<lparr>tr_ListByOrg = (\<lambda>db org. or_tag_error ''tag adapter list by org'' (q_ListTagsByOrg db org)),
      tr_GetByOrgSlug = pg_GetByOrgSlug,
      tr_Upsert = (\<lambda>i org slug name. in_tx (wrap_tag ''tag adapter upsert'' (q_UpsertTag i org slug name))),
      tr_ForEntity = (\<lambda>db ref. or_tag_error ''tag adapter list for entity''
         (q_ListTagsForEntity db (er_Type ref) (er_ID ref) (er_SpaceID ref))),
      tr_EntityInSpace = (\<lambda>db ref. or_tag_error ''tag adapter entity in space''
         (q_EntityTagTargetInSpace db (er_Type ref) (er_ID ref) (er_SpaceID ref))),
      tr_ReplaceEntityTags = pg_ReplaceEntityTags,
      tr_AddEntityTags = pg_AddEntityTags,
      tr_EntitiesWithTag = (\<lambda>db t readable. or_tag_error ''tag adapter entities with tag'' (q_ListEntitiesWithTag c db t readable))\<rparr>"

end
