(* ===== verification/TagReach.thy ===== *)
theory TagReach
  imports TagService WorkflowReach
begin

text \<open>
  What the tag repository promises, as the locale \<open>tag_repository\<close>; the service's behaviour proved
  once over it; and the SQL adapter as its interpretation.
\<close>

section \<open>The contract\<close>

locale tag_repository =
  fixes r :: "('db, 'm) TagRepository_scheme"
    and up :: "'db \<Rightarrow> bool"
    and known :: "'db \<Rightarrow> uuid \<Rightarrow> bool"
    and tag_of :: "'db \<Rightarrow> uuid \<Rightarrow> string \<Rightarrow> TagRow option"
    and on :: "'db \<Rightarrow> string \<Rightarrow> uuid \<Rightarrow> uuid set"
    and rest :: "'db \<Rightarrow> 'db"
  assumes up_rest: "up (rest db) = up db"
    and upsert: "up db \<Longrightarrow> slug_shape slug \<Longrightarrow> \<not> known db i \<Longrightarrow>
      \<exists>t db'. tr_Upsert r i org slug name db = (Inr t, db') \<and> tg_slug t = slug \<and> tag_of db' org slug = Some t \<and>
        (tag_of db org slug = None \<or> tag_of db org slug = Some t) \<and>
        (\<forall>k. known db' k = (known db k \<or> k = tg_id t)) \<and> (tg_id t = i \<or> known db (tg_id t)) \<and>
        (\<forall>o' s' t'. tag_of db o' s' = Some t' \<longrightarrow> tag_of db' o' s' = Some t') \<and> on db' = on db \<and> rest db' = rest db"
    and in_space: "up db \<Longrightarrow> tr_EntityInSpace r db ref = tr_EntityInSpace r (rest db) ref"
      "up db \<Longrightarrow> \<exists>b. tr_EntityInSpace r db ref = Inr b"
    and replace: "up db \<Longrightarrow> tr_EntityInSpace r db ref = Inr True \<Longrightarrow> list_all (known db) ids \<Longrightarrow>
      \<exists>db'. tr_ReplaceEntityTags r ref ids db = (Inr (), db') \<and> on db' (er_Type ref) (er_ID ref) = set ids \<and>
        (\<forall>ty i. (ty, i) \<noteq> (er_Type ref, er_ID ref) \<longrightarrow> on db' ty i = on db ty i) \<and> tag_of db' = tag_of db \<and> rest db' = rest db"
    and add: "up db \<Longrightarrow> tr_EntityInSpace r db ref = Inr True \<Longrightarrow> list_all (known db) ids \<Longrightarrow>
      \<exists>db'. tr_AddEntityTags r ref ids db = (Inr (), db') \<and>
        on db' (er_Type ref) (er_ID ref) = on db (er_Type ref) (er_ID ref) \<union> set ids \<and>
        (\<forall>ty i. (ty, i) \<noteq> (er_Type ref, er_ID ref) \<longrightarrow> on db' ty i = on db ty i) \<and> tag_of db' = tag_of db \<and> rest db' = rest db"
begin

definition kept :: "'db \<Rightarrow> 'db \<Rightarrow> bool" where
  "kept db db' \<longleftrightarrow> rest db' = rest db \<and> (\<forall>o' s' t'. tag_of db o' s' = Some t' \<longrightarrow> tag_of db' o' s' = Some t')"

definition wanted_tags :: "uuid \<Rightarrow> SlugLabel list \<Rightarrow> TagRow list \<Rightarrow> 'db \<Rightarrow> bool" where
  "wanted_tags org ws ts db \<longleftrightarrow> map tg_slug ts = map sl_Slug ws \<and> (\<forall>t \<in> set ts. tag_of db org (tg_slug t) = Some t)"

lemma upsertAll_ok:
  assumes "up db" "list_all (\<lambda>w. slug_shape (sl_Slug w)) ws" "inj_on fresh {..<n}" "k + length ws \<le> n"
    "\<forall>j \<ge> k. j < n \<longrightarrow> \<not> known db (fresh j)"
  shows "\<exists>ts db'. upsertAll r fresh k org ws db = (Inr ts, db') \<and> wanted_tags org ws ts db' \<and>
    list_all (known db') (map tg_id ts) \<and> (\<forall>j. known db j \<longrightarrow> known db' j) \<and> kept db db' \<and> on db' = on db"
  using assms
proof (induction ws arbitrary: k db)
  case Nil
  then show ?case by (simp add: wanted_tags_def kept_def)
next
  case (Cons w ws)
  from Cons.prems obtain t db1 where t: "tr_Upsert r (fresh k) org (sl_Slug w) (sl_Label w) db = (Inr t, db1)"
    "tg_slug t = sl_Slug w" "tag_of db1 org (sl_Slug w) = Some t" "\<forall>j. known db1 j = (known db j \<or> j = tg_id t)"
    "tg_id t = fresh k \<or> known db (tg_id t)" "kept db db1" "on db1 = on db"
    using upsert [of db "sl_Slug w" "fresh k" org "sl_Label w"] unfolding kept_def by auto
  have kn: "k < n" using Cons.prems(4) by simp
  have up1: "up db1" using Cons.prems(1) t(6) up_rest [of db] up_rest [of db1] by (simp add: kept_def)
  have "\<not> known db1 (fresh j)" if j: "Suc k \<le> j" "j < n" for j
  proof
    assume "known db1 (fresh j)"
    then have "fresh j = tg_id t" using t(4) Cons.prems(5) j by auto
    then have "fresh j = fresh k" using t(5) Cons.prems(5) j by (metis Suc_leD)
    then show False using inj_onD [OF Cons.prems(3), of j k] j kn by simp
  qed
  then obtain ts db2 where ts: "upsertAll r fresh (Suc k) org ws db1 = (Inr ts, db2)" "wanted_tags org ws ts db2"
    "list_all (known db2) (map tg_id ts)" "\<forall>j. known db1 j \<longrightarrow> known db2 j" "kept db1 db2" "on db2 = on db1"
    using Cons.IH [OF up1 _ Cons.prems(3), of "Suc k"] Cons.prems(2,4) by auto
  have "tag_of db2 org (tg_slug t) = Some t" using t(2,3) ts(5) by (simp add: kept_def)
  then have "wanted_tags org (w # ws) (t # ts) db2" using ts(2) t(2) by (simp add: wanted_tags_def)
  moreover have "kept db db2" using t(6) ts(5) by (simp add: kept_def)
  moreover have "known db2 (tg_id t)" using t(4) ts(4) by blast
  ultimately show ?case using t ts by simp
qed

lemma TagResolve_ok:
  assumes "up db" "inj_on fresh {..<MaxTagsPerEntity}" "\<forall>j < MaxTagsPerEntity. \<not> known db (fresh j)"
    "distinctTags labels = Inr ws" "length ws \<le> MaxTagsPerEntity"
  shows "\<exists>ts db'. TagResolve r fresh org labels db = (Inr ts, db') \<and> wanted_tags org ws ts db' \<and>
    list_all (known db') (map tg_id ts) \<and> kept db db' \<and> on db' = on db"
proof -
  have "list_all (\<lambda>w. slug_shape (sl_Slug w)) ws"
    using distinct_tags_from_Inr [of labels "[]" "[]" ws] assms(4) by (simp add: distinctTags_def list_all_iff)
  then show ?thesis using upsertAll_ok [of db ws fresh MaxTagsPerEntity 0 org] assms by (auto simp: TagResolve_def)
qed

lemma requireEntity_cases:
  assumes "up db"
  shows "requireEntity r db ref =
    (if EntityTypeValid (er_Type ref) \<and> tr_EntityInSpace r db ref = Inr True then Inr () else Inl ErrEntityNotFound)"
  using in_space(2) [OF assms, of ref] by (auto simp: requireEntity_def)

lemma SetEntityTags_sets:
  fixes org :: uuid and ref :: EntityRef and labels :: "string list"
  assumes "up db" "inj_on fresh {..<MaxTagsPerEntity}" "\<forall>j < MaxTagsPerEntity. \<not> known db (fresh j)"
  defines "out \<equiv> SetEntityTags r fresh org ref labels db"
  shows "if \<not> (EntityTypeValid (er_Type ref) \<and> tr_EntityInSpace r db ref = Inr True) then out = (Inl ErrEntityNotFound, db)
    else case distinctTags labels of
      Inl l \<Rightarrow> out = (Inl (ErrInvalidName l), db)
    | Inr ws \<Rightarrow>
        if MaxTagsPerEntity < length ws then out = (Inl (ErrTooManyTags (length ws)), db)
        else \<exists>ts db'. out = (Inr ts, db') \<and> wanted_tags org ws ts db' \<and> kept db db' \<and>
          on db' (er_Type ref) (er_ID ref) = set (map tg_id ts) \<and>
          (\<forall>ty i. (ty, i) \<noteq> (er_Type ref, er_ID ref) \<longrightarrow> on db' ty i = on db ty i)"
proof (cases "EntityTypeValid (er_Type ref) \<and> tr_EntityInSpace r db ref = Inr True")
  case False
  then show ?thesis by (auto simp: out_def SetEntityTags_def requireEntity_cases [OF assms(1)])
next
  case ok: True
  show ?thesis
  proof (cases "distinctTags labels")
    case (Inl l)
    then show ?thesis using ok by (simp add: out_def SetEntityTags_def requireEntity_cases [OF assms(1)] TagResolve_def)
  next
    case (Inr ws)
    show ?thesis
    proof (cases "MaxTagsPerEntity < length ws")
      case True
      then show ?thesis using ok Inr by (simp add: out_def SetEntityTags_def requireEntity_cases [OF assms(1)] TagResolve_def)
    next
      case False
      then obtain ts db1 where ts: "TagResolve r fresh org labels db = (Inr ts, db1)" "wanted_tags org ws ts db1"
        "list_all (known db1) (map tg_id ts)" "kept db db1" "on db1 = on db"
        using TagResolve_ok [OF assms(1-3) Inr] by force
      have up1: "up db1" using assms(1) ts(4) up_rest [of db] up_rest [of db1] by (simp add: kept_def)
      have "tr_EntityInSpace r db1 ref = Inr True"
        using ok in_space(1) [OF assms(1), of ref] in_space(1) [OF up1, of ref] ts(4) by (simp add: kept_def)
      from replace [OF up1 this ts(3)] obtain db2 where "tr_ReplaceEntityTags r ref (map tg_id ts) db1 = (Inr (), db2)"
        "on db2 (er_Type ref) (er_ID ref) = set (map tg_id ts)"
        "\<forall>ty i. (ty, i) \<noteq> (er_Type ref, er_ID ref) \<longrightarrow> on db2 ty i = on db1 ty i" "tag_of db2 = tag_of db1" "rest db2 = rest db1"
        by blast
      then show ?thesis using ok Inr False ts
        by (simp add: out_def SetEntityTags_def requireEntity_cases [OF assms(1)] wanted_tags_def kept_def)
    qed
  qed
qed

end


section \<open>The adapter keeps it\<close>

definition tag_known :: "'x work_db_scheme \<Rightarrow> uuid \<Rightarrow> bool" where
  "tag_known db i \<longleftrightarrow> list_ex (\<lambda>t. tg_id t = i) (tags db)"

definition org_tag :: "'x work_db_scheme \<Rightarrow> uuid \<Rightarrow> string \<Rightarrow> TagRow option" where
  "org_tag db org slug = List.find (\<lambda>t. tg_org t = org \<and> tg_slug t = slug) (tags db)"

definition carried :: "'x work_db_scheme \<Rightarrow> string \<Rightarrow> uuid \<Rightarrow> uuid set" where
  "carried db ty i = set (tags_on db ty i)"

definition untagged :: "'x work_db_scheme \<Rightarrow> 'x work_db_scheme" where
  "untagged db = db\<lparr>tags := [], entity_tags := []\<rparr>"

definition tag_rows :: "EntityRef \<Rightarrow> uuid list \<Rightarrow> EntityTagRow set" where
  "tag_rows ref ids = (\<lambda>t. \<lparr>et_type = er_Type ref, et_id = er_ID ref, et_tag = t\<rparr>) ` set ids"

lemma carried_iff: "k \<in> carried db ty i \<longleftrightarrow> (\<exists>r \<in> set (entity_tags db). et_type r = ty \<and> et_id r = i \<and> et_tag r = k)"
  by (auto simp: carried_def tags_on_def)

lemma entity_in_space_tags [simp]:
  "entity_in_space (db\<lparr>entity_tags := x\<rparr>) ty i sp = entity_in_space db ty i sp"
  "entity_in_space (db\<lparr>tags := y\<rparr>) ty i sp = entity_in_space db ty i sp"
  by (simp_all add: entity_in_space_def)

lemma addEntityTag_ok:
  assumes "db_up db" "entity_in_space db ty i sp" "tag_known db t"
  shows "\<exists>rs. q_AddEntityTag ty i sp t db = Inr ((), db\<lparr>entity_tags := rs\<rparr>) \<and>
    set rs = insert \<lparr>et_type = ty, et_id = i, et_tag = t\<rparr> (set (entity_tags db))"
proof (cases "List.member (entity_tags db) \<lparr>et_type = ty, et_id = i, et_tag = t\<rparr>")
  case True
  then show ?thesis using assms
    by (intro exI [of _ "entity_tags db"]) (auto simp: q_AddEntityTag_def tag_known_def Let_def)
next
  case False
  then show ?thesis using assms
    by (intro exI [of _ "entity_tags db @ [\<lparr>et_type = ty, et_id = i, et_tag = t\<rparr>]"]) (auto simp: q_AddEntityTag_def tag_known_def Let_def)
qed

lemma addEntityTags_ok:
  assumes "db_up db" "entity_in_space db (er_Type ref) (er_ID ref) (er_SpaceID ref)" "list_all (tag_known db) ids"
  shows "\<exists>rs. addEntityTags ref ids db = Inr ((), db\<lparr>entity_tags := rs\<rparr>) \<and>
      pg_AddEntityTags ref ids db = (Inr (), db\<lparr>entity_tags := rs\<rparr>) \<and> set rs = set (entity_tags db) \<union> tag_rows ref ids"
  using assms
proof (induction ids arbitrary: db)
  case Nil
  then show ?case by (intro exI [of _ "entity_tags db"]) (simp add: tag_rows_def sret_def)
next
  case (Cons t ids)
  obtain rs where rs: "q_AddEntityTag (er_Type ref) (er_ID ref) (er_SpaceID ref) t db = Inr ((), db\<lparr>entity_tags := rs\<rparr>)"
    "set rs = insert \<lparr>et_type = er_Type ref, et_id = er_ID ref, et_tag = t\<rparr> (set (entity_tags db))"
    using addEntityTag_ok [OF Cons.prems(1,2), of t] Cons.prems(3) by auto
  obtain rs' where rs': "addEntityTags ref ids (db\<lparr>entity_tags := rs\<rparr>) = Inr ((), db\<lparr>entity_tags := rs'\<rparr>)"
    "pg_AddEntityTags ref ids (db\<lparr>entity_tags := rs\<rparr>) = (Inr (), db\<lparr>entity_tags := rs'\<rparr>)" "set rs' = set rs \<union> tag_rows ref ids"
    using Cons.IH [of "db\<lparr>entity_tags := rs\<rparr>"] Cons.prems by (auto simp: tag_known_def [abs_def])
  then show ?case using rs
    by (intro exI [of _ rs']) (auto simp: tag_rows_def sseq_def sbind_def wrap_tag_def in_tx_def)
qed

lemma carried_rows:
  assumes "set rs = old \<union> tag_rows ref ids" "\<And>r. r \<in> old \<longleftrightarrow> r \<in> set (entity_tags db) \<and> keep r"
    and "\<And>r. (et_type r, et_id r) \<noteq> (er_Type ref, er_ID ref) \<Longrightarrow> keep r"
  shows "(ty, i) \<noteq> (er_Type ref, er_ID ref) \<Longrightarrow> carried (db\<lparr>entity_tags := rs\<rparr>) ty i = carried db ty i"
    and "k \<in> carried (db\<lparr>entity_tags := rs\<rparr>) (er_Type ref) (er_ID ref) \<longleftrightarrow>
      k \<in> set ids \<or> (\<exists>r \<in> old. et_type r = er_Type ref \<and> et_id r = er_ID ref \<and> et_tag r = k)"
proof -
  have rows: "(\<exists>r \<in> tag_rows ref ids. et_type r = ty \<and> et_id r = i \<and> et_tag r = k) \<longleftrightarrow>
      (ty, i) = (er_Type ref, er_ID ref) \<and> k \<in> set ids" for ty i k
    by (auto simp: tag_rows_def)
  have c: "k \<in> carried (db\<lparr>entity_tags := rs\<rparr>) ty i \<longleftrightarrow>
      (\<exists>r \<in> old. et_type r = ty \<and> et_id r = i \<and> et_tag r = k) \<or> (ty, i) = (er_Type ref, er_ID ref) \<and> k \<in> set ids" for ty i k
    by (simp add: carried_iff assms(1) bex_Un rows)
  show "(ty, i) \<noteq> (er_Type ref, er_ID ref) \<Longrightarrow> carried (db\<lparr>entity_tags := rs\<rparr>) ty i = carried db ty i"
    using assms(2,3) by (auto simp: set_eq_iff c carried_iff [of _ db])
  show "k \<in> carried (db\<lparr>entity_tags := rs\<rparr>) (er_Type ref) (er_ID ref) \<longleftrightarrow>
      k \<in> set ids \<or> (\<exists>r \<in> old. et_type r = er_Type ref \<and> et_id r = er_ID ref \<and> et_tag r = k)"
    using c by blast
qed

lemma replace_ok:
  assumes "db_up db" "entity_in_space db (er_Type ref) (er_ID ref) (er_SpaceID ref)" "list_all (tag_known db) ids"
  shows "\<exists>rs. pg_ReplaceEntityTags ref ids db = (Inr (), db\<lparr>entity_tags := rs\<rparr>) \<and>
    carried (db\<lparr>entity_tags := rs\<rparr>) (er_Type ref) (er_ID ref) = set ids \<and>
    (\<forall>ty i. (ty, i) \<noteq> (er_Type ref, er_ID ref) \<longrightarrow> carried (db\<lparr>entity_tags := rs\<rparr>) ty i = carried db ty i)"
proof -
  let ?keep = "\<lambda>r. \<not> (et_type r = er_Type ref \<and> et_id r = er_ID ref \<and> et_tag r \<notin> set ids)"
  let ?old = "filter ?keep (entity_tags db)"
  have del: "q_DeleteEntityTagsExcept (er_Type ref) (er_ID ref) (er_SpaceID ref) ids db = Inr ((), db\<lparr>entity_tags := ?old\<rparr>)"
    using assms by (simp add: q_DeleteEntityTagsExcept_def)
  obtain rs where rs: "addEntityTags ref ids (db\<lparr>entity_tags := ?old\<rparr>) = Inr ((), db\<lparr>entity_tags := rs\<rparr>)"
    "set rs = set ?old \<union> tag_rows ref ids"
    using addEntityTags_ok [of "db\<lparr>entity_tags := ?old\<rparr>" ref ids] assms by (auto simp: tag_known_def [abs_def])
  note c = carried_rows [OF rs(2), where keep = ?keep and db = db]
  have "carried (db\<lparr>entity_tags := rs\<rparr>) (er_Type ref) (er_ID ref) = set ids"
    by (intro set_eqI; subst c(2)) auto
  moreover have "carried (db\<lparr>entity_tags := rs\<rparr>) ty i = carried db ty i" if "(ty, i) \<noteq> (er_Type ref, er_ID ref)" for ty i
    by (rule c(1)) (use that in auto)
  ultimately show ?thesis using del rs
    by (intro exI [of _ rs]) (simp add: pg_ReplaceEntityTags_def in_tx_def sseq_def sbind_def wrap_tag_def)
qed

lemma upsert_ok:
  assumes "db_up db" "slug_shape slug" "\<not> tag_known db i"
  shows "\<exists>t ts. q_UpsertTag i org slug name db = Inr (t, db\<lparr>tags := ts\<rparr>) \<and> tg_slug t = slug \<and> org_tag (db\<lparr>tags := ts\<rparr>) org slug = Some t \<and>
        (org_tag db org slug = None \<or> org_tag db org slug = Some t) \<and>
        (\<forall>k. tag_known (db\<lparr>tags := ts\<rparr>) k = (tag_known db k \<or> k = tg_id t)) \<and> (tg_id t = i \<or> tag_known db (tg_id t)) \<and>
        (\<forall>o' s' t'. org_tag db o' s' = Some t' \<longrightarrow> org_tag (db\<lparr>tags := ts\<rparr>) o' s' = Some t')"
proof (cases "org_tag db org slug")
  case None
  let ?t = "\<lparr>tg_id = i, tg_org = org, tg_slug = slug, tg_name = name\<rparr>"
  show ?thesis using assms None
    by (intro exI [of _ ?t] exI [of _ "tags db @ [?t]"])
      (auto simp: q_UpsertTag_def org_tag_def tag_known_def find_app Let_def)
next
  case (Some t)
  then have "t \<in> set (tags db)" "tg_slug t = slug" by (auto simp: org_tag_def dest: find_Some_in)
  then show ?thesis using assms Some
    by (intro exI [of _ t] exI [of _ "tags db"]) (auto simp: q_UpsertTag_def org_tag_def tag_known_def list_ex_iff)
qed

interpretation pgt: tag_repository "pg_tag_repository c" db_up tag_known org_tag carried untagged
proof (unfold_locales, goal_cases)
  case (1 db)
  show ?case by (simp add: untagged_def)
next
  case (2 db slug i org name)
  then obtain t ts where t: "q_UpsertTag i org slug name db = Inr (t, db\<lparr>tags := ts\<rparr>)" and rest: "tg_slug t = slug"
    "org_tag (db\<lparr>tags := ts\<rparr>) org slug = Some t" "org_tag db org slug = None \<or> org_tag db org slug = Some t"
    "\<forall>k. tag_known (db\<lparr>tags := ts\<rparr>) k = (tag_known db k \<or> k = tg_id t)" "tg_id t = i \<or> tag_known db (tg_id t)"
    "\<forall>o' s' t'. org_tag db o' s' = Some t' \<longrightarrow> org_tag (db\<lparr>tags := ts\<rparr>) o' s' = Some t'"
    using upsert_ok by blast
  show ?case
    by (intro exI [of _ t] exI [of _ "db\<lparr>tags := ts\<rparr>"] conjI rest)
      (simp_all add: pg_tag_repository_def in_tx_def wrap_tag_def t carried_def tags_on_def untagged_def fun_eq_iff)
next
  case (3 db ref)
  then show ?case by (simp add: pg_tag_repository_def q_EntityTagTargetInSpace_def or_tag_error_def untagged_def)
next
  case (4 db ref)
  then show ?case by (simp add: pg_tag_repository_def q_EntityTagTargetInSpace_def or_tag_error_def)
next
  case (5 db ref ids)
  then have "entity_in_space db (er_Type ref) (er_ID ref) (er_SpaceID ref)"
    by (simp add: pg_tag_repository_def q_EntityTagTargetInSpace_def or_tag_error_def)
  from replace_ok [OF 5(1) this 5(3)] show ?case
    by (auto simp: pg_tag_repository_def untagged_def org_tag_def [abs_def])
next
  case (6 db ref ids)
  then have "entity_in_space db (er_Type ref) (er_ID ref) (er_SpaceID ref)"
    by (simp add: pg_tag_repository_def q_EntityTagTargetInSpace_def or_tag_error_def)
  from addEntityTags_ok [OF 6(1) this 6(3)] obtain rs where
    rs: "pg_AddEntityTags ref ids db = (Inr (), db\<lparr>entity_tags := rs\<rparr>)" "set rs = set (entity_tags db) \<union> tag_rows ref ids" by blast
  note c = carried_rows [OF rs(2), where keep = "\<lambda>_. True" and db = db]
  have "carried (db\<lparr>entity_tags := rs\<rparr>) (er_Type ref) (er_ID ref) = carried db (er_Type ref) (er_ID ref) \<union> set ids"
    by (intro set_eqI; subst c(2)) (auto simp: carried_iff)
  moreover have "carried (db\<lparr>entity_tags := rs\<rparr>) ty i = carried db ty i" if "(ty, i) \<noteq> (er_Type ref, er_ID ref)" for ty i
    by (rule c(1)) (use that in auto)
  ultimately show ?case using rs(1)
    by (intro exI [of _ "db\<lparr>entity_tags := rs\<rparr>"]) (auto simp: pg_tag_repository_def untagged_def org_tag_def [abs_def])
qed

lemma GetByOrgSlug_is:
  "db_up d \<Longrightarrow> pg_GetByOrgSlug d o' s = (case org_tag d o' s of None \<Rightarrow> Inl ErrTagNotFound | Some t \<Rightarrow> Inr t)"
  by (simp add: pg_GetByOrgSlug_def q_GetTagByOrgSlug_def org_tag_def split: option.split)

lemma kept_frame:
  fixes db :: "'x work_db_scheme"
  assumes up0: "db_up db" and k: "pgt.kept db db'"
  shows "db_up db' \<and> db'\<lparr>tags := tags db, entity_tags := entity_tags db\<rparr> = db \<and>
      (\<forall>o' s. pg_GetByOrgSlug db o' s = Inl ErrTagNotFound \<or> pg_GetByOrgSlug db' o' s = pg_GetByOrgSlug db o' s)"
proof -
  have u: "untagged db' = untagged db" using k by (simp add: pgt.kept_def)
  have "db_up (untagged db') = db_up db'" "db_up (untagged db) = db_up db" by (simp_all add: untagged_def)
  then have up: "db_up db'" using up0 u by simp
  moreover have "db'\<lparr>tags := tags db, entity_tags := entity_tags db\<rparr> = untagged db'\<lparr>tags := tags db, entity_tags := entity_tags db\<rparr>"
    by (simp add: untagged_def)
  moreover have "\<dots> = db" unfolding u by (simp add: untagged_def)
  moreover have "pg_GetByOrgSlug db o' s = Inl ErrTagNotFound \<or> pg_GetByOrgSlug db' o' s = pg_GetByOrgSlug db o' s" for o' s
    using k by (auto simp: GetByOrgSlug_is [OF up0] GetByOrgSlug_is [OF up] pgt.kept_def split: option.split)
  ultimately show ?thesis by simp
qed

text \<open>
  C35. Setting an entity's tags makes them exactly the labels given. For an entity that is not live in
  the authorised space nothing at all is written, not even a tag row; a label without a letter or digit
  and more than fifty distinct tags are refused with nothing written. Otherwise the call succeeds: one
  tag per distinct slug, in the order of the labels; the entity carries these and no others; the tags
  of every other entity are untouched; a slug that already named a tag still names the same row, its
  first spelling kept; and nothing but tags and their associations has changed.
\<close>

theorem SetEntityTags_is_the_labels:
  fixes db :: "'x work_db_scheme" and c :: browse_columns and org i sp :: uuid and ty :: string and labels :: "string list"
  assumes "db_up db" and "inj_on fresh {..<MaxTagsPerEntity}" and "fresh ` {..<MaxTagsPerEntity} \<inter> tg_id ` set (tags db) = {}"
  defines "out \<equiv> SetEntityTags (pg_tag_repository c) fresh org \<lparr>er_Type = ty, er_ID = i, er_SpaceID = sp\<rparr> labels db"
  shows "if \<not> (EntityTypeValid ty \<and> entity_in_space db ty i sp) then out = (Inl ErrEntityNotFound, db)
    else case distinctTags labels of
      Inl l \<Rightarrow> out = (Inl (ErrInvalidName l), db)
    | Inr ws \<Rightarrow>
        if MaxTagsPerEntity < length ws then out = (Inl (ErrTooManyTags (length ws)), db)
        else \<exists>ts db'. out = (Inr ts, db') \<and> SlugsOf ts = map sl_Slug ws \<and>
          set (tags_on db' ty i) = set (map tg_id ts) \<and>
          (\<forall>ty' i'. (ty', i') = (ty, i) \<or> set (tags_on db' ty' i') = set (tags_on db ty' i')) \<and>
          (\<forall>t \<in> set ts. pg_GetByOrgSlug db' org (tg_slug t) = Inr t) \<and>
          (\<forall>o' s. pg_GetByOrgSlug db o' s = Inl ErrTagNotFound \<or> pg_GetByOrgSlug db' o' s = pg_GetByOrgSlug db o' s) \<and>
          db'\<lparr>tags := tags db, entity_tags := entity_tags db\<rparr> = db"
proof -
  let ?ref = "\<lparr>er_Type = ty, er_ID = i, er_SpaceID = sp\<rparr>"
  have fr: "\<forall>j < MaxTagsPerEntity. \<not> tag_known db (fresh j)" using assms(3) by (auto simp: tag_known_def list_ex_iff)
  have sp: "tr_EntityInSpace (pg_tag_repository c) db ?ref = Inr True \<longleftrightarrow> entity_in_space db ty i sp"
    using assms(1) by (simp add: pg_tag_repository_def q_EntityTagTargetInSpace_def or_tag_error_def)
  note get = GetByOrgSlug_is and kept = kept_frame [OF assms(1)]
  note main = pgt.SetEntityTags_sets [OF assms(1,2) fr, where c = c and ref = ?ref and org = org and labels = labels, folded out_def, unfolded sp, simplified]
  show ?thesis
  proof (cases "EntityTypeValid ty \<and> entity_in_space db ty i sp")
    case False
    then show ?thesis using main by auto
  next
    case ok: True
    show ?thesis
    proof (cases "distinctTags labels")
      case (Inl l)
      then show ?thesis using main ok by simp
    next
      case (Inr ws)
      show ?thesis
      proof (cases "MaxTagsPerEntity < length ws")
        case True
        then show ?thesis using main ok Inr by simp
      next
        case False
        then obtain ts db' where ts: "out = (Inr ts, db')" "pgt.wanted_tags org ws ts db'" "pgt.kept db db'"
          "carried db' ty i = set (map tg_id ts)" "\<forall>ty' i'. (ty', i') \<noteq> (ty, i) \<longrightarrow> carried db' ty' i' = carried db ty' i'"
          using main ok Inr by auto
        note k = kept [OF ts(3)]
        have up: "db_up db'" using k by blast
        have "SlugsOf ts = map sl_Slug ws" "\<forall>t \<in> set ts. pg_GetByOrgSlug db' org (tg_slug t) = Inr t"
          using ts(2) by (simp_all add: pgt.wanted_tags_def SlugsOf_def get [OF up])
        moreover have "(ty', i') = (ty, i) \<or> set (tags_on db' ty' i') = set (tags_on db ty' i')" for ty' i'
          using ts(5) unfolding carried_def by blast
        ultimately have "out = (Inr ts, db') \<and> SlugsOf ts = map sl_Slug ws \<and> set (tags_on db' ty i) = set (map tg_id ts) \<and>
          (\<forall>ty' i'. (ty', i') = (ty, i) \<or> set (tags_on db' ty' i') = set (tags_on db ty' i')) \<and>
          (\<forall>t \<in> set ts. pg_GetByOrgSlug db' org (tg_slug t) = Inr t) \<and>
          (\<forall>o' s. pg_GetByOrgSlug db o' s = Inl ErrTagNotFound \<or> pg_GetByOrgSlug db' o' s = pg_GetByOrgSlug db o' s) \<and>
          db'\<lparr>tags := tags db, entity_tags := entity_tags db\<rparr> = db"
          using ts(1,4) k unfolding carried_def by blast
        then show ?thesis using ok Inr False by auto
      qed
    qed
  qed
qed


definition demo_labels :: "string list" where
  "demo_labels = [''Design Docs'', ''design docs'', ''#urgent'']"

definition demo_columns :: browse_columns where
  "demo_columns = \<lparr>bc_updated = (\<lambda>_. 0), bc_key = (\<lambda>_. ''OPS''), bc_itoa = (\<lambda>_. ''0'')\<rparr>"

definition demo_tag_ids :: "nat \<Rightarrow> uuid" where
  "demo_tag_ids k = of_nat (900 + k)"

lemma demo_labels_distinct: "(case distinctTags demo_labels of Inl l \<Rightarrow> [] | Inr ws \<Rightarrow> map sl_Slug ws) = [''design_docs'', ''urgent'']"
  by code_simp

lemma demo_tag_ids_distinct: "inj_on demo_tag_ids {..<MaxTagsPerEntity}"
proof (rule inj_onI)
  fix a b assume "a \<in> {..<MaxTagsPerEntity}" "b \<in> {..<MaxTagsPerEntity}" "demo_tag_ids a = demo_tag_ids b"
  then have e: "unat (of_nat (900 + a) :: 128 word) = unat (of_nat (900 + b) :: 128 word)" "a < 50" "b < 50"
    by (simp_all add: demo_tag_ids_def MaxTagsPerEntity_def)
  then show "a = b" unfolding unat_of_nat take_bit_eq_mod by simp
qed

lemma SetEntityTags_is_the_labels_witness:
  "\<exists>ts db'. SetEntityTags (pg_tag_repository demo_columns) demo_tag_ids 1
      \<lparr>er_Type = ''ticket'', er_ID = 71, er_SpaceID = 31\<rparr> demo_labels demo_work = (Inr ts, db') \<and>
    SlugsOf ts = [''design_docs'', ''urgent''] \<and> set (tags_on db' ''ticket'' 71) = set (map tg_id ts)"
proof -
  have db: "db_up demo_work" "demo_tag_ids ` {..<MaxTagsPerEntity} \<inter> tg_id ` set (tags demo_work) = {}"
    "EntityTypeValid ''ticket''" "entity_in_space demo_work ''ticket'' 71 31"
    by (simp_all add: demo_work_def EntityTypeValid_def EntityTicket_def entity_in_space_def ticket_hit_def)
  obtain ws where ws: "distinctTags demo_labels = Inr ws" "map sl_Slug ws = [''design_docs'', ''urgent'']"
    using demo_labels_distinct by (cases "distinctTags demo_labels") simp_all
  have "length ws = 2" using arg_cong [OF ws(2), of length] by simp
  then have n: "\<not> MaxTagsPerEntity < length ws" by (simp add: MaxTagsPerEntity_def)
  note t = SetEntityTags_is_the_labels [OF db(1) demo_tag_ids_distinct db(2), where c = demo_columns and org = 1 and ty = "''ticket''"
    and i = 71 and sp = 31 and labels = demo_labels]
  from t show ?thesis unfolding ws(2) [symmetric]
    by (simp only: db(3,4) ws(1) n if_False sum.case simp_thms) (elim exE conjE, intro exI conjI)
qed

end
