(* ===== verification/DocLoss.thy ===== *)
theory DocLoss
  imports DocMarkdown
begin

text \<open>
  What \<open>Restore\<close> puts back is in the document it returns: a captured original is either among the
  dropped ids or a node or a mark of the restored document.
\<close>

section \<open>Nodes and marks of a document\<close>

inductive held :: "json \<Rightarrow> json \<Rightarrow> bool" where
  held_here: "held v v"
| held_child: "decodeObject t = Inr m \<Longrightarrow> array_items m ''content'' = Inr cs \<Longrightarrow> c \<in> set cs \<Longrightarrow> held v c \<Longrightarrow> held v t"
| held_mark: "decodeObject t = Inr m \<Longrightarrow> array_items m ''marks'' = Inr ms \<Longrightarrow> v \<in> set ms \<Longrightarrow> held v t"

definition puts_back :: "(string \<times> json) list \<Rightarrow> restorer \<Rightarrow> restorer \<Rightarrow> (json \<Rightarrow> bool) \<Rightarrow> bool" where
  "puts_back C r r' here \<longleftrightarrow> set (rs_seen r) \<subseteq> set (rs_seen r') \<and>
     (\<forall>i \<in> set (rs_seen r') - set (rs_seen r). \<exists>v. map_of C i = Some v \<and> here v)"

lemma puts_back_refl [simp]: "puts_back C r r h"
  by (simp add: puts_back_def)

lemma puts_back_trans:
  "puts_back C r r1 h1 \<Longrightarrow> puts_back C r1 r2 h2 \<Longrightarrow> (\<And>v. h1 v \<Longrightarrow> h v) \<Longrightarrow> (\<And>v. h2 v \<Longrightarrow> h v) \<Longrightarrow> puts_back C r r2 h"
  unfolding puts_back_def by blast

lemma puts_back_mono: "puts_back C r r' h \<Longrightarrow> (\<And>v. h v \<Longrightarrow> h' v) \<Longrightarrow> puts_back C r r' h'"
  unfolding puts_back_def by blast

lemma restore_placeholder_puts:
  "restore_placeholder C raw obj r = Inr (u, r') \<Longrightarrow> puts_back C r r' (\<lambda>v. v = u) \<and> (u = raw \<or> (\<exists>i. map_of C i = Some u))"
  by (auto simp: restore_placeholder_def puts_back_def split: option.splits if_splits)

lemma restore_marks_puts:
  "restore_marks C ms r = Inr (ms', r') \<Longrightarrow>
     puts_back C r r' (\<lambda>v. v \<in> set ms') \<and> (\<forall>u \<in> set ms'. u \<in> set ms \<or> (\<exists>i. map_of C i = Some u))"
proof (induction ms arbitrary: r ms')
  case (Cons m ms)
  from Cons.prems obtain m' r1 ys where y: "restore_mark C m r = Inr (m', r1)" "restore_marks C ms r1 = Inr (ys, r')" "ms' = m' # ys"
    by (auto split: sum.splits prod.splits)
  have "puts_back C r r1 (\<lambda>v. v = m') \<and> (m' = m \<or> (\<exists>i. map_of C i = Some m'))"
    using y(1) restore_placeholder_puts by (fastforce simp: restore_mark_def split: sum.splits if_splits)
  note a = this and b = Cons.IH [OF y(2)]
  have "puts_back C r r' (\<lambda>v. v \<in> set (m' # ys))"
    by (rule puts_back_trans [OF conjunct1 [OF a] conjunct1 [OF b]]) simp_all
  moreover have "\<forall>u \<in> set (m' # ys). u \<in> set (m # ms) \<or> (\<exists>i. map_of C i = Some u)" using a b by auto
  ultimately show ?case unfolding y(3) by blast
qed simp

lemma restore_node_cases:
  assumes "restore_node C d t r = Inr (u, r')"
  obtains (placeholder) m ty where "decodeObject t = Inr m" "restore_placeholder C t m r = Inr (u, r')" "typeOf m = Inr ty"
      "ty = NodeUnknownContent \<or> ty = NodeUnknownInline"
  | (known) m ms ms' r1 cs cs' ty where "decodeObject t = Inr m" "array_items m ''marks'' = Inr ms"
      "restore_marks C ms r = Inr (ms', r1)" "array_items m ''content'' = Inr cs"
      "restore_nodes C (d + 1) cs r1 = Inr (cs', r')"
      "u = (if ms' = ms \<and> cs' = cs then t
        else encode_object (put_member ''content'' cs cs' (put_member ''marks'' ms ms' m)))"
      "typeOf m = Inr ty" "\<not> maxDepth < d" "\<not> (ty = NodeUnknownContent \<or> ty = NodeUnknownInline)"
proof -
  note e = assms [unfolded restore_node.simps [of C d t r]]
  have d: "\<not> maxDepth < d" using e by (auto split: if_splits)
  obtain m where m: "decodeObject t = Inr m" using e d by (cases "decodeObject t") simp_all
  obtain ty where ty: "typeOf m = Inr ty" using e d m by (cases "typeOf m") simp_all
  show thesis
  proof (cases "ty = NodeUnknownContent \<or> ty = NodeUnknownInline")
    case True
    then show thesis using e d m ty by (intro placeholder) simp_all
  next
    case False
    note f = e [unfolded m ty sum.case if_not_P [OF d] if_not_P [OF False]]
    obtain ms where ms: "array_items m ''marks'' = Inr ms" using f by (cases "array_items m ''marks''") simp_all
    obtain ms' r1 where ms': "restore_marks C ms r = Inr (ms', r1)"
      using f unfolding ms sum.case by (cases "restore_marks C ms r") auto
    obtain cs where cs: "array_items m ''content'' = Inr cs"
      using f unfolding ms ms' sum.case prod.case by (cases "array_items m ''content''") simp_all
    obtain cs' r2 where cs': "restore_nodes C (d + 1) cs r1 = Inr (cs', r2)"
      using f unfolding ms ms' cs sum.case prod.case by (cases "restore_nodes C (d + 1) cs r1") auto
    have "(if ms' = ms \<and> cs' = cs then Inr (t, r2)
        else Inr (encode_object (put_member ''content'' cs cs' (put_member ''marks'' ms ms' m)), r2)) = (Inr (u, r') :: doc_error + json \<times> restorer)"
      using f unfolding ms ms' cs cs' sum.case prod.case .
    then have "r2 = r'" "u = (if ms' = ms \<and> cs' = cs then t
        else encode_object (put_member ''content'' cs cs' (put_member ''marks'' ms ms' m)))" by (auto split: if_splits)
    then show thesis using known [OF m ms ms' cs _ _ ty d False] cs' by blast
  qed
qed

lemma restore_puts_back:
  "restore_node C d t r = Inr (u, r') \<Longrightarrow> puts_back C r r' (\<lambda>v. held v u) \<and>
     (wf_json t \<longrightarrow> (\<forall>i v. map_of C i = Some v \<longrightarrow> wf_json v) \<longrightarrow> wf_json u)"
  "restore_nodes C d ts r = Inr (us, r') \<Longrightarrow> puts_back C r r' (\<lambda>v. \<exists>u \<in> set us. held v u) \<and>
     ((\<forall>t \<in> set ts. wf_json t) \<longrightarrow> (\<forall>i v. map_of C i = Some v \<longrightarrow> wf_json v) \<longrightarrow> (\<forall>u \<in> set us. wf_json u))"
proof (induction C d t r and C d ts r arbitrary: u r' and us r' rule: restore_node_restore_nodes.induct)
  case (1 C d t r)
  from 1(2) show ?case
  proof (cases rule: restore_node_cases)
    case (placeholder m ty)
    from restore_placeholder_puts [OF placeholder(2)] show ?thesis by (auto elim: puts_back_mono intro: held_here)
  next
    case (known m ms ms' r1 cs cs' ty)
    have IH: "puts_back C r1 r' (\<lambda>v. \<exists>u \<in> set cs'. held v u) \<and>
        ((\<forall>t \<in> set cs. wf_json t) \<longrightarrow> (\<forall>i v. map_of C i = Some v \<longrightarrow> wf_json v) \<longrightarrow> (\<forall>u \<in> set cs'. wf_json u))"
      by (rule 1(1) [OF known(8,1,7,9,2,3) refl known(4,5)])
    define m' where "m' = put_member ''content'' cs cs' (put_member ''marks'' ms ms' m)"
    have u: "decodeObject u = Inr m'" unfolding known(6) m'_def by (rule shielded_object [OF known(1)])
    note items = framed_items [OF known(2,4), of cs' ms', folded m'_def]
    note M = restore_marks_puts [OF known(3)]
    have "puts_back C r r' (\<lambda>v. held v u)"
      by (rule puts_back_trans [OF conjunct1 [OF M] conjunct1 [OF IH]])
        (auto intro: held_mark [OF u items(1)] held_child [OF u items(2)])
    moreover have "wf_json u" if w: "wf_json t" and c: "\<forall>i v. map_of C i = Some v \<longrightarrow> wf_json v"
    proof -
      have "\<forall>x \<in> set ms'. wf_json x" using M c array_values(1) [OF known(1,2) _ w] by blast
      moreover have "\<forall>x \<in> set cs'. wf_json x" using IH c array_values(1) [OF known(1,4) _ w] by blast
      ultimately show ?thesis using framed_wf [OF known(1) w] w known(6) by auto
    qed
    ultimately show ?thesis by blast
  qed
next
  case (2 C d r)
  then show ?case by simp
next
  case (3 C d v vs r)
  from 3(3) obtain v' r1 vs' where y: "restore_node C d v r = Inr (v', r1)" "restore_nodes C d vs r1 = Inr (vs', r')" "us = v' # vs'"
    by (auto split: sum.splits prod.splits)
  note a = 3(1) [OF y(1)] and b = 3(2) [OF y(1) refl y(2)]
  have "puts_back C r r' (\<lambda>x. \<exists>u \<in> set (v' # vs'). held x u)"
    by (rule puts_back_trans [OF conjunct1 [OF a] conjunct1 [OF b]]) auto
  moreover have "\<forall>u \<in> set (v' # vs'). wf_json u"
    if w: "\<forall>t \<in> set (v # vs). wf_json t" and c: "\<forall>i v. map_of C i = Some v \<longrightarrow> wf_json v"
  proof -
    have "wf_json v'" using conjunct2 [OF a] w c by (meson list.set_intros(1))
    moreover have "\<forall>u \<in> set vs'. wf_json u" using conjunct2 [OF b] w c by (meson list.set_intros(2))
    ultimately show ?thesis by simp
  qed
  ultimately show ?case unfolding y(3) by blast
qed


section \<open>What Shield captures is well formed\<close>

definition captured_wf :: "shielder \<Rightarrow> bool" where
  "captured_wf s \<longleftrightarrow> (\<forall>i v. map_of (sh_captured s) i = Some v \<longrightarrow> wf_json v)"

lemma capture_wf: "captured_wf s \<Longrightarrow> wf_json raw \<Longrightarrow> captured_wf (snd (capture p raw ty s))"
  by (auto simp: capture_def Let_def captured_wf_def update_conv')

lemma shield_mark_captured: "shield_mark m s = Inr (m', s') \<Longrightarrow> wf_json m \<Longrightarrow> captured_wf s \<Longrightarrow> captured_wf s'"
  using capture_wf [of s m MarkUnknownMark] by (auto simp: shield_mark_def split: sum.splits if_splits) (metis snd_conv)

lemma shield_marks_captured:
  "shield_marks ms s = Inr (ms', s') \<Longrightarrow> \<forall>m \<in> set ms. wf_json m \<Longrightarrow> captured_wf s \<Longrightarrow> captured_wf s'"
proof (induction ms arbitrary: s ms')
  case (Cons m ms)
  from Cons.prems(1) obtain m' s1 ys where y: "shield_mark m s = Inr (m', s1)" "shield_marks ms s1 = Inr (ys, s')"
    by (auto split: sum.splits prod.splits)
  show ?case by (rule Cons.IH [OF y(2)]) (use shield_mark_captured [OF y(1)] Cons.prems in simp_all)
qed simp

lemma shield_captured:
  "(shield_node inl d t s = Inr (t', s') \<longrightarrow> wf_json t \<longrightarrow> captured_wf s \<longrightarrow> captured_wf s') \<and>
   (shield_nodes inl d ts s = Inr (ts', s') \<longrightarrow> (\<forall>x \<in> set ts. wf_json x) \<longrightarrow> captured_wf s \<longrightarrow> captured_wf s')"
proof (induction rule: shield_induct)
  case (unknown inl d t s m ty t' s')
  then show ?case using capture_wf [of s t _ ty] by (metis snd_conv)
next
  case (known d t s m ty ms ms' s1 ci cs cs' s')
  then show ?case using shield_marks_captured [OF known(6)] array_values(1) [OF known(1,5)] array_values(1) [OF known(1,7)] by blast
qed auto

lemma Shield_captured_wf:
  assumes "Shield base = Inr s" "map_of (shd_Captured s) i = Some v" shows "wf_json v"
proof -
  obtain root out st where v: "Validate base = Inr root" and sh: "shield_node False 0 root fresh_shielder = Inr (out, st)"
    and s: "s = \<lparr>shd_Document = (if out = root then base else render out), shd_Captured = sh_captured st, shd_Order = sh_order st\<rparr>"
    by (rule Shield_Inr [OF assms(1)])
  have "wf_json root" using root_is_doc [OF v] json_parse_sound by metis
  then have "captured_wf st" using shield_captured sh by (auto simp: captured_wf_def)
  then show ?thesis using assms(2) by (simp add: s captured_wf_def)
qed

section \<open>Nothing is lost silently\<close>

text \<open>Parsing what \<open>render\<close> wrote for an object gives the object back, whatever its nesting.\<close>

lemma parse_object:
  assumes "json_parse (render u) = Some root" "wf_json u" "decodeObject u = Inr m"
  shows "root = u"
proof -
  obtain a b where ab: "list_all is_ws a" "list_all is_ws b" "render u = a @ render root @ b" and wf: "wf_json root"
    using json_parse_sound [OF assms(1)] by blast
  obtain c s where c: "render u = c # s" "value_start c" using render_hd [OF assms(2)] by blast
  then have "a = []" using ab by (cases a) (auto simp: value_start_def)
  have "last (render u) = CHR ''}''" using assms(3) by (cases u) (auto simp: decodeObject_def)
  then have "b = []" using ab(2,3) by (cases b rule: rev_cases) (auto simp: is_ws_def)
  then show ?thesis using ab(3) \<open>a = []\<close> render_inject [OF assms(2) wf] by simp
qed

lemma restored_object:
  assumes "restore_node C d t r = Inr (u, r')" "decodeObject t = Inr m" "typeOf m = Inr ''doc''"
  shows "\<exists>m'. decodeObject u = Inr m'"
  using assms(1)
proof (cases rule: restore_node_cases)
  case (placeholder k ty)
  then show ?thesis using assms(2,3) by auto
next
  case (known k ms ms' r1 cs cs' ty)
  then show ?thesis using shielded_object [OF known(1)] by blast
qed

lemma Restore_held:
  assumes sh: "Shield base = Inr s" and r: "Restore document s = Inr r" and root: "Validate (rsd_Document r) = Inr root"
    and i: "i \<in> set (shd_Order s)" "i \<notin> set (rsd_Dropped r)"
  shows "\<exists>v. map_of (shd_Captured s) i = Some v \<and> held v root"
proof -
  from r obtain t where t: "Validate document = Inr t" by (auto simp: Restore_def split: sum.splits)
  with r obtain u r' where u: "restore_node (shd_Captured s) 0 t \<lparr>rs_seen = [], rs_unresolved = []\<rparr> = Inr (u, r')"
    "r = \<lparr>rsd_Document = (if u = t then document else render u),
          rsd_Dropped = filter (\<lambda>i. \<not> List.member (rs_seen r') i) (shd_Order s), rsd_Unresolved = rs_unresolved r'\<rparr>"
    by (auto simp: Restore_def split: sum.splits)
  note p = restore_puts_back(1) [OF u(1)]
  have "wf_json t" using root_is_doc [OF t] json_parse_sound by metis
  then have wf: "wf_json u" using p Shield_captured_wf [OF sh] by blast
  have "root = u"
  proof (cases "u = t")
    case True
    then show ?thesis using root t by (simp add: u(2))
  next
    case False
    then have "json_parse (render u) = Some root" using root root_is_doc by (metis u(2) Restored.select_convs(1))
    moreover obtain m' where "decodeObject u = Inr m'" using restored_object [OF u(1)] root_is_doc [OF t] by metis
    ultimately show ?thesis using parse_object wf by blast
  qed
  moreover have "i \<in> set (rs_seen r')" using i by (simp add: u(2))
  ultimately show ?thesis using p by (auto simp: puts_back_def)
qed

end
