(* ===== verification/DocService.thy ===== *)
theory DocService
  imports DocMarkdown TagService PageStorePg
begin

text \<open>
  The document surface, \<^verbatim>\<open>internal/core/wiki/document.go\<close>: opening a page for editing, the
  per-user drafts, publishing and restoring a version. The publish transaction and its statements are
  in \<open>DocPublish\<close>.

  The service's collaborators are records of their operations. \<open>doc_lib\<close> holds what comes from
  packages outside the repository: \<open>dl_FromMarkdown\<close> is \<open>doc.FromMarkdown\<close>, a rendering of the syntax
  tree the goldmark parser builds, \<open>dl_ParseUuid\<close> is \<open>uuid.Parse\<close>, and the other three are the Unicode
  tables behind \<open>strings.ToLower\<close>, \<open>strings.ToUpper\<close> and \<open>strings.EqualFold\<close>. No law is asked of any.
\<close>

datatype document_error =
    ErrDraftNotFound
  | ErrUnknownPreservedContent "string list"
  | ErrBaseVersionUnavailable
  | ErrImageNotOnPage
  | ErrImageNotAnImage string
  | ErrMalformedDocument doc_error
  | ErrImageStorageUnavailable
  | ErrTagsNeedOrg
  | DocumentDoc string doc_error
  | DocumentTags tag_error
  | DocumentWiki wiki_error
  | ErrDocumentDatabase string

definition SourceFormatDocument :: string where "SourceFormatDocument = ''document''"
definition SourceFormatMarkdown :: string where "SourceFormatMarkdown = ''markdown''"

record doc_lib =
  dl_FromMarkdown :: "string \<Rightarrow> doc_error + string"
  dl_ParseUuid :: "string \<Rightarrow> uuid option"
  dl_ToLower :: "string \<Rightarrow> string"
  dl_ToUpper :: "string \<Rightarrow> string"
  dl_EqualFold :: "string \<Rightarrow> string \<Rightarrow> bool"

section \<open>Collaborators\<close>

record DraftRow =
  dr_page :: uuid
  dr_author :: uuid
  dr_title :: string
  dr_doc :: string
  dr_base_version :: "32 word"
  dr_updated :: instant

record DraftListRow =
  dl_PageID :: uuid
  dl_DraftTitle :: string
  dl_BaseVersion :: "32 word"
  dl_UpdatedAt :: instant
  dl_PageTitle :: string
  dl_PageVersion :: "32 word"
  dl_Path :: string

record 'db DocumentStore =
  ds_GetPageByID :: "'db \<Rightarrow> uuid \<Rightarrow> sql_error + PageRow"
  ds_GetPageInSpace :: "'db \<Rightarrow> uuid \<Rightarrow> uuid \<Rightarrow> sql_error + PageRow"
  ds_GetPageRevisionDocument :: "'db \<Rightarrow> uuid \<Rightarrow> 32 word \<Rightarrow> sql_error + PageRevisionRow"
  ds_UpsertPageDraft :: "DraftRow \<Rightarrow> ('db, sql_error, DraftRow) stmt"
  ds_GetPageDraft :: "'db \<Rightarrow> uuid \<Rightarrow> uuid \<Rightarrow> sql_error + DraftRow"
  ds_DeletePageDraft :: "uuid \<Rightarrow> uuid \<Rightarrow> ('db, sql_error, nat) stmt"
  ds_ListPageDraftsForAuthorInSpace :: "'db \<Rightarrow> uuid \<Rightarrow> uuid \<Rightarrow> sql_error + DraftListRow list"

record PublishPageTxInput =
  ppt_PageID :: uuid
  ppt_AuthorID :: uuid
  ppt_Title :: string
  ppt_Content :: string
  ppt_Doc :: string
  ppt_BaseVersion :: "32 word"
  ppt_Overwrite :: bool
  ppt_TagIDs :: "uuid list"

record PageImage =
  pim_AttachmentID :: uuid
  pim_Filename :: string
  pim_ContentType :: string
  pim_SizeBytes :: int

record UploadImageInput =
  uim_OrgID :: uuid
  uim_PageID :: uuid
  uim_Filename :: string
  uim_UploadedBy :: uuid
  uim_Content :: string
  uim_Size :: int

record 'db ImageStore =
  im_PageImageContentType :: "'db \<Rightarrow> uuid \<Rightarrow> uuid \<Rightarrow> document_error + string"
  im_UploadPageImage :: "UploadImageInput \<Rightarrow> 'db \<Rightarrow> (document_error + PageImage) \<times> 'db"

definition UnavailableImageStore :: "'db ImageStore" where
  "UnavailableImageStore =
     \<lparr>im_PageImageContentType = (\<lambda>_ _ _. Inl ErrImageStorageUnavailable),
      im_UploadPageImage = (\<lambda>_ db. (Inl ErrImageStorageUnavailable, db))\<rparr>"

text \<open>\<open>DocumentService\<close>: store, transactional seam, images and the tag resolver.\<close>

record 'db DocumentService =
  dsv_store :: "'db DocumentStore"
  dsv_PublishPageTx :: "uuid \<Rightarrow> PublishPageTxInput \<Rightarrow> 'db \<Rightarrow> (wiki_error + PageRow) \<times> 'db"
  dsv_images :: "'db ImageStore"
  dsv_ResolveForPublish :: "uuid \<Rightarrow> string list \<Rightarrow> 'db \<Rightarrow> (tag_error + uuid list) \<times> 'db"

section \<open>Reading\<close>

definition doc_page :: "('db, 'm) DocumentService_scheme \<Rightarrow> 'db \<Rightarrow> uuid \<Rightarrow> document_error + PageRow" where
  "doc_page s db pageID =
     (case page_or_missing (ds_GetPageByID (dsv_store s) db pageID) of Inl e \<Rightarrow> Inl (DocumentWiki e) | Inr p \<Rightarrow> Inr p)"

definition doc_pageInSpace :: "('db, 'm) DocumentService_scheme \<Rightarrow> 'db \<Rightarrow> uuid \<Rightarrow> uuid \<Rightarrow> document_error + PageRow" where
  "doc_pageInSpace s db spaceID pageID =
     (case page_or_missing (ds_GetPageInSpace (dsv_store s) db pageID spaceID) of
        Inl e \<Rightarrow> Inl (DocumentWiki e) | Inr p \<Rightarrow> Inr p)"

definition stored_doc :: "string option \<Rightarrow> string option" where
  \<comment> \<open>\<open>len(doc) > 0\<close>\<close>
  "stored_doc d = (case d of None \<Rightarrow> None | Some s \<Rightarrow> if s = '''' then None else Some s)"

definition converted :: "doc_lib \<Rightarrow> string \<Rightarrow> string \<Rightarrow> document_error + string" where
  "converted lib what markdown =
     (case dl_FromMarkdown lib markdown of Inl e \<Rightarrow> Inl (DocumentDoc what e) | Inr d \<Rightarrow> Inr d)"

definition documentOfPage :: "doc_lib \<Rightarrow> PageRow \<Rightarrow> document_error + string \<times> string" where
  "documentOfPage lib page =
     (case stored_doc (pg_doc page) of
        Some d \<Rightarrow> Inr (d, SourceFormatDocument)
      | None \<Rightarrow> rbind (converted lib ''converting the page's markdown'' (pg_content page)) (\<lambda>d. Inr (d, SourceFormatMarkdown)))"

record DraftDocument =
  dd_Title :: string
  dd_Doc :: string
  dd_BaseVersion :: "32 word"
  dd_UpdatedAt :: instant
  dd_Stale :: bool

definition draft_of_row :: "DraftRow \<Rightarrow> DraftDocument" where
  "draft_of_row r =
     \<lparr>dd_Title = dr_title r, dd_Doc = dr_doc r, dd_BaseVersion = dr_base_version r, dd_UpdatedAt = dr_updated r, dd_Stale = False\<rparr>"

definition Draft :: "('db, 'm) DocumentService_scheme \<Rightarrow> 'db \<Rightarrow> uuid \<Rightarrow> uuid \<Rightarrow> document_error + DraftDocument" where
  "Draft s db pageID authorID =
     (case ds_GetPageDraft (dsv_store s) db pageID authorID of
        Inl e \<Rightarrow> if e = SqlNoRows then Inl ErrDraftNotFound else Inl (ErrDocumentDatabase ''getting page draft'')
      | Inr row \<Rightarrow> Inr (draft_of_row row))"

record EditableDocument =
  ed_PageID :: uuid
  ed_Title :: string
  ed_Doc :: string
  ed_BaseVersion :: "32 word"
  ed_SourceFormat :: string
  ed_PreservedIDs :: "string list"
  ed_Draft :: "DraftDocument option"

definition openDocument ::
    "doc_lib \<Rightarrow> ('db, 'm) DocumentService_scheme \<Rightarrow> 'db \<Rightarrow> PageRow \<Rightarrow> uuid \<Rightarrow> document_error + EditableDocument" where
  "openDocument lib s db page authorID =
     rbind (documentOfPage lib page) (\<lambda>(base, format).
       case Shield base of
         Inl e \<Rightarrow> Inl (DocumentDoc ''preparing the document for editing'' e)
       | Inr shielded \<Rightarrow>
           (let out = \<lparr>ed_PageID = pg_id page, ed_Title = pg_title page, ed_Doc = shd_Document shielded,
                  ed_BaseVersion = pg_version page, ed_SourceFormat = format, ed_PreservedIDs = shd_Order shielded,
                  ed_Draft = None\<rparr>
            in case Draft s db (pg_id page) authorID of
                 Inr draft \<Rightarrow> Inr (out\<lparr>ed_Draft := Some (draft\<lparr>dd_Stale := dd_BaseVersion draft \<noteq> pg_version page\<rparr>)\<rparr>)
               | Inl e \<Rightarrow> if e = ErrDraftNotFound then Inr out else Inl e))"

definition OpenDocumentInSpace ::
    "doc_lib \<Rightarrow> ('db, 'm) DocumentService_scheme \<Rightarrow> 'db \<Rightarrow> uuid \<Rightarrow> uuid \<Rightarrow> uuid \<Rightarrow> document_error + EditableDocument" where
  "OpenDocumentInSpace lib s db spaceID pageID authorID =
     rbind (doc_pageInSpace s db spaceID pageID) (\<lambda>page. openDocument lib s db page authorID)"

definition OpenDocument ::
    "doc_lib \<Rightarrow> ('db, 'm) DocumentService_scheme \<Rightarrow> 'db \<Rightarrow> uuid \<Rightarrow> uuid \<Rightarrow> document_error + EditableDocument" where
  "OpenDocument lib s db pageID authorID =
     rbind (doc_page s db pageID) (\<lambda>page. openDocument lib s db page authorID)"

section \<open>Images and drafts\<close>

definition UploadImage ::
    "('db, 'm) DocumentService_scheme \<Rightarrow> UploadImageInput \<Rightarrow> 'db \<Rightarrow> (document_error + PageImage) \<times> 'db" where
  "UploadImage s inp db =
     (case doc_page s db (uim_PageID inp) of
        Inl e \<Rightarrow> (Inl e, db) | Inr _ \<Rightarrow> im_UploadPageImage (dsv_images s) inp db)"

record SaveDraftInput =
  sdi_PageID :: uuid
  sdi_AuthorID :: uuid
  sdi_Title :: string
  sdi_Doc :: string
  sdi_BaseVersion :: "32 word"

text \<open>\<open>now\<close> is the statement's clock (\<open>updated_at\<close>).\<close>

definition SaveDraft ::
    "('db, 'm) DocumentService_scheme \<Rightarrow> instant \<Rightarrow> SaveDraftInput \<Rightarrow> 'db \<Rightarrow> (document_error + DraftDocument) \<times> 'db" where
  "SaveDraft s now inp db =
     (case Validate (sdi_Doc inp) of
        Inl e \<Rightarrow> (Inl (ErrMalformedDocument e), db)
      | Inr _ \<Rightarrow>
          if sint (sdi_BaseVersion inp) < 1 then (Inl (DocumentWiki ErrVersionConflict), db)
          else (case ds_UpsertPageDraft (dsv_store s) \<lparr>dr_page = sdi_PageID inp, dr_author = sdi_AuthorID inp,
                    dr_title = sdi_Title inp, dr_doc = sdi_Doc inp, dr_base_version = sdi_BaseVersion inp, dr_updated = now\<rparr> db of
                  Inl _ \<Rightarrow> (Inl (ErrDocumentDatabase ''saving page draft''), db)
                | Inr (row, db') \<Rightarrow> (Inr (draft_of_row row), db')))"

definition DiscardDraft ::
    "('db, 'm) DocumentService_scheme \<Rightarrow> uuid \<Rightarrow> uuid \<Rightarrow> 'db \<Rightarrow> (document_error + unit) \<times> 'db" where
  "DiscardDraft s pageID authorID db =
     (case ds_DeletePageDraft (dsv_store s) pageID authorID db of
        Inl _ \<Rightarrow> (Inl (ErrDocumentDatabase ''discarding page draft''), db)
      | Inr (removed, db') \<Rightarrow> if removed = 0 then (Inl ErrDraftNotFound, db') else (Inr (), db'))"

record DraftSummary =
  dsm_PageID :: uuid
  dsm_PageTitle :: string
  dsm_DraftTitle :: string
  dsm_BaseVersion :: "32 word"
  dsm_PageVersion :: "32 word"
  dsm_Path :: string
  dsm_UpdatedAt :: instant
  dsm_Stale :: bool

definition DraftsInSpace ::
    "('db, 'm) DocumentService_scheme \<Rightarrow> 'db \<Rightarrow> uuid \<Rightarrow> uuid \<Rightarrow> document_error + DraftSummary list" where
  "DraftsInSpace s db spaceID authorID =
     (case ds_ListPageDraftsForAuthorInSpace (dsv_store s) db authorID spaceID of
        Inl _ \<Rightarrow> Inl (ErrDocumentDatabase ''listing page drafts'')
      | Inr rows \<Rightarrow> Inr (map (\<lambda>r. \<lparr>dsm_PageID = dl_PageID r, dsm_PageTitle = dl_PageTitle r, dsm_DraftTitle = dl_DraftTitle r,
            dsm_BaseVersion = dl_BaseVersion r, dsm_PageVersion = dl_PageVersion r, dsm_Path = dl_Path r,
            dsm_UpdatedAt = dl_UpdatedAt r, dsm_Stale = dl_BaseVersion r \<noteq> dl_PageVersion r\<rparr>) rows))"

end
