(* ===== verification/DocPublish.thy ===== *)
theory DocPublish
  imports DocService
begin

text \<open>
  Publishing: \<open>DocumentService.Publish\<close> and \<open>RestoreRevision\<close> of
  \<^verbatim>\<open>internal/core/wiki/document.go\<close>, the transaction \<open>PublishPageTx\<close> of
  \<^verbatim>\<open>internal/db/adapters/publish_tx.go\<close>, and the statements of
  \<^verbatim>\<open>internal/db/queries/pages.sql\<close> and \<^verbatim>\<open>page_drafts.sql\<close> behind them.
\<close>

section \<open>Publishing\<close>

record PublishInput =
  pin_PageID :: uuid
  pin_OrgID :: uuid
  pin_AuthorID :: uuid
  pin_Title :: string
  pin_Doc :: string
  pin_BaseVersion :: "32 word"
  pin_AcknowledgedLostIDs :: "string list"
  pin_Overwrite :: bool

record LostContentItem =
  lci_ID :: string
  lci_Name :: string
  lci_Text :: string

record LostContentDetail =
  lcd_PageID :: uuid
  lcd_LostIDs :: "string list"
  lcd_Lost :: "LostContentItem list"

text \<open>\<open>PublishResult\<close> has exactly one of its three members set.\<close>

datatype PublishResult =
    Published PageRow
  | PublishConflict ConflictDetail
  | PublishLost LostContentDetail

definition conflictFor :: "uuid \<Rightarrow> 32 word \<Rightarrow> PageRow \<Rightarrow> ConflictDetail" where
  "conflictFor pageID expected current =
     \<lparr>cd_PageID = pageID, cd_ExpectedVersion = expected, cd_CurrentPage = current\<rparr>"

definition lostContentFor :: "uuid \<Rightarrow> string list \<Rightarrow> Shielded \<Rightarrow> LostContentDetail" where
  "lostContentFor pageID lost shielded =
     \<lparr>lcd_PageID = pageID, lcd_LostIDs = lost,
      lcd_Lost = map (\<lambda>i. case map_of (shd_Captured shielded) i of
          None \<Rightarrow> \<lparr>lci_ID = i, lci_Name = '''', lci_Text = ''''\<rparr>
        | Some original \<Rightarrow> \<lparr>lci_ID = i, lci_Name = PreservedName original, lci_Text = PlainText original\<rparr>) lost\<rparr>"

definition unacknowledged :: "string list \<Rightarrow> string list \<Rightarrow> string list" where
  "unacknowledged dropped acknowledged = filter (\<lambda>i. \<not> List.member acknowledged i) dropped"

fun check_images ::
    "doc_lib \<Rightarrow> ('db, 'm) DocumentService_scheme \<Rightarrow> 'db \<Rightarrow> uuid \<Rightarrow> string list \<Rightarrow> document_error + unit" where
  "check_images lib s db pageID [] = Inr ()"
| "check_images lib s db pageID (i # ids) =
     (case dl_ParseUuid lib i of
        None \<Rightarrow> Inl ErrImageNotOnPage
      | Some attachmentID \<Rightarrow>
          (case im_PageImageContentType (dsv_images s) db pageID attachmentID of
             Inl _ \<Rightarrow> Inl ErrImageNotOnPage
           | Inr contentType \<Rightarrow>
               if \<not> SupportedImageType (dl_ToLower lib) contentType then Inl (ErrImageNotAnImage contentType)
               else check_images lib s db pageID ids))"

definition checkImages ::
    "doc_lib \<Rightarrow> ('db, 'm) DocumentService_scheme \<Rightarrow> 'db \<Rightarrow> uuid \<Rightarrow> string \<Rightarrow> document_error + unit" where
  "checkImages lib s db pageID document =
     (case ImageAttachmentIDs document of
        Inl e \<Rightarrow> Inl (DocumentDoc ''reading the document's image references'' e)
      | Inr ids \<Rightarrow> check_images lib s db pageID ids)"

definition baseDocument ::
    "doc_lib \<Rightarrow> ('db, 'm) DocumentService_scheme \<Rightarrow> 'db \<Rightarrow> PageRow \<Rightarrow> 32 word \<Rightarrow> document_error + string" where
  "baseDocument lib s db page baseVersion =
     (if pg_version page = baseVersion then rbind (documentOfPage lib page) (\<lambda>(base, _). Inr base)
      else case ds_GetPageRevisionDocument (dsv_store s) db (pg_id page) baseVersion of
        Inl e \<Rightarrow> if e = SqlNoRows then Inl ErrBaseVersionUnavailable
                 else Inl (ErrDocumentDatabase ''getting the revision a draft was started from'')
      | Inr revision \<Rightarrow>
          (case stored_doc (pr_doc revision) of
             Some d \<Rightarrow> Inr d
           | None \<Rightarrow> converted lib ''converting the revision a draft was started from'' (pr_content revision)))"

definition resolvePreservedContent ::
    "doc_lib \<Rightarrow> ('db, 'm) DocumentService_scheme \<Rightarrow> 'db \<Rightarrow> PageRow \<Rightarrow> PublishInput \<Rightarrow>
     document_error + string + LostContentDetail" where
  "resolvePreservedContent lib s db page inp =
     rbind (baseDocument lib s db page (pin_BaseVersion inp)) (\<lambda>base.
       case Shield base of
         Inl e \<Rightarrow> Inl (DocumentDoc ''re-deriving the document being edited'' e)
       | Inr shielded \<Rightarrow>
           (case Restore (pin_Doc inp) shielded of
              Inl e \<Rightarrow> Inl (DocumentDoc ''restoring preserved content'' e)
            | Inr restored \<Rightarrow>
                if rsd_Unresolved restored \<noteq> [] then Inl (ErrUnknownPreservedContent (rsd_Unresolved restored))
                else let lost = unacknowledged (rsd_Dropped restored) (pin_AcknowledgedLostIDs inp) in
                  if lost \<noteq> [] then Inr (Inr (lostContentFor (pin_PageID inp) lost shielded))
                  else rbind (checkImages lib s db (pin_PageID inp) (rsd_Document restored))
                         (\<lambda>_. Inr (Inl (rsd_Document restored)))))"

definition inlineTagIDs ::
    "doc_lib \<Rightarrow> ('db, 'm) DocumentService_scheme \<Rightarrow> uuid \<Rightarrow> string \<Rightarrow> 'db \<Rightarrow> (document_error + uuid list) \<times> 'db" where
  "inlineTagIDs lib s orgID document db =
     (case InlineTagLabels (dl_ToLower lib) document of
        Inl e \<Rightarrow> (Inl (DocumentDoc ''reading the document's inline tags'' e), db)
      | Inr labels \<Rightarrow>
          if labels = [] then (Inr [], db)
          else if orgID = uuid_nil then (Inl ErrTagsNeedOrg, db)
          else (case dsv_ResolveForPublish s orgID labels db of
                  (Inl e, db') \<Rightarrow> (Inl (DocumentTags e), db') | (Inr ids, db') \<Rightarrow> (Inr ids, db')))"

definition commit ::
    "('db, 'm) DocumentService_scheme \<Rightarrow> uuid \<Rightarrow> PublishInput \<Rightarrow> string \<Rightarrow> string \<Rightarrow> uuid list \<Rightarrow> 'db \<Rightarrow>
     (document_error + PublishResult) \<times> 'db" where
  "commit s revID inp document content tagIDs db =
     (case dsv_PublishPageTx s revID \<lparr>ppt_PageID = pin_PageID inp, ppt_AuthorID = pin_AuthorID inp, ppt_Title = pin_Title inp,
          ppt_Content = content, ppt_Doc = document, ppt_BaseVersion = pin_BaseVersion inp, ppt_Overwrite = pin_Overwrite inp,
          ppt_TagIDs = tagIDs\<rparr> db of
        (Inl e, db') \<Rightarrow>
          if e = ErrVersionConflict
          then (case doc_page s db' (pin_PageID inp) of
                  Inl g \<Rightarrow> (Inl g, db')
                | Inr current \<Rightarrow> (Inr (PublishConflict (conflictFor (pin_PageID inp) (pin_BaseVersion inp) current)), db'))
          else (Inl (DocumentWiki e), db')
      | (Inr published, db') \<Rightarrow> (Inr (Published published), db'))"

definition Publish ::
    "doc_lib \<Rightarrow> ('db, 'm) DocumentService_scheme \<Rightarrow> uuid \<Rightarrow> PublishInput \<Rightarrow> 'db \<Rightarrow> (document_error + PublishResult) \<times> 'db" where
  "Publish lib s revID inp db =
     (if TrimSpace (pin_Title inp) = '''' then (Inl (DocumentWiki ErrEmptyTitle), db)
      else case Validate (pin_Doc inp) of
        Inl e \<Rightarrow> (Inl (ErrMalformedDocument e), db)
      | Inr _ \<Rightarrow>
      (case doc_page s db (pin_PageID inp) of
        Inl e \<Rightarrow> (Inl e, db)
      | Inr page \<Rightarrow>
      if \<not> pin_Overwrite inp \<and> pg_version page \<noteq> pin_BaseVersion inp
      then (Inr (PublishConflict (conflictFor (pin_PageID inp) (pin_BaseVersion inp) page)), db)
      else (case resolvePreservedContent lib s db page inp of
        Inl e \<Rightarrow> (Inl e, db)
      | Inr (Inr lost) \<Rightarrow> (Inr (PublishLost lost), db)
      | Inr (Inl document) \<Rightarrow>
      (case ToMarkdown (dl_ToUpper lib) (dl_EqualFold lib) document of
        Inl e \<Rightarrow> (Inl (DocumentDoc ''projecting the document for search'' e), db)
      | Inr content \<Rightarrow>
      (case inlineTagIDs lib s (pin_OrgID inp) document db of
        (Inl e, db1) \<Rightarrow> (Inl e, db1)
      | (Inr tagIDs, db1) \<Rightarrow> commit s revID inp document content tagIDs db1)))))"

record RestoreInput =
  rin_PageID :: uuid
  rin_OrgID :: uuid
  rin_AuthorID :: uuid
  rin_Version :: "32 word"
  rin_BaseVersion :: "32 word"
  rin_AcknowledgedLostIDs :: "string list"
  rin_Overwrite :: bool

datatype RestoreResult =
    RestoreNoOp
  | RestorePublish PublishResult

definition RestoreRevision ::
    "doc_lib \<Rightarrow> ('db, 'm) DocumentService_scheme \<Rightarrow> uuid \<Rightarrow> RestoreInput \<Rightarrow> 'db \<Rightarrow> (document_error + RestoreResult) \<times> 'db" where
  "RestoreRevision lib s revID inp db =
     (case doc_page s db (rin_PageID inp) of
        Inl e \<Rightarrow> (Inl e, db)
      | Inr page \<Rightarrow>
      (case ds_GetPageRevisionDocument (dsv_store s) db (rin_PageID inp) (rin_Version inp) of
        Inl e \<Rightarrow> ((if e = SqlNoRows then Inl (DocumentWiki ErrRevisionNotFound)
                  else Inl (ErrDocumentDatabase ''getting the revision to restore'')), db)
      | Inr revision \<Rightarrow>
      (case (case stored_doc (pr_doc revision) of
               Some d \<Rightarrow> Inr d | None \<Rightarrow> converted lib ''converting the revision being restored'' (pr_content revision)) of
        Inl e \<Rightarrow> (Inl e, db)
      | Inr document \<Rightarrow>
      (case documentOfPage lib page of
        Inl e \<Rightarrow> (Inl e, db)
      | Inr (current, _) \<Rightarrow>
      if pg_title page = pr_title revision \<and> current = document then (Inr RestoreNoOp, db)
      else (case Publish lib s revID \<lparr>pin_PageID = rin_PageID inp, pin_OrgID = rin_OrgID inp, pin_AuthorID = rin_AuthorID inp,
                pin_Title = pr_title revision, pin_Doc = document, pin_BaseVersion = rin_BaseVersion inp,
                pin_AcknowledgedLostIDs = rin_AcknowledgedLostIDs inp, pin_Overwrite = rin_Overwrite inp\<rparr> db of
              (Inl e, db') \<Rightarrow> (Inl e, db') | (Inr published, db') \<Rightarrow> (Inr (RestorePublish published), db'))))))"

section \<open>The tables and statements\<close>

record doc_db = work_db +
  page_drafts :: "DraftRow list"

definition q_UpsertPageDraft :: "DraftRow \<Rightarrow> ('x doc_db_scheme, sql_error, DraftRow) stmt" where
  "q_UpsertPageDraft d db =
     (let same = (\<lambda>r. dr_page r = dr_page d \<and> dr_author r = dr_author d)
      in if \<not> db_up db then Inl SqlDown
         else if sint (dr_base_version d) \<le> 0 then Inl (SqlCheck ''page_drafts_base_version_positive'')
         else if \<not> (page_exists db (dr_page d) \<and> user_exists db (dr_author d)) then Inl SqlForeignKey
         else Inr (d, db\<lparr>page_drafts :=
                (if list_ex same (page_drafts db) then map (\<lambda>r. if same r then d else r) (page_drafts db)
                 else page_drafts db @ [d])\<rparr>))"

definition q_GetPageDraft :: "'x doc_db_scheme \<Rightarrow> uuid \<Rightarrow> uuid \<Rightarrow> sql_error + DraftRow" where
  "q_GetPageDraft db pageID authorID = sql_row db (List.find (\<lambda>r. dr_page r = pageID \<and> dr_author r = authorID) (page_drafts db))"

definition q_DeletePageDraft :: "uuid \<Rightarrow> uuid \<Rightarrow> ('x doc_db_scheme, sql_error, nat) stmt" where
  "q_DeletePageDraft pageID authorID db =
     (let hit = (\<lambda>r. dr_page r = pageID \<and> dr_author r = authorID)
      in if \<not> db_up db then Inl SqlDown
         else Inr (length (filter hit (page_drafts db)), db\<lparr>page_drafts := filter (\<lambda>r. \<not> hit r) (page_drafts db)\<rparr>))"

definition q_ListPageDraftsForAuthorInSpace :: "'x doc_db_scheme \<Rightarrow> uuid \<Rightarrow> uuid \<Rightarrow> sql_error + DraftListRow list" where
  "q_ListPageDraftsForAuthorInSpace db authorID spaceID =
     sql_rows db (rev (sort_key dl_UpdatedAt (concat (map (\<lambda>d.
        map (\<lambda>p. \<lparr>dl_PageID = dr_page d, dl_DraftTitle = dr_title d, dl_BaseVersion = dr_base_version d, dl_UpdatedAt = dr_updated d,
                  dl_PageTitle = pg_title p, dl_PageVersion = pg_version p, dl_Path = pg_path p\<rparr>)
          (filter (\<lambda>p. pg_id p = dr_page d \<and> pg_space p = spaceID \<and> \<not> pg_deleted p) (pages db)))
        (filter (\<lambda>d. dr_author d = authorID) (page_drafts db))))))"

definition q_GetPageRevisionDocument :: "'x work_db_scheme \<Rightarrow> uuid \<Rightarrow> 32 word \<Rightarrow> sql_error + PageRevisionRow" where
  "q_GetPageRevisionDocument db i v = q_GetPageRevision db i v"

definition set_document :: "string \<Rightarrow> string \<Rightarrow> string \<Rightarrow> PageRow \<Rightarrow> PageRow" where
  "set_document title content d p =
     p\<lparr>pg_title := title, pg_content := content, pg_doc := Some d, pg_version := pg_version p + 1\<rparr>"

definition write_document ::
    "(PageRow \<Rightarrow> bool) \<Rightarrow> string \<Rightarrow> string \<Rightarrow> string \<Rightarrow> ('x work_db_scheme, sql_error, PageRow) stmt" where
  "write_document hit title content d db =
     (if \<not> db_up db then Inl SqlDown
      else case List.find hit (pages db) of
        None \<Rightarrow> Inl SqlNoRows
      | Some p \<Rightarrow>
          if pg_version p = int4_max then Inl (SqlCheck ''integer out of range'')
          else Inr (set_document title content d p,
                 db\<lparr>pages := map (\<lambda>p. if hit p then set_document title content d p else p) (pages db)\<rparr>))"

definition q_PublishPageDocument ::
    "uuid \<Rightarrow> 32 word \<Rightarrow> string \<Rightarrow> string \<Rightarrow> string \<Rightarrow> ('x work_db_scheme, sql_error, PageRow) stmt" where
  "q_PublishPageDocument i version = write_document (\<lambda>p. page_live i p \<and> pg_version p = version)"

definition q_OverwritePageDocument ::
    "uuid \<Rightarrow> string \<Rightarrow> string \<Rightarrow> string \<Rightarrow> ('x work_db_scheme, sql_error, PageRow) stmt" where
  "q_OverwritePageDocument i = write_document (page_live i)"

definition q_CreatePageRevisionWithDoc :: "PageRevisionRow \<Rightarrow> ('x work_db_scheme, sql_error, PageRevisionRow) stmt" where
  "q_CreatePageRevisionWithDoc = q_CreatePageRevision"

section \<open>The transaction\<close>

definition publishPageRow :: "PublishPageTxInput \<Rightarrow> ('x work_db_scheme, wiki_error, PageRow) stmt" where
  "publishPageRow inp db =
     (if ppt_Overwrite inp
      then (case q_OverwritePageDocument (ppt_PageID inp) (ppt_Title inp) (ppt_Content inp) (ppt_Doc inp) db of
              Inl e \<Rightarrow> if e = SqlNoRows then Inl ErrPageNotFound else Inl (ErrWikiDatabase ''publish page: overwriting'')
            | Inr r \<Rightarrow> Inr r)
      else (case q_PublishPageDocument (ppt_PageID inp) (ppt_BaseVersion inp) (ppt_Title inp) (ppt_Content inp) (ppt_Doc inp) db of
              Inl e \<Rightarrow> if e = SqlNoRows then Inl ErrVersionConflict else Inl (ErrWikiDatabase ''publish page'')
            | Inr r \<Rightarrow> Inr r))"

fun add_page_tags :: "uuid \<Rightarrow> uuid \<Rightarrow> uuid list \<Rightarrow> ('x work_db_scheme, wiki_error, unit) stmt" where
  "add_page_tags pageID spaceID [] = sret ()"
| "add_page_tags pageID spaceID (t # ts) =
     sseq (wrap_wiki ''publish page: tagging'' (q_AddEntityTag EntityPage pageID spaceID t)) (add_page_tags pageID spaceID ts)"

definition PublishPageTx ::
    "uuid \<Rightarrow> PublishPageTxInput \<Rightarrow> 'x doc_db_scheme \<Rightarrow> (wiki_error + PageRow) \<times> 'x doc_db_scheme" where
  "PublishPageTx revID inp =
     in_tx
       (sbind (publishPageRow inp) (\<lambda>page.
        sseq (wrap_wiki ''publish page: recording revision'' (q_CreatePageRevisionWithDoc
                \<lparr>pr_id = revID, pr_page = pg_id page, pr_version = pg_version page, pr_title = pg_title page,
                 pr_content = pg_content page, pr_doc = pg_doc page, pr_author = ppt_AuthorID inp\<rparr>))
        (sseq (wrap_wiki ''publish page: clearing draft'' (q_DeletePageDraft (ppt_PageID inp) (ppt_AuthorID inp)))
        (sseq (add_page_tags (ppt_PageID inp) (pg_space page) (ppt_TagIDs inp)) (sret page)))))"

definition pg_document_store :: "'x doc_db_scheme DocumentStore" where
  "pg_document_store =
     \<lparr>ds_GetPageByID = q_GetPageByID, ds_GetPageInSpace = q_GetPageInSpace,
      ds_GetPageRevisionDocument = q_GetPageRevisionDocument, ds_UpsertPageDraft = q_UpsertPageDraft,
      ds_GetPageDraft = q_GetPageDraft, ds_DeletePageDraft = q_DeletePageDraft,
      ds_ListPageDraftsForAuthorInSpace = q_ListPageDraftsForAuthorInSpace\<rparr>"

definition pg_document_service ::
    "'x doc_db_scheme ImageStore \<Rightarrow> browse_columns \<Rightarrow> (nat \<Rightarrow> uuid) \<Rightarrow> 'x doc_db_scheme DocumentService" where
  "pg_document_service images c fresh =
     \<lparr>dsv_store = pg_document_store, dsv_PublishPageTx = PublishPageTx, dsv_images = images,
      dsv_ResolveForPublish = ResolveForPublish (pg_tag_repository c) fresh\<rparr>"

end
