(* ===== verification/DocReach.thy ===== *)
theory DocReach
  imports DocLoss DocPublish TagReach PageReach
begin

text \<open>
  What a publish does to the database and to preserved content. The contract of the publish
  transaction is the locale \<open>publish_tx\<close>; the SQL adapter interprets it.
\<close>

section \<open>The transaction's contract\<close>

definition published_row :: "PublishPageTxInput \<Rightarrow> PageRow \<Rightarrow> PageRow" where
  "published_row inp = set_document (ppt_Title inp) (ppt_Content inp) (ppt_Doc inp)"

locale publish_tx =
  fixes tx :: "uuid \<Rightarrow> PublishPageTxInput \<Rightarrow> 'db \<Rightarrow> (wiki_error + PageRow) \<times> 'db"
    and is_live :: "'db \<Rightarrow> uuid \<Rightarrow> PageRow \<Rightarrow> bool"
  assumes commits: "tx revID inp db = (Inr row, db') \<Longrightarrow>
      \<exists>old. is_live db (ppt_PageID inp) old \<and> row = published_row inp old \<and>
        (ppt_Overwrite inp \<or> pg_version old = ppt_BaseVersion inp)"
    and rolls_back: "tx revID inp db = (Inl e, db') \<Longrightarrow> db' = db"
begin

text \<open>A service that publishes through this transaction; \<open>rest\<close> is what resolving tags leaves alone.\<close>

lemma Publish_Published:
  assumes "Publish lib s revID inp db = (Inr (Published row), db')" and "dsv_PublishPageTx s = tx"
  shows "\<exists>page document content tagIDs db1 old.
    doc_page s db (pin_PageID inp) = Inr page \<and> resolvePreservedContent lib s db page inp = Inr (Inl document) \<and>
    ToMarkdown (dl_ToUpper lib) (dl_EqualFold lib) document = Inr content \<and>
    inlineTagIDs lib s (pin_OrgID inp) document db = (Inr tagIDs, db1) \<and>
    (let t = \<lparr>ppt_PageID = pin_PageID inp, ppt_AuthorID = pin_AuthorID inp, ppt_Title = pin_Title inp,
          ppt_Content = content, ppt_Doc = document, ppt_BaseVersion = pin_BaseVersion inp, ppt_Overwrite = pin_Overwrite inp,
          ppt_TagIDs = tagIDs\<rparr> in
     tx revID t db1 = (Inr row, db') \<and> is_live db1 (pin_PageID inp) old \<and> row = published_row t old \<and>
     (pin_Overwrite inp \<or> pg_version old = pin_BaseVersion inp))"
proof -
  from assms(1) obtain d where d: "Validate (pin_Doc inp) = Inr d" "TrimSpace (pin_Title inp) \<noteq> ''''"
    by (auto simp: Publish_def split: if_splits sum.splits)
  note p1 = assms(1) [unfolded Publish_def d(1) if_not_P [OF d(2)] sum.case]
  from p1 obtain page where page: "doc_page s db (pin_PageID inp) = Inr page" by (auto split: sum.splits)
  note p2 = p1 [unfolded page sum.case]
  have guard: "\<not> (\<not> pin_Overwrite inp \<and> pg_version page \<noteq> pin_BaseVersion inp)" using p2 by (auto split: if_splits)
  note p3 = p2 [unfolded if_not_P [OF guard]]
  from p3 obtain document where document: "resolvePreservedContent lib s db page inp = Inr (Inl document)"
    by (auto split: sum.splits)
  note p4 = p3 [unfolded document sum.case]
  from p4 obtain content where content: "ToMarkdown (dl_ToUpper lib) (dl_EqualFold lib) document = Inr content"
    by (auto split: sum.splits)
  note p5 = p4 [unfolded content sum.case]
  from p5 obtain tagIDs db1 where tags: "inlineTagIDs lib s (pin_OrgID inp) document db = (Inr tagIDs, db1)"
    by (auto split: sum.splits prod.splits)
  note p6 = p5 [unfolded tags sum.case prod.case commit_def assms(2)]
  let ?t = "\<lparr>ppt_PageID = pin_PageID inp, ppt_AuthorID = pin_AuthorID inp, ppt_Title = pin_Title inp,
          ppt_Content = content, ppt_Doc = document, ppt_BaseVersion = pin_BaseVersion inp, ppt_Overwrite = pin_Overwrite inp,
          ppt_TagIDs = tagIDs\<rparr>"
  have "tx revID ?t db1 = (Inr row, db')" using p6 by (auto split: sum.splits prod.splits if_splits)
  from this commits [OF this] show ?thesis using page document content tags by (auto simp: Let_def)
qed

lemma kept_or_told:
  assumes "Publish lib s revID inp db = (Inr (Published row), db')" and "dsv_PublishPageTx s = tx"
  shows "\<exists>page base shielded stored root.
    doc_page s db (pin_PageID inp) = Inr page \<and> baseDocument lib s db page (pin_BaseVersion inp) = Inr base \<and>
    Shield base = Inr shielded \<and> pg_doc row = Some stored \<and> Validate stored = Inr root \<and>
    (\<forall>i \<in> set (shd_Order shielded).
       i \<in> set (pin_AcknowledgedLostIDs inp) \<or> (\<exists>v. map_of (shd_Captured shielded) i = Some v \<and> held v root))"
proof -
  obtain page document content where p: "doc_page s db (pin_PageID inp) = Inr page"
    "resolvePreservedContent lib s db page inp = Inr (Inl document)"
    "ToMarkdown (dl_ToUpper lib) (dl_EqualFold lib) document = Inr content" "pg_doc row = Some document"
    using Publish_Published [OF assms] by (auto simp: Let_def published_row_def set_document_def)
  from p(2) obtain base where base: "baseDocument lib s db page (pin_BaseVersion inp) = Inr base"
    by (auto simp: resolvePreservedContent_def split: rbind_split_asm)
  note r1 = p(2) [unfolded resolvePreservedContent_def base rbind_simps]
  from r1 obtain shielded where sh: "Shield base = Inr shielded" by (auto split: sum.splits)
  note r2 = r1 [unfolded sh sum.case]
  from r2 obtain restored where re: "Restore (pin_Doc inp) shielded = Inr restored" by (auto split: sum.splits)
  note r3 = r2 [unfolded re sum.case Let_def]
  have lost: "unacknowledged (rsd_Dropped restored) (pin_AcknowledgedLostIDs inp) = []"
    and doc: "rsd_Document restored = document"
    using r3 by (auto split: if_splits rbind_split_asm)
  obtain root where root: "Validate document = Inr root" using p(3) by (auto simp: ToMarkdown_def split: sum.splits)
  have "\<exists>v. map_of (shd_Captured shielded) i = Some v \<and> held v root"
    if "i \<in> set (shd_Order shielded)" "i \<notin> set (pin_AcknowledgedLostIDs inp)" for i
  proof (rule Restore_held [OF sh re _ that(1)])
    show "Validate (rsd_Document restored) = Inr root" using root doc by simp
    show "i \<notin> set (rsd_Dropped restored)" using lost that(2) by (auto simp: unacknowledged_def filter_empty_conv)
  qed
  then show ?thesis using p base sh root by blast
qed

end

section \<open>The adapter keeps it\<close>

definition live_row :: "'x work_db_scheme \<Rightarrow> uuid \<Rightarrow> PageRow \<Rightarrow> bool" where
  "live_row db i p \<longleftrightarrow> p \<in> set (pages db) \<and> page_live i p"

definition tx_hit :: "PublishPageTxInput \<Rightarrow> PageRow \<Rightarrow> bool" where
  "tx_hit inp p \<longleftrightarrow> page_live (ppt_PageID inp) p \<and> (ppt_Overwrite inp \<or> pg_version p = ppt_BaseVersion inp)"

lemma write_document_Inr:
  assumes "write_document hit title content d db = Inr (row, db')"
  shows "\<exists>old. old \<in> set (pages db) \<and> hit old \<and> pg_version old \<noteq> int4_max \<and> row = set_document title content d old \<and>
    db' = db\<lparr>pages := map (\<lambda>p. if hit p then set_document title content d p else p) (pages db)\<rparr>"
  using assms by (auto simp: write_document_def split: if_splits option.splits dest: find_Some_in)

lemma publishPageRow_Inr:
  assumes "publishPageRow inp db = Inr (row, db')"
  shows "\<exists>old. old \<in> set (pages db) \<and> tx_hit inp old \<and> pg_version old \<noteq> int4_max \<and> row = published_row inp old \<and>
    db' = db\<lparr>pages := map (\<lambda>p. if tx_hit inp p then published_row inp p else p) (pages db)\<rparr>"
proof (cases "ppt_Overwrite inp")
  case True
  then have "tx_hit inp = page_live (ppt_PageID inp)" by (simp add: tx_hit_def fun_eq_iff)
  then show ?thesis
    using assms True write_document_Inr unfolding publishPageRow_def q_OverwritePageDocument_def published_row_def
    by (simp split: sum.splits if_splits) blast
next
  case False
  then have "tx_hit inp = (\<lambda>p. page_live (ppt_PageID inp) p \<and> pg_version p = ppt_BaseVersion inp)" by (simp add: tx_hit_def fun_eq_iff)
  then show ?thesis
    using assms False write_document_Inr unfolding publishPageRow_def q_PublishPageDocument_def published_row_def
    by (simp split: sum.splits if_splits) blast
qed

lemma add_page_tags_Inr:
  "add_page_tags i sp ts db = Inr (u, db') \<Longrightarrow> \<exists>es. db' = db\<lparr>entity_tags := es\<rparr> \<and> set (entity_tags db) \<subseteq> set es"
proof (induction ts arbitrary: db)
  case Nil
  then show ?case by (intro exI [of _ "entity_tags db"]) (simp add: sret_def)
next
  case (Cons t ts)
  then obtain db1 where db1: "q_AddEntityTag EntityPage i sp t db = Inr ((), db1)" "add_page_tags i sp ts db1 = Inr (u, db')"
    by (auto simp: sseq_Inr wrap_wiki_Inr)
  from db1(1) have "\<exists>es. db1 = db\<lparr>entity_tags := es\<rparr> \<and> set (entity_tags db) \<subseteq> set es"
    by (auto simp: q_AddEntityTag_def Let_def split: if_splits intro: exI [of _ "entity_tags db"])
  then obtain es where es: "db1 = db\<lparr>entity_tags := es\<rparr>" "set (entity_tags db) \<subseteq> set es" by blast
  from Cons.IH [OF db1(2)] es show ?case by auto
qed

definition revision_of :: "uuid \<Rightarrow> uuid \<Rightarrow> PageRow \<Rightarrow> PageRevisionRow" where
  "revision_of revID authorID page =
     \<lparr>pr_id = revID, pr_page = pg_id page, pr_version = pg_version page, pr_title = pg_title page,
      pr_content = pg_content page, pr_doc = pg_doc page, pr_author = authorID\<rparr>"

definition own_draft :: "uuid \<Rightarrow> uuid \<Rightarrow> DraftRow \<Rightarrow> bool" where
  "own_draft pageID authorID d \<longleftrightarrow> dr_page d = pageID \<and> dr_author d = authorID"

lemma PublishPageTx_Inr:
  assumes "PublishPageTx revID inp db = (Inr row, db')"
  shows "\<exists>old es. old \<in> set (pages db) \<and> tx_hit inp old \<and> pg_version old \<noteq> int4_max \<and> row = published_row inp old \<and> set (entity_tags db) \<subseteq> set es \<and>
    db' = db\<lparr>pages := map (\<lambda>p. if tx_hit inp p then published_row inp p else p) (pages db),
      page_revisions := page_revisions db @ [revision_of revID (ppt_AuthorID inp) row],
      page_drafts := filter (\<lambda>d. \<not> own_draft (ppt_PageID inp) (ppt_AuthorID inp) d) (page_drafts db), entity_tags := es\<rparr>"
proof -
  from assms obtain db1 db2 n db3 where r: "publishPageRow inp db = Inr (row, db1)"
    "q_CreatePageRevision (revision_of revID (ppt_AuthorID inp) row) db1 = Inr (revision_of revID (ppt_AuthorID inp) row, db2)"
    "q_DeletePageDraft (ppt_PageID inp) (ppt_AuthorID inp) db2 = Inr (n, db3)"
    "add_page_tags (ppt_PageID inp) (pg_space row) (ppt_TagIDs inp) db3 = Inr ((), db')"
    by (auto simp: PublishPageTx_def in_tx_Inr stmt_run wrap_wiki_Inr q_CreatePageRevisionWithDoc_def q_CreatePageRevision_def
        revision_of_def split: if_splits)
  obtain old where old: "old \<in> set (pages db)" "tx_hit inp old" "pg_version old \<noteq> int4_max" "row = published_row inp old"
    "db1 = db\<lparr>pages := map (\<lambda>p. if tx_hit inp p then published_row inp p else p) (pages db)\<rparr>"
    using publishPageRow_Inr [OF r(1)] by blast
  have "db2 = db1\<lparr>page_revisions := page_revisions db1 @ [revision_of revID (ppt_AuthorID inp) row]\<rparr>"
    using r(2) by (auto simp: q_CreatePageRevision_def split: if_splits)
  moreover have "db3 = db2\<lparr>page_drafts := filter (\<lambda>d. \<not> own_draft (ppt_PageID inp) (ppt_AuthorID inp) d) (page_drafts db2)\<rparr>"
    using r(3) by (auto simp: q_DeletePageDraft_def own_draft_def Let_def split: if_splits)
  moreover obtain es where "db' = db3\<lparr>entity_tags := es\<rparr>" "set (entity_tags db3) \<subseteq> set es"
    using add_page_tags_Inr [OF r(4)] by blast
  ultimately show ?thesis using old by (intro exI [of _ old] exI [of _ es]) simp
qed

interpretation pgp: publish_tx PublishPageTx live_row
proof
  fix revID inp row and db db' :: "'x doc_db_scheme"
  assume "PublishPageTx revID inp db = (Inr row, db')"
  from PublishPageTx_Inr [OF this] show "\<exists>old. live_row db (ppt_PageID inp) old \<and> row = published_row inp old \<and>
      (ppt_Overwrite inp \<or> pg_version old = ppt_BaseVersion inp)"
    by (auto simp: tx_hit_def live_row_def)
next
  fix revID inp e and db db' :: "'x doc_db_scheme"
  assume "PublishPageTx revID inp db = (Inl e, db')"
  then show "db' = db" by (simp add: PublishPageTx_def in_tx_Inl)
qed

lemma upsertAll_tags:
  "upsertAll (pg_tag_repository c) fresh k org ws db = (out, db') \<Longrightarrow> \<exists>ts. db' = db\<lparr>tags := ts\<rparr>"
proof (induction ws arbitrary: k db out)
  case Nil
  then show ?case by (intro exI [of _ "tags db"]) simp
next
  case (Cons w ws)
  obtain o1 db1 where t: "in_tx (wrap_tag ''tag adapter upsert'' (q_UpsertTag (fresh k) org (sl_Slug w) (sl_Label w))) db = (o1, db1)"
    by fastforce
  have "\<exists>ts. db1 = db\<lparr>tags := ts\<rparr>"
    using t by (auto simp: in_tx_def wrap_tag_def q_UpsertTag_def Let_def split: sum.splits prod.splits if_splits option.splits
        intro: exI [of _ "tags db"])
  moreover have "db' = db1 \<or> (\<exists>o2. upsertAll (pg_tag_repository c) fresh (Suc k) org ws db1 = (o2, db'))"
    using Cons.prems t by (auto simp: pg_tag_repository_def split: sum.splits prod.splits)
  ultimately show ?case using Cons.IH by fastforce
qed

lemma inlineTagIDs_tags:
  "inlineTagIDs lib (pg_document_service images c fresh) org document db = (out, db') \<Longrightarrow> \<exists>ts. db' = db\<lparr>tags := ts\<rparr>"
  by (auto simp: inlineTagIDs_def pg_document_service_def ResolveForPublish_def split: sum.splits if_splits prod.splits
      intro: exI [of _ "tags db"] dest: upsertAll_tags)


lemma inlineTagIDs_tables:
  assumes "inlineTagIDs lib (pg_document_service images c fresh) org document db = (out, db1)"
  shows "db1\<lparr>tags := tags db\<rparr> = db" "pages db1 = pages db" "page_revisions db1 = page_revisions db"
    "page_drafts db1 = page_drafts db" "entity_tags db1 = entity_tags db"
  using inlineTagIDs_tags [OF assms] by auto

lemma resolve_no_doc:
  "PublishPageTx revID inp db = (Inl e, db') \<Longrightarrow> db' = db"
  by (simp add: PublishPageTx_def in_tx_Inl)

text \<open>A publish that does not publish writes no page, revision, draft or tagging: at most tags were minted.\<close>

lemma Publish_other:
  assumes "Publish lib (pg_document_service images c fresh) revID inp db = (out, db')"
    and "\<And>row. out \<noteq> Inr (Published row)"
  shows "\<exists>ts. db' = db\<lparr>tags := ts\<rparr>"
proof -
  let ?s = "pg_document_service images c fresh"
  have same: "\<exists>ts. db = db\<lparr>tags := ts\<rparr>" by (intro exI [of _ "tags db"]) simp
  have commit: "db2 = db1" if "commit ?s revID inp document content tagIDs db1 = (out, db2)" for document content tagIDs db1 db2
    using that assms(2)
    by (auto simp: commit_def pg_document_service_def split: prod.splits sum.splits if_splits dest: resolve_no_doc)
  have "db' = db \<or> (\<exists>document o1 db1. inlineTagIDs lib ?s (pin_OrgID inp) document db = (o1, db1) \<and> db' = db1)"
    using assms(1) unfolding Publish_def
    by (auto split: if_splits sum.splits prod.splits dest: commit)
  then show ?thesis using inlineTagIDs_tags same by metis
qed


section \<open>What publishing promises\<close>

text \<open>C37. No publish loses preserved content silently. When \<open>Publish\<close> writes a page, take the document the
  author started from (the page's, or the revision of their base version) and what \<open>Shield\<close> set aside in it:
  the stored document is well formed, and for every such piece either the author acknowledged its loss by
  id, or the piece itself, exactly as it was set aside, is a node or a mark of the stored document.\<close>

theorem Publish_keeps_or_is_told:
  assumes "Publish lib (pg_document_service images c fresh) revID inp db = (Inr (Published row), db')"
  shows "\<exists>page base shielded stored root.
    page \<in> set (pages db) \<and> page_live (pin_PageID inp) page \<and>
    baseDocument lib (pg_document_service images c fresh) db page (pin_BaseVersion inp) = Inr base \<and>
    Shield base = Inr shielded \<and> row \<in> set (pages db') \<and> pg_doc row = Some stored \<and> Validate stored = Inr root \<and>
    (\<forall>i \<in> set (shd_Order shielded).
       i \<in> set (pin_AcknowledgedLostIDs inp) \<or> (\<exists>v. map_of (shd_Captured shielded) i = Some v \<and> held v root))"
proof -
  let ?s = "pg_document_service images c fresh"
  have tx: "dsv_PublishPageTx ?s = PublishPageTx" by (simp add: pg_document_service_def)
  from pgp.Publish_Published [OF assms tx] obtain t db1 where "PublishPageTx revID t db1 = (Inr row, db')"
    by (auto simp: Let_def)
  from PublishPageTx_Inr [OF this] have row: "row \<in> set (pages db')" by force
  obtain page base shielded stored root where p: "doc_page ?s db (pin_PageID inp) = Inr page"
    and rest: "baseDocument lib ?s db page (pin_BaseVersion inp) = Inr base" "Shield base = Inr shielded"
      "pg_doc row = Some stored" "Validate stored = Inr root"
      "\<forall>i \<in> set (shd_Order shielded). i \<in> set (pin_AcknowledgedLostIDs inp) \<or>
         (\<exists>v. map_of (shd_Captured shielded) i = Some v \<and> held v root)"
    using pgp.kept_or_told [OF assms tx] by blast
  have "page \<in> set (pages db)" "page_live (pin_PageID inp) page"
    using p by (auto simp: doc_page_def pg_document_service_def pg_document_store_def q_GetPageByID_def sql_row_def
        page_or_missing_def split: sum.splits if_splits option.splits dest: find_Some_in)
  then show ?thesis using rest row by blast
qed

text \<open>C38. A publish happens as a whole or not at all. When \<open>Publish\<close> publishes, the page it read is still
  at the base version the author named, or the author chose to overwrite; that row alone gets the title,
  the document and its search text and the next version, one revision with the same content is appended,
  the author's draft of the page and nobody else's is gone, and taggings are only added. On every other
  outcome, conflict, lost content or error, no page, revision, draft or tagging is written. In either case
  the rest of the database, the tag vocabulary apart, is as it was.\<close>

theorem Publish_all_or_nothing:
  assumes "Publish lib (pg_document_service images c fresh) revID inp db = (out, db')"
  shows "db'\<lparr>pages := pages db, page_revisions := page_revisions db, page_drafts := page_drafts db, tags := tags db,
      entity_tags := entity_tags db\<rparr> = db \<and>
    (case out of
        Inr (Published row) \<Rightarrow>
          (let hit = (\<lambda>p. page_live (pin_PageID inp) p \<and> (pin_Overwrite inp \<or> pg_version p = pin_BaseVersion inp));
               write = set_document (pin_Title inp) (pg_content row) (the (pg_doc row))
           in (\<exists>old \<in> set (pages db). hit old \<and> row = write old) \<and>
             pages db' = map (\<lambda>p. if hit p then write p else p) (pages db) \<and>
             page_revisions db' = page_revisions db @ [revision_of revID (pin_AuthorID inp) row] \<and>
             page_drafts db' = filter (\<lambda>d. \<not> own_draft (pin_PageID inp) (pin_AuthorID inp) d) (page_drafts db) \<and>
             set (entity_tags db) \<subseteq> set (entity_tags db'))
      | _ \<Rightarrow> pages db' = pages db \<and> page_revisions db' = page_revisions db \<and> page_drafts db' = page_drafts db \<and>
          entity_tags db' = entity_tags db)"
proof -
  let ?s = "pg_document_service images c fresh"
  have tx: "dsv_PublishPageTx ?s = PublishPageTx" by (simp add: pg_document_service_def)
  show ?thesis
  proof (cases "\<exists>row. out = Inr (Published row)")
    case True
    then obtain row where row: "out = Inr (Published row)" by blast
    from pgp.Publish_Published [OF assms [unfolded row] tx] obtain document content tagIDs db1 where
      tags: "inlineTagIDs lib ?s (pin_OrgID inp) document db = (Inr tagIDs, db1)" and
      run: "PublishPageTx revID \<lparr>ppt_PageID = pin_PageID inp, ppt_AuthorID = pin_AuthorID inp, ppt_Title = pin_Title inp,
          ppt_Content = content, ppt_Doc = document, ppt_BaseVersion = pin_BaseVersion inp, ppt_Overwrite = pin_Overwrite inp,
          ppt_TagIDs = tagIDs\<rparr> db1 = (Inr row, db')"
      by (auto simp: Let_def)
    obtain ts where "db1 = db\<lparr>tags := ts\<rparr>" using inlineTagIDs_tags [OF tags] by blast
    with PublishPageTx_Inr [OF run] show ?thesis
      unfolding row by (auto simp: tx_hit_def published_row_def set_document_def Let_def)
  next
    case False
    then have "\<And>row. out \<noteq> Inr (Published row)" by blast
    from Publish_other [OF assms this] obtain ts where "db' = db\<lparr>tags := ts\<rparr>" by blast
    then show ?thesis using False by (auto split: sum.splits PublishResult.splits)
  qed
qed

section \<open>A page with a macro the editor does not know\<close>

text \<open>Page 101 is at version 2 and holds a \<open>macro\<close> node, as did its first version. The author has a draft.\<close>

definition demo_lib :: doc_lib where
  "demo_lib = \<lparr>dl_FromMarkdown = (\<lambda>_. Inr ''''), dl_ParseUuid = (\<lambda>_. None), dl_ToLower = (\<lambda>s. s), dl_ToUpper = (\<lambda>s. s),
     dl_EqualFold = (=)\<rparr>"

definition demo_macro_page :: PageRow where
  "demo_macro_page = (demo_tree_page 101 31 None ''101'')\<lparr>pg_version := 2, pg_doc := Some macro_document\<rparr>"

definition demo_docs :: doc_db where
  "demo_docs = work_db.extend (demo_shared\<lparr>pages := [demo_macro_page],
       page_revisions := [(demo_rev 301 101)\<lparr>pr_title := ''First'', pr_doc := Some macro_document\<rparr>,
         (demo_rev 302 101)\<lparr>pr_version := 2, pr_doc := Some macro_document\<rparr>]\<rparr>)
     \<lparr>page_drafts = [\<lparr>dr_page = 101, dr_author = 10, dr_title = ''Page'', dr_doc = '''', dr_base_version = 2, dr_updated = 3\<rparr>]\<rparr>"

definition demo_publish :: "string \<Rightarrow> PublishInput" where
  "demo_publish d = \<lparr>pin_PageID = 101, pin_OrgID = 1, pin_AuthorID = 10, pin_Title = ''Renamed'', pin_Doc = d,
     pin_BaseVersion = 2, pin_AcknowledgedLostIDs = [], pin_Overwrite = False\<rparr>"

definition demo_edited :: string where
  "demo_edited = (case Shield macro_document of Inl _ \<Rightarrow> '''' | Inr s \<Rightarrow> shd_Document s)"

abbreviation "demo_service \<equiv> pg_document_service UnavailableImageStore demo_columns demo_tag_ids"

definition demo_shielded :: Shielded where
  "demo_shielded = \<lparr>shd_Document = demo_edited, shd_Captured = [(''u1'', plain_object [(''type'', json_string ''macro'')])],
     shd_Order = [''u1'']\<rparr>"

lemma demo_shield: "Shield macro_document = Inr demo_shielded"
  unfolding demo_shielded_def demo_edited_def by code_simp

lemma demo_validate: "case Validate demo_edited of Inl _ \<Rightarrow> False | Inr _ \<Rightarrow> True"
  by code_simp

lemma demo_restore:
  "Restore demo_edited demo_shielded = Inr \<lparr>rsd_Document = macro_document, rsd_Dropped = [], rsd_Unresolved = []\<rparr>"
  by code_simp

lemma demo_document:
  "ToMarkdown (\<lambda>s. s) (=) macro_document = Inr ''''" "InlineTagLabels (\<lambda>s. s) macro_document = Inr []"
  "ImageAttachmentIDs macro_document = Inr []" 
  by (code_simp, code_simp, code_simp)

lemma macro_document_text: "macro_document \<noteq> ''''"
  by code_simp
lemmas demo_docs_simps = demo_docs_def demo_macro_page_def demo_shared_def demo_db_def org_db.defs work_db.defs
  demo_tree_page_def demo_rev_def

lemma demo_page:
  "db_up demo_docs" "List.find (page_live 101) (pages demo_docs) = Some demo_macro_page" "pages demo_docs = [demo_macro_page]"
  by (simp_all add: demo_docs_simps page_live_def)

lemma demo_resolve:
  "resolvePreservedContent demo_lib demo_service demo_docs demo_macro_page (demo_publish demo_edited) = Inr (Inl macro_document)"
proof -
  have "baseDocument demo_lib demo_service demo_docs demo_macro_page (pin_BaseVersion (demo_publish demo_edited)) = Inr macro_document"
    by (simp add: baseDocument_def documentOfPage_def stored_doc_def demo_macro_page_def demo_publish_def demo_tree_page_def
        macro_document_text)
  then show ?thesis
    by (simp add: resolvePreservedContent_def demo_shield demo_publish_def [of demo_edited] demo_restore unacknowledged_def
        checkImages_def demo_document)
qed

lemma demo_publishes:
  "case Publish demo_lib demo_service 303 (demo_publish demo_edited) demo_docs of
     (Inr (Published row), db') \<Rightarrow> pg_version row = 3 | _ \<Rightarrow> False"
proof -
  have page: "doc_page demo_service demo_docs (pin_PageID (demo_publish demo_edited)) = Inr demo_macro_page"
    using demo_page by (simp add: doc_page_def pg_document_service_def pg_document_store_def q_GetPageByID_def sql_row_def
        page_or_missing_def demo_publish_def)
  have tags: "inlineTagIDs demo_lib demo_service (pin_OrgID (demo_publish demo_edited)) macro_document demo_docs = (Inr [], demo_docs)"
    by (simp add: inlineTagIDs_def demo_lib_def demo_document)
  have md: "ToMarkdown (dl_ToUpper demo_lib) (dl_EqualFold demo_lib) macro_document = Inr ''''"
    by (simp add: demo_lib_def demo_document)
  have title: "TrimSpace (pin_Title (demo_publish demo_edited)) \<noteq> ''''" "pg_version demo_macro_page = pin_BaseVersion (demo_publish demo_edited)"
    by (code_simp, simp add: demo_macro_page_def demo_publish_def)
  obtain v where v: "Validate demo_edited = Inr v" using demo_validate by (auto split: sum.splits)
  have doc: "pin_Doc (demo_publish demo_edited) = demo_edited" by (simp add: demo_publish_def)
  have "Publish demo_lib demo_service 303 (demo_publish demo_edited) demo_docs =
      commit demo_service 303 (demo_publish demo_edited) macro_document '''' [] demo_docs"
    by (simp add: Publish_def title page demo_resolve md tags doc v)
  moreover have "case commit demo_service 303 (demo_publish demo_edited) macro_document '''' [] demo_docs of
     (Inr (Published row), db') \<Rightarrow> pg_version row = 3 | _ \<Rightarrow> False"
    unfolding commit_def pg_document_service_def
    by (simp add: demo_publish_def PublishPageTx_def in_tx_def stmt_defs publishPageRow_def q_PublishPageDocument_def
        write_document_def page_live_def set_document_def wrap_wiki_def q_CreatePageRevisionWithDoc_def q_CreatePageRevision_def
        q_DeletePageDraft_def page_exists_def user_exists_def demo_docs_simps int4_max_def Let_def)
  ultimately show ?thesis by simp
qed

definition demo_published :: doc_db where
  "demo_published = snd (Publish demo_lib demo_service 303 (demo_publish demo_edited) demo_docs)"

lemma demo_published_row:
  obtains row where "Publish demo_lib demo_service 303 (demo_publish demo_edited) demo_docs = (Inr (Published row), demo_published)"
    "pg_version row = 3"
  using demo_publishes by (auto simp: demo_published_def split: prod.splits sum.splits PublishResult.splits)

lemma Publish_keeps_or_is_told_witness:
  "\<exists>page base shielded. page \<in> set (pages demo_docs) \<and>
     baseDocument demo_lib demo_service demo_docs page 2 = Inr base \<and> Shield base = Inr shielded \<and>
     (\<exists>row \<in> set (pages demo_published). \<exists>stored root. pg_doc row = Some stored \<and> Validate stored = Inr root \<and>
        (\<forall>i \<in> set (shd_Order shielded). \<exists>v. map_of (shd_Captured shielded) i = Some v \<and> held v root))"
proof -
  obtain row where "Publish demo_lib demo_service 303 (demo_publish demo_edited) demo_docs = (Inr (Published row), demo_published)"
    by (rule demo_published_row)
  from Publish_keeps_or_is_told [OF this] show ?thesis by (simp add: demo_publish_def) blast
qed

lemma Publish_all_or_nothing_witness:
  "\<exists>row. pg_version row = 3 \<and> page_revisions demo_published = page_revisions demo_docs @ [revision_of 303 10 row] \<and>
     page_drafts demo_published = []"
proof -
  obtain row where row: "Publish demo_lib demo_service 303 (demo_publish demo_edited) demo_docs = (Inr (Published row), demo_published)"
    "pg_version row = 3"
    by (rule demo_published_row)
  from Publish_all_or_nothing [OF row(1)] row(2) show ?thesis
    by (intro exI [of _ row]) (simp add: Let_def demo_publish_def demo_docs_def own_draft_def work_db.defs)
qed

section \<open>A restore asks about content it keeps\<close>

text \<open>The first version of the page holds the very document the page holds now, so restoring it changes the
  title only. Its document carries no placeholders, though, and the piece set aside counts as dropped.\<close>

definition demo_restore_input :: RestoreInput where
  "demo_restore_input =
     \<lparr>rin_PageID = 101, rin_OrgID = 1, rin_AuthorID = 10, rin_Version = 1, rin_BaseVersion = 2,
      rin_AcknowledgedLostIDs = [], rin_Overwrite = False\<rparr>"

lemma demo_restore_raw:
  "case Restore macro_document demo_shielded of Inl _ \<Rightarrow> False | Inr r \<Rightarrow> rsd_Dropped r = [''u1''] \<and> rsd_Unresolved r = []"
  "case Validate macro_document of Inl _ \<Rightarrow> False | Inr _ \<Rightarrow> True"
  by (code_simp, code_simp)

lemma RestoreRevision_asks_about_kept_content:
  "case RestoreRevision demo_lib demo_service 303 demo_restore_input demo_docs of
     (Inr (RestorePublish (PublishLost lost)), db') \<Rightarrow> lcd_LostIDs lost = [''u1''] \<and> db' = demo_docs | _ \<Rightarrow> False"
  "\<exists>revision page. q_GetPageRevision demo_docs 101 1 = Inr revision \<and> page \<in> set (pages demo_docs) \<and> pr_doc revision = pg_doc page"
proof -
  obtain r where r: "Restore macro_document demo_shielded = Inr r" "rsd_Dropped r = [''u1'']" "rsd_Unresolved r = []"
    using demo_restore_raw(1) by (auto split: sum.splits)
  obtain v where v: "Validate macro_document = Inr v" using demo_restore_raw(2) by (auto split: sum.splits)
  let ?inp = "\<lparr>pin_PageID = 101, pin_OrgID = 1, pin_AuthorID = 10, pin_Title = ''First'', pin_Doc = macro_document,
     pin_BaseVersion = 2, pin_AcknowledgedLostIDs = [], pin_Overwrite = False\<rparr>"
  have page: "doc_page demo_service demo_docs 101 = Inr demo_macro_page"
    using demo_page by (simp add: doc_page_def pg_document_service_def pg_document_store_def q_GetPageByID_def sql_row_def
        page_or_missing_def)
  have doc: "documentOfPage demo_lib demo_macro_page = Inr (macro_document, SourceFormatDocument)"
    by (simp add: documentOfPage_def stored_doc_def demo_macro_page_def macro_document_text)
  have version: "pg_version demo_macro_page = 2" "pg_title demo_macro_page = ''Page''"
    by (simp_all add: demo_macro_page_def demo_tree_page_def)
  have "resolvePreservedContent demo_lib demo_service demo_docs demo_macro_page ?inp =
      Inr (Inr (lostContentFor 101 [''u1''] demo_shielded))"
    by (simp add: resolvePreservedContent_def baseDocument_def version doc demo_shield r unacknowledged_def)
  moreover have "TrimSpace ''First'' \<noteq> ''''" by code_simp
  ultimately have publish: "Publish demo_lib demo_service 303 ?inp demo_docs =
      (Inr (PublishLost (lostContentFor 101 [''u1''] demo_shielded)), demo_docs)"
    by (simp add: Publish_def v page version)
  have rev: "ds_GetPageRevisionDocument (dsv_store demo_service) demo_docs 101 1 =
      Inr ((demo_rev 301 101)\<lparr>pr_title := ''First'', pr_doc := Some macro_document\<rparr>)"
    by (simp add: pg_document_service_def pg_document_store_def q_GetPageRevisionDocument_def q_GetPageRevision_def sql_row_def
        demo_docs_simps)
  show "case RestoreRevision demo_lib demo_service 303 demo_restore_input demo_docs of
     (Inr (RestorePublish (PublishLost lost)), db') \<Rightarrow> lcd_LostIDs lost = [''u1''] \<and> db' = demo_docs | _ \<Rightarrow> False"
    by (simp add: RestoreRevision_def demo_restore_input_def page rev stored_doc_def macro_document_text doc version
        demo_rev_def publish lostContentFor_def)
  show "\<exists>revision page. q_GetPageRevision demo_docs 101 1 = Inr revision \<and> page \<in> set (pages demo_docs) \<and>
      pr_doc revision = pg_doc page"
    by (simp add: q_GetPageRevision_def sql_row_def demo_docs_simps)
qed

end
