(* ===== verification/PageHistory.thy ===== *)
theory PageHistory
  imports DocReach PageSaves
begin

text \<open>
  The history of a page under everything that writes one: the page service of \<open>WikiPages\<close> and the
  document service of \<open>DocService\<close> and \<open>DocPublish\<close> share the pages and their revisions, so a run of
  the wiki interleaves both.
\<close>

text \<open>One call of either service or of the adapter's deleters, whatever its outcome. The string library,
  the image store and the service's identifiers differ from call to call as they please.\<close>

inductive wiki_step :: "(uuid \<Rightarrow> string) \<Rightarrow> 'x doc_db_scheme \<Rightarrow> 'x doc_db_scheme \<Rightarrow> bool" for us where
  page: "page_step us db db' \<Longrightarrow> wiki_step us db db'"
| publish: "wiki_step us db (snd (Publish lib (pg_document_service images c fresh) revID inp db))"
| restore: "wiki_step us db (snd (RestoreRevision lib (pg_document_service images c fresh) revID rin db))"
| save_draft: "wiki_step us db (snd (SaveDraft (pg_document_service images c fresh) now din db))"
| discard_draft: "wiki_step us db (snd (DiscardDraft (pg_document_service images c fresh) pageID authorID db))"

inductive_cases wiki_stepE: "wiki_step us db db'"

text \<open>What one such step keeps, together.\<close>

definition wiki_good :: "(uuid \<Rightarrow> string) \<Rightarrow> uuid \<Rightarrow> 'x work_db_scheme \<Rightarrow> bool" where
  "wiki_good us i db \<longleftrightarrow> page_tree us db \<and> has_history db i"

lemma wiki_good_same:
  assumes "wiki_good us i db" and "pages db' = pages db" and "page_revisions db' = page_revisions db"
  shows "wiki_good us i db'"
proof -
  have "page_tree us db'" using assms(1) page_tree_same [OF assms(2), of us] by (simp add: wiki_good_def)
  moreover have "has_history db' i"
    using assms by (simp add: wiki_good_def has_history_def history_complete_def page_history_def)
  ultimately show ?thesis by (simp add: wiki_good_def)
qed

lemma published_row_place:
  "pg_id (published_row inp p) = pg_id p \<and> pg_parent (published_row inp p) = pg_parent p \<and>
   pg_path (published_row inp p) = pg_path p \<and> pg_space (published_row inp p) = pg_space p \<and>
   pg_deleted (published_row inp p) = pg_deleted p"
  by (simp add: published_row_def set_document_def)

lemma PublishPageTx_good:
  assumes g: "wiki_good us i db" and p: "PublishPageTx revID inp db = (Inr row, db')"
  shows "wiki_good us i db'"
proof -
  from PublishPageTx_Inr [OF p] obtain old es where
    old: "old \<in> set (pages db)" "tx_hit inp old" "pg_version old \<noteq> int4_max" and row: "row = published_row inp old"
    and d: "db' = db\<lparr>pages := map (\<lambda>p. if tx_hit inp p then published_row inp p else p) (pages db),
      page_revisions := page_revisions db @ [revision_of revID (ppt_AuthorID inp) row],
      page_drafts := filter (\<lambda>d. \<not> own_draft (ppt_PageID inp) (ppt_AuthorID inp) d) (page_drafts db), entity_tags := es\<rparr>"
    by blast
  have t: "page_tree us db" and h: "has_history db i" using g by (simp_all add: wiki_good_def)
  have dis: "distinct (map pg_id (pages db))" using t by (simp add: page_tree_def)
  have one: "pg_id p = pg_id old" if "tx_hit inp p" for p using that old(2) by (simp add: tx_hit_def page_live_def)
  have "has_history db' i"
  proof (rule versioned_write_keeps_history [where c = old and hit = "tx_hit inp" and f = "published_row inp"
          and r = "revision_of revID (ppt_AuthorID inp) row", OF dis h])
    show "old \<in> set (pages db)" and "tx_hit inp old" and "pg_version old \<noteq> int4_max" by (fact old)+
    show "tx_hit inp p \<Longrightarrow> pg_id p = pg_id old" for p by (fact one)
  qed (simp_all add: published_row_place d row revision_of_def published_row_def set_document_def)
  moreover have "page_tree us db'"
    by (rule map_keeps_tree [OF t, where f = "\<lambda>p. if tx_hit inp p then published_row inp p else p"])
      (simp_all add: d published_row_place)
  ultimately show ?thesis by (simp add: wiki_good_def)
qed

lemma Publish_good:
  assumes g: "wiki_good us i db"
  shows "wiki_good us i (snd (Publish lib (pg_document_service images c fresh) revID inp db))"
proof -
  let ?s = "pg_document_service images c fresh"
  have tx: "dsv_PublishPageTx ?s = PublishPageTx" by (simp add: pg_document_service_def)
  obtain out db' where p: "Publish lib ?s revID inp db = (out, db')" by (rule prod.exhaust)
  have "wiki_good us i db'"
  proof (cases "\<exists>row. out = Inr (Published row)")
    case True
    then obtain row where row: "out = Inr (Published row)" by blast
    from pgp.Publish_Published [OF p [unfolded row] tx] obtain document content tagIDs db1 where
      tags: "inlineTagIDs lib ?s (pin_OrgID inp) document db = (Inr tagIDs, db1)"
      and run: "PublishPageTx revID \<lparr>ppt_PageID = pin_PageID inp, ppt_AuthorID = pin_AuthorID inp, ppt_Title = pin_Title inp,
          ppt_Content = content, ppt_Doc = document, ppt_BaseVersion = pin_BaseVersion inp, ppt_Overwrite = pin_Overwrite inp,
          ppt_TagIDs = tagIDs\<rparr> db1 = (Inr row, db')"
      by (auto simp: Let_def)
    have "wiki_good us i db1" by (rule wiki_good_same [OF g]) (rule inlineTagIDs_tables [OF tags])+
    then show ?thesis by (rule PublishPageTx_good [OF _ run])
  next
    case False
    then obtain ts where "db' = db\<lparr>tags := ts\<rparr>" using Publish_other [OF p] by blast
    with g show ?thesis by (simp add: wiki_good_same)
  qed
  with p show ?thesis by simp
qed

lemma Restore_good:
  assumes g: "wiki_good us i db"
  shows "wiki_good us i (snd (RestoreRevision lib (pg_document_service images c fresh) revID inp db))"
proof -
  let ?s = "pg_document_service images c fresh"
  obtain out db' where r: "RestoreRevision lib ?s revID inp db = (out, db')" by (rule prod.exhaust)
  then have "db' = db \<or> (\<exists>pin o'. Publish lib ?s revID pin db = (o', db'))"
    unfolding RestoreRevision_def by (auto split: sum.splits prod.splits if_splits)
  then show ?thesis
  proof (elim disjE exE)
    assume "db' = db"
    with g r show ?thesis by simp
  next
    fix pin o'
    assume "Publish lib ?s revID pin db = (o', db')"
    with Publish_good [OF g, of lib images c fresh revID pin] r show ?thesis by simp
  qed
qed

lemma draft_good:
  assumes g: "wiki_good us i db"
  shows "wiki_good us i (snd (SaveDraft (pg_document_service images c fresh) now din db))"
    and "wiki_good us i (snd (DiscardDraft (pg_document_service images c fresh) pageID authorID db))"
proof -
  have "\<exists>x. snd (SaveDraft (pg_document_service images c fresh) now din db) = db\<lparr>page_drafts := x\<rparr>"
    by (auto simp: SaveDraft_def pg_document_service_def pg_document_store_def q_UpsertPageDraft_def Let_def
        split: sum.split intro: exI [of _ "page_drafts db"])
  then show "wiki_good us i (snd (SaveDraft (pg_document_service images c fresh) now din db))"
    by (elim exE) (simp add: wiki_good_same [OF g])
  have "\<exists>x. snd (DiscardDraft (pg_document_service images c fresh) pageID authorID db) = db\<lparr>page_drafts := x\<rparr>"
    by (auto simp: DiscardDraft_def pg_document_service_def pg_document_store_def q_DeletePageDraft_def Let_def
        split: sum.split intro: exI [of _ "page_drafts db"])
  then show "wiki_good us i (snd (DiscardDraft (pg_document_service images c fresh) pageID authorID db))"
    by (elim exE) (simp add: wiki_good_same [OF g])
qed

lemma wiki_step_good:
  assumes us: "uuid_text us" and st: "wiki_step us db db'" and g: "wiki_good us i db"
  shows "wiki_good us i db'"
  using st
proof cases
  case page
  with g show ?thesis
    using page_step_keeps_tree [OF us page] page_step_keeps_history [OF us _ page] by (simp add: wiki_good_def)
next
  case publish
  then show ?thesis using Publish_good [OF g] by simp
next
  case restore
  then show ?thesis using Restore_good [OF g] by simp
next
  case save_draft
  then show ?thesis using draft_good(1) [OF g] by simp
next
  case discard_draft
  then show ?thesis using draft_good(2) [OF g] by simp
qed

text \<open>
  C26. The history of a page never skips a version. From the moment a creation reports success, along
  every run of the wiki, in which the page service creates, saves, moves and deletes and the document
  service publishes, restores old revisions, and saves and discards drafts, in any order and with any
  outcome, the page's revisions are versions 1 to its current one in order, each exactly once, the
  latest holding the title and text the page holds; the version never wraps past the largest 32-bit
  integer. This is what writing the page row and its history row in one transaction buys, in both of
  the transactions that do.
\<close>

theorem history_never_skips:
  assumes us: "uuid_text us" and t: "page_tree us db"
    and fk: "\<forall>r \<in> set (page_revisions db). pr_page r \<in> pg_id ` set (pages db)"
    and c: "CreatePage pg_page_store us n rv inp db = (Inr page, db1)"
    and run: "(wiki_step us)\<^sup>*\<^sup>* db1 db'"
  shows "\<exists>p \<in> set (pages db'). pg_id p = pg_id page \<and> history_complete db' p"
proof -
  have "page_step us db (snd (CreatePage pg_page_store us n rv inp db))" by (rule page_step.create)
  then have "page_tree us db1" using page_step_keeps_tree [OF us _ t] c by simp
  then have "wiki_good us n db1" using created_has_history [OF c fk] by (simp add: wiki_good_def)
  with run have "wiki_good us n db'"
    by (induction rule: rtranclp_induct) (auto intro: wiki_step_good [OF us])
  then show ?thesis using created_has_history [OF c fk] by (simp add: wiki_good_def has_history_def)
qed

section \<open>A page that is created, published and saved\<close>

definition demo_create :: CreatePageInput where
  "demo_create = \<lparr>cpi_SpaceID = 31, cpi_ParentID = Some 101, cpi_Title = ''T'', cpi_Content = [], cpi_AuthorID = 10,
     cpi_Position = 0\<rparr>"

definition demo_wiki_docs :: doc_db where
  "demo_wiki_docs = work_db.extend demo_wiki \<lparr>page_drafts = []\<rparr>"

definition demo_created_db :: doc_db where
  "demo_created_db = snd (CreatePage pg_page_store seg 105 305 demo_create demo_wiki_docs)"

definition demo_created :: PageRow where
  "demo_created = (demo_tree_page 105 31 (Some 101) (seg 101 @ ''.'' @ seg 105))\<lparr>pg_title := ''T''\<rparr>"

lemma demo_create_result:
  "CreatePage pg_page_store seg 105 305 demo_create demo_wiki_docs = (Inr demo_created, demo_created_db)"
proof -
  have "fst (CreatePage pg_page_store seg 105 305 demo_create demo_wiki_docs) = Inr demo_created"
    by (simp add: CreatePage_def demo_create_def validateCreateInput_def demo_title parent_path_def demo_created_def
        q_GetPageInSpace_def q_CreatePage_def q_CreatePageRevision_def content_tx_simps demo_wiki_simps demo_wiki_docs_def
        work_db.defs)
  then show ?thesis by (simp add: demo_created_db_def prod_eq_iff)
qed

text \<open>The new page has no document yet; its empty text converts to the macro document of \<open>DocReach\<close>.\<close>

definition demo_macro_lib :: doc_lib where
  "demo_macro_lib = demo_lib\<lparr>dl_FromMarkdown := (\<lambda>_. Inr macro_document)\<rparr>"

definition demo_first_publish :: PublishInput where
  "demo_first_publish = (demo_publish demo_edited)\<lparr>pin_PageID := 105, pin_BaseVersion := 1\<rparr>"

definition demo_history_db :: doc_db where
  "demo_history_db = snd (Publish demo_macro_lib demo_service 306 demo_first_publish demo_created_db)"

lemma demo_created_rows:
  "db_up demo_created_db" "List.find (page_live 105) (pages demo_created_db) = Some demo_created"
proof -
  have d: "db_up demo_created_db \<and> List.find (page_live 105) (pages demo_created_db) = Some demo_created"
    unfolding demo_created_db_def
    by (simp add: CreatePage_def demo_create_def validateCreateInput_def demo_title parent_path_def demo_created_def
        q_GetPageInSpace_def q_CreatePage_def q_CreatePageRevision_def content_tx_simps demo_wiki_simps demo_wiki_docs_def
        work_db.defs)
  then show "db_up demo_created_db" "List.find (page_live 105) (pages demo_created_db) = Some demo_created" by blast+
qed

lemma demo_first_publish_result:
  "case Publish demo_macro_lib demo_service 306 demo_first_publish demo_created_db of
     (Inr (Published row), db') \<Rightarrow> list_all (\<lambda>p. pg_id p = 105 \<longrightarrow> pg_version p = 2) (pages db') | _ \<Rightarrow> False"
proof -
  have fields: "pin_PageID demo_first_publish = 105" "pin_Doc demo_first_publish = demo_edited"
    "pin_BaseVersion demo_first_publish = 1" "pin_AcknowledgedLostIDs demo_first_publish = []"
    "pin_Title demo_first_publish = ''Renamed''" "\<not> pin_Overwrite demo_first_publish" "pin_AuthorID demo_first_publish = 10"
    by (simp_all add: demo_first_publish_def demo_publish_def)
  have page: "doc_page demo_service demo_created_db 105 = Inr demo_created"
    using demo_created_rows by (simp add: doc_page_def pg_document_service_def pg_document_store_def q_GetPageByID_def
        sql_row_def page_or_missing_def)
  have ver: "pg_version demo_created = 1" "pg_doc demo_created = None" by (simp_all add: demo_created_def demo_tree_page_def)
  have base: "baseDocument demo_macro_lib demo_service demo_created_db demo_created 1 = Inr macro_document"
    by (simp add: baseDocument_def documentOfPage_def stored_doc_def ver converted_def demo_macro_lib_def)
  have res: "resolvePreservedContent demo_macro_lib demo_service demo_created_db demo_created demo_first_publish =
      Inr (Inl macro_document)"
    by (simp add: resolvePreservedContent_def fields base demo_shield demo_restore unacknowledged_def checkImages_def demo_document)
  have tags: "inlineTagIDs demo_macro_lib demo_service (pin_OrgID demo_first_publish) macro_document demo_created_db = (Inr [], demo_created_db)"
    by (simp add: inlineTagIDs_def demo_macro_lib_def demo_lib_def demo_document)
  have md: "ToMarkdown (dl_ToUpper demo_macro_lib) (dl_EqualFold demo_macro_lib) macro_document = Inr []"
    by (simp add: demo_macro_lib_def demo_lib_def demo_document)
  have title: "TrimSpace ''Renamed'' \<noteq> []" by code_simp
  obtain v where v: "Validate demo_edited = Inr v" using demo_validate by (auto split: sum.splits)
  have "Publish demo_macro_lib demo_service 306 demo_first_publish demo_created_db =
      commit demo_service 306 demo_first_publish macro_document [] [] demo_created_db"
    by (simp add: Publish_def fields title page res md tags v ver)
  moreover have "case commit demo_service 306 demo_first_publish macro_document [] [] demo_created_db of
     (Inr (Published row), db') \<Rightarrow> list_all (\<lambda>p. pg_id p = 105 \<longrightarrow> pg_version p = 2) (pages db') | _ \<Rightarrow> False"
    unfolding commit_def pg_document_service_def demo_created_db_def
    by (simp add: fields CreatePage_def demo_create_def validateCreateInput_def demo_title parent_path_def
        q_GetPageInSpace_def q_CreatePage_def content_tx_simps demo_wiki_simps demo_wiki_docs_def work_db.defs
        PublishPageTx_def publishPageRow_def q_PublishPageDocument_def write_document_def set_document_def
        q_CreatePageRevisionWithDoc_def q_CreatePageRevision_def q_DeletePageDraft_def int4_max_def)
  ultimately show ?thesis by simp
qed

theorem history_never_skips_witness:
  "\<exists>row \<in> set (pages demo_history_db). pg_id row = 105 \<and> pg_version row = 2 \<and> history_complete demo_history_db row"
proof -
  have tree: "page_tree seg demo_wiki_docs"
    using demo_wiki_tree page_tree_same [of demo_wiki_docs demo_wiki seg] by (simp add: page_tree_def live_pages_def demo_wiki_docs_def work_db.defs)
  have fk: "\<forall>r \<in> set (page_revisions demo_wiki_docs). pr_page r \<in> pg_id ` set (pages demo_wiki_docs)"
    by (simp add: demo_wiki_simps demo_wiki_docs_def work_db.defs)
  have run: "(wiki_step seg)\<^sup>*\<^sup>* demo_created_db demo_history_db"
    unfolding demo_history_db_def by (rule r_into_rtranclp) (rule wiki_step.publish)
  obtain p where p: "p \<in> set (pages demo_history_db)" "pg_id p = 105" "history_complete demo_history_db p"
    using history_never_skips [OF canonical_text_ok tree fk demo_create_result run]
    by (auto simp: demo_created_def demo_tree_page_def)
  have "list_all (\<lambda>p. pg_id p = 105 \<longrightarrow> pg_version p = 2) (pages demo_history_db)"
    using demo_first_publish_result by (auto simp: demo_history_db_def split: prod.splits sum.splits PublishResult.splits)
  with p show ?thesis by (auto simp: list_all_iff)
qed

end
