(* ===== verification/Spaces.thy ===== *)
theory Spaces
  imports TeamApi PageStorePg AccessExplain
begin

text \<open>
  Spaces: their tables and statements (\<^verbatim>\<open>internal/db/queries/spaces.sql\<close> over migrations 003, 017,
  021, 023 and 028), the transaction that creates one
  (\<^verbatim>\<open>internal/db/adapters/space_create_tx.go\<close>), and the naming rules of
  \<^verbatim>\<open>internal/core/api/spaces/handler.go\<close>. The handlers are in \<open>SpaceApi\<close>.

  The shared table \<open>spaces\<close> lacks the columns no other component reads; they are the table
  \<open>space_columns\<close>, keyed by the space, and a row as the code sees it is the pair of both. The foreign key
  on the organisation is not modelled, as its table is not.
\<close>

section \<open>Keys\<close>

definition validKey :: "string \<Rightarrow> bool" where
  \<comment> \<open>\<open>^[A-Z0-9]{1,10}$\<close>; in Go \<open>$\<close> without a flag is the end of the text\<close>
  "validKey s \<longleftrightarrow> 1 \<le> length s \<and> length s \<le> 10 \<and> list_all (\<lambda>c. byte_in 0x41 0x5A c \<or> byte_in 0x30 0x39 c) s"

definition validSpaceTypes :: "string list" where
  "validSpaceTypes = [''beacon'', ''codex'', ''vector'']"

definition VisibilityHidden :: string where "VisibilityHidden = ''hidden''"
definition VisibilityDiscoverable :: string where "VisibilityDiscoverable = ''discoverable''"

definition validVisibilities :: "string list" where
  "validVisibilities = [VisibilityHidden, VisibilityDiscoverable, VisibilityOrg]"

text \<open>The class \<open>\s\<close> of Go's regular expressions, and \<open>strings.ToUpper\<close> where only ASCII is left.\<close>

definition re_space :: "char \<Rightarrow> bool" where
  "re_space c \<longleftrightarrow> byte_in 9 10 c \<or> byte_in 12 13 c \<or> byte_in 32 32 c"

definition ascii_upper :: "char \<Rightarrow> char" where
  "ascii_upper c = (if byte_in 0x61 0x7A c then char_of (of_char c - 32 :: nat) else c)"

text \<open>Every rune outside the class is dropped, so no byte of a longer rune survives and the rest is ASCII.\<close>

definition deriveKey :: "string \<Rightarrow> string" where
  "deriveKey name =
     (let kept = filter (\<lambda>c. byte_in 0x61 0x7A c \<or> byte_in 0x41 0x5A c \<or> byte_in 0x30 0x39 c \<or> re_space c) name;
          word = takeWhile (\<lambda>c. \<not> re_space c) (TrimSpace kept);
          first = filter (\<lambda>c. byte_in 0x41 0x5A c \<or> byte_in 0x30 0x39 c) (map ascii_upper word);
          capped = (if length first > 8 then take 8 first else first)
      in if capped = '''' then ''SPACE'' else capped)"

text \<open>\<open>strconv.Itoa\<close> on a natural number.\<close>

fun itoa :: "nat \<Rightarrow> string" where
  "itoa n = (if n < 10 then [char_of (48 + n)] else itoa (n div 10) @ [char_of (48 + n mod 10)])"

declare itoa.simps [simp del]

definition dedupeKey :: "string \<Rightarrow> nat \<Rightarrow> string" where
  "dedupeKey base attempt =
     (let suffix = itoa (attempt + 1)
      in if length base + length suffix > 10 then take (10 - length suffix) base @ suffix else base @ suffix)"

definition maxKeyAttempts :: nat where "maxKeyAttempts = 20"

section \<open>Tables\<close>

record SpaceColumns =
  sx_space :: uuid
  sx_slug :: string
  sx_key :: string
  sx_description :: "string option"
  sx_icon :: "string option"
  sx_private :: bool
  sx_created_by :: uuid

type_synonym Space = "SpaceRow \<times> SpaceColumns"

record SpaceMemberRow =
  sm_id :: uuid
  sm_space :: uuid
  sm_user :: uuid
  sm_role :: string

record space_db = work_db +
  space_columns :: "SpaceColumns list"
  space_members :: "SpaceMemberRow list"

definition columns_of :: "'x space_db_scheme \<Rightarrow> uuid \<Rightarrow> SpaceColumns option" where
  "columns_of db i = List.find (\<lambda>x. sx_space x = i) (space_columns db)"

definition with_columns :: "'x space_db_scheme \<Rightarrow> SpaceRow \<Rightarrow> Space option" where
  "with_columns db s = map_option (Pair s) (columns_of db (s_id s))"

definition full_space :: "'x space_db_scheme \<Rightarrow> uuid \<Rightarrow> Space option" where
  "full_space db i = (case q_GetSpaceByID db i of None \<Rightarrow> None | Some s \<Rightarrow> with_columns db s)"

section \<open>Statements\<close>

record CreateSpaceParams =
  csp_ID :: uuid
  csp_OrgID :: uuid
  csp_Slug :: string
  csp_Name :: string
  csp_Description :: "string option"
  csp_Type :: string
  csp_Icon :: "string option"
  csp_IsPrivate :: bool
  csp_CreatedBy :: uuid
  csp_Key :: string
  csp_OwnerTeamID :: uuid
  csp_Visibility :: string

definition space_of_params :: "CreateSpaceParams \<Rightarrow> Space" where
  "space_of_params a =
     (\<lparr>s_id = csp_ID a, s_org = csp_OrgID a, s_name = csp_Name a, s_type = csp_Type a, s_owner_team = csp_OwnerTeamID a,
       s_visibility = csp_Visibility a, s_workflow = None, s_deleted = False\<rparr>,
      \<lparr>sx_space = csp_ID a, sx_slug = csp_Slug a, sx_key = csp_Key a, sx_description = csp_Description a,
       sx_icon = csp_Icon a, sx_private = csp_IsPrivate a, sx_created_by = csp_CreatedBy a\<rparr>)"

text \<open>\<open>idx_spaces_org_key\<close> covers live rows, \<open>spaces_org_id_type_slug_key\<close> all of them.\<close>

definition key_taken :: "'x space_db_scheme \<Rightarrow> uuid \<Rightarrow> string \<Rightarrow> bool" where
  "key_taken db org key \<longleftrightarrow>
     list_ex (\<lambda>s. s_org s = org \<and> \<not> s_deleted s \<and> map_option sx_key (columns_of db (s_id s)) = Some key) (spaces db)"

definition slug_taken :: "'x space_db_scheme \<Rightarrow> uuid \<Rightarrow> string \<Rightarrow> string \<Rightarrow> bool" where
  "slug_taken db org ty slug \<longleftrightarrow>
     list_ex (\<lambda>s. s_org s = org \<and> s_type s = ty \<and> map_option sx_slug (columns_of db (s_id s)) = Some slug) (spaces db)"

definition q_CreateSpace :: "CreateSpaceParams \<Rightarrow> ('x space_db_scheme, sql_error, Space) stmt" where
  "q_CreateSpace a db =
     (if \<not> db_up db then Inl SqlDown
      else if \<not> validKey (csp_Key a) then Inl (SqlCheck ''spaces_key_format'')
      else if \<not> List.member validSpaceTypes (csp_Type a) then Inl (SqlCheck ''spaces_type_valid'')
      else if \<not> List.member validVisibilities (csp_Visibility a) then Inl (SqlCheck ''spaces_visibility_valid'')
      else if list_ex (\<lambda>s. s_id s = csp_ID a) (spaces db) then Inl (SqlUnique ''spaces_pkey'')
      else if key_taken db (csp_OrgID a) (csp_Key a) then Inl (SqlUnique ''idx_spaces_org_key'')
      else if slug_taken db (csp_OrgID a) (csp_Type a) (csp_Slug a) then Inl (SqlUnique ''spaces_org_id_type_slug_key'')
      else if \<not> user_exists db (csp_CreatedBy a) then Inl SqlForeignKey
      else if \<not> list_ex (\<lambda>t. t_id t = csp_OwnerTeamID a) (teams db) then Inl SqlForeignKey
      else Inr (space_of_params a, db\<lparr>spaces := spaces db @ [fst (space_of_params a)],
             space_columns := space_columns db @ [snd (space_of_params a)]\<rparr>))"

definition q_GetSpaceRow :: "'x space_db_scheme \<Rightarrow> uuid \<Rightarrow> sql_error + Space" where
  "q_GetSpaceRow db i = sql_row db (full_space db i)"

definition q_ListSpacesByOrg :: "'x space_db_scheme \<Rightarrow> uuid \<Rightarrow> sql_error + Space list" where
  "q_ListSpacesByOrg db org =
     sql_rows db (List.map_filter (with_columns db) (filter (\<lambda>s. s_org s = org \<and> \<not> s_deleted s) (spaces db)))"

text \<open>An update of one live row: the row's new halves, or no row.\<close>

definition write_space ::
    "uuid \<Rightarrow> (SpaceRow \<Rightarrow> SpaceRow) \<Rightarrow> (SpaceColumns \<Rightarrow> SpaceColumns) \<Rightarrow> ('x space_db_scheme, sql_error, Space) stmt" where
  "write_space i f g db =
     (case full_space db i of
        None \<Rightarrow> Inl SqlNoRows
      | Some (s, x) \<Rightarrow> Inr ((f s, g x),
          db\<lparr>spaces := map (\<lambda>s. if s_id s = i \<and> \<not> s_deleted s then f s else s) (spaces db),
             space_columns := map (\<lambda>x. if sx_space x = i then g x else x) (space_columns db)\<rparr>))"

definition q_UpdateSpace ::
    "uuid \<Rightarrow> string \<Rightarrow> string option \<Rightarrow> string option \<Rightarrow> bool \<Rightarrow> string \<Rightarrow> ('x space_db_scheme, sql_error, Space) stmt" where
  "q_UpdateSpace i name description icon private key db =
     (if \<not> db_up db then Inl SqlDown
      else case full_space db i of
        None \<Rightarrow> Inl SqlNoRows
      | Some (s, x) \<Rightarrow>
          if \<not> validKey key then Inl (SqlCheck ''spaces_key_format'')
          else if sx_key x \<noteq> key \<and> key_taken db (s_org s) key then Inl (SqlUnique ''idx_spaces_org_key'')
          else write_space i (\<lambda>s. s\<lparr>s_name := name\<rparr>)
                 (\<lambda>x. x\<lparr>sx_description := description, sx_icon := icon, sx_private := private, sx_key := key\<rparr>) db)"

definition q_SoftDeleteSpace :: "uuid \<Rightarrow> ('x space_db_scheme, sql_error, unit) stmt" where
  "q_SoftDeleteSpace i db =
     (if \<not> db_up db then Inl SqlDown
      else Inr ((), db\<lparr>spaces := map (\<lambda>s. if s_id s = i \<and> \<not> s_deleted s then s\<lparr>s_deleted := True\<rparr> else s) (spaces db)\<rparr>))"

definition q_SetSpaceVisibility :: "uuid \<Rightarrow> string \<Rightarrow> ('x space_db_scheme, sql_error, Space) stmt" where
  "q_SetSpaceVisibility i v db =
     (if \<not> db_up db then Inl SqlDown
      else if full_space db i \<noteq> None \<and> \<not> List.member validVisibilities v then Inl (SqlCheck ''spaces_visibility_valid'')
      else write_space i (\<lambda>s. s\<lparr>s_visibility := v\<rparr>) id db)"

definition q_SetSpaceOwnerTeam :: "uuid \<Rightarrow> uuid \<Rightarrow> ('x space_db_scheme, sql_error, Space) stmt" where
  "q_SetSpaceOwnerTeam i team db =
     (if \<not> db_up db then Inl SqlDown
      else if full_space db i \<noteq> None \<and> \<not> list_ex (\<lambda>t. t_id t = team) (teams db) then Inl SqlForeignKey
      else write_space i (\<lambda>s. s\<lparr>s_owner_team := team\<rparr>) id db)"

record SpaceContents =
  cnt_Tickets :: nat
  cnt_Pages :: nat
  cnt_Items :: nat

definition q_CountSpaceContents :: "'x space_db_scheme \<Rightarrow> uuid \<Rightarrow> sql_error + SpaceContents" where
  "q_CountSpaceContents db i =
     sql_row db (Some
       \<lparr>cnt_Tickets = length (filter (\<lambda>t. tk_space t = i \<and> \<not> tk_deleted t) (tickets db)),
        cnt_Pages = length (filter (\<lambda>p. pg_space p = i \<and> \<not> pg_deleted p) (pages db)),
        cnt_Items = length (filter (\<lambda>p. pi_space p = i \<and> \<not> pi_deleted p) (project_items db))\<rparr>)"

text \<open>The conflict on \<open>(space_id, user_id)\<close> keeps the row it meets and overwrites its role.\<close>

definition q_AddSpaceMember :: "SpaceMemberRow \<Rightarrow> ('x space_db_scheme, sql_error, SpaceMemberRow) stmt" where
  "q_AddSpaceMember m db =
     (let same = (\<lambda>r. sm_space r = sm_space m \<and> sm_user r = sm_user m)
      in if \<not> db_up db then Inl SqlDown
         else case List.find same (space_members db) of
           Some r \<Rightarrow> Inr (r\<lparr>sm_role := sm_role m\<rparr>,
             db\<lparr>space_members := map (\<lambda>r. if same r then r\<lparr>sm_role := sm_role m\<rparr> else r) (space_members db)\<rparr>)
         | None \<Rightarrow>
             if list_ex (\<lambda>r. sm_id r = sm_id m) (space_members db) then Inl (SqlUnique ''space_members_pkey'')
             else if \<not> list_ex (\<lambda>s. s_id s = sm_space m) (spaces db) then Inl SqlForeignKey
             else if \<not> user_exists db (sm_user m) then Inl SqlForeignKey
             else Inr (m, db\<lparr>space_members := space_members db @ [m]\<rparr>))"

text \<open>The member row with the user's email and display name.\<close>

definition q_ListSpaceMembers :: "'x space_db_scheme \<Rightarrow> uuid \<Rightarrow> sql_error + (SpaceMemberRow \<times> string \<times> string) list" where
  "q_ListSpaceMembers db i =
     sql_rows db (concat (map (\<lambda>m. map (\<lambda>u. (m, u_email u, u_display_name u)) (filter (\<lambda>u. u_id u = sm_user m) (users db)))
       (filter (\<lambda>m. sm_space m = i) (space_members db))))"

definition q_RemoveSpaceMember :: "uuid \<Rightarrow> uuid \<Rightarrow> ('x space_db_scheme, sql_error, unit) stmt" where
  "q_RemoveSpaceMember i u db =
     (if \<not> db_up db then Inl SqlDown
      else Inr ((), db\<lparr>space_members := filter (\<lambda>m. \<not> (sm_space m = i \<and> sm_user m = u)) (space_members db)\<rparr>))"

section \<open>The creation transaction\<close>

record CreateInput =
  ci_Space :: CreateSpaceParams
  ci_MemberRowID :: uuid
  ci_CreatorID :: uuid
  ci_CreatorNeedsGrant :: bool

text \<open>What the transaction fails with; the constraint of a wrapped PostgreSQL error can be read off it.\<close>

datatype create_error = CreateSql string sql_error | CreateGrant access_error

definition wrap_create :: "string \<Rightarrow> ('s, sql_error, 'a) stmt \<Rightarrow> ('s, create_error, 'a) stmt" where
  "wrap_create what m db = (case m db of Inl e \<Rightarrow> Inl (CreateSql what e) | Inr r \<Rightarrow> Inr r)"

definition create_violation :: "create_error \<Rightarrow> string option" where
  "create_violation e = (case e of CreateSql _ e \<Rightarrow> uniqueViolation e | CreateGrant _ \<Rightarrow> None)"

definition grant_creator :: "uuid \<Rightarrow> CreateInput \<Rightarrow> Space \<Rightarrow> ('x org_db_scheme, create_error, unit) stmt" where
  "grant_creator grantID inp space db =
     (if \<not> ci_CreatorNeedsGrant inp then Inr ((), db)
      else case GrantCreate pg_grant_store grantID (s_org (fst space)) (s_id (fst space)) SubjectUser (ci_CreatorID inp)
                  RoleSpaceAdmin (ci_CreatorID inp) db of
        Inl e \<Rightarrow> Inl (CreateGrant e)
      | Inr (_, db') \<Rightarrow> Inr ((), db'))"

definition CreateSpaceTx ::
    "uuid \<Rightarrow> CreateInput \<Rightarrow> 'x space_db_scheme \<Rightarrow> (create_error + Space) \<times> 'x space_db_scheme" where
  "CreateSpaceTx grantID inp =
     in_tx
       (sbind (wrap_create ''create space'' (q_CreateSpace (ci_Space inp))) (\<lambda>space.
        sseq (wrap_create ''create space: adding creator as member'' (q_AddSpaceMember
                \<lparr>sm_id = ci_MemberRowID inp, sm_space = s_id (fst space), sm_user = ci_CreatorID inp, sm_role = ''admin''\<rparr>))
        (sseq (grant_creator grantID inp space) (sret space))))"

end
