(* ===== verification/SpaceApi.thy ===== *)
theory SpaceApi
  imports Spaces
begin

text \<open>
  The space routes, \<^verbatim>\<open>internal/core/api/spaces/handler.go\<close>, from parsed requests, as in \<open>TeamApi\<close>:
  identifiers are the outcome of their parse, a response is an HTTP status with what it carries. The
  handler's optional collaborators are options; \<open>None\<close> is one that was not wired. The loop that looks
  for a free key has no bound of its own, so it is a partial function; \<open>SpaceReach\<close> shows that it ends.
\<close>

datatype uuid_param = ParamAbsent | ParamInvalid | ParamIs uuid

record space_ctx =
  sc_OrgID :: uuid
  sc_UserID :: "uuid option"
  sc_Resolution :: "Resolution option"
  sc_Policy :: TicketPolicy
  sc_TicketParam :: string

type_synonym 'db workflow_assigner = "uuid \<Rightarrow> string \<Rightarrow> uuid \<Rightarrow> 'db \<Rightarrow> (sql_error + unit) \<times> 'db"

record 'db SpaceHandler =
  hn_wfAssign :: "'db workflow_assigner option"
  hn_teamSvc :: "'db TeamStore option"
  hn_spaceTx :: "(uuid \<Rightarrow> CreateInput \<Rightarrow> 'db \<Rightarrow> (create_error + Space) \<times> 'db) option"
  hn_auditLog :: "'db audit_log_fn"

definition logSpaceEvent ::
    "'db SpaceHandler \<Rightarrow> space_ctx \<Rightarrow> nat \<Rightarrow> string \<Rightarrow> uuid \<Rightarrow> string \<Rightarrow> (string \<times> meta_value) list \<Rightarrow> 'db \<Rightarrow> 'db" where
  "logSpaceEvent h c k ty spaceID ref meta =
     hn_auditLog h k
       \<lparr>ev_Type = ty, ev_ActorID = sc_UserID c, ev_OrgID = Some (sc_OrgID c), ev_ResourceType = ''space'',
        ev_ResourceID = Some spaceID, ev_Metadata = meta, ev_BatchID = None, ev_TicketRef = ref\<rparr>"

definition space_ref :: "space_ctx \<Rightarrow> string option" where
  "space_ref c = PolicyResolve (sc_Policy c) (sc_TicketParam c)"

section \<open>The directory\<close>

record directoryRow =
  dir_ID :: uuid
  dir_Name :: string
  dir_Slug :: string
  dir_Type :: string
  dir_Description :: "string option"
  dir_Icon :: "string option"
  dir_Key :: string
  dir_OwnerTeamID :: uuid
  dir_Visibility :: string
  dir_Readable :: bool
  dir_Role :: string
  dir_CreatedBy :: "uuid option"

definition directoryRowFor :: "Space \<Rightarrow> Resolution option \<Rightarrow> directoryRow option" where
  "directoryRowFor space res =
     (let s = fst space; x = snd space in
      if (case res of None \<Rightarrow> False | Some r \<Rightarrow> CanReadSpace r (s_id s))
      then Some \<lparr>dir_ID = s_id s, dir_Name = s_name s, dir_Slug = sx_slug x, dir_Type = s_type s,
                 dir_Description = sx_description x, dir_Icon = sx_icon x, dir_Key = sx_key x,
                 dir_OwnerTeamID = s_owner_team s, dir_Visibility = s_visibility s, dir_Readable = True,
                 dir_Role = RoleString (RoleOn (the res) (s_id s)), dir_CreatedBy = Some (sx_created_by x)\<rparr>
      else if s_visibility s = VisibilityDiscoverable
      then Some \<lparr>dir_ID = s_id s, dir_Name = s_name s, dir_Slug = sx_slug x, dir_Type = s_type s,
                 dir_Description = None, dir_Icon = None, dir_Key = '''',
                 dir_OwnerTeamID = s_owner_team s, dir_Visibility = s_visibility s, dir_Readable = False,
                 dir_Role = '''', dir_CreatedBy = None\<rparr>
      else None)"

definition h_ListSpaces ::
    "'x space_db_scheme \<Rightarrow> space_ctx \<Rightarrow> string \<Rightarrow> uuid_param \<Rightarrow> nat + directoryRow list" where
  "h_ListSpaces db c moduleFilter team =
     (case team of
        ParamInvalid \<Rightarrow> Inl 400
      | _ \<Rightarrow>
          (case q_ListSpacesByOrg db (sc_OrgID c) of
             Inl _ \<Rightarrow> Inl 500
           | Inr rows \<Rightarrow>
               Inr (List.map_filter (\<lambda>space.
                 if moduleFilter \<noteq> '''' \<and> s_type (fst space) \<noteq> moduleFilter then None
                 else if (case team of ParamIs t \<Rightarrow> s_owner_team (fst space) \<noteq> t | _ \<Rightarrow> False) then None
                 else directoryRowFor space (sc_Resolution c)) rows)))"

definition h_GetSpace :: "'x space_db_scheme \<Rightarrow> uuid \<Rightarrow> nat + Space" where
  "h_GetSpace db i = (case q_GetSpaceRow db i of Inl _ \<Rightarrow> Inl 404 | Inr space \<Rightarrow> Inr space)"

definition h_ContentsSummary :: "'x space_db_scheme \<Rightarrow> space_ctx \<Rightarrow> uuid \<Rightarrow> nat + SpaceContents" where
  "h_ContentsSummary db c i =
     (if \<not> Can (sc_Resolution c) CapManageSpace i then Inl 403
      else case q_CountSpaceContents db i of Inl _ \<Rightarrow> Inl 500 | Inr counts \<Rightarrow> Inr counts)"

section \<open>Creating\<close>

record createSpaceRequest =
  crq_Slug :: string
  crq_Name :: string
  crq_Key :: string
  crq_Description :: "string option"
  crq_Type :: string
  crq_Icon :: "string option"
  crq_IsPrivate :: bool
  crq_OwnerTeamID :: uuid_param
  crq_Visibility :: string

definition resolveOwnerTeam :: "('db, 'm) SpaceHandler_scheme \<Rightarrow> 'db \<Rightarrow> uuid \<Rightarrow> uuid_param \<Rightarrow> nat + Team" where
  "resolveOwnerTeam h db orgID raw =
     (case hn_teamSvc h of
        None \<Rightarrow> Inl 500
      | Some svc \<Rightarrow>
          (case raw of
             ParamInvalid \<Rightarrow> Inl 400
           | ParamIs teamID \<Rightarrow>
               (case TeamGet svc db teamID of
                  Inl _ \<Rightarrow> Inl 400
                | Inr team \<Rightarrow> if team_OrgID team \<noteq> orgID then Inl 400 else Inr team)
           | ParamAbsent \<Rightarrow> (case TeamGetDefault svc db orgID of Inl _ \<Rightarrow> Inl 500 | Inr team \<Rightarrow> Inr team)))"

definition canCreateSpace :: "('db, 'm) SpaceHandler_scheme \<Rightarrow> 'db \<Rightarrow> Resolution option \<Rightarrow> Team \<Rightarrow> uuid \<Rightarrow> bool" where
  "canCreateSpace h db res ownerTeam userID =
     (if (case res of None \<Rightarrow> False | Some r \<Rightarrow> res_IsOrgAdmin r) then True
      else case hn_teamSvc h of
        None \<Rightarrow> False
      | Some svc \<Rightarrow> (case TeamGetMember svc db (team_ID ownerTeam) userID of Inl _ \<Rightarrow> False | Inr m \<Rightarrow> IsLead m))"

definition createPreconditions ::
    "('db, 'm) SpaceHandler_scheme \<Rightarrow> 'db \<Rightarrow> space_ctx \<Rightarrow> uuid \<Rightarrow> uuid_param \<Rightarrow> string \<Rightarrow> nat + Team \<times> string" where
  "createPreconditions h db c userID ownerTeamRaw visibility =
     rbind (resolveOwnerTeam h db (sc_OrgID c) ownerTeamRaw) (\<lambda>ownerTeam.
       if \<not> canCreateSpace h db (sc_Resolution c) ownerTeam userID then Inl 403
       else if visibility \<noteq> VisibilityDiscoverable \<and> \<not> CanOrgWide (sc_Resolution c) CapSetVisibility then Inl 403
       else case space_ref c of None \<Rightarrow> Inl 400 | Some ref \<Rightarrow> Inr (ownerTeam, ref))"

definition create_status :: "create_error \<Rightarrow> nat" where
  "create_status e =
     (case create_violation e of
        None \<Rightarrow> 500
      | Some constraint \<Rightarrow>
          if constraint = ''idx_spaces_org_key'' then 409
          else if constraint = ''spaces_org_id_type_slug_key'' then 409
          else 500)"

text \<open>\<open>for attempt := 0; ; attempt++\<close>: \<open>attempt_tx\<close> runs one attempt's transaction with the key it is given.\<close>

partial_function (option) create_loop ::
    "(nat \<Rightarrow> string \<Rightarrow> 'db \<Rightarrow> (create_error + Space) \<times> 'db) \<Rightarrow> bool \<Rightarrow> string \<Rightarrow> nat \<Rightarrow> string \<Rightarrow> 'db \<Rightarrow>
     ((nat + Space) \<times> 'db) option" where
  "create_loop attempt_tx keyDerived baseKey attempt key db =
     (case attempt_tx attempt key db of
        (Inr space, db') \<Rightarrow> Some (Inr space, db')
      | (Inl e, db') \<Rightarrow>
          if create_violation e = Some ''idx_spaces_org_key'' \<and> keyDerived \<and> attempt < maxKeyAttempts
          then create_loop attempt_tx keyDerived baseKey (attempt + 1) (dedupeKey baseKey attempt) db'
          else Some (Inl (create_status e), db'))"

declare create_loop.simps [code]

text \<open>The identifiers one attempt mints: the space's, the member row's and the grant's.\<close>

type_synonym attempt_ids = "nat \<Rightarrow> uuid \<times> uuid \<times> uuid"

definition create_input ::
    "attempt_ids \<Rightarrow> space_ctx \<Rightarrow> uuid \<Rightarrow> createSpaceRequest \<Rightarrow> Team \<Rightarrow> string \<Rightarrow> bool \<Rightarrow> nat \<Rightarrow> string \<Rightarrow> CreateInput" where
  "create_input ids c userID req ownerTeam visibility needsGrant attempt key =
     \<lparr>ci_Space =
        \<lparr>csp_ID = fst (ids attempt), csp_OrgID = sc_OrgID c, csp_Slug = crq_Slug req, csp_Name = crq_Name req,
         csp_Description = crq_Description req, csp_Type = crq_Type req, csp_Icon = crq_Icon req,
         csp_IsPrivate = crq_IsPrivate req, csp_CreatedBy = userID, csp_Key = key,
         csp_OwnerTeamID = team_ID ownerTeam, csp_Visibility = visibility\<rparr>,
      ci_MemberRowID = fst (snd (ids attempt)), ci_CreatorID = userID, ci_CreatorNeedsGrant = needsGrant\<rparr>"

definition assign_workflow :: "'db SpaceHandler \<Rightarrow> uuid \<Rightarrow> string \<Rightarrow> uuid \<Rightarrow> 'db \<Rightarrow> 'db" where
  \<comment> \<open>best effort: an error is only logged\<close>
  "assign_workflow h orgID ty spaceID db = (case hn_wfAssign h of None \<Rightarrow> db | Some f \<Rightarrow> snd (f orgID ty spaceID db))"

definition h_CreateSpace ::
    "'db SpaceHandler \<Rightarrow> attempt_ids \<Rightarrow> space_ctx \<Rightarrow> createSpaceRequest \<Rightarrow> 'db \<Rightarrow> ((nat + Space) \<times> 'db) option" where
  "h_CreateSpace h ids c req db =
     (case sc_UserID c of
        None \<Rightarrow> Some (Inl 401, db)
      | Some userID \<Rightarrow>
      if crq_Name req = '''' \<or> crq_Slug req = '''' \<or> crq_Type req = '''' then Some (Inl 400, db)
      else if \<not> List.member validSpaceTypes (crq_Type req) then Some (Inl 400, db)
      else
      let visibility = (if crq_Visibility req = '''' then VisibilityDiscoverable else crq_Visibility req)
      in if \<not> List.member validVisibilities visibility then Some (Inl 400, db)
      else case createPreconditions h db c userID (crq_OwnerTeamID req) visibility of
        Inl status \<Rightarrow> Some (Inl status, db)
      | Inr (ownerTeam, ref) \<Rightarrow>
      let keyDerived = (crq_Key req = '''');
          key = (if keyDerived then deriveKey (crq_Name req) else crq_Key req)
      in if \<not> validKey key then Some (Inl 400, db)
      else case hn_spaceTx h of
        None \<Rightarrow> Some (Inl 500, db)
      | Some tx \<Rightarrow>
      let needsGrant = (case sc_Resolution c of None \<Rightarrow> True | Some r \<Rightarrow> \<not> res_IsOrgAdmin r)
      in case create_loop
             (\<lambda>attempt key. tx (snd (snd (ids attempt))) (create_input ids c userID req ownerTeam visibility needsGrant attempt key))
             keyDerived key 0 key db of
        None \<Rightarrow> None
      | Some (Inl status, db') \<Rightarrow> Some (Inl status, db')
      | Some (Inr space, db') \<Rightarrow>
          Some (Inr space, assign_workflow h (sc_OrgID c) (crq_Type req) (s_id (fst space))
            (logSpaceEvent h c 0 ''space.created'' (s_id (fst space)) ref
               [(''visibility'', MText (s_visibility (fst space))), (''type'', MText (s_type (fst space))),
                (''owner_team_id'', MUuid (s_owner_team (fst space)))] db')))"

section \<open>Changing\<close>

record updateSpaceRequest =
  upq_Name :: string
  upq_Key :: string
  upq_Description :: "string option"
  upq_Icon :: "string option"
  upq_IsPrivate :: bool
  upq_OwnerTeamID :: uuid_param
  upq_Visibility :: string

definition decodeSpaceUpdate :: "updateSpaceRequest \<Rightarrow> bool" where
  "decodeSpaceUpdate req =
     (if upq_Name req = '''' then False
      else if upq_Key req \<noteq> '''' \<and> \<not> validKey (upq_Key req) then False
      else if upq_Visibility req \<noteq> '''' \<and> \<not> List.member validVisibilities (upq_Visibility req) then False
      else True)"

definition requireVisibilityAuthority :: "space_ctx \<Rightarrow> Space \<Rightarrow> string \<Rightarrow> bool" where
  "requireVisibilityAuthority c current requested =
     (if requested = '''' \<or> requested = s_visibility (fst current) then True
      else Can (sc_Resolution c) CapSetVisibility (s_id (fst current)))"

definition updatePreconditions :: "space_ctx \<Rightarrow> Space \<Rightarrow> string \<Rightarrow> nat + string" where
  "updatePreconditions c current requested =
     (if \<not> requireVisibilityAuthority c current requested then Inl 403
      else case space_ref c of None \<Rightarrow> Inl 400 | Some ref \<Rightarrow> Inr ref)"

definition applyVisibilityChange ::
    "'x space_db_scheme SpaceHandler \<Rightarrow> space_ctx \<Rightarrow> Space \<Rightarrow> string \<Rightarrow> string \<Rightarrow> Space \<Rightarrow> 'x space_db_scheme \<Rightarrow>
     (nat + Space) \<times> 'x space_db_scheme" where
  "applyVisibilityChange h c current visibility ref space db =
     (if visibility = '''' \<or> visibility = s_visibility (fst current) then (Inr space, db)
      else case q_SetSpaceVisibility (s_id (fst current)) visibility db of
        Inl _ \<Rightarrow> (Inl 500, db)
      | Inr (updated, db') \<Rightarrow>
          (Inr updated, logSpaceEvent h c 0 ''space.visibility_changed'' (s_id (fst current)) ref
             [(''from'', MText (s_visibility (fst current))), (''to'', MText visibility)] db'))"

definition applyOwnerTeamChange ::
    "'x space_db_scheme SpaceHandler \<Rightarrow> space_ctx \<Rightarrow> Space \<Rightarrow> uuid_param \<Rightarrow> string \<Rightarrow> Space \<Rightarrow> 'x space_db_scheme \<Rightarrow>
     (nat + Space) \<times> 'x space_db_scheme" where
  "applyOwnerTeamChange h c current ownerTeamID ref space db =
     (case ownerTeamID of
        ParamAbsent \<Rightarrow> (Inr space, db)
      | ParamInvalid \<Rightarrow> (Inl 400, db)
      | ParamIs newOwner \<Rightarrow>
          if newOwner = s_owner_team (fst current) then (Inr space, db)
          else case hn_teamSvc h of
            None \<Rightarrow> (Inl 500, db)
          | Some svc \<Rightarrow>
          (case TeamGet svc db newOwner of
            Inl _ \<Rightarrow> (Inl 400, db)
          | Inr team \<Rightarrow>
              if team_OrgID team \<noteq> s_org (fst current) then (Inl 400, db)
              else case q_SetSpaceOwnerTeam (s_id (fst current)) newOwner db of
                Inl _ \<Rightarrow> (Inl 500, db)
              | Inr (updated, db') \<Rightarrow>
                  (Inr updated, logSpaceEvent h c 1 ''space.owner_team_changed'' (s_id (fst current)) ref
                     [(''from'', MUuid (s_owner_team (fst current))), (''to'', MUuid newOwner)] db')))"

definition h_UpdateSpace ::
    "'x space_db_scheme SpaceHandler \<Rightarrow> space_ctx \<Rightarrow> uuid \<Rightarrow> updateSpaceRequest \<Rightarrow> 'x space_db_scheme \<Rightarrow>
     (nat + Space) \<times> 'x space_db_scheme" where
  "h_UpdateSpace h c i req db =
     (if \<not> Can (sc_Resolution c) CapManageSpace i then (Inl 403, db)
      else if \<not> decodeSpaceUpdate req then (Inl 400, db)
      else case q_GetSpaceRow db i of
        Inl _ \<Rightarrow> (Inl 404, db)
      | Inr current \<Rightarrow>
      (case updatePreconditions c current (upq_Visibility req) of
        Inl status \<Rightarrow> (Inl status, db)
      | Inr ref \<Rightarrow>
      (let key = (if upq_Key req = '''' then sx_key (snd current) else upq_Key req)
       in case q_UpdateSpace i (upq_Name req) (upq_Description req) (upq_Icon req) (upq_IsPrivate req) key db of
        Inl _ \<Rightarrow> (Inl 500, db)
      | Inr (space, db1) \<Rightarrow>
      (case applyVisibilityChange h c current (upq_Visibility req) ref space db1 of
        (Inl status, db2) \<Rightarrow> (Inl status, db2)
      | (Inr space2, db2) \<Rightarrow> applyOwnerTeamChange h c current (upq_OwnerTeamID req) ref space2 db2))))"

definition h_DeleteSpace ::
    "'x space_db_scheme SpaceHandler \<Rightarrow> space_ctx \<Rightarrow> uuid \<Rightarrow> 'x space_db_scheme \<Rightarrow> (nat + unit) \<times> 'x space_db_scheme" where
  "h_DeleteSpace h c i db =
     (if \<not> Can (sc_Resolution c) CapManageSpace i then (Inl 403, db)
      else case space_ref c of
        None \<Rightarrow> (Inl 400, db)
      | Some ref \<Rightarrow>
      (case q_SoftDeleteSpace i db of
        Inl _ \<Rightarrow> (Inl 500, db)
      | Inr (_, db') \<Rightarrow>
          (Inr (), logSpaceEvent h c 0 ''space.deleted'' i ref
             (case q_GetSpaceRow db i of
                Inl _ \<Rightarrow> []
              | Inr current \<Rightarrow>
                  [(''name'', MText (s_name (fst current))), (''type'', MText (s_type (fst current))),
                   (''visibility'', MText (s_visibility (fst current)))]) db')))"

section \<open>Members\<close>

definition h_ListSpaceMembers :: "'x space_db_scheme \<Rightarrow> uuid \<Rightarrow> nat + (SpaceMemberRow \<times> string \<times> string) list" where
  "h_ListSpaceMembers db i = (case q_ListSpaceMembers db i of Inl _ \<Rightarrow> Inl 500 | Inr ms \<Rightarrow> Inr ms)"

definition h_AddSpaceMember ::
    "uuid \<Rightarrow> space_ctx \<Rightarrow> uuid \<Rightarrow> uuid \<Rightarrow> string \<Rightarrow> 'x space_db_scheme \<Rightarrow> (nat + SpaceMemberRow) \<times> 'x space_db_scheme" where
  "h_AddSpaceMember newID c i userID role db =
     (if \<not> Can (sc_Resolution c) CapManageSpace i then (Inl 403, db)
      else if role = '''' then (Inl 400, db)
      else case q_AddSpaceMember \<lparr>sm_id = newID, sm_space = i, sm_user = userID, sm_role = role\<rparr> db of
        Inl _ \<Rightarrow> (Inl 500, db)
      | Inr (m, db') \<Rightarrow> (Inr m, db'))"

definition h_RemoveSpaceMember ::
    "space_ctx \<Rightarrow> uuid \<Rightarrow> uuid_param \<Rightarrow> 'x space_db_scheme \<Rightarrow> (nat + unit) \<times> 'x space_db_scheme" where
  "h_RemoveSpaceMember c i userID db =
     (if \<not> Can (sc_Resolution c) CapManageSpace i then (Inl 403, db)
      else case userID of
        ParamIs u \<Rightarrow>
          (case q_RemoveSpaceMember i u db of Inl _ \<Rightarrow> (Inl 500, db) | Inr (_, db') \<Rightarrow> (Inr (), db'))
      | _ \<Rightarrow> (Inl 400, db))"

section \<open>The default workflow\<close>

definition q_GetDefaultWorkflow :: "'x work_db_scheme \<Rightarrow> uuid \<Rightarrow> string \<Rightarrow> sql_error + WorkflowRow" where
  "q_GetDefaultWorkflow db org appliesTo =
     sql_row db (List.find (\<lambda>w. wf_org w = org \<and> wf_applies_to w = appliesTo \<and> wf_default w) (workflows db))"

definition q_AssignWorkflowToSpace :: "uuid \<Rightarrow> uuid \<Rightarrow> ('x work_db_scheme, sql_error, unit) stmt" where
  "q_AssignWorkflowToSpace w i db =
     (if \<not> db_up db then Inl SqlDown
      else Inr ((), db\<lparr>spaces := map (\<lambda>s. if s_id s = i then s\<lparr>s_workflow := Some w\<rparr> else s) (spaces db)\<rparr>))"

definition AssignDefaultWorkflowToSpace :: "'x work_db_scheme workflow_assigner" where
  "AssignDefaultWorkflowToSpace orgID spaceType spaceID db =
     (if spaceType = ''beacon'' \<or> spaceType = ''vector''
      then (case q_GetDefaultWorkflow db orgID (if spaceType = ''beacon'' then ''tickets'' else ''project_items'') of
              Inl e \<Rightarrow> (Inl e, db)
            | Inr row \<Rightarrow>
                (case q_AssignWorkflowToSpace (wf_id row) spaceID db of
                   Inl e \<Rightarrow> (Inl e, db) | Inr (_, db') \<Rightarrow> (Inr (), db')))
      else (Inr (), db))"

text \<open>The handler as \<^verbatim>\<open>cmd/server\<close> wires it; \<open>ids\<close> are the audit rows'.\<close>

definition pg_space_handler :: "(nat \<Rightarrow> uuid) \<Rightarrow> 'x space_db_scheme SpaceHandler" where
  "pg_space_handler ids =
     \<lparr>hn_wfAssign = Some AssignDefaultWorkflowToSpace, hn_teamSvc = Some pg_team_store, hn_spaceTx = Some CreateSpaceTx,
      hn_auditLog = (\<lambda>k. audit_log_event (ids k))\<rparr>"

end
