(* ===== verification/SpaceReach.thy ===== *)
theory SpaceReach
  imports SpaceApi ShareReach
begin

text \<open>
  Creating a space ends, with the first free key, and hands the space to its creator. The contract the
  loop needs of an attempt, that a failed one leaves nothing behind, is the locale \<open>create_tx\<close>.
\<close>

section \<open>Keys\<close>

definition key_char :: "char \<Rightarrow> bool" where
  "key_char c \<longleftrightarrow> byte_in 0x41 0x5A c \<or> byte_in 0x30 0x39 c"

lemma validKey_iff: "validKey s \<longleftrightarrow> s \<noteq> [] \<and> length s \<le> 10 \<and> (\<forall>c \<in> set s. key_char c)"
  by (auto simp: validKey_def key_char_def list_all_iff Suc_le_eq)

lemma itoa_chars: "itoa n \<noteq> [] \<and> (\<forall>c \<in> set (itoa n). key_char c)"
proof (induction n rule: itoa.induct)
  case (1 n)
  have d: "key_char (char_of (48 + m))" if "m < 10" for m :: nat
    using that by (simp add: key_char_def byte_in_def)
  show ?case
  proof (cases "n < 10")
    case True
    then show ?thesis using d [of n] by (simp add: itoa.simps [of n])
  next
    case False
    then show ?thesis using 1 [OF False] d [of "n mod 10"] by (simp add: itoa.simps [of n])
  qed
qed

lemma itoa_short: assumes "n < 100" shows "length (itoa n) \<le> 2"
proof -
  have "n div 10 < 10" using assms by (simp add: less_mult_imp_div_less)
  then have "length (itoa (n div 10)) = 1" by (simp add: itoa.simps [of "n div 10"])
  then show ?thesis by (simp add: itoa.simps [of n])
qed

lemma deriveKey_valid: "validKey (deriveKey name)"
proof -
  define first where "first = filter (\<lambda>c. byte_in 0x41 0x5A c \<or> byte_in 0x30 0x39 c) (map ascii_upper
    (takeWhile (\<lambda>c. \<not> re_space c) (TrimSpace (filter (\<lambda>c. byte_in 0x61 0x7A c \<or> byte_in 0x41 0x5A c \<or> byte_in 0x30 0x39 c \<or> re_space c) name))))"
  define capped where "capped = (if length first > 8 then take 8 first else first)"
  have k: "deriveKey name = (if capped = '''' then ''SPACE'' else capped)"
    by (simp add: deriveKey_def capped_def first_def Let_def)
  have "\<forall>c \<in> set first. key_char c" by (simp add: first_def key_char_def)
  then have "length capped \<le> 10" "\<forall>c \<in> set capped. key_char c"
    by (auto simp: capped_def dest: in_set_takeD)
  moreover have "validKey ''SPACE''" by code_simp
  ultimately show ?thesis unfolding k by (simp add: validKey_iff)
qed

lemma dedupeKey_valid:
  assumes "validKey base" and "k < maxKeyAttempts" shows "validKey (dedupeKey base k)"
proof -
  have l: "length (itoa (Suc k)) \<le> 2" using assms(2) by (intro itoa_short) (simp add: maxKeyAttempts_def)
  show ?thesis using assms(1) itoa_chars [of "Suc k"] l
    by (auto simp: validKey_iff dedupeKey_def Let_def dest: in_set_takeD)
qed

definition candidate_key :: "string \<Rightarrow> nat \<Rightarrow> string" where
  "candidate_key base n = (if n = 0 then base else dedupeKey base (n - 1))"

lemma candidate_key_simps [simp]:
  "candidate_key base 0 = base" "candidate_key base (Suc n) = dedupeKey base n"
  by (simp_all add: candidate_key_def)

lemma candidate_key_valid: "validKey base \<Longrightarrow> n \<le> maxKeyAttempts \<Longrightarrow> validKey (candidate_key base n)"
  by (cases n) (auto simp: dedupeKey_valid)

section \<open>The loop ends\<close>

locale create_tx =
  fixes attempt_tx :: "nat \<Rightarrow> string \<Rightarrow> 'db \<Rightarrow> (create_error + Space) \<times> 'db"
  assumes rolls_back: "attempt_tx k key db = (Inl e, db') \<Longrightarrow> db' = db"
begin

definition collides :: "'db \<Rightarrow> nat \<Rightarrow> string \<Rightarrow> bool" where
  "collides db k key \<longleftrightarrow>
     (\<exists>e db'. attempt_tx k key db = (Inl e, db') \<and> create_violation e = Some ''idx_spaces_org_key'')"

definition answer :: "'db \<Rightarrow> nat \<Rightarrow> string \<Rightarrow> (nat + Space) \<times> 'db" where
  "answer db k key =
     (case attempt_tx k key db of (Inr space, db') \<Rightarrow> (Inr space, db') | (Inl e, _) \<Rightarrow> (Inl (create_status e), db))"

lemma answer_Inr:
  assumes "answer db k key = (Inr space, db')" shows "attempt_tx k key db = (Inr space, db')"
proof (cases "attempt_tx k key db")
  case (Pair r db1)
  then show ?thesis using assms by (cases r) (simp_all add: answer_def)
qed

text \<open>It stops at an attempt that does not collide, or at the last one; all before it collided.\<close>

definition stops_at :: "'db \<Rightarrow> bool \<Rightarrow> string \<Rightarrow> nat \<Rightarrow> nat \<Rightarrow> bool" where
  "stops_at db derived base k n \<longleftrightarrow> k \<le> n \<and> n \<le> maxKeyAttempts \<and> (n = k \<or> derived) \<and>
     (\<forall>j. k \<le> j \<and> j < n \<longrightarrow> collides db j (candidate_key base j)) \<and>
     (collides db n (candidate_key base n) \<longrightarrow> \<not> derived \<or> n = maxKeyAttempts)"

lemma create_loop_step:
  "create_loop attempt_tx derived base k key db =
     (if collides db k key \<and> derived \<and> k < maxKeyAttempts
      then create_loop attempt_tx derived base (Suc k) (dedupeKey base k) db
      else Some (answer db k key))"
  by (subst create_loop.simps)
    (auto simp: collides_def answer_def dest: rolls_back split: prod.splits sum.splits)

lemma create_loop_ends:
  "k \<le> maxKeyAttempts \<Longrightarrow>
   \<exists>n. stops_at db derived base k n \<and>
     create_loop attempt_tx derived base k (candidate_key base k) db = Some (answer db n (candidate_key base n))"
proof (induction "maxKeyAttempts - k" arbitrary: k)
  case 0
  then have k: "k = maxKeyAttempts" by simp
  show ?case by (intro exI [of _ k]) (auto simp: k create_loop_step [of derived base maxKeyAttempts "candidate_key base maxKeyAttempts"] stops_at_def)
next
  case (Suc m)
  then have k: "k < maxKeyAttempts" by simp
  show ?case
  proof (cases "collides db k (candidate_key base k) \<and> derived")
    case False
    then show ?thesis using k by (intro exI [of _ k]) (auto simp: create_loop_step [of derived base k] stops_at_def)
  next
    case True
    have m: "m = maxKeyAttempts - Suc k" using Suc(2) by simp
    obtain n where n: "stops_at db derived base (Suc k) n"
      "create_loop attempt_tx derived base (Suc k) (candidate_key base (Suc k)) db = Some (answer db n (candidate_key base n))"
      using Suc(1) [OF m] k by (auto simp: Suc_le_eq)
    have "collides db j (candidate_key base j)" if "k \<le> j" "j < n" for j
      using n(1) True that by (cases "j = k") (auto simp: stops_at_def)
    then have "stops_at db derived base k n" using n(1) True by (auto simp: stops_at_def)
    then show ?thesis using n(2) True k by (intro exI [of _ n]) (simp add: create_loop_step [of _ base k "candidate_key base k"])
  qed
qed

end

section \<open>What one transaction writes\<close>

lemma wrap_create_Inr: "wrap_create w m db = Inr r \<longleftrightarrow> m db = Inr r"
  by (auto simp: wrap_create_def split: sum.splits)

lemma wrap_create_Inl: "wrap_create w m db = Inl e \<longleftrightarrow> (\<exists>x. m db = Inl x \<and> e = CreateSql w x)"
  by (auto simp: wrap_create_def split: sum.splits)

lemma q_CreateSpace_Inr:
  assumes "q_CreateSpace a db = Inr (space, db')"
  shows "db_up db" "space = space_of_params a" "validKey (csp_Key a)" "csp_ID a \<notin> s_id ` set (spaces db)"
    "\<not> key_taken db (csp_OrgID a) (csp_Key a)"
    "db' = db\<lparr>spaces := spaces db @ [fst (space_of_params a)], space_columns := space_columns db @ [snd (space_of_params a)]\<rparr>"
proof -
  have "db_up db \<and> space = space_of_params a \<and> validKey (csp_Key a) \<and> \<not> list_ex (\<lambda>s. s_id s = csp_ID a) (spaces db) \<and>
    \<not> key_taken db (csp_OrgID a) (csp_Key a) \<and>
    db' = db\<lparr>spaces := spaces db @ [fst (space_of_params a)], space_columns := space_columns db @ [snd (space_of_params a)]\<rparr>"
    using assms unfolding q_CreateSpace_def by (simp split: if_split_asm) (elim conjE, simp)
  then show "db_up db" "space = space_of_params a" "validKey (csp_Key a)" "csp_ID a \<notin> s_id ` set (spaces db)"
    "\<not> key_taken db (csp_OrgID a) (csp_Key a)"
    "db' = db\<lparr>spaces := spaces db @ [fst (space_of_params a)], space_columns := space_columns db @ [snd (space_of_params a)]\<rparr>"
    by (simp_all add: list_ex_image)
qed

lemma q_CreateSpace_Inl:
  assumes "q_CreateSpace a db = Inl (SqlUnique con)"
  shows "con = ''spaces_pkey'' \<or> con = ''idx_spaces_org_key'' \<and> key_taken db (csp_OrgID a) (csp_Key a) \<or>
    con = ''spaces_org_id_type_slug_key'' \<and> slug_taken db (csp_OrgID a) (csp_Type a) (csp_Slug a)"
  using assms by (auto simp: q_CreateSpace_def split: if_splits)

lemma q_AddSpaceMember_Inl: "q_AddSpaceMember m db = Inl (SqlUnique con) \<Longrightarrow> con = ''space_members_pkey''"
  by (auto simp: q_AddSpaceMember_def Let_def split: if_splits option.splits)

lemma q_AddSpaceMember_Inr:
  "q_AddSpaceMember m db = Inr (r, db') \<Longrightarrow> \<exists>ms. db' = db\<lparr>space_members := ms\<rparr>"
  by (auto simp: q_AddSpaceMember_def Let_def split: if_splits option.splits)

lemma grant_creator_Inl: "grant_creator g inp space db = Inl e \<Longrightarrow> create_violation e = None"
  by (auto simp: grant_creator_def create_violation_def split: if_splits sum.splits)

lemma CreateSpaceTx_violation:
  assumes "CreateSpaceTx g inp db = (Inl e, db')" and "create_violation e = Some con" and "con \<notin> {''spaces_pkey'', ''space_members_pkey''}"
  shows "con = ''idx_spaces_org_key'' \<and> key_taken db (csp_OrgID (ci_Space inp)) (csp_Key (ci_Space inp)) \<or>
    con = ''spaces_org_id_type_slug_key'' \<and> slug_taken db (csp_OrgID (ci_Space inp)) (csp_Type (ci_Space inp)) (csp_Slug (ci_Space inp))"
proof -
  have "\<exists>w. wrap_create w (q_CreateSpace (ci_Space inp)) db = Inl e"
    using assms grant_creator_Inl
    by (fastforce simp: CreateSpaceTx_def in_tx_Inl stmt_run wrap_create_Inl create_violation_def uniqueViolation_def
        split: sql_error.splits dest: q_AddSpaceMember_Inl)
  then show ?thesis using assms(2,3)
    by (auto simp: wrap_create_Inl create_violation_def uniqueViolation_def split: sql_error.splits dest: q_CreateSpace_Inl)
qed

text \<open>The rows a creation appends: the space, its columns, and the creator's grant when one is due.\<close>

definition creator_grant :: "uuid \<Rightarrow> CreateInput \<Rightarrow> GrantRow" where
  "creator_grant g inp =
     \<lparr>g_id = g, g_org = csp_OrgID (ci_Space inp), g_space = csp_ID (ci_Space inp), g_subject_type = ''user'',
      g_subject_id = ci_CreatorID inp, g_role = ''space_admin'', g_created_by = Some (ci_CreatorID inp)\<rparr>"

lemma grant_creator_Inr:
  assumes "grant_creator g inp (space_of_params (ci_Space inp)) db = Inr (u, db')"
  shows "db' = db\<lparr>space_grants := space_grants db @ (if ci_CreatorNeedsGrant inp then [creator_grant g inp] else [])\<rparr>"
  using assms
  by (auto simp: grant_creator_def GrantCreate_def stmt_run pg_CreateGrant_Inr q_CreateSpaceGrant_Inr grant_row_def
      creator_grant_def space_of_params_def SubjectUser_def split: if_splits sum.splits)

lemma CreateSpaceTx_Inr:
  assumes "CreateSpaceTx g inp db = (Inr space, db')"
  shows "q_CreateSpace (ci_Space inp) db = Inr (space, db\<lparr>spaces := spaces db @ [fst space], space_columns := space_columns db @ [snd space]\<rparr>)"
    and "space = space_of_params (ci_Space inp)"
    and "\<exists>ms. db' = db\<lparr>spaces := spaces db @ [fst space], space_columns := space_columns db @ [snd space], space_members := ms,
      space_grants := space_grants db @ (if ci_CreatorNeedsGrant inp then [creator_grant g inp] else [])\<rparr>"
proof -
  from assms obtain db1 m db2 where r: "q_CreateSpace (ci_Space inp) db = Inr (space, db1)"
    "q_AddSpaceMember \<lparr>sm_id = ci_MemberRowID inp, sm_space = s_id (fst space), sm_user = ci_CreatorID inp, sm_role = ''admin''\<rparr> db1 = Inr (m, db2)"
    "grant_creator g inp space db2 = Inr ((), db')"
    by (auto simp: CreateSpaceTx_def in_tx_Inr stmt_run wrap_create_Inr)
  note c = q_CreateSpace_Inr [OF r(1)]
  show "q_CreateSpace (ci_Space inp) db = Inr (space, db\<lparr>spaces := spaces db @ [fst space], space_columns := space_columns db @ [snd space]\<rparr>)"
    "space = space_of_params (ci_Space inp)"
    using r(1) c(2,6) by simp_all
  show "\<exists>ms. db' = db\<lparr>spaces := spaces db @ [fst space], space_columns := space_columns db @ [snd space], space_members := ms,
      space_grants := space_grants db @ (if ci_CreatorNeedsGrant inp then [creator_grant g inp] else [])\<rparr>"
    using q_AddSpaceMember_Inr [OF r(2)] grant_creator_Inr [OF r(3) [unfolded c(2)]] c(2,6) by auto
qed

section \<open>Creation ends\<close>

definition requested_key :: "createSpaceRequest \<Rightarrow> string" where
  "requested_key req = (if crq_Key req = '''' then deriveKey (crq_Name req) else crq_Key req)"

definition finish_create ::
    "'db SpaceHandler \<Rightarrow> space_ctx \<Rightarrow> createSpaceRequest \<Rightarrow> string \<Rightarrow> (nat + Space) \<times> 'db \<Rightarrow> (nat + Space) \<times> 'db" where
  "finish_create h c req ref r =
     (case r of
        (Inl status, db') \<Rightarrow> (Inl status, db')
      | (Inr space, db') \<Rightarrow>
          (Inr space, assign_workflow h (sc_OrgID c) (crq_Type req) (s_id (fst space))
            (logSpaceEvent h c 0 ''space.created'' (s_id (fst space)) ref
               [(''visibility'', MText (s_visibility (fst space))), (''type'', MText (s_type (fst space))),
                (''owner_team_id'', MUuid (s_owner_team (fst space)))] db')))"

lemma resolveOwnerTeam_Inl: "resolveOwnerTeam h db org raw = Inl st \<Longrightarrow> st \<in> {400, 500}"
  by (auto simp: resolveOwnerTeam_def split: option.splits uuid_param.splits sum.splits if_splits)

lemma createPreconditions_Inl: "createPreconditions h db c u raw vis = Inl st \<Longrightarrow> st \<in> {400, 403, 500}"
  by (auto simp: createPreconditions_def rbind_eq_Inl split: if_splits option.splits dest: resolveOwnerTeam_Inl)

definition needs_grant :: "space_ctx \<Rightarrow> bool" where
  "needs_grant c \<longleftrightarrow> (case sc_Resolution c of None \<Rightarrow> True | Some r \<Rightarrow> \<not> res_IsOrgAdmin r)"

definition requested_visibility :: "createSpaceRequest \<Rightarrow> string" where
  "requested_visibility req = (if crq_Visibility req = '''' then VisibilityDiscoverable else crq_Visibility req)"

definition attempts ::
    "attempt_ids \<Rightarrow> space_ctx \<Rightarrow> uuid \<Rightarrow> createSpaceRequest \<Rightarrow> Team \<Rightarrow> nat \<Rightarrow> string \<Rightarrow> 'x space_db_scheme \<Rightarrow>
     (create_error + Space) \<times> 'x space_db_scheme" where
  "attempts ids c u req team k key =
     CreateSpaceTx (snd (snd (ids k))) (create_input ids c u req team (requested_visibility req) (needs_grant c) k key)"

lemma finish_create_Inr:
  assumes "finish_create h c req ref r = (Inr space, db')"
  obtains db1 where "r = (Inr space, db1)"
proof (cases r)
  case (Pair a db1)
  then show ?thesis using assms that by (cases a) (auto simp: finish_create_def)
qed

lemma finish_create_option:
  "map_option (finish_create h c req ref) r =
     (case r of
        None \<Rightarrow> None
      | Some (Inl status, db') \<Rightarrow> Some (Inl status, db')
      | Some (Inr space, db') \<Rightarrow>
          Some (Inr space, assign_workflow h (sc_OrgID c) (crq_Type req) (s_id (fst space))
            (logSpaceEvent h c 0 ''space.created'' (s_id (fst space)) ref
               [(''visibility'', MText (s_visibility (fst space))), (''type'', MText (s_type (fst space))),
                (''owner_team_id'', MUuid (s_owner_team (fst space)))] db')))"
  by (auto simp: finish_create_def split: option.split sum.split)

lemma h_CreateSpace_eq:
  assumes "sc_UserID c = Some u"
  shows "h_CreateSpace (pg_space_handler lids) ids c req db =
    (if crq_Name req = '''' \<or> crq_Slug req = '''' \<or> crq_Type req = '''' \<or> \<not> List.member validSpaceTypes (crq_Type req) \<or>
        \<not> List.member validVisibilities (requested_visibility req)
     then Some (Inl 400, db)
     else case createPreconditions (pg_space_handler lids) db c u (crq_OwnerTeamID req) (requested_visibility req) of
       Inl status \<Rightarrow> Some (Inl status, db)
     | Inr (team, ref) \<Rightarrow>
         if \<not> validKey (requested_key req) then Some (Inl 400, db)
         else map_option (finish_create (pg_space_handler lids) c req ref)
           (create_loop (attempts ids c u req team) (crq_Key req = '''') (requested_key req) 0 (requested_key req) db))"
proof -
  have tx: "hn_spaceTx (pg_space_handler lids) = Some CreateSpaceTx" by (simp add: pg_space_handler_def)
  show ?thesis
    unfolding h_CreateSpace_def assms option.case Let_def tx finish_create_option attempts_def [abs_def] needs_grant_def
      requested_visibility_def requested_key_def
    by (simp split: sum.split)
qed

interpretation pg_attempt: create_tx "attempts ids c u req team" for ids c u req team
  by unfold_locales (simp add: attempts_def CreateSpaceTx_def in_tx_Inl)

text \<open>Either a request is refused before anything is written, or it comes to the loop.\<close>

lemma h_CreateSpace_cases:
  obtains (refused) status where "h_CreateSpace (pg_space_handler lids) ids c req db = Some (Inl status, db)"
      "status \<in> {400, 401, 403, 500}"
  | (loop) u team ref where "sc_UserID c = Some u" "validKey (requested_key req)"
      "createPreconditions (pg_space_handler lids) db c u (crq_OwnerTeamID req) (requested_visibility req) = Inr (team, ref)"
      "h_CreateSpace (pg_space_handler lids) ids c req db = map_option (finish_create (pg_space_handler lids) c req ref)
         (create_loop (attempts ids c u req team) (crq_Key req = '''') (requested_key req) 0 (requested_key req) db)"
proof (cases "sc_UserID c")
  case None
  then show ?thesis using refused [of 401] by (simp add: h_CreateSpace_def)
next
  case (Some u)
  note eq = h_CreateSpace_eq [OF Some, of lids ids req db]
  show ?thesis
  proof (cases "createPreconditions (pg_space_handler lids) db c u (crq_OwnerTeamID req) (requested_visibility req)")
    case (Inl st)
    then show ?thesis using createPreconditions_Inl [OF Inl] refused [of 400] refused [of st] eq
      by (auto split: if_splits)
  next
    case (Inr tr)
    then show ?thesis using refused [of 400] loop [OF Some] eq
      by (cases tr) (auto split: if_splits)
  qed
qed

lemma attempts_taken:
  assumes "attempts ids c u req team k key db = (Inl e, db')" and "create_violation e = Some con"
    and "con \<notin> {''spaces_pkey'', ''space_members_pkey''}"
  shows "con = ''idx_spaces_org_key'' \<and> key_taken db (sc_OrgID c) key \<or>
    con = ''spaces_org_id_type_slug_key'' \<and> slug_taken db (sc_OrgID c) (crq_Type req) (crq_Slug req)"
  using CreateSpaceTx_violation [OF assms(1) [unfolded attempts_def] assms(2,3)] by (simp add: create_input_def)

lemma create_loop_settles:
  fixes derived :: bool and base :: string
  obtains n where "create_loop (attempts ids c u req team) derived base 0 base db =
      Some (pg_attempt.answer ids c u req team db n (candidate_key base n))"
    "n \<le> maxKeyAttempts" "derived \<or> n = 0" "\<forall>j < n. key_taken db (sc_OrgID c) (candidate_key base j)"
    "pg_attempt.collides ids c u req team db n (candidate_key base n) \<longrightarrow>
       (\<forall>j \<le> (if derived then maxKeyAttempts else 0). key_taken db (sc_OrgID c) (candidate_key base j))"
proof -
  obtain n where n: "pg_attempt.stops_at ids c u req team db derived base 0 n"
    "create_loop (attempts ids c u req team) derived base 0 base db =
      Some (pg_attempt.answer ids c u req team db n (candidate_key base n))"
    using pg_attempt.create_loop_ends [of 0 ids c u req team db derived base] by auto
  have taken: "key_taken db (sc_OrgID c) key" if "pg_attempt.collides ids c u req team db j key" for j key
    using that attempts_taken by (fastforce simp: pg_attempt.collides_def)
  have stop: "n \<le> maxKeyAttempts" "derived \<or> n = 0" "\<forall>j < n. key_taken db (sc_OrgID c) (candidate_key base j)"
    "pg_attempt.collides ids c u req team db n (candidate_key base n) \<Longrightarrow> \<not> derived \<or> n = maxKeyAttempts"
    using n(1) taken unfolding pg_attempt.stops_at_def by auto
  have "\<forall>j \<le> (if derived then maxKeyAttempts else 0). key_taken db (sc_OrgID c) (candidate_key base j)"
    if c: "pg_attempt.collides ids c u req team db n (candidate_key base n)"
  proof -
    have "n = (if derived then maxKeyAttempts else 0)" using stop(2) stop(4) [OF c] by auto
    then show ?thesis using stop(3) taken [OF c] by (metis le_neq_implies_less)
  qed
  then show ?thesis using that [OF n(2) stop(1-3)] by blast
qed

text \<open>
  C39. Creating a space always comes to an answer, although the loop that looks for a free key is not
  bounded by its own condition. A created space bears the requested key, or, when the key was derived from
  the name, the first of the derived key and its twenty suffixed forms that no live space of the
  organisation uses; the key is well formed. A refusal writes nothing, and a conflict is only
  answered when the slug is taken in the module or every key it may use is.
\<close>

theorem CreateSpace_settles_the_key:
  "\<exists>out db'. h_CreateSpace (pg_space_handler lids) ids c req db = Some (out, db') \<and>
    (case out of
       Inr space \<Rightarrow>
         \<exists>n \<le> maxKeyAttempts. (crq_Key req = '''' \<or> n = 0) \<and>
           sx_key (snd space) = candidate_key (requested_key req) n \<and> validKey (sx_key (snd space)) \<and>
           \<not> key_taken db (sc_OrgID c) (sx_key (snd space)) \<and>
           (\<forall>j < n. key_taken db (sc_OrgID c) (candidate_key (requested_key req) j))
     | Inl status \<Rightarrow>
         db' = db \<and> status \<in> {400, 401, 403, 409, 500} \<and>
         (status = 409 \<longrightarrow> slug_taken db (sc_OrgID c) (crq_Type req) (crq_Slug req) \<or>
            (\<forall>j \<le> (if crq_Key req = '''' then maxKeyAttempts else 0).
               key_taken db (sc_OrgID c) (candidate_key (requested_key req) j))))"
proof (cases rule: h_CreateSpace_cases [of lids ids c req db])
  case (refused status)
  then show ?thesis by auto
next
  case (loop u team ref)
  let ?run = "attempts ids c u req team" and ?base = "requested_key req" and ?derived = "crq_Key req = ''''"
  obtain n where n: "create_loop ?run ?derived ?base 0 ?base db = Some (pg_attempt.answer ids c u req team db n (candidate_key ?base n))"
    and stop: "n \<le> maxKeyAttempts" "?derived \<or> n = 0" "\<forall>j < n. key_taken db (sc_OrgID c) (candidate_key ?base j)"
      "pg_attempt.collides ids c u req team db n (candidate_key ?base n) \<longrightarrow>
         (\<forall>j \<le> (if ?derived then maxKeyAttempts else 0). key_taken db (sc_OrgID c) (candidate_key ?base j))"
    by (rule create_loop_settles [where ids = ids and c = c and u = u and req = req and team = team and derived = ?derived and base = ?base and db = db])
  obtain r db1 where run: "?run n (candidate_key ?base n) db = (r, db1)" by fastforce
  show ?thesis
  proof (cases r)
    case (Inr space)
    note tx = CreateSpaceTx_Inr [OF run [unfolded Inr attempts_def]]
    have "sx_key (snd space) = candidate_key ?base n" "validKey (candidate_key ?base n)"
      "\<not> key_taken db (sc_OrgID c) (candidate_key ?base n)"
      using q_CreateSpace_Inr [OF tx(1)] by (simp_all add: tx(2) space_of_params_def create_input_def)
    then show ?thesis using loop(4) n run Inr stop(1-3)
      by (auto simp: pg_attempt.answer_def finish_create_def)
  next
    case (Inl e)
    have "create_status e = 409 \<Longrightarrow> slug_taken db (sc_OrgID c) (crq_Type req) (crq_Slug req) \<or>
        (\<forall>j \<le> (if ?derived then maxKeyAttempts else 0). key_taken db (sc_OrgID c) (candidate_key ?base j))"
    proof -
      assume "create_status e = 409"
      then consider "create_violation e = Some ''idx_spaces_org_key''" | "create_violation e = Some ''spaces_org_id_type_slug_key''"
        by (auto simp: create_status_def split: option.splits if_splits)
      then show ?thesis
      proof cases
        case 1
        then have c: "pg_attempt.collides ids c u req team db n (candidate_key ?base n)"
          using run Inl by (simp add: pg_attempt.collides_def)
        from stop(4) c show ?thesis by blast
      next
        case 2
        then show ?thesis using attempts_taken [OF run [unfolded Inl] 2] by auto
      qed
    qed
    moreover have "create_status e \<in> {409, 500}" by (simp add: create_status_def split: option.split)
    ultimately show ?thesis using loop(4) n run Inl
      by (auto simp: pg_attempt.answer_def finish_create_def)
  qed
qed

section \<open>The space is its creator's\<close>

lemma q_AssignWorkflowToSpace_spaces:
  "q_AssignWorkflowToSpace v i db = Inr (n, db') \<Longrightarrow>
     \<exists>ss. db' = db\<lparr>spaces := ss\<rparr> \<and> (\<forall>x \<in> set (spaces db). \<exists>w. x\<lparr>s_workflow := w\<rparr> \<in> set ss)"
proof -
  let ?f = "\<lambda>s. if s_id s = i then s\<lparr>s_workflow := Some v\<rparr> else s"
  assume "q_AssignWorkflowToSpace v i db = Inr (n, db')"
  then have "db' = db\<lparr>spaces := map ?f (spaces db)\<rparr>" by (auto simp: q_AssignWorkflowToSpace_def split: if_splits)
  moreover have "\<exists>w. x\<lparr>s_workflow := w\<rparr> \<in> set (map ?f (spaces db))" if "x \<in> set (spaces db)" for x
  proof -
    have e: "?f x = x\<lparr>s_workflow := (if s_id x = i then Some v else s_workflow x)\<rparr>" by simp
    have "?f x \<in> set (map ?f (spaces db))" unfolding set_map using that by (rule imageI)
    then show ?thesis unfolding e by (rule exI)
  qed
  ultimately show ?thesis by blast
qed

lemma assign_workflow_spaces:
  "\<exists>ss. assign_workflow (pg_space_handler lids) org ty i db = db\<lparr>spaces := ss\<rparr> \<and>
     (\<forall>x \<in> set (spaces db). \<exists>w. x\<lparr>s_workflow := w\<rparr> \<in> set ss)"
proof -
  have same: "\<exists>ss. db = db\<lparr>spaces := ss\<rparr> \<and> (\<forall>x \<in> set (spaces db). \<exists>w. x\<lparr>s_workflow := w\<rparr> \<in> set ss)"
  proof (intro exI conjI ballI)
    show "db = db\<lparr>spaces := spaces db\<rparr>" by simp
    show "x\<lparr>s_workflow := s_workflow x\<rparr> \<in> set (spaces db)" if "x \<in> set (spaces db)" for x using that by simp
  qed
  let ?a = "AssignDefaultWorkflowToSpace org ty i db"
  have "snd ?a = db \<or> (\<exists>v n. q_AssignWorkflowToSpace v i db = Inr (n, snd ?a))"
  proof (cases "ty = ''beacon'' \<or> ty = ''vector''")
    case True
    note d = AssignDefaultWorkflowToSpace_def [of org ty i db, unfolded if_P [OF True]]
    show ?thesis
    proof (cases "q_GetDefaultWorkflow db org (if ty = ''beacon'' then ''tickets'' else ''project_items'')")
      case (Inl e)
      then show ?thesis unfolding d Inl sum.case by simp
    next
      case (Inr row)
      show ?thesis unfolding d Inr sum.case by (cases "q_AssignWorkflowToSpace (wf_id row) i db") auto
    qed
  qed (simp add: AssignDefaultWorkflowToSpace_def)
  moreover have "assign_workflow (pg_space_handler lids) org ty i db = snd ?a"
    by (simp add: assign_workflow_def pg_space_handler_def)
  ultimately show ?thesis using same q_AssignWorkflowToSpace_spaces by metis
qed

lemma logSpaceEvent_only: "\<exists>lg. logSpaceEvent (pg_space_handler lids) c k ty i ref meta db = db\<lparr>audit_log := lg\<rparr>"
  using audit_log_event_only by (fastforce simp: logSpaceEvent_def pg_space_handler_def)

text \<open>What a creation does to the tables access is resolved from.\<close>

lemma created_tables:
  assumes "h_CreateSpace (pg_space_handler lids) ids c req db = Some (Inr space, db')"
  obtains u team ref k where "sc_UserID c = Some u"
    "createPreconditions (pg_space_handler lids) db c u (crq_OwnerTeamID req) (requested_visibility req) = Inr (team, ref)"
    "space = space_of_params (ci_Space (create_input ids c u req team (requested_visibility req) (needs_grant c) k (sx_key (snd space))))"
    "s_id (fst space) \<notin> s_id ` set (spaces db)" "db_up db"
    "db_up db' = db_up db" "memberships db' = memberships db"
    "space_grants db' = space_grants db @ (if needs_grant c then
      [\<lparr>g_id = snd (snd (ids k)), g_org = sc_OrgID c, g_space = s_id (fst space), g_subject_type = ''user'',
        g_subject_id = u, g_role = ''space_admin'', g_created_by = Some u\<rparr>] else [])"
    "\<exists>w. \<exists>x \<in> set (spaces db'). x = (fst space)\<lparr>s_workflow := w\<rparr>"
proof (cases rule: h_CreateSpace_cases [of lids ids c req db])
  case (refused status)
  then show ?thesis using assms by simp
next
  case (loop u team ref)
  from assms loop(4) obtain r where r: "create_loop (attempts ids c u req team) (crq_Key req = [])
      (requested_key req) 0 (requested_key req) db = Some r" "finish_create (pg_space_handler lids) c req ref r = (Inr space, db')"
    by auto
  obtain db1 where rdb: "r = (Inr space, db1)" by (rule finish_create_Inr [OF r(2)])
  note l = r(1) [unfolded rdb] and db' = r(2) [unfolded rdb]
  obtain k key where a: "attempts ids c u req team k key db = (Inr space, db1)"
    using pg_attempt.create_loop_ends [of 0 ids c u req team db "crq_Key req = []" "requested_key req"] l
    by (auto dest: pg_attempt.answer_Inr [OF sym])
  note tx = CreateSpaceTx_Inr [OF a [unfolded attempts_def]]
  note q = q_CreateSpace_Inr [OF tx(1)]
  let ?inp = "create_input ids c u req team (requested_visibility req) (needs_grant c) k key"
  have key: "sx_key (snd space) = key" by (simp add: tx(2) space_of_params_def create_input_def)
  obtain ms where db1: "db1 = db\<lparr>spaces := spaces db @ [fst space], space_columns := space_columns db @ [snd space], space_members := ms,
      space_grants := space_grants db @ (if needs_grant c then [creator_grant (snd (snd (ids k))) ?inp] else [])\<rparr>"
    using tx(3) by (auto simp: create_input_def)
  have w: "\<exists>ss lg. db' = db1\<lparr>audit_log := lg, spaces := ss\<rparr> \<and> (\<exists>w. (fst space)\<lparr>s_workflow := w\<rparr> \<in> set ss)"
  proof -
    define db2 where "db2 = logSpaceEvent (pg_space_handler lids) c 0 ''space.created'' (s_id (fst space)) ref
      [(''visibility'', MText (s_visibility (fst space))), (''type'', MText (s_type (fst space))),
       (''owner_team_id'', MUuid (s_owner_team (fst space)))] db1"
    obtain lg where lg: "db2 = db1\<lparr>audit_log := lg\<rparr>" unfolding db2_def using logSpaceEvent_only by blast
    have a: "db' = assign_workflow (pg_space_handler lids) (sc_OrgID c) (crq_Type req) (s_id (fst space)) db2"
      using db' by (simp add: finish_create_def db2_def)
    obtain ss where ss: "db' = db2\<lparr>spaces := ss\<rparr>" "\<forall>x \<in> set (spaces db2). \<exists>w. x\<lparr>s_workflow := w\<rparr> \<in> set ss"
      unfolding a using assign_workflow_spaces by blast
    have "fst space \<in> set (spaces db2)" by (simp add: lg db1)
    then show ?thesis using ss by (auto simp: lg(1))
  qed
  then obtain ss lg w where w: "db' = db1\<lparr>audit_log := lg, spaces := ss\<rparr>" "(fst space)\<lparr>s_workflow := w\<rparr> \<in> set ss" by blast
  show ?thesis
  proof (rule that [OF loop(1,3)])
    show "space = space_of_params (ci_Space (create_input ids c u req team (requested_visibility req) (needs_grant c) k (sx_key (snd space))))"
      using tx(2) key by simp
    show "s_id (fst space) \<notin> s_id ` set (spaces db)" using q(4) by (simp add: tx(2) space_of_params_def)
    show "db_up db" by (rule q(1))
    show "db_up db' = db_up db" "memberships db' = memberships db" by (simp_all add: w db1)
    show "space_grants db' = space_grants db @ (if needs_grant c then
      [\<lparr>g_id = snd (snd (ids k)), g_org = sc_OrgID c, g_space = s_id (fst space), g_subject_type = ''user'',
        g_subject_id = u, g_role = ''space_admin'', g_created_by = Some u\<rparr>] else [])"
      by (simp add: w(1) db1 creator_grant_def create_input_def tx(2) space_of_params_def)
    show "\<exists>w. \<exists>x \<in> set (spaces db'). x = (fst space)\<lparr>s_workflow := w\<rparr>" using w by auto
  qed
qed

lemma createPreconditions_Inr:
  assumes "createPreconditions (pg_space_handler lids) db c u raw vis = Inr (team, ref)"
  shows "\<exists>t \<in> set (teams db). t_id t = team_ID team \<and> t_org t = sc_OrgID c \<and> \<not> t_deleted t"
    and "\<not> needs_grant c \<or> (\<exists>m \<in> set (team_members db). tm_team m = team_ID team \<and> tm_user m = u \<and> tm_role m = ''lead'')"
    and "vis = VisibilityDiscoverable \<or> \<not> needs_grant c"
proof -
  let ?h = "pg_space_handler lids"
  have svc: "hn_teamSvc ?h = Some pg_team_store" by (simp add: pg_space_handler_def)
  from assms have p: "resolveOwnerTeam ?h db (sc_OrgID c) raw = Inr team" "canCreateSpace ?h db (sc_Resolution c) team u"
    "vis = VisibilityDiscoverable \<or> CanOrgWide (sc_Resolution c) CapSetVisibility"
    by (auto simp: createPreconditions_def rbind_eq_Inr split: if_splits option.splits)
  show "\<exists>t \<in> set (teams db). t_id t = team_ID team \<and> t_org t = sc_OrgID c \<and> \<not> t_deleted t"
    using p(1)
    by (auto simp: resolveOwnerTeam_def svc TeamGet_def TeamGetDefault_def pg_TeamGet_def pg_TeamGetDefault_def team_row_def
        q_GetTeamByID_def q_GetDefaultTeam_def dbTeamToDomain_def live_team_def
        split: uuid_param.splits sum.splits if_splits option.splits dest!: find_Some_in)
  show "\<not> needs_grant c \<or> (\<exists>m \<in> set (team_members db). tm_team m = team_ID team \<and> tm_user m = u \<and> tm_role m = ''lead'')"
    using p(2)
    by (auto simp: canCreateSpace_def needs_grant_def svc TeamGetMember_def pg_GetMember_def team_row_def q_GetTeamMember_def
        dbMemberToDomain_def IsLead_def split: sum.splits if_splits option.splits dest!: find_Some_in)
  show "vis = VisibilityDiscoverable \<or> \<not> needs_grant c"
    using p(3) by (auto simp: CanOrgWide_def res_CanOrgWide_def needs_grant_def split: option.splits if_splits)
qed

text \<open>
  C40. A space belongs to its creator the moment it exists, and to nobody through a back door. A creation
  that succeeds was made by an org admin or a lead of the owning team, which is a live team of the
  organisation, and only an admin chose a visibility other than the default. On their next request the
  creator may manage the space. For a member that rests on one new grant row, theirs; an admin gets none,
  and no other grant is touched.
\<close>

theorem CreateSpace_hands_over:
  assumes caller: "sc_UserID c = Some u" "sc_Resolution c = Some res" "Resolve pg_access_store db (sc_OrgID c) u = Inr res"
    and create: "h_CreateSpace (pg_space_handler lids) ids c req db = Some (Inr space, db')"
  shows "s_org (fst space) = sc_OrgID c \<and>
    (\<exists>t \<in> set (teams db). t_id t = s_owner_team (fst space) \<and> t_org t = sc_OrgID c \<and> \<not> t_deleted t) \<and>
    (org_admin db (sc_OrgID c) u \<or>
      s_visibility (fst space) = ''discoverable'' \<and>
      (\<exists>m \<in> set (team_members db). tm_team m = s_owner_team (fst space) \<and> tm_user m = u \<and> tm_role m = ''lead'')) \<and>
    (\<exists>res'. Resolve pg_access_store db' (sc_OrgID c) u = Inr res' \<and> Can (Some res') CapManageSpace (s_id (fst space))) \<and>
    (\<exists>g. space_grants db' = space_grants db @ (if org_admin db (sc_OrgID c) u then [] else
      [\<lparr>g_id = g, g_org = sc_OrgID c, g_space = s_id (fst space), g_subject_type = ''user'', g_subject_id = u,
        g_role = ''space_admin'', g_created_by = Some u\<rparr>]))"
proof (rule created_tables [OF create])
  fix u' team ref k
  assume a: "sc_UserID c = Some u'"
    "createPreconditions (pg_space_handler lids) db c u' (crq_OwnerTeamID req) (requested_visibility req) = Inr (team, ref)"
    "space = space_of_params (ci_Space (create_input ids c u' req team (requested_visibility req) (needs_grant c) k (sx_key (snd space))))"
    "db_up db" "db_up db' = db_up db" "memberships db' = memberships db"
    and g: "space_grants db' = space_grants db @ (if needs_grant c then
      [\<lparr>g_id = snd (snd (ids k)), g_org = sc_OrgID c, g_space = s_id (fst space), g_subject_type = ''user'',
        g_subject_id = u', g_role = ''space_admin'', g_created_by = Some u'\<rparr>] else [])"
    and w: "\<exists>w. \<exists>x \<in> set (spaces db'). x = (fst space)\<lparr>s_workflow := w\<rparr>"
  have u: "u' = u" using a(1) caller(1) by simp
  have admin: "needs_grant c \<longleftrightarrow> \<not> org_admin db (sc_OrgID c) u"
    using Resolve_pg_cases [of db "sc_OrgID c" u] caller by (simp add: needs_grant_def)
  have s: "s_org (fst space) = sc_OrgID c" "s_owner_team (fst space) = team_ID team"
    "s_visibility (fst space) = requested_visibility req" "\<not> s_deleted (fst space)"
    by (subst a(3), simp add: space_of_params_def create_input_def)+
  note p = createPreconditions_Inr [OF a(2)]
  have m: "org_member db' = org_member db" "org_admin db' (sc_OrgID c) u = org_admin db (sc_OrgID c) u"
    by (simp_all add: org_member_def org_admin_def q_GetMembership_def a(6) fun_eq_iff)
  obtain res' where res': "Resolve pg_access_store db' (sc_OrgID c) u = Inr res'"
    using Resolve_member_again [OF caller(3) a(5) m(1)] by blast
  obtain v where v: "(fst space)\<lparr>s_workflow := v\<rparr> \<in> set (spaces db')" using w by blast
  have live: "live_space_of db' (sc_OrgID c) (s_id (fst space))" "space_live db' (s_id (fst space))"
    unfolding live_space_of_def space_live_iff by (rule bexI [OF _ v], simp add: s)+
  have "Can (Some res') CapManageSpace (s_id (fst space))"
  proof (cases "org_admin db (sc_OrgID c) u")
    case True
    then show ?thesis using pg.can_admin [OF res'] m(2) live(1) by (simp add: Can_def)
  next
    case False
    then have "role_reaches db' (sc_OrgID c) u (s_id (fst space)) RoleSpaceAdmin"
      using g admin live(2) by (simp add: role_reaches_def grant_reaches_def u)
    then show ?thesis using pg.can_member [OF res'] False m(2) by (auto simp: Can_def minRoleFor_def)
  qed
  then show ?thesis using p s g admin res' u by (auto simp: VisibilityDiscoverable_def)
qed

section \<open>A space to evaluate on\<close>

text \<open>Space 31 of the demonstration organisation has the key \<open>OPS\<close>. Its owner asks for a second space whose
  name derives the same key.\<close>

definition demo_spaces :: space_db where
  "demo_spaces = work_db.extend demo_shared
     \<lparr>space_columns =
        [\<lparr>sx_space = 31, sx_slug = ''ops'', sx_key = ''OPS'', sx_description = None, sx_icon = None, sx_private = False,
          sx_created_by = 10\<rparr>,
         \<lparr>sx_space = 32, sx_slug = ''handbook'', sx_key = ''HANDBOOK'', sx_description = None, sx_icon = None,
          sx_private = False, sx_created_by = 10\<rparr>,
         \<lparr>sx_space = 33, sx_slug = ''old'', sx_key = ''OLD'', sx_description = None, sx_icon = None, sx_private = False,
          sx_created_by = 10\<rparr>],
      space_members = []\<rparr>"

definition demo_space_request :: createSpaceRequest where
  "demo_space_request =
     \<lparr>crq_Slug = ''ops-room'', crq_Name = ''Ops room'', crq_Key = '''', crq_Description = None, crq_Type = ''codex'', crq_Icon = None,
      crq_IsPrivate = False, crq_OwnerTeamID = ParamIs 20, crq_Visibility = ''''\<rparr>"

definition demo_owner_resolution :: Resolution where
  "demo_owner_resolution =
     (case Resolve pg_access_store demo_spaces 1 10 of Inr r \<Rightarrow> r
      | Inl _ \<Rightarrow> \<lparr>res_OrgID = 1, res_UserID = 10, res_OrgRoleName = '''', res_IsOrgAdmin = False, res_roles = [],
                  res_adminSpaces = [], res_readable = []\<rparr>)"

definition demo_space_ctx :: space_ctx where
  "demo_space_ctx =
     \<lparr>sc_OrgID = 1, sc_UserID = Some 10, sc_Resolution = Some demo_owner_resolution, sc_Policy = \<lparr>policy_Required = False\<rparr>,
      sc_TicketParam = ''''\<rparr>"

definition demo_attempt_ids :: attempt_ids where
  "demo_attempt_ids k = (34 + of_nat k, 400 + of_nat k, 500 + of_nat k)"

lemma demo_space_created:
  "case h_CreateSpace (pg_space_handler (\<lambda>k. 700)) demo_attempt_ids demo_space_ctx demo_space_request demo_spaces of
     Some (Inr space, db') \<Rightarrow> sx_key (snd space) = ''OPS1'' | _ \<Rightarrow> False"
  by code_simp

lemma CreateSpace_settles_the_key_witness:
  "\<exists>space db'. h_CreateSpace (pg_space_handler (\<lambda>k. 700)) demo_attempt_ids demo_space_ctx demo_space_request demo_spaces =
      Some (Inr space, db') \<and> sx_key (snd space) = ''OPS1'' \<and> validKey ''OPS1'' \<and> \<not> key_taken demo_spaces 1 ''OPS1'' \<and>
      (\<exists>n \<le> maxKeyAttempts. ''OPS1'' = candidate_key (requested_key demo_space_request) n \<and>
         (\<forall>j < n. key_taken demo_spaces 1 (candidate_key (requested_key demo_space_request) j)))"
proof -
  obtain space db' where s:
    "h_CreateSpace (pg_space_handler (\<lambda>k. 700)) demo_attempt_ids demo_space_ctx demo_space_request demo_spaces = Some (Inr space, db')"
    "sx_key (snd space) = ''OPS1''"
    using demo_space_created by (auto split: option.splits prod.splits sum.splits)
  have "sc_OrgID demo_space_ctx = 1" by (simp add: demo_space_ctx_def)
  then show ?thesis
    using CreateSpace_settles_the_key [of "\<lambda>k. 700" demo_attempt_ids demo_space_ctx demo_space_request demo_spaces] s by auto
qed

text \<open>A lead of team 21 who is no admin creates a space for the team.\<close>

definition demo_lead_resolution :: Resolution where
  "demo_lead_resolution =
     (case Resolve pg_access_store demo_spaces 1 11 of Inr r \<Rightarrow> r | Inl _ \<Rightarrow> demo_owner_resolution)"

definition demo_lead_ctx :: space_ctx where
  "demo_lead_ctx = demo_space_ctx\<lparr>sc_UserID := Some 11, sc_Resolution := Some demo_lead_resolution\<rparr>"

definition demo_lead_request :: createSpaceRequest where
  "demo_lead_request = demo_space_request\<lparr>crq_OwnerTeamID := ParamIs 21\<rparr>"

lemma demo_lead_created:
  "case h_CreateSpace (pg_space_handler (\<lambda>k. 700)) demo_attempt_ids demo_lead_ctx demo_lead_request demo_spaces of
     Some (Inr space, db') \<Rightarrow> s_id (fst space) = 35 | _ \<Rightarrow> False"
  by code_simp

lemma demo_lead_resolves: "Resolve pg_access_store demo_spaces 1 11 = Inr demo_lead_resolution" "\<not> org_admin demo_spaces 1 11"
  by (code_simp, code_simp)

lemma CreateSpace_hands_over_witness:
  "\<exists>space db' g. h_CreateSpace (pg_space_handler (\<lambda>k. 700)) demo_attempt_ids demo_lead_ctx demo_lead_request demo_spaces =
      Some (Inr space, db') \<and> (\<exists>res'. Resolve pg_access_store db' 1 11 = Inr res' \<and> Can (Some res') CapManageSpace 35) \<and>
      space_grants db' = space_grants demo_spaces @
        [\<lparr>g_id = g, g_org = 1, g_space = 35, g_subject_type = ''user'', g_subject_id = 11, g_role = ''space_admin'', g_created_by = Some 11\<rparr>]"
proof -
  obtain space db' where s:
    "h_CreateSpace (pg_space_handler (\<lambda>k. 700)) demo_attempt_ids demo_lead_ctx demo_lead_request demo_spaces = Some (Inr space, db')"
    "s_id (fst space) = 35"
    using demo_lead_created by (auto split: option.splits prod.splits sum.splits)
  have c: "sc_OrgID demo_lead_ctx = 1" "sc_UserID demo_lead_ctx = Some 11" "sc_Resolution demo_lead_ctx = Some demo_lead_resolution"
    by (simp_all add: demo_lead_ctx_def demo_space_ctx_def)
  show ?thesis
    using CreateSpace_hands_over [OF c(2,3) demo_lead_resolves(1) [folded c(1)] s(1)] s demo_lead_resolves(2) unfolding c(1) by auto
qed

end
