(* ===== verification/Spec2Isabelle.thy ===== *)
theory Spec2Isabelle
  imports AccessExplain AccessBulk WorkflowReach ShareReach PageTreeView PeopleReach DocMarkdown TagReach DocReach
    PageHistory SpaceReach
begin

text \<open>
  A verification development for Azimuthal, a self-hosted work platform in Go: service desk tickets,
  project items and wiki pages in spaces, with teams, capabilities, shares and workflows. The theories
  model the parts of \<^verbatim>\<open>src/internal\<close> that decide who may do what, how an entity moves, and
  how pages and their documents are stored, from the request handlers or services down to the SQL.

  \<^bold>\<open>How the program is put together, and how the model follows it.\<close>
  A handler (\<^verbatim>\<open>core/api/*\<close>) parses a request, asks the access layer, and calls a service
  (\<^verbatim>\<open>core/*\<close>); the service sees its storage through an interface; an adapter
  (\<^verbatim>\<open>db/adapters\<close>) implements the interface with transactions over generated statements
  (\<^verbatim>\<open>db/queries\<close>). Here a service is a group of definitions over a record of the interface's
  operations. The interface's promises are a locale, the service's lemmas are proved inside it, and the
  adapter's model is its interpretation. A statement (\<open>q_\<dots>\<close>) is a function on a record of tables
  (\<open>org_db\<close>, extended by \<open>work_db\<close> and \<open>doc_db\<close>); a transaction is \<open>in_tx\<close> of a composed statement
  and rolls back as a whole; outside a transaction every statement commits by itself and the database
  is passed along, also after a failure. \<open>db_up\<close> false is a database that answers every statement with
  an error. Unique constraints, checks and foreign keys of \<^verbatim>\<open>migrations\<close> are branches of the
  statements. Identifiers, clocks and the columns the database mints are arguments. Errors are sums; an
  error wrapped with \<^verbatim>\<open>%w\<close> is its sentinel. Versions are 32-bit words, lists and maps of
  unspecified order are lists with the order the code gives them.

  \<^bold>\<open>The theories.\<close>
  \<^item> \<open>Prelude\<close>, \<open>GoStrings\<close>, \<open>UuidText\<close>: results, statements and transactions; Go's \<^verbatim>\<open>strings\<close>
    functions on bytes; the text of a UUID.
  \<^item> \<open>OrgDb\<close>, \<open>WorkDb\<close>, \<open>AuditLog\<close>: the tables and the statements several components share; the audit
    event and the ticket-reference policy (\<^verbatim>\<open>core/audit\<close>, \<^verbatim>\<open>core/api/ticketref\<close>).
  \<^item> \<open>AccessCapability\<close>, \<open>AccessResolver\<close>, \<open>AccessStore\<close>, \<open>AccessExplain\<close>, \<open>AccessGrants\<close>, \<open>AccessBulk\<close>:
    \<^verbatim>\<open>core/access\<close> and \<^verbatim>\<open>db/adapters/access.go\<close>. C1 to C8: what a member may do is
    exactly what an owner row or a grant to them or one of their effective teams gives them, never across
    organisations; the explanation agrees with the decision; grants and revocations act at once; the
    matrix applies what its preview showed, atomically, and applying it again, as a batch of its own, finds
    only no-ops and writes nothing.
  \<^item> \<open>WorkflowGuard\<close>, \<open>WorkflowPostFunction\<close>, \<open>WorkflowTier\<close>, \<open>WorkflowGate\<close>, \<open>WorkflowStore\<close>,
    \<open>WorkflowGraph\<close>, \<open>WorkflowApply\<close>, \<open>WorkflowReach\<close>: \<^verbatim>\<open>core/workflow\<close>, its adapters and
    the editor routes of \<^verbatim>\<open>core/api/workflows/handler.go\<close>. C9 to C16: the transition chokepoint, who
    is offered, told and may decide, the decision applied once and whole, the requests as an append-only
    record. A run of C14 also edits the graph: \<open>WorkflowGraph\<close> has what deleting a workflow, a state or
    an edge takes along, and a decided request may only lose the references to what was deleted.
  \<^item> \<open>SharePaths\<close>, \<open>Shares\<close>, \<open>ShareStorePg\<close>, \<open>ShareReach\<close>: entity shares
    (\<^verbatim>\<open>core/access/shares.go\<close> and its adapter). C17 to C21: the LIKE pattern of a subtree is exact,
    coverage is what live shares give, and what an unrevoked share blocks.
  \<^item> \<open>WikiPages\<close>, \<open>PageStorePg\<close>, \<open>PageTree\<close>, \<open>PageReach\<close>, \<open>PageSaves\<close>, \<open>PageTreeView\<close>:
    \<^verbatim>\<open>core/wiki\<close> (pages, revisions, tree) and \<^verbatim>\<open>db/adapters/content_tx.go\<close>. C22 to
    C27: pages stay a tree with right paths, moves and deletes revoke the shares they must in the
    transaction that moves, the second of two saves is told, and the tree shown is the tree stored. C26 is
    in \<open>PageHistory\<close>: its runs interleave the page service with the document service below, the two
    writers of versions.
  \<^item> \<open>Teams\<close>, \<open>TeamStorePg\<close>, \<open>TeamApi\<close>, \<open>TeamForest\<close>, \<open>TeamMoves\<close>, \<open>TeamReparents\<close>, \<open>TeamReach\<close>,
    \<open>TeamMembers\<close>, \<open>People\<close>, \<open>PeopleReach\<close>: \<^verbatim>\<open>core/teams\<close> and \<^verbatim>\<open>core/people\<close>,
    their adapters and handlers, and the enrolment of new accounts. C28 to C32: reparenting is the tree
    move, effective teams are the direct ones and their descendants, the teams stay a forest, and enrolment
    completes. A run of C31 takes every writer of teams and memberships: the team and people routes,
    invitations and provisioned accounts, default-team seeding; a primary team is only ever lost by
    removal from the organisation.
  \<^item> \<open>DocJson\<close>, \<open>DocStrings\<close>, \<open>DocModel\<close>, \<open>DocShield\<close>, \<open>DocObjects\<close>, \<open>DocRoundTrip\<close>, \<open>DocMarkdown\<close>:
    \<^verbatim>\<open>core/wiki/doc\<close>. JSON is a concrete syntax tree whose rendering is the bytes, white space
    and escapes included, because the code keeps raw messages. C33 and C34: \<open>Restore\<close> undoes \<open>Shield\<close>, and
    the editor is shown its schema only; C36: the markdown projection fails on nothing but depth.
  \<^item> \<open>Tags\<close>, \<open>TagService\<close>, \<open>TagReach\<close>: \<^verbatim>\<open>core/tags\<close> and its adapter. C35.
  \<^item> \<open>DocService\<close>, \<open>DocPublish\<close>, \<open>DocLoss\<close>, \<open>DocReach\<close>: \<^verbatim>\<open>core/wiki/document.go\<close>, the drafts and
    the publish transaction. C37 and C38: no preserved content is lost without being acknowledged, and a
    publish is all or nothing.
  \<^item> \<open>Spaces\<close>, \<open>SpaceApi\<close>, \<open>SpaceReach\<close>: \<^verbatim>\<open>core/api/spaces\<close> and \<^verbatim>\<open>db/adapters/space_create_tx.go\<close>.
    C39 and C40: creating a space ends with the first free key, and the space is its creator's to manage.

  \<^bold>\<open>Bounds.\<close> No model runs on fuel it could exhaust: recursion over documents and teams is bounded by
  the code's own limits (two hundred levels of a document, ten thousand of JSON, five levels of teams, a
  depth column in the recursive queries), or by the size of the data. The loop of C39 has no
  bound in its condition: it is a partial function, and the theorem shows that it stops within twenty-one attempts.

  \<^bold>\<open>Parameters.\<close> Code outside the repository is an argument: \<open>uuid.Parse\<close>, the Unicode case tables, the
  goldmark parser behind \<open>doc.FromMarkdown\<close>, the object store behind page images. Where a law of one is
  used it is a named hypothesis (\<open>uuid_text\<close>) with an instance in the witness.

  \<^bold>\<open>Not modelled, and why.\<close> The generated row scanning of \<^verbatim>\<open>db/generated\<close> beyond the statements;
  routing, decoding and encoding of HTTP; the conversion of a goldmark tree in
  \<^verbatim>\<open>core/wiki/doc/markdown.go\<close>, which walks a third-party syntax tree; collation (byte order stands
  for it, and no property rests on it); clocks and concurrency inside the database (a transaction is one
  step, and two requests interleave as sequences of them); the components listed as not modelled in the
  manifest (tickets, projects, sessions and account deactivation, views, dashboards, portal, authentication, mail, storage, importers,
  analytics, the web client), which the parts above do not call.
\<close>

end
